(* ===== verification/Prelude.thy ===== *)
theory Prelude
  imports Main
begin

text \<open>
  Shared vocabulary of the development: the exceptions of the deployment control plane
  with Python's subclass relation, results (an exception or a value), actions over a world
  that keep the world's changes when they raise, and the generic lemmas on which the
  component theories rest.
\<close>

section \<open>Exceptions\<close>

text \<open>
  One constructor per exception class that the modelled modules raise or catch.  The
  exception messages are static text and are not modelled; the class is what every
  \<open>except\<close> clause looks at.
\<close>

datatype exn =
    KeyboardInterrupt | SystemExit | GeneratorExit
  | ValueError | TypeError | KeyError | AttributeError | OSError | FileNotFoundError
  | RecursionError | AssertionError | UnicodeDecodeError | JSONDecodeError | TimeoutError
  | InterruptedError | OverflowError | IndexError
  | IntegrityError
  | DeploymentPolicyError | ExecutorRequestError | OIDCAuthorizationError
  | ReplayError | ReplayUnavailableError | RuntimeOperationError
  | OIDCVerificationError | OIDCVerificationUnavailable
  | BrokerRejectedError | BrokerUnavailableError
  | ExecutorRejectedError | ExecutorUnavailableError
  | DeploymentOperationError | StateStoreUnavailableError
  | ExecutorTransportUnavailableError | ExecutorConnectionUnavailableError
  | ExecutorListenerUnavailableError
  | PrivateRegistryTransferError | PrivateRegistryPullError | IngressRejectedError

text \<open>The proper superclasses of a class, without \<open>Exception\<close> and \<open>BaseException\<close>.\<close>

fun superclasses :: "exn \<Rightarrow> exn list" where
  "superclasses UnicodeDecodeError = [ValueError]"
| "superclasses JSONDecodeError = [ValueError]"
| "superclasses FileNotFoundError = [OSError]"
| "superclasses TimeoutError = [OSError]"
| "superclasses InterruptedError = [OSError]"
| "superclasses DeploymentPolicyError = [ValueError]"
| "superclasses ExecutorRequestError = [DeploymentPolicyError, ValueError]"
| "superclasses OIDCAuthorizationError = [DeploymentPolicyError, ValueError]"
| "superclasses ReplayError = [DeploymentPolicyError, ValueError]"
| "superclasses ReplayUnavailableError = [ReplayError, DeploymentPolicyError, ValueError]"
| "superclasses RuntimeOperationError = [DeploymentPolicyError, ValueError]"
| "superclasses IngressRejectedError = [ValueError]"
| "superclasses OIDCVerificationUnavailable = [OIDCVerificationError]"
| "superclasses _ = []"

definition is_Exception :: "exn \<Rightarrow> bool" where
  "is_Exception e \<longleftrightarrow> e \<notin> {KeyboardInterrupt, SystemExit, GeneratorExit}"

definition isinstance_exn :: "exn \<Rightarrow> exn \<Rightarrow> bool" where
  "isinstance_exn e c \<longleftrightarrow> e = c \<or> c \<in> set (superclasses e)"

text \<open>\<open>caught e cs\<close>: the clause \<open>except (cs): ...\<close> catches \<open>e\<close>.\<close>

definition caught :: "exn \<Rightarrow> exn list \<Rightarrow> bool" where
  "caught e cs \<longleftrightarrow> list_ex (isinstance_exn e) cs"

section \<open>Results\<close>

type_synonym 'a result = "exn + 'a"

definition bnd :: "'a result \<Rightarrow> ('a \<Rightarrow> 'b result) \<Rightarrow> 'b result" where
  "bnd m f = (case m of Inl e \<Rightarrow> Inl e | Inr x \<Rightarrow> f x)"

text \<open>\<open>try: m except (cs): raise e'\<close>\<close>

definition catch_as :: "exn list \<Rightarrow> exn \<Rightarrow> 'a result \<Rightarrow> 'a result" where
  "catch_as cs e' m = (case m of Inl e \<Rightarrow> Inl (if caught e cs then e' else e) | Inr x \<Rightarrow> Inr x)"

fun traverse :: "('a \<Rightarrow> 'b result) \<Rightarrow> 'a list \<Rightarrow> 'b list result" where
  "traverse f [] = Inr []"
| "traverse f (x # xs) = bnd (f x) (\<lambda>y. bnd (traverse f xs) (\<lambda>ys. Inr (y # ys)))"

section \<open>Actions\<close>

text \<open>
  An action reads and changes a world and returns or raises.  A raise keeps the changes
  made before it, as in Python.
\<close>

type_synonym ('w, 'a) act = "'w \<Rightarrow> 'a result \<times> 'w"

definition act_bind :: "('w, 'a) act \<Rightarrow> ('a \<Rightarrow> ('w, 'b) act) \<Rightarrow> ('w, 'b) act" where
  "act_bind m f w = (case m w of (Inl e, w') \<Rightarrow> (Inl e, w') | (Inr x, w') \<Rightarrow> f x w')"

definition act_lift :: "'a result \<Rightarrow> ('w, 'a) act" where
  "act_lift r w = (r, w)"

text \<open>\<open>try: m except BaseException-or-less: h\<close>, the handler as an action of the exception.\<close>

definition act_catch :: "('w, 'a) act \<Rightarrow> (exn \<Rightarrow> ('w, 'a) act) \<Rightarrow> ('w, 'a) act" where
  "act_catch m h w = (case m w of (Inl e, w') \<Rightarrow> h e w' | (Inr x, w') \<Rightarrow> (Inr x, w'))"

text \<open>\<open>try: m except BaseException: pass\<close>\<close>

definition act_ignore :: "('w, 'a) act \<Rightarrow> 'w \<Rightarrow> 'w" where
  "act_ignore m w = snd (m w)"

section \<open>Lemma collections\<close>

named_theorems py_simps \<open>characterisations of accepting runs of the validators\<close>
named_theorems act_simps \<open>the action combinators, unfolded on a world\<close>

lemma bnd_simps [simp]:
  "bnd (Inl e) f = Inl e"
  "bnd (Inr x) f = f x"
  by (simp_all add: bnd_def)

lemma bnd_Inr_iff [simp]: "bnd m f = Inr y \<longleftrightarrow> (\<exists>x. m = Inr x \<and> f x = Inr y)"
  by (cases m) simp_all

lemma bnd_Inl_iff: "bnd m f = Inl e \<longleftrightarrow> m = Inl e \<or> (\<exists>x. m = Inr x \<and> f x = Inl e)"
  by (cases m) simp_all

lemma bnd_assoc: "bnd (bnd m f) g = bnd m (\<lambda>x. bnd (f x) g)"
  by (cases m) simp_all

lemma bnd_cong [fundef_cong]:
  assumes "m = m'" and "\<And>x. m' = Inr x \<Longrightarrow> f x = f' x"
  shows "bnd m f = bnd m' f'"
  using assms by (cases m') simp_all

lemma catch_as_Inr_iff [simp]: "catch_as cs e' m = Inr x \<longleftrightarrow> m = Inr x"
  by (cases m) (simp_all add: catch_as_def)

lemma catch_as_simps [simp]:
  "catch_as cs e' (Inr x) = Inr x"
  "catch_as cs e' (Inl e) = Inl (if caught e cs then e' else e)"
  by (simp_all add: catch_as_def)

lemma if_Inl_Inr_iff [simp]:
  "(if b then Inl e else r) = Inr y \<longleftrightarrow> \<not> b \<and> r = Inr y"
  by simp

lemma traverse_Inr_iff:
  "traverse f xs = Inr ys \<longleftrightarrow> list_all2 (\<lambda>x y. f x = Inr y) xs ys"
proof (induction xs arbitrary: ys)
  case Nil
  then show ?case by auto
next
  case (Cons x xs)
  then show ?case by (cases ys) auto
qed

lemma traverse_map_Inr: "(\<And>y. y \<in> set ys \<Longrightarrow> f (g y) = Inr y) \<Longrightarrow> traverse f (map g ys) = Inr ys"
  by (simp add: traverse_Inr_iff list_all2_map1 list.rel_refl_strong)

text \<open>\<open>raises_only E r\<close>: the result is a value or an exception of \<open>E\<close>.\<close>

definition raises_only :: "exn set \<Rightarrow> 'a result \<Rightarrow> bool" where
  "raises_only E r \<longleftrightarrow> (\<forall>e. r = Inl e \<longrightarrow> e \<in> E)"

named_theorems raise_rules \<open>which exceptions an operation raises\<close>

lemma raises_onlyI: "(\<And>e. r = Inl e \<Longrightarrow> e \<in> E) \<Longrightarrow> raises_only E r"
  by (simp add: raises_only_def)

lemma raises_onlyD: "raises_only E r \<Longrightarrow> r = Inl e \<Longrightarrow> e \<in> E"
  by (simp add: raises_only_def)

lemma raises_only_Inr [raise_rules, simp]: "raises_only E (Inr x)"
  by (simp add: raises_only_def)

lemma raises_only_Inl [simp]: "raises_only E (Inl e) \<longleftrightarrow> e \<in> E"
  by (simp add: raises_only_def)

lemma raises_only_mono: "raises_only E r \<Longrightarrow> E \<subseteq> F \<Longrightarrow> raises_only F r"
  by (auto simp: raises_only_def)

lemma raises_only_bnd [raise_rules]:
  "raises_only E m \<Longrightarrow> (\<And>x. m = Inr x \<Longrightarrow> raises_only E (f x)) \<Longrightarrow> raises_only E (bnd m f)"
  by (cases m) (simp_all add: raises_only_def)

lemma raises_only_if [raise_rules]:
  "(b \<Longrightarrow> raises_only E r) \<Longrightarrow> (\<not> b \<Longrightarrow> raises_only E s) \<Longrightarrow> raises_only E (if b then r else s)"
  by simp

lemma raises_only_catch_as:
  "raises_only F m \<Longrightarrow> (\<And>e. e \<in> F \<Longrightarrow> (if caught e cs then e' else e) \<in> E) \<Longrightarrow> raises_only E (catch_as cs e' m)"
  by (cases m) (auto simp: raises_only_def)

lemma raises_only_traverse [raise_rules]:
  "(\<And>x. x \<in> set xs \<Longrightarrow> raises_only E (f x)) \<Longrightarrow> raises_only E (traverse f xs)"
  by (induction xs) (auto intro!: raise_rules)

lemma act_bind_apply [act_simps]:
  "act_bind m f w = (case m w of (Inl e, w') \<Rightarrow> (Inl e, w') | (Inr x, w') \<Rightarrow> f x w')"
  by (rule act_bind_def)

lemma act_bind_cong [fundef_cong]:
  assumes "m = m'" and "w = w'" and "\<And>x w1. m' w' = (Inr x, w1) \<Longrightarrow> f x w1 = f' x w1"
  shows "act_bind m f w = act_bind m' f' w'"
  using assms by (simp add: act_bind_def split: prod.splits sum.splits)

lemma act_lift_apply [simp]: "act_lift r w = (r, w)"
  by (simp add: act_lift_def)

lemma act_bind_Inr_iff:
  "act_bind m f w = (Inr y, w') \<longleftrightarrow> (\<exists>x w1. m w = (Inr x, w1) \<and> f x w1 = (Inr y, w'))"
  by (simp add: act_bind_def split: prod.splits sum.splits)

lemma act_bind_Inl_iff:
  "act_bind m f w = (Inl e, w') \<longleftrightarrow>
     m w = (Inl e, w') \<or> (\<exists>x w1. m w = (Inr x, w1) \<and> f x w1 = (Inl e, w'))"
  by (auto simp add: act_bind_def split: prod.splits sum.splits)

lemma act_bind_eq: "m w = (Inr x, w1) \<Longrightarrow> act_bind m f w = f x w1"
  by (simp add: act_bind_def)

lemma act_bind_eq_Inl: "m w = (Inl e, w1) \<Longrightarrow> act_bind m f w = (Inl e, w1)"
  by (simp add: act_bind_def)

lemma act_catch_eq: "m w = (Inr x, w1) \<Longrightarrow> act_catch m h w = (Inr x, w1)"
  by (simp add: act_catch_def)

lemma act_catch_eq_Inl: "m w = (Inl e, w1) \<Longrightarrow> act_catch m h w = h e w1"
  by (simp add: act_catch_def)

lemma act_catch_Inr_iff:
  "act_catch m h w = (Inr x, w') \<longleftrightarrow>
     m w = (Inr x, w') \<or> (\<exists>e w1. m w = (Inl e, w1) \<and> h e w1 = (Inr x, w'))"
  by (auto simp add: act_catch_def split: prod.splits sum.splits)

section \<open>Weakest preconditions of actions\<close>

text \<open>\<open>wp m Q E w\<close>: run from \<open>w\<close>, \<open>m\<close> returns into \<open>Q\<close> or raises into \<open>E\<close>.\<close>

definition wp :: "('w, 'a) act \<Rightarrow> ('a \<Rightarrow> 'w \<Rightarrow> bool) \<Rightarrow> (exn \<Rightarrow> 'w \<Rightarrow> bool) \<Rightarrow> 'w \<Rightarrow> bool" where
  "wp m Q E w = (case m w of (Inr x, w') \<Rightarrow> Q x w' | (Inl e, w') \<Rightarrow> E e w')"

named_theorems wp_rules \<open>introduction rules for the weakest preconditions of calls\<close>

lemma wp_act_bind [simp]: "wp (act_bind m f) Q E w = wp m (\<lambda>x. wp (f x) Q E) E w"
  by (simp add: wp_def act_bind_def split: prod.splits sum.splits)

lemma wp_act_catch [simp]: "wp (act_catch m h) Q E w = wp m Q (\<lambda>e. wp (h e) Q E) w"
  by (simp add: wp_def act_catch_def split: prod.splits sum.splits)

lemma wp_act_lift [simp]: "wp (act_lift r) Q E w = (case r of Inr x \<Rightarrow> Q x w | Inl e \<Rightarrow> E e w)"
  by (simp add: wp_def split: sum.splits)

lemma wp_conseq:
  "wp m Q E w \<Longrightarrow> (\<And>x w'. Q x w' \<Longrightarrow> Q' x w') \<Longrightarrow> (\<And>e w'. E e w' \<Longrightarrow> E' e w') \<Longrightarrow> wp m Q' E' w"
  by (auto simp: wp_def split: prod.splits sum.splits)

lemma wp_run: "wp m Q E w \<Longrightarrow> m w = (r, w') \<Longrightarrow> (case r of Inr x \<Rightarrow> Q x w' | Inl e \<Rightarrow> E e w')"
  by (simp add: wp_def split: prod.splits sum.splits)

lemma wp_run_Inr: "wp m Q E w \<Longrightarrow> m w = (Inr x, w') \<Longrightarrow> Q x w'"
  by (simp add: wp_def)

lemma wp_run_Inl: "wp m Q E w \<Longrightarrow> m w = (Inl e, w') \<Longrightarrow> E e w'"
  by (simp add: wp_def)

section \<open>Sequences of operations\<close>

text \<open>The world after a sequence of operations, whatever each of them returned.\<close>

definition run_ops :: "('op \<Rightarrow> ('w, 'a) act) \<Rightarrow> 'op list \<Rightarrow> 'w \<Rightarrow> 'w" where
  "run_ops step ops w = foldl (\<lambda>w c. snd (step c w)) w ops"

lemma run_ops_simps [simp]:
  "run_ops step [] w = w"
  "run_ops step (c # cs) w = run_ops step cs (snd (step c w))"
  by (simp_all add: run_ops_def)

lemma run_ops_append: "run_ops step (cs @ ds) w = run_ops step ds (run_ops step cs w)"
  by (simp add: run_ops_def)

lemma run_ops_invariant:
  assumes "I w" and "\<And>c w. c \<in> set cs \<Longrightarrow> I w \<Longrightarrow> I (snd (step c w))"
  shows "I (run_ops step cs w)"
  using assms by (induction cs arbitrary: w) simp_all

section \<open>Lists\<close>

lemma list_all_iff_set: "list_all P xs \<longleftrightarrow> (\<forall>x \<in> set xs. P x)"
  by (simp add: list_all_iff)

lemma takeWhile_append_stop:
  "list_all P xs \<Longrightarrow> (ys = [] \<or> \<not> P (hd ys)) \<Longrightarrow> takeWhile P (xs @ ys) = xs"
  by (induction xs) (cases ys; auto)+

lemma dropWhile_append_stop:
  "list_all P xs \<Longrightarrow> (ys = [] \<or> \<not> P (hd ys)) \<Longrightarrow> dropWhile P (xs @ ys) = ys"
  by (induction xs) (cases ys; auto)+

end
