(* ===== verification/Py_Regex.thy ===== *)
theory Py_Regex
  imports Prelude
begin

text \<open>
  The part of Python's \<open>re\<close> module that the validators use: \<open>fullmatch\<close> of a regular
  expression over characters, with character classes, sequences, alternatives, \<open>*\<close> and
  bounded repetition.  Matching is by derivatives, so it evaluates; it is proved equal to
  membership in the language of the expression.
\<close>

section \<open>Expressions and matching\<close>

datatype rexp =
    Zero
  | Eps
  | Cls "char \<Rightarrow> bool"
  | Cat rexp rexp
  | Alt rexp rexp
  | Star rexp
  | Times nat rexp
  | Upto nat rexp

fun mk_cat :: "rexp \<Rightarrow> rexp \<Rightarrow> rexp" where
  "mk_cat Zero r = Zero"
| "mk_cat Eps r = r"
| "mk_cat r s = Cat r s"

fun mk_alt :: "rexp \<Rightarrow> rexp \<Rightarrow> rexp" where
  "mk_alt Zero r = r"
| "mk_alt r Zero = r"
| "mk_alt r s = Alt r s"

fun nullable :: "rexp \<Rightarrow> bool" where
  "nullable Zero = False"
| "nullable Eps = True"
| "nullable (Cls P) = False"
| "nullable (Cat r s) = (nullable r \<and> nullable s)"
| "nullable (Alt r s) = (nullable r \<or> nullable s)"
| "nullable (Star r) = True"
| "nullable (Times n r) = (n = 0 \<or> nullable r)"
| "nullable (Upto n r) = True"

fun deriv :: "char \<Rightarrow> rexp \<Rightarrow> rexp" where
  "deriv c Zero = Zero"
| "deriv c Eps = Zero"
| "deriv c (Cls P) = (if P c then Eps else Zero)"
| "deriv c (Cat r s) =
     (if nullable r then mk_alt (mk_cat (deriv c r) s) (deriv c s) else mk_cat (deriv c r) s)"
| "deriv c (Alt r s) = mk_alt (deriv c r) (deriv c s)"
| "deriv c (Star r) = mk_cat (deriv c r) (Star r)"
| "deriv c (Times n r) = (if n = 0 then Zero else mk_cat (deriv c r) (Times (n - 1) r))"
| "deriv c (Upto n r) = (if n = 0 then Zero else mk_cat (deriv c r) (Upto (n - 1) r))"

fun fullmatch :: "rexp \<Rightarrow> string \<Rightarrow> bool" where
  "fullmatch r [] = nullable r"
| "fullmatch r (c # cs) = fullmatch (deriv c r) cs"

section \<open>Languages\<close>

definition lcat :: "string set \<Rightarrow> string set \<Rightarrow> string set" where
  "lcat A B = {x @ y | x y. x \<in> A \<and> y \<in> B}"

fun lpow :: "nat \<Rightarrow> string set \<Rightarrow> string set" where
  "lpow 0 A = {[]}"
| "lpow (Suc n) A = lcat A (lpow n A)"

fun lang :: "rexp \<Rightarrow> string set" where
  "lang Zero = {}"
| "lang Eps = {[]}"
| "lang (Cls P) = {[c] | c. P c}"
| "lang (Cat r s) = lcat (lang r) (lang s)"
| "lang (Alt r s) = lang r \<union> lang s"
| "lang (Star r) = (\<Union>n. lpow n (lang r))"
| "lang (Times n r) = lpow n (lang r)"
| "lang (Upto n r) = (\<Union>k \<in> {..n}. lpow k (lang r))"

section \<open>Matching is membership\<close>

lemma in_lcat_iff: "s \<in> lcat A B \<longleftrightarrow> (\<exists>x y. s = x @ y \<and> x \<in> A \<and> y \<in> B)"
  by (auto simp: lcat_def)

lemma lcat_empty [simp]: "lcat {} B = {}" and lcat_eps [simp]: "lcat {[]} B = B"
  by (auto simp: lcat_def)

lemma lang_mk_cat [simp]: "lang (mk_cat r s) = lcat (lang r) (lang s)"
  by (cases "(r, s)" rule: mk_cat.cases) simp_all

lemma lang_mk_alt [simp]: "lang (mk_alt r s) = lang r \<union> lang s"
  by (cases "(r, s)" rule: mk_alt.cases) auto

lemma Nil_in_lpow: "[] \<in> lpow n A \<longleftrightarrow> n = 0 \<or> [] \<in> A"
  by (induction n) (auto simp: in_lcat_iff)

lemma nullable_iff: "nullable r \<longleftrightarrow> [] \<in> lang r"
  by (induction r) (auto simp: in_lcat_iff Nil_in_lpow intro: exI [of _ 0])

lemma Cons_in_lcat_iff:
  "c # s \<in> lcat A B \<longleftrightarrow> s \<in> lcat {x. c # x \<in> A} B \<or> ([] \<in> A \<and> c # s \<in> B)"
  by (auto simp: in_lcat_iff Cons_eq_append_conv)

lemma lpow_nullable_mono: "[] \<in> A \<Longrightarrow> lpow n A \<subseteq> lpow (Suc n) A"
  by (force simp: in_lcat_iff)

lemma Cons_in_lpow_Suc: "c # s \<in> lpow (Suc n) A \<longleftrightarrow> s \<in> lcat {x. c # x \<in> A} (lpow n A)"
proof (induction n)
  case 0
  then show ?case by (auto simp: in_lcat_iff Cons_eq_append_conv)
next
  case (Suc n)
  have "s \<in> lcat {x. c # x \<in> A} (lpow n A) \<Longrightarrow> [] \<in> A \<Longrightarrow> s \<in> lcat {x. c # x \<in> A} (lpow (Suc n) A)"
    using lpow_nullable_mono [of A n] unfolding in_lcat_iff by blast
  then show ?case
    using Suc.IH Cons_in_lcat_iff [of c s A "lpow (Suc n) A"] by auto
qed

lemma Cons_in_lpow: "c # s \<in> lpow n A \<longleftrightarrow> n \<noteq> 0 \<and> s \<in> lcat {x. c # x \<in> A} (lpow (n - 1) A)"
  by (cases n) (simp_all add: Cons_in_lpow_Suc del: lpow.simps(2))

lemma Cons_in_Upto:
  "(\<exists>k \<le> n. c # s \<in> lpow k A) \<longleftrightarrow>
     n \<noteq> 0 \<and> s \<in> lcat {x. c # x \<in> A} (\<Union>k \<in> {..n - 1}. lpow k A)"
  (is "?L \<longleftrightarrow> ?R")
proof
  assume ?L
  then obtain k where "k \<le> n" "k \<noteq> 0" "s \<in> lcat {x. c # x \<in> A} (lpow (k - 1) A)"
    by (auto simp: Cons_in_lpow)
  then have "n \<noteq> 0" and "k - 1 \<in> {..n - 1}" by auto
  with \<open>s \<in> _\<close> show ?R unfolding in_lcat_iff by blast
next
  assume ?R
  then obtain k where "k \<le> n - 1" "s \<in> lcat {x. c # x \<in> A} (lpow k A)" "n \<noteq> 0"
    unfolding in_lcat_iff by blast
  then have "c # s \<in> lpow (Suc k) A" and "Suc k \<le> n"
    by (simp_all add: Cons_in_lpow_Suc del: lpow.simps(2))
  then show ?L by blast
qed

lemma Cons_in_Star:
  "(\<exists>k. c # s \<in> lpow k A) \<longleftrightarrow> s \<in> lcat {x. c # x \<in> A} (\<Union>k. lpow k A)"
  (is "?L \<longleftrightarrow> ?R")
proof
  assume ?L
  then obtain k where "s \<in> lcat {x. c # x \<in> A} (lpow (k - 1) A)"
    by (auto simp: Cons_in_lpow)
  then show ?R unfolding in_lcat_iff by blast
next
  assume ?R
  then obtain k where "s \<in> lcat {x. c # x \<in> A} (lpow k A)"
    unfolding in_lcat_iff by blast
  then have "c # s \<in> lpow (Suc k) A" by (simp add: Cons_in_lpow_Suc del: lpow.simps(2))
  then show ?L by blast
qed

lemma lang_deriv: "lang (deriv c r) = {s. c # s \<in> lang r}"
proof (induction r)
  case (Cat r s)
  then show ?case
    by (auto simp: Cons_in_lcat_iff nullable_iff)
next
  case (Star r)
  then show ?case by (auto simp: Cons_in_Star)
next
  case (Times n r)
  then show ?case by (auto simp: Cons_in_lpow)
next
  case (Upto n r)
  have "c # s \<in> lang (Upto n r) \<longleftrightarrow> (\<exists>k \<le> n. c # s \<in> lpow k (lang r))" for s by auto
  with Upto show ?case by (auto simp: Cons_in_Upto)
qed auto

theorem fullmatch_iff_lang: "fullmatch r s \<longleftrightarrow> s \<in> lang r"
  by (induction s arbitrary: r) (simp_all add: nullable_iff lang_deriv)

section \<open>Classes\<close>

text \<open>The closed forms the validators are reasoned with.\<close>

lemma in_lcat_Cls: "s \<in> lcat {[c] | c. P c} B \<longleftrightarrow> (\<exists>c t. s = c # t \<and> P c \<and> t \<in> B)"
proof
  assume "\<exists>c t. s = c # t \<and> P c \<and> t \<in> B"
  then obtain c t where "s = [c] @ t" "P c" "t \<in> B" by auto
  then show "s \<in> lcat {[c] | c. P c} B" unfolding in_lcat_iff by blast
qed (auto simp: in_lcat_iff)

lemma lpow_Cls: "lpow n {[c] | c. P c} = {s. length s = n \<and> list_all P s}"
proof (induction n)
  case 0
  then show ?case by auto
next
  case (Suc n)
  have "s \<in> lcat {[c] | c. P c} (lpow n {[c] | c. P c}) \<longleftrightarrow> length s = Suc n \<and> list_all P s" for s
    unfolding in_lcat_Cls Suc.IH by (cases s) auto
  then show ?case by auto
qed

lemma fullmatch_Times_Cls [simp]:
  "fullmatch (Times n (Cls P)) s \<longleftrightarrow> length s = n \<and> list_all P s"
  by (simp only: fullmatch_iff_lang lang.simps lpow_Cls mem_Collect_eq)

lemma fullmatch_Star_Cls [simp]: "fullmatch (Star (Cls P)) s \<longleftrightarrow> list_all P s"
  by (simp only: fullmatch_iff_lang lang.simps lpow_Cls) auto

lemma fullmatch_Upto_Cls [simp]:
  "fullmatch (Upto n (Cls P)) s \<longleftrightarrow> length s \<le> n \<and> list_all P s"
  by (simp only: fullmatch_iff_lang lang.simps lpow_Cls) auto

lemma fullmatch_Cat_Cls:
  "fullmatch (Cat (Cls P) r) s \<longleftrightarrow> (\<exists>c t. s = c # t \<and> P c \<and> fullmatch r t)"
  by (simp add: fullmatch_iff_lang in_lcat_Cls)

lemma fullmatch_Cat:
  "fullmatch (Cat q r) s \<longleftrightarrow> (\<exists>x y. s = x @ y \<and> fullmatch q x \<and> fullmatch r y)"
  by (simp add: fullmatch_iff_lang in_lcat_iff)

lemma fullmatch_Alt: "fullmatch (Alt q r) s \<longleftrightarrow> fullmatch q s \<or> fullmatch r s"
  by (simp add: fullmatch_iff_lang)

lemma fullmatch_Cls: "fullmatch (Cls P) s \<longleftrightarrow> (\<exists>c. s = [c] \<and> P c)"
  by (auto simp: fullmatch_iff_lang)

text \<open>\<open>Lit\<close>: a literal string as a pattern; \<open>rng\<close>: a range of a class.\<close>

fun Lit :: "string \<Rightarrow> rexp" where
  "Lit [] = Eps"
| "Lit (c # cs) = Cat (Cls (\<lambda>d. d = c)) (Lit cs)"

definition rng :: "char \<Rightarrow> char \<Rightarrow> char \<Rightarrow> bool" where
  "rng lo hi c \<longleftrightarrow> (of_char lo :: nat) \<le> of_char c \<and> (of_char c :: nat) \<le> of_char hi"

lemma fullmatch_Lit [simp]: "fullmatch (Lit t) s \<longleftrightarrow> s = t"
proof (induction t arbitrary: s)
  case Nil
  then show ?case by (simp add: fullmatch_iff_lang)
next
  case (Cons c t)
  then show ?case by (auto simp: fullmatch_Cat_Cls)
qed

definition is_digit :: "char \<Rightarrow> bool" where
  "is_digit = rng (CHR ''0'') (CHR ''9'')"

definition is_lower_hex :: "char \<Rightarrow> bool" where
  "is_lower_hex c \<longleftrightarrow> is_digit c \<or> rng (CHR ''a'') (CHR ''f'') c"

definition is_alnum :: "char \<Rightarrow> bool" where
  "is_alnum c \<longleftrightarrow> rng (CHR ''A'') (CHR ''Z'') c \<or> rng (CHR ''a'') (CHR ''z'') c \<or> is_digit c"

section \<open>Characters of a match\<close>

text \<open>The characters that can occur in a match of an expression.\<close>

fun may :: "rexp \<Rightarrow> char \<Rightarrow> bool" where
  "may Zero c = False"
| "may Eps c = False"
| "may (Cls P) c = P c"
| "may (Cat r s) c = (may r c \<or> may s c)"
| "may (Alt r s) c = (may r c \<or> may s c)"
| "may (Star r) c = may r c"
| "may (Times n r) c = may r c"
| "may (Upto n r) c = may r c"

lemma may_lpow: "(\<And>s. s \<in> A \<Longrightarrow> c \<in> set s \<Longrightarrow> P) \<Longrightarrow> t \<in> lpow n A \<Longrightarrow> c \<in> set t \<Longrightarrow> P"
  by (induction n arbitrary: t) (auto simp: in_lcat_iff)

lemma may_lang: "s \<in> lang r \<Longrightarrow> c \<in> set s \<Longrightarrow> may r c"
proof (induction r arbitrary: s)
  case (Cat r1 r2)
  then obtain x y where "s = x @ y" "x \<in> lang r1" "y \<in> lang r2" by (auto simp: in_lcat_iff)
  with Cat show ?case by auto
next
  case (Star r)
  then show ?case by (auto intro: may_lpow [of "lang r"])
next
  case (Times n r)
  then show ?case by (auto intro: may_lpow [of "lang r"])
next
  case (Upto n r)
  then show ?case by (auto intro: may_lpow [of "lang r"])
qed auto

lemma fullmatch_may: "fullmatch r s \<Longrightarrow> \<not> may r c \<Longrightarrow> c \<notin> set s"
  using may_lang by (auto simp: fullmatch_iff_lang)

end
