(* ===== verification/Py_Value.thy ===== *)
theory Py_Value
  imports Complex_Main Py_Regex "HOL-Library.Char_ord" "HOL-Library.List_Lexorder"
begin

text \<open>
  The Python values that cross the control plane's boundaries as data: what \<open>json.loads\<close>
  returns and what the \<open>to_dict\<close> methods build.  A \<open>str\<close> is a list of characters (code
  points up to 255), a \<open>float\<close> its exact rational value, a \<open>dict\<close> its list of items in
  insertion order.  \<open>py_eq\<close> is Python's \<open>==\<close>, under which \<open>True == 1 == 1.0\<close>.
\<close>

section \<open>Values\<close>

datatype pyfloat = Finite rat | PosInf | NegInf | NaN

datatype pyval =
    PNone
  | PBool bool
  | PInt int
  | PFloat pyfloat
  | PStr string
  | PList "pyval list"
  | PDict "(string \<times> pyval) list"

type_synonym pydict = "(string \<times> pyval) list"

fun num_of :: "pyval \<Rightarrow> rat option" where
  "num_of (PBool b) = Some (of_bool b)"
| "num_of (PInt i) = Some (of_int i)"
| "num_of (PFloat (Finite q)) = Some q"
| "num_of _ = None"

text \<open>Equality of the values that are not containers.\<close>

fun scalar_eq :: "pyval \<Rightarrow> pyval \<Rightarrow> bool" where
  "scalar_eq PNone v = (v = PNone)"
| "scalar_eq (PStr s) v = (v = PStr s)"
| "scalar_eq (PFloat PosInf) v = (v = PFloat PosInf)"
| "scalar_eq (PFloat NegInf) v = (v = PFloat NegInf)"
| "scalar_eq u v = (num_of u \<noteq> None \<and> num_of u = num_of v)"

lemma size_zip_left [termination_simp]: "(x, y) \<in> set (zip xs ys) \<Longrightarrow> size x < Suc (size_list size xs)"
  using set_zip_leftD [of x y xs ys] size_list_estimation' [of x xs "size x" size] by simp

lemma size_item [termination_simp]:
  "(k, v) \<in> set kvs \<Longrightarrow> size v < Suc (size_list (size_prod (\<lambda>_. 0) size) kvs)"
  using size_list_estimation' [of "(k, v)" kvs "size v" "size_prod (\<lambda>_. 0) size"] by simp

fun py_eq :: "pyval \<Rightarrow> pyval \<Rightarrow> bool" where
  "py_eq (PList xs) v =
     (case v of
        PList ys \<Rightarrow> length xs = length ys \<and> list_all (\<lambda>(x, y). py_eq x y) (zip xs ys)
      | _ \<Rightarrow> False)"
| "py_eq (PDict kvs) v =
     (case v of
        PDict kws \<Rightarrow> length kvs = length kws \<and>
          list_all (\<lambda>(k, x). case map_of kws k of None \<Rightarrow> False | Some y \<Rightarrow> py_eq x y) kvs
      | _ \<Rightarrow> False)"
| "py_eq u v = scalar_eq u v"

section \<open>Dictionaries\<close>

definition keys :: "pydict \<Rightarrow> string list" where
  "keys d = map fst d"

text \<open>
  \<open>d.get(k)\<close>.  It also reads \<open>d[k]\<close> where the code has just compared the key set, so that
  the key is present and \<open>KeyError\<close> cannot be raised.
\<close>

definition getv :: "pydict \<Rightarrow> string \<Rightarrow> pyval" where
  "getv d k = (case map_of d k of None \<Rightarrow> PNone | Some v \<Rightarrow> v)"

text \<open>\<open>d[k]\<close> where the key may be missing.\<close>

definition item :: "pydict \<Rightarrow> string \<Rightarrow> pyval result" where
  "item d k = (case map_of d k of None \<Rightarrow> Inl KeyError | Some v \<Rightarrow> Inr v)"

text \<open>\<open>d[k] = v\<close>: an existing key keeps its position.\<close>

fun put :: "pydict \<Rightarrow> string \<Rightarrow> pyval \<Rightarrow> pydict" where
  "put [] k v = [(k, v)]"
| "put ((k', v') # d) k v = (if k' = k then (k, v) # d else (k', v') # put d k v)"

text \<open>\<open>d.update(e)\<close>\<close>

definition put_all :: "pydict \<Rightarrow> pydict \<Rightarrow> pydict" where
  "put_all d e = foldl (\<lambda>acc (k, v). put acc k v) d e"

text \<open>A frozen dataclass field of type \<open>str | None\<close>, and back.\<close>

fun of_opt :: "string option \<Rightarrow> pyval" where
  "of_opt None = PNone"
| "of_opt (Some s) = PStr s"

text \<open>A field that is a string or \<open>None\<close> by the checks made before.\<close>

definition opt_of :: "pyval \<Rightarrow> string option" where
  "opt_of v = (case v of PStr s \<Rightarrow> Some s | _ \<Rightarrow> None)"

section \<open>Equality against constants\<close>

lemma py_eq_str [simp]: "py_eq v (PStr s) \<longleftrightarrow> v = PStr s"
proof (cases v)
  case (PFloat f)
  then show ?thesis by (cases f) auto
qed auto

lemma py_eq_none [simp]: "py_eq v PNone \<longleftrightarrow> v = PNone"
proof (cases v)
  case (PFloat f)
  then show ?thesis by (cases f) auto
qed auto

lemma py_eq_str_list [simp]: "py_eq v (PList (map PStr ss)) \<longleftrightarrow> v = PList (map PStr ss)"
proof (cases v)
  case (PList xs)
  have "length xs = length ss \<and> list_all (\<lambda>(x, y). py_eq x y) (zip xs (map PStr ss)) \<longleftrightarrow> xs = map PStr ss"
    by (induction xs arbitrary: ss) (auto simp: length_Suc_conv split: list.splits, (case_tac ss; force)+)
  with PList show ?thesis by simp
next
  case (PFloat f)
  then show ?thesis by (cases f) auto
qed auto

lemma py_eq_Nil [simp]: "py_eq v (PList []) \<longleftrightarrow> v = PList []"
  using py_eq_str_list [of v "[]"] by simp

text \<open>
  Against an integer constant \<open>==\<close> also accepts the boolean and the float of the same
  value.
\<close>

lemma py_eq_int:
  "py_eq v (PInt n) \<longleftrightarrow> v = PInt n \<or> (\<exists>b. v = PBool b \<and> n = of_bool b) \<or> v = PFloat (Finite (of_int n))"
proof (cases v)
  case (PFloat f)
  then show ?thesis by (cases f) auto
next
  case (PBool b)
  then show ?thesis by (cases b) auto
qed auto

lemma getv_eq: "map_of d k = Some v \<Longrightarrow> getv d k = v"
  by (simp add: getv_def)

lemma of_opt_inject [simp]: "of_opt a = of_opt b \<longleftrightarrow> a = b"
  by (cases a; cases b) auto

lemma of_opt_simps [simp]:
  "of_opt a = PNone \<longleftrightarrow> a = None"
  "PNone = of_opt a \<longleftrightarrow> a = None"
  "of_opt a = PStr s \<longleftrightarrow> a = Some s"
  "PStr s = of_opt a \<longleftrightarrow> a = Some s"
  by (cases a; auto)+

text \<open>A type test that returns.\<close>

lemma case_PStr_Inr [py_simps]:
  "(case v of PStr s \<Rightarrow> f s | _ \<Rightarrow> Inl e) = Inr x \<longleftrightarrow> (\<exists>s. v = PStr s \<and> f s = Inr x)"
  by (cases v) auto

lemma case_PInt_Inr [py_simps]:
  "(case v of PInt i \<Rightarrow> f i | _ \<Rightarrow> Inl e) = Inr x \<longleftrightarrow> (\<exists>i. v = PInt i \<and> f i = Inr x)"
  by (cases v) auto

lemma case_PList_Inr [py_simps]:
  "(case v of PList xs \<Rightarrow> f xs | _ \<Rightarrow> Inl e) = Inr x \<longleftrightarrow> (\<exists>xs. v = PList xs \<and> f xs = Inr x)"
  by (cases v) auto

lemma case_PDict_Inr [py_simps]:
  "(case v of PDict d \<Rightarrow> f d | _ \<Rightarrow> Inl e) = Inr x \<longleftrightarrow> (\<exists>d. v = PDict d \<and> f d = Inr x)"
  by (cases v) auto

section \<open>Sorting keys\<close>

text \<open>\<open>json.dumps(..., sort_keys=True)\<close> visits every dictionary in key order.\<close>

fun canon :: "pyval \<Rightarrow> pyval" where
  "canon (PList xs) = PList (map canon xs)"
| "canon (PDict kvs) = PDict (sort_key fst (map (\<lambda>(k, v). (k, canon v)) kvs))"
| "canon v = v"

text \<open>A value whose dictionaries have no key twice: what Python values always are.\<close>

fun wf_val :: "pyval \<Rightarrow> bool" where
  "wf_val (PList xs) = list_all wf_val xs"
| "wf_val (PDict kvs) = (distinct (map fst kvs) \<and> list_all (\<lambda>(k, v). wf_val v) kvs)"
| "wf_val v = True"

lemma map_of_sort_key:
  assumes "distinct (map fst kvs)"
  shows "map_of (sort_key fst kvs) = map_of kvs"
  using assms by (intro map_of_inject_set [THEN iffD2]) (simp_all add: distinct_map)

lemma keys_canon: "set (map fst (sort_key fst (map (\<lambda>(k, v). (k, canon v)) kvs))) = set (map fst kvs)"
  by force

lemma map_of_map_canon: "map_of (map (\<lambda>(k, v). (k, canon v)) kvs) k = map_option canon (map_of kvs k)"
  by (induction kvs) auto

lemma map_of_canon:
  assumes "distinct (map fst kvs)"
  shows "map_of (sort_key fst (map (\<lambda>(k, v). (k, canon v)) kvs)) k = map_option canon (map_of kvs k)"
proof -
  have "map fst (map (\<lambda>(k, v). (k, canon v)) kvs) = map fst kvs"
    by (induction kvs) auto
  with assms have "distinct (map fst (map (\<lambda>(k, v). (k, canon v)) kvs))" by (simp only:)
  then show ?thesis by (simp only: map_of_sort_key map_of_map_canon)
qed

lemma canon_scalar [simp]: "canon v = PStr s \<longleftrightarrow> v = PStr s" "canon v = PNone \<longleftrightarrow> v = PNone"
  "canon v = PInt i \<longleftrightarrow> v = PInt i" "canon v = PBool b \<longleftrightarrow> v = PBool b"
  by (cases v; simp)+

lemma canon_of_opt [simp]: "canon (of_opt a) = of_opt a"
  by (cases a) simp_all

text \<open>The items of a dictionary in key order, values included.\<close>

definition csort :: "pydict \<Rightarrow> pydict" where
  "csort d = sort_key fst (map (\<lambda>(k, v). (k, canon v)) d)"

named_theorems canon_simps \<open>reading a dictionary in key order\<close>

lemma canon_PDict [canon_simps]: "canon (PDict d) = PDict (csort d)"
  by (simp add: csort_def)

lemma set_keys_csort [canon_simps]: "set (keys (csort d)) = set (keys d)"
  unfolding keys_def csort_def by (rule keys_canon)

lemma getv_csort [canon_simps]: "distinct (keys d) \<Longrightarrow> getv (csort d) k = canon (getv d k)"
  by (simp add: getv_def csort_def keys_def map_of_canon split: option.splits)

lemma item_csort [canon_simps]: "distinct (keys d) \<Longrightarrow> item (csort d) k = map_sum id canon (item d k)"
  by (simp add: item_def csort_def keys_def map_of_canon split: option.splits)

lemma py_eq_int_canon [canon_simps]: "py_eq (canon v) (PInt n) = py_eq v (PInt n)"
  by (cases v) (simp_all add: py_eq_int)

end
