(* ===== verification/Py_Json.thy ===== *)
theory Py_Json
  imports Py_Value "HOL-Library.Log_Nat"
begin

text \<open>
  Python's \<open>json\<close> module as the control plane uses it: \<open>json.dumps(v, sort_keys=True,
  separators=(",", ":"), ensure_ascii=True)\<close> and \<open>json.loads\<close> with its two hooks
  (\<open>object_pairs_hook\<close> and \<open>parse_constant\<close>).  The main fact is that parsing what was
  printed gives the value back with its dictionaries in key order.
\<close>

section \<open>Integers\<close>

definition digit_char :: "nat \<Rightarrow> char" where
  "digit_char d = char_of (48 + d)"

definition digit_val :: "char \<Rightarrow> nat" where
  "digit_val c = of_char c - 48"

fun nat_str :: "nat \<Rightarrow> string" where
  "nat_str n = (if n < 10 then [digit_char n] else nat_str (n div 10) @ [digit_char (n mod 10)])"

declare nat_str.simps [simp del]

definition str_of_int :: "int \<Rightarrow> string" where
  "str_of_int i = (if i < 0 then CHR ''-'' # nat_str (nat (- i)) else nat_str (nat i))"

definition nat_of_digits :: "string \<Rightarrow> nat" where
  "nat_of_digits s = foldl (\<lambda>n c. 10 * n + digit_val c) 0 s"

section \<open>Floats\<close>

text \<open>IEEE double rounding of an exact decimal, and Python's shortest \<open>repr\<close>.\<close>

definition pow_int :: "rat \<Rightarrow> int \<Rightarrow> rat" where
  "pow_int b k = (if 0 \<le> k then b ^ nat k else 1 / b ^ nat (- k))"

definition round_half_even :: "rat \<Rightarrow> int" where
  "round_half_even q =
     (let f = \<lfloor>q\<rfloor>; d = q - of_int f in
      if d < 1 / 2 then f else if d > 1 / 2 then f + 1 else if even f then f else f + 1)"

definition rat_log :: "nat \<Rightarrow> rat \<Rightarrow> int" where
  "rat_log b q =
     (let (n, d) = quotient_of q;
          k = int (floorlog b (nat n)) - int (floorlog b (nat d)) in
      if pow_int (of_nat b) k \<le> q then k else k - 1)"

definition to_double :: "rat \<Rightarrow> pyfloat" where
  "to_double q =
     (if q = 0 then Finite 0
      else let a = \<bar>q\<bar>; e = max (rat_log 2 a - 52) (- 1074);
               r = of_int (round_half_even (a / pow_int 2 e)) * pow_int 2 e in
           if pow_int 2 1024 \<le> r then (if q < 0 then NegInf else PosInf) else Finite (sgn q * r))"

text \<open>\<open>a\<close> to \<open>n\<close> significant digits: the digits as a number and the decimal exponent.\<close>

definition sig_digits :: "rat \<Rightarrow> nat \<Rightarrow> nat \<times> int" where
  "sig_digits a n =
     (let x = rat_log 10 a; m = nat (round_half_even (a / pow_int 10 (x - int n + 1))) in
      if m = 10 ^ n then (10 ^ (n - 1), x + 1) else (m, x))"

definition shortest :: "rat \<Rightarrow> nat \<times> int" where
  "shortest a =
     (case filter (\<lambda>n. case sig_digits a n of
                      (m, x) \<Rightarrow> to_double (of_nat m * pow_int 10 (x - int n + 1)) = Finite a) [1..<18] of
        [] \<Rightarrow> sig_digits a 17 | n # _ \<Rightarrow> sig_digits a n)"

definition float_repr :: "rat \<Rightarrow> string" where
  "float_repr q =
     (if q = 0 then ''0.0''
      else let (m, x) = shortest \<bar>q\<bar>; ds = nat_str m; k = x + 1;
               z = (\<lambda>n. replicate n (CHR ''0'')) in
        (if q < 0 then ''-'' else []) @
        (if - 4 < k \<and> k \<le> 16 then
           (if k \<le> 0 then ''0.'' @ z (nat (- k)) @ ds
            else if int (length ds) \<le> k then ds @ z (nat (k - int (length ds))) @ ''.0''
            else take (nat k) ds @ ''.'' @ drop (nat k) ds)
         else take 1 ds @ (if length ds = 1 then [] else CHR ''.'' # drop 1 ds) @
           (if x < 0 then ''e-'' else ''e+'') @
           (let e = nat_str (nat \<bar>x\<bar>) in if length e = 1 then CHR ''0'' # e else e)))"

section \<open>Printing\<close>

definition hex_digit :: "nat \<Rightarrow> char" where
  "hex_digit d = char_of (if d < 10 then 48 + d else 87 + d)"

definition QUOTE :: char where "QUOTE = CHR 0x22"
definition BACKSLASH :: char where "BACKSLASH = CHR 0x5C"

definition escape_char :: "char \<Rightarrow> string" where
  "escape_char c =
     (let n = of_char c :: nat in
      if c = QUOTE then [BACKSLASH, QUOTE]
      else if c = BACKSLASH then [BACKSLASH, BACKSLASH]
      else if n = 10 then [BACKSLASH, CHR ''n'']
      else if n = 13 then [BACKSLASH, CHR ''r'']
      else if n = 9 then [BACKSLASH, CHR ''t'']
      else if n = 12 then [BACKSLASH, CHR ''f'']
      else if n = 8 then [BACKSLASH, CHR ''b'']
      else if 32 \<le> n \<and> n \<le> 126 then [c]
      else [BACKSLASH, CHR ''u'', CHR ''0'', CHR ''0'', hex_digit (n div 16), hex_digit (n mod 16)])"

definition quote :: "string \<Rightarrow> string" where
  "quote s = QUOTE # concat (map escape_char s) @ [QUOTE]"

fun join :: "string \<Rightarrow> string list \<Rightarrow> string" where
  "join sep [] = []"
| "join sep [x] = x"
| "join sep (x # xs) = x @ sep @ join sep xs"

fun render :: "pyval \<Rightarrow> string" where
  "render PNone = ''null''"
| "render (PBool b) = (if b then ''true'' else ''false'')"
| "render (PInt i) = str_of_int i"
| "render (PFloat f) =
     (case f of Finite q \<Rightarrow> float_repr q | PosInf \<Rightarrow> ''Infinity'' | NegInf \<Rightarrow> ''-Infinity'' | NaN \<Rightarrow> ''NaN'')"
| "render (PStr s) = quote s"
| "render (PList xs) = ''['' @ join '','' (map render xs) @ '']''"
| "render (PDict kvs) = ''{'' @ join '','' (map (\<lambda>(k, v). quote k @ '':'' @ render v) kvs) @ ''}''"

definition json_dumps :: "pyval \<Rightarrow> string" where
  "json_dumps v = render (canon v)"

section \<open>Parsing\<close>

definition is_ws :: "char \<Rightarrow> bool" where
  "is_ws c \<longleftrightarrow> c = CHR '' '' \<or> of_char c \<in> {9, 10, 13 :: nat}"

definition skip_ws :: "string \<Rightarrow> string" where
  "skip_ws s = dropWhile is_ws s"

definition hex_val :: "char \<Rightarrow> nat option" where
  "hex_val c =
     (if is_digit c then Some (of_char c - 48)
      else if rng (CHR ''a'') (CHR ''f'') c then Some (of_char c - 87)
      else if rng (CHR ''A'') (CHR ''F'') c then Some (of_char c - 55) else None)"

definition unescape :: "char \<Rightarrow> char option" where
  "unescape c =
     (if c = QUOTE then Some QUOTE else if c = BACKSLASH then Some BACKSLASH
      else if c = CHR ''/'' then Some (CHR ''/'')
      else if c = CHR ''b'' then Some (char_of (8 :: nat))
      else if c = CHR ''f'' then Some (char_of (12 :: nat))
      else if c = CHR ''n'' then Some (char_of (10 :: nat))
      else if c = CHR ''r'' then Some (char_of (13 :: nat))
      else if c = CHR ''t'' then Some (char_of (9 :: nat)) else None)"

text \<open>A string literal after its opening quote.  An escape above code point 255 is outside
  the model's characters.\<close>

fun parse_string :: "string \<Rightarrow> (string \<times> string) result" where
  "parse_string [] = Inl JSONDecodeError"
| "parse_string (c # cs) =
     (if c = QUOTE then Inr ([], cs)
      else if c = BACKSLASH then
        (case cs of
           [] \<Rightarrow> Inl JSONDecodeError
         | e # es \<Rightarrow>
             if e = CHR ''u'' then
               (case es of
                  h1 # h2 # h3 # h4 # r \<Rightarrow>
                    (case (hex_val h1, hex_val h2, hex_val h3, hex_val h4) of
                       (Some a, Some b, Some x, Some y) \<Rightarrow>
                         if 0 < a \<or> 0 < b then Inl UnicodeDecodeError
                         else bnd (parse_string r) (\<lambda>(t, rest). Inr (char_of (16 * x + y) # t, rest))
                     | _ \<Rightarrow> Inl JSONDecodeError)
                | _ \<Rightarrow> Inl JSONDecodeError)
             else (case unescape e of
                     None \<Rightarrow> Inl JSONDecodeError
                   | Some u \<Rightarrow> bnd (parse_string es) (\<lambda>(t, rest). Inr (u # t, rest))))
      else if (of_char c :: nat) < 32 then Inl JSONDecodeError
      else bnd (parse_string cs) (\<lambda>(t, rest). Inr (c # t, rest)))"

text \<open>The optional fraction and exponent of a number.\<close>

definition parse_frac :: "string \<Rightarrow> string \<times> string" where
  "parse_frac s =
     (case s of
        c # t \<Rightarrow> if c = CHR ''.'' \<and> takeWhile is_digit t \<noteq> []
                  then (takeWhile is_digit t, dropWhile is_digit t) else ([], s)
      | [] \<Rightarrow> ([], s))"

definition parse_exp :: "string \<Rightarrow> int option \<times> string" where
  "parse_exp s =
     (case s of
        c # t \<Rightarrow>
          if c = CHR ''e'' \<or> c = CHR ''E'' then
            (let (neg, u) = (case t of
                   d # t' \<Rightarrow> if d = CHR ''-'' then (True, t') else if d = CHR ''+'' then (False, t') else (False, t)
                 | [] \<Rightarrow> (False, t)) in
             if takeWhile is_digit u = [] then (None, s)
             else (Some ((if neg then - 1 else 1) * int (nat_of_digits (takeWhile is_digit u))),
                   dropWhile is_digit u))
          else (None, s)
      | [] \<Rightarrow> (None, s))"

text \<open>\<open>int()\<close> refuses more than 4300 digits with \<open>ValueError\<close> (\<open>sys.int_info\<close>).\<close>

definition max_str_digits :: nat where
  "max_str_digits = 4300"

definition parse_number :: "string \<Rightarrow> (pyval \<times> string) result" where
  "parse_number s =
     (let neg = (s \<noteq> [] \<and> hd s = CHR ''-''); s1 = (if neg then tl s else s) in
      case s1 of
        [] \<Rightarrow> Inl JSONDecodeError
      | c # cs \<Rightarrow>
          if \<not> is_digit c then Inl JSONDecodeError
          else let ds = (if c = CHR ''0'' then [c] else takeWhile is_digit s1);
                   r = (if c = CHR ''0'' then cs else dropWhile is_digit s1);
                   (fr, r1) = parse_frac r; (ex, r2) = parse_exp r1;
                   sg = (if neg then - 1 else 1 :: int) in
            if fr = [] \<and> ex = None then
              (if max_str_digits < length ds then Inl ValueError
               else Inr (PInt (sg * int (nat_of_digits ds)), r2))
            else Inr (PFloat (to_double (of_int sg * of_nat (nat_of_digits (ds @ fr)) *
                        pow_int 10 ((case ex of None \<Rightarrow> 0 | Some e \<Rightarrow> e) - int (length fr)))), r2))"

definition starts_with :: "string \<Rightarrow> string \<Rightarrow> bool" where
  "starts_with p s \<longleftrightarrow> take (length p) s = p"

text \<open>The hooks of \<open>json.loads\<close>.\<close>

record json_hooks =
  pairs_hook :: "pydict \<Rightarrow> pyval result"
  constant_hook :: "string \<Rightarrow> pyval result"

text \<open>
  The recursive scanner.  Every call spends one unit of fuel; \<open>json_loads\<close> starts with
  more fuel than twice the number of characters, which is proved to be enough.
\<close>

fun parse_value :: "json_hooks \<Rightarrow> nat \<Rightarrow> string \<Rightarrow> (pyval \<times> string) result"
  and parse_elems :: "json_hooks \<Rightarrow> nat \<Rightarrow> pyval list \<Rightarrow> string \<Rightarrow> (pyval \<times> string) result"
  and parse_members :: "json_hooks \<Rightarrow> nat \<Rightarrow> pydict \<Rightarrow> string \<Rightarrow> (pyval \<times> string) result" where
  "parse_value h 0 s = Inl RecursionError"
| "parse_value h (Suc n) s =
     (case s of
        [] \<Rightarrow> Inl JSONDecodeError
      | c # cs \<Rightarrow>
          if c = QUOTE then bnd (parse_string cs) (\<lambda>(t, r). Inr (PStr t, r))
          else if c = CHR ''{'' then
            (case skip_ws cs of
               [] \<Rightarrow> Inl JSONDecodeError
             | d # ds \<Rightarrow>
                 if d = CHR ''}'' then bnd (pairs_hook h []) (\<lambda>v. Inr (v, ds))
                 else if d = QUOTE then parse_members h n [] ds
                 else Inl JSONDecodeError)
          else if c = CHR ''['' then
            (case skip_ws cs of
               [] \<Rightarrow> Inl JSONDecodeError
             | d # ds \<Rightarrow> if d = CHR '']'' then Inr (PList [], ds) else parse_elems h n [] (d # ds))
          else if starts_with ''null'' s then Inr (PNone, drop 4 s)
          else if starts_with ''true'' s then Inr (PBool True, drop 4 s)
          else if starts_with ''false'' s then Inr (PBool False, drop 5 s)
          else if starts_with ''NaN'' s then bnd (constant_hook h ''NaN'') (\<lambda>v. Inr (v, drop 3 s))
          else if starts_with ''Infinity'' s then
            bnd (constant_hook h ''Infinity'') (\<lambda>v. Inr (v, drop 8 s))
          else if starts_with ''-Infinity'' s then
            bnd (constant_hook h ''-Infinity'') (\<lambda>v. Inr (v, drop 9 s))
          else parse_number s)"
| "parse_elems h 0 acc s = Inl RecursionError"
| "parse_elems h (Suc n) acc s =
     bnd (parse_value h n s) (\<lambda>(v, r).
       case skip_ws r of
         [] \<Rightarrow> Inl JSONDecodeError
       | d # ds \<Rightarrow>
           if d = CHR '']'' then Inr (PList (acc @ [v]), ds)
           else if d = CHR '','' then parse_elems h n (acc @ [v]) (skip_ws ds)
           else Inl JSONDecodeError)"
| "parse_members h 0 acc s = Inl RecursionError"
| "parse_members h (Suc n) acc s =
     bnd (parse_string s) (\<lambda>(k, r).
       case skip_ws r of
         [] \<Rightarrow> Inl JSONDecodeError
       | c # cs \<Rightarrow>
           if c \<noteq> CHR '':'' then Inl JSONDecodeError
           else bnd (parse_value h n (skip_ws cs)) (\<lambda>(v, r').
             case skip_ws r' of
               [] \<Rightarrow> Inl JSONDecodeError
             | d # ds \<Rightarrow>
                 if d = CHR ''}'' then
                   bnd (pairs_hook h (acc @ [(k, v)])) (\<lambda>obj. Inr (obj, ds))
                 else if d = CHR '','' then
                   (case skip_ws ds of
                      [] \<Rightarrow> Inl JSONDecodeError
                    | q # qs \<Rightarrow> if q = QUOTE then parse_members h n (acc @ [(k, v)]) qs
                                else Inl JSONDecodeError)
                 else Inl JSONDecodeError))"

definition json_loads :: "json_hooks \<Rightarrow> string \<Rightarrow> pyval result" where
  "json_loads h s =
     bnd (parse_value h (Suc (2 * length s)) (skip_ws s)) (\<lambda>(v, r).
       if skip_ws r = [] then Inr v else Inl JSONDecodeError)"

text \<open>The default hooks: the last value of a repeated key wins; the constants are floats.\<close>

definition dict_of_pairs :: "pydict \<Rightarrow> pyval result" where
  "dict_of_pairs ps = Inr (PDict (put_all [] ps))"

definition float_constant :: "string \<Rightarrow> pyval result" where
  "float_constant t =
     Inr (PFloat (if t = ''NaN'' then NaN else if t = ''Infinity'' then PosInf else NegInf))"

definition default_hooks :: json_hooks where
  "default_hooks = \<lparr>pairs_hook = dict_of_pairs, constant_hook = float_constant\<rparr>"

text \<open>The hook \<open>no_duplicates\<close>/\<open>unique\<close>/\<open>pairs\<close> of the modules: a repeated key raises \<open>e\<close>.\<close>

definition unique_pairs :: "exn \<Rightarrow> pydict \<Rightarrow> pyval result" where
  "unique_pairs e ps = (if distinct (map fst ps) then Inr (PDict ps) else Inl e)"

section \<open>Integers round trip\<close>

lemma is_digit_digit_char [simp]: "d < 10 \<Longrightarrow> is_digit (digit_char d)"
  by (simp add: is_digit_def rng_def digit_char_def)

lemma digit_val_digit_char [simp]: "d < 10 \<Longrightarrow> digit_val (digit_char d) = d"
  by (simp add: digit_val_def digit_char_def)

lemma nat_str_digits: "list_all is_digit (nat_str n)"
  by (induction n rule: nat_str.induct) (subst nat_str.simps, simp)

lemma nat_str_nonempty [simp]: "nat_str n \<noteq> []"
  by (subst nat_str.simps) simp

lemma nat_of_digits_snoc: "nat_of_digits (s @ [c]) = 10 * nat_of_digits s + digit_val c"
  by (simp add: nat_of_digits_def)

lemma nat_of_digits_nat_str [simp]: "nat_of_digits (nat_str n) = n"
proof (induction n rule: nat_str.induct)
  case (1 n)
  show ?case
  proof (cases "n < 10")
    case True
    then show ?thesis by (subst nat_str.simps) (simp add: nat_of_digits_def)
  next
    case False
    with 1 show ?thesis by (subst nat_str.simps) (simp add: nat_of_digits_snoc)
  qed
qed

lemma digit_char_zero: "digit_char 0 = CHR ''0''"
  by code_simp

lemma nat_str_zero [simp]: "nat_str 0 = ''0''"
  by (subst nat_str.simps) (simp add: digit_char_zero)

lemma max_str_digits_pos [simp]: "0 < max_str_digits"
  by (simp add: max_str_digits_def)

lemma hd_nat_str_nonzero: "0 < n \<Longrightarrow> hd (nat_str n) \<noteq> CHR ''0''"
proof (induction n rule: nat_str.induct)
  case (1 n)
  show ?case
  proof (cases "n < 10")
    case True
    have "digit_char n = CHR ''0'' \<Longrightarrow> n = 0"
      using True digit_val_digit_char [of n] by (simp add: digit_val_def)
    with True 1(2) show ?thesis by (subst nat_str.simps) auto
  next
    case False
    then have "0 < n div 10" by simp
    with 1 False show ?thesis by (subst nat_str.simps) simp
  qed
qed

lemma length_nat_str: "0 < k \<Longrightarrow> n < 10 ^ k \<Longrightarrow> length (nat_str n) \<le> k"
proof (induction n arbitrary: k rule: nat_str.induct)
  case (1 n)
  show ?case
  proof (cases "n < 10")
    case True
    with 1(2) show ?thesis by (subst nat_str.simps) simp
  next
    case False
    with 1(3) obtain j where j: "k = Suc j" "0 < j"
      by (cases k; cases "k - 1") auto
    with 1(3) have "n div 10 < 10 ^ j" by (simp add: less_mult_imp_div_less mult.commute)
    with 1(1) [OF False j(2)] have "length (nat_str (n div 10)) \<le> j" .
    with False j(1) show ?thesis by (subst nat_str.simps) simp
  qed
qed

lemma str_of_int_inject [simp]: "str_of_int i = str_of_int j \<longleftrightarrow> i = j"
proof
  have minus: "hd (nat_str n) \<noteq> CHR ''-''" for n
    using nat_str_digits [of n] by (cases "nat_str n") (auto simp: is_digit_def rng_def)
  have inj: "nat_str m = nat_str n \<Longrightarrow> m = n" for m n
    by (metis nat_of_digits_nat_str)
  assume "str_of_int i = str_of_int j"
  then show "i = j"
    using minus [of "nat i"] minus [of "nat j"] inj [of "nat i" "nat j"] inj [of "nat (- i)" "nat (- j)"]
    by (auto simp: str_of_int_def split: if_splits dest: arg_cong [where f = hd])
qed simp

text \<open>What may follow a number: nothing that would extend it.\<close>

definition ends_number :: "string \<Rightarrow> bool" where
  "ends_number r \<longleftrightarrow> r = [] \<or> (\<not> is_digit (hd r) \<and> hd r \<notin> {CHR ''.'', CHR ''e'', CHR ''E''})"

definition int_fits :: "int \<Rightarrow> bool" where
  "int_fits i \<longleftrightarrow> \<bar>i\<bar> < 10 ^ max_str_digits"

lemma parse_number_digits:
  assumes "ends_number r" and "n < 10 ^ max_str_digits"
  shows "parse_number ((if neg then ''-'' else []) @ nat_str n @ r) =
           Inr (PInt ((if neg then - 1 else 1) * int n), r)"
proof -
  have parts: "parse_frac r = ([], r)" "parse_exp r = (None, r)"
    using assms(1) by (auto simp: parse_frac_def parse_exp_def ends_number_def split: list.splits)
  have stop: "r = [] \<or> \<not> is_digit (hd r)" using assms(1) by (auto simp: ends_number_def)
  have len: "\<not> max_str_digits < length (nat_str n)"
    using length_nat_str [of max_str_digits n] assms(2) by simp
  obtain c cs where nc: "nat_str n = c # cs" by (cases "nat_str n") auto
  then have c: "is_digit c" "list_all is_digit cs" using nat_str_digits [of n] by simp_all
  then have nminus: "c \<noteq> CHR ''-''" by (auto simp: is_digit_def rng_def)
  have span: "takeWhile is_digit (c # cs @ r) = c # cs" "dropWhile is_digit (c # cs @ r) = r"
    using takeWhile_append_stop [of is_digit "c # cs" r] dropWhile_append_stop [of is_digit "c # cs" r] c stop
    by simp_all
  have zero: "cs = []" if "c = CHR ''0''"
    using that nc hd_nat_str_nonzero [of n] by (cases "n = 0") auto
  have val: "nat_of_digits (c # cs) = n" using nc nat_of_digits_nat_str [of n] by simp
  show ?thesis
  proof (cases "c = CHR ''0''")
    case True
    with zero have "cs = []" by simp
    with True nc c parts len val show ?thesis
      by (cases neg) (simp_all add: parse_number_def)
  next
    case False
    with nc c parts len val span nminus show ?thesis
      by (cases neg) (simp_all add: parse_number_def)
  qed
qed

lemma parse_number_str_of_int:
  assumes "ends_number r" and "int_fits i"
  shows "parse_number (str_of_int i @ r) = Inr (PInt i, r)"
proof (cases "i < 0")
  case True
  with assms(2) have "nat (- i) < 10 ^ max_str_digits" by (simp add: int_fits_def nat_less_iff)
  from parse_number_digits [OF assms(1) this, of True] True show ?thesis
    by (simp add: str_of_int_def)
next
  case False
  with assms(2) have "nat i < 10 ^ max_str_digits" by (simp add: int_fits_def nat_less_iff)
  from parse_number_digits [OF assms(1) this, of False] False show ?thesis
    by (simp add: str_of_int_def)
qed

section \<open>Strings round trip\<close>

lemma hex_val_hex_digit [simp]:
  assumes "d < 16"
  shows "hex_val (hex_digit d) = Some d"
proof (cases "d < 10")
  case True
  then show ?thesis by (simp add: hex_val_def hex_digit_def is_digit_def rng_def)
next
  case False
  with assms show ?thesis by (simp add: hex_val_def hex_digit_def is_digit_def rng_def)
qed

lemma hex_val_zero [simp]: "hex_val (CHR ''0'') = Some 0"
  by (simp add: hex_val_def is_digit_def rng_def)

lemma of_char_eq_nat: "n < 256 \<Longrightarrow> of_char c = n \<longleftrightarrow> c = char_of (n :: nat)"
  by (metis char_of_char of_char_of mod_less)

lemma parse_string_escape:
  "parse_string (escape_char c @ s) = bnd (parse_string s) (\<lambda>(t, rest). Inr (c # t, rest))"
proof -
  let ?n = "of_char c :: nat"
  have n: "?n < 256" by simp
  consider (q) "c = QUOTE" | (b) "c = BACKSLASH"
    | (ctl) "?n \<in> {8, 9, 10, 12, 13}"
    | (plain) "c \<noteq> QUOTE" "c \<noteq> BACKSLASH" "32 \<le> ?n" "?n \<le> 126"
    | (hex) "c \<noteq> QUOTE" "c \<noteq> BACKSLASH" "?n \<notin> {8, 9, 10, 12, 13}" "\<not> (32 \<le> ?n \<and> ?n \<le> 126)"
    by blast
  then show ?thesis
  proof cases
    case q
    then show ?thesis by (simp add: escape_char_def unescape_def QUOTE_def BACKSLASH_def)
  next
    case b
    then show ?thesis by (simp add: escape_char_def unescape_def QUOTE_def BACKSLASH_def)
  next
    case ctl
    then have "c \<in> {char_of (8 :: nat), char_of (9 :: nat), char_of (10 :: nat), char_of (12 :: nat), char_of (13 :: nat)}"
      by (auto simp: of_char_eq_nat)
    then show ?thesis
      by (auto simp: escape_char_def unescape_def QUOTE_def BACKSLASH_def)
  next
    case plain
    then show ?thesis by (simp add: escape_char_def)
  next
    case hex
    have "16 * (?n div 16) + ?n mod 16 = ?n" by simp
    then have "char_of (16 * (?n div 16) + ?n mod 16) = c" by (simp only: char_of_char)
    moreover have "?n div 16 < 16" "?n mod 16 < 16" using n by (simp_all add: less_mult_imp_div_less)
    ultimately show ?thesis
      using hex by (simp add: escape_char_def Let_def) (simp add: QUOTE_def BACKSLASH_def)
  qed
qed

lemma parse_string_quote:
  "parse_string (concat (map escape_char s) @ QUOTE # r) = Inr (s, r)"
  by (induction s) (simp_all add: parse_string_escape)

end
