(* ===== verification/Json_Roundtrip.thy ===== *)
theory Json_Roundtrip
  imports Py_Json
begin

text \<open>
  \<open>json.loads(json.dumps(v))\<close> is \<open>v\<close> with its dictionaries in key order, for every value
  built from \<open>None\<close>, booleans, integers, strings, lists and dictionaries; the fuel that
  \<open>json_loads\<close> starts with never runs out.
\<close>

section \<open>Values that print and parse back\<close>

fun plain :: "pyval \<Rightarrow> bool" where
  "plain PNone = True"
| "plain (PBool b) = True"
| "plain (PInt i) = int_fits i"
| "plain (PFloat f) = False"
| "plain (PStr s) = True"
| "plain (PList xs) = list_all plain xs"
| "plain (PDict kvs) = (distinct (map fst kvs) \<and> list_all (\<lambda>(k, v). plain v) kvs)"

definition keeps_pairs :: "json_hooks \<Rightarrow> bool" where
  "keeps_pairs h \<longleftrightarrow> (\<forall>ps. distinct (map fst ps) \<longrightarrow> pairs_hook h ps = Inr (PDict ps))"

lemma str_of_int_first:
  obtains c cs where "str_of_int i = c # cs" "c = CHR ''-'' \<or> is_digit c"
    "c = CHR ''-'' \<longrightarrow> cs \<noteq> [] \<and> is_digit (hd cs)"
proof -
  have nat: "\<exists>c cs. nat_str n = c # cs \<and> is_digit c" for n
    using nat_str_digits [of n] by (cases "nat_str n") auto
  show thesis
  proof (cases "i < 0")
    case True
    obtain c cs where "nat_str (nat (- i)) = c # cs" "is_digit c" using nat by blast
    with True that [of "CHR ''-''" "c # cs"] show thesis by (simp add: str_of_int_def)
  next
    case False
    obtain c cs where "nat_str (nat i) = c # cs" "is_digit c" using nat by blast
    moreover from this have "c \<noteq> CHR ''-''" by (auto simp: is_digit_def rng_def)
    ultimately show thesis using False that [of c cs] by (simp add: str_of_int_def)
  qed
qed

lemma render_first:
  assumes "plain v"
  obtains c cs where "render v = c # cs" "\<not> is_ws c" "c \<noteq> CHR '']''"
proof (cases v)
  case (PInt i)
  obtain c cs where c: "str_of_int i = c # cs" "c = CHR ''-'' \<or> is_digit c"
    by (rule str_of_int_first [of i])
  then have "\<not> is_ws c" "c \<noteq> CHR '']''" by (auto simp: is_ws_def is_digit_def rng_def)
  with c PInt that show thesis by simp
next
  case (PBool b)
  then show thesis using that by (cases b) (auto simp: is_ws_def)
qed (use assms that in \<open>auto simp: is_ws_def quote_def QUOTE_def\<close>)

lemma skip_ws_stop [simp]: "\<not> is_ws c \<Longrightarrow> skip_ws (c # cs) = c # cs"
  by (simp add: skip_ws_def)

lemma skip_ws_punct [simp]:
  "skip_ws (CHR '','' # s) = CHR '','' # s" "skip_ws (CHR '']'' # s) = CHR '']'' # s"
  "skip_ws (CHR ''}'' # s) = CHR ''}'' # s" "skip_ws (CHR '':'' # s) = CHR '':'' # s"
  "skip_ws (QUOTE # s) = QUOTE # s" "skip_ws [] = []"
  by (simp_all add: skip_ws_def is_ws_def QUOTE_def)

lemma skip_ws_render [simp]: "plain v \<Longrightarrow> skip_ws (render v @ s) = render v @ s"
  by (erule render_first [of v]) simp

lemma ends_number_punct [simp]:
  "ends_number (CHR '','' # s)" "ends_number (CHR '']'' # s)" "ends_number (CHR ''}'' # s)" "ends_number []"
  "ends_number (CHR 0x0A # s)"
  by (simp_all add: ends_number_def is_digit_def rng_def)

definition parses_back :: "json_hooks \<Rightarrow> pyval \<Rightarrow> bool" where
  "parses_back h v \<longleftrightarrow>
     (\<forall>n r. length (render v) \<le> n \<longrightarrow> ends_number r \<longrightarrow> parse_value h n (render v @ r) = Inr (v, r))"

lemma parses_backD:
  "parses_back h v \<Longrightarrow> length (render v) \<le> n \<Longrightarrow> ends_number r \<Longrightarrow>
     parse_value h n (render v @ r) = Inr (v, r)"
  by (simp add: parses_back_def)

section \<open>Lists and members\<close>

lemma parse_elems_render:
  assumes "xs \<noteq> []" and "\<And>x. x \<in> set xs \<Longrightarrow> plain x \<and> parses_back h x"
    and "length (join '','' (map render xs)) < n"
  shows "parse_elems h n acc (join '','' (map render xs) @ CHR '']'' # r) = Inr (PList (acc @ xs), r)"
  using assms
proof (induction xs arbitrary: n acc)
  case (Cons x xs)
  obtain m where n: "n = Suc m" using Cons.prems(3) by (cases n) auto
  show ?case
  proof (cases xs)
    case Nil
    with Cons.prems n show ?thesis by (simp add: parses_backD)
  next
    case (Cons y ys)
    let ?rest = "join '','' (map render xs) @ CHR '']'' # r"
    have py: "plain y" using Cons.prems(2) Cons by simp
    then have ws: "skip_ws ?rest = ?rest"
      using Cons by (cases ys) (auto elim!: render_first [of y])
    have "parse_value h m (render x @ CHR '','' # ?rest) = Inr (x, CHR '','' # ?rest)"
      using Cons.prems(2,3) n Cons by (intro parses_backD) auto
    moreover have "parse_elems h m (acc @ [x]) ?rest = Inr (PList ((acc @ [x]) @ xs), r)"
      using Cons.prems(2,3) n Cons by (intro Cons.IH) auto
    ultimately show ?thesis using n ws Cons by simp
  qed
qed simp

definition render_item :: "string \<times> pyval \<Rightarrow> string" where
  "render_item kv = quote (fst kv) @ '':'' @ render (snd kv)"

lemma render_dict: "render (PDict kvs) = ''{'' @ join '','' (map render_item kvs) @ ''}''"
  by (simp add: render_item_def [abs_def] case_prod_unfold)

lemma parse_members_render:
  assumes "keeps_pairs h" and "kvs \<noteq> []" and "\<And>k v. (k, v) \<in> set kvs \<Longrightarrow> plain v \<and> parses_back h v"
    and "distinct (map fst (acc @ kvs))"
    and "length (join '','' (map render_item kvs)) < n"
  shows "parse_members h n acc (tl (join '','' (map render_item kvs)) @ CHR ''}'' # r) =
           Inr (PDict (acc @ kvs), r)"
  using assms(2-)
proof (induction kvs arbitrary: n acc)
  case (Cons kv kvs)
  obtain k v where kv: "kv = (k, v)" by (cases kv)
  obtain m where n: "n = Suc m" using Cons.prems(4) by (cases n) auto
  have v: "plain v" "parses_back h v" using Cons.prems(2) kv by auto
  show ?case
  proof (cases kvs)
    case Nil
    have "parse_value h m (render v @ CHR ''}'' # r) = Inr (v, CHR ''}'' # r)"
      using Cons.prems(4) n Nil v kv by (intro parses_backD) (auto simp: render_item_def)
    moreover have "pairs_hook h (acc @ [(k, v)]) = Inr (PDict (acc @ [(k, v)]))"
      using assms(1) Cons.prems(3) Nil kv by (simp add: keeps_pairs_def)
    ultimately show ?thesis
      using n Nil kv v by (simp add: render_item_def quote_def parse_string_quote)
  next
    case (Cons kw kws)
    obtain t where j: "join '','' (map render_item kvs) = QUOTE # t"
      using Cons by (cases kws) (auto simp: render_item_def quote_def)
    have split: "join '','' (map render_item (kv # kvs)) = render_item kv @ CHR '','' # QUOTE # t"
      using Cons j by simp
    have len: "length (render v) \<le> m" "length (QUOTE # t) < m"
      using Cons.prems(4) n kv unfolding split by (simp_all add: render_item_def)
    have val: "parse_value h m (render v @ CHR '','' # QUOTE # t @ CHR ''}'' # r) =
        Inr (v, CHR '','' # QUOTE # t @ CHR ''}'' # r)"
      using len v by (intro parses_backD) simp_all
    have "parse_members h m (acc @ [kv]) (tl (QUOTE # t) @ CHR ''}'' # r) = Inr (PDict ((acc @ [kv]) @ kvs), r)"
      unfolding j [symmetric] using Cons.prems(2,3) len Cons j by (intro Cons.IH) auto
    then have mem: "parse_members h m (acc @ [(k, v)]) (t @ CHR ''}'' # r) = Inr (PDict (acc @ (k, v) # kvs), r)"
      using kv by simp
    have "parse_members h n acc
        (concat (map escape_char k) @ QUOTE # CHR '':'' # render v @ CHR '','' # QUOTE # t @ CHR ''}'' # r) =
        Inr (PDict (acc @ (k, v) # kvs), r)"
      unfolding n using v by (simp add: parse_string_quote val mem)
    moreover have "tl (join '','' (map render_item (kv # kvs))) @ CHR ''}'' # r =
        concat (map escape_char k) @ QUOTE # CHR '':'' # render v @ CHR '','' # QUOTE # t @ CHR ''}'' # r"
      unfolding split by (simp add: kv render_item_def quote_def)
    ultimately show ?thesis by (simp only: kv)
  qed
qed simp

section \<open>The round trip\<close>

lemma starts_with_Cons: "starts_with (p # ps) (c # cs) \<longleftrightarrow> p = c \<and> starts_with ps cs"
  by (auto simp: starts_with_def)

lemma starts_with_Nil [simp]: "starts_with [] s"
  by (simp add: starts_with_def)

lemma parses_back_int:
  assumes "int_fits i"
  shows "parses_back h (PInt i)"
  unfolding parses_back_def
proof (intro allI impI)
  fix n r
  assume n: "length (render (PInt i)) \<le> n" and r: "ends_number r"
  obtain c cs where c: "str_of_int i = c # cs" "c = CHR ''-'' \<or> is_digit c"
      "c = CHR ''-'' \<longrightarrow> cs \<noteq> [] \<and> is_digit (hd cs)"
    by (rule str_of_int_first [of i])
  obtain m where m: "n = Suc m" using n c by (cases n) auto
  have "\<not> starts_with ''-Infinity'' (c # cs @ r)"
    using c(3) by (cases cs) (auto simp: starts_with_Cons is_digit_def rng_def)
  moreover have "c \<noteq> QUOTE" "c \<noteq> CHR ''{''" "c \<noteq> CHR ''[''" "c \<noteq> CHR ''n''" "c \<noteq> CHR ''t''"
      "c \<noteq> CHR ''f''" "c \<noteq> CHR ''N''" "c \<noteq> CHR ''I''"
    using c(2) by (auto simp: QUOTE_def is_digit_def rng_def)
  ultimately have "parse_value h n (str_of_int i @ r) = parse_number (str_of_int i @ r)"
    unfolding c(1) m by (simp add: starts_with_Cons [of "CHR ''n''"] starts_with_Cons [of "CHR ''t''"]
      starts_with_Cons [of "CHR ''f''"] starts_with_Cons [of "CHR ''N''"] starts_with_Cons [of "CHR ''I''"])
  then show "parse_value h n (render (PInt i) @ r) = Inr (PInt i, r)"
    using parse_number_str_of_int [OF r assms] by simp
qed

lemma plain_parses_back:
  assumes "keeps_pairs h" and "plain v"
  shows "parses_back h v"
  using assms(2)
proof (induction v rule: plain.induct)
  case (3 i)
  then show ?case by (simp add: parses_back_int)
next
  case (6 xs)
  have *: "\<And>x. x \<in> set xs \<Longrightarrow> plain x \<and> parses_back h x"
    using 6 by (auto simp: list_all_iff)
  show ?case unfolding parses_back_def
  proof (intro allI impI)
    fix n r
    assume n: "length (render (PList xs)) \<le> n"
    obtain m where m: "n = Suc m" using n by (cases n) auto
    show "parse_value h n (render (PList xs) @ r) = Inr (PList xs, r)"
    proof (cases xs)
      case Nil
      then show ?thesis by (simp add: m QUOTE_def)
    next
      case (Cons x ys)
      let ?j = "join '','' (map render xs) @ CHR '']'' # r"
      have "plain x" using * Cons by simp
      then obtain c cs where c: "render x = c # cs" "\<not> is_ws c" "c \<noteq> CHR '']''"
        by (rule render_first)
      then obtain ds where ds: "?j = c # ds" using Cons by (cases ys) auto
      have "parse_elems h m [] ?j = Inr (PList ([] @ xs), r)"
        using n m Cons * by (intro parse_elems_render) auto
      then have "parse_elems h m [] (c # ds) = Inr (PList xs, r)" using ds by simp
      then show ?thesis using ds c by (simp add: m QUOTE_def)
    qed
  qed
next
  case (7 kvs)
  have *: "\<And>k v. (k, v) \<in> set kvs \<Longrightarrow> plain v \<and> parses_back h v"
    using 7 by (auto simp: list_all_iff)
  show ?case unfolding parses_back_def
  proof (intro allI impI)
    fix n r
    assume n: "length (render (PDict kvs)) \<le> n"
    obtain m where m: "n = Suc m" using n by (cases n) auto
    show "parse_value h n (render (PDict kvs) @ r) = Inr (PDict kvs, r)"
    proof (cases kvs)
      case Nil
      then show ?thesis using assms(1) by (simp add: m QUOTE_def keeps_pairs_def)
    next
      case (Cons kv kws)
      obtain t where j: "join '','' (map render_item kvs) = QUOTE # t"
        using Cons by (cases kws) (auto simp: render_item_def quote_def)
      have len: "length (join '','' (map render_item kvs)) < m"
        using n m unfolding render_dict by simp
      have "parse_members h m [] (tl (join '','' (map render_item kvs)) @ CHR ''}'' # r) = Inr (PDict ([] @ kvs), r)"
        using 7(2) Cons * assms(1) by (intro parse_members_render [OF assms(1) _ _ _ len]) auto
      then have mem: "parse_members h m [] (t @ CHR ''}'' # r) = Inr (PDict kvs, r)" by (simp add: j)
      have brace: "CHR ''{'' \<noteq> QUOTE" "QUOTE \<noteq> CHR ''}''" by (simp_all add: QUOTE_def)
      have "parse_value h n (CHR ''{'' # QUOTE # t @ CHR ''}'' # r) = Inr (PDict kvs, r)"
        unfolding m by (simp add: mem brace)
      then show ?thesis unfolding render_dict j by simp
    qed
  qed
next
  case 1
  have "parse_value h (Suc m) (''null'' @ r) = Inr (PNone, r)" for m r
    by (simp add: starts_with_def QUOTE_def)
  then show ?case by (auto simp: parses_back_def dest!: Suc_le_D)
next
  case (2 b)
  have "parse_value h (Suc m) (''true'' @ r) = Inr (PBool True, r)"
      "parse_value h (Suc m) (''false'' @ r) = Inr (PBool False, r)" for m r
    by (simp_all add: starts_with_def QUOTE_def)
  then show ?case by (cases b) (auto simp: parses_back_def dest!: Suc_le_D)
next
  case (5 s)
  show ?case by (auto simp: parses_back_def quote_def parse_string_quote dest!: Suc_le_D)
qed simp

lemma distinct_keys_sort: "distinct (map fst kvs) \<Longrightarrow> distinct (map fst (sort_key fst kvs))"
  by (simp add: distinct_map)

lemma plain_canon: "plain v \<Longrightarrow> plain (canon v)"
proof (induction v rule: plain.induct)
  case (7 kvs)
  have "distinct (map fst (map (\<lambda>(k, v). (k, canon v)) kvs))"
    using 7 by (simp add: comp_def case_prod_unfold)
  then have "distinct (map fst (sort_key fst (map (\<lambda>(k, v). (k, canon v)) kvs)))"
    by (rule distinct_keys_sort)
  with 7 show ?case by (force simp: list_all_iff)
qed (auto simp: list_all_iff)

lemma ends_number_ws: "list_all is_ws r \<Longrightarrow> ends_number r"
  by (cases r) (auto simp: ends_number_def is_ws_def is_digit_def rng_def)

text \<open>Trailing white space is what the trailing newline of the canonical files is.\<close>

theorem json_loads_dumps:
  assumes "keeps_pairs h" and "plain v" and "list_all is_ws r"
  shows "json_loads h (json_dumps v @ r) = Inr (canon v)"
proof -
  have p: "plain (canon v)" by (rule plain_canon [OF assms(2)])
  have "parse_value h (Suc (2 * length (json_dumps v @ r))) (render (canon v) @ r) = Inr (canon v, r)"
    using plain_parses_back [OF assms(1) p] ends_number_ws [OF assms(3)]
    by (intro parses_backD) (simp_all add: json_dumps_def)
  moreover have "skip_ws r = []"
    using assms(3) by (simp add: skip_ws_def dropWhile_eq_Nil_conv list_all_iff)
  ultimately show ?thesis
    using p by (simp add: json_loads_def json_dumps_def del: parse_value.simps)
qed

lemma json_dumps_inject:
  assumes "plain u" and "plain v" and "json_dumps u = json_dumps v"
  shows "canon u = canon v"
proof -
  have keep: "keeps_pairs \<lparr>pairs_hook = \<lambda>ps. Inr (PDict ps), constant_hook = float_constant\<rparr>"
    by (simp add: keeps_pairs_def)
  from json_loads_dumps [OF keep assms(1), of "[]"] json_loads_dumps [OF keep assms(2), of "[]"] assms(3)
  show ?thesis by simp
qed

lemma put_new: "k \<notin> set (map fst d) \<Longrightarrow> put d k v = d @ [(k, v)]"
  by (induction d) auto

lemma put_all_distinct: "distinct (map fst (d @ e)) \<Longrightarrow> put_all d e = d @ e"
proof (induction e arbitrary: d)
  case (Cons kv e)
  then show ?case by (cases kv) (auto simp: put_all_def put_new)
qed (simp add: put_all_def)

lemma keeps_pairs_default [simp]: "keeps_pairs default_hooks"
  by (simp add: keeps_pairs_def default_hooks_def dict_of_pairs_def put_all_distinct)

lemma keeps_pairs_unique [simp]:
  "pairs_hook h = unique_pairs e \<Longrightarrow> keeps_pairs h"
  by (simp add: keeps_pairs_def unique_pairs_def)

lemma int_fits_64: "\<bar>i\<bar> < 2 ^ 64 \<Longrightarrow> int_fits i"
proof -
  assume "\<bar>i\<bar> < 2 ^ 64"
  moreover have "(2 :: int) ^ 64 \<le> 10 ^ 20" by simp
  moreover have "(10 :: int) ^ 20 \<le> 10 ^ max_str_digits"
    by (intro power_increasing) (simp_all add: max_str_digits_def)
  ultimately show ?thesis unfolding int_fits_def by (meson less_le_trans)
qed

section \<open>The fuel is enough\<close>

lemma length_skip_ws: "length (skip_ws s) \<le> length s"
  by (simp add: skip_ws_def length_dropWhile_le)

lemma skip_ws_Cons_length: "skip_ws s = c # cs \<Longrightarrow> length cs < length s"
  using length_skip_ws [of s] by simp

lemma parse_string_consumes: "parse_string s = Inr (t, r) \<Longrightarrow> length r < length s"
proof (induction s arbitrary: t r rule: parse_string.induct)
  case (2 c cs)
  then show ?case
    by (fastforce split: if_splits list.splits option.splits simp: Let_def)
qed simp

lemma parse_frac_length: "parse_frac s = (fr, r) \<Longrightarrow> length r \<le> length s"
  using length_dropWhile_le [of is_digit "tl s"]
  by (auto simp: parse_frac_def split: list.splits if_splits)

lemma parse_exp_length: "parse_exp s = (ex, r) \<Longrightarrow> length r \<le> length s"
  using length_dropWhile_le [of is_digit "tl s"] length_dropWhile_le [of is_digit "tl (tl s)"]
  by (auto simp: parse_exp_def Let_def split: list.splits if_splits)

lemma parse_number_consumes:
  assumes "parse_number s = Inr (v, r)"
  shows "length r < length s"
proof -
  let ?s1 = "if s \<noteq> [] \<and> hd s = CHR ''-'' then tl s else s"
  obtain c cs where s1: "?s1 = c # cs" and d: "is_digit c"
    using assms by (auto simp: parse_number_def Let_def split: list.splits if_splits)
  define t where "t = (if c = CHR ''0'' then cs else dropWhile is_digit (c # cs))"
  have "length t < length (c # cs)"
    using d length_dropWhile_le [of is_digit cs] by (simp add: t_def)
  moreover obtain fr r1 ex where f: "parse_frac t = (fr, r1)" "parse_exp r1 = (ex, r)"
    using assms s1 d unfolding parse_number_def Let_def t_def
    by (auto split: prod.splits if_splits)
  moreover have "length (c # cs) \<le> length s"
    unfolding s1 [symmetric] by simp
  ultimately show ?thesis
    using parse_frac_length [OF f(1)] parse_exp_length [OF f(2)] by simp
qed

text \<open>All three scanners at once, by induction on the fuel.\<close>

definition consumes :: "json_hooks \<Rightarrow> nat \<Rightarrow> bool" where
  "consumes h n \<longleftrightarrow>
     (\<forall>s v r. parse_value h n s = Inr (v, r) \<longrightarrow> length r < length s) \<and>
     (\<forall>acc s v r. parse_elems h n acc s = Inr (v, r) \<longrightarrow> length r < length s) \<and>
     (\<forall>acc s v r. parse_members h n acc s = Inr (v, r) \<longrightarrow> length r < length s)"

lemma consumesD:
  assumes "consumes h n"
  shows "parse_value h n s = Inr (v, r) \<Longrightarrow> length r < length s"
    and "parse_elems h n acc s = Inr (v, r) \<Longrightarrow> length r < length s"
    and "parse_members h n d s = Inr (v, r) \<Longrightarrow> length r < length s"
  using assms unfolding consumes_def by blast+

lemmas scan_lengths = parse_string_consumes parse_number_consumes skip_ws_Cons_length

lemma parse_value_consumes:
  assumes "consumes h n" and "parse_value h (Suc n) s = Inr (v, r)"
  shows "length r < length s"
  using assms(2)
  by (cases s) (auto split: if_splits list.splits prod.splits
      dest!: scan_lengths consumesD [OF assms(1)])

lemma parse_elems_consumes:
  assumes "consumes h n" and "parse_elems h (Suc n) acc s = Inr (v, r)"
  shows "length r < length s"
proof -
  obtain x t where x: "parse_value h n s = Inr (x, t)" using assms(2) by auto
  obtain c cs where c: "skip_ws t = c # cs" using assms(2) x by (cases "skip_ws t") auto
  have r: "r = cs \<or> parse_elems h n (acc @ [x]) (skip_ws cs) = Inr (v, r)"
    using assms(2) x c by (simp split: if_splits)
  have "length cs < length s"
    using consumesD(1) [OF assms(1) x] skip_ws_Cons_length [OF c] by simp
  with r consumesD(2) [OF assms(1)] length_skip_ws [of cs] show ?thesis
    by (meson less_le_trans less_trans)
qed

lemma parse_members_consumes:
  assumes "consumes h n" and "parse_members h (Suc n) acc s = Inr (v, r)"
  shows "length r < length s"
proof -
  obtain k t where k: "parse_string s = Inr (k, t)" using assms(2) by auto
  obtain c cs where c: "skip_ws t = c # cs" using assms(2) k by (cases "skip_ws t") auto
  obtain x u where x: "parse_value h n (skip_ws cs) = Inr (x, u)"
    using assms(2) k c by (auto split: if_splits)
  obtain d ds where d: "skip_ws u = d # ds"
    using assms(2) k c x by (cases "skip_ws u") (auto split: if_splits)
  have r: "r = ds \<or> (\<exists>qs. skip_ws ds = QUOTE # qs \<and> parse_members h n (acc @ [(k, x)]) qs = Inr (v, r))"
    using assms(2) k c x d by (cases "skip_ws ds") (auto split: if_splits)
  have "length ds < length s"
    using parse_string_consumes [OF k] skip_ws_Cons_length [OF c] length_skip_ws [of cs]
      consumesD(1) [OF assms(1) x] skip_ws_Cons_length [OF d] by simp
  with r consumesD(3) [OF assms(1)] skip_ws_Cons_length show ?thesis
    by (meson less_trans)
qed

lemma scanner_consumes: "consumes h n"
proof (induction n)
  case (Suc n)
  show ?case
    unfolding consumes_def
    using parse_value_consumes [OF Suc.IH] parse_elems_consumes [OF Suc.IH]
      parse_members_consumes [OF Suc.IH] by blast
qed (simp add: consumes_def)

text \<open>Hooks that do not run out of stack themselves.\<close>

definition hooks_return :: "json_hooks \<Rightarrow> bool" where
  "hooks_return h \<longleftrightarrow>
     (\<forall>ps. pairs_hook h ps \<noteq> Inl RecursionError) \<and> (\<forall>t. constant_hook h t \<noteq> Inl RecursionError)"

lemma parse_string_no_fuel: "parse_string s = Inl e \<Longrightarrow> e \<noteq> RecursionError"
proof (induction s arbitrary: e rule: parse_string.induct)
  case (2 c cs)
  then show ?case
    by (fastforce simp: bnd_Inl_iff split: if_splits list.splits option.splits)
qed auto

lemma parse_number_no_fuel: "parse_number s \<noteq> Inl RecursionError"
  by (auto simp: parse_number_def Let_def split: list.splits prod.splits)

definition enough :: "json_hooks \<Rightarrow> nat \<Rightarrow> bool" where
  "enough h n \<longleftrightarrow>
     (\<forall>s. 2 * length s < n \<longrightarrow> parse_value h n s \<noteq> Inl RecursionError) \<and>
     (\<forall>acc s. 2 * length s + 1 < n \<longrightarrow> parse_elems h n acc s \<noteq> Inl RecursionError) \<and>
     (\<forall>acc s. 2 * length s < n \<longrightarrow> parse_members h n acc s \<noteq> Inl RecursionError)"

lemma enoughD:
  assumes "enough h n"
  shows "parse_value h n s = Inl RecursionError \<Longrightarrow> n \<le> 2 * length s"
    and "parse_elems h n acc s = Inl RecursionError \<Longrightarrow> n \<le> 2 * length s + 1"
    and "parse_members h n d s = Inl RecursionError \<Longrightarrow> n \<le> 2 * length s"
  using assms unfolding enough_def by (meson not_le)+

lemma parse_value_enough:
  assumes "enough h n" "hooks_return h" "parse_value h (Suc n) s = Inl RecursionError"
  shows "Suc n \<le> 2 * length s"
  using assms(2,3) parse_string_no_fuel parse_number_no_fuel
  by (cases s) (auto simp: bnd_Inl_iff hooks_return_def split: if_splits list.splits
      dest!: enoughD [OF assms(1)] skip_ws_Cons_length)

lemma parse_elems_enough:
  assumes "enough h n" "parse_elems h (Suc n) acc s = Inl RecursionError"
  shows "Suc n \<le> 2 * length s + 1"
proof -
  consider (now) "parse_value h n s = Inl RecursionError" | (later) x t where "parse_value h n s = Inr (x, t)"
    using assms(2) by (auto simp: bnd_Inl_iff)
  then show ?thesis
  proof cases
    case now
    from enoughD(1) [OF assms(1) now] show ?thesis by simp
  next
    case later
    obtain c cs where c: "skip_ws t = c # cs" using assms(2) later by (cases "skip_ws t") auto
    have "parse_elems h n (acc @ [x]) (skip_ws cs) = Inl RecursionError"
      using assms(2) later c by (simp split: if_splits)
    from consumesD(1) [OF scanner_consumes later] skip_ws_Cons_length [OF c] length_skip_ws [of cs]
      enoughD(2) [OF assms(1) this]
    show ?thesis by simp
  qed
qed

lemma parse_members_enough:
  assumes "enough h n" "hooks_return h" "parse_members h (Suc n) acc s = Inl RecursionError"
  shows "Suc n \<le> 2 * length s"
proof -
  obtain k t where k: "parse_string s = Inr (k, t)"
    using assms(3) parse_string_no_fuel by (auto simp: bnd_Inl_iff)
  obtain c cs where c: "skip_ws t = c # cs" using assms(3) k by (cases "skip_ws t") auto
  have cs: "length (skip_ws cs) + 1 < length s"
    using parse_string_consumes [OF k] skip_ws_Cons_length [OF c] length_skip_ws [of cs] by simp
  consider (now) "parse_value h n (skip_ws cs) = Inl RecursionError"
    | (later) x u where "parse_value h n (skip_ws cs) = Inr (x, u)"
    using assms(3) k c by (auto simp: bnd_Inl_iff split: if_splits)
  then show ?thesis
  proof cases
    case now
    from enoughD(1) [OF assms(1) now] cs show ?thesis by simp
  next
    case later
    obtain d ds where d: "skip_ws u = d # ds"
      using assms(3) k c later by (cases "skip_ws u") (auto split: if_splits)
    obtain qs where q: "skip_ws ds = QUOTE # qs" "parse_members h n (acc @ [(k, x)]) qs = Inl RecursionError"
      using assms(2,3) k c later d
      by (cases "skip_ws ds") (auto simp: bnd_Inl_iff hooks_return_def split: if_splits)
    from consumesD(1) [OF scanner_consumes later] skip_ws_Cons_length [OF d]
      skip_ws_Cons_length [OF q(1)] enoughD(3) [OF assms(1) q(2)] cs
    show ?thesis by simp
  qed
qed

lemma scanner_enough: "hooks_return h \<Longrightarrow> enough h n"
proof (induction n)
  case (Suc n)
  then have e: "enough h n" by simp
  show ?case
    unfolding enough_def
    using parse_value_enough [OF e Suc.prems] parse_elems_enough [OF e]
      parse_members_enough [OF e Suc.prems] by (meson not_le)
qed (simp add: enough_def)

theorem json_loads_returns: "hooks_return h \<Longrightarrow> json_loads h s \<noteq> Inl RecursionError"
  using enoughD(1) [OF scanner_enough, of h "Suc (2 * length s)" "skip_ws s"] length_skip_ws [of s]
  by (auto simp: json_loads_def bnd_Inl_iff simp del: parse_value.simps)

section \<open>What parsing raises\<close>

definition hooks_raise :: "json_hooks \<Rightarrow> exn set \<Rightarrow> bool" where
  "hooks_raise h E \<longleftrightarrow>
     (\<forall>ps e. pairs_hook h ps = Inl e \<longrightarrow> e \<in> E) \<and> (\<forall>t e. constant_hook h t = Inl e \<longrightarrow> e \<in> E)"

definition json_errors :: "exn set" where
  "json_errors = {JSONDecodeError, ValueError, UnicodeDecodeError}"

definition raises_in :: "json_hooks \<Rightarrow> exn set \<Rightarrow> nat \<Rightarrow> bool" where
  "raises_in h E n \<longleftrightarrow>
     (\<forall>s e. parse_value h n s = Inl e \<longrightarrow> e \<in> E) \<and>
     (\<forall>acc s e. parse_elems h n acc s = Inl e \<longrightarrow> e \<in> E) \<and>
     (\<forall>acc s e. parse_members h n acc s = Inl e \<longrightarrow> e \<in> E)"

lemma raises_inD:
  assumes "raises_in h E n"
  shows "parse_value h n s = Inl e \<Longrightarrow> e \<in> E"
    and "parse_elems h n acc s = Inl e \<Longrightarrow> e \<in> E"
    and "parse_members h n d s = Inl e \<Longrightarrow> e \<in> E"
  using assms unfolding raises_in_def by blast+

lemma parse_string_raises: "parse_string s = Inl e \<Longrightarrow> e \<in> json_errors"
proof (induction s arbitrary: e rule: parse_string.induct)
  case (2 c cs)
  then show ?case
    by (fastforce simp: bnd_Inl_iff json_errors_def split: if_splits list.splits option.splits)
qed (simp add: json_errors_def)

lemma parse_number_raises: "parse_number s = Inl e \<Longrightarrow> e \<in> json_errors"
  by (auto simp: parse_number_def Let_def json_errors_def split: list.splits prod.splits if_splits)

lemma raises_in_Suc:
  assumes h: "hooks_raise h E" and E: "json_errors \<subseteq> E" and IH: "raises_in h E n"
  shows "parse_value h (Suc n) s = Inl e \<Longrightarrow> e \<in> E"
    and "parse_elems h (Suc n) acc s = Inl e \<Longrightarrow> e \<in> E"
    and "parse_members h (Suc n) d s = Inl e \<Longrightarrow> e \<in> E"
proof -
  have J: "JSONDecodeError \<in> E" using E by (auto simp: json_errors_def)
  have str: "parse_string t = Inl e' \<Longrightarrow> e' \<in> E" and num: "parse_number t = Inl e' \<Longrightarrow> e' \<in> E" for t e'
    using E parse_string_raises parse_number_raises by blast+
  note hk = h [unfolded hooks_raise_def, THEN conjunct1, rule_format]
    h [unfolded hooks_raise_def, THEN conjunct2, rule_format]
  show "parse_value h (Suc n) s = Inl e \<Longrightarrow> e \<in> E"
    using J by (cases s) (auto simp: bnd_Inl_iff split: if_splits list.splits
        dest: str num hk raises_inD [OF IH])
  show "parse_elems h (Suc n) acc s = Inl e \<Longrightarrow> e \<in> E"
  proof (cases "parse_value h n s")
    case (Inr p)
    assume a: "parse_elems h (Suc n) acc s = Inl e"
    then show ?thesis
      using J Inr by (cases p; cases "skip_ws (snd p)") (auto split: if_splits dest: raises_inD [OF IH])
  qed (auto dest: raises_inD [OF IH])
  show "parse_members h (Suc n) d s = Inl e \<Longrightarrow> e \<in> E"
  proof -
    assume a: "parse_members h (Suc n) d s = Inl e"
    show ?thesis
    proof (cases "parse_string s")
      case (Inl x)
      with a str show ?thesis by simp
    next
      case (Inr kt)
      obtain k t where kt: "kt = (k, t)" by (cases kt)
      show ?thesis
      proof (cases "skip_ws t")
        case (Cons c cs)
        show ?thesis
        proof (cases "parse_value h n (skip_ws cs)")
          case (Inl x)
          then show ?thesis using a \<open>parse_string s = Inr kt\<close> kt Cons J
            by (auto split: if_splits dest: raises_inD [OF IH])
        next
          case p: (Inr xu)
          obtain x u where xu: "xu = (x, u)" by (cases xu)
          show ?thesis
            using a \<open>parse_string s = Inr kt\<close> kt Cons p xu J
            by (cases "skip_ws u"; cases "skip_ws (tl (skip_ws u))")
              (auto simp: bnd_Inl_iff split: if_splits dest: raises_inD [OF IH] hk)
        qed
      qed (use a \<open>parse_string s = Inr kt\<close> kt J in simp)
    qed
  qed
qed

lemma scanner_raises:
  assumes "hooks_raise h E" and "json_errors \<subseteq> E" and "RecursionError \<in> E"
  shows "raises_in h E n"
proof (induction n)
  case (Suc n)
  show ?case
    unfolding raises_in_def using raises_in_Suc [OF assms(1,2) Suc.IH] by blast
qed (use assms(3) in \<open>simp add: raises_in_def\<close>)

lemma json_loads_Inl:
  assumes "hooks_raise h E" and "RecursionError \<notin> E" and "json_loads h s = Inl e"
  shows "e \<in> E \<union> json_errors"
proof -
  let ?E = "insert RecursionError (E \<union> json_errors)"
  have "hooks_raise h ?E" using assms(1) by (auto simp: hooks_raise_def)
  then have "raises_in h ?E n" for n by (rule scanner_raises) auto
  then have "e \<in> ?E"
    using assms(3) by (auto simp: json_loads_def bnd_Inl_iff json_errors_def simp del: parse_value.simps
        dest: raises_inD split: if_splits)
  moreover have "e \<noteq> RecursionError"
    using json_loads_returns [of h s] assms by (auto simp: hooks_return_def hooks_raise_def)
  ultimately show ?thesis by simp
qed

end
