(* ===== verification/Py_Text.thy ===== *)
theory Py_Text
  imports Json_Roundtrip "HOL-Library.Multiset"
begin

text \<open>
  \<open>bytes.decode("utf-8")\<close> and \<open>bytes.decode("ascii")\<close>.  A byte is a character.  A text
  with a code point above 255 is outside the model's strings and is treated like an invalid
  encoding; what \<open>json.dumps(..., ensure_ascii=True)\<close> prints is ASCII, so that encoding and
  decoding it is the identity.
\<close>

definition ascii :: "char \<Rightarrow> bool" where
  "ascii c \<longleftrightarrow> (of_char c :: nat) < 128"

fun utf8_decode :: "string \<Rightarrow> string result" where
  "utf8_decode [] = Inr []"
| "utf8_decode (c # cs) =
     (if ascii c then bnd (utf8_decode cs) (\<lambda>t. Inr (c # t))
      else case cs of
        d # ds \<Rightarrow>
          if (of_char c = (194 :: nat) \<or> of_char c = (195 :: nat)) \<and> 128 \<le> (of_char d :: nat) \<and> (of_char d :: nat) < 192
          then bnd (utf8_decode ds) (\<lambda>t. Inr (char_of (((of_char c :: nat) - 192) * 64 + (of_char d - 128)) # t))
          else Inl UnicodeDecodeError
      | [] \<Rightarrow> Inl UnicodeDecodeError)"

definition ascii_decode :: "string \<Rightarrow> string result" where
  "ascii_decode s = (if list_all ascii s then Inr s else Inl UnicodeDecodeError)"

text \<open>
  \<open>json.loads\<close> of bytes: the encoding is guessed from the byte order mark and the zero
  bytes among the first four bytes, as \<open>json.detect_encoding\<close> does.
\<close>

datatype encoding = Utf8 | Utf8_sig | Utf16 bool | Utf16_bom | Utf32 bool | Utf32_bom

definition byte_at :: "string \<Rightarrow> nat \<Rightarrow> nat" where
  "byte_at b i = of_char (b ! i)"

definition has_prefix :: "nat list \<Rightarrow> string \<Rightarrow> bool" where
  "has_prefix p b \<longleftrightarrow> take (length p) (map of_char b) = p"

definition detect_encoding :: "string \<Rightarrow> encoding" where
  "detect_encoding b =
     (if has_prefix [0, 0, 254, 255] b \<or> has_prefix [255, 254, 0, 0] b then Utf32_bom
      else if has_prefix [254, 255] b \<or> has_prefix [255, 254] b then Utf16_bom
      else if has_prefix [239, 187, 191] b then Utf8_sig
      else if 4 \<le> length b then
        (if byte_at b 0 = 0 then (if byte_at b 1 \<noteq> 0 then Utf16 True else Utf32 True)
         else if byte_at b 1 = 0 then
           (if byte_at b 2 \<noteq> 0 \<or> byte_at b 3 \<noteq> 0 then Utf16 False else Utf32 False)
         else Utf8)
      else if length b = 2 then
        (if byte_at b 0 = 0 then Utf16 True else if byte_at b 1 = 0 then Utf16 False else Utf8)
      else Utf8)"

text \<open>Fixed-width units, big endian when the flag is set.\<close>

fun utf16_decode :: "bool \<Rightarrow> string \<Rightarrow> string result" where
  "utf16_decode big [] = Inr []"
| "utf16_decode big (a # b # r) =
     (let hi = (if big then a else b); lo = (if big then b else a) in
      if of_char hi \<noteq> (0 :: nat) then Inl UnicodeDecodeError
      else bnd (utf16_decode big r) (\<lambda>t. Inr (lo # t)))"
| "utf16_decode big [_] = Inl UnicodeDecodeError"

fun utf32_decode :: "bool \<Rightarrow> string \<Rightarrow> string result" where
  "utf32_decode big [] = Inr []"
| "utf32_decode big (a # b # c # d # r) =
     (let hi = (if big then [a, b, c] else [b, c, d]); lo = (if big then d else a) in
      if list_ex (\<lambda>x. of_char x \<noteq> (0 :: nat)) hi then Inl UnicodeDecodeError
      else bnd (utf32_decode big r) (\<lambda>t. Inr (lo # t)))"
| "utf32_decode big _ = Inl UnicodeDecodeError"

definition json_bytes_decode :: "string \<Rightarrow> string result" where
  "json_bytes_decode b =
     (case detect_encoding b of
        Utf8 \<Rightarrow> utf8_decode b
      | Utf8_sig \<Rightarrow> utf8_decode (drop 3 b)
      | Utf16 big \<Rightarrow> utf16_decode big b
      | Utf16_bom \<Rightarrow> utf16_decode (has_prefix [254, 255] b) (drop 2 b)
      | Utf32 big \<Rightarrow> utf32_decode big b
      | Utf32_bom \<Rightarrow> utf32_decode (has_prefix [0, 0, 254, 255] b) (drop 4 b))"

definition json_loads_bytes :: "json_hooks \<Rightarrow> string \<Rightarrow> pyval result" where
  "json_loads_bytes h b = bnd (json_bytes_decode b) (json_loads h)"

lemma utf8_decode_ascii: "list_all ascii s \<Longrightarrow> utf8_decode s = Inr s"
  by (induction s rule: utf8_decode.induct) simp_all

lemma utf8_decode_Inl: "utf8_decode s = Inl e \<Longrightarrow> e = UnicodeDecodeError"
  by (induction s rule: utf8_decode.induct)
    (auto simp: bnd_Inl_iff split: if_splits list.splits)

text \<open>What \<open>json.dumps\<close> prints is ASCII without a zero byte.\<close>

definition clean :: "char \<Rightarrow> bool" where
  "clean c \<longleftrightarrow> 0 < (of_char c :: nat) \<and> (of_char c :: nat) < 128"

lemma clean_ascii: "list_all clean s \<Longrightarrow> list_all ascii s"
  by (auto simp: list_all_iff clean_def ascii_def)

lemma clean_lit [simp]: "clean (CHR ''['')" "clean (CHR '']'')" "clean (CHR ''{'')" "clean (CHR ''}'')"
  "clean (CHR '','')" "clean (CHR '':'')" "clean (CHR ''-'')"
  by (simp_all add: clean_def)

lemma clean_hex_digit: "d < 16 \<Longrightarrow> clean (hex_digit d)"
  by (simp add: clean_def hex_digit_def)

lemma clean_escape_char: "list_all clean (escape_char c)"
proof -
  have "(of_char c :: nat) div 16 < 16" "(of_char c :: nat) mod 16 < 16"
    by (simp_all add: less_mult_imp_div_less)
  then show ?thesis
    by (simp add: escape_char_def Let_def clean_hex_digit) (simp add: clean_def QUOTE_def BACKSLASH_def)
qed

lemma clean_quote: "list_all clean (quote s)"
proof -
  have "list_all clean (concat (map escape_char s))"
    by (induction s) (simp_all add: clean_escape_char)
  then show ?thesis by (simp add: quote_def clean_def QUOTE_def)
qed

lemma clean_nat_str: "list_all clean (nat_str n)"
  using nat_str_digits [of n] by (auto simp: list_all_iff is_digit_def rng_def clean_def)

lemma clean_join: "list_all clean sep \<Longrightarrow> (\<And>x. x \<in> set xs \<Longrightarrow> list_all clean x) \<Longrightarrow> list_all clean (join sep xs)"
  by (induction sep xs rule: join.induct) simp_all

lemma render_clean: "plain v \<Longrightarrow> list_all clean (render v)"
proof (induction v rule: plain.induct)
  case (3 i)
  show ?case by (simp add: str_of_int_def clean_nat_str)
next
  case (6 xs)
  have "list_all clean (join '','' (map render xs))"
    using 6 by (intro clean_join) (auto simp: list_all_iff)
  then show ?case by simp
next
  case (7 kvs)
  have "list_all clean (join '','' (map render_item kvs))"
    using 7 clean_quote by (intro clean_join) (fastforce simp: list_all_iff render_item_def)+
  then show ?case by (simp add: render_dict del: render.simps)
qed (simp_all add: clean_quote, simp_all add: clean_def)

lemma json_dumps_clean: "plain v \<Longrightarrow> list_all clean (json_dumps v)"
  by (simp add: json_dumps_def render_clean plain_canon)

lemma json_dumps_ascii: "plain v \<Longrightarrow> list_all ascii (json_dumps v)"
  by (simp add: json_dumps_clean clean_ascii)

lemma json_bytes_decode_clean:
  assumes "list_all clean b"
  shows "json_bytes_decode b = Inr b"
proof -
  have *: "0 < (of_char (b ! i) :: nat)" if "i < length b" for i
    using assms that by (auto simp: list_all_length clean_def)
  have "\<not> has_prefix (x # p) b" if "x = 0 \<or> 128 \<le> x" for x p
    using assms that by (cases b) (auto simp: has_prefix_def clean_def)
  moreover have "4 \<le> length b \<or> length b = 2 \<Longrightarrow> 0 < length b \<and> 1 < length b" by auto
  then have "4 \<le> length b \<or> length b = 2 \<Longrightarrow> 0 < byte_at b 0 \<and> 0 < byte_at b 1"
    using * unfolding byte_at_def by blast
  ultimately have "detect_encoding b = Utf8"
    by (auto simp: detect_encoding_def)
  then show ?thesis by (simp add: json_bytes_decode_def utf8_decode_ascii clean_ascii [OF assms])
qed

lemma json_bytes_decode_Inl: "json_bytes_decode b = Inl e \<Longrightarrow> e = UnicodeDecodeError"
proof -
  have 16: "utf16_decode g t = Inl e \<Longrightarrow> e = UnicodeDecodeError" for g t
    by (induction g t rule: utf16_decode.induct) (auto simp: bnd_Inl_iff Let_def split: if_splits)
  have 32: "utf32_decode g t = Inl e \<Longrightarrow> e = UnicodeDecodeError" for g t
    by (induction g t rule: utf32_decode.induct) (auto simp: bnd_Inl_iff Let_def split: if_splits)
  assume "json_bytes_decode b = Inl e"
  then show ?thesis
    by (auto simp: json_bytes_decode_def dest: utf8_decode_Inl 16 32 split: encoding.splits)
qed

lemma ws_clean: "is_ws c \<Longrightarrow> clean c"
  by (auto simp: is_ws_def clean_def)

lemma json_loads_bytes_dumps:
  assumes "keeps_pairs h" "plain v" "list_all is_ws r"
  shows "json_loads_bytes h (json_dumps v @ r) = Inr (canon v)"
proof -
  have "list_all clean r"
    using assms(3) ws_clean by (rule list.pred_mono_strong)
  with json_dumps_clean [OF assms(2)] have "json_bytes_decode (json_dumps v @ r) = Inr (json_dumps v @ r)"
    by (intro json_bytes_decode_clean) simp
  then show ?thesis
    unfolding json_loads_bytes_def using json_loads_dumps [OF assms] by (simp only: bnd_simps)
qed

section \<open>A bound on the printed length\<close>

text \<open>Every character prints as at most six, every 64-bit number as at most twenty-one.\<close>

fun print_bound :: "pyval \<Rightarrow> nat" where
  "print_bound PNone = 4"
| "print_bound (PBool b) = 5"
| "print_bound (PInt i) = (if \<bar>i\<bar> < 2 ^ 64 then 21 else length (str_of_int i))"
| "print_bound (PFloat f) = length (render (PFloat f))"
| "print_bound (PStr s) = 6 * length s + 2"
| "print_bound (PList xs) = 2 + sum_list (map (\<lambda>x. print_bound x + 1) xs)"
| "print_bound (PDict kvs) = 2 + sum_list (map (\<lambda>(k, v). 6 * length k + 4 + print_bound v) kvs)"

lemma length_str_of_int: "\<bar>i\<bar> < 2 ^ 64 \<Longrightarrow> length (str_of_int i) \<le> 21"
proof -
  assume "\<bar>i\<bar> < 2 ^ 64"
  then have "nat \<bar>i\<bar> < 10 ^ 20" by simp
  then have "length (nat_str (nat \<bar>i\<bar>)) \<le> 20" by (intro length_nat_str) simp_all
  then show ?thesis by (cases "i < 0") (simp_all add: str_of_int_def)
qed

lemma length_escape_char: "length (escape_char c) \<le> 6"
  by (simp add: escape_char_def Let_def)

lemma length_quote: "length (quote s) \<le> 6 * length s + 2"
proof -
  have "length (concat (map escape_char s)) \<le> 6 * length s"
  proof (induction s)
    case (Cons c s)
    then show ?case using length_escape_char [of c] by simp
  qed simp
  then show ?thesis by (simp add: quote_def)
qed

lemma length_join: "length (join '','' xs) \<le> sum_list (map (\<lambda>x. length x + 1) xs)"
  by (induction "'',''" xs rule: join.induct) simp_all

lemma length_render: "length (render v) \<le> print_bound v"
proof (induction v rule: print_bound.induct)
  case (3 i)
  show ?case using length_str_of_int [of i] by simp
next
  case (5 s)
  show ?case using length_quote [of s] by simp
next
  case (6 xs)
  have "sum_list (map (\<lambda>x. length (render x) + 1) xs) \<le> sum_list (map (\<lambda>x. print_bound x + 1) xs)"
    using 6 by (intro sum_list_mono) auto
  then show ?case using length_join [of "map render xs"] by (simp add: comp_def)
next
  case (7 kvs)
  have sum: "sum_list (map (\<lambda>kv. length (render_item kv) + 1) kvs) \<le>
      sum_list (map (\<lambda>(k, v). 6 * length k + 4 + print_bound v) kvs)"
  proof (intro sum_list_mono)
    fix kv
    assume kv: "kv \<in> set kvs"
    obtain k v where e: "kv = (k, v)" by (cases kv)
    have "length (render v) \<le> print_bound v" by (rule 7 [OF kv e [symmetric]])
    with length_quote [of k] e show "length (render_item kv) + 1 \<le> (case kv of (k, v) \<Rightarrow> 6 * length k + 4 + print_bound v)"
      by (simp add: render_item_def)
  qed
  have "length (render (PDict kvs)) \<le> 2 + sum_list (map (\<lambda>kv. length (render_item kv) + 1) kvs)"
    using length_join [of "map render_item kvs"] unfolding render_dict by (simp add: comp_def)
  with sum show ?case by (simp only: print_bound.simps)
qed simp_all

lemma sum_list_sort: "sum_list (map f (sort_key g xs)) = (sum_list (map f xs) :: nat)"
proof -
  have "mset (map f (sort_key g xs)) = mset (map f xs)" by simp
  then show ?thesis by (metis sum_mset_sum_list)
qed

lemma print_bound_canon: "print_bound (canon v) = print_bound v"
proof (induction v rule: canon.induct)
  case (1 xs)
  then have "map (\<lambda>x. print_bound (canon x) + 1) xs = map (\<lambda>x. print_bound x + 1) xs"
    by (intro map_cong) auto
  then show ?case by (simp only: canon.simps print_bound.simps map_map comp_def)
next
  case (2 kvs)
  then have "map (\<lambda>(k, v). 6 * length k + 4 + print_bound (canon v)) kvs =
      map (\<lambda>(k, v). 6 * length k + 4 + print_bound v) kvs" by (intro map_cong) auto
  then show ?case
    by (simp only: canon.simps print_bound.simps sum_list_sort map_map comp_def case_prod_unfold fst_conv snd_conv)
qed simp_all

lemma length_json_dumps: "length (json_dumps v) \<le> print_bound v"
  using length_render [of "canon v"] by (simp add: json_dumps_def print_bound_canon)

section \<open>What loading bytes raises\<close>

lemma json_loads_bytes_Inl:
  assumes "hooks_raise h E" and "RecursionError \<notin> E" and "json_loads_bytes h b = Inl e"
  shows "e \<in> E \<union> json_errors"
  using assms json_loads_Inl [OF assms(1,2)] json_bytes_decode_Inl [of b]
  by (auto simp: json_loads_bytes_def bnd_Inl_iff json_errors_def)

lemma hooks_raise_default [simp]: "hooks_raise default_hooks {}"
  by (simp add: hooks_raise_def default_hooks_def dict_of_pairs_def float_constant_def)

section \<open>Values that print without an equals sign\<close>

fun no_equals :: "pyval \<Rightarrow> bool" where
  "no_equals (PStr s) = (CHR ''='' \<notin> set s)"
| "no_equals (PList xs) = list_all no_equals xs"
| "no_equals (PDict kvs) = list_all (\<lambda>(k, v). CHR ''='' \<notin> set k \<and> no_equals v) kvs"
| "no_equals (PFloat f) = False"
| "no_equals _ = True"

lemma equals_escape_char: "CHR ''='' \<in> set (escape_char c) \<Longrightarrow> c = CHR ''=''"
proof -
  have "hex_digit d \<noteq> CHR ''=''" if "d < 16" for d
    using that by (auto simp: hex_digit_def char_of_eq_iff take_bit_eq_mod)
  moreover have "(of_char c :: nat) div 16 < 16" "(of_char c :: nat) mod 16 < 16"
    by (simp_all add: less_mult_imp_div_less)
  moreover assume "CHR ''='' \<in> set (escape_char c)"
  ultimately show ?thesis
    by (auto simp: escape_char_def Let_def QUOTE_def BACKSLASH_def split: if_splits dest!: sym [of "CHR ''=''"])
qed

lemma equals_quote: "CHR ''='' \<in> set (quote s) \<Longrightarrow> CHR ''='' \<in> set s"
  by (auto simp: quote_def QUOTE_def dest: equals_escape_char)

lemma equals_nat_str: "CHR ''='' \<notin> set (nat_str n)"
  using nat_str_digits [of n] by (auto simp: list_all_iff is_digit_def rng_def)

lemma set_join: "set (join '','' xs) \<subseteq> insert (CHR '','') (\<Union> (set ` set xs))"
  by (induction "'',''" xs rule: join.induct) auto

lemma render_no_equals: "no_equals v \<Longrightarrow> CHR ''='' \<notin> set (render v)"
proof (induction v rule: no_equals.induct)
  case (1 s)
  then show ?case using equals_quote by auto
next
  case (2 xs)
  then show ?case using set_join [of "map render xs"] by (auto simp: list_all_iff)
next
  case (3 kvs)
  have "CHR ''='' \<notin> set (render_item kv)" if "kv \<in> set kvs" for kv
    using 3 that equals_quote by (cases kv) (fastforce simp: list_all_iff render_item_def)
  then show ?case
    using set_join [of "map render_item kvs"] unfolding render_dict by auto
qed (simp_all add: str_of_int_def equals_nat_str)

lemma no_equals_canon: "no_equals v \<Longrightarrow> no_equals (canon v)"
  by (induction v rule: canon.induct) (auto simp: list_all_iff)

lemma json_dumps_no_equals: "no_equals v \<Longrightarrow> CHR ''='' \<notin> set (json_dumps v)"
  by (simp add: json_dumps_def render_no_equals no_equals_canon)

end
