(* ===== verification/Policy.thy ===== *)
theory Policy
  imports Py_Text
begin

text \<open>
  \<open>src/deployment/policy.py\<close>: the closed validation rules that every other module of the
  control plane calls.  A validator takes any Python value and returns the string it
  accepts or raises \<open>DeploymentPolicyError\<close>.  Each has one lemma in \<open>py_simps\<close> that says
  exactly which values it accepts and one in \<open>policy_errors\<close> that says what it raises.
\<close>

named_theorems policy_errors \<open>the only exception a validator raises\<close>

section \<open>Constants\<close>

definition SCHEMA_VERSION :: int where "SCHEMA_VERSION = 1"
definition STAGES :: "string list" where "STAGES = [''dev'', ''staging'', ''prod'']"
definition SLOTS :: "string list" where "SLOTS = [''blue'', ''green'']"
definition APPROVED_OCI_HOST :: string where "APPROVED_OCI_HOST = ''oci-dev.omnilyzer.ai''"

definition APPROVED_OCI_ORIGIN :: string where
  "APPROVED_OCI_ORIGIN = ''https://oci-dev.omnilyzer.ai''"

definition APPROVED_OCI_REPOSITORIES :: "string list" where
  "APPROVED_OCI_REPOSITORIES = [''omnilyzer/task013-release-canary'']"

definition EXPECTED_RELEASE_WORKFLOW :: string where
  "EXPECTED_RELEASE_WORKFLOW =
     ''MichaelTrueX/omnilyzer-platform/.github/workflows/platform-release.yml'' @ ''@refs/heads/main''"

definition EXPECTED_CERTIFICATE_IDENTITY :: string where
  "EXPECTED_CERTIFICATE_IDENTITY = ''https://github.com/'' @ EXPECTED_RELEASE_WORKFLOW"

definition EXPECTED_CERTIFICATE_ISSUER :: string where
  "EXPECTED_CERTIFICATE_ISSUER = ''https://token.actions.githubusercontent.com''"

section \<open>Patterns\<close>

abbreviation DIGIT :: rexp where "DIGIT \<equiv> Cls is_digit"
abbreviation HEX :: rexp where "HEX \<equiv> Cls is_lower_hex"
abbreviation ALNUM :: rexp where "ALNUM \<equiv> Cls is_alnum"
abbreviation one_of :: "string \<Rightarrow> rexp" where "one_of cs \<equiv> Cls (\<lambda>c. c \<in> set cs)"

text \<open>\<open>0|[1-9][0-9]*\<close>\<close>

definition NUMBER_RE :: rexp where
  "NUMBER_RE = Alt (Lit ''0'') (Cat (Cls (rng (CHR ''1'') (CHR ''9''))) (Star DIGIT))"

definition SEMVER_RE :: rexp where
  "SEMVER_RE = Cat NUMBER_RE (Cat (Lit ''.'') (Cat NUMBER_RE (Cat (Lit ''.'') NUMBER_RE)))"

definition SOURCE_SHA_RE :: rexp where "SOURCE_SHA_RE = Times 40 HEX"
definition SHA256_RE :: rexp where "SHA256_RE = Times 64 HEX"
definition DIGEST_RE :: rexp where "DIGEST_RE = Cat (Lit ''sha256:'') (Times 64 HEX)"

definition IDENTITY_RE :: rexp where
  "IDENTITY_RE = Cat ALNUM (Upto 254 (Cls (\<lambda>c. is_alnum c \<or> c \<in> set ''._:/@-'')))"

definition EVENT_ID_RE :: rexp where
  "EVENT_ID_RE = Cat ALNUM (Upto 127 (Cls (\<lambda>c. is_alnum c \<or> c \<in> set ''._:-'')))"

definition MONTH_RE :: rexp where
  "MONTH_RE = Alt (Cat (Lit ''0'') (Cls (rng (CHR ''1'') (CHR ''9''))))
                  (Cat (Lit ''1'') (Cls (rng (CHR ''0'') (CHR ''2''))))"

definition DAY_RE :: rexp where
  "DAY_RE = Alt (Cat (Lit ''0'') (Cls (rng (CHR ''1'') (CHR ''9''))))
              (Alt (Cat (one_of ''12'') DIGIT) (Cat (Lit ''3'') (one_of ''01'')))"

definition HOUR_RE :: rexp where
  "HOUR_RE = Alt (Cat (one_of ''01'') DIGIT) (Cat (Lit ''2'') (Cls (rng (CHR ''0'') (CHR ''3''))))"

definition SIXTY_RE :: rexp where
  "SIXTY_RE = Cat (Cls (rng (CHR ''0'') (CHR ''5''))) DIGIT"

definition TIMESTAMP_RE :: rexp where
  "TIMESTAMP_RE =
     Cat (Times 4 DIGIT) (Cat (Lit ''-'') (Cat MONTH_RE (Cat (Lit ''-'') (Cat DAY_RE (Cat (Lit ''T'')
       (Cat HOUR_RE (Cat (Lit '':'') (Cat SIXTY_RE (Cat (Lit '':'') (Cat SIXTY_RE (Lit ''Z'')))))))))))"

section \<open>Validators\<close>

text \<open>The key set is compared as a set; the dictionary itself is returned.\<close>

definition closed_object :: "pyval \<Rightarrow> string list \<Rightarrow> pydict result" where
  "closed_object v names =
     (case v of
        PDict d \<Rightarrow> if set (keys d) \<noteq> set names then Inl DeploymentPolicyError else Inr d
      | _ \<Rightarrow> Inl DeploymentPolicyError)"

definition nonempty_string :: "pyval \<Rightarrow> string result" where
  "nonempty_string v =
     (case v of PStr s \<Rightarrow> if s = [] then Inl DeploymentPolicyError else Inr s
      | _ \<Rightarrow> Inl DeploymentPolicyError)"

definition validate_semver :: "pyval \<Rightarrow> string result" where
  "validate_semver v = bnd (nonempty_string v) (\<lambda>s.
     if \<not> fullmatch SEMVER_RE s then Inl DeploymentPolicyError else Inr s)"

definition validate_source_sha :: "pyval \<Rightarrow> string result" where
  "validate_source_sha v = bnd (nonempty_string v) (\<lambda>s.
     if \<not> fullmatch SOURCE_SHA_RE s \<or> s = replicate 40 (CHR ''0'')
     then Inl DeploymentPolicyError else Inr s)"

definition validate_digest :: "pyval \<Rightarrow> string result" where
  "validate_digest v = bnd (nonempty_string v) (\<lambda>s.
     if \<not> fullmatch DIGEST_RE s then Inl DeploymentPolicyError else Inr s)"

definition validate_sha256 :: "pyval \<Rightarrow> string result" where
  "validate_sha256 v = bnd (nonempty_string v) (\<lambda>s.
     if \<not> fullmatch SHA256_RE s then Inl DeploymentPolicyError else Inr s)"

text \<open>\<open>value in ("a", "b")\<close> compares with \<open>==\<close>; only a string equals a string.\<close>

definition in_strings :: "pyval \<Rightarrow> string list \<Rightarrow> bool" where
  "in_strings v ss \<longleftrightarrow> list_ex (\<lambda>s. py_eq v (PStr s)) ss"

definition str_of :: "pyval \<Rightarrow> string result" where
  "str_of v = (case v of PStr s \<Rightarrow> Inr s | _ \<Rightarrow> Inl TypeError)"

definition validate_stage :: "pyval \<Rightarrow> string result" where
  "validate_stage v = (if \<not> in_strings v STAGES then Inl DeploymentPolicyError else str_of v)"

definition validate_slot :: "pyval \<Rightarrow> string result" where
  "validate_slot v = (if \<not> in_strings v SLOTS then Inl DeploymentPolicyError else str_of v)"

text \<open>\<open>validate_slot(value, context, nullable=True)\<close>\<close>

definition validate_slot_nullable :: "pyval \<Rightarrow> string option result" where
  "validate_slot_nullable v =
     (if v = PNone then Inr None else bnd (validate_slot v) (\<lambda>s. Inr (Some s)))"

definition validate_repository :: "pyval \<Rightarrow> string result" where
  "validate_repository v = bnd (nonempty_string v) (\<lambda>s.
     if s \<notin> set APPROVED_OCI_REPOSITORIES then Inl DeploymentPolicyError
     else if CHR '':'' \<in> set s \<or> CHR ''@'' \<in> set s then Inl DeploymentPolicyError else Inr s)"

definition exact_image_reference :: "pyval \<Rightarrow> pyval \<Rightarrow> string result" where
  "exact_image_reference repository digest =
     bnd (validate_repository repository) (\<lambda>r. bnd (validate_digest digest) (\<lambda>d.
       Inr (APPROVED_OCI_HOST @ ''/'' @ r @ ''@'' @ d)))"

definition validate_identity :: "pyval \<Rightarrow> string result" where
  "validate_identity v = bnd (nonempty_string v) (\<lambda>s.
     if \<not> fullmatch IDENTITY_RE s then Inl DeploymentPolicyError else Inr s)"

definition validate_event_id :: "pyval \<Rightarrow> string result" where
  "validate_event_id v = bnd (nonempty_string v) (\<lambda>s.
     if \<not> fullmatch EVENT_ID_RE s then Inl DeploymentPolicyError else Inr s)"

definition validate_timestamp :: "pyval \<Rightarrow> string result" where
  "validate_timestamp v = bnd (nonempty_string v) (\<lambda>s.
     if \<not> fullmatch TIMESTAMP_RE s then Inl DeploymentPolicyError else Inr s)"

definition NEWLINE :: char where "NEWLINE = CHR 0x0A"

definition canonical_bytes :: "pyval \<Rightarrow> string" where
  "canonical_bytes v = json_dumps v @ [NEWLINE]"

section \<open>What the validators accept\<close>

lemma closed_object_Inr [py_simps]:
  "closed_object v names = Inr d \<longleftrightarrow> v = PDict d \<and> set (keys d) = set names"
  by (cases v) (auto simp: closed_object_def)

lemma nonempty_string_Inr [py_simps]: "nonempty_string v = Inr s \<longleftrightarrow> v = PStr s \<and> s \<noteq> []"
  by (cases v) (auto simp: nonempty_string_def)

lemma in_strings_iff [py_simps]: "in_strings v ss \<longleftrightarrow> (\<exists>s \<in> set ss. v = PStr s)"
  by (auto simp: in_strings_def list_ex_iff)

lemma str_of_Inr [py_simps]: "str_of v = Inr s \<longleftrightarrow> v = PStr s"
  by (cases v) (auto simp: str_of_def)

lemma fullmatch_Nil_False:
  "\<not> fullmatch SEMVER_RE []" "\<not> fullmatch SOURCE_SHA_RE []" "\<not> fullmatch DIGEST_RE []"
  "\<not> fullmatch SHA256_RE []" "\<not> fullmatch IDENTITY_RE []" "\<not> fullmatch EVENT_ID_RE []"
  "\<not> fullmatch TIMESTAMP_RE []"
  by (simp_all add: SEMVER_RE_def NUMBER_RE_def SOURCE_SHA_RE_def DIGEST_RE_def SHA256_RE_def
      IDENTITY_RE_def EVENT_ID_RE_def TIMESTAMP_RE_def)

lemma validate_semver_Inr [py_simps]:
  "validate_semver v = Inr s \<longleftrightarrow> v = PStr s \<and> fullmatch SEMVER_RE s"
  using fullmatch_Nil_False(1) by (auto simp: validate_semver_def py_simps)

lemma validate_source_sha_Inr [py_simps]:
  "validate_source_sha v = Inr s \<longleftrightarrow>
     v = PStr s \<and> fullmatch SOURCE_SHA_RE s \<and> s \<noteq> replicate 40 (CHR ''0'')"
  using fullmatch_Nil_False(2) by (auto simp: validate_source_sha_def py_simps)

lemma validate_digest_Inr [py_simps]:
  "validate_digest v = Inr s \<longleftrightarrow> v = PStr s \<and> fullmatch DIGEST_RE s"
  using fullmatch_Nil_False(3) by (auto simp: validate_digest_def py_simps)

lemma validate_sha256_Inr [py_simps]:
  "validate_sha256 v = Inr s \<longleftrightarrow> v = PStr s \<and> fullmatch SHA256_RE s"
  using fullmatch_Nil_False(4) by (auto simp: validate_sha256_def py_simps)

lemma validate_stage_Inr [py_simps]: "validate_stage v = Inr s \<longleftrightarrow> v = PStr s \<and> s \<in> set STAGES"
  by (auto simp: validate_stage_def py_simps)

lemma validate_slot_Inr [py_simps]: "validate_slot v = Inr s \<longleftrightarrow> v = PStr s \<and> s \<in> set SLOTS"
  by (auto simp: validate_slot_def py_simps)

lemma validate_slot_nullable_Inr [py_simps]:
  "validate_slot_nullable v = Inr a \<longleftrightarrow> v = of_opt a \<and> (\<forall>s. a = Some s \<longrightarrow> s \<in> set SLOTS)"
  by (cases a) (auto simp: validate_slot_nullable_def py_simps)

lemma validate_repository_Inr [py_simps]:
  "validate_repository v = Inr s \<longleftrightarrow> v = PStr s \<and> s \<in> set APPROVED_OCI_REPOSITORIES"
  by (auto simp: validate_repository_def py_simps APPROVED_OCI_REPOSITORIES_def)

lemma validate_identity_Inr [py_simps]:
  "validate_identity v = Inr s \<longleftrightarrow> v = PStr s \<and> fullmatch IDENTITY_RE s"
  using fullmatch_Nil_False(5) by (auto simp: validate_identity_def py_simps)

lemma validate_event_id_Inr [py_simps]:
  "validate_event_id v = Inr s \<longleftrightarrow> v = PStr s \<and> fullmatch EVENT_ID_RE s"
  using fullmatch_Nil_False(6) by (auto simp: validate_event_id_def py_simps)

lemma validate_timestamp_Inr [py_simps]:
  "validate_timestamp v = Inr s \<longleftrightarrow> v = PStr s \<and> fullmatch TIMESTAMP_RE s"
  using fullmatch_Nil_False(7) by (auto simp: validate_timestamp_def py_simps)

lemma exact_image_reference_Inr [py_simps]:
  "exact_image_reference r d = Inr s \<longleftrightarrow>
     (\<exists>rr dd. r = PStr rr \<and> rr \<in> set APPROVED_OCI_REPOSITORIES \<and> d = PStr dd \<and>
        fullmatch DIGEST_RE dd \<and> s = APPROVED_OCI_HOST @ ''/'' @ rr @ ''@'' @ dd)"
  by (auto simp: exact_image_reference_def py_simps)

section \<open>What the validators raise\<close>

lemma nonempty_string_Inl [policy_errors]: "nonempty_string v = Inl e \<Longrightarrow> e = DeploymentPolicyError"
  by (auto simp: nonempty_string_def split: pyval.splits if_splits)

lemma closed_object_Inl [policy_errors]: "closed_object v f = Inl e \<Longrightarrow> e = DeploymentPolicyError"
  by (auto simp: closed_object_def split: pyval.splits if_splits)

lemma validate_Inl [policy_errors]:
  "validate_semver v = Inl e \<Longrightarrow> e = DeploymentPolicyError"
  "validate_source_sha v = Inl e \<Longrightarrow> e = DeploymentPolicyError"
  "validate_digest v = Inl e \<Longrightarrow> e = DeploymentPolicyError"
  "validate_sha256 v = Inl e \<Longrightarrow> e = DeploymentPolicyError"
  "validate_identity v = Inl e \<Longrightarrow> e = DeploymentPolicyError"
  "validate_event_id v = Inl e \<Longrightarrow> e = DeploymentPolicyError"
  "validate_timestamp v = Inl e \<Longrightarrow> e = DeploymentPolicyError"
  "validate_repository v = Inl e \<Longrightarrow> e = DeploymentPolicyError"
  by (auto simp: bnd_Inl_iff validate_semver_def validate_source_sha_def validate_digest_def
      validate_sha256_def validate_identity_def validate_event_id_def validate_timestamp_def
      validate_repository_def dest: nonempty_string_Inl split: if_splits)

lemma validate_choice_Inl [policy_errors]:
  "validate_stage v = Inl e \<Longrightarrow> e = DeploymentPolicyError"
  "validate_slot v = Inl e \<Longrightarrow> e = DeploymentPolicyError"
  by (auto simp: validate_stage_def validate_slot_def py_simps str_of_def split: if_splits)

lemma validate_slot_nullable_Inl [policy_errors]:
  "validate_slot_nullable v = Inl e \<Longrightarrow> e = DeploymentPolicyError"
  by (auto simp: validate_slot_nullable_def bnd_Inl_iff dest: policy_errors split: if_splits)

lemma exact_image_reference_Inl [policy_errors]:
  "exact_image_reference r d = Inl e \<Longrightarrow> e = DeploymentPolicyError"
  by (auto simp: exact_image_reference_def bnd_Inl_iff dest: policy_errors)

text \<open>The same facts as rules for composed operations.\<close>

lemma raises_only_policy [raise_rules]:
  assumes "DeploymentPolicyError \<in> E"
  shows "raises_only E (nonempty_string v)" "raises_only E (closed_object v f)"
    "raises_only E (validate_semver v)" "raises_only E (validate_source_sha v)"
    "raises_only E (validate_digest v)" "raises_only E (validate_sha256 v)"
    "raises_only E (validate_identity v)" "raises_only E (validate_event_id v)"
    "raises_only E (validate_timestamp v)" "raises_only E (validate_repository v)"
    "raises_only E (validate_stage v)" "raises_only E (validate_slot v)"
    "raises_only E (validate_slot_nullable v)" "raises_only E (exact_image_reference v u)"
  using assms by (auto intro!: raises_onlyI dest: policy_errors)

section \<open>Digests, references and canonical bytes\<close>

lemma fullmatch_DIGEST_RE:
  "fullmatch DIGEST_RE s \<longleftrightarrow> (\<exists>h. s = ''sha256:'' @ h \<and> length h = 64 \<and> list_all is_lower_hex h)"
  by (auto simp: DIGEST_RE_def fullmatch_Cat simp del: Lit.simps)

lemma fullmatch_SOURCE_SHA_RE:
  "fullmatch SOURCE_SHA_RE s \<longleftrightarrow> length s = 40 \<and> list_all is_lower_hex s"
  by (simp add: SOURCE_SHA_RE_def)

lemma fullmatch_SHA256_RE: "fullmatch SHA256_RE s \<longleftrightarrow> length s = 64 \<and> list_all is_lower_hex s"
  by (simp add: SHA256_RE_def)

lemma fullmatch_IDENTITY_RE:
  "fullmatch IDENTITY_RE s \<longleftrightarrow>
     (\<exists>c t. s = c # t \<and> is_alnum c \<and> length t \<le> 254 \<and> list_all (\<lambda>c. is_alnum c \<or> c \<in> set ''._:/@-'') t)"
  by (simp add: IDENTITY_RE_def fullmatch_Cat_Cls)

lemma fullmatch_EVENT_ID_RE:
  "fullmatch EVENT_ID_RE s \<longleftrightarrow>
     (\<exists>c t. s = c # t \<and> is_alnum c \<and> length t \<le> 127 \<and> list_all (\<lambda>c. is_alnum c \<or> c \<in> set ''._:-'') t)"
  by (simp add: EVENT_ID_RE_def fullmatch_Cat_Cls)

lemma ws_NEWLINE [simp]: "is_ws NEWLINE"
  by (simp add: is_ws_def NEWLINE_def)

lemma canonical_loads:
  "keeps_pairs h \<Longrightarrow> plain v \<Longrightarrow> json_loads h (canonical_bytes v) = Inr (canon v)"
  unfolding canonical_bytes_def by (rule json_loads_dumps) simp_all

lemma canonical_loads_bytes:
  "keeps_pairs h \<Longrightarrow> plain v \<Longrightarrow> json_loads_bytes h (canonical_bytes v) = Inr (canon v)"
  unfolding canonical_bytes_def by (rule json_loads_bytes_dumps) simp_all

lemma canonical_bytes_inject:
  "plain u \<Longrightarrow> plain v \<Longrightarrow> canonical_bytes u = canonical_bytes v \<Longrightarrow> canon u = canon v"
  unfolding canonical_bytes_def by (rule json_dumps_inject) simp_all

lemma canonical_decode: "plain v \<Longrightarrow> utf8_decode (canonical_bytes v) = Inr (canonical_bytes v)"
  by (intro utf8_decode_ascii) (simp add: canonical_bytes_def json_dumps_ascii, simp add: NEWLINE_def ascii_def)

section \<open>Key order does not matter to the validators\<close>

lemma nonempty_string_canon [canon_simps]: "nonempty_string (canon v) = nonempty_string v"
  by (cases v) (simp_all add: nonempty_string_def)

lemma in_strings_canon [canon_simps]: "in_strings (canon v) ss = in_strings v ss"
  by (simp add: in_strings_def)

lemma str_of_canon [canon_simps]: "str_of (canon v) = str_of v"
  by (cases v) (simp_all add: str_of_def)

lemma validate_canon [canon_simps]:
  "validate_semver (canon v) = validate_semver v"
  "validate_source_sha (canon v) = validate_source_sha v"
  "validate_digest (canon v) = validate_digest v"
  "validate_sha256 (canon v) = validate_sha256 v"
  "validate_stage (canon v) = validate_stage v"
  "validate_slot (canon v) = validate_slot v"
  "validate_slot_nullable (canon v) = validate_slot_nullable v"
  "validate_repository (canon v) = validate_repository v"
  "validate_identity (canon v) = validate_identity v"
  "validate_event_id (canon v) = validate_event_id v"
  "validate_timestamp (canon v) = validate_timestamp v"
  by (simp_all add: validate_semver_def validate_source_sha_def validate_digest_def
      validate_sha256_def validate_stage_def validate_slot_def validate_slot_nullable_def
      validate_repository_def validate_identity_def validate_event_id_def validate_timestamp_def
      canon_simps)

lemma closed_object_PDict [simp]:
  "closed_object (PDict d) names = (if set (keys d) = set names then Inr d else Inl DeploymentPolicyError)"
  by (simp add: closed_object_def)

end
