(* ===== verification/Py_Fs.thy ===== *)
theory Py_Fs
  imports Prelude
begin

text \<open>
  The file system calls of the control plane (\<open>os\<close>, \<open>pathlib\<close>, \<open>tempfile\<close>) on a world of
  nodes.  Every call first takes an entry of the world's fault schedule, so that any call
  may raise any exception; theorems quantify over the schedule.  A call that raises leaves
  the nodes as they were.
\<close>

section \<open>The world\<close>

text \<open>A symbolic link records whether its target is a directory; a file its mode and bytes.\<close>

datatype node = Missing | Symlink bool | Directory nat | Regular nat string

record fs =
  node_of :: "string \<Rightarrow> node"
  faults :: "exn option list"

definition set_node :: "string \<Rightarrow> node \<Rightarrow> fs \<Rightarrow> fs" where
  "set_node p nd w = w\<lparr>node_of := (node_of w)(p := nd)\<rparr>"

definition syscall :: "(fs, 'a) act \<Rightarrow> (fs, 'a) act" where
  "syscall f w =
     (case faults w of
        [] \<Rightarrow> f w
      | flt # rest \<Rightarrow>
          (case flt of Some e \<Rightarrow> (Inl e, w\<lparr>faults := rest\<rparr>) | None \<Rightarrow> f (w\<lparr>faults := rest\<rparr>)))"

section \<open>Calls\<close>

text \<open>Tests that do not raise.\<close>

definition is_symlink :: "node \<Rightarrow> bool" where
  "is_symlink nd \<longleftrightarrow> (case nd of Symlink _ \<Rightarrow> True | _ \<Rightarrow> False)"

definition is_regular :: "node \<Rightarrow> bool" where
  "is_regular nd \<longleftrightarrow> (case nd of Regular _ _ \<Rightarrow> True | _ \<Rightarrow> False)"

definition is_directory :: "node \<Rightarrow> bool" where
  "is_directory nd \<longleftrightarrow> (case nd of Directory _ \<Rightarrow> True | Symlink d \<Rightarrow> d | _ \<Rightarrow> False)"

text \<open>\<open>Path.mkdir(mode, parents=True, exist_ok=True)\<close>\<close>

definition sys_mkdir :: "string \<Rightarrow> nat \<Rightarrow> (fs, unit) act" where
  "sys_mkdir p mode = syscall (\<lambda>w.
     if node_of w p = Missing then (Inr (), set_node p (Directory mode) w)
     else if is_directory (node_of w p) then (Inr (), w) else (Inl OSError, w))"

definition with_mode :: "nat \<Rightarrow> node \<Rightarrow> node" where
  "with_mode mode nd =
     (case nd of Regular _ b \<Rightarrow> Regular mode b | Directory _ \<Rightarrow> Directory mode | n \<Rightarrow> n)"

definition sys_chmod :: "string \<Rightarrow> nat \<Rightarrow> (fs, unit) act" where
  "sys_chmod p mode = syscall (\<lambda>w.
     if node_of w p = Missing then (Inl FileNotFoundError, w)
     else (Inr (), set_node p (with_mode mode (node_of w p)) w))"

text \<open>\<open>O_CREAT | O_EXCL\<close>: the new file is empty with the given mode.\<close>

definition sys_create :: "string \<Rightarrow> nat \<Rightarrow> (fs, unit) act" where
  "sys_create p mode = syscall (\<lambda>w.
     if node_of w p = Missing then (Inr (), set_node p (Regular mode []) w) else (Inl OSError, w))"

text \<open>The bytes of a file that was opened for writing reach it when the stream is flushed.\<close>

definition sys_flush :: "string \<Rightarrow> string \<Rightarrow> (fs, unit) act" where
  "sys_flush p bytes = syscall (\<lambda>w.
     case node_of w p of
       Regular m b \<Rightarrow> (Inr (), set_node p (Regular m (b @ bytes)) w)
     | _ \<Rightarrow> (Inl OSError, w))"

text \<open>A call without effect on the nodes: \<open>fsync\<close>, opening and closing a directory.\<close>

definition sys_sync :: "(fs, unit) act" where
  "sys_sync = syscall (\<lambda>w. (Inr (), w))"

text \<open>\<open>os.replace(source, target)\<close>: the target becomes the source in one step.\<close>

definition sys_replace :: "string \<Rightarrow> string \<Rightarrow> (fs, unit) act" where
  "sys_replace src dst = syscall (\<lambda>w.
     case (node_of w src, node_of w dst) of
       (Missing, _) \<Rightarrow> (Inl FileNotFoundError, w)
     | (_, Directory _) \<Rightarrow> (Inl OSError, w)
     | (nd, _) \<Rightarrow> (Inr (), set_node dst nd (set_node src Missing w)))"

text \<open>\<open>Path.unlink(missing_ok=True)\<close>\<close>

definition sys_unlink :: "string \<Rightarrow> (fs, unit) act" where
  "sys_unlink p = syscall (\<lambda>w.
     case node_of w p of Directory _ \<Rightarrow> (Inl OSError, w) | _ \<Rightarrow> (Inr (), set_node p Missing w))"

definition sys_read :: "string \<Rightarrow> (fs, string) act" where
  "sys_read p = syscall (\<lambda>w.
     case node_of w p of
       Regular _ b \<Rightarrow> (Inr b, w) | Missing \<Rightarrow> (Inl FileNotFoundError, w) | _ \<Rightarrow> (Inl OSError, w))"

lemmas sys_defs = sys_mkdir_def sys_chmod_def sys_create_def sys_flush_def sys_sync_def
  sys_replace_def sys_unlink_def sys_read_def

section \<open>What a call changes\<close>

lemma node_of_set_node [simp]:
  "node_of (set_node p nd w) q = (if q = p then nd else node_of w q)"
  by (simp add: set_node_def)

lemma faults_set_node [simp]: "faults (set_node p nd w) = faults w"
  by (simp add: set_node_def)

text \<open>No schedule left: the call runs.\<close>

lemma syscall_ok [simp]: "faults w = [] \<Longrightarrow> syscall f w = f w"
  by (simp add: syscall_def)

text \<open>
  One rule per call: it raises and leaves the nodes as they were, or has its effect on the
  nodes it names.
\<close>

lemma wp_syscall:
  assumes "\<And>e w'. node_of w' = node_of w \<Longrightarrow> E e w'"
    and "\<And>w'. node_of w' = node_of w \<Longrightarrow> wp f Q E w'"
  shows "wp (syscall f) Q E w"
  using assms by (auto simp: wp_def syscall_def split: list.splits option.splits)

lemma wp_sys_mkdir [wp_rules]:
  assumes "\<And>e w'. node_of w' = node_of w \<Longrightarrow> E e w'"
    and "\<And>w'. node_of w' = (node_of w)(p := if node_of w p = Missing then Directory m else node_of w p) \<Longrightarrow> Q () w'"
  shows "wp (sys_mkdir p m) Q E w"
  unfolding sys_mkdir_def using assms by (intro wp_syscall) (auto simp: wp_def set_node_def)

lemma wp_sys_chmod [wp_rules]:
  assumes "\<And>e w'. node_of w' = node_of w \<Longrightarrow> E e w'"
    and "\<And>w'. node_of w' = (node_of w)(p := with_mode m (node_of w p)) \<Longrightarrow> Q () w'"
  shows "wp (sys_chmod p m) Q E w"
  unfolding sys_chmod_def using assms by (intro wp_syscall) (auto simp: wp_def set_node_def)

lemma wp_sys_create [wp_rules]:
  assumes "\<And>e w'. node_of w' = node_of w \<Longrightarrow> E e w'"
    and "\<And>w'. node_of w p = Missing \<Longrightarrow> node_of w' = (node_of w)(p := Regular m []) \<Longrightarrow> Q () w'"
  shows "wp (sys_create p m) Q E w"
  unfolding sys_create_def using assms by (intro wp_syscall) (auto simp: wp_def set_node_def)

lemma wp_sys_flush [wp_rules]:
  assumes "\<And>e w'. node_of w' = node_of w \<Longrightarrow> E e w'"
    and "\<And>w' m b. node_of w p = Regular m b \<Longrightarrow> node_of w' = (node_of w)(p := Regular m (b @ bs)) \<Longrightarrow> Q () w'"
  shows "wp (sys_flush p bs) Q E w"
  unfolding sys_flush_def using assms by (intro wp_syscall) (auto simp: wp_def set_node_def split: node.splits)

lemma wp_sys_sync [wp_rules]:
  assumes "\<And>e w'. node_of w' = node_of w \<Longrightarrow> E e w'"
    and "\<And>w'. node_of w' = node_of w \<Longrightarrow> Q () w'"
  shows "wp sys_sync Q E w"
  unfolding sys_sync_def using assms by (intro wp_syscall) (auto simp: wp_def)

lemma wp_sys_replace [wp_rules]:
  assumes "\<And>e w'. node_of w' = node_of w \<Longrightarrow> E e w'"
    and "\<And>w'. node_of w p \<noteq> Missing \<Longrightarrow> node_of w' = (node_of w)(p := Missing, q := node_of w p) \<Longrightarrow> Q () w'"
  shows "wp (sys_replace p q) Q E w"
  unfolding sys_replace_def using assms by (intro wp_syscall) (auto simp: wp_def set_node_def split: node.splits)

lemma wp_sys_unlink [wp_rules]:
  assumes "\<And>e w'. node_of w' = node_of w \<Longrightarrow> E e w'"
    and "\<And>w'. node_of w' = (node_of w)(p := Missing) \<Longrightarrow> Q () w'"
  shows "wp (sys_unlink p) Q E w"
  unfolding sys_unlink_def using assms by (intro wp_syscall) (auto simp: wp_def set_node_def split: node.splits)

lemma wp_sys_read [wp_rules]:
  assumes "\<And>e w'. node_of w' = node_of w \<Longrightarrow> E e w'"
    and "\<And>w' m b. node_of w p = Regular m b \<Longrightarrow> node_of w' = node_of w \<Longrightarrow> Q b w'"
  shows "wp (sys_read p) Q E w"
  unfolding sys_read_def using assms by (intro wp_syscall) (auto simp: wp_def split: node.splits)

end
