(* ===== verification/State.thy ===== *)
theory State
  imports Policy Py_Fs
begin

text \<open>
  \<open>src/deployment/state.py\<close>: the blue/green deployment state, its validation, and its
  atomic persistence.
\<close>

section \<open>Migration state\<close>

definition MIGRATION_STATUSES :: "string list" where
  "MIGRATION_STATUSES = [''none'', ''pending'', ''running'', ''succeeded'', ''failed'']"

definition MIGRATION_FIELDS :: "string list" where
  "MIGRATION_FIELDS = [''status'', ''identity'', ''checksum'', ''serialized_lock_required'']"

record migration_state =
  ms_status :: string
  ms_identity :: "string option"
  ms_checksum :: "string option"
  ms_serialized_lock_required :: bool

definition migration_identity_char :: "char \<Rightarrow> bool" where
  "migration_identity_char c \<longleftrightarrow>
     c \<in> set ''abcdefghijklmnopqrstuvwxyzABCDEFGHIJKLMNOPQRSTUVWXYZ0123456789._-''"

definition bounded_migration_identity :: "pyval \<Rightarrow> bool" where
  "bounded_migration_identity v \<longleftrightarrow>
     (case v of PStr s \<Rightarrow> s \<noteq> [] \<and> list_all migration_identity_char s | _ \<Rightarrow> False)"

definition migration_checksum_ok :: "pyval \<Rightarrow> bool" where
  "migration_checksum_ok v \<longleftrightarrow>
     (case v of PStr s \<Rightarrow> length s = 64 \<and> list_all (\<lambda>c. c \<in> set ''0123456789abcdef'') s | _ \<Rightarrow> False)"

definition migration_from_dict :: "pyval \<Rightarrow> migration_state result" where
  "migration_from_dict v =
     bnd (closed_object v MIGRATION_FIELDS) (\<lambda>data.
     let status = getv data ''status''; identity = getv data ''identity'';
         checksum = getv data ''checksum'' in
     if \<not> in_strings status MIGRATION_STATUSES then Inl DeploymentPolicyError
     else if py_eq status (PStr ''none'') \<and> (identity \<noteq> PNone \<or> checksum \<noteq> PNone)
       then Inl DeploymentPolicyError
     else if \<not> py_eq status (PStr ''none'') \<and> \<not> bounded_migration_identity identity
       then Inl DeploymentPolicyError
     else if \<not> py_eq status (PStr ''none'') \<and> \<not> migration_checksum_ok checksum
       then Inl DeploymentPolicyError
     else if getv data ''serialized_lock_required'' \<noteq> PBool True then Inl DeploymentPolicyError
     else bnd (str_of status) (\<lambda>st.
       Inr \<lparr>ms_status = st, ms_identity = opt_of identity, ms_checksum = opt_of checksum,
            ms_serialized_lock_required = True\<rparr>))"

definition migration_to_dict :: "migration_state \<Rightarrow> pyval" where
  "migration_to_dict m = PDict
     [(''status'', PStr (ms_status m)), (''identity'', of_opt (ms_identity m)),
      (''checksum'', of_opt (ms_checksum m)),
      (''serialized_lock_required'', PBool (ms_serialized_lock_required m))]"

text \<open>\<open>history\<close> maps a migration identity to the checksum recorded for it.\<close>

definition verify_migration_history ::
    "string \<Rightarrow> string \<Rightarrow> (string \<rightharpoonup> string) \<Rightarrow> bool result" where
  "verify_migration_history identity checksum history =
     bnd (migration_from_dict (PDict
       [(''status'', PStr ''pending''), (''identity'', PStr identity), (''checksum'', PStr checksum),
        (''serialized_lock_required'', PBool True)])) (\<lambda>candidate.
     let recorded = (case ms_identity candidate of None \<Rightarrow> None | Some i \<Rightarrow> history i) in
     if recorded \<noteq> None \<and> recorded \<noteq> ms_checksum candidate then Inl DeploymentPolicyError
     else Inr (recorded = ms_checksum candidate))"

section \<open>Deployment state\<close>

definition STATE_FIELDS :: "string list" where
  "STATE_FIELDS =
     [''schema_version'', ''stage'',
      ''active_release'', ''active_source_sha'', ''active_digest'', ''active_slot'',
      ''previous_release'', ''previous_source_sha'', ''previous_digest'', ''previous_slot'',
      ''candidate_release'', ''candidate_source_sha'', ''candidate_digest'', ''candidate_slot'',
      ''migration_state'', ''updated_at'', ''event_id'']"

record deployment_state =
  schema_version :: int
  stage :: string
  active_release :: "string option"
  active_source_sha :: "string option"
  active_digest :: "string option"
  active_slot :: "string option"
  previous_release :: "string option"
  previous_source_sha :: "string option"
  previous_digest :: "string option"
  previous_slot :: "string option"
  candidate_release :: "string option"
  candidate_source_sha :: "string option"
  candidate_digest :: "string option"
  candidate_slot :: "string option"
  migration :: migration_state
  updated_at :: string
  event_id :: string

type_synonym slot_identity = "string option \<times> string option \<times> string option \<times> string option"

definition state_identity :: "pyval \<Rightarrow> pyval \<Rightarrow> pyval \<Rightarrow> pyval \<Rightarrow> slot_identity result" where
  "state_identity release source_sha digest slot =
     (if [release, source_sha, digest, slot] = [PNone, PNone, PNone, PNone]
      then Inr (None, None, None, None)
      else if list_ex (\<lambda>v. v = PNone) [release, source_sha, digest, slot]
      then Inl DeploymentPolicyError
      else bnd (validate_semver release) (\<lambda>r. bnd (validate_source_sha source_sha) (\<lambda>s.
           bnd (validate_digest digest) (\<lambda>d. bnd (validate_slot slot) (\<lambda>sl.
             Inr (Some r, Some s, Some d, Some sl))))))"

definition state_from_dict :: "pyval \<Rightarrow> deployment_state result" where
  "state_from_dict v =
     bnd (closed_object v STATE_FIELDS) (\<lambda>data.
     if \<not> py_eq (getv data ''schema_version'') (PInt SCHEMA_VERSION) then Inl DeploymentPolicyError
     else
     bnd (state_identity (getv data ''active_release'') (getv data ''active_source_sha'')
            (getv data ''active_digest'') (getv data ''active_slot'')) (\<lambda>(ar, as, ad, asl).
     bnd (state_identity (getv data ''previous_release'') (getv data ''previous_source_sha'')
            (getv data ''previous_digest'') (getv data ''previous_slot'')) (\<lambda>(pr, ps, pd, psl).
     bnd (state_identity (getv data ''candidate_release'') (getv data ''candidate_source_sha'')
            (getv data ''candidate_digest'') (getv data ''candidate_slot'')) (\<lambda>(cr, cs, cd, csl).
     if asl \<noteq> None \<and> csl = asl then Inl DeploymentPolicyError
     else if asl \<noteq> None \<and> psl = asl then Inl DeploymentPolicyError
     else
     bnd (validate_stage (getv data ''stage'')) (\<lambda>stg.
     bnd (migration_from_dict (getv data ''migration_state'')) (\<lambda>mig.
     bnd (validate_timestamp (getv data ''updated_at'')) (\<lambda>ts.
     bnd (validate_event_id (getv data ''event_id'')) (\<lambda>ev.
       Inr \<lparr>schema_version = SCHEMA_VERSION, stage = stg,
            active_release = ar, active_source_sha = as, active_digest = ad, active_slot = asl,
            previous_release = pr, previous_source_sha = ps, previous_digest = pd, previous_slot = psl,
            candidate_release = cr, candidate_source_sha = cs, candidate_digest = cd, candidate_slot = csl,
            migration = mig, updated_at = ts, event_id = ev\<rparr>))))))))"

definition state_to_dict :: "deployment_state \<Rightarrow> pyval" where
  "state_to_dict s = PDict
     [(''schema_version'', PInt (schema_version s)), (''stage'', PStr (stage s)),
      (''active_release'', of_opt (active_release s)), (''active_source_sha'', of_opt (active_source_sha s)),
      (''active_digest'', of_opt (active_digest s)), (''active_slot'', of_opt (active_slot s)),
      (''previous_release'', of_opt (previous_release s)), (''previous_source_sha'', of_opt (previous_source_sha s)),
      (''previous_digest'', of_opt (previous_digest s)), (''previous_slot'', of_opt (previous_slot s)),
      (''candidate_release'', of_opt (candidate_release s)), (''candidate_source_sha'', of_opt (candidate_source_sha s)),
      (''candidate_digest'', of_opt (candidate_digest s)), (''candidate_slot'', of_opt (candidate_slot s)),
      (''migration_state'', migration_to_dict (migration s)),
      (''updated_at'', PStr (updated_at s)), (''event_id'', PStr (event_id s))]"

definition state_canonical_bytes :: "deployment_state \<Rightarrow> string" where
  "state_canonical_bytes s = canonical_bytes (state_to_dict s)"

section \<open>Persistence\<close>

definition STATE_DIRECTORY_MODE :: nat where "STATE_DIRECTORY_MODE = 448"
definition STATE_FILE_MODE :: nat where "STATE_FILE_MODE = 384"

definition parse_state :: "string \<Rightarrow> deployment_state result" where
  "parse_state bytes =
     bnd (utf8_decode bytes) (\<lambda>text. bnd (json_loads default_hooks text) state_from_dict)"

definition load_state :: "string \<Rightarrow> (fs, deployment_state) act" where
  "load_state p w =
     (if is_symlink (node_of w p) \<or> \<not> is_regular (node_of w p) then (Inl DeploymentPolicyError, w)
      else let (r, w') = sys_read p w in
        (catch_as [UnicodeDecodeError, JSONDecodeError] DeploymentPolicyError (bnd r parse_state), w'))"

text \<open>
  \<open>write_state_atomic\<close> on the file \<open>name\<close> of the directory \<open>dir\<close>; \<open>suffix\<close> is what
  \<open>mkstemp\<close> draws.
\<close>

definition state_path :: "string \<Rightarrow> string \<Rightarrow> string" where
  "state_path dir name = dir @ ''/'' @ name"

definition temporary_path :: "string \<Rightarrow> string \<Rightarrow> string \<Rightarrow> string" where
  "temporary_path dir name suffix = dir @ ''/.'' @ name @ ''.'' @ suffix"

definition replace_with_bytes :: "string \<Rightarrow> string \<Rightarrow> string \<Rightarrow> (fs, unit) act" where
  "replace_with_bytes tmp target bytes =
     act_bind (sys_chmod tmp STATE_FILE_MODE) (\<lambda>_.
     act_bind (sys_flush tmp bytes) (\<lambda>_.
     act_bind sys_sync (\<lambda>_.
     act_bind (sys_replace tmp target) (\<lambda>_.
     act_bind sys_sync (\<lambda>_. act_bind sys_sync (\<lambda>_. sys_sync))))))"

definition write_state_atomic ::
    "string \<Rightarrow> string \<Rightarrow> string \<Rightarrow> deployment_state \<Rightarrow> (fs, unit) act" where
  "write_state_atomic dir name suffix s =
     act_bind (sys_mkdir dir STATE_DIRECTORY_MODE) (\<lambda>_ w.
     if is_symlink (node_of w dir) \<or> \<not> is_directory (node_of w dir) then (Inl DeploymentPolicyError, w)
     else
     act_bind (sys_chmod dir STATE_DIRECTORY_MODE) (\<lambda>_.
     act_bind (sys_create (temporary_path dir name suffix) STATE_FILE_MODE) (\<lambda>_.
     act_catch
       (replace_with_bytes (temporary_path dir name suffix) (state_path dir name) (state_canonical_bytes s))
       (\<lambda>e. act_bind (sys_unlink (temporary_path dir name suffix)) (\<lambda>_. act_lift (Inl e))))) w)"

section \<open>Well-formed states\<close>

definition wf_migration :: "migration_state \<Rightarrow> bool" where
  "wf_migration m \<longleftrightarrow>
     ms_status m \<in> set MIGRATION_STATUSES \<and> ms_serialized_lock_required m \<and>
     (if ms_status m = ''none'' then ms_identity m = None \<and> ms_checksum m = None
      else bounded_migration_identity (of_opt (ms_identity m)) \<and> migration_checksum_ok (of_opt (ms_checksum m)))"

fun wf_identity :: "slot_identity \<Rightarrow> bool" where
  "wf_identity (Some r, Some s, Some d, Some sl) \<longleftrightarrow>
     fullmatch SEMVER_RE r \<and> fullmatch SOURCE_SHA_RE s \<and> s \<noteq> replicate 40 (CHR ''0'') \<and>
     fullmatch DIGEST_RE d \<and> sl \<in> set SLOTS"
| "wf_identity (r, s, d, sl) \<longleftrightarrow> r = None \<and> s = None \<and> d = None \<and> sl = None"

abbreviation active_identity :: "deployment_state \<Rightarrow> slot_identity" where
  "active_identity s \<equiv> (active_release s, active_source_sha s, active_digest s, active_slot s)"

abbreviation previous_identity :: "deployment_state \<Rightarrow> slot_identity" where
  "previous_identity s \<equiv> (previous_release s, previous_source_sha s, previous_digest s, previous_slot s)"

abbreviation candidate_identity :: "deployment_state \<Rightarrow> slot_identity" where
  "candidate_identity s \<equiv> (candidate_release s, candidate_source_sha s, candidate_digest s, candidate_slot s)"

definition wf_state :: "deployment_state \<Rightarrow> bool" where
  "wf_state s \<longleftrightarrow>
     schema_version s = SCHEMA_VERSION \<and> stage s \<in> set STAGES \<and>
     wf_identity (active_identity s) \<and> wf_identity (previous_identity s) \<and>
     wf_identity (candidate_identity s) \<and>
     (active_slot s \<noteq> None \<longrightarrow> candidate_slot s \<noteq> active_slot s \<and> previous_slot s \<noteq> active_slot s) \<and>
     wf_migration (migration s) \<and> fullmatch TIMESTAMP_RE (updated_at s) \<and> fullmatch EVENT_ID_RE (event_id s)"

lemma opt_of_of_opt [simp]: "opt_of (of_opt a) = a"
  by (cases a) (simp_all add: opt_of_def)

lemma bounded_migration_identity_PNone [simp]: "\<not> bounded_migration_identity PNone"
  by (simp add: bounded_migration_identity_def)

lemma opt_of_PNone [simp]: "opt_of PNone = None"
  by (simp add: opt_of_def)

lemma migration_values_opt [simp]:
  "bounded_migration_identity v \<Longrightarrow> of_opt (opt_of v) = v"
  "migration_checksum_ok v \<Longrightarrow> of_opt (opt_of v) = v"
  by (cases v; simp add: bounded_migration_identity_def migration_checksum_ok_def opt_of_def)+

definition migration_items :: "pydict \<Rightarrow> migration_state \<Rightarrow> bool" where
  "migration_items d m \<longleftrightarrow>
     set (keys d) = set MIGRATION_FIELDS \<and> getv d ''status'' = PStr (ms_status m) \<and>
     getv d ''identity'' = of_opt (ms_identity m) \<and> getv d ''checksum'' = of_opt (ms_checksum m) \<and>
     getv d ''serialized_lock_required'' = PBool (ms_serialized_lock_required m)"

lemma migration_from_dict_Inr [py_simps]:
  "migration_from_dict v = Inr m \<longleftrightarrow> wf_migration m \<and> (\<exists>d. v = PDict d \<and> migration_items d m)"
  (is "?L \<longleftrightarrow> ?R")
proof
  assume ?L
  then show ?R
    by (cases m) (auto simp: migration_from_dict_def Let_def py_simps wf_migration_def migration_items_def
        split: if_splits)
next
  assume ?R
  then show ?L
    by (cases m) (auto simp: migration_from_dict_def Let_def py_simps wf_migration_def migration_items_def
        split: if_splits)
qed

lemma migration_from_dict_Inl [policy_errors]:
  "migration_from_dict v = Inl e \<Longrightarrow> e = DeploymentPolicyError"
  by (auto simp: migration_from_dict_def Let_def bnd_Inl_iff py_simps str_of_def
      dest: policy_errors split: if_splits)

lemma migration_items_to_dict: "\<exists>d. migration_to_dict m = PDict d \<and> migration_items d m \<and> distinct (keys d)"
  by (simp add: migration_to_dict_def migration_items_def MIGRATION_FIELDS_def keys_def getv_def)

lemma state_identity_Inr [py_simps]:
  "state_identity a b c d = Inr i \<longleftrightarrow>
     (case i of (r, s, g, sl) \<Rightarrow>
       a = of_opt r \<and> b = of_opt s \<and> c = of_opt g \<and> d = of_opt sl \<and> wf_identity i)"
proof (cases i)
  case (fields r s g sl)
  have "(\<exists>x. f = Some x \<and> P x) \<longleftrightarrow> f \<noteq> None \<and> P (the f)" for f :: "string option" and P by auto
  show ?thesis
    unfolding fields
    by (cases r; cases s; cases g; cases sl) (auto simp: state_identity_def py_simps)
qed

lemma state_identity_Inl [policy_errors]:
  "state_identity a b c d = Inl e \<Longrightarrow> e = DeploymentPolicyError"
  by (auto simp: state_identity_def bnd_Inl_iff dest: policy_errors split: if_splits)

definition state_items :: "pydict \<Rightarrow> deployment_state \<Rightarrow> bool" where
  "state_items d s \<longleftrightarrow>
     set (keys d) = set STATE_FIELDS \<and> py_eq (getv d ''schema_version'') (PInt SCHEMA_VERSION) \<and>
     getv d ''stage'' = PStr (stage s) \<and>
     getv d ''active_release'' = of_opt (active_release s) \<and>
     getv d ''active_source_sha'' = of_opt (active_source_sha s) \<and>
     getv d ''active_digest'' = of_opt (active_digest s) \<and> getv d ''active_slot'' = of_opt (active_slot s) \<and>
     getv d ''previous_release'' = of_opt (previous_release s) \<and>
     getv d ''previous_source_sha'' = of_opt (previous_source_sha s) \<and>
     getv d ''previous_digest'' = of_opt (previous_digest s) \<and> getv d ''previous_slot'' = of_opt (previous_slot s) \<and>
     getv d ''candidate_release'' = of_opt (candidate_release s) \<and>
     getv d ''candidate_source_sha'' = of_opt (candidate_source_sha s) \<and>
     getv d ''candidate_digest'' = of_opt (candidate_digest s) \<and> getv d ''candidate_slot'' = of_opt (candidate_slot s) \<and>
     migration_from_dict (getv d ''migration_state'') = Inr (migration s) \<and>
     getv d ''updated_at'' = PStr (updated_at s) \<and> getv d ''event_id'' = PStr (event_id s)"

lemma state_from_dict_Inr [py_simps]:
  "state_from_dict v = Inr s \<longleftrightarrow> wf_state s \<and> (\<exists>d. v = PDict d \<and> state_items d s)"
  (is "?L \<longleftrightarrow> ?R")
proof
  assume L: ?L
  then obtain d where d: "v = PDict d" "set (keys d) = set STATE_FIELDS"
    by (auto simp: state_from_dict_def closed_object_Inr)
  have schema: "py_eq (getv d ''schema_version'') (PInt SCHEMA_VERSION)" "schema_version s = SCHEMA_VERSION"
    using L d by (auto simp: state_from_dict_def split: if_splits)
  have ids: "state_identity (getv d ''active_release'') (getv d ''active_source_sha'')
        (getv d ''active_digest'') (getv d ''active_slot'') = Inr (active_identity s)"
      "state_identity (getv d ''previous_release'') (getv d ''previous_source_sha'')
        (getv d ''previous_digest'') (getv d ''previous_slot'') = Inr (previous_identity s)"
      "state_identity (getv d ''candidate_release'') (getv d ''candidate_source_sha'')
        (getv d ''candidate_digest'') (getv d ''candidate_slot'') = Inr (candidate_identity s)"
    using L d by (auto simp: state_from_dict_def split: if_splits)
  have slots: "active_slot s \<noteq> None \<longrightarrow> candidate_slot s \<noteq> active_slot s \<and> previous_slot s \<noteq> active_slot s"
    using L d by (auto simp: state_from_dict_def split: if_splits)
  have rest: "validate_stage (getv d ''stage'') = Inr (stage s)"
      "migration_from_dict (getv d ''migration_state'') = Inr (migration s)"
      "validate_timestamp (getv d ''updated_at'') = Inr (updated_at s)"
      "validate_event_id (getv d ''event_id'') = Inr (event_id s)"
    using L d by (auto simp: state_from_dict_def split: if_splits)
  have "wf_migration (migration s)" using rest(2) by (simp only: migration_from_dict_Inr)
  then show ?R
    using d schema ids slots rest
    by (simp add: state_items_def wf_state_def validate_stage_Inr validate_timestamp_Inr
        validate_event_id_Inr state_identity_Inr)
next
  assume ?R
  then obtain d where wf: "wf_state s" and d: "v = PDict d" "state_items d s" by blast
  have "state_identity (getv d ''active_release'') (getv d ''active_source_sha'')
        (getv d ''active_digest'') (getv d ''active_slot'') = Inr (active_identity s)"
      "state_identity (getv d ''previous_release'') (getv d ''previous_source_sha'')
        (getv d ''previous_digest'') (getv d ''previous_slot'') = Inr (previous_identity s)"
      "state_identity (getv d ''candidate_release'') (getv d ''candidate_source_sha'')
        (getv d ''candidate_digest'') (getv d ''candidate_slot'') = Inr (candidate_identity s)"
      "validate_stage (getv d ''stage'') = Inr (stage s)"
      "validate_timestamp (getv d ''updated_at'') = Inr (updated_at s)"
      "validate_event_id (getv d ''event_id'') = Inr (event_id s)"
    using wf d(2) by (simp_all add: state_items_def wf_state_def validate_stage_Inr validate_timestamp_Inr
        validate_event_id_Inr state_identity_Inr)
  then show ?L
    using wf d by (auto simp: state_from_dict_def wf_state_def state_items_def)
qed

lemma state_from_dict_Inl [policy_errors]:
  "state_from_dict v = Inl e \<Longrightarrow> e = DeploymentPolicyError"
  by (auto simp: state_from_dict_def bnd_Inl_iff dest: policy_errors split: if_splits prod.splits)

text \<open>The dictionary a state is written as, and the one read back in key order.\<close>

lemma migration_items_csort: "distinct (keys d) \<Longrightarrow> migration_items d m \<Longrightarrow> migration_items (csort d) m"
  by (simp add: migration_items_def canon_simps)

lemma migration_roundtrip: "wf_migration m \<Longrightarrow> migration_from_dict (migration_to_dict m) = Inr m"
  using migration_items_to_dict by (auto simp: migration_from_dict_Inr)

lemma migration_from_dict_canon: "wf_migration m \<Longrightarrow> migration_from_dict (canon (migration_to_dict m)) = Inr m"
  using migration_items_to_dict [of m] migration_items_csort
  by (auto simp: migration_from_dict_Inr canon_PDict simp del: canon.simps)

lemma state_to_dict_items:
  assumes "wf_state s"
  obtains d where "state_to_dict s = PDict d" "distinct (keys d)" "state_items d s"
    "getv d ''migration_state'' = migration_to_dict (migration s)"
proof -
  from assms have "migration_from_dict (migration_to_dict (migration s)) = Inr (migration s)"
    by (simp add: wf_state_def migration_roundtrip)
  with assms that show thesis
    by (simp add: state_to_dict_def state_items_def STATE_FIELDS_def keys_def getv_def wf_state_def
        py_eq_int)
qed

lemma state_roundtrip: "wf_state s \<Longrightarrow> state_from_dict (state_to_dict s) = Inr s"
  by (metis state_to_dict_items state_from_dict_Inr)

lemma state_from_dict_canon:
  assumes "wf_state s"
  shows "state_from_dict (canon (state_to_dict s)) = Inr s"
proof -
  obtain d where d: "state_to_dict s = PDict d" "distinct (keys d)" "state_items d s"
      "getv d ''migration_state'' = migration_to_dict (migration s)"
    by (rule state_to_dict_items [OF assms])
  have "migration_from_dict (canon (migration_to_dict (migration s))) = Inr (migration s)"
    using assms by (simp add: wf_state_def migration_from_dict_canon)
  with d have "state_items (csort d) s"
    by (simp add: state_items_def canon_simps)
  with assms d(1) show ?thesis by (simp add: state_from_dict_Inr canon_PDict del: canon.simps)
qed

section \<open>Canonical bytes parse back\<close>

lemma plain_of_opt [simp]: "plain (of_opt a)"
  by (cases a) simp_all

lemma plain_state_to_dict: "wf_state s \<Longrightarrow> plain (state_to_dict s)"
  by (simp add: state_to_dict_def migration_to_dict_def wf_state_def SCHEMA_VERSION_def int_fits_64)

lemma parse_state_canonical: "wf_state s \<Longrightarrow> parse_state (state_canonical_bytes s) = Inr s"
  by (simp add: parse_state_def state_canonical_bytes_def plain_state_to_dict canonical_decode
      canonical_loads state_from_dict_canon)

lemma state_canonical_bytes_inject:
  assumes "wf_state s" "wf_state t" "state_canonical_bytes s = state_canonical_bytes t"
  shows "s = t"
  by (metis assms parse_state_canonical sum.inject(2))

lemma load_state_Inr:
  "load_state p w = (Inr s, w') \<longleftrightarrow>
     (\<exists>m b. node_of w p = Regular m b \<and> sys_read p w = (Inr b, w') \<and> parse_state b = Inr s)"
  (is "?L \<longleftrightarrow> ?R")
proof (cases "node_of w p")
  case (Regular m b)
  have "sys_read p w = (Inr c, w'') \<Longrightarrow> c = b" for c w''
    using Regular by (auto simp: sys_read_def syscall_def split: list.splits option.splits)
  with Regular show ?thesis
    by (auto simp: load_state_def is_symlink_def is_regular_def split: prod.splits)
qed (simp_all add: load_state_def is_symlink_def is_regular_def)

section \<open>Atomic replacement\<close>

text \<open>Until the rename, the target is what it was; after it, the target is the new file.\<close>

lemma wp_replace_with_bytes:
  assumes tmp: "node_of w tmp = Regular m []" and ne: "tmp \<noteq> target"
    and E: "\<And>e w'. node_of w' target = node_of w target \<or> node_of w' target = Regular STATE_FILE_MODE bytes \<Longrightarrow>
              (\<forall>q. q \<noteq> tmp \<longrightarrow> q \<noteq> target \<longrightarrow> node_of w' q = node_of w q) \<Longrightarrow> E e w'"
    and Q: "\<And>w'. node_of w' = (node_of w)(tmp := Missing, target := Regular STATE_FILE_MODE bytes) \<Longrightarrow> Q () w'"
  shows "wp (replace_with_bytes tmp target bytes) Q E w"
  unfolding replace_with_bytes_def wp_act_bind
  using tmp ne by (intro wp_rules; intro E Q; simp add: with_mode_def)

lemma path_ne: "state_path dir name \<noteq> dir" "temporary_path dir name sf \<noteq> dir"
  by (simp_all add: state_path_def temporary_path_def)

lemma target_ne_temporary: "temporary_path dir name sf \<noteq> state_path dir name"
proof
  assume "temporary_path dir name sf = state_path dir name"
  then have "length (temporary_path dir name sf) = length (state_path dir name)" by simp
  then show False by (simp add: temporary_path_def state_path_def)
qed

lemma wp_write_state_atomic:
  assumes E: "\<And>e w'. node_of w' (state_path dir name) = node_of w (state_path dir name) \<or>
        node_of w' (state_path dir name) = Regular STATE_FILE_MODE (state_canonical_bytes s) \<Longrightarrow> E e w'"
    and Q: "\<And>w'. node_of w' (state_path dir name) = Regular STATE_FILE_MODE (state_canonical_bytes s) \<Longrightarrow>
        node_of w' (temporary_path dir name sf) = Missing \<Longrightarrow>
        (\<forall>q. q \<noteq> dir \<longrightarrow> q \<noteq> state_path dir name \<longrightarrow> node_of w' q = node_of w q) \<Longrightarrow> Q () w'"
  shows "wp (write_state_atomic dir name sf s) Q E w"
proof -
  note path_ne [simp] path_ne [symmetric, simp] target_ne_temporary [simp] target_ne_temporary [symmetric, simp]
  have test: "wp (\<lambda>w. if P w then (Inl e, w) else m w) Q E w \<longleftrightarrow> (if P w then E e w else wp m Q E w)"
    for P e w and m :: "(fs, unit) act"
    by (simp add: wp_def)
  show ?thesis
    unfolding write_state_atomic_def wp_act_bind wp_act_catch test
    apply (rule wp_rules)
     apply (rule E, simp)
    apply (split if_split, intro conjI impI)
     apply (rule E, simp)
    apply (rule wp_rules)
     apply (rule E, simp)
    apply (rule wp_rules)
     apply (rule E, simp)
    apply (rule wp_replace_with_bytes)
       apply simp
      apply simp
     apply (rule wp_rules)
      apply (rule E, simp)
     apply (simp, rule E, simp)
    apply (rule Q; simp)
    done
qed

text \<open>Without a fault the write goes through.\<close>

lemma write_state_atomic_runs:
  assumes ok: "faults w = []" and dir: "node_of w dir = Missing \<or> node_of w dir = Directory m"
    and tgt: "\<forall>k. node_of w (state_path dir name) \<noteq> Directory k"
    and tmp: "node_of w (temporary_path dir name sf) = Missing"
  shows "\<exists>w'. write_state_atomic dir name sf s w = (Inr (), w') \<and> faults w' = [] \<and>
    node_of w' (state_path dir name) = Regular STATE_FILE_MODE (state_canonical_bytes s)"
proof -
  note [simp] = path_ne path_ne [symmetric] target_ne_temporary target_ne_temporary [symmetric]
  obtain w1 where w1: "sys_mkdir dir STATE_DIRECTORY_MODE w = (Inr (), w1)" "faults w1 = []"
      "\<exists>k. node_of w1 dir = Directory k" "\<forall>q. q \<noteq> dir \<longrightarrow> node_of w1 q = node_of w q"
    using ok dir by (auto simp: sys_mkdir_def is_directory_def)
  define w2 where "w2 = set_node dir (with_mode STATE_DIRECTORY_MODE (node_of w1 dir)) w1"
  define w3 where "w3 = set_node (temporary_path dir name sf) (Regular STATE_FILE_MODE []) w2"
  have w2: "sys_chmod dir STATE_DIRECTORY_MODE w1 = (Inr (), w2)" "faults w2 = []"
    using w1 by (auto simp: sys_chmod_def w2_def)
  have w3: "sys_create (temporary_path dir name sf) STATE_FILE_MODE w2 = (Inr (), w3)" "faults w3 = []"
    using w1 w2 tmp by (simp_all add: sys_create_def w3_def, simp add: w2_def)
  have "node_of w3 (temporary_path dir name sf) = Regular STATE_FILE_MODE []"
      "\<forall>k. node_of w3 (state_path dir name) \<noteq> Directory k"
    using w1(4) tgt by (simp_all add: w3_def w2_def)
  then obtain w4 where w4: "replace_with_bytes (temporary_path dir name sf) (state_path dir name)
        (state_canonical_bytes s) w3 = (Inr (), w4)" "faults w4 = []"
      "node_of w4 (state_path dir name) = Regular STATE_FILE_MODE (state_canonical_bytes s)"
    using w3(2) by (cases "node_of w3 (state_path dir name)")
      (simp_all add: replace_with_bytes_def act_bind_def sys_defs with_mode_def)
  show ?thesis
    using w1 w2 w3 w4
    by (auto simp: write_state_atomic_def act_bind_def act_catch_def is_symlink_def is_directory_def)
qed

lemma load_written:
  assumes "wf_state s" "faults w = []" "node_of w p = Regular m (state_canonical_bytes s)"
  shows "load_state p w = (Inr s, w)"
  using assms parse_state_canonical [OF assms(1)] by (auto simp: load_state_Inr sys_read_def)

section \<open>Properties\<close>

definition sample_migration :: migration_state where
  "sample_migration = \<lparr>ms_status = ''none'', ms_identity = None, ms_checksum = None,
     ms_serialized_lock_required = True\<rparr>"

definition sample_sha :: string where "sample_sha = replicate 40 (CHR ''a'')"
definition sample_digest :: string where "sample_digest = ''sha256:'' @ replicate 64 (CHR ''b'')"

definition sample_state :: deployment_state where
  "sample_state =
     \<lparr>schema_version = 1, stage = ''dev'',
      active_release = Some ''1.2.3'', active_source_sha = Some sample_sha,
      active_digest = Some sample_digest, active_slot = Some ''blue'',
      previous_release = None, previous_source_sha = None, previous_digest = None, previous_slot = None,
      candidate_release = None, candidate_source_sha = None, candidate_digest = None, candidate_slot = None,
      migration = sample_migration, updated_at = ''2026-01-02T03:04:05Z'', event_id = ''event-1''\<rparr>"

lemma sample_state_wf: "wf_state sample_state"
  by code_simp

definition empty_fs :: fs where
  "empty_fs = \<lparr>node_of = \<lambda>_. Missing, faults = []\<rparr>"

text \<open>
  C33: A state is accepted only with complete or empty identities whose slots differ: a
  dictionary that \<open>from_dict\<close> accepts gives a well-formed state, in which the candidate and
  the previous slot are never the active one, and whose JSON form is accepted again as the
  same state; anything else raises \<open>DeploymentPolicyError\<close> and nothing else.
\<close>

theorem state_from_dict_sound:
  "case state_from_dict v of
     Inr s \<Rightarrow> wf_state s \<and> state_from_dict (state_to_dict s) = Inr s
   | Inl e \<Rightarrow> e = DeploymentPolicyError"
  by (auto simp: state_from_dict_Inr state_roundtrip dest: state_from_dict_Inl split: sum.splits)

text \<open>
  Writing a well-formed state and loading the file gives the state back, with the file
  in mode 0600: the write returns when the directory is real or absent, the drawn temporary
  name is free and the system calls succeed.
\<close>

theorem write_then_load:
  assumes "wf_state s" and "faults w = []" and "node_of w dir = Missing \<or> node_of w dir = Directory m"
    and "\<forall>k. node_of w (state_path dir name) \<noteq> Directory k"
    and "node_of w (temporary_path dir name sf) = Missing"
  shows "\<exists>w'. write_state_atomic dir name sf s w = (Inr (), w') \<and>
    load_state (state_path dir name) w' = (Inr s, w') \<and>
    node_of w' (state_path dir name) = Regular STATE_FILE_MODE (state_canonical_bytes s)"
  using write_state_atomic_runs [OF assms(2-)] load_written [OF assms(1)] by blast

theorem write_then_load_witness:
  "\<exists>w'. write_state_atomic ''/d'' ''s'' ''x'' sample_state empty_fs = (Inr (), w') \<and>
    load_state (state_path ''/d'' ''s'') w' = (Inr sample_state, w')"
  using write_then_load [OF sample_state_wf, of empty_fs "''/d''" 0 "''s''" "''x''"]
  by (auto simp: empty_fs_def)

text \<open>
  C21: The replacement is atomic.  Whatever system calls of \<open>write_state_atomic\<close> raise, the
  state file afterwards is the file that was there before or the complete new state in mode
  0600; when the write returns it is the new state, the temporary file is gone and no other
  file but the directory's mode has changed.
\<close>

theorem write_state_atomic_correct:
  assumes "write_state_atomic dir name sf s w = (r, w')"
  shows "(node_of w' (state_path dir name) = node_of w (state_path dir name) \<or>
          node_of w' (state_path dir name) = Regular STATE_FILE_MODE (state_canonical_bytes s)) \<and>
    (r = Inr () \<longrightarrow>
       node_of w' (state_path dir name) = Regular STATE_FILE_MODE (state_canonical_bytes s) \<and>
       node_of w' (temporary_path dir name sf) = Missing \<and>
       (\<forall>q. q \<noteq> dir \<longrightarrow> q \<noteq> state_path dir name \<longrightarrow> node_of w' q = node_of w q))"
proof -
  let ?t = "state_path dir name" and ?new = "Regular STATE_FILE_MODE (state_canonical_bytes s)"
  have "wp (write_state_atomic dir name sf s)
      (\<lambda>_ w'. node_of w' ?t = ?new \<and> node_of w' (temporary_path dir name sf) = Missing \<and>
         (\<forall>q. q \<noteq> dir \<longrightarrow> q \<noteq> ?t \<longrightarrow> node_of w' q = node_of w q))
      (\<lambda>_ w'. node_of w' ?t = node_of w ?t \<or> node_of w' ?t = ?new) w"
    by (rule wp_write_state_atomic) auto
  from wp_run [OF this assms] show ?thesis by (cases r) auto
qed

theorem write_state_atomic_correct_witness:
  "(let w' = snd (write_state_atomic ''/d'' ''s'' ''x'' sample_state (empty_fs\<lparr>faults := [None, None, None, Some OSError]\<rparr>)) in
     node_of w' (state_path ''/d'' ''s'') = Missing \<or>
     node_of w' (state_path ''/d'' ''s'') = Regular STATE_FILE_MODE (state_canonical_bytes sample_state))"
  using write_state_atomic_correct [OF prod.collapse [symmetric],
      of "''/d''" "''s''" "''x''" sample_state "empty_fs\<lparr>faults := [None, None, None, Some OSError]\<rparr>"]
  unfolding Let_def by (simp add: empty_fs_def)

text \<open>
  A migration is reported as applied exactly when the history records it with this very
  checksum, as new exactly when the history does not know it, and a recorded checksum that
  differs is refused.
\<close>

theorem verify_migration_history_cases:
  assumes "bounded_migration_identity (PStr i)" and "migration_checksum_ok (PStr c)"
  shows "verify_migration_history i c history =
    (case history i of None \<Rightarrow> Inr False | Some c' \<Rightarrow> if c' = c then Inr True else Inl DeploymentPolicyError)"
proof -
  let ?m = "\<lparr>ms_status = ''pending'', ms_identity = Some i, ms_checksum = Some c,
     ms_serialized_lock_required = True\<rparr>"
  have "wf_migration ?m" using assms by (simp add: wf_migration_def MIGRATION_STATUSES_def)
  from migration_roundtrip [OF this] show ?thesis
    by (auto simp: verify_migration_history_def migration_to_dict_def split: option.splits)
qed

theorem verify_migration_history_witness:
  "verify_migration_history ''0001_init'' (replicate 64 (CHR ''c''))
     [''0001_init'' \<mapsto> replicate 64 (CHR ''d'')] = Inl DeploymentPolicyError"
proof -
  have "bounded_migration_identity (PStr ''0001_init'')" "migration_checksum_ok (PStr (replicate 64 (CHR ''c'')))"
    by code_simp+
  from verify_migration_history_cases [OF this] show ?thesis by (simp add: replicate_eq_replicate)
qed

end
