(* ===== verification/Py_Hash.thy ===== *)
theory Py_Hash
  imports Py_Value "HOL-Library.Word"
begin

unbundle bit_operations_syntax

text \<open>
  \<open>hashlib.sha256(data).hexdigest()\<close> (FIPS 180-4) over the bytes of a string, one
  character per byte.  The function is concrete and evaluates, so that no property of the
  digest is assumed; the proved facts are the shape of the digest and that it has one value.
\<close>

section \<open>The compression function\<close>

type_synonym w32 = "32 word"

definition rotr :: "nat \<Rightarrow> w32 \<Rightarrow> w32" where
  "rotr n x = (drop_bit n x) OR (push_bit (32 - n) x)"

definition sha_k :: "w32 list" where
  "sha_k = [
     1116352408, 1899447441, 3049323471, 3921009573, 961987163, 1508970993, 2453635748, 2870763221,
     3624381080, 310598401, 607225278, 1426881987, 1925078388, 2162078206, 2614888103, 3248222580,
     3835390401, 4022224774, 264347078, 604807628, 770255983, 1249150122, 1555081692, 1996064986,
     2554220882, 2821834349, 2952996808, 3210313671, 3336571891, 3584528711, 113926993, 338241895,
     666307205, 773529912, 1294757372, 1396182291, 1695183700, 1986661051, 2177026350, 2456956037,
     2730485921, 2820302411, 3259730800, 3345764771, 3516065817, 3600352804, 4094571909, 275423344,
     430227734, 506948616, 659060556, 883997877, 958139571, 1322822218, 1537002063, 1747873779,
     1955562222, 2024104815, 2227730452, 2361852424, 2428436474, 2756734187, 3204031479, 3329325298]"

definition sha_init :: "w32 list" where
  "sha_init = [
     1779033703, 3144134277, 1013904242, 2773480762, 1359893119, 2600822924, 528734635, 1541459225]"

text \<open>The message schedule: 16 words of the block extended to 64.\<close>

fun extend :: "nat \<Rightarrow> w32 list \<Rightarrow> w32 list" where
  "extend 0 w = w"
| "extend (Suc n) w =
     (let t = length w; a = w ! (t - 15); b = w ! (t - 2);
          s0 = (rotr 7 a) XOR (rotr 18 a) XOR (drop_bit 3 a);
          s1 = (rotr 17 b) XOR (rotr 19 b) XOR (drop_bit 10 b) in
      extend n (w @ [w ! (t - 16) + s0 + w ! (t - 7) + s1]))"

fun sha_round :: "w32 list \<Rightarrow> w32 \<times> w32 \<Rightarrow> w32 list" where
  "sha_round [a, b, c, d, e, f, g, h] (k, w) =
     (let s1 = (rotr 6 e) XOR (rotr 11 e) XOR (rotr 25 e);
          ch = (e AND f) XOR ((NOT e) AND g);
          t1 = h + s1 + ch + k + w;
          s0 = (rotr 2 a) XOR (rotr 13 a) XOR (rotr 22 a);
          maj = (a AND b) XOR (a AND c) XOR (b AND c) in
      [t1 + s0 + maj, a, b, c, d + t1, e, f, g])"
| "sha_round st _ = st"

definition compress :: "w32 list \<Rightarrow> w32 list \<Rightarrow> w32 list" where
  "compress st block = map2 (+) st (foldl sha_round st (zip sha_k (extend 48 block)))"

section \<open>Padding and digest\<close>

text \<open>The bytes of the message as words, and the big-endian bytes of the bit length.\<close>

definition be_bytes :: "w32 \<Rightarrow> w32 list" where
  "be_bytes x = map (\<lambda>i. drop_bit i x AND 255) [24, 16, 8, 0]"

definition sha_pad :: "w32 list \<Rightarrow> w32 list" where
  "sha_pad bs =
     (let n = length bs; z = (119 - n mod 64) mod 64 in
      bs @ [128] @ replicate z 0 @
        be_bytes (drop_bit 29 (of_nat n)) @ be_bytes (push_bit 3 (of_nat n)))"

fun sha_words :: "w32 list \<Rightarrow> w32 list" where
  "sha_words (a # b # c # d # r) =
     (push_bit 24 a OR push_bit 16 b OR push_bit 8 c OR d) # sha_words r"
| "sha_words _ = []"

function sha_blocks :: "w32 list \<Rightarrow> w32 list \<Rightarrow> w32 list" where
  "sha_blocks st ws = (if ws = [] then st else sha_blocks (compress st (take 16 ws)) (drop 16 ws))"
  by pat_completeness auto
termination by (relation "measure (\<lambda>(st, ws). length ws)") auto

declare sha_blocks.simps [simp del]

definition hex_char :: "nat \<Rightarrow> char" where
  "hex_char d = (if d < 10 then char_of (48 + d) else char_of (87 + d))"

definition word_hex :: "w32 \<Rightarrow> string" where
  "word_hex w = map (\<lambda>i. hex_char (unat (drop_bit i w AND 15))) [28, 24, 20, 16, 12, 8, 4, 0]"

definition sha256_hex :: "string \<Rightarrow> string" where
  "sha256_hex s = concat (map word_hex (sha_blocks sha_init (sha_words (sha_pad (map of_char s)))))"

section \<open>Shape of the digest\<close>

lemma length_sha_round: "length (sha_round st kw) = length st"
  by (cases "(st, kw)" rule: sha_round.cases) (simp_all add: Let_def)

lemma length_foldl_round: "length (foldl sha_round st ks) = length st"
  by (induction ks arbitrary: st) (simp_all add: length_sha_round)

lemma length_compress [simp]: "length (compress st b) = length st"
  by (simp add: compress_def length_foldl_round)

lemma length_sha_blocks: "length (sha_blocks st ws) = length st"
  by (induction st ws rule: sha_blocks.induct) (subst sha_blocks.simps, simp)

lemma hex_char_lower: "d < 16 \<Longrightarrow> is_lower_hex (hex_char d)"
  by (simp add: hex_char_def is_lower_hex_def is_digit_def rng_def)

lemma unat_and_15: "unat ((x :: w32) AND 15) < 16"
proof -
  have "x AND 15 \<le> 15" by (rule word_and_le1)
  then have "unat (x AND 15) \<le> unat (15 :: w32)" by (simp only: word_le_nat_alt)
  then show ?thesis by simp
qed

lemma word_hex_shape: "length (word_hex w) = 8 \<and> list_all is_lower_hex (word_hex w)"
  by (simp add: word_hex_def hex_char_lower unat_and_15)

lemma concat_word_hex:
  "length (concat (map word_hex ws)) = 8 * length ws \<and> list_all is_lower_hex (concat (map word_hex ws))"
  by (induction ws) (simp_all add: word_hex_shape)

lemma sha256_hex_shape [simp]: "length (sha256_hex s) = 64" "list_all is_lower_hex (sha256_hex s)"
proof -
  have "length (sha_blocks sha_init ws) = 8" for ws
    by (simp add: length_sha_blocks sha_init_def)
  with concat_word_hex show "length (sha256_hex s) = 64" "list_all is_lower_hex (sha256_hex s)"
    by (simp_all add: sha256_hex_def)
qed

end
