(* ===== verification/Promotion.thy ===== *)
theory Promotion
  imports State Py_Hash
begin

text \<open>
  \<open>src/deployment/promotion.py\<close>: the immutable promotion request, the signed external
  source claim, and the verification of release evidence against the request.
\<close>

section \<open>Promotion requests\<close>

definition REQUEST_FIELDS :: "string list" where
  "REQUEST_FIELDS =
     [''schema_version'', ''release_version'', ''source_sha'', ''oci_repository'',
      ''manifest_digest'', ''exact_image_reference'', ''release_manifest_sha256'',
      ''provenance_sha256'', ''originating_release_run_id'', ''target_stage'', ''requested_by'']"

definition RELEASE_EXECUTION_FIELDS :: "string list" where
  "RELEASE_EXECUTION_FIELDS =
     [''repository'', ''repository_id'', ''workflow_ref'', ''workflow_sha'',
      ''run_id'', ''run_attempt'', ''event_name'', ''source_commit'']"

definition RELEASE_REPOSITORY :: string where
  "RELEASE_REPOSITORY = ''MichaelTrueX/omnilyzer-platform''"

definition RELEASE_REPOSITORY_ID :: int where "RELEASE_REPOSITORY_ID = 1350104356"
definition MAX_GITHUB_NUMBER :: int where "MAX_GITHUB_NUMBER = 2 ^ 63 - 1"

record promotion_request =
  rq_schema_version :: int
  rq_release_version :: string
  rq_source_sha :: string
  rq_oci_repository :: string
  rq_manifest_digest :: string
  rq_exact_image_reference :: string
  rq_release_manifest_sha256 :: string
  rq_provenance_sha256 :: string
  rq_originating_release_run_id :: int
  rq_target_stage :: string
  rq_requested_by :: string

text \<open>\<open>type(v) is int and 0 < v <= MAX_GITHUB_NUMBER\<close>\<close>

definition github_number :: "pyval \<Rightarrow> bool" where
  "github_number v \<longleftrightarrow> (case v of PInt i \<Rightarrow> 0 < i \<and> i \<le> MAX_GITHUB_NUMBER | _ \<Rightarrow> False)"

definition int_of :: "pyval \<Rightarrow> int result" where
  "int_of v = (case v of PInt i \<Rightarrow> Inr i | _ \<Rightarrow> Inl TypeError)"

definition request_from_dict :: "pyval \<Rightarrow> promotion_request result" where
  "request_from_dict v =
     bnd (closed_object v REQUEST_FIELDS) (\<lambda>data.
     if \<not> py_eq (getv data ''schema_version'') (PInt SCHEMA_VERSION) then Inl DeploymentPolicyError
     else
     bnd (validate_semver (getv data ''release_version'')) (\<lambda>version.
     bnd (validate_source_sha (getv data ''source_sha'')) (\<lambda>sha.
     bnd (validate_repository (getv data ''oci_repository'')) (\<lambda>repository.
     bnd (validate_digest (getv data ''manifest_digest'')) (\<lambda>digest.
     bnd (exact_image_reference (PStr repository) (PStr digest)) (\<lambda>expected_reference.
     if \<not> py_eq (getv data ''exact_image_reference'') (PStr expected_reference)
     then Inl DeploymentPolicyError
     else
     bnd (validate_sha256 (getv data ''release_manifest_sha256'')) (\<lambda>manifest_sha.
     bnd (validate_sha256 (getv data ''provenance_sha256'')) (\<lambda>provenance_sha.
     if \<not> github_number (getv data ''originating_release_run_id'') then Inl DeploymentPolicyError
     else
     bnd (int_of (getv data ''originating_release_run_id'')) (\<lambda>run_id.
     bnd (validate_stage (getv data ''target_stage'')) (\<lambda>target.
     bnd (validate_identity (getv data ''requested_by'')) (\<lambda>requester.
       Inr \<lparr>rq_schema_version = SCHEMA_VERSION, rq_release_version = version, rq_source_sha = sha,
            rq_oci_repository = repository, rq_manifest_digest = digest,
            rq_exact_image_reference = expected_reference,
            rq_release_manifest_sha256 = manifest_sha, rq_provenance_sha256 = provenance_sha,
            rq_originating_release_run_id = run_id, rq_target_stage = target,
            rq_requested_by = requester\<rparr>)))))))))))"

definition request_to_dict :: "promotion_request \<Rightarrow> pyval" where
  "request_to_dict r = PDict
     [(''schema_version'', PInt (rq_schema_version r)), (''release_version'', PStr (rq_release_version r)),
      (''source_sha'', PStr (rq_source_sha r)), (''oci_repository'', PStr (rq_oci_repository r)),
      (''manifest_digest'', PStr (rq_manifest_digest r)),
      (''exact_image_reference'', PStr (rq_exact_image_reference r)),
      (''release_manifest_sha256'', PStr (rq_release_manifest_sha256 r)),
      (''provenance_sha256'', PStr (rq_provenance_sha256 r)),
      (''originating_release_run_id'', PInt (rq_originating_release_run_id r)),
      (''target_stage'', PStr (rq_target_stage r)), (''requested_by'', PStr (rq_requested_by r))]"

definition request_canonical_bytes :: "promotion_request \<Rightarrow> string" where
  "request_canonical_bytes r = canonical_bytes (request_to_dict r)"

definition request_sha256 :: "promotion_request \<Rightarrow> string" where
  "request_sha256 r = sha256_hex (request_canonical_bytes r)"

section \<open>The signed external source claim\<close>

definition ANALYTICS_REPOSITORY :: string where "ANALYTICS_REPOSITORY = ''omnilyzer/analytics''"
definition ANALYTICS_SOURCE_REPOSITORY :: string where
  "ANALYTICS_SOURCE_REPOSITORY = ''MichaelTrueX/omnilyzer''"

definition SIGNED_SOURCE_FIELDS :: "string list" where
  "SIGNED_SOURCE_FIELDS =
     [''schema_version'', ''product_id'', ''platform_source_commit'', ''platform_tree'',
      ''source_repository'', ''source_commit'', ''source_tree'',
      ''source_manifest_sha256'', ''source_binding_sha256'', ''source_files_verified'',
      ''dockerfile_sha256'', ''dockerignore_sha256'', ''oci_test_source_sha256'',
      ''build_context_sha256'', ''oci_repository'', ''oci_archive_sha256'',
      ''oci_manifest_digest'', ''product_profile_sha256'', ''runtime_profile_sha256'',
      ''readiness_path'']"

definition ends_with :: "string \<Rightarrow> string \<Rightarrow> bool" where
  "ends_with suf s \<longleftrightarrow> drop (length s - length suf) s = suf"

definition SIGNED_HASH_FIELDS :: "string list" where
  "SIGNED_HASH_FIELDS = filter (ends_with ''_sha256'') SIGNED_SOURCE_FIELDS"

definition SIGNED_GIT_FIELDS :: "string list" where
  "SIGNED_GIT_FIELDS =
     [''platform_source_commit'', ''platform_tree'', ''source_commit'', ''source_tree'']"

record signed_external_source =
  xs_product_id :: string
  xs_source_repository :: string
  xs_source_commit :: string
  xs_source_tree :: string
  xs_build_context_sha256 :: string
  xs_product_profile_sha256 :: string
  xs_runtime_profile_sha256 :: string
  xs_oci_archive_sha256 :: string
  xs_oci_manifest_digest :: string
  xs_claim_sha256 :: string

record trusted_release =
  tr_release_version :: string
  tr_source_sha :: string
  tr_oci_repository :: string
  tr_manifest_digest :: string
  tr_exact_image_reference :: string
  tr_release_workflow :: string
  tr_certificate_identity :: string
  tr_certificate_issuer :: string
  tr_external_source :: "signed_external_source option"

text \<open>\<open>type(v) is int and v == n\<close>\<close>

definition exact_int :: "pyval \<Rightarrow> int \<Rightarrow> bool" where
  "exact_int v n \<longleftrightarrow> (case v of PInt i \<Rightarrow> i = n | _ \<Rightarrow> False)"

text \<open>The long condition on the claim and its mirror, all conjuncts positive.\<close>

definition claim_valid :: "pydict \<Rightarrow> pydict \<Rightarrow> promotion_request \<Rightarrow> bool" where
  "claim_valid claim mirror request \<longleftrightarrow>
     set (keys claim) = set SIGNED_SOURCE_FIELDS \<and> set (keys mirror) = set SIGNED_SOURCE_FIELDS \<and>
     canonical_bytes (PDict claim) = canonical_bytes (PDict mirror) \<and>
     exact_int (getv claim ''schema_version'') 1 \<and>
     py_eq (getv claim ''product_id'') (PStr ''analytics'') \<and>
     py_eq (getv claim ''source_repository'') (PStr ANALYTICS_SOURCE_REPOSITORY) \<and>
     py_eq (getv claim ''oci_repository'') (PStr ANALYTICS_REPOSITORY) \<and>
     exact_int (getv claim ''source_files_verified'') 78 \<and>
     py_eq (getv claim ''readiness_path'') (PStr ''/readyz'') \<and>
     py_eq (getv claim ''platform_source_commit'') (PStr (rq_source_sha request)) \<and>
     py_eq (getv claim ''oci_manifest_digest'') (PStr (rq_manifest_digest request))"

definition signed_source_of :: "pydict \<Rightarrow> signed_external_source result" where
  "signed_source_of claim =
     bnd (traverse (\<lambda>k. validate_sha256 (getv claim k)) SIGNED_HASH_FIELDS) (\<lambda>_.
     bnd (traverse (\<lambda>k. validate_source_sha (getv claim k)) SIGNED_GIT_FIELDS) (\<lambda>_.
     bnd (validate_digest (getv claim ''oci_manifest_digest'')) (\<lambda>digest.
     bnd (str_of (getv claim ''source_commit'')) (\<lambda>sc.
     bnd (str_of (getv claim ''source_tree'')) (\<lambda>st.
     bnd (str_of (getv claim ''build_context_sha256'')) (\<lambda>bc.
     bnd (str_of (getv claim ''product_profile_sha256'')) (\<lambda>pp.
     bnd (str_of (getv claim ''runtime_profile_sha256'')) (\<lambda>rp.
     bnd (str_of (getv claim ''oci_archive_sha256'')) (\<lambda>oa.
       Inr \<lparr>xs_product_id = ''analytics'', xs_source_repository = ANALYTICS_SOURCE_REPOSITORY,
            xs_source_commit = sc, xs_source_tree = st, xs_build_context_sha256 = bc,
            xs_product_profile_sha256 = pp, xs_runtime_profile_sha256 = rp,
            xs_oci_archive_sha256 = oa, xs_oci_manifest_digest = digest,
            xs_claim_sha256 = sha256_hex (canonical_bytes (PDict claim))\<rparr>)))))))))"

definition verified_external_source_claim ::
    "pydict \<Rightarrow> pydict \<Rightarrow> promotion_request \<Rightarrow> signed_external_source option result" where
  "verified_external_source_claim manifest provenance request =
     (if rq_oci_repository request \<noteq> ANALYTICS_REPOSITORY then
        (if ''external_source'' \<in> set (keys manifest) \<or> ''external_source'' \<in> set (keys provenance)
         then Inl DeploymentPolicyError else Inr None)
      else case (getv provenance ''external_source'', getv manifest ''external_source'') of
        (PDict claim, PDict mirror) \<Rightarrow>
          if \<not> claim_valid claim mirror request then Inl DeploymentPolicyError
          else bnd (signed_source_of claim) (\<lambda>x. Inr (Some x))
      | _ \<Rightarrow> Inl DeploymentPolicyError)"

section \<open>Release evidence\<close>

definition evidence_hooks :: json_hooks where
  "evidence_hooks = \<lparr>pairs_hook = unique_pairs ValueError, constant_hook = float_constant\<rparr>"

definition json_object :: "string \<Rightarrow> pydict result" where
  "json_object raw =
     bnd (catch_as [UnicodeDecodeError, JSONDecodeError, ValueError] DeploymentPolicyError
            (json_loads_bytes evidence_hooks raw)) (\<lambda>v.
       case v of PDict d \<Rightarrow> Inr d | _ \<Rightarrow> Inl DeploymentPolicyError)"

definition provenance_fields :: "promotion_request \<Rightarrow> string list" where
  "provenance_fields request =
     [''schema_version'', ''statement_type'', ''claim'', ''platform_version'',
      ''source_commit'', ''execution'', ''subjects''] @
     (if rq_oci_repository request = ANALYTICS_REPOSITORY then [''external_source''] else [])"

definition execution_agrees ::
    "promotion_request \<Rightarrow> pydict \<Rightarrow> pydict \<Rightarrow> pydict \<Rightarrow> string \<Rightarrow> bool" where
  "execution_agrees request manifest provenance execution provenance_bytes \<longleftrightarrow>
     exact_int (getv manifest ''schema_version'') 2 \<and> exact_int (getv provenance ''schema_version'') 2 \<and>
     py_eq (getv provenance ''statement_type'') (PStr ''https://omnilyzer.ai/release-provenance/v2'') \<and>
     py_eq (getv execution ''repository'') (PStr RELEASE_REPOSITORY) \<and>
     exact_int (getv execution ''repository_id'') RELEASE_REPOSITORY_ID \<and>
     py_eq (getv execution ''workflow_ref'') (PStr EXPECTED_RELEASE_WORKFLOW) \<and>
     py_eq (getv execution ''workflow_sha'') (PStr (rq_source_sha request)) \<and>
     py_eq (getv execution ''event_name'') (PStr ''workflow_dispatch'') \<and>
     py_eq (getv execution ''source_commit'') (PStr (rq_source_sha request)) \<and>
     github_number (getv execution ''run_id'') \<and> github_number (getv execution ''run_attempt'') \<and>
     py_eq (getv execution ''run_id'') (PInt (rq_originating_release_run_id request)) \<and>
     py_eq (getv manifest ''provenance'')
       (PDict [(''filename'', PStr ''release-provenance.json''), (''sha256'', PStr (sha256_hex provenance_bytes))])"

text \<open>The reference that the manifest names, with the block's \<open>except\<close> clause.\<close>

definition manifest_oci_reference ::
    "promotion_request \<Rightarrow> pydict \<Rightarrow> pydict \<Rightarrow> (pydict \<times> pydict \<times> string) result" where
  "manifest_oci_reference request manifest provenance =
     catch_as [KeyError, TypeError, DeploymentPolicyError] DeploymentPolicyError
       (bnd (item manifest ''oci'') (\<lambda>m. bnd (item provenance ''subjects'') (\<lambda>s.
        case (m, s) of
          (PDict oci, PDict subjects) \<Rightarrow>
            bnd (item oci ''repository'') (\<lambda>repository.
            if rq_oci_repository request = ANALYTICS_REPOSITORY then
              (if \<not> py_eq repository (PStr ANALYTICS_REPOSITORY) then Inl DeploymentPolicyError
               else bnd (item oci ''manifest_digest'') (\<lambda>g. bnd (validate_digest g) (\<lambda>digest.
                 Inr (oci, subjects, APPROVED_OCI_HOST @ ''/'' @ ANALYTICS_REPOSITORY @ ''@'' @ digest))))
            else bnd (item oci ''manifest_digest'') (\<lambda>g.
                 bnd (exact_image_reference repository g) (\<lambda>ref. Inr (oci, subjects, ref))))
        | _ \<Rightarrow> Inl TypeError)))"

definition evidence_agrees ::
    "promotion_request \<Rightarrow> pydict \<Rightarrow> pydict \<Rightarrow> pydict \<Rightarrow> pydict \<Rightarrow> string \<Rightarrow> bool" where
  "evidence_agrees request manifest provenance oci subjects reference \<longleftrightarrow>
     py_eq (getv manifest ''platform_version'') (PStr (rq_release_version request)) \<and>
     py_eq (getv manifest ''source_commit'') (PStr (rq_source_sha request)) \<and>
     py_eq (getv oci ''registry'') (PStr APPROVED_OCI_ORIGIN) \<and>
     py_eq (getv oci ''repository'') (PStr (rq_oci_repository request)) \<and>
     py_eq (getv oci ''manifest_digest'') (PStr (rq_manifest_digest request)) \<and>
     py_eq (getv oci ''deployment_identity'')
       (PStr (rq_oci_repository request @ ''@'' @ rq_manifest_digest request)) \<and>
     reference = rq_exact_image_reference request \<and>
     py_eq (getv provenance ''platform_version'') (PStr (rq_release_version request)) \<and>
     py_eq (getv provenance ''source_commit'') (PStr (rq_source_sha request)) \<and>
     py_eq (getv subjects ''oci_manifest_digest'') (PStr (rq_manifest_digest request))"

definition SIGSTORE_FIELDS :: "string list" where
  "SIGSTORE_FIELDS =
     [''release_manifest_verified'', ''provenance_verified'', ''certificate_identity'', ''issuer'']"

definition OCI_SIGNATURE_FIELDS :: "string list" where
  "OCI_SIGNATURE_FIELDS =
     [''verified'', ''repository'', ''manifest_digest'', ''certificate_identity'', ''issuer'']"

definition sigstore_trusted :: "pydict \<Rightarrow> bool" where
  "sigstore_trusted d \<longleftrightarrow>
     getv d ''release_manifest_verified'' = PBool True \<and> getv d ''provenance_verified'' = PBool True \<and>
     py_eq (getv d ''certificate_identity'') (PStr EXPECTED_CERTIFICATE_IDENTITY) \<and>
     py_eq (getv d ''issuer'') (PStr EXPECTED_CERTIFICATE_ISSUER)"

definition oci_signature_trusted :: "promotion_request \<Rightarrow> pydict \<Rightarrow> bool" where
  "oci_signature_trusted request d \<longleftrightarrow>
     getv d ''verified'' = PBool True \<and>
     py_eq (getv d ''repository'') (PStr (rq_oci_repository request)) \<and>
     py_eq (getv d ''manifest_digest'') (PStr (rq_manifest_digest request)) \<and>
     py_eq (getv d ''certificate_identity'') (PStr EXPECTED_CERTIFICATE_IDENTITY) \<and>
     py_eq (getv d ''issuer'') (PStr EXPECTED_CERTIFICATE_ISSUER)"

definition verify_release_evidence ::
    "promotion_request \<Rightarrow> string \<Rightarrow> string \<Rightarrow> pyval \<Rightarrow> pyval \<Rightarrow> trusted_release result" where
  "verify_release_evidence request manifest_bytes provenance_bytes sigstore_result oci_result =
     (if sha256_hex manifest_bytes \<noteq> rq_release_manifest_sha256 request then Inl DeploymentPolicyError
      else if sha256_hex provenance_bytes \<noteq> rq_provenance_sha256 request then Inl DeploymentPolicyError
      else
      bnd (json_object manifest_bytes) (\<lambda>manifest.
      bnd (json_object provenance_bytes) (\<lambda>provenance.
      bnd (closed_object (PDict provenance) (provenance_fields request)) (\<lambda>_.
      bnd (closed_object (getv provenance ''execution'') RELEASE_EXECUTION_FIELDS) (\<lambda>execution.
      if \<not> execution_agrees request manifest provenance execution provenance_bytes
      then Inl DeploymentPolicyError
      else
      bnd (manifest_oci_reference request manifest provenance) (\<lambda>(oci, subjects, reference).
      if \<not> evidence_agrees request manifest provenance oci subjects reference
      then Inl DeploymentPolicyError
      else
      bnd (verified_external_source_claim manifest provenance request) (\<lambda>signed.
      if \<exists>x \<in> set_option signed. \<not> py_eq (getv subjects ''oci_archive_sha256'') (PStr (xs_oci_archive_sha256 x))
      then Inl DeploymentPolicyError
      else
      bnd (closed_object sigstore_result SIGSTORE_FIELDS) (\<lambda>sigstore.
      if \<not> sigstore_trusted sigstore then Inl DeploymentPolicyError
      else
      bnd (closed_object oci_result OCI_SIGNATURE_FIELDS) (\<lambda>sig.
      if \<not> oci_signature_trusted request sig then Inl DeploymentPolicyError
      else Inr \<lparr>tr_release_version = rq_release_version request, tr_source_sha = rq_source_sha request,
             tr_oci_repository = rq_oci_repository request, tr_manifest_digest = rq_manifest_digest request,
             tr_exact_image_reference = rq_exact_image_reference request,
             tr_release_workflow = EXPECTED_RELEASE_WORKFLOW,
             tr_certificate_identity = EXPECTED_CERTIFICATE_IDENTITY,
             tr_certificate_issuer = EXPECTED_CERTIFICATE_ISSUER, tr_external_source = signed\<rparr>)))))))))"

section \<open>Request files\<close>

definition load_request :: "string \<Rightarrow> (fs, promotion_request) act" where
  "load_request p w =
     (if is_symlink (node_of w p) \<or> \<not> is_regular (node_of w p) then (Inl DeploymentPolicyError, w)
      else let (r, w') = sys_read p w in
        (bnd r (\<lambda>b. bnd (utf8_decode b) (\<lambda>t. bnd (json_loads default_hooks t) request_from_dict)), w'))"

record promotion_args =
  pa_release_version :: string
  pa_source_sha :: string
  pa_manifest_digest :: string
  pa_release_manifest_sha256 :: string
  pa_provenance_sha256 :: string
  pa_originating_release_run_id :: int
  pa_target_stage :: string
  pa_requested_by :: string
  pa_output :: string

definition build_request :: "promotion_args \<Rightarrow> promotion_request result" where
  "build_request a =
     bnd (validate_digest (PStr (pa_manifest_digest a))) (\<lambda>digest.
     bnd (exact_image_reference (PStr ''omnilyzer/task013-release-canary'') (PStr digest)) (\<lambda>ref.
     bnd (nonempty_string (PStr (pa_requested_by a))) (\<lambda>requester.
       request_from_dict (PDict
         [(''schema_version'', PInt SCHEMA_VERSION), (''release_version'', PStr (pa_release_version a)),
          (''source_sha'', PStr (pa_source_sha a)), (''oci_repository'', PStr ''omnilyzer/task013-release-canary''),
          (''manifest_digest'', PStr digest), (''exact_image_reference'', PStr ref),
          (''release_manifest_sha256'', PStr (pa_release_manifest_sha256 a)),
          (''provenance_sha256'', PStr (pa_provenance_sha256 a)),
          (''originating_release_run_id'', PInt (pa_originating_release_run_id a)),
          (''target_stage'', PStr (pa_target_stage a)), (''requested_by'', PStr requester)]))))"

text \<open>\<open>main\<close> after argument parsing; it returns what it prints.\<close>

definition promotion_main :: "promotion_args \<Rightarrow> (fs, string) act" where
  "promotion_main a =
     act_bind (act_lift (build_request a)) (\<lambda>request w.
     if node_of w (pa_output a) \<noteq> Missing then (Inl DeploymentPolicyError, w)
     else act_bind (sys_create (pa_output a) 420) (\<lambda>_.
          act_bind (sys_flush (pa_output a) (request_canonical_bytes request)) (\<lambda>_.
          act_bind (sys_chmod (pa_output a) 384) (\<lambda>_.
          act_lift (Inr (request_sha256 request))))) w)"

section \<open>Well-formed requests\<close>

definition wf_request :: "promotion_request \<Rightarrow> bool" where
  "wf_request r \<longleftrightarrow>
     rq_schema_version r = SCHEMA_VERSION \<and> fullmatch SEMVER_RE (rq_release_version r) \<and>
     fullmatch SOURCE_SHA_RE (rq_source_sha r) \<and> rq_source_sha r \<noteq> replicate 40 (CHR ''0'') \<and>
     rq_oci_repository r \<in> set APPROVED_OCI_REPOSITORIES \<and> fullmatch DIGEST_RE (rq_manifest_digest r) \<and>
     rq_exact_image_reference r = APPROVED_OCI_HOST @ ''/'' @ rq_oci_repository r @ ''@'' @ rq_manifest_digest r \<and>
     fullmatch SHA256_RE (rq_release_manifest_sha256 r) \<and> fullmatch SHA256_RE (rq_provenance_sha256 r) \<and>
     0 < rq_originating_release_run_id r \<and> rq_originating_release_run_id r \<le> MAX_GITHUB_NUMBER \<and>
     rq_target_stage r \<in> set STAGES \<and> fullmatch IDENTITY_RE (rq_requested_by r)"

definition request_items :: "pydict \<Rightarrow> promotion_request \<Rightarrow> bool" where
  "request_items d r \<longleftrightarrow>
     set (keys d) = set REQUEST_FIELDS \<and> py_eq (getv d ''schema_version'') (PInt SCHEMA_VERSION) \<and>
     getv d ''release_version'' = PStr (rq_release_version r) \<and> getv d ''source_sha'' = PStr (rq_source_sha r) \<and>
     getv d ''oci_repository'' = PStr (rq_oci_repository r) \<and>
     getv d ''manifest_digest'' = PStr (rq_manifest_digest r) \<and>
     getv d ''exact_image_reference'' = PStr (rq_exact_image_reference r) \<and>
     getv d ''release_manifest_sha256'' = PStr (rq_release_manifest_sha256 r) \<and>
     getv d ''provenance_sha256'' = PStr (rq_provenance_sha256 r) \<and>
     getv d ''originating_release_run_id'' = PInt (rq_originating_release_run_id r) \<and>
     getv d ''target_stage'' = PStr (rq_target_stage r) \<and> getv d ''requested_by'' = PStr (rq_requested_by r)"

lemma int_of_Inr [py_simps]: "int_of v = Inr i \<longleftrightarrow> v = PInt i"
  by (cases v) (auto simp: int_of_def)

lemma github_number_iff [py_simps]:
  "github_number v \<longleftrightarrow> (\<exists>i. v = PInt i \<and> 0 < i \<and> i \<le> MAX_GITHUB_NUMBER)"
  by (cases v) (auto simp: github_number_def)

lemma exact_int_iff [py_simps]: "exact_int v n \<longleftrightarrow> v = PInt n"
  by (cases v) (auto simp: exact_int_def)

lemma request_from_dict_Inr [py_simps]:
  "request_from_dict v = Inr r \<longleftrightarrow> wf_request r \<and> (\<exists>d. v = PDict d \<and> request_items d r)"
  (is "?L \<longleftrightarrow> ?R")
proof
  assume ?L
  then show ?R
    by (auto simp: request_from_dict_def py_simps wf_request_def request_items_def split: if_splits)
next
  assume ?R
  then show ?L
    by (cases r) (auto simp: request_from_dict_def py_simps wf_request_def request_items_def)
qed

lemma request_from_dict_Inl [policy_errors]:
  "request_from_dict v = Inl e \<Longrightarrow> e = DeploymentPolicyError"
  by (auto simp: request_from_dict_def bnd_Inl_iff github_number_iff int_of_def
      dest: policy_errors split: if_splits)

lemma request_to_dict_items:
  assumes "wf_request r"
  obtains d where "request_to_dict r = PDict d" "distinct (keys d)" "request_items d r"
  using assms that by (simp add: request_to_dict_def request_items_def REQUEST_FIELDS_def keys_def
      getv_def wf_request_def py_eq_int)

lemma request_roundtrip: "wf_request r \<Longrightarrow> request_from_dict (request_to_dict r) = Inr r"
  by (metis request_to_dict_items request_from_dict_Inr)

lemma request_from_dict_canon:
  assumes "wf_request r"
  shows "request_from_dict (canon (request_to_dict r)) = Inr r"
proof -
  obtain d where d: "request_to_dict r = PDict d" "distinct (keys d)" "request_items d r"
    by (rule request_to_dict_items [OF assms])
  then have "request_items (csort d) r"
    by (simp add: request_items_def canon_simps)
  with assms d(1) show ?thesis by (simp add: request_from_dict_Inr canon_PDict del: canon.simps)
qed

lemma github_number_fits: "0 < i \<Longrightarrow> i \<le> MAX_GITHUB_NUMBER \<Longrightarrow> int_fits i"
  by (rule int_fits_64) (simp add: MAX_GITHUB_NUMBER_def)

lemma plain_request_to_dict: "wf_request r \<Longrightarrow> plain (request_to_dict r)"
  by (simp add: request_to_dict_def wf_request_def SCHEMA_VERSION_def int_fits_64 github_number_fits)

lemma request_canonical_loads:
  "wf_request r \<Longrightarrow> keeps_pairs h \<Longrightarrow>
     bnd (json_loads h (request_canonical_bytes r)) request_from_dict = Inr r"
  by (simp add: request_canonical_bytes_def canonical_loads plain_request_to_dict request_from_dict_canon)

lemma request_canonical_decode:
  "wf_request r \<Longrightarrow> utf8_decode (request_canonical_bytes r) = Inr (request_canonical_bytes r)"
  by (simp add: request_canonical_bytes_def canonical_decode plain_request_to_dict)

lemma request_canonical_bytes_inject:
  assumes "wf_request r" "wf_request q" "request_canonical_bytes r = request_canonical_bytes q"
  shows "r = q"
  using request_canonical_loads [OF assms(1) keeps_pairs_default]
    request_canonical_loads [OF assms(2) keeps_pairs_default] assms(3)
  by (metis sum.inject(2))

section \<open>Evidence\<close>

lemma evidence_hooks_simps [simp]:
  "keeps_pairs evidence_hooks" "hooks_raise evidence_hooks {ValueError}"
  by (auto simp: evidence_hooks_def hooks_raise_def unique_pairs_def float_constant_def keeps_pairs_def)

lemma json_object_Inl [policy_errors]: "json_object raw = Inl e \<Longrightarrow> e = DeploymentPolicyError"
proof -
  have "json_loads_bytes evidence_hooks raw = Inl x \<Longrightarrow> x \<in> json_errors" for x
    using json_loads_Inl [of evidence_hooks "{ValueError}"] json_bytes_decode_Inl
    by (fastforce simp: json_loads_bytes_def bnd_Inl_iff json_errors_def)
  then have "json_loads_bytes evidence_hooks raw = Inl x \<Longrightarrow>
      caught x [UnicodeDecodeError, JSONDecodeError, ValueError]" for x
    by (fastforce simp: json_errors_def caught_def isinstance_exn_def)
  then show "json_object raw = Inl e \<Longrightarrow> e = DeploymentPolicyError"
    by (cases "json_loads_bytes evidence_hooks raw")
      (auto simp: json_object_def split: pyval.splits if_splits)
qed

lemma json_object_canonical: "plain (PDict d) \<Longrightarrow> json_object (canonical_bytes (PDict d)) = Inr (csort d)"
  by (simp add: json_object_def canonical_loads_bytes canon_PDict del: plain.simps canon.simps)

lemma traverse_Inl_policy:
  "traverse f ks = Inl e \<Longrightarrow> (\<And>k e. f k = Inl e \<Longrightarrow> e = DeploymentPolicyError) \<Longrightarrow> e = DeploymentPolicyError"
  by (induction ks) (auto simp: bnd_Inl_iff)

lemma traverse_member: "traverse f ks = Inr ys \<Longrightarrow> k \<in> set ks \<Longrightarrow> \<exists>y. f k = Inr y"
  by (induction ks arbitrary: ys) auto

lemma signed_hash_fields:
  "{''build_context_sha256'', ''product_profile_sha256'', ''runtime_profile_sha256'', ''oci_archive_sha256''}
     \<subseteq> set SIGNED_HASH_FIELDS"
  by code_simp

lemma signed_source_of_Inl [policy_errors]: "signed_source_of c = Inl e \<Longrightarrow> e = DeploymentPolicyError"
proof -
  assume a: "signed_source_of c = Inl e"
  show ?thesis
  proof (cases "traverse (\<lambda>k. validate_sha256 (getv c k)) SIGNED_HASH_FIELDS")
    case (Inl x)
    with a show ?thesis by (auto simp: signed_source_of_def dest!: traverse_Inl_policy dest: policy_errors)
  next
    case h: (Inr hs)
    show ?thesis
    proof (cases "traverse (\<lambda>k. validate_source_sha (getv c k)) SIGNED_GIT_FIELDS")
      case (Inl x)
      with a h show ?thesis by (auto simp: signed_source_of_def dest!: traverse_Inl_policy dest: policy_errors)
    next
      case g: (Inr gs)
      have "\<exists>x. str_of (getv c k) = Inr x" if "k \<in> set SIGNED_HASH_FIELDS \<or> k \<in> set SIGNED_GIT_FIELDS" for k
        using that traverse_member [OF h] traverse_member [OF g] by (auto simp: py_simps)
      then have "\<exists>x. str_of (getv c k) = Inr x"
        if "k \<in> {''source_commit'', ''source_tree'', ''build_context_sha256'', ''product_profile_sha256'',
            ''runtime_profile_sha256'', ''oci_archive_sha256''}" for k
        using that signed_hash_fields by (auto simp: SIGNED_GIT_FIELDS_def)
      then have "str_of (getv c k) \<noteq> Inl x"
        if "k \<in> {''source_commit'', ''source_tree'', ''build_context_sha256'', ''product_profile_sha256'',
            ''runtime_profile_sha256'', ''oci_archive_sha256''}" for k x
        using that by fastforce
      then show ?thesis
        using a h g by (auto simp: signed_source_of_def bnd_Inl_iff dest: policy_errors)
    qed
  qed
qed

lemma verified_external_source_claim_Inl [policy_errors]:
  "verified_external_source_claim m p r = Inl e \<Longrightarrow> e = DeploymentPolicyError"
  by (auto simp: verified_external_source_claim_def bnd_Inl_iff dest: policy_errors
      split: if_splits pyval.splits)

lemma raises_only_item [raise_rules]: "KeyError \<in> E \<Longrightarrow> raises_only E (item d k)"
  by (simp add: raises_only_def item_def split: option.splits)

lemma manifest_oci_reference_Inl [policy_errors]:
  "manifest_oci_reference r m p = Inl e \<Longrightarrow> e = DeploymentPolicyError"
proof -
  let ?E = "{KeyError, TypeError, DeploymentPolicyError}"
  have "raises_only {DeploymentPolicyError} (manifest_oci_reference r m p)"
    unfolding manifest_oci_reference_def
    by (rule raises_only_catch_as [of ?E])
      (auto intro!: raise_rules simp: caught_def isinstance_exn_def split: pyval.splits)
  then show "manifest_oci_reference r m p = Inl e \<Longrightarrow> e = DeploymentPolicyError"
    by (auto dest: raises_onlyD)
qed

lemma verify_release_evidence_Inr:
  "verify_release_evidence request mb pb sig oci = Inr t \<longleftrightarrow>
     sha256_hex mb = rq_release_manifest_sha256 request \<and> sha256_hex pb = rq_provenance_sha256 request \<and>
     (\<exists>manifest provenance execution mo subjects reference source sd od.
        json_object mb = Inr manifest \<and> json_object pb = Inr provenance \<and>
        set (keys provenance) = set (provenance_fields request) \<and>
        getv provenance ''execution'' = PDict execution \<and> set (keys execution) = set RELEASE_EXECUTION_FIELDS \<and>
        execution_agrees request manifest provenance execution pb \<and>
        manifest_oci_reference request manifest provenance = Inr (mo, subjects, reference) \<and>
        evidence_agrees request manifest provenance mo subjects reference \<and>
        verified_external_source_claim manifest provenance request = Inr source \<and>
        (\<forall>x \<in> set_option source. py_eq (getv subjects ''oci_archive_sha256'') (PStr (xs_oci_archive_sha256 x))) \<and>
        sig = PDict sd \<and> set (keys sd) = set SIGSTORE_FIELDS \<and> sigstore_trusted sd \<and>
        oci = PDict od \<and> set (keys od) = set OCI_SIGNATURE_FIELDS \<and> oci_signature_trusted request od \<and>
        t = \<lparr>tr_release_version = rq_release_version request, tr_source_sha = rq_source_sha request,
             tr_oci_repository = rq_oci_repository request, tr_manifest_digest = rq_manifest_digest request,
             tr_exact_image_reference = rq_exact_image_reference request,
             tr_release_workflow = EXPECTED_RELEASE_WORKFLOW,
             tr_certificate_identity = EXPECTED_CERTIFICATE_IDENTITY,
             tr_certificate_issuer = EXPECTED_CERTIFICATE_ISSUER, tr_external_source = source\<rparr>)"
  (is "?L \<longleftrightarrow> ?R")
proof
  assume ?L
  then show ?R
    unfolding verify_release_evidence_def
    apply (simp only: if_Inl_Inr_iff bnd_Inr_iff closed_object_Inr not_not split_paired_Ex prod.case sum.inject)
    apply (elim exE conjE)
    apply (intro conjI exI; (assumption | erule sym | simp))
    done
next
  assume ?R
  then show ?L
    unfolding verify_release_evidence_def by (elim conjE exE) simp
qed

lemma verify_release_evidence_Inl [policy_errors]:
  "verify_release_evidence request mb pb sig oci = Inl e \<Longrightarrow> e = DeploymentPolicyError"
proof -
  have "raises_only {DeploymentPolicyError} (json_object b)" for b
    by (auto intro: raises_onlyI dest: json_object_Inl)
  moreover have "raises_only {DeploymentPolicyError} (verified_external_source_claim m p r)" for m p r
    by (auto intro: raises_onlyI dest: verified_external_source_claim_Inl)
  moreover have "raises_only {DeploymentPolicyError} (manifest_oci_reference r m p)" for m p r
    by (auto intro: raises_onlyI dest: manifest_oci_reference_Inl)
  ultimately have "raises_only {DeploymentPolicyError} (verify_release_evidence request mb pb sig oci)"
    unfolding verify_release_evidence_def by (auto intro!: raise_rules split: prod.splits)
  then show "verify_release_evidence request mb pb sig oci = Inl e \<Longrightarrow> e = DeploymentPolicyError"
    by (auto dest: raises_onlyD)
qed

section \<open>Properties\<close>

text \<open>Sample evidence for one release of the canary.\<close>

definition sample_provenance :: pydict where
  "sample_provenance =
     [(''schema_version'', PInt 2), (''statement_type'', PStr ''https://omnilyzer.ai/release-provenance/v2''),
      (''claim'', PNone), (''platform_version'', PStr ''1.2.4''), (''source_commit'', PStr sample_sha),
      (''execution'', PDict
        [(''repository'', PStr RELEASE_REPOSITORY), (''repository_id'', PInt RELEASE_REPOSITORY_ID),
         (''workflow_ref'', PStr EXPECTED_RELEASE_WORKFLOW), (''workflow_sha'', PStr sample_sha),
         (''run_id'', PInt 7), (''run_attempt'', PInt 1), (''event_name'', PStr ''workflow_dispatch''),
         (''source_commit'', PStr sample_sha)]),
      (''subjects'', PDict [(''oci_manifest_digest'', PStr sample_digest)])]"

definition sample_provenance_bytes :: string where
  "sample_provenance_bytes = canonical_bytes (PDict sample_provenance)"

definition sample_manifest :: pydict where
  "sample_manifest =
     [(''schema_version'', PInt 2), (''platform_version'', PStr ''1.2.4''), (''source_commit'', PStr sample_sha),
      (''provenance'', PDict [(''filename'', PStr ''release-provenance.json''),
                             (''sha256'', PStr (sha256_hex sample_provenance_bytes))]),
      (''oci'', PDict
        [(''registry'', PStr APPROVED_OCI_ORIGIN), (''repository'', PStr ''omnilyzer/task013-release-canary''),
         (''manifest_digest'', PStr sample_digest),
         (''deployment_identity'', PStr (''omnilyzer/task013-release-canary'' @ ''@'' @ sample_digest))])]"

definition sample_manifest_bytes :: string where
  "sample_manifest_bytes = canonical_bytes (PDict sample_manifest)"

definition sample_request :: promotion_request where
  "sample_request =
     \<lparr>rq_schema_version = 1, rq_release_version = ''1.2.4'', rq_source_sha = sample_sha,
      rq_oci_repository = ''omnilyzer/task013-release-canary'', rq_manifest_digest = sample_digest,
      rq_exact_image_reference = APPROVED_OCI_HOST @ ''/'' @ ''omnilyzer/task013-release-canary'' @ ''@'' @ sample_digest,
      rq_release_manifest_sha256 = sha256_hex sample_manifest_bytes,
      rq_provenance_sha256 = sha256_hex sample_provenance_bytes,
      rq_originating_release_run_id = 7, rq_target_stage = ''dev'', rq_requested_by = ''release-bot''\<rparr>"

definition sample_sigstore :: pyval where
  "sample_sigstore = PDict
     [(''release_manifest_verified'', PBool True), (''provenance_verified'', PBool True),
      (''certificate_identity'', PStr EXPECTED_CERTIFICATE_IDENTITY), (''issuer'', PStr EXPECTED_CERTIFICATE_ISSUER)]"

definition sample_oci_signature :: pyval where
  "sample_oci_signature = PDict
     [(''verified'', PBool True), (''repository'', PStr ''omnilyzer/task013-release-canary''),
      (''manifest_digest'', PStr sample_digest),
      (''certificate_identity'', PStr EXPECTED_CERTIFICATE_IDENTITY), (''issuer'', PStr EXPECTED_CERTIFICATE_ISSUER)]"

lemma sample_request_wf: "wf_request sample_request"
proof -
  have "fullmatch SEMVER_RE ''1.2.4''" "fullmatch SOURCE_SHA_RE sample_sha" "sample_sha \<noteq> replicate 40 (CHR ''0'')"
      "fullmatch DIGEST_RE sample_digest" "fullmatch IDENTITY_RE ''release-bot''"
    by code_simp+
  then show ?thesis
    by (simp add: wf_request_def sample_request_def SCHEMA_VERSION_def APPROVED_OCI_REPOSITORIES_def
        fullmatch_SHA256_RE MAX_GITHUB_NUMBER_def STAGES_def)
qed

lemma sample_provenance_object: "json_object sample_provenance_bytes = Inr (csort sample_provenance)"
proof -
  have "plain (PDict sample_provenance)"
    by (simp add: sample_provenance_def int_fits_64 RELEASE_REPOSITORY_ID_def)
  then show ?thesis unfolding sample_provenance_bytes_def by (rule json_object_canonical)
qed

lemma sample_manifest_object: "json_object sample_manifest_bytes = Inr (csort sample_manifest)"
proof -
  have "plain (PDict sample_manifest)" by (simp add: sample_manifest_def int_fits_64)
  then show ?thesis unfolding sample_manifest_bytes_def by (rule json_object_canonical)
qed

lemma sample_keys: "distinct (keys sample_provenance)" "distinct (keys sample_manifest)"
  by (simp_all add: sample_provenance_def sample_manifest_def keys_def)

definition sample_execution :: pydict where
  "sample_execution =
     [(''repository'', PStr RELEASE_REPOSITORY), (''repository_id'', PInt RELEASE_REPOSITORY_ID),
      (''workflow_ref'', PStr EXPECTED_RELEASE_WORKFLOW), (''workflow_sha'', PStr sample_sha),
      (''run_id'', PInt 7), (''run_attempt'', PInt 1), (''event_name'', PStr ''workflow_dispatch''),
      (''source_commit'', PStr sample_sha)]"

lemma sample_execution_agrees:
  "getv (csort sample_provenance) ''execution'' = PDict (csort sample_execution)"
  "set (keys (csort sample_execution)) = set RELEASE_EXECUTION_FIELDS"
  "execution_agrees sample_request (csort sample_manifest) (csort sample_provenance)
     (csort sample_execution) sample_provenance_bytes"
proof -
  have d: "distinct (keys sample_execution)" by (simp add: sample_execution_def keys_def)
  show "getv (csort sample_provenance) ''execution'' = PDict (csort sample_execution)"
    by (simp add: canon_simps sample_keys getv_csort, simp add: sample_provenance_def getv_def sample_execution_def csort_def)
  show "set (keys (csort sample_execution)) = set RELEASE_EXECUTION_FIELDS"
    by (simp add: set_keys_csort, auto simp: sample_execution_def keys_def RELEASE_EXECUTION_FIELDS_def)
  have prov: "getv (csort sample_manifest) ''provenance'' =
      PDict (csort [(''filename'', PStr ''release-provenance.json''), (''sha256'', PStr (sha256_hex sample_provenance_bytes))])"
    by (simp add: getv_csort sample_keys, simp add: sample_manifest_def getv_def csort_def)
  have "map_of (csort [(''filename'', PStr f), (''sha256'', PStr h)]) =
      map_of [(''filename'', PStr f), (''sha256'', PStr h)]" for f h
    by (rule ext) (simp add: csort_def map_of_canon)
  then have "py_eq (PDict (csort [(''filename'', PStr f), (''sha256'', PStr h)]))
      (PDict [(''filename'', PStr f), (''sha256'', PStr h)])" for f h
    by (auto simp: csort_def list_all_iff)
  with prov have "py_eq (getv (csort sample_manifest) ''provenance'')
     (PDict [(''filename'', PStr ''release-provenance.json''), (''sha256'', PStr (sha256_hex sample_provenance_bytes))])"
    by (simp only:)
  then show "execution_agrees sample_request (csort sample_manifest) (csort sample_provenance)
     (csort sample_execution) sample_provenance_bytes"
    unfolding execution_agrees_def
    by (simp add: py_simps getv_csort sample_keys d del: py_eq.simps)
      (simp add: sample_request_def sample_manifest_def sample_provenance_def sample_execution_def getv_def
        py_eq_int MAX_GITHUB_NUMBER_def del: py_eq.simps)
qed

definition sample_oci :: pydict where
  "sample_oci =
     [(''registry'', PStr APPROVED_OCI_ORIGIN), (''repository'', PStr ''omnilyzer/task013-release-canary''),
      (''manifest_digest'', PStr sample_digest),
      (''deployment_identity'', PStr (''omnilyzer/task013-release-canary'' @ ''@'' @ sample_digest))]"

definition sample_subjects :: pydict where
  "sample_subjects = [(''oci_manifest_digest'', PStr sample_digest)]"

lemma sample_oci_agrees:
  "manifest_oci_reference sample_request (csort sample_manifest) (csort sample_provenance) =
     Inr (csort sample_oci, csort sample_subjects, rq_exact_image_reference sample_request)"
  "evidence_agrees sample_request (csort sample_manifest) (csort sample_provenance)
     (csort sample_oci) (csort sample_subjects) (rq_exact_image_reference sample_request)"
  "verified_external_source_claim (csort sample_manifest) (csort sample_provenance) sample_request = Inr None"
proof -
  have d: "distinct (keys sample_oci)" "distinct (keys sample_subjects)"
    by (simp_all add: sample_oci_def sample_subjects_def keys_def)
  have rq: "rq_oci_repository sample_request \<noteq> ANALYTICS_REPOSITORY"
    by (simp add: sample_request_def ANALYTICS_REPOSITORY_def)
  have i: "item (csort sample_manifest) ''oci'' = Inr (PDict (csort sample_oci))"
      "item (csort sample_provenance) ''subjects'' = Inr (PDict (csort sample_subjects))"
    by (simp_all add: item_csort sample_keys, simp_all add: sample_manifest_def sample_provenance_def item_def
        sample_oci_def sample_subjects_def csort_def)
  have j: "item (csort sample_oci) ''repository'' = Inr (PStr ''omnilyzer/task013-release-canary'')"
      "item (csort sample_oci) ''manifest_digest'' = Inr (PStr sample_digest)"
    by (simp_all add: item_csort d, simp_all add: sample_oci_def item_def)
  have "fullmatch DIGEST_RE sample_digest" by code_simp
  then have "exact_image_reference (PStr ''omnilyzer/task013-release-canary'') (PStr sample_digest) =
      Inr (rq_exact_image_reference sample_request)"
    unfolding exact_image_reference_Inr by (simp add: APPROVED_OCI_REPOSITORIES_def sample_request_def)
  then show "manifest_oci_reference sample_request (csort sample_manifest) (csort sample_provenance) =
     Inr (csort sample_oci, csort sample_subjects, rq_exact_image_reference sample_request)"
    by (simp add: manifest_oci_reference_def i j rq)
  show "evidence_agrees sample_request (csort sample_manifest) (csort sample_provenance)
     (csort sample_oci) (csort sample_subjects) (rq_exact_image_reference sample_request)"
    by (simp add: evidence_agrees_def getv_csort sample_keys d, simp add: sample_request_def
        sample_manifest_def sample_provenance_def sample_oci_def sample_subjects_def getv_def)
  show "verified_external_source_claim (csort sample_manifest) (csort sample_provenance) sample_request = Inr None"
    by (simp add: verified_external_source_claim_def rq set_keys_csort, simp add: sample_manifest_def
        sample_provenance_def keys_def)
qed

definition sample_trusted :: trusted_release where
  "sample_trusted =
     \<lparr>tr_release_version = ''1.2.4'', tr_source_sha = sample_sha,
      tr_oci_repository = ''omnilyzer/task013-release-canary'', tr_manifest_digest = sample_digest,
      tr_exact_image_reference = rq_exact_image_reference sample_request,
      tr_release_workflow = EXPECTED_RELEASE_WORKFLOW, tr_certificate_identity = EXPECTED_CERTIFICATE_IDENTITY,
      tr_certificate_issuer = EXPECTED_CERTIFICATE_ISSUER, tr_external_source = None\<rparr>"

lemma sample_evidence_accepted:
  "verify_release_evidence sample_request sample_manifest_bytes sample_provenance_bytes
     sample_sigstore sample_oci_signature = Inr sample_trusted"
proof -
  have k: "set (keys (csort sample_provenance)) = set (provenance_fields sample_request)"
    by (simp add: set_keys_csort, auto simp: sample_provenance_def keys_def provenance_fields_def
        sample_request_def ANALYTICS_REPOSITORY_def)
  obtain sd od where s: "sample_sigstore = PDict sd" "set (keys sd) = set SIGSTORE_FIELDS" "sigstore_trusted sd"
      "sample_oci_signature = PDict od" "set (keys od) = set OCI_SIGNATURE_FIELDS"
      "oci_signature_trusted sample_request od"
    by (simp add: sample_sigstore_def sample_oci_signature_def sigstore_trusted_def oci_signature_trusted_def
        SIGSTORE_FIELDS_def OCI_SIGNATURE_FIELDS_def keys_def getv_def sample_request_def)
  have h: "sha256_hex sample_manifest_bytes = rq_release_manifest_sha256 sample_request"
      "sha256_hex sample_provenance_bytes = rq_provenance_sha256 sample_request"
    by (simp_all add: sample_request_def)
  show ?thesis
    unfolding verify_release_evidence_Inr
    by (intro conjI exI h; (rule sample_manifest_object sample_provenance_object k sample_execution_agrees
          sample_oci_agrees s | simp add: sample_trusted_def sample_request_def))
qed


text \<open>
  C34: A promotion request is accepted only when it pins the image by digest in an approved
  repository and binds the reference to that digest; the accepted request is well formed,
  its JSON form is accepted again as the same request, and a refusal is always
  \<open>DeploymentPolicyError\<close>.
\<close>

theorem request_from_dict_sound:
  "case request_from_dict v of
     Inr r \<Rightarrow> wf_request r \<and> request_from_dict (request_to_dict r) = Inr r \<and>
       (\<exists>h. rq_exact_image_reference r =
          ''oci-dev.omnilyzer.ai/'' @ rq_oci_repository r @ ''@sha256:'' @ h \<and>
          length h = 64 \<and> list_all is_lower_hex h)
   | Inl e \<Rightarrow> e = DeploymentPolicyError"
proof (cases "request_from_dict v")
  case (Inr r)
  then have "wf_request r" by (simp add: request_from_dict_Inr)
  with Inr request_roundtrip [of r] show ?thesis
    by (auto simp: wf_request_def fullmatch_DIGEST_RE APPROVED_OCI_HOST_def)
qed (auto dest: request_from_dict_Inl)

text \<open>
  The request that \<open>promotion.py\<close> writes is the one that a later step loads, and the
  digest it prints is the digest of the file: when \<open>main\<close> returns, the output file was
  absent before, is in mode 0600, and \<open>load_request\<close> gives the request back.
\<close>

theorem promotion_main_writes_request:
  assumes "promotion_main a w = (Inr printed, w')" and "faults w = []"
  shows "\<exists>r b. build_request a = Inr r \<and> wf_request r \<and> node_of w (pa_output a) = Missing \<and>
    node_of w' (pa_output a) = Regular 384 b \<and> printed = sha256_hex b \<and>
    load_request (pa_output a) w' = (Inr r, w')"
proof -
  obtain r where r: "build_request a = Inr r"
    using assms(1) by (cases "build_request a") (auto simp: promotion_main_def act_bind_def)
  then have wf: "wf_request r" by (auto simp: build_request_def request_from_dict_Inr)
  have w: "node_of w (pa_output a) = Missing"
    "node_of w' (pa_output a) = Regular 384 (request_canonical_bytes r)" "faults w' = []"
    "printed = sha256_hex (request_canonical_bytes r)"
    using assms r by (auto simp: promotion_main_def act_bind_def sys_defs with_mode_def request_sha256_def
        split: if_splits)
  have "bnd (utf8_decode (request_canonical_bytes r)) (\<lambda>t. bnd (json_loads default_hooks t) request_from_dict) = Inr r"
    using request_canonical_decode [OF wf] request_canonical_loads [OF wf keeps_pairs_default]
    by (simp only: bnd_simps)
  then have "load_request (pa_output a) w' = (Inr r, w')"
    using w by (simp add: load_request_def is_symlink_def is_regular_def sys_read_def)
  with r wf w show ?thesis by blast
qed

definition sample_args :: promotion_args where
  "sample_args =
     \<lparr>pa_release_version = ''1.2.4'', pa_source_sha = sample_sha, pa_manifest_digest = sample_digest,
      pa_release_manifest_sha256 = replicate 64 (CHR ''c''), pa_provenance_sha256 = replicate 64 (CHR ''d''),
      pa_originating_release_run_id = 7, pa_target_stage = ''dev'', pa_requested_by = ''release-bot'',
      pa_output = ''/request.json''\<rparr>"

lemma sample_args_build: "\<exists>r. build_request sample_args = Inr r"
proof -
  have "isl (build_request sample_args) = False" by code_simp
  then show ?thesis by (cases "build_request sample_args") auto
qed

theorem promotion_main_writes_request_witness:
  "\<exists>printed w' r. promotion_main sample_args empty_fs = (Inr printed, w') \<and>
     load_request ''/request.json'' w' = (Inr r, w')"
proof -
  obtain r where r: "build_request sample_args = Inr r" using sample_args_build by blast
  have ok: "faults empty_fs = []" "node_of empty_fs p = Missing" for p by (simp_all add: empty_fs_def)
  have out: "pa_output sample_args = ''/request.json''" by (simp add: sample_args_def)
  obtain printed w' where "promotion_main sample_args empty_fs = (Inr printed, w')"
    using r ok by (simp add: promotion_main_def act_bind_def sys_defs out with_mode_def)
  with promotion_main_writes_request [OF this ok(1)] out show ?thesis by auto
qed

end
