(* ===== verification/Identity.thy ===== *)
theory Identity
  imports Policy
begin

text \<open>
  \<open>src/deployment/identity.py\<close>: the authorization policy for verified GitHub OIDC claims,
  the identifier of a token (\<open>jti\<close>), and the in-memory replay guard that states the
  contract of replay protection.
\<close>

section \<open>Constants\<close>

definition DEV_ISSUER :: string where "DEV_ISSUER = ''https://token.actions.githubusercontent.com''"
definition DEV_AUDIENCE :: string where "DEV_AUDIENCE = ''https://deploy-dev.omnilyzer.ai/task014-dev''"
definition DEV_ZOT_READ_AUDIENCE :: string where "DEV_ZOT_READ_AUDIENCE = ''https://oci-dev.omnilyzer.ai''"
definition DEV_FORGEJO_READ_AUDIENCE :: string where
  "DEV_FORGEJO_READ_AUDIENCE = ''u:3:d4f50b90-f001-4b9f-ad1e-487080ec44fb''"
definition DEV_REPOSITORY :: string where "DEV_REPOSITORY = ''MichaelTrueX/omnilyzer-platform''"
definition DEV_REPOSITORY_ID :: int where "DEV_REPOSITORY_ID = 1350104356"
definition DEV_REPOSITORY_OWNER_ID :: int where "DEV_REPOSITORY_OWNER_ID = 130741173"

definition DEV_WORKFLOW_REF :: string where
  "DEV_WORKFLOW_REF =
     ''MichaelTrueX/omnilyzer-platform/.github/workflows/platform-promote.yml'' @ ''@refs/heads/main''"

definition DEV_REF :: string where "DEV_REF = ''refs/heads/main''"
definition DEV_ENVIRONMENT :: string where "DEV_ENVIRONMENT = ''task014-dev''"
definition DEV_EVENT_NAME :: string where "DEV_EVENT_NAME = ''workflow_dispatch''"
definition DEV_RUNNER_ENVIRONMENT :: string where "DEV_RUNNER_ENVIRONMENT = ''github-hosted''"
definition MAX_TOKEN_LIFETIME_SECONDS :: int where "MAX_TOKEN_LIFETIME_SECONDS = 300"
definition MAX_RECEIVED_AGE_SECONDS :: int where "MAX_RECEIVED_AGE_SECONDS = 60"
definition MAX_CLOCK_SKEW_SECONDS :: int where "MAX_CLOCK_SKEW_SECONDS = 30"
definition MAX_DECIMAL_IDENTIFIER :: int where "MAX_DECIMAL_IDENTIFIER = 2 ^ 63 - 1"
definition MAX_JTI_LENGTH :: nat where "MAX_JTI_LENGTH = 128"

definition REQUIRED_AUTHORIZATION_CLAIMS :: "string list" where
  "REQUIRED_AUTHORIZATION_CLAIMS =
     [''iss'', ''aud'', ''repository'', ''repository_id'', ''repository_owner_id'',
      ''workflow_ref'', ''workflow_sha'', ''ref'', ''environment'', ''event_name'',
      ''runner_environment'', ''run_id'', ''run_attempt'', ''actor_id'', ''iat'',
      ''nbf'', ''exp'', ''jti'']"

definition DECIMAL_RE :: rexp where
  "DECIMAL_RE = Cat (Cls (rng (CHR ''1'') (CHR ''9''))) (Upto 18 DIGIT)"

definition JTI_RE :: rexp where
  "JTI_RE = Cat ALNUM (Upto 127 (Cls (\<lambda>c. is_alnum c \<or> c \<in> set ''._:@-'')))"

section \<open>Identities and policies\<close>

record authorized_identity =
  id_issuer :: string
  id_audience :: string
  id_repository :: string
  id_repository_id :: int
  id_repository_owner_id :: int
  id_workflow_ref :: string
  id_workflow_sha :: string
  id_ref :: string
  id_environment :: string
  id_event_name :: string
  id_runner_environment :: string
  id_run_id :: int
  id_run_attempt :: int
  id_actor_id :: int
  id_issued_at :: int
  id_not_before :: int
  id_expires_at :: int
  id_jti :: string

record authorization_policy =
  po_issuer :: string
  po_audience :: string
  po_repository :: string
  po_repository_id :: int
  po_repository_owner_id :: int
  po_workflow_ref :: string
  po_ref :: string
  po_environment :: string
  po_event_name :: string
  po_runner_environment :: string
  po_maximum_token_lifetime_seconds :: int
  po_maximum_received_age_seconds :: int
  po_maximum_clock_skew_seconds :: int

definition DEV_AUTHORIZATION_POLICY :: authorization_policy where
  "DEV_AUTHORIZATION_POLICY =
     \<lparr>po_issuer = DEV_ISSUER, po_audience = DEV_AUDIENCE, po_repository = DEV_REPOSITORY,
      po_repository_id = DEV_REPOSITORY_ID, po_repository_owner_id = DEV_REPOSITORY_OWNER_ID,
      po_workflow_ref = DEV_WORKFLOW_REF, po_ref = DEV_REF, po_environment = DEV_ENVIRONMENT,
      po_event_name = DEV_EVENT_NAME, po_runner_environment = DEV_RUNNER_ENVIRONMENT,
      po_maximum_token_lifetime_seconds = MAX_TOKEN_LIFETIME_SECONDS,
      po_maximum_received_age_seconds = MAX_RECEIVED_AGE_SECONDS,
      po_maximum_clock_skew_seconds = MAX_CLOCK_SKEW_SECONDS\<rparr>"

definition ZOT_AUTHORIZATION_POLICY :: authorization_policy where
  "ZOT_AUTHORIZATION_POLICY = DEV_AUTHORIZATION_POLICY\<lparr>po_audience := DEV_ZOT_READ_AUDIENCE\<rparr>"

definition FORGEJO_AUTHORIZATION_POLICY :: authorization_policy where
  "FORGEJO_AUTHORIZATION_POLICY = DEV_AUTHORIZATION_POLICY\<lparr>po_audience := DEV_FORGEJO_READ_AUDIENCE\<rparr>"

definition reviewed_policies :: "authorization_policy list" where
  "reviewed_policies = [DEV_AUTHORIZATION_POLICY, ZOT_AUTHORIZATION_POLICY, FORGEJO_AUTHORIZATION_POLICY]"

section \<open>Claim validators\<close>

definition exact_string :: "pydict \<Rightarrow> string \<Rightarrow> string \<Rightarrow> string result" where
  "exact_string claims name expected =
     (case getv claims name of
        PStr s \<Rightarrow> if s \<noteq> expected then Inl OIDCAuthorizationError else Inr s
      | _ \<Rightarrow> Inl OIDCAuthorizationError)"

definition decimal_identifier :: "pydict \<Rightarrow> string \<Rightarrow> int result" where
  "decimal_identifier claims name =
     (case getv claims name of
        PStr s \<Rightarrow>
          if \<not> fullmatch DECIMAL_RE s then Inl OIDCAuthorizationError
          else let number = int (nat_of_digits s) in
            if MAX_DECIMAL_IDENTIFIER < number then Inl OIDCAuthorizationError else Inr number
      | _ \<Rightarrow> Inl OIDCAuthorizationError)"

definition claim_timestamp :: "pydict \<Rightarrow> string \<Rightarrow> int result" where
  "claim_timestamp claims name =
     (case getv claims name of
        PInt i \<Rightarrow> if i < 0 then Inl OIDCAuthorizationError else Inr i
      | _ \<Rightarrow> Inl OIDCAuthorizationError)"

text \<open>\<open>".." in value\<close>\<close>

fun has_dotdot :: "string \<Rightarrow> bool" where
  "has_dotdot (a # b # r) \<longleftrightarrow> (a = CHR ''.'' \<and> b = CHR ''.'') \<or> has_dotdot (b # r)"
| "has_dotdot _ \<longleftrightarrow> False"

definition validate_jti :: "pyval \<Rightarrow> string result" where
  "validate_jti v =
     (case v of
        PStr s \<Rightarrow>
          if MAX_JTI_LENGTH < length s \<or> \<not> fullmatch JTI_RE s \<or> has_dotdot s
          then Inl OIDCAuthorizationError else Inr s
      | _ \<Rightarrow> Inl OIDCAuthorizationError)"

definition validate_expected_workflow_sha :: "pyval \<Rightarrow> string result" where
  "validate_expected_workflow_sha v =
     (case v of
        PStr _ \<Rightarrow> catch_as [DeploymentPolicyError] OIDCAuthorizationError (validate_source_sha v)
      | _ \<Rightarrow> Inl OIDCAuthorizationError)"

definition nonneg_int :: "exn \<Rightarrow> pyval \<Rightarrow> int result" where
  "nonneg_int e v = (case v of PInt i \<Rightarrow> if i < 0 then Inl e else Inr i | _ \<Rightarrow> Inl e)"

section \<open>Authorization\<close>

text \<open>The six time conditions, in the order of the code.\<close>

definition token_times_ok :: "authorization_policy \<Rightarrow> int \<Rightarrow> int \<Rightarrow> int \<Rightarrow> int \<Rightarrow> bool" where
  "token_times_ok policy received issued not_before expires \<longleftrightarrow>
     \<not> (expires \<le> issued \<or> not_before > expires) \<and>
     \<not> expires - issued > po_maximum_token_lifetime_seconds policy \<and>
     \<not> issued > received + po_maximum_clock_skew_seconds policy \<and>
     \<not> not_before > received + po_maximum_clock_skew_seconds policy \<and>
     \<not> received > expires + po_maximum_clock_skew_seconds policy \<and>
     \<not> received - issued > po_maximum_received_age_seconds policy"

definition authorize_with_policy ::
    "pyval \<Rightarrow> authorization_policy \<Rightarrow> pyval \<Rightarrow> pyval \<Rightarrow> authorized_identity result" where
  "authorize_with_policy claims policy received_at expected_workflow_sha =
     (if policy \<notin> set reviewed_policies then Inl OIDCAuthorizationError
      else
      bnd (validate_expected_workflow_sha expected_workflow_sha) (\<lambda>expected.
      case claims of
        PDict c \<Rightarrow>
          bnd (nonneg_int OIDCAuthorizationError received_at) (\<lambda>received.
          if \<not> set REQUIRED_AUTHORIZATION_CLAIMS \<subseteq> set (keys c) then Inl OIDCAuthorizationError
          else
          bnd (exact_string c ''iss'' (po_issuer policy)) (\<lambda>issuer.
          bnd (exact_string c ''aud'' (po_audience policy)) (\<lambda>audience.
          bnd (exact_string c ''repository'' (po_repository policy)) (\<lambda>repository.
          bnd (decimal_identifier c ''repository_id'') (\<lambda>repository_id.
          bnd (decimal_identifier c ''repository_owner_id'') (\<lambda>owner_id.
          if repository_id \<noteq> po_repository_id policy \<or> owner_id \<noteq> po_repository_owner_id policy
          then Inl OIDCAuthorizationError
          else
          bnd (exact_string c ''workflow_ref'' (po_workflow_ref policy)) (\<lambda>workflow_ref.
          bnd (catch_as [DeploymentPolicyError] OIDCAuthorizationError
                 (validate_source_sha (getv c ''workflow_sha''))) (\<lambda>workflow_sha.
          if workflow_sha \<noteq> expected then Inl OIDCAuthorizationError
          else
          bnd (exact_string c ''ref'' (po_ref policy)) (\<lambda>rf.
          bnd (exact_string c ''environment'' (po_environment policy)) (\<lambda>environment.
          bnd (exact_string c ''event_name'' (po_event_name policy)) (\<lambda>event_name.
          bnd (exact_string c ''runner_environment'' (po_runner_environment policy)) (\<lambda>runner.
          bnd (decimal_identifier c ''run_id'') (\<lambda>run_id.
          bnd (decimal_identifier c ''run_attempt'') (\<lambda>run_attempt.
          bnd (decimal_identifier c ''actor_id'') (\<lambda>actor_id.
          bnd (claim_timestamp c ''iat'') (\<lambda>issued.
          bnd (claim_timestamp c ''nbf'') (\<lambda>not_before.
          bnd (claim_timestamp c ''exp'') (\<lambda>expires.
          if \<not> token_times_ok policy received issued not_before expires
          then Inl OIDCAuthorizationError
          else
          bnd (validate_jti (getv c ''jti'')) (\<lambda>jti.
            Inr \<lparr>id_issuer = issuer, id_audience = audience, id_repository = repository,
                 id_repository_id = repository_id, id_repository_owner_id = owner_id,
                 id_workflow_ref = workflow_ref, id_workflow_sha = workflow_sha, id_ref = rf,
                 id_environment = environment, id_event_name = event_name,
                 id_runner_environment = runner, id_run_id = run_id, id_run_attempt = run_attempt,
                 id_actor_id = actor_id, id_issued_at = issued, id_not_before = not_before,
                 id_expires_at = expires, id_jti = jti\<rparr>)))))))))))))))))))
      | _ \<Rightarrow> Inl OIDCAuthorizationError))"

definition authorize_verified_github_oidc ::
    "pyval \<Rightarrow> pyval \<Rightarrow> pyval \<Rightarrow> authorized_identity result" where
  "authorize_verified_github_oidc claims received_at expected_workflow_sha =
     authorize_with_policy claims DEV_AUTHORIZATION_POLICY received_at expected_workflow_sha"

section \<open>The in-memory replay guard\<close>

record memory_guard =
  mg_maximum_entries :: nat
  mg_entries :: "(string \<times> int) list"

text \<open>The constructor; \<open>entries\<close> is the dictionary from \<open>jti\<close> to its retention time.\<close>

definition memory_guard_init :: "nat \<Rightarrow> memory_guard result" where
  "memory_guard_init maximum =
     (if maximum = 0 then Inl ValueError else Inr \<lparr>mg_maximum_entries = maximum, mg_entries = []\<rparr>)"

definition positive_int :: "exn \<Rightarrow> pyval \<Rightarrow> int result" where
  "positive_int e v = (case v of PInt i \<Rightarrow> if i \<le> 0 then Inl e else Inr i | _ \<Rightarrow> Inl e)"

text \<open>\<open>clock\<close> is the result of \<open>current_time()\<close>.\<close>

definition replay_clock :: "pyval result \<Rightarrow> int result" where
  "replay_clock clock =
     (case clock of
        Inl e \<Rightarrow> Inl (if is_Exception e then ReplayUnavailableError else e)
      | Inr v \<Rightarrow> nonneg_int ReplayUnavailableError v)"

definition memory_arguments ::
    "pyval \<Rightarrow> pyval \<Rightarrow> pyval \<Rightarrow> pyval \<Rightarrow> pyval \<Rightarrow> (string \<times> int) result" where
  "memory_arguments jti expires_at request_hash run_id run_attempt =
     bnd (validate_jti jti) (\<lambda>j.
     bnd (nonneg_int ReplayUnavailableError expires_at) (\<lambda>x.
     bnd (catch_as [DeploymentPolicyError] ReplayUnavailableError (validate_sha256 request_hash)) (\<lambda>_.
     bnd (positive_int ReplayUnavailableError run_id) (\<lambda>_.
     bnd (positive_int ReplayUnavailableError run_attempt) (\<lambda>_. Inr (j, x))))))"

definition memory_consume ::
    "pyval \<Rightarrow> pyval \<Rightarrow> pyval \<Rightarrow> pyval \<Rightarrow> pyval \<Rightarrow> pyval result \<Rightarrow> (memory_guard, unit) act" where
  "memory_consume jti expires_at request_hash run_id run_attempt clock g =
     (case bnd (memory_arguments jti expires_at request_hash run_id run_attempt) (\<lambda>a.
             bnd (replay_clock clock) (\<lambda>now. Inr (a, now))) of
        Inl e \<Rightarrow> (Inl e, g)
      | Inr ((j, x), now) \<Rightarrow>
          let kept = filter (\<lambda>(k, retention). retention \<ge> now) (mg_entries g);
              g' = g\<lparr>mg_entries := kept\<rparr> in
          if j \<in> fst ` set kept then (Inl ReplayError, g')
          else if length kept \<ge> mg_maximum_entries g then (Inl ReplayUnavailableError, g')
          else (Inr (), g\<lparr>mg_entries := kept @ [(j, x + MAX_CLOCK_SKEW_SECONDS)]\<rparr>))"

section \<open>What the validators accept and raise\<close>

lemma exact_string_Inr [py_simps]: "exact_string c k x = Inr s \<longleftrightarrow> getv c k = PStr x \<and> s = x"
  by (auto simp: exact_string_def split: pyval.splits)

lemma decimal_identifier_Inr [py_simps]:
  "decimal_identifier c k = Inr n \<longleftrightarrow>
     (\<exists>s. getv c k = PStr s \<and> fullmatch DECIMAL_RE s \<and> n = int (nat_of_digits s) \<and> n \<le> MAX_DECIMAL_IDENTIFIER)"
  by (auto simp: decimal_identifier_def Let_def split: pyval.splits)

lemma claim_timestamp_Inr [py_simps]: "claim_timestamp c k = Inr n \<longleftrightarrow> getv c k = PInt n \<and> 0 \<le> n"
  by (auto simp: claim_timestamp_def split: pyval.splits)

definition jti_ok :: "string \<Rightarrow> bool" where
  "jti_ok s \<longleftrightarrow> length s \<le> MAX_JTI_LENGTH \<and> fullmatch JTI_RE s \<and> \<not> has_dotdot s"

lemma validate_jti_Inr [py_simps]: "validate_jti v = Inr s \<longleftrightarrow> v = PStr s \<and> jti_ok s"
  by (auto simp: validate_jti_def jti_ok_def split: pyval.splits)

lemma validate_expected_workflow_sha_Inr [py_simps]:
  "validate_expected_workflow_sha v = Inr s \<longleftrightarrow> validate_source_sha v = Inr s"
  by (auto simp: validate_expected_workflow_sha_def py_simps split: pyval.splits)

lemma nonneg_int_Inr [py_simps]: "nonneg_int e v = Inr i \<longleftrightarrow> v = PInt i \<and> 0 \<le> i"
  by (auto simp: nonneg_int_def split: pyval.splits)

lemma positive_int_Inr [py_simps]: "positive_int e v = Inr i \<longleftrightarrow> v = PInt i \<and> 0 < i"
  by (auto simp: positive_int_def split: pyval.splits)

lemma validate_jti_canon [canon_simps]: "validate_jti (canon v) = validate_jti v"
  by (cases v) (simp_all add: validate_jti_def)

lemma raises_only_oidc [raise_rules]:
  assumes "OIDCAuthorizationError \<in> E"
  shows "raises_only E (exact_string c k x)" "raises_only E (decimal_identifier c k)"
    "raises_only E (claim_timestamp c k)" "raises_only E (validate_jti v)"
    "raises_only E (nonneg_int OIDCAuthorizationError v)"
  using assms
  by (auto simp: raises_only_def exact_string_def decimal_identifier_def claim_timestamp_def Let_def
      validate_jti_def nonneg_int_def split: pyval.splits if_splits)

lemma raises_only_oidc_sha [raise_rules]:
  assumes "OIDCAuthorizationError \<in> E"
  shows "raises_only E (catch_as [DeploymentPolicyError] OIDCAuthorizationError (validate_source_sha v))"
  using assms by (intro raises_only_catch_as [of "{DeploymentPolicyError}"] raise_rules)
    (auto simp: caught_def isinstance_exn_def)

lemma raises_only_expected_sha [raise_rules]:
  "OIDCAuthorizationError \<in> E \<Longrightarrow> raises_only E (validate_expected_workflow_sha v)"
  by (cases v) (auto simp: validate_expected_workflow_sha_def intro: raises_only_oidc_sha)

lemma authorize_with_policy_raises [raise_rules]:
  "OIDCAuthorizationError \<in> E \<Longrightarrow> raises_only E (authorize_with_policy c p r x)"
  unfolding authorize_with_policy_def
  by (cases c) (auto intro!: raise_rules)

lemma decimal_identifier_pos: "fullmatch DECIMAL_RE s \<Longrightarrow> 0 < nat_of_digits s"
proof -
  assume "fullmatch DECIMAL_RE s"
  then obtain c t where s: "s = c # t" "rng (CHR ''1'') (CHR ''9'') c"
    by (auto simp: DECIMAL_RE_def fullmatch_Cat_Cls)
  have mono: "n \<le> foldl (\<lambda>n c. 10 * n + digit_val c) n t" for n
  proof (induction t arbitrary: n)
    case (Cons d t)
    have "n \<le> 10 * n + digit_val d" by simp
    also have "\<dots> \<le> foldl (\<lambda>n c. 10 * n + digit_val c) (10 * n + digit_val d) t" by (rule Cons.IH)
    finally show ?case by simp
  qed simp
  have "0 < digit_val c" using s(2) by (simp add: rng_def digit_val_def)
  with mono [of "digit_val c"] s(1) show ?thesis by (simp add: nat_of_digits_def)
qed

lemmas authorize_facts = exact_string_Inr claim_timestamp_Inr decimal_identifier_Inr nonneg_int_Inr
  validate_expected_workflow_sha_Inr validate_source_sha_Inr validate_jti_Inr

lemma authorize_Inr_facts:
  assumes "authorize_with_policy claims p r x = Inr i"
  obtains c received where "claims = PDict c" "p \<in> set reviewed_policies"
    "r = PInt received" "x = PStr (id_workflow_sha i)"
    "set REQUIRED_AUTHORIZATION_CLAIMS \<subseteq> set (keys c)"
    "getv c ''workflow_sha'' = PStr (id_workflow_sha i)" "getv c ''jti'' = PStr (id_jti i)" "jti_ok (id_jti i)"
    "getv c ''aud'' = PStr (po_audience p)"
    "id_issuer i = po_issuer p" "id_audience i = po_audience p" "id_repository i = po_repository p"
    "id_repository_id i = po_repository_id p" "id_repository_owner_id i = po_repository_owner_id p"
    "id_workflow_ref i = po_workflow_ref p" "id_ref i = po_ref p" "id_environment i = po_environment p"
    "id_event_name i = po_event_name p" "id_runner_environment i = po_runner_environment p"
    "token_times_ok p received (id_issued_at i) (id_not_before i) (id_expires_at i)"
    "0 \<le> id_issued_at i" "0 < id_run_id i" "0 < id_run_attempt i" "0 < id_actor_id i"
    "id_run_id i \<le> MAX_DECIMAL_IDENTIFIER" "id_run_attempt i \<le> MAX_DECIMAL_IDENTIFIER"
    "id_actor_id i \<le> MAX_DECIMAL_IDENTIFIER"
proof (cases claims)
  case (PDict c)
  show thesis
    using assms unfolding PDict authorize_with_policy_def
    by (auto simp: authorize_facts PDict dest: decimal_identifier_pos split: if_splits intro!: that)
qed (use assms in \<open>auto simp: authorize_with_policy_def split: if_splits\<close>)

section \<open>The contract of a replay guard\<close>

text \<open>
  The \<open>ReplayGuard\<close> protocol as an interface: an operation that consumes a \<open>jti\<close> retains it
  until a given time; while the clocks that operations read do not pass that time, the
  guard keeps it and refuses to consume it again.  \<open>consumed c\<close> is the \<open>jti\<close> that the
  operation \<open>c\<close> asks to consume, \<open>until c\<close> the time up to which it asks to retain it, and
  \<open>reads_by c t\<close> says that the clock \<open>c\<close> reads, if it reads one, is at most \<open>t\<close>.
\<close>

locale replay_guard =
  fixes step :: "'op \<Rightarrow> ('g, unit) act"
    and consumed :: "'op \<Rightarrow> string option"
    and until :: "'op \<Rightarrow> int"
    and reads_by :: "'op \<Rightarrow> int \<Rightarrow> bool"
    and retains :: "'g \<Rightarrow> string \<Rightarrow> int \<Rightarrow> bool"
  assumes consume_retains: "step c g = (Inr (), g') \<Longrightarrow> consumed c = Some j \<Longrightarrow> retains g' j (until c)"
    and retains_step: "retains g j t \<Longrightarrow> reads_by c t \<Longrightarrow> step c g = (r, g') \<Longrightarrow> retains g' j t"
    and retains_refuses: "retains g j t \<Longrightarrow> reads_by c t \<Longrightarrow> consumed c = Some j \<Longrightarrow> step c g \<noteq> (Inr (), g')"
begin

lemma retains_run:
  assumes "retains g j t" and "\<And>c. c \<in> set cs \<Longrightarrow> reads_by c t"
  shows "retains (run_ops step cs g) j t"
proof (rule run_ops_invariant [where I = "\<lambda>g. retains g j t"])
  show "retains g j t" by (rule assms(1))
next
  fix c w
  assume "c \<in> set cs" and w: "retains w j t"
  obtain r w' where "step c w = (r, w')" by fastforce
  then show "retains (snd (step c w)) j t"
    using retains_step [OF w assms(2) [OF \<open>c \<in> set cs\<close>]] by simp
qed

text \<open>Between two operations that consume the same \<open>jti\<close>, however many others run, at most
  one succeeds.\<close>

lemma consumed_once:
  assumes "step c g = (Inr (), g1)" and "consumed c = Some j" and "consumed d = Some j"
    and "\<And>e. e \<in> set (cs @ [d]) \<Longrightarrow> reads_by e (until c)"
  shows "fst (step d (run_ops step cs g1)) \<noteq> Inr ()"
proof
  assume a: "fst (step d (run_ops step cs g1)) = Inr ()"
  have "retains (run_ops step cs g1) j (until c)"
    using consume_retains [OF assms(1,2)] assms(4) by (intro retains_run) auto
  then have "step d (run_ops step cs g1) \<noteq> (Inr (), snd (step d (run_ops step cs g1)))"
    using assms(3,4) by (intro retains_refuses) auto
  with a show False by (simp add: prod_eq_iff)
qed

end

text \<open>A call of \<open>consume\<close>: its arguments and what the clock returned.\<close>

record consume_call =
  cc_jti :: pyval
  cc_expires_at :: pyval
  cc_request_hash :: pyval
  cc_run_id :: pyval
  cc_run_attempt :: pyval
  cc_clock :: "pyval result"

definition memory_step :: "consume_call \<Rightarrow> (memory_guard, unit) act" where
  "memory_step c = memory_consume (cc_jti c) (cc_expires_at c) (cc_request_hash c)
     (cc_run_id c) (cc_run_attempt c) (cc_clock c)"

definition call_jti :: "consume_call \<Rightarrow> string option" where
  "call_jti c = opt_of (cc_jti c)"

definition call_until :: "consume_call \<Rightarrow> int" where
  "call_until c = (case cc_expires_at c of PInt x \<Rightarrow> x + MAX_CLOCK_SKEW_SECONDS | _ \<Rightarrow> 0)"

definition call_reads_by :: "consume_call \<Rightarrow> int \<Rightarrow> bool" where
  "call_reads_by c t \<longleftrightarrow> (case cc_clock c of Inr (PInt now) \<Rightarrow> now \<le> t | _ \<Rightarrow> True)"

definition memory_retains :: "memory_guard \<Rightarrow> string \<Rightarrow> int \<Rightarrow> bool" where
  "memory_retains g j t \<longleftrightarrow> (\<exists>t'. (j, t') \<in> set (mg_entries g) \<and> t \<le> t')"

lemma memory_arguments_Inr [py_simps]:
  "memory_arguments j x h r a = Inr (jj, xx) \<longleftrightarrow>
     validate_jti j = Inr jj \<and> x = PInt xx \<and> 0 \<le> xx \<and> (\<exists>hh. validate_sha256 h = Inr hh) \<and>
     (\<exists>n. r = PInt n \<and> 0 < n) \<and> (\<exists>n. a = PInt n \<and> 0 < n)"
  by (auto simp: memory_arguments_def nonneg_int_Inr positive_int_Inr)

lemma replay_clock_Inr [py_simps]: "replay_clock c = Inr n \<longleftrightarrow> c = Inr (PInt n) \<and> 0 \<le> n"
  by (auto simp: replay_clock_def nonneg_int_Inr split: sum.splits)

lemma memory_step_cases:
  assumes "memory_step c g = (r, g')"
  obtains (refused) e where "r = Inl e" "g' = g"
  | (ran) j x now kept where "cc_jti c = PStr j" "cc_expires_at c = PInt x" "cc_clock c = Inr (PInt now)"
      "kept = filter (\<lambda>(k, retention). retention \<ge> now) (mg_entries g)"
      "j \<in> fst ` set kept \<and> r = Inl ReplayError \<and> g' = g\<lparr>mg_entries := kept\<rparr> \<or>
       j \<notin> fst ` set kept \<and> mg_maximum_entries g \<le> length kept \<and> r = Inl ReplayUnavailableError \<and>
         g' = g\<lparr>mg_entries := kept\<rparr> \<or>
       j \<notin> fst ` set kept \<and> length kept < mg_maximum_entries g \<and> r = Inr () \<and>
         g' = g\<lparr>mg_entries := kept @ [(j, x + MAX_CLOCK_SKEW_SECONDS)]\<rparr>"
proof (cases "bnd (memory_arguments (cc_jti c) (cc_expires_at c) (cc_request_hash c) (cc_run_id c)
      (cc_run_attempt c)) (\<lambda>a. bnd (replay_clock (cc_clock c)) (\<lambda>now. Inr (a, now)))")
  case (Inl e)
  with assms refused show thesis by (auto simp: memory_step_def memory_consume_def)
next
  case (Inr p)
  obtain j x now where p: "p = ((j, x), now)" by (metis prod.exhaust)
  with Inr have "cc_jti c = PStr j" "cc_expires_at c = PInt x" "cc_clock c = Inr (PInt now)"
    by (auto simp: memory_arguments_Inr replay_clock_Inr validate_jti_Inr)
  with assms Inr p ran show thesis
    by (auto simp: memory_step_def memory_consume_def Let_def split: if_splits)
qed

lemma kept_retains:
  "(j, t') \<in> set (mg_entries g) \<Longrightarrow> t \<le> t' \<Longrightarrow> now \<le> t \<Longrightarrow>
     (j, t') \<in> set (filter (\<lambda>(k, retention). retention \<ge> now) (mg_entries g))"
  by simp

interpretation memory: replay_guard memory_step call_jti call_until call_reads_by memory_retains
proof
  fix c g g' j
  assume "memory_step c g = (Inr (), g')" "call_jti c = Some j"
  then show "memory_retains g' j (call_until c)"
    by (elim memory_step_cases) (auto simp: memory_retains_def call_jti_def call_until_def opt_of_def)
next
  fix g j t c r g'
  assume "memory_retains g j t" "call_reads_by c t" and s: "memory_step c g = (r, g')"
  then obtain t' where t': "(j, t') \<in> set (mg_entries g)" "t \<le> t'" by (auto simp: memory_retains_def)
  from s show "memory_retains g' j t"
  proof (cases rule: memory_step_cases)
    case (ran i x now kept)
    then have "(j, t') \<in> set kept"
      using kept_retains [OF t'] \<open>call_reads_by c t\<close> by (simp add: call_reads_by_def)
    with ran(5) t' show ?thesis by (auto simp: memory_retains_def)
  qed (use \<open>memory_retains g j t\<close> in simp)
next
  fix g j t c g'
  assume a: "memory_retains g j t" "call_reads_by c t" "call_jti c = Some j"
  then obtain t' where t': "(j, t') \<in> set (mg_entries g)" "t \<le> t'" by (auto simp: memory_retains_def)
  show "memory_step c g \<noteq> (Inr (), g')"
  proof
    assume "memory_step c g = (Inr (), g')"
    then show False
    proof (cases rule: memory_step_cases)
      case (ran i x now kept)
      then have "(j, t') \<in> set kept" "i = j"
        using kept_retains [OF t'] a by (simp_all add: call_reads_by_def call_jti_def opt_of_def)
      with ran(5) show ?thesis by force
    qed simp
  qed
qed

section \<open>Properties\<close>

text \<open>
  C23: A token authorizes the deployment only as the reviewed workload: if
  \<open>authorize_verified_github_oidc\<close> returns, every identity field is the reviewed DEV constant,
  the workflow revision is the expected one, the run and actor identifiers are positive
  64-bit numbers, the token lives at most 300 seconds, was received at most 60 seconds after
  it was issued and not outside its validity by more than the 30 seconds of skew, and its
  \<open>jti\<close> is a bounded safe identifier; every refusal is \<open>OIDCAuthorizationError\<close>.
\<close>

theorem authorize_sound:
  "case authorize_verified_github_oidc claims received_at expected of
     Inl e \<Rightarrow> e = OIDCAuthorizationError
   | Inr i \<Rightarrow>
       id_issuer i = DEV_ISSUER \<and> id_audience i = DEV_AUDIENCE \<and> id_repository i = DEV_REPOSITORY \<and>
       id_repository_id i = DEV_REPOSITORY_ID \<and> id_repository_owner_id i = DEV_REPOSITORY_OWNER_ID \<and>
       id_workflow_ref i = DEV_WORKFLOW_REF \<and> expected = PStr (id_workflow_sha i) \<and>
       id_ref i = DEV_REF \<and> id_environment i = DEV_ENVIRONMENT \<and> id_event_name i = DEV_EVENT_NAME \<and>
       id_runner_environment i = DEV_RUNNER_ENVIRONMENT \<and>
       id_run_id i \<in> {1..2 ^ 63 - 1} \<and> id_run_attempt i \<in> {1..2 ^ 63 - 1} \<and> id_actor_id i \<in> {1..2 ^ 63 - 1} \<and>
       0 \<le> id_issued_at i \<and> id_issued_at i < id_expires_at i \<and> id_expires_at i \<le> id_issued_at i + 300 \<and>
       (\<exists>now. received_at = PInt now \<and> id_issued_at i \<le> now + 30 \<and> id_not_before i \<le> now + 30 \<and>
          now \<le> id_expires_at i + 30 \<and> now \<le> id_issued_at i + 60) \<and>
       jti_ok (id_jti i)"
proof (cases "authorize_verified_github_oidc claims received_at expected")
  case (Inl e)
  then have "e \<in> {OIDCAuthorizationError}"
    unfolding authorize_verified_github_oidc_def
    by (rule raises_onlyD [OF authorize_with_policy_raises, rotated]) simp
  with Inl show ?thesis by simp
next
  case (Inr i)
  then have "authorize_with_policy claims DEV_AUTHORIZATION_POLICY received_at expected = Inr i"
    by (simp add: authorize_verified_github_oidc_def)
  then show ?thesis
    unfolding Inr sum.case
    by (rule authorize_Inr_facts)
      (simp add: DEV_AUTHORIZATION_POLICY_def token_times_ok_def MAX_TOKEN_LIFETIME_SECONDS_def
        MAX_RECEIVED_AGE_SECONDS_def MAX_CLOCK_SKEW_SECONDS_def MAX_DECIMAL_IDENTIFIER_def)
qed

lemma claims_getv:
  assumes "\<forall>k \<in> set REQUIRED_AUTHORIZATION_CLAIMS. getv c k = getv d k"
  shows "getv c ''iss'' = getv d ''iss''" "getv c ''aud'' = getv d ''aud''"
    "getv c ''repository'' = getv d ''repository''" "getv c ''repository_id'' = getv d ''repository_id''"
    "getv c ''repository_owner_id'' = getv d ''repository_owner_id''"
    "getv c ''workflow_ref'' = getv d ''workflow_ref''" "getv c ''workflow_sha'' = getv d ''workflow_sha''"
    "getv c ''ref'' = getv d ''ref''" "getv c ''environment'' = getv d ''environment''"
    "getv c ''event_name'' = getv d ''event_name''"
    "getv c ''runner_environment'' = getv d ''runner_environment''" "getv c ''run_id'' = getv d ''run_id''"
    "getv c ''run_attempt'' = getv d ''run_attempt''" "getv c ''actor_id'' = getv d ''actor_id''"
    "getv c ''iat'' = getv d ''iat''" "getv c ''nbf'' = getv d ''nbf''" "getv c ''exp'' = getv d ''exp''"
    "getv c ''jti'' = getv d ''jti''"
  using assms by (simp_all add: REQUIRED_AUTHORIZATION_CLAIMS_def)

text \<open>
  Extra claims neither grant nor widen authority: two claim sets that contain the
  required claims with the same values are treated alike, whatever else they carry.
\<close>

theorem extra_claims_ignored:
  assumes "set REQUIRED_AUTHORIZATION_CLAIMS \<subseteq> set (keys c)"
    and "set REQUIRED_AUTHORIZATION_CLAIMS \<subseteq> set (keys d)"
    and "\<forall>k \<in> set REQUIRED_AUTHORIZATION_CLAIMS. getv c k = getv d k"
  shows "authorize_verified_github_oidc (PDict c) received_at expected =
    authorize_verified_github_oidc (PDict d) received_at expected"
  unfolding authorize_verified_github_oidc_def authorize_with_policy_def exact_string_def
    decimal_identifier_def claim_timestamp_def
  using assms(1,2) by (simp only: claims_getv [OF assms(3)] pyval.case)

definition sample_claims :: pydict where
  "sample_claims =
     [(''iss'', PStr DEV_ISSUER), (''aud'', PStr DEV_AUDIENCE), (''repository'', PStr DEV_REPOSITORY),
      (''repository_id'', PStr ''1350104356''), (''repository_owner_id'', PStr ''130741173''),
      (''workflow_ref'', PStr DEV_WORKFLOW_REF), (''workflow_sha'', PStr (replicate 40 (CHR ''a''))),
      (''ref'', PStr DEV_REF), (''environment'', PStr DEV_ENVIRONMENT), (''event_name'', PStr DEV_EVENT_NAME),
      (''runner_environment'', PStr DEV_RUNNER_ENVIRONMENT), (''run_id'', PStr ''7''), (''run_attempt'', PStr ''1''),
      (''actor_id'', PStr ''42''), (''iat'', PInt 1000), (''nbf'', PInt 990), (''exp'', PInt 1300),
      (''jti'', PStr ''token-1'')]"

definition sample_identity :: authorized_identity where
  "sample_identity =
     \<lparr>id_issuer = DEV_ISSUER, id_audience = DEV_AUDIENCE, id_repository = DEV_REPOSITORY,
      id_repository_id = DEV_REPOSITORY_ID, id_repository_owner_id = DEV_REPOSITORY_OWNER_ID,
      id_workflow_ref = DEV_WORKFLOW_REF, id_workflow_sha = replicate 40 (CHR ''a''), id_ref = DEV_REF,
      id_environment = DEV_ENVIRONMENT, id_event_name = DEV_EVENT_NAME,
      id_runner_environment = DEV_RUNNER_ENVIRONMENT, id_run_id = 7, id_run_attempt = 1, id_actor_id = 42,
      id_issued_at = 1000, id_not_before = 990, id_expires_at = 1300, id_jti = ''token-1''\<rparr>"

lemma sample_claims_authorized:
  "authorize_verified_github_oidc (PDict sample_claims) (PInt 1010) (PStr (replicate 40 (CHR ''a''))) = Inr sample_identity"
proof -
  have re: "fullmatch DECIMAL_RE ''1350104356''" "fullmatch DECIMAL_RE ''130741173''" "fullmatch DECIMAL_RE ''7''"
      "fullmatch DECIMAL_RE ''1''" "fullmatch DECIMAL_RE ''42''" "jti_ok ''token-1''"
      "fullmatch SOURCE_SHA_RE (replicate 40 (CHR ''a''))"
    by code_simp+
  have ids: "decimal_identifier sample_claims ''repository_id'' = Inr 1350104356"
      "decimal_identifier sample_claims ''repository_owner_id'' = Inr 130741173"
      "decimal_identifier sample_claims ''run_id'' = Inr 7"
      "decimal_identifier sample_claims ''run_attempt'' = Inr 1"
      "decimal_identifier sample_claims ''actor_id'' = Inr 42"
    using re by (simp_all add: decimal_identifier_Inr sample_claims_def getv_def nat_of_digits_def digit_val_def
        MAX_DECIMAL_IDENTIFIER_def)
  have str: "exact_string sample_claims ''iss'' DEV_ISSUER = Inr DEV_ISSUER"
      "exact_string sample_claims ''aud'' DEV_AUDIENCE = Inr DEV_AUDIENCE"
      "exact_string sample_claims ''repository'' DEV_REPOSITORY = Inr DEV_REPOSITORY"
      "exact_string sample_claims ''workflow_ref'' DEV_WORKFLOW_REF = Inr DEV_WORKFLOW_REF"
      "exact_string sample_claims ''ref'' DEV_REF = Inr DEV_REF"
      "exact_string sample_claims ''environment'' DEV_ENVIRONMENT = Inr DEV_ENVIRONMENT"
      "exact_string sample_claims ''event_name'' DEV_EVENT_NAME = Inr DEV_EVENT_NAME"
      "exact_string sample_claims ''runner_environment'' DEV_RUNNER_ENVIRONMENT = Inr DEV_RUNNER_ENVIRONMENT"
    by (simp_all add: exact_string_Inr sample_claims_def getv_def)
  have tm: "claim_timestamp sample_claims ''iat'' = Inr 1000" "claim_timestamp sample_claims ''nbf'' = Inr 990"
      "claim_timestamp sample_claims ''exp'' = Inr 1300"
    by (simp_all add: claim_timestamp_Inr sample_claims_def getv_def)
  have sha: "validate_source_sha (PStr (replicate 40 (CHR ''a''))) = Inr (replicate 40 (CHR ''a''))"
    using re(7) by (simp only: validate_source_sha_Inr) (simp add: replicate_eq_replicate)
  have get: "getv sample_claims ''workflow_sha'' = PStr (replicate 40 (CHR ''a''))"
      "validate_jti (getv sample_claims ''jti'') = Inr ''token-1''"
    using re(6) by (simp_all add: validate_jti_Inr sample_claims_def getv_def)
  have req: "set REQUIRED_AUTHORIZATION_CLAIMS \<subseteq> set (keys sample_claims)"
    by (simp add: REQUIRED_AUTHORIZATION_CLAIMS_def sample_claims_def keys_def)
  show ?thesis
    unfolding authorize_verified_github_oidc_def authorize_with_policy_def
    by (simp add: reviewed_policies_def validate_expected_workflow_sha_def sha nonneg_int_def req get ids tm
        DEV_AUTHORIZATION_POLICY_def str DEV_REPOSITORY_ID_def DEV_REPOSITORY_OWNER_ID_def token_times_ok_def
        MAX_TOKEN_LIFETIME_SECONDS_def MAX_RECEIVED_AGE_SECONDS_def MAX_CLOCK_SKEW_SECONDS_def sample_identity_def)
qed

theorem extra_claims_ignored_witness:
  "authorize_verified_github_oidc (PDict ((''admin'', PBool True) # sample_claims)) (PInt 1010)
     (PStr (replicate 40 (CHR ''a''))) =
   authorize_verified_github_oidc (PDict sample_claims) (PInt 1010) (PStr (replicate 40 (CHR ''a'')))"
proof (rule extra_claims_ignored)
  show "set REQUIRED_AUTHORIZATION_CLAIMS \<subseteq> set (keys ((''admin'', PBool True) # sample_claims))"
    by (simp add: REQUIRED_AUTHORIZATION_CLAIMS_def sample_claims_def keys_def)
  show "set REQUIRED_AUTHORIZATION_CLAIMS \<subseteq> set (keys sample_claims)"
    by (simp add: REQUIRED_AUTHORIZATION_CLAIMS_def sample_claims_def keys_def)
  show "\<forall>k \<in> set REQUIRED_AUTHORIZATION_CLAIMS. getv ((''admin'', PBool True) # sample_claims) k = getv sample_claims k"
    by (simp add: REQUIRED_AUTHORIZATION_CLAIMS_def getv_def)
qed

text \<open>
  The in-memory guard keeps its contract: after a \<open>jti\<close> was consumed with an expiry, no
  later call succeeds for it while the clock has not passed expiry plus skew, whatever other
  calls run between.
\<close>

theorem memory_guard_once:
  assumes "memory_step c g = (Inr (), g1)" and "cc_jti c = PStr j" and "cc_jti d = PStr j"
    and "cc_expires_at c = PInt x"
    and "\<forall>e \<in> set (cs @ [d]). \<forall>now. cc_clock e = Inr (PInt now) \<longrightarrow> now \<le> x + MAX_CLOCK_SKEW_SECONDS"
  shows "fst (memory_step d (run_ops memory_step cs g1)) \<noteq> Inr ()"
proof (rule memory.consumed_once [OF assms(1)])
  show "call_jti c = Some j" "call_jti d = Some j" using assms(2,3) by (simp_all add: call_jti_def opt_of_def)
  show "call_reads_by e (call_until c)" if "e \<in> set (cs @ [d])" for e
    using assms(4,5) that by (auto simp: call_reads_by_def call_until_def split: sum.splits pyval.splits)
qed

definition sample_call :: consume_call where
  "sample_call = \<lparr>cc_jti = PStr ''token-1'', cc_expires_at = PInt 1300,
     cc_request_hash = PStr (replicate 64 (CHR ''c'')), cc_run_id = PInt 7, cc_run_attempt = PInt 1,
     cc_clock = Inr (PInt 1010)\<rparr>"

definition sample_guard :: memory_guard where
  "sample_guard = \<lparr>mg_maximum_entries = 2, mg_entries = [(''old'', 500)]\<rparr>"

theorem memory_guard_once_witness:
  "fst (memory_step sample_call (snd (memory_step sample_call sample_guard))) \<noteq> Inr ()"
proof -
  have "memory_step sample_call sample_guard =
      (Inr (), \<lparr>mg_maximum_entries = 2, mg_entries = [(''token-1'', 1330)]\<rparr>)"
    by code_simp
  from memory_guard_once [OF this, of "''token-1''" sample_call 1300 "[]"] this show ?thesis
    by (simp add: sample_call_def MAX_CLOCK_SKEW_SECONDS_def)
qed

definition wf_guard :: "memory_guard \<Rightarrow> bool" where
  "wf_guard g \<longleftrightarrow> length (mg_entries g) \<le> mg_maximum_entries g \<and> distinct (map fst (mg_entries g))"

lemma memory_step_wf: "wf_guard g \<Longrightarrow> wf_guard (snd (memory_step c g))"
proof -
  assume wf: "wf_guard g"
  obtain r g' where s: "memory_step c g = (r, g')" by fastforce
  then have "wf_guard g'"
  proof (cases rule: memory_step_cases)
    case (ran j x now kept)
    have "length kept \<le> length (mg_entries g)" by (simp only: ran(4) length_filter_le)
    then have "length kept \<le> mg_maximum_entries g" using wf by (simp add: wf_guard_def)
    moreover have "distinct (map fst kept)" using wf by (simp add: wf_guard_def ran(4) distinct_map_filter)
    ultimately show ?thesis using ran(5) by (auto simp: wf_guard_def image_iff)
  qed (use wf in simp)
  with s show ?thesis by simp
qed

text \<open>
  The in-memory guard never holds more entries than its bound and never an identifier
  twice, after any sequence of calls.
\<close>

theorem memory_guard_bounded:
  "case memory_guard_init n of
     Inl e \<Rightarrow> n = 0 \<and> e = ValueError
   | Inr g \<Rightarrow> wf_guard (run_ops memory_step cs g)"
proof (cases "n = 0")
  case False
  have "wf_guard (run_ops memory_step cs \<lparr>mg_maximum_entries = n, mg_entries = []\<rparr>)"
    by (rule run_ops_invariant [where I = wf_guard]) (simp_all add: wf_guard_def memory_step_wf [unfolded wf_guard_def])
  with False show ?thesis by (simp add: memory_guard_init_def)
qed (simp add: memory_guard_init_def)

end
