(* ===== verification/Execution.thy ===== *)
theory Execution
  imports Identity Py_Hash
begin

text \<open>
  \<open>src/deployment/execution.py\<close>: the closed request that the broker sends to the executor,
  its canonical bytes, and its binding to the authorized identity.
\<close>

section \<open>Constants\<close>

definition EXECUTION_SCHEMA_VERSION :: int where "EXECUTION_SCHEMA_VERSION = 1"
definition ALLOWED_OPERATIONS :: "string list" where "ALLOWED_OPERATIONS = [''deploy'']"
definition DEV_STAGE :: string where "DEV_STAGE = ''dev''"
definition DEV_OCI_REPOSITORY :: string where "DEV_OCI_REPOSITORY = ''omnilyzer/task013-release-canary''"
definition RUNTIME_CONFIGURATION_PATH :: string where
  "RUNTIME_CONFIGURATION_PATH = ''deployment/runtime/dev/canary-runtime.json''"
definition NO_SECRETS_REASON :: string where
  "NO_SECRETS_REASON = ''task014-synthetic-canary-has-no-runtime-secrets''"
definition DEV_LOOPBACK_ADDRESS :: string where "DEV_LOOPBACK_ADDRESS = ''127.0.0.1''"
definition DEV_LOOPBACK_PORT :: int where "DEV_LOOPBACK_PORT = 3020"
definition DEV_PUBLIC_ORIGIN :: string where "DEV_PUBLIC_ORIGIN = ''https://canary-dev.omnilyzer.ai''"

definition INGRESS_PATHS :: "string list" where
  "INGRESS_PATHS =
     [''deployment/runtime/dev/compose.yaml'', ''deployment/runtime/dev/host-nginx.conf'',
      ''deployment/runtime/dev/nginx/nginx.conf'']"

definition REFERENCE_FIELDS :: "string list" where
  "REFERENCE_FIELDS =
     [''schema_version'', ''kind'', ''repository_id'', ''reviewed_commit'', ''path'', ''sha256'']"

definition SECRETS_REFERENCE_FIELDS :: "string list" where
  "SECRETS_REFERENCE_FIELDS = [''schema_version'', ''kind'', ''required'', ''reason'']"

definition INGRESS_FILE_FIELDS :: "string list" where
  "INGRESS_FILE_FIELDS = [''path'', ''sha256'']"

definition INGRESS_REFERENCE_FIELDS :: "string list" where
  "INGRESS_REFERENCE_FIELDS =
     [''schema_version'', ''kind'', ''repository_id'', ''reviewed_commit'', ''files'',
      ''loopback_address'', ''loopback_port'', ''public_origin'']"

definition EXECUTOR_REQUEST_FIELDS :: "string list" where
  "EXECUTOR_REQUEST_FIELDS =
     [''schema_version'', ''operation'', ''stage'', ''release_version'', ''source_sha'',
      ''oci_origin'', ''oci_repository'', ''manifest_digest'', ''exact_image_reference'',
      ''release_manifest_sha256'', ''provenance_sha256'', ''originating_release_run_id'',
      ''promotion_request_sha256'', ''requested_by_actor_id'', ''github_repository_id'',
      ''github_workflow_ref'', ''github_workflow_sha'', ''github_run_id'',
      ''github_run_attempt'', ''oidc_jti'', ''oidc_issued_at'', ''oidc_expires_at'',
      ''runtime_configuration_reference'', ''secrets_reference'', ''ingress_reference'']"

definition MAX_IDENTIFIER :: int where "MAX_IDENTIFIER = 2 ^ 63 - 1"
definition MAX_CANONICAL_REQUEST_BYTES :: nat where "MAX_CANONICAL_REQUEST_BYTES = 64 * 1024"

section \<open>Validators\<close>

definition exec_closed :: "pyval \<Rightarrow> string list \<Rightarrow> pydict result" where
  "exec_closed v names =
     (case v of
        PDict d \<Rightarrow> if set (keys d) \<noteq> set names then Inl ExecutorRequestError else Inr d
      | _ \<Rightarrow> Inl ExecutorRequestError)"

definition exec_positive_integer :: "pyval \<Rightarrow> int result" where
  "exec_positive_integer v =
     (case v of
        PInt i \<Rightarrow> if \<not> (1 \<le> i \<and> i \<le> MAX_IDENTIFIER) then Inl ExecutorRequestError else Inr i
      | _ \<Rightarrow> Inl ExecutorRequestError)"

definition exec_sha256 :: "pyval \<Rightarrow> string result" where
  "exec_sha256 v = catch_as [DeploymentPolicyError] ExecutorRequestError (validate_sha256 v)"

definition exec_source_sha :: "pyval \<Rightarrow> string result" where
  "exec_source_sha v = catch_as [DeploymentPolicyError] ExecutorRequestError (validate_source_sha v)"

text \<open>
  \<open>str(ipaddress.ip_address(v))\<close> for an IPv4 address in text or as a number.  Text or a
  number of an IPv6 address is treated like an invalid address: its text is never the
  reviewed loopback, so that both are refused with the same exception.
\<close>

fun split_on :: "char \<Rightarrow> string \<Rightarrow> string list" where
  "split_on c [] = [[]]"
| "split_on c (x # xs) =
     (if x = c then [] # split_on c xs
      else case split_on c xs of [] \<Rightarrow> [[x]] | p # ps \<Rightarrow> (x # p) # ps)"

definition octet_ok :: "string \<Rightarrow> bool" where
  "octet_ok s \<longleftrightarrow>
     s \<noteq> [] \<and> list_all is_digit s \<and> length s \<le> 3 \<and> \<not> (1 < length s \<and> hd s = CHR ''0'') \<and>
     nat_of_digits s \<le> 255"

definition ipv4_text :: "string \<Rightarrow> bool" where
  "ipv4_text s \<longleftrightarrow> length (split_on (CHR ''.'') s) = 4 \<and> list_all octet_ok (split_on (CHR ''.'') s)"

definition dotted :: "int \<Rightarrow> string" where
  "dotted i = join ''.'' (map (\<lambda>k. str_of_int (i div 256 ^ k mod 256)) [3, 2, 1, 0])"

definition ip_address :: "pyval \<Rightarrow> string result" where
  "ip_address v =
     (case v of
        PStr s \<Rightarrow> if ipv4_text s then Inr s else Inl ValueError
      | PInt i \<Rightarrow> if 0 \<le> i \<and> i < 2 ^ 32 then Inr (dotted i) else Inl ValueError
      | PBool b \<Rightarrow> Inr (dotted (of_bool b))
      | _ \<Rightarrow> Inl ValueError)"

definition is_loopback :: "string \<Rightarrow> bool" where
  "is_loopback s \<longleftrightarrow> starts_with ''127.'' s"

text \<open>\<open>urlsplit\<close> of an absolute URL: scheme, network location and the rest.\<close>

definition urlsplit :: "string \<Rightarrow> string \<times> string \<times> string" where
  "urlsplit s =
     (let scheme = takeWhile (\<lambda>c. c \<noteq> CHR '':'') s; r = drop (length scheme) s in
      if starts_with ''://'' r then
        (scheme, takeWhile (\<lambda>c. c \<notin> set ''/?#'') (drop 3 r), dropWhile (\<lambda>c. c \<notin> set ''/?#'') (drop 3 r))
      else ([], [], s))"

section \<open>References\<close>

record runtime_reference =
  rr_schema_version :: int
  rr_kind :: string
  rr_repository_id :: int
  rr_reviewed_commit :: string
  rr_path :: string
  rr_sha256 :: string

definition runtime_from_dict :: "pyval \<Rightarrow> runtime_reference result" where
  "runtime_from_dict v =
     bnd (exec_closed v REFERENCE_FIELDS) (\<lambda>data.
     if \<not> py_eq (getv data ''schema_version'') (PInt EXECUTION_SCHEMA_VERSION) then Inl ExecutorRequestError
     else if \<not> py_eq (getv data ''kind'') (PStr ''repository-blob-sha256'') then Inl ExecutorRequestError
     else bnd (exec_positive_integer (getv data ''repository_id'')) (\<lambda>rid.
     if rid \<noteq> DEV_REPOSITORY_ID then Inl ExecutorRequestError
     else if \<not> py_eq (getv data ''path'') (PStr RUNTIME_CONFIGURATION_PATH) then Inl ExecutorRequestError
     else bnd (exec_source_sha (getv data ''reviewed_commit'')) (\<lambda>commit.
          bnd (exec_sha256 (getv data ''sha256'')) (\<lambda>sha.
            Inr \<lparr>rr_schema_version = EXECUTION_SCHEMA_VERSION, rr_kind = ''repository-blob-sha256'',
                 rr_repository_id = rid, rr_reviewed_commit = commit,
                 rr_path = RUNTIME_CONFIGURATION_PATH, rr_sha256 = sha\<rparr>))))"

record secrets_reference =
  sr_schema_version :: int
  sr_kind :: string
  sr_reason :: string

text \<open>The field \<open>required\<close> is the empty tuple and carries nothing.\<close>

definition secrets_from_dict :: "pyval \<Rightarrow> secrets_reference result" where
  "secrets_from_dict v =
     bnd (exec_closed v SECRETS_REFERENCE_FIELDS) (\<lambda>data.
     if \<not> py_eq (getv data ''schema_version'') (PInt EXECUTION_SCHEMA_VERSION) \<or>
        \<not> py_eq (getv data ''kind'') (PStr ''none'') \<or> \<not> py_eq (getv data ''required'') (PList []) \<or>
        \<not> py_eq (getv data ''reason'') (PStr NO_SECRETS_REASON)
     then Inl ExecutorRequestError
     else Inr \<lparr>sr_schema_version = EXECUTION_SCHEMA_VERSION, sr_kind = ''none'', sr_reason = NO_SECRETS_REASON\<rparr>)"

definition secrets_to_dict :: "secrets_reference \<Rightarrow> pyval" where
  "secrets_to_dict r = PDict
     [(''schema_version'', PInt (sr_schema_version r)), (''kind'', PStr (sr_kind r)),
      (''required'', PList []), (''reason'', PStr (sr_reason r))]"

record ingress_file =
  if_path :: string
  if_sha256 :: string

definition ingress_file_from_dict :: "pyval \<Rightarrow> ingress_file result" where
  "ingress_file_from_dict v =
     bnd (exec_closed v INGRESS_FILE_FIELDS) (\<lambda>data.
     case getv data ''path'' of
       PStr p \<Rightarrow> bnd (exec_sha256 (getv data ''sha256'')) (\<lambda>sha. Inr \<lparr>if_path = p, if_sha256 = sha\<rparr>)
     | _ \<Rightarrow> Inl ExecutorRequestError)"

record ingress_reference =
  ir_schema_version :: int
  ir_kind :: string
  ir_repository_id :: int
  ir_reviewed_commit :: string
  ir_files :: "ingress_file list"
  ir_loopback_address :: string
  ir_loopback_port :: int
  ir_public_origin :: string

definition ingress_from_dict :: "pyval \<Rightarrow> ingress_reference result" where
  "ingress_from_dict v =
     bnd (exec_closed v INGRESS_REFERENCE_FIELDS) (\<lambda>data.
     if \<not> py_eq (getv data ''schema_version'') (PInt EXECUTION_SCHEMA_VERSION) then Inl ExecutorRequestError
     else if \<not> py_eq (getv data ''kind'') (PStr ''repository-file-set-sha256'') then Inl ExecutorRequestError
     else bnd (exec_positive_integer (getv data ''repository_id'')) (\<lambda>rid.
     if rid \<noteq> DEV_REPOSITORY_ID then Inl ExecutorRequestError
     else case getv data ''files'' of
       PList raw \<Rightarrow>
         bnd (traverse ingress_file_from_dict raw) (\<lambda>files.
         if map if_path files \<noteq> sort (map if_path files) \<or> \<not> distinct (map if_path files)
         then Inl ExecutorRequestError
         else if map if_path files \<noteq> INGRESS_PATHS then Inl ExecutorRequestError
         else bnd (catch_as [TypeError, ValueError] ExecutorRequestError
                     (ip_address (getv data ''loopback_address''))) (\<lambda>address.
         if address \<noteq> DEV_LOOPBACK_ADDRESS \<or> \<not> is_loopback address then Inl ExecutorRequestError
         else bnd (exec_positive_integer (getv data ''loopback_port'')) (\<lambda>port.
         if port \<noteq> DEV_LOOPBACK_PORT then Inl ExecutorRequestError
         else if \<not> py_eq (getv data ''public_origin'') (PStr DEV_PUBLIC_ORIGIN) then Inl ExecutorRequestError
         else if urlsplit DEV_PUBLIC_ORIGIN \<noteq> (''https'', ''canary-dev.omnilyzer.ai'', []) then Inl ExecutorRequestError
         else bnd (exec_source_sha (getv data ''reviewed_commit'')) (\<lambda>commit.
           Inr \<lparr>ir_schema_version = EXECUTION_SCHEMA_VERSION, ir_kind = ''repository-file-set-sha256'',
                ir_repository_id = rid, ir_reviewed_commit = commit, ir_files = files,
                ir_loopback_address = address, ir_loopback_port = port,
                ir_public_origin = DEV_PUBLIC_ORIGIN\<rparr>))))
     | _ \<Rightarrow> Inl ExecutorRequestError))"

section \<open>Executor requests\<close>

record executor_request =
  xr_schema_version :: int
  xr_operation :: string
  xr_stage :: string
  xr_release_version :: string
  xr_source_sha :: string
  xr_oci_origin :: string
  xr_oci_repository :: string
  xr_manifest_digest :: string
  xr_exact_image_reference :: string
  xr_release_manifest_sha256 :: string
  xr_provenance_sha256 :: string
  xr_originating_release_run_id :: int
  xr_promotion_request_sha256 :: string
  xr_requested_by_actor_id :: int
  xr_github_repository_id :: int
  xr_github_workflow_ref :: string
  xr_github_workflow_sha :: string
  xr_github_run_id :: int
  xr_github_run_attempt :: int
  xr_oidc_jti :: string
  xr_oidc_issued_at :: int
  xr_oidc_expires_at :: int
  xr_runtime :: runtime_reference
  xr_secrets :: secrets_reference
  xr_ingress :: ingress_reference

text \<open>The identity part of \<open>from_dict\<close>: everything before the constructor call.\<close>

definition exec_image :: "pydict \<Rightarrow> (string \<times> string \<times> string \<times> string) result" where
  "exec_image data =
     bnd (catch_as [DeploymentPolicyError] ExecutorRequestError
       (bnd (validate_semver (getv data ''release_version'')) (\<lambda>version.
        bnd (validate_source_sha (getv data ''source_sha'')) (\<lambda>sha.
        bnd (validate_digest (getv data ''manifest_digest'')) (\<lambda>digest. Inr (version, sha, digest))))))
     (\<lambda>(version, sha, digest).
     if \<not> py_eq (getv data ''oci_origin'') (PStr APPROVED_OCI_ORIGIN) then Inl ExecutorRequestError
     else if \<not> py_eq (getv data ''oci_repository'') (PStr DEV_OCI_REPOSITORY) then Inl ExecutorRequestError
     else bnd (exact_image_reference (PStr DEV_OCI_REPOSITORY) (PStr digest)) (\<lambda>image.
     if \<not> py_eq (getv data ''exact_image_reference'') (PStr image) then Inl ExecutorRequestError
     else Inr (version, sha, digest, image)))"

definition exec_token :: "pydict \<Rightarrow> (int \<times> int \<times> int \<times> string) result" where
  "exec_token data =
     bnd (exec_positive_integer (getv data ''github_repository_id'')) (\<lambda>rid.
     if rid \<noteq> DEV_REPOSITORY_ID then Inl ExecutorRequestError
     else if \<not> py_eq (getv data ''github_workflow_ref'') (PStr DEV_WORKFLOW_REF) then Inl ExecutorRequestError
     else bnd (nonneg_int ExecutorRequestError (getv data ''oidc_issued_at'')) (\<lambda>issued.
          bnd (nonneg_int ExecutorRequestError (getv data ''oidc_expires_at'')) (\<lambda>expires.
     if \<not> (0 < expires - issued \<and> expires - issued \<le> MAX_TOKEN_LIFETIME_SECONDS) then Inl ExecutorRequestError
     else bnd (catch_as [DeploymentPolicyError] ExecutorRequestError (validate_jti (getv data ''oidc_jti''))) (\<lambda>jti.
       Inr (rid, issued, expires, jti)))))"

definition exec_from_dict :: "pyval \<Rightarrow> executor_request result" where
  "exec_from_dict v =
     bnd (exec_closed v EXECUTOR_REQUEST_FIELDS) (\<lambda>data.
     if \<not> py_eq (getv data ''schema_version'') (PInt EXECUTION_SCHEMA_VERSION) then Inl ExecutorRequestError
     else if \<not> in_strings (getv data ''operation'') ALLOWED_OPERATIONS then Inl ExecutorRequestError
     else if \<not> py_eq (getv data ''stage'') (PStr DEV_STAGE) then Inl ExecutorRequestError
     else
     bnd (exec_image data) (\<lambda>(version, sha, digest, image).
     bnd (exec_token data) (\<lambda>(rid, issued, expires, jti).
     bnd (str_of (getv data ''operation'')) (\<lambda>operation.
     bnd (exec_sha256 (getv data ''release_manifest_sha256'')) (\<lambda>manifest_sha.
     bnd (exec_sha256 (getv data ''provenance_sha256'')) (\<lambda>provenance_sha.
     bnd (exec_positive_integer (getv data ''originating_release_run_id'')) (\<lambda>release_run.
     bnd (exec_sha256 (getv data ''promotion_request_sha256'')) (\<lambda>promotion_sha.
     bnd (exec_positive_integer (getv data ''requested_by_actor_id'')) (\<lambda>actor.
     bnd (exec_source_sha (getv data ''github_workflow_sha'')) (\<lambda>workflow_sha.
     bnd (exec_positive_integer (getv data ''github_run_id'')) (\<lambda>run_id.
     bnd (exec_positive_integer (getv data ''github_run_attempt'')) (\<lambda>run_attempt.
     bnd (runtime_from_dict (getv data ''runtime_configuration_reference'')) (\<lambda>runtime.
     bnd (secrets_from_dict (getv data ''secrets_reference'')) (\<lambda>secrets.
     bnd (ingress_from_dict (getv data ''ingress_reference'')) (\<lambda>ingress.
       Inr \<lparr>xr_schema_version = EXECUTION_SCHEMA_VERSION, xr_operation = operation, xr_stage = DEV_STAGE,
            xr_release_version = version, xr_source_sha = sha, xr_oci_origin = APPROVED_OCI_ORIGIN,
            xr_oci_repository = DEV_OCI_REPOSITORY, xr_manifest_digest = digest,
            xr_exact_image_reference = image, xr_release_manifest_sha256 = manifest_sha,
            xr_provenance_sha256 = provenance_sha, xr_originating_release_run_id = release_run,
            xr_promotion_request_sha256 = promotion_sha, xr_requested_by_actor_id = actor,
            xr_github_repository_id = rid, xr_github_workflow_ref = DEV_WORKFLOW_REF,
            xr_github_workflow_sha = workflow_sha, xr_github_run_id = run_id,
            xr_github_run_attempt = run_attempt, xr_oidc_jti = jti, xr_oidc_issued_at = issued,
            xr_oidc_expires_at = expires, xr_runtime = runtime, xr_secrets = secrets,
            xr_ingress = ingress\<rparr>)))))))))))))))"

definition runtime_to_dict :: "runtime_reference \<Rightarrow> pyval" where
  "runtime_to_dict r = PDict
     [(''schema_version'', PInt (rr_schema_version r)), (''kind'', PStr (rr_kind r)),
      (''repository_id'', PInt (rr_repository_id r)), (''reviewed_commit'', PStr (rr_reviewed_commit r)),
      (''path'', PStr (rr_path r)), (''sha256'', PStr (rr_sha256 r))]"

definition ingress_file_to_dict :: "ingress_file \<Rightarrow> pyval" where
  "ingress_file_to_dict f = PDict [(''path'', PStr (if_path f)), (''sha256'', PStr (if_sha256 f))]"

definition ingress_to_dict :: "ingress_reference \<Rightarrow> pyval" where
  "ingress_to_dict r = PDict
     [(''schema_version'', PInt (ir_schema_version r)), (''kind'', PStr (ir_kind r)),
      (''repository_id'', PInt (ir_repository_id r)), (''reviewed_commit'', PStr (ir_reviewed_commit r)),
      (''files'', PList (map ingress_file_to_dict (ir_files r))),
      (''loopback_address'', PStr (ir_loopback_address r)), (''loopback_port'', PInt (ir_loopback_port r)),
      (''public_origin'', PStr (ir_public_origin r))]"

definition exec_to_dict :: "executor_request \<Rightarrow> pyval" where
  "exec_to_dict r = PDict
     [(''schema_version'', PInt (xr_schema_version r)), (''operation'', PStr (xr_operation r)),
      (''stage'', PStr (xr_stage r)), (''release_version'', PStr (xr_release_version r)),
      (''source_sha'', PStr (xr_source_sha r)), (''oci_origin'', PStr (xr_oci_origin r)),
      (''oci_repository'', PStr (xr_oci_repository r)), (''manifest_digest'', PStr (xr_manifest_digest r)),
      (''exact_image_reference'', PStr (xr_exact_image_reference r)),
      (''release_manifest_sha256'', PStr (xr_release_manifest_sha256 r)),
      (''provenance_sha256'', PStr (xr_provenance_sha256 r)),
      (''originating_release_run_id'', PInt (xr_originating_release_run_id r)),
      (''promotion_request_sha256'', PStr (xr_promotion_request_sha256 r)),
      (''requested_by_actor_id'', PInt (xr_requested_by_actor_id r)),
      (''github_repository_id'', PInt (xr_github_repository_id r)),
      (''github_workflow_ref'', PStr (xr_github_workflow_ref r)),
      (''github_workflow_sha'', PStr (xr_github_workflow_sha r)),
      (''github_run_id'', PInt (xr_github_run_id r)), (''github_run_attempt'', PInt (xr_github_run_attempt r)),
      (''oidc_jti'', PStr (xr_oidc_jti r)), (''oidc_issued_at'', PInt (xr_oidc_issued_at r)),
      (''oidc_expires_at'', PInt (xr_oidc_expires_at r)),
      (''runtime_configuration_reference'', runtime_to_dict (xr_runtime r)),
      (''secrets_reference'', secrets_to_dict (xr_secrets r)),
      (''ingress_reference'', ingress_to_dict (xr_ingress r))]"

definition exec_canonical_bytes :: "executor_request \<Rightarrow> string" where
  "exec_canonical_bytes r = canonical_bytes (exec_to_dict r)"

definition exec_request_sha256 :: "executor_request \<Rightarrow> string" where
  "exec_request_sha256 r = sha256_hex (exec_canonical_bytes r)"

definition bind_request_to_identity :: "executor_request \<Rightarrow> authorized_identity \<Rightarrow> unit result" where
  "bind_request_to_identity request identity =
     (if \<not> (xr_requested_by_actor_id request = id_actor_id identity \<and>
            xr_github_repository_id request = id_repository_id identity \<and>
            xr_github_workflow_ref request = id_workflow_ref identity \<and>
            xr_github_workflow_sha request = id_workflow_sha identity \<and>
            xr_github_run_id request = id_run_id identity \<and>
            xr_github_run_attempt request = id_run_attempt identity \<and>
            xr_oidc_jti request = id_jti identity \<and>
            xr_oidc_issued_at request = id_issued_at identity \<and>
            xr_oidc_expires_at request = id_expires_at identity)
      then Inl ExecutorRequestError else Inr ())"

definition request_hooks :: json_hooks where
  "request_hooks = \<lparr>pairs_hook = unique_pairs ExecutorRequestError, constant_hook = float_constant\<rparr>"

definition parse_canonical_request :: "string \<Rightarrow> executor_request result" where
  "parse_canonical_request raw =
     (if raw = [] \<or> MAX_CANONICAL_REQUEST_BYTES < length raw then Inl ExecutorRequestError
      else
      bnd (catch_as [UnicodeDecodeError, JSONDecodeError] ExecutorRequestError
             (bnd (ascii_decode raw) (json_loads request_hooks))) (\<lambda>decoded.
      bnd (exec_from_dict decoded) (\<lambda>request.
      if exec_canonical_bytes request \<noteq> raw then Inl ExecutorRequestError else Inr request)))"

section \<open>What the validators accept and raise\<close>

lemma exec_closed_Inr [py_simps]:
  "exec_closed v names = Inr d \<longleftrightarrow> v = PDict d \<and> set (keys d) = set names"
  by (cases v) (auto simp: exec_closed_def)

lemma exec_closed_PDict [simp]:
  "exec_closed (PDict d) names = (if set (keys d) = set names then Inr d else Inl ExecutorRequestError)"
  by (simp add: exec_closed_def)

lemma exec_positive_integer_Inr [py_simps]:
  "exec_positive_integer v = Inr i \<longleftrightarrow> v = PInt i \<and> 1 \<le> i \<and> i \<le> MAX_IDENTIFIER"
  by (cases v) (auto simp: exec_positive_integer_def)

lemma exec_sha256_Inr [py_simps]: "exec_sha256 v = Inr s \<longleftrightarrow> v = PStr s \<and> fullmatch SHA256_RE s"
  by (simp add: exec_sha256_def validate_sha256_Inr)

lemma exec_source_sha_Inr [py_simps]:
  "exec_source_sha v = Inr s \<longleftrightarrow>
     v = PStr s \<and> fullmatch SOURCE_SHA_RE s \<and> s \<noteq> replicate 40 (CHR ''0'')"
  by (simp add: exec_source_sha_def validate_source_sha_Inr)

lemma caught_policy: "caught e [DeploymentPolicyError] \<longleftrightarrow> e = DeploymentPolicyError \<or> DeploymentPolicyError \<in> set (superclasses e)"
  by (auto simp: caught_def isinstance_exn_def)

lemma raises_only_policy_as [raise_rules]:
  assumes "e' \<in> E" and "raises_only {DeploymentPolicyError} m"
  shows "raises_only E (catch_as [DeploymentPolicyError] e' m)"
  using assms(2) by (rule raises_only_catch_as) (auto simp: caught_policy assms(1))

lemma raises_only_exec [raise_rules]:
  assumes "ExecutorRequestError \<in> E"
  shows "raises_only E (exec_closed v f)" "raises_only E (exec_positive_integer v)"
    "raises_only E (exec_sha256 v)" "raises_only E (exec_source_sha v)"
    "raises_only E (nonneg_int ExecutorRequestError v)"
    "raises_only E (catch_as [DeploymentPolicyError] ExecutorRequestError (validate_jti v))"
proof -
  show "raises_only E (exec_closed v f)" "raises_only E (exec_positive_integer v)"
      "raises_only E (nonneg_int ExecutorRequestError v)"
    using assms by (auto simp: raises_only_def exec_closed_def exec_positive_integer_def nonneg_int_def
        split: pyval.splits if_splits)
  show "raises_only E (exec_sha256 v)" "raises_only E (exec_source_sha v)"
    unfolding exec_sha256_def exec_source_sha_def using assms by (auto intro!: raise_rules)
  show "raises_only E (catch_as [DeploymentPolicyError] ExecutorRequestError (validate_jti v))"
    by (rule raises_only_catch_as [of "{OIDCAuthorizationError}"])
      (auto intro!: raise_rules simp: caught_policy assms)
qed

section \<open>Well-formed references\<close>

definition wf_runtime :: "runtime_reference \<Rightarrow> bool" where
  "wf_runtime r \<longleftrightarrow>
     rr_schema_version r = EXECUTION_SCHEMA_VERSION \<and> rr_kind r = ''repository-blob-sha256'' \<and>
     rr_repository_id r = DEV_REPOSITORY_ID \<and> fullmatch SOURCE_SHA_RE (rr_reviewed_commit r) \<and>
     rr_reviewed_commit r \<noteq> replicate 40 (CHR ''0'') \<and> rr_path r = RUNTIME_CONFIGURATION_PATH \<and>
     fullmatch SHA256_RE (rr_sha256 r)"

definition runtime_items :: "pydict \<Rightarrow> runtime_reference \<Rightarrow> bool" where
  "runtime_items d r \<longleftrightarrow>
     set (keys d) = set REFERENCE_FIELDS \<and> py_eq (getv d ''schema_version'') (PInt EXECUTION_SCHEMA_VERSION) \<and>
     getv d ''kind'' = PStr (rr_kind r) \<and> getv d ''repository_id'' = PInt (rr_repository_id r) \<and>
     getv d ''reviewed_commit'' = PStr (rr_reviewed_commit r) \<and> getv d ''path'' = PStr (rr_path r) \<and>
     getv d ''sha256'' = PStr (rr_sha256 r)"

lemma runtime_from_dict_Inr [py_simps]:
  "runtime_from_dict v = Inr r \<longleftrightarrow> wf_runtime r \<and> (\<exists>d. v = PDict d \<and> runtime_items d r)"
  by (cases r) (auto simp: runtime_from_dict_def py_simps wf_runtime_def runtime_items_def
      DEV_REPOSITORY_ID_def MAX_IDENTIFIER_def split: if_splits)

definition wf_secrets :: "secrets_reference \<Rightarrow> bool" where
  "wf_secrets r \<longleftrightarrow>
     sr_schema_version r = EXECUTION_SCHEMA_VERSION \<and> sr_kind r = ''none'' \<and> sr_reason r = NO_SECRETS_REASON"

definition secrets_items :: "pydict \<Rightarrow> bool" where
  "secrets_items d \<longleftrightarrow>
     set (keys d) = set SECRETS_REFERENCE_FIELDS \<and>
     py_eq (getv d ''schema_version'') (PInt EXECUTION_SCHEMA_VERSION) \<and>
     getv d ''kind'' = PStr ''none'' \<and> getv d ''required'' = PList [] \<and>
     getv d ''reason'' = PStr NO_SECRETS_REASON"

lemma secrets_from_dict_Inr [py_simps]:
  "secrets_from_dict v = Inr r \<longleftrightarrow> wf_secrets r \<and> (\<exists>d. v = PDict d \<and> secrets_items d)"
  by (cases r) (auto simp: secrets_from_dict_def py_simps wf_secrets_def secrets_items_def split: if_splits)

definition ingress_file_items :: "pydict \<Rightarrow> ingress_file \<Rightarrow> bool" where
  "ingress_file_items d f \<longleftrightarrow>
     set (keys d) = set INGRESS_FILE_FIELDS \<and> getv d ''path'' = PStr (if_path f) \<and>
     getv d ''sha256'' = PStr (if_sha256 f) \<and> fullmatch SHA256_RE (if_sha256 f)"

lemma ingress_file_from_dict_Inr [py_simps]:
  "ingress_file_from_dict v = Inr f \<longleftrightarrow> (\<exists>d. v = PDict d \<and> ingress_file_items d f)"
  by (cases f) (auto simp: ingress_file_from_dict_def py_simps ingress_file_items_def)

definition wf_ingress :: "ingress_reference \<Rightarrow> bool" where
  "wf_ingress r \<longleftrightarrow>
     ir_schema_version r = EXECUTION_SCHEMA_VERSION \<and> ir_kind r = ''repository-file-set-sha256'' \<and>
     ir_repository_id r = DEV_REPOSITORY_ID \<and> fullmatch SOURCE_SHA_RE (ir_reviewed_commit r) \<and>
     ir_reviewed_commit r \<noteq> replicate 40 (CHR ''0'') \<and> map if_path (ir_files r) = INGRESS_PATHS \<and>
     list_all (\<lambda>f. fullmatch SHA256_RE (if_sha256 f)) (ir_files r) \<and>
     ir_loopback_address r = DEV_LOOPBACK_ADDRESS \<and> ir_loopback_port r = DEV_LOOPBACK_PORT \<and>
     ir_public_origin r = DEV_PUBLIC_ORIGIN"

definition ingress_items :: "pydict \<Rightarrow> ingress_reference \<Rightarrow> bool" where
  "ingress_items d r \<longleftrightarrow>
     set (keys d) = set INGRESS_REFERENCE_FIELDS \<and>
     py_eq (getv d ''schema_version'') (PInt EXECUTION_SCHEMA_VERSION) \<and>
     getv d ''kind'' = PStr (ir_kind r) \<and> getv d ''repository_id'' = PInt (ir_repository_id r) \<and>
     getv d ''reviewed_commit'' = PStr (ir_reviewed_commit r) \<and>
     (\<exists>raw. getv d ''files'' = PList raw \<and> traverse ingress_file_from_dict raw = Inr (ir_files r)) \<and>
     ip_address (getv d ''loopback_address'') = Inr (ir_loopback_address r) \<and>
     getv d ''loopback_port'' = PInt (ir_loopback_port r) \<and>
     getv d ''public_origin'' = PStr (ir_public_origin r)"

lemma ingress_paths_sorted: "sort INGRESS_PATHS = INGRESS_PATHS" "distinct INGRESS_PATHS"
  by code_simp+

lemma dev_constants_ok:
  "is_loopback DEV_LOOPBACK_ADDRESS" "urlsplit DEV_PUBLIC_ORIGIN = (''https'', ''canary-dev.omnilyzer.ai'', [])"
  "ip_address (PStr DEV_LOOPBACK_ADDRESS) = Inr DEV_LOOPBACK_ADDRESS"
  by code_simp+

lemma traverse_files_wf:
  "traverse ingress_file_from_dict raw = Inr fs \<Longrightarrow> list_all (\<lambda>f. fullmatch SHA256_RE (if_sha256 f)) fs"
  by (auto simp: traverse_Inr_iff list_all2_conv_all_nth list_all_length ingress_file_from_dict_Inr
      ingress_file_items_def)

lemma ingress_from_dict_Inr [py_simps]:
  "ingress_from_dict v = Inr r \<longleftrightarrow> wf_ingress r \<and> (\<exists>d. v = PDict d \<and> ingress_items d r)"
  (is "?L \<longleftrightarrow> ?R")
proof
  assume ?L
  then show ?R
    by (cases r) (auto simp: ingress_from_dict_def exec_closed_Inr exec_positive_integer_Inr
        exec_source_sha_Inr wf_ingress_def ingress_items_def case_PList_Inr dest: traverse_files_wf
        split: if_splits)
next
  assume ?R
  then show ?L
    using ingress_paths_sorted dev_constants_ok
    by (cases r) (auto simp: ingress_from_dict_def exec_closed_Inr exec_positive_integer_Inr
        exec_source_sha_Inr wf_ingress_def ingress_items_def DEV_REPOSITORY_ID_def MAX_IDENTIFIER_def
        DEV_LOOPBACK_PORT_def)
qed

section \<open>Well-formed requests\<close>

definition wf_exec_image :: "executor_request \<Rightarrow> bool" where
  "wf_exec_image r \<longleftrightarrow>
     fullmatch SEMVER_RE (xr_release_version r) \<and> fullmatch SOURCE_SHA_RE (xr_source_sha r) \<and>
     xr_source_sha r \<noteq> replicate 40 (CHR ''0'') \<and> fullmatch DIGEST_RE (xr_manifest_digest r) \<and>
     xr_oci_origin r = APPROVED_OCI_ORIGIN \<and> xr_oci_repository r = DEV_OCI_REPOSITORY \<and>
     xr_exact_image_reference r = APPROVED_OCI_HOST @ ''/'' @ DEV_OCI_REPOSITORY @ ''@'' @ xr_manifest_digest r"

definition wf_exec_token :: "executor_request \<Rightarrow> bool" where
  "wf_exec_token r \<longleftrightarrow>
     xr_github_repository_id r = DEV_REPOSITORY_ID \<and> xr_github_workflow_ref r = DEV_WORKFLOW_REF \<and>
     0 \<le> xr_oidc_issued_at r \<and> xr_oidc_issued_at r < xr_oidc_expires_at r \<and>
     xr_oidc_expires_at r - xr_oidc_issued_at r \<le> MAX_TOKEN_LIFETIME_SECONDS \<and> jti_ok (xr_oidc_jti r)"

definition identifier_ok :: "int \<Rightarrow> bool" where
  "identifier_ok i \<longleftrightarrow> 1 \<le> i \<and> i \<le> MAX_IDENTIFIER"

definition wf_exec :: "executor_request \<Rightarrow> bool" where
  "wf_exec r \<longleftrightarrow>
     xr_schema_version r = EXECUTION_SCHEMA_VERSION \<and> xr_operation r \<in> set ALLOWED_OPERATIONS \<and>
     xr_stage r = DEV_STAGE \<and> wf_exec_image r \<and> wf_exec_token r \<and>
     fullmatch SHA256_RE (xr_release_manifest_sha256 r) \<and> fullmatch SHA256_RE (xr_provenance_sha256 r) \<and>
     fullmatch SHA256_RE (xr_promotion_request_sha256 r) \<and>
     identifier_ok (xr_originating_release_run_id r) \<and> identifier_ok (xr_requested_by_actor_id r) \<and>
     identifier_ok (xr_github_run_id r) \<and> identifier_ok (xr_github_run_attempt r) \<and>
     fullmatch SOURCE_SHA_RE (xr_github_workflow_sha r) \<and> xr_github_workflow_sha r \<noteq> replicate 40 (CHR ''0'') \<and>
     wf_runtime (xr_runtime r) \<and> wf_secrets (xr_secrets r) \<and> wf_ingress (xr_ingress r)"

definition exec_image_items :: "pydict \<Rightarrow> executor_request \<Rightarrow> bool" where
  "exec_image_items d r \<longleftrightarrow>
     getv d ''release_version'' = PStr (xr_release_version r) \<and> getv d ''source_sha'' = PStr (xr_source_sha r) \<and>
     getv d ''manifest_digest'' = PStr (xr_manifest_digest r) \<and> getv d ''oci_origin'' = PStr (xr_oci_origin r) \<and>
     getv d ''oci_repository'' = PStr (xr_oci_repository r) \<and>
     getv d ''exact_image_reference'' = PStr (xr_exact_image_reference r)"

definition exec_token_items :: "pydict \<Rightarrow> executor_request \<Rightarrow> bool" where
  "exec_token_items d r \<longleftrightarrow>
     getv d ''github_repository_id'' = PInt (xr_github_repository_id r) \<and>
     getv d ''github_workflow_ref'' = PStr (xr_github_workflow_ref r) \<and>
     getv d ''oidc_issued_at'' = PInt (xr_oidc_issued_at r) \<and>
     getv d ''oidc_expires_at'' = PInt (xr_oidc_expires_at r) \<and> getv d ''oidc_jti'' = PStr (xr_oidc_jti r)"

definition exec_items :: "pydict \<Rightarrow> executor_request \<Rightarrow> bool" where
  "exec_items d r \<longleftrightarrow>
     set (keys d) = set EXECUTOR_REQUEST_FIELDS \<and>
     py_eq (getv d ''schema_version'') (PInt EXECUTION_SCHEMA_VERSION) \<and>
     getv d ''operation'' = PStr (xr_operation r) \<and> getv d ''stage'' = PStr (xr_stage r) \<and>
     exec_image_items d r \<and> exec_token_items d r \<and>
     getv d ''release_manifest_sha256'' = PStr (xr_release_manifest_sha256 r) \<and>
     getv d ''provenance_sha256'' = PStr (xr_provenance_sha256 r) \<and>
     getv d ''originating_release_run_id'' = PInt (xr_originating_release_run_id r) \<and>
     getv d ''promotion_request_sha256'' = PStr (xr_promotion_request_sha256 r) \<and>
     getv d ''requested_by_actor_id'' = PInt (xr_requested_by_actor_id r) \<and>
     getv d ''github_workflow_sha'' = PStr (xr_github_workflow_sha r) \<and>
     getv d ''github_run_id'' = PInt (xr_github_run_id r) \<and>
     getv d ''github_run_attempt'' = PInt (xr_github_run_attempt r) \<and>
     runtime_from_dict (getv d ''runtime_configuration_reference'') = Inr (xr_runtime r) \<and>
     secrets_from_dict (getv d ''secrets_reference'') = Inr (xr_secrets r) \<and>
     ingress_from_dict (getv d ''ingress_reference'') = Inr (xr_ingress r)"

lemma dev_repository_approved: "DEV_OCI_REPOSITORY \<in> set APPROVED_OCI_REPOSITORIES"
  by (simp add: DEV_OCI_REPOSITORY_def APPROVED_OCI_REPOSITORIES_def)

lemma exec_image_Inr:
  "exec_image d = Inr (version, sha, digest, img) \<longleftrightarrow>
     getv d ''release_version'' = PStr version \<and> fullmatch SEMVER_RE version \<and>
     getv d ''source_sha'' = PStr sha \<and> fullmatch SOURCE_SHA_RE sha \<and> sha \<noteq> replicate 40 (CHR ''0'') \<and>
     getv d ''manifest_digest'' = PStr digest \<and> fullmatch DIGEST_RE digest \<and>
     getv d ''oci_origin'' = PStr APPROVED_OCI_ORIGIN \<and> getv d ''oci_repository'' = PStr DEV_OCI_REPOSITORY \<and>
     img = APPROVED_OCI_HOST @ ''/'' @ DEV_OCI_REPOSITORY @ ''@'' @ digest \<and>
     getv d ''exact_image_reference'' = PStr img"
  using dev_repository_approved
  by (auto simp: exec_image_def validate_semver_Inr validate_source_sha_Inr validate_digest_Inr
      exact_image_reference_Inr)

lemma exec_token_Inr:
  "exec_token d = Inr (rid, issued, expires, jti) \<longleftrightarrow>
     getv d ''github_repository_id'' = PInt rid \<and> rid = DEV_REPOSITORY_ID \<and>
     getv d ''github_workflow_ref'' = PStr DEV_WORKFLOW_REF \<and>
     getv d ''oidc_issued_at'' = PInt issued \<and> 0 \<le> issued \<and> getv d ''oidc_expires_at'' = PInt expires \<and>
     issued < expires \<and> expires - issued \<le> MAX_TOKEN_LIFETIME_SECONDS \<and>
     getv d ''oidc_jti'' = PStr jti \<and> jti_ok jti"
  by (auto simp: exec_token_def exec_positive_integer_Inr nonneg_int_Inr validate_jti_Inr DEV_REPOSITORY_ID_def
      MAX_IDENTIFIER_def)

lemma exec_from_dict_Inr [py_simps]:
  "exec_from_dict v = Inr r \<longleftrightarrow> wf_exec r \<and> (\<exists>d. v = PDict d \<and> exec_items d r)"
  (is "?L \<longleftrightarrow> ?R")
proof
  assume L: ?L
  then obtain d where d: "v = PDict d" "set (keys d) = set EXECUTOR_REQUEST_FIELDS"
    by (auto simp: exec_from_dict_def exec_closed_Inr)
  have steps: "py_eq (getv d ''schema_version'') (PInt EXECUTION_SCHEMA_VERSION)"
      "in_strings (getv d ''operation'') ALLOWED_OPERATIONS" "getv d ''stage'' = PStr DEV_STAGE"
      "exec_image d = Inr (xr_release_version r, xr_source_sha r, xr_manifest_digest r, xr_exact_image_reference r)"
      "exec_token d = Inr (xr_github_repository_id r, xr_oidc_issued_at r, xr_oidc_expires_at r, xr_oidc_jti r)"
      "str_of (getv d ''operation'') = Inr (xr_operation r)"
      "exec_sha256 (getv d ''release_manifest_sha256'') = Inr (xr_release_manifest_sha256 r)"
      "exec_sha256 (getv d ''provenance_sha256'') = Inr (xr_provenance_sha256 r)"
      "exec_positive_integer (getv d ''originating_release_run_id'') = Inr (xr_originating_release_run_id r)"
      "exec_sha256 (getv d ''promotion_request_sha256'') = Inr (xr_promotion_request_sha256 r)"
      "exec_positive_integer (getv d ''requested_by_actor_id'') = Inr (xr_requested_by_actor_id r)"
      "exec_source_sha (getv d ''github_workflow_sha'') = Inr (xr_github_workflow_sha r)"
      "exec_positive_integer (getv d ''github_run_id'') = Inr (xr_github_run_id r)"
      "exec_positive_integer (getv d ''github_run_attempt'') = Inr (xr_github_run_attempt r)"
      "runtime_from_dict (getv d ''runtime_configuration_reference'') = Inr (xr_runtime r)"
      "secrets_from_dict (getv d ''secrets_reference'') = Inr (xr_secrets r)"
      "ingress_from_dict (getv d ''ingress_reference'') = Inr (xr_ingress r)"
      "xr_schema_version r = EXECUTION_SCHEMA_VERSION" "xr_stage r = DEV_STAGE"
      "xr_oci_origin r = APPROVED_OCI_ORIGIN" "xr_oci_repository r = DEV_OCI_REPOSITORY"
      "xr_github_workflow_ref r = DEV_WORKFLOW_REF"
    using L d by (auto simp: exec_from_dict_def split: if_splits)
  have refs: "wf_runtime (xr_runtime r)" "wf_secrets (xr_secrets r)" "wf_ingress (xr_ingress r)"
    using steps(15-17) by (simp_all only: runtime_from_dict_Inr secrets_from_dict_Inr ingress_from_dict_Inr)
  have wf: "wf_exec r"
    using steps refs by (simp add: exec_image_Inr exec_token_Inr exec_sha256_Inr exec_source_sha_Inr
        exec_positive_integer_Inr in_strings_iff str_of_Inr wf_exec_def wf_exec_image_def wf_exec_token_def
        identifier_ok_def)
  have "exec_items d r"
    using steps d by (simp add: exec_image_Inr exec_token_Inr exec_sha256_Inr exec_source_sha_Inr
        exec_positive_integer_Inr str_of_Inr exec_items_def exec_image_items_def exec_token_items_def)
  with wf d show ?R by blast
next
  assume ?R
  then obtain d where wf: "wf_exec r" and d: "v = PDict d" "exec_items d r" by blast
  have "exec_image d = Inr (xr_release_version r, xr_source_sha r, xr_manifest_digest r, xr_exact_image_reference r)"
      "exec_token d = Inr (DEV_REPOSITORY_ID, xr_oidc_issued_at r, xr_oidc_expires_at r, xr_oidc_jti r)"
    using wf d(2) by (auto simp: exec_image_Inr exec_token_Inr wf_exec_def wf_exec_image_def wf_exec_token_def
        exec_items_def exec_image_items_def exec_token_items_def)
  moreover have "exec_sha256 (getv d ''release_manifest_sha256'') = Inr (xr_release_manifest_sha256 r)"
      "exec_sha256 (getv d ''provenance_sha256'') = Inr (xr_provenance_sha256 r)"
      "exec_sha256 (getv d ''promotion_request_sha256'') = Inr (xr_promotion_request_sha256 r)"
      "exec_source_sha (getv d ''github_workflow_sha'') = Inr (xr_github_workflow_sha r)"
      "exec_positive_integer (getv d ''originating_release_run_id'') = Inr (xr_originating_release_run_id r)"
      "exec_positive_integer (getv d ''requested_by_actor_id'') = Inr (xr_requested_by_actor_id r)"
      "exec_positive_integer (getv d ''github_run_id'') = Inr (xr_github_run_id r)"
      "exec_positive_integer (getv d ''github_run_attempt'') = Inr (xr_github_run_attempt r)"
      "str_of (getv d ''operation'') = Inr (xr_operation r)"
      "in_strings (getv d ''operation'') ALLOWED_OPERATIONS"
    using wf d(2) by (auto simp: exec_sha256_Inr exec_source_sha_Inr exec_positive_integer_Inr str_of_Inr
        in_strings_iff wf_exec_def identifier_ok_def exec_items_def)
  ultimately show ?L
    using wf d by (cases r) (simp add: exec_from_dict_def wf_exec_def wf_exec_image_def wf_exec_token_def
        exec_items_def exec_closed_def)
qed

section \<open>Round trips\<close>

lemma runtime_canon: "wf_runtime r \<Longrightarrow> runtime_from_dict (canon (runtime_to_dict r)) = Inr r"
proof -
  let ?d = "[(''schema_version'', PInt (rr_schema_version r)), (''kind'', PStr (rr_kind r)),
      (''repository_id'', PInt (rr_repository_id r)), (''reviewed_commit'', PStr (rr_reviewed_commit r)),
      (''path'', PStr (rr_path r)), (''sha256'', PStr (rr_sha256 r))]"
  assume wf: "wf_runtime r"
  have "distinct (keys ?d)" "runtime_items ?d r"
    using wf by (simp_all add: keys_def runtime_items_def REFERENCE_FIELDS_def getv_def wf_runtime_def py_eq_int)
  then have "runtime_items (csort ?d) r" by (simp add: runtime_items_def canon_simps)
  with wf show ?thesis by (simp add: runtime_from_dict_Inr runtime_to_dict_def canon_PDict del: canon.simps)
qed

lemma secrets_canon: "wf_secrets r \<Longrightarrow> secrets_from_dict (canon (secrets_to_dict r)) = Inr r"
proof -
  let ?d = "[(''schema_version'', PInt (sr_schema_version r)), (''kind'', PStr (sr_kind r)),
      (''required'', PList []), (''reason'', PStr (sr_reason r))]"
  assume wf: "wf_secrets r"
  have "distinct (keys ?d)" "secrets_items ?d"
    using wf by (simp_all add: keys_def secrets_items_def SECRETS_REFERENCE_FIELDS_def getv_def wf_secrets_def py_eq_int)
  then have "secrets_items (csort ?d)" by (simp add: secrets_items_def canon_simps)
  with wf show ?thesis by (simp add: secrets_from_dict_Inr secrets_to_dict_def canon_PDict del: canon.simps)
qed

lemma ingress_file_canon:
  "fullmatch SHA256_RE (if_sha256 f) \<Longrightarrow> ingress_file_from_dict (canon (ingress_file_to_dict f)) = Inr f"
proof -
  let ?d = "[(''path'', PStr (if_path f)), (''sha256'', PStr (if_sha256 f))]"
  assume "fullmatch SHA256_RE (if_sha256 f)"
  then have "distinct (keys ?d)" "ingress_file_items ?d f"
    by (simp_all add: keys_def ingress_file_items_def INGRESS_FILE_FIELDS_def getv_def)
  then have "ingress_file_items (csort ?d) f" by (simp add: ingress_file_items_def canon_simps)
  then show ?thesis
    by (simp add: ingress_file_from_dict_Inr ingress_file_to_dict_def canon_PDict del: canon.simps)
qed

lemma ingress_canon: "wf_ingress r \<Longrightarrow> ingress_from_dict (canon (ingress_to_dict r)) = Inr r"
proof -
  assume wf: "wf_ingress r"
  obtain d where d: "ingress_to_dict r = PDict d" "distinct (keys d)" "set (keys d) = set INGRESS_REFERENCE_FIELDS"
      "getv d ''schema_version'' = PInt (ir_schema_version r)" "getv d ''kind'' = PStr (ir_kind r)"
      "getv d ''repository_id'' = PInt (ir_repository_id r)"
      "getv d ''reviewed_commit'' = PStr (ir_reviewed_commit r)"
      "getv d ''files'' = PList (map ingress_file_to_dict (ir_files r))"
      "getv d ''loopback_address'' = PStr (ir_loopback_address r)"
      "getv d ''loopback_port'' = PInt (ir_loopback_port r)" "getv d ''public_origin'' = PStr (ir_public_origin r)"
    by (simp add: ingress_to_dict_def keys_def INGRESS_REFERENCE_FIELDS_def getv_def)
  have "traverse ingress_file_from_dict (map (\<lambda>f. canon (ingress_file_to_dict f)) (ir_files r)) = Inr (ir_files r)"
    using wf by (intro traverse_map_Inr ingress_file_canon) (auto simp: wf_ingress_def list_all_iff)
  then have "ingress_items (csort d) r"
    using d wf dev_constants_ok(3)
    by (simp add: ingress_items_def canon_simps wf_ingress_def py_eq_int comp_def)
  with wf d(1) show ?thesis by (simp add: ingress_from_dict_Inr canon_PDict del: canon.simps)
qed

text \<open>The same without the change of key order.\<close>

lemma runtime_accepted: "wf_runtime r \<Longrightarrow> runtime_from_dict (runtime_to_dict r) = Inr r"
  by (simp add: runtime_from_dict_Inr runtime_to_dict_def runtime_items_def keys_def REFERENCE_FIELDS_def getv_def
      wf_runtime_def py_eq_int)

lemma secrets_accepted: "wf_secrets r \<Longrightarrow> secrets_from_dict (secrets_to_dict r) = Inr r"
  by (simp add: secrets_from_dict_Inr secrets_to_dict_def secrets_items_def keys_def SECRETS_REFERENCE_FIELDS_def
      getv_def wf_secrets_def py_eq_int)

lemma ingress_file_accepted:
  "fullmatch SHA256_RE (if_sha256 f) \<Longrightarrow> ingress_file_from_dict (ingress_file_to_dict f) = Inr f"
  by (simp add: ingress_file_from_dict_Inr ingress_file_to_dict_def ingress_file_items_def keys_def
      INGRESS_FILE_FIELDS_def getv_def)

lemma ingress_accepted: "wf_ingress r \<Longrightarrow> ingress_from_dict (ingress_to_dict r) = Inr r"
proof -
  assume wf: "wf_ingress r"
  then have "traverse ingress_file_from_dict (map ingress_file_to_dict (ir_files r)) = Inr (ir_files r)"
    by (intro traverse_map_Inr ingress_file_accepted) (auto simp: wf_ingress_def list_all_iff)
  with wf dev_constants_ok(3) show ?thesis
    by (simp add: ingress_from_dict_Inr ingress_to_dict_def ingress_items_def keys_def INGRESS_REFERENCE_FIELDS_def
        getv_def wf_ingress_def py_eq_int)
qed

lemma exec_to_dict_getv:
  obtains d where "exec_to_dict r = PDict d" "distinct (keys d)" "set (keys d) = set EXECUTOR_REQUEST_FIELDS"
    "getv d ''schema_version'' = PInt (xr_schema_version r)" "getv d ''operation'' = PStr (xr_operation r)"
    "getv d ''stage'' = PStr (xr_stage r)" "exec_image_items d r" "exec_token_items d r"
    "getv d ''release_manifest_sha256'' = PStr (xr_release_manifest_sha256 r)"
    "getv d ''provenance_sha256'' = PStr (xr_provenance_sha256 r)"
    "getv d ''originating_release_run_id'' = PInt (xr_originating_release_run_id r)"
    "getv d ''promotion_request_sha256'' = PStr (xr_promotion_request_sha256 r)"
    "getv d ''requested_by_actor_id'' = PInt (xr_requested_by_actor_id r)"
    "getv d ''github_workflow_sha'' = PStr (xr_github_workflow_sha r)"
    "getv d ''github_run_id'' = PInt (xr_github_run_id r)"
    "getv d ''github_run_attempt'' = PInt (xr_github_run_attempt r)"
    "getv d ''runtime_configuration_reference'' = runtime_to_dict (xr_runtime r)"
    "getv d ''secrets_reference'' = secrets_to_dict (xr_secrets r)"
    "getv d ''ingress_reference'' = ingress_to_dict (xr_ingress r)"
  by (simp add: exec_to_dict_def keys_def EXECUTOR_REQUEST_FIELDS_def getv_def exec_image_items_def
      exec_token_items_def)

lemma exec_from_dict_canon:
  assumes wf: "wf_exec r"
  shows "exec_from_dict (canon (exec_to_dict r)) = Inr r"
proof (rule exec_to_dict_getv [of r])
  fix d
  assume d: "exec_to_dict r = PDict d" "distinct (keys d)" "set (keys d) = set EXECUTOR_REQUEST_FIELDS"
    "getv d ''schema_version'' = PInt (xr_schema_version r)" "getv d ''operation'' = PStr (xr_operation r)"
    "getv d ''stage'' = PStr (xr_stage r)" "exec_image_items d r" "exec_token_items d r"
    "getv d ''release_manifest_sha256'' = PStr (xr_release_manifest_sha256 r)"
    "getv d ''provenance_sha256'' = PStr (xr_provenance_sha256 r)"
    "getv d ''originating_release_run_id'' = PInt (xr_originating_release_run_id r)"
    "getv d ''promotion_request_sha256'' = PStr (xr_promotion_request_sha256 r)"
    "getv d ''requested_by_actor_id'' = PInt (xr_requested_by_actor_id r)"
    "getv d ''github_workflow_sha'' = PStr (xr_github_workflow_sha r)"
    "getv d ''github_run_id'' = PInt (xr_github_run_id r)"
    "getv d ''github_run_attempt'' = PInt (xr_github_run_attempt r)"
    "getv d ''runtime_configuration_reference'' = runtime_to_dict (xr_runtime r)"
    "getv d ''secrets_reference'' = secrets_to_dict (xr_secrets r)"
    "getv d ''ingress_reference'' = ingress_to_dict (xr_ingress r)"
  have "exec_image_items (csort d) r" "exec_token_items (csort d) r"
    using d(2,7,8) by (simp_all add: exec_image_items_def exec_token_items_def canon_simps)
  then have "exec_items (csort d) r"
    using d wf by (simp add: exec_items_def canon_simps wf_exec_def runtime_canon secrets_canon ingress_canon
        py_eq_int)
  with wf d(1) show ?thesis by (simp add: exec_from_dict_Inr canon_PDict del: canon.simps)
qed

lemma identifier_fits: "identifier_ok i \<Longrightarrow> int_fits i"
  by (rule int_fits_64) (simp add: identifier_ok_def MAX_IDENTIFIER_def)

definition exec_times_fit :: "executor_request \<Rightarrow> bool" where
  "exec_times_fit r \<longleftrightarrow> int_fits (xr_oidc_issued_at r) \<and> int_fits (xr_oidc_expires_at r)"

lemma plain_exec_to_dict:
  assumes "wf_exec r" and "exec_times_fit r"
  shows "plain (exec_to_dict r)"
proof -
  have "plain (runtime_to_dict (xr_runtime r))" "plain (secrets_to_dict (xr_secrets r))"
      "plain (ingress_to_dict (xr_ingress r))"
    using assms(1) by (simp_all add: wf_exec_def wf_runtime_def wf_secrets_def wf_ingress_def
        runtime_to_dict_def secrets_to_dict_def ingress_to_dict_def ingress_file_to_dict_def int_fits_64
        EXECUTION_SCHEMA_VERSION_def DEV_REPOSITORY_ID_def DEV_LOOPBACK_PORT_def list_all_iff)
  then show ?thesis
    using assms by (simp add: exec_to_dict_def wf_exec_def wf_exec_token_def exec_times_fit_def identifier_fits
        int_fits_64 EXECUTION_SCHEMA_VERSION_def DEV_REPOSITORY_ID_def)
qed

lemma request_hooks_simps [simp]:
  "keeps_pairs request_hooks" "hooks_raise request_hooks {ExecutorRequestError}"
  by (auto simp: request_hooks_def hooks_raise_def unique_pairs_def float_constant_def keeps_pairs_def)

lemma parse_canonical_request_Inr:
  "parse_canonical_request raw = Inr r \<longleftrightarrow>
     raw \<noteq> [] \<and> length raw \<le> MAX_CANONICAL_REQUEST_BYTES \<and> list_all ascii raw \<and>
     (\<exists>v. json_loads request_hooks raw = Inr v \<and> exec_from_dict v = Inr r) \<and> raw = exec_canonical_bytes r"
  by (auto simp: parse_canonical_request_def ascii_decode_def)

lemma parse_canonical_roundtrip:
  assumes "wf_exec r" and "exec_times_fit r" and "length (exec_canonical_bytes r) \<le> MAX_CANONICAL_REQUEST_BYTES"
  shows "parse_canonical_request (exec_canonical_bytes r) = Inr r"
proof -
  have p: "plain (exec_to_dict r)" by (rule plain_exec_to_dict [OF assms(1,2)])
  have "json_loads request_hooks (exec_canonical_bytes r) = Inr (canon (exec_to_dict r))"
    unfolding exec_canonical_bytes_def by (rule canonical_loads [OF request_hooks_simps(1) p])
  moreover have "list_all ascii (exec_canonical_bytes r)" "exec_canonical_bytes r \<noteq> []"
    using json_dumps_ascii [OF p]
    by (simp_all add: exec_canonical_bytes_def canonical_bytes_def, simp add: ascii_def NEWLINE_def)
  ultimately show ?thesis
    using exec_from_dict_canon [OF assms(1)] assms(3) unfolding parse_canonical_request_Inr by blast
qed

section \<open>What parsing raises\<close>

lemma raises_only_case [raise_rules]:
  "e \<in> E \<Longrightarrow> (\<And>s. v = PStr s \<Longrightarrow> raises_only E (f s)) \<Longrightarrow> raises_only E (case v of PStr s \<Rightarrow> f s | _ \<Rightarrow> Inl e)"
  "e \<in> E \<Longrightarrow> (\<And>xs. v = PList xs \<Longrightarrow> raises_only E (g xs)) \<Longrightarrow> raises_only E (case v of PList xs \<Rightarrow> g xs | _ \<Rightarrow> Inl e)"
  by (cases v; simp)+

lemma raises_only_refs [raise_rules]:
  assumes E: "ExecutorRequestError \<in> E"
  shows "raises_only E (runtime_from_dict v)" "raises_only E (secrets_from_dict v)"
    "raises_only E (ingress_from_dict v)"
proof -
  show "raises_only E (runtime_from_dict v)" "raises_only E (secrets_from_dict v)"
    unfolding runtime_from_dict_def secrets_from_dict_def using E by (auto intro!: raise_rules)
  have f: "raises_only E (ingress_file_from_dict x)" for x
    unfolding ingress_file_from_dict_def using E by (auto intro!: raise_rules)
  have ip: "raises_only E (catch_as [TypeError, ValueError] ExecutorRequestError (ip_address x))" for x
    by (rule raises_only_catch_as [of "{ValueError}"])
      (auto simp: raises_only_def ip_address_def caught_def isinstance_exn_def E split: pyval.splits if_splits)
  show "raises_only E (ingress_from_dict v)"
    unfolding ingress_from_dict_def using E by (auto intro!: raise_rules f ip)
qed

lemma exec_image_raises: "raises_only {ExecutorRequestError} (exec_image d)"
proof -
  let ?m = "bnd (validate_semver (getv d ''release_version'')) (\<lambda>version.
        bnd (validate_source_sha (getv d ''source_sha'')) (\<lambda>sha.
        bnd (validate_digest (getv d ''manifest_digest'')) (\<lambda>digest. Inr (version, sha, digest))))"
  have m: "raises_only {ExecutorRequestError} (catch_as [DeploymentPolicyError] ExecutorRequestError ?m)"
    by (auto intro!: raise_rules)
  have ref: "raises_only {ExecutorRequestError} (exact_image_reference (PStr DEV_OCI_REPOSITORY) (PStr g))"
    if "fullmatch DIGEST_RE g" for g
  proof -
    have "exact_image_reference (PStr DEV_OCI_REPOSITORY) (PStr g) =
        Inr (APPROVED_OCI_HOST @ ''/'' @ DEV_OCI_REPOSITORY @ ''@'' @ g)"
      using that dev_repository_approved by (simp add: exact_image_reference_Inr)
    then show ?thesis by simp
  qed
  show ?thesis
    unfolding exec_image_def
    by (rule raises_only_bnd [OF m])
      (auto intro!: raises_only_bnd raises_only_if ref simp: validate_digest_Inr validate_semver_Inr
        validate_source_sha_Inr)
qed

lemma exec_token_raises: "raises_only {ExecutorRequestError} (exec_token d)"
  unfolding exec_token_def by (auto intro!: raise_rules)

lemma exec_from_dict_raises: "raises_only {ExecutorRequestError} (exec_from_dict v)"
proof -
  have op: "raises_only {ExecutorRequestError} (str_of x)" if "in_strings x ALLOWED_OPERATIONS" for x
    using that by (auto simp: in_strings_iff str_of_def)
  show ?thesis
    unfolding exec_from_dict_def
    by (auto intro!: raise_rules op exec_image_raises exec_token_raises split: prod.splits)
qed

lemma parse_canonical_request_raises:
  "raises_only {ExecutorRequestError, ValueError} (parse_canonical_request raw)"
proof -
  have "raises_only {ExecutorRequestError, JSONDecodeError, ValueError, UnicodeDecodeError}
      (bnd (ascii_decode raw) (json_loads request_hooks))"
    using json_loads_Inl [OF request_hooks_simps(2)]
    by (auto simp: raises_only_def bnd_Inl_iff ascii_decode_def json_errors_def split: if_splits)
  then have "raises_only {ExecutorRequestError, ValueError}
      (catch_as [UnicodeDecodeError, JSONDecodeError] ExecutorRequestError
         (bnd (ascii_decode raw) (json_loads request_hooks)))"
    by (rule raises_only_catch_as) (auto simp: caught_def isinstance_exn_def)
  then show ?thesis
    unfolding parse_canonical_request_def
    by (auto intro!: raise_rules raises_only_mono [OF exec_from_dict_raises])
qed

lemma parse_long_number:
  assumes "max_str_digits < n"
  shows "parse_number (replicate n (CHR ''7'')) = Inl ValueError"
proof -
  have d: "is_digit (CHR ''7'')" by (simp add: is_digit_def rng_def)
  obtain m where n: "n = Suc m" using assms by (cases n) auto
  have "takeWhile is_digit (replicate n (CHR ''7'')) = replicate n (CHR ''7'')"
      "dropWhile is_digit (replicate n (CHR ''7'')) = []"
    by (auto simp: d takeWhile_eq_all_conv dropWhile_eq_Nil_conv)
  then show ?thesis
    using assms d by (simp add: parse_number_def n parse_frac_def parse_exp_def)
qed

lemma long_number_raises:
  assumes "max_str_digits < n" and "n \<le> MAX_CANONICAL_REQUEST_BYTES"
  shows "parse_canonical_request (replicate n (CHR ''7'')) = Inl ValueError"
proof -
  obtain m where n: "n = Suc m" using assms(1) by (cases n) auto
  have ws: "skip_ws (replicate n (CHR ''7'')) = replicate n (CHR ''7'')"
    by (simp add: n is_ws_def)
  have sw: "\<not> starts_with (c # p) (replicate n (CHR ''7''))" if "c \<noteq> CHR ''7''" for c p
    using that by (simp add: n starts_with_Cons)
  have "parse_value request_hooks (Suc k) (replicate n (CHR ''7'')) = parse_number (replicate n (CHR ''7''))" for k
    using sw by (simp add: n QUOTE_def)
  then have "json_loads request_hooks (replicate n (CHR ''7'')) = Inl ValueError"
    unfolding json_loads_def ws parse_long_number [OF assms(1)] by (simp add: parse_long_number [OF assms(1)])
  moreover have "list_all ascii (replicate n (CHR ''7''))" by (simp add: list_all_iff ascii_def)
  ultimately show ?thesis
    using assms(2) n by (simp add: parse_canonical_request_def ascii_decode_def caught_def isinstance_exn_def)
qed

section \<open>Properties\<close>

text \<open>A request of the canary.\<close>

definition sample_hash :: string where "sample_hash = replicate 64 (CHR ''c'')"
definition sample_commit :: string where "sample_commit = replicate 40 (CHR ''a'')"
definition sample_image_digest :: string where "sample_image_digest = ''sha256:'' @ replicate 64 (CHR ''b'')"

definition sample_exec :: executor_request where
  "sample_exec =
     \<lparr>xr_schema_version = 1, xr_operation = ''deploy'', xr_stage = ''dev'', xr_release_version = ''1.2.4'',
      xr_source_sha = sample_commit, xr_oci_origin = APPROVED_OCI_ORIGIN, xr_oci_repository = DEV_OCI_REPOSITORY,
      xr_manifest_digest = sample_image_digest,
      xr_exact_image_reference = APPROVED_OCI_HOST @ ''/'' @ DEV_OCI_REPOSITORY @ ''@'' @ sample_image_digest,
      xr_release_manifest_sha256 = sample_hash, xr_provenance_sha256 = sample_hash,
      xr_originating_release_run_id = 7, xr_promotion_request_sha256 = sample_hash, xr_requested_by_actor_id = 42,
      xr_github_repository_id = DEV_REPOSITORY_ID, xr_github_workflow_ref = DEV_WORKFLOW_REF,
      xr_github_workflow_sha = sample_commit, xr_github_run_id = 7, xr_github_run_attempt = 1,
      xr_oidc_jti = ''token-1'', xr_oidc_issued_at = 1000, xr_oidc_expires_at = 1300,
      xr_runtime = \<lparr>rr_schema_version = 1, rr_kind = ''repository-blob-sha256'',
        rr_repository_id = DEV_REPOSITORY_ID, rr_reviewed_commit = sample_commit,
        rr_path = RUNTIME_CONFIGURATION_PATH, rr_sha256 = sample_hash\<rparr>,
      xr_secrets = \<lparr>sr_schema_version = 1, sr_kind = ''none'', sr_reason = NO_SECRETS_REASON\<rparr>,
      xr_ingress = \<lparr>ir_schema_version = 1, ir_kind = ''repository-file-set-sha256'',
        ir_repository_id = DEV_REPOSITORY_ID, ir_reviewed_commit = sample_commit,
        ir_files = map (\<lambda>p. \<lparr>if_path = p, if_sha256 = sample_hash\<rparr>) INGRESS_PATHS,
        ir_loopback_address = DEV_LOOPBACK_ADDRESS, ir_loopback_port = DEV_LOOPBACK_PORT,
        ir_public_origin = DEV_PUBLIC_ORIGIN\<rparr>\<rparr>"

lemma sample_texts_ok:
  "fullmatch SEMVER_RE ''1.2.4''" "fullmatch SOURCE_SHA_RE sample_commit" "sample_commit \<noteq> replicate 40 (CHR ''0'')"
  "fullmatch DIGEST_RE sample_image_digest" "fullmatch SHA256_RE sample_hash" "jti_ok ''token-1''"
  by code_simp+

lemma sample_exec_wf: "wf_exec sample_exec" "exec_times_fit sample_exec"
  using sample_texts_ok
  by (simp_all add: sample_exec_def wf_exec_def wf_exec_image_def wf_exec_token_def exec_times_fit_def
      identifier_ok_def MAX_IDENTIFIER_def wf_runtime_def wf_secrets_def wf_ingress_def int_fits_64
      EXECUTION_SCHEMA_VERSION_def ALLOWED_OPERATIONS_def DEV_STAGE_def MAX_TOKEN_LIFETIME_SECONDS_def
      list_all_iff comp_def)

lemma sample_exec_short: "length (exec_canonical_bytes sample_exec) \<le> MAX_CANONICAL_REQUEST_BYTES"
proof -
  have "print_bound (exec_to_dict sample_exec) \<le> 60000"
    by (simp add: exec_to_dict_def sample_exec_def runtime_to_dict_def secrets_to_dict_def ingress_to_dict_def
        ingress_file_to_dict_def INGRESS_PATHS_def EXECUTION_SCHEMA_VERSION_def DEV_REPOSITORY_ID_def
        DEV_LOOPBACK_PORT_def sample_commit_def sample_hash_def sample_image_digest_def DEV_WORKFLOW_REF_def
        APPROVED_OCI_ORIGIN_def APPROVED_OCI_HOST_def DEV_OCI_REPOSITORY_def RUNTIME_CONFIGURATION_PATH_def
        NO_SECRETS_REASON_def DEV_LOOPBACK_ADDRESS_def DEV_PUBLIC_ORIGIN_def)
  then have "length (exec_canonical_bytes sample_exec) \<le> 60001"
    using length_json_dumps [of "exec_to_dict sample_exec"]
    by (simp add: exec_canonical_bytes_def canonical_bytes_def)
  then show ?thesis by (simp add: MAX_CANONICAL_REQUEST_BYTES_def)
qed

text \<open>
  C14: The privileged boundary accepts exactly one byte string per request.  A well-formed
  request within the size bound parses back from its canonical bytes; and bytes that parse
  are the canonical bytes of the request they give, which is well formed, so that two byte
  strings that parse to the same request are equal.
\<close>

theorem parse_canonical_request_exact:
  assumes "wf_exec r" and "exec_times_fit r" and "length (exec_canonical_bytes r) \<le> MAX_CANONICAL_REQUEST_BYTES"
  shows "parse_canonical_request (exec_canonical_bytes r) = Inr r \<and>
    (\<forall>raw. parse_canonical_request raw = Inr r \<longrightarrow> raw = exec_canonical_bytes r)"
  using parse_canonical_roundtrip [OF assms] by (simp add: parse_canonical_request_Inr)

theorem parse_canonical_request_exact_witness:
  "parse_canonical_request (exec_canonical_bytes sample_exec) = Inr sample_exec"
  using parse_canonical_request_exact [OF sample_exec_wf sample_exec_short] by simp

text \<open>
  C15: What the boundary lets through is a request of the canary and nothing else: parsed
  bytes are ASCII, at most 64 KiB, and give a request for the operation \<open>deploy\<close> of the DEV
  stage on the approved image pinned by digest, with the reviewed workflow, the reviewed
  files and loopback ingress, and a token lifetime of at most 300 seconds.
\<close>

theorem parse_canonical_request_sound:
  assumes "parse_canonical_request raw = Inr r"
  shows "wf_exec r \<and> raw = exec_canonical_bytes r \<and> length raw \<le> 65536 \<and>
    xr_operation r = ''deploy'' \<and> xr_stage r = ''dev'' \<and>
    xr_exact_image_reference r = APPROVED_OCI_HOST @ ''/'' @ DEV_OCI_REPOSITORY @ ''@'' @ xr_manifest_digest r \<and>
    xr_github_workflow_ref r = DEV_WORKFLOW_REF \<and> map if_path (ir_files (xr_ingress r)) = INGRESS_PATHS \<and>
    ir_loopback_address (xr_ingress r) = ''127.0.0.1'' \<and>
    xr_oidc_expires_at r \<le> xr_oidc_issued_at r + 300"
proof -
  have wf: "wf_exec r" and raw: "raw = exec_canonical_bytes r" "length raw \<le> MAX_CANONICAL_REQUEST_BYTES"
    using assms by (auto simp: parse_canonical_request_Inr exec_from_dict_Inr)
  then show ?thesis
    by (simp add: wf_exec_def wf_exec_image_def wf_exec_token_def wf_ingress_def ALLOWED_OPERATIONS_def
        DEV_STAGE_def DEV_LOOPBACK_ADDRESS_def MAX_TOKEN_LIFETIME_SECONDS_def MAX_CANONICAL_REQUEST_BYTES_def)
qed

theorem parse_canonical_request_sound_witness:
  "wf_exec sample_exec \<and> length (exec_canonical_bytes sample_exec) \<le> 65536"
  using parse_canonical_request_sound [OF parse_canonical_roundtrip [OF sample_exec_wf sample_exec_short]] by blast

text \<open>
  Refusals of the boundary are \<open>ExecutorRequestError\<close>, with one exception: an integer of
  more than 4300 digits escapes as a plain \<open>ValueError\<close>, which the handler of JSON errors does
  not catch.
\<close>

theorem parse_canonical_request_errors:
  "(\<forall>raw e. parse_canonical_request raw = Inl e \<longrightarrow> e = ExecutorRequestError \<or> e = ValueError) \<and>
   parse_canonical_request (replicate 4301 (CHR ''7'')) = Inl ValueError"
  using parse_canonical_request_raises long_number_raises [of 4301]
  by (auto simp: raises_only_def max_str_digits_def MAX_CANONICAL_REQUEST_BYTES_def)

theorem parse_canonical_request_errors_witness:
  "parse_canonical_request [] = Inl ExecutorRequestError \<or> parse_canonical_request [] = Inl ValueError"
proof -
  have "parse_canonical_request [] = Inl ExecutorRequestError" by (simp add: parse_canonical_request_def)
  with parse_canonical_request_errors show ?thesis by blast
qed

end
