(* ===== verification/Audit_Event.thy ===== *)
theory Audit_Event
  imports Execution
begin

text \<open>
  \<open>src/deployment/audit.py\<close>, first part: audit events, their execution identity, and the
  hash-chained records.  The file sink is in \<open>Audit_Sink\<close>.
\<close>

section \<open>Constants\<close>

definition AUDIT_SCHEMA_VERSION :: int where "AUDIT_SCHEMA_VERSION = 2"
definition AUDIT_EXECUTION_IDENTITY_SCHEMA_VERSION :: int where
  "AUDIT_EXECUTION_IDENTITY_SCHEMA_VERSION = 1"

definition EVENT_TYPES :: "string list" where
  "EVENT_TYPES =
     [''promotion_requested'', ''promotion_rejected'', ''promotion_started'',
      ''migration_started'', ''migration_succeeded'', ''migration_failed'',
      ''liveness_passed'', ''liveness_failed'', ''readiness_passed'', ''readiness_failed'',
      ''traffic_switch_started'', ''traffic_switch_succeeded'', ''traffic_switch_failed'',
      ''promotion_succeeded'', ''promotion_failed'',
      ''rollback_started'', ''rollback_succeeded'', ''rollback_failed'']"

definition RESULTS :: "string list" where
  "RESULTS = [''started'', ''succeeded'', ''failed'', ''rejected'']"

definition EVENT_FIELDS :: "string list" where
  "EVENT_FIELDS =
     [''schema_version'', ''event_id'', ''event_type'', ''stage'', ''release_version'',
      ''source_sha'', ''oci_repository'', ''digest'', ''previous_digest'', ''active_slot'',
      ''candidate_slot'', ''execution_identity'', ''migration_identity'', ''result'', ''timestamp'']"

definition EXECUTION_IDENTITY_FIELDS :: "string list" where
  "EXECUTION_IDENTITY_FIELDS =
     [''schema_version'', ''requested_by_actor_id'', ''github_repository_id'',
      ''github_workflow_ref'', ''github_workflow_sha'', ''github_run_id'',
      ''github_run_attempt'', ''oidc_jti'', ''oidc_issued_at'', ''oidc_expires_at'',
      ''promotion_request_sha256'', ''executor_request_sha256'']"

definition SENSITIVE_MARKERS :: "string list" where
  "SENSITIVE_MARKERS = [''password='', ''secret='', ''token='', ''credential='']"

definition MAX_EVENT_BYTES :: nat where "MAX_EVENT_BYTES = 16 * 1024"
definition CHAIN_FIELDS :: "string list" where "CHAIN_FIELDS = [''event'', ''previous_event_sha256'']"

section \<open>Integers\<close>

definition audit_positive_integer :: "pyval \<Rightarrow> int result" where
  "audit_positive_integer v =
     (case v of
        PInt i \<Rightarrow> if \<not> (1 \<le> i \<and> i \<le> MAX_IDENTIFIER) then Inl DeploymentPolicyError else Inr i
      | _ \<Rightarrow> Inl DeploymentPolicyError)"

definition audit_epoch :: "pyval \<Rightarrow> int result" where
  "audit_epoch v =
     (case v of
        PInt i \<Rightarrow> if \<not> (0 \<le> i \<and> i \<le> MAX_IDENTIFIER) then Inl DeploymentPolicyError else Inr i
      | _ \<Rightarrow> Inl DeploymentPolicyError)"

section \<open>Revalidation of executor requests\<close>

text \<open>
  The type tests of \<open>_executor_request_mapping\<close> hold by the types of the records, and
  \<open>required\<close> is the empty tuple (\<open>secrets_reference\<close> has no such field).
\<close>

definition executor_request_mapping :: "executor_request \<Rightarrow> pyval" where
  "executor_request_mapping request =
     (let runtime = xr_runtime request; secrets = xr_secrets request; ingress = xr_ingress request;
          files = map (\<lambda>item. PDict [(''path'', PStr (if_path item)), (''sha256'', PStr (if_sha256 item))])
                    (ir_files ingress) in
      PDict
       [(''schema_version'', PInt (xr_schema_version request)),
        (''operation'', PStr (xr_operation request)),
        (''stage'', PStr (xr_stage request)),
        (''release_version'', PStr (xr_release_version request)),
        (''source_sha'', PStr (xr_source_sha request)),
        (''oci_origin'', PStr (xr_oci_origin request)),
        (''oci_repository'', PStr (xr_oci_repository request)),
        (''manifest_digest'', PStr (xr_manifest_digest request)),
        (''exact_image_reference'', PStr (xr_exact_image_reference request)),
        (''release_manifest_sha256'', PStr (xr_release_manifest_sha256 request)),
        (''provenance_sha256'', PStr (xr_provenance_sha256 request)),
        (''originating_release_run_id'', PInt (xr_originating_release_run_id request)),
        (''promotion_request_sha256'', PStr (xr_promotion_request_sha256 request)),
        (''requested_by_actor_id'', PInt (xr_requested_by_actor_id request)),
        (''github_repository_id'', PInt (xr_github_repository_id request)),
        (''github_workflow_ref'', PStr (xr_github_workflow_ref request)),
        (''github_workflow_sha'', PStr (xr_github_workflow_sha request)),
        (''github_run_id'', PInt (xr_github_run_id request)),
        (''github_run_attempt'', PInt (xr_github_run_attempt request)),
        (''oidc_jti'', PStr (xr_oidc_jti request)),
        (''oidc_issued_at'', PInt (xr_oidc_issued_at request)),
        (''oidc_expires_at'', PInt (xr_oidc_expires_at request)),
        (''runtime_configuration_reference'', PDict
          [(''schema_version'', PInt (rr_schema_version runtime)),
           (''kind'', PStr (rr_kind runtime)),
           (''repository_id'', PInt (rr_repository_id runtime)),
           (''reviewed_commit'', PStr (rr_reviewed_commit runtime)),
           (''path'', PStr (rr_path runtime)),
           (''sha256'', PStr (rr_sha256 runtime))]),
        (''secrets_reference'', PDict
          [(''schema_version'', PInt (sr_schema_version secrets)),
           (''kind'', PStr (sr_kind secrets)),
           (''required'', PList []),
           (''reason'', PStr (sr_reason secrets))]),
        (''ingress_reference'', PDict
          [(''schema_version'', PInt (ir_schema_version ingress)),
           (''kind'', PStr (ir_kind ingress)),
           (''repository_id'', PInt (ir_repository_id ingress)),
           (''reviewed_commit'', PStr (ir_reviewed_commit ingress)),
           (''files'', PList files),
           (''loopback_address'', PStr (ir_loopback_address ingress)),
           (''loopback_port'', PInt (ir_loopback_port ingress)),
           (''public_origin'', PStr (ir_public_origin ingress))])])"

definition revalidate_executor_request :: "executor_request \<Rightarrow> executor_request result" where
  "revalidate_executor_request request =
     catch_as [AttributeError, TypeError, ValueError, DeploymentPolicyError] DeploymentPolicyError
       (bnd (exec_from_dict (executor_request_mapping request)) (\<lambda>first_pass.
        bnd (json_loads_bytes default_hooks (canonical_bytes (executor_request_mapping first_pass)))
          exec_from_dict))"

section \<open>Execution identities\<close>

record audit_identity =
  ai_schema_version :: int
  ai_requested_by_actor_id :: int
  ai_github_repository_id :: int
  ai_github_workflow_ref :: string
  ai_github_workflow_sha :: string
  ai_github_run_id :: int
  ai_github_run_attempt :: int
  ai_oidc_jti :: string
  ai_oidc_issued_at :: int
  ai_oidc_expires_at :: int
  ai_promotion_request_sha256 :: string
  ai_executor_request_sha256 :: string

definition is_str :: "pyval \<Rightarrow> bool" where
  "is_str v \<longleftrightarrow> (case v of PStr _ \<Rightarrow> True | _ \<Rightarrow> False)"

definition is_int_eq :: "pyval \<Rightarrow> int \<Rightarrow> bool" where
  "is_int_eq v n \<longleftrightarrow> (case v of PInt i \<Rightarrow> i = n | _ \<Rightarrow> False)"

definition audit_identity_from_dict :: "pyval \<Rightarrow> audit_identity result" where
  "audit_identity_from_dict v =
     bnd (closed_object v EXECUTION_IDENTITY_FIELDS) (\<lambda>data.
     if \<not> is_int_eq (getv data ''schema_version'') AUDIT_EXECUTION_IDENTITY_SCHEMA_VERSION
     then Inl DeploymentPolicyError
     else if \<not> list_all (\<lambda>n. is_str (getv data n))
         [''github_workflow_ref'', ''github_workflow_sha'', ''oidc_jti'', ''promotion_request_sha256'',
          ''executor_request_sha256'']
     then Inl DeploymentPolicyError
     else
     bnd (audit_positive_integer (getv data ''github_repository_id'')) (\<lambda>rid.
     if rid \<noteq> DEV_REPOSITORY_ID then Inl DeploymentPolicyError
     else if \<not> py_eq (getv data ''github_workflow_ref'') (PStr DEV_WORKFLOW_REF) then Inl DeploymentPolicyError
     else
     bnd (audit_epoch (getv data ''oidc_issued_at'')) (\<lambda>issued.
     bnd (audit_epoch (getv data ''oidc_expires_at'')) (\<lambda>expires.
     if \<not> (0 < expires - issued \<and> expires - issued \<le> MAX_TOKEN_LIFETIME_SECONDS)
     then Inl DeploymentPolicyError
     else
     bnd (audit_positive_integer (getv data ''requested_by_actor_id'')) (\<lambda>actor.
     bnd (validate_source_sha (getv data ''github_workflow_sha'')) (\<lambda>sha.
     bnd (audit_positive_integer (getv data ''github_run_id'')) (\<lambda>run_id.
     bnd (audit_positive_integer (getv data ''github_run_attempt'')) (\<lambda>run_attempt.
     bnd (validate_jti (getv data ''oidc_jti'')) (\<lambda>jti.
     bnd (validate_sha256 (getv data ''promotion_request_sha256'')) (\<lambda>promotion_sha.
     bnd (validate_sha256 (getv data ''executor_request_sha256'')) (\<lambda>executor_sha.
       Inr \<lparr>ai_schema_version = AUDIT_EXECUTION_IDENTITY_SCHEMA_VERSION, ai_requested_by_actor_id = actor,
            ai_github_repository_id = rid, ai_github_workflow_ref = DEV_WORKFLOW_REF,
            ai_github_workflow_sha = sha, ai_github_run_id = run_id, ai_github_run_attempt = run_attempt,
            ai_oidc_jti = jti, ai_oidc_issued_at = issued, ai_oidc_expires_at = expires,
            ai_promotion_request_sha256 = promotion_sha, ai_executor_request_sha256 = executor_sha\<rparr>)))))))))))"

definition audit_identity_to_dict :: "audit_identity \<Rightarrow> pyval" where
  "audit_identity_to_dict a = PDict
     [(''schema_version'', PInt (ai_schema_version a)),
      (''requested_by_actor_id'', PInt (ai_requested_by_actor_id a)),
      (''github_repository_id'', PInt (ai_github_repository_id a)),
      (''github_workflow_ref'', PStr (ai_github_workflow_ref a)),
      (''github_workflow_sha'', PStr (ai_github_workflow_sha a)),
      (''github_run_id'', PInt (ai_github_run_id a)), (''github_run_attempt'', PInt (ai_github_run_attempt a)),
      (''oidc_jti'', PStr (ai_oidc_jti a)), (''oidc_issued_at'', PInt (ai_oidc_issued_at a)),
      (''oidc_expires_at'', PInt (ai_oidc_expires_at a)),
      (''promotion_request_sha256'', PStr (ai_promotion_request_sha256 a)),
      (''executor_request_sha256'', PStr (ai_executor_request_sha256 a))]"

definition identity_of_request :: "executor_request \<Rightarrow> audit_identity" where
  "identity_of_request r =
     \<lparr>ai_schema_version = AUDIT_EXECUTION_IDENTITY_SCHEMA_VERSION,
      ai_requested_by_actor_id = xr_requested_by_actor_id r,
      ai_github_repository_id = xr_github_repository_id r, ai_github_workflow_ref = xr_github_workflow_ref r,
      ai_github_workflow_sha = xr_github_workflow_sha r, ai_github_run_id = xr_github_run_id r,
      ai_github_run_attempt = xr_github_run_attempt r, ai_oidc_jti = xr_oidc_jti r,
      ai_oidc_issued_at = xr_oidc_issued_at r, ai_oidc_expires_at = xr_oidc_expires_at r,
      ai_promotion_request_sha256 = xr_promotion_request_sha256 r,
      ai_executor_request_sha256 = exec_request_sha256 r\<rparr>"

definition identity_from_executor_request :: "executor_request \<Rightarrow> audit_identity result" where
  "identity_from_executor_request request =
     bnd (revalidate_executor_request request) (\<lambda>validated.
       audit_identity_from_dict (audit_identity_to_dict (identity_of_request validated)))"

section \<open>Events\<close>

record audit_event =
  ev_schema_version :: int
  ev_event_id :: string
  ev_event_type :: string
  ev_stage :: string
  ev_release_version :: string
  ev_source_sha :: string
  ev_oci_repository :: string
  ev_digest :: string
  ev_previous_digest :: "string option"
  ev_active_slot :: "string option"
  ev_candidate_slot :: "string option"
  ev_execution_identity :: audit_identity
  ev_migration_identity :: "string option"
  ev_result :: string
  ev_timestamp :: string

definition event_to_dict :: "audit_event \<Rightarrow> pyval" where
  "event_to_dict e = PDict
     [(''schema_version'', PInt (ev_schema_version e)), (''event_id'', PStr (ev_event_id e)),
      (''event_type'', PStr (ev_event_type e)), (''stage'', PStr (ev_stage e)),
      (''release_version'', PStr (ev_release_version e)), (''source_sha'', PStr (ev_source_sha e)),
      (''oci_repository'', PStr (ev_oci_repository e)), (''digest'', PStr (ev_digest e)),
      (''previous_digest'', of_opt (ev_previous_digest e)), (''active_slot'', of_opt (ev_active_slot e)),
      (''candidate_slot'', of_opt (ev_candidate_slot e)),
      (''execution_identity'', audit_identity_to_dict (ev_execution_identity e)),
      (''migration_identity'', of_opt (ev_migration_identity e)), (''result'', PStr (ev_result e)),
      (''timestamp'', PStr (ev_timestamp e))]"

definition event_canonical_bytes :: "audit_event \<Rightarrow> string" where
  "event_canonical_bytes e = canonical_bytes (event_to_dict e)"

definition to_lower :: "char \<Rightarrow> char" where
  "to_lower c = (if rng (CHR ''A'') (CHR ''Z'') c then char_of (of_char c + 32 :: nat) else c)"

fun contains :: "string \<Rightarrow> string \<Rightarrow> bool" where
  "contains p [] \<longleftrightarrow> p = []"
| "contains p (c # cs) \<longleftrightarrow> starts_with p (c # cs) \<or> contains p cs"

definition secret_like :: "string \<Rightarrow> bool" where
  "secret_like encoded \<longleftrightarrow> list_ex (\<lambda>m. contains m (map to_lower encoded)) SENSITIVE_MARKERS"

text \<open>\<open>v is not None and check(v)\<close>\<close>

definition optional_by :: "(pyval \<Rightarrow> string result) \<Rightarrow> pyval \<Rightarrow> string option result" where
  "optional_by f v = (if v = PNone then Inr None else bnd (f v) (\<lambda>s. Inr (Some s)))"

definition event_from_dict :: "pyval \<Rightarrow> audit_event result" where
  "event_from_dict v =
     bnd (closed_object v EVENT_FIELDS) (\<lambda>data.
     if \<not> is_int_eq (getv data ''schema_version'') AUDIT_SCHEMA_VERSION then Inl DeploymentPolicyError
     else if \<not> list_all (\<lambda>n. is_str (getv data n))
         [''event_id'', ''event_type'', ''stage'', ''release_version'', ''source_sha'', ''oci_repository'',
          ''digest'', ''result'', ''timestamp''] then Inl DeploymentPolicyError
     else if \<not> list_all (\<lambda>n. getv data n = PNone \<or> is_str (getv data n))
         [''previous_digest'', ''active_slot'', ''candidate_slot'', ''migration_identity'']
     then Inl DeploymentPolicyError
     else
     bnd (str_of (getv data ''event_type'')) (\<lambda>event_type.
     bnd (str_of (getv data ''result'')) (\<lambda>outcome.
     if event_type \<notin> set EVENT_TYPES \<or> outcome \<notin> set RESULTS then Inl DeploymentPolicyError
     else if event_type = ''promotion_failed'' \<and> outcome \<noteq> ''failed'' then Inl DeploymentPolicyError
     else
     bnd (optional_by validate_digest (getv data ''previous_digest'')) (\<lambda>previous_digest.
     bnd (validate_slot_nullable (getv data ''active_slot'')) (\<lambda>aslot.
     bnd (validate_slot_nullable (getv data ''candidate_slot'')) (\<lambda>cslot.
     bnd (optional_by validate_identity (getv data ''migration_identity'')) (\<lambda>migration_identity.
     if starts_with ''migration_'' event_type \<and> migration_identity = None then Inl DeploymentPolicyError
     else if starts_with ''rollback_'' event_type \<and> previous_digest = None then Inl DeploymentPolicyError
     else
     bnd (validate_event_id (getv data ''event_id'')) (\<lambda>eid.
     bnd (validate_stage (getv data ''stage'')) (\<lambda>stg.
     bnd (validate_semver (getv data ''release_version'')) (\<lambda>version.
     bnd (validate_source_sha (getv data ''source_sha'')) (\<lambda>sha.
     bnd (validate_repository (getv data ''oci_repository'')) (\<lambda>repository.
     bnd (validate_digest (getv data ''digest'')) (\<lambda>digest.
     bnd (audit_identity_from_dict (getv data ''execution_identity'')) (\<lambda>identity.
     bnd (validate_timestamp (getv data ''timestamp'')) (\<lambda>ts.
     let event = \<lparr>ev_schema_version = AUDIT_SCHEMA_VERSION, ev_event_id = eid, ev_event_type = event_type,
            ev_stage = stg, ev_release_version = version, ev_source_sha = sha, ev_oci_repository = repository,
            ev_digest = digest, ev_previous_digest = previous_digest, ev_active_slot = aslot,
            ev_candidate_slot = cslot, ev_execution_identity = identity,
            ev_migration_identity = migration_identity, ev_result = outcome, ev_timestamp = ts\<rparr>;
         encoded = event_canonical_bytes event in
     if MAX_EVENT_BYTES < length encoded then Inl DeploymentPolicyError
     else if secret_like encoded then Inl DeploymentPolicyError
     else Inr event)))))))))))))))"

text \<open>The keyword arguments of \<open>for_executor_request\<close>.\<close>

record event_arguments =
  ea_event_id :: string
  ea_event_type :: string
  ea_previous_digest :: "string option"
  ea_active_slot :: "string option"
  ea_candidate_slot :: "string option"
  ea_migration_identity :: "string option"
  ea_result :: string
  ea_timestamp :: string

definition event_for_executor_request :: "executor_request \<Rightarrow> event_arguments \<Rightarrow> audit_event result" where
  "event_for_executor_request request a =
     bnd (revalidate_executor_request request) (\<lambda>validated.
     bnd (identity_from_executor_request validated) (\<lambda>identity.
       event_from_dict (PDict
         [(''schema_version'', PInt AUDIT_SCHEMA_VERSION), (''event_id'', PStr (ea_event_id a)),
          (''event_type'', PStr (ea_event_type a)), (''stage'', PStr (xr_stage validated)),
          (''release_version'', PStr (xr_release_version validated)),
          (''source_sha'', PStr (xr_source_sha validated)),
          (''oci_repository'', PStr (xr_oci_repository validated)),
          (''digest'', PStr (xr_manifest_digest validated)),
          (''previous_digest'', of_opt (ea_previous_digest a)), (''active_slot'', of_opt (ea_active_slot a)),
          (''candidate_slot'', of_opt (ea_candidate_slot a)),
          (''execution_identity'', audit_identity_to_dict identity),
          (''migration_identity'', of_opt (ea_migration_identity a)), (''result'', PStr (ea_result a)),
          (''timestamp'', PStr (ea_timestamp a))])))"

definition audit_execution_identity_mapping :: "audit_identity \<Rightarrow> pyval" where
  "audit_execution_identity_mapping identity = PDict
     [(''schema_version'', PInt (ai_schema_version identity)),
      (''requested_by_actor_id'', PInt (ai_requested_by_actor_id identity)),
      (''github_repository_id'', PInt (ai_github_repository_id identity)),
      (''github_workflow_ref'', PStr (ai_github_workflow_ref identity)),
      (''github_workflow_sha'', PStr (ai_github_workflow_sha identity)),
      (''github_run_id'', PInt (ai_github_run_id identity)),
      (''github_run_attempt'', PInt (ai_github_run_attempt identity)),
      (''oidc_jti'', PStr (ai_oidc_jti identity)),
      (''oidc_issued_at'', PInt (ai_oidc_issued_at identity)),
      (''oidc_expires_at'', PInt (ai_oidc_expires_at identity)),
      (''promotion_request_sha256'', PStr (ai_promotion_request_sha256 identity)),
      (''executor_request_sha256'', PStr (ai_executor_request_sha256 identity))]"

definition audit_event_mapping :: "audit_event \<Rightarrow> pyval" where
  "audit_event_mapping event = PDict
     [(''schema_version'', PInt (ev_schema_version event)),
      (''event_id'', PStr (ev_event_id event)),
      (''event_type'', PStr (ev_event_type event)),
      (''stage'', PStr (ev_stage event)),
      (''release_version'', PStr (ev_release_version event)),
      (''source_sha'', PStr (ev_source_sha event)),
      (''oci_repository'', PStr (ev_oci_repository event)),
      (''digest'', PStr (ev_digest event)),
      (''previous_digest'', of_opt (ev_previous_digest event)),
      (''active_slot'', of_opt (ev_active_slot event)),
      (''candidate_slot'', of_opt (ev_candidate_slot event)),
      (''execution_identity'', audit_execution_identity_mapping (ev_execution_identity event)),
      (''migration_identity'', of_opt (ev_migration_identity event)),
      (''result'', PStr (ev_result event)),
      (''timestamp'', PStr (ev_timestamp event))]"

definition require_executor_request :: "audit_event \<Rightarrow> executor_request \<Rightarrow> unit result" where
  "require_executor_request event request =
     bnd (event_from_dict (audit_event_mapping event)) (\<lambda>validated_event.
     bnd (revalidate_executor_request request) (\<lambda>validated_request.
     bnd (identity_from_executor_request validated_request) (\<lambda>expected_identity.
     if ev_stage validated_event \<noteq> xr_stage validated_request \<or>
        ev_release_version validated_event \<noteq> xr_release_version validated_request \<or>
        ev_source_sha validated_event \<noteq> xr_source_sha validated_request \<or>
        ev_oci_repository validated_event \<noteq> xr_oci_repository validated_request \<or>
        ev_digest validated_event \<noteq> xr_manifest_digest validated_request \<or>
        ev_execution_identity validated_event \<noteq> expected_identity
     then Inl DeploymentPolicyError else Inr ())))"

section \<open>Chained records\<close>

record chained_record =
  ch_event :: audit_event
  ch_previous :: "string option"

definition previous_hash :: "pyval \<Rightarrow> string option result" where
  "previous_hash previous =
     (case previous of
        PNone \<Rightarrow> Inr None
      | PStr s \<Rightarrow> if fullmatch SHA256_RE s then Inr (Some s) else Inl DeploymentPolicyError
      | _ \<Rightarrow> Inl DeploymentPolicyError)"

definition chained_from_dict :: "pyval \<Rightarrow> chained_record result" where
  "chained_from_dict v =
     bnd (closed_object v CHAIN_FIELDS) (\<lambda>data.
     bnd (previous_hash (getv data ''previous_event_sha256'')) (\<lambda>previous.
     bnd (event_from_dict (getv data ''event'')) (\<lambda>event.
       Inr \<lparr>ch_event = event, ch_previous = previous\<rparr>)))"

definition chained_to_dict :: "chained_record \<Rightarrow> pyval" where
  "chained_to_dict r = PDict
     [(''event'', event_to_dict (ch_event r)), (''previous_event_sha256'', of_opt (ch_previous r))]"

definition chained_canonical_bytes :: "chained_record \<Rightarrow> string" where
  "chained_canonical_bytes r = canonical_bytes (chained_to_dict r)"

definition chained_sha256 :: "chained_record \<Rightarrow> string" where
  "chained_sha256 r = sha256_hex (chained_canonical_bytes r)"

section \<open>What the validators accept\<close>

lemma mappings_are_to_dict [simp]:
  "executor_request_mapping r = exec_to_dict r"
  "audit_execution_identity_mapping a = audit_identity_to_dict a"
  "audit_event_mapping e = event_to_dict e"
  by (simp_all add: executor_request_mapping_def exec_to_dict_def runtime_to_dict_def secrets_to_dict_def
      ingress_to_dict_def ingress_file_to_dict_def comp_def audit_execution_identity_mapping_def
      audit_identity_to_dict_def audit_event_mapping_def event_to_dict_def Let_def)

lemma audit_integers_Inr [py_simps]:
  "audit_positive_integer v = Inr i \<longleftrightarrow> v = PInt i \<and> 1 \<le> i \<and> i \<le> MAX_IDENTIFIER"
  "audit_epoch v = Inr i \<longleftrightarrow> v = PInt i \<and> 0 \<le> i \<and> i \<le> MAX_IDENTIFIER"
  by (cases v; auto simp: audit_positive_integer_def audit_epoch_def)+

lemma is_str_iff: "is_str v \<longleftrightarrow> (\<exists>s. v = PStr s)"
  by (cases v) (auto simp: is_str_def)

lemma is_str_PStr [simp]: "is_str (PStr s)"
  by (simp add: is_str_def)

lemma is_int_eq_iff [simp]: "is_int_eq v n \<longleftrightarrow> v = PInt n"
  by (cases v) (auto simp: is_int_eq_def)

lemma optional_by_Inr:
  "optional_by f v = Inr a \<longleftrightarrow>
     (case a of None \<Rightarrow> v = PNone | Some s \<Rightarrow> v \<noteq> PNone \<and> f v = Inr s)"
  by (cases a) (auto simp: optional_by_def)

lemma previous_hash_Inr [py_simps]:
  "previous_hash v = Inr a \<longleftrightarrow> v = of_opt a \<and> (\<forall>s. a = Some s \<longrightarrow> fullmatch SHA256_RE s)"
  by (cases a; cases v) (auto simp: previous_hash_def)

definition wf_audit_identity :: "audit_identity \<Rightarrow> bool" where
  "wf_audit_identity a \<longleftrightarrow>
     ai_schema_version a = AUDIT_EXECUTION_IDENTITY_SCHEMA_VERSION \<and>
     identifier_ok (ai_requested_by_actor_id a) \<and> ai_github_repository_id a = DEV_REPOSITORY_ID \<and>
     ai_github_workflow_ref a = DEV_WORKFLOW_REF \<and> fullmatch SOURCE_SHA_RE (ai_github_workflow_sha a) \<and>
     ai_github_workflow_sha a \<noteq> replicate 40 (CHR ''0'') \<and> identifier_ok (ai_github_run_id a) \<and>
     identifier_ok (ai_github_run_attempt a) \<and> jti_ok (ai_oidc_jti a) \<and>
     0 \<le> ai_oidc_issued_at a \<and> ai_oidc_issued_at a < ai_oidc_expires_at a \<and>
     ai_oidc_expires_at a \<le> MAX_IDENTIFIER \<and>
     ai_oidc_expires_at a - ai_oidc_issued_at a \<le> MAX_TOKEN_LIFETIME_SECONDS \<and>
     fullmatch SHA256_RE (ai_promotion_request_sha256 a) \<and> fullmatch SHA256_RE (ai_executor_request_sha256 a)"

definition audit_identity_items :: "pydict \<Rightarrow> audit_identity \<Rightarrow> bool" where
  "audit_identity_items d a \<longleftrightarrow>
     set (keys d) = set EXECUTION_IDENTITY_FIELDS \<and> getv d ''schema_version'' = PInt (ai_schema_version a) \<and>
     getv d ''requested_by_actor_id'' = PInt (ai_requested_by_actor_id a) \<and>
     getv d ''github_repository_id'' = PInt (ai_github_repository_id a) \<and>
     getv d ''github_workflow_ref'' = PStr (ai_github_workflow_ref a) \<and>
     getv d ''github_workflow_sha'' = PStr (ai_github_workflow_sha a) \<and>
     getv d ''github_run_id'' = PInt (ai_github_run_id a) \<and>
     getv d ''github_run_attempt'' = PInt (ai_github_run_attempt a) \<and>
     getv d ''oidc_jti'' = PStr (ai_oidc_jti a) \<and> getv d ''oidc_issued_at'' = PInt (ai_oidc_issued_at a) \<and>
     getv d ''oidc_expires_at'' = PInt (ai_oidc_expires_at a) \<and>
     getv d ''promotion_request_sha256'' = PStr (ai_promotion_request_sha256 a) \<and>
     getv d ''executor_request_sha256'' = PStr (ai_executor_request_sha256 a)"

lemmas identity_value_simps =
  audit_integers_Inr validate_source_sha_Inr validate_sha256_Inr validate_jti_Inr closed_object_Inr

lemma audit_identity_from_dict_Inr [py_simps]:
  "audit_identity_from_dict v = Inr a \<longleftrightarrow>
     wf_audit_identity a \<and> (\<exists>d. v = PDict d \<and> audit_identity_items d a)"
  by (cases a) (auto simp: audit_identity_from_dict_def identity_value_simps wf_audit_identity_def
      audit_identity_items_def identifier_ok_def DEV_REPOSITORY_ID_def MAX_IDENTIFIER_def is_str_iff
      split: if_splits)

lemma audit_identity_canon:
  assumes "wf_audit_identity a"
  shows "audit_identity_from_dict (canon (audit_identity_to_dict a)) = Inr a"
proof -
  obtain d where d: "audit_identity_to_dict a = PDict d" "distinct (keys d)" "audit_identity_items d a"
    by (simp add: audit_identity_to_dict_def keys_def audit_identity_items_def EXECUTION_IDENTITY_FIELDS_def getv_def)
  then have "audit_identity_items (csort d) a" by (simp add: audit_identity_items_def canon_simps)
  with assms d(1) show ?thesis by (simp add: audit_identity_from_dict_Inr canon_PDict del: canon.simps)
qed

lemma audit_identity_accepted:
  assumes "wf_audit_identity a"
  shows "audit_identity_from_dict (audit_identity_to_dict a) = Inr a"
  using assms by (simp add: audit_identity_from_dict_Inr audit_identity_to_dict_def keys_def
      audit_identity_items_def EXECUTION_IDENTITY_FIELDS_def getv_def)

definition wf_event_text :: "audit_event \<Rightarrow> bool" where
  "wf_event_text e \<longleftrightarrow>
     fullmatch EVENT_ID_RE (ev_event_id e) \<and> ev_stage e \<in> set STAGES \<and>
     fullmatch SEMVER_RE (ev_release_version e) \<and> fullmatch SOURCE_SHA_RE (ev_source_sha e) \<and>
     ev_source_sha e \<noteq> replicate 40 (CHR ''0'') \<and> ev_oci_repository e \<in> set APPROVED_OCI_REPOSITORIES \<and>
     fullmatch DIGEST_RE (ev_digest e) \<and> fullmatch TIMESTAMP_RE (ev_timestamp e)"

definition wf_event_kind :: "audit_event \<Rightarrow> bool" where
  "wf_event_kind e \<longleftrightarrow>
     ev_event_type e \<in> set EVENT_TYPES \<and> ev_result e \<in> set RESULTS \<and>
     (ev_event_type e = ''promotion_failed'' \<longrightarrow> ev_result e = ''failed'') \<and>
     (starts_with ''migration_'' (ev_event_type e) \<longrightarrow> ev_migration_identity e \<noteq> None) \<and>
     (starts_with ''rollback_'' (ev_event_type e) \<longrightarrow> ev_previous_digest e \<noteq> None) \<and>
     (\<forall>s. ev_previous_digest e = Some s \<longrightarrow> fullmatch DIGEST_RE s) \<and>
     (\<forall>s. ev_active_slot e = Some s \<longrightarrow> s \<in> set SLOTS) \<and>
     (\<forall>s. ev_candidate_slot e = Some s \<longrightarrow> s \<in> set SLOTS) \<and>
     (\<forall>s. ev_migration_identity e = Some s \<longrightarrow> fullmatch IDENTITY_RE s)"

definition wf_event :: "audit_event \<Rightarrow> bool" where
  "wf_event e \<longleftrightarrow>
     ev_schema_version e = AUDIT_SCHEMA_VERSION \<and> wf_event_text e \<and> wf_event_kind e \<and>
     wf_audit_identity (ev_execution_identity e) \<and>
     length (event_canonical_bytes e) \<le> MAX_EVENT_BYTES \<and> \<not> secret_like (event_canonical_bytes e)"

definition event_items :: "pydict \<Rightarrow> audit_event \<Rightarrow> bool" where
  "event_items d e \<longleftrightarrow>
     set (keys d) = set EVENT_FIELDS \<and> getv d ''schema_version'' = PInt (ev_schema_version e) \<and>
     getv d ''event_id'' = PStr (ev_event_id e) \<and> getv d ''event_type'' = PStr (ev_event_type e) \<and>
     getv d ''stage'' = PStr (ev_stage e) \<and> getv d ''release_version'' = PStr (ev_release_version e) \<and>
     getv d ''source_sha'' = PStr (ev_source_sha e) \<and> getv d ''oci_repository'' = PStr (ev_oci_repository e) \<and>
     getv d ''digest'' = PStr (ev_digest e) \<and> getv d ''previous_digest'' = of_opt (ev_previous_digest e) \<and>
     getv d ''active_slot'' = of_opt (ev_active_slot e) \<and> getv d ''candidate_slot'' = of_opt (ev_candidate_slot e) \<and>
     getv d ''migration_identity'' = of_opt (ev_migration_identity e) \<and> getv d ''result'' = PStr (ev_result e) \<and>
     getv d ''timestamp'' = PStr (ev_timestamp e) \<and>
     audit_identity_from_dict (getv d ''execution_identity'') = Inr (ev_execution_identity e)"

lemma optional_policy_Inr:
  "optional_by validate_digest v = Inr a \<longleftrightarrow> v = of_opt a \<and> (\<forall>s. a = Some s \<longrightarrow> fullmatch DIGEST_RE s)"
  "optional_by validate_identity v = Inr a \<longleftrightarrow> v = of_opt a \<and> (\<forall>s. a = Some s \<longrightarrow> fullmatch IDENTITY_RE s)"
  by (cases a; auto simp: optional_by_Inr validate_digest_Inr validate_identity_Inr)+

lemmas event_value_simps =
  optional_policy_Inr validate_slot_nullable_Inr validate_event_id_Inr validate_stage_Inr validate_semver_Inr
  validate_source_sha_Inr validate_repository_Inr validate_digest_Inr validate_timestamp_Inr str_of_Inr

lemma of_opt_str: "of_opt a = PNone \<or> is_str (of_opt a)"
  by (cases a) simp_all

lemma event_from_dict_Inr [py_simps]:
  "event_from_dict v = Inr e \<longleftrightarrow> wf_event e \<and> (\<exists>d. v = PDict d \<and> event_items d e)"
  (is "?L \<longleftrightarrow> ?R")
proof
  assume L: ?L
  then obtain d where d: "v = PDict d" "set (keys d) = set EVENT_FIELDS"
    by (auto simp: event_from_dict_def closed_object_Inr)
  have steps: "getv d ''schema_version'' = PInt AUDIT_SCHEMA_VERSION \<and>
      ev_schema_version e = AUDIT_SCHEMA_VERSION \<and>
      str_of (getv d ''event_type'') = Inr (ev_event_type e) \<and>
      str_of (getv d ''result'') = Inr (ev_result e) \<and>
      ev_event_type e \<in> set EVENT_TYPES \<and>
      ev_result e \<in> set RESULTS \<and>
      (ev_event_type e = ''promotion_failed'' \<longrightarrow> ev_result e = ''failed'') \<and>
      optional_by validate_digest (getv d ''previous_digest'') = Inr (ev_previous_digest e) \<and>
      validate_slot_nullable (getv d ''active_slot'') = Inr (ev_active_slot e) \<and>
      validate_slot_nullable (getv d ''candidate_slot'') = Inr (ev_candidate_slot e) \<and>
      optional_by validate_identity (getv d ''migration_identity'') = Inr (ev_migration_identity e) \<and>
      (starts_with ''migration_'' (ev_event_type e) \<longrightarrow> ev_migration_identity e \<noteq> None) \<and>
      (starts_with ''rollback_'' (ev_event_type e) \<longrightarrow> ev_previous_digest e \<noteq> None) \<and>
      validate_event_id (getv d ''event_id'') = Inr (ev_event_id e) \<and>
      validate_stage (getv d ''stage'') = Inr (ev_stage e) \<and>
      validate_semver (getv d ''release_version'') = Inr (ev_release_version e) \<and>
      validate_source_sha (getv d ''source_sha'') = Inr (ev_source_sha e) \<and>
      validate_repository (getv d ''oci_repository'') = Inr (ev_oci_repository e) \<and>
      validate_digest (getv d ''digest'') = Inr (ev_digest e) \<and>
      audit_identity_from_dict (getv d ''execution_identity'') = Inr (ev_execution_identity e) \<and>
      validate_timestamp (getv d ''timestamp'') = Inr (ev_timestamp e) \<and>
      length (event_canonical_bytes e) \<le> MAX_EVENT_BYTES \<and>
      \<not> secret_like (event_canonical_bytes e)"
    using L d by (cases e) (simp add: event_from_dict_def Let_def)
  have id: "wf_audit_identity (ev_execution_identity e)"
    using steps by (simp add: audit_identity_from_dict_Inr)
  have "wf_event e"
    using steps id by (simp add: event_value_simps wf_event_def wf_event_text_def wf_event_kind_def)
  moreover have "event_items d e"
    using steps d by (simp add: event_value_simps event_items_def)
  ultimately show ?R using d by blast
next
  assume ?R
  then obtain d where wf: "wf_event e" and d: "v = PDict d" "event_items d e" by blast
  have "optional_by validate_digest (getv d ''previous_digest'') = Inr (ev_previous_digest e)"
      "validate_slot_nullable (getv d ''active_slot'') = Inr (ev_active_slot e)"
      "validate_slot_nullable (getv d ''candidate_slot'') = Inr (ev_candidate_slot e)"
      "optional_by validate_identity (getv d ''migration_identity'') = Inr (ev_migration_identity e)"
      "validate_event_id (getv d ''event_id'') = Inr (ev_event_id e)"
      "validate_stage (getv d ''stage'') = Inr (ev_stage e)"
      "validate_semver (getv d ''release_version'') = Inr (ev_release_version e)"
      "validate_source_sha (getv d ''source_sha'') = Inr (ev_source_sha e)"
      "validate_repository (getv d ''oci_repository'') = Inr (ev_oci_repository e)"
      "validate_digest (getv d ''digest'') = Inr (ev_digest e)"
      "validate_timestamp (getv d ''timestamp'') = Inr (ev_timestamp e)"
      "str_of (getv d ''event_type'') = Inr (ev_event_type e)" "str_of (getv d ''result'') = Inr (ev_result e)"
    using wf d(2)
    by (simp_all only: event_value_simps wf_event_def wf_event_text_def wf_event_kind_def event_items_def) simp_all
  then show ?L
    using wf d of_opt_str
    by (cases e) (simp add: event_from_dict_def Let_def wf_event_def wf_event_kind_def event_items_def)
qed

lemma event_to_dict_items:
  obtains d where "event_to_dict e = PDict d" "distinct (keys d)" "set (keys d) = set EVENT_FIELDS"
    "getv d ''execution_identity'' = audit_identity_to_dict (ev_execution_identity e)"
    "wf_audit_identity (ev_execution_identity e) \<Longrightarrow> event_items d e"
  by (simp add: event_to_dict_def keys_def EVENT_FIELDS_def getv_def event_items_def audit_identity_accepted)

lemma event_accepted: "event_from_dict (event_to_dict e) = Inr e \<longleftrightarrow> wf_event e"
proof (rule event_to_dict_items [of e])
  fix d
  assume d: "event_to_dict e = PDict d" "wf_audit_identity (ev_execution_identity e) \<Longrightarrow> event_items d e"
  then show ?thesis by (auto simp: event_from_dict_Inr wf_event_def)
qed

lemma event_canon: "wf_event e \<Longrightarrow> event_from_dict (canon (event_to_dict e)) = Inr e"
proof (rule event_to_dict_items [of e])
  fix d
  assume wf: "wf_event e" and d: "event_to_dict e = PDict d" "distinct (keys d)" "set (keys d) = set EVENT_FIELDS"
    "getv d ''execution_identity'' = audit_identity_to_dict (ev_execution_identity e)"
    "wf_audit_identity (ev_execution_identity e) \<Longrightarrow> event_items d e"
  have "event_items (csort d) e"
    using d wf by (simp add: event_items_def canon_simps audit_identity_canon wf_event_def)
  with wf d(1) show ?thesis by (simp add: event_from_dict_Inr canon_PDict del: canon.simps)
qed

section \<open>Chained records\<close>

definition wf_chained :: "chained_record \<Rightarrow> bool" where
  "wf_chained r \<longleftrightarrow> wf_event (ch_event r) \<and> (\<forall>s. ch_previous r = Some s \<longrightarrow> fullmatch SHA256_RE s)"

lemma chained_from_dict_Inr [py_simps]:
  "chained_from_dict v = Inr r \<longleftrightarrow>
     (\<exists>d. v = PDict d \<and> set (keys d) = set CHAIN_FIELDS \<and>
        event_from_dict (getv d ''event'') = Inr (ch_event r) \<and>
        getv d ''previous_event_sha256'' = of_opt (ch_previous r)) \<and> wf_chained r"
  by (cases r) (auto simp: chained_from_dict_def closed_object_Inr previous_hash_Inr event_from_dict_Inr wf_chained_def)

lemma chained_canon:
  assumes "wf_chained r"
  shows "chained_from_dict (canon (chained_to_dict r)) = Inr r"
proof -
  obtain d where d: "chained_to_dict r = PDict d" "distinct (keys d)" "set (keys d) = set CHAIN_FIELDS"
      "getv d ''event'' = event_to_dict (ch_event r)" "getv d ''previous_event_sha256'' = of_opt (ch_previous r)"
    by (simp add: chained_to_dict_def keys_def CHAIN_FIELDS_def getv_def)
  with assms show ?thesis
    by (simp add: chained_from_dict_Inr canon_PDict canon_simps event_canon wf_chained_def del: canon.simps)
qed

lemma plain_optional [simp]: "plain (of_opt a)"
  by (cases a) simp_all

lemma plain_audit_identity: "wf_audit_identity a \<Longrightarrow> plain (audit_identity_to_dict a)"
  by (simp add: audit_identity_to_dict_def wf_audit_identity_def identifier_fits int_fits_64
      AUDIT_EXECUTION_IDENTITY_SCHEMA_VERSION_def DEV_REPOSITORY_ID_def MAX_IDENTIFIER_def)

lemma plain_event: "wf_event e \<Longrightarrow> plain (event_to_dict e)"
  by (simp add: event_to_dict_def wf_event_def plain_audit_identity int_fits_64 AUDIT_SCHEMA_VERSION_def)

lemma plain_chained: "wf_chained r \<Longrightarrow> plain (chained_to_dict r)"
  by (simp add: chained_to_dict_def wf_chained_def plain_event)

lemma chained_loads:
  assumes "wf_chained r"
  shows "bnd (json_loads_bytes default_hooks (chained_canonical_bytes r)) chained_from_dict = Inr r"
  unfolding chained_canonical_bytes_def
  by (simp only: canonical_loads_bytes [OF keeps_pairs_default plain_chained [OF assms]] bnd_simps chained_canon [OF assms])

lemma chained_bytes_inject:
  assumes "wf_chained r" and "wf_chained s" and "chained_canonical_bytes r = chained_canonical_bytes s"
  shows "r = s"
  using chained_loads [OF assms(1)] chained_loads [OF assms(2)] unfolding assms(3) by (metis Inr_inject)

section \<open>Revalidation and identities\<close>

lemma exec_accepted: "wf_exec r \<Longrightarrow> exec_from_dict (exec_to_dict r) = Inr r"
  by (simp add: exec_from_dict_Inr exec_to_dict_def exec_items_def exec_image_items_def exec_token_items_def keys_def
      getv_def EXECUTOR_REQUEST_FIELDS_def wf_exec_def runtime_accepted secrets_accepted ingress_accepted py_eq_int)

lemma revalidate_wf:
  assumes "wf_exec r" and "exec_times_fit r"
  shows "revalidate_executor_request r = Inr r"
  by (simp add: revalidate_executor_request_def exec_accepted [OF assms(1)] exec_from_dict_canon [OF assms(1)]
      canonical_loads_bytes [OF keeps_pairs_default plain_exec_to_dict [OF assms]])

text \<open>The requests that can be audited: well formed, with times within 63 bits.\<close>

definition auditable :: "executor_request \<Rightarrow> bool" where
  "auditable r \<longleftrightarrow> wf_exec r \<and> xr_oidc_expires_at r \<le> MAX_IDENTIFIER"

lemma auditable_fits: "auditable r \<Longrightarrow> exec_times_fit r"
  by (auto simp: auditable_def wf_exec_def wf_exec_token_def exec_times_fit_def MAX_IDENTIFIER_def intro!: int_fits_64)

lemma auditable_revalidate: "auditable r \<Longrightarrow> revalidate_executor_request r = Inr r"
  by (simp add: revalidate_wf auditable_fits auditable_def)

lemma auditable_identity:
  assumes "auditable r"
  shows "identity_from_executor_request r = Inr (identity_of_request r)"
proof -
  have "fullmatch SHA256_RE (exec_request_sha256 r)" by (simp add: exec_request_sha256_def fullmatch_SHA256_RE)
  then have "wf_audit_identity (identity_of_request r)"
    using assms by (auto simp: auditable_def wf_exec_def wf_exec_token_def wf_audit_identity_def identity_of_request_def)
  then show ?thesis
    by (simp add: identity_from_executor_request_def auditable_revalidate [OF assms] audit_identity_accepted)
qed

definition event_of_request :: "executor_request \<Rightarrow> event_arguments \<Rightarrow> audit_event" where
  "event_of_request r a =
     \<lparr>ev_schema_version = AUDIT_SCHEMA_VERSION, ev_event_id = ea_event_id a, ev_event_type = ea_event_type a,
      ev_stage = xr_stage r, ev_release_version = xr_release_version r, ev_source_sha = xr_source_sha r,
      ev_oci_repository = xr_oci_repository r, ev_digest = xr_manifest_digest r,
      ev_previous_digest = ea_previous_digest a, ev_active_slot = ea_active_slot a,
      ev_candidate_slot = ea_candidate_slot a, ev_execution_identity = identity_of_request r,
      ev_migration_identity = ea_migration_identity a, ev_result = ea_result a, ev_timestamp = ea_timestamp a\<rparr>"

lemma event_for_auditable:
  "auditable r \<Longrightarrow> event_for_executor_request r a = event_from_dict (event_to_dict (event_of_request r a))"
  by (simp add: event_for_executor_request_def auditable_revalidate auditable_identity event_to_dict_def
      event_of_request_def)

lemma audit_identity_from_own_dict:
  assumes "audit_identity_from_dict (audit_identity_to_dict a) = Inr b"
  shows "b = a \<and> wf_audit_identity a"
proof -
  obtain d where d: "audit_identity_to_dict a = PDict d" "audit_identity_items d a"
    by (simp add: audit_identity_to_dict_def keys_def audit_identity_items_def EXECUTION_IDENTITY_FIELDS_def getv_def)
  with assms have "wf_audit_identity b" "audit_identity_items d b" by (simp_all add: audit_identity_from_dict_Inr)
  with d(2) show ?thesis by (cases a; cases b) (simp add: audit_identity_items_def)
qed

lemma of_opt_eq [simp]: "of_opt a = of_opt b \<longleftrightarrow> a = b"
  by (cases a; cases b) simp_all

lemma event_from_own_dict: "event_from_dict (event_to_dict e) = Inr e' \<longleftrightarrow> e' = e \<and> wf_event e"
proof (rule event_to_dict_items [of e])
  fix d
  assume d: "event_to_dict e = PDict d"
    "getv d ''execution_identity'' = audit_identity_to_dict (ev_execution_identity e)"
    "wf_audit_identity (ev_execution_identity e) \<Longrightarrow> event_items d e"
  show ?thesis
  proof
    assume "event_from_dict (event_to_dict e) = Inr e'"
    then have wf: "wf_event e'" and i: "event_items d e'" using d(1) by (simp_all add: event_from_dict_Inr)
    then have "wf_audit_identity (ev_execution_identity e)"
      using d(2) audit_identity_from_own_dict by (auto simp: event_items_def)
    with i d(3) have "e' = e" by (cases e; cases e') (simp add: event_items_def)
    with wf show "e' = e \<and> wf_event e" by simp
  qed (simp add: event_accepted)
qed

section \<open>The secret check\<close>

text \<open>
  Every marker ends in an equals sign, and no field that passes its own validator has one.
  The check of \<open>SENSITIVE_MARKERS\<close> is a second line of defence that no event reaches.
\<close>

lemma contains_set: "contains p s \<Longrightarrow> set p \<subseteq> set s"
proof (induction p s rule: contains.induct)
  case (2 p c cs)
  have "set p \<subseteq> set (c # cs)" if "starts_with p (c # cs)"
  proof -
    have "p = take (length p) (c # cs)" using that by (simp add: starts_with_def)
    then show ?thesis by (metis set_take_subset)
  qed
  with 2 show ?case by auto
qed simp

lemma to_lower_equals: "to_lower c = CHR ''='' \<longleftrightarrow> c = CHR ''=''"
proof (cases "rng (CHR ''A'') (CHR ''Z'') c")
  case True
  then have "65 \<le> (of_char c :: nat)" "(of_char c :: nat) \<le> 90" by (simp_all add: rng_def)
  then show ?thesis using True by (auto simp: to_lower_def char_of_eq_iff take_bit_eq_mod)
qed (simp add: to_lower_def)

lemma secret_like_equals: "secret_like s \<Longrightarrow> CHR ''='' \<in> set s"
proof -
  assume "secret_like s"
  then obtain m where m: "m \<in> set SENSITIVE_MARKERS" "contains m (map to_lower s)"
    by (auto simp: secret_like_def list_ex_iff)
  then have "CHR ''='' \<in> set m" by (auto simp: SENSITIVE_MARKERS_def)
  with contains_set [OF m(2)] have "CHR ''='' \<in> to_lower ` set s" by auto
  then obtain c where "c \<in> set s" "to_lower c = CHR ''=''" by force
  then show ?thesis by (simp add: to_lower_equals)
qed

lemma no_equals_sign:
  "fullmatch SEMVER_RE s \<Longrightarrow> CHR ''='' \<notin> set s" "fullmatch SOURCE_SHA_RE s \<Longrightarrow> CHR ''='' \<notin> set s"
  "fullmatch DIGEST_RE s \<Longrightarrow> CHR ''='' \<notin> set s" "fullmatch SHA256_RE s \<Longrightarrow> CHR ''='' \<notin> set s"
  "fullmatch IDENTITY_RE s \<Longrightarrow> CHR ''='' \<notin> set s" "fullmatch EVENT_ID_RE s \<Longrightarrow> CHR ''='' \<notin> set s"
  "fullmatch TIMESTAMP_RE s \<Longrightarrow> CHR ''='' \<notin> set s" "fullmatch JTI_RE s \<Longrightarrow> CHR ''='' \<notin> set s"
proof -
  have "\<not> may SEMVER_RE (CHR ''='')" "\<not> may SOURCE_SHA_RE (CHR ''='')" "\<not> may DIGEST_RE (CHR ''='')"
      "\<not> may SHA256_RE (CHR ''='')" "\<not> may IDENTITY_RE (CHR ''='')" "\<not> may EVENT_ID_RE (CHR ''='')"
      "\<not> may TIMESTAMP_RE (CHR ''='')" "\<not> may JTI_RE (CHR ''='')"
    by code_simp+
  then show "fullmatch SEMVER_RE s \<Longrightarrow> CHR ''='' \<notin> set s" "fullmatch SOURCE_SHA_RE s \<Longrightarrow> CHR ''='' \<notin> set s"
    "fullmatch DIGEST_RE s \<Longrightarrow> CHR ''='' \<notin> set s" "fullmatch SHA256_RE s \<Longrightarrow> CHR ''='' \<notin> set s"
    "fullmatch IDENTITY_RE s \<Longrightarrow> CHR ''='' \<notin> set s" "fullmatch EVENT_ID_RE s \<Longrightarrow> CHR ''='' \<notin> set s"
    "fullmatch TIMESTAMP_RE s \<Longrightarrow> CHR ''='' \<notin> set s" "fullmatch JTI_RE s \<Longrightarrow> CHR ''='' \<notin> set s"
    by (simp_all add: fullmatch_may)
qed

lemma no_equals_constants:
  "x \<in> set EVENT_TYPES \<Longrightarrow> CHR ''='' \<notin> set x" "x \<in> set RESULTS \<Longrightarrow> CHR ''='' \<notin> set x"
  "x \<in> set STAGES \<Longrightarrow> CHR ''='' \<notin> set x" "x \<in> set SLOTS \<Longrightarrow> CHR ''='' \<notin> set x"
  "x \<in> set APPROVED_OCI_REPOSITORIES \<Longrightarrow> CHR ''='' \<notin> set x" "CHR ''='' \<notin> set DEV_WORKFLOW_REF"
proof -
  have "list_all (\<lambda>x. CHR ''='' \<notin> set x)
      (EVENT_TYPES @ RESULTS @ STAGES @ SLOTS @ APPROVED_OCI_REPOSITORIES @ [DEV_WORKFLOW_REF])"
    by code_simp
  then show "x \<in> set EVENT_TYPES \<Longrightarrow> CHR ''='' \<notin> set x" "x \<in> set RESULTS \<Longrightarrow> CHR ''='' \<notin> set x"
    "x \<in> set STAGES \<Longrightarrow> CHR ''='' \<notin> set x" "x \<in> set SLOTS \<Longrightarrow> CHR ''='' \<notin> set x"
    "x \<in> set APPROVED_OCI_REPOSITORIES \<Longrightarrow> CHR ''='' \<notin> set x" "CHR ''='' \<notin> set DEV_WORKFLOW_REF"
    by (auto simp: list_all_iff)
qed

lemma no_equals_identity: "wf_audit_identity a \<Longrightarrow> no_equals (audit_identity_to_dict a)"
  by (simp add: audit_identity_to_dict_def wf_audit_identity_def no_equals_sign no_equals_constants jti_ok_def)

lemma no_equals_of_opt: "(\<And>s. a = Some s \<Longrightarrow> CHR ''='' \<notin> set s) \<Longrightarrow> no_equals (of_opt a)"
  by (cases a) simp_all

lemma event_no_equals:
  assumes "wf_event_text e" and "wf_event_kind e" and "wf_audit_identity (ev_execution_identity e)"
  shows "CHR ''='' \<notin> set (event_canonical_bytes e)"
proof -
  have "no_equals (of_opt (ev_previous_digest e))" "no_equals (of_opt (ev_active_slot e))"
      "no_equals (of_opt (ev_candidate_slot e))" "no_equals (of_opt (ev_migration_identity e))"
    using assms(2) by (auto intro!: no_equals_of_opt simp: wf_event_kind_def no_equals_sign no_equals_constants)
  then have "no_equals (event_to_dict e)"
    using assms by (simp add: event_to_dict_def wf_event_text_def wf_event_kind_def no_equals_sign no_equals_constants
        no_equals_identity)
  then show ?thesis
    using json_dumps_no_equals by (auto simp: event_canonical_bytes_def canonical_bytes_def NEWLINE_def)
qed

lemma wf_event_iff:
  "wf_event e \<longleftrightarrow>
     ev_schema_version e = AUDIT_SCHEMA_VERSION \<and> wf_event_text e \<and> wf_event_kind e \<and>
     wf_audit_identity (ev_execution_identity e) \<and> length (event_canonical_bytes e) \<le> MAX_EVENT_BYTES"
  using event_no_equals secret_like_equals by (auto simp: wf_event_def)

section \<open>What the operations raise\<close>

abbreviation audit_errors :: "exn set" where
  "audit_errors \<equiv> {DeploymentPolicyError, OIDCAuthorizationError}"

lemma audit_integers_raise [raise_rules]:
  "raises_only audit_errors (audit_positive_integer v)" "raises_only audit_errors (audit_epoch v)"
  by (auto simp: raises_only_def audit_positive_integer_def audit_epoch_def split: pyval.splits if_splits)

lemma audit_identity_from_dict_raises [raise_rules]: "raises_only audit_errors (audit_identity_from_dict v)"
  unfolding audit_identity_from_dict_def by (auto intro!: raise_rules)

lemma optional_by_raises [raise_rules]: "raises_only E (f v) \<Longrightarrow> raises_only E (optional_by f v)"
  by (auto simp: optional_by_def intro!: raise_rules)

lemma event_from_dict_raises [raise_rules]: "raises_only audit_errors (event_from_dict v)"
proof -
  have str: "raises_only audit_errors (str_of x)" if "is_str x" for x
    using that by (auto simp: is_str_iff str_of_def)
  show ?thesis
    unfolding event_from_dict_def Let_def by (auto intro!: raise_rules str)
qed

lemma revalidate_raises [raise_rules]:
  "DeploymentPolicyError \<in> E \<Longrightarrow> raises_only E (revalidate_executor_request r)"
proof -
  assume E: "DeploymentPolicyError \<in> E"
  have "raises_only {ExecutorRequestError, JSONDecodeError, ValueError, UnicodeDecodeError}
      (json_loads_bytes default_hooks b)" for b
    using json_loads_bytes_Inl [OF hooks_raise_default] by (auto simp: raises_only_def json_errors_def)
  then show ?thesis
    unfolding revalidate_executor_request_def
    by (intro raises_only_catch_as [where F = "{ExecutorRequestError, JSONDecodeError, ValueError, UnicodeDecodeError}"]
        raises_only_bnd raises_only_mono [OF exec_from_dict_raises])
      (auto simp: caught_def isinstance_exn_def E)
qed

lemma identity_from_executor_request_raises [raise_rules]:
  "raises_only audit_errors (identity_from_executor_request r)"
  unfolding identity_from_executor_request_def by (auto intro!: raise_rules)

section \<open>Properties\<close>

text \<open>
  C35: The audit event made for an executor request binds exactly that request.  For a
  well-formed request whose token times fit 63 bits, an event returned by \<open>for_executor_request\<close> is well formed (in particular within 16 KiB and free of secret-like text), carries
  the hash of the request's canonical bytes and passes \<open>require_executor_request\<close>; and a
  second request that it passes with has the same canonical bytes hash, so that it is the
  same request or a SHA-256 collision.
\<close>

theorem audit_event_binds_request:
  assumes "auditable r" and "event_for_executor_request r a = Inr e"
  shows "wf_event e \<and> ai_executor_request_sha256 (ev_execution_identity e) = sha256_hex (exec_canonical_bytes r) \<and>
    require_executor_request e r = Inr () \<and>
    (\<forall>r'. auditable r' \<and> require_executor_request e r' = Inr () \<longrightarrow>
       r' = r \<or> (exec_canonical_bytes r' \<noteq> exec_canonical_bytes r \<and>
                 sha256_hex (exec_canonical_bytes r') = sha256_hex (exec_canonical_bytes r)))"
proof -
  have e: "e = event_of_request r a" "wf_event e"
    using assms by (auto simp: event_for_auditable event_from_own_dict)
  have own: "event_from_dict (event_to_dict e) = Inr e" using e(2) by (simp add: event_accepted)
  have req: "require_executor_request e r' = Inr () \<Longrightarrow> identity_of_request r' = identity_of_request r"
    if "auditable r'" for r'
    using that own e(1) by (auto simp: require_executor_request_def auditable_revalidate auditable_identity
        event_of_request_def split: if_splits)
  have same: "r' = r" if "auditable r'" "exec_canonical_bytes r' = exec_canonical_bytes r" for r'
  proof -
    have "wf_exec r" "wf_exec r'" using assms(1) that(1) by (simp_all add: auditable_def)
    moreover have "canon (exec_to_dict r') = canon (exec_to_dict r)"
      using that(2) unfolding exec_canonical_bytes_def
      by (rule canonical_bytes_inject [rotated 2])
        (use assms(1) that(1) in \<open>auto intro!: plain_exec_to_dict auditable_fits simp: auditable_def\<close>)
    ultimately show ?thesis using exec_from_dict_canon by (metis Inr_inject)
  qed
  have "require_executor_request e r = Inr ()"
    using own e assms(1) by (simp add: require_executor_request_def auditable_revalidate auditable_identity
        event_of_request_def)
  moreover have "ai_executor_request_sha256 (ev_execution_identity e) = sha256_hex (exec_canonical_bytes r)"
    by (simp add: e(1) event_of_request_def identity_of_request_def exec_request_sha256_def)
  moreover have "sha256_hex (exec_canonical_bytes r') = sha256_hex (exec_canonical_bytes r)"
    if "auditable r'" "require_executor_request e r' = Inr ()" for r'
    using req [OF that] by (simp add: identity_of_request_def exec_request_sha256_def)
  ultimately show ?thesis using e(2) same by blast
qed

text \<open>An event for the sample request.\<close>

definition sample_event_arguments :: event_arguments where
  "sample_event_arguments =
     \<lparr>ea_event_id = ''evt-1'', ea_event_type = ''promotion_started'', ea_previous_digest = None,
      ea_active_slot = None, ea_candidate_slot = Some ''blue'', ea_migration_identity = None,
      ea_result = ''started'', ea_timestamp = ''2026-01-02T03:04:05Z''\<rparr>"

lemma sample_event_texts:
  "fullmatch EVENT_ID_RE ''evt-1''" "fullmatch TIMESTAMP_RE ''2026-01-02T03:04:05Z''"
  "''promotion_started'' \<in> set EVENT_TYPES" "''started'' \<in> set RESULTS" "''blue'' \<in> set SLOTS"
  "\<not> starts_with ''migration_'' ''promotion_started''" "\<not> starts_with ''rollback_'' ''promotion_started''"
  "''dev'' \<in> set STAGES"
  by code_simp+

lemma sample_auditable: "auditable sample_exec"
  using sample_exec_wf by (simp add: auditable_def sample_exec_def MAX_IDENTIFIER_def)

lemma sample_event_wf: "wf_event (event_of_request sample_exec sample_event_arguments)"
  (is "wf_event ?e")
proof -
  have "wf_event_text ?e" "wf_event_kind ?e"
    using sample_event_texts sample_texts_ok dev_repository_approved
    by (simp_all add: wf_event_text_def wf_event_kind_def event_of_request_def sample_event_arguments_def sample_exec_def)
  moreover have "wf_audit_identity (ev_execution_identity ?e)"
    using auditable_identity [OF sample_auditable]
    by (simp add: identity_from_executor_request_def auditable_revalidate [OF sample_auditable]
        audit_identity_from_dict_Inr event_of_request_def)
  moreover have "print_bound (event_to_dict ?e) \<le> 16000"
    by (simp add: event_to_dict_def audit_identity_to_dict_def event_of_request_def identity_of_request_def
        exec_request_sha256_def sample_event_arguments_def sample_exec_def AUDIT_SCHEMA_VERSION_def
        AUDIT_EXECUTION_IDENTITY_SCHEMA_VERSION_def DEV_REPOSITORY_ID_def DEV_WORKFLOW_REF_def sample_commit_def
        sample_hash_def sample_image_digest_def DEV_OCI_REPOSITORY_def)
  then have "length (event_canonical_bytes ?e) \<le> MAX_EVENT_BYTES"
    using length_json_dumps [of "event_to_dict ?e"]
    by (simp add: event_canonical_bytes_def canonical_bytes_def MAX_EVENT_BYTES_def)
  ultimately show ?thesis by (simp add: wf_event_iff event_of_request_def)
qed

lemma sample_event_for:
  "event_for_executor_request sample_exec sample_event_arguments = Inr (event_of_request sample_exec sample_event_arguments)"
  using sample_event_wf by (simp add: event_for_auditable [OF sample_auditable] event_accepted)

theorem audit_event_binds_request_witness:
  "wf_event (event_of_request sample_exec sample_event_arguments) \<and>
   require_executor_request (event_of_request sample_exec sample_event_arguments) sample_exec = Inr ()"
  using audit_event_binds_request [OF sample_auditable sample_event_for] by blast

text \<open>
  Audit events are validated to one normal form.  An accepted dictionary gives a
  well-formed event, whose own dictionary is accepted again and gives the same event; an
  accepted event never prints an equals sign, which every secret marker contains; refusals are
  \<open>DeploymentPolicyError\<close> or its subclass \<open>OIDCAuthorizationError\<close>.
\<close>

theorem event_from_dict_normal_form:
  "case event_from_dict v of
     Inl err \<Rightarrow> err = DeploymentPolicyError \<or> err = OIDCAuthorizationError
   | Inr e \<Rightarrow> wf_event e \<and> event_from_dict (audit_event_mapping e) = Inr e \<and>
       event_from_dict (canon (event_to_dict e)) = Inr e \<and> CHR ''='' \<notin> set (event_canonical_bytes e)"
  using raises_onlyD [OF event_from_dict_raises, of v]
  by (auto simp: event_from_dict_Inr [of v] event_from_own_dict event_canon event_no_equals wf_event_iff
      split: sum.splits)

end
