(* ===== verification/Audit_Sink.thy ===== *)
theory Audit_Sink
  imports Audit_Event Py_Fs
begin

text \<open>
  \<open>src/deployment/audit.py\<close>, second part: \<open>FilesystemAuditSink\<close>.  The world is the audit
  directory: its own node, the entries in it, and a schedule of faults, so that any file
  system call may raise any exception, and a bound on what one \<open>os.write\<close> accepts.  Gzip is a
  pair of functions passed as an argument.  The exclusive lock serialises appends, so that
  one append at a time changes the directory.
\<close>

section \<open>Constants and the directory\<close>

definition AUDIT_NAME :: string where "AUDIT_NAME = ''events.jsonl''"
definition ROTATE_BYTES :: nat where "ROTATE_BYTES = 10 * 1024 * 1024"
definition ROTATION_RETENTION :: nat where "ROTATION_RETENTION = 14"

definition ROTATED_RE :: rexp where
  "ROTATED_RE =
     Cat (Lit ''events.jsonl.'') (Cat (Times 8 DIGIT) (Cat (Lit ''T'') (Cat (Times 6 DIGIT) (Cat (Lit ''Z.'')
       (Cat (Times 12 (Cls is_lower_hex)) (Alt Eps (Lit ''.gz'')))))))"

record gzip_codec =
  gz_compress :: "string \<Rightarrow> string"
  gz_decompress :: "string \<Rightarrow> string result"

record audit_sink =
  sk_name :: string
  sk_rotate_bytes :: nat

definition sink_init :: "string \<Rightarrow> nat \<Rightarrow> nat \<Rightarrow> audit_sink result" where
  "sink_init name rotate_bytes retention =
     (if \<not> (1024 \<le> rotate_bytes \<and> rotate_bytes \<le> ROTATE_BYTES) then Inl DeploymentPolicyError
      else if retention \<noteq> ROTATION_RETENTION then Inl DeploymentPolicyError
      else Inr \<lparr>sk_name = name, sk_rotate_bytes = rotate_bytes\<rparr>)"

record audit_world =
  aw_directory :: node
  aw_entries :: "(string \<times> node) list"
  aw_faults :: "exn option list"
  aw_write_limit :: "nat option"

definition entry :: "audit_world \<Rightarrow> string \<Rightarrow> node" where
  "entry w n = (case map_of (aw_entries w) n of Some nd \<Rightarrow> nd | None \<Rightarrow> Missing)"

definition drop_entry :: "string \<Rightarrow> audit_world \<Rightarrow> audit_world" where
  "drop_entry n w = w\<lparr>aw_entries := filter (\<lambda>(m, nd). m \<noteq> n) (aw_entries w)\<rparr>"

definition set_entry :: "string \<Rightarrow> node \<Rightarrow> audit_world \<Rightarrow> audit_world" where
  "set_entry n nd w = w\<lparr>aw_entries := (n, nd) # filter (\<lambda>(m, nd). m \<noteq> n) (aw_entries w)\<rparr>"

section \<open>Calls\<close>

definition call :: "(audit_world, 'a) act \<Rightarrow> (audit_world, 'a) act" where
  "call f w =
     (case aw_faults w of
        [] \<Rightarrow> f w
      | flt # rest \<Rightarrow>
          (case flt of Some e \<Rightarrow> (Inl e, w\<lparr>aw_faults := rest\<rparr>) | None \<Rightarrow> f (w\<lparr>aw_faults := rest\<rparr>)))"

definition quiet :: "(audit_world, unit) act" where
  "quiet = call (\<lambda>w. (Inr (), w))"

definition make_directory :: "(audit_world, unit) act" where
  "make_directory = call (\<lambda>w.
     if aw_directory w = Missing then (Inr (), w\<lparr>aw_directory := Directory 448\<rparr>)
     else if is_directory (aw_directory w) then (Inr (), w) else (Inl OSError, w))"

definition chmod_directory :: "(audit_world, unit) act" where
  "chmod_directory = call (\<lambda>w. (Inr (), w\<lparr>aw_directory := with_mode 448 (aw_directory w)\<rparr>))"

text \<open>\<open>os.open(name, O_CREAT | O_NOFOLLOW | ...)\<close>, then \<open>os.fchmod(fd, 0o600)\<close>\<close>

definition open_create :: "string \<Rightarrow> (audit_world, unit) act" where
  "open_create n = call (\<lambda>w.
     case entry w n of
       Missing \<Rightarrow> (Inr (), set_entry n (Regular 384 []) w)
     | Regular _ _ \<Rightarrow> (Inr (), w)
     | _ \<Rightarrow> (Inl OSError, w))"

definition fchmod_entry :: "string \<Rightarrow> (audit_world, unit) act" where
  "fchmod_entry n = call (\<lambda>w. (Inr (), set_entry n (with_mode 384 (entry w n)) w))"

text \<open>\<open>os.write\<close> appends a prefix of the bytes and returns its length.\<close>

definition write_bytes :: "string \<Rightarrow> string \<Rightarrow> (audit_world, nat) act" where
  "write_bytes n bytes = call (\<lambda>w.
     let k = (case aw_write_limit w of None \<Rightarrow> length bytes | Some m \<Rightarrow> min m (length bytes)) in
     case entry w n of
       Regular m b \<Rightarrow> (Inr k, set_entry n (Regular m (b @ take k bytes)) w)
     | _ \<Rightarrow> (Inl OSError, w))"

definition read_entry :: "string \<Rightarrow> (audit_world, string) act" where
  "read_entry n = call (\<lambda>w.
     case entry w n of
       Regular _ b \<Rightarrow> (Inr b, w) | Missing \<Rightarrow> (Inl FileNotFoundError, w) | _ \<Rightarrow> (Inl OSError, w))"

definition rename_entry :: "string \<Rightarrow> string \<Rightarrow> (audit_world, unit) act" where
  "rename_entry source target = call (\<lambda>w.
     case (entry w source, entry w target) of
       (Missing, _) \<Rightarrow> (Inl FileNotFoundError, w)
     | (_, Directory _) \<Rightarrow> (Inl OSError, w)
     | (nd, _) \<Rightarrow> (Inr (), set_entry target nd (drop_entry source w)))"

definition unlink_entry :: "string \<Rightarrow> (audit_world, unit) act" where
  "unlink_entry n = call (\<lambda>w.
     case entry w n of
       Missing \<Rightarrow> (Inl FileNotFoundError, w)
     | Directory _ \<Rightarrow> (Inl OSError, w)
     | _ \<Rightarrow> (Inr (), drop_entry n w))"

definition unlink_missing_ok :: "string \<Rightarrow> (audit_world, unit) act" where
  "unlink_missing_ok n = call (\<lambda>w.
     case entry w n of Directory _ \<Rightarrow> (Inl OSError, w) | _ \<Rightarrow> (Inr (), drop_entry n w))"

section \<open>Reading the history\<close>

text \<open>\<open>bytes.splitlines(keepends=True)\<close>: lines end at a line feed, a carriage return or both.\<close>

definition CR :: char where "CR = CHR 0x0D"

fun splitlines :: "string \<Rightarrow> string list" where
  "splitlines [] = []"
| "splitlines (c # cs) =
     (if c = NEWLINE then [c] # splitlines cs
      else if c = CR then
        (case cs of
           d # ds \<Rightarrow> if d = NEWLINE then [c, d] # splitlines ds else [c] # splitlines cs
         | [] \<Rightarrow> [[c]])
      else (case splitlines cs of [] \<Rightarrow> [[c]] | l # ls \<Rightarrow> (c # l) # ls))"

definition decode_line :: "string \<Rightarrow> chained_record result" where
  "decode_line line =
     (if MAX_EVENT_BYTES < length line then Inl DeploymentPolicyError
      else
      bnd (catch_as [UnicodeDecodeError, JSONDecodeError] DeploymentPolicyError (json_loads_bytes default_hooks line)) (\<lambda>v.
      bnd (chained_from_dict v) (\<lambda>record.
      if chained_canonical_bytes record \<noteq> line then Inl DeploymentPolicyError else Inr record)))"

definition decode_lines :: "string \<Rightarrow> chained_record list result" where
  "decode_lines raw =
     (if raw \<noteq> [] \<and> last raw \<noteq> NEWLINE then Inl DeploymentPolicyError
      else traverse decode_line (splitlines raw))"

definition is_history :: "audit_sink \<Rightarrow> string \<Rightarrow> bool" where
  "is_history sk n \<longleftrightarrow> n = sk_name sk \<or> fullmatch ROTATED_RE n"

definition list_history :: "audit_sink \<Rightarrow> (audit_world, string list) act" where
  "list_history sk = call (\<lambda>w.
     let candidates = filter (\<lambda>(n, nd). is_history sk n) (aw_entries w) in
     if list_ex (\<lambda>(n, nd). is_symlink nd \<or> \<not> is_regular nd) candidates then (Inl DeploymentPolicyError, w)
     else let names = map fst candidates in
       (Inr (sort (filter (\<lambda>n. n \<noteq> sk_name sk) names) @
             (if sk_name sk \<in> set names then [sk_name sk] else [])), w))"

definition audit_files :: "audit_sink \<Rightarrow> (audit_world, string list) act" where
  "audit_files sk w = (if aw_directory w = Missing then (Inr [], w) else list_history sk w)"

text \<open>\<open>path.suffix == ".gz"\<close>\<close>

definition gz_name :: "string \<Rightarrow> bool" where
  "gz_name n \<longleftrightarrow> 3 < length n \<and> drop (length n - 3) n = ''.gz''"

text \<open>\<open>stream.read(n)\<close> returns at most \<open>n\<close> bytes; only the length test below looks at more.\<close>

definition audit_read :: "gzip_codec \<Rightarrow> string \<Rightarrow> (audit_world, string) act" where
  "audit_read gz n w =
     (let (r, w') = read_entry n w;
          raw = (if gz_name n
                 then catch_as [OSError] DeploymentPolicyError
                   (bnd r (\<lambda>b. bnd (gz_decompress gz b) (\<lambda>t. Inr (take (ROTATE_BYTES + MAX_EVENT_BYTES + 1) t))))
                 else r) in
      (bnd raw (\<lambda>b. if ROTATE_BYTES + MAX_EVENT_BYTES < length b then Inl DeploymentPolicyError else Inr b), w'))"

text \<open>The loop of \<open>_validate_history\<close> over the records of one file and over the files.\<close>

record chain_scan =
  cs_previous :: "string option"
  cs_event_ids :: "string list"
  cs_last_day :: "string option"
  cs_first :: bool

definition scan_record :: "bool \<Rightarrow> chain_scan \<Rightarrow> chained_record \<Rightarrow> chain_scan result" where
  "scan_record anchored s record =
     (let previous = (if cs_first s \<and> anchored then ch_previous record else cs_previous s) in
      if ch_previous record \<noteq> previous then Inl DeploymentPolicyError
      else if ev_event_id (ch_event record) \<in> set (cs_event_ids s) then Inl DeploymentPolicyError
      else Inr \<lparr>cs_previous = Some (chained_sha256 record),
                cs_event_ids = ev_event_id (ch_event record) # cs_event_ids s,
                cs_last_day = Some (take 10 (ev_timestamp (ch_event record))), cs_first = False\<rparr>)"

fun scan_records :: "bool \<Rightarrow> chain_scan \<Rightarrow> chained_record list \<Rightarrow> chain_scan result" where
  "scan_records anchored s [] = Inr s"
| "scan_records anchored s (r # rs) = bnd (scan_record anchored s r) (\<lambda>s'. scan_records anchored s' rs)"

fun scan_files :: "gzip_codec \<Rightarrow> bool \<Rightarrow> chain_scan \<Rightarrow> string list \<Rightarrow> (audit_world, chain_scan) act" where
  "scan_files gz anchored s [] = act_lift (Inr s)"
| "scan_files gz anchored s (n # ns) =
     act_bind (audit_read gz n) (\<lambda>raw.
     act_bind (act_lift (bnd (decode_lines raw) (scan_records anchored s))) (\<lambda>s'.
     scan_files gz anchored s' ns))"

definition scan_start :: chain_scan where
  "scan_start = \<lparr>cs_previous = None, cs_event_ids = [], cs_last_day = None, cs_first = True\<rparr>"

definition validate_history :: "gzip_codec \<Rightarrow> audit_sink \<Rightarrow> (audit_world, chain_scan) act" where
  "validate_history gz sk =
     act_bind (audit_files sk) (\<lambda>files.
       scan_files gz (files \<noteq> [] \<and> hd files \<noteq> sk_name sk) scan_start files)"

section \<open>Rotation\<close>

definition compress_name :: "string \<Rightarrow> string" where
  "compress_name drawn = ''.audit-compress.'' @ drawn"

text \<open>\<open>mkstemp\<close> draws \<open>drawn\<close>; the file is created empty with mode 0600.\<close>

definition compress_one :: "gzip_codec \<Rightarrow> string \<Rightarrow> string \<Rightarrow> (audit_world, unit) act" where
  "compress_one gz drawn source =
     (let target = source @ ''.gz''; temporary = compress_name drawn in
      act_bind (open_create temporary) (\<lambda>_.
      act_catch
        (act_bind (fchmod_entry temporary) (\<lambda>_.
         act_bind (read_entry source) (\<lambda>bytes.
         act_bind (call (\<lambda>w. (Inr (), set_entry temporary (Regular 384 (gz_compress gz bytes)) w))) (\<lambda>_.
         act_bind quiet (\<lambda>_ w.
         if entry w target \<noteq> Missing then (Inl DeploymentPolicyError, w)
         else act_bind (rename_entry temporary target) (\<lambda>_. unlink_entry source) w)))))
        (\<lambda>e. act_bind (unlink_missing_ok temporary) (\<lambda>_. act_lift (Inl e)))))"

fun compress_all :: "gzip_codec \<Rightarrow> string \<Rightarrow> string list \<Rightarrow> (audit_world, unit) act" where
  "compress_all gz drawn [] = act_lift (Inr ())"
| "compress_all gz drawn (n # ns) = act_bind (compress_one gz drawn n) (\<lambda>_. compress_all gz drawn ns)"

text \<open>\<open>while len(rotations) > self.retention: rotations.pop(0).unlink()\<close>\<close>

fun drop_oldest :: "string list \<Rightarrow> (audit_world, unit) act" where
  "drop_oldest [] = act_lift (Inr ())"
| "drop_oldest (n # ns) =
     (if ROTATION_RETENTION < length (n # ns) then act_bind (unlink_entry n) (\<lambda>_. drop_oldest ns)
      else act_lift (Inr ()))"

definition compress_delayed :: "gzip_codec \<Rightarrow> string \<Rightarrow> audit_sink \<Rightarrow> string \<Rightarrow> (audit_world, unit) act" where
  "compress_delayed gz drawn sk newest =
     act_bind (audit_files sk) (\<lambda>files.
     act_bind (compress_all gz drawn
       (filter (\<lambda>n. \<not> gz_name n \<and> n \<noteq> newest) (filter (\<lambda>n. n \<noteq> sk_name sk) files))) (\<lambda>_.
     act_bind (audit_files sk) (\<lambda>files. drop_oldest (filter (\<lambda>n. n \<noteq> sk_name sk) files))))"

definition rotation_name :: "string \<Rightarrow> string \<Rightarrow> string" where
  "rotation_name prev last_timestamp =
     ''events.jsonl.'' @ filter (\<lambda>c. c \<noteq> CHR ''-'' \<and> c \<noteq> CHR '':'') last_timestamp @ ''.'' @ take 12 prev"

definition rotate_log :: "gzip_codec \<Rightarrow> string \<Rightarrow> audit_sink \<Rightarrow> string \<Rightarrow> string \<Rightarrow> (audit_world, unit) act" where
  "rotate_log gz drawn sk prev last_timestamp w =
     (let target = rotation_name prev last_timestamp in
      if entry w target \<noteq> Missing then (Inl DeploymentPolicyError, w)
      else act_bind (rename_entry (sk_name sk) target) (\<lambda>_. compress_delayed gz drawn sk target) w)"

section \<open>Appending\<close>

text \<open>The two \<open>try: ... finally: os.close\<close> blocks after the history was validated.\<close>

definition finally_close :: "(audit_world, unit) act \<Rightarrow> (audit_world, unit) act" where
  "finally_close m =
     act_bind (act_catch m (\<lambda>e. act_bind quiet (\<lambda>_. act_lift (Inl e)))) (\<lambda>_. quiet)"

definition write_record :: "string \<Rightarrow> string \<Rightarrow> (audit_world, unit) act" where
  "write_record n payload =
     act_bind (open_create n) (\<lambda>_.
     act_bind (finally_close
       (act_bind (fchmod_entry n) (\<lambda>_.
        act_bind (write_bytes n payload) (\<lambda>written.
        if written \<noteq> length payload then act_lift (Inl DeploymentPolicyError) else quiet)))) (\<lambda>_.
     act_bind quiet (\<lambda>_. finally_close quiet)))"

definition entry_size :: "node \<Rightarrow> nat" where
  "entry_size nd = (case nd of Regular _ b \<Rightarrow> length b | _ \<Rightarrow> 0)"

definition must_rotate :: "audit_sink \<Rightarrow> nat \<Rightarrow> nat \<Rightarrow> string option \<Rightarrow> string \<Rightarrow> bool" where
  "must_rotate sk current_size payload_size last_day day \<longleftrightarrow>
     0 < current_size \<and>
     (sk_rotate_bytes sk < current_size + payload_size \<or> (last_day \<noteq> None \<and> last_day \<noteq> Some day))"

definition append_locked :: "gzip_codec \<Rightarrow> string \<Rightarrow> audit_sink \<Rightarrow> audit_event \<Rightarrow> (audit_world, unit) act" where
  "append_locked gz drawn sk event =
     act_bind (validate_history gz sk) (\<lambda>s w.
     if ev_event_id event \<in> set (cs_event_ids s) then (Inl DeploymentPolicyError, w)
     else
     let payload = chained_canonical_bytes \<lparr>ch_event = event, ch_previous = cs_previous s\<rparr> in
     if MAX_EVENT_BYTES < length payload then (Inl DeploymentPolicyError, w)
     else if must_rotate sk (entry_size (entry w (sk_name sk))) (length payload) (cs_last_day s)
               (take 10 (ev_timestamp event))
     then (case cs_previous s of
             None \<Rightarrow> (Inl AssertionError, w)
           | Some previous \<Rightarrow>
               act_bind (read_entry (sk_name sk)) (\<lambda>raw.
               act_bind (act_lift (decode_lines raw)) (\<lambda>records.
               act_bind (rotate_log gz drawn sk previous (ev_timestamp (ch_event (last records)))) (\<lambda>_.
               write_record (sk_name sk) payload))) w)
     else write_record (sk_name sk) payload w)"

definition LOCK_NAME :: string where "LOCK_NAME = ''.events.lock''"

definition audit_append :: "gzip_codec \<Rightarrow> string \<Rightarrow> audit_sink \<Rightarrow> audit_event \<Rightarrow> (audit_world, unit) act" where
  "audit_append gz drawn sk raw_event =
     act_bind (act_lift (catch_as [AttributeError, TypeError, DeploymentPolicyError] DeploymentPolicyError
                 (event_from_dict (audit_event_mapping raw_event)))) (\<lambda>event.
     act_bind make_directory (\<lambda>_ w.
     if is_symlink (aw_directory w) \<or> \<not> is_directory (aw_directory w) then (Inl DeploymentPolicyError, w)
     else
     act_bind chmod_directory (\<lambda>_.
     act_bind (open_create LOCK_NAME) (\<lambda>_.
     act_catch
       (act_bind (fchmod_entry LOCK_NAME) (\<lambda>_.
        finally_close (act_bind quiet (\<lambda>_. append_locked gz drawn sk event))))
       (\<lambda>e. act_lift (Inl (if caught e [OSError] then DeploymentPolicyError else e))))) w))"

section \<open>Lines\<close>

definition inked :: "char \<Rightarrow> bool" where
  "inked c \<longleftrightarrow> 32 \<le> (of_char c :: nat)"

lemma inked_lit [simp]: "inked (CHR ''['')" "inked (CHR '']'')" "inked (CHR ''{'')" "inked (CHR ''}'')"
  "inked (CHR '','')" "inked (CHR '':'')" "inked (CHR ''-'')"
  by (simp_all add: inked_def)

lemma inked_escape_char: "list_all inked (escape_char c)"
proof -
  have "inked (hex_digit d)" if "d < 16" for d
    using that by (simp add: hex_digit_def inked_def)
  moreover have "(of_char c :: nat) div 16 < 16" "(of_char c :: nat) mod 16 < 16"
    by (simp_all add: less_mult_imp_div_less)
  ultimately show ?thesis
    by (simp add: escape_char_def Let_def) (simp add: inked_def QUOTE_def BACKSLASH_def)
qed

lemma inked_quote: "list_all inked (quote s)"
proof -
  have "list_all inked (concat (map escape_char s))" by (induction s) (simp_all add: inked_escape_char)
  then show ?thesis by (simp add: quote_def inked_def QUOTE_def)
qed

lemma inked_join: "(\<And>x. x \<in> set xs \<Longrightarrow> list_all inked x) \<Longrightarrow> list_all inked (join '','' xs)"
  by (induction "'',''" xs rule: join.induct) simp_all

lemma inked_nat_str: "list_all inked (nat_str n)"
  using nat_str_digits [of n] by (auto simp: list_all_iff is_digit_def rng_def inked_def)

lemma render_inked: "plain v \<Longrightarrow> list_all inked (render v)"
proof (induction v rule: plain.induct)
  case (3 i)
  show ?case by (simp add: str_of_int_def inked_nat_str)
next
  case (6 xs)
  have "list_all inked (join '','' (map render xs))"
    using 6 by (intro inked_join) (auto simp: list_all_iff)
  then show ?case by simp
next
  case (7 kvs)
  have "list_all inked (join '','' (map render_item kvs))"
  proof (rule inked_join)
    fix x
    assume "x \<in> set (map render_item kvs)"
    then obtain k u where "(k, u) \<in> set kvs" "x = render_item (k, u)" by auto
    with 7 inked_quote [of k] show "list_all inked x" by (auto simp: render_item_def list_all_iff)
  qed
  then show ?case by (simp add: render_dict del: render.simps)
qed (simp_all add: inked_quote, simp_all add: inked_def)

lemma splitlines_concat: "concat (splitlines s) = s"
proof (induction s rule: splitlines.induct)
  case (2 c cs)
  show ?case
  proof (cases "c = NEWLINE \<or> c \<noteq> CR")
    case True
    with 2 show ?thesis by (cases "splitlines cs") auto
  next
    case False
    with 2 show ?thesis by (cases cs) simp_all
  qed
qed simp

lemma splitlines_line:
  "list_all inked b \<Longrightarrow> splitlines (b @ NEWLINE # s) = (b @ [NEWLINE]) # splitlines s"
proof (induction b)
  case (Cons c b)
  then have "c \<noteq> NEWLINE" "c \<noteq> CR" by (auto simp: inked_def NEWLINE_def CR_def)
  with Cons show ?case by simp
qed simp

lemma canonical_line:
  "plain v \<Longrightarrow> \<exists>b. canonical_bytes v = b @ [NEWLINE] \<and> list_all inked b"
  by (simp add: canonical_bytes_def json_dumps_def render_inked plain_canon)

lemma chained_line:
  assumes "wf_chained r"
  obtains b where "chained_canonical_bytes r = b @ [NEWLINE]" "list_all inked b"
  using canonical_line [OF plain_chained [OF assms]] by (auto simp: chained_canonical_bytes_def)

lemma splitlines_records:
  "list_all wf_chained rs \<Longrightarrow> splitlines (concat (map chained_canonical_bytes rs)) = map chained_canonical_bytes rs"
proof (induction rs)
  case (Cons r rs)
  from Cons.prems have "wf_chained r" by simp
  then obtain b where "chained_canonical_bytes r = b @ [NEWLINE]" "list_all inked b" by (rule chained_line)
  with Cons show ?case by (simp add: splitlines_line)
qed simp

section \<open>What decoding accepts\<close>

text \<open>Records that a line can hold.\<close>

definition storable :: "chained_record \<Rightarrow> bool" where
  "storable r \<longleftrightarrow> wf_chained r \<and> length (chained_canonical_bytes r) \<le> MAX_EVENT_BYTES"

lemma decode_line_Inr: "decode_line line = Inr r \<longleftrightarrow> line = chained_canonical_bytes r \<and> storable r"
proof
  assume "decode_line line = Inr r"
  then show "line = chained_canonical_bytes r \<and> storable r"
    by (auto simp: decode_line_def storable_def chained_from_dict_Inr)
next
  assume r: "line = chained_canonical_bytes r \<and> storable r"
  then obtain v where "json_loads_bytes default_hooks line = Inr v" "chained_from_dict v = Inr r"
    using chained_loads [of r] by (auto simp: storable_def)
  with r show "decode_line line = Inr r" by (simp add: decode_line_def storable_def)
qed

lemma traverse_decode_line:
  "traverse decode_line ls = Inr rs \<longleftrightarrow> ls = map chained_canonical_bytes rs \<and> list_all storable rs"
  by (simp only: traverse_Inr_iff decode_line_Inr)
    (induction rs arbitrary: ls; case_tac ls; auto simp: list_all2_Cons1 list_all2_Cons2)

lemma decode_lines_Inr:
  "decode_lines raw = Inr rs \<longleftrightarrow> raw = concat (map chained_canonical_bytes rs) \<and> list_all storable rs"
proof
  assume L: "decode_lines raw = Inr rs"
  then have "splitlines raw = map chained_canonical_bytes rs" "list_all storable rs"
    by (auto simp: decode_lines_def traverse_decode_line)
  then show "raw = concat (map chained_canonical_bytes rs) \<and> list_all storable rs"
    using splitlines_concat [of raw] by simp
next
  assume R: "raw = concat (map chained_canonical_bytes rs) \<and> list_all storable rs"
  then have wf: "list_all wf_chained rs" by (auto simp: list_all_iff storable_def)
  have "raw = [] \<or> last raw = NEWLINE"
  proof (cases rs rule: rev_cases)
    case (snoc qs q)
    with wf have "wf_chained q" by simp
    then obtain b where "chained_canonical_bytes q = b @ [NEWLINE]" by (rule chained_line)
    with R snoc show ?thesis by simp
  qed (simp add: R)
  with R splitlines_records [OF wf] show "decode_lines raw = Inr rs"
    by (auto simp: decode_lines_def traverse_decode_line)
qed

section \<open>Chains\<close>

text \<open>Each record names the hash of the record before it, the first one \<open>p\<close>.\<close>

fun links :: "string option \<Rightarrow> chained_record list \<Rightarrow> bool" where
  "links p [] = True"
| "links p (r # rs) = (ch_previous r = p \<and> links (Some (chained_sha256 r)) rs)"

definition tip :: "string option \<Rightarrow> chained_record list \<Rightarrow> string option" where
  "tip p rs = (if rs = [] then p else Some (chained_sha256 (last rs)))"

definition event_ids :: "chained_record list \<Rightarrow> string list" where
  "event_ids rs = map (\<lambda>r. ev_event_id (ch_event r)) rs"

definition anchor :: "bool \<Rightarrow> chained_record list \<Rightarrow> string option" where
  "anchor anchored rs = (if anchored \<and> rs \<noteq> [] then ch_previous (hd rs) else None)"

definition valid_chain :: "bool \<Rightarrow> chained_record list \<Rightarrow> bool" where
  "valid_chain anchored rs \<longleftrightarrow> links (anchor anchored rs) rs \<and> distinct (event_ids rs)"

lemma links_append: "links p (rs @ qs) \<longleftrightarrow> links p rs \<and> links (tip p rs) qs"
  by (induction rs arbitrary: p) (auto simp: tip_def)

lemma tip_snoc [simp]: "tip p (rs @ [r]) = Some (chained_sha256 r)"
  by (simp add: tip_def)

text \<open>Two records of equal hash and different bytes.\<close>

definition collision :: "chained_record list \<Rightarrow> chained_record list \<Rightarrow> bool" where
  "collision rs qs \<longleftrightarrow>
     (\<exists>r \<in> set rs. \<exists>q \<in> set qs. chained_canonical_bytes r \<noteq> chained_canonical_bytes q \<and>
        sha256_hex (chained_canonical_bytes r) = sha256_hex (chained_canonical_bytes q))"

text \<open>Chains with the same tip agree from the end backwards, as far as both reach.\<close>

lemma equal_tips:
  assumes "list_all wf_chained rs" and "list_all wf_chained qs" and "links p rs" and "links p' qs"
    and "tip p rs = tip p' qs" and "\<not> collision rs qs"
  shows "(\<exists>zs. rs = zs @ qs) \<or> (\<exists>zs. qs = zs @ rs)"
  using assms
proof (induction rs arbitrary: qs rule: rev_induct)
  case (snoc r rs)
  show ?case
  proof (cases qs rule: rev_cases)
    case (snoc qs' q)
    note q = this
    have sha: "chained_sha256 r = chained_sha256 q" using snoc.prems(5) q by simp
    have wf: "wf_chained r" "wf_chained q" using snoc.prems(1,2) q by simp_all
    have "chained_canonical_bytes r = chained_canonical_bytes q"
      using snoc.prems(6) sha q unfolding collision_def chained_sha256_def by auto
    then have rq: "r = q" by (rule chained_bytes_inject [OF wf])
    have "tip p rs = tip p' qs'" "links p rs" "links p' qs'"
      using snoc.prems(3,4) q rq by (auto simp: links_append)
    moreover have "\<not> collision rs qs'" using snoc.prems(6) q by (auto simp: collision_def)
    ultimately have "(\<exists>zs. rs = zs @ qs') \<or> (\<exists>zs. qs' = zs @ rs)"
      using snoc.IH [of qs'] snoc.prems(1,2) q by simp
    then show ?thesis using q rq by auto
  qed simp
qed simp

lemma links_unanchored_suffix:
  assumes "links None rs" and "links None (zs @ rs)" and "rs \<noteq> []"
  shows "zs = []"
proof (rule ccontr)
  assume "zs \<noteq> []"
  then have "tip None zs \<noteq> None" by (simp add: tip_def)
  with assms show False by (cases rs) (auto simp: links_append)
qed

section \<open>What the scan computes\<close>

definition scan_of :: "chained_record list \<Rightarrow> chain_scan" where
  "scan_of rs = \<lparr>cs_previous = tip None rs, cs_event_ids = rev (event_ids rs),
     cs_last_day = (if rs = [] then None else Some (take 10 (ev_timestamp (ch_event (last rs))))),
     cs_first = (rs = [])\<rparr>"

lemma scan_records_append:
  "scan_records a s (rs @ qs) = bnd (scan_records a s rs) (\<lambda>s'. scan_records a s' qs)"
  by (induction rs arbitrary: s) (simp_all add: bnd_assoc)

lemma scan_record_of:
  "scan_record a (scan_of rs) r =
     (if ch_previous r \<noteq> (if rs = [] then anchor a [r] else tip None rs) \<or> ev_event_id (ch_event r) \<in> set (event_ids rs)
      then Inl DeploymentPolicyError else Inr (scan_of (rs @ [r])))"
  by (auto simp: scan_record_def scan_of_def Let_def event_ids_def anchor_def tip_def)

lemma tip_any: "rs \<noteq> [] \<Longrightarrow> tip p rs = tip q rs"
  by (simp add: tip_def)

lemma anchor_append: "rs \<noteq> [] \<Longrightarrow> anchor a (rs @ qs) = anchor a rs"
  by (simp add: anchor_def)

lemma valid_chain_snoc:
  "valid_chain a (rs @ [r]) \<longleftrightarrow>
     valid_chain a rs \<and> ch_previous r = (if rs = [] then anchor a [r] else tip None rs) \<and>
     ev_event_id (ch_event r) \<notin> set (event_ids rs)"
  using tip_any [of rs "anchor a rs" None]
  by (cases "rs = []") (auto simp: valid_chain_def links_append anchor_append event_ids_def tip_def)

lemma scan_records_start:
  "scan_records a scan_start rs = Inr s \<longleftrightarrow> valid_chain a rs \<and> s = scan_of rs"
proof (induction rs arbitrary: s rule: rev_induct)
  case Nil
  show ?case by (auto simp: scan_start_def scan_of_def valid_chain_def event_ids_def tip_def)
next
  case (snoc r rs)
  show ?case
    unfolding scan_records_append bnd_Inr_iff snoc.IH valid_chain_snoc scan_records.simps
    by (auto simp: scan_record_of split: if_splits)
qed

lemma scan_records_from:
  "valid_chain a rs \<Longrightarrow> scan_records a (scan_of rs) qs = scan_records a scan_start (rs @ qs)"
  using scan_records_start [of a rs "scan_of rs"] by (simp add: scan_records_append)

section \<open>The calls on the directory\<close>

text \<open>The directory's node, its entries as a function, and the write bound.\<close>

definition wf_world :: "audit_world \<Rightarrow> bool" where
  "wf_world w \<longleftrightarrow> distinct (map fst (aw_entries w)) \<and> Missing \<notin> snd ` set (aw_entries w)"

definition holds :: "node \<Rightarrow> (string \<Rightarrow> node) \<Rightarrow> nat option \<Rightarrow> audit_world \<Rightarrow> bool" where
  "holds d f l w \<longleftrightarrow> aw_directory w = d \<and> entry w = f \<and> aw_write_limit w = l \<and> wf_world w"

lemma map_of_filter_neq: "map_of (filter (\<lambda>(m, nd). m \<noteq> n) xs) m = (if m = n then None else map_of xs m)"
  by (induction xs) auto

lemma entry_set_entry: "entry (set_entry n nd w) = (entry w)(n := nd)"
  by (rule ext) (simp add: entry_def set_entry_def map_of_filter_neq)

lemma entry_drop_entry: "entry (drop_entry n w) = (entry w)(n := Missing)"
  by (rule ext) (simp add: entry_def drop_entry_def map_of_filter_neq)

lemma wf_set_entry: "wf_world w \<Longrightarrow> nd \<noteq> Missing \<Longrightarrow> wf_world (set_entry n nd w)"
  by (auto simp: wf_world_def set_entry_def distinct_map_filter)

lemma wf_drop_entry: "wf_world w \<Longrightarrow> wf_world (drop_entry n w)"
  by (auto simp: wf_world_def drop_entry_def distinct_map_filter)

lemma holds_set_entry: "holds d f l w \<Longrightarrow> nd \<noteq> Missing \<Longrightarrow> holds d (f(n := nd)) l (set_entry n nd w)"
  by (auto simp: holds_def entry_set_entry wf_set_entry) (simp add: set_entry_def)+

lemma holds_drop_entry: "holds d f l w \<Longrightarrow> holds d (f(n := Missing)) l (drop_entry n w)"
  by (auto simp: holds_def entry_drop_entry wf_drop_entry) (simp add: drop_entry_def)+

lemma holds_faults: "holds d f l (w\<lparr>aw_faults := x\<rparr>) \<longleftrightarrow> holds d f l w"
  by (simp add: holds_def entry_def fun_eq_iff wf_world_def)

lemma wp_call:
  assumes "holds d f l w" and "\<And>e w'. holds d f l w' \<Longrightarrow> E e w'" and "\<And>w'. holds d f l w' \<Longrightarrow> wp m Q E w'"
  shows "wp (call m) Q E w"
  using assms by (auto simp: wp_def call_def holds_faults split: list.splits option.splits)

text \<open>The rules below share their first two premises.\<close>

lemma wp_seq: "wp (act_bind m f) Q E = wp m (\<lambda>x. wp (f x) Q E) E"
  by (rule ext) simp

lemma wp_quiet:
  assumes "holds d f l w" and "\<And>e w'. holds d f l w' \<Longrightarrow> E e w'" and "\<And>w'. holds d f l w' \<Longrightarrow> Q () w'"
  shows "wp quiet Q E w"
  unfolding quiet_def by (rule wp_call [OF assms(1,2)]) (auto simp: wp_def intro: assms(3))

lemma wp_open_create:
  assumes "holds d f l w" and "\<And>e w'. holds d f l w' \<Longrightarrow> E e w'"
    and "\<And>w'. f n = Missing \<Longrightarrow> holds d (f(n := Regular 384 [])) l w' \<Longrightarrow> Q () w'"
    and "\<And>m b w'. f n = Regular m b \<Longrightarrow> holds d f l w' \<Longrightarrow> Q () w'"
  shows "wp (open_create n) Q E w"
  unfolding open_create_def
proof (rule wp_call [OF assms(1,2)])
  fix w'
  assume h: "holds d f l w'"
  then have e: "entry w' n = f n" by (auto simp: holds_def)
  have "f n = Missing \<Longrightarrow> Q () (set_entry n (Regular 384 []) w')"
    by (rule assms(3)) (simp_all add: holds_set_entry [OF h])
  then show "wp (\<lambda>w. case entry w n of Missing \<Rightarrow> (Inr (), set_entry n (Regular 384 []) w)
      | Regular _ _ \<Rightarrow> (Inr (), w) | _ \<Rightarrow> (Inl OSError, w)) Q E w'"
    using assms(2) [OF h] assms(4) [OF _ h] by (simp add: wp_def e split: node.splits)
qed

lemma with_mode_neq: "nd \<noteq> Missing \<Longrightarrow> with_mode m nd \<noteq> Missing"
  by (cases nd) (simp_all add: with_mode_def)

lemma wp_fchmod_entry:
  assumes "holds d f l w" and "\<And>e w'. holds d f l w' \<Longrightarrow> E e w'" and "f n \<noteq> Missing"
    and "\<And>w'. holds d (f(n := with_mode 384 (f n))) l w' \<Longrightarrow> Q () w'"
  shows "wp (fchmod_entry n) Q E w"
  unfolding fchmod_entry_def
proof (rule wp_call [OF assms(1,2)])
  fix w'
  assume "holds d f l w'"
  then show "wp (\<lambda>w. (Inr (), set_entry n (with_mode 384 (entry w n)) w)) Q E w'"
    using assms(3) by (auto simp: wp_def holds_def intro!: assms(4) holds_set_entry with_mode_neq)
qed

definition accepted :: "nat option \<Rightarrow> string \<Rightarrow> nat" where
  "accepted l bytes = (case l of None \<Rightarrow> length bytes | Some m \<Rightarrow> min m (length bytes))"

lemma wp_write_bytes:
  assumes "holds d f l w" and "\<And>e w'. holds d f l w' \<Longrightarrow> E e w'" and "f n = Regular m b"
    and "\<And>w'. holds d (f(n := Regular m (b @ take (accepted l bytes) bytes))) l w' \<Longrightarrow> Q (accepted l bytes) w'"
  shows "wp (write_bytes n bytes) Q E w"
  unfolding write_bytes_def
proof (rule wp_call [OF assms(1,2)])
  fix w'
  assume h: "holds d f l w'"
  have "Q (accepted l bytes) (set_entry n (Regular m (b @ take (accepted l bytes) bytes)) w')"
    by (intro assms(4) holds_set_entry [OF h]) simp
  moreover have "entry w' n = Regular m b" "aw_write_limit w' = l" using h assms(3) by (auto simp: holds_def)
  ultimately show "wp (\<lambda>w. let k = (case aw_write_limit w of None \<Rightarrow> length bytes | Some m \<Rightarrow> min m (length bytes)) in
      case entry w n of Regular m b \<Rightarrow> (Inr k, set_entry n (Regular m (b @ take k bytes)) w) | _ \<Rightarrow> (Inl OSError, w)) Q E w'"
    by (simp add: wp_def Let_def accepted_def)
qed

text \<open>The bytes that a file contributes to the history, and the history itself.\<close>

definition file_bytes :: "gzip_codec \<Rightarrow> (string \<Rightarrow> node) \<Rightarrow> string \<Rightarrow> string result" where
  "file_bytes gz f n =
     (case f n of
        Regular _ b \<Rightarrow>
          bnd (if gz_name n
               then catch_as [OSError] DeploymentPolicyError
                 (bnd (gz_decompress gz b) (\<lambda>t. Inr (take (ROTATE_BYTES + MAX_EVENT_BYTES + 1) t)))
               else Inr b) (\<lambda>raw.
          if ROTATE_BYTES + MAX_EVENT_BYTES < length raw then Inl DeploymentPolicyError else Inr raw)
      | _ \<Rightarrow> Inl DeploymentPolicyError)"

definition rotations :: "audit_sink \<Rightarrow> (string \<Rightarrow> node) \<Rightarrow> string list" where
  "rotations sk f = sorted_list_of_set {n. f n \<noteq> Missing \<and> fullmatch ROTATED_RE n \<and> n \<noteq> sk_name sk}"

definition file_names :: "audit_sink \<Rightarrow> (string \<Rightarrow> node) \<Rightarrow> string list" where
  "file_names sk f = rotations sk f @ (if f (sk_name sk) \<noteq> Missing then [sk_name sk] else [])"

definition records_of :: "gzip_codec \<Rightarrow> (string \<Rightarrow> node) \<Rightarrow> string \<Rightarrow> chained_record list result" where
  "records_of gz f n = bnd (file_bytes gz f n) decode_lines"

definition log_of :: "gzip_codec \<Rightarrow> audit_sink \<Rightarrow> (string \<Rightarrow> node) \<Rightarrow> chained_record list result" where
  "log_of gz sk f = bnd (traverse (records_of gz f) (file_names sk f)) (\<lambda>rss. Inr (concat rss))"

definition anchored :: "audit_sink \<Rightarrow> (string \<Rightarrow> node) \<Rightarrow> bool" where
  "anchored sk f \<longleftrightarrow> file_names sk f \<noteq> [] \<and> hd (file_names sk f) \<noteq> sk_name sk"

lemma sort_distinct: "distinct xs \<Longrightarrow> sort xs = sorted_list_of_set (set xs)"
  by (metis remdups_id_iff_distinct sorted_list_of_set_sort_remdups)

lemma entry_iff: "wf_world w \<Longrightarrow> (n, nd) \<in> set (aw_entries w) \<longleftrightarrow> entry w n = nd \<and> nd \<noteq> Missing"
proof -
  assume wf: "wf_world w"
  then have m: "(n, x) \<in> set (aw_entries w) \<longleftrightarrow> map_of (aw_entries w) n = Some x" for x
    by (simp add: wf_world_def)
  have "nd \<noteq> Missing" if "(n, nd) \<in> set (aw_entries w)"
    using wf that by (force simp: wf_world_def)
  with m show ?thesis by (cases "map_of (aw_entries w) n") (auto simp: entry_def)
qed

lemma wp_audit_files:
  assumes "holds d f l w" and "\<And>e w'. holds d f l w' \<Longrightarrow> E e w'" and "d \<noteq> Missing"
    and "\<And>w'. holds d f l w' \<Longrightarrow> Q (file_names sk f) w'"
  shows "wp (audit_files sk) Q E w"
proof -
  have names: "sort (filter (\<lambda>n. n \<noteq> sk_name sk) (map fst (filter (\<lambda>(n, nd). is_history sk n) (aw_entries w')))) @
      (if sk_name sk \<in> set (map fst (filter (\<lambda>(n, nd). is_history sk n) (aw_entries w'))) then [sk_name sk] else []) =
      file_names sk f" if "holds d f l w'" for w'
  proof -
    let ?c = "map fst (filter (\<lambda>(n, nd). is_history sk n) (aw_entries w'))"
    have wf: "wf_world w'" "entry w' = f" using that by (auto simp: holds_def)
    have "set ?c = {n. f n \<noteq> Missing \<and> is_history sk n}"
      using entry_iff [OF wf(1)] wf(2) by (auto simp: image_iff)
    moreover have "distinct ?c" using wf(1) by (simp add: wf_world_def distinct_map_filter)
    ultimately show ?thesis
      by (auto simp: file_names_def rotations_def sort_distinct is_history_def intro!: arg_cong [where f = sorted_list_of_set])
  qed
  have "wp (list_history sk) Q E w"
    unfolding list_history_def
  proof (rule wp_call [OF assms(1,2)])
    fix w'
    assume h: "holds d f l w'"
    show "wp (\<lambda>w. let candidates = filter (\<lambda>(n, nd). is_history sk n) (aw_entries w) in
       if list_ex (\<lambda>(n, nd). is_symlink nd \<or> \<not> is_regular nd) candidates then (Inl DeploymentPolicyError, w)
       else let names = map fst candidates in
         (Inr (sort (filter (\<lambda>n. n \<noteq> sk_name sk) names) @
               (if sk_name sk \<in> set names then [sk_name sk] else [])), w)) Q E w'"
      using names [OF h] assms(2) [OF h] assms(4) [OF h] by (simp add: wp_def Let_def)
  qed
  moreover have "aw_directory w \<noteq> Missing" using assms(1,3) by (simp add: holds_def)
  ultimately show ?thesis by (simp add: wp_def audit_files_def)
qed

lemma wp_read_entry:
  assumes "holds d f l w" and "\<And>e w'. holds d f l w' \<Longrightarrow> E e w'"
    and "\<And>m b w'. f n = Regular m b \<Longrightarrow> holds d f l w' \<Longrightarrow> Q b w'"
  shows "wp (read_entry n) Q E w"
  unfolding read_entry_def
proof (rule wp_call [OF assms(1,2)])
  fix w'
  assume h: "holds d f l w'"
  then have e: "entry w' n = f n" by (auto simp: holds_def)
  show "wp (\<lambda>w. case entry w n of Regular _ b \<Rightarrow> (Inr b, w) | Missing \<Rightarrow> (Inl FileNotFoundError, w)
      | _ \<Rightarrow> (Inl OSError, w)) Q E w'"
    using assms(2) [OF h] assms(3) [OF _ h] by (simp add: wp_def e split: node.splits)
qed

lemma wp_audit_read:
  assumes "holds d f l w" and "\<And>e w'. holds d f l w' \<Longrightarrow> E e w'"
    and "\<And>raw w'. file_bytes gz f n = Inr raw \<Longrightarrow> holds d f l w' \<Longrightarrow> Q raw w'"
  shows "wp (audit_read gz n) Q E w"
proof -
  have "wp (read_entry n) (\<lambda>b w'. (\<exists>m. f n = Regular m b) \<and> holds d f l w') (\<lambda>e w'. holds d f l w') w"
    by (rule wp_read_entry [OF assms(1)]) auto
  then show ?thesis
  proof (cases "read_entry n w")
    case (Pair r w')
    show ?thesis
    proof (cases r)
      case (Inl e)
      then have "holds d f l w'" using \<open>wp (read_entry n) _ _ w\<close> Pair by (simp add: wp_def)
      then show ?thesis using Inl Pair assms(2) by (simp add: wp_def audit_read_def)
    next
      case (Inr b)
      then obtain m where fn: "f n = Regular m b" and h: "holds d f l w'"
        using \<open>wp (read_entry n) _ _ w\<close> Pair by (auto simp: wp_def)
      have "audit_read gz n w = (file_bytes gz f n, w')"
        using Pair Inr fn by (simp add: audit_read_def file_bytes_def)
      then show ?thesis
        using assms(2) [OF h] assms(3) [OF _ h] by (cases "file_bytes gz f n") (simp_all add: wp_def)
    qed
  qed
qed

lemma wp_scan_files:
  assumes "holds d f l w" and "\<And>e w'. holds d f l w' \<Longrightarrow> E e w'"
    and "\<And>rss s' w'. traverse (records_of gz f) ns = Inr rss \<Longrightarrow> scan_records a s (concat rss) = Inr s' \<Longrightarrow>
           holds d f l w' \<Longrightarrow> Q s' w'"
  shows "wp (scan_files gz a s ns) Q E w"
  using assms(1,3)
proof (induction ns arbitrary: s w)
  case Nil
  then show ?case by (simp add: wp_def)
next
  case (Cons n ns)
  have "wp (audit_read gz n) (\<lambda>raw. wp (act_lift (bnd (decode_lines raw) (scan_records a s)))
      (\<lambda>s'. wp (scan_files gz a s' ns) Q E) E) E w"
  proof (rule wp_audit_read [OF Cons.prems(1) assms(2)])
    fix raw w1
    assume raw: "file_bytes gz f n = Inr raw" and h: "holds d f l w1"
    show "wp (act_lift (bnd (decode_lines raw) (scan_records a s))) (\<lambda>s'. wp (scan_files gz a s' ns) Q E) E w1"
    proof (cases "bnd (decode_lines raw) (scan_records a s)")
      case (Inl e)
      then show ?thesis using assms(2) [OF h] by (simp only: Inl wp_act_lift sum.case)
    next
      case (Inr s1)
      then obtain rs where rs: "decode_lines raw = Inr rs" "scan_records a s rs = Inr s1" by auto
      have "wp (scan_files gz a s1 ns) Q E w1"
        using h
      proof (rule Cons.IH)
        fix rss s' w'
        assume *: "traverse (records_of gz f) ns = Inr rss" "scan_records a s1 (concat rss) = Inr s'" "holds d f l w'"
        have "records_of gz f n = Inr rs" using raw rs by (simp add: records_of_def)
        with * rs show "Q s' w'"
          by (intro Cons.prems(2) [of "rs # rss"]) (simp_all add: scan_records_append)
      qed
      then show ?thesis by (simp only: Inr wp_act_lift sum.case)
    qed
  qed
  then show ?case by (simp only: scan_files.simps wp_seq)
qed

lemma wp_validate_history:
  assumes "holds d f l w" and "\<And>e w'. holds d f l w' \<Longrightarrow> E e w'" and "d \<noteq> Missing"
    and "\<And>rs w'. log_of gz sk f = Inr rs \<Longrightarrow> valid_chain (anchored sk f) rs \<Longrightarrow> holds d f l w' \<Longrightarrow> Q (scan_of rs) w'"
  shows "wp (validate_history gz sk) Q E w"
  unfolding validate_history_def wp_act_bind
proof (rule wp_audit_files [OF assms(1,2,3)])
  fix w1
  assume h: "holds d f l w1"
  show "wp (scan_files gz (file_names sk f \<noteq> [] \<and> hd (file_names sk f) \<noteq> sk_name sk) scan_start (file_names sk f)) Q E w1"
    using h assms(2)
  proof (rule wp_scan_files)
    fix rss s' w'
    assume *: "traverse (records_of gz f) (file_names sk f) = Inr rss"
      "scan_records (file_names sk f \<noteq> [] \<and> hd (file_names sk f) \<noteq> sk_name sk) scan_start (concat rss) = Inr s'"
      "holds d f l w'"
    then have "valid_chain (anchored sk f) (concat rss)" "s' = scan_of (concat rss)"
      by (simp_all add: scan_records_start anchored_def)
    with * show "Q s' w'" using assms(4) [of "concat rss" w'] by (simp add: log_of_def)
  qed
qed

section \<open>Writing one record\<close>

definition old_bytes :: "node \<Rightarrow> string" where
  "old_bytes nd = (case nd of Regular _ b \<Rightarrow> b | _ \<Rightarrow> [])"

lemma wp_finally_close:
  assumes "wp m (\<lambda>x w'. \<exists>f. holds d f l w' \<and> R f \<and> P f) (\<lambda>e w'. \<exists>f. holds d f l w' \<and> P f) w"
    and "\<And>f w'. holds d f l w' \<Longrightarrow> R f \<Longrightarrow> P f \<Longrightarrow> Q () w'" and "\<And>e f w'. holds d f l w' \<Longrightarrow> P f \<Longrightarrow> E e w'"
  shows "wp (finally_close m) Q E w"
proof -
  have close: "wp quiet (\<lambda>_. wp (act_lift (Inl e)) Q' E) E w'" if "holds d f l w'" "P f" for e f w' Q'
    by (rule wp_quiet [OF that(1)]) (use assms(3) that in auto)
  have "wp quiet Q E w'" if "holds d f l w'" "R f" "P f" for f w'
    by (rule wp_quiet [OF that(1)]) (use assms(2,3) that in auto)
  then show ?thesis
    unfolding finally_close_def wp_act_bind wp_act_catch
    by (intro wp_conseq [OF assms(1)]) (use close in \<open>auto simp: wp_act_bind\<close>)
qed

text \<open>
  What an attempt to append leaves: the bytes of the file as they were, all of them followed
  by the record, or by the part of it that a short write took.
\<close>

definition touched :: "(string \<Rightarrow> node) \<Rightarrow> string \<Rightarrow> (string \<Rightarrow> node) \<Rightarrow> bool" where
  "touched f n g \<longleftrightarrow> g = f \<or> (f n = Missing \<or> is_regular (f n)) \<and> (\<exists>m. g = f(n := Regular m (old_bytes (f n))))"

definition extended :: "(string \<Rightarrow> node) \<Rightarrow> string \<Rightarrow> string \<Rightarrow> (string \<Rightarrow> node) \<Rightarrow> bool" where
  "extended f n payload g \<longleftrightarrow>
     (f n = Missing \<or> is_regular (f n)) \<and> (\<exists>m. g = f(n := Regular m (old_bytes (f n) @ payload)))"

definition torn :: "(string \<Rightarrow> node) \<Rightarrow> string \<Rightarrow> nat option \<Rightarrow> string \<Rightarrow> (string \<Rightarrow> node) \<Rightarrow> bool" where
  "torn f n l payload g \<longleftrightarrow>
     accepted l payload < length payload \<and> extended f n (take (accepted l payload) payload) g"

definition attempted :: "(string \<Rightarrow> node) \<Rightarrow> string \<Rightarrow> nat option \<Rightarrow> string \<Rightarrow> (string \<Rightarrow> node) \<Rightarrow> bool" where
  "attempted f n l payload g \<longleftrightarrow> touched f n g \<or> extended f n payload g \<or> torn f n l payload g"

lemma accepted_le: "accepted l payload \<le> length payload"
  by (simp add: accepted_def split: option.splits)

lemma wp_write_open:
  assumes "holds d f l w" and fn: "f n = Regular m b"
  shows "wp (act_bind (fchmod_entry n) (\<lambda>_. act_bind (write_bytes n payload) (\<lambda>written.
      if written \<noteq> length payload then act_lift (Inl DeploymentPolicyError) else quiet)))
    (\<lambda>x w'. \<exists>g. holds d g l w' \<and> extended f n payload g \<and> attempted f n l payload g)
    (\<lambda>e w'. \<exists>g. holds d g l w' \<and> attempted f n l payload g) w"
proof -
  let ?f2 = "f(n := Regular 384 b)" and ?k = "accepted l payload"
  let ?f3 = "f(n := Regular 384 (b @ take ?k payload))"
  have t: "attempted f n l payload f" "attempted f n l payload ?f2"
    using fn by (auto simp: attempted_def touched_def old_bytes_def is_regular_def)
  have x: "extended f n (take ?k payload) ?f3" using fn by (auto simp: extended_def old_bytes_def is_regular_def)
  then have a: "attempted f n l payload ?f3"
    using accepted_le [of l payload] by (cases "?k = length payload") (auto simp: attempted_def torn_def)
  have w2: "(f(n := with_mode 384 (f n))) = ?f2" using fn by (simp add: with_mode_def)
  show ?thesis
    unfolding wp_seq
  proof (rule wp_fchmod_entry [OF assms(1)])
    fix w2
    assume h2: "holds d (f(n := with_mode 384 (f n))) l w2"
    show "wp (write_bytes n payload) (\<lambda>x. wp (if x \<noteq> length payload then act_lift (Inl DeploymentPolicyError) else quiet)
        (\<lambda>x w'. \<exists>g. holds d g l w' \<and> extended f n payload g \<and> attempted f n l payload g)
        (\<lambda>e w'. \<exists>g. holds d g l w' \<and> attempted f n l payload g))
      (\<lambda>e w'. \<exists>g. holds d g l w' \<and> attempted f n l payload g) w2"
    proof (rule wp_write_bytes [OF h2 [unfolded w2]])
      fix w3
      assume h3: "holds d (?f2(n := Regular 384 (b @ take ?k payload))) l w3"
      then have h4: "holds d ?f3 l w3" by simp
      show "wp (if ?k \<noteq> length payload then act_lift (Inl DeploymentPolicyError) else quiet)
          (\<lambda>x w'. \<exists>g. holds d g l w' \<and> extended f n payload g \<and> attempted f n l payload g)
          (\<lambda>e w'. \<exists>g. holds d g l w' \<and> attempted f n l payload g) w3"
      proof (cases "?k = length payload")
        case True
        then show ?thesis using h4 a x by (auto intro!: wp_quiet [OF h4])
      next
        case False
        then show ?thesis using h4 a by (auto simp: wp_def)
      qed
    qed (use t in auto)
  qed (use t fn in auto)
qed

lemma attempted_trans:
  assumes "f1 n = Regular m (old_bytes (f n))" and "touched f n f1"
  shows "extended f1 n payload g \<Longrightarrow> extended f n payload g"
    and "attempted f1 n l payload g \<Longrightarrow> attempted f n l payload g"
  using assms by (auto simp: attempted_def torn_def touched_def extended_def old_bytes_def is_regular_def split: node.splits)

lemma wp_write_record:
  assumes "holds d f l w"
    and E: "\<And>e w' g. holds d g l w' \<Longrightarrow> attempted f n l payload g \<Longrightarrow> E e w'"
    and Q: "\<And>w' g. holds d g l w' \<Longrightarrow> extended f n payload g \<Longrightarrow> Q () w'"
  shows "wp (write_record n payload) Q E w"
proof -
  have step: "wp (finally_close (act_bind (fchmod_entry n) (\<lambda>_. act_bind (write_bytes n payload) (\<lambda>written.
        if written \<noteq> length payload then act_lift (Inl DeploymentPolicyError) else quiet))))
      (\<lambda>_. wp (act_bind quiet (\<lambda>_. finally_close quiet)) Q E) E w1"
    if h: "holds d f1 l w1" "f1 n = Regular m (old_bytes (f n))" "touched f n f1" for f1 w1 m
  proof (rule wp_finally_close [OF wp_write_open [OF h(1,2)]])
    fix g w'
    assume g: "holds d g l w'" "extended f1 n payload g"
    then have x: "extended f n payload g" using attempted_trans(1) [OF h(2,3)] by blast
    then have a: "attempted f n l payload g" by (simp add: attempted_def)
    have "wp (finally_close quiet) Q E w2" if "holds d g l w2" for w2
      by (rule wp_finally_close [where P = "\<lambda>g'. g' = g" and R = "\<lambda>_. True" and d = d and l = l])
        (auto intro!: wp_quiet [OF that] intro: E Q x a)
    then show "wp (act_bind quiet (\<lambda>_. finally_close quiet)) Q E w'"
      using a by (auto intro!: wp_quiet [OF g(1)] intro: E)
  next
    fix e g w'
    assume "holds d g l w'" "attempted f1 n l payload g"
    then show "E e w'" using attempted_trans(2) [OF h(2,3)] by (blast intro: E)
  qed
  let ?body = "act_bind (fchmod_entry n) (\<lambda>_. act_bind (write_bytes n payload) (\<lambda>written.
        if written \<noteq> length payload then act_lift (Inl DeploymentPolicyError) else quiet))"
  have "wp (open_create n)
      (\<lambda>_. wp (finally_close ?body) (\<lambda>_. wp (act_bind quiet (\<lambda>_. finally_close quiet)) Q E) E) E w"
  proof (rule wp_open_create [OF assms(1)])
    fix e w'
    assume "holds d f l w'"
    then show "E e w'" by (rule E) (simp add: attempted_def touched_def)
  next
    fix w'
    assume f: "f n = Missing" and h: "holds d (f(n := Regular 384 [])) l w'"
    show "wp (finally_close ?body) (\<lambda>_. wp (act_bind quiet (\<lambda>_. finally_close quiet)) Q E) E w'"
      by (rule step [OF h]) (use f in \<open>auto simp: touched_def old_bytes_def\<close>)
  next
    fix m b w'
    assume f: "f n = Regular m b" and h: "holds d f l w'"
    show "wp (finally_close ?body) (\<lambda>_. wp (act_bind quiet (\<lambda>_. finally_close quiet)) Q E) E w'"
      by (rule step [OF h]) (use f in \<open>auto simp: touched_def old_bytes_def\<close>)
  qed
  then show ?thesis by (simp only: write_record_def wp_seq)
qed

section \<open>What rotating leaves alone\<close>

text \<open>An action that never changes the entry \<open>n\<close>, whatever call of it fails.\<close>

definition steady :: "string \<Rightarrow> nat option \<Rightarrow> (audit_world, 'a) act \<Rightarrow> bool" where
  "steady n l m \<longleftrightarrow>
     (\<forall>d f w. holds d f l w \<longrightarrow>
        wp m (\<lambda>_ w'. \<exists>g. holds d g l w' \<and> g n = f n) (\<lambda>_ w'. \<exists>g. holds d g l w' \<and> g n = f n) w)"

named_theorems steady_rules

lemma steadyD:
  assumes "steady n l m" and "holds d f l w"
    and "\<And>x g w'. holds d g l w' \<Longrightarrow> g n = f n \<Longrightarrow> Q x w'" and "\<And>e g w'. holds d g l w' \<Longrightarrow> g n = f n \<Longrightarrow> E e w'"
  shows "wp m Q E w"
proof -
  have "wp m (\<lambda>_ w'. \<exists>g. holds d g l w' \<and> g n = f n) (\<lambda>_ w'. \<exists>g. holds d g l w' \<and> g n = f n) w"
    using assms(1,2) by (simp add: steady_def)
  then show ?thesis by (rule wp_conseq) (use assms(3,4) in blast)+
qed

lemma steady_bind [steady_rules]:
  assumes "steady n l m" and "\<And>x. steady n l (k x)"
  shows "steady n l (act_bind m k)"
  unfolding steady_def wp_seq
proof (intro allI impI)
  fix d f w
  assume "holds d f l w"
  then show "wp m (\<lambda>x. wp (k x) (\<lambda>_ w'. \<exists>g. holds d g l w' \<and> g n = f n) (\<lambda>_ w'. \<exists>g. holds d g l w' \<and> g n = f n))
      (\<lambda>_ w'. \<exists>g. holds d g l w' \<and> g n = f n) w"
  proof (rule steadyD [OF assms(1)])
    fix x g w'
    assume g: "holds d g l w'" "g n = f n"
    show "wp (k x) (\<lambda>_ w'. \<exists>g. holds d g l w' \<and> g n = f n) (\<lambda>_ w'. \<exists>g. holds d g l w' \<and> g n = f n) w'"
      by (rule steadyD [OF assms(2) g(1)]) (use g(2) in auto)
  qed blast
qed

lemma steady_catch [steady_rules]:
  assumes "steady n l m" and "\<And>e. steady n l (k e)"
  shows "steady n l (act_catch m k)"
  unfolding steady_def wp_act_catch
proof (intro allI impI)
  fix d f w
  assume "holds d f l w"
  then show "wp m (\<lambda>_ w'. \<exists>g. holds d g l w' \<and> g n = f n)
      (\<lambda>e. wp (k e) (\<lambda>_ w'. \<exists>g. holds d g l w' \<and> g n = f n) (\<lambda>_ w'. \<exists>g. holds d g l w' \<and> g n = f n)) w"
  proof (rule steadyD [OF assms(1)])
    fix e g w'
    assume g: "holds d g l w'" "g n = f n"
    show "wp (k e) (\<lambda>_ w'. \<exists>g. holds d g l w' \<and> g n = f n) (\<lambda>_ w'. \<exists>g. holds d g l w' \<and> g n = f n) w'"
      by (rule steadyD [OF assms(2) g(1)]) (use g(2) in auto)
  qed blast
qed

lemma steady_lift [steady_rules]: "steady n l (act_lift r)"
  by (cases r) (auto simp: steady_def)

lemma steady_if [steady_rules]: "steady n l m \<Longrightarrow> steady n l m' \<Longrightarrow> steady n l (\<lambda>w. if P w then m w else m' w)"
  by (auto simp: steady_def wp_def)

lemma steady_call:
  assumes "\<And>d f w. holds d f l w \<Longrightarrow> \<exists>g. holds d g l (snd (m w)) \<and> g n = f n"
  shows "steady n l (call m)"
  unfolding steady_def
proof (intro allI impI)
  fix d f w
  assume h: "holds d f l w"
  let ?Q = "\<lambda>_ w'. \<exists>g. holds d g l w' \<and> g n = f n"
  show "wp (call m) ?Q ?Q w"
  proof (rule wp_call [OF h])
    fix w'
    assume "holds d f l w'"
    then show "wp m ?Q ?Q w'" using assms by (auto simp: wp_def split: sum.splits prod.splits) (metis snd_conv)+
  qed blast
qed

lemma steady_quiet [steady_rules]: "steady n l quiet"
  unfolding quiet_def by (rule steady_call) auto

lemma steady_read_entry [steady_rules]: "steady n l (read_entry a)"
  unfolding read_entry_def by (rule steady_call) (auto split: node.splits)

lemma steady_audit_files [steady_rules]: "steady n l (audit_files sk)"
proof -
  have "steady n l (list_history sk)" unfolding list_history_def by (rule steady_call) (auto simp: Let_def)
  then show ?thesis by (auto simp: steady_def audit_files_def [abs_def] wp_def split: if_splits)
qed

lemma steady_set_entry: "a \<noteq> n \<Longrightarrow> nd \<noteq> Missing \<Longrightarrow> steady n l (call (\<lambda>w. (Inr (), set_entry a nd w)))"
  by (rule steady_call) (auto dest: holds_set_entry [of _ _ _ _ nd a])

lemma steady_unlink:
  assumes "a \<noteq> n"
  shows "steady n l (unlink_entry a)" "steady n l (unlink_missing_ok a)"
proof -
  have d: "\<exists>g. holds d g l (drop_entry a w) \<and> g n = f n" if "holds d f l w" for d f w
    using holds_drop_entry [OF that, of a] assms by fastforce
  show "steady n l (unlink_entry a)"
    unfolding unlink_entry_def by (rule steady_call) (use d in \<open>auto split: node.splits\<close>)
  show "steady n l (unlink_missing_ok a)"
    unfolding unlink_missing_ok_def by (rule steady_call) (use d in \<open>auto split: node.splits\<close>)
qed

text \<open>Renaming moves a node, and every other entry stays.\<close>

lemma wp_rename_entry:
  assumes "holds d f l w" and "\<And>e w'. holds d f l w' \<Longrightarrow> E e w'"
    and "\<And>w'. holds d (f(a := Missing, b := f a)) l w' \<Longrightarrow> Q () w'"
  shows "wp (rename_entry a b) Q E w"
  unfolding rename_entry_def
proof (rule wp_call [OF assms(1,2)])
  fix w'
  assume h: "holds d f l w'"
  then have e: "entry w' = f" by (simp add: holds_def)
  have "f a \<noteq> Missing \<Longrightarrow> Q () (set_entry b (f a) (drop_entry a w'))"
    by (intro assms(3) holds_set_entry holds_drop_entry h)
  then show "wp (\<lambda>w. case (entry w a, entry w b) of
       (Missing, _) \<Rightarrow> (Inl FileNotFoundError, w)
     | (_, Directory _) \<Rightarrow> (Inl OSError, w)
     | (nd, _) \<Rightarrow> (Inr (), set_entry b nd (drop_entry a w))) Q E w'"
    using assms(2) [OF h] by (cases "f a"; cases "f b") (simp_all add: wp_def e)
qed

lemma steady_rename_entry: "a \<noteq> n \<Longrightarrow> b \<noteq> n \<Longrightarrow> steady n l (rename_entry a b)"
  by (auto simp: steady_def intro!: wp_rename_entry)

lemma steady_compress_one:
  assumes "source \<noteq> n" and "source @ ''.gz'' \<noteq> n" and "compress_name drawn \<noteq> n"
  shows "steady n l (compress_one gz drawn source)"
proof -
  let ?t = "compress_name drawn" and ?target = "source @ ''.gz''"
  let ?rest = "act_bind (read_entry source) (\<lambda>bytes.
         act_bind (call (\<lambda>w. (Inr (), set_entry ?t (Regular 384 (gz_compress gz bytes)) w))) (\<lambda>_.
         act_bind quiet (\<lambda>_ w.
         if entry w ?target \<noteq> Missing then (Inl DeploymentPolicyError, w)
         else act_bind (rename_entry ?t ?target) (\<lambda>_. unlink_entry source) w)))"
  let ?handler = "\<lambda>e. act_bind (unlink_missing_ok ?t) (\<lambda>_. act_lift (Inl e))"
  have refuse: "steady n l (\<lambda>w. (Inl e, w))" for e by (auto simp: steady_def wp_def)
  have rest: "steady n l ?rest"
    by (intro steady_rules steady_set_entry steady_unlink steady_rename_entry refuse) (simp_all add: assms assms [symmetric])
  have handler: "steady n l (?handler e)" for e :: exn
    by (intro steady_rules steady_unlink) (simp add: assms)
  have opened: "wp (act_catch (act_bind (fchmod_entry ?t) (\<lambda>_. ?rest)) ?handler)
      (\<lambda>_ w'. \<exists>g. holds d g l w' \<and> g n = f n) (\<lambda>_ w'. \<exists>g. holds d g l w' \<and> g n = f n) w"
    if h: "holds d f l w" and f: "f ?t \<noteq> Missing" for d f w
  proof -
    have hh: "wp (?handler e) (\<lambda>_ w'. \<exists>g. holds d g l w' \<and> g n = f n) (\<lambda>_ w'. \<exists>g. holds d g l w' \<and> g n = f n) w'"
      if "holds d g l w'" "g n = f n" for g w' e
      by (rule steadyD [OF handler that(1)]) (use that(2) in auto)
    show ?thesis
      unfolding wp_act_catch wp_seq
      by (rule wp_fchmod_entry [OF h _ f]) (use assms(3) hh in \<open>auto intro!: steadyD [OF rest, unfolded wp_seq]\<close>)
  qed
  show ?thesis
    unfolding steady_def compress_one_def Let_def wp_seq
  proof (intro allI impI)
    fix d f w
    assume h: "holds d f l w"
    show "wp (open_create ?t) (\<lambda>_. wp (act_catch (act_bind (fchmod_entry ?t) (\<lambda>_. ?rest)) ?handler)
        (\<lambda>_ w'. \<exists>g. holds d g l w' \<and> g n = f n) (\<lambda>_ w'. \<exists>g. holds d g l w' \<and> g n = f n))
        (\<lambda>_ w'. \<exists>g. holds d g l w' \<and> g n = f n) w"
    proof (rule wp_open_create [OF h])
      fix w'
      assume "holds d (f(?t := Regular 384 [])) l w'"
      from opened [OF this] show "wp (act_catch (act_bind (fchmod_entry ?t) (\<lambda>_. ?rest)) ?handler)
        (\<lambda>_ w'. \<exists>g. holds d g l w' \<and> g n = f n) (\<lambda>_ w'. \<exists>g. holds d g l w' \<and> g n = f n) w'"
        using assms(3) by simp
    next
      fix m b w'
      assume "f ?t = Regular m b" "holds d f l w'"
      then show "wp (act_catch (act_bind (fchmod_entry ?t) (\<lambda>_. ?rest)) ?handler)
        (\<lambda>_ w'. \<exists>g. holds d g l w' \<and> g n = f n) (\<lambda>_ w'. \<exists>g. holds d g l w' \<and> g n = f n) w'"
        by (intro opened) simp_all
    qed blast
  qed
qed

lemma steady_compress_all:
  assumes "\<And>a. a \<in> set ns \<Longrightarrow> a \<noteq> n \<and> a @ ''.gz'' \<noteq> n" and "compress_name drawn \<noteq> n"
  shows "steady n l (compress_all gz drawn ns)"
  using assms by (induction ns) (auto intro!: steady_rules steady_compress_one)

lemma steady_drop_oldest: "n \<notin> set ns \<Longrightarrow> steady n l (drop_oldest ns)"
  by (induction ns) (auto intro!: steady_rules steady_unlink)

lemma current_name: "a @ ''.gz'' \<noteq> AUDIT_NAME" "compress_name drawn \<noteq> AUDIT_NAME" "rotation_name p t \<noteq> AUDIT_NAME"
proof -
  have "last AUDIT_NAME \<noteq> last (a @ ''.gz'')" by (simp add: AUDIT_NAME_def)
  then show "a @ ''.gz'' \<noteq> AUDIT_NAME" by metis
  show "compress_name drawn \<noteq> AUDIT_NAME" by (simp add: AUDIT_NAME_def compress_name_def)
  have "length AUDIT_NAME < length (rotation_name p t)" by (simp add: AUDIT_NAME_def rotation_name_def)
  then show "rotation_name p t \<noteq> AUDIT_NAME" by auto
qed

lemma steady_compress_delayed:
  assumes "sk_name sk = AUDIT_NAME"
  shows "steady AUDIT_NAME l (compress_delayed gz drawn sk newest)"
  unfolding compress_delayed_def
  by (intro steady_rules steady_compress_all steady_drop_oldest) (auto simp: assms current_name)

text \<open>After a rotation the current file is gone.\<close>

lemma wp_rotate_log:
  assumes "holds d f l w" and "sk_name sk = AUDIT_NAME"
  shows "wp (rotate_log gz drawn sk previous t) (\<lambda>_ w'. \<exists>g. holds d g l w' \<and> g AUDIT_NAME = Missing)
    (\<lambda>_ w'. \<exists>g. holds d g l w') w"
proof -
  let ?target = "rotation_name previous t" and ?Q = "\<lambda>_ w'. \<exists>g. holds d g l w' \<and> g AUDIT_NAME = Missing"
    and ?E = "\<lambda>_ w'. \<exists>g. holds d g l w'"
  have "wp (rename_entry (sk_name sk) ?target) (\<lambda>_. wp (compress_delayed gz drawn sk ?target) ?Q ?E) ?E w"
  proof (rule wp_rename_entry [OF assms(1)])
    fix w'
    assume h: "holds d (f(sk_name sk := Missing, ?target := f (sk_name sk))) l w'"
    have "(f(sk_name sk := Missing, ?target := f (sk_name sk))) AUDIT_NAME = Missing"
      using current_name(3) [of previous t] assms(2) by auto
    then show "wp (compress_delayed gz drawn sk ?target) ?Q ?E w'"
      by (intro steadyD [OF steady_compress_delayed [OF assms(2)] h]) metis+
  qed blast
  then show ?thesis using assms(1) by (auto simp: rotate_log_def Let_def wp_def act_bind_def split: sum.splits prod.splits)
qed

section \<open>The history after a write\<close>

lemma traverse_cong: "(\<And>x. x \<in> set xs \<Longrightarrow> f x = g x) \<Longrightarrow> traverse f xs = traverse g xs"
  by (induction xs) simp_all

lemma set_rotations:
  "n \<in> set (rotations sk f) \<Longrightarrow> f n \<noteq> Missing \<and> fullmatch ROTATED_RE n \<and> n \<noteq> sk_name sk"
proof -
  let ?A = "{n. f n \<noteq> Missing \<and> fullmatch ROTATED_RE n \<and> n \<noteq> sk_name sk}"
  assume "n \<in> set (rotations sk f)"
  then have "n \<in> ?A" unfolding rotations_def by (cases "finite ?A") simp_all
  then show ?thesis by simp
qed

lemma file_names_history: "n \<in> set (file_names sk f) \<Longrightarrow> is_history sk n"
  using set_rotations [of n sk f] by (cases "f (sk_name sk) = Missing") (auto simp: file_names_def is_history_def)

lemma records_of_cong: "f n = g n \<Longrightarrow> records_of gz f n = records_of gz g n"
  by (simp add: records_of_def file_bytes_def)

lemma log_of_cong:
  assumes "\<And>n. is_history sk n \<Longrightarrow> f n = g n"
  shows "log_of gz sk f = log_of gz sk g" "file_names sk f = file_names sk g"
proof -
  have "{n. f n \<noteq> Missing \<and> fullmatch ROTATED_RE n \<and> n \<noteq> sk_name sk} =
      {n. g n \<noteq> Missing \<and> fullmatch ROTATED_RE n \<and> n \<noteq> sk_name sk}"
    using assms unfolding is_history_def by (intro Collect_cong) metis
  then show names: "file_names sk f = file_names sk g"
    using assms [of "sk_name sk"] by (simp only: file_names_def rotations_def is_history_def simp_thms)
  have "traverse (records_of gz f) (file_names sk g) = traverse (records_of gz g) (file_names sk g)"
    by (intro traverse_cong records_of_cong assms file_names_history)
  then show "log_of gz sk f = log_of gz sk g" by (simp add: log_of_def names)
qed

lemma anchored_cong: "(\<And>n. is_history sk n \<Longrightarrow> f n = g n) \<Longrightarrow> anchored sk f = anchored sk g"
  unfolding anchored_def by (drule log_of_cong(2)) (simp only:)

lemma traverse_append:
  "traverse f (xs @ ys) = bnd (traverse f xs) (\<lambda>us. bnd (traverse f ys) (\<lambda>vs. Inr (us @ vs)))"
  by (induction xs) (simp_all add: bnd_assoc bnd_def split: sum.splits)

text \<open>The history is that of the rotations followed by the current file.\<close>

definition old_log :: "gzip_codec \<Rightarrow> audit_sink \<Rightarrow> (string \<Rightarrow> node) \<Rightarrow> chained_record list result" where
  "old_log gz sk f = bnd (traverse (records_of gz f) (rotations sk f)) (\<lambda>rss. Inr (concat rss))"

lemma log_of_split:
  "log_of gz sk f = bnd (old_log gz sk f) (\<lambda>rs.
     bnd (if f (sk_name sk) \<noteq> Missing then records_of gz f (sk_name sk) else Inr []) (\<lambda>qs. Inr (rs @ qs)))"
  by (simp add: log_of_def old_log_def file_names_def traverse_append bnd_assoc bnd_def split: sum.splits)

lemma old_log_current:
  "old_log gz sk (f(sk_name sk := nd)) = old_log gz sk f" "rotations sk (f(sk_name sk := nd)) = rotations sk f"
proof -
  have "{n. (f(sk_name sk := nd)) n \<noteq> Missing \<and> fullmatch ROTATED_RE n \<and> n \<noteq> sk_name sk} =
      {n. f n \<noteq> Missing \<and> fullmatch ROTATED_RE n \<and> n \<noteq> sk_name sk}" by auto
  then show r: "rotations sk (f(sk_name sk := nd)) = rotations sk f" by (simp add: rotations_def)
  have "traverse (records_of gz (f(sk_name sk := nd))) (rotations sk f) = traverse (records_of gz f) (rotations sk f)"
    by (intro traverse_cong records_of_cong) (auto dest: set_rotations)
  then show "old_log gz sk (f(sk_name sk := nd)) = old_log gz sk f" by (simp only: old_log_def r)
qed

lemma anchored_iff: "anchored sk f \<longleftrightarrow> rotations sk f \<noteq> []"
  using set_rotations [of "hd (rotations sk f)" sk f]
  by (cases "rotations sk f") (auto simp: anchored_def file_names_def)

lemma records_of_current:
  assumes "\<not> gz_name n" and "f n = Regular m b"
  shows "records_of gz f n = (if ROTATE_BYTES + MAX_EVENT_BYTES < length b then Inl DeploymentPolicyError else decode_lines b)"
  using assms by (simp add: records_of_def file_bytes_def)

lemma decode_lines_snoc:
  "decode_lines b = Inr qs \<Longrightarrow> storable r \<Longrightarrow> decode_lines (b @ chained_canonical_bytes r) = Inr (qs @ [r])"
  by (simp add: decode_lines_Inr)

lemma log_touched:
  assumes "\<not> gz_name (sk_name sk)" and "log_of gz sk f = Inr rs" and "touched f (sk_name sk) g"
  shows "log_of gz sk g = Inr rs"
proof (cases "g = f")
  case False
  then obtain m where g: "g = f(sk_name sk := Regular m (old_bytes (f (sk_name sk))))"
      and f: "f (sk_name sk) = Missing \<or> is_regular (f (sk_name sk))" using assms(3) by (auto simp: touched_def)
  have "decode_lines [] = Inr []" by (simp add: decode_lines_def)
  with f assms(1,2) show ?thesis
    by (auto simp: log_of_split g old_log_current records_of_current old_bytes_def is_regular_def
        split: node.splits if_splits)
qed (simp add: assms(2))

lemma log_extended:
  assumes "\<not> gz_name (sk_name sk)" and "log_of gz sk f = Inr rs"
    and "extended f (sk_name sk) (chained_canonical_bytes r) g" and "storable r"
    and "length (old_bytes (f (sk_name sk))) + length (chained_canonical_bytes r) \<le> ROTATE_BYTES + MAX_EVENT_BYTES"
  shows "log_of gz sk g = Inr (rs @ [r])"
proof -
  obtain m where g: "g = f(sk_name sk := Regular m (old_bytes (f (sk_name sk)) @ chained_canonical_bytes r))"
      and f: "f (sk_name sk) = Missing \<or> is_regular (f (sk_name sk))" using assms(3) by (auto simp: extended_def)
  have "decode_lines [] = Inr []" by (simp add: decode_lines_def)
  with f assms(1,2,4,5) show ?thesis
    by (auto simp: log_of_split g old_log_current records_of_current old_bytes_def is_regular_def
        decode_lines_snoc decode_lines_snoc [of "[]", simplified] split: node.splits if_splits)
qed

lemma log_torn:
  assumes "\<not> gz_name (sk_name sk)" and "log_of gz sk f = Inr rs"
    and "torn f (sk_name sk) l (chained_canonical_bytes r) g" and "storable r"
  shows "log_of gz sk g = Inr rs \<or> log_of gz sk g = Inl DeploymentPolicyError"
proof -
  let ?n = "sk_name sk" and ?k = "accepted l (chained_canonical_bytes r)"
  let ?part = "take ?k (chained_canonical_bytes r)"
  obtain m where g: "g = f(?n := Regular m (old_bytes (f ?n) @ ?part))" and f: "f ?n = Missing \<or> is_regular (f ?n)"
    using assms(3) by (auto simp: torn_def extended_def)
  have k: "?k < length (chained_canonical_bytes r)" using assms(3) by (simp add: torn_def)
  show ?thesis
  proof (cases "?k = 0")
    case True
    then have "touched f ?n g" using g f by (auto simp: touched_def)
    then show ?thesis using log_touched [OF assms(1,2)] by blast
  next
    case False
    have "wf_chained r" using assms(4) by (simp add: storable_def)
    then obtain b where b: "chained_canonical_bytes r = b @ [NEWLINE]" "list_all inked b" by (rule chained_line)
    have "?part = take ?k b" using k by (simp add: b(1))
    moreover have "take ?k b \<noteq> []" using k False b(1) by auto
    ultimately have "?part \<noteq> []" "last ?part \<in> set b" by (metis, metis in_set_takeD last_in_set)
    then have "last ?part \<noteq> NEWLINE" using b(2) by (auto simp: list_all_iff inked_def NEWLINE_def)
    with \<open>?part \<noteq> []\<close> have "decode_lines (old_bytes (f ?n) @ ?part) = Inl DeploymentPolicyError"
      by (simp add: decode_lines_def)
    then have "records_of gz g ?n = Inl DeploymentPolicyError" using records_of_current [OF assms(1), of g] g by simp
    moreover obtain qs where "old_log gz sk g = Inr qs"
      using assms(2) by (auto simp: log_of_split g old_log_current)
    moreover have "g ?n \<noteq> Missing" by (simp add: g)
    ultimately show ?thesis by (simp add: log_of_split)
  qed
qed

section \<open>Appending to a history\<close>

text \<open>The record that an append adds to a history.\<close>

definition next_record :: "chained_record list \<Rightarrow> audit_event \<Rightarrow> chained_record" where
  "next_record rs e = \<lparr>ch_event = e, ch_previous = tip None rs\<rparr>"

definition rotates :: "audit_sink \<Rightarrow> (string \<Rightarrow> node) \<Rightarrow> chained_record list \<Rightarrow> audit_event \<Rightarrow> bool" where
  "rotates sk f rs e \<longleftrightarrow>
     must_rotate sk (entry_size (f (sk_name sk))) (length (chained_canonical_bytes (next_record rs e)))
       (cs_last_day (scan_of rs)) (take 10 (ev_timestamp e))"

lemma wf_next_record: "wf_event e \<Longrightarrow> wf_chained (next_record rs e)"
  by (auto simp: next_record_def wf_chained_def tip_def chained_sha256_def fullmatch_SHA256_RE split: if_splits)

lemma valid_chain_next:
  "valid_chain a rs \<Longrightarrow> ev_event_id e \<notin> set (event_ids rs) \<Longrightarrow> valid_chain a (rs @ [next_record rs e])"
  by (auto simp: valid_chain_snoc next_record_def anchor_def tip_def)

lemma anchored_current: "touched f (sk_name sk) g \<or> extended f (sk_name sk) p g \<Longrightarrow> anchored sk g = anchored sk f"
  by (auto simp: anchored_iff touched_def extended_def old_log_current(2))

text \<open>
  What an append that returns leaves behind.  Where it rotated the log, the current file holds
  the new record and nothing else.
\<close>

definition appended :: "gzip_codec \<Rightarrow> audit_sink \<Rightarrow> (string \<Rightarrow> node) \<Rightarrow> chained_record list \<Rightarrow> audit_event \<Rightarrow> (string \<Rightarrow> node) \<Rightarrow> bool" where
  "appended gz sk f rs e g \<longleftrightarrow>
     (if rotates sk f rs e then records_of gz g (sk_name sk) = Inr [next_record rs e]
      else log_of gz sk g = Inr (rs @ [next_record rs e]) \<and> valid_chain (anchored sk g) (rs @ [next_record rs e]))"

text \<open>What one that raises may leave behind: a record cut off by a short write spoils the log.\<close>

definition cut_off :: "audit_sink \<Rightarrow> nat option \<Rightarrow> (string \<Rightarrow> node) \<Rightarrow> chained_record \<Rightarrow> (string \<Rightarrow> node) \<Rightarrow> bool" where
  "cut_off sk l f r g \<longleftrightarrow>
     accepted l (chained_canonical_bytes r) < length (chained_canonical_bytes r) \<and>
     (\<exists>m. g (sk_name sk) =
        Regular m (old_bytes (f (sk_name sk)) @ take (accepted l (chained_canonical_bytes r)) (chained_canonical_bytes r)))"

definition outcome ::
    "gzip_codec \<Rightarrow> audit_sink \<Rightarrow> nat option \<Rightarrow> (string \<Rightarrow> node) \<Rightarrow> chained_record list \<Rightarrow> audit_event \<Rightarrow> (string \<Rightarrow> node) \<Rightarrow> bool" where
  "outcome gz sk l f rs e g \<longleftrightarrow>
     rotates sk f rs e \<or> log_of gz sk g = Inr rs \<or> log_of gz sk g = Inr (rs @ [next_record rs e]) \<or>
     log_of gz sk g = Inl DeploymentPolicyError \<and> cut_off sk l f (next_record rs e) g"

text \<open>The part of \<open>append_locked\<close> that follows the validation, with and without a rotation.\<close>

definition write_turn :: "gzip_codec \<Rightarrow> string \<Rightarrow> audit_sink \<Rightarrow> string \<Rightarrow> string \<Rightarrow> (audit_world, unit) act" where
  "write_turn gz drawn sk previous payload =
     act_bind (read_entry (sk_name sk)) (\<lambda>raw.
     act_bind (act_lift (decode_lines raw)) (\<lambda>records.
     act_bind (rotate_log gz drawn sk previous (ev_timestamp (ch_event (last records)))) (\<lambda>_.
     write_record (sk_name sk) payload)))"

lemma wp_write_turn:
  assumes h: "holds d f l w" and sk: "sk_name sk = AUDIT_NAME" and st: "storable r"
  shows "wp (write_turn gz drawn sk previous (chained_canonical_bytes r))
    (\<lambda>_ w'. \<exists>g. holds d g l w' \<and> records_of gz g (sk_name sk) = Inr [r]) (\<lambda>_ w'. \<exists>g. holds d g l w') w"
  unfolding write_turn_def wp_seq
proof (rule steadyD [OF steady_read_entry h])
  let ?p = "chained_canonical_bytes r"
  let ?Q = "\<lambda>_ w'. \<exists>g. holds d g l w' \<and> records_of gz g (sk_name sk) = Inr [r]" and ?E = "\<lambda>_ w'. \<exists>g. holds d g l w'"
  have nogz: "\<not> gz_name AUDIT_NAME" by code_simp
  have small: "length ?p \<le> ROTATE_BYTES + MAX_EVENT_BYTES" using st by (simp add: storable_def)
  have last: "wp (write_record (sk_name sk) ?p) ?Q ?E w1" if h1: "holds d g l w1" and g: "g AUDIT_NAME = Missing" for g w1
  proof (rule wp_write_record [OF h1])
    fix w2 g'
    assume g': "holds d g' l w2" "extended g (sk_name sk) ?p g'"
    then obtain m where "g' (sk_name sk) = Regular m ?p" using g sk by (auto simp: extended_def old_bytes_def)
    then have "records_of gz g' (sk_name sk) = Inr [r]"
      using records_of_current [of "sk_name sk" g'] nogz sk small st by (simp add: decode_lines_Inr)
    with g'(1) show "?Q () w2" by blast
  qed blast
  fix raw g w1
  assume h1: "holds d g l w1"
  have turn: "wp (rotate_log gz drawn sk previous t) (\<lambda>_. wp (write_record (sk_name sk) ?p) ?Q ?E) ?E w1" for t
    by (rule wp_conseq [OF wp_rotate_log [OF h1 sk]]) (auto intro: last)
  show "wp (act_lift (decode_lines raw)) (\<lambda>records. wp (rotate_log gz drawn sk previous (ev_timestamp (ch_event (last records))))
      (\<lambda>_. wp (write_record (sk_name sk) ?p) ?Q ?E) ?E) ?E w1"
    using h1 turn by (cases "decode_lines raw") auto
qed auto

lemma wp_append_locked:
  assumes h: "holds d f l w" and "d \<noteq> Missing" and sk: "sk_name sk = AUDIT_NAME" "sk_rotate_bytes sk \<le> ROTATE_BYTES"
    and log: "log_of gz sk f = Inr rs" and wf: "wf_event e"
  shows "wp (append_locked gz drawn sk e)
    (\<lambda>_ w'. \<exists>g. holds d g l w' \<and> appended gz sk f rs e g \<and> outcome gz sk l f rs e g)
    (\<lambda>_ w'. \<exists>g. holds d g l w' \<and> outcome gz sk l f rs e g) w"
  unfolding append_locked_def wp_act_bind write_turn_def [symmetric]
proof (rule wp_validate_history [OF h])
  let ?r = "next_record rs e" and ?n = "sk_name sk"
  let ?E = "\<lambda>_ w'. \<exists>g. holds d g l w' \<and> outcome gz sk l f rs e g"
  let ?Q = "\<lambda>_ w'. \<exists>g. holds d g l w' \<and> appended gz sk f rs e g \<and> outcome gz sk l f rs e g"
  have nogz: "\<not> gz_name ?n" unfolding sk(1) by code_simp
  have same: "outcome gz sk l f rs e f" using log by (simp add: outcome_def)
  then show E0: "\<exists>g. holds d g l w' \<and> outcome gz sk l f rs e g" if "holds d f l w'" for w' using that by blast
  fix rs' w'
  assume rs': "log_of gz sk f = Inr rs'" "valid_chain (anchored sk f) rs'" and h': "holds d f l w'"
  have eq: "rs' = rs" and ent: "entry w' = f" using rs'(1) log h' by (auto simp: holds_def)
  let ?body = "\<lambda>w. if ev_event_id e \<in> set (cs_event_ids (scan_of rs')) then (Inl DeploymentPolicyError, w)
     else
     let payload = chained_canonical_bytes \<lparr>ch_event = e, ch_previous = cs_previous (scan_of rs')\<rparr> in
     if MAX_EVENT_BYTES < length payload then (Inl DeploymentPolicyError, w)
     else if must_rotate sk (entry_size (entry w (sk_name sk))) (length payload) (cs_last_day (scan_of rs'))
               (take 10 (ev_timestamp e))
     then (case cs_previous (scan_of rs') of
             None \<Rightarrow> (Inl AssertionError, w)
           | Some previous \<Rightarrow> write_turn gz drawn sk previous payload w)
     else write_record (sk_name sk) payload w"
  show "wp ?body ?Q ?E w'"
  proof (cases "ev_event_id e \<in> set (event_ids rs) \<or> MAX_EVENT_BYTES < length (chained_canonical_bytes ?r)")
    case True
    then have "?body w' = (Inl DeploymentPolicyError, w')"
      by (auto simp: scan_of_def eq next_record_def [symmetric] Let_def)
    then show ?thesis using E0 [OF h'] by (simp add: wp_def)
  next
    case False
    then have st: "storable ?r" using wf_next_record [OF wf] by (simp add: storable_def)
    show ?thesis
    proof (cases "rotates sk f rs e")
      case True
      have run: "?body w' = (case tip None rs of None \<Rightarrow> (Inl AssertionError, w')
          | Some previous \<Rightarrow> write_turn gz drawn sk previous (chained_canonical_bytes ?r) w')"
        using False True by (simp add: scan_of_def eq next_record_def ent Let_def rotates_def split: option.split)
      have "wp (write_turn gz drawn sk previous (chained_canonical_bytes ?r)) ?Q ?E w'" for previous
        by (rule wp_conseq [OF wp_write_turn [OF h' sk(1) st]]) (auto simp: appended_def outcome_def True)
      then show ?thesis using E0 [OF h'] run by (cases "tip None rs") (simp_all add: wp_def)
    next
      case norot: False
      have vc: "valid_chain (anchored sk f) (rs @ [?r])" using valid_chain_next rs'(2) eq False by simp
      have mr: "\<not> must_rotate sk (entry_size (f ?n)) (length (chained_canonical_bytes ?r)) (cs_last_day (scan_of rs))
          (take 10 (ev_timestamp e))" using norot by (simp add: rotates_def)
      have "length (old_bytes (f ?n)) + length (chained_canonical_bytes ?r) \<le> ROTATE_BYTES + MAX_EVENT_BYTES"
        using mr sk(2) False by (auto simp: must_rotate_def entry_size_def old_bytes_def split: node.splits)
      note ext = log_extended [OF nogz log _ st this]
      have run: "?body w' = write_record ?n (chained_canonical_bytes ?r) w'"
        using False mr by (simp add: scan_of_def eq next_record_def ent Let_def)
      have x: "appended gz sk f rs e g \<and> outcome gz sk l f rs e g"
        if "extended f ?n (chained_canonical_bytes ?r) g" for g
        using ext [OF that] vc anchored_current [OF disjI2, OF that] norot by (simp add: outcome_def appended_def)
      have c: "cut_off sk l f ?r g" if "torn f ?n l (chained_canonical_bytes ?r) g" for g
        using that by (auto simp: torn_def cut_off_def extended_def)
      have t: "outcome gz sk l f rs e g" if "attempted f ?n l (chained_canonical_bytes ?r) g" for g
        using that x log_touched [OF nogz log] log_torn [OF nogz log _ st] c unfolding attempted_def outcome_def by blast
      have "wp (write_record ?n (chained_canonical_bytes ?r)) ?Q ?E w'"
        by (rule wp_write_record [OF h']) (use t x in blast)+
      with run show ?thesis by (simp add: wp_def)
    qed
  qed
qed (rule assms(2))

lemma audit_name_facts: "\<not> gz_name AUDIT_NAME" "\<not> fullmatch ROTATED_RE LOCK_NAME" "LOCK_NAME \<noteq> AUDIT_NAME"
  by code_simp+

lemma log_lock:
  assumes "sk_name sk = AUDIT_NAME"
  shows "log_of gz sk (f(LOCK_NAME := nd)) = log_of gz sk f" "anchored sk (f(LOCK_NAME := nd)) = anchored sk f"
    "(f(LOCK_NAME := nd)) (sk_name sk) = f (sk_name sk)"
proof -
  have *: "is_history sk n \<Longrightarrow> (f(LOCK_NAME := nd)) n = f n" for n
    using assms audit_name_facts by (auto simp: is_history_def)
  show "log_of gz sk (f(LOCK_NAME := nd)) = log_of gz sk f" by (rule log_of_cong(1)) (rule *)
  show "anchored sk (f(LOCK_NAME := nd)) = anchored sk f" by (rule anchored_cong) (rule *)
  show "(f(LOCK_NAME := nd)) (sk_name sk) = f (sk_name sk)" using assms audit_name_facts(3) by auto
qed

lemma outcome_lock:
  assumes "sk_name sk = AUDIT_NAME"
  shows "outcome gz sk l (f(LOCK_NAME := nd)) rs e g \<longleftrightarrow> outcome gz sk l f rs e g"
    and "appended gz sk (f(LOCK_NAME := nd)) rs e g \<longleftrightarrow> appended gz sk f rs e g"
  by (simp_all only: outcome_def appended_def cut_off_def rotates_def log_lock(3) [OF assms])

lemma wp_locked:
  assumes h: "holds d f l w" and "d \<noteq> Missing" and sk: "sk_name sk = AUDIT_NAME" "sk_rotate_bytes sk \<le> ROTATE_BYTES"
    and log: "log_of gz sk f = Inr rs" and wf: "wf_event e" and lock: "f LOCK_NAME \<noteq> Missing"
  shows "wp (act_bind (fchmod_entry LOCK_NAME) (\<lambda>_. finally_close (act_bind quiet (\<lambda>_. append_locked gz drawn sk e))))
    (\<lambda>_ w'. \<exists>g. holds d g l w' \<and> appended gz sk f rs e g \<and> outcome gz sk l f rs e g)
    (\<lambda>_ w'. \<exists>g. holds d g l w' \<and> outcome gz sk l f rs e g) w"
  unfolding wp_act_bind
proof (rule wp_fchmod_entry [OF h])
  let ?f = "f(LOCK_NAME := with_mode 384 (f LOCK_NAME))"
  show "\<exists>g. holds d g l w' \<and> outcome gz sk l f rs e g" if "holds d f l w'" for w'
    using that log by (auto simp: outcome_def)
  fix w1
  assume h1: "holds d ?f l w1"
  show "wp (finally_close (act_bind quiet (\<lambda>_. append_locked gz drawn sk e)))
    (\<lambda>_ w'. \<exists>g. holds d g l w' \<and> appended gz sk f rs e g \<and> outcome gz sk l f rs e g)
    (\<lambda>_ w'. \<exists>g. holds d g l w' \<and> outcome gz sk l f rs e g) w1"
  proof (rule wp_finally_close [where d = d and l = l and P = "outcome gz sk l f rs e" and R = "appended gz sk f rs e"])
    have lf: "log_of gz sk ?f = Inr rs" using log by (simp only: log_lock(1) [OF sk(1)])
    then have "outcome gz sk l f rs e ?f" by (simp add: outcome_def)
    then show "wp (act_bind quiet (\<lambda>_. append_locked gz drawn sk e))
        (\<lambda>x w'. \<exists>g. holds d g l w' \<and> appended gz sk f rs e g \<and> outcome gz sk l f rs e g)
        (\<lambda>e' w'. \<exists>g. holds d g l w' \<and> outcome gz sk l f rs e g) w1"
      unfolding wp_act_bind
      by (intro wp_quiet [OF h1])
        (auto intro!: wp_append_locked [OF _ assms(2) sk lf wf, unfolded outcome_lock [OF sk(1)]])
  qed auto
qed (rule lock)

lemma wp_make_directory:
  assumes "holds d f l w" and "\<And>e w'. holds d f l w' \<Longrightarrow> E e w'"
    and "\<And>d' w'. d' \<noteq> Missing \<Longrightarrow> holds d' f l w' \<Longrightarrow> Q () w'"
  shows "wp make_directory Q E w"
  unfolding make_directory_def
proof (rule wp_call [OF assms(1,2)])
  fix w'
  assume h: "holds d f l w'"
  then have "holds (Directory 448) f l (w'\<lparr>aw_directory := Directory 448\<rparr>)" "aw_directory w' = d"
    by (auto simp: holds_def entry_def fun_eq_iff wf_world_def)
  then have "Q () (w'\<lparr>aw_directory := Directory 448\<rparr>)" using assms(3) [of "Directory 448"] by blast
  moreover have "d \<noteq> Missing \<Longrightarrow> Q () w'" using h by (rule assms(3) [rotated])
  ultimately show "wp (\<lambda>w. if aw_directory w = Missing then (Inr (), w\<lparr>aw_directory := Directory 448\<rparr>)
      else if is_directory (aw_directory w) then (Inr (), w) else (Inl OSError, w)) Q E w'"
    using assms(2) [OF h] \<open>aw_directory w' = d\<close> by (simp add: wp_def)
qed

lemma wp_chmod_directory:
  assumes "holds d f l w" and "\<And>e w'. holds d f l w' \<Longrightarrow> E e w'" and "d \<noteq> Missing"
    and "\<And>d' w'. d' \<noteq> Missing \<Longrightarrow> holds d' f l w' \<Longrightarrow> Q () w'"
  shows "wp chmod_directory Q E w"
  unfolding chmod_directory_def
proof (rule wp_call [OF assms(1,2)])
  fix w'
  assume "holds d f l w'"
  then have "holds (with_mode 448 d) f l (w'\<lparr>aw_directory := with_mode 448 (aw_directory w')\<rparr>)"
    by (auto simp: holds_def entry_def fun_eq_iff wf_world_def)
  with assms(3,4) have "Q () (w'\<lparr>aw_directory := with_mode 448 (aw_directory w')\<rparr>)" using with_mode_neq by blast
  then show "wp (\<lambda>w. (Inr (), w\<lparr>aw_directory := with_mode 448 (aw_directory w)\<rparr>)) Q E w'" by (simp add: wp_def)
qed

lemma wp_locked_open:
  assumes h: "holds d f l w" and "d \<noteq> Missing" and sk: "sk_name sk = AUDIT_NAME" "sk_rotate_bytes sk \<le> ROTATE_BYTES"
    and log: "log_of gz sk f = Inr rs" and wf: "wf_event e"
  shows "wp (open_create LOCK_NAME) (\<lambda>_. wp (act_bind (fchmod_entry LOCK_NAME)
        (\<lambda>_. finally_close (act_bind quiet (\<lambda>_. append_locked gz drawn sk e))))
      (\<lambda>_ w'. \<exists>d g. holds d g l w' \<and> appended gz sk f rs e g \<and> outcome gz sk l f rs e g)
      (\<lambda>_ w'. \<exists>d g. holds d g l w' \<and> outcome gz sk l f rs e g))
    (\<lambda>_ w'. \<exists>d g. holds d g l w' \<and> outcome gz sk l f rs e g) w"
proof (rule wp_open_create [OF h])
  have "outcome gz sk l f rs e f" using log by (simp add: outcome_def)
  then show "\<exists>d g. holds d g l w' \<and> outcome gz sk l f rs e g" if "holds d f l w'" for w' using that by blast
next
  fix w'
  let ?f = "f(LOCK_NAME := Regular 384 [])"
  assume h': "holds d ?f l w'"
  have lf: "log_of gz sk ?f = Inr rs" using log by (simp only: log_lock(1) [OF sk(1)])
  show "wp (act_bind (fchmod_entry LOCK_NAME) (\<lambda>_. finally_close (act_bind quiet (\<lambda>_. append_locked gz drawn sk e))))
      (\<lambda>_ w'. \<exists>d g. holds d g l w' \<and> appended gz sk f rs e g \<and> outcome gz sk l f rs e g)
      (\<lambda>_ w'. \<exists>d g. holds d g l w' \<and> outcome gz sk l f rs e g) w'"
    by (rule wp_conseq [OF wp_locked [OF h' assms(2) sk lf wf, unfolded outcome_lock [OF sk(1)]]]) auto
next
  fix m b w'
  assume f: "f LOCK_NAME = Regular m b" and h': "holds d f l w'"
  show "wp (act_bind (fchmod_entry LOCK_NAME) (\<lambda>_. finally_close (act_bind quiet (\<lambda>_. append_locked gz drawn sk e))))
      (\<lambda>_ w'. \<exists>d g. holds d g l w' \<and> appended gz sk f rs e g \<and> outcome gz sk l f rs e g)
      (\<lambda>_ w'. \<exists>d g. holds d g l w' \<and> outcome gz sk l f rs e g) w'"
    by (rule wp_conseq [OF wp_locked [OF h' assms(2) sk log wf]]) (auto simp: f)
qed

lemma wp_audit_append:
  assumes h: "holds d f l w" and sk: "sk_name sk = AUDIT_NAME" "sk_rotate_bytes sk \<le> ROTATE_BYTES"
    and log: "log_of gz sk f = Inr rs"
  shows "wp (audit_append gz drawn sk e)
      (\<lambda>_ w'. \<exists>d g. holds d g l w' \<and> wf_event e \<and> appended gz sk f rs e g \<and> outcome gz sk l f rs e g)
      (\<lambda>_ w'. \<exists>d g. holds d g l w' \<and> outcome gz sk l f rs e g) w"
proof -
  let ?E = "\<lambda>_ w'. \<exists>d g. holds d g l w' \<and> outcome gz sk l f rs e g"
  let ?Q = "\<lambda>_ w'. \<exists>d g. holds d g l w' \<and> wf_event e \<and> appended gz sk f rs e g \<and> outcome gz sk l f rs e g"
  have same: "outcome gz sk l f rs e f" using log by (simp add: outcome_def)
  show ?thesis
  proof (cases "wf_event e")
    case False
    then obtain x where "event_from_dict (event_to_dict e) = Inl x"
      using event_from_own_dict [of e] by (cases "event_from_dict (event_to_dict e)") auto
    then show ?thesis using h same by (auto simp: audit_append_def wp_def act_bind_def)
  next
    case True
    let ?locked = "act_catch (act_bind (fchmod_entry LOCK_NAME)
        (\<lambda>_. finally_close (act_bind quiet (\<lambda>_. append_locked gz drawn sk e))))
       (\<lambda>e. act_lift (Inl (if caught e [OSError] then DeploymentPolicyError else e)))"
    let ?rest = "\<lambda>w. if is_symlink (aw_directory w) \<or> \<not> is_directory (aw_directory w) then (Inl DeploymentPolicyError, w)
     else act_bind chmod_directory (\<lambda>_. act_bind (open_create LOCK_NAME) (\<lambda>_. ?locked)) w"
    have handled: "wp (act_catch m (\<lambda>e. act_lift (Inl (if caught e [OSError] then DeploymentPolicyError else e)))) ?Q ?E w'"
      if "wp m (\<lambda>_ w'. \<exists>d g. holds d g l w' \<and> appended gz sk f rs e g \<and> outcome gz sk l f rs e g) ?E w'"
      for m :: "(audit_world, unit) act" and w'
      unfolding wp_act_catch by (rule wp_conseq [OF that]) (use True in simp_all)
    have locked: "wp (open_create LOCK_NAME) (\<lambda>_. wp ?locked ?Q ?E) ?E w1" if "holds d1 f l w1" "d1 \<noteq> Missing" for d1 w1
      by (rule wp_conseq [OF wp_locked_open [OF that sk log True, of drawn]]) (erule handled, assumption)
    have rest: "wp ?rest ?Q ?E w1" if "holds d1 f l w1" "d1 \<noteq> Missing" for d1 w1
    proof (cases "is_symlink (aw_directory w1) \<or> \<not> is_directory (aw_directory w1)")
      case True
      then show ?thesis using that same by (auto simp: wp_def)
    next
      case False
      have "wp (act_bind chmod_directory (\<lambda>_. act_bind (open_create LOCK_NAME) (\<lambda>_. ?locked))) ?Q ?E w1"
        unfolding wp_seq
        by (rule wp_chmod_directory [OF that(1)]) (use that(2) same locked [unfolded wp_seq] in blast)+
      then show ?thesis using False by (simp add: wp_def)
    qed
    have "wp (act_bind make_directory (\<lambda>_. ?rest)) ?Q ?E w"
      unfolding wp_seq by (rule wp_make_directory [OF h]) (use same rest in blast)+
    moreover have "event_from_dict (event_to_dict e) = Inr e" using True by (simp add: event_accepted)
    then have "audit_append gz drawn sk e w = act_bind make_directory (\<lambda>_. ?rest) w"
      by (simp add: audit_append_def act_bind_def)
    ultimately show ?thesis by (simp add: wp_def)
  qed
qed

section \<open>Properties\<close>

text \<open>
  C18: The log is tamper evident.  Take two texts of records that the sink decodes and whose
  chains it accepts, so that the hash of the last record is the same.  If both histories
  start at the beginning of the log they are equal, record by record and byte by byte,
  unless two of their records exhibit a SHA-256 collision.  If one of them starts at a
  retained rotation, one of them is a suffix of the other, or again there is a collision.
\<close>

theorem audit_chain_tamper_evident:
  assumes "decode_lines raw = Inr rs" and "decode_lines raw' = Inr qs"
    and "scan_records a scan_start rs = Inr s" and "scan_records b scan_start qs = Inr s'"
    and "cs_previous s = cs_previous s'"
  shows "(collision rs qs \<or> (\<exists>zs. rs = zs @ qs) \<or> (\<exists>zs. qs = zs @ rs)) \<and>
    (\<not> a \<and> \<not> b \<longrightarrow> collision rs qs \<or> rs = qs \<and> raw = raw')"
proof -
  have wf: "list_all wf_chained rs" "list_all wf_chained qs"
    and raw: "raw = concat (map chained_canonical_bytes rs)" "raw' = concat (map chained_canonical_bytes qs)"
    using assms(1,2) by (auto simp: decode_lines_Inr list_all_iff storable_def)
  have l: "links (anchor a rs) rs" "links (anchor b qs) qs" and t: "tip None rs = tip None qs"
    using assms(3-5) by (auto simp: scan_records_start valid_chain_def scan_of_def)
  have ne: "qs = [] \<longleftrightarrow> rs = []" using t by (auto simp: tip_def split: if_splits)
  show ?thesis
  proof (cases "rs = []")
    case True
    then show ?thesis using ne raw by simp
  next
    case False
    then have t': "tip (anchor a rs) rs = tip (anchor b qs) qs" using t ne by (simp add: tip_def)
    have 1: "collision rs qs \<or> (\<exists>zs. rs = zs @ qs) \<or> (\<exists>zs. qs = zs @ rs)"
      using equal_tips [OF wf l t'] by blast
    have "collision rs qs \<or> rs = qs" if "\<not> a \<and> \<not> b"
      using 1 l that False ne links_unanchored_suffix by (auto simp: anchor_def)
    then have "\<not> a \<and> \<not> b \<longrightarrow> collision rs qs \<or> rs = qs \<and> raw = raw'" using raw by auto
    with 1 show ?thesis by blast
  qed
qed

text \<open>A log with one record.\<close>

definition sample_record :: chained_record where
  "sample_record = next_record [] (event_of_request sample_exec sample_event_arguments)"

lemma sample_record_storable: "storable sample_record"
proof -
  let ?e = "event_of_request sample_exec sample_event_arguments"
  have "print_bound (chained_to_dict sample_record) \<le> 16000"
    by (simp add: chained_to_dict_def sample_record_def next_record_def tip_def event_to_dict_def
        audit_identity_to_dict_def event_of_request_def identity_of_request_def exec_request_sha256_def
        sample_event_arguments_def sample_exec_def AUDIT_SCHEMA_VERSION_def
        AUDIT_EXECUTION_IDENTITY_SCHEMA_VERSION_def DEV_REPOSITORY_ID_def DEV_WORKFLOW_REF_def sample_commit_def
        sample_hash_def sample_image_digest_def DEV_OCI_REPOSITORY_def)
  then have "length (chained_canonical_bytes sample_record) \<le> MAX_EVENT_BYTES"
    using length_json_dumps [of "chained_to_dict sample_record"]
    by (simp add: chained_canonical_bytes_def canonical_bytes_def MAX_EVENT_BYTES_def)
  moreover have "wf_chained sample_record"
    unfolding sample_record_def by (rule wf_next_record [OF sample_event_wf])
  ultimately show ?thesis by (simp add: storable_def)
qed

lemma sample_decodes: "decode_lines (chained_canonical_bytes sample_record) = Inr [sample_record]"
  using sample_record_storable by (simp add: decode_lines_Inr)

lemma sample_scan: "scan_records False scan_start [sample_record] = Inr (scan_of [sample_record])"
  unfolding scan_records_start
  by (simp add: valid_chain_def anchor_def sample_record_def next_record_def tip_def event_ids_def)

text \<open>A log with a second record, and what is left of it once the first one was rotated away.\<close>

definition second_event :: audit_event where
  "second_event = event_of_request sample_exec (sample_event_arguments\<lparr>ea_event_id := ''evt-2''\<rparr>)"

definition sample_second :: chained_record where
  "sample_second = next_record [sample_record] second_event"

lemma second_event_wf: "wf_event second_event"
proof -
  have i: "fullmatch EVENT_ID_RE ''evt-2''" by code_simp
  have "wf_event_text second_event" "wf_event_kind second_event"
    using sample_event_texts i sample_texts_ok dev_repository_approved
    by (simp_all add: wf_event_text_def wf_event_kind_def event_of_request_def sample_event_arguments_def sample_exec_def
        second_event_def)
  moreover have "ev_execution_identity second_event = ev_execution_identity (event_of_request sample_exec sample_event_arguments)"
    by (simp add: second_event_def event_of_request_def)
  moreover have "print_bound (event_to_dict second_event) \<le> 16000"
    by (simp add: event_to_dict_def audit_identity_to_dict_def event_of_request_def identity_of_request_def second_event_def
        exec_request_sha256_def sample_event_arguments_def sample_exec_def AUDIT_SCHEMA_VERSION_def
        AUDIT_EXECUTION_IDENTITY_SCHEMA_VERSION_def DEV_REPOSITORY_ID_def DEV_WORKFLOW_REF_def sample_commit_def
        sample_hash_def sample_image_digest_def DEV_OCI_REPOSITORY_def)
  then have "length (event_canonical_bytes second_event) \<le> MAX_EVENT_BYTES"
    using length_json_dumps [of "event_to_dict second_event"]
    by (simp add: event_canonical_bytes_def canonical_bytes_def MAX_EVENT_BYTES_def)
  ultimately show ?thesis using sample_event_wf
    by (simp add: wf_event_iff event_of_request_def second_event_def)
qed

lemma sample_second_storable: "storable sample_second"
proof -
  have "print_bound (chained_to_dict sample_second) \<le> 16000"
    by (simp add: chained_to_dict_def sample_second_def next_record_def tip_def event_to_dict_def
        audit_identity_to_dict_def event_of_request_def identity_of_request_def exec_request_sha256_def second_event_def
        sample_event_arguments_def sample_exec_def AUDIT_SCHEMA_VERSION_def chained_sha256_def
        AUDIT_EXECUTION_IDENTITY_SCHEMA_VERSION_def DEV_REPOSITORY_ID_def DEV_WORKFLOW_REF_def sample_commit_def
        sample_hash_def sample_image_digest_def DEV_OCI_REPOSITORY_def)
  then have "length (chained_canonical_bytes sample_second) \<le> MAX_EVENT_BYTES"
    using length_json_dumps [of "chained_to_dict sample_second"]
    by (simp add: chained_canonical_bytes_def canonical_bytes_def MAX_EVENT_BYTES_def)
  moreover have "wf_chained sample_second"
    unfolding sample_second_def by (rule wf_next_record [OF second_event_wf])
  ultimately show ?thesis by (simp add: storable_def)
qed

lemma sample_log_decodes:
  "decode_lines (chained_canonical_bytes sample_record @ chained_canonical_bytes sample_second) = Inr [sample_record, sample_second]"
  "decode_lines (chained_canonical_bytes sample_second) = Inr [sample_second]"
  using sample_record_storable sample_second_storable by (simp_all add: decode_lines_Inr)

lemma sample_log_scans:
  "scan_records False scan_start [sample_record, sample_second] = Inr (scan_of [sample_record, sample_second])"
  "scan_records True scan_start [sample_second] = Inr (scan_of [sample_second])"
proof -
  have "ev_event_id (ch_event sample_record) \<noteq> ev_event_id (ch_event sample_second)"
    by (simp add: sample_record_def sample_second_def next_record_def second_event_def event_of_request_def sample_event_arguments_def)
  then show "scan_records False scan_start [sample_record, sample_second] = Inr (scan_of [sample_record, sample_second])"
    unfolding scan_records_start
    by (simp add: valid_chain_def anchor_def sample_record_def sample_second_def next_record_def tip_def event_ids_def)
  show "scan_records True scan_start [sample_second] = Inr (scan_of [sample_second])"
    unfolding scan_records_start by (simp add: valid_chain_def anchor_def event_ids_def)
qed

theorem audit_chain_tamper_evident_witness:
  "decode_lines (chained_canonical_bytes sample_record @ chained_canonical_bytes sample_second) = Inr [sample_record, sample_second] \<and>
   decode_lines (chained_canonical_bytes sample_second) = Inr [sample_second] \<and>
   (collision [sample_record, sample_second] [sample_second] \<or> (\<exists>zs. [sample_record, sample_second] = zs @ [sample_second]) \<or>
    (\<exists>zs. [sample_second] = zs @ [sample_record, sample_second]))"
  using audit_chain_tamper_evident [OF sample_log_decodes sample_log_scans] sample_log_decodes
  by (simp add: scan_of_def tip_def)

text \<open>
  C5: Appending extends the hash chain by exactly one record, under any schedule of failing
  file system calls and of short writes.  Take a directory with the history \<open>rs\<close>.  If
  \<open>append\<close> returns and the event does not make the log rotate, the history is now \<open>rs\<close> followed
  by the event, linked to the hash of the last record, and it validates again; if the log
  rotates, the current file then holds exactly that record.  If \<open>append\<close> raises without a
  rotation, the history is \<open>rs\<close> as before, or already has that record, or a short write
  has left a proper prefix of its line at the end of the file, and the sink refuses the log
  from then on.  Nothing is said of what a rotation makes of the earlier records, nor of a
  failing append that rotates.
\<close>

theorem audit_append_extends_history:
  assumes "sink_init AUDIT_NAME rb ROTATION_RETENTION = Inr sk" and "wf_world w"
    and "log_of gz sk (entry w) = Inr rs" and "audit_append gz drawn sk e w = (r, w')"
  shows "case r of
      Inr _ \<Rightarrow> wf_event e \<and>
        (if rotates sk (entry w) rs e then records_of gz (entry w') AUDIT_NAME = Inr [next_record rs e]
         else log_of gz sk (entry w') = Inr (rs @ [next_record rs e]) \<and>
           valid_chain (anchored sk (entry w')) (rs @ [next_record rs e]))
    | Inl _ \<Rightarrow> rotates sk (entry w) rs e \<or> log_of gz sk (entry w') = Inr rs \<or>
        log_of gz sk (entry w') = Inr (rs @ [next_record rs e]) \<or>
        log_of gz sk (entry w') = Inl DeploymentPolicyError \<and>
          (\<exists>k m. aw_write_limit w = Some k \<and> k < length (chained_canonical_bytes (next_record rs e)) \<and>
             entry w' AUDIT_NAME =
               Regular m (old_bytes (entry w AUDIT_NAME) @ take k (chained_canonical_bytes (next_record rs e))))"
proof -
  have sk: "sk_name sk = AUDIT_NAME" "sk_rotate_bytes sk \<le> ROTATE_BYTES"
    using assms(1) by (auto simp: sink_init_def split: if_splits)
  have "holds (aw_directory w) (entry w) (aw_write_limit w) w" using assms(2) by (simp add: holds_def)
  note * = wp_run [OF wp_audit_append [OF this sk assms(3)] assms(4)]
  show ?thesis
  proof (cases r)
    case (Inl x)
    from * Inl have "outcome gz sk (aw_write_limit w) (entry w) rs e (entry w')" by (auto simp: holds_def)
    then show ?thesis
      by (cases "aw_write_limit w") (auto simp: Inl outcome_def cut_off_def accepted_def sk)
  next
    case (Inr x)
    from * Inr have "wf_event e" "appended gz sk (entry w) rs e (entry w')" by (auto simp: holds_def)
    then show ?thesis by (auto simp: Inr appended_def sk)
  qed
qed

definition sample_world :: audit_world where
  "sample_world = \<lparr>aw_directory = Missing, aw_entries = [], aw_faults = [], aw_write_limit = None\<rparr>"

definition sample_codec :: gzip_codec where
  "sample_codec = \<lparr>gz_compress = (\<lambda>b. CHR ''z'' # b), gz_decompress = (\<lambda>b. if b = [] then Inl OSError else Inr (tl b))\<rparr>"

definition sample_sink :: audit_sink where
  "sample_sink = \<lparr>sk_name = AUDIT_NAME, sk_rotate_bytes = 4096\<rparr>"

lemma sample_append_returns:
  "fst (audit_append sample_codec ''x'' sample_sink (event_of_request sample_exec sample_event_arguments) sample_world) = Inr ()"
proof -
  let ?e = "event_of_request sample_exec sample_event_arguments"
  have st: "length (chained_canonical_bytes \<lparr>ch_event = ?e, ch_previous = None\<rparr>) \<le> MAX_EVENT_BYTES"
    using sample_record_storable by (simp add: storable_def sample_record_def next_record_def tip_def)
  have "event_from_dict (event_to_dict ?e) = Inr ?e" using sample_event_wf by (simp add: event_accepted)
  with st show ?thesis using audit_name_facts
    by (simp add: audit_append_def act_bind_def act_catch_def make_directory_def chmod_directory_def open_create_def call_def
        sample_world_def sample_sink_def entry_def set_entry_def fchmod_entry_def finally_close_def quiet_def append_locked_def
        validate_history_def audit_files_def list_history_def is_history_def scan_start_def must_rotate_def entry_size_def
        write_record_def write_bytes_def with_mode_def is_symlink_def is_directory_def Let_def act_lift_def is_regular_def)
qed

theorem audit_append_extends_history_witness:
  "let e = event_of_request sample_exec sample_event_arguments;
       (r, w') = audit_append sample_codec ''x'' sample_sink e sample_world in
   r = Inr () \<and> wf_event e \<and> log_of sample_codec sample_sink (entry w') = Inr [next_record [] e] \<and>
   valid_chain (anchored sample_sink (entry w')) [next_record [] e]"
proof -
  let ?e = "event_of_request sample_exec sample_event_arguments"
  have f: "entry sample_world = (\<lambda>n. Missing)" by (rule ext) (simp add: entry_def sample_world_def)
  have a: "sink_init AUDIT_NAME 4096 ROTATION_RETENTION = Inr sample_sink"
    by (simp add: sink_init_def ROTATE_BYTES_def sample_sink_def)
  have b: "wf_world sample_world" by (simp add: wf_world_def sample_world_def)
  have c: "log_of sample_codec sample_sink (entry sample_world) = Inr []"
    by (simp add: f log_of_def file_names_def rotations_def)
  have d: "\<not> rotates sample_sink (entry sample_world) [] ?e" by (simp add: f rotates_def must_rotate_def entry_size_def)
  obtain r w' where run: "audit_append sample_codec ''x'' sample_sink ?e sample_world = (r, w')" by fastforce
  then have "r = Inr ()" using sample_append_returns by simp
  with audit_append_extends_history [OF a b c run] d show ?thesis by (simp add: Let_def run)
qed

end
