(* ===== verification/Controller.thy ===== *)
theory Controller
  imports Promotion Audit_Sink
begin

text \<open>
  \<open>src/deployment/controller.py\<close>: environments, the stage order, candidates, gates,
  promotion and rollback, all as functions on deployment states.
\<close>

section \<open>Constants, gates and plans\<close>

definition ENVIRONMENT_FIELDS :: "string list" where
  "ENVIRONMENT_FIELDS = [''schema_version'', ''stage'', ''promotion_policy'', ''runtime'', ''activation'']"

definition PROMOTION_POLICY_FIELDS :: "string list" where
  "PROMOTION_POLICY_FIELDS =
     [''required_prior_stage'', ''source_registry_origin'', ''approved_repositories'', ''github_environment'',
      ''production_approval_required'']"

definition RUNTIME_FIELDS :: "string list" where
  "RUNTIME_FIELDS = [''configuration_reference'', ''secrets_reference'', ''ingress_reference'']"

definition ACTIVATION_FIELDS :: "string list" where
  "ACTIVATION_FIELDS = [''deployment_enabled'', ''verified_at'']"

record gate_results =
  migration_succeeded :: bool
  liveness_passed :: bool
  readiness_passed :: bool
  application_validation_passed :: bool
  nginx_validation_passed :: bool

definition all_passed :: "gate_results \<Rightarrow> bool" where
  "all_passed g \<longleftrightarrow>
     migration_succeeded g \<and> liveness_passed g \<and> readiness_passed g \<and>
     application_validation_passed g \<and> nginx_validation_passed g"

record deployment_plan =
  pl_operation :: string
  pl_stage :: string
  pl_release_version :: string
  pl_source_sha :: string
  pl_exact_image_reference :: string
  pl_active_slot :: "string option"
  pl_candidate_slot :: string
  pl_steps :: "string list"

definition PROMOTION_STEPS :: "string list" where
  "PROMOTION_STEPS =
     [''retain_active_traffic'', ''start_exact_digest_in_inactive_slot'',
      ''acquire_serialized_migration_lock'', ''verify_migration_identity_and_checksum'',
      ''execute_migration'', ''check_liveness'', ''check_readiness'',
      ''validate_application'', ''validate_nginx_syntax'', ''switch_nginx_traffic'',
      ''persist_active_state_atomically'', ''retain_previous_digest_for_rollback'']"

definition ROLLBACK_STEPS :: "string list" where
  "ROLLBACK_STEPS =
     [''retain_active_traffic'', ''start_retained_previous_digest_in_inactive_slot'',
      ''check_liveness'', ''check_readiness_against_current_schema'', ''validate_application'',
      ''validate_nginx_syntax'', ''switch_nginx_traffic'', ''persist_active_state_atomically'',
      ''retain_replaced_digest_for_rollback'']"

section \<open>Environments\<close>

text \<open>\<open>STAGES[STAGES.index(stage) - 1]\<close> for a stage after the first.\<close>

fun stage_before :: "string list \<Rightarrow> string \<Rightarrow> string option" where
  "stage_before (a # b # ss) s = (if s = b then Some a else stage_before (b # ss) s)"
| "stage_before _ s = None"

definition validate_environment :: "pyval \<Rightarrow> pydict result" where
  "validate_environment v =
     bnd (closed_object v ENVIRONMENT_FIELDS) (\<lambda>data.
     if \<not> py_eq (getv data ''schema_version'') (PInt SCHEMA_VERSION) then Inl DeploymentPolicyError
     else
     bnd (validate_stage (getv data ''stage'')) (\<lambda>stg.
     bnd (closed_object (getv data ''promotion_policy'') PROMOTION_POLICY_FIELDS) (\<lambda>promotion.
     let required = (if stg = ''dev'' then PNone else of_opt (stage_before STAGES stg)) in
     if \<not> py_eq (getv promotion ''required_prior_stage'') required \<or>
        \<not> py_eq (getv promotion ''source_registry_origin'') (PStr APPROVED_OCI_ORIGIN) \<or>
        \<not> py_eq (getv promotion ''approved_repositories'') (PList [PStr ''omnilyzer/task013-release-canary'']) \<or>
        \<not> py_eq (getv promotion ''github_environment'') (PStr (''task014-'' @ stg)) \<or>
        getv promotion ''production_approval_required'' \<noteq> PBool (stg = ''prod'')
     then Inl DeploymentPolicyError
     else
     bnd (closed_object (getv data ''runtime'') RUNTIME_FIELDS) (\<lambda>runtime.
     bnd (closed_object (getv data ''activation'') ACTIVATION_FIELDS) (\<lambda>activation.
     if list_ex (\<lambda>(key, v). v \<noteq> PNone) runtime then Inl DeploymentPolicyError
     else if \<not> py_eq (PDict activation) (PDict [(''deployment_enabled'', PBool False), (''verified_at'', PNone)])
     then Inl DeploymentPolicyError
     else Inr data)))))"

section \<open>Stage order\<close>

definition matching_success :: "promotion_request \<Rightarrow> string \<Rightarrow> audit_event \<Rightarrow> bool" where
  "matching_success request required_stage event \<longleftrightarrow>
     ev_event_type event = ''promotion_succeeded'' \<and> ev_result event = ''succeeded'' \<and>
     ev_stage event = required_stage \<and> ev_release_version event = rq_release_version request \<and>
     ev_source_sha event = rq_source_sha request \<and> ev_oci_repository event = rq_oci_repository request \<and>
     ev_digest event = rq_manifest_digest request"

definition require_stage_order :: "promotion_request \<Rightarrow> audit_event list \<Rightarrow> unit result" where
  "require_stage_order request events =
     (if rq_target_stage request \<notin> set STAGES then Inl ValueError
      else case stage_before STAGES (rq_target_stage request) of
        None \<Rightarrow> Inr ()
      | Some required_stage \<Rightarrow>
          if length (filter (matching_success request required_stage) events) \<noteq> 1
          then Inl DeploymentPolicyError else Inr ())"

section \<open>Candidates, promotion and rollback\<close>

definition inactive_slot :: "string option \<Rightarrow> string" where
  "inactive_slot active = (if active = Some ''blue'' then ''green'' else ''blue'')"

definition prepare_candidate ::
    "deployment_state \<Rightarrow> promotion_request \<Rightarrow> string \<Rightarrow> string \<Rightarrow> deployment_state result" where
  "prepare_candidate state request migration_identity migration_checksum =
     (if stage state \<noteq> rq_target_stage request then Inl DeploymentPolicyError
      else
      bnd (migration_from_dict (PDict
        [(''status'', PStr ''pending''), (''identity'', PStr migration_identity),
         (''checksum'', PStr migration_checksum), (''serialized_lock_required'', PBool True)])) (\<lambda>mig.
      Inr (state\<lparr>candidate_release := Some (rq_release_version request),
                 candidate_source_sha := Some (rq_source_sha request),
                 candidate_digest := Some (rq_manifest_digest request),
                 candidate_slot := Some (inactive_slot (active_slot state)), migration := mig\<rparr>)))"

definition promotion_plan :: "deployment_state \<Rightarrow> promotion_request \<Rightarrow> deployment_plan result" where
  "promotion_plan state request =
     (if stage state \<noteq> rq_target_stage request then Inl DeploymentPolicyError
      else Inr \<lparr>pl_operation = ''promotion'', pl_stage = stage state,
                pl_release_version = rq_release_version request, pl_source_sha = rq_source_sha request,
                pl_exact_image_reference = rq_exact_image_reference request, pl_active_slot = active_slot state,
                pl_candidate_slot = inactive_slot (active_slot state), pl_steps = PROMOTION_STEPS\<rparr>)"

definition authorize_traffic_switch :: "deployment_state \<Rightarrow> gate_results \<Rightarrow> unit result" where
  "authorize_traffic_switch state gates =
     (if candidate_digest state = None \<or> candidate_slot state = None then Inl DeploymentPolicyError
      else if ms_status (migration state) \<noteq> ''succeeded'' \<or> \<not> all_passed gates then Inl DeploymentPolicyError
      else Inr ())"

text \<open>\<open>value = state.to_dict(); value.update(...)\<close>\<close>

definition update_dict :: "pyval \<Rightarrow> pydict \<Rightarrow> pyval" where
  "update_dict v e = (case v of PDict d \<Rightarrow> PDict (put_all d e) | u \<Rightarrow> u)"

definition complete_promotion ::
    "deployment_state \<Rightarrow> gate_results \<Rightarrow> string \<Rightarrow> string \<Rightarrow> deployment_state result" where
  "complete_promotion state gates updated eid =
     bnd (authorize_traffic_switch state gates) (\<lambda>_.
     state_from_dict (update_dict (state_to_dict state)
       [(''active_release'', of_opt (candidate_release state)),
        (''active_source_sha'', of_opt (candidate_source_sha state)),
        (''active_digest'', of_opt (candidate_digest state)),
        (''active_slot'', of_opt (candidate_slot state)),
        (''previous_release'', of_opt (active_release state)),
        (''previous_source_sha'', of_opt (active_source_sha state)),
        (''previous_digest'', of_opt (active_digest state)),
        (''previous_slot'', of_opt (active_slot state)),
        (''candidate_release'', PNone), (''candidate_source_sha'', PNone),
        (''candidate_digest'', PNone), (''candidate_slot'', PNone),
        (''updated_at'', PStr updated), (''event_id'', PStr eid)]))"

definition rollback_plan :: "deployment_state \<Rightarrow> deployment_plan result" where
  "rollback_plan state =
     (case (previous_release state, previous_source_sha state, previous_digest state, previous_slot state) of
        (Some release, Some sha, Some digest, Some slot) \<Rightarrow>
          bnd (validate_digest (PStr digest)) (\<lambda>_.
          bnd (exact_image_reference (PStr (hd APPROVED_OCI_REPOSITORIES)) (PStr digest)) (\<lambda>image.
            Inr \<lparr>pl_operation = ''rollback'', pl_stage = stage state, pl_release_version = release,
                 pl_source_sha = sha, pl_exact_image_reference = image, pl_active_slot = active_slot state,
                 pl_candidate_slot = slot, pl_steps = ROLLBACK_STEPS\<rparr>))
      | _ \<Rightarrow> Inl DeploymentPolicyError)"

definition complete_rollback ::
    "deployment_state \<Rightarrow> gate_results \<Rightarrow> string \<Rightarrow> string \<Rightarrow> deployment_state result" where
  "complete_rollback state gates updated eid =
     (if \<not> liveness_passed gates \<or> \<not> readiness_passed gates then Inl DeploymentPolicyError
      else if \<not> application_validation_passed gates \<or> \<not> nginx_validation_passed gates then Inl DeploymentPolicyError
      else
      bnd (rollback_plan state) (\<lambda>_.
      state_from_dict (update_dict (state_to_dict state)
        [(''active_release'', of_opt (previous_release state)),
         (''active_source_sha'', of_opt (previous_source_sha state)),
         (''active_digest'', of_opt (previous_digest state)),
         (''active_slot'', of_opt (previous_slot state)),
         (''previous_release'', of_opt (active_release state)),
         (''previous_source_sha'', of_opt (active_source_sha state)),
         (''previous_digest'', of_opt (active_digest state)),
         (''previous_slot'', of_opt (active_slot state)),
         (''candidate_release'', PNone), (''candidate_source_sha'', PNone),
         (''candidate_digest'', PNone), (''candidate_slot'', PNone),
         (''updated_at'', PStr updated), (''event_id'', PStr eid)])))"

text \<open>\<open>main\<close> returns what it prints.\<close>

definition controller_main :: "string \<Rightarrow> string \<Rightarrow> (fs, string) act" where
  "controller_main request_path environment_path =
     act_bind (load_request request_path) (\<lambda>request.
     act_bind (sys_read environment_path) (\<lambda>raw.
     act_lift (
       bnd (utf8_decode raw) (\<lambda>text.
       bnd (json_loads default_hooks text) (\<lambda>v.
       bnd (validate_environment v) (\<lambda>environment.
       if \<not> py_eq (getv environment ''stage'') (PStr (rq_target_stage request)) then Inl DeploymentPolicyError
       else Inr (canonical_bytes (PDict
         [(''deployment_enabled'', PBool False), (''request_sha256'', PStr (request_sha256 request)),
          (''stage'', PStr (rq_target_stage request)), (''status'', PStr ''phase1-validation-only'')]))))))))"

section \<open>States after promotion and rollback\<close>

definition promoted :: "deployment_state \<Rightarrow> string \<Rightarrow> string \<Rightarrow> deployment_state" where
  "promoted s ts eid =
     s\<lparr>active_release := candidate_release s, active_source_sha := candidate_source_sha s,
       active_digest := candidate_digest s, active_slot := candidate_slot s,
       previous_release := active_release s, previous_source_sha := active_source_sha s,
       previous_digest := active_digest s, previous_slot := active_slot s,
       candidate_release := None, candidate_source_sha := None, candidate_digest := None, candidate_slot := None,
       updated_at := ts, event_id := eid\<rparr>"

definition rolled_back :: "deployment_state \<Rightarrow> string \<Rightarrow> string \<Rightarrow> deployment_state" where
  "rolled_back s ts eid =
     s\<lparr>active_release := previous_release s, active_source_sha := previous_source_sha s,
       active_digest := previous_digest s, active_slot := previous_slot s,
       previous_release := active_release s, previous_source_sha := active_source_sha s,
       previous_digest := active_digest s, previous_slot := active_slot s,
       candidate_release := None, candidate_source_sha := None, candidate_digest := None, candidate_slot := None,
       updated_at := ts, event_id := eid\<rparr>"

lemma put_state:
  "put_all [(''schema_version'', v1), (''stage'', v2), (''active_release'', v3), (''active_source_sha'', v4),
      (''active_digest'', v5), (''active_slot'', v6), (''previous_release'', v7), (''previous_source_sha'', v8),
      (''previous_digest'', v9), (''previous_slot'', v10), (''candidate_release'', v11),
      (''candidate_source_sha'', v12), (''candidate_digest'', v13), (''candidate_slot'', v14),
      (''migration_state'', v15), (''updated_at'', v16), (''event_id'', v17)]
     [(''active_release'', w3), (''active_source_sha'', w4), (''active_digest'', w5), (''active_slot'', w6),
      (''previous_release'', w7), (''previous_source_sha'', w8), (''previous_digest'', w9), (''previous_slot'', w10),
      (''candidate_release'', w11), (''candidate_source_sha'', w12), (''candidate_digest'', w13),
      (''candidate_slot'', w14), (''updated_at'', w16), (''event_id'', w17)] =
   [(''schema_version'', v1), (''stage'', v2), (''active_release'', w3), (''active_source_sha'', w4),
      (''active_digest'', w5), (''active_slot'', w6), (''previous_release'', w7), (''previous_source_sha'', w8),
      (''previous_digest'', w9), (''previous_slot'', w10), (''candidate_release'', w11),
      (''candidate_source_sha'', w12), (''candidate_digest'', w13), (''candidate_slot'', w14),
      (''migration_state'', v15), (''updated_at'', w16), (''event_id'', w17)]"
  by (simp add: put_all_def)

lemma complete_promotion_eq:
  "complete_promotion s g ts eid =
     bnd (authorize_traffic_switch s g) (\<lambda>_. state_from_dict (state_to_dict (promoted s ts eid)))"
  by (simp add: complete_promotion_def state_to_dict_def update_dict_def put_state promoted_def)

lemma complete_rollback_eq:
  "complete_rollback s g ts eid =
     (if liveness_passed g \<and> readiness_passed g \<and> application_validation_passed g \<and> nginx_validation_passed g
      then bnd (rollback_plan s) (\<lambda>_. state_from_dict (state_to_dict (rolled_back s ts eid)))
      else Inl DeploymentPolicyError)"
  by (simp add: complete_rollback_def state_to_dict_def update_dict_def put_state rolled_back_def)

lemma migration_from_own_dict: "migration_from_dict (migration_to_dict m) = Inr n \<Longrightarrow> n = m"
  by (cases n; cases m)
    (auto simp: migration_from_dict_Inr migration_to_dict_def migration_items_def getv_def)

lemma state_own_dict_wf:
  assumes "schema_version s = SCHEMA_VERSION" and "state_from_dict (state_to_dict s) = Inr x"
  shows "x = s"
proof -
  obtain d where d: "state_to_dict s = PDict d" "getv d ''stage'' = PStr (stage s)"
      "getv d ''active_release'' = of_opt (active_release s)"
      "getv d ''active_source_sha'' = of_opt (active_source_sha s)"
      "getv d ''active_digest'' = of_opt (active_digest s)" "getv d ''active_slot'' = of_opt (active_slot s)"
      "getv d ''previous_release'' = of_opt (previous_release s)"
      "getv d ''previous_source_sha'' = of_opt (previous_source_sha s)"
      "getv d ''previous_digest'' = of_opt (previous_digest s)" "getv d ''previous_slot'' = of_opt (previous_slot s)"
      "getv d ''candidate_release'' = of_opt (candidate_release s)"
      "getv d ''candidate_source_sha'' = of_opt (candidate_source_sha s)"
      "getv d ''candidate_digest'' = of_opt (candidate_digest s)" "getv d ''candidate_slot'' = of_opt (candidate_slot s)"
      "getv d ''migration_state'' = migration_to_dict (migration s)"
      "getv d ''updated_at'' = PStr (updated_at s)" "getv d ''event_id'' = PStr (event_id s)"
    by (simp add: state_to_dict_def getv_def)
  have "state_items d x" "schema_version x = SCHEMA_VERSION"
    using assms(2) d(1) by (auto simp: state_from_dict_Inr wf_state_def)
  moreover from this d(15) have "migration x = migration s"
    using migration_from_own_dict by (simp add: state_items_def)
  ultimately show ?thesis
    using d assms(1) by (cases x; cases s) (simp add: state_items_def)
qed

lemma state_from_own_dict:
  "schema_version s = SCHEMA_VERSION \<Longrightarrow>
   state_from_dict (state_to_dict s) = (if wf_state s then Inr s else Inl DeploymentPolicyError)"
proof (cases "state_from_dict (state_to_dict s)")
  case (Inr x)
  moreover assume "schema_version s = SCHEMA_VERSION"
  ultimately have "x = s" by (rule state_own_dict_wf [rotated])
  with Inr show ?thesis by (auto simp: state_from_dict_Inr)
next
  case (Inl e)
  then show ?thesis using state_roundtrip state_from_dict_Inl by fastforce
qed

lemma wf_identity_complete: "wf_identity (r, s, g, Some sl) \<Longrightarrow> r \<noteq> None \<and> s \<noteq> None \<and> g \<noteq> None"
  by (cases r; cases s; cases g) auto

lemma wf_promoted:
  assumes "wf_state s" and "candidate_slot s \<noteq> None"
  shows "wf_state (promoted s ts eid) \<longleftrightarrow> fullmatch TIMESTAMP_RE ts \<and> fullmatch EVENT_ID_RE eid"
proof -
  have "wf_identity (None, None, None, None)" by simp
  moreover have "active_slot s \<noteq> candidate_slot s"
    using assms by (cases "active_slot s") (auto simp: wf_state_def)
  ultimately show ?thesis using assms by (auto simp: wf_state_def promoted_def)
qed

lemma wf_rolled_back:
  assumes "wf_state s" and "previous_slot s \<noteq> None"
  shows "wf_state (rolled_back s ts eid) \<longleftrightarrow> fullmatch TIMESTAMP_RE ts \<and> fullmatch EVENT_ID_RE eid"
proof -
  have "wf_identity (None, None, None, None)" by simp
  moreover have "active_slot s \<noteq> previous_slot s"
    using assms by (cases "active_slot s") (auto simp: wf_state_def)
  ultimately show ?thesis using assms by (auto simp: wf_state_def rolled_back_def)
qed

lemma rollback_plan_wf:
  assumes "wf_state s"
  shows "rollback_plan s =
    (case previous_identity s of
       (Some release, Some sha, Some digest, Some slot) \<Rightarrow>
         Inr \<lparr>pl_operation = ''rollback'', pl_stage = stage s, pl_release_version = release, pl_source_sha = sha,
              pl_exact_image_reference = APPROVED_OCI_HOST @ ''/'' @ DEV_OCI_REPOSITORY @ ''@'' @ digest,
              pl_active_slot = active_slot s, pl_candidate_slot = slot, pl_steps = ROLLBACK_STEPS\<rparr>
     | _ \<Rightarrow> Inl DeploymentPolicyError)"
proof (cases "previous_slot s")
  case None
  then show ?thesis by (simp add: rollback_plan_def split: option.splits)
next
  case (Some sl)
  then obtain r h g where p: "previous_release s = Some r" "previous_source_sha s = Some h" "previous_digest s = Some g"
    using assms wf_identity_complete by (fastforce simp: wf_state_def)
  then have g: "fullmatch DIGEST_RE g" using assms Some by (simp add: wf_state_def)
  have hd: "hd APPROVED_OCI_REPOSITORIES = DEV_OCI_REPOSITORY"
    by (simp add: APPROVED_OCI_REPOSITORIES_def DEV_OCI_REPOSITORY_def)
  have "exact_image_reference (PStr DEV_OCI_REPOSITORY) (PStr g) =
      Inr (APPROVED_OCI_HOST @ ''/'' @ DEV_OCI_REPOSITORY @ ''@'' @ g)" "validate_digest (PStr g) = Inr g"
    using g dev_repository_approved by (simp_all add: exact_image_reference_Inr validate_digest_Inr)
  then show ?thesis by (simp add: rollback_plan_def p Some hd)
qed

section \<open>Properties\<close>

text \<open>
  C19: Traffic moves to a candidate exactly when everything has passed.  On a well-formed
  state, completing a promotion returns when and only when there is a candidate, the
  migration has succeeded, all five gates passed and the new timestamp and event id are
  valid; the result is well formed, the candidate has become active, what was active is kept
  as the previous release, and no candidate is left.  Every other case raises the policy
  error.
\<close>

theorem complete_promotion_exact:
  assumes "wf_state s"
  shows "complete_promotion s g ts eid =
      (if candidate_slot s \<noteq> None \<and> ms_status (migration s) = ''succeeded'' \<and> migration_succeeded g \<and>
          liveness_passed g \<and> readiness_passed g \<and> application_validation_passed g \<and> nginx_validation_passed g \<and>
          fullmatch TIMESTAMP_RE ts \<and> fullmatch EVENT_ID_RE eid
       then Inr (promoted s ts eid) else Inl DeploymentPolicyError) \<and>
    (\<forall>s'. complete_promotion s g ts eid = Inr s' \<longrightarrow>
       wf_state s' \<and> active_identity s' = candidate_identity s \<and> previous_identity s' = active_identity s \<and>
       candidate_identity s' = (None, None, None, None) \<and> stage s' = stage s)"
proof -
  have v: "schema_version (promoted s ts eid) = SCHEMA_VERSION" using assms by (simp add: promoted_def wf_state_def)
  have c: "candidate_digest s = None \<or> candidate_slot s = None \<longleftrightarrow> candidate_slot s = None"
    using assms wf_identity_complete by (fastforce simp: wf_state_def)
  have "complete_promotion s g ts eid =
      (if candidate_slot s \<noteq> None \<and> ms_status (migration s) = ''succeeded'' \<and> all_passed g \<and>
          fullmatch TIMESTAMP_RE ts \<and> fullmatch EVENT_ID_RE eid
       then Inr (promoted s ts eid) else Inl DeploymentPolicyError)"
    using wf_promoted [OF assms]
    by (simp add: complete_promotion_eq authorize_traffic_switch_def c state_from_own_dict [OF v])
  moreover have "wf_state (promoted s ts eid)"
    if "candidate_slot s \<noteq> None" "fullmatch TIMESTAMP_RE ts" "fullmatch EVENT_ID_RE eid"
    using wf_promoted [OF assms that(1)] that by simp
  ultimately show ?thesis by (auto simp: all_passed_def promoted_def)
qed

definition sample_candidate :: deployment_state where
  "sample_candidate = sample_state\<lparr>candidate_release := Some ''1.2.4'', candidate_source_sha := Some sample_sha,
     candidate_digest := Some sample_digest, candidate_slot := Some ''green'',
     migration := \<lparr>ms_status = ''succeeded'', ms_identity = Some ''m-1'', ms_checksum = Some (replicate 64 (CHR ''d'')),
       ms_serialized_lock_required = True\<rparr>\<rparr>"

definition sample_gates :: gate_results where
  "sample_gates = \<lparr>migration_succeeded = True, liveness_passed = True, readiness_passed = True,
     application_validation_passed = True, nginx_validation_passed = True\<rparr>"

lemma sample_candidate_wf: "wf_state sample_candidate"
  by code_simp

lemma sample_update_ok: "fullmatch TIMESTAMP_RE ''2026-01-02T03:04:05Z''" "fullmatch EVENT_ID_RE ''evt-1''"
  by code_simp+

theorem complete_promotion_exact_witness:
  "complete_promotion sample_candidate sample_gates ''2026-01-02T03:04:05Z'' ''evt-1'' =
     Inr (promoted sample_candidate ''2026-01-02T03:04:05Z'' ''evt-1'')"
  using complete_promotion_exact [OF sample_candidate_wf, of sample_gates "''2026-01-02T03:04:05Z''" "''evt-1''"]
    sample_update_ok
  by (simp add: sample_gates_def sample_candidate_def)

text \<open>
  C20: Rolling back undoes a promotion.  After a promotion from a state with an active
  release, a rollback whose health, application and Nginx checks pass returns a well-formed
  state in which the release that was active before the promotion is active again, in the
  same slot and with the same digest, and the promoted release is kept for another rollback.
\<close>

theorem rollback_undoes_promotion:
  assumes "wf_state s" and "active_slot s \<noteq> None" and "complete_promotion s g ts eid = Inr s1"
    and "liveness_passed g'" and "readiness_passed g'" and "application_validation_passed g'"
    and "nginx_validation_passed g'" and "fullmatch TIMESTAMP_RE ts'" and "fullmatch EVENT_ID_RE eid'"
  shows "\<exists>s2. complete_rollback s1 g' ts' eid' = Inr s2 \<and> wf_state s2 \<and>
    active_identity s2 = active_identity s \<and> previous_identity s2 = candidate_identity s \<and>
    candidate_identity s2 = (None, None, None, None)"
proof -
  have auth: "authorize_traffic_switch s g = Inr ()" "state_from_dict (state_to_dict (promoted s ts eid)) = Inr s1"
    using assms(3) by (auto simp: complete_promotion_eq)
  then have s1: "s1 = promoted s ts eid" "wf_state s1"
    using state_own_dict_wf [OF _ auth(2)] assms(1) by (auto simp: state_from_dict_Inr promoted_def wf_state_def)
  have p: "previous_identity s1 = active_identity s" by (simp add: s1(1) promoted_def)
  moreover obtain r h d sl where "active_identity s = (Some r, Some h, Some d, Some sl)"
    using assms(1,2) wf_identity_complete by (fastforce simp: wf_state_def)
  ultimately have "\<exists>pl. rollback_plan s1 = Inr pl" by (simp add: rollback_plan_wf [OF s1(2)])
  moreover have "wf_state (rolled_back s1 ts' eid')"
    using wf_rolled_back [OF s1(2)] assms(2,8,9) p by simp
  moreover have "schema_version (rolled_back s1 ts' eid') = SCHEMA_VERSION"
    using s1(2) by (simp add: rolled_back_def wf_state_def)
  ultimately have "complete_rollback s1 g' ts' eid' = Inr (rolled_back s1 ts' eid')"
    using assms(4-7) by (auto simp: complete_rollback_eq state_from_own_dict)
  then show ?thesis
    using \<open>wf_state (rolled_back s1 ts' eid')\<close> by (auto simp: rolled_back_def s1(1) promoted_def)
qed

theorem rollback_undoes_promotion_witness:
  "\<exists>s2. complete_rollback (promoted sample_candidate ''2026-01-02T03:04:05Z'' ''evt-1'') sample_gates
          ''2026-01-02T03:04:05Z'' ''evt-1'' = Inr s2 \<and> active_identity s2 = active_identity sample_candidate"
proof -
  have "complete_promotion sample_candidate sample_gates ''2026-01-02T03:04:05Z'' ''evt-1'' =
      Inr (promoted sample_candidate ''2026-01-02T03:04:05Z'' ''evt-1'')"
  proof -
    have "authorize_traffic_switch sample_candidate sample_gates = Inr ()"
      by (simp add: authorize_traffic_switch_def sample_candidate_def sample_gates_def all_passed_def)
    moreover have "wf_state (promoted sample_candidate ''2026-01-02T03:04:05Z'' ''evt-1'')"
      using wf_promoted [OF sample_candidate_wf] sample_update_ok by (simp add: sample_candidate_def)
    ultimately show ?thesis by (simp add: complete_promotion_eq state_roundtrip)
  qed
  from rollback_undoes_promotion [OF sample_candidate_wf _ this, of sample_gates] sample_update_ok show ?thesis
    by (fastforce simp: sample_gates_def sample_candidate_def sample_state_def)
qed

text \<open>
  A candidate never displaces the active release: preparing one from a well-formed state
  and a well-formed request for the same stage with a valid migration returns a well-formed
  state with the request's image in the slot that is not active, and the active and previous
  releases untouched; with another stage or an invalid migration it raises the policy error.
\<close>

theorem prepare_candidate_sound:
  assumes "wf_state s" and "wf_request r"
  shows "case prepare_candidate s r mid mck of
      Inl e \<Rightarrow> e = DeploymentPolicyError \<and>
        (stage s \<noteq> rq_target_stage r \<or> \<not> bounded_migration_identity (PStr mid) \<or> \<not> migration_checksum_ok (PStr mck))
    | Inr s' \<Rightarrow> wf_state s' \<and> active_identity s' = active_identity s \<and> previous_identity s' = previous_identity s \<and>
        candidate_digest s' = Some (rq_manifest_digest r) \<and> candidate_slot s' \<noteq> active_slot s' \<and>
        ms_status (migration s') = ''pending''"
proof -
  let ?v = "PDict [(''status'', PStr ''pending''), (''identity'', PStr mid), (''checksum'', PStr mck),
      (''serialized_lock_required'', PBool True)]"
  let ?m = "\<lparr>ms_status = ''pending'', ms_identity = Some mid, ms_checksum = Some mck, ms_serialized_lock_required = True\<rparr>"
  have v: "?v = migration_to_dict ?m" by (simp add: migration_to_dict_def)
  have m: "migration_from_dict ?v = (if bounded_migration_identity (PStr mid) \<and> migration_checksum_ok (PStr mck)
      then Inr ?m else Inl DeploymentPolicyError)"
  proof (cases "migration_from_dict ?v")
    case (Inr n)
    then have "n = ?m" unfolding v by (rule migration_from_own_dict)
    with Inr show ?thesis by (auto simp: migration_from_dict_Inr wf_migration_def)
  next
    case (Inl e)
    moreover have "wf_migration ?m" if "bounded_migration_identity (PStr mid)" "migration_checksum_ok (PStr mck)"
      using that by (simp add: wf_migration_def MIGRATION_STATUSES_def)
    ultimately show ?thesis
      using migration_roundtrip [of ?m] migration_from_dict_Inl [of ?v e] unfolding v by auto
  qed
  have "inactive_slot (active_slot s) \<in> set SLOTS" "Some (inactive_slot (active_slot s)) \<noteq> active_slot s"
    by (auto simp: inactive_slot_def SLOTS_def)
  moreover have "wf_migration ?m" if "bounded_migration_identity (PStr mid)" "migration_checksum_ok (PStr mck)"
    using that by (simp add: wf_migration_def MIGRATION_STATUSES_def)
  ultimately show ?thesis
    using assms by (auto simp: prepare_candidate_def m wf_state_def wf_request_def)
qed

theorem prepare_candidate_sound_witness:
  "wf_state sample_state \<and> wf_request sample_request \<and>
   (\<exists>s'. prepare_candidate sample_state sample_request ''m-1'' (replicate 64 (CHR ''d'')) = Inr s' \<and> wf_state s')"
proof -
  have m: "bounded_migration_identity (PStr ''m-1'')" "migration_checksum_ok (PStr (replicate 64 (CHR ''d'')))"
    by code_simp+
  have st: "stage sample_state = rq_target_stage sample_request" by (simp add: sample_state_def sample_request_def)
  from prepare_candidate_sound [OF sample_state_wf sample_request_wf, of "''m-1''" "replicate 64 (CHR ''d'')"] m st
  show ?thesis using sample_state_wf sample_request_wf
    by (auto split: sum.splits)
qed

text \<open>
  Stages are passed in order.  A promotion to the first stage needs no event; to a later
  stage it is allowed exactly when one and only one event of the given list records the
  success of the same release, source, repository and digest in the stage before.
\<close>

theorem require_stage_order_exact:
  assumes "wf_request r"
  shows "require_stage_order r events =
    (if rq_target_stage r = ''dev'' then Inr ()
     else if length (filter (matching_success r (if rq_target_stage r = ''prod'' then ''staging'' else ''dev'')) events) = 1
     then Inr () else Inl DeploymentPolicyError)"
  using assms by (auto simp: require_stage_order_def wf_request_def STAGES_def)

theorem require_stage_order_exact_witness:
  "wf_request sample_request \<and> require_stage_order sample_request [] = Inr ()"
  using require_stage_order_exact [OF sample_request_wf, of "[]"] sample_request_wf by (simp add: sample_request_def)

text \<open>
  A reviewed environment cannot switch deployment on.  A dictionary that
  \<open>validate_environment\<close> accepts names a known stage, asks for production approval exactly in
  production, has every runtime reference unset and deployment disabled and unverified; all
  other dictionaries raise the policy error.  (Disabled means equal to \<open>False\<close>, which the
  number zero also is.)
\<close>

theorem validate_environment_disabled:
  "case validate_environment v of
     Inl e \<Rightarrow> e = DeploymentPolicyError
   | Inr d \<Rightarrow> v = PDict d \<and> (\<exists>stg p r a. getv d ''stage'' = PStr stg \<and> stg \<in> set STAGES \<and>
       getv d ''promotion_policy'' = PDict p \<and> getv p ''production_approval_required'' = PBool (stg = ''prod'') \<and>
       getv d ''runtime'' = PDict r \<and> list_all (\<lambda>kv. snd kv = PNone) r \<and>
       getv d ''activation'' = PDict a \<and> py_eq (PDict a) (PDict [(''deployment_enabled'', PBool False), (''verified_at'', PNone)]))"
proof (cases "validate_environment v")
  case (Inl e)
  then have "e = DeploymentPolicyError"
    by (auto simp: validate_environment_def bnd_Inl_iff Let_def dest: policy_errors split: if_splits)
  with Inl show ?thesis by simp
next
  case (Inr d)
  then obtain stg p r a where v: "closed_object v ENVIRONMENT_FIELDS = Inr d"
      and st: "validate_stage (getv d ''stage'') = Inr stg"
      and p: "closed_object (getv d ''promotion_policy'') PROMOTION_POLICY_FIELDS = Inr p"
        "getv p ''production_approval_required'' = PBool (stg = ''prod'')"
      and r: "closed_object (getv d ''runtime'') RUNTIME_FIELDS = Inr r" "\<not> list_ex (\<lambda>(key, v). v \<noteq> PNone) r"
      and a: "closed_object (getv d ''activation'') ACTIVATION_FIELDS = Inr a"
        "py_eq (PDict a) (PDict [(''deployment_enabled'', PBool False), (''verified_at'', PNone)])"
    by (auto simp: validate_environment_def Let_def simp del: py_eq.simps split: if_splits)
  have "list_all (\<lambda>kv. snd kv = PNone) r" using r(2) by (auto simp: list_ex_iff list_all_iff)
  with Inr v st p r(1) a show ?thesis by (simp add: closed_object_Inr validate_stage_Inr del: py_eq.simps)
qed

end
