(* ===== verification/Replay.thy ===== *)
theory Replay
  imports Identity
begin

text \<open>
  \<open>src/deployment/replay_sqlite.py\<close>: the durable replay guard.  The database is its header
  (what the pragmas and \<open>sqlite_master\<close> report), the \<open>metadata\<close> rows and the \<open>consumptions\<close>
  rows.  A transaction works on a copy that \<open>COMMIT\<close> makes the database; a rollback or a
  failing call leaves the database as it was.  What \<open>stat\<close> and \<open>scandir\<close> report is a list of
  views, one per check, and every other call may raise any exception of a schedule.
\<close>

section \<open>Constants\<close>

definition REPLAY_FILENAME :: string where "REPLAY_FILENAME = ''replay.sqlite3''"
definition DIRECTORY_MODE :: nat where "DIRECTORY_MODE = 1528"
definition DATABASE_MODE :: nat where "DATABASE_MODE = 432"
definition DATABASE_SIZE_LIMIT :: int where "DATABASE_SIZE_LIMIT = 16 * 1024 * 1024"
definition JOURNAL_SIZE_LIMIT :: int where "JOURNAL_SIZE_LIMIT = 17 * 1024 * 1024"
definition PAGE_SIZE :: int where "PAGE_SIZE = 4096"
definition MAX_PAGE_COUNT :: int where "MAX_PAGE_COUNT = DATABASE_SIZE_LIMIT div PAGE_SIZE"
definition MAXIMUM_ENTRIES :: int where "MAXIMUM_ENTRIES = 10000"
definition MAXIMUM_BUSY_TIMEOUT_MS :: int where "MAXIMUM_BUSY_TIMEOUT_MS = 1000"
definition SQLITE_INTEGER_MAX :: int where "SQLITE_INTEGER_MAX = 9223372036854775807"
definition MAX_UID_GID :: int where "MAX_UID_GID = 4294967294"
definition APPLICATION_ID :: int where "APPLICATION_ID = 1330466386"
definition USER_VERSION :: int where "USER_VERSION = 1"
definition STATUSES :: "string list" where "STATUSES = [''consumed'', ''executing'', ''finished'']"

text \<open>The statements, by their lines.\<close>

definition METADATA_SQL :: "string list" where
  "METADATA_SQL =
     [''CREATE TABLE metadata('', ''    singleton INTEGER PRIMARY KEY CHECK(singleton = 1),'',
      ''    schema_version INTEGER NOT NULL CHECK(schema_version = 1),'',
      ''    last_seen_epoch INTEGER NOT NULL CHECK(last_seen_epoch >= 0 AND last_seen_epoch <= 9223372036854775807)'',
      '')'']"

definition CONSUMPTIONS_SQL :: "string list" where
  "CONSUMPTIONS_SQL =
     [''CREATE TABLE consumptions('', ''    jti TEXT PRIMARY KEY'', ''        CHECK(length(jti) BETWEEN 1 AND 128)'',
      ''        CHECK(substr(jti, 1, 1) GLOB '' @ [CHR 0x27] @ ''[A-Za-z0-9]'' @ [CHR 0x27] @ '')'',
      ''        CHECK(jti NOT GLOB '' @ [CHR 0x27] @ ''*[^A-Za-z0-9._:@-]*'' @ [CHR 0x27] @ '')'',
      ''        CHECK(instr(jti, '' @ [CHR 0x27] @ ''..'' @ [CHR 0x27] @ '') = 0),'',
      ''    retain_until INTEGER NOT NULL'',
      ''        CHECK(retain_until >= 0 AND retain_until <= 9223372036854775807),'',
      ''    executor_request_sha256 TEXT NOT NULL'',
      ''        CHECK(length(executor_request_sha256) = 64)'',
      ''        CHECK(executor_request_sha256 NOT GLOB '' @ [CHR 0x27] @ ''*[^0-9a-f]*'' @ [CHR 0x27] @ ''),'',
      ''    github_run_id INTEGER NOT NULL'', ''        CHECK(github_run_id BETWEEN 1 AND 9223372036854775807),'',
      ''    github_run_attempt INTEGER NOT NULL'', ''        CHECK(github_run_attempt BETWEEN 1 AND 9223372036854775807),'',
      ''    status TEXT NOT NULL'',
      ''        CHECK(status IN ('' @ [CHR 0x27] @ ''consumed'' @ [CHR 0x27] @ '', '' @ [CHR 0x27] @ ''executing'' @
        [CHR 0x27] @ '', '' @ [CHR 0x27] @ ''finished'' @ [CHR 0x27] @ '')),'',
      ''    UNIQUE(github_run_id, github_run_attempt)'', '')'']"

definition EXPIRY_INDEX_SQL :: "string list" where
  "EXPIRY_INDEX_SQL = [''CREATE INDEX replay_expiry_idx ON consumptions(retain_until, jti)'']"

section \<open>Bindings\<close>

record binding =
  bi_jti :: string
  bi_retain_until :: "int option"
  bi_request_hash :: string
  bi_run_id :: int
  bi_run_attempt :: int

definition replay_integer :: "bool \<Rightarrow> pyval \<Rightarrow> int result" where
  "replay_integer pos v =
     (case v of
        PInt i \<Rightarrow>
          let minimum = (if pos then 1 else 0);
              maximum = (if pos then MAX_DECIMAL_IDENTIFIER else SQLITE_INTEGER_MAX) in
          if \<not> (minimum \<le> i \<and> i \<le> maximum) then Inl ReplayUnavailableError else Inr i
      | _ \<Rightarrow> Inl ReplayUnavailableError)"

text \<open>\<open>expires_at\<close> is \<open>None\<close> for the transitions.\<close>

definition replay_binding ::
    "pyval \<Rightarrow> pyval option \<Rightarrow> pyval \<Rightarrow> pyval \<Rightarrow> pyval \<Rightarrow> binding result" where
  "replay_binding jti expires_at request_hash run_id run_attempt =
     bnd (catch_as [OIDCAuthorizationError] ReplayUnavailableError (validate_jti jti)) (\<lambda>safe_jti.
     bnd (case request_hash of
            PStr h \<Rightarrow> if \<not> fullmatch SHA256_RE h then Inl ReplayUnavailableError else Inr h
          | _ \<Rightarrow> Inl ReplayUnavailableError) (\<lambda>hash.
     bnd (replay_integer True run_id) (\<lambda>safe_run_id.
     bnd (replay_integer True run_attempt) (\<lambda>safe_attempt.
     bnd (case expires_at of
            None \<Rightarrow> Inr None
          | Some x \<Rightarrow> bnd (replay_integer False x) (\<lambda>expiry.
              if expiry > SQLITE_INTEGER_MAX - MAX_CLOCK_SKEW_SECONDS then Inl ReplayUnavailableError
              else Inr (Some (expiry + MAX_CLOCK_SKEW_SECONDS)))) (\<lambda>retain.
       Inr \<lparr>bi_jti = safe_jti, bi_retain_until = retain, bi_request_hash = hash,
            bi_run_id = safe_run_id, bi_run_attempt = safe_attempt\<rparr>)))))"

section \<open>The database\<close>

record replay_row =
  ro_jti :: string
  ro_retain_until :: int
  ro_request_hash :: string
  ro_run_id :: int
  ro_run_attempt :: int
  ro_status :: string

type_synonym column = "string \<times> string \<times> int \<times> int"

text \<open>
  A column is its name, type, \<open>notnull\<close> and \<open>pk\<close> (the default is absent); an index its name,
  \<open>unique\<close>, origin and \<open>partial\<close>.
\<close>

record db_header =
  dh_integrity_ok :: bool
  dh_journal_mode :: string
  dh_page_size :: int
  dh_page_count :: int
  dh_application_id :: int
  dh_user_version :: int
  dh_master :: "((string \<times> string \<times> string) \<times> string option) list"
  dh_metadata_columns :: "column list"
  dh_consumption_columns :: "column list"
  dh_indexes :: "(string \<times> int \<times> string \<times> int) list"
  dh_index_columns :: "string \<Rightarrow> string list"

record replay_db =
  db_header :: db_header
  db_metadata :: "(int \<times> int \<times> int) list"
  db_rows :: "replay_row list"

section \<open>Validation of an open store\<close>

text \<open>\<open>" ".join(value.split())\<close>\<close>

definition py_space :: "char \<Rightarrow> bool" where
  "py_space c \<longleftrightarrow> of_char c \<in> {9, 10, 11, 12, 13, 28, 29, 30, 31, 32, 133, 160 :: nat}"

fun split_words :: "string \<Rightarrow> string list" where
  "split_words [] = []"
| "split_words (c # cs) =
     (if py_space c then split_words cs
      else case cs of
        [] \<Rightarrow> [[c]]
      | d # _ \<Rightarrow> if py_space d then [c] # split_words cs
          else (case split_words cs of [] \<Rightarrow> [[c]] | w # ws \<Rightarrow> (c # w) # ws))"

definition normalize_sql :: "string option \<Rightarrow> string" where
  "normalize_sql v = (case v of None \<Rightarrow> [] | Some t \<Rightarrow> join '' '' (split_words t))"

definition sql_text :: "string list \<Rightarrow> string" where
  "sql_text lines = join [NEWLINE] lines"

definition expected_master :: "(string \<times> string \<times> string) list" where
  "expected_master =
     [(''table'', ''metadata'', ''metadata''), (''table'', ''consumptions'', ''consumptions''),
      (''index'', ''replay_expiry_idx'', ''consumptions''),
      (''index'', ''sqlite_autoindex_consumptions_1'', ''consumptions''),
      (''index'', ''sqlite_autoindex_consumptions_2'', ''consumptions'')]"

definition METADATA_COLUMNS :: "column list" where
  "METADATA_COLUMNS =
     [(''singleton'', ''INTEGER'', 0, 1), (''schema_version'', ''INTEGER'', 1, 0),
      (''last_seen_epoch'', ''INTEGER'', 1, 0)]"

definition CONSUMPTION_COLUMNS :: "column list" where
  "CONSUMPTION_COLUMNS =
     [(''jti'', ''TEXT'', 0, 1), (''retain_until'', ''INTEGER'', 1, 0),
      (''executor_request_sha256'', ''TEXT'', 1, 0), (''github_run_id'', ''INTEGER'', 1, 0),
      (''github_run_attempt'', ''INTEGER'', 1, 0), (''status'', ''TEXT'', 1, 0)]"

definition master_sql :: "db_header \<Rightarrow> string \<times> string \<times> string \<Rightarrow> string option" where
  "master_sql h key = (case map_of (dh_master h) key of None \<Rightarrow> None | Some sql \<Rightarrow> sql)"

definition index_row :: "db_header \<Rightarrow> string \<Rightarrow> (int \<times> string \<times> int) option" where
  "index_row h name = map_of (dh_indexes h) name"

definition validate_schema :: "db_header \<Rightarrow> unit result" where
  "validate_schema h =
     (if length (dh_master h) \<noteq> 5 then Inl ReplayUnavailableError
      else if set (map fst (dh_master h)) \<noteq> set expected_master then Inl ReplayUnavailableError
      else if list_ex (\<lambda>(key, sql). normalize_sql (master_sql h key) \<noteq> normalize_sql (Some (sql_text sql)))
          [((''table'', ''metadata'', ''metadata''), METADATA_SQL),
           ((''table'', ''consumptions'', ''consumptions''), CONSUMPTIONS_SQL),
           ((''index'', ''replay_expiry_idx'', ''consumptions''), EXPIRY_INDEX_SQL)]
      then Inl ReplayUnavailableError
      else if list_ex (\<lambda>name. master_sql h (''index'', name, ''consumptions'') \<noteq> None)
          [''sqlite_autoindex_consumptions_1'', ''sqlite_autoindex_consumptions_2'']
      then Inl ReplayUnavailableError
      else if dh_metadata_columns h \<noteq> METADATA_COLUMNS then Inl ReplayUnavailableError
      else if dh_consumption_columns h \<noteq> CONSUMPTION_COLUMNS then Inl ReplayUnavailableError
      else if set (map fst (take 4 (dh_indexes h))) \<noteq>
          {''replay_expiry_idx'', ''sqlite_autoindex_consumptions_1'', ''sqlite_autoindex_consumptions_2''}
      then Inl ReplayUnavailableError
      else if index_row h ''replay_expiry_idx'' \<noteq> Some (0, ''c'', 0) \<or>
          index_row h ''sqlite_autoindex_consumptions_1'' \<noteq> Some (1, ''pk'', 0) \<or>
          index_row h ''sqlite_autoindex_consumptions_2'' \<noteq> Some (1, ''u'', 0)
      then Inl ReplayUnavailableError
      else if dh_index_columns h ''replay_expiry_idx'' \<noteq> [''retain_until'', ''jti''] then Inl ReplayUnavailableError
      else if dh_index_columns h ''sqlite_autoindex_consumptions_1'' \<noteq> [''jti''] then Inl ReplayUnavailableError
      else if dh_index_columns h ''sqlite_autoindex_consumptions_2'' \<noteq> [''github_run_id'', ''github_run_attempt'']
      then Inl ReplayUnavailableError
      else Inr ())"

text \<open>The largest page count of the connection: the pragma never goes below the file's pages.\<close>

definition connection_limit :: "db_header \<Rightarrow> bool \<Rightarrow> int" where
  "connection_limit h limited = (if limited then max MAX_PAGE_COUNT (dh_page_count h) else 1073741823)"

definition validate_row :: "replay_row \<Rightarrow> unit result" where
  "validate_row r =
     bnd (catch_as [OIDCAuthorizationError] ReplayUnavailableError (validate_jti (PStr (ro_jti r)))) (\<lambda>_.
     bnd (replay_integer False (PInt (ro_retain_until r))) (\<lambda>_.
     bnd (replay_integer True (PInt (ro_run_id r))) (\<lambda>_.
     bnd (replay_integer True (PInt (ro_run_attempt r))) (\<lambda>_.
     if \<not> fullmatch SHA256_RE (ro_request_hash r) then Inl ReplayUnavailableError
     else if ro_status r \<notin> set STATUSES then Inl ReplayUnavailableError
     else Inr ()))))"

definition validate_open_store :: "bool \<Rightarrow> replay_db \<Rightarrow> unit result" where
  "validate_open_store require_limit db =
     (let h = db_header db; pages = dh_page_count h; maximum = connection_limit h require_limit in
      if \<not> dh_integrity_ok h then Inl ReplayUnavailableError
      else if dh_page_size h \<noteq> PAGE_SIZE \<or> \<not> (0 \<le> pages \<and> pages \<le> MAX_PAGE_COUNT) \<or>
          pages * PAGE_SIZE > DATABASE_SIZE_LIMIT \<or> maximum < pages \<or>
          (require_limit \<and> maximum \<noteq> MAX_PAGE_COUNT)
      then Inl ReplayUnavailableError
      else if dh_application_id h \<noteq> APPLICATION_ID then Inl ReplayUnavailableError
      else if dh_user_version h \<noteq> USER_VERSION then Inl ReplayUnavailableError
      else
      bnd (validate_schema h) (\<lambda>_.
      case db_metadata db of
        [(singleton, version, last_seen)] \<Rightarrow>
          if (singleton, version) \<noteq> (1, USER_VERSION) \<or> \<not> (0 \<le> last_seen \<and> last_seen \<le> SQLITE_INTEGER_MAX)
          then Inl ReplayUnavailableError
          else if int (length (db_rows db)) > MAXIMUM_ENTRIES then Inl ReplayUnavailableError
          else bnd (traverse validate_row (db_rows db)) (\<lambda>_. Inr ())
      | _ \<Rightarrow> Inl ReplayUnavailableError))"

section \<open>Operations inside a transaction\<close>

definition advance_clock :: "int \<Rightarrow> replay_db \<Rightarrow> (int \<times> replay_db) result" where
  "advance_clock now db =
     (case find (\<lambda>(singleton, _, _). singleton = 1) (db_metadata db) of
        None \<Rightarrow> Inl ReplayUnavailableError
      | Some (_, _, last_seen) \<Rightarrow>
          bnd (replay_integer False (PInt last_seen)) (\<lambda>_.
          if last_seen - now > MAX_CLOCK_SKEW_SECONDS then Inl ReplayUnavailableError
          else let effective = max now last_seen in
            Inr (effective, db\<lparr>db_metadata := map (\<lambda>(singleton, version, seen).
              if singleton = 1 \<and> seen \<le> effective then (singleton, version, effective)
              else (singleton, version, seen)) (db_metadata db)\<rparr>)))"

text \<open>The \<open>CHECK\<close> clauses of the table.\<close>

definition sql_jti_check :: "string \<Rightarrow> bool" where
  "sql_jti_check s \<longleftrightarrow>
     1 \<le> length s \<and> length s \<le> 128 \<and> is_alnum (hd s) \<and>
     list_all (\<lambda>c. is_alnum c \<or> c \<in> set ''._:@-'') s \<and> \<not> has_dotdot s"

definition row_checks :: "replay_row \<Rightarrow> bool" where
  "row_checks r \<longleftrightarrow>
     sql_jti_check (ro_jti r) \<and> 0 \<le> ro_retain_until r \<and> ro_retain_until r \<le> SQLITE_INTEGER_MAX \<and>
     length (ro_request_hash r) = 64 \<and> list_all is_lower_hex (ro_request_hash r) \<and>
     1 \<le> ro_run_id r \<and> ro_run_id r \<le> SQLITE_INTEGER_MAX \<and>
     1 \<le> ro_run_attempt r \<and> ro_run_attempt r \<le> SQLITE_INTEGER_MAX \<and> ro_status r \<in> set STATUSES"

definition same_run :: "binding \<Rightarrow> replay_row \<Rightarrow> bool" where
  "same_run b r \<longleftrightarrow> (ro_run_id r, ro_run_attempt r) = (bi_run_id b, bi_run_attempt b)"

text \<open>\<open>INSERT\<close>: a failing check or a violated key raises; the latter is a proven conflict.\<close>

datatype sqlite_constraint = Check | Unique_Key

definition insert_row :: "replay_row \<Rightarrow> replay_row list \<Rightarrow> sqlite_constraint + replay_row list" where
  "insert_row r rows =
     (if \<not> row_checks r then Inl Check
      else if list_ex (\<lambda>q. ro_jti q = ro_jti r \<or> (ro_run_id q, ro_run_attempt q) = (ro_run_id r, ro_run_attempt r)) rows
      then Inl Unique_Key
      else Inr (rows @ [r]))"

definition is_proven_replay_conflict :: "binding \<Rightarrow> sqlite_constraint \<Rightarrow> replay_row list \<Rightarrow> bool" where
  "is_proven_replay_conflict b c rows \<longleftrightarrow>
     c = Unique_Key \<and>
     (let found = take 2 (filter (\<lambda>r. ro_jti r = bi_jti b \<or> same_run b r) rows) in
      1 \<le> length found \<and> length found \<le> 2 \<and> list_ex (\<lambda>r. ro_jti r = bi_jti b \<or> same_run b r) found)"

text \<open>
  The \<open>LIMIT\<close> of the deletion does not bind: the store was validated to hold at most
  \<open>MAXIMUM_ENTRIES\<close> rows.
\<close>

definition purged :: "int \<Rightarrow> replay_row list \<Rightarrow> replay_row list" where
  "purged effective rows =
     filter (\<lambda>r. \<not> (ro_retain_until r < effective \<and> ro_status r \<in> {''consumed'', ''finished''})) rows"

definition consume_operation :: "int \<Rightarrow> binding \<Rightarrow> int \<Rightarrow> replay_db \<Rightarrow> replay_db result" where
  "consume_operation maximum b effective db =
     (case bi_retain_until b of
        None \<Rightarrow> Inl AssertionError
      | Some retain \<Rightarrow>
          let rows = purged effective (db_rows db) in
          if int (length rows) \<ge> maximum then Inl ReplayUnavailableError
          else if retain < effective then Inl ReplayError
          else case insert_row \<lparr>ro_jti = bi_jti b, ro_retain_until = retain, ro_request_hash = bi_request_hash b,
                 ro_run_id = bi_run_id b, ro_run_attempt = bi_run_attempt b, ro_status = ''consumed''\<rparr> rows of
            Inl c \<Rightarrow> if is_proven_replay_conflict b c rows then Inl ReplayError else Inl ReplayUnavailableError
          | Inr rows' \<Rightarrow> Inr (db\<lparr>db_rows := rows'\<rparr>))"

definition transition_matches :: "binding \<Rightarrow> string \<Rightarrow> int \<Rightarrow> replay_row \<Rightarrow> bool" where
  "transition_matches b before effective r \<longleftrightarrow>
     ro_jti r = bi_jti b \<and> ro_request_hash r = bi_request_hash b \<and> same_run b r \<and> ro_status r = before \<and>
     (before = ''consumed'' \<longrightarrow> effective \<le> ro_retain_until r)"

definition transition_operation :: "binding \<Rightarrow> string \<Rightarrow> string \<Rightarrow> int \<Rightarrow> replay_db \<Rightarrow> replay_db result" where
  "transition_operation b before after effective db =
     (if length (filter (transition_matches b before effective) (db_rows db)) \<noteq> 1 then Inl ReplayError
      else Inr (db\<lparr>db_rows := map (\<lambda>r. if transition_matches b before effective r then r\<lparr>ro_status := after\<rparr> else r)
        (db_rows db)\<rparr>))"

section \<open>The guard and the checks of its files\<close>

record sqlite_guard =
  sg_uid :: int
  sg_gid :: int
  sg_journal_uids :: "int list"
  sg_maximum_entries :: int
  sg_busy_timeout_ms :: int

definition int_between :: "int \<Rightarrow> int \<Rightarrow> pyval \<Rightarrow> bool" where
  "int_between lo hi v \<longleftrightarrow> (case v of PInt i \<Rightarrow> lo \<le> i \<and> i \<le> hi | _ \<Rightarrow> False)"

definition int_value :: "pyval \<Rightarrow> int" where
  "int_value v = (case v of PInt i \<Rightarrow> i | _ \<Rightarrow> 0)"

text \<open>
  An absolute path without empty, \<open>.\<close> or \<open>..\<close> components, as its components; \<open>Path(p)\<close>
  prints back as \<open>p\<close> exactly when no component is empty or a dot.
\<close>

fun path_parts :: "string \<Rightarrow> string list" where
  "path_parts [] = [[]]"
| "path_parts (c # cs) =
     (if c = CHR ''/'' then [] # path_parts cs
      else case path_parts cs of [] \<Rightarrow> [[c]] | p # ps \<Rightarrow> (c # p) # ps)"

definition replay_path_ok :: "string \<Rightarrow> bool" where
  "replay_path_ok raw \<longleftrightarrow>
     (case path_parts raw of
        r # parts \<Rightarrow>
          r = [] \<and> parts \<noteq> [] \<and> last parts = REPLAY_FILENAME \<and>
          list_all (\<lambda>p. p \<noteq> [] \<and> p \<noteq> ''.'' \<and> p \<noteq> ''..'') parts
      | [] \<Rightarrow> False) \<and> CHR 0x00 \<notin> set raw"

definition sqlite_guard_init ::
    "pyval \<Rightarrow> pyval \<Rightarrow> pyval \<Rightarrow> pyval \<Rightarrow> pyval \<Rightarrow> pyval \<Rightarrow> pyval \<Rightarrow> sqlite_guard result" where
  "sqlite_guard_init path directory_uid directory_gid broker_uid executor_uid maximum_entries busy_timeout_ms =
     (case path of
        PStr raw \<Rightarrow>
          if \<not> replay_path_ok raw then Inl ValueError
          else if \<not> (int_between 0 MAX_UID_GID directory_uid \<and> int_between 0 MAX_UID_GID directory_gid) then Inl ValueError
          else if (broker_uid = PNone) \<noteq> (executor_uid = PNone) then Inl ValueError
          else if broker_uid \<noteq> PNone \<and> \<not> int_between 1 MAX_UID_GID broker_uid then Inl ValueError
          else if executor_uid \<noteq> PNone \<and> \<not> int_between 0 MAX_UID_GID executor_uid then Inl ValueError
          else if broker_uid \<noteq> PNone \<and> (broker_uid = executor_uid \<or> broker_uid = directory_uid) then Inl ValueError
          else if \<not> int_between 1 MAXIMUM_ENTRIES maximum_entries then Inl ValueError
          else if \<not> int_between 1 MAXIMUM_BUSY_TIMEOUT_MS busy_timeout_ms then Inl ValueError
          else Inr \<lparr>sg_uid = int_value directory_uid, sg_gid = int_value directory_gid,
                    sg_journal_uids = int_value directory_uid #
                      (if broker_uid = PNone then [] else [int_value broker_uid, int_value executor_uid]),
                    sg_maximum_entries = int_value maximum_entries, sg_busy_timeout_ms = int_value busy_timeout_ms\<rparr>
      | _ \<Rightarrow> Inl ValueError)"

record file_status =
  fs_directory :: bool
  fs_regular :: bool
  fs_link :: bool
  fs_mode :: nat
  fs_nlink :: nat
  fs_uid :: int
  fs_gid :: int
  fs_identity :: "nat \<times> nat"
  fs_size :: int

text \<open>
  What one round of checks sees: the open directory, the path's directory, the names in it
  (at most three are read), the database and the journal by name, and the open database.
\<close>

record directory_view =
  dv_directory :: file_status
  dv_named_directory :: file_status
  dv_entries :: "string list"
  dv_database :: file_status
  dv_journal :: file_status
  dv_opened :: file_status

definition bounded_entries :: "directory_view \<Rightarrow> string list result" where
  "bounded_entries v = (if length (take 3 (dv_entries v)) > 2 then Inl ReplayUnavailableError else Inr (dv_entries v))"

definition validate_directory_descriptor :: "sqlite_guard \<Rightarrow> directory_view \<Rightarrow> string list \<Rightarrow> unit result" where
  "validate_directory_descriptor g v expected =
     bnd (bounded_entries v) (\<lambda>entries.
     if \<not> fs_directory (dv_directory v) \<or> fs_mode (dv_directory v) \<noteq> DIRECTORY_MODE \<or>
        fs_uid (dv_directory v) \<noteq> sg_uid g \<or> fs_gid (dv_directory v) \<noteq> sg_gid g \<or>
        fs_identity (dv_directory v) \<noteq> fs_identity (dv_named_directory v) \<or> set entries \<noteq> set expected
     then Inl ReplayUnavailableError else Inr ())"

definition validate_file_status :: "sqlite_guard \<Rightarrow> file_status \<Rightarrow> nat \<Rightarrow> unit result" where
  "validate_file_status g st mode =
     (if \<not> fs_regular st \<or> fs_link st \<or> fs_mode st \<noteq> mode \<or> fs_nlink st \<noteq> 1 \<or> fs_uid st \<noteq> sg_uid g \<or> fs_gid st \<noteq> sg_gid g
      then Inl ReplayUnavailableError else Inr ())"

definition validate_journal_status :: "sqlite_guard \<Rightarrow> file_status \<Rightarrow> unit result" where
  "validate_journal_status g st =
     (if \<not> fs_regular st \<or> fs_link st \<or> fs_mode st \<noteq> DATABASE_MODE \<or> fs_nlink st \<noteq> 1 \<or> fs_gid st \<noteq> sg_gid g \<or>
        fs_uid st \<notin> set (sg_journal_uids g)
      then Inl ReplayUnavailableError else Inr ())"

definition JOURNAL_FILENAME :: string where "JOURNAL_FILENAME = REPLAY_FILENAME @ ''-journal''"

definition validate_filesystem :: "sqlite_guard \<Rightarrow> directory_view \<Rightarrow> unit result" where
  "validate_filesystem g v =
     bnd (bounded_entries v) (\<lambda>entries.
     bnd (validate_directory_descriptor g v entries) (\<lambda>_.
     if REPLAY_FILENAME \<notin> set entries \<or> \<not> set entries \<subseteq> {REPLAY_FILENAME, JOURNAL_FILENAME} then Inl ReplayUnavailableError
     else
     bnd (validate_file_status g (dv_database v) DATABASE_MODE) (\<lambda>_.
     if fs_size (dv_database v) > DATABASE_SIZE_LIMIT then Inl ReplayUnavailableError
     else if JOURNAL_FILENAME \<in> set entries then
       bnd (validate_journal_status g (dv_journal v)) (\<lambda>_.
       if fs_size (dv_journal v) > JOURNAL_SIZE_LIMIT then Inl ReplayUnavailableError else Inr ())
     else Inr ())))"

definition validate_quiescent_filesystem :: "sqlite_guard \<Rightarrow> directory_view \<Rightarrow> unit result" where
  "validate_quiescent_filesystem g v =
     bnd (validate_filesystem g v) (\<lambda>_.
     bnd (bounded_entries v) (\<lambda>entries.
     if set entries \<noteq> {REPLAY_FILENAME} then Inl ReplayUnavailableError else Inr ()))"

definition validate_bound_file :: "sqlite_guard \<Rightarrow> directory_view \<Rightarrow> unit result" where
  "validate_bound_file g v =
     bnd (validate_file_status g (dv_opened v) DATABASE_MODE) (\<lambda>_.
     bnd (validate_file_status g (dv_database v) DATABASE_MODE) (\<lambda>_.
     if fs_identity (dv_opened v) \<noteq> fs_identity (dv_database v) \<or>
        fs_size (dv_opened v) > DATABASE_SIZE_LIMIT \<or> fs_size (dv_database v) > DATABASE_SIZE_LIMIT
     then Inl ReplayUnavailableError else Inr ()))"

section \<open>The world of the guard\<close>

record replay_world =
  rw_db :: replay_db
  rw_views :: "directory_view result list"
  rw_faults :: "exn option list"
  rw_directory_open :: bool
  rw_database_open :: bool
  rw_connected :: bool
  rw_transaction :: bool

definition rcall :: "(replay_world \<Rightarrow> replay_world) \<Rightarrow> (replay_world, unit) act" where
  "rcall f w =
     (case rw_faults w of
        [] \<Rightarrow> (Inr (), f w)
      | flt # rest \<Rightarrow>
          (case flt of Some e \<Rightarrow> (Inl e, w\<lparr>rw_faults := rest\<rparr>) | None \<Rightarrow> (Inr (), f (w\<lparr>rw_faults := rest\<rparr>))))"

text \<open>A check looks at the next view; without one the file system does not answer.\<close>

definition look :: "(directory_view \<Rightarrow> unit result) \<Rightarrow> (replay_world, unit) act" where
  "look check w =
     (case rw_views w of
        [] \<Rightarrow> (Inl OSError, w)
      | v # rest \<Rightarrow> (bnd v check, w\<lparr>rw_views := rest\<rparr>))"

definition sample_clock :: "pyval result \<Rightarrow> int result" where
  "sample_clock clock =
     (case clock of
        Inl e \<Rightarrow> Inl (if is_Exception e then ReplayUnavailableError else e)
      | Inr v \<Rightarrow> replay_integer False v)"

text \<open>\<open>_configure_existing\<close>: what the pragmas read back from the file.\<close>

definition configure_existing :: "replay_db \<Rightarrow> unit result" where
  "configure_existing db =
     (let h = db_header db in
      if dh_journal_mode h \<noteq> ''delete'' then Inl ReplayUnavailableError
      else if dh_page_size h \<noteq> PAGE_SIZE \<or> connection_limit h True \<noteq> MAX_PAGE_COUNT \<or>
        dh_application_id h \<noteq> APPLICATION_ID \<or> dh_user_version h \<noteq> USER_VERSION
      then Inl ReplayUnavailableError else Inr ())"

definition run_transaction :: "(int \<Rightarrow> replay_db \<Rightarrow> replay_db result) \<Rightarrow> int \<Rightarrow> replay_db \<Rightarrow> replay_db result" where
  "run_transaction operation now db =
     bnd (validate_open_store True db) (\<lambda>_.
     bnd (advance_clock now db) (\<lambda>(effective, db'). operation effective db'))"

definition mutate_body :: "sqlite_guard \<Rightarrow> (int \<Rightarrow> replay_db \<Rightarrow> replay_db result) \<Rightarrow> int \<Rightarrow> (replay_world, unit) act" where
  "mutate_body g operation now =
     act_bind (rcall (\<lambda>w. w\<lparr>rw_directory_open := True\<rparr>)) (\<lambda>_.
     act_bind (look (validate_filesystem g)) (\<lambda>_.
     act_bind (rcall (\<lambda>w. w\<lparr>rw_database_open := True\<rparr>)) (\<lambda>_.
     act_bind (look (validate_bound_file g)) (\<lambda>_.
     act_bind (rcall (\<lambda>w. w\<lparr>rw_connected := True\<rparr>)) (\<lambda>_.
     act_bind (look (validate_bound_file g)) (\<lambda>_.
     act_bind (\<lambda>w. (configure_existing (rw_db w), w)) (\<lambda>_.
     act_bind (rcall (\<lambda>w. w\<lparr>rw_transaction := True\<rparr>)) (\<lambda>_.
     act_bind (look (validate_bound_file g)) (\<lambda>_.
     act_bind (look (validate_filesystem g)) (\<lambda>_.
     act_bind (\<lambda>w. (run_transaction operation now (rw_db w), w)) (\<lambda>db.
     act_bind (rcall (\<lambda>w. w\<lparr>rw_db := db, rw_transaction := False\<rparr>)) (\<lambda>_.
     look (validate_bound_file g)))))))))))))"

text \<open>A step of the \<open>finally\<close> clause: an \<open>Exception\<close> makes the outcome unavailable.\<close>

definition attempt :: "(replay_world, unit) act \<Rightarrow> (replay_world, bool) act" where
  "attempt m = act_catch (act_bind m (\<lambda>_. act_lift (Inr False)))
     (\<lambda>e. act_lift (if is_Exception e then Inr True else Inl e))"

definition when_open :: "(replay_world \<Rightarrow> bool) \<Rightarrow> (replay_world, bool) act \<Rightarrow> (replay_world, bool) act" where
  "when_open flag m w = (if flag w then m w else (Inr False, w))"

definition mutate_finally :: "sqlite_guard \<Rightarrow> (replay_world, bool) act" where
  "mutate_finally g =
     act_bind (when_open (\<lambda>w. rw_connected w \<and> rw_transaction w)
       (attempt (rcall (\<lambda>w. w\<lparr>rw_transaction := False\<rparr>)))) (\<lambda>a.
     act_bind (when_open rw_connected (attempt (rcall (\<lambda>w. w\<lparr>rw_connected := False, rw_transaction := False\<rparr>)))) (\<lambda>b.
     act_bind (when_open rw_database_open (attempt (rcall (\<lambda>w. w\<lparr>rw_database_open := False\<rparr>)))) (\<lambda>c.
     act_bind (\<lambda>w. if \<not> rw_directory_open w then (Inr True, w) else attempt (look (validate_filesystem g)) w) (\<lambda>d.
     act_bind (when_open rw_directory_open (attempt (rcall (\<lambda>w. w\<lparr>rw_directory_open := False\<rparr>)))) (\<lambda>e.
       act_lift (Inr (a \<or> b \<or> c \<or> d \<or> e)))))))"

definition replay_mutate ::
    "sqlite_guard \<Rightarrow> (int \<Rightarrow> replay_db \<Rightarrow> replay_db result) \<Rightarrow> pyval result \<Rightarrow> (replay_world, unit) act" where
  "replay_mutate g operation clock w =
     (case sample_clock clock of
        Inl e \<Rightarrow> (Inl e, w)
      | Inr now \<Rightarrow>
          let (r, w1) = mutate_body g operation now
                (w\<lparr>rw_directory_open := False, rw_database_open := False, rw_connected := False, rw_transaction := False\<rparr>) in
          case mutate_finally g w1 of
            (Inl e, w2) \<Rightarrow> (Inl e, w2)
          | (Inr failed, w2) \<Rightarrow>
              (case r of
                 Inl e \<Rightarrow>
                   if \<not> is_Exception e then (Inl e, w2)
                   else if failed \<or> e \<noteq> ReplayError then (Inl ReplayUnavailableError, w2)
                   else (Inl ReplayError, w2)
               | Inr _ \<Rightarrow> if failed then (Inl ReplayUnavailableError, w2) else (Inr (), w2)))"

section \<open>Consuming and executing\<close>

definition sqlite_consume :: "sqlite_guard \<Rightarrow> consume_call \<Rightarrow> (replay_world, unit) act" where
  "sqlite_consume g c w =
     (case replay_binding (cc_jti c) (Some (cc_expires_at c)) (cc_request_hash c) (cc_run_id c) (cc_run_attempt c) of
        Inl e \<Rightarrow> (Inl e, w)
      | Inr b \<Rightarrow> replay_mutate g (consume_operation (sg_maximum_entries g) b) (cc_clock c) w)"

definition sqlite_transition :: "sqlite_guard \<Rightarrow> string \<Rightarrow> string \<Rightarrow> consume_call \<Rightarrow> (replay_world, unit) act" where
  "sqlite_transition g before after c w =
     (case replay_binding (cc_jti c) None (cc_request_hash c) (cc_run_id c) (cc_run_attempt c) of
        Inl e \<Rightarrow> (Inl e, w)
      | Inr b \<Rightarrow> replay_mutate g (transition_operation b before after) (cc_clock c) w)"

definition begin_execution :: "sqlite_guard \<Rightarrow> consume_call \<Rightarrow> (replay_world, unit) act" where
  "begin_execution g = sqlite_transition g ''consumed'' ''executing''"

definition finish_execution :: "sqlite_guard \<Rightarrow> consume_call \<Rightarrow> (replay_world, unit) act" where
  "finish_execution g = sqlite_transition g ''executing'' ''finished''"

text \<open>\<open>validate\<close>: the read-only check of an initialised store.\<close>

definition sqlite_validate :: "sqlite_guard \<Rightarrow> (replay_world, unit) act" where
  "sqlite_validate g w =
     (let body =
          act_bind (rcall (\<lambda>w. w\<lparr>rw_directory_open := True\<rparr>)) (\<lambda>_.
          act_bind (look (validate_quiescent_filesystem g)) (\<lambda>_.
          act_bind (rcall (\<lambda>w. w\<lparr>rw_database_open := True\<rparr>)) (\<lambda>_.
          act_bind (look (validate_bound_file g)) (\<lambda>_.
          act_bind (rcall (\<lambda>w. w\<lparr>rw_connected := True\<rparr>)) (\<lambda>_.
          act_bind (look (validate_bound_file g)) (\<lambda>_.
          act_bind (\<lambda>w. (validate_open_store False (rw_db w), w)) (\<lambda>_.
          act_bind (look (validate_quiescent_filesystem g)) (\<lambda>_.
          look (validate_bound_file g)))))))));
        finish =
          act_bind (when_open rw_connected (attempt (rcall (\<lambda>w. w\<lparr>rw_connected := False\<rparr>)))) (\<lambda>a.
          act_bind (when_open rw_database_open (attempt (rcall (\<lambda>w. w\<lparr>rw_database_open := False\<rparr>)))) (\<lambda>b.
          act_bind (when_open rw_directory_open (attempt (rcall (\<lambda>w. w\<lparr>rw_directory_open := False\<rparr>)))) (\<lambda>c.
            act_lift (Inr (a \<or> b \<or> c)))));
        (r, w1) = body (w\<lparr>rw_directory_open := False, rw_database_open := False, rw_connected := False,
          rw_transaction := False\<rparr>) in
      case finish w1 of
        (Inl e, w2) \<Rightarrow> (Inl e, w2)
      | (Inr failed, w2) \<Rightarrow>
          (case r of
             Inl e \<Rightarrow> (Inl (if is_Exception e then ReplayUnavailableError else e), w2)
           | Inr _ \<Rightarrow> if failed then (Inl ReplayUnavailableError, w2) else (Inr (), w2)))"

section \<open>Bindings and rows\<close>

lemma replay_integer_Inr [py_simps]:
  "replay_integer p v = Inr i \<longleftrightarrow>
     v = PInt i \<and> (if p then 1 else 0) \<le> i \<and> i \<le> (if p then MAX_DECIMAL_IDENTIFIER else SQLITE_INTEGER_MAX)"
  by (cases v) (auto simp: replay_integer_def Let_def)

lemma decimal_max: "MAX_DECIMAL_IDENTIFIER = SQLITE_INTEGER_MAX"
  by (simp add: MAX_DECIMAL_IDENTIFIER_def SQLITE_INTEGER_MAX_def)

definition wf_binding :: "binding \<Rightarrow> bool" where
  "wf_binding b \<longleftrightarrow>
     jti_ok (bi_jti b) \<and> fullmatch SHA256_RE (bi_request_hash b) \<and>
     1 \<le> bi_run_id b \<and> bi_run_id b \<le> SQLITE_INTEGER_MAX \<and>
     1 \<le> bi_run_attempt b \<and> bi_run_attempt b \<le> SQLITE_INTEGER_MAX \<and>
     (\<forall>t. bi_retain_until b = Some t \<longrightarrow> 0 \<le> t \<and> t \<le> SQLITE_INTEGER_MAX)"

lemma replay_binding_Inr:
  "replay_binding j x h r a = Inr b \<longleftrightarrow>
     wf_binding b \<and> j = PStr (bi_jti b) \<and> h = PStr (bi_request_hash b) \<and> r = PInt (bi_run_id b) \<and>
     a = PInt (bi_run_attempt b) \<and>
     (case x of
        None \<Rightarrow> bi_retain_until b = None
      | Some v \<Rightarrow> \<exists>i. v = PInt i \<and> 0 \<le> i \<and> i + MAX_CLOCK_SKEW_SECONDS \<le> SQLITE_INTEGER_MAX \<and>
          bi_retain_until b = Some (i + MAX_CLOCK_SKEW_SECONDS))"
  by (cases b; cases x)
    (auto simp: replay_binding_def validate_jti_Inr replay_integer_Inr decimal_max wf_binding_def case_PStr_Inr
      MAX_CLOCK_SKEW_SECONDS_def split: if_splits)

text \<open>The table's check of the token identifier is the validator's.\<close>

lemma fullmatch_JTI_RE:
  "fullmatch JTI_RE s \<longleftrightarrow>
     (\<exists>c t. s = c # t \<and> is_alnum c \<and> length t \<le> 127 \<and> list_all (\<lambda>c. is_alnum c \<or> c \<in> set ''._:@-'') t)"
  by (simp add: JTI_RE_def fullmatch_Cat_Cls)

lemma sql_jti_check_iff: "sql_jti_check s \<longleftrightarrow> jti_ok s"
  unfolding sql_jti_check_def jti_ok_def fullmatch_JTI_RE by (cases s) (auto simp: MAX_JTI_LENGTH_def)

definition row_of :: "binding \<Rightarrow> int \<Rightarrow> replay_row" where
  "row_of b retain = \<lparr>ro_jti = bi_jti b, ro_retain_until = retain, ro_request_hash = bi_request_hash b,
     ro_run_id = bi_run_id b, ro_run_attempt = bi_run_attempt b, ro_status = ''consumed''\<rparr>"

lemma row_checks_binding: "wf_binding b \<Longrightarrow> bi_retain_until b = Some t \<Longrightarrow> row_checks (row_of b t)"
  by (simp add: row_checks_def row_of_def wf_binding_def sql_jti_check_iff fullmatch_SHA256_RE STATUSES_def)

definition conflicts :: "binding \<Rightarrow> replay_row \<Rightarrow> bool" where
  "conflicts b r \<longleftrightarrow> ro_jti r = bi_jti b \<or> same_run b r"

lemma proven_conflict:
  "is_proven_replay_conflict b Unique_Key rows \<longleftrightarrow> list_ex (conflicts b) rows"
proof -
  have "list_ex P (take 2 (filter P rows)) \<and> 1 \<le> length (take 2 (filter P rows)) \<longleftrightarrow> list_ex P rows" for P :: "replay_row \<Rightarrow> bool"
  proof (cases "filter P rows")
    case Nil
    then show ?thesis by (auto simp: filter_empty_conv list_ex_iff)
  next
    case (Cons r rs)
    then have "r \<in> set (filter P rows)" by simp
    then have "P r" "r \<in> set rows" by simp_all
    with Cons show ?thesis by (auto simp: list_ex_iff)
  qed
  from this [of "conflicts b"] show ?thesis
    unfolding is_proven_replay_conflict_def conflicts_def Let_def by auto
qed

lemma consume_operation_wf:
  assumes "wf_binding b" and "bi_retain_until b = Some t"
  shows "consume_operation maximum b now db =
    (let rows = purged now (db_rows db) in
     if int (length rows) \<ge> maximum then Inl ReplayUnavailableError
     else if t < now \<or> list_ex (conflicts b) rows then Inl ReplayError
     else Inr (db\<lparr>db_rows := rows @ [row_of b t]\<rparr>))"
proof -
  have "list_ex (\<lambda>q. ro_jti q = bi_jti b \<or> (ro_run_id q, ro_run_attempt q) = (bi_run_id b, bi_run_attempt b)) rows
      \<longleftrightarrow> list_ex (conflicts b) rows" for rows
    by (simp add: conflicts_def [abs_def] same_run_def)
  then show ?thesis
    using row_checks_binding [OF assms] assms(2) proven_conflict [of b]
    by (auto simp: consume_operation_def insert_row_def row_of_def Let_def)
qed

section \<open>What a mutation does to the database\<close>

lemma wp_rcall:
  assumes "\<And>e w'. rw_db w' = rw_db w \<Longrightarrow> E e w'"
    and "\<And>w'. rw_db w' = rw_db w \<Longrightarrow> Q () (f w')"
  shows "wp (rcall f) Q E w"
  using assms by (auto simp: wp_def rcall_def split: list.splits option.splits)

lemma wp_look:
  assumes "\<And>e w'. rw_db w' = rw_db w \<Longrightarrow> E e w'" and "\<And>w'. rw_db w' = rw_db w \<Longrightarrow> Q () w'"
  shows "wp (look check) Q E w"
  using assms by (auto simp: wp_def look_def split: list.splits sum.splits prod.splits)

lemma wp_reader:
  assumes "\<And>e. F w = Inl e \<Longrightarrow> E e w" and "\<And>x. F w = Inr x \<Longrightarrow> Q x w"
  shows "wp (\<lambda>w. (F w, w)) Q E w"
  using assms by (auto simp: wp_def split: sum.splits)

text \<open>The body changes the database only at \<open>COMMIT\<close>, to what the transaction computed.\<close>

lemma wp_mutate_body:
  "wp (mutate_body g operation now)
     (\<lambda>_ w'. \<exists>db. run_transaction operation now (rw_db w) = Inr db \<and> rw_db w' = db)
     (\<lambda>_ w'. rw_db w' = rw_db w \<or> (\<exists>db. run_transaction operation now (rw_db w) = Inr db \<and> rw_db w' = db)) w"
  unfolding mutate_body_def wp_act_bind
  by (rule wp_rcall wp_look wp_reader | simp)+

definition keeps_db :: "(replay_world, 'a) act \<Rightarrow> bool" where
  "keeps_db m \<longleftrightarrow> (\<forall>w. rw_db (snd (m w)) = rw_db w)"

lemma keeps_db_bind: "keeps_db m \<Longrightarrow> (\<And>x. keeps_db (f x)) \<Longrightarrow> keeps_db (act_bind m f)"
  by (simp add: keeps_db_def act_bind_def split: prod.splits sum.splits) (metis snd_conv)

lemma keeps_db_attempt: "keeps_db m \<Longrightarrow> keeps_db (attempt m)"
  by (simp add: keeps_db_def attempt_def act_catch_def act_bind_def split: prod.splits sum.splits) (metis snd_conv)

lemma keeps_db_when: "keeps_db m \<Longrightarrow> keeps_db (when_open p m)"
  by (simp add: keeps_db_def when_open_def)

lemma keeps_db_rcall: "(\<And>w. rw_db (f w) = rw_db w) \<Longrightarrow> keeps_db (rcall f)"
  by (simp add: keeps_db_def rcall_def split: list.splits option.splits)

lemma keeps_db_look: "keeps_db (look check)"
  by (simp add: keeps_db_def look_def split: list.splits)

lemma keeps_db_lift: "keeps_db (act_lift r)"
  by (simp add: keeps_db_def)

lemma keeps_db_if: "keeps_db m \<Longrightarrow> keeps_db (\<lambda>w. if p w then (r, w) else m w)"
  by (simp add: keeps_db_def)

lemmas keeps_db_rules = keeps_db_bind keeps_db_attempt keeps_db_when keeps_db_rcall keeps_db_look keeps_db_lift keeps_db_if

lemma keeps_db_finally: "keeps_db (mutate_finally g)"
  unfolding mutate_finally_def by (intro keeps_db_rules) simp_all

lemma replay_mutate_db:
  assumes "replay_mutate g operation clock w = (r, w')"
  shows "rw_db w' = rw_db w \<and> r \<noteq> Inr () \<or>
    (\<exists>now db. sample_clock clock = Inr now \<and> run_transaction operation now (rw_db w) = Inr db \<and> rw_db w' = db)"
proof (cases "sample_clock clock")
  case (Inl e)
  with assms show ?thesis by (auto simp: replay_mutate_def)
next
  case (Inr now)
  let ?w = "w\<lparr>rw_directory_open := False, rw_database_open := False, rw_connected := False, rw_transaction := False\<rparr>"
  obtain r1 w1 where b: "mutate_body g operation now ?w = (r1, w1)" by fastforce
  obtain r2 w2 where f: "mutate_finally g w1 = (r2, w2)" by fastforce
  have w': "w' = w2" and r: "r = Inr () \<Longrightarrow> r1 = Inr ()"
    using assms Inr b f by (auto simp: replay_mutate_def split: sum.splits if_splits)
  have "rw_db w2 = rw_db w1" using keeps_db_finally [of g] f by (simp add: keeps_db_def) (metis snd_conv)
  moreover have "case r1 of
      Inl _ \<Rightarrow> rw_db w1 = rw_db w \<or> (\<exists>db. run_transaction operation now (rw_db w) = Inr db \<and> rw_db w1 = db)
    | Inr _ \<Rightarrow> \<exists>db. run_transaction operation now (rw_db w) = Inr db \<and> rw_db w1 = db"
    using wp_run [OF wp_mutate_body b] by (auto split: sum.splits)
  ultimately show ?thesis using w' r Inr by (cases r1) auto
qed

section \<open>Transactions\<close>

lemma validate_open_store_metadata:
  "validate_open_store l db = Inr () \<Longrightarrow> \<exists>seen. db_metadata db = [(1, USER_VERSION, seen)] \<and> 0 \<le> seen \<and> seen \<le> SQLITE_INTEGER_MAX"
  by (auto simp: validate_open_store_def Let_def split: list.splits prod.splits if_splits)

definition last_seen :: "replay_db \<Rightarrow> int" where
  "last_seen db = (case db_metadata db of [(_, _, seen)] \<Rightarrow> seen | _ \<Rightarrow> 0)"

definition with_seen :: "int \<Rightarrow> replay_db \<Rightarrow> replay_db" where
  "with_seen t db = db\<lparr>db_metadata := [(1, USER_VERSION, t)]\<rparr>"

lemma last_seen_with [simp]: "last_seen (with_seen t db) = t" "db_rows (with_seen t db) = db_rows db"
  by (simp_all add: last_seen_def with_seen_def)

lemma run_transaction_Inr:
  assumes "run_transaction operation now db = Inr db'"
  shows "operation (max now (last_seen db)) (with_seen (max now (last_seen db)) db) = Inr db' \<and>
    last_seen db - now \<le> MAX_CLOCK_SKEW_SECONDS \<and> validate_open_store True db = Inr ()"
proof -
  have v: "validate_open_store True db = Inr ()" using assms by (auto simp: run_transaction_def)
  then obtain seen where m: "db_metadata db = [(1, USER_VERSION, seen)]"
    using validate_open_store_metadata by blast
  have "last_seen db = seen" by (simp add: last_seen_def m)
  with assms v m show ?thesis
    by (auto simp: run_transaction_def advance_clock_def Let_def with_seen_def replay_integer_Inr split: if_splits)
qed

section \<open>Operations on the guard\<close>

datatype replay_op = Consume consume_call | Begin consume_call | Finish consume_call

fun replay_step :: "sqlite_guard \<Rightarrow> replay_op \<Rightarrow> (replay_world, unit) act" where
  "replay_step g (Consume c) = sqlite_consume g c"
| "replay_step g (Begin c) = begin_execution g c"
| "replay_step g (Finish c) = finish_execution g c"

fun op_call :: "replay_op \<Rightarrow> consume_call" where
  "op_call (Consume c) = c" | "op_call (Begin c) = c" | "op_call (Finish c) = c"

lemma sample_clock_Inr [py_simps]:
  "sample_clock c = Inr now \<longleftrightarrow> c = Inr (PInt now) \<and> 0 \<le> now \<and> now \<le> SQLITE_INTEGER_MAX"
  by (auto simp: sample_clock_def replay_integer_Inr split: sum.splits)

definition moved :: "binding \<Rightarrow> string \<Rightarrow> string \<Rightarrow> int \<Rightarrow> replay_row list \<Rightarrow> replay_row list" where
  "moved b before after now rows = map (\<lambda>r. if transition_matches b before now r then r\<lparr>ro_status := after\<rparr> else r) rows"

lemma sqlite_transition_cases:
  assumes "sqlite_transition g before after c w = (r, w')"
  obtains (same) "rw_db w' = rw_db w" "r \<noteq> Inr ()"
  | (moved) b now where "wf_binding b" "cc_jti c = PStr (bi_jti b)" "cc_request_hash c = PStr (bi_request_hash b)"
      "cc_clock c = Inr (PInt now)"
      "length (filter (transition_matches b before (max now (last_seen (rw_db w)))) (db_rows (rw_db w))) = 1"
      "rw_db w' = (with_seen (max now (last_seen (rw_db w))) (rw_db w))
         \<lparr>db_rows := moved b before after (max now (last_seen (rw_db w))) (db_rows (rw_db w))\<rparr>"
proof (cases "replay_binding (cc_jti c) None (cc_request_hash c) (cc_run_id c) (cc_run_attempt c)")
  case (Inl e)
  with assms same show thesis by (auto simp: sqlite_transition_def)
next
  case (Inr b)
  with assms have "replay_mutate g (transition_operation b before after) (cc_clock c) w = (r, w')"
    by (simp add: sqlite_transition_def)
  from replay_mutate_db [OF this] consider "rw_db w' = rw_db w" "r \<noteq> Inr ()" | now db where
      "sample_clock (cc_clock c) = Inr now" "run_transaction (transition_operation b before after) now (rw_db w) = Inr db"
      "rw_db w' = db" by blast
  then show thesis
  proof cases
    case 1
    then show ?thesis by (rule same)
  next
    case 2
    have b: "wf_binding b" "cc_jti c = PStr (bi_jti b)" "cc_request_hash c = PStr (bi_request_hash b)"
      using Inr by (simp_all add: replay_binding_Inr)
    have clk: "cc_clock c = Inr (PInt now)" using 2(1) by (simp add: sample_clock_Inr)
    have "transition_operation b before after (max now (last_seen (rw_db w)))
        (with_seen (max now (last_seen (rw_db w))) (rw_db w)) = Inr db"
      using run_transaction_Inr [OF 2(2)] by simp
    then show ?thesis
      using 2(3) by (intro moved [OF b clk]) (auto simp: transition_operation_def moved_def split: if_splits)
  qed
qed

lemma sqlite_consume_cases:
  assumes "sqlite_consume g c w = (r, w')"
  obtains (same) "rw_db w' = rw_db w" "r \<noteq> Inr ()"
  | (consumed) b x now where "wf_binding b" "cc_jti c = PStr (bi_jti b)" "cc_expires_at c = PInt x"
      "cc_clock c = Inr (PInt now)" "max now (last_seen (rw_db w)) \<le> x + MAX_CLOCK_SKEW_SECONDS"
      "bi_retain_until b = Some (x + MAX_CLOCK_SKEW_SECONDS)"
      "int (length (purged (max now (last_seen (rw_db w))) (db_rows (rw_db w)))) < sg_maximum_entries g"
      "\<not> list_ex (conflicts b) (purged (max now (last_seen (rw_db w))) (db_rows (rw_db w)))"
      "rw_db w' = (with_seen (max now (last_seen (rw_db w))) (rw_db w))
         \<lparr>db_rows := purged (max now (last_seen (rw_db w))) (db_rows (rw_db w)) @ [row_of b (x + MAX_CLOCK_SKEW_SECONDS)]\<rparr>"
proof (cases "replay_binding (cc_jti c) (Some (cc_expires_at c)) (cc_request_hash c) (cc_run_id c) (cc_run_attempt c)")
  case (Inl e)
  with assms same show thesis by (auto simp: sqlite_consume_def)
next
  case (Inr b)
  with assms have "replay_mutate g (consume_operation (sg_maximum_entries g) b) (cc_clock c) w = (r, w')"
    by (simp add: sqlite_consume_def)
  from replay_mutate_db [OF this] consider "rw_db w' = rw_db w" "r \<noteq> Inr ()" | now db where
      "sample_clock (cc_clock c) = Inr now" "run_transaction (consume_operation (sg_maximum_entries g) b) now (rw_db w) = Inr db"
      "rw_db w' = db" by blast
  then show thesis
  proof cases
    case 1
    then show ?thesis by (rule same)
  next
    case 2
    obtain x where b: "wf_binding b" "cc_jti c = PStr (bi_jti b)" "cc_expires_at c = PInt x"
        "bi_retain_until b = Some (x + MAX_CLOCK_SKEW_SECONDS)"
      using Inr by (auto simp: replay_binding_Inr)
    have clk: "cc_clock c = Inr (PInt now)" using 2(1) by (simp add: sample_clock_Inr)
    have "consume_operation (sg_maximum_entries g) b (max now (last_seen (rw_db w)))
        (with_seen (max now (last_seen (rw_db w))) (rw_db w)) = Inr db"
      using run_transaction_Inr [OF 2(2)] by simp
    then show ?thesis
      using 2(3) b(4) by (intro consumed [OF b(1-3) clk])
        (auto simp: consume_operation_wf [OF b(1,4)] Let_def split: if_splits)
  qed
qed

section \<open>Invariants\<close>

text \<open>One row per token and per run; no more rows than the bound; every row within the checks.\<close>

definition wf_rows :: "int \<Rightarrow> replay_row list \<Rightarrow> bool" where
  "wf_rows maximum rows \<longleftrightarrow>
     distinct (map ro_jti rows) \<and> distinct (map (\<lambda>r. (ro_run_id r, ro_run_attempt r)) rows) \<and>
     int (length rows) \<le> maximum \<and> list_all row_checks rows"

lemma purged_wf: "wf_rows m rows \<Longrightarrow> wf_rows m (purged t rows)"
proof -
  assume wf: "wf_rows m rows"
  have "length (purged t rows) \<le> length rows" by (simp only: purged_def length_filter_le)
  then have "int (length (purged t rows)) \<le> m" using wf by (simp add: wf_rows_def)
  with wf show ?thesis by (auto simp: wf_rows_def purged_def distinct_map_filter list_all_iff)
qed

lemma moved_keys:
  "map ro_jti (moved b before after now rows) = map ro_jti rows"
  "map (\<lambda>r. (ro_run_id r, ro_run_attempt r)) (moved b before after now rows) = map (\<lambda>r. (ro_run_id r, ro_run_attempt r)) rows"
  "map (\<lambda>r. (ro_jti r, ro_retain_until r)) (moved b before after now rows) = map (\<lambda>r. (ro_jti r, ro_retain_until r)) rows"
  by (simp_all add: moved_def)

lemma moved_wf: "wf_rows m rows \<Longrightarrow> after \<in> set STATUSES \<Longrightarrow> wf_rows m (moved b before after now rows)"
  unfolding wf_rows_def moved_keys by (auto simp: moved_def list_all_iff row_checks_def)

lemma replay_step_wf:
  assumes "wf_rows (sg_maximum_entries g) (db_rows (rw_db w))"
  shows "wf_rows (sg_maximum_entries g) (db_rows (rw_db (snd (replay_step g op w))))"
proof -
  obtain r w' where s: "replay_step g op w = (r, w')" by fastforce
  have t: "wf_rows (sg_maximum_entries g) (db_rows (rw_db w'))"
    if "sqlite_transition g before after c w = (r, w')" "after \<in> set STATUSES" for before after c
    using that(1) by (cases rule: sqlite_transition_cases) (use assms that(2) in \<open>auto intro: moved_wf\<close>)
  show ?thesis
  proof (cases op)
    case (Consume c)
    with s have "sqlite_consume g c w = (r, w')" by simp
    then show ?thesis
    proof (cases rule: sqlite_consume_cases)
      case (consumed b x now)
      let ?p = "purged (max now (last_seen (rw_db w))) (db_rows (rw_db w))"
      have "wf_rows (sg_maximum_entries g) ?p" using assms by (rule purged_wf)
      moreover have "row_checks (row_of b (x + MAX_CLOCK_SKEW_SECONDS))"
        using consumed(1,6) by (rule row_checks_binding)
      ultimately show ?thesis
        using consumed(7,8,9) s
        by (auto simp: wf_rows_def row_of_def list_ex_iff conflicts_def same_run_def)
    qed (use assms s in simp)
  qed (use s t in \<open>auto simp: begin_execution_def finish_execution_def STATUSES_def\<close>)
qed

section \<open>Spent tokens\<close>

text \<open>A token with this retention is in the table, or the stored clock is past it.\<close>

definition spent :: "replay_db \<Rightarrow> string \<Rightarrow> int \<Rightarrow> bool" where
  "spent db j t \<longleftrightarrow> (j, t) \<in> set (map (\<lambda>r. (ro_jti r, ro_retain_until r)) (db_rows db)) \<or> t < last_seen db"

lemma last_seen_rows [simp]: "last_seen (db\<lparr>db_rows := x\<rparr>) = last_seen db"
  by (simp add: last_seen_def)

lemma spent_purged:
  "spent db j t \<Longrightarrow> last_seen db \<le> e \<Longrightarrow>
     (j, t) \<in> set (map (\<lambda>r. (ro_jti r, ro_retain_until r)) (purged e (db_rows db))) \<or> t < e"
  by (auto simp: spent_def purged_def)

lemma replay_step_spent:
  assumes "spent (rw_db w) j t"
  shows "spent (rw_db (snd (replay_step g op w))) j t"
proof -
  obtain r w' where s: "replay_step g op w = (r, w')" by fastforce
  have tr: "spent (rw_db w') j t" if "sqlite_transition g before after c w = (r, w')" for before after c
    using that
  proof (cases rule: sqlite_transition_cases)
    case (moved b now)
    then show ?thesis using assms moved_keys(3) [of b before after _ "db_rows (rw_db w)"]
      by (auto simp: spent_def)
  qed (use assms in simp)
  show ?thesis
  proof (cases op)
    case (Consume c)
    with s have "sqlite_consume g c w = (r, w')" by simp
    then show ?thesis
    proof (cases rule: sqlite_consume_cases)
      case (consumed b x now)
      then show ?thesis using s spent_purged [OF assms, of "max now (last_seen (rw_db w))"] by (auto simp: spent_def)
    qed (use assms s in simp)
  qed (use s tr in \<open>auto simp: begin_execution_def finish_execution_def\<close>)
qed

lemma spent_refused:
  assumes "spent (rw_db w) j t" and "cc_jti c = PStr j" and "cc_expires_at c = PInt x"
    and "x + MAX_CLOCK_SKEW_SECONDS \<le> t"
  shows "fst (sqlite_consume g c w) \<noteq> Inr ()" and "rw_db (snd (sqlite_consume g c w)) = rw_db w"
proof -
  obtain r w' where s: "sqlite_consume g c w = (r, w')" by fastforce
  then have "r \<noteq> Inr () \<and> rw_db w' = rw_db w"
  proof (cases rule: sqlite_consume_cases)
    case (consumed b y now)
    let ?e = "max now (last_seen (rw_db w))"
    have "\<not> t < ?e" using consumed(3,5) assms(3,4) by auto
    then have "(j, t) \<in> set (map (\<lambda>r. (ro_jti r, ro_retain_until r)) (purged ?e (db_rows (rw_db w))))"
      using spent_purged [OF assms(1), of ?e] by auto
    then show ?thesis using consumed(2,8) assms(2) by (auto simp: list_ex_iff conflicts_def)
  qed (use s in simp)
  with s show "fst (sqlite_consume g c w) \<noteq> Inr ()" "rw_db (snd (sqlite_consume g c w)) = rw_db w" by simp_all
qed

section \<open>The guard's contract\<close>

definition op_jti :: "replay_op \<Rightarrow> string option" where
  "op_jti op = (case op of Consume c \<Rightarrow> call_jti c | _ \<Rightarrow> None)"

definition sqlite_retains :: "replay_world \<Rightarrow> string \<Rightarrow> int \<Rightarrow> bool" where
  "sqlite_retains w j t \<longleftrightarrow>
     (\<exists>t'. (j, t') \<in> set (map (\<lambda>r. (ro_jti r, ro_retain_until r)) (db_rows (rw_db w))) \<and> t \<le> t') \<and>
     last_seen (rw_db w) \<le> t"

lemma call_reads_by_clock: "call_reads_by c t \<Longrightarrow> cc_clock c = Inr (PInt now) \<Longrightarrow> now \<le> t"
  by (simp add: call_reads_by_def)

lemma purged_retains:
  "(j, t') \<in> set (map (\<lambda>r. (ro_jti r, ro_retain_until r)) rows) \<Longrightarrow> e \<le> t' \<Longrightarrow>
     (j, t') \<in> set (map (\<lambda>r. (ro_jti r, ro_retain_until r)) (purged e rows))"
  by (auto simp: purged_def)

lemma sqlite_retains_step:
  assumes "sqlite_retains w j t" and "call_reads_by (op_call op) t" and s: "replay_step g op w = (r, w')"
  shows "sqlite_retains w' j t"
proof -
  obtain t' where t': "(j, t') \<in> set (map (\<lambda>r. (ro_jti r, ro_retain_until r)) (db_rows (rw_db w)))" "t \<le> t'"
      and seen: "last_seen (rw_db w) \<le> t" using assms(1) by (auto simp: sqlite_retains_def)
  have tr: "sqlite_retains w' j t"
    if "sqlite_transition g before after c w = (r, w')" "call_reads_by c t" for before after c
    using that(1)
  proof (cases rule: sqlite_transition_cases)
    case (moved b now)
    then show ?thesis
      using t' seen call_reads_by_clock [OF that(2)] moved_keys(3) [of b before after _ "db_rows (rw_db w)"]
      by (auto simp: sqlite_retains_def)
  qed (use assms in \<open>simp add: sqlite_retains_def\<close>)
  show ?thesis
  proof (cases op)
    case (Consume c)
    with s have "sqlite_consume g c w = (r, w')" by simp
    then show ?thesis
    proof (cases rule: sqlite_consume_cases)
      case (consumed b x now)
      have "now \<le> t" using call_reads_by_clock [OF _ consumed(4)] assms(2) Consume by simp
      then have "(j, t') \<in> set (map (\<lambda>r. (ro_jti r, ro_retain_until r)) (purged (max now (last_seen (rw_db w))) (db_rows (rw_db w))))"
        using purged_retains [OF t'(1)] t'(2) seen by auto
      with t'(2) seen \<open>now \<le> t\<close> show ?thesis by (auto simp: sqlite_retains_def consumed(9))
    qed (use assms(1) in \<open>simp add: sqlite_retains_def\<close>)
  qed (use s tr assms(2) in \<open>auto simp: begin_execution_def finish_execution_def\<close>)
qed

interpretation sqlite: replay_guard "replay_step g" op_jti "\<lambda>op. call_until (op_call op)"
  "\<lambda>op. call_reads_by (op_call op)" sqlite_retains for g
proof
  fix op w w' j
  assume s: "replay_step g op w = (Inr (), w')" and j: "op_jti op = Some j"
  then obtain c where c: "op = Consume c" "call_jti c = Some j" by (cases op) (auto simp: op_jti_def)
  with s have "sqlite_consume g c w = (Inr (), w')" by simp
  then show "sqlite_retains w' j (call_until (op_call op))"
    by (cases rule: sqlite_consume_cases)
      (use c in \<open>auto simp: sqlite_retains_def call_jti_def call_until_def opt_of_def row_of_def\<close>)
next
  fix w j t op r w'
  assume "sqlite_retains w j t" "call_reads_by (op_call op) t" "replay_step g op w = (r, w')"
  then show "sqlite_retains w' j t" by (rule sqlite_retains_step)
next
  fix w j t op w'
  assume a: "sqlite_retains w j t" "call_reads_by (op_call op) t" "op_jti op = Some j"
  then obtain c where c: "op = Consume c" "cc_jti c = PStr j"
    by (cases op) (auto simp: op_jti_def call_jti_def opt_of_def split: pyval.splits)
  show "replay_step g op w \<noteq> (Inr (), w')"
  proof
    assume "replay_step g op w = (Inr (), w')"
    with c have "sqlite_consume g c w = (Inr (), w')" by simp
    then show False
    proof (cases rule: sqlite_consume_cases)
      case (consumed b x now)
      obtain t' where t': "(j, t') \<in> set (map (\<lambda>r. (ro_jti r, ro_retain_until r)) (db_rows (rw_db w)))" "t \<le> t'"
          "last_seen (rw_db w) \<le> t" using a(1) by (auto simp: sqlite_retains_def)
      have "now \<le> t" using call_reads_by_clock [OF _ consumed(4)] a(2) c by simp
      then have "(j, t') \<in> set (map (\<lambda>r. (ro_jti r, ro_retain_until r)) (purged (max now (last_seen (rw_db w))) (db_rows (rw_db w))))"
        using purged_retains [OF t'(1)] t'(2,3) by auto
      then show False using consumed(2,8) c(2) by (auto simp: list_ex_iff conflicts_def)
    qed simp
  qed
qed

section \<open>Executions\<close>

text \<open>No row of the token waits for its execution.\<close>

definition begun :: "string \<Rightarrow> replay_db \<Rightarrow> bool" where
  "begun j db \<longleftrightarrow> (\<forall>r \<in> set (db_rows db). ro_jti r = j \<longrightarrow> ro_status r \<noteq> ''consumed'')"

text \<open>The operation does not claim, for the token \<open>j\<close>, an expiry after \<open>x\<close>.\<close>

definition claims_by :: "string \<Rightarrow> int \<Rightarrow> replay_op \<Rightarrow> bool" where
  "claims_by j x op \<longleftrightarrow>
     (case op of Consume c \<Rightarrow> (\<forall>y. cc_jti c = PStr j \<longrightarrow> cc_expires_at c = PInt y \<longrightarrow> y \<le> x) | _ \<Rightarrow> True)"

lemma moved_begun:
  "begun j (db\<lparr>db_rows := rows\<rparr>) \<Longrightarrow> after \<noteq> ''consumed'' \<Longrightarrow> begun j (db\<lparr>db_rows := moved b before after now rows\<rparr>)"
  by (auto simp: begun_def moved_def)

lemma replay_step_begun:
  assumes "begun j (rw_db w)" and "spent (rw_db w) j (x + MAX_CLOCK_SKEW_SECONDS)" and "claims_by j x op"
  shows "begun j (rw_db (snd (replay_step g op w)))"
proof -
  obtain r w' where s: "replay_step g op w = (r, w')" by fastforce
  have tr: "begun j (rw_db w')" if "sqlite_transition g before after c w = (r, w')" "after \<noteq> ''consumed''" for before after c
    using that(1)
  proof (cases rule: sqlite_transition_cases)
    case (moved b now)
    then show ?thesis using assms(1) that(2) by (auto simp: begun_def moved_def)
  qed (use assms in simp)
  show ?thesis
  proof (cases op)
    case (Consume c)
    with s have run: "sqlite_consume g c w = (r, w')" by simp
    then show ?thesis
    proof (cases rule: sqlite_consume_cases)
      case (consumed b y now)
      show ?thesis
      proof (cases "cc_jti c = PStr j")
        case True
        have "y \<le> x" using assms(3) Consume True consumed(3) by (simp add: claims_by_def)
        then have "rw_db w' = rw_db w" using spent_refused(2) [OF assms(2) True consumed(3), of g] run by simp
        then show ?thesis using s assms(1) by simp
      next
        case False
        then show ?thesis using s assms(1) consumed by (auto simp: begun_def row_of_def purged_def)
      qed
    qed (use assms s in simp)
  qed (use s tr in \<open>auto simp: begin_execution_def finish_execution_def\<close>)
qed

lemma begin_needs_waiting:
  assumes "begun j (rw_db w)" and "cc_jti c = PStr j"
  shows "fst (begin_execution g c w) \<noteq> Inr ()"
proof
  assume a: "fst (begin_execution g c w) = Inr ()"
  obtain r w' where "sqlite_transition g ''consumed'' ''executing'' c w = (r, w')" by fastforce
  then show False
  proof (cases rule: sqlite_transition_cases)
    case (moved b now)
    let ?e = "max now (last_seen (rw_db w))"
    have "filter (transition_matches b ''consumed'' ?e) (db_rows (rw_db w)) = []"
      using assms moved(2) by (auto simp: filter_empty_conv transition_matches_def begun_def)
    with moved(5) show False by simp
  qed (use a \<open>_ = (r, w')\<close> in \<open>simp add: begin_execution_def\<close>)
qed

lemma begin_begins:
  assumes "begin_execution g c w = (Inr (), w')" and "cc_jti c = PStr j"
    and "distinct (map ro_jti (db_rows (rw_db w)))"
  shows "begun j (rw_db w')"
proof -
  have "sqlite_transition g ''consumed'' ''executing'' c w = (Inr (), w')"
    using assms(1) by (simp add: begin_execution_def)
  then show ?thesis
  proof (cases rule: sqlite_transition_cases)
    case (moved b now)
    let ?m = "transition_matches b ''consumed'' (max now (last_seen (rw_db w)))"
    obtain q where q: "q \<in> set (db_rows (rw_db w))" "?m q"
      using moved(5) by (metis filter_empty_conv length_0_conv One_nat_def nat.distinct(1))
    have "r = q" if "r \<in> set (db_rows (rw_db w))" "ro_jti r = j" for r
      using that q assms(2,3) moved(2) by (auto simp: transition_matches_def distinct_map inj_on_def)
    then show ?thesis using q(2) moved(6) by (auto simp: begun_def moved_def)
  qed simp
qed

section \<open>A run on a quiet file system\<close>

text \<open>A store after initialisation, its directory, and a call.\<close>

definition sample_header :: db_header where
  "sample_header =
     \<lparr>dh_integrity_ok = True, dh_journal_mode = ''delete'', dh_page_size = PAGE_SIZE, dh_page_count = 6,
      dh_application_id = APPLICATION_ID, dh_user_version = USER_VERSION,
      dh_master = zip expected_master
        [Some (sql_text METADATA_SQL), Some (sql_text CONSUMPTIONS_SQL), Some (sql_text EXPIRY_INDEX_SQL), None, None],
      dh_metadata_columns = METADATA_COLUMNS, dh_consumption_columns = CONSUMPTION_COLUMNS,
      dh_indexes = [(''replay_expiry_idx'', 0, ''c'', 0), (''sqlite_autoindex_consumptions_2'', 1, ''u'', 0),
        (''sqlite_autoindex_consumptions_1'', 1, ''pk'', 0)],
      dh_index_columns = (\<lambda>n. if n = ''replay_expiry_idx'' then [''retain_until'', ''jti'']
        else if n = ''sqlite_autoindex_consumptions_1'' then [''jti''] else [''github_run_id'', ''github_run_attempt''])\<rparr>"

definition sample_db :: replay_db where
  "sample_db = \<lparr>db_header = sample_header, db_metadata = [(1, USER_VERSION, 1000)], db_rows = []\<rparr>"

definition sample_sqlite :: sqlite_guard where
  "sample_sqlite = \<lparr>sg_uid = 0, sg_gid = 990, sg_journal_uids = [0, 991, 992], sg_maximum_entries = 100,
     sg_busy_timeout_ms = 1000\<rparr>"

definition sample_view :: directory_view where
  "sample_view =
     (let file = \<lparr>fs_directory = False, fs_regular = True, fs_link = False, fs_mode = DATABASE_MODE, fs_nlink = 1,
        fs_uid = 0, fs_gid = 990, fs_identity = (1, 8), fs_size = 24576\<rparr>;
        dir = file\<lparr>fs_directory := True, fs_regular := False, fs_mode := DIRECTORY_MODE, fs_identity := (1, 7)\<rparr> in
      \<lparr>dv_directory = dir, dv_named_directory = dir, dv_entries = [REPLAY_FILENAME], dv_database = file,
       dv_journal = file, dv_opened = file\<rparr>)"

definition sample_store :: replay_world where
  "sample_store = \<lparr>rw_db = sample_db, rw_views = replicate 7 (Inr sample_view), rw_faults = [],
     rw_directory_open = False, rw_database_open = False, rw_connected = False, rw_transaction = False\<rparr>"

definition sample_bound :: binding where
  "sample_bound = \<lparr>bi_jti = ''token-1'', bi_retain_until = Some 1330, bi_request_hash = replicate 64 (CHR ''c''),
     bi_run_id = 7, bi_run_attempt = 1\<rparr>"

lemma sample_schema: "validate_schema sample_header = Inr ()"
  by (simp add: validate_schema_def sample_header_def expected_master_def master_sql_def index_row_def insert_commute)

lemma sample_store_valid: "validate_open_store True sample_db = Inr ()" "configure_existing sample_db = Inr ()"
  using sample_schema
  by (simp_all add: validate_open_store_def sample_db_def configure_existing_def connection_limit_def Let_def)
    (simp_all add: sample_header_def MAX_PAGE_COUNT_def DATABASE_SIZE_LIMIT_def PAGE_SIZE_def SQLITE_INTEGER_MAX_def
      MAXIMUM_ENTRIES_def)

lemma sample_view_valid: "validate_filesystem sample_sqlite sample_view = Inr ()"
    "validate_bound_file sample_sqlite sample_view = Inr ()"
  by code_simp+

text \<open>On a file system that answers, with a valid directory throughout, the transaction's outcome is the
  operation's.\<close>

lemma replay_mutate_quiet:
  assumes "rw_faults w = []" and "rw_views w = replicate 7 (Inr v) @ rest"
    and "validate_filesystem g v = Inr ()" and "validate_bound_file g v = Inr ()"
    and "configure_existing (rw_db w) = Inr ()" and "sample_clock clock = Inr now"
    and "run_transaction operation now (rw_db w) = Inr db"
  shows "fst (replay_mutate g operation clock w) = Inr ()" and "rw_db (snd (replay_mutate g operation clock w)) = db"
    and "rw_views (snd (replay_mutate g operation clock w)) = rest" and "rw_faults (snd (replay_mutate g operation clock w)) = []"
proof -
  have v: "rw_views w = Inr v # Inr v # Inr v # Inr v # Inr v # Inr v # Inr v # rest"
    using assms(2) by (simp add: numeral_eq_Suc)
  have "fst (replay_mutate g operation clock w) = Inr () \<and> rw_db (snd (replay_mutate g operation clock w)) = db \<and>
      rw_views (snd (replay_mutate g operation clock w)) = rest \<and> rw_faults (snd (replay_mutate g operation clock w)) = []"
    by (simp add: replay_mutate_def assms(1,3-) v mutate_body_def mutate_finally_def act_bind_def rcall_def look_def
        when_open_def attempt_def act_catch_def)
  then show "fst (replay_mutate g operation clock w) = Inr ()" "rw_db (snd (replay_mutate g operation clock w)) = db"
    "rw_views (snd (replay_mutate g operation clock w)) = rest" "rw_faults (snd (replay_mutate g operation clock w)) = []"
    by simp_all
qed

lemma run_transaction_step:
  assumes "validate_open_store True db = Inr ()" and "last_seen db - now \<le> MAX_CLOCK_SKEW_SECONDS"
  shows "run_transaction operation now db = operation (max now (last_seen db)) (with_seen (max now (last_seen db)) db)"
proof -
  obtain seen where m: "db_metadata db = [(1, USER_VERSION, seen)]" "0 \<le> seen" "seen \<le> SQLITE_INTEGER_MAX"
    using validate_open_store_metadata [OF assms(1)] by blast
  have "replay_integer False (PInt seen) = Inr seen" using m by (simp add: replay_integer_Inr)
  with assms m show ?thesis
    by (simp add: run_transaction_def advance_clock_def last_seen_def with_seen_def Let_def)
qed

lemma consume_quiet:
  assumes "rw_faults w = []" and "rw_views w = replicate 7 (Inr v) @ rest"
    and "validate_filesystem g v = Inr ()" and "validate_bound_file g v = Inr ()"
    and "configure_existing (rw_db w) = Inr ()" and "validate_open_store True (rw_db w) = Inr ()"
    and "replay_binding (cc_jti c) (Some (cc_expires_at c)) (cc_request_hash c) (cc_run_id c) (cc_run_attempt c) = Inr b"
    and "bi_retain_until b = Some t" and "sample_clock (cc_clock c) = Inr now"
    and "last_seen (rw_db w) - now \<le> MAX_CLOCK_SKEW_SECONDS" and "max now (last_seen (rw_db w)) \<le> t"
    and "int (length (purged (max now (last_seen (rw_db w))) (db_rows (rw_db w)))) < sg_maximum_entries g"
    and "\<not> list_ex (conflicts b) (purged (max now (last_seen (rw_db w))) (db_rows (rw_db w)))"
  shows "fst (sqlite_consume g c w) = Inr () \<and>
    rw_db (snd (sqlite_consume g c w)) = (with_seen (max now (last_seen (rw_db w))) (rw_db w))
      \<lparr>db_rows := purged (max now (last_seen (rw_db w))) (db_rows (rw_db w)) @ [row_of b t]\<rparr> \<and>
    rw_views (snd (sqlite_consume g c w)) = rest \<and> rw_faults (snd (sqlite_consume g c w)) = []"
proof -
  let ?op = "consume_operation (sg_maximum_entries g) b"
  have b: "wf_binding b" using assms(7) by (simp add: replay_binding_Inr)
  have "run_transaction ?op now (rw_db w) = Inr ((with_seen (max now (last_seen (rw_db w))) (rw_db w))
      \<lparr>db_rows := purged (max now (last_seen (rw_db w))) (db_rows (rw_db w)) @ [row_of b t]\<rparr>)"
    using assms(11-13)
    by (simp add: run_transaction_step [OF assms(6,10)] consume_operation_wf [OF b assms(8)] Let_def not_le not_less)
  from replay_mutate_quiet [OF assms(1-5,9) this] assms(7) show ?thesis by (simp add: sqlite_consume_def)
qed

section \<open>Properties\<close>

text \<open>
  C4: A token is spent once and for all.  After \<open>consume\<close> returned for a token with a given
  expiry, no later \<open>consume\<close> of that token with that expiry, or an earlier one, ever returns,
  whatever operations run in between, whatever clocks they read and whichever calls fail:
  while the row is there it conflicts, and once it was purged the stored clock is past it.
\<close>

theorem sqlite_consumed_once_ever:
  assumes "sqlite_consume g c w = (Inr (), w1)" and "cc_jti c = PStr j" and "cc_expires_at c = PInt x"
    and "cc_jti d = PStr j" and "cc_expires_at d = PInt y" and "y \<le> x"
  shows "fst (sqlite_consume g' d (run_ops (replay_step g) ops w1)) \<noteq> Inr ()"
proof -
  have "spent (rw_db w1) j (x + MAX_CLOCK_SKEW_SECONDS)"
    using assms(1) by (cases rule: sqlite_consume_cases) (use assms(2,3) in \<open>auto simp: spent_def row_of_def\<close>)
  then have "spent (rw_db (run_ops (replay_step g) ops w1)) j (x + MAX_CLOCK_SKEW_SECONDS)"
    by (rule run_ops_invariant [where I = "\<lambda>w. spent (rw_db w) j (x + MAX_CLOCK_SKEW_SECONDS)"])
      (rule replay_step_spent)
  then show ?thesis by (rule spent_refused(1) [OF _ assms(4,5)]) (use assms(6) in simp)
qed

lemma sample_binding:
  "replay_binding (cc_jti sample_call) (Some (cc_expires_at sample_call)) (cc_request_hash sample_call)
     (cc_run_id sample_call) (cc_run_attempt sample_call) = Inr sample_bound"
  "replay_binding (cc_jti sample_call) None (cc_request_hash sample_call)
     (cc_run_id sample_call) (cc_run_attempt sample_call) = Inr (sample_bound\<lparr>bi_retain_until := None\<rparr>)"
proof -
  have j: "jti_ok ''token-1''" by code_simp
  have c: "is_lower_hex (CHR ''c'')" by code_simp
  show "replay_binding (cc_jti sample_call) (Some (cc_expires_at sample_call)) (cc_request_hash sample_call)
     (cc_run_id sample_call) (cc_run_attempt sample_call) = Inr sample_bound"
    unfolding replay_binding_Inr wf_binding_def
    by (simp add: sample_call_def sample_bound_def j c fullmatch_SHA256_RE MAX_CLOCK_SKEW_SECONDS_def
        SQLITE_INTEGER_MAX_def list_all_iff)
  show "replay_binding (cc_jti sample_call) None (cc_request_hash sample_call)
     (cc_run_id sample_call) (cc_run_attempt sample_call) = Inr (sample_bound\<lparr>bi_retain_until := None\<rparr>)"
    unfolding replay_binding_Inr wf_binding_def
    by (simp add: sample_call_def sample_bound_def j c fullmatch_SHA256_RE SQLITE_INTEGER_MAX_def list_all_iff)
qed

lemma sample_consume:
  "fst (sqlite_consume sample_sqlite sample_call sample_store) = Inr () \<and>
   rw_db (snd (sqlite_consume sample_sqlite sample_call sample_store)) =
     (with_seen 1010 sample_db)\<lparr>db_rows := [row_of sample_bound 1330]\<rparr>"
proof -
  have db: "rw_db sample_store = sample_db" "db_rows sample_db = []" "last_seen sample_db = 1000"
    by (simp_all add: sample_store_def sample_db_def last_seen_def)
  have "sample_clock (cc_clock sample_call) = Inr 1010"
    by (simp add: sample_clock_Inr sample_call_def SQLITE_INTEGER_MAX_def)
  moreover have "bi_retain_until sample_bound = Some 1330" "0 < sg_maximum_entries sample_sqlite"
    by (simp_all add: sample_bound_def sample_sqlite_def)
  moreover have "rw_faults sample_store = []" "rw_views sample_store = replicate 7 (Inr sample_view) @ []"
    by (simp_all add: sample_store_def)
  ultimately show ?thesis
    using consume_quiet [of sample_store sample_view "[]" sample_sqlite sample_call sample_bound 1330 1010]
      sample_view_valid sample_store_valid sample_binding(1)
    by (simp add: db purged_def MAX_CLOCK_SKEW_SECONDS_def)
qed

theorem sqlite_consumed_once_ever_witness:
  "fst (sqlite_consume sample_sqlite sample_call (snd (sqlite_consume sample_sqlite sample_call sample_store))) \<noteq> Inr ()"
proof -
  have "sqlite_consume sample_sqlite sample_call sample_store =
      (Inr (), snd (sqlite_consume sample_sqlite sample_call sample_store))"
    using sample_consume by (simp add: prod_eq_iff)
  from sqlite_consumed_once_ever [OF this, of "''token-1''" 1300 sample_call 1300 sample_sqlite "[]"] show ?thesis
    by (simp add: sample_call_def)
qed



text \<open>
  C36: The table stays within its bounds: whatever operations run and whichever calls fail, a table with
  one row per token and per workflow run, at most \<open>maximum_entries\<close> rows and every row within the
  \<open>CHECK\<close> clauses stays such a table.
\<close>

theorem sqlite_table_bounded:
  assumes "wf_rows (sg_maximum_entries g) (db_rows (rw_db w))"
  shows "wf_rows (sg_maximum_entries g) (db_rows (rw_db (run_ops (replay_step g) ops w)))"
  using assms
  by (rule run_ops_invariant [where I = "\<lambda>w. wf_rows (sg_maximum_entries g) (db_rows (rw_db w))"])
    (rule replay_step_wf)

theorem sqlite_table_bounded_witness:
  "wf_rows (sg_maximum_entries sample_sqlite)
     (db_rows (rw_db (run_ops (replay_step sample_sqlite) [Consume sample_call, Consume sample_call] sample_store)))"
  by (rule sqlite_table_bounded) (simp add: wf_rows_def sample_store_def sample_db_def sample_sqlite_def)

text \<open>
  C16: A token's execution begins at most once.  Take a well-formed table, a token that \<open>consume\<close> accepted
  with a given expiry, and a \<open>begin_execution\<close> that returned for it, any operations later.
  Then \<open>begin_execution\<close> never returns for that token again, whatever operations run in between,
  whatever clocks they read and whichever calls fail, attempts to consume the token again
  included, as long as none of those attempts claims an expiry after the one the token was
  consumed with (the expiry is a claim of the signed token).
\<close>

theorem sqlite_begins_once:
  assumes "wf_rows (sg_maximum_entries g) (db_rows (rw_db w))"
    and "sqlite_consume g c w = (Inr (), w1)" and "cc_jti c = PStr j" and "cc_expires_at c = PInt x"
    and "begin_execution g b (run_ops (replay_step g) ops w1) = (Inr (), w2)" and "cc_jti b = PStr j"
    and "\<forall>op \<in> set ops'. claims_by j x op" and "cc_jti d = PStr j"
  shows "fst (begin_execution g' d (run_ops (replay_step g) ops' w2)) \<noteq> Inr ()"
proof -
  let ?t = "x + MAX_CLOCK_SKEW_SECONDS" and ?u = "run_ops (replay_step g) ops w1"
  have w1: "w1 = snd (replay_step g (Consume c) w)" and w2: "w2 = snd (replay_step g (Begin b) ?u)"
    using assms(2,5) by simp_all
  have "spent (rw_db w1) j ?t"
    using assms(2) by (cases rule: sqlite_consume_cases) (use assms(3,4) in \<open>auto simp: spent_def row_of_def\<close>)
  then have "spent (rw_db ?u) j ?t"
    by (rule run_ops_invariant [where I = "\<lambda>w. spent (rw_db w) j ?t"]) (rule replay_step_spent)
  then have spent: "spent (rw_db w2) j ?t" unfolding w2 by (rule replay_step_spent)
  have "wf_rows (sg_maximum_entries g) (db_rows (rw_db w1))" unfolding w1 by (rule replay_step_wf [OF assms(1)])
  then have "wf_rows (sg_maximum_entries g) (db_rows (rw_db ?u))"
    by (rule run_ops_invariant [where I = "\<lambda>w. wf_rows (sg_maximum_entries g) (db_rows (rw_db w))"]) (rule replay_step_wf)
  then have "begun j (rw_db w2)" using begin_begins [OF assms(5,6)] by (simp add: wf_rows_def)
  with spent have "begun j (rw_db w2) \<and> spent (rw_db w2) j ?t" by blast
  then have "begun j (rw_db (run_ops (replay_step g) ops' w2)) \<and> spent (rw_db (run_ops (replay_step g) ops' w2)) j ?t"
    by (rule run_ops_invariant [where I = "\<lambda>w. begun j (rw_db w) \<and> spent (rw_db w) j ?t"])
      (use assms(7) in \<open>auto intro: replay_step_begun replay_step_spent\<close>)
  then show ?thesis using assms(8) begin_needs_waiting by blast
qed

definition sample_waiting_db :: replay_db where
  "sample_waiting_db = (with_seen 1010 sample_db)\<lparr>db_rows := [row_of sample_bound 1330]\<rparr>"

lemma sample_waiting_valid:
  "validate_open_store True sample_waiting_db = Inr ()" "configure_existing sample_waiting_db = Inr ()"
proof -
  have "validate_row (row_of sample_bound 1330) = Inr ()" by code_simp
  then show "validate_open_store True sample_waiting_db = Inr ()"
    using sample_store_valid(1)
    by (simp add: validate_open_store_def sample_waiting_db_def sample_db_def with_seen_def Let_def MAXIMUM_ENTRIES_def
        SQLITE_INTEGER_MAX_def)
  show "configure_existing sample_waiting_db = Inr ()"
    using sample_store_valid(2) by (simp add: configure_existing_def sample_waiting_db_def with_seen_def Let_def)
qed

lemma sample_begin:
  assumes "rw_db w = sample_waiting_db" and "rw_faults w = []" and "rw_views w = replicate 7 (Inr sample_view) @ []"
  shows "fst (begin_execution sample_sqlite sample_call w) = Inr ()"
proof -
  let ?b = "sample_bound\<lparr>bi_retain_until := None\<rparr>"
  have seen: "last_seen sample_waiting_db = 1010"
    by (simp add: sample_waiting_db_def sample_db_def with_seen_def last_seen_def)
  have "transition_operation ?b ''consumed'' ''executing'' 1010 (with_seen 1010 sample_waiting_db) =
      Inr ((with_seen 1010 sample_waiting_db)\<lparr>db_rows := [(row_of sample_bound 1330)\<lparr>ro_status := ''executing''\<rparr>]\<rparr>)"
    by (simp add: transition_operation_def sample_waiting_db_def with_seen_def sample_bound_def row_of_def
        transition_matches_def same_run_def)
  then have "run_transaction (transition_operation ?b ''consumed'' ''executing'') 1010 (rw_db w) =
      Inr ((with_seen 1010 sample_waiting_db)\<lparr>db_rows := [(row_of sample_bound 1330)\<lparr>ro_status := ''executing''\<rparr>]\<rparr>)"
    unfolding assms(1) by (simp add: run_transaction_step [OF sample_waiting_valid(1)] seen MAX_CLOCK_SKEW_SECONDS_def)
  moreover have "sample_clock (cc_clock sample_call) = Inr 1010"
    by (simp add: sample_clock_Inr sample_call_def SQLITE_INTEGER_MAX_def)
  moreover have "configure_existing (rw_db w) = Inr ()" using sample_waiting_valid(2) assms(1) by simp
  ultimately show ?thesis
    using replay_mutate_quiet(1) [OF assms(2,3) sample_view_valid] sample_binding(2)
    by (simp add: begin_execution_def sqlite_transition_def)
qed

text \<open>A store whose directory answers for two calls.\<close>

definition sample_lifetime :: replay_world where
  "sample_lifetime = sample_store\<lparr>rw_views := replicate 14 (Inr sample_view)\<rparr>"

lemma sample_lifetime_consume:
  "fst (sqlite_consume sample_sqlite sample_call sample_lifetime) = Inr () \<and>
   rw_db (snd (sqlite_consume sample_sqlite sample_call sample_lifetime)) = sample_waiting_db \<and>
   rw_views (snd (sqlite_consume sample_sqlite sample_call sample_lifetime)) = replicate 7 (Inr sample_view) \<and>
   rw_faults (snd (sqlite_consume sample_sqlite sample_call sample_lifetime)) = []"
proof -
  have db: "rw_db sample_lifetime = sample_db" "db_rows sample_db = []" "last_seen sample_db = 1000"
    by (simp_all add: sample_lifetime_def sample_store_def sample_db_def last_seen_def)
  have "replicate 14 (Inr sample_view) = replicate 7 (Inr sample_view) @ replicate 7 (Inr sample_view)"
    by (simp add: replicate_add [symmetric])
  then have "rw_faults sample_lifetime = []"
      "rw_views sample_lifetime = replicate 7 (Inr sample_view) @ replicate 7 (Inr sample_view)"
    by (simp_all add: sample_lifetime_def sample_store_def)
  moreover have "sample_clock (cc_clock sample_call) = Inr 1010"
    by (simp add: sample_clock_Inr sample_call_def SQLITE_INTEGER_MAX_def)
  moreover have "bi_retain_until sample_bound = Some 1330" "0 < sg_maximum_entries sample_sqlite"
    by (simp_all add: sample_bound_def sample_sqlite_def)
  ultimately show ?thesis
    using consume_quiet [of sample_lifetime sample_view "replicate 7 (Inr sample_view)" sample_sqlite sample_call sample_bound 1330 1010]
      sample_view_valid sample_store_valid sample_binding(1)
    by (simp add: db purged_def MAX_CLOCK_SKEW_SECONDS_def sample_waiting_db_def)
qed

text \<open>The token is consumed and begun; a replayed \<open>consume\<close> does not let it begin again.\<close>

theorem sqlite_begins_once_witness:
  "let w1 = snd (sqlite_consume sample_sqlite sample_call sample_lifetime);
       w2 = snd (begin_execution sample_sqlite sample_call w1) in
   fst (sqlite_consume sample_sqlite sample_call sample_lifetime) = Inr () \<and>
   fst (begin_execution sample_sqlite sample_call w1) = Inr () \<and>
   fst (begin_execution sample_sqlite sample_call (run_ops (replay_step sample_sqlite) [Consume sample_call] w2)) \<noteq> Inr ()"
proof -
  let ?w1 = "snd (sqlite_consume sample_sqlite sample_call sample_lifetime)"
  let ?w2 = "snd (begin_execution sample_sqlite sample_call ?w1)"
  have c: "sqlite_consume sample_sqlite sample_call sample_lifetime = (Inr (), ?w1)"
    using sample_lifetime_consume by (simp add: prod_eq_iff)
  have f: "fst (begin_execution sample_sqlite sample_call ?w1) = Inr ()"
    by (rule sample_begin) (simp_all add: sample_lifetime_consume)
  then have b: "begin_execution sample_sqlite sample_call (run_ops (replay_step sample_sqlite) [] ?w1) = (Inr (), ?w2)"
    by (simp add: prod_eq_iff)
  have wf: "wf_rows (sg_maximum_entries sample_sqlite) (db_rows (rw_db sample_lifetime))"
    by (simp add: wf_rows_def sample_lifetime_def sample_store_def sample_db_def sample_sqlite_def)
  have j: "cc_jti sample_call = PStr ''token-1''" "cc_expires_at sample_call = PInt 1300" by (simp_all add: sample_call_def)
  from sqlite_begins_once [OF wf c j b j(1), of "[Consume sample_call]" sample_call sample_sqlite] f j sample_lifetime_consume
  show ?thesis by (simp add: Let_def claims_by_def)
qed

text \<open>
  The SQL \<open>CHECK\<close> clause on the token column and the Python validator \<open>validate_jti\<close> accept the
  same identifiers, so that a validated token is never refused by the table and no row of the table
  fails validation when the store is opened again.
\<close>

theorem sql_check_matches_validator: "sql_jti_check s \<longleftrightarrow> validate_jti (PStr s) = Inr s"
  by (simp add: sql_jti_check_iff validate_jti_Inr)

text \<open>
  C17: The SQLite guard keeps the contract of the in-memory guard: after a token was consumed, no
  operation consumes it again while the clocks read have not passed its expiry plus skew,
  whatever expiry the later calls claim and whatever operations run in between.
\<close>

theorem sqlite_guard_contract:
  assumes "sqlite_consume g c w = (Inr (), w1)" and "cc_jti c = PStr j" and "cc_jti d = PStr j"
    and "cc_expires_at c = PInt x"
    and "\<forall>op \<in> set (ops @ [Consume d]). \<forall>now. cc_clock (op_call op) = Inr (PInt now) \<longrightarrow> now \<le> x + MAX_CLOCK_SKEW_SECONDS"
  shows "fst (sqlite_consume g d (run_ops (replay_step g) ops w1)) \<noteq> Inr ()"
proof -
  have "fst (replay_step g (Consume d) (run_ops (replay_step g) ops w1)) \<noteq> Inr ()"
  proof (rule sqlite.consumed_once [where c = "Consume c" and j = j])
    show "replay_step g (Consume c) w = (Inr (), w1)" using assms(1) by simp
    show "op_jti (Consume c) = Some j" "op_jti (Consume d) = Some j"
      using assms(2,3) by (simp_all add: op_jti_def call_jti_def opt_of_def)
    show "call_reads_by (op_call e) (call_until (op_call (Consume c)))" if "e \<in> set (ops @ [Consume d])" for e
      using assms(4,5) that by (auto simp: call_reads_by_def call_until_def split: sum.splits pyval.splits)
  qed
  then show ?thesis by simp
qed

theorem sqlite_guard_contract_witness:
  "fst (sqlite_consume sample_sqlite (sample_call\<lparr>cc_expires_at := PInt 1310\<rparr>)
     (snd (sqlite_consume sample_sqlite sample_call sample_store))) \<noteq> Inr ()"
proof -
  have "sqlite_consume sample_sqlite sample_call sample_store =
      (Inr (), snd (sqlite_consume sample_sqlite sample_call sample_store))"
    using sample_consume by (simp add: prod_eq_iff)
  from sqlite_guard_contract [OF this, of "''token-1''" "sample_call\<lparr>cc_expires_at := PInt 1310\<rparr>" 1300 "[]"] show ?thesis
    by (simp add: sample_call_def MAX_CLOCK_SKEW_SECONDS_def)
qed

end
