(* ===== verification/Steps.thy ===== *)
theory Steps
  imports Prelude
begin

text \<open>
  Actions that lead from a world to one above it in a preorder of worlds, such as \<open>the record of calls grew\<close> or
  \<open>these fields were kept\<close>.  The locale \<open>step_order\<close> carries such a preorder through the combinators once for all.
\<close>

section \<open>Steps that respect a preorder of worlds\<close>

text \<open>\<open>moves R m\<close>: whatever \<open>m\<close> returns or raises, it leads from a world to one above it.\<close>

definition moves :: "('w \<Rightarrow> 'w \<Rightarrow> bool) \<Rightarrow> ('w, 'a) act \<Rightarrow> bool" where
  "moves R m \<longleftrightarrow> (\<forall>w. R w (snd (m w)))"

lemma movesI: "(\<And>w r w'. m w = (r, w') \<Longrightarrow> R w w') \<Longrightarrow> moves R m"
  unfolding moves_def by (metis prod.collapse)

lemma movesD: "moves R m \<Longrightarrow> m w = (r, w') \<Longrightarrow> R w w'"
  unfolding moves_def by (metis snd_conv)

text \<open>\<open>fails R m\<close>: when \<open>m\<close> raises, it leads to a world above.\<close>

definition fails :: "('w \<Rightarrow> 'w \<Rightarrow> bool) \<Rightarrow> ('w, 'a) act \<Rightarrow> bool" where
  "fails R m \<longleftrightarrow> (\<forall>w e w'. m w = (Inl e, w') \<longrightarrow> R w w')"

lemma failsD: "fails R m \<Longrightarrow> m w = (Inl e, w') \<Longrightarrow> R w w'"
  by (simp add: fails_def)

lemma fails_before_total:
  assumes "fails R m" and "\<And>x w. \<exists>y w'. f x w = (Inr y, w')"
  shows "fails R (act_bind m f)"
  using assms unfolding fails_def act_bind_Inl_iff by (metis Inl_Inr_False prod.inject)

locale step_order =
  fixes R :: "'w \<Rightarrow> 'w \<Rightarrow> bool"
  assumes refl: "R w w" and trans: "R u v \<Longrightarrow> R v w \<Longrightarrow> R u w"
begin

lemma bind: "moves R m \<Longrightarrow> (\<And>x. moves R (f x)) \<Longrightarrow> moves R (act_bind m f)"
  unfolding moves_def act_bind_def by (auto split: prod.splits sum.splits) (metis snd_conv trans)+

lemma catch: "moves R m \<Longrightarrow> (\<And>e. moves R (h e)) \<Longrightarrow> moves R (act_catch m h)"
  unfolding moves_def act_catch_def by (auto split: prod.splits sum.splits) (metis snd_conv trans)+

lemma lift: "moves R (act_lift r)"
  by (simp add: moves_def refl)

lemma bind_lift: "(\<And>x. r = Inr x \<Longrightarrow> moves R (f x)) \<Longrightarrow> moves R (act_bind (act_lift r) f)"
  by (cases r) (simp_all add: moves_def act_bind_def refl)

text \<open>A run that leaves the preorder passes every step that stays in it.\<close>

lemma bind_far:
  assumes "act_bind m f w = (res, w')" and "moves R m" and "\<not> R w w'"
  obtains x w1 where "m w = (Inr x, w1)" "f x w1 = (res, w')" "R w w1" "\<not> R w1 w'"
proof (cases "m w")
  case (Pair r w1)
  then have "R w w1" by (rule movesD [OF assms(2)])
  with Pair assms show thesis
    by (cases r) (auto simp: act_bind_def intro: that dest: trans)
qed

lemma choose: "(b \<Longrightarrow> moves R m) \<Longrightarrow> (\<not> b \<Longrightarrow> moves R n) \<Longrightarrow> moves R (if b then m else n)"
  by simp

lemma choose_on: "moves R m \<Longrightarrow> moves R n \<Longrightarrow> moves R (\<lambda>w. if b w then m w else n w)"
  by (simp add: moves_def)

lemma fails_bind: "moves R m \<Longrightarrow> (\<And>x. fails R (f x)) \<Longrightarrow> fails R (act_bind m f)"
  unfolding fails_def act_bind_Inl_iff by (meson movesD trans)

lemma fails_bind_lift: "(\<And>x. r = Inr x \<Longrightarrow> fails R (f x)) \<Longrightarrow> fails R (act_bind (act_lift r) f)"
  by (cases r) (simp_all add: fails_def act_bind_def refl)

lemma ignore: "moves R m \<Longrightarrow> R w (act_ignore m w)"
  by (simp add: moves_def act_ignore_def)

lemma fail: "moves R (\<lambda>w. (Inl e, w))" and ret: "moves R (\<lambda>w. (Inr x, w))"
  by (simp_all add: moves_def refl)

lemmas combinators = bind_lift bind catch lift choose choose_on fail ret

end

end
