(* ===== verification/Credential.thy ===== *)
theory Credential
  imports Execution
begin

text \<open>
  \<open>src/deployment/private_registry_fd.py\<close>: the sealed memory file that carries a registry
  read credential from the broker to the executor.  A descriptor names a memory file with its
  bytes, whether it is regular, its link count and whether all four seals are set.  Every
  system call may raise an exception of a schedule, a write may be short, and the clock is a
  sequence of readings.
\<close>

section \<open>Constants\<close>

definition OCI_PREFIX :: string where
  "OCI_PREFIX = ''oci-dev.omnilyzer.ai/omnilyzer/task013-release-canary@sha256:''"

definition ANALYTICS_IMAGE :: string where
  "ANALYTICS_IMAGE = ''oci-dev.omnilyzer.ai/omnilyzer/analytics@sha256:'' @
     ''6dbdc6319218b19257311d2885e9f697a75fc6066b4eef34068cc8ae6a51c1f1''"

definition OCI_HOST :: string where "OCI_HOST = ''oci-dev.omnilyzer.ai''"
definition MAX_TOKEN_BYTES :: nat where "MAX_TOKEN_BYTES = 8192"
definition MAX_ENVELOPE_BYTES :: nat where "MAX_ENVELOPE_BYTES = 9216"
definition MAX_LIFETIME_SECONDS :: int where "MAX_LIFETIME_SECONDS = 300"
definition MIN_LIFETIME_SECONDS :: int where "MIN_LIFETIME_SECONDS = 1"
definition MAX_REQUEST_BYTES :: nat where "MAX_REQUEST_BYTES = 65536"

section \<open>Credentials\<close>

record scoped_credential =
  sc_token :: string
  sc_expires_at :: int
  sc_image :: string
  sc_request_sha256 :: string

definition token_char :: "char \<Rightarrow> bool" where
  "token_char c \<longleftrightarrow> 33 \<le> (of_char c :: nat) \<and> (of_char c :: nat) \<le> 126"

definition image_in_scope :: "string \<Rightarrow> string \<Rightarrow> bool" where
  "image_in_scope product_id img \<longleftrightarrow>
     (product_id = ''canary'' \<and> starts_with OCI_PREFIX img \<and> fullmatch SHA256_RE (drop (length OCI_PREFIX) img)) \<or>
     (product_id = ''analytics'' \<and> img = ANALYTICS_IMAGE)"

definition normalize_credential ::
    "pyval \<Rightarrow> pyval \<Rightarrow> pyval \<Rightarrow> pyval \<Rightarrow> pyval \<Rightarrow> string \<Rightarrow> scoped_credential result" where
  "normalize_credential token expires_at img request_sha256 now product_id =
     (case (token, expires_at, img, request_sha256, now) of
        (PStr t, PInt x, PStr i, PStr h, PInt n) \<Rightarrow>
          if \<not> image_in_scope product_id i \<or> \<not> (1 \<le> length t \<and> length t \<le> MAX_TOKEN_BYTES) \<or>
             \<not> list_all token_char t \<or> \<not> (MIN_LIFETIME_SECONDS \<le> x - n \<and> x - n \<le> MAX_LIFETIME_SECONDS) \<or>
             \<not> fullmatch SHA256_RE h
          then Inl PrivateRegistryTransferError
          else Inr \<lparr>sc_token = t, sc_expires_at = x, sc_image = i, sc_request_sha256 = h\<rparr>
      | _ \<Rightarrow> Inl PrivateRegistryTransferError)"

definition envelope_dict :: "scoped_credential \<Rightarrow> pyval" where
  "envelope_dict c = PDict
     [(''expires_at'', PInt (sc_expires_at c)), (''host'', PStr OCI_HOST), (''image'', PStr (sc_image c)),
      (''request_sha256'', PStr (sc_request_sha256 c)), (''schema_version'', PInt 1), (''token'', PStr (sc_token c))]"

text \<open>\<open>json.dumps\<close> raises on an integer of more than 4300 digits.\<close>

definition envelope :: "scoped_credential \<Rightarrow> string result" where
  "envelope c =
     (if \<not> int_fits (sc_expires_at c) then Inl ValueError else Inr (json_dumps (envelope_dict c) @ [NEWLINE]))"

section \<open>Descriptors\<close>

record memfd =
  mf_bytes :: string
  mf_regular :: bool
  mf_nlink :: nat
  mf_sealed :: bool

record fd_world =
  fw_files :: "(int \<times> memfd) list"
  fw_next :: int
  fw_faults :: "exn option list"
  fw_short_writes :: "nat list"
  fw_clock :: "nat \<Rightarrow> int"
  fw_ticks :: nat

text \<open>A system call: the next scheduled exception, or the effect and its value.\<close>

definition fcall :: "('a fd_world_scheme \<Rightarrow> 'b result \<times> 'a fd_world_scheme) \<Rightarrow> ('a fd_world_scheme, 'b) act" where
  "fcall f w =
     (case fw_faults w of
        [] \<Rightarrow> f w
      | flt # rest \<Rightarrow>
          (case flt of Some e \<Rightarrow> (Inl e, w\<lparr>fw_faults := rest\<rparr>) | None \<Rightarrow> f (w\<lparr>fw_faults := rest\<rparr>)))"

definition file_of :: "'a fd_world_scheme \<Rightarrow> int \<Rightarrow> memfd option" where
  "file_of w fd = map_of (fw_files w) fd"

definition set_file :: "int \<Rightarrow> memfd \<Rightarrow> 'a fd_world_scheme \<Rightarrow> 'a fd_world_scheme" where
  "set_file fd m w = w\<lparr>fw_files := map (\<lambda>(k, v). if k = fd then (k, m) else (k, v)) (fw_files w)\<rparr>"

definition close_file :: "int \<Rightarrow> 'a fd_world_scheme \<Rightarrow> 'a fd_world_scheme" where
  "close_file fd w = w\<lparr>fw_files := filter (\<lambda>(k, v). k \<noteq> fd) (fw_files w)\<rparr>"

definition memfd_create :: "('a fd_world_scheme, int) act" where
  "memfd_create = fcall (\<lambda>w. (Inr (fw_next w),
     w\<lparr>fw_files := (fw_next w, \<lparr>mf_bytes = [], mf_regular = True, mf_nlink = 0, mf_sealed = False\<rparr>) # fw_files w,
       fw_next := fw_next w + 1\<rparr>))"

text \<open>\<open>os.write\<close>: the bytes that fit are appended, their number is returned.\<close>

definition fd_write :: "int \<Rightarrow> string \<Rightarrow> ('a fd_world_scheme, nat) act" where
  "fd_write fd raw = fcall (\<lambda>w.
     case file_of w fd of
       None \<Rightarrow> (Inl OSError, w)
     | Some m \<Rightarrow>
         (let n = (case fw_short_writes w of [] \<Rightarrow> length raw | k # _ \<Rightarrow> min k (length raw)) in
          (Inr n, set_file fd (m\<lparr>mf_bytes := mf_bytes m @ take n raw\<rparr>) (w\<lparr>fw_short_writes := tl (fw_short_writes w)\<rparr>))))"

definition add_seals :: "int \<Rightarrow> ('a fd_world_scheme, unit) act" where
  "add_seals fd = fcall (\<lambda>w.
     case file_of w fd of None \<Rightarrow> (Inl OSError, w) | Some m \<Rightarrow> (Inr (), set_file fd (m\<lparr>mf_sealed := True\<rparr>) w))"

definition fd_stat :: "int \<Rightarrow> ('a fd_world_scheme, memfd) act" where
  "fd_stat fd = fcall (\<lambda>w. (case file_of w fd of None \<Rightarrow> Inl OSError | Some m \<Rightarrow> Inr m, w))"

definition fd_close :: "int \<Rightarrow> ('a fd_world_scheme, unit) act" where
  "fd_close fd = fcall (\<lambda>w. case file_of w fd of None \<Rightarrow> (Inl OSError, w) | Some _ \<Rightarrow> (Inr (), close_file fd w))"

text \<open>\<open>int(time.time())\<close>\<close>

definition time_now :: "('a fd_world_scheme, int) act" where
  "time_now w = (Inr (fw_clock w (fw_ticks w)), w\<lparr>fw_ticks := fw_ticks w + 1\<rparr>)"

definition current_time :: "int option \<Rightarrow> ('a fd_world_scheme, int) act" where
  "current_time now = (case now of None \<Rightarrow> time_now | Some n \<Rightarrow> act_lift (Inr n))"

section \<open>Sealing and reading\<close>

text \<open>The body of the \<open>try\<close> after the file was made, and the handler, which closes it.\<close>

definition seal_file :: "int \<Rightarrow> string \<Rightarrow> ('a fd_world_scheme, int) act" where
  "seal_file fd raw =
     act_bind (fd_write fd raw) (\<lambda>n.
     if n \<noteq> length raw then act_lift (Inl OSError)
     else
     act_bind (add_seals fd) (\<lambda>_.
     act_bind (fd_stat fd) (\<lambda>m.
     if \<not> mf_sealed m then act_lift (Inl OSError) else act_lift (Inr fd))))"

definition create_sealed_credential ::
    "pyval \<Rightarrow> pyval \<Rightarrow> pyval \<Rightarrow> string \<Rightarrow> int option \<Rightarrow> string \<Rightarrow> ('a fd_world_scheme, int) act" where
  "create_sealed_credential token expires_at img canonical_request now product_id =
     (if canonical_request = [] \<or> MAX_REQUEST_BYTES < length canonical_request
      then act_lift (Inl PrivateRegistryTransferError)
      else
      act_bind (current_time now) (\<lambda>current.
      act_bind (act_lift (normalize_credential token expires_at img (PStr (sha256_hex canonical_request)) (PInt current)
        product_id)) (\<lambda>credential.
      act_bind (act_lift (envelope credential)) (\<lambda>raw.
      if MAX_ENVELOPE_BYTES < length raw then act_lift (Inl PrivateRegistryTransferError)
      else
      act_bind (act_catch memfd_create
        (\<lambda>e. act_lift (Inl (if is_Exception e then PrivateRegistryTransferError else e)))) (\<lambda>fd.
      act_catch (seal_file fd raw) (\<lambda>e.
        if is_Exception e then act_bind (fd_close fd) (\<lambda>_. act_lift (Inl PrivateRegistryTransferError))
        else act_lift (Inl e)))))))"

definition envelope_hooks :: json_hooks where
  "envelope_hooks = \<lparr>pairs_hook = unique_pairs ValueError, constant_hook = float_constant\<rparr>"

definition ENVELOPE_FIELDS :: "string list" where
  "ENVELOPE_FIELDS = [''expires_at'', ''host'', ''image'', ''request_sha256'', ''schema_version'', ''token'']"

definition parse_envelope :: "string \<Rightarrow> pydict result" where
  "parse_envelope raw =
     bnd (json_loads_bytes envelope_hooks raw) (\<lambda>v.
     case v of
       PDict d \<Rightarrow>
         if set (keys d) \<noteq> set ENVELOPE_FIELDS \<or> getv d ''schema_version'' \<noteq> PInt 1 \<or> getv d ''host'' \<noteq> PStr OCI_HOST
         then Inl ValueError else Inr d
     | _ \<Rightarrow> Inl ValueError)"

definition read_sealed_credential ::
    "int \<Rightarrow> string \<Rightarrow> string \<Rightarrow> int option \<Rightarrow> string \<Rightarrow> ('a fd_world_scheme, scoped_credential) act" where
  "read_sealed_credential fd canonical_request img now product_id =
     act_catch
       (if fd < 0 \<or> canonical_request = [] \<or> MAX_REQUEST_BYTES < length canonical_request then act_lift (Inl ValueError)
        else
        act_bind (fd_stat fd) (\<lambda>info.
        if \<not> mf_regular info \<or> mf_bytes info = [] \<or> MAX_ENVELOPE_BYTES < length (mf_bytes info) \<or> mf_nlink info \<noteq> 0
        then act_lift (Inl ValueError)
        else
        act_bind (fd_stat fd) (\<lambda>seals.
        if \<not> mf_sealed seals then act_lift (Inl ValueError)
        else
        act_bind (fd_stat fd) (\<lambda>contents.
        let raw = take (length (mf_bytes info) + 1) (mf_bytes contents) in
        if length raw \<noteq> length (mf_bytes info) \<or> last raw \<noteq> NEWLINE then act_lift (Inl ValueError)
        else
        act_bind (act_lift (parse_envelope raw)) (\<lambda>d.
        act_bind (current_time now) (\<lambda>current.
        act_bind (act_lift (normalize_credential (getv d ''token'') (getv d ''expires_at'') (getv d ''image'')
          (getv d ''request_sha256'') (PInt current) product_id)) (\<lambda>credential.
        if sc_image credential \<noteq> img \<or> sc_request_sha256 credential \<noteq> sha256_hex canonical_request
        then act_lift (Inl ValueError)
        else
        act_bind (act_lift (envelope credential)) (\<lambda>again.
        if again \<noteq> raw then act_lift (Inl ValueError) else act_lift (Inr credential)))))))))
       (\<lambda>e. act_lift (Inl (if is_Exception e then PrivateRegistryTransferError else e)))"

section \<open>One descriptor with the frame header\<close>

text \<open>
  What \<open>recvmsg\<close> delivers: the bytes, the control messages in order, each with whether it is
  \<open>SCM_RIGHTS\<close> at socket level with whole descriptors and the descriptors it installed, and
  whether data or control data was truncated.
\<close>

record received_message =
  rm_message :: string
  rm_ancillaries :: "(bool \<times> int list) list"
  rm_truncated :: bool

fun collect_rights :: "(bool \<times> int list) list \<Rightarrow> int list \<Rightarrow> int list \<times> unit result" where
  "collect_rights [] received = (received, Inr ())"
| "collect_rights ((ok, fds) # rest) received =
     (if \<not> ok then (received, Inl ValueError) else collect_rights rest (received @ fds))"

text \<open>The \<open>finally\<close> clause: every descriptor still in the list is closed, an \<open>OSError\<close> ignored.\<close>

fun close_all :: "int list \<Rightarrow> ('a fd_world_scheme, unit) act" where
  "close_all [] = act_lift (Inr ())"
| "close_all (fd # fds) =
     act_bind (act_catch (fd_close fd) (\<lambda>e. act_lift (if caught e [OSError] then Inr () else Inl e))) (\<lambda>_. close_all fds)"

definition receive_sealed_header :: "received_message result \<Rightarrow> ('a fd_world_scheme, string \<times> int) act" where
  "receive_sealed_header recvmsg =
     (let (received, r) =
        (case recvmsg of
           Inl e \<Rightarrow> ([], Inl e)
         | Inr m \<Rightarrow>
             (case collect_rights (rm_ancillaries m) [] of
                (received, Inl e) \<Rightarrow> (received, Inl e)
              | (received, Inr _) \<Rightarrow>
                  if length (rm_message m) \<noteq> 4 \<or> length received \<noteq> 1 \<or> rm_truncated m then (received, Inl ValueError)
                  else (butlast received, Inr (rm_message m, last received)))) in
      act_bind (close_all received) (\<lambda>_.
        act_lift (case r of Inl e \<Rightarrow> Inl (if is_Exception e then PrivateRegistryTransferError else e) | Inr x \<Rightarrow> Inr x)))"

definition send_sealed_header :: "string \<Rightarrow> int \<Rightarrow> nat result \<Rightarrow> unit result" where
  "send_sealed_header header fd sent =
     (if length header \<noteq> 4 \<or> fd < 0 then Inl PrivateRegistryTransferError
      else case sent of
        Inl e \<Rightarrow> Inl (if is_Exception e then PrivateRegistryTransferError else e)
      | Inr n \<Rightarrow> if n \<noteq> 4 then Inl PrivateRegistryTransferError else Inr ())"

section \<open>What is accepted\<close>

definition wf_credential :: "string \<Rightarrow> scoped_credential \<Rightarrow> bool" where
  "wf_credential product_id c \<longleftrightarrow>
     image_in_scope product_id (sc_image c) \<and> 1 \<le> length (sc_token c) \<and> length (sc_token c) \<le> MAX_TOKEN_BYTES \<and>
     list_all token_char (sc_token c) \<and> fullmatch SHA256_RE (sc_request_sha256 c)"

lemma normalize_credential_Inr [py_simps]:
  "normalize_credential token x i h now product_id = Inr c \<longleftrightarrow>
     wf_credential product_id c \<and> token = PStr (sc_token c) \<and> x = PInt (sc_expires_at c) \<and> i = PStr (sc_image c) \<and>
     h = PStr (sc_request_sha256 c) \<and>
     (\<exists>n. now = PInt n \<and> n + MIN_LIFETIME_SECONDS \<le> sc_expires_at c \<and> sc_expires_at c \<le> n + MAX_LIFETIME_SECONDS)"
  by (cases c) (auto simp: normalize_credential_def wf_credential_def split: pyval.splits)

lemma envelope_Inr: "envelope c = Inr raw \<longleftrightarrow> int_fits (sc_expires_at c) \<and> raw = canonical_bytes (envelope_dict c)"
  by (auto simp: envelope_def canonical_bytes_def)

lemma plain_envelope: "int_fits (sc_expires_at c) \<Longrightarrow> plain (envelope_dict c)"
  by (simp add: envelope_dict_def int_fits_64)

lemma envelope_hooks_keep [simp]: "keeps_pairs envelope_hooks"
  by (simp add: envelope_hooks_def)

text \<open>The parser reads back what the broker wrote.\<close>

lemma canon_envelope: "canon (envelope_dict c) = envelope_dict c"
  by (simp add: envelope_dict_def)

lemma parse_envelope_envelope:
  assumes "envelope c = Inr raw"
  obtains d where "parse_envelope raw = Inr d" "getv d ''token'' = PStr (sc_token c)"
    "getv d ''expires_at'' = PInt (sc_expires_at c)" "getv d ''image'' = PStr (sc_image c)"
    "getv d ''request_sha256'' = PStr (sc_request_sha256 c)"
proof -
  obtain d where d: "envelope_dict c = PDict d" by (simp add: envelope_dict_def)
  have "json_loads_bytes envelope_hooks raw = Inr (envelope_dict c)"
    using assms canonical_loads_bytes [OF envelope_hooks_keep plain_envelope, of c]
    by (simp add: envelope_Inr canon_envelope)
  then have "json_loads_bytes envelope_hooks raw = Inr (PDict d)" by (simp only: d)
  moreover have "set (keys d) = set ENVELOPE_FIELDS" "getv d ''schema_version'' = PInt 1" "getv d ''host'' = PStr OCI_HOST"
    "getv d ''token'' = PStr (sc_token c)" "getv d ''expires_at'' = PInt (sc_expires_at c)"
    "getv d ''image'' = PStr (sc_image c)" "getv d ''request_sha256'' = PStr (sc_request_sha256 c)"
    using d by (auto simp: envelope_dict_def keys_def ENVELOPE_FIELDS_def getv_def)
  ultimately show thesis using that [of d] by (simp add: parse_envelope_def)
qed

section \<open>Runs of the calls\<close>

lemma fcall_run:
  assumes "fcall f w = (r, w')"
  obtains (fault) e fs where "r = Inl e" "w' = w\<lparr>fw_faults := fs\<rparr>"
  | (ran) fs where "f (w\<lparr>fw_faults := fs\<rparr>) = (r, w')"
proof (cases "fw_faults w")
  case Nil
  then have "w\<lparr>fw_faults := []\<rparr> = w" by (cases w) simp
  with Nil assms ran [of "[]"] show thesis by (simp add: fcall_def)
next
  case (Cons x xs)
  with assms fault ran [of xs] show thesis by (cases x) (auto simp: fcall_def)
qed

lemma file_of_simps [simp]:
  "file_of (w\<lparr>fw_faults := fs\<rparr>) = file_of w" "file_of (w\<lparr>fw_short_writes := ks\<rparr>) = file_of w"
  "file_of (w\<lparr>fw_ticks := k\<rparr>) = file_of w"
  by (simp_all add: file_of_def fun_eq_iff)

lemma file_of_set_file [simp]: "file_of w fd \<noteq> None \<Longrightarrow> file_of (set_file fd m w) fd = Some m"
proof -
  have "map_of xs fd \<noteq> None \<Longrightarrow> map_of (map (\<lambda>(k, v). if k = fd then (k, m) else (k, v)) xs) fd = Some m" for xs
    by (induction xs) (auto split: if_splits)
  then show "file_of w fd \<noteq> None \<Longrightarrow> ?thesis" by (simp add: file_of_def set_file_def)
qed

lemma current_time_run:
  "current_time now w = (r, w') \<Longrightarrow> \<exists>n k. r = Inr n \<and> w' = w\<lparr>fw_ticks := k\<rparr> \<and> (\<forall>t. now = Some t \<longrightarrow> n = t)"
  by (cases now) (auto simp: current_time_def time_now_def intro: exI [of _ "fw_ticks w"])

definition sealed_file :: "string \<Rightarrow> memfd" where
  "sealed_file raw = \<lparr>mf_bytes = raw, mf_regular = True, mf_nlink = 0, mf_sealed = True\<rparr>"

lemma act_bind_InrE:
  assumes "act_bind m f w = (Inr y, w')"
  obtains x w1 where "m w = (Inr x, w1)" "f x w1 = (Inr y, w')"
  using assms by (auto simp: act_bind_Inr_iff)

lemma seal_file_Inr:
  assumes "seal_file fd raw w = (Inr x, w')" and "file_of w fd = Some \<lparr>mf_bytes = [], mf_regular = True, mf_nlink = 0, mf_sealed = False\<rparr>"
  shows "x = fd \<and> file_of w' fd = Some (sealed_file raw)"
proof -
  obtain n w1 where 1: "fd_write fd raw w = (Inr n, w1)"
      "(if n \<noteq> length raw then act_lift (Inl OSError) else act_bind (add_seals fd) (\<lambda>_. act_bind (fd_stat fd) (\<lambda>m.
        if \<not> mf_sealed m then act_lift (Inl OSError) else act_lift (Inr fd)))) w1 = (Inr x, w')"
    using assms(1) unfolding seal_file_def by (rule act_bind_InrE)
  then have n: "n = length raw" by (simp split: if_splits)
  with 1(2) obtain u w2 where 2: "add_seals fd w1 = (Inr u, w2)"
      "act_bind (fd_stat fd) (\<lambda>m. if \<not> mf_sealed m then act_lift (Inl OSError) else act_lift (Inr fd)) w2 = (Inr x, w')"
    by (auto elim: act_bind_InrE)
  from 2(2) obtain m w3 where 3: "fd_stat fd w2 = (Inr m, w3)"
      "(if \<not> mf_sealed m then act_lift (Inl OSError) else act_lift (Inr fd)) w3 = (Inr x, w')"
    by (rule act_bind_InrE)
  then have x: "x = fd" "w3 = w'" by (simp_all split: if_splits)
  have "file_of w1 fd = Some ((sealed_file raw)\<lparr>mf_sealed := False\<rparr>)"
    using 1(1) unfolding fd_write_def
  proof (cases rule: fcall_run)
    case (ran fs)
    with assms(2) n show ?thesis by (auto simp: Let_def sealed_file_def)
  qed simp
  moreover from 2(1) have "file_of w1 fd = Some m0 \<Longrightarrow> file_of w2 fd = Some (m0\<lparr>mf_sealed := True\<rparr>)" for m0
    unfolding add_seals_def by (cases rule: fcall_run) auto
  ultimately have "file_of w2 fd = Some (sealed_file raw)" by (simp add: sealed_file_def)
  moreover from 3(1) have "file_of w3 = file_of w2"
    unfolding fd_stat_def by (cases rule: fcall_run) auto
  ultimately show ?thesis using x by simp
qed

lemma bind_raise_not_Inr [simp]: "act_bind m (\<lambda>_. act_lift (Inl e)) w \<noteq> (Inr x, w')"
  by (auto simp: act_bind_Inr_iff)

lemma create_sealed_credential_Inr:
  assumes "create_sealed_credential token x i req now p w = (Inr fd, w')"
  obtains c raw n where "normalize_credential token x i (PStr (sha256_hex req)) (PInt n) p = Inr c"
    "envelope c = Inr raw" "length raw \<le> MAX_ENVELOPE_BYTES" "req \<noteq> []" "length req \<le> MAX_REQUEST_BYTES"
    "fd = fw_next w" "file_of w' fd = Some (sealed_file raw)"
proof -
  obtain n w1 c raw fd' w2 where *: "req \<noteq> []" "length req \<le> MAX_REQUEST_BYTES"
      "current_time now w = (Inr n, w1)" "normalize_credential token x i (PStr (sha256_hex req)) (PInt n) p = Inr c"
      "envelope c = Inr raw" "length raw \<le> MAX_ENVELOPE_BYTES" "memfd_create w1 = (Inr fd', w2)"
      "seal_file fd' raw w2 = (Inr fd, w')"
    using assms
    unfolding create_sealed_credential_def
    by (simp split: if_splits, unfold act_bind_Inr_iff)
      (auto simp: act_catch_Inr_iff not_less act_bind_Inr_iff split: if_splits)
  have next_w1: "fw_next w1 = fw_next w" using current_time_run [OF *(3)] by auto
  from *(7) have "fd' = fw_next w1 \<and> file_of w2 fd' = Some \<lparr>mf_bytes = [], mf_regular = True, mf_nlink = 0, mf_sealed = False\<rparr>"
    unfolding memfd_create_def by (elim fcall_run) (auto simp: file_of_def)
  with seal_file_Inr [OF *(8)] next_w1 * that [of n c raw] show thesis by auto
qed

lemma fd_stat_quiet: "fw_faults w = [] \<Longrightarrow> file_of w fd = Some m \<Longrightarrow> fd_stat fd w = (Inr m, w)"
  by (simp add: fd_stat_def fcall_def)

lemma read_sealed_credential_quiet:
  assumes "fw_faults w = []" and "file_of w fd = Some (sealed_file raw)" and "0 \<le> fd"
    and "req \<noteq> []" and "length req \<le> MAX_REQUEST_BYTES" and "envelope c = Inr raw" and "length raw \<le> MAX_ENVELOPE_BYTES"
    and "wf_credential p c" and "sc_request_sha256 c = sha256_hex req"
    and "t + MIN_LIFETIME_SECONDS \<le> sc_expires_at c" and "sc_expires_at c \<le> t + MAX_LIFETIME_SECONDS"
  shows "read_sealed_credential fd req (sc_image c) (Some t) p w = (Inr c, w)"
proof -
  obtain d where d: "parse_envelope raw = Inr d" "getv d ''token'' = PStr (sc_token c)"
      "getv d ''expires_at'' = PInt (sc_expires_at c)" "getv d ''image'' = PStr (sc_image c)"
      "getv d ''request_sha256'' = PStr (sc_request_sha256 c)"
    using assms(6) by (rule parse_envelope_envelope)
  have n: "normalize_credential (getv d ''token'') (getv d ''expires_at'') (getv d ''image'') (getv d ''request_sha256'')
      (PInt t) p = Inr c"
    using assms(8,10,11) d by (simp add: normalize_credential_Inr)
  have raw: "raw \<noteq> []" "last raw = NEWLINE" using assms(6) by (auto simp: envelope_Inr canonical_bytes_def)
  have st: "fd_stat fd w = (Inr (sealed_file raw), w)" using assms(1,2) by (rule fd_stat_quiet)
  show ?thesis
    using assms(3-7,9) d(1) raw
    by (simp add: read_sealed_credential_def act_catch_def act_bind_def st sealed_file_def current_time_def n not_less Let_def)
qed

section \<open>Properties\<close>

text \<open>
  A sealed credential travels: when the broker's \<open>create_sealed_credential\<close> returned a
  descriptor, the executor that reads it for the same request and image, on an answering system and
  at any time that leaves between one second and five minutes of validity, gets exactly the token
  and expiry that were sealed.
\<close>

theorem sealed_credential_roundtrip:
  assumes "create_sealed_credential (PStr token) (PInt x) (PStr img) req now p w = (Inr fd, w')"
    and "0 \<le> fw_next w" and "fw_faults w' = []" and "1 \<le> x - t" and "x - t \<le> 300"
  shows "read_sealed_credential fd req img (Some t) p w' =
    (Inr \<lparr>sc_token = token, sc_expires_at = x, sc_image = img, sc_request_sha256 = sha256_hex req\<rparr>, w')"
  using assms(1)
proof (rule create_sealed_credential_Inr)
  fix c raw n
  assume *: "normalize_credential (PStr token) (PInt x) (PStr img) (PStr (sha256_hex req)) (PInt n) p = Inr c"
    "envelope c = Inr raw" "length raw \<le> MAX_ENVELOPE_BYTES" "req \<noteq> []" "length req \<le> MAX_REQUEST_BYTES"
    "fd = fw_next w" "file_of w' fd = Some (sealed_file raw)"
  then have c: "wf_credential p c" "sc_request_sha256 c = sha256_hex req" "sc_image c = img" "sc_token c = token"
      "sc_expires_at c = x"
    by (simp_all add: normalize_credential_Inr)
  have "read_sealed_credential fd req (sc_image c) (Some t) p w' = (Inr c, w')"
    using assms(2-5) * c
    by (intro read_sealed_credential_quiet) (simp_all add: MIN_LIFETIME_SECONDS_def MAX_LIFETIME_SECONDS_def)
  moreover have "c = \<lparr>sc_token = token, sc_expires_at = x, sc_image = img, sc_request_sha256 = sha256_hex req\<rparr>"
    using c by (cases c) simp
  ultimately show ?thesis using c(3) by simp
qed

text \<open>On an answering system the broker's side returns the next descriptor.\<close>

lemma create_sealed_credential_quiet:
  assumes "fw_faults w = []" and "fw_short_writes w = []" and "req \<noteq> []" and "length req \<le> MAX_REQUEST_BYTES"
    and "normalize_credential token x i (PStr (sha256_hex req)) (PInt n) p = Inr c" and "envelope c = Inr raw"
    and "length raw \<le> MAX_ENVELOPE_BYTES"
  shows "\<exists>w'. create_sealed_credential token x i req (Some n) p w = (Inr (fw_next w), w') \<and> fw_faults w' = []"
  using assms
  by (simp add: create_sealed_credential_def act_bind_def act_catch_def current_time_def memfd_create_def fcall_def
      seal_file_def fd_write_def add_seals_def fd_stat_def file_of_def set_file_def not_less Let_def)

definition sample_credential :: scoped_credential where
  "sample_credential = \<lparr>sc_token = ''eyJh.b.c'', sc_expires_at = 1300, sc_image = OCI_PREFIX @ replicate 64 (CHR ''b''),
     sc_request_sha256 = sha256_hex ''request''\<rparr>"

definition sample_fds :: fd_world where
  "sample_fds = \<lparr>fw_files = [], fw_next = 7, fw_faults = [], fw_short_writes = [], fw_clock = (\<lambda>_. 1100), fw_ticks = 0\<rparr>"

lemma sample_credential_ok:
  "normalize_credential (PStr ''eyJh.b.c'') (PInt 1300) (PStr (OCI_PREFIX @ replicate 64 (CHR ''b'')))
     (PStr (sha256_hex ''request'')) (PInt 1100) ''canary'' = Inr sample_credential"
  "\<exists>raw. envelope sample_credential = Inr raw \<and> length raw \<le> MAX_ENVELOPE_BYTES"
proof -
  have hex: "list_all is_lower_hex (replicate 64 (CHR ''b''))" by code_simp
  have tok: "list_all token_char ''eyJh.b.c''" by code_simp
  have pre: "starts_with OCI_PREFIX (OCI_PREFIX @ s)" for s by (simp add: starts_with_def)
  show "normalize_credential (PStr ''eyJh.b.c'') (PInt 1300) (PStr (OCI_PREFIX @ replicate 64 (CHR ''b'')))
     (PStr (sha256_hex ''request'')) (PInt 1100) ''canary'' = Inr sample_credential"
    unfolding normalize_credential_Inr wf_credential_def image_in_scope_def
    using tok by (simp add: sample_credential_def pre fullmatch_SHA256_RE hex MAX_TOKEN_BYTES_def
        MIN_LIFETIME_SECONDS_def MAX_LIFETIME_SECONDS_def)
  have "print_bound (envelope_dict sample_credential) \<le> 2000"
    by (simp add: envelope_dict_def sample_credential_def OCI_HOST_def OCI_PREFIX_def)
  then have "length (json_dumps (envelope_dict sample_credential)) \<le> 2000"
    using length_json_dumps order_trans by blast
  then show "\<exists>raw. envelope sample_credential = Inr raw \<and> length raw \<le> MAX_ENVELOPE_BYTES"
    by (simp add: envelope_def MAX_ENVELOPE_BYTES_def int_fits_64 sample_credential_def)
qed

theorem sealed_credential_roundtrip_witness:
  "\<exists>w' :: fd_world. read_sealed_credential 7 ''request'' (OCI_PREFIX @ replicate 64 (CHR ''b'')) (Some 1200) ''canary'' w' =
     (Inr sample_credential, w')"
proof -
  obtain raw where raw: "envelope sample_credential = Inr raw" "length raw \<le> MAX_ENVELOPE_BYTES"
    using sample_credential_ok(2) by blast
  obtain w' where "create_sealed_credential (PStr ''eyJh.b.c'') (PInt 1300) (PStr (OCI_PREFIX @ replicate 64 (CHR ''b'')))
      ''request'' (Some 1100) ''canary'' sample_fds = (Inr (fw_next sample_fds), w')" "fw_faults w' = []"
    using create_sealed_credential_quiet [OF _ _ _ _ sample_credential_ok(1) raw, of sample_fds]
    by (auto simp: sample_fds_def MAX_REQUEST_BYTES_def)
  from sealed_credential_roundtrip [OF this(1) _ this(2), of 1200] show ?thesis
    by (auto simp: sample_fds_def sample_credential_def)
qed

lemma act_catch_raise_Inr:
  "act_catch m (\<lambda>e. act_lift (Inl (f e))) w = (Inr x, w') \<longleftrightarrow> m w = (Inr x, w')"
  by (auto simp: act_catch_Inr_iff)

lemma if_act_Inr: "(if b then act_lift (Inl e) else m) w = (Inr x, w') \<longleftrightarrow> \<not> b \<and> m w = (Inr x, w')"
  by simp

lemma act_bind_lift_Inr: "act_bind (act_lift r) f w = (Inr y, w') \<longleftrightarrow> (\<exists>x. r = Inr x \<and> f x w = (Inr y, w'))"
  by (auto simp: act_bind_Inr_iff)

lemma fd_stat_Inr: "fd_stat fd w = (Inr m, w') \<Longrightarrow> file_of w fd = Some m \<and> file_of w' = file_of w"
  unfolding fd_stat_def by (erule fcall_run) (auto split: option.splits)



text \<open>
  A control message that is not \<open>SCM_RIGHTS\<close> stops the collection, so that descriptors installed
  by a later control message of the same packet are neither returned nor closed.
\<close>

lemma receive_header_leaves_open:
  "receive_sealed_header (Inr \<lparr>rm_message = m, rm_ancillaries = [(False, []), (True, [fd])], rm_truncated = False\<rparr>) w =
     (Inl PrivateRegistryTransferError, w)"
  by (simp add: receive_sealed_header_def act_bind_def is_Exception_def)

text \<open>Packets of whole descriptor lists are accepted exactly with four bytes and one descriptor.\<close>

lemma collect_rights_ok: "list_all fst as \<Longrightarrow> collect_rights as r = (r @ concat (map snd as), Inr ())"
  by (induction as arbitrary: r) auto

lemma receive_header_one:
  assumes "receive_sealed_header (Inr m) w = (Inr (h, fd), w')"
  shows "list_all fst (rm_ancillaries m) \<and> concat (map snd (rm_ancillaries m)) = [fd] \<and> h = rm_message m \<and>
    length h = 4 \<and> \<not> rm_truncated m \<and> w' = w"
proof (cases "list_all fst (rm_ancillaries m)")
  case True
  with assms show ?thesis
    by (auto simp: receive_sealed_header_def collect_rights_ok act_bind_Inr_iff length_Suc_conv
        split: if_splits)
next
  case False
  have "\<exists>r'. collect_rights as r = (r', Inl ValueError)" if "\<not> list_all fst as" for as r
    using that by (induction as arbitrary: r) auto
  with False obtain r' where "collect_rights (rm_ancillaries m) [] = (r', Inl ValueError)" by blast
  with assms show ?thesis by (auto simp: receive_sealed_header_def act_bind_Inr_iff)
qed

end
