(* ===== verification/Broker.thy ===== *)
theory Broker
  imports Credential
begin

text \<open>
  \<open>src/deployment/broker.py\<close>: the restricted broker, which verifies a token, binds the request to
  it, spends the token and only then forwards the request.  The collaborators given to the
  constructor are actions on an environment of any type; the broker's own world adds the
  descriptors of the sealed credential and the lines written to standard error.
\<close>

section \<open>Collaborators\<close>

definition MAX_EXECUTOR_RESPONSE_BYTES :: nat where "MAX_EXECUTOR_RESPONSE_BYTES = 64 * 1024"

definition IDENTITY_STRING_FIELDS :: "string list" where
  "IDENTITY_STRING_FIELDS =
     [''issuer'', ''audience'', ''repository'', ''workflow_ref'', ''workflow_sha'', ''ref'', ''environment'',
      ''event_name'', ''runner_environment'', ''jti'']"

definition IDENTITY_INTEGER_FIELDS :: "string list" where
  "IDENTITY_INTEGER_FIELDS =
     [''repository_id'', ''repository_owner_id'', ''run_id'', ''run_attempt'', ''actor_id'', ''issued_at'',
      ''not_before'', ''expires_at'']"

definition IDENTITY_FIELDS :: "string list" where
  "IDENTITY_FIELDS =
     [''issuer'', ''audience'', ''repository'', ''repository_id'', ''repository_owner_id'', ''workflow_ref'',
      ''workflow_sha'', ''ref'', ''environment'', ''event_name'', ''runner_environment'', ''run_id'', ''run_attempt'',
      ''actor_id'', ''issued_at'', ''not_before'', ''expires_at'', ''jti'']"

text \<open>
  What a collaborator may hand back: an object of the exact identity type with its fields, an
  object of the exact request type, bytes, or something else.
\<close>

datatype returned_identity = Exact_Identity pydict | Other_Object
datatype built_request = Built executor_request | Not_A_Request
datatype reply = Bytes string | Not_Bytes

record 'w verified_context =
  vc_zot_read_credential :: "('w, pyval \<times> pyval) act"

record 'w broker =
  br_expected_workflow_sha :: string
  br_verify :: "string \<Rightarrow> int \<Rightarrow> ('w, returned_identity) act"
  br_consume :: "string \<Rightarrow> int \<Rightarrow> string \<Rightarrow> int \<Rightarrow> int \<Rightarrow> ('w, pyval) act"
  br_send :: "string \<Rightarrow> ('w, reply) act"
  br_build :: "(pyval \<Rightarrow> authorized_identity \<Rightarrow> 'w verified_context \<Rightarrow> int \<Rightarrow> ('w, built_request) act) option"
  br_verify_context :: "(authorized_identity \<Rightarrow> pyval \<Rightarrow> int \<Rightarrow> ('w, 'w verified_context) act) option"
  br_send_private :: "(string \<Rightarrow> int \<Rightarrow> ('w, reply) act) option"

text \<open>
  What \<open>inspect.getattr_static\<close> finds: nothing, a plain function, a static method or another
  value, the last two callable or not.
\<close>

datatype 'm attribute = Absent | Function 'm | Staticmethod "'m option" | Value "'m option"

definition bound_operation :: "'m attribute option \<Rightarrow> 'm result" where
  "bound_operation dependency =
     (case dependency of
        None \<Rightarrow> Inl TypeError
      | Some Absent \<Rightarrow> Inl TypeError
      | Some (Function m) \<Rightarrow> Inr m
      | Some (Staticmethod op) \<Rightarrow> (case op of None \<Rightarrow> Inl TypeError | Some m \<Rightarrow> Inr m)
      | Some (Value op) \<Rightarrow> (case op of None \<Rightarrow> Inl TypeError | Some m \<Rightarrow> Inr m))"

definition optional_operation :: "'m attribute option \<Rightarrow> 'm option result" where
  "optional_operation dependency =
     (case dependency of None \<Rightarrow> Inr None | Some _ \<Rightarrow> bnd (bound_operation dependency) (\<lambda>m. Inr (Some m)))"

definition broker_init ::
    "pyval \<Rightarrow> (string \<Rightarrow> int \<Rightarrow> ('w, returned_identity) act) attribute option \<Rightarrow>
     (string \<Rightarrow> int \<Rightarrow> string \<Rightarrow> int \<Rightarrow> int \<Rightarrow> ('w, pyval) act) attribute option \<Rightarrow>
     (string \<Rightarrow> ('w, reply) act) attribute option \<Rightarrow>
     (pyval \<Rightarrow> authorized_identity \<Rightarrow> 'w verified_context \<Rightarrow> int \<Rightarrow> ('w, built_request) act) attribute option \<Rightarrow>
     (authorized_identity \<Rightarrow> pyval \<Rightarrow> int \<Rightarrow> ('w, 'w verified_context) act) attribute option \<Rightarrow>
     (string \<Rightarrow> int \<Rightarrow> ('w, reply) act) attribute option \<Rightarrow> pyval \<Rightarrow> 'w broker result" where
  "broker_init expected_workflow_sha verifier guard transport request_builder context_verifier
     private_send private_registry_transport =
     (case private_registry_transport of
        PBool private \<Rightarrow>
          if private \<and> (Option.is_none request_builder \<or> Option.is_none context_verifier) then Inl TypeError
          else
          bnd (validate_expected_workflow_sha expected_workflow_sha) (\<lambda>sha.
          bnd (bound_operation verifier) (\<lambda>verify.
          bnd (bound_operation guard) (\<lambda>consume.
          bnd (bound_operation transport) (\<lambda>send.
          bnd (optional_operation request_builder) (\<lambda>build.
          bnd (optional_operation context_verifier) (\<lambda>verify_context.
          bnd (if private then bnd (bound_operation private_send) (\<lambda>m. Inr (Some m)) else Inr None) (\<lambda>send_private.
            Inr \<lparr>br_expected_workflow_sha = sha, br_verify = verify, br_consume = consume, br_send = send,
                 br_build = build, br_verify_context = verify_context, br_send_private = send_private\<rparr>)))))))
      | _ \<Rightarrow> Inl TypeError)"

section \<open>Normalising the identity\<close>

text \<open>\<open>str(i)\<close>\<close>

definition py_str_int :: "int \<Rightarrow> string result" where
  "py_str_int i = (if int_fits i then Inr (str_of_int i) else Inl ValueError)"

definition identity_claims :: "pydict \<Rightarrow> pydict result" where
  "identity_claims attrs =
     (let num = (\<lambda>name. case getv attrs name of PInt i \<Rightarrow> bnd (py_str_int i) (\<lambda>s. Inr (PStr s)) | _ \<Rightarrow> Inl TypeError) in
      bnd (num ''repository_id'') (\<lambda>repository_id.
      bnd (num ''repository_owner_id'') (\<lambda>owner_id.
      bnd (num ''run_id'') (\<lambda>run_id.
      bnd (num ''run_attempt'') (\<lambda>run_attempt.
      bnd (num ''actor_id'') (\<lambda>actor_id.
        Inr [(''iss'', getv attrs ''issuer''), (''aud'', getv attrs ''audience''),
             (''repository'', getv attrs ''repository''), (''repository_id'', repository_id),
             (''repository_owner_id'', owner_id), (''workflow_ref'', getv attrs ''workflow_ref''),
             (''workflow_sha'', getv attrs ''workflow_sha''), (''ref'', getv attrs ''ref''),
             (''environment'', getv attrs ''environment''), (''event_name'', getv attrs ''event_name''),
             (''runner_environment'', getv attrs ''runner_environment''), (''run_id'', run_id),
             (''run_attempt'', run_attempt), (''actor_id'', actor_id), (''iat'', getv attrs ''issued_at''),
             (''nbf'', getv attrs ''not_before''), (''exp'', getv attrs ''expires_at''), (''jti'', getv attrs ''jti'')]))))))"

definition normalize_identity :: "returned_identity \<Rightarrow> int \<Rightarrow> string \<Rightarrow> authorized_identity result" where
  "normalize_identity returned received_at expected_workflow_sha =
     (case returned of
        Other_Object \<Rightarrow> Inl OIDCAuthorizationError
      | Exact_Identity attrs \<Rightarrow>
          if length attrs \<noteq> length IDENTITY_FIELDS \<or> set (keys attrs) \<noteq> set IDENTITY_FIELDS then Inl OIDCAuthorizationError
          else if list_ex (\<lambda>name. case getv attrs name of PStr _ \<Rightarrow> False | _ \<Rightarrow> True) IDENTITY_STRING_FIELDS
          then Inl OIDCAuthorizationError
          else if list_ex (\<lambda>name. case getv attrs name of PInt _ \<Rightarrow> False | _ \<Rightarrow> True) IDENTITY_INTEGER_FIELDS
          then Inl OIDCAuthorizationError
          else bnd (identity_claims attrs) (\<lambda>claims.
            authorize_verified_github_oidc (PDict claims) (PInt received_at) (PStr expected_workflow_sha)))"

section \<open>The authorized forward\<close>

record 'w broker_world = fd_world +
  bw_env :: 'w
  bw_log :: "string list"

definition on_env :: "('w, 'a) act \<Rightarrow> ('w broker_world, 'a) act" where
  "on_env m w = (case m (bw_env w) of (r, e) \<Rightarrow> (r, w\<lparr>bw_env := e\<rparr>))"

definition rejected :: "('w broker_world, 'a) act" where
  "rejected w = (Inl BrokerRejectedError, w)"

definition unavailable :: "string \<Rightarrow> ('w broker_world, 'a) act" where
  "unavailable phase w = (Inl BrokerUnavailableError, w\<lparr>bw_log := bw_log w @ [phase]\<rparr>)"

text \<open>\<open>try: m except <rejects>: reject except Exception: write the phase and be unavailable\<close>\<close>

definition guarded :: "string \<Rightarrow> (exn \<Rightarrow> bool) \<Rightarrow> ('w broker_world, 'a) act \<Rightarrow> ('w broker_world, 'a) act" where
  "guarded phase rejects m = act_catch m (\<lambda>e.
     if \<not> is_Exception e then act_lift (Inl e) else if rejects e then rejected else unavailable phase)"

definition act_finally :: "('w, 'a) act \<Rightarrow> ('w, unit) act \<Rightarrow> ('w, 'a) act" where
  "act_finally m c w =
     (case m w of (r, w1) \<Rightarrow> (case c w1 of (Inl e, w2) \<Rightarrow> (Inl e, w2) | (Inr _, w2) \<Rightarrow> (r, w2)))"

definition verify_promotion_context ::
    "'w broker \<Rightarrow> authorized_identity \<Rightarrow> pyval \<Rightarrow> int \<Rightarrow> ('w broker_world, 'w verified_context) act" where
  "verify_promotion_context b identity promotion_context received_at =
     guarded ''registry_credentials'' (\<lambda>e. caught e [BrokerRejectedError])
       (case br_verify_context b of
          None \<Rightarrow> act_lift (Inl TypeError)
        | Some verify_context \<Rightarrow> on_env (verify_context identity promotion_context received_at))"

text \<open>The request bytes that the builder's request prints as.\<close>

definition construct_request ::
    "'w broker \<Rightarrow> pyval \<Rightarrow> authorized_identity \<Rightarrow> 'w verified_context \<Rightarrow> int \<Rightarrow> ('w broker_world, string) act" where
  "construct_request b promotion identity verified received_at =
     (case br_build b of
        None \<Rightarrow> act_lift (Inl TypeError)
      | Some build \<Rightarrow>
          act_bind (on_env (build promotion identity verified received_at)) (\<lambda>constructed.
          case constructed of
            Not_A_Request \<Rightarrow> act_lift (Inl ExecutorRequestError)
          | Built request \<Rightarrow>
              if \<not> plain (exec_to_dict request) then act_lift (Inl ValueError)
              else let raw = exec_canonical_bytes request in
                if raw = [] \<or> MAX_CANONICAL_REQUEST_BYTES < length raw then act_lift (Inl ExecutorRequestError)
                else act_lift (Inr raw)))"

definition request_evidence ::
    "'w broker \<Rightarrow> string option \<Rightarrow> pyval \<Rightarrow> authorized_identity \<Rightarrow> 'w verified_context option \<Rightarrow> int \<Rightarrow>
     ('w broker_world, string \<times> executor_request) act" where
  "request_evidence b canonical_request promotion identity verified received_at =
     guarded ''release_evidence'' (\<lambda>e. caught e [OIDCAuthorizationError, ExecutorRequestError])
       (act_bind (case (canonical_request, verified) of
            (Some raw, _) \<Rightarrow> act_lift (Inr raw)
          | (None, Some ctx) \<Rightarrow> construct_request b promotion identity ctx received_at
          | (None, None) \<Rightarrow> act_lift (Inl TypeError)) (\<lambda>raw.
        act_bind (act_lift (parse_canonical_request raw)) (\<lambda>request.
        act_bind (act_lift (bind_request_to_identity request identity)) (\<lambda>_.
          act_lift (Inr (raw, request))))))"

definition seal_credential ::
    "'w broker \<Rightarrow> string \<Rightarrow> executor_request \<Rightarrow> 'w verified_context option \<Rightarrow> ('w broker_world, int option) act" where
  "seal_credential b raw request verified =
     (case br_send_private b of
        None \<Rightarrow> act_lift (Inr None)
      | Some _ \<Rightarrow>
          guarded ''sealed_zot_credential'' (\<lambda>_. False)
            (case verified of
               None \<Rightarrow> act_lift (Inl TypeError)
             | Some ctx \<Rightarrow>
                 act_bind (on_env (vc_zot_read_credential ctx)) (\<lambda>(token, expiry).
                 act_bind time_now (\<lambda>now.
                 act_bind (create_sealed_credential token expiry (PStr (xr_exact_image_reference request)) raw (Some now)
                   ''canary'') (\<lambda>fd. act_lift (Inr (Some fd)))))))"

definition spend_and_send ::
    "'w broker \<Rightarrow> string \<Rightarrow> authorized_identity \<Rightarrow> int option \<Rightarrow> ('w broker_world, string) act" where
  "spend_and_send b raw identity descriptor =
     act_bind (guarded ''broker_replay'' (\<lambda>e. caught e [ReplayError] \<and> \<not> caught e [ReplayUnavailableError])
       (on_env (br_consume b (id_jti identity) (id_expires_at identity) (sha256_hex raw) (id_run_id identity)
         (id_run_attempt identity)))) (\<lambda>consumed.
     if consumed \<noteq> PNone then unavailable ''broker_replay''
     else
     act_bind (guarded ''executor_transport'' (\<lambda>_. False)
       (on_env (case (br_send_private b, descriptor) of
          (Some send_private, Some fd) \<Rightarrow> send_private raw fd
        | (Some send_private, None) \<Rightarrow> act_lift (Inl TypeError)
        | (None, _) \<Rightarrow> br_send b raw))) (\<lambda>response.
     case response of
       Not_Bytes \<Rightarrow> unavailable ''executor_transport''
     | Bytes r \<Rightarrow> if MAX_EXECUTOR_RESPONSE_BYTES < length r then unavailable ''executor_transport'' else act_lift (Inr r)))"

definition broker_forward ::
    "'w broker \<Rightarrow> string \<Rightarrow> executor_request \<Rightarrow> authorized_identity \<Rightarrow> 'w verified_context option \<Rightarrow>
     ('w broker_world, string) act" where
  "broker_forward b raw request identity verified =
     (if \<not> fullmatch SHA256_RE (sha256_hex raw) then unavailable ''request_hash''
      else
      act_bind (seal_credential b raw request verified) (\<lambda>descriptor.
      act_finally (spend_and_send b raw identity descriptor)
        (case descriptor of None \<Rightarrow> act_lift (Inr ()) | Some fd \<Rightarrow> fd_close fd)))"

definition broker_authorize ::
    "'w broker \<Rightarrow> pyval \<Rightarrow> pyval \<Rightarrow> string option \<Rightarrow> pyval \<Rightarrow> pyval \<Rightarrow> ('w broker_world, string) act" where
  "broker_authorize b compact_token received_at canonical_request promotion promotion_context =
     (case (compact_token, received_at) of
        (PStr token, PInt received) \<Rightarrow>
          if received < 0 \<or>
             (case canonical_request of None \<Rightarrow> False | Some raw \<Rightarrow> raw = [] \<or> MAX_CANONICAL_REQUEST_BYTES < length raw)
          then rejected
          else if canonical_request = None \<and>
             (Option.is_none (br_build b) \<or> Option.is_none (br_verify_context b) \<or> promotion = PNone \<or> promotion_context = PNone)
          then rejected
          else if \<not> Option.is_none (br_send_private b) \<and> canonical_request \<noteq> None then rejected
          else
          act_bind (guarded ''oidc_verify''
            (\<lambda>e. caught e [OIDCVerificationError] \<and> \<not> caught e [OIDCVerificationUnavailable])
            (on_env (br_verify b token received))) (\<lambda>returned.
          act_bind (guarded ''oidc_identity'' (\<lambda>e. caught e [OIDCAuthorizationError])
            (act_lift (normalize_identity returned received (br_expected_workflow_sha b)))) (\<lambda>identity.
          act_bind (case canonical_request of
              None \<Rightarrow> act_bind (verify_promotion_context b identity promotion_context received) (\<lambda>c. act_lift (Inr (Some c)))
            | Some _ \<Rightarrow> act_lift (Inr None)) (\<lambda>verified.
          act_bind (request_evidence b canonical_request promotion identity verified received) (\<lambda>(raw, request).
            broker_forward b raw request identity verified))))
      | _ \<Rightarrow> rejected)"

definition authorize_and_forward :: "'w broker \<Rightarrow> pyval \<Rightarrow> reply \<Rightarrow> pyval \<Rightarrow> ('w broker_world, string) act" where
  "authorize_and_forward b compact_token canonical_request received_at =
     (case canonical_request of
        Not_Bytes \<Rightarrow> rejected
      | Bytes raw \<Rightarrow>
          if raw = [] \<or> MAX_CANONICAL_REQUEST_BYTES < length raw then rejected
          else broker_authorize b compact_token received_at (Some raw) PNone PNone)"

definition authorize_promotion_and_forward ::
    "'w broker \<Rightarrow> pyval \<Rightarrow> pyval \<Rightarrow> pyval \<Rightarrow> pyval \<Rightarrow> ('w broker_world, string) act" where
  "authorize_promotion_and_forward b compact_token promotion promotion_context received_at =
     broker_authorize b compact_token received_at None promotion promotion_context"

section \<open>Reauthorization is exact\<close>

text \<open>The fields of an identity object.\<close>

definition identity_attrs :: "authorized_identity \<Rightarrow> pydict" where
  "identity_attrs i =
     [(''issuer'', PStr (id_issuer i)), (''audience'', PStr (id_audience i)), (''repository'', PStr (id_repository i)),
      (''repository_id'', PInt (id_repository_id i)), (''repository_owner_id'', PInt (id_repository_owner_id i)),
      (''workflow_ref'', PStr (id_workflow_ref i)), (''workflow_sha'', PStr (id_workflow_sha i)), (''ref'', PStr (id_ref i)),
      (''environment'', PStr (id_environment i)), (''event_name'', PStr (id_event_name i)),
      (''runner_environment'', PStr (id_runner_environment i)), (''run_id'', PInt (id_run_id i)),
      (''run_attempt'', PInt (id_run_attempt i)), (''actor_id'', PInt (id_actor_id i)),
      (''issued_at'', PInt (id_issued_at i)), (''not_before'', PInt (id_not_before i)),
      (''expires_at'', PInt (id_expires_at i)), (''jti'', PStr (id_jti i))]"

lemma decimal_text:
  assumes "0 < i" and "i \<le> MAX_DECIMAL_IDENTIFIER"
  shows "fullmatch DECIMAL_RE (str_of_int i) \<and> int (nat_of_digits (str_of_int i)) = i \<and> int_fits i"
proof -
  let ?n = "nat i"
  have "?n < 10 ^ 19" using assms by (simp add: MAX_DECIMAL_IDENTIFIER_def)
  then have "length (nat_str ?n) \<le> 19" by (intro length_nat_str) simp
  moreover obtain c t where s: "nat_str ?n = c # t" by (cases "nat_str ?n") simp_all
  moreover have "c \<noteq> CHR ''0''" using hd_nat_str_nonzero [of ?n] assms(1) s by simp
  moreover have "is_digit c" "list_all is_digit t" using nat_str_digits [of ?n] s by simp_all
  moreover have "is_digit c \<Longrightarrow> c \<noteq> CHR ''0'' \<Longrightarrow> rng (CHR ''1'') (CHR ''9'') c"
    using of_char_eq_iff [of c "CHR ''0''", where ?'a = nat] by (auto simp: is_digit_def rng_def)
  ultimately have "fullmatch DECIMAL_RE (nat_str ?n)"
    by (simp add: DECIMAL_RE_def fullmatch_Cat_Cls)
  moreover have "int_fits i" using assms by (intro int_fits_64) (simp add: MAX_DECIMAL_IDENTIFIER_def)
  ultimately show ?thesis using assms(1) by (simp add: str_of_int_def)
qed

lemma authorize_more_facts:
  assumes "authorize_with_policy claims p (PInt now) x = Inr i"
  shows "0 \<le> now \<and> 0 \<le> id_not_before i \<and> 0 \<le> id_expires_at i \<and>
    validate_source_sha (PStr (id_workflow_sha i)) = Inr (id_workflow_sha i)"
proof (cases claims)
  case (PDict c)
  show ?thesis
    using assms unfolding PDict authorize_with_policy_def
    by (auto simp: authorize_facts split: if_splits)
qed (use assms in \<open>auto simp: authorize_with_policy_def split: if_splits\<close>)

definition identity_claims_of :: "authorized_identity \<Rightarrow> pydict" where
  "identity_claims_of i =
     [(''iss'', PStr (id_issuer i)), (''aud'', PStr (id_audience i)), (''repository'', PStr (id_repository i)),
      (''repository_id'', PStr (str_of_int (id_repository_id i))),
      (''repository_owner_id'', PStr (str_of_int (id_repository_owner_id i))),
      (''workflow_ref'', PStr (id_workflow_ref i)), (''workflow_sha'', PStr (id_workflow_sha i)), (''ref'', PStr (id_ref i)),
      (''environment'', PStr (id_environment i)), (''event_name'', PStr (id_event_name i)),
      (''runner_environment'', PStr (id_runner_environment i)), (''run_id'', PStr (str_of_int (id_run_id i))),
      (''run_attempt'', PStr (str_of_int (id_run_attempt i))), (''actor_id'', PStr (str_of_int (id_actor_id i))),
      (''iat'', PInt (id_issued_at i)), (''nbf'', PInt (id_not_before i)), (''exp'', PInt (id_expires_at i)),
      (''jti'', PStr (id_jti i))]"

lemma identity_claims_attrs:
  assumes "int_fits (id_repository_id i)" "int_fits (id_repository_owner_id i)" "int_fits (id_run_id i)"
    "int_fits (id_run_attempt i)" "int_fits (id_actor_id i)"
  shows "identity_claims (identity_attrs i) = Inr (identity_claims_of i)"
  using assms by (simp add: identity_claims_def identity_attrs_def identity_claims_of_def getv_def py_str_int_def)

lemma normalize_identity_attrs:
  assumes "int_fits (id_repository_id i)" "int_fits (id_repository_owner_id i)" "int_fits (id_run_id i)"
    "int_fits (id_run_attempt i)" "int_fits (id_actor_id i)"
  shows "normalize_identity (Exact_Identity (identity_attrs i)) now sha =
    authorize_verified_github_oidc (PDict (identity_claims_of i)) (PInt now) (PStr sha)"
proof -
  have "length (identity_attrs i) = length IDENTITY_FIELDS" "set (keys (identity_attrs i)) = set IDENTITY_FIELDS"
    "\<not> list_ex (\<lambda>name. case getv (identity_attrs i) name of PStr _ \<Rightarrow> False | _ \<Rightarrow> True) IDENTITY_STRING_FIELDS"
    "\<not> list_ex (\<lambda>name. case getv (identity_attrs i) name of PInt _ \<Rightarrow> False | _ \<Rightarrow> True) IDENTITY_INTEGER_FIELDS"
    by (simp_all add: identity_attrs_def keys_def IDENTITY_FIELDS_def IDENTITY_STRING_FIELDS_def
        IDENTITY_INTEGER_FIELDS_def getv_def)
  then show ?thesis
    unfolding normalize_identity_def returned_identity.case identity_claims_attrs [OF assms] by simp
qed

text \<open>
  Reauthorization neither loses nor changes an identity: what the policy authorized from a token's
  claims, \<open>_normalize_identity\<close> authorizes again from the identity's own fields, as the same identity.
\<close>

theorem normalize_identity_exact:
  assumes "authorize_verified_github_oidc claims (PInt now) (PStr sha) = Inr i"
  shows "normalize_identity (Exact_Identity (identity_attrs i)) now sha = Inr i"
proof -
  let ?d = "identity_claims_of i"
  have a: "authorize_with_policy claims DEV_AUTHORIZATION_POLICY (PInt now) (PStr sha) = Inr i"
    using assms by (simp add: authorize_verified_github_oidc_def)
  note more = authorize_more_facts [OF a]
  have f: "sha = id_workflow_sha i \<and> jti_ok (id_jti i) \<and>
      id_issuer i = DEV_ISSUER \<and> id_audience i = DEV_AUDIENCE \<and> id_repository i = DEV_REPOSITORY \<and>
      id_repository_id i = DEV_REPOSITORY_ID \<and> id_repository_owner_id i = DEV_REPOSITORY_OWNER_ID \<and>
      id_workflow_ref i = DEV_WORKFLOW_REF \<and> id_ref i = DEV_REF \<and> id_environment i = DEV_ENVIRONMENT \<and>
      id_event_name i = DEV_EVENT_NAME \<and> id_runner_environment i = DEV_RUNNER_ENVIRONMENT \<and>
      token_times_ok DEV_AUTHORIZATION_POLICY now (id_issued_at i) (id_not_before i) (id_expires_at i) \<and>
      0 \<le> id_issued_at i \<and> 0 < id_run_id i \<and> 0 < id_run_attempt i \<and> 0 < id_actor_id i \<and>
      id_run_id i \<le> MAX_DECIMAL_IDENTIFIER \<and> id_run_attempt i \<le> MAX_DECIMAL_IDENTIFIER \<and>
      id_actor_id i \<le> MAX_DECIMAL_IDENTIFIER"
    using a by (rule authorize_Inr_facts) (simp add: DEV_AUTHORIZATION_POLICY_def)
  have repo: "0 < id_repository_id i" "id_repository_id i \<le> MAX_DECIMAL_IDENTIFIER" "0 < id_repository_owner_id i"
      "id_repository_owner_id i \<le> MAX_DECIMAL_IDENTIFIER"
    using f by (simp_all add: DEV_REPOSITORY_ID_def DEV_REPOSITORY_OWNER_ID_def MAX_DECIMAL_IDENTIFIER_def)
  have num: "decimal_identifier ?d k = Inr n" if "getv ?d k = PStr (str_of_int n)" "0 < n" "n \<le> MAX_DECIMAL_IDENTIFIER" for k n
    using that decimal_text [of n] by (auto simp: decimal_identifier_Inr)
  have get: "getv ?d ''repository_id'' = PStr (str_of_int (id_repository_id i))"
      "getv ?d ''repository_owner_id'' = PStr (str_of_int (id_repository_owner_id i))"
      "getv ?d ''run_id'' = PStr (str_of_int (id_run_id i))" "getv ?d ''run_attempt'' = PStr (str_of_int (id_run_attempt i))"
      "getv ?d ''actor_id'' = PStr (str_of_int (id_actor_id i))"
    by (simp_all add: identity_claims_of_def getv_def)
  have ids: "decimal_identifier ?d ''repository_id'' = Inr (id_repository_id i)"
      "decimal_identifier ?d ''repository_owner_id'' = Inr (id_repository_owner_id i)"
      "decimal_identifier ?d ''run_id'' = Inr (id_run_id i)" "decimal_identifier ?d ''run_attempt'' = Inr (id_run_attempt i)"
      "decimal_identifier ?d ''actor_id'' = Inr (id_actor_id i)"
    using f repo by (intro num get; simp)+
  have str: "exact_string ?d ''iss'' DEV_ISSUER = Inr DEV_ISSUER" "exact_string ?d ''aud'' DEV_AUDIENCE = Inr DEV_AUDIENCE"
      "exact_string ?d ''repository'' DEV_REPOSITORY = Inr DEV_REPOSITORY"
      "exact_string ?d ''workflow_ref'' DEV_WORKFLOW_REF = Inr DEV_WORKFLOW_REF"
      "exact_string ?d ''ref'' DEV_REF = Inr DEV_REF" "exact_string ?d ''environment'' DEV_ENVIRONMENT = Inr DEV_ENVIRONMENT"
      "exact_string ?d ''event_name'' DEV_EVENT_NAME = Inr DEV_EVENT_NAME"
      "exact_string ?d ''runner_environment'' DEV_RUNNER_ENVIRONMENT = Inr DEV_RUNNER_ENVIRONMENT"
    using f by (simp_all add: exact_string_Inr identity_claims_of_def getv_def)
  have tm: "claim_timestamp ?d ''iat'' = Inr (id_issued_at i)" "claim_timestamp ?d ''nbf'' = Inr (id_not_before i)"
      "claim_timestamp ?d ''exp'' = Inr (id_expires_at i)"
    using f more by (simp_all add: claim_timestamp_Inr identity_claims_of_def getv_def)
  have rest: "getv ?d ''workflow_sha'' = PStr (id_workflow_sha i)" "validate_jti (getv ?d ''jti'') = Inr (id_jti i)"
      "set REQUIRED_AUTHORIZATION_CLAIMS \<subseteq> set (keys ?d)"
    using f by (simp_all add: validate_jti_Inr identity_claims_of_def getv_def REQUIRED_AUTHORIZATION_CLAIMS_def keys_def)
  have "authorize_verified_github_oidc (PDict ?d) (PInt now) (PStr sha) = Inr i"
    unfolding authorize_verified_github_oidc_def authorize_with_policy_def
    using f more
    by (simp add: reviewed_policies_def validate_expected_workflow_sha_def nonneg_int_def rest ids tm str
        DEV_AUTHORIZATION_POLICY_def)
  moreover have "int_fits (id_repository_id i)" "int_fits (id_repository_owner_id i)" "int_fits (id_run_id i)"
      "int_fits (id_run_attempt i)" "int_fits (id_actor_id i)"
    using f repo decimal_text by blast+
  ultimately show ?thesis by (simp only: normalize_identity_attrs)
qed

theorem normalize_identity_exact_witness:
  "normalize_identity (Exact_Identity (identity_attrs sample_identity)) 1010 (replicate 40 (CHR ''a'')) = Inr sample_identity"
  by (rule normalize_identity_exact [OF sample_claims_authorized])

section \<open>Runs that return\<close>

lemma guarded_Inr: "guarded phase rejects m w = (Inr x, w') \<longleftrightarrow> m w = (Inr x, w')"
  by (auto simp: guarded_def act_catch_Inr_iff rejected_def unavailable_def split: if_splits)

lemma on_env_Inr: "on_env m w = (r, w') \<longleftrightarrow> (\<exists>e. m (bw_env w) = (r, e) \<and> w' = w\<lparr>bw_env := e\<rparr>)"
  by (auto simp: on_env_def split: prod.splits)

lemma raise_not_Inr [simp]: "rejected w \<noteq> (Inr x, w')" "unavailable phase w \<noteq> (Inr x, w')"
  by (simp_all add: rejected_def unavailable_def)

lemma act_finally_Inr:
  "act_finally m c w = (Inr x, w') \<longleftrightarrow> (\<exists>w1. m w = (Inr x, w1) \<and> c w1 = (Inr (), w'))"
  by (auto simp: act_finally_def split: prod.splits sum.splits)

lemma spend_and_send_Inr:
  assumes "spend_and_send b raw i descriptor w = (Inr response, w')"
  obtains env where
    "br_consume b (id_jti i) (id_expires_at i) (sha256_hex raw) (id_run_id i) (id_run_attempt i) (bw_env w) = (Inr PNone, env)"
    "(case (br_send_private b, descriptor) of
        (Some send_private, Some fd) \<Rightarrow> send_private raw fd
      | (Some send_private, None) \<Rightarrow> act_lift (Inl TypeError)
      | (None, _) \<Rightarrow> br_send b raw) env = (Inr (Bytes response), bw_env w')"
    "length response \<le> MAX_EXECUTOR_RESPONSE_BYTES" "fd_world.truncate w' = fd_world.truncate w"
proof -
  let ?send = "case (br_send_private b, descriptor) of
        (Some send_private, Some fd) \<Rightarrow> send_private raw fd
      | (Some send_private, None) \<Rightarrow> act_lift (Inl TypeError)
      | (None, _) \<Rightarrow> br_send b raw"
  let ?answer = "\<lambda>response. case response of
       Not_Bytes \<Rightarrow> unavailable ''executor_transport''
     | Bytes r \<Rightarrow> if MAX_EXECUTOR_RESPONSE_BYTES < length r then unavailable ''executor_transport'' else act_lift (Inr r)"
  obtain consumed w1 where 1: "on_env (br_consume b (id_jti i) (id_expires_at i) (sha256_hex raw) (id_run_id i) (id_run_attempt i)) w =
      (Inr consumed, w1)"
      "(if consumed \<noteq> PNone then unavailable ''broker_replay''
        else act_bind (guarded ''executor_transport'' (\<lambda>_. False) (on_env ?send)) ?answer) w1 = (Inr response, w')"
    using assms unfolding spend_and_send_def by (elim act_bind_InrE) (simp only: guarded_Inr)
  then have none: "consumed = PNone" by (simp split: if_splits)
  with 1(2) have "act_bind (guarded ''executor_transport'' (\<lambda>_. False) (on_env ?send)) ?answer w1 = (Inr response, w')"
    by simp
  then obtain answer w2 where 2: "on_env ?send w1 = (Inr answer, w2)" "?answer answer w2 = (Inr response, w')"
    by (elim act_bind_InrE) (simp only: guarded_Inr)
  then have "answer = Bytes response" "w2 = w'" "length response \<le> MAX_EXECUTOR_RESPONSE_BYTES"
    by (auto simp: not_less split: reply.splits if_splits)
  with 1(1) 2(1) none show thesis
    by (auto simp: on_env_Inr intro!: that simp: fd_world.defs)
qed

lemma request_evidence_Inr:
  assumes "request_evidence b c p i v r w = (Inr (raw, request), w')"
  shows "parse_canonical_request raw = Inr request \<and> bind_request_to_identity request i = Inr () \<and> (\<forall>s. c = Some s \<longrightarrow> raw = s)"
  using assms unfolding request_evidence_def guarded_Inr act_bind_lift_Inr act_bind_Inr_iff
  by (auto split: option.splits)

text \<open>The calls on descriptors leave the environment of the collaborators alone.\<close>

definition keeps_more :: "('a fd_world_scheme, 'b) act \<Rightarrow> bool" where
  "keeps_more m \<longleftrightarrow> (\<forall>w. fd_world.more (snd (m w)) = fd_world.more w)"

named_theorems keeps_rules

lemma keeps_bind [keeps_rules]: "keeps_more m \<Longrightarrow> (\<And>x. keeps_more (f x)) \<Longrightarrow> keeps_more (act_bind m f)"
  by (auto simp: keeps_more_def act_bind_def split: prod.splits sum.splits) (metis snd_conv)+

lemma keeps_catch [keeps_rules]: "keeps_more m \<Longrightarrow> (\<And>e. keeps_more (f e)) \<Longrightarrow> keeps_more (act_catch m f)"
  by (auto simp: keeps_more_def act_catch_def split: prod.splits sum.splits) (metis snd_conv)+

lemma keeps_lift [keeps_rules]: "keeps_more (act_lift r)"
  by (simp add: keeps_more_def act_lift_def)

lemma keeps_if [keeps_rules]: "keeps_more m \<Longrightarrow> keeps_more m' \<Longrightarrow> keeps_more (if c then m else m')"
  by simp

lemma keeps_fcall: "(\<And>w. fd_world.more (snd (f w)) = fd_world.more w) \<Longrightarrow> keeps_more (fcall f)"
  by (auto simp: keeps_more_def fcall_def split: list.splits option.splits)

lemma keeps_calls [keeps_rules]:
  "keeps_more memfd_create" "keeps_more (fd_write fd raw)" "keeps_more (add_seals fd)" "keeps_more (fd_stat fd)"
  "keeps_more (fd_close fd)" "keeps_more time_now"
  unfolding memfd_create_def fd_write_def add_seals_def fd_stat_def fd_close_def
  by (rule keeps_fcall; auto simp: set_file_def close_file_def Let_def split: option.splits)+
    (simp add: keeps_more_def time_now_def)

lemma keeps_sealing: "keeps_more (create_sealed_credential token x i req now p)"
  unfolding create_sealed_credential_def seal_file_def current_time_def
  by (cases now) (auto intro!: keeps_rules)

lemma keeps_env: "keeps_more m \<Longrightarrow> m w = (r, w') \<Longrightarrow> bw_env (w' :: 'w broker_world) = bw_env w"
  unfolding keeps_more_def by (cases w, cases w') (metis broker_world.select_convs(1) fd_world.select_convs(7) snd_conv)

lemma construct_request_Inr:
  assumes "construct_request b promotion i ctx now w = (Inr raw, w')"
  obtains build built e where "br_build b = Some build" "build promotion i ctx now (bw_env w) = (Inr (Built built), e)"
    "raw = exec_canonical_bytes built" "bw_env w' = e"
proof -
  obtain build where build: "br_build b = Some build"
    using assms by (cases "br_build b") (simp_all add: construct_request_def)
  then obtain x w1 where "on_env (build promotion i ctx now) w = (Inr x, w1)"
      "(case x of Not_A_Request \<Rightarrow> act_lift (Inl ExecutorRequestError)
          | Built request \<Rightarrow>
              if \<not> plain (exec_to_dict request) then act_lift (Inl ValueError)
              else let raw = exec_canonical_bytes request in
                if raw = [] \<or> MAX_CANONICAL_REQUEST_BYTES < length raw then act_lift (Inl ExecutorRequestError)
                else act_lift (Inr raw)) w1 = (Inr raw, w')"
    using assms unfolding construct_request_def by (auto elim: act_bind_InrE)
  then show thesis
    using that [OF build] by (auto simp: on_env_Inr Let_def split: built_request.splits if_splits)
qed

text \<open>Where the request's bytes came from, and with them the context that was verified.\<close>

definition request_obtained ::
    "'w broker \<Rightarrow> authorized_identity \<Rightarrow> int \<Rightarrow> string option \<Rightarrow> pyval \<Rightarrow> pyval \<Rightarrow> 'w \<Rightarrow> string \<Rightarrow>
     'w verified_context option \<Rightarrow> 'w \<Rightarrow> bool" where
  "request_obtained b i now canonical promotion pctx e0 raw verified e1 \<longleftrightarrow>
     (case canonical of
        Some given \<Rightarrow> raw = given \<and> verified = None \<and> e1 = e0 \<and> br_send_private b = None
      | None \<Rightarrow> \<exists>verify_context build ctx e built.
          br_verify_context b = Some verify_context \<and> verify_context i pctx now e0 = (Inr ctx, e) \<and>
          br_build b = Some build \<and> build promotion i ctx now e = (Inr (Built built), e1) \<and>
          raw = exec_canonical_bytes built \<and> verified = Some ctx)"

text \<open>
  The descriptor handed to the private transport: a sealed file with the envelope of a credential
  for exactly this image and this request, which the verified context gave.
\<close>

definition credential_sealed ::
    "'w broker \<Rightarrow> string \<Rightarrow> executor_request \<Rightarrow> 'w verified_context option \<Rightarrow> 'w \<Rightarrow> 'w broker_world \<Rightarrow> int option \<Rightarrow> bool" where
  "credential_sealed b raw request verified e1 w2 descriptor \<longleftrightarrow>
     (case br_send_private b of
        None \<Rightarrow> descriptor = None \<and> bw_env w2 = e1
      | Some _ \<Rightarrow> \<exists>fd ctx token expiry t c bytes.
          descriptor = Some fd \<and> verified = Some ctx \<and> vc_zot_read_credential ctx e1 = (Inr (token, expiry), bw_env w2) \<and>
          normalize_credential token expiry (PStr (xr_exact_image_reference request)) (PStr (sha256_hex raw)) (PInt t) ''canary'' = Inr c \<and>
          envelope c = Inr bytes \<and> file_of w2 fd = Some (sealed_file bytes))"

lemma seal_credential_Inr:
  assumes "seal_credential b raw request verified w = (Inr descriptor, w2)"
  shows "credential_sealed b raw request verified (bw_env w) w2 descriptor"
proof (cases "br_send_private b")
  case None
  then show ?thesis using assms by (auto simp: seal_credential_def credential_sealed_def)
next
  case (Some send_private)
  then obtain ctx where v: "verified = Some ctx"
    using assms by (cases verified) (simp_all add: seal_credential_def guarded_Inr)
  have "act_bind (on_env (vc_zot_read_credential ctx)) (\<lambda>(credential_token, expiry).
      act_bind time_now (\<lambda>now. act_bind (create_sealed_credential credential_token expiry
         (PStr (xr_exact_image_reference request)) raw (Some now) ''canary'') (\<lambda>fd. act_lift (Inr (Some fd))))) w = (Inr descriptor, w2)"
    using assms by (simp add: seal_credential_def Some v guarded_Inr)
  then obtain credential_token expiry w0 where 1: "on_env (vc_zot_read_credential ctx) w = (Inr (credential_token, expiry), w0)"
      "act_bind time_now (\<lambda>now. act_bind (create_sealed_credential credential_token expiry
         (PStr (xr_exact_image_reference request)) raw (Some now) ''canary'') (\<lambda>fd. act_lift (Inr (Some fd)))) w0 = (Inr descriptor, w2)"
    by (rule act_bind_InrE) auto
  from 1(2) obtain t w1 fd where 2: "time_now w0 = (Inr t, w1)"
      "create_sealed_credential credential_token expiry (PStr (xr_exact_image_reference request)) raw (Some t) ''canary'' w1 = (Inr fd, w2)"
      "descriptor = Some fd"
    by (auto elim!: act_bind_InrE)
  have "bw_env w2 = bw_env w0"
    using keeps_env [OF keeps_calls(6) 2(1)] keeps_env [OF keeps_sealing 2(2)] by simp
  then have r: "vc_zot_read_credential ctx (bw_env w) = (Inr (credential_token, expiry), bw_env w2)"
    using 1(1) by (auto simp: on_env_Inr)
  obtain c bytes n where c: "normalize_credential credential_token expiry (PStr (xr_exact_image_reference request))
      (PStr (sha256_hex raw)) (PInt n) ''canary'' = Inr c" "envelope c = Inr bytes" "file_of w2 fd = Some (sealed_file bytes)"
    using 2(2) by (rule create_sealed_credential_Inr)
  show ?thesis
    unfolding credential_sealed_def Some option.case
    by (intro exI conjI) (rule 2(3), rule v, rule r, rule c(1), rule c(2), rule c(3))
qed

lemma obtained_Inr:
  assumes "(case canonical of
      None \<Rightarrow> act_bind (verify_promotion_context b i pctx now) (\<lambda>c. act_lift (Inr (Some c)))
    | Some _ \<Rightarrow> act_lift (Inr None)) w0 = (Inr verified, w1)"
    and "request_evidence b canonical promotion i verified now w1 = (Inr (raw, request), w2)"
    and "br_send_private b = None \<or> canonical = None"
  shows "request_obtained b i now canonical promotion pctx (bw_env w0) raw verified (bw_env w2)"
proof (cases canonical)
  case (Some given)
  then show ?thesis
    using assms by (auto simp: request_obtained_def request_evidence_def guarded_Inr act_bind_lift_Inr)
next
  case None
  then obtain ctx where v: "verified = Some ctx" "verify_promotion_context b i pctx now w0 = (Inr ctx, w1)"
    using assms(1) by (auto elim!: act_bind_InrE)
  then obtain verify_context where 1: "br_verify_context b = Some verify_context"
      "on_env (verify_context i pctx now) w0 = (Inr ctx, w1)"
    by (cases "br_verify_context b") (simp_all add: verify_promotion_context_def guarded_Inr)
  have "construct_request b promotion i ctx now w1 = (Inr raw, w2)"
    using assms(2) by (auto simp: request_evidence_def guarded_Inr None v(1) act_bind_lift_Inr elim!: act_bind_InrE)
  then show ?thesis
    by (rule construct_request_Inr) (use 1 None v(1) in \<open>auto simp: request_obtained_def on_env_Inr\<close>)
qed

lemma broker_forward_Inr:
  assumes "broker_forward b raw request i verified w = (Inr response, w')"
  obtains descriptor w2 env where "credential_sealed b raw request verified (bw_env w) w2 descriptor"
    "br_consume b (id_jti i) (id_expires_at i) (sha256_hex raw) (id_run_id i) (id_run_attempt i) (bw_env w2) = (Inr PNone, env)"
    "(case (br_send_private b, descriptor) of
        (Some send_private, Some fd) \<Rightarrow> send_private raw fd
      | (Some send_private, None) \<Rightarrow> act_lift (Inl TypeError)
      | (None, _) \<Rightarrow> br_send b raw) env = (Inr (Bytes response), bw_env w')"
    "length response \<le> MAX_EXECUTOR_RESPONSE_BYTES" "\<forall>fd. descriptor = Some fd \<longrightarrow> file_of w' fd = None"
proof -
  obtain descriptor w2 w3 where 1: "seal_credential b raw request verified w = (Inr descriptor, w2)"
      "spend_and_send b raw i descriptor w2 = (Inr response, w3)"
      "(case descriptor of None \<Rightarrow> act_lift (Inr ()) | Some fd \<Rightarrow> fd_close fd) w3 = (Inr (), w')"
    using assms by (auto simp: broker_forward_def act_finally_Inr elim!: act_bind_InrE split: if_splits)
  have "bw_env w' = bw_env w3"
    using 1(3) keeps_env [OF keeps_calls(5)] by (cases descriptor) auto
  moreover have "file_of w' fd = None" if "descriptor = Some fd" for fd
    using 1(3) that unfolding fd_close_def
    by (auto simp: fcall_def file_of_def close_file_def map_of_eq_None_iff split: list.splits option.splits)
  ultimately show thesis
    using 1(2) that [OF seal_credential_Inr [OF 1(1)]] by (auto elim!: spend_and_send_Inr)
qed

text \<open>
  C6: Nothing is forwarded without authority, on the path of a given request and on the promotion
  path.  When the broker returns a response, the verifier returned an identity that the reviewed
  policy authorizes for the expected workflow revision at the time of receipt; the request is
  the given bytes or, for a promotion, those of the request that the builder made from the
  verified context of this identity; it is canonical and bound to that identity; where
  the transport is private a credential for exactly this request and image was sealed first;
  the replay guard then consumed the token for the SHA-256 of exactly these bytes; only then
  were exactly these bytes sent, once, with the sealed descriptor where there is one, which is
  closed again; the response is bounded.
\<close>

theorem broker_forwards_only_authorized:
  assumes "broker_authorize b compact_token received_at canonical promotion pctx w = (Inr response, w')"
  shows "\<exists>token now returned e0 i raw request verified e1 w2 descriptor e3.
    compact_token = PStr token \<and> received_at = PInt now \<and>
    br_verify b token now (bw_env w) = (Inr returned, e0) \<and>
    normalize_identity returned now (br_expected_workflow_sha b) = Inr i \<and>
    request_obtained b i now canonical promotion pctx e0 raw verified e1 \<and>
    parse_canonical_request raw = Inr request \<and> bind_request_to_identity request i = Inr () \<and>
    credential_sealed b raw request verified e1 w2 descriptor \<and>
    br_consume b (id_jti i) (id_expires_at i) (sha256_hex raw) (id_run_id i) (id_run_attempt i) (bw_env w2) = (Inr PNone, e3) \<and>
    (case (br_send_private b, descriptor) of
       (None, None) \<Rightarrow> br_send b raw e3 = (Inr (Bytes response), bw_env w')
     | (Some send_private, Some fd) \<Rightarrow> send_private raw fd e3 = (Inr (Bytes response), bw_env w') \<and> file_of w' fd = None
     | _ \<Rightarrow> False) \<and>
    length response \<le> MAX_EXECUTOR_RESPONSE_BYTES"
proof -
  obtain token now where tn: "compact_token = PStr token" "received_at = PInt now"
    using assms by (auto simp: broker_authorize_def split: pyval.splits)
  let ?evidence = "\<lambda>i verified. act_bind (request_evidence b canonical promotion i verified now)
    (\<lambda>(raw, request). broker_forward b raw request i verified)"
  let ?checked = "\<lambda>i. case canonical of
      None \<Rightarrow> act_bind (verify_promotion_context b i pctx now) (\<lambda>c. act_lift (Inr (Some c)))
    | Some _ \<Rightarrow> act_lift (Inr None)"
  have pr: "br_send_private b = None \<or> canonical = None"
    using assms by (auto simp: broker_authorize_def tn Option.is_none_def split: if_splits option.splits)
  have "act_bind (guarded ''oidc_verify'' (\<lambda>e. caught e [OIDCVerificationError] \<and> \<not> caught e [OIDCVerificationUnavailable])
      (on_env (br_verify b token now))) (\<lambda>returned.
      act_bind (guarded ''oidc_identity'' (\<lambda>e. caught e [OIDCAuthorizationError])
        (act_lift (normalize_identity returned now (br_expected_workflow_sha b)))) (\<lambda>i.
      act_bind (?checked i) (?evidence i))) w = (Inr response, w')"
    using assms by (simp add: broker_authorize_def tn split: if_splits)
  then obtain returned w0 where 1: "on_env (br_verify b token now) w = (Inr returned, w0)"
      "act_bind (guarded ''oidc_identity'' (\<lambda>e. caught e [OIDCAuthorizationError])
        (act_lift (normalize_identity returned now (br_expected_workflow_sha b)))) (\<lambda>i.
      act_bind (?checked i) (?evidence i)) w0 = (Inr response, w')"
    by (rule act_bind_InrE) (simp only: guarded_Inr)
  from 1(2) obtain i where 2: "normalize_identity returned now (br_expected_workflow_sha b) = Inr i"
      "act_bind (?checked i) (?evidence i) w0 = (Inr response, w')"
    by (rule act_bind_InrE) (simp add: guarded_Inr)
  from 2(2) obtain verified w1 where 3: "?checked i w0 = (Inr verified, w1)" "?evidence i verified w1 = (Inr response, w')"
    by (rule act_bind_InrE)
  from 3(2) obtain raw request wr where 4: "request_evidence b canonical promotion i verified now w1 = (Inr (raw, request), wr)"
      "broker_forward b raw request i verified wr = (Inr response, w')"
    by (rule act_bind_InrE) auto
  obtain descriptor w2 env where 5: "credential_sealed b raw request verified (bw_env wr) w2 descriptor"
    "br_consume b (id_jti i) (id_expires_at i) (sha256_hex raw) (id_run_id i) (id_run_attempt i) (bw_env w2) = (Inr PNone, env)"
    "(case (br_send_private b, descriptor) of
        (Some send_private, Some fd) \<Rightarrow> send_private raw fd
      | (Some send_private, None) \<Rightarrow> act_lift (Inl TypeError)
      | (None, _) \<Rightarrow> br_send b raw) env = (Inr (Bytes response), bw_env w')"
    "length response \<le> MAX_EXECUTOR_RESPONSE_BYTES" "\<forall>fd. descriptor = Some fd \<longrightarrow> file_of w' fd = None"
    using 4(2) by (rule broker_forward_Inr)
  have sent: "case (br_send_private b, descriptor) of
       (None, None) \<Rightarrow> br_send b raw env = (Inr (Bytes response), bw_env w')
     | (Some send_private, Some fd) \<Rightarrow> send_private raw fd env = (Inr (Bytes response), bw_env w') \<and> file_of w' fd = None
     | _ \<Rightarrow> False"
    using 5(1,3,5) by (auto simp: credential_sealed_def split: option.splits)
  from 1(1) have v: "br_verify b token now (bw_env w) = (Inr returned, bw_env w0)" by (auto simp: on_env_Inr)
  show ?thesis
    using tn v 2(1) obtained_Inr [OF 3(1) 4(1) pr] request_evidence_Inr [OF 4(1)] 5(1,2,4) sent by blast
qed

text \<open>A broker with the promotion path and a private transport.\<close>

definition sample_context :: "string list verified_context" where
  "sample_context = \<lparr>vc_zot_read_credential = (\<lambda>env. (Inr (PStr ''eyJh.b.c'', PInt 1300), env))\<rparr>"

definition sample_broker :: "string list broker" where
  "sample_broker =
     \<lparr>br_expected_workflow_sha = sample_commit,
      br_verify = (\<lambda>token now env. (Inr (Exact_Identity (identity_attrs sample_identity)), env)),
      br_consume = (\<lambda>jti expires request_hash run attempt env. (Inr PNone, env @ [''spent''])),
      br_send = (\<lambda>raw env. (Inr (Bytes ''public''), env)),
      br_build = Some (\<lambda>promotion i ctx now env. (Inr (Built sample_exec), env)),
      br_verify_context = Some (\<lambda>i pctx now env. (Inr sample_context, env)),
      br_send_private = Some (\<lambda>raw fd env. (Inr (Bytes ''done''), env @ [raw]))\<rparr>"

definition sample_broker_world :: "string list broker_world" where
  "sample_broker_world = fd_world.extend sample_fds \<lparr>bw_env = [], bw_log = []\<rparr>"

lemma sample_exec_bound: "bind_request_to_identity sample_exec sample_identity = Inr ()"
  by (simp add: bind_request_to_identity_def sample_exec_def sample_identity_def sample_commit_def)

lemma sample_exec_parses: "parse_canonical_request (exec_canonical_bytes sample_exec) = Inr sample_exec"
  by (rule parse_canonical_roundtrip [OF sample_exec_wf sample_exec_short])

lemma sample_broker_forwards:
  "\<exists>w'. broker_authorize sample_broker (PStr ''token'') (PInt 1010) None (PInt 1) (PInt 2) sample_broker_world = (Inr ''done'', w')"
proof -
  let ?raw = "exec_canonical_bytes sample_exec"
  have raw: "?raw \<noteq> []" "\<not> MAX_CANONICAL_REQUEST_BYTES < length ?raw"
    using sample_exec_parses by (auto simp: parse_canonical_request_Inr)
  have n: "normalize_identity (Exact_Identity (identity_attrs sample_identity)) 1010 sample_commit = Inr sample_identity"
    using normalize_identity_exact [OF sample_claims_authorized] by (simp add: sample_commit_def)
  have h: "fullmatch SHA256_RE (sha256_hex ?raw)" by (simp add: fullmatch_SHA256_RE)
  let ?w1 = "sample_broker_world\<lparr>fw_ticks := 1\<rparr>"
  let ?c = "sample_credential\<lparr>sc_image := xr_exact_image_reference sample_exec, sc_request_sha256 := sha256_hex ?raw\<rparr>"
  have img: "xr_exact_image_reference sample_exec = OCI_PREFIX @ replicate 64 (CHR ''b'')" by code_simp
  have c: "normalize_credential (PStr ''eyJh.b.c'') (PInt 1300) (PStr (xr_exact_image_reference sample_exec))
      (PStr (sha256_hex ?raw)) (PInt 1100) ''canary'' = Inr ?c"
    using sample_credential_ok(1) h
    by (simp only: normalize_credential_Inr wf_credential_def img) (simp add: sample_credential_def)
  have "print_bound (envelope_dict ?c) \<le> 2000"
    unfolding img by (simp add: envelope_dict_def sample_credential_def OCI_HOST_def OCI_PREFIX_def)
  then have "length (json_dumps (envelope_dict ?c)) \<le> 2000" using length_json_dumps order_trans by blast
  then obtain bytes where e: "envelope ?c = Inr bytes" "length bytes \<le> MAX_ENVELOPE_BYTES"
    by (simp add: envelope_def MAX_ENVELOPE_BYTES_def int_fits_64 sample_credential_def)
  have w1: "fw_faults ?w1 = []" "fw_short_writes ?w1 = []" "fw_next ?w1 = 7"
    by (simp_all add: sample_broker_world_def fd_world.defs sample_fds_def)
  have len: "length ?raw \<le> MAX_REQUEST_BYTES"
    using raw(2) by (simp add: MAX_REQUEST_BYTES_def MAX_CANONICAL_REQUEST_BYTES_def)
  obtain w2 where 2: "create_sealed_credential (PStr ''eyJh.b.c'') (PInt 1300) (PStr (xr_exact_image_reference sample_exec)) ?raw
      (Some 1100) ''canary'' ?w1 = (Inr 7, w2)" "fw_faults w2 = []"
    using create_sealed_credential_quiet [OF w1(1,2) raw(1) len c e] w1(3) by auto
  obtain m where m: "file_of w2 7 = Some m" using 2(1) by (rule create_sealed_credential_Inr) auto
  have t: "time_now sample_broker_world = (Inr 1100, ?w1)"
    by (simp add: time_now_def sample_broker_world_def fd_world.defs sample_fds_def)
  have seal: "seal_credential sample_broker ?raw sample_exec (Some sample_context) sample_broker_world = (Inr (Some 7), w2)"
    using 2(1) t by (simp add: seal_credential_def sample_broker_def sample_context_def guarded_def act_catch_def act_bind_def on_env_def)
  have spend: "spend_and_send sample_broker ?raw sample_identity (Some 7) w2 = (Inr ''done'', w2\<lparr>bw_env := bw_env w2 @ [''spent'', ?raw]\<rparr>)"
    by (simp add: spend_and_send_def sample_broker_def guarded_def act_catch_def act_bind_def on_env_def MAX_EXECUTOR_RESPONSE_BYTES_def)
  let ?w3 = "w2\<lparr>bw_env := bw_env w2 @ [''spent'', ?raw]\<rparr>"
  have close: "fd_close 7 ?w3 = (Inr (), close_file 7 ?w3)"
    using 2(2) m by (simp add: fd_close_def fcall_def file_of_def)
  have fwd: "broker_forward sample_broker ?raw sample_exec sample_identity (Some sample_context) sample_broker_world =
      (Inr ''done'', close_file 7 ?w3)"
    by (simp add: broker_forward_def h act_bind_def seal act_finally_def spend close)
  have plain: "plain (exec_to_dict sample_exec)" by (rule plain_exec_to_dict [OF sample_exec_wf])
  have ev: "request_evidence sample_broker None (PInt 1) sample_identity (Some sample_context) 1010 sample_broker_world =
      (Inr (?raw, sample_exec), sample_broker_world)"
    by (simp add: request_evidence_def guarded_def act_catch_def construct_request_def sample_broker_def act_bind_def on_env_def
        plain raw Let_def sample_exec_parses sample_exec_bound)
  have "verify_promotion_context sample_broker sample_identity (PInt 2) 1010 sample_broker_world = (Inr sample_context, sample_broker_world)"
    by (simp add: verify_promotion_context_def sample_broker_def guarded_def act_catch_def on_env_def)
  moreover have "on_env (br_verify sample_broker ''token'' 1010) sample_broker_world =
      (Inr (Exact_Identity (identity_attrs sample_identity)), sample_broker_world)" "br_expected_workflow_sha sample_broker = sample_commit"
      "br_build sample_broker \<noteq> None" "br_verify_context sample_broker \<noteq> None"
    by (simp_all add: sample_broker_def on_env_def)
  ultimately have "broker_authorize sample_broker (PStr ''token'') (PInt 1010) None (PInt 1) (PInt 2) sample_broker_world =
      (Inr ''done'', close_file 7 ?w3)"
    by (simp add: broker_authorize_def Option.is_none_def act_bind_def guarded_def act_catch_def n ev fwd)
  then show ?thesis by blast
qed

theorem broker_forwards_only_authorized_witness:
  "\<exists>w' w2 fd. broker_authorize sample_broker (PStr ''token'') (PInt 1010) None (PInt 1) (PInt 2) sample_broker_world = (Inr ''done'', w') \<and>
     credential_sealed sample_broker (exec_canonical_bytes sample_exec) sample_exec (Some sample_context) [] w2 (Some fd) \<and>
     bw_env w2 = [] \<and> bw_env w' = [''spent'', exec_canonical_bytes sample_exec] \<and> file_of w' fd = None"
proof -
  obtain w' where run: "broker_authorize sample_broker (PStr ''token'') (PInt 1010) None (PInt 1) (PInt 2) sample_broker_world = (Inr ''done'', w')"
    using sample_broker_forwards by blast
  have env: "bw_env sample_broker_world = []" by (simp add: sample_broker_world_def fd_world.defs)
  from broker_forwards_only_authorized [OF run] obtain raw request verified e1 w2 descriptor e3 i where
    *: "request_obtained sample_broker i 1010 None (PInt 1) (PInt 2) [] raw verified e1" "parse_canonical_request raw = Inr request"
      "credential_sealed sample_broker raw request verified e1 w2 descriptor"
      "e3 = bw_env w2 @ [''spent'']"
      "case descriptor of None \<Rightarrow> False | Some fd \<Rightarrow> bw_env w' = e3 @ [raw] \<and> file_of w' fd = None"
    by (auto simp: sample_broker_def env split: option.splits)
  then have "raw = exec_canonical_bytes sample_exec" "verified = Some sample_context" "e1 = []"
    by (auto simp: request_obtained_def sample_broker_def)
  moreover from this * have "request = sample_exec" using sample_exec_parses by simp
  moreover from calculation * have "bw_env w2 = []"
    by (auto simp: credential_sealed_def sample_context_def sample_broker_def)
  ultimately show ?thesis using * run by (cases descriptor) auto
qed

section \<open>Runs that raise\<close>

definition broker_error :: "exn \<Rightarrow> bool" where
  "broker_error e \<longleftrightarrow> e \<in> {BrokerRejectedError, BrokerUnavailableError} \<or> \<not> is_Exception e"

lemma wp_guarded: "(\<And>x w'. Q x w') \<Longrightarrow> wp (guarded phase rejects m) Q (\<lambda>e _. broker_error e) w"
  by (auto simp: wp_def guarded_def act_catch_def rejected_def unavailable_def broker_error_def split: prod.splits sum.splits)

lemma wp_raised: "wp rejected Q (\<lambda>e _. broker_error e) w" "wp (unavailable phase) Q (\<lambda>e _. broker_error e) w"
  by (simp_all add: wp_def rejected_def unavailable_def broker_error_def)

end
