(* ===== verification/Executor.thy ===== *)
theory Executor
  imports Broker
begin

unbundle bit_operations_syntax

text \<open>
  \<open>src/deployment/executor.py\<close> and the request scope and credential budget of
  \<open>src/deployment/private_registry_pull.py\<close>: the privileged executor, which parses the request
  again, moves the replay record to executing, runs the one deployment operation and
  moves the record to finished.  The collaborators are actions on an environment of any type;
  the executor's own world adds the gate against a second run on the same instance, the
  request scope of the private pull and the lines written to standard error.
\<close>

section \<open>Collaborator methods\<close>

text \<open>What \<open>__code__\<close> and the defaults of a plain function say.\<close>

record code_shape =
  cs_posonlyargcount :: nat
  cs_argcount :: nat
  cs_kwonlyargcount :: nat
  cs_varnames :: "string list"
  cs_flags :: nat
  cs_has_defaults :: bool
  cs_has_kwdefaults :: bool

datatype descriptor = Plain_Function code_shape | Other_Descriptor

definition DISALLOWED_FLAGS :: nat where
  "DISALLOWED_FLAGS = 0x04 OR 0x08 OR 0x20 OR 0x80 OR 0x100 OR 0x200"

text \<open>The class of the collaborator is the list of its bases' namespaces in resolution order.\<close>

fun find_descriptor :: "(string \<times> descriptor) list list \<Rightarrow> string \<Rightarrow> descriptor option" where
  "find_descriptor [] name = None"
| "find_descriptor (namespace # bases) name =
     (case map_of namespace name of Some d \<Rightarrow> Some d | None \<Rightarrow> find_descriptor bases name)"

definition ordinary_bound_method ::
    "(string \<times> descriptor) list list option \<Rightarrow> string \<Rightarrow> string list \<Rightarrow> string list \<Rightarrow> code_shape result" where
  "ordinary_bound_method dependency name positional keyword_only =
     (case dependency of
        None \<Rightarrow> Inl TypeError
      | Some hierarchy \<Rightarrow>
          (case find_descriptor hierarchy name of
             Some (Plain_Function code) \<Rightarrow>
               if cs_posonlyargcount code \<noteq> 0 \<or> cs_argcount code \<noteq> length positional + 1 \<or>
                  cs_kwonlyargcount code \<noteq> length keyword_only \<or>
                  drop 1 (take (cs_argcount code) (cs_varnames code)) \<noteq> positional \<or>
                  drop (cs_argcount code) (take (cs_argcount code + cs_kwonlyargcount code) (cs_varnames code)) \<noteq> keyword_only \<or>
                  cs_flags code AND DISALLOWED_FLAGS \<noteq> 0 \<or> cs_has_defaults code \<or> cs_has_kwdefaults code
               then Inl TypeError else Inr code
           | _ \<Rightarrow> Inl TypeError))"

section \<open>Responses\<close>

definition EXECUTOR_RESPONSE_SCHEMA_VERSION :: int where "EXECUTOR_RESPONSE_SCHEMA_VERSION = 1"

definition EXECUTOR_RESPONSE_FIELDS :: "string list" where
  "EXECUTOR_RESPONSE_FIELDS = [''executor_request_sha256'', ''schema_version'', ''status'']"

definition valid_sha256 :: "string \<Rightarrow> bool" where
  "valid_sha256 s \<longleftrightarrow> length s = 64 \<and> list_all (\<lambda>c. c \<in> set ''0123456789abcdef'') s"

record executor_response =
  er_executor_request_sha256 :: string
  er_schema_version :: int
  er_status :: string

definition response_from_dict :: "pyval \<Rightarrow> executor_response result" where
  "response_from_dict v =
     (case v of
        PDict d \<Rightarrow>
          if length d \<noteq> length EXECUTOR_RESPONSE_FIELDS \<or> set (keys d) \<noteq> set EXECUTOR_RESPONSE_FIELDS \<or>
             getv d ''schema_version'' \<noteq> PInt EXECUTOR_RESPONSE_SCHEMA_VERSION \<or> getv d ''status'' \<noteq> PStr ''succeeded''
          then Inl ValueError
          else (case getv d ''executor_request_sha256'' of
            PStr h \<Rightarrow>
              if \<not> valid_sha256 h then Inl ValueError
              else Inr \<lparr>er_executor_request_sha256 = h, er_schema_version = EXECUTOR_RESPONSE_SCHEMA_VERSION,
                        er_status = ''succeeded''\<rparr>
          | _ \<Rightarrow> Inl ValueError)
      | _ \<Rightarrow> Inl ValueError)"

definition response_to_dict :: "executor_response \<Rightarrow> pyval result" where
  "response_to_dict r =
     (if \<not> valid_sha256 (er_executor_request_sha256 r) \<or> er_schema_version r \<noteq> EXECUTOR_RESPONSE_SCHEMA_VERSION \<or>
         er_status r \<noteq> ''succeeded''
      then Inl ValueError
      else Inr (PDict
        [(''executor_request_sha256'', PStr (er_executor_request_sha256 r)),
         (''schema_version'', PInt (er_schema_version r)), (''status'', PStr (er_status r))]))"

definition response_canonical_bytes :: "executor_response \<Rightarrow> string result" where
  "response_canonical_bytes r =
     bnd (response_to_dict r) (\<lambda>d.
     let encoded = canonical_bytes d in
     if encoded = [] \<or> MAX_EXECUTOR_RESPONSE_BYTES < length encoded then Inl ValueError else Inr encoded)"

definition QUOTED :: "string \<Rightarrow> string" where "QUOTED s = CHR 0x22 # s @ [CHR 0x22]"

definition build_success_response :: "string \<Rightarrow> string" where
  "build_success_response request_hash =
     ''{'' @ QUOTED ''executor_request_sha256'' @ '':'' @ QUOTED request_hash @ '','' @ QUOTED ''schema_version'' @ '':1,'' @
     QUOTED ''status'' @ '':'' @ QUOTED ''succeeded'' @ ''}'' @ [NEWLINE]"

definition response_hooks :: json_hooks where
  "response_hooks = \<lparr>pairs_hook = unique_pairs ValueError, constant_hook = float_constant\<rparr>"

definition parse_canonical_response :: "string \<Rightarrow> executor_response result" where
  "parse_canonical_response raw =
     (if raw = [] \<or> MAX_EXECUTOR_RESPONSE_BYTES < length raw then Inl ValueError
      else
      bnd (catch_as [UnicodeDecodeError, JSONDecodeError, ValueError, TypeError] ValueError
        (bnd (ascii_decode raw) (\<lambda>text. bnd (json_loads response_hooks text) response_from_dict))) (\<lambda>response.
      bnd (response_canonical_bytes response) (\<lambda>encoded.
      if encoded \<noteq> raw then Inl ValueError else Inr response)))"

section \<open>The executor\<close>

record 'w executor =
  ex_begin :: "string \<Rightarrow> string \<Rightarrow> int \<Rightarrow> int \<Rightarrow> ('w, pyval) act"
  ex_deploy :: "executor_request \<Rightarrow> ('w, pyval) act"
  ex_finish :: "string \<Rightarrow> string \<Rightarrow> int \<Rightarrow> int \<Rightarrow> ('w, pyval) act"
  ex_preflight :: "(string \<Rightarrow> int \<Rightarrow> ('w, pyval) act) option"

record 'w exec_world = fd_world +
  xw_env :: 'w
  xw_active :: bool
  xw_private :: "(int \<times> string) option"
  xw_log :: "string list"

text \<open>The constructor captures the methods of the right shape.\<close>

definition executor_init ::
    "(string \<times> descriptor) list list option \<Rightarrow> (string \<times> descriptor) list list option \<Rightarrow>
     (string \<times> descriptor) list list option \<Rightarrow> 'w executor \<Rightarrow> 'w executor result" where
  "executor_init guard operation preflight methods =
     bnd (ordinary_bound_method guard ''begin_execution'' [''jti''] [''request_hash'', ''run_id'', ''run_attempt'']) (\<lambda>_.
     bnd (ordinary_bound_method operation ''deploy'' [''request''] []) (\<lambda>_.
     bnd (ordinary_bound_method guard ''finish_execution'' [''jti''] [''request_hash'', ''run_id'', ''run_attempt'']) (\<lambda>_.
     case preflight of
       None \<Rightarrow> Inr (methods\<lparr>ex_preflight := None\<rparr>)
     | Some _ \<Rightarrow>
         bnd (ordinary_bound_method preflight ''preflight_private_registry'' [''canonical_request'', ''credential_fd''] [])
           (\<lambda>_. Inr methods))))"

definition on_xenv :: "('w, 'a) act \<Rightarrow> ('w exec_world, 'a) act" where
  "on_xenv m w = (case m (xw_env w) of (r, e) \<Rightarrow> (r, w\<lparr>xw_env := e\<rparr>))"

text \<open>\<open>try: m except Exception: unavailable\<close>\<close>

definition or_unavailable :: "('w, 'a) act \<Rightarrow> ('w, 'a) act" where
  "or_unavailable m = act_catch m (\<lambda>e. act_lift (Inl (if is_Exception e then ExecutorUnavailableError else e)))"

definition begin_errors :: "exn \<Rightarrow> exn" where
  "begin_errors e =
     (if caught e [ReplayUnavailableError] then ExecutorUnavailableError
      else if caught e [ReplayError] then ExecutorRejectedError
      else if is_Exception e then ExecutorUnavailableError else e)"

definition replay_binding_ok :: "executor_request \<Rightarrow> bool" where
  "replay_binding_ok r \<longleftrightarrow>
     fullmatch JTI_RE (xr_oidc_jti r) \<and> \<not> has_dotdot (xr_oidc_jti r) \<and>
     1 \<le> xr_github_run_id r \<and> xr_github_run_id r \<le> MAX_IDENTIFIER \<and>
     1 \<le> xr_github_run_attempt r \<and> xr_github_run_attempt r \<le> MAX_IDENTIFIER"

definition execute_entered :: "'w executor \<Rightarrow> executor_request \<Rightarrow> string \<Rightarrow> ('w exec_world, string) act" where
  "execute_entered x request request_hash =
     (let jti = xr_oidc_jti request; run_id = xr_github_run_id request; run_attempt = xr_github_run_attempt request in
      act_bind (act_catch (on_xenv (ex_begin x jti request_hash run_id run_attempt)) (\<lambda>e. act_lift (Inl (begin_errors e)))) (\<lambda>begin_result.
      if begin_result \<noteq> PNone then act_lift (Inl ExecutorUnavailableError)
      else
      act_bind (or_unavailable (on_xenv (ex_deploy x request))) (\<lambda>operation_result.
      if operation_result \<noteq> PNone then act_lift (Inl ExecutorUnavailableError)
      else
      act_bind (or_unavailable (on_xenv (ex_finish x jti request_hash run_id run_attempt))) (\<lambda>finish_result.
      if finish_result \<noteq> PNone then act_lift (Inl ExecutorUnavailableError)
      else
      let response = build_success_response request_hash in
      if MAX_EXECUTOR_RESPONSE_BYTES < length response then act_lift (Inl ExecutorUnavailableError)
      else act_lift (Inr response)))))"

definition enter_execution :: "('w exec_world, bool) act" where
  "enter_execution w = (if xw_active w then (Inr False, w) else (Inr True, w\<lparr>xw_active := True\<rparr>))"

definition leave_execution :: "('w exec_world, unit) act" where
  "leave_execution w = (Inr (), w\<lparr>xw_active := False\<rparr>)"

definition execute_bytes :: "'w executor \<Rightarrow> string \<Rightarrow> ('w exec_world, string) act" where
  "execute_bytes x raw =
     (case parse_canonical_request raw of
        Inl e \<Rightarrow>
          act_lift (Inl (if caught e [ExecutorRequestError] then ExecutorRejectedError
                         else if is_Exception e then ExecutorUnavailableError else e))
      | Inr request \<Rightarrow>
          let request_hash = sha256_hex raw in
          if \<not> valid_sha256 request_hash then act_lift (Inl ExecutorUnavailableError)
          else if \<not> replay_binding_ok request then act_lift (Inl ExecutorUnavailableError)
          else
          act_bind enter_execution (\<lambda>entered.
          if \<not> entered then act_lift (Inl ExecutorUnavailableError)
          else act_finally (execute_entered x request request_hash) leave_execution))"

definition executor_execute :: "'w executor \<Rightarrow> reply \<Rightarrow> ('w exec_world, string) act" where
  "executor_execute x canonical_request w =
     (if \<not> Option.is_none (ex_preflight x) \<and> xw_private w = None then (Inl ExecutorRejectedError, w)
      else case canonical_request of
        Not_Bytes \<Rightarrow> (Inl ExecutorRejectedError, w)
      | Bytes raw \<Rightarrow>
          if raw = [] \<or> MAX_CANONICAL_REQUEST_BYTES < length raw then (Inl ExecutorRejectedError, w)
          else execute_bytes x raw w)"

section \<open>The private pull\<close>

definition MIN_VALIDITY_SECONDS :: int where "MIN_VALIDITY_SECONDS = 45"
definition PRIVATE_PULL_TIMEOUT_SECONDS :: int where "PRIVATE_PULL_TIMEOUT_SECONDS = 180"
definition MIN_POST_PREFLIGHT_VALIDITY_SECONDS :: int where
  "MIN_POST_PREFLIGHT_VALIDITY_SECONDS = MIN_VALIDITY_SECONDS + PRIVATE_PULL_TIMEOUT_SECONDS"

definition require_private_zot_pull_budget :: "int \<Rightarrow> string \<Rightarrow> string \<Rightarrow> ('a fd_world_scheme, unit) act" where
  "require_private_zot_pull_budget fd raw img =
     act_catch
       (act_bind time_now (\<lambda>current.
        act_bind (read_sealed_credential fd raw img (Some current) ''canary'') (\<lambda>verified.
        if sc_expires_at verified - current < MIN_POST_PREFLIGHT_VALIDITY_SECONDS then act_lift (Inl ValueError)
        else act_lift (Inr ()))))
       (\<lambda>e. act_lift (Inl (if is_Exception e then PrivateRegistryPullError else e)))"

definition scoped_private_zot_request :: "int \<Rightarrow> string \<Rightarrow> ('w exec_world, 'a) act \<Rightarrow> ('w exec_world, 'a) act" where
  "scoped_private_zot_request fd raw body w =
     (if fd < 0 \<or> raw = [] then (Inl PrivateRegistryPullError, w)
      else case body (w\<lparr>xw_private := Some (fd, raw)\<rparr>) of (r, w1) \<Rightarrow> (r, w1\<lparr>xw_private := xw_private w\<rparr>))"

text \<open>A step of \<open>execute_private\<close>: an \<open>Exception\<close> is logged with the step's phase.\<close>

definition in_phase :: "string \<Rightarrow> ('w exec_world, 'a) act \<Rightarrow> ('w exec_world, 'a) act" where
  "in_phase phase m w =
     (case m w of
        (Inl e, w1) \<Rightarrow>
          if is_Exception e then (Inl ExecutorUnavailableError, w1\<lparr>xw_log := xw_log w1 @ [phase]\<rparr>) else (Inl e, w1)
      | (Inr y, w1) \<Rightarrow> (Inr y, w1))"

definition execute_private :: "'w executor \<Rightarrow> string \<Rightarrow> int \<Rightarrow> ('w exec_world, string) act" where
  "execute_private x raw fd =
     (case ex_preflight x of
        None \<Rightarrow> act_lift (Inl ExecutorUnavailableError)
      | Some preflight \<Rightarrow>
          act_bind (in_phase ''private_preflight_setup'' (act_lift (parse_canonical_request raw))) (\<lambda>request.
          act_bind (in_phase ''credential_validation''
            (read_sealed_credential fd raw (xr_exact_image_reference request) None ''canary'')) (\<lambda>_.
          act_bind (in_phase ''registry_manifest_preflight''
            (act_bind (on_xenv (preflight raw fd)) (\<lambda>r. if r \<noteq> PNone then act_lift (Inl ValueError) else act_lift (Inr ())))) (\<lambda>_.
          act_bind (in_phase ''credential_pull_budget''
            (require_private_zot_pull_budget fd raw (xr_exact_image_reference request))) (\<lambda>_.
          in_phase ''deployment_execution'' (scoped_private_zot_request fd raw (executor_execute x (Bytes raw))))))))"

section \<open>The response\<close>

lemma hex_chars: "c \<in> set ''0123456789abcdef'' \<longleftrightarrow> is_lower_hex c"
proof
  show "c \<in> set ''0123456789abcdef'' \<Longrightarrow> is_lower_hex c"
    by (auto simp: is_lower_hex_def is_digit_def rng_def)
  assume "is_lower_hex c"
  then have "(of_char c :: nat) \<in> {48..<58} \<union> {97..<103}" by (auto simp: is_lower_hex_def is_digit_def rng_def)
  then have "(of_char c :: nat) \<in> set ([48..<58] @ [97..<103])" by (simp only: set_append set_upt)
  then have "c \<in> char_of ` set ([48..<58] @ [97..<103] :: nat list)" by (metis char_of_char image_eqI)
  moreover have "map char_of ([48..<58] @ [97..<103] :: nat list) = ''0123456789abcdef''" by code_simp
  ultimately show "c \<in> set ''0123456789abcdef''" by (metis set_map)
qed

lemma hex_escape: "is_lower_hex c \<Longrightarrow> escape_char c = [c]"
  by (auto simp: escape_char_def is_lower_hex_def is_digit_def rng_def QUOTE_def BACKSLASH_def Let_def)

lemma valid_sha256_iff: "valid_sha256 s \<longleftrightarrow> length s = 64 \<and> list_all is_lower_hex s"
  by (simp only: valid_sha256_def hex_chars)

lemma quote_hex: "list_all is_lower_hex s \<Longrightarrow> quote s = QUOTED s"
proof -
  have "list_all is_lower_hex s \<Longrightarrow> concat (map escape_char s) = s"
    by (induction s) (use hex_escape in auto)
  then show "list_all is_lower_hex s \<Longrightarrow> ?thesis" by (simp add: quote_def QUOTED_def QUOTE_def)
qed

definition success :: "string \<Rightarrow> executor_response" where
  "success h = \<lparr>er_executor_request_sha256 = h, er_schema_version = 1, er_status = ''succeeded''\<rparr>"

definition success_dict :: "string \<Rightarrow> pyval" where
  "success_dict h = PDict [(''executor_request_sha256'', PStr h), (''schema_version'', PInt 1), (''status'', PStr ''succeeded'')]"

lemma success_bytes: "valid_sha256 h \<Longrightarrow> canonical_bytes (success_dict h) = build_success_response h"
proof -
  have "quote ''executor_request_sha256'' = QUOTED ''executor_request_sha256''" "quote ''schema_version'' = QUOTED ''schema_version''"
    "quote ''status'' = QUOTED ''status''" "quote ''succeeded'' = QUOTED ''succeeded''" "str_of_int 1 = ''1''"
    by code_simp+
  then show "valid_sha256 h \<Longrightarrow> ?thesis"
    by (simp add: canonical_bytes_def success_dict_def json_dumps_def build_success_response_def quote_hex valid_sha256_iff)
qed

lemma length_success: "valid_sha256 h \<Longrightarrow> length (build_success_response h) \<le> MAX_EXECUTOR_RESPONSE_BYTES"
  by (simp add: build_success_response_def QUOTED_def valid_sha256_def MAX_EXECUTOR_RESPONSE_BYTES_def)

lemma response_hooks_keep [simp]: "keeps_pairs response_hooks"
  by (simp add: response_hooks_def)

lemma success_encodes:
  assumes "valid_sha256 h"
  shows "response_to_dict (success h) = Inr (success_dict h)"
    and "response_canonical_bytes (success h) = Inr (build_success_response h)"
proof -
  show d: "response_to_dict (success h) = Inr (success_dict h)"
    using assms by (simp add: response_to_dict_def success_def success_dict_def EXECUTOR_RESPONSE_SCHEMA_VERSION_def)
  show "response_canonical_bytes (success h) = Inr (build_success_response h)"
    using length_success [OF assms]
    by (simp add: response_canonical_bytes_def d success_bytes assms) (simp add: build_success_response_def)
qed

lemma success_parses:
  assumes h: "valid_sha256 h"
  shows "parse_canonical_response (build_success_response h) = Inr (success h)"
proof -
  have p: "plain (success_dict h)" by (simp add: success_dict_def int_fits_64)
  have "json_loads response_hooks (build_success_response h) = Inr (canon (success_dict h))"
    using canonical_loads [OF response_hooks_keep p] by (simp add: success_bytes h)
  moreover have "response_from_dict (canon (success_dict h)) = Inr (success h)"
    using h by (simp add: success_dict_def response_from_dict_def keys_def EXECUTOR_RESPONSE_FIELDS_def getv_def
        EXECUTOR_RESPONSE_SCHEMA_VERSION_def success_def)
  moreover have "ascii_decode (build_success_response h) = Inr (build_success_response h)"
    using json_dumps_ascii [OF p] success_bytes [OF h, symmetric]
    by (simp add: ascii_decode_def canonical_bytes_def, simp add: ascii_def NEWLINE_def)
  ultimately show ?thesis
    using length_success [OF h]
    by (simp add: parse_canonical_response_def success_encodes h) (simp add: build_success_response_def)
qed

text \<open>
  The response that the executor assembles from literal bytes is the canonical encoding of the
  closed success response: it is what \<open>ExecutorResponse.canonical_bytes\<close> computes, it parses back
  strictly to that response, and any bytes that parse strictly are the success bytes of the
  digest they name.
\<close>

theorem success_response_canonical:
  "(valid_sha256 h \<longrightarrow>
      response_canonical_bytes (success h) = Inr (build_success_response h) \<and>
      parse_canonical_response (build_success_response h) = Inr (success h)) \<and>
   (parse_canonical_response raw = Inr r \<longrightarrow>
      valid_sha256 (er_executor_request_sha256 r) \<and> raw = build_success_response (er_executor_request_sha256 r))"
proof (intro conjI impI)
  assume "valid_sha256 h"
  then show "response_canonical_bytes (success h) = Inr (build_success_response h)"
      "parse_canonical_response (build_success_response h) = Inr (success h)"
    by (rule success_encodes success_parses)+
next
  assume "parse_canonical_response raw = Inr r"
  then obtain v where r: "response_from_dict v = Inr r" "response_canonical_bytes r = Inr raw"
    by (auto simp: parse_canonical_response_def)
  then obtain h where h: "r = success h" "valid_sha256 h"
    by (auto simp: response_from_dict_def success_def EXECUTOR_RESPONSE_SCHEMA_VERSION_def split: pyval.splits if_splits)
  then show "valid_sha256 (er_executor_request_sha256 r)" by (simp add: success_def)
  have "response_to_dict r = Inr (success_dict h)" using h success_encodes(1) by simp
  with r(2) have "raw = canonical_bytes (success_dict h)" by (auto simp: response_canonical_bytes_def Let_def split: if_splits)
  then show "raw = build_success_response (er_executor_request_sha256 r)"
    using h by (simp add: success_bytes) (simp add: success_def)
qed

theorem success_response_canonical_witness:
  "parse_canonical_response (build_success_response (replicate 64 (CHR ''c''))) = Inr (success (replicate 64 (CHR ''c'')))"
proof -
  have "valid_sha256 (replicate 64 (CHR ''c''))" by code_simp
  then show ?thesis using success_response_canonical [of "replicate 64 (CHR ''c'')"] by blast
qed

section \<open>Runs of the executor\<close>

lemma on_xenv_run: "on_xenv m w = (r, w') \<longleftrightarrow> (\<exists>e. m (xw_env w) = (r, e) \<and> w' = w\<lparr>xw_env := e\<rparr>)"
  by (auto simp: on_xenv_def split: prod.splits)

lemma execute_entered_cases:
  assumes "execute_entered x request h w = (r, w')"
  obtains
    (refused) b e1 where "ex_begin x (xr_oidc_jti request) h (xr_github_run_id request) (xr_github_run_attempt request) (xw_env w) = (b, e1)"
      "b \<noteq> Inr PNone" "w' = w\<lparr>xw_env := e1\<rparr>" "\<exists>e. r = Inl e"
  | (failed) e1 d e2 where "ex_begin x (xr_oidc_jti request) h (xr_github_run_id request) (xr_github_run_attempt request) (xw_env w) = (Inr PNone, e1)"
      "ex_deploy x request e1 = (d, e2)" "d \<noteq> Inr PNone" "w' = w\<lparr>xw_env := e2\<rparr>" "\<exists>e. r = Inl e"
  | (deployed) e1 e2 f e3 where "ex_begin x (xr_oidc_jti request) h (xr_github_run_id request) (xr_github_run_attempt request) (xw_env w) = (Inr PNone, e1)"
      "ex_deploy x request e1 = (Inr PNone, e2)"
      "ex_finish x (xr_oidc_jti request) h (xr_github_run_id request) (xr_github_run_attempt request) e2 = (f, e3)"
      "w' = w\<lparr>xw_env := e3\<rparr>" "\<forall>y. r = Inr y \<longrightarrow> f = Inr PNone \<and> y = build_success_response h"
proof -
  let ?a = "\<lambda>m. m (xr_oidc_jti request) h (xr_github_run_id request) (xr_github_run_attempt request)"
  obtain b e1 where b: "?a (ex_begin x) (xw_env w) = (b, e1)" by fastforce
  show thesis
  proof (cases "b = Inr PNone")
    case False
    then have "w' = w\<lparr>xw_env := e1\<rparr> \<and> (\<exists>e. r = Inl e)"
      using assms b by (cases b) (auto simp: execute_entered_def Let_def act_bind_def act_catch_def on_xenv_def)
    with b False show thesis by (intro refused) auto
  next
    case True
    obtain d e2 where d: "ex_deploy x request e1 = (d, e2)" by fastforce
    show thesis
    proof (cases "d = Inr PNone")
      case False
      then have "w' = w\<lparr>xw_env := e2\<rparr> \<and> (\<exists>e. r = Inl e)"
        using assms b d \<open>b = _\<close>
        by (cases d) (auto simp: execute_entered_def Let_def act_bind_def act_catch_def on_xenv_def or_unavailable_def)
      with b d \<open>b = _\<close> False show thesis by (intro failed) auto
    next
      case True
      obtain f e3 where f: "?a (ex_finish x) e2 = (f, e3)" by fastforce
      have "w' = w\<lparr>xw_env := e3\<rparr> \<and> (\<forall>y. r = Inr y \<longrightarrow> f = Inr PNone \<and> y = build_success_response h)"
        using assms b d f \<open>b = _\<close> True
        by (cases f) (auto simp: execute_entered_def act_bind_def act_catch_def on_xenv_def or_unavailable_def Let_def split: if_splits)
      with b d f \<open>b = _\<close> True show thesis by (intro deployed) auto
    qed
  qed
qed

lemma executor_execute_run:
  assumes "executor_execute x c w = (r, w')"
  obtains (none) "w' = w" "\<exists>e. r = Inl e"
  | (ran) raw request where "c = Bytes raw" "parse_canonical_request raw = Inr request" "replay_binding_ok request" "\<not> xw_active w"
      "execute_entered x request (sha256_hex raw) (w\<lparr>xw_active := True\<rparr>) = (r, w'\<lparr>xw_active := True\<rparr>)" "\<not> xw_active w'"
proof (cases "\<exists>raw request. c = Bytes raw \<and> parse_canonical_request raw = Inr request \<and> replay_binding_ok request \<and> \<not> xw_active w")
  case False
  then have "w' = w \<and> (\<exists>e. r = Inl e)"
    using assms by (auto simp: executor_execute_def execute_bytes_def Let_def act_bind_def enter_execution_def
        split: reply.splits if_splits sum.splits)
  then show thesis using none by blast
next
  case True
  then obtain raw request where *: "c = Bytes raw" "parse_canonical_request raw = Inr request" "replay_binding_ok request" "\<not> xw_active w"
    by blast
  obtain r1 w1 where e: "execute_entered x request (sha256_hex raw) (w\<lparr>xw_active := True\<rparr>) = (r1, w1)" by fastforce
  have act: "xw_active w1" using e by (cases rule: execute_entered_cases) auto
  show thesis
  proof (cases "\<not> Option.is_none (ex_preflight x) \<and> xw_private w = None")
    case True
    with assms have "w' = w \<and> (\<exists>e. r = Inl e)" by (auto simp: executor_execute_def)
    then show thesis using none by blast
  next
    case False
    have "valid_sha256 (sha256_hex raw)" by (simp add: valid_sha256_iff)
    then have run: "execute_bytes x raw w = (r1, w1\<lparr>xw_active := False\<rparr>)"
      using * e by (simp add: execute_bytes_def Let_def act_bind_def enter_execution_def act_finally_def leave_execution_def)
    have "raw \<noteq> []" "\<not> MAX_CANONICAL_REQUEST_BYTES < length raw"
      using *(2) unfolding parse_canonical_request_Inr not_less by blast+
    with assms False run *(1) have "r = r1" "w' = w1\<lparr>xw_active := False\<rparr>"
      by (simp_all add: executor_execute_def)
    moreover have "w1\<lparr>xw_active := True\<rparr> = w1" using act by (cases w1) simp
    ultimately show thesis using * e by (intro ran) auto
  qed
qed

lemma executor_execute_Inr:
  assumes "executor_execute x (Bytes raw) w = (Inr response, w')"
  shows "\<exists>request e1 e2. parse_canonical_request raw = Inr request \<and> \<not> xw_active w \<and> \<not> xw_active w' \<and>
    ex_begin x (xr_oidc_jti request) (sha256_hex raw) (xr_github_run_id request) (xr_github_run_attempt request) (xw_env w) =
      (Inr PNone, e1) \<and>
    ex_deploy x request e1 = (Inr PNone, e2) \<and>
    ex_finish x (xr_oidc_jti request) (sha256_hex raw) (xr_github_run_id request) (xr_github_run_attempt request) e2 =
      (Inr PNone, xw_env w') \<and>
    parse_canonical_response response = Inr (success (sha256_hex raw))"
  using assms
proof (cases rule: executor_execute_run)
  case (ran raw' request)
  have "valid_sha256 (sha256_hex raw)" by (simp add: valid_sha256_iff)
  then have resp: "parse_canonical_response (build_success_response (sha256_hex raw)) = Inr (success (sha256_hex raw))"
    by (rule success_parses)
  from ran(5) show ?thesis
  proof (cases rule: execute_entered_cases)
    case (deployed e1 e2 f e3)
    have "xw_env w' = e3" using arg_cong [OF deployed(4), of xw_env] by simp
    with deployed ran resp show ?thesis by auto
  qed simp_all
qed simp

text \<open>
  C10: A success is a whole run.  When \<open>execute\<close> returns, the bytes parsed as a request, no other run held
  the instance, \<open>begin_execution\<close>, \<open>deploy\<close> and \<open>finish_execution\<close> were called once each, in this order, with
  the request's own token, run and attempt and the SHA-256 of exactly these bytes, each returned
  \<open>None\<close>, and the response names that SHA-256; the gate is free again.
\<close>

theorem executor_success_is_whole_run:
  assumes "executor_execute x (Bytes raw) w = (Inr response, w')"
  shows "\<exists>request e1 e2. parse_canonical_request raw = Inr request \<and> \<not> xw_active w \<and> \<not> xw_active w' \<and>
    ex_begin x (xr_oidc_jti request) (sha256_hex raw) (xr_github_run_id request) (xr_github_run_attempt request) (xw_env w) =
      (Inr PNone, e1) \<and>
    ex_deploy x request e1 = (Inr PNone, e2) \<and>
    ex_finish x (xr_oidc_jti request) (sha256_hex raw) (xr_github_run_id request) (xr_github_run_attempt request) e2 =
      (Inr PNone, xw_env w') \<and>
    parse_canonical_response response = Inr (success (sha256_hex raw))"
  by (rule executor_execute_Inr [OF assms])

text \<open>
  Nothing is deployed for a record that did not begin.  Whatever \<open>execute\<close> is given and however
  its collaborators behave, if \<open>begin_execution\<close> does not return \<open>None\<close> for the request, the environment
  is left as \<open>begin_execution\<close> left it or untouched, so that neither \<open>deploy\<close> nor \<open>finish_execution\<close> ran; and if
  another run holds the instance, the environment is untouched.
\<close>

theorem executor_needs_begun_record:
  assumes "executor_execute x (Bytes raw) w = (r, w')"
    and "\<forall>request. parse_canonical_request raw = Inr request \<longrightarrow>
      fst (ex_begin x (xr_oidc_jti request) (sha256_hex raw) (xr_github_run_id request) (xr_github_run_attempt request) (xw_env w)) \<noteq> Inr PNone"
  shows "(\<exists>e. r = Inl e) \<and> (xw_env w' = xw_env w \<or>
    (\<exists>request. parse_canonical_request raw = Inr request \<and> xw_env w' =
      snd (ex_begin x (xr_oidc_jti request) (sha256_hex raw) (xr_github_run_id request) (xr_github_run_attempt request) (xw_env w)))) \<and>
    (xw_active w \<longrightarrow> w' = w)"
  using assms(1)
proof (cases rule: executor_execute_run)
  case (ran raw' request)
  from ran(5) show ?thesis
  proof (cases rule: execute_entered_cases)
    case (refused b e1)
    have "xw_env w' = e1" using arg_cong [OF refused(3), of xw_env] by simp
    with refused ran show ?thesis by auto
  qed (use assms(2) ran in auto)
qed simp

definition sample_executor :: "string list executor" where
  "sample_executor =
     \<lparr>ex_begin = (\<lambda>jti h run attempt env. (Inr PNone, env @ [''begin''])), ex_deploy = (\<lambda>request env. (Inr PNone, env @ [''deploy''])),
      ex_finish = (\<lambda>jti h run attempt env. (Inr PNone, env @ [''finish''])), ex_preflight = None\<rparr>"

definition sample_exec_world :: "string list exec_world" where
  "sample_exec_world = fd_world.extend sample_fds \<lparr>xw_env = [], xw_active = False, xw_private = None, xw_log = []\<rparr>"

lemma sample_executor_runs:
  "\<exists>w'. executor_execute sample_executor (Bytes (exec_canonical_bytes sample_exec)) sample_exec_world =
    (Inr (build_success_response (sha256_hex (exec_canonical_bytes sample_exec))), w') \<and>
    xw_env w' = [''begin'', ''deploy'', ''finish'']"
proof -
  let ?raw = "exec_canonical_bytes sample_exec"
  have raw: "?raw \<noteq> []" "\<not> MAX_CANONICAL_REQUEST_BYTES < length ?raw"
    using sample_exec_parses unfolding parse_canonical_request_Inr not_less by blast+
  have h: "valid_sha256 (sha256_hex ?raw)" by (simp add: valid_sha256_iff)
  have "replay_binding_ok sample_exec"
    using sample_texts_ok(6) by (simp add: replay_binding_ok_def sample_exec_def jti_ok_def MAX_IDENTIFIER_def)
  with raw h length_success [OF h] show ?thesis
    by (simp add: executor_execute_def sample_executor_def execute_bytes_def sample_exec_parses Let_def act_bind_def
        enter_execution_def act_finally_def leave_execution_def execute_entered_def act_catch_def on_xenv_def
        or_unavailable_def sample_exec_world_def fd_world.defs not_less)
qed

theorem executor_success_is_whole_run_witness:
  "parse_canonical_response (build_success_response (sha256_hex (exec_canonical_bytes sample_exec))) =
     Inr (success (sha256_hex (exec_canonical_bytes sample_exec)))"
proof -
  obtain w' where "executor_execute sample_executor (Bytes (exec_canonical_bytes sample_exec)) sample_exec_world =
      (Inr (build_success_response (sha256_hex (exec_canonical_bytes sample_exec))), w')"
    using sample_executor_runs by blast
  from executor_success_is_whole_run [OF this] show ?thesis by blast
qed

theorem executor_needs_begun_record_witness:
  "\<exists>e. fst (executor_execute (sample_executor\<lparr>ex_begin := (\<lambda>jti h run attempt env. (Inl ReplayError, env))\<rparr>)
     (Bytes (exec_canonical_bytes sample_exec)) sample_exec_world) = Inl e"
proof -
  let ?x = "sample_executor\<lparr>ex_begin := (\<lambda>jti h run attempt env. (Inl ReplayError, env))\<rparr>"
  obtain r w' where run: "executor_execute ?x (Bytes (exec_canonical_bytes sample_exec)) sample_exec_world = (r, w')"
    by fastforce
  from executor_needs_begun_record [OF this] show ?thesis by (simp add: run)
qed

end
