(* ===== verification/Deploy_Checks.thy ===== *)
theory Deploy_Checks
  imports Controller Executor
begin

text \<open>
  The first half of \<open>src/deployment/deployment_operation.py\<close>: the checks on collaborators, the
  snapshots of requests and states, the comparison of plans and states with the reviewed
  transition, and the fingerprint of audit events.  The type tests hold by the types of
  the records, and a record does not change between two readings, so that the second mapping
  of the same object is the first.
\<close>

section \<open>Collaborators and configuration\<close>

definition MIGRATION_IDENTITY :: string where "MIGRATION_IDENTITY = ''task014-executable-canary-v1''"

definition MIGRATION_CHECKSUM :: string where
  "MIGRATION_CHECKSUM = ''b25e7d2d55bce3e233f58f9607e715daebc2a1a69c37603adbb569604ef76421''"

definition ordinary_method ::
    "(string \<times> descriptor) list list option \<Rightarrow> string \<Rightarrow> nat \<Rightarrow> string list \<Rightarrow> code_shape result" where
  "ordinary_method instance name positional keyword_only =
     (case instance of
        None \<Rightarrow> Inl TypeError
      | Some hierarchy \<Rightarrow>
          (case find_descriptor hierarchy name of
             Some (Plain_Function code) \<Rightarrow>
               if cs_posonlyargcount code \<noteq> 0 \<or> cs_argcount code \<noteq> positional + 1 \<or>
                  cs_kwonlyargcount code \<noteq> length keyword_only \<or>
                  drop (cs_argcount code) (take (cs_argcount code + cs_kwonlyargcount code) (cs_varnames code)) \<noteq> keyword_only \<or>
                  cs_flags code AND DISALLOWED_FLAGS \<noteq> 0 \<or> cs_has_defaults code \<or> cs_has_kwdefaults code
               then Inl TypeError else Inr code
           | _ \<Rightarrow> Inl TypeError))"

text \<open>A clock is a plain function without parameters or an object with such a \<open>__call__\<close>.\<close>

datatype clock_object = Clock_Function code_shape | Clock_Object "(string \<times> descriptor) list list option"

definition clock_function :: "clock_object \<Rightarrow> code_shape result" where
  "clock_function clock =
     (case clock of
        Clock_Function code \<Rightarrow>
          if cs_posonlyargcount code \<noteq> 0 \<or> cs_argcount code \<noteq> 0 \<or> cs_kwonlyargcount code \<noteq> 0 \<or>
             cs_flags code AND DISALLOWED_FLAGS \<noteq> 0 \<or> cs_has_defaults code \<or> cs_has_kwdefaults code
          then Inl TypeError else Inr code
      | Clock_Object obj \<Rightarrow> ordinary_method obj ''__call__'' 0 [])"

definition exact_text :: "pyval \<Rightarrow> (pyval \<Rightarrow> string result) \<Rightarrow> string result" where
  "exact_text v validator =
     (case v of
        PStr _ \<Rightarrow> (case validator v of Inl e \<Rightarrow> Inl (if is_Exception e then TypeError else e) | Inr s \<Rightarrow> Inr s)
      | _ \<Rightarrow> Inl TypeError)"

record operation_config =
  oc_reviewed_commit :: string
  oc_runtime_sha256 :: string
  oc_ingress_sha256 :: "string list"

text \<open>The runtime's ten methods, with their parameters.\<close>

definition RUNTIME_METHODS :: "(string \<times> nat \<times> string list) list" where
  "RUNTIME_METHODS =
     [(''pull_exact_image'', 1, []), (''verify_local_repo_digest'', 1, []), (''start_candidate'', 1, []),
      (''execute_migration'', 0, [''stage'', ''exact_image_reference'', ''identity'', ''checksum'']),
      (''check_liveness'', 2, []), (''check_readiness'', 2, []), (''validate_application'', 1, []),
      (''validate_nginx'', 1, []), (''switch_traffic'', 2, []), (''restore_traffic'', 2, [])]"

definition operation_init ::
    "(string \<times> descriptor) list list option \<Rightarrow> (string \<times> descriptor) list list option \<Rightarrow>
     (string \<times> descriptor) list list option \<Rightarrow> clock_object \<Rightarrow> pyval \<Rightarrow> pyval \<Rightarrow> pyval list option \<Rightarrow> operation_config result" where
  "operation_init runtime state_store audit_sink clock reviewed_commit runtime_sha ingress_sha =
     bnd (traverse (\<lambda>(name, positional, keyword_only). ordinary_method runtime name positional keyword_only) RUNTIME_METHODS) (\<lambda>_.
     bnd (ordinary_method state_store ''load'' 0 []) (\<lambda>_.
     bnd (ordinary_method state_store ''save'' 1 []) (\<lambda>_.
     bnd (ordinary_method audit_sink ''append'' 1 []) (\<lambda>_.
     bnd (clock_function clock) (\<lambda>_.
     bnd (exact_text reviewed_commit validate_source_sha) (\<lambda>commit.
     bnd (exact_text runtime_sha validate_sha256) (\<lambda>runtime_hash.
     case ingress_sha of
       None \<Rightarrow> Inl TypeError
     | Some values \<Rightarrow>
         if length values \<noteq> length INGRESS_PATHS then Inl TypeError
         else bnd (traverse (\<lambda>v. exact_text v validate_sha256) values) (\<lambda>hashes.
           Inr \<lparr>oc_reviewed_commit = commit, oc_runtime_sha256 = runtime_hash, oc_ingress_sha256 = hashes\<rparr>))))))))"

section \<open>Snapshots of requests\<close>

definition request_mapping :: "executor_request \<Rightarrow> pyval" where
  "request_mapping request =
     (let runtime = xr_runtime request; secrets = xr_secrets request; ingress = xr_ingress request;
          files = map (\<lambda>i. PDict [(''path'', PStr (if_path i)), (''sha256'', PStr (if_sha256 i))]) (ir_files ingress) in
      PDict
       [(''schema_version'', PInt (xr_schema_version request)), (''operation'', PStr (xr_operation request)),
        (''stage'', PStr (xr_stage request)), (''release_version'', PStr (xr_release_version request)),
        (''source_sha'', PStr (xr_source_sha request)), (''oci_origin'', PStr (xr_oci_origin request)),
        (''oci_repository'', PStr (xr_oci_repository request)), (''manifest_digest'', PStr (xr_manifest_digest request)),
        (''exact_image_reference'', PStr (xr_exact_image_reference request)),
        (''release_manifest_sha256'', PStr (xr_release_manifest_sha256 request)),
        (''provenance_sha256'', PStr (xr_provenance_sha256 request)),
        (''originating_release_run_id'', PInt (xr_originating_release_run_id request)),
        (''promotion_request_sha256'', PStr (xr_promotion_request_sha256 request)),
        (''requested_by_actor_id'', PInt (xr_requested_by_actor_id request)),
        (''github_repository_id'', PInt (xr_github_repository_id request)),
        (''github_workflow_ref'', PStr (xr_github_workflow_ref request)),
        (''github_workflow_sha'', PStr (xr_github_workflow_sha request)),
        (''github_run_id'', PInt (xr_github_run_id request)), (''github_run_attempt'', PInt (xr_github_run_attempt request)),
        (''oidc_jti'', PStr (xr_oidc_jti request)), (''oidc_issued_at'', PInt (xr_oidc_issued_at request)),
        (''oidc_expires_at'', PInt (xr_oidc_expires_at request)),
        (''runtime_configuration_reference'', PDict
          [(''schema_version'', PInt (rr_schema_version runtime)), (''kind'', PStr (rr_kind runtime)),
           (''repository_id'', PInt (rr_repository_id runtime)), (''reviewed_commit'', PStr (rr_reviewed_commit runtime)),
           (''path'', PStr (rr_path runtime)), (''sha256'', PStr (rr_sha256 runtime))]),
        (''secrets_reference'', PDict
          [(''schema_version'', PInt (sr_schema_version secrets)), (''kind'', PStr (sr_kind secrets)),
           (''required'', PList []), (''reason'', PStr (sr_reason secrets))]),
        (''ingress_reference'', PDict
          [(''schema_version'', PInt (ir_schema_version ingress)), (''kind'', PStr (ir_kind ingress)),
           (''repository_id'', PInt (ir_repository_id ingress)), (''reviewed_commit'', PStr (ir_reviewed_commit ingress)),
           (''loopback_address'', PStr (ir_loopback_address ingress)), (''loopback_port'', PInt (ir_loopback_port ingress)),
           (''public_origin'', PStr (ir_public_origin ingress)), (''files'', PList files)])])"

text \<open>\<open>canonical_bytes\<close> of a mapping; \<open>json.dumps\<close> refuses integers of more than 4300 digits.\<close>

definition checked_bytes :: "pyval \<Rightarrow> string result" where
  "checked_bytes v = (if plain v then Inr (canonical_bytes v) else Inl ValueError)"

definition snapshot_request :: "executor_request \<Rightarrow> executor_request result" where
  "snapshot_request request =
     bnd (checked_bytes (request_mapping request)) (\<lambda>first.
     bnd (json_loads_bytes default_hooks first) (\<lambda>decoded.
     bnd (exec_from_dict decoded) (\<lambda>snapshot.
     bnd (checked_bytes (request_mapping snapshot)) (\<lambda>again.
     if again \<noteq> first then Inl TypeError else Inr snapshot))))"

section \<open>Snapshots of states\<close>

definition migration_mapping :: "migration_state \<Rightarrow> pydict" where
  "migration_mapping m =
     [(''status'', PStr (ms_status m)), (''identity'', of_opt (ms_identity m)), (''checksum'', of_opt (ms_checksum m)),
      (''serialized_lock_required'', PBool (ms_serialized_lock_required m))]"

definition state_mapping :: "deployment_state \<Rightarrow> pydict result" where
  "state_mapping s =
     (if \<not> ms_serialized_lock_required (migration s) then Inl TypeError
      else Inr
       [(''schema_version'', PInt (schema_version s)), (''stage'', PStr (stage s)),
        (''active_release'', of_opt (active_release s)), (''active_source_sha'', of_opt (active_source_sha s)),
        (''active_digest'', of_opt (active_digest s)), (''active_slot'', of_opt (active_slot s)),
        (''previous_release'', of_opt (previous_release s)), (''previous_source_sha'', of_opt (previous_source_sha s)),
        (''previous_digest'', of_opt (previous_digest s)), (''previous_slot'', of_opt (previous_slot s)),
        (''candidate_release'', of_opt (candidate_release s)), (''candidate_source_sha'', of_opt (candidate_source_sha s)),
        (''candidate_digest'', of_opt (candidate_digest s)), (''candidate_slot'', of_opt (candidate_slot s)),
        (''updated_at'', PStr (updated_at s)), (''event_id'', PStr (event_id s)),
        (''migration_state'', PDict (migration_mapping (migration s)))])"

definition is_fresh :: "deployment_state \<Rightarrow> bool" where
  "is_fresh s \<longleftrightarrow>
     \<not> list_ex (\<lambda>v. v \<noteq> None) [candidate_release s, candidate_source_sha s, candidate_digest s, candidate_slot s] \<and>
     ms_status (migration s) \<in> {''none'', ''succeeded''} \<and> \<not> (active_slot s = None \<and> previous_slot s \<noteq> None)"

definition snapshot_state :: "bool \<Rightarrow> deployment_state \<Rightarrow> deployment_state result" where
  "snapshot_state fresh s =
     bnd (state_mapping s) (\<lambda>items.
     bnd (checked_bytes (PDict items)) (\<lambda>first.
     bnd (json_loads_bytes default_hooks first) (\<lambda>decoded.
     bnd (state_from_dict decoded) (\<lambda>snapshot.
     bnd (state_mapping snapshot) (\<lambda>again.
     bnd (checked_bytes (PDict again)) (\<lambda>second.
     if second \<noteq> first then Inl TypeError
     else if stage snapshot \<noteq> ''dev'' then Inl TypeError
     else if fresh \<and> \<not> is_fresh snapshot then Inl TypeError
     else Inr snapshot))))))"

definition updated_state :: "deployment_state \<Rightarrow> string option \<Rightarrow> string \<Rightarrow> string \<Rightarrow> deployment_state result" where
  "updated_state s status ts eid =
     bnd (state_mapping s) (\<lambda>v.
     let migrated = (case status of
           None \<Rightarrow> v
         | Some st \<Rightarrow> put v ''migration_state'' (PDict (put (migration_mapping (migration s)) ''status'' (PStr st))));
         changed = put (put migrated ''updated_at'' (PStr ts)) ''event_id'' (PStr eid) in
     bnd (state_from_dict (PDict changed)) (\<lambda>updated.
     bnd (state_mapping updated) (\<lambda>m.
     if \<not> py_eq (PDict m) (PDict changed) then Inl TypeError else Inr updated)))"

section \<open>Plans and transitions\<close>

definition promotion_request_of :: "executor_request \<Rightarrow> promotion_request result" where
  "promotion_request_of request =
     bnd (py_str_int (xr_requested_by_actor_id request)) (\<lambda>actor.
     request_from_dict (PDict
       [(''schema_version'', PInt 1), (''release_version'', PStr (xr_release_version request)),
        (''source_sha'', PStr (xr_source_sha request)), (''oci_repository'', PStr (xr_oci_repository request)),
        (''manifest_digest'', PStr (xr_manifest_digest request)),
        (''exact_image_reference'', PStr (xr_exact_image_reference request)),
        (''release_manifest_sha256'', PStr (xr_release_manifest_sha256 request)),
        (''provenance_sha256'', PStr (xr_provenance_sha256 request)),
        (''originating_release_run_id'', PInt (xr_originating_release_run_id request)),
        (''target_stage'', PStr (xr_stage request)), (''requested_by'', PStr (''github:'' @ actor))]))"

definition validated_plan :: "deployment_plan \<Rightarrow> deployment_state \<Rightarrow> promotion_request \<Rightarrow> deployment_plan result" where
  "validated_plan plan state request =
     (let candidate = (if active_slot state = Some ''blue'' then ''green'' else ''blue'') in
      if pl_operation plan \<noteq> ''promotion'' \<or> pl_stage plan \<noteq> ''dev'' \<or>
         pl_release_version plan \<noteq> rq_release_version request \<or> pl_source_sha plan \<noteq> rq_source_sha request \<or>
         pl_exact_image_reference plan \<noteq> rq_exact_image_reference request \<or> pl_active_slot plan \<noteq> active_slot state \<or>
         pl_candidate_slot plan \<noteq> candidate \<or> pl_steps plan \<noteq> PROMOTION_STEPS
      then Inl TypeError else Inr plan)"

definition copy_plan :: "deployment_plan \<Rightarrow> deployment_plan" where
  "copy_plan plan =
     \<lparr>pl_operation = pl_operation plan, pl_stage = pl_stage plan, pl_release_version = pl_release_version plan,
      pl_source_sha = pl_source_sha plan, pl_exact_image_reference = pl_exact_image_reference plan,
      pl_active_slot = pl_active_slot plan, pl_candidate_slot = pl_candidate_slot plan, pl_steps = pl_steps plan\<rparr>"

definition validated_prepared_state ::
    "deployment_state \<Rightarrow> deployment_state \<Rightarrow> executor_request \<Rightarrow> deployment_state result" where
  "validated_prepared_state v original request =
     bnd (snapshot_state False v) (\<lambda>prepared.
     bnd (state_mapping original) (\<lambda>m.
     let expected = put_all m
       [(''candidate_release'', PStr (xr_release_version request)), (''candidate_source_sha'', PStr (xr_source_sha request)),
        (''candidate_digest'', PStr (xr_manifest_digest request)),
        (''candidate_slot'', PStr (if active_slot original = Some ''blue'' then ''green'' else ''blue'')),
        (''migration_state'', PDict
          [(''status'', PStr ''pending''), (''identity'', PStr MIGRATION_IDENTITY), (''checksum'', PStr MIGRATION_CHECKSUM),
           (''serialized_lock_required'', PBool True)])] in
     bnd (state_mapping prepared) (\<lambda>p. if \<not> py_eq (PDict p) (PDict expected) then Inl TypeError else Inr prepared)))"

definition validated_completed_state ::
    "deployment_state \<Rightarrow> deployment_state \<Rightarrow> string \<Rightarrow> string \<Rightarrow> deployment_state result" where
  "validated_completed_state v succeeded ts eid =
     bnd (snapshot_state False v) (\<lambda>completed.
     bnd (state_mapping succeeded) (\<lambda>m.
     let expected = put_all m
       [(''active_release'', of_opt (candidate_release succeeded)), (''active_source_sha'', of_opt (candidate_source_sha succeeded)),
        (''active_digest'', of_opt (candidate_digest succeeded)), (''active_slot'', of_opt (candidate_slot succeeded)),
        (''previous_release'', of_opt (active_release succeeded)), (''previous_source_sha'', of_opt (active_source_sha succeeded)),
        (''previous_digest'', of_opt (active_digest succeeded)), (''previous_slot'', of_opt (active_slot succeeded)),
        (''candidate_release'', PNone), (''candidate_source_sha'', PNone), (''candidate_digest'', PNone),
        (''candidate_slot'', PNone), (''updated_at'', PStr ts), (''event_id'', PStr eid)] in
     bnd (state_mapping completed) (\<lambda>p. if \<not> py_eq (PDict p) (PDict expected) then Inl TypeError else Inr completed)))"

definition event_fingerprint :: "audit_event \<Rightarrow> pyval list" where
  "event_fingerprint e =
     (let i = ev_execution_identity e in
      [PInt (ev_schema_version e), PStr (ev_event_id e), PStr (ev_event_type e), PStr (ev_stage e),
       PStr (ev_release_version e), PStr (ev_source_sha e), PStr (ev_oci_repository e), PStr (ev_digest e),
       of_opt (ev_previous_digest e), of_opt (ev_active_slot e), of_opt (ev_candidate_slot e),
       of_opt (ev_migration_identity e), PStr (ev_result e), PStr (ev_timestamp e)] @
      [PInt (ai_schema_version i), PInt (ai_requested_by_actor_id i), PInt (ai_github_repository_id i),
       PStr (ai_github_workflow_ref i), PStr (ai_github_workflow_sha i), PInt (ai_github_run_id i),
       PInt (ai_github_run_attempt i), PStr (ai_oidc_jti i), PInt (ai_oidc_issued_at i), PInt (ai_oidc_expires_at i),
       PStr (ai_promotion_request_sha256 i), PStr (ai_executor_request_sha256 i)])"

end
