(* ===== verification/Deploy.thy ===== *)
theory Deploy
  imports Deploy_Checks
begin

text \<open>
  The second half of \<open>src/deployment/deployment_operation.py\<close>: \<open>DevDeploymentOperation.deploy\<close>.  Each call of
  a collaborator takes the next answer of a schedule, which is arbitrary, and is recorded with
  that answer; without an answer the call raises.  The local variables of \<open>deploy\<close> that \<open>recover\<close> reads are part of
  the world.
\<close>

section \<open>Calls and answers\<close>

datatype deploy_call =
    Load | Save deployment_state | Append audit_event | Clock
  | Pull string | Verify_Digest string | Start deployment_plan
  | Migrate string string string string
  | Liveness string "string option" | Readiness string "string option"
  | Validate_Application deployment_plan | Validate_Nginx string
  | Switch string "string option" | Restore string "string option"

datatype answer =
    Raises exn | Returns_None | Returns_True | Returns_Text string | Returns_State deployment_state | Returns_Other

record deploy_locals =
  dl_phase :: string
  dl_started :: bool
  dl_candidate_written :: bool
  dl_switch_attempted :: bool
  dl_snapshot :: "executor_request option"
  dl_original :: "deployment_state option"
  dl_prepared :: "deployment_state option"
  dl_failure_event :: "string option"
  dl_save :: bool
  dl_restore :: bool
  dl_emit :: bool

definition initial_locals :: deploy_locals where
  "initial_locals =
     \<lparr>dl_phase = ''request_assets'', dl_started = False, dl_candidate_written = False, dl_switch_attempted = False,
      dl_snapshot = None, dl_original = None, dl_prepared = None, dl_failure_event = None, dl_save = False,
      dl_restore = False, dl_emit = False\<rparr>"

record op_world =
  ow_answers :: "answer list"
  ow_trace :: "(deploy_call \<times> answer) list"
  ow_active :: bool
  ow_log :: "string list"
  ow_locals :: deploy_locals

definition ask :: "deploy_call \<Rightarrow> (op_world, answer) act" where
  "ask c w =
     (let a = (case ow_answers w of [] \<Rightarrow> Raises OSError | a # _ \<Rightarrow> a);
          w' = w\<lparr>ow_answers := tl (ow_answers w), ow_trace := ow_trace w @ [(c, a)]\<rparr> in
      (case a of Raises e \<Rightarrow> (Inl e, w') | _ \<Rightarrow> (Inr a, w')))"

text \<open>A call whose result must be \<open>None\<close>, or \<open>True\<close>.\<close>

definition call_none :: "deploy_call \<Rightarrow> (op_world, unit) act" where
  "call_none c = act_bind (ask c) (\<lambda>a. act_lift (if a = Returns_None then Inr () else Inl TypeError))"

definition call_true :: "deploy_call \<Rightarrow> (op_world, unit) act" where
  "call_true c = act_bind (ask c) (\<lambda>a. act_lift (if a = Returns_True then Inr () else Inl TypeError))"

definition assign :: "(deploy_locals \<Rightarrow> deploy_locals) \<Rightarrow> (op_world, unit) act" where
  "assign f w = (Inr (), w\<lparr>ow_locals := f (ow_locals w)\<rparr>)"

definition phase :: "string \<Rightarrow> (op_world, unit) act" where
  "phase p = assign (\<lambda>l. l\<lparr>dl_phase := p\<rparr>)"

section \<open>Audit events of an operation\<close>

text \<open>
  What the nested functions of \<open>deploy\<close> close over; the updates of \<open>prepared\<close> keep its candidate slot.
\<close>

record operation =
  on_request :: executor_request
  on_request_hash :: string
  on_original :: deployment_state
  on_candidate_slot :: "string option"

definition event_arguments_of ::
    "operation \<Rightarrow> string \<Rightarrow> string \<Rightarrow> string \<Rightarrow> string option \<Rightarrow> bool \<Rightarrow> string \<Rightarrow> event_arguments" where
  "event_arguments_of d step kind res mig ok ts =
     \<lparr>ea_event_id = ''c8:'' @ on_request_hash d @ '':'' @ step, ea_event_type = kind,
      ea_previous_digest = active_digest (on_original d),
      ea_active_slot = (if ok then on_candidate_slot d else active_slot (on_original d)),
      ea_candidate_slot = (if ok then None else on_candidate_slot d),
      ea_migration_identity = mig, ea_result = res, ea_timestamp = ts\<rparr>"

definition expected_fingerprint :: "operation \<Rightarrow> event_arguments \<Rightarrow> pyval list" where
  "expected_fingerprint d a =
     (let r = on_request d in
      [PInt 2, PStr (ea_event_id a), PStr (ea_event_type a), PStr (xr_stage r), PStr (xr_release_version r),
       PStr (xr_source_sha r), PStr (xr_oci_repository r), PStr (xr_manifest_digest r),
       of_opt (active_digest (on_original d)), of_opt (ea_active_slot a), of_opt (ea_candidate_slot a),
       of_opt (ea_migration_identity a), PStr (ea_result a), PStr (ea_timestamp a),
       PInt 1, PInt (xr_requested_by_actor_id r), PInt (xr_github_repository_id r), PStr (xr_github_workflow_ref r),
       PStr (xr_github_workflow_sha r), PInt (xr_github_run_id r), PInt (xr_github_run_attempt r), PStr (xr_oidc_jti r),
       PInt (xr_oidc_issued_at r), PInt (xr_oidc_expires_at r), PStr (xr_promotion_request_sha256 r),
       PStr (on_request_hash d)])"

definition checked_event :: "operation \<Rightarrow> event_arguments \<Rightarrow> audit_event result" where
  "checked_event d a =
     bnd (event_for_executor_request (on_request d) a) (\<lambda>event.
     if event_fingerprint event \<noteq> expected_fingerprint d a then Inl TypeError
     else bnd (require_executor_request event (on_request d)) (\<lambda>_. Inr event))"

definition make_event ::
    "operation \<Rightarrow> string \<Rightarrow> string \<Rightarrow> string \<Rightarrow> string option \<Rightarrow> bool \<Rightarrow> (op_world, audit_event) act" where
  "make_event d step kind res mig ok =
     act_bind (ask Clock) (\<lambda>a.
     case a of
       Returns_Text ts \<Rightarrow> act_lift (checked_event d (event_arguments_of d step kind res mig ok ts))
     | _ \<Rightarrow> act_lift (Inl TypeError))"

text \<open>\<open>append_event\<close> gives the identifier and the time of the event.\<close>

definition append_event :: "operation \<Rightarrow> audit_event \<Rightarrow> (op_world, string \<times> string) act" where
  "append_event d event =
     act_bind (call_none (Append event)) (\<lambda>_.
     act_bind (act_lift (require_executor_request event (on_request d))) (\<lambda>_.
       act_lift (Inr (ev_event_id event, ev_timestamp event))))"

definition emit ::
    "operation \<Rightarrow> string \<Rightarrow> string \<Rightarrow> string \<Rightarrow> string option \<Rightarrow> bool \<Rightarrow> (op_world, string \<times> string) act" where
  "emit d step kind res mig ok = act_bind (make_event d step kind res mig ok) (append_event d)"

section \<open>Recovery\<close>

definition replace_underscore :: "string \<Rightarrow> string" where
  "replace_underscore = map (\<lambda>c. if c = CHR ''_'' then CHR ''-'' else c)"

text \<open>\<open>recover\<close>: every failure inside is swallowed, so that it is a function of the world.\<close>

definition restore_state :: "deployment_state \<Rightarrow> (op_world, unit) act" where
  "restore_state original =
     act_bind (\<lambda>w. if dl_switch_attempted (ow_locals w) then
         (if \<not> dl_restore (ow_locals w) then (Inl TypeError, w)
          else call_none (Restore ''dev'' (active_slot original)) w)
       else (Inr (), w)) (\<lambda>_.
     act_bind (act_lift (snapshot_state False original)) (\<lambda>s. call_none (Save s)))"

definition recover :: "string \<Rightarrow> op_world \<Rightarrow> op_world" where
  "recover request_hash w =
     (let l = ow_locals w in
      case (dl_snapshot l, dl_original l, dl_prepared l) of
        (Some snapshot, Some original, Some prepared) \<Rightarrow>
          if \<not> dl_started l \<or> \<not> dl_emit l then w
          else
          let d = \<lparr>on_request = snapshot, on_request_hash = request_hash, on_original = original,
                   on_candidate_slot = candidate_slot prepared\<rparr>;
              w1 = (if dl_candidate_written l \<and> dl_save l then act_ignore (restore_state original) w else w);
              w2 = (case dl_failure_event l of
                      None \<Rightarrow> w1
                    | Some f \<Rightarrow> act_ignore (emit d (replace_underscore f) f ''failed''
                        (if f = ''migration_failed'' then Some MIGRATION_IDENTITY else None) False) w1) in
          act_ignore (emit d ''promotion-failed'' ''promotion_failed'' ''failed'' None False) w2
      | _ \<Rightarrow> w)"

section \<open>The steps before the operation starts\<close>

definition assets_reviewed :: "operation_config \<Rightarrow> executor_request \<Rightarrow> bool" where
  "assets_reviewed cfg r \<longleftrightarrow>
     (let runtime = xr_runtime r; ingress = xr_ingress r in
      rr_repository_id runtime = DEV_REPOSITORY_ID \<and> rr_reviewed_commit runtime = oc_reviewed_commit cfg \<and>
      rr_path runtime = RUNTIME_CONFIGURATION_PATH \<and> rr_sha256 runtime = oc_runtime_sha256 cfg \<and>
      ir_repository_id ingress = DEV_REPOSITORY_ID \<and> ir_reviewed_commit ingress = oc_reviewed_commit cfg \<and>
      map if_path (ir_files ingress) = INGRESS_PATHS \<and> map if_sha256 (ir_files ingress) = oc_ingress_sha256 cfg \<and>
      ir_loopback_address ingress = DEV_LOOPBACK_ADDRESS \<and> ir_loopback_port ingress = DEV_LOOPBACK_PORT \<and>
      ir_public_origin ingress = DEV_PUBLIC_ORIGIN \<and> sr_reason (xr_secrets r) = NO_SECRETS_REASON \<and>
      xr_oci_repository r = DEV_OCI_REPOSITORY)"

text \<open>The bounded recovery of a candidate that an earlier failed first pull left behind.\<close>

definition STARTED_SUFFIX :: string where "STARTED_SUFFIX = '':promotion-started''"

definition abandoned :: "executor_request \<Rightarrow> deployment_state \<Rightarrow> bool" where
  "abandoned r s \<longleftrightarrow>
     active_slot s = None \<and> active_release s = None \<and> active_source_sha s = None \<and> active_digest s = None \<and>
     previous_slot s = None \<and> previous_release s = None \<and> previous_source_sha s = None \<and> previous_digest s = None \<and>
     candidate_slot s = Some ''blue'' \<and> candidate_release s = Some (xr_release_version r) \<and>
     candidate_source_sha s = Some (xr_source_sha r) \<and> candidate_digest s = Some (xr_manifest_digest r) \<and>
     ms_status (migration s) = ''pending'' \<and> ms_identity (migration s) = Some MIGRATION_IDENTITY \<and>
     ms_checksum (migration s) = Some MIGRATION_CHECKSUM \<and>
     length (event_id s) = 3 + 64 + length STARTED_SUFFIX \<and> starts_with ''c8:'' (event_id s) \<and>
     drop (length (event_id s) - length STARTED_SUFFIX) (event_id s) = STARTED_SUFFIX \<and>
     list_all (\<lambda>ch. ch \<in> set ''0123456789abcdef'') (take 64 (drop 3 (event_id s)))"

definition cleared_state :: "deployment_state \<Rightarrow> deployment_state result" where
  "cleared_state s =
     bnd (state_from_dict (update_dict (state_to_dict s)
       [(''candidate_release'', PNone), (''candidate_source_sha'', PNone), (''candidate_digest'', PNone),
        (''candidate_slot'', PNone),
        (''migration_state'', PDict [(''status'', PStr ''none''), (''identity'', PNone), (''checksum'', PNone),
          (''serialized_lock_required'', PBool True)])]))
     (snapshot_state True)"

definition load_original :: "executor_request \<Rightarrow> (op_world, deployment_state) act" where
  "load_original snapshot =
     act_bind (phase ''deployment_state_load'') (\<lambda>_.
     act_bind (assign (\<lambda>l. l\<lparr>dl_save := True\<rparr>)) (\<lambda>_.
     act_bind (ask Load) (\<lambda>loaded.
     act_bind (phase ''candidate_state_freshness'') (\<lambda>_.
     act_bind (case loaded of
         Returns_State s \<Rightarrow>
           if abandoned snapshot s then
             act_bind (act_lift (cleared_state s)) (\<lambda>cleaned.
             act_bind (call_none (Save cleaned)) (\<lambda>_. ask Load))
           else act_lift (Inr loaded)
       | _ \<Rightarrow> act_lift (Inr loaded)) (\<lambda>current.
     act_bind (act_lift (case current of Returns_State s \<Rightarrow> snapshot_state True s | _ \<Rightarrow> Inl TypeError)) (\<lambda>original.
     act_bind (assign (\<lambda>l. l\<lparr>dl_original := Some original\<rparr>)) (\<lambda>_.
       act_lift (Inr original))))))))"

definition already_active :: "executor_request \<Rightarrow> deployment_state \<Rightarrow> bool" where
  "already_active r s \<longleftrightarrow>
     (active_release s = Some (xr_release_version r) \<and> active_source_sha s = Some (xr_source_sha r) \<and>
      active_digest s = Some (xr_manifest_digest r)) \<or>
     active_digest s = Some (xr_manifest_digest r) \<or>
     (active_release s = Some (xr_release_version r) \<and> active_digest s \<noteq> None \<and>
      active_digest s \<noteq> Some (xr_manifest_digest r))"

definition plan_operation ::
    "executor_request \<Rightarrow> deployment_state \<Rightarrow> (deployment_plan \<times> deployment_plan \<times> deployment_state) result" where
  "plan_operation snapshot original =
     (bnd (promotion_request_of snapshot) (\<lambda>promotion.
      bnd (promotion_plan original promotion) (\<lambda>made.
      bnd (validated_plan made original promotion) (\<lambda>plan.
      bnd (validated_plan (copy_plan plan) original promotion) (\<lambda>start_plan.
      bnd (validated_plan (copy_plan plan) original promotion) (\<lambda>application_plan.
      bnd (prepare_candidate original promotion MIGRATION_IDENTITY MIGRATION_CHECKSUM) (\<lambda>candidate.
      bnd (validated_prepared_state candidate original snapshot) (\<lambda>prepared.
        Inr (start_plan, application_plan, prepared)))))))))"

record planned =
  pn_operation :: operation
  pn_start_plan :: deployment_plan
  pn_application_plan :: deployment_plan
  pn_prepared :: deployment_state

definition request_hash_of :: "executor_request \<Rightarrow> string" where
  "request_hash_of r = sha256_hex (canonical_bytes (request_mapping r))"

definition plan_deployment :: "operation_config \<Rightarrow> executor_request \<Rightarrow> (op_world, planned) act" where
  "plan_deployment cfg request =
     act_bind (act_lift (snapshot_request request)) (\<lambda>snapshot.
     act_bind (assign (\<lambda>l. l\<lparr>dl_snapshot := Some snapshot\<rparr>)) (\<lambda>_.
     if \<not> assets_reviewed cfg snapshot then act_lift (Inl TypeError)
     else
     act_bind (load_original snapshot) (\<lambda>original.
     act_bind (\<lambda>w. if already_active snapshot original then (Inl TypeError, w) else phase ''deployment_plan'' w) (\<lambda>_.
     act_bind (act_lift (plan_operation snapshot original)) (\<lambda>(start_plan, application_plan, prepared).
     act_bind (assign (\<lambda>l. l\<lparr>dl_prepared := Some prepared, dl_emit := True\<rparr>)) (\<lambda>_.
       act_lift (Inr
         \<lparr>pn_operation = \<lparr>on_request = snapshot, on_request_hash = request_hash_of snapshot, on_original = original,
            on_candidate_slot = candidate_slot prepared\<rparr>,
          pn_start_plan = start_plan, pn_application_plan = application_plan, pn_prepared = prepared\<rparr>)))))))"

section \<open>The steps of the operation\<close>

definition save_snapshot :: "deployment_state \<Rightarrow> (op_world, unit) act" where
  "save_snapshot s = act_bind (act_lift (snapshot_state False s)) (\<lambda>snap. call_none (Save snap))"

definition stage_candidate :: "planned \<Rightarrow> (op_world, deployment_state) act" where
  "stage_candidate p =
     (let d = pn_operation p in
      act_bind (phase ''audit_and_candidate_state'') (\<lambda>_.
      act_bind (make_event d ''promotion-started'' ''promotion_started'' ''started'' None False) (\<lambda>started.
      act_bind (assign (\<lambda>l. l\<lparr>dl_started := True\<rparr>)) (\<lambda>_.
      act_bind (append_event d started) (\<lambda>(eid, ts).
      act_bind (act_lift (updated_state (pn_prepared p) None ts eid)) (\<lambda>prepared.
      act_bind (assign (\<lambda>l. l\<lparr>dl_prepared := Some prepared\<rparr>)) (\<lambda>_.
      act_bind (save_snapshot prepared) (\<lambda>_.
      act_bind (assign (\<lambda>l. l\<lparr>dl_candidate_written := True, dl_restore := True\<rparr>)) (\<lambda>_.
        act_lift (Inr prepared))))))))))"

definition start_image :: "planned \<Rightarrow> (op_world, unit) act" where
  "start_image p =
     (let img = xr_exact_image_reference (on_request (pn_operation p)) in
      act_bind (phase ''private_image_pull'') (\<lambda>_.
      act_bind (call_none (Pull img)) (\<lambda>_.
      act_bind (phase ''local_image_digest'') (\<lambda>_.
      act_bind (call_none (Verify_Digest img)) (\<lambda>_.
      act_bind (phase ''candidate_start'') (\<lambda>_.
        call_none (Start (pn_start_plan p))))))))"

text \<open>\<open>try: m except Exception: failure_event = f; raise\<close>\<close>

definition noting :: "string \<Rightarrow> (op_world, 'a) act \<Rightarrow> (op_world, 'a) act" where
  "noting f m = act_catch m (\<lambda>e.
     if is_Exception e then act_bind (assign (\<lambda>l. l\<lparr>dl_failure_event := Some f\<rparr>)) (\<lambda>_. act_lift (Inl e))
     else act_lift (Inl e))"

definition run_migration :: "planned \<Rightarrow> deployment_state \<Rightarrow> (op_world, deployment_state) act" where
  "run_migration p prepared =
     (let d = pn_operation p in
      act_bind (phase ''migration_setup'') (\<lambda>_.
      act_bind (emit d ''migration-started'' ''migration_started'' ''started'' (Some MIGRATION_IDENTITY) False) (\<lambda>(eid, ts).
      act_bind (act_lift (updated_state prepared (Some ''running'') ts eid)) (\<lambda>running.
      act_bind (save_snapshot running) (\<lambda>_.
      act_bind (noting ''migration_failed'' (act_bind (phase ''migration_execution'') (\<lambda>_.
        call_none (Migrate ''dev'' (xr_exact_image_reference (on_request d)) MIGRATION_IDENTITY MIGRATION_CHECKSUM)))) (\<lambda>_.
      act_bind (phase ''migration_audit'') (\<lambda>_.
      act_bind (make_event d ''migration-succeeded'' ''migration_succeeded'' ''succeeded'' (Some MIGRATION_IDENTITY) False) (\<lambda>event.
      act_bind (act_lift (updated_state running (Some ''succeeded'') (ev_timestamp event) (ev_event_id event))) (\<lambda>succeeded.
      act_bind (save_snapshot succeeded) (\<lambda>_.
      act_bind (append_event d event) (\<lambda>_. act_lift (Inr succeeded))))))))))))"

text \<open>A health check: an exception or an answer other than \<open>True\<close> sets the failure event.\<close>

definition health_check :: "string \<Rightarrow> string \<Rightarrow> deploy_call \<Rightarrow> (op_world, unit) act" where
  "health_check ph failure c =
     act_bind (noting failure (act_bind (phase ph) (\<lambda>_. ask c))) (\<lambda>a.
     if a \<noteq> Returns_True then
       act_bind (assign (\<lambda>l. l\<lparr>dl_failure_event := Some failure\<rparr>)) (\<lambda>_. act_lift (Inl TypeError))
     else assign (\<lambda>l. l\<lparr>dl_failure_event := None\<rparr>))"

definition passing_gates :: gate_results where
  "passing_gates = \<lparr>migration_succeeded = True, liveness_passed = True, readiness_passed = True,
     application_validation_passed = True, nginx_validation_passed = True\<rparr>"

definition check_gates :: "planned \<Rightarrow> deployment_state \<Rightarrow> (op_world, unit) act" where
  "check_gates p succeeded =
     (let d = pn_operation p; slot = on_candidate_slot d in
      act_bind (health_check ''liveness'' ''liveness_failed'' (Liveness ''dev'' slot)) (\<lambda>_.
      act_bind (emit d ''liveness-passed'' ''liveness_passed'' ''succeeded'' None False) (\<lambda>_.
      act_bind (health_check ''readiness'' ''readiness_failed'' (Readiness ''dev'' slot)) (\<lambda>_.
      act_bind (emit d ''readiness-passed'' ''readiness_passed'' ''succeeded'' None False) (\<lambda>_.
      act_bind (phase ''application_metadata'') (\<lambda>_.
      act_bind (call_true (Validate_Application (pn_application_plan p))) (\<lambda>_.
      act_bind (phase ''nginx_validation'') (\<lambda>_.
      act_bind (call_true (Validate_Nginx ''dev'')) (\<lambda>_.
      act_bind (phase ''traffic_gate'') (\<lambda>_.
        act_lift (authorize_traffic_switch succeeded passing_gates)))))))))))"

definition switch_traffic :: "planned \<Rightarrow> (op_world, unit) act" where
  "switch_traffic p =
     (let d = pn_operation p in
      act_bind (emit d ''traffic-switch-started'' ''traffic_switch_started'' ''started'' None False) (\<lambda>_.
      act_bind (assign (\<lambda>l. l\<lparr>dl_failure_event := Some ''traffic_switch_failed'', dl_switch_attempted := True\<rparr>)) (\<lambda>_.
      act_bind (phase ''traffic_switch'') (\<lambda>_.
      act_bind (call_none (Switch ''dev'' (on_candidate_slot d))) (\<lambda>_.
      act_bind (assign (\<lambda>l. l\<lparr>dl_failure_event := None\<rparr>)) (\<lambda>_.
      act_bind (emit d ''traffic-switch-succeeded'' ''traffic_switch_succeeded'' ''succeeded'' None True) (\<lambda>_.
        act_lift (Inr ()))))))))"

definition finish_deployment :: "planned \<Rightarrow> deployment_state \<Rightarrow> (op_world, unit) act" where
  "finish_deployment p succeeded =
     (let d = pn_operation p in
      act_bind (phase ''completion_audit'') (\<lambda>_.
      act_bind (make_event d ''promotion-succeeded'' ''promotion_succeeded'' ''succeeded'' None True) (\<lambda>event.
      act_bind (act_lift (bnd (complete_promotion succeeded passing_gates (ev_timestamp event) (ev_event_id event)) (\<lambda>done.
        validated_completed_state done succeeded (ev_timestamp event) (ev_event_id event)))) (\<lambda>completed.
      act_bind (save_snapshot completed) (\<lambda>_.
      act_bind (append_event d event) (\<lambda>_. act_lift (Inr ())))))))"

definition deploy_body :: "operation_config \<Rightarrow> executor_request \<Rightarrow> (op_world, unit) act" where
  "deploy_body cfg request =
     act_bind (plan_deployment cfg request) (\<lambda>p.
     act_bind (stage_candidate p) (\<lambda>prepared.
     act_bind (start_image p) (\<lambda>_.
     act_bind (run_migration p prepared) (\<lambda>succeeded.
     act_bind (check_gates p succeeded) (\<lambda>_.
     act_bind (switch_traffic p) (\<lambda>_.
       finish_deployment p succeeded))))))"

text \<open>The request hash that \<open>recover\<close> uses is the one of the snapshot.\<close>

definition recovered :: "op_world \<Rightarrow> op_world" where
  "recovered w = (case dl_snapshot (ow_locals w) of None \<Rightarrow> w | Some r \<Rightarrow> recover (request_hash_of r) w)"

definition deploy :: "operation_config \<Rightarrow> executor_request \<Rightarrow> (op_world, unit) act" where
  "deploy cfg request w =
     (if ow_active w then (Inl DeploymentOperationError, w)
      else case deploy_body cfg request (w\<lparr>ow_active := True, ow_locals := initial_locals\<rparr>) of
        (Inr _, w1) \<Rightarrow> (Inr (), w1\<lparr>ow_active := False\<rparr>)
      | (Inl e, w1) \<Rightarrow>
          if is_Exception e then
            (Inl DeploymentOperationError,
             (recovered (w1\<lparr>ow_log := ow_log w1 @ [dl_phase (ow_locals w1)]\<rparr>))\<lparr>ow_active := False\<rparr>)
          else (Inl e, (recovered w1)\<lparr>ow_active := False\<rparr>))"

end
