(* ===== verification/Deploy_Facts.thy ===== *)
theory Deploy_Facts
  imports Deploy_Checks
begin

text \<open>
  What the snapshots and the transitions of a deployment give: a snapshot of a request or a state is that
  request or state, an update changes the migration status, the time and the event and nothing else, and the
  comparisons with the reviewed transition accept exactly the transition that the controller makes.
\<close>


section \<open>What a snapshot is\<close>

lemma csort_permute: "mset d = mset e \<Longrightarrow> distinct (keys d) \<Longrightarrow> csort d = csort e"
proof -
  assume m: "mset d = mset e" and k: "distinct (keys d)"
  let ?f = "map (\<lambda>(k, v). (k, canon v))"
  have "map fst (?f d) = map fst d" by (simp add: comp_def case_prod_beta)
  then have "distinct (map fst (?f d))" using k by (simp only: keys_def)
  then have "inj_on fst (set (?f d))" by (simp only: distinct_map)
  moreover have "mset (?f d) = mset (sort_key fst (?f e))" by (simp only: mset_map m mset_sort)
  ultimately show ?thesis unfolding csort_def by (intro sort_key_inj_key_eq) simp_all
qed

lemma canonical_bytes_cong: "canon u = canon v \<Longrightarrow> canonical_bytes u = canonical_bytes v"
  by (simp add: canonical_bytes_def json_dumps_def)

text \<open>The mapping differs from \<open>to_dict\<close> only in the place of the ingress files.\<close>

definition ingress_mapping :: "ingress_reference \<Rightarrow> pyval" where
  "ingress_mapping i = PDict
     [(''schema_version'', PInt (ir_schema_version i)), (''kind'', PStr (ir_kind i)),
      (''repository_id'', PInt (ir_repository_id i)), (''reviewed_commit'', PStr (ir_reviewed_commit i)),
      (''loopback_address'', PStr (ir_loopback_address i)), (''loopback_port'', PInt (ir_loopback_port i)),
      (''public_origin'', PStr (ir_public_origin i)), (''files'', PList (map ingress_file_to_dict (ir_files i)))]"

lemma ingress_mapping_same:
  "canon (ingress_mapping i) = canon (ingress_to_dict i)" "plain (ingress_mapping i) = plain (ingress_to_dict i)"
  unfolding ingress_mapping_def ingress_to_dict_def canon_PDict
  by (intro arg_cong [of _ _ PDict] csort_permute; simp add: keys_def) auto

lemma request_mapping_last:
  "\<exists>xs. request_mapping r = PDict (xs @ [(''ingress_reference'', ingress_mapping (xr_ingress r))]) \<and>
        exec_to_dict r = PDict (xs @ [(''ingress_reference'', ingress_to_dict (xr_ingress r))])"
  by (rule exI [of _ "butlast (case exec_to_dict r of PDict d \<Rightarrow> d)"])
    (simp add: request_mapping_def exec_to_dict_def runtime_to_dict_def secrets_to_dict_def ingress_mapping_def
      ingress_file_to_dict_def Let_def)

lemma request_mapping_same:
  "canon (request_mapping r) = canon (exec_to_dict r)" "plain (request_mapping r) = plain (exec_to_dict r)"
  using request_mapping_last [of r] ingress_mapping_same [of "xr_ingress r"] by auto

lemma request_mapping_bytes: "canonical_bytes (request_mapping r) = exec_canonical_bytes r"
  unfolding exec_canonical_bytes_def by (rule canonical_bytes_cong) (rule request_mapping_same)

lemma snapshot_request_wf:
  assumes "wf_exec r" and "exec_times_fit r"
  shows "snapshot_request r = Inr r"
proof -
  have p: "plain (request_mapping r)" by (simp add: request_mapping_same plain_exec_to_dict [OF assms])
  show ?thesis
    using p canonical_loads_bytes [OF keeps_pairs_default p] exec_from_dict_canon [OF assms(1)]
    by (simp add: snapshot_request_def checked_bytes_def request_mapping_same)
qed

lemma migration_mapping_eq: "PDict (migration_mapping m) = migration_to_dict m"
  by (simp add: migration_mapping_def migration_to_dict_def)

lemma migration_from_sorted_dict:
  assumes "migration_from_dict (canon (migration_to_dict m)) = Inr n"
  shows "n = m"
proof -
  obtain d where d: "migration_to_dict m = PDict d" "migration_items d m" "distinct (keys d)"
    using migration_items_to_dict by blast
  then have "migration_items (csort d) m" by (simp add: migration_items_csort)
  moreover have "migration_items (csort d) n"
    using assms d(1) by (simp add: migration_from_dict_Inr canon_PDict del: canon.simps)
  ultimately show ?thesis by (cases m; cases n) (auto simp: migration_items_def)
qed

definition mapping_items :: "deployment_state \<Rightarrow> pydict" where
  "mapping_items s =
     [(''schema_version'', PInt (schema_version s)), (''stage'', PStr (stage s)),
      (''active_release'', of_opt (active_release s)), (''active_source_sha'', of_opt (active_source_sha s)),
      (''active_digest'', of_opt (active_digest s)), (''active_slot'', of_opt (active_slot s)),
      (''previous_release'', of_opt (previous_release s)), (''previous_source_sha'', of_opt (previous_source_sha s)),
      (''previous_digest'', of_opt (previous_digest s)), (''previous_slot'', of_opt (previous_slot s)),
      (''candidate_release'', of_opt (candidate_release s)), (''candidate_source_sha'', of_opt (candidate_source_sha s)),
      (''candidate_digest'', of_opt (candidate_digest s)), (''candidate_slot'', of_opt (candidate_slot s)),
      (''updated_at'', PStr (updated_at s)), (''event_id'', PStr (event_id s)),
      (''migration_state'', migration_to_dict (migration s))]"

lemma state_mapping_Inr:
  "state_mapping s = Inr d \<longleftrightarrow> ms_serialized_lock_required (migration s) \<and> d = mapping_items s"
  by (auto simp: state_mapping_def mapping_items_def migration_mapping_eq)

lemma distinct_mapping_items: "distinct (keys (mapping_items s))" "set (keys (mapping_items s)) = set STATE_FIELDS"
  by (simp add: mapping_items_def keys_def) (auto simp: mapping_items_def keys_def STATE_FIELDS_def)

lemma getv_mapping_items:
  "getv (mapping_items s) ''schema_version'' = PInt (schema_version s)"
  "getv (mapping_items s) ''stage'' = PStr (stage s)"
  "getv (mapping_items s) ''active_release'' = of_opt (active_release s)"
  "getv (mapping_items s) ''active_source_sha'' = of_opt (active_source_sha s)"
  "getv (mapping_items s) ''active_digest'' = of_opt (active_digest s)"
  "getv (mapping_items s) ''active_slot'' = of_opt (active_slot s)"
  "getv (mapping_items s) ''previous_release'' = of_opt (previous_release s)"
  "getv (mapping_items s) ''previous_source_sha'' = of_opt (previous_source_sha s)"
  "getv (mapping_items s) ''previous_digest'' = of_opt (previous_digest s)"
  "getv (mapping_items s) ''previous_slot'' = of_opt (previous_slot s)"
  "getv (mapping_items s) ''candidate_release'' = of_opt (candidate_release s)"
  "getv (mapping_items s) ''candidate_source_sha'' = of_opt (candidate_source_sha s)"
  "getv (mapping_items s) ''candidate_digest'' = of_opt (candidate_digest s)"
  "getv (mapping_items s) ''candidate_slot'' = of_opt (candidate_slot s)"
  "getv (mapping_items s) ''updated_at'' = PStr (updated_at s)"
  "getv (mapping_items s) ''event_id'' = PStr (event_id s)"
  "getv (mapping_items s) ''migration_state'' = migration_to_dict (migration s)"
  by (simp_all add: mapping_items_def getv_def)

lemma plain_mapping_items: "schema_version s = SCHEMA_VERSION \<Longrightarrow> plain (PDict (mapping_items s))"
  by (simp add: mapping_items_def migration_to_dict_def SCHEMA_VERSION_def int_fits_64)

lemma state_items_sorted:
  "state_items (csort (mapping_items s)) t \<longleftrightarrow>
     schema_version s = SCHEMA_VERSION \<and> wf_migration (migration s) \<and> t\<lparr>schema_version := schema_version s\<rparr> = s"
proof -
  have "migration_from_dict (canon (migration_to_dict (migration s))) = Inr (migration t) \<longleftrightarrow>
      wf_migration (migration s) \<and> migration t = migration s"
    using migration_from_sorted_dict [of "migration s" "migration t"] migration_from_dict_canon [of "migration s"]
    by (auto simp: migration_from_dict_Inr)
  moreover have "of_opt a = of_opt b \<longleftrightarrow> a = b" for a b by (metis opt_of_of_opt)
  ultimately show ?thesis
    by (cases s; cases t)
      (auto simp: state_items_def canon_simps distinct_mapping_items getv_mapping_items py_eq_int)
qed

lemma snapshot_state_Inr:
  "snapshot_state f s = Inr t \<longleftrightarrow> t = s \<and> wf_state s \<and> stage s = ''dev'' \<and> (f \<longrightarrow> is_fresh s)"
  (is "?L \<longleftrightarrow> ?R")
proof -
  have loads: "json_loads_bytes default_hooks (canonical_bytes (PDict (mapping_items s))) = Inr (PDict (csort (mapping_items s)))"
    if "plain (PDict (mapping_items s))"
    using canonical_loads_bytes [OF keeps_pairs_default that] by (simp only: canon_PDict)
  have parse: "state_from_dict (PDict (csort (mapping_items s))) = Inr t \<longleftrightarrow> t = s \<and> wf_state s"
    by (auto simp: state_from_dict_Inr state_items_sorted wf_state_def)
  show ?thesis
  proof
    assume ?L
    then obtain snap where "plain (PDict (mapping_items s))" "state_from_dict (PDict (csort (mapping_items s))) = Inr t"
        "stage t = ''dev''" "f \<longrightarrow> is_fresh t"
      using loads by (auto simp: snapshot_state_def checked_bytes_def state_mapping_Inr split: if_splits)
    then show ?R using parse by auto
  next
    assume r: ?R
    then have "plain (PDict (mapping_items s))" by (intro plain_mapping_items) (simp add: wf_state_def)
    moreover have "state_mapping s = Inr (mapping_items s)"
      using r by (simp add: state_mapping_Inr wf_state_def wf_migration_def)
    ultimately show ?L using r parse loads by (auto simp: snapshot_state_def checked_bytes_def)
  qed
qed

section \<open>What the transitions change\<close>

lemma py_eq_refl: "plain v \<Longrightarrow> py_eq v v"
proof (induction v)
  case (PList xs)
  then show ?case by (auto simp: list_all_iff in_set_zip)
next
  case (PDict d)
  have "py_eq v v" if "(k, v) \<in> set d" for k v
    using PDict that by (fastforce simp: list_all_iff)
  moreover have "map_of d k = Some v" if "(k, v) \<in> set d" for k v
    using PDict.prems that by simp
  ultimately show ?case using PDict.prems by (auto simp: list_all_iff)
qed simp_all

lemma mapping_py_eq: "wf_state s \<Longrightarrow> py_eq (PDict (mapping_items s)) (PDict (mapping_items s))"
  by (intro py_eq_refl plain_mapping_items) (simp add: wf_state_def)

lemma state_mapping_wf: "wf_state s \<Longrightarrow> state_mapping s = Inr (mapping_items s)"
  by (simp add: state_mapping_Inr wf_state_def wf_migration_def)

lemma state_from_mapping:
  "state_from_dict (PDict (mapping_items s)) = Inr t \<longleftrightarrow> t = s \<and> wf_state s"
proof -
  have "migration_from_dict (migration_to_dict (migration s)) = Inr (migration t) \<longleftrightarrow>
      wf_migration (migration s) \<and> migration t = migration s"
    using migration_from_own_dict [of "migration s" "migration t"] migration_roundtrip [of "migration s"]
    by (auto simp: migration_from_dict_Inr)
  then have "state_items (mapping_items s) t \<longleftrightarrow>
      schema_version s = SCHEMA_VERSION \<and> wf_migration (migration s) \<and> t\<lparr>schema_version := schema_version s\<rparr> = s"
    by (cases s; cases t) (auto simp: state_items_def distinct_mapping_items getv_mapping_items py_eq_int)
  then show ?thesis by (auto simp: state_from_dict_Inr wf_state_def)
qed

text \<open>\<open>stamped\<close>: a state with a new migration status, if one is given, a new time and event.\<close>

definition stamped :: "string option \<Rightarrow> string \<Rightarrow> string \<Rightarrow> deployment_state \<Rightarrow> deployment_state" where
  "stamped st ts eid s =
     s\<lparr>migration := (case st of None \<Rightarrow> migration s | Some x \<Rightarrow> (migration s)\<lparr>ms_status := x\<rparr>),
       updated_at := ts, event_id := eid\<rparr>"

lemma updated_state_Inr:
  assumes "wf_state s"
  shows "updated_state s st ts eid = Inr t \<longleftrightarrow> t = stamped st ts eid s \<and> wf_state t"
proof -
  let ?c = "put (put (case st of None \<Rightarrow> mapping_items s
      | Some x \<Rightarrow> put (mapping_items s) ''migration_state'' (PDict (put (migration_mapping (migration s)) ''status'' (PStr x))))
      ''updated_at'' (PStr ts)) ''event_id'' (PStr eid)"
  have c: "?c = mapping_items (stamped st ts eid s)"
    by (cases st) (simp_all add: mapping_items_def stamped_def migration_mapping_def migration_to_dict_def)
  show ?thesis
    using state_mapping_wf [OF assms] state_mapping_wf [of "stamped st ts eid s"] mapping_py_eq [of "stamped st ts eid s"]
    by (auto simp: updated_state_def c state_from_mapping Let_def simp del: py_eq.simps)
qed

lemma stamped_fields [simp]:
  "active_release (stamped st ts eid s) = active_release s" "active_source_sha (stamped st ts eid s) = active_source_sha s"
  "active_digest (stamped st ts eid s) = active_digest s" "active_slot (stamped st ts eid s) = active_slot s"
  "candidate_release (stamped st ts eid s) = candidate_release s"
  "candidate_source_sha (stamped st ts eid s) = candidate_source_sha s"
  "candidate_digest (stamped st ts eid s) = candidate_digest s" "candidate_slot (stamped st ts eid s) = candidate_slot s"
  "ms_status (migration (stamped (Some x) ts eid s)) = x" "stage (stamped st ts eid s) = stage s"
  by (simp_all add: stamped_def)

text \<open>\<open>with_candidate\<close>: the state that \<open>prepare_candidate\<close> makes for a request.\<close>

definition with_candidate :: "executor_request \<Rightarrow> deployment_state \<Rightarrow> deployment_state" where
  "with_candidate r s =
     s\<lparr>candidate_release := Some (xr_release_version r), candidate_source_sha := Some (xr_source_sha r),
       candidate_digest := Some (xr_manifest_digest r), candidate_slot := Some (inactive_slot (active_slot s)),
       migration := \<lparr>ms_status = ''pending'', ms_identity = Some MIGRATION_IDENTITY, ms_checksum = Some MIGRATION_CHECKSUM,
         ms_serialized_lock_required = True\<rparr>\<rparr>"

lemma validated_prepared_Inr:
  assumes "wf_state original" and "stage original = ''dev''"
  shows "validated_prepared_state (with_candidate r original) original r = Inr t \<longleftrightarrow>
    t = with_candidate r original \<and> wf_state t"
proof -
  let ?t = "with_candidate r original"
  have c: "put_all (mapping_items original)
       [(''candidate_release'', PStr (xr_release_version r)), (''candidate_source_sha'', PStr (xr_source_sha r)),
        (''candidate_digest'', PStr (xr_manifest_digest r)),
        (''candidate_slot'', PStr (if active_slot original = Some ''blue'' then ''green'' else ''blue'')),
        (''migration_state'', PDict
          [(''status'', PStr ''pending''), (''identity'', PStr MIGRATION_IDENTITY), (''checksum'', PStr MIGRATION_CHECKSUM),
           (''serialized_lock_required'', PBool True)])] = mapping_items ?t"
    by (simp add: mapping_items_def put_all_def with_candidate_def migration_to_dict_def inactive_slot_def)
  have "stage ?t = ''dev''" using assms(2) by (simp add: with_candidate_def)
  then show ?thesis
    using state_mapping_wf [OF assms(1)] state_mapping_wf [of ?t] mapping_py_eq [of ?t]
    by (auto simp: validated_prepared_state_def snapshot_state_Inr Let_def c simp del: py_eq.simps)
qed

lemma validated_completed_Inr:
  assumes "wf_state s" and "stage s = ''dev''"
  shows "validated_completed_state (promoted s ts eid) s ts eid = Inr t \<longleftrightarrow> t = promoted s ts eid \<and> wf_state t"
proof -
  let ?t = "promoted s ts eid"
  have c: "put_all (mapping_items s)
       [(''active_release'', of_opt (candidate_release s)), (''active_source_sha'', of_opt (candidate_source_sha s)),
        (''active_digest'', of_opt (candidate_digest s)), (''active_slot'', of_opt (candidate_slot s)),
        (''previous_release'', of_opt (active_release s)), (''previous_source_sha'', of_opt (active_source_sha s)),
        (''previous_digest'', of_opt (active_digest s)), (''previous_slot'', of_opt (active_slot s)),
        (''candidate_release'', PNone), (''candidate_source_sha'', PNone), (''candidate_digest'', PNone),
        (''candidate_slot'', PNone), (''updated_at'', PStr ts), (''event_id'', PStr eid)] = mapping_items ?t"
    by (simp add: mapping_items_def put_all_def promoted_def)
  have "stage ?t = ''dev''" using assms(2) by (simp add: promoted_def)
  then show ?thesis
    using state_mapping_wf [OF assms(1)] state_mapping_wf [of ?t] mapping_py_eq [of ?t]
    by (auto simp: validated_completed_state_def snapshot_state_Inr Let_def c simp del: py_eq.simps)
qed

text \<open>The plan of a promotion, and what planning gives.\<close>

definition plan_for :: "executor_request \<Rightarrow> deployment_state \<Rightarrow> deployment_plan" where
  "plan_for r s =
     \<lparr>pl_operation = ''promotion'', pl_stage = ''dev'', pl_release_version = xr_release_version r,
      pl_source_sha = xr_source_sha r, pl_exact_image_reference = xr_exact_image_reference r,
      pl_active_slot = active_slot s, pl_candidate_slot = inactive_slot (active_slot s), pl_steps = PROMOTION_STEPS\<rparr>"

lemma promotion_request_of_Inr:
  "promotion_request_of r = Inr q \<Longrightarrow>
     wf_request q \<and> rq_release_version q = xr_release_version r \<and> rq_source_sha q = xr_source_sha r \<and>
     rq_manifest_digest q = xr_manifest_digest r \<and> rq_exact_image_reference q = xr_exact_image_reference r \<and>
     rq_target_stage q = xr_stage r"
  by (auto simp: promotion_request_of_def request_from_dict_Inr request_items_def getv_def)

lemma migration_pending:
  "migration_from_dict (PDict [(''status'', PStr ''pending''), (''identity'', PStr i), (''checksum'', PStr c),
     (''serialized_lock_required'', PBool True)]) = Inr m \<Longrightarrow>
   m = \<lparr>ms_status = ''pending'', ms_identity = Some i, ms_checksum = Some c, ms_serialized_lock_required = True\<rparr>"
  using migration_from_own_dict [of "\<lparr>ms_status = ''pending'', ms_identity = Some i, ms_checksum = Some c,
      ms_serialized_lock_required = True\<rparr>" m]
  by (simp add: migration_to_dict_def)

lemma prepare_candidate_Inr:
  assumes "promotion_request_of r = Inr q" and "prepare_candidate s q MIGRATION_IDENTITY MIGRATION_CHECKSUM = Inr t"
  shows "t = with_candidate r s"
  using promotion_request_of_Inr [OF assms(1)] assms(2)
  by (auto simp: prepare_candidate_def with_candidate_def dest: migration_pending split: if_splits)

end
