(* ===== verification/Deploy_Run.thy ===== *)
theory Deploy_Run
  imports Steps Deploy Deploy_Facts
begin

text \<open>
  What the calls of a deployment are.  Two preorders of worlds, the calls added and the locals kept, are carried
  through the combinators once for all by the locale \<open>step_order\<close>; the phases that return are
  described call by call.  The properties are: a deployment that returns made one whole reviewed run, traffic is
  switched only after every gate answered well, and a deployment that fails after it saved a candidate
  restores what it loaded.
\<close>

section \<open>Two preorders of a deployment\<close>

text \<open>\<open>adds P\<close>: the calls made satisfy \<open>P\<close>.  \<open>keeps I\<close>: the locals still satisfy \<open>I\<close>.\<close>

definition adds :: "(deploy_call \<times> answer \<Rightarrow> bool) \<Rightarrow> op_world \<Rightarrow> op_world \<Rightarrow> bool" where
  "adds P w w' \<longleftrightarrow> (\<exists>calls. ow_trace w' = ow_trace w @ calls \<and> list_all P calls)"

definition keeps :: "(deploy_locals \<Rightarrow> bool) \<Rightarrow> op_world \<Rightarrow> op_world \<Rightarrow> bool" where
  "keeps I w w' \<longleftrightarrow> (I (ow_locals w) \<longrightarrow> I (ow_locals w'))"

interpretation adds: step_order "adds P" for P
  by unfold_locales (fastforce simp: adds_def)+

interpretation keeps: step_order "keeps I" for I
  by unfold_locales (auto simp: keeps_def)

definition logged :: "deploy_call \<Rightarrow> answer \<Rightarrow> op_world \<Rightarrow> op_world" where
  "logged c a w = w\<lparr>ow_answers := tl (ow_answers w), ow_trace := ow_trace w @ [(c, a)]\<rparr>"

lemma logged_fields [simp]:
  "ow_trace (logged c a w) = ow_trace w @ [(c, a)]" "ow_locals (logged c a w) = ow_locals w"
  "ow_active (logged c a w) = ow_active w" "ow_log (logged c a w) = ow_log w"
  "ow_answers (logged c a w) = tl (ow_answers w)"
  by (simp_all add: logged_def)

lemma ask_run: "ask c w = (r, w') \<longleftrightarrow>
  (\<exists>a. w' = logged c a w \<and> r = (case a of Raises e \<Rightarrow> Inl e | _ \<Rightarrow> Inr a) \<and>
       a = (case ow_answers w of [] \<Rightarrow> Raises OSError | b # _ \<Rightarrow> b))"
  by (auto simp: ask_def logged_def Let_def split: answer.splits)

lemma ask_Inr: "ask c w = (Inr a, w') \<Longrightarrow> w' = logged c a w"
  by (auto simp: ask_run split: answer.splits)

lemma ask_steps:
  "(\<And>a. P (c, a)) \<Longrightarrow> moves (adds P) (ask c)" "moves (keeps I) (ask c)"
  by (auto simp: moves_def adds_def keeps_def ask_def Let_def split: answer.splits)

lemma call_steps:
  "(\<And>a. P (c, a)) \<Longrightarrow> moves (adds P) (call_none c)" "(\<And>a. P (c, a)) \<Longrightarrow> moves (adds P) (call_true c)"
  "moves (keeps I) (call_none c)" "moves (keeps I) (call_true c)"
  unfolding call_none_def call_true_def
  by (intro adds.combinators keeps.combinators ask_steps; assumption)+

lemma assign_steps:
  "moves (adds P) (assign f)" "(\<And>l. I l \<Longrightarrow> I (f l)) \<Longrightarrow> moves (keeps I) (assign f)"
  by (auto simp: moves_def adds_def keeps_def assign_def)

lemma phase_steps: "moves (adds P) (phase p)" "(\<And>l. I l \<Longrightarrow> I (l\<lparr>dl_phase := p\<rparr>)) \<Longrightarrow> moves (keeps I) (phase p)"
  unfolding phase_def by (rule assign_steps; assumption)+

section \<open>What a call that succeeded did\<close>

lemma call_none_Inr: "call_none c w = (Inr u, w') \<Longrightarrow> w' = logged c Returns_None w"
  by (auto simp: call_none_def act_bind_Inr_iff ask_run split: answer.splits if_splits)

lemma call_none_run: "\<exists>a r. call_none c w = (r, logged c a w) \<and> (r = Inr () \<longleftrightarrow> a = Returns_None)"
proof (cases "ask c w")
  case (Pair r w')
  then obtain a where "w' = logged c a w" "r = (case a of Raises e \<Rightarrow> Inl e | _ \<Rightarrow> Inr a)" by (auto simp: ask_run)
  with Pair show ?thesis by (cases a) (auto simp: call_none_def act_bind_def)
qed

lemma call_true_Inr: "call_true c w = (Inr u, w') \<Longrightarrow> w' = logged c Returns_True w"
  by (auto simp: call_true_def act_bind_Inr_iff ask_run split: answer.splits if_splits)


text \<open>The event of a step: what \<open>checked_event\<close> lets pass.\<close>

lemma checked_event_Inr:
  assumes "checked_event d a = Inr e"
  shows "ev_event_type e = ea_event_type a \<and> ev_event_id e = ea_event_id a \<and> ev_result e = ea_result a \<and>
    ev_timestamp e = ea_timestamp a \<and> ev_digest e = xr_manifest_digest (on_request d) \<and>
    ev_active_slot e = ea_active_slot a \<and> ev_candidate_slot e = ea_candidate_slot a \<and>
    ai_executor_request_sha256 (ev_execution_identity e) = on_request_hash d \<and>
    require_executor_request e (on_request d) = Inr ()"
proof -
  have "event_fingerprint e = expected_fingerprint d a" "require_executor_request e (on_request d) = Inr ()"
    using assms by (auto simp: checked_event_def split: if_splits)
  then show ?thesis by (simp add: event_fingerprint_def expected_fingerprint_def Let_def)
qed

definition event_at :: "operation \<Rightarrow> string \<Rightarrow> string \<Rightarrow> string \<Rightarrow> string option \<Rightarrow> bool \<Rightarrow> string \<Rightarrow> audit_event \<Rightarrow> bool" where
  "event_at d step kind res mig ok ts e \<longleftrightarrow> checked_event d (event_arguments_of d step kind res mig ok ts) = Inr e"

lemma event_at_fields:
  assumes "event_at d step kind res mig ok ts e"
  shows "ev_event_type e = kind" "ev_event_id e = ''c8:'' @ on_request_hash d @ '':'' @ step" "ev_timestamp e = ts"
    "ev_digest e = xr_manifest_digest (on_request d)" "ev_result e = res"
    "ai_executor_request_sha256 (ev_execution_identity e) = on_request_hash d"
    "require_executor_request e (on_request d) = Inr ()"
  using checked_event_Inr [OF assms [unfolded event_at_def]] by (simp_all add: event_arguments_of_def)

lemma make_event_Inr:
  "make_event d step kind res mig ok w = (Inr e, w') \<Longrightarrow>
     \<exists>ts. w' = logged Clock (Returns_Text ts) w \<and> event_at d step kind res mig ok ts e"
  by (auto simp: make_event_def act_bind_Inr_iff ask_run event_at_def split: answer.splits)

lemma append_event_Inr:
  "append_event d e w = (Inr x, w') \<Longrightarrow> w' = logged (Append e) Returns_None w \<and> x = (ev_event_id e, ev_timestamp e)"
  by (auto simp: append_event_def act_bind_Inr_iff dest: call_none_Inr)

lemma emit_Inr:
  "emit d step kind res mig ok w = (Inr x, w') \<Longrightarrow>
     \<exists>ts e. w' = logged (Append e) Returns_None (logged Clock (Returns_Text ts) w) \<and>
       event_at d step kind res mig ok ts e \<and> x = (ev_event_id e, ev_timestamp e)"
  unfolding emit_def act_bind_Inr_iff by (fastforce dest!: make_event_Inr append_event_Inr)

lemma emit_steps:
  assumes "\<And>a. P (Clock, a)" and "\<And>e a. P (Append e, a)"
  shows "moves (adds P) (emit d step kind res mig ok)" "moves (adds P) (make_event d step kind res mig ok)"
    "moves (adds P) (append_event d e)"
proof -
  have m: "moves (adds P) (make_event d step kind res mig ok)"
    unfolding make_event_def by (intro adds.bind ask_steps assms) (auto split: answer.split intro: adds.lift)
  moreover have a: "moves (adds P) (append_event d e)" for e
    unfolding append_event_def by (intro adds.combinators call_steps assms)
  ultimately show "moves (adds P) (emit d step kind res mig ok)" unfolding emit_def by (intro adds.bind)
  show "moves (adds P) (make_event d step kind res mig ok)" "moves (adds P) (append_event d e)" by (fact m a)+
qed

lemma emit_keeps:
  "moves (keeps I) (emit d step kind res mig ok)" "moves (keeps I) (make_event d step kind res mig ok)"
  "moves (keeps I) (append_event d e)"
proof -
  have m: "moves (keeps I) (make_event d step kind res mig ok)"
    unfolding make_event_def by (intro keeps.bind ask_steps) (auto split: answer.split intro: keeps.lift)
  moreover have a: "moves (keeps I) (append_event d e)" for e
    unfolding append_event_def by (intro keeps.combinators call_steps)
  ultimately show "moves (keeps I) (emit d step kind res mig ok)" unfolding emit_def by (intro keeps.bind)
  show "moves (keeps I) (make_event d step kind res mig ok)" "moves (keeps I) (append_event d e)" by (fact m a)+
qed

lemma assign_Inr: "assign f w = (Inr u, w') \<longleftrightarrow> w' = w\<lparr>ow_locals := f (ow_locals w)\<rparr>"
  by (auto simp: assign_def)

lemma phase_Inr: "phase p w = (Inr u, w') \<longleftrightarrow> w' = w\<lparr>ow_locals := (ow_locals w)\<lparr>dl_phase := p\<rparr>\<rparr>"
  by (simp add: phase_def assign_Inr)

lemma save_snapshot_Inr:
  "save_snapshot s w = (Inr u, w') \<Longrightarrow> w' = logged (Save s) Returns_None w \<and> wf_state s \<and> stage s = ''dev''"
  by (auto simp: save_snapshot_def act_bind_Inr_iff snapshot_state_Inr dest: call_none_Inr)


section \<open>Phases that succeeded\<close>

lemmas run_simps = act_bind_Inr_iff assign_Inr phase_Inr

lemma stage_candidate_Inr:
  assumes "stage_candidate p w = (Inr s, w')" and "wf_state (pn_prepared p)"
  shows "\<exists>ts e. event_at (pn_operation p) ''promotion-started'' ''promotion_started'' ''started'' None False ts e \<and>
    s = stamped None ts (ev_event_id e) (pn_prepared p) \<and> wf_state s \<and>
    ow_trace w' = ow_trace w @ [(Clock, Returns_Text ts), (Append e, Returns_None), (Save s, Returns_None)] \<and>
    ow_locals w' = (ow_locals w)\<lparr>dl_phase := ''audit_and_candidate_state'', dl_started := True, dl_prepared := Some s,
      dl_candidate_written := True, dl_restore := True\<rparr>"
  using assms(1) unfolding stage_candidate_def Let_def
  by (auto simp: run_simps updated_state_Inr [OF assms(2)] event_at_fields(3)
      dest!: make_event_Inr append_event_Inr save_snapshot_Inr)

lemma start_image_Inr:
  assumes "start_image p w = (Inr u, w')"
  shows "\<exists>img. img = xr_exact_image_reference (on_request (pn_operation p)) \<and>
    ow_trace w' = ow_trace w @ [(Pull img, Returns_None), (Verify_Digest img, Returns_None),
      (Start (pn_start_plan p), Returns_None)]"
  using assms unfolding start_image_def Let_def by (auto simp: run_simps dest!: call_none_Inr)

lemma noting_Inr: "noting f m w = (Inr x, w') \<longleftrightarrow> m w = (Inr x, w')"
  by (auto simp: noting_def act_catch_Inr_iff act_bind_Inr_iff)

lemma run_migration_Inr:
  assumes "run_migration p prepared w = (Inr s, w')" and "wf_state prepared"
  shows "\<exists>ts1 e1 ts2 e2 running. event_at (pn_operation p) ''migration-started'' ''migration_started'' ''started''
      (Some MIGRATION_IDENTITY) False ts1 e1 \<and>
    event_at (pn_operation p) ''migration-succeeded'' ''migration_succeeded'' ''succeeded''
      (Some MIGRATION_IDENTITY) False ts2 e2 \<and>
    running = stamped (Some ''running'') ts1 (ev_event_id e1) prepared \<and>
    s = stamped (Some ''succeeded'') ts2 (ev_event_id e2) running \<and> wf_state s \<and>
    ow_trace w' = ow_trace w @
      [(Clock, Returns_Text ts1), (Append e1, Returns_None), (Save running, Returns_None),
       (Migrate ''dev'' (xr_exact_image_reference (on_request (pn_operation p))) MIGRATION_IDENTITY MIGRATION_CHECKSUM, Returns_None),
       (Clock, Returns_Text ts2), (Save s, Returns_None), (Append e2, Returns_None)]"
  using assms(1) unfolding run_migration_def Let_def
  by (auto simp: run_simps noting_Inr updated_state_Inr assms(2) event_at_fields(3)
      dest!: make_event_Inr append_event_Inr save_snapshot_Inr emit_Inr call_none_Inr)

lemma health_check_Inr:
  "health_check ph f c w = (Inr u, w') \<Longrightarrow> ow_trace w' = ow_trace w @ [(c, Returns_True)]"
  by (auto simp: health_check_def run_simps noting_Inr ask_run split: if_splits answer.splits)

lemma check_gates_Inr:
  assumes "check_gates p s w = (Inr u, w')"
  shows "\<exists>ts1 e1 ts2 e2. event_at (pn_operation p) ''liveness-passed'' ''liveness_passed'' ''succeeded'' None False ts1 e1 \<and>
    event_at (pn_operation p) ''readiness-passed'' ''readiness_passed'' ''succeeded'' None False ts2 e2 \<and>
    authorize_traffic_switch s passing_gates = Inr () \<and>
    ow_trace w' = ow_trace w @
      [(Liveness ''dev'' (on_candidate_slot (pn_operation p)), Returns_True),
       (Clock, Returns_Text ts1), (Append e1, Returns_None),
       (Readiness ''dev'' (on_candidate_slot (pn_operation p)), Returns_True),
       (Clock, Returns_Text ts2), (Append e2, Returns_None),
       (Validate_Application (pn_application_plan p), Returns_True), (Validate_Nginx ''dev'', Returns_True)]"
  using assms unfolding check_gates_def Let_def
  by (auto simp: run_simps dest!: emit_Inr health_check_Inr call_true_Inr)

lemma switch_traffic_Inr:
  assumes "switch_traffic p w = (Inr u, w')"
  shows "\<exists>ts1 e1 ts2 e2. event_at (pn_operation p) ''traffic-switch-started'' ''traffic_switch_started'' ''started'' None False ts1 e1 \<and>
    event_at (pn_operation p) ''traffic-switch-succeeded'' ''traffic_switch_succeeded'' ''succeeded'' None True ts2 e2 \<and>
    ow_trace w' = ow_trace w @
      [(Clock, Returns_Text ts1), (Append e1, Returns_None),
       (Switch ''dev'' (on_candidate_slot (pn_operation p)), Returns_None),
       (Clock, Returns_Text ts2), (Append e2, Returns_None)]"
  using assms unfolding switch_traffic_def Let_def by (auto simp: run_simps dest!: emit_Inr call_none_Inr)

lemma finish_deployment_Inr:
  assumes "finish_deployment p s w = (Inr u, w')" and "wf_state s" and "stage s = ''dev''"
  shows "\<exists>ts e. event_at (pn_operation p) ''promotion-succeeded'' ''promotion_succeeded'' ''succeeded'' None True ts e \<and>
    wf_state (promoted s ts (ev_event_id e)) \<and>
    ow_trace w' = ow_trace w @
      [(Clock, Returns_Text ts), (Save (promoted s ts (ev_event_id e)), Returns_None), (Append e, Returns_None)]"
proof -
  have "complete_promotion s passing_gates ts eid = Inr t \<Longrightarrow> t = promoted s ts eid" for ts eid t
    using state_own_dict_wf [of "promoted s ts eid" t] assms(2)
    by (auto simp: complete_promotion_eq promoted_def wf_state_def)
  then have "u = promoted s ts eid \<and> wf_state u"
    if "complete_promotion s passing_gates ts eid = Inr t" "validated_completed_state t s ts eid = Inr u" for ts eid t u
    using that validated_completed_Inr [OF assms(2,3)] by blast
  then show ?thesis
    using assms(1) unfolding finish_deployment_def Let_def
    by (fastforce simp: run_simps event_at_fields(3) dest!: make_event_Inr append_event_Inr save_snapshot_Inr)
qed

section \<open>Planning\<close>

text \<open>The calls of a successful load: one, or three when an abandoned candidate was cleared first.\<close>

definition opening_calls :: "deployment_state \<Rightarrow> (deploy_call \<times> answer) list \<Rightarrow> bool" where
  "opening_calls original cs \<longleftrightarrow>
     cs = [(Load, Returns_State original)] \<or>
     (\<exists>s t. cleared_state s = Inr t \<and>
        cs = [(Load, Returns_State s), (Save t, Returns_None), (Load, Returns_State original)])"

lemma load_original_Inr:
  assumes "load_original r w = (Inr original, w')"
  shows "\<exists>cs. opening_calls original cs \<and> ow_trace w' = ow_trace w @ cs \<and> wf_state original \<and>
    stage original = ''dev'' \<and> is_fresh original \<and> dl_original (ow_locals w') = Some original \<and> dl_save (ow_locals w') \<and>
    dl_snapshot (ow_locals w') = dl_snapshot (ow_locals w)"
proof -
  let ?w = "w\<lparr>ow_locals := (ow_locals w)\<lparr>dl_phase := ''deployment_state_load'', dl_save := True\<rparr>\<rparr>"
  let ?clear = "\<lambda>loaded. case loaded of
      Returns_State s \<Rightarrow>
        if abandoned r s then
          act_bind (act_lift (cleared_state s)) (\<lambda>cleaned.
          act_bind (call_none (Save cleaned)) (\<lambda>_. ask Load))
        else act_lift (Inr loaded)
    | _ \<Rightarrow> act_lift (Inr loaded)"
  from assms obtain loaded current w1 where l: "ask Load ?w = (Inr loaded, w1)"
      and c: "\<exists>w2. ?clear loaded (w1\<lparr>ow_locals := (ow_locals w1)\<lparr>dl_phase := ''candidate_state_freshness''\<rparr>\<rparr>) = (Inr current, w2) \<and>
        (case current of Returns_State s \<Rightarrow> snapshot_state True s | _ \<Rightarrow> Inl TypeError) = Inr original \<and>
        w' = w2\<lparr>ow_locals := (ow_locals w2)\<lparr>dl_original := Some original\<rparr>\<rparr>"
    unfolding load_original_def by (auto simp: run_simps)
  then have cur: "current = Returns_State original" "wf_state original" "stage original = ''dev''" "is_fresh original"
    by (auto simp: snapshot_state_Inr split: answer.splits)
  show ?thesis
  proof (cases "\<exists>s. loaded = Returns_State s \<and> abandoned r s")
    case True
    then obtain s where s: "loaded = Returns_State s" "abandoned r s" by blast
    with c cur obtain t w3 where "cleared_state s = Inr t" "ask Load (logged (Save t) Returns_None
        (w1\<lparr>ow_locals := (ow_locals w1)\<lparr>dl_phase := ''candidate_state_freshness''\<rparr>\<rparr>)) = (Inr (Returns_State original), w3)"
        "w' = w3\<lparr>ow_locals := (ow_locals w3)\<lparr>dl_original := Some original\<rparr>\<rparr>"
      by (auto simp: act_bind_Inr_iff dest!: call_none_Inr)
    with l s cur show ?thesis by (auto simp: opening_calls_def dest!: ask_Inr)
  next
    case False
    with c have "loaded = current" "w' = w1\<lparr>ow_locals := (ow_locals w1)\<lparr>dl_phase := ''candidate_state_freshness'', dl_original := Some original\<rparr>\<rparr>"
      by (auto split: answer.splits if_splits)
    with l cur show ?thesis by (auto simp: opening_calls_def dest!: ask_Inr)
  qed
qed

lemma plan_operation_Inr:
  assumes "plan_operation r s = Inr (sp, ap, prepared)" and "wf_state s" and "stage s = ''dev''"
  shows "sp = plan_for r s \<and> ap = plan_for r s \<and> prepared = with_candidate r s \<and> wf_state prepared"
proof -
  obtain q made c where q: "promotion_request_of r = Inr q" and m: "promotion_plan s q = Inr made"
      and plans: "sp = copy_plan made" "ap = copy_plan made"
      and c: "prepare_candidate s q MIGRATION_IDENTITY MIGRATION_CHECKSUM = Inr c" "validated_prepared_state c s r = Inr prepared"
    using assms(1) by (auto simp: plan_operation_def validated_plan_def Let_def split: if_splits)
  have "made = plan_for r s"
    using m promotion_request_of_Inr [OF q] assms(3) by (auto simp: promotion_plan_def plan_for_def split: if_splits)
  moreover have "copy_plan made = made" by (simp add: copy_plan_def)
  ultimately show ?thesis
    using plans c(2) prepare_candidate_Inr [OF q c(1)] validated_prepared_Inr [OF assms(2,3)] by auto
qed

lemma plan_deployment_Inr:
  assumes "plan_deployment cfg r w = (Inr p, w')" and "wf_exec r" and "exec_times_fit r"
  shows "\<exists>original cs. p = \<lparr>pn_operation = \<lparr>on_request = r, on_request_hash = sha256_hex (exec_canonical_bytes r),
        on_original = original, on_candidate_slot = Some (inactive_slot (active_slot original))\<rparr>,
        pn_start_plan = plan_for r original, pn_application_plan = plan_for r original, pn_prepared = with_candidate r original\<rparr> \<and>
    opening_calls original cs \<and> ow_trace w' = ow_trace w @ cs \<and>
    wf_state original \<and> stage original = ''dev'' \<and> is_fresh original \<and> wf_state (with_candidate r original) \<and>
    assets_reviewed cfg r \<and> \<not> already_active r original \<and>
    dl_original (ow_locals w') = Some original \<and> dl_save (ow_locals w') \<and> dl_snapshot (ow_locals w') = Some r \<and>
    dl_prepared (ow_locals w') = Some (with_candidate r original) \<and> dl_emit (ow_locals w')"
proof -
  have slot: "candidate_slot (with_candidate r s) = Some (inactive_slot (active_slot s))" for s
    by (simp add: with_candidate_def)
  from assms(1) obtain original w1 sp ap prepared where reviewed: "assets_reviewed cfg r" "\<not> already_active r original"
      and l: "load_original r (w\<lparr>ow_locals := (ow_locals w)\<lparr>dl_snapshot := Some r\<rparr>\<rparr>) = (Inr original, w1)"
      and o: "plan_operation r original = Inr (sp, ap, prepared)"
      and p: "p = \<lparr>pn_operation = \<lparr>on_request = r, on_request_hash = sha256_hex (exec_canonical_bytes r), on_original = original,
            on_candidate_slot = candidate_slot prepared\<rparr>, pn_start_plan = sp, pn_application_plan = ap, pn_prepared = prepared\<rparr>"
      and w': "w' = w1\<lparr>ow_locals := (ow_locals w1)\<lparr>dl_phase := ''deployment_plan'', dl_prepared := Some prepared, dl_emit := True\<rparr>\<rparr>"
    unfolding plan_deployment_def snapshot_request_wf [OF assms(2,3)] request_hash_of_def request_mapping_bytes
    by (auto simp: run_simps split: if_splits)
  from load_original_Inr [OF l] obtain cs where cs: "opening_calls original cs" "ow_trace w1 = ow_trace w @ cs"
      "wf_state original" "stage original = ''dev''" "is_fresh original" "dl_original (ow_locals w1) = Some original"
      "dl_save (ow_locals w1)" "dl_snapshot (ow_locals w1) = Some r"
    by auto
  from plan_operation_Inr [OF o cs(3,4)] have "sp = plan_for r original" "ap = plan_for r original"
      "prepared = with_candidate r original" "wf_state (with_candidate r original)" by auto
  with reviewed p w' cs show ?thesis by (simp add: slot)
qed


section \<open>A deployment that succeeded\<close>

text \<open>The calls of a promotion, with the answers that let it go on, after the state was loaded.\<close>

record promotion_record =
  pr_plan :: deployment_plan
  pr_image :: string
  pr_slot :: string
  pr_prepared :: deployment_state
  pr_running :: deployment_state
  pr_succeeded :: deployment_state
  pr_completed :: deployment_state

definition audited :: "audit_event \<Rightarrow> (deploy_call \<times> answer) list" where
  "audited e = [(Clock, Returns_Text (ev_timestamp e)), (Append e, Returns_None)]"

definition audited_save :: "audit_event \<Rightarrow> deployment_state \<Rightarrow> (deploy_call \<times> answer) list" where
  "audited_save e s = [(Clock, Returns_Text (ev_timestamp e)), (Save s, Returns_None), (Append e, Returns_None)]"

definition gate_calls :: "promotion_record \<Rightarrow> audit_event list \<Rightarrow> (deploy_call \<times> answer) list" where
  "gate_calls r es =
     audited (es ! 0) @ [(Save (pr_prepared r), Returns_None),
      (Pull (pr_image r), Returns_None), (Verify_Digest (pr_image r), Returns_None), (Start (pr_plan r), Returns_None)] @
     audited (es ! 1) @ [(Save (pr_running r), Returns_None),
      (Migrate ''dev'' (pr_image r) MIGRATION_IDENTITY MIGRATION_CHECKSUM, Returns_None)] @
     audited_save (es ! 2) (pr_succeeded r) @
     [(Liveness ''dev'' (Some (pr_slot r)), Returns_True)] @ audited (es ! 3) @
     [(Readiness ''dev'' (Some (pr_slot r)), Returns_True)] @ audited (es ! 4) @
     [(Validate_Application (pr_plan r), Returns_True), (Validate_Nginx ''dev'', Returns_True)]"

definition switch_calls :: "promotion_record \<Rightarrow> audit_event list \<Rightarrow> (deploy_call \<times> answer) list" where
  "switch_calls r es =
     audited (es ! 5) @ [(Switch ''dev'' (Some (pr_slot r)), Returns_None)] @ audited (es ! 6) @
     audited_save (es ! 7) (pr_completed r)"

definition PROMOTION_EVENTS :: "string list" where
  "PROMOTION_EVENTS =
     [''promotion_started'', ''migration_started'', ''migration_succeeded'', ''liveness_passed'', ''readiness_passed'',
      ''traffic_switch_started'', ''traffic_switch_succeeded'', ''promotion_succeeded'']"

text \<open>The states and the plan of a promotion of a request from an original state.\<close>

definition promotes :: "executor_request \<Rightarrow> deployment_state \<Rightarrow> promotion_record \<Rightarrow> bool" where
  "promotes r original pr \<longleftrightarrow>
     pr_image pr = xr_exact_image_reference r \<and> pr_plan pr = plan_for r original \<and>
     pr_slot pr = inactive_slot (active_slot original) \<and>
     list_all (\<lambda>s. wf_state s \<and> active_identity s = active_identity original \<and>
       candidate_identity s = (Some (xr_release_version r), Some (xr_source_sha r), Some (xr_manifest_digest r), Some (pr_slot pr)))
       [pr_prepared pr, pr_succeeded pr] \<and>
     map (\<lambda>s. ms_status (migration s)) [pr_prepared pr, pr_running pr, pr_succeeded pr] = [''pending'', ''running'', ''succeeded'']"

lemma event_at_audited:
  "event_at d step kind res mig ok ts e \<Longrightarrow> [(Clock, Returns_Text ts), (Append e, Returns_None)] = audited e"
  "event_at d step kind res mig ok ts e \<Longrightarrow>
     [(Clock, Returns_Text ts), (Save s, Returns_None), (Append e, Returns_None)] = audited_save e s"
  by (simp_all add: audited_def audited_save_def event_at_fields)

definition binds :: "executor_request \<Rightarrow> audit_event \<Rightarrow> bool" where
  "binds r e \<longleftrightarrow> require_executor_request e r = Inr () \<and>
     ai_executor_request_sha256 (ev_execution_identity e) = sha256_hex (exec_canonical_bytes r)"

text \<open>Up to the traffic switch.\<close>

lemma gates_passed:
  assumes "plan_deployment cfg r w0 = (Inr p, w1)" and "wf_exec r" "exec_times_fit r"
    and "stage_candidate p w1 = (Inr prepared, w2)" and "start_image p w2 = (Inr u, w3)"
    and "run_migration p prepared w3 = (Inr succeeded, w4)" and "check_gates p succeeded w4 = (Inr v, w5)"
  shows "\<exists>original cs pr es. opening_calls original cs \<and> ow_trace w5 = ow_trace w0 @ cs @ gate_calls pr es \<and>
    wf_state original \<and> is_fresh original \<and> stage original = ''dev'' \<and> assets_reviewed cfg r \<and> \<not> already_active r original \<and>
    promotes r original pr \<and> succeeded = pr_succeeded pr \<and> stage succeeded = ''dev'' \<and>
    previous_identity succeeded = previous_identity original \<and>
    length es = 5 \<and> map ev_event_type es = take 5 PROMOTION_EVENTS \<and> list_all (binds r) es \<and>
    on_request (pn_operation p) = r \<and> on_request_hash (pn_operation p) = sha256_hex (exec_canonical_bytes r) \<and>
    on_candidate_slot (pn_operation p) = Some (pr_slot pr)"
proof -
  obtain original cs where p: "p = \<lparr>pn_operation = \<lparr>on_request = r, on_request_hash = sha256_hex (exec_canonical_bytes r),
        on_original = original, on_candidate_slot = Some (inactive_slot (active_slot original))\<rparr>,
        pn_start_plan = plan_for r original, pn_application_plan = plan_for r original, pn_prepared = with_candidate r original\<rparr>"
      and o: "opening_calls original cs" "ow_trace w1 = ow_trace w0 @ cs" "wf_state original" "stage original = ''dev''"
        "is_fresh original" "wf_state (with_candidate r original)" "assets_reviewed cfg r" "\<not> already_active r original"
    using plan_deployment_Inr [OF assms(1-3)] by blast
  have "wf_state (pn_prepared p)" using o(6) p by simp
  from stage_candidate_Inr [OF assms(4) this] obtain t1 e1
    where s1: "event_at (pn_operation p) ''promotion-started'' ''promotion_started'' ''started'' None False t1 e1"
      "prepared = stamped None t1 (ev_event_id e1) (with_candidate r original)" "wf_state prepared"
      "ow_trace w2 = ow_trace w1 @ [(Clock, Returns_Text t1), (Append e1, Returns_None), (Save prepared, Returns_None)]"
    unfolding p by auto
  from run_migration_Inr [OF assms(6) s1(3)] obtain t2 e2 t3 e3 running
    where s2: "event_at (pn_operation p) ''migration-started'' ''migration_started'' ''started'' (Some MIGRATION_IDENTITY) False t2 e2"
      "event_at (pn_operation p) ''migration-succeeded'' ''migration_succeeded'' ''succeeded'' (Some MIGRATION_IDENTITY) False t3 e3"
      "running = stamped (Some ''running'') t2 (ev_event_id e2) prepared"
      "succeeded = stamped (Some ''succeeded'') t3 (ev_event_id e3) running" "wf_state succeeded"
      "ow_trace w4 = ow_trace w3 @ [(Clock, Returns_Text t2), (Append e2, Returns_None), (Save running, Returns_None),
       (Migrate ''dev'' (xr_exact_image_reference (on_request (pn_operation p))) MIGRATION_IDENTITY MIGRATION_CHECKSUM, Returns_None),
       (Clock, Returns_Text t3), (Save succeeded, Returns_None), (Append e3, Returns_None)]"
    by blast
  from check_gates_Inr [OF assms(7)] obtain t4 e4 t5 e5
    where s3: "event_at (pn_operation p) ''liveness-passed'' ''liveness_passed'' ''succeeded'' None False t4 e4"
      "event_at (pn_operation p) ''readiness-passed'' ''readiness_passed'' ''succeeded'' None False t5 e5"
      "ow_trace w5 = ow_trace w4 @ [(Liveness ''dev'' (on_candidate_slot (pn_operation p)), Returns_True),
       (Clock, Returns_Text t4), (Append e4, Returns_None), (Readiness ''dev'' (on_candidate_slot (pn_operation p)), Returns_True),
       (Clock, Returns_Text t5), (Append e5, Returns_None),
       (Validate_Application (pn_application_plan p), Returns_True), (Validate_Nginx ''dev'', Returns_True)]"
    by blast
  let ?es = "[e1, e2, e3, e4, e5]"
  let ?pr = "\<lparr>pr_plan = plan_for r original, pr_image = xr_exact_image_reference r,
      pr_slot = inactive_slot (active_slot original), pr_prepared = prepared, pr_running = running,
      pr_succeeded = succeeded, pr_completed = succeeded\<rparr>"
  note ev = event_at_fields [OF s1(1)] event_at_fields [OF s2(1)] event_at_fields [OF s2(2)]
    event_at_fields [OF s3(1)] event_at_fields [OF s3(2)]
  have "ow_trace w5 = ow_trace w0 @ cs @ gate_calls ?pr ?es"
    using o(2) s1(4) start_image_Inr [OF assms(5)] s2(6) s3(3)
    by (simp add: gate_calls_def audited_def audited_save_def ev p)
  moreover have "promotes r original ?pr"
    using s1(2,3) s2(3-5) by (simp add: promotes_def with_candidate_def) (simp add: stamped_def)
  moreover have "map ev_event_type ?es = take 5 PROMOTION_EVENTS" "list_all (binds r) ?es"
    using ev by (simp_all add: PROMOTION_EVENTS_def binds_def p)
  moreover have "stage succeeded = ''dev''" "previous_identity succeeded = previous_identity original"
    using s1(2) s2(3,4) o(4) by (simp_all add: stamped_def with_candidate_def)
  ultimately show ?thesis using o p
    by (intro exI [of _ original] exI [of _ cs] exI [of _ ?pr] exI [of _ ?es]) simp
qed


lemma deploy_run:
  assumes "deploy cfg r w = (Inr u, w')"
  obtains w1 where "\<not> ow_active w" "w' = w1\<lparr>ow_active := False\<rparr>"
    "deploy_body cfg r (w\<lparr>ow_active := True, ow_locals := initial_locals\<rparr>) = (Inr (), w1)"
  using assms by (auto simp: deploy_def split: if_splits prod.splits sum.splits)

lemma switched_and_finished:
  assumes "switch_traffic p w5 = (Inr u, w6)" and "finish_deployment p s w6 = (Inr v, w7)"
    and "wf_state s" "stage s = ''dev''" and "on_request (pn_operation p) = r"
    and "on_request_hash (pn_operation p) = sha256_hex (exec_canonical_bytes r)"
  shows "\<exists>e1 e2 e3. ow_trace w7 = ow_trace w5 @ audited e1 @
      [(Switch ''dev'' (on_candidate_slot (pn_operation p)), Returns_None)] @ audited e2 @
      audited_save e3 (promoted s (ev_timestamp e3) (ev_event_id e3)) \<and>
    wf_state (promoted s (ev_timestamp e3) (ev_event_id e3)) \<and>
    map ev_event_type [e1, e2, e3] = drop 5 PROMOTION_EVENTS \<and> list_all (binds r) [e1, e2, e3]"
proof -
  from switch_traffic_Inr [OF assms(1)] obtain t1 e1 t2 e2
    where s1: "event_at (pn_operation p) ''traffic-switch-started'' ''traffic_switch_started'' ''started'' None False t1 e1"
      "event_at (pn_operation p) ''traffic-switch-succeeded'' ''traffic_switch_succeeded'' ''succeeded'' None True t2 e2"
      "ow_trace w6 = ow_trace w5 @ [(Clock, Returns_Text t1), (Append e1, Returns_None),
         (Switch ''dev'' (on_candidate_slot (pn_operation p)), Returns_None), (Clock, Returns_Text t2), (Append e2, Returns_None)]"
    by blast
  from finish_deployment_Inr [OF assms(2-4)] obtain t3 e3
    where s2: "event_at (pn_operation p) ''promotion-succeeded'' ''promotion_succeeded'' ''succeeded'' None True t3 e3"
      "wf_state (promoted s t3 (ev_event_id e3))"
      "ow_trace w7 = ow_trace w6 @ [(Clock, Returns_Text t3), (Save (promoted s t3 (ev_event_id e3)), Returns_None), (Append e3, Returns_None)]"
    by blast
  note ev = event_at_fields [OF s1(1)] event_at_fields [OF s1(2)] event_at_fields [OF s2(1)]
  show ?thesis
    using s1(3) s2(2,3) ev assms(5,6)
    by (intro exI [of _ e1] exI [of _ e2] exI [of _ e3])
      (simp add: audited_def audited_save_def PROMOTION_EVENTS_def binds_def)
qed

lemma deploy_success_run:
  assumes "deploy cfg r w = (Inr (), w')" and "wf_exec r" and "exec_times_fit r"
  shows "\<exists>original cs pr es. opening_calls original cs \<and> promotes r original pr \<and>
    ow_trace w' = ow_trace w @ cs @ gate_calls pr es @ switch_calls pr es \<and>
    wf_state original \<and> is_fresh original \<and> stage original = ''dev'' \<and> assets_reviewed cfg r \<and> \<not> already_active r original \<and>
    map ev_event_type es = PROMOTION_EVENTS \<and> list_all (binds r) es \<and>
    wf_state (pr_completed pr) \<and> candidate_identity (pr_completed pr) = (None, None, None, None) \<and>
    active_identity (pr_completed pr) =
      (Some (xr_release_version r), Some (xr_source_sha r), Some (xr_manifest_digest r), Some (pr_slot pr)) \<and>
    previous_identity (pr_completed pr) = active_identity original \<and>
    \<not> ow_active w \<and> \<not> ow_active w'"
proof -
  from deploy_run [OF assms(1)] obtain w7 where free: "\<not> ow_active w" "w' = w7\<lparr>ow_active := False\<rparr>"
    and body: "deploy_body cfg r (w\<lparr>ow_active := True, ow_locals := initial_locals\<rparr>) = (Inr (), w7)" .
  let ?w0 = "w\<lparr>ow_active := True, ow_locals := initial_locals\<rparr>"
  from body obtain p w1 prepared w2 w3 succeeded w4 w5 w6 where run:
      "plan_deployment cfg r ?w0 = (Inr p, w1)" "stage_candidate p w1 = (Inr prepared, w2)"
      "start_image p w2 = (Inr (), w3)" "run_migration p prepared w3 = (Inr succeeded, w4)"
      "check_gates p succeeded w4 = (Inr (), w5)" "switch_traffic p w5 = (Inr (), w6)"
      "finish_deployment p succeeded w6 = (Inr (), w7)"
    by (auto simp: deploy_body_def act_bind_Inr_iff)
  from gates_passed [OF run(1) assms(2,3) run(2-5)] obtain original cs pr es where g:
      "opening_calls original cs" "ow_trace w5 = ow_trace w @ cs @ gate_calls pr es" "wf_state original" "is_fresh original"
      "stage original = ''dev''" "assets_reviewed cfg r" "\<not> already_active r original" "promotes r original pr"
      "succeeded = pr_succeeded pr" "stage succeeded = ''dev''" "length es = 5"
      "map ev_event_type es = take 5 PROMOTION_EVENTS" "list_all (binds r) es" "on_request (pn_operation p) = r"
      "on_request_hash (pn_operation p) = sha256_hex (exec_canonical_bytes r)"
      "on_candidate_slot (pn_operation p) = Some (pr_slot pr)"
    by auto
  have "wf_state succeeded" using g(8,9) by (simp add: promotes_def)
  from switched_and_finished [OF run(6,7) this g(10,14,15)] obtain e1 e2 e3 where f:
      "ow_trace w7 = ow_trace w5 @ audited e1 @ [(Switch ''dev'' (on_candidate_slot (pn_operation p)), Returns_None)] @
        audited e2 @ audited_save e3 (promoted succeeded (ev_timestamp e3) (ev_event_id e3))"
      "wf_state (promoted succeeded (ev_timestamp e3) (ev_event_id e3))"
      "map ev_event_type [e1, e2, e3] = drop 5 PROMOTION_EVENTS" "list_all (binds r) [e1, e2, e3]"
    by blast
  let ?pr = "pr\<lparr>pr_completed := promoted succeeded (ev_timestamp e3) (ev_event_id e3)\<rparr>"
  let ?es = "es @ [e1, e2, e3]"
  have "gate_calls ?pr ?es = gate_calls pr es" "switch_calls ?pr ?es = audited e1 @
      [(Switch ''dev'' (Some (pr_slot pr)), Returns_None)] @ audited e2 @ audited_save e3 (pr_completed ?pr)"
    using g(11) by (simp_all add: gate_calls_def switch_calls_def nth_append)
  moreover have "map ev_event_type ?es = PROMOTION_EVENTS" "promotes r original ?pr"
    using g(8,12) f(3) by (simp_all add: promotes_def)
  moreover have "active_identity (pr_completed ?pr) = candidate_identity succeeded"
      "previous_identity (pr_completed ?pr) = active_identity succeeded"
      "candidate_identity (pr_completed ?pr) = (None, None, None, None)"
    by (simp_all add: promoted_def)
  ultimately show ?thesis
    using g f free by (intro exI [of _ original] exI [of _ cs] exI [of _ ?pr] exI [of _ ?es]) (simp add: promotes_def)
qed


text \<open>
  C2: A deployment that returns is one whole reviewed promotion.  When \<open>deploy\<close> returns for a
  validated request, no other run held the instance, the request's assets are the reviewed ones
  and its image was not active; the calls made are, in this order and with these answers: the load
  of a fresh well-formed state, the started event, the save of the state with the candidate in the
  inactive slot, pull, digest check and start of the request's image, the migration between its two
  events and its two saves, liveness, readiness, application and Nginx checks, the switch of
  traffic to the candidate slot, and the save of the completed state before the final event; in
  that state the request's release is active and the release that was active before is the
  previous one.  Every event is bound to the SHA-256 of the request.
\<close>

theorem deploy_success_is_reviewed_run:
  assumes "deploy cfg r w = (Inr (), w')" and "wf_exec r" and "exec_times_fit r"
  shows "\<exists>original cs pr es. opening_calls original cs \<and> promotes r original pr \<and>
    ow_trace w' = ow_trace w @ cs @ gate_calls pr es @ switch_calls pr es \<and>
    wf_state original \<and> is_fresh original \<and> stage original = ''dev'' \<and> assets_reviewed cfg r \<and> \<not> already_active r original \<and>
    map ev_event_type es = PROMOTION_EVENTS \<and> list_all (binds r) es \<and>
    wf_state (pr_completed pr) \<and> candidate_identity (pr_completed pr) = (None, None, None, None) \<and>
    active_identity (pr_completed pr) =
      (Some (xr_release_version r), Some (xr_source_sha r), Some (xr_manifest_digest r), Some (pr_slot pr)) \<and>
    previous_identity (pr_completed pr) = active_identity original \<and>
    \<not> ow_active w \<and> \<not> ow_active w'"
  by (rule deploy_success_run [OF assms])

section \<open>Where traffic is switched\<close>

fun is_switch :: "deploy_call \<Rightarrow> bool" where
  "is_switch (Switch stg slot) = True"
| "is_switch c = False"

abbreviation no_switch :: "deploy_call \<times> answer \<Rightarrow> bool" where
  "no_switch x \<equiv> \<not> is_switch (fst x)"

lemma noting_steps: "moves (adds P) m \<Longrightarrow> moves (adds P) (noting f m)"
  unfolding noting_def by (intro adds.combinators assign_steps)

lemma case_answer_steps:
  "(\<And>s. a = Returns_State s \<Longrightarrow> moves R (f s)) \<Longrightarrow> moves R m \<Longrightarrow> moves R (case a of Returns_State s \<Rightarrow> f s | _ \<Rightarrow> m)"
  by (cases a) simp_all

lemma load_original_steps:
  assumes "\<And>a. P (Load, a)" and "\<And>s a. is_fresh s \<Longrightarrow> P (Save s, a)"
  shows "moves (adds P) (load_original r)"
proof -
  have "cleared_state s = Inr t \<Longrightarrow> is_fresh t" for s t by (auto simp: cleared_state_def snapshot_state_Inr)
  then show ?thesis
    unfolding load_original_def
    by (intro adds.combinators phase_steps assign_steps ask_steps call_steps assms case_answer_steps)
qed

lemma plan_deployment_steps:
  assumes "\<And>a. P (Load, a)" and "\<And>s a. is_fresh s \<Longrightarrow> P (Save s, a)"
  shows "moves (adds P) (plan_deployment cfg r)"
proof -
  have "moves (adds P) (\<lambda>w. if already_active r s then (Inl TypeError, w) else phase ''deployment_plan'' w)" for r s
    by (intro adds.choose_on adds.fail phase_steps)
  then show ?thesis
    unfolding plan_deployment_def
    by (intro adds.bind_lift adds.bind assign_steps adds.choose adds.lift load_original_steps assms)
      (auto intro!: adds.combinators assign_steps split: prod.splits)
qed


lemma save_snapshot_steps: "(\<And>a. P (Save s, a)) \<Longrightarrow> moves (adds P) (save_snapshot s)"
  unfolding save_snapshot_def by (intro adds.combinators call_steps) (auto simp: snapshot_state_Inr)

lemma health_check_steps: "(\<And>a. P (c, a)) \<Longrightarrow> moves (adds P) (health_check ph f c)"
  unfolding health_check_def by (intro adds.combinators noting_steps phase_steps assign_steps ask_steps)

lemma case_prod_steps: "(\<And>x y. moves R (f x y)) \<Longrightarrow> moves R (case z of (x, y) \<Rightarrow> f x y)"
  by (cases z) simp

lemmas quiet_calls = adds.combinators phase_steps assign_steps ask_steps call_steps emit_steps save_snapshot_steps
  noting_steps health_check_steps case_prod_steps

lemma phases_without_switch:
  "moves (adds no_switch) (stage_candidate p)" "moves (adds no_switch) (start_image p)"
  "moves (adds no_switch) (run_migration p s)" "moves (adds no_switch) (check_gates p s)"
  "moves (adds no_switch) (finish_deployment p s)" "moves (adds no_switch) (plan_deployment cfg r)"
  "moves (adds no_switch) (restore_state original)"
  unfolding stage_candidate_def start_image_def run_migration_def check_gates_def finish_deployment_def restore_state_def Let_def
  by (intro quiet_calls plan_deployment_steps; simp)+

lemma recovered_without_switch: "adds no_switch w (recovered w)"
proof -
  have e: "adds no_switch u (act_ignore (emit d step kind res mig ok) u)" for u d step kind res mig ok
    by (intro adds.ignore emit_steps) simp_all
  have "adds no_switch u (act_ignore (restore_state original) u)" for u original
    by (intro adds.ignore phases_without_switch)
  with e show ?thesis
    unfolding recovered_def recover_def Let_def
    by (auto split: option.splits intro: adds.refl intro!: adds.trans [OF _ e] dest: adds.trans)
qed


text \<open>Either the switch was not asked for, or it was asked for once, after its event.\<close>

lemma switch_traffic_cases:
  assumes "switch_traffic p w = (res, w')"
  shows "adds no_switch w w' \<or>
    (\<exists>ts e a rest. event_at (pn_operation p) ''traffic-switch-started'' ''traffic_switch_started'' ''started'' None False ts e \<and>
      ow_trace w' = ow_trace w @ audited e @ (Switch ''dev'' (on_candidate_slot (pn_operation p)), a) # rest \<and>
      list_all no_switch rest \<and> dl_switch_attempted (ow_locals w'))"
proof -
  let ?d = "pn_operation p"
  let ?e = "emit ?d ''traffic-switch-started'' ''traffic_switch_started'' ''started'' None False"
  let ?after = "act_bind (assign (\<lambda>l. l\<lparr>dl_failure_event := None\<rparr>)) (\<lambda>_.
      act_bind (emit ?d ''traffic-switch-succeeded'' ''traffic_switch_succeeded'' ''succeeded'' None True) (\<lambda>_.
        act_lift (Inr ())))"
  have quiet: "moves (adds no_switch) ?e" "moves (adds no_switch) ?after" "moves (keeps dl_switch_attempted) ?after"
    by (intro quiet_calls; simp)+ (intro keeps.combinators assign_steps emit_keeps; simp)
  show ?thesis
  proof (cases "?e w")
    case (Pair r w1)
    show ?thesis
    proof (cases r)
      case (Inl x)
      with Pair assms(1) have "w' = w1" by (simp add: switch_traffic_def Let_def act_bind_def)
      with Pair movesD [OF quiet(1)] show ?thesis by blast
    next
      case (Inr x)
      with Pair obtain ts e where e: "w1 = logged (Append e) Returns_None (logged Clock (Returns_Text ts) w)"
          "event_at ?d ''traffic-switch-started'' ''traffic_switch_started'' ''started'' None False ts e"
        using emit_Inr by blast
      let ?u = "w1\<lparr>ow_locals := (ow_locals w1)\<lparr>dl_failure_event := Some ''traffic_switch_failed'', dl_switch_attempted := True,
          dl_phase := ''traffic_switch''\<rparr>\<rparr>"
      obtain a r2 where c: "call_none (Switch ''dev'' (on_candidate_slot ?d)) ?u =
          (r2, logged (Switch ''dev'' (on_candidate_slot ?d)) a ?u)"
        using call_none_run by blast
      let ?v = "logged (Switch ''dev'' (on_candidate_slot ?d)) a ?u"
      have "act_bind (\<lambda>w. (r2, w)) (\<lambda>_. ?after) ?v = (res, w')"
        using assms(1) Pair Inr c by (simp add: switch_traffic_def Let_def act_bind_def phase_def assign_def)
      then have "adds no_switch ?v w' \<and> keeps dl_switch_attempted ?v w'"
        using movesD [OF quiet(2), of ?v] movesD [OF quiet(3), of ?v] adds.refl keeps.refl
        by (cases r2) (auto simp: act_bind_def)
      then obtain rest where "ow_trace w' = ow_trace ?v @ rest" "list_all no_switch rest" "dl_switch_attempted (ow_locals w')"
        by (auto simp: adds_def keeps_def)
      with e show ?thesis using event_at_audited(1) [OF e(2), symmetric] by auto
    qed
  qed
qed

lemma only_split:
  assumes "list_all Q xs" "\<not> Q x" "list_all Q ys" "\<not> Q z" and "xs @ x # ys = us @ z # vs"
  shows "us = xs \<and> z = x \<and> vs = ys"
  using assms by (auto simp: append_eq_append_conv2 append_eq_Cons_conv Cons_eq_append_conv)

lemma no_switch_gate_calls: "list_all no_switch (gate_calls pr es)" "list_all no_switch (audited e)"
  by (simp_all add: gate_calls_def audited_def audited_save_def)

lemma no_switch_opening: "opening_calls original cs \<Longrightarrow> list_all no_switch cs"
  by (auto simp: opening_calls_def)

lemma adds_none: "adds no_switch w w' \<Longrightarrow> list_all no_switch (ow_trace w) \<Longrightarrow> list_all no_switch (ow_trace w')"
  by (auto simp: adds_def)

text \<open>How far the body of a deployment got.\<close>

lemma deploy_body_cases:
  assumes "deploy_body cfg r w = (res, w')" and "wf_exec r" "exec_times_fit r"
  shows "adds no_switch w w' \<or>
    (\<exists>original cs pr es e a rest. opening_calls original cs \<and> wf_state original \<and> is_fresh original \<and>
      assets_reviewed cfg r \<and> \<not> already_active r original \<and> promotes r original pr \<and>
      map ev_event_type (es @ [e]) = take 6 PROMOTION_EVENTS \<and> list_all (binds r) (es @ [e]) \<and>
      ow_trace w' = ow_trace w @ (cs @ gate_calls pr es @ audited e) @ (Switch ''dev'' (Some (pr_slot pr)), a) # rest \<and>
      list_all no_switch rest)"
proof (cases "adds no_switch w w'")
  case False
  obtain p w1 where 1: "plan_deployment cfg r w = (Inr p, w1)" "adds no_switch w w1" "\<not> adds no_switch w1 w'"
      "act_bind (stage_candidate p) (\<lambda>prepared. act_bind (start_image p) (\<lambda>_. act_bind (run_migration p prepared) (\<lambda>succeeded.
        act_bind (check_gates p succeeded) (\<lambda>_. act_bind (switch_traffic p) (\<lambda>_. finish_deployment p succeeded))))) w1 = (res, w')"
    using assms(1) unfolding deploy_body_def
    by (rule adds.bind_far) (use phases_without_switch False in auto)
  obtain prepared w2 where 2: "stage_candidate p w1 = (Inr prepared, w2)" "\<not> adds no_switch w2 w'"
      "act_bind (start_image p) (\<lambda>_. act_bind (run_migration p prepared) (\<lambda>succeeded.
        act_bind (check_gates p succeeded) (\<lambda>_. act_bind (switch_traffic p) (\<lambda>_. finish_deployment p succeeded)))) w2 = (res, w')"
    using 1(4) by (rule adds.bind_far) (use phases_without_switch 1(3) in auto)
  obtain w3 where 3: "start_image p w2 = (Inr (), w3)" "\<not> adds no_switch w3 w'"
      "act_bind (run_migration p prepared) (\<lambda>succeeded.
        act_bind (check_gates p succeeded) (\<lambda>_. act_bind (switch_traffic p) (\<lambda>_. finish_deployment p succeeded))) w3 = (res, w')"
    using 2(3) by (rule adds.bind_far) (use phases_without_switch 2(2) in auto)
  obtain succeeded w4 where 4: "run_migration p prepared w3 = (Inr succeeded, w4)" "\<not> adds no_switch w4 w'"
      "act_bind (check_gates p succeeded) (\<lambda>_. act_bind (switch_traffic p) (\<lambda>_. finish_deployment p succeeded)) w4 = (res, w')"
    using 3(3) by (rule adds.bind_far) (use phases_without_switch 3(2) in auto)
  obtain w5 where 5: "check_gates p succeeded w4 = (Inr (), w5)" "\<not> adds no_switch w5 w'"
      "act_bind (switch_traffic p) (\<lambda>_. finish_deployment p succeeded) w5 = (res, w')"
    using 4(3) by (rule adds.bind_far) (use phases_without_switch 4(2) in auto)
  then obtain res6 w6 where 6: "switch_traffic p w5 = (res6, w6)" "adds no_switch w6 w'"
    using movesD [OF phases_without_switch(5)] adds.refl
    by (cases "switch_traffic p w5") (auto simp: act_bind_def split: sum.splits)
  note run = 1(1) 2(1) 3(1) 4(1) 5(1) 6
  from gates_passed [OF run(1) assms(2,3) run(2-5)] obtain original cs pr es where g:
      "opening_calls original cs" "ow_trace w5 = ow_trace w @ cs @ gate_calls pr es" "wf_state original" "is_fresh original"
      "assets_reviewed cfg r" "\<not> already_active r original" "promotes r original pr"
      "map ev_event_type es = take 5 PROMOTION_EVENTS" "list_all (binds r) es" "on_request (pn_operation p) = r"
      "on_request_hash (pn_operation p) = sha256_hex (exec_canonical_bytes r)"
      "on_candidate_slot (pn_operation p) = Some (pr_slot pr)"
    by auto
  have "\<not> adds no_switch w5 w6" using 5(2) run(7) by (meson adds.trans)
  with switch_traffic_cases [OF run(6)] g(12) obtain ts e a rest
    where ev: "event_at (pn_operation p) ''traffic-switch-started'' ''traffic_switch_started'' ''started'' None False ts e"
      and e: "ow_trace w6 = ow_trace w5 @ audited e @ (Switch ''dev'' (Some (pr_slot pr)), a) # rest" "list_all no_switch rest"
    by auto
  have b: "binds r e" "ev_event_type e = ''traffic_switch_started''"
    using event_at_fields [OF ev] g(10,11) by (simp_all add: binds_def)
  obtain more where "ow_trace w' = ow_trace w6 @ more" "list_all no_switch more" using run(7) by (auto simp: adds_def)
  moreover have "map ev_event_type (es @ [e]) = take 6 PROMOTION_EVENTS"
    using g(8) b(2) by (simp add: PROMOTION_EVENTS_def)
  ultimately show ?thesis
    using g e b by (intro disjI2 exI [of _ original] exI [of _ cs] exI [of _ pr] exI [of _ es] exI [of _ e] exI [of _ a]
        exI [of _ "rest @ more"]) simp
qed simp


text \<open>
  C1: Traffic moves only to a candidate that passed every gate.  However the collaborators answer and
  whether \<open>deploy\<close> returns or raises, if the trace of its calls has a switch of traffic, then it has no
  other one, it is to the inactive slot of the stage dev, and what was called before it is exactly a
  reviewed run with good answers: a fresh state was loaded, the candidate state of this request was
  saved, its image was pulled, verified and started, the migration ran and was recorded as
  succeeded, and liveness, readiness, application and Nginx checks answered true, each step with its
  audit event bound to the request.
\<close>

theorem deploy_switches_only_after_gates:
  assumes "ow_trace w = []" and "wf_exec r" and "exec_times_fit r"
    and "ow_trace (snd (deploy cfg r w)) = before @ (Switch stg slot, a) # after"
  shows "\<exists>original cs pr es e. before = cs @ gate_calls pr es @ audited e \<and> stg = ''dev'' \<and> slot = Some (pr_slot pr) \<and>
    opening_calls original cs \<and> wf_state original \<and> is_fresh original \<and> assets_reviewed cfg r \<and> \<not> already_active r original \<and>
    promotes r original pr \<and> map ev_event_type (es @ [e]) = take 6 PROMOTION_EVENTS \<and> list_all (binds r) (es @ [e]) \<and>
    list_all no_switch after"
proof -
  let ?w0 = "w\<lparr>ow_active := True, ow_locals := initial_locals\<rparr>"
  obtain res w1 where body: "deploy_body cfg r ?w0 = (res, w1)" by (cases "deploy_body cfg r ?w0")
  have "adds no_switch w1 (snd (deploy cfg r w))" if "\<not> ow_active w"
    using that body adds.refl [of no_switch w1] recovered_without_switch [of w1]
      recovered_without_switch [of "w1\<lparr>ow_log := ow_log w1 @ [dl_phase (ow_locals w1)]\<rparr>"]
    by (auto simp: deploy_def adds_def split: sum.splits)
  moreover have "\<not> ow_active w" using assms(1,4) by (auto simp: deploy_def)
  ultimately obtain more where more: "ow_trace (snd (deploy cfg r w)) = ow_trace w1 @ more" "list_all no_switch more"
    by (auto simp: adds_def)
  have "\<not> list_all no_switch (ow_trace w1 @ more)" unfolding more(1) [symmetric] assms(4) by simp
  then have "\<not> adds no_switch ?w0 w1" using assms(1) more(2) by (auto simp: adds_def)
  with deploy_body_cases [OF body assms(2,3)] obtain original cs pr es e b rest where g: "opening_calls original cs"
      "wf_state original" "is_fresh original" "assets_reviewed cfg r" "\<not> already_active r original" "promotes r original pr"
      "map ev_event_type (es @ [e]) = take 6 PROMOTION_EVENTS" "list_all (binds r) (es @ [e])"
      "ow_trace w1 = ow_trace ?w0 @ (cs @ gate_calls pr es @ audited e) @ (Switch ''dev'' (Some (pr_slot pr)), b) # rest"
      "list_all no_switch rest"
    by blast
  have "(cs @ gate_calls pr es @ audited e) @ (Switch ''dev'' (Some (pr_slot pr)), b) # (rest @ more) = before @ (Switch stg slot, a) # after"
    using assms(1,4) more(1) g(9) by simp
  then have "before = cs @ gate_calls pr es @ audited e \<and> (Switch stg slot, a) = (Switch ''dev'' (Some (pr_slot pr)), b) \<and> after = rest @ more"
    using no_switch_opening [OF g(1)] no_switch_gate_calls g(10) more(2) by (intro only_split [of no_switch]) auto
  then show ?thesis using g more(2)
    by (intro exI [of _ original] exI [of _ cs] exI [of _ pr] exI [of _ es] exI [of _ e]) simp
qed

section \<open>Where a failed deployment restores\<close>

text \<open>A candidate was saved: the locals that \<open>recover\<close> reads.\<close>

definition armed :: "deployment_state \<Rightarrow> deploy_locals \<Rightarrow> bool" where
  "armed original l \<longleftrightarrow> dl_started l \<and> dl_candidate_written l \<and> dl_save l \<and> dl_restore l \<and> dl_emit l \<and>
     dl_snapshot l \<noteq> None \<and> dl_original l = Some original \<and> dl_prepared l \<noteq> None"

lemma noting_keeps: "moves (keeps I) m \<Longrightarrow> (\<And>l. I l \<Longrightarrow> I (l\<lparr>dl_failure_event := Some f\<rparr>)) \<Longrightarrow> moves (keeps I) (noting f m)"
  unfolding noting_def by (intro keeps.combinators assign_steps)

lemma save_snapshot_keeps: "moves (keeps I) (save_snapshot s)"
  unfolding save_snapshot_def by (intro keeps.combinators call_steps)

lemma health_check_keeps:
  assumes "\<And>l x. I l \<Longrightarrow> I (l\<lparr>dl_failure_event := x\<rparr>)" and "\<And>l x. I l \<Longrightarrow> I (l\<lparr>dl_phase := x\<rparr>)"
  shows "moves (keeps I) (health_check ph f c)"
  unfolding health_check_def by (intro keeps.combinators noting_keeps phase_steps assign_steps ask_steps assms)

lemma phases_keep:
  assumes "\<And>l x. I l \<Longrightarrow> I (l\<lparr>dl_failure_event := x\<rparr>)" and "\<And>l x. I l \<Longrightarrow> I (l\<lparr>dl_phase := x\<rparr>)"
    and "\<And>l x. I l \<Longrightarrow> I (l\<lparr>dl_failure_event := x, dl_switch_attempted := True\<rparr>)"
  shows "moves (keeps I) (start_image p)" "moves (keeps I) (run_migration p s)" "moves (keeps I) (check_gates p s)"
    "moves (keeps I) (switch_traffic p)" "moves (keeps I) (finish_deployment p s)"
  unfolding start_image_def run_migration_def check_gates_def switch_traffic_def finish_deployment_def Let_def
  by (intro keeps.combinators phase_steps assign_steps ask_steps call_steps emit_keeps noting_keeps save_snapshot_keeps
      health_check_keeps case_prod_steps assms; assumption)+

lemma phases_keep_armed:
  "moves (keeps (armed original)) (start_image p)" "moves (keeps (armed original)) (run_migration p s)"
  "moves (keeps (armed original)) (check_gates p s)" "moves (keeps (armed original)) (switch_traffic p)"
  "moves (keeps (armed original)) (finish_deployment p s)"
  by (rule phases_keep; simp add: armed_def)+

lemma phases_keep_attempted:
  "moves (keeps dl_switch_attempted) (start_image p)" "moves (keeps dl_switch_attempted) (run_migration p s)"
  "moves (keeps dl_switch_attempted) (check_gates p s)" "moves (keeps dl_switch_attempted) (finish_deployment p s)"
  by (rule phases_keep; simp)+

text \<open>A switch that was asked for is remembered.\<close>

definition remembers :: "op_world \<Rightarrow> op_world \<Rightarrow> bool" where
  "remembers w w' \<longleftrightarrow> keeps dl_switch_attempted w w' \<and> (adds no_switch w w' \<or> dl_switch_attempted (ow_locals w'))"

interpretation remembers: step_order remembers
  by unfold_locales (auto simp: remembers_def keeps_def intro: adds.refl adds.trans)

lemma remembersI: "moves (adds no_switch) m \<Longrightarrow> moves (keeps dl_switch_attempted) m \<Longrightarrow> moves remembers m"
  by (simp add: moves_def remembers_def)

text \<open>Everything after the candidate was saved.\<close>

definition after_staging :: "planned \<Rightarrow> deployment_state \<Rightarrow> (op_world, unit) act" where
  "after_staging p prepared =
     act_bind (start_image p) (\<lambda>_.
     act_bind (run_migration p prepared) (\<lambda>succeeded.
     act_bind (check_gates p succeeded) (\<lambda>_.
     act_bind (switch_traffic p) (\<lambda>_.
       finish_deployment p succeeded))))"

lemma after_staging_keeps: "moves (keeps (armed original)) (after_staging p s)"
  unfolding after_staging_def by (intro keeps.bind phases_keep_armed)

lemma after_staging_adds: "moves (adds (\<lambda>_. True)) (after_staging p s)"
  unfolding after_staging_def start_image_def run_migration_def check_gates_def switch_traffic_def finish_deployment_def Let_def
  by (intro quiet_calls; simp)+

lemma after_staging_remembers: "moves remembers (after_staging p s)"
proof -
  have "moves (keeps dl_switch_attempted) (switch_traffic p)" by (rule phases_keep; simp)
  moreover have "adds no_switch w w' \<or> dl_switch_attempted (ow_locals w')" if "switch_traffic p w = (res, w')" for res w w'
    using switch_traffic_cases [OF that] by blast
  ultimately have sw: "moves remembers (switch_traffic p)"
    unfolding moves_def remembers_def by (metis prod.collapse)
  show ?thesis
    unfolding after_staging_def
    by (intro remembers.bind; (fact sw | intro remembersI phases_without_switch phases_keep_attempted))
qed


text \<open>A candidate state was saved, and the store said so.\<close>

fun committed :: "deploy_call \<times> answer \<Rightarrow> bool" where
  "committed (Save s, Returns_None) \<longleftrightarrow> candidate_slot s \<noteq> None"
| "committed x \<longleftrightarrow> False"

abbreviation uncommitted :: "deploy_call \<times> answer \<Rightarrow> bool" where
  "uncommitted x \<equiv> \<not> committed x"

lemma committed_Save: "committed (Save s, a) \<longleftrightarrow> a = Returns_None \<and> candidate_slot s \<noteq> None"
  by (cases a) simp_all

lemma save_snapshot_fails: "fails (adds uncommitted) (save_snapshot s)"
proof -
  have "fails (adds uncommitted) (call_none (Save s))" for s
    unfolding fails_def
  proof (intro allI impI)
    fix w e w'
    assume "call_none (Save s) w = (Inl e, w')"
    moreover obtain a r where "call_none (Save s) w = (r, logged (Save s) a w)" "r = Inr () \<longleftrightarrow> a = Returns_None"
      using call_none_run by blast
    ultimately show "adds uncommitted w w'" by (auto simp: adds_def committed_Save)
  qed
  then show ?thesis unfolding save_snapshot_def by (intro adds.fails_bind_lift)
qed

lemma stage_candidate_fails: "fails (adds uncommitted) (stage_candidate p)"
proof -
  have "\<exists>y w'. act_bind (assign f) (\<lambda>_. act_lift (Inr x)) w = (Inr y, w')" for f x w
    by (simp add: act_bind_def assign_def)
  then have "fails (adds uncommitted) (act_bind (save_snapshot s) (\<lambda>_. act_bind (assign f) (\<lambda>_. act_lift (Inr s))))" for s f
    by (intro fails_before_total save_snapshot_fails)
  then have "fails (adds uncommitted) (case x of (eid, ts) \<Rightarrow>
      act_bind (act_lift (updated_state (pn_prepared p) None ts eid)) (\<lambda>prepared.
      act_bind (assign (\<lambda>l. l\<lparr>dl_prepared := Some prepared\<rparr>)) (\<lambda>_.
      act_bind (save_snapshot prepared) (\<lambda>_.
      act_bind (assign (\<lambda>l. l\<lparr>dl_candidate_written := True, dl_restore := True\<rparr>)) (\<lambda>_. act_lift (Inr prepared))))))" for x
    by (cases x) (simp, rule adds.fails_bind_lift, rule adds.fails_bind, rule assign_steps, blast)
  then show ?thesis
    unfolding stage_candidate_def Let_def
    by (intro adds.fails_bind phase_steps assign_steps emit_steps) simp_all
qed

text \<open>How far the body got, as recovery sees it.\<close>

definition staged :: "deployment_state \<Rightarrow> op_world \<Rightarrow> op_world \<Rightarrow> bool" where
  "staged original w w' \<longleftrightarrow> armed original (ow_locals w') \<and> wf_state original \<and> stage original = ''dev'' \<and> is_fresh original \<and>
     (\<exists>calls. ow_trace w' = ow_trace w @ calls \<and> (Load, Returns_State original) \<in> set calls \<and>
       (list_all no_switch calls \<or> dl_switch_attempted (ow_locals w')))"

lemma deploy_body_staged:
  assumes "deploy_body cfg r w = (res, w')" and "wf_exec r" "exec_times_fit r"
  shows "adds uncommitted w w' \<or> (\<exists>original. staged original w w')"
proof (cases "adds uncommitted w w'")
  case False
  have "is_fresh s \<Longrightarrow> candidate_slot s = None" for s by (simp add: is_fresh_def)
  then have plan: "moves (adds uncommitted) (plan_deployment cfg r)"
    by (intro plan_deployment_steps) (simp_all add: committed_Save)
  have body: "act_bind (plan_deployment cfg r) (\<lambda>p. act_bind (stage_candidate p) (after_staging p)) w = (res, w')"
    using assms(1) by (simp add: deploy_body_def after_staging_def [abs_def])
  then obtain p w1 where 1: "plan_deployment cfg r w = (Inr p, w1)" "\<not> adds uncommitted w1 w'"
      "act_bind (stage_candidate p) (after_staging p) w1 = (res, w')"
    by (rule adds.bind_far [OF _ plan False])
  then obtain prepared w2 where 2: "stage_candidate p w1 = (Inr prepared, w2)" "after_staging p prepared w2 = (res, w')"
    using failsD [OF stage_candidate_fails, of p w1] by (auto simp: act_bind_def split: prod.splits sum.splits)
  from plan_deployment_Inr [OF 1(1) assms(2,3)] obtain original cs where o: "opening_calls original cs"
      "ow_trace w1 = ow_trace w @ cs" "wf_state original" "stage original = ''dev''" "is_fresh original"
      "wf_state (pn_prepared p)" "dl_original (ow_locals w1) = Some original" "dl_save (ow_locals w1)"
      "dl_snapshot (ow_locals w1) = Some r" "dl_emit (ow_locals w1)"
    by fastforce
  from stage_candidate_Inr [OF 2(1) o(6)] obtain cs2 where s: "ow_trace w2 = ow_trace w1 @ cs2" "list_all no_switch cs2"
      "armed original (ow_locals w2)"
    using o(7-10) by (auto simp: armed_def)
  have arm: "armed original (ow_locals w')" using movesD [OF after_staging_keeps 2(2)] s(3) by (simp add: keeps_def)
  have "remembers w2 w'" using movesD [OF after_staging_remembers 2(2)] .
  moreover have "adds (\<lambda>_. True) w2 w'" using movesD [OF after_staging_adds 2(2)] .
  ultimately obtain cs3 where "ow_trace w' = ow_trace w2 @ cs3" "list_all no_switch cs3 \<or> dl_switch_attempted (ow_locals w')"
    by (auto simp: remembers_def adds_def)
  moreover have "(Load, Returns_State original) \<in> set cs" "list_all no_switch cs"
    using o(1) no_switch_opening by (auto simp: opening_calls_def)
  ultimately show ?thesis
    using s o arm by (intro disjI2 exI [of _ original]) (auto simp: staged_def)
qed simp


text \<open>The state that recovery would save has no candidate.\<close>

definition fresh_original :: "deploy_locals \<Rightarrow> bool" where
  "fresh_original l \<longleftrightarrow> (\<forall>s. dl_original l = Some s \<longrightarrow> is_fresh s)"

lemma deploy_body_fresh: "moves (keeps fresh_original) (deploy_body cfg r)"
proof -
  have "is_fresh original"
    if "(case current of Returns_State s \<Rightarrow> snapshot_state True s | _ \<Rightarrow> Inl TypeError) = Inr original" for current original
    using that by (auto simp: snapshot_state_Inr split: answer.splits)
  then have "moves (keeps fresh_original) (load_original q)" for q
    unfolding load_original_def
    by (intro keeps.combinators phase_steps assign_steps ask_steps call_steps case_answer_steps; simp add: fresh_original_def)
  moreover have "moves (keeps fresh_original) (\<lambda>w. if already_active q s then (Inl TypeError, w) else phase ''deployment_plan'' w)" for q s
    by (intro keeps.choose_on keeps.fail phase_steps) (simp add: fresh_original_def)
  ultimately have "moves (keeps fresh_original) (plan_deployment cfg r)"
    unfolding plan_deployment_def
    by (intro keeps.bind_lift keeps.bind assign_steps keeps.choose keeps.lift case_prod_steps; simp add: fresh_original_def)
  moreover have "moves (keeps fresh_original) (stage_candidate p)" for p
    unfolding stage_candidate_def Let_def
    by (intro keeps.combinators phase_steps assign_steps emit_keeps save_snapshot_keeps case_prod_steps; simp add: fresh_original_def)
  moreover have "moves (keeps fresh_original) (after_staging p s)" for p s
    unfolding after_staging_def by (intro keeps.bind phases_keep; simp add: fresh_original_def)
  ultimately show ?thesis
    unfolding deploy_body_def after_staging_def [symmetric] by (intro keeps.bind)
qed

lemma recovered_uncommitted: "fresh_original (ow_locals w) \<Longrightarrow> adds uncommitted w (recovered w)"
proof -
  assume fresh: "fresh_original (ow_locals w)"
  have e: "adds uncommitted u (act_ignore (emit d step kind res mig ok) u)" for u d step kind res mig ok
    by (intro adds.ignore emit_steps) simp_all
  have "moves (adds uncommitted) (restore_state s)" if "is_fresh s" for s
  proof -
    have "candidate_slot s = None" using that by (simp add: is_fresh_def)
    then show ?thesis
      unfolding restore_state_def
      by (intro adds.combinators call_steps) (simp_all add: committed_Save snapshot_state_Inr)
  qed
  then have "adds uncommitted u (act_ignore (restore_state s) u)" if "dl_original (ow_locals w) = Some s" for u s
    using that fresh by (intro adds.ignore) (auto simp: fresh_original_def)
  with e show ?thesis
    unfolding recovered_def recover_def Let_def
    by (auto split: option.splits intro: adds.refl intro!: adds.trans [OF _ e] dest: adds.trans)
qed

fun is_audit :: "deploy_call \<times> answer \<Rightarrow> bool" where
  "is_audit (Clock, a) = True"
| "is_audit (Append e, a) = True"
| "is_audit x = False"

text \<open>
  \<open>restoring\<close>: the calls of a restoration.  When traffic may have moved, the old route is restored first, and
  the old state is saved only if that returned.
\<close>

definition restoring :: "bool \<Rightarrow> deployment_state \<Rightarrow> (deploy_call \<times> answer) list \<Rightarrow> bool" where
  "restoring switched original cs \<longleftrightarrow>
     (if switched then
        (\<exists>a. cs = [(Restore ''dev'' (active_slot original), Returns_None), (Save original, a)]) \<or>
        (\<exists>a. a \<noteq> Returns_None \<and> cs = [(Restore ''dev'' (active_slot original), a)])
      else \<exists>a. cs = [(Save original, a)])"

lemma restore_state_calls:
  assumes "armed original (ow_locals w)" and "wf_state original" and "stage original = ''dev''"
  shows "\<exists>cs. ow_trace (act_ignore (restore_state original) w) = ow_trace w @ cs \<and>
    restoring (dl_switch_attempted (ow_locals w)) original cs"
proof -
  have snap: "snapshot_state False original = Inr original" using assms by (simp add: snapshot_state_Inr)
  have save: "\<exists>a. ow_trace (snd (call_none (Save original) u)) = ow_trace u @ [(Save original, a)]" for u
    using call_none_run [of "Save original" u] by auto
  obtain a r where c: "call_none (Restore ''dev'' (active_slot original)) w = (r, logged (Restore ''dev'' (active_slot original)) a w)"
      "r = Inr () \<longleftrightarrow> a = Returns_None"
    using call_none_run by blast
  show ?thesis
  proof (cases r)
    case (Inl e)
    with c save [of w] assms(1) snap show ?thesis
      by (auto simp: restore_state_def act_ignore_def act_bind_def armed_def restoring_def)
  next
    case (Inr x)
    with c save [of w] save [of "logged (Restore ''dev'' (active_slot original)) a w"] assms(1) snap show ?thesis
      by (auto simp: restore_state_def act_ignore_def act_bind_def armed_def restoring_def)
  qed
qed

lemma recovered_restores:
  assumes "armed original (ow_locals w)" and "wf_state original" and "stage original = ''dev''"
  shows "\<exists>cs audit. ow_trace (recovered w) = ow_trace w @ cs @ audit \<and> list_all is_audit audit \<and>
    restoring (dl_switch_attempted (ow_locals w)) original cs"
proof -
  let ?w1 = "act_ignore (restore_state original) w"
  have e: "adds is_audit u (act_ignore (emit d step kind res mig ok) u)" for u d step kind res mig ok
    by (intro adds.ignore emit_steps) simp_all
  obtain cs where "ow_trace ?w1 = ow_trace w @ cs" "restoring (dl_switch_attempted (ow_locals w)) original cs"
    using restore_state_calls [OF assms] by blast
  moreover have "adds is_audit ?w1 (recovered w)"
    using assms(1) e adds.trans [OF e e]
    by (auto simp: recovered_def recover_def armed_def Let_def split: option.splits)
  ultimately show ?thesis by (auto simp: adds_def)
qed

text \<open>
  C3: A failed deployment takes its candidate back.  When \<open>deploy\<close> raises after the store accepted a state
  with a candidate, the last calls, apart from audit events, are the restoration of the loaded state: if
  traffic was asked to switch, first the route of the old active slot is restored, and the old state
  is saved unless that failed; otherwise the old state is saved at once.  The exception is
  \<open>DeploymentOperationError\<close> or one of the three that are not \<open>Exception\<close>, and the gate is free.
\<close>

theorem deploy_failure_restores:
  assumes "ow_trace w = []" and "wf_exec r" and "exec_times_fit r" and "deploy cfg r w = (Inl e, w')"
    and "(Save s, Returns_None) \<in> set (ow_trace w')" and "candidate_slot s \<noteq> None"
  shows "\<exists>original before switched cs audit. ow_trace w' = before @ cs @ audit \<and> restoring switched original cs \<and>
    list_all is_audit audit \<and> (Load, Returns_State original) \<in> set before \<and> (Save s, Returns_None) \<in> set before \<and>
    wf_state original \<and> is_fresh original \<and> (switched \<or> list_all no_switch before) \<and>
    (e = DeploymentOperationError \<or> \<not> is_Exception e) \<and> \<not> ow_active w'"
proof -
  let ?w0 = "w\<lparr>ow_active := True, ow_locals := initial_locals\<rparr>"
  have free: "\<not> ow_active w" using assms(1,4,5) by (auto simp: deploy_def)
  then obtain x w1 where body: "deploy_body cfg r ?w0 = (Inl x, w1)"
    using assms(4) by (cases "deploy_body cfg r ?w0") (auto simp: deploy_def split: sum.splits)
  define u where "u = (if is_Exception x then w1\<lparr>ow_log := ow_log w1 @ [dl_phase (ow_locals w1)]\<rparr> else w1)"
  have u: "ow_trace u = ow_trace w1" "ow_locals u = ow_locals w1" "w' = (recovered u)\<lparr>ow_active := False\<rparr>"
    and e: "e = DeploymentOperationError \<or> \<not> is_Exception e"
    using assms(4) free body by (auto simp: deploy_def u_def split: if_splits)
  show ?thesis
  proof (cases "\<exists>original. staged original ?w0 w1")
    case True
    then obtain original where s: "armed original (ow_locals u)" "wf_state original" "stage original = ''dev''" "is_fresh original"
        "(Load, Returns_State original) \<in> set (ow_trace u)"
        "list_all no_switch (ow_trace u) \<or> dl_switch_attempted (ow_locals u)"
      using u assms(1) by (auto simp: staged_def)
    from recovered_restores [OF s(1-3)] obtain cs audit where
      r: "ow_trace (recovered u) = ow_trace u @ cs @ audit" "list_all is_audit audit"
        "restoring (dl_switch_attempted (ow_locals u)) original cs" by blast
    have "candidate_slot original = None" using s(4) by (simp add: is_fresh_def)
    then have "(Save s, Returns_None) \<notin> set cs" using r(3) assms(6) by (auto simp: restoring_def split: if_splits)
    moreover have "(Save s, Returns_None) \<notin> set audit" using r(2) by (auto simp: list_all_iff)
    ultimately have "(Save s, Returns_None) \<in> set (ow_trace u)" using assms(5) u(3) r(1) by auto
    with s r u(3) e show ?thesis
      by (intro exI [of _ original] exI [of _ "ow_trace u"] exI [of _ "dl_switch_attempted (ow_locals u)"] exI [of _ cs] exI [of _ audit]) auto
  next
    case False
    with deploy_body_staged [OF body assms(2,3)] have "list_all uncommitted (ow_trace u)"
      using assms(1) u(1) by (auto simp: adds_def)
    moreover have "fresh_original (ow_locals u)"
      using movesD [OF deploy_body_fresh body] u(2) by (simp add: keeps_def fresh_original_def initial_locals_def)
    ultimately have "list_all uncommitted (ow_trace w')"
      using recovered_uncommitted [of u] u(3) by (auto simp: adds_def)
    moreover have "committed (Save s, Returns_None)" using assms(6) by simp
    ultimately show ?thesis using assms(5) by (auto simp: list_all_iff)
  qed
qed

end
