(* ===== verification/Deploy_Live.thy ===== *)
theory Deploy_Live
  imports Deploy_Run
begin

text \<open>
  Deployments on good answers: the events of every step are accepted, each phase returns, and so does \<open>deploy\<close>.
  The concrete runs at the end, one that succeeds and one whose image cannot be pulled, instantiate the properties
  of this theory and of \<open>Deploy_Run\<close>.
\<close>

section \<open>Events of a deployment are accepted\<close>

text \<open>A release version short enough for every event to fit in an audit record.\<close>

definition short_version :: "executor_request \<Rightarrow> bool" where
  "short_version r \<longleftrightarrow> length (xr_release_version r) \<le> 128"

definition arguments_ok :: "event_arguments \<Rightarrow> bool" where
  "arguments_ok a \<longleftrightarrow>
     fullmatch EVENT_ID_RE (ea_event_id a) \<and> ea_event_type a \<in> set EVENT_TYPES \<and> ea_result a \<in> set RESULTS \<and>
     (ea_event_type a = ''promotion_failed'' \<longrightarrow> ea_result a = ''failed'') \<and>
     (starts_with ''migration_'' (ea_event_type a) \<longrightarrow> ea_migration_identity a \<noteq> None) \<and>
     \<not> starts_with ''rollback_'' (ea_event_type a) \<and>
     (\<forall>s. ea_previous_digest a = Some s \<longrightarrow> fullmatch DIGEST_RE s) \<and>
     (\<forall>s. ea_active_slot a = Some s \<longrightarrow> s \<in> set SLOTS) \<and> (\<forall>s. ea_candidate_slot a = Some s \<longrightarrow> s \<in> set SLOTS) \<and>
     (\<forall>s. ea_migration_identity a = Some s \<longrightarrow> fullmatch IDENTITY_RE s) \<and>
     fullmatch TIMESTAMP_RE (ea_timestamp a) \<and> length (ea_timestamp a) \<le> 64"

lemma print_bound_of_opt: "(\<And>s. v = Some s \<Longrightarrow> length s \<le> n) \<Longrightarrow> print_bound (of_opt v) \<le> 6 * n + 4"
  by (cases v) auto

lemma word_lengths:
  "t \<in> set EVENT_TYPES \<Longrightarrow> length t \<le> 32" "t \<in> set RESULTS \<Longrightarrow> length t \<le> 32" "t \<in> set SLOTS \<Longrightarrow> length t \<le> 8"
  by (auto simp: EVENT_TYPES_def RESULTS_def SLOTS_def)

lemma print_bound_identifier: "0 \<le> i \<Longrightarrow> i \<le> MAX_IDENTIFIER \<Longrightarrow> print_bound (PInt i) = 21"
  by (simp add: MAX_IDENTIFIER_def)

lemma print_bound_identity:
  assumes "auditable r"
  shows "print_bound (audit_identity_to_dict (identity_of_request r)) \<le> 5000"
proof -
  have w: "wf_exec r" "xr_oidc_expires_at r \<le> MAX_IDENTIFIER" using assms by (simp_all add: auditable_def)
  then have "length (xr_github_workflow_sha r) = 40" "length (xr_promotion_request_sha256 r) = 64"
      "xr_github_workflow_ref r = DEV_WORKFLOW_REF" "xr_github_repository_id r = DEV_REPOSITORY_ID"
      "length (xr_oidc_jti r) \<le> MAX_JTI_LENGTH"
    by (simp_all add: wf_exec_def wf_exec_token_def fullmatch_SOURCE_SHA_RE fullmatch_SHA256_RE jti_ok_def)
  moreover have "print_bound (PInt (xr_requested_by_actor_id r)) = 21" "print_bound (PInt (xr_github_run_id r)) = 21"
      "print_bound (PInt (xr_github_run_attempt r)) = 21" "print_bound (PInt (xr_oidc_issued_at r)) = 21"
      "print_bound (PInt (xr_oidc_expires_at r)) = 21"
    by (rule print_bound_identifier; use w in \<open>simp add: wf_exec_def identifier_ok_def wf_exec_token_def\<close>)+
  ultimately show ?thesis
    by (simp add: audit_identity_to_dict_def identity_of_request_def exec_request_sha256_def MAX_JTI_LENGTH_def
        AUDIT_EXECUTION_IDENTITY_SCHEMA_VERSION_def DEV_REPOSITORY_ID_def DEV_WORKFLOW_REF_def del: print_bound.simps(3))
      (simp add: DEV_REPOSITORY_ID_def)
qed

lemma event_of_request_wf:
  assumes "auditable r" and "short_version r" and "arguments_ok a"
  shows "wf_event (event_of_request r a)" (is "wf_event ?e")
proof -
  have w: "wf_exec r" using assms(1) by (simp add: auditable_def)
  then have im: "wf_exec_image r" "xr_stage r = DEV_STAGE" by (simp_all add: wf_exec_def)
  have "wf_event_text ?e" "wf_event_kind ?e"
    using im assms(3) dev_repository_approved
    by (auto simp: wf_event_text_def wf_event_kind_def event_of_request_def arguments_ok_def wf_exec_image_def DEV_STAGE_def STAGES_def)
  moreover have "wf_audit_identity (ev_execution_identity ?e)"
    using auditable_identity [OF assms(1)]
    by (simp add: identity_from_executor_request_def auditable_revalidate [OF assms(1)]
        audit_identity_from_dict_Inr event_of_request_def)
  moreover have "length (event_canonical_bytes ?e) \<le> MAX_EVENT_BYTES"
  proof -
    have "length (xr_source_sha r) = 40" "length (xr_manifest_digest r) = 71" "xr_oci_repository r = DEV_OCI_REPOSITORY"
      using im by (auto simp: wf_exec_image_def fullmatch_SOURCE_SHA_RE fullmatch_DIGEST_RE)
    moreover have "length (ea_event_id a) \<le> 128" using assms(3) by (auto simp: arguments_ok_def fullmatch_EVENT_ID_RE)
    moreover have "print_bound (of_opt (ea_previous_digest a)) \<le> 6 * 71 + 4"
        "print_bound (of_opt (ea_active_slot a)) \<le> 6 * 8 + 4" "print_bound (of_opt (ea_candidate_slot a)) \<le> 6 * 8 + 4"
        "print_bound (of_opt (ea_migration_identity a)) \<le> 6 * 255 + 4"
      using assms(3) word_lengths(3)
      by (intro print_bound_of_opt; fastforce simp: arguments_ok_def fullmatch_DIGEST_RE fullmatch_IDENTITY_RE)+
    moreover have "length (ea_event_type a) \<le> 32" "length (ea_result a) \<le> 32" "length (ea_timestamp a) \<le> 64"
        "length (xr_release_version r) \<le> 128"
      using assms(2,3) word_lengths by (auto simp: arguments_ok_def short_version_def)
    ultimately have "print_bound (event_to_dict ?e) \<le> 16000"
      using print_bound_identity [OF assms(1)] im(2)
      by (simp add: event_to_dict_def event_of_request_def AUDIT_SCHEMA_VERSION_def DEV_OCI_REPOSITORY_def DEV_STAGE_def)
    then show ?thesis
      using length_json_dumps [of "event_to_dict ?e"]
      by (simp add: event_canonical_bytes_def canonical_bytes_def MAX_EVENT_BYTES_def)
  qed
  ultimately show ?thesis by (simp add: wf_event_iff event_of_request_def)
qed

lemma checked_event_accepts:
  assumes "auditable r" and "short_version r" and "arguments_ok a"
    and "on_request d = r" "on_request_hash d = sha256_hex (exec_canonical_bytes r)"
    and "ea_previous_digest a = active_digest (on_original d)"
  shows "checked_event d a = Inr (event_of_request r a)"
proof -
  let ?e = "event_of_request r a"
  have wf: "wf_event ?e" by (rule event_of_request_wf [OF assms(1-3)])
  then have own: "event_from_dict (event_to_dict ?e) = Inr ?e" by (simp add: event_accepted)
  have "event_for_executor_request r a = Inr ?e" using own by (simp add: event_for_auditable [OF assms(1)])
  moreover have "require_executor_request ?e r = Inr ()"
    using own by (simp add: require_executor_request_def auditable_revalidate [OF assms(1)] auditable_identity [OF assms(1)])
      (simp add: event_of_request_def)
  moreover have "event_fingerprint ?e = expected_fingerprint d a"
    using assms(4-6) by (simp add: event_fingerprint_def expected_fingerprint_def event_of_request_def identity_of_request_def
        exec_request_sha256_def AUDIT_SCHEMA_VERSION_def AUDIT_EXECUTION_IDENTITY_SCHEMA_VERSION_def Let_def)
  ultimately show ?thesis using assms(4) by (simp add: checked_event_def)
qed


lemma timestamp_length: "fullmatch TIMESTAMP_RE ts \<Longrightarrow> length ts \<le> 64"
  by (auto simp: TIMESTAMP_RE_def MONTH_RE_def DAY_RE_def HOUR_RE_def SIXTY_RE_def fullmatch_Cat fullmatch_Alt
      fullmatch_Cls fullmatch_Cat_Cls fullmatch_Times_Cls simp del: Lit.simps)

definition step_ok :: "string \<Rightarrow> string \<Rightarrow> string \<Rightarrow> string option \<Rightarrow> bool" where
  "step_ok step kind res mig \<longleftrightarrow>
     length step \<le> 32 \<and> list_all (\<lambda>c. is_alnum c \<or> c \<in> set ''._:-'') step \<and>
     kind \<in> set EVENT_TYPES \<and> res \<in> set RESULTS \<and> (kind = ''promotion_failed'' \<longrightarrow> res = ''failed'') \<and>
     \<not> starts_with ''rollback_'' kind \<and> (starts_with ''migration_'' kind \<longrightarrow> mig = Some MIGRATION_IDENTITY) \<and>
     (mig = None \<or> mig = Some MIGRATION_IDENTITY)"

lemma steps_ok:
  "step_ok ''promotion-started'' ''promotion_started'' ''started'' None"
  "step_ok ''migration-started'' ''migration_started'' ''started'' (Some MIGRATION_IDENTITY)"
  "step_ok ''migration-succeeded'' ''migration_succeeded'' ''succeeded'' (Some MIGRATION_IDENTITY)"
  "step_ok ''liveness-passed'' ''liveness_passed'' ''succeeded'' None"
  "step_ok ''readiness-passed'' ''readiness_passed'' ''succeeded'' None"
  "step_ok ''traffic-switch-started'' ''traffic_switch_started'' ''started'' None"
  "step_ok ''traffic-switch-succeeded'' ''traffic_switch_succeeded'' ''succeeded'' None"
  "step_ok ''promotion-succeeded'' ''promotion_succeeded'' ''succeeded'' None"
  by code_simp+

lemma migration_identity_ok:
  "fullmatch IDENTITY_RE MIGRATION_IDENTITY" "bounded_migration_identity (PStr MIGRATION_IDENTITY)"
  "migration_checksum_ok (PStr MIGRATION_CHECKSUM)"
  by code_simp+

definition operation_for :: "executor_request \<Rightarrow> deployment_state \<Rightarrow> operation" where
  "operation_for r s = \<lparr>on_request = r, on_request_hash = sha256_hex (exec_canonical_bytes r), on_original = s,
     on_candidate_slot = Some (inactive_slot (active_slot s))\<rparr>"

lemma wf_state_values:
  assumes "wf_state s"
  shows "active_slot s = Some x \<Longrightarrow> x \<in> set SLOTS" "active_digest s = Some d \<Longrightarrow> fullmatch DIGEST_RE d"
proof -
  have "wf_identity (active_identity s)" using assms by (simp add: wf_state_def)
  then show "active_slot s = Some x \<Longrightarrow> x \<in> set SLOTS" "active_digest s = Some d \<Longrightarrow> fullmatch DIGEST_RE d"
    by (cases "active_release s"; cases "active_source_sha s"; cases "active_digest s"; cases "active_slot s"; simp)+
qed

lemma event_id_ok:
  assumes "length step \<le> 32" and "list_all (\<lambda>c. is_alnum c \<or> c \<in> set ''._:-'') step"
  shows "fullmatch EVENT_ID_RE (''c8:'' @ sha256_hex b @ '':'' @ step)"
proof -
  have "is_lower_hex c \<Longrightarrow> is_alnum c" for c by (auto simp: is_lower_hex_def is_alnum_def is_digit_def rng_def)
  then have "list_all is_alnum (sha256_hex b)" "length (sha256_hex b) = 64"
    using sha256_hex_shape [of b] by (auto simp: list_all_iff)
  moreover have "is_alnum (CHR ''c'')" "is_alnum (CHR ''8'')" by code_simp+
  ultimately show ?thesis
    unfolding fullmatch_EVENT_ID_RE using assms
    by (intro exI [of _ "CHR ''c''"] exI [of _ "''8:'' @ sha256_hex b @ '':'' @ step"]) (auto simp: list_all_iff)
qed

lemma deployment_arguments_ok:
  assumes "wf_state s" and "step_ok step kind res mig" and "fullmatch TIMESTAMP_RE ts"
  shows "arguments_ok (event_arguments_of (operation_for r s) step kind res mig ok ts)"
proof -
  have "inactive_slot x \<in> set SLOTS" for x by (simp add: inactive_slot_def SLOTS_def)
  then show ?thesis
    using assms(2,3) event_id_ok timestamp_length [OF assms(3)] migration_identity_ok(1) wf_state_values [OF assms(1)]
    by (auto simp: arguments_ok_def event_arguments_of_def step_ok_def operation_for_def)
qed


section \<open>Runs on good answers\<close>

text \<open>\<open>goes m as x bs\<close>: on the answers \<open>as\<close>, \<open>m\<close> returns \<open>x\<close> and leaves the answers \<open>bs\<close>.\<close>

definition goes :: "(op_world, 'a) act \<Rightarrow> answer list \<Rightarrow> 'a \<Rightarrow> answer list \<Rightarrow> bool" where
  "goes m as x bs \<longleftrightarrow> (\<forall>w. ow_answers w = as \<longrightarrow> (\<exists>w'. m w = (Inr x, w') \<and> ow_answers w' = bs))"

lemma goes_bind: "goes m as x bs \<Longrightarrow> goes (f x) bs y cs \<Longrightarrow> goes (act_bind m f) as y cs"
  by (force simp: goes_def act_bind_Inr_iff)

lemma goes_lift: "r = Inr x \<Longrightarrow> goes (act_lift r) as x as"
  by (simp add: goes_def)

lemma bind_return: "act_bind (act_lift (Inr x)) f = f x"
  by (simp add: fun_eq_iff act_bind_def)

lemma goes_assign: "goes (assign f) as () as" "goes (phase p) as () as"
  by (simp_all add: goes_def assign_def phase_def)

lemma goes_ask: "\<forall>e. a \<noteq> Raises e \<Longrightarrow> goes (ask c) (a # as) a as"
  by (cases a) (auto simp: goes_def ask_def Let_def)

lemma goes_calls:
  "goes (call_none c) (Returns_None # as) () as" "goes (call_true c) (Returns_True # as) () as"
  unfolding call_none_def call_true_def by (rule goes_bind [OF goes_ask goes_lift]; simp)+

lemma goes_noting: "goes m as x bs \<Longrightarrow> goes (noting f m) as x bs"
  unfolding goes_def noting_def act_catch_def by fastforce

lemma goes_health: "goes (health_check ph f c) (Returns_True # as) () as"
  unfolding health_check_def
  by (rule goes_bind [OF goes_noting [OF goes_bind [OF goes_assign(2) goes_ask]]]) (simp_all add: goes_assign)

lemma goes_save: "wf_state s \<Longrightarrow> stage s = ''dev'' \<Longrightarrow> goes (save_snapshot s) (Returns_None # as) () as"
  unfolding save_snapshot_def by (rule goes_bind [OF goes_lift goes_calls(1)]) (simp add: snapshot_state_Inr)

definition event_for :: "executor_request \<Rightarrow> deployment_state \<Rightarrow> string \<Rightarrow> string \<Rightarrow> string \<Rightarrow> string option \<Rightarrow> bool \<Rightarrow> string \<Rightarrow> audit_event" where
  "event_for r s step kind res mig ok ts = event_of_request r (event_arguments_of (operation_for r s) step kind res mig ok ts)"

text \<open>A request that can be audited, a state to deploy it on, and a clock.\<close>

definition good_run :: "executor_request \<Rightarrow> deployment_state \<Rightarrow> string \<Rightarrow> bool" where
  "good_run r s ts \<longleftrightarrow> auditable r \<and> short_version r \<and> wf_state s \<and> stage s = ''dev'' \<and> fullmatch TIMESTAMP_RE ts"

lemma event_ok:
  assumes "good_run r s ts" and "step_ok step kind res mig"
  shows "checked_event (operation_for r s) (event_arguments_of (operation_for r s) step kind res mig ok ts) =
     Inr (event_for r s step kind res mig ok ts)"
  using assms deployment_arguments_ok unfolding event_for_def good_run_def
  by (intro checked_event_accepts) (auto simp: operation_for_def event_arguments_of_def)

lemma required:
  "good_run r s ts \<Longrightarrow> step_ok step kind res mig \<Longrightarrow>
   require_executor_request (event_for r s step kind res mig ok ts) r = Inr ()"
  using checked_event_Inr [OF event_ok] by (simp add: operation_for_def)

lemma event_for_fields [simp]:
  "ev_timestamp (event_for r s step kind res mig ok ts) = ts"
  "ev_event_id (event_for r s step kind res mig ok ts) = ''c8:'' @ sha256_hex (exec_canonical_bytes r) @ '':'' @ step"
  by (simp_all add: event_for_def event_of_request_def event_arguments_of_def operation_for_def)

lemma goes_make:
  "good_run r s ts \<Longrightarrow> step_ok step kind res mig \<Longrightarrow>
   goes (make_event (operation_for r s) step kind res mig ok) (Returns_Text ts # as) (event_for r s step kind res mig ok ts) as"
  unfolding make_event_def by (rule goes_bind [OF goes_ask]) (simp_all add: goes_lift event_ok)

lemma goes_append:
  "good_run r s ts \<Longrightarrow> step_ok step kind res mig \<Longrightarrow>
   goes (append_event (operation_for r s) (event_for r s step kind res mig ok ts)) (Returns_None # as)
     (''c8:'' @ sha256_hex (exec_canonical_bytes r) @ '':'' @ step, ts) as"
  unfolding append_event_def
  by (rule goes_bind [OF goes_calls(1)], rule goes_bind [OF goes_lift], simp add: operation_for_def required)
    (rule goes_lift, simp)

lemma goes_emit:
  assumes "good_run r s ts" and "step_ok step kind res mig"
  shows "goes (emit (operation_for r s) step kind res mig ok) (Returns_Text ts # Returns_None # as)
     (''c8:'' @ sha256_hex (exec_canonical_bytes r) @ '':'' @ step, ts) as"
  unfolding emit_def by (rule goes_bind [OF goes_make [OF assms]]) (rule goes_append [OF assms])

section \<open>Plans on good answers\<close>

definition planned_for :: "executor_request \<Rightarrow> deployment_state \<Rightarrow> planned" where
  "planned_for r s =
     \<lparr>pn_operation = operation_for r s, pn_start_plan = plan_for r s, pn_application_plan = plan_for r s,
      pn_prepared = with_candidate r s\<rparr>"

lemma wf_with_candidate:
  assumes "wf_exec r" and "wf_state s"
  shows "wf_state (with_candidate r s)"
proof -
  have "wf_migration \<lparr>ms_status = ''pending'', ms_identity = Some MIGRATION_IDENTITY, ms_checksum = Some MIGRATION_CHECKSUM,
      ms_serialized_lock_required = True\<rparr>"
    using migration_identity_ok by (simp add: wf_migration_def MIGRATION_STATUSES_def)
  moreover have "inactive_slot (active_slot s) \<in> set SLOTS" "Some (inactive_slot (active_slot s)) \<noteq> active_slot s"
    by (auto simp: inactive_slot_def SLOTS_def)
  ultimately show ?thesis
    using assms by (auto simp: wf_state_def with_candidate_def wf_exec_def wf_exec_image_def)
qed

lemma promotion_request_accepts:
  assumes "wf_exec r"
  obtains q where "promotion_request_of r = Inr q"
proof -
  let ?i = "xr_requested_by_actor_id r"
  have i: "0 < ?i" "?i \<le> MAX_DECIMAL_IDENTIFIER"
    using assms by (auto simp: wf_exec_def identifier_ok_def MAX_IDENTIFIER_def MAX_DECIMAL_IDENTIFIER_def)
  note dec = decimal_text [OF i]
  let ?q = "\<lparr>rq_schema_version = 1, rq_release_version = xr_release_version r, rq_source_sha = xr_source_sha r,
      rq_oci_repository = xr_oci_repository r, rq_manifest_digest = xr_manifest_digest r,
      rq_exact_image_reference = xr_exact_image_reference r, rq_release_manifest_sha256 = xr_release_manifest_sha256 r,
      rq_provenance_sha256 = xr_provenance_sha256 r, rq_originating_release_run_id = xr_originating_release_run_id r,
      rq_target_stage = xr_stage r, rq_requested_by = ''github:'' @ str_of_int ?i\<rparr>"
  have "length (str_of_int ?i) \<le> 19" "list_all is_digit (str_of_int ?i)"
    using dec by (auto simp: DECIMAL_RE_def fullmatch_Cat_Cls is_digit_def rng_def)
  moreover have "list_all (\<lambda>c. is_alnum c \<or> c \<in> set ''._:/@-'') ''ithub:''" "is_alnum (CHR ''g'')" by code_simp+
  ultimately have "fullmatch IDENTITY_RE (''github:'' @ str_of_int ?i)"
    unfolding fullmatch_IDENTITY_RE
    by (intro exI [of _ "CHR ''g''"] exI [of _ "''ithub:'' @ str_of_int ?i"]) (auto simp: list_all_iff is_alnum_def)
  then have "wf_request ?q"
    using assms dev_repository_approved
    by (simp add: wf_request_def wf_exec_def wf_exec_image_def identifier_ok_def SCHEMA_VERSION_def MAX_GITHUB_NUMBER_def
        MAX_IDENTIFIER_def DEV_STAGE_def STAGES_def)
  then have "promotion_request_of r = Inr ?q"
    using dec by (auto simp: promotion_request_of_def py_str_int_def request_from_dict_Inr request_items_def keys_def
        REQUEST_FIELDS_def getv_def py_eq_int SCHEMA_VERSION_def)
  with that show thesis by blast
qed


lemma plan_operation_accepts:
  assumes "wf_exec r" and "wf_state s" and "stage s = ''dev''"
  shows "plan_operation r s = Inr (plan_for r s, plan_for r s, with_candidate r s)"
proof -
  obtain q where q: "promotion_request_of r = Inr q" using promotion_request_accepts [OF assms(1)] .
  note f = promotion_request_of_Inr [OF q]
  have st: "stage s = rq_target_stage q" using f assms(1,3) by (simp add: wf_exec_def DEV_STAGE_def)
  let ?m = "\<lparr>ms_status = ''pending'', ms_identity = Some MIGRATION_IDENTITY, ms_checksum = Some MIGRATION_CHECKSUM,
      ms_serialized_lock_required = True\<rparr>"
  have "wf_migration ?m" using migration_identity_ok by (simp add: wf_migration_def MIGRATION_STATUSES_def)
  then have "migration_from_dict (migration_to_dict ?m) = Inr ?m" by (rule migration_roundtrip)
  then have c: "prepare_candidate s q MIGRATION_IDENTITY MIGRATION_CHECKSUM = Inr (with_candidate r s)"
    using st f by (simp add: prepare_candidate_def with_candidate_def migration_to_dict_def)
  have p: "promotion_plan s q = Inr (plan_for r s)" using st f assms(3) by (simp add: promotion_plan_def plan_for_def)
  have v: "validated_plan (plan_for r s) s q = Inr (plan_for r s)"
    using f by (simp add: validated_plan_def plan_for_def inactive_slot_def)
  have "copy_plan (plan_for r s) = plan_for r s" by (simp add: copy_plan_def)
  moreover have "validated_prepared_state (with_candidate r s) s r = Inr (with_candidate r s)"
    using wf_with_candidate [OF assms(1,2)] by (simp add: validated_prepared_Inr [OF assms(2,3)])
  ultimately show ?thesis by (simp add: plan_operation_def q p v c)
qed

lemma goes_plan:
  assumes "good_run r s ts" and "is_fresh s" and "assets_reviewed cfg r" and "\<not> already_active r s"
  shows "goes (plan_deployment cfg r) (Returns_State s # as) (planned_for r s) as"
proof -
  have wf: "wf_exec r" "exec_times_fit r" "wf_state s" "stage s = ''dev''"
    using assms(1) auditable_fits by (auto simp: good_run_def auditable_def)
  have "\<not> abandoned r s" using assms(2) by (simp add: abandoned_def is_fresh_def)
  moreover have "snapshot_state True s = Inr s" using wf assms(2) by (simp add: snapshot_state_Inr)
  ultimately have load: "goes (load_original r) (Returns_State s # as) s as"
    unfolding load_original_def
    by (intro goes_bind [OF goes_assign(2)] goes_bind [OF goes_assign(1)] goes_bind [OF goes_ask])
      (auto simp: bind_return intro!: goes_bind [OF goes_assign(1)] goes_lift)
  have slot: "candidate_slot (with_candidate r s) = Some (inactive_slot (active_slot s))" by (simp add: with_candidate_def)
  have ph: "goes (\<lambda>w. if already_active r s then (Inl TypeError, w) else phase ''deployment_plan'' w) as () as"
    using assms(4) by (simp add: goes_assign)
  show ?thesis
    unfolding plan_deployment_def snapshot_request_wf [OF wf(1,2)] request_hash_of_def request_mapping_bytes
    using assms(3) plan_operation_accepts [OF wf(1,3,4)]
    by (intro goes_bind [OF goes_lift] goes_bind [OF goes_assign(1)])
      (auto simp: slot planned_for_def operation_for_def intro!: goes_bind [OF load] goes_bind [OF ph] goes_bind [OF goes_lift]
        goes_bind [OF goes_assign(1)] goes_lift)
qed


section \<open>A deployment on good answers\<close>

definition good_answers :: "deployment_state \<Rightarrow> string \<Rightarrow> answer list" where
  "good_answers s ts =
     [Returns_State s, Returns_Text ts, Returns_None, Returns_None] @ [Returns_None, Returns_None, Returns_None] @
     [Returns_Text ts, Returns_None, Returns_None, Returns_None, Returns_Text ts, Returns_None, Returns_None] @
     [Returns_True, Returns_Text ts, Returns_None, Returns_True, Returns_Text ts, Returns_None, Returns_True, Returns_True] @
     [Returns_Text ts, Returns_None, Returns_None, Returns_Text ts, Returns_None] @
     [Returns_Text ts, Returns_None, Returns_None]"

definition stamp :: "executor_request \<Rightarrow> string \<Rightarrow> string option \<Rightarrow> string \<Rightarrow> deployment_state \<Rightarrow> deployment_state" where
  "stamp r step st ts s = stamped st ts (''c8:'' @ sha256_hex (exec_canonical_bytes r) @ '':'' @ step) s"

lemma wf_stamp:
  assumes "wf_state s" and "fullmatch TIMESTAMP_RE ts" and "step_ok step kind res mig"
    and "\<And>x. st = Some x \<Longrightarrow> x \<in> set MIGRATION_STATUSES \<and> x \<noteq> ''none'' \<and> ms_status (migration s) \<noteq> ''none''"
  shows "wf_state (stamp r step st ts s)"
  using assms event_id_ok
  by (cases st) (auto simp: wf_state_def stamp_def stamped_def wf_migration_def step_ok_def)

lemma updated_stamp:
  assumes "wf_state t" and "wf_state (stamp r step st ts t)"
  shows "updated_state t st ts (''c8:'' @ sha256_hex (exec_canonical_bytes r) @ '':'' @ step) = Inr (stamp r step st ts t)"
  using assms(2) unfolding updated_state_Inr [OF assms(1)] stamp_def by simp

lemma goes_stage:
  assumes "good_run r s ts" and "wf_state (with_candidate r s)"
  shows "goes (stage_candidate (planned_for r s)) (Returns_Text ts # Returns_None # Returns_None # as)
    (stamp r ''promotion-started'' None ts (with_candidate r s)) as"
proof -
  let ?t = "stamp r ''promotion-started'' None ts (with_candidate r s)"
  have t: "wf_state ?t" "stage ?t = ''dev''"
    using wf_stamp [OF assms(2) _ steps_ok(1)] assms(1) by (auto simp: good_run_def stamp_def with_candidate_def)
  have u: "updated_state (with_candidate r s) None ts (''c8:'' @ sha256_hex (exec_canonical_bytes r) @ '':'' @ ''promotion-started'') = Inr ?t"
    by (rule updated_stamp [OF assms(2) t(1)])
  show ?thesis
    unfolding stage_candidate_def Let_def planned_for_def planned.simps
    by (rule goes_bind [OF goes_assign(2)], rule goes_bind [OF goes_make [OF assms(1) steps_ok(1)]],
        rule goes_bind [OF goes_assign(1)], rule goes_bind [OF goes_append [OF assms(1) steps_ok(1)]])
      (simp only: prod.case u bind_return, rule goes_bind [OF goes_assign(1)], rule goes_bind [OF goes_save [OF t]],
        rule goes_bind [OF goes_assign(1)], rule goes_lift, simp)
qed

lemma goes_start: "goes (start_image p) (Returns_None # Returns_None # Returns_None # as) () as"
  unfolding start_image_def Let_def
  by (rule goes_bind [OF goes_assign(2)], rule goes_bind [OF goes_calls(1)])+ (rule goes_bind [OF goes_assign(2)], rule goes_calls(1))


lemma goes_migration:
  assumes "good_run r s ts" and "wf_state t" and "stage t = ''dev''" and "ms_status (migration t) = ''pending''"
  shows "goes (run_migration (planned_for r s) t)
    (Returns_Text ts # Returns_None # Returns_None # Returns_None # Returns_Text ts # Returns_None # Returns_None # as)
    (stamp r ''migration-succeeded'' (Some ''succeeded'') ts (stamp r ''migration-started'' (Some ''running'') ts t)) as"
proof -
  let ?u = "stamp r ''migration-started'' (Some ''running'') ts t"
  let ?v = "stamp r ''migration-succeeded'' (Some ''succeeded'') ts ?u"
  have ts: "fullmatch TIMESTAMP_RE ts" using assms(1) by (simp add: good_run_def)
  have u: "wf_state ?u" "stage ?u = ''dev''" "ms_status (migration ?u) = ''running''"
    using wf_stamp [OF assms(2) ts steps_ok(2), of "Some ''running''"] assms(3,4) by (auto simp: stamp_def MIGRATION_STATUSES_def)
  have v: "wf_state ?v" "stage ?v = ''dev''"
    using wf_stamp [OF u(1) ts steps_ok(3), of "Some ''succeeded''"] u(2,3) by (auto simp: stamp_def MIGRATION_STATUSES_def)
  have up: "updated_state t (Some ''running'') ts (''c8:'' @ sha256_hex (exec_canonical_bytes r) @ '':'' @ ''migration-started'') = Inr ?u"
      "updated_state ?u (Some ''succeeded'') ts (''c8:'' @ sha256_hex (exec_canonical_bytes r) @ '':'' @ ''migration-succeeded'') = Inr ?v"
    by (rule updated_stamp [OF assms(2) u(1)], rule updated_stamp [OF u(1) v(1)])
  show ?thesis
    unfolding run_migration_def Let_def planned_for_def planned.simps
    by (rule goes_bind [OF goes_assign(2)], rule goes_bind [OF goes_emit [OF assms(1) steps_ok(2)]],
        simp only: prod.case up(1) bind_return, rule goes_bind [OF goes_save [OF u(1,2)]],
        rule goes_bind [OF goes_noting [OF goes_bind [OF goes_assign(2) goes_calls(1)]]], rule goes_bind [OF goes_assign(2)],
        rule goes_bind [OF goes_make [OF assms(1) steps_ok(3)]])
      (simp only: event_for_fields up(2) bind_return, rule goes_bind [OF goes_save [OF v]],
        rule goes_bind [OF goes_append [OF assms(1) steps_ok(3)]], rule goes_lift, simp)
qed

lemma goes_gates:
  assumes "good_run r s ts" and "authorize_traffic_switch t passing_gates = Inr ()"
  shows "goes (check_gates (planned_for r s) t)
    (Returns_True # Returns_Text ts # Returns_None # Returns_True # Returns_Text ts # Returns_None # Returns_True # Returns_True # as) () as"
  unfolding check_gates_def Let_def planned_for_def planned.simps
  by (rule goes_bind [OF goes_health], rule goes_bind [OF goes_emit [OF assms(1) steps_ok(4)]],
      rule goes_bind [OF goes_health], rule goes_bind [OF goes_emit [OF assms(1) steps_ok(5)]],
      rule goes_bind [OF goes_assign(2)], rule goes_bind [OF goes_calls(2)], rule goes_bind [OF goes_assign(2)],
      rule goes_bind [OF goes_calls(2)], rule goes_bind [OF goes_assign(2)], rule goes_lift, rule assms(2))

lemma goes_switch:
  assumes "good_run r s ts"
  shows "goes (switch_traffic (planned_for r s))
    (Returns_Text ts # Returns_None # Returns_None # Returns_Text ts # Returns_None # as) () as"
  unfolding switch_traffic_def Let_def planned_for_def planned.simps
  by (rule goes_bind [OF goes_emit [OF assms(1) steps_ok(6)]], rule goes_bind [OF goes_assign(1)],
      rule goes_bind [OF goes_assign(2)], rule goes_bind [OF goes_calls(1)], rule goes_bind [OF goes_assign(1)],
      rule goes_bind [OF goes_emit [OF assms(1) steps_ok(7)]], rule goes_lift, simp)

lemma goes_finish:
  assumes "good_run r s ts" and "wf_state t" and "stage t = ''dev''" and "candidate_slot t \<noteq> None"
    and "authorize_traffic_switch t passing_gates = Inr ()"
  shows "goes (finish_deployment (planned_for r s) t) (Returns_Text ts # Returns_None # Returns_None # as) () as"
proof -
  let ?id = "''c8:'' @ sha256_hex (exec_canonical_bytes r) @ '':'' @ ''promotion-succeeded''"
  let ?c = "promoted t ts ?id"
  have "fullmatch EVENT_ID_RE ?id" using steps_ok(8) event_id_ok by (simp only: step_ok_def)
  then have c: "wf_state ?c" "stage ?c = ''dev''"
    using wf_promoted [OF assms(2,4)] assms(1,3) by (simp_all add: good_run_def promoted_def)
  have fin: "bnd (complete_promotion t passing_gates ts ?id) (\<lambda>x. validated_completed_state x t ts ?id) = Inr ?c"
    using c(1) by (simp only: complete_promotion_eq assms(5) bnd_simps state_roundtrip validated_completed_Inr [OF assms(2,3)])
  show ?thesis
    unfolding finish_deployment_def Let_def planned_for_def planned.simps
    by (rule goes_bind [OF goes_assign(2)], rule goes_bind [OF goes_make [OF assms(1) steps_ok(8)]])
      (simp only: event_for_fields fin bind_return, rule goes_bind [OF goes_save [OF c]],
        rule goes_bind [OF goes_append [OF assms(1) steps_ok(8)]], rule goes_lift, simp)
qed

lemma good_answers_deploy:
  assumes "auditable r" and "short_version r" and "assets_reviewed cfg r"
    and "wf_state s" and "stage s = ''dev''" and "is_fresh s" and "\<not> already_active r s"
    and "fullmatch TIMESTAMP_RE ts" and "ow_answers w = good_answers s ts" and "\<not> ow_active w"
  shows "\<exists>w'. deploy cfg r w = (Inr (), w')"
proof -
  have g: "good_run r s ts" using assms by (simp add: good_run_def)
  have c: "wf_state (with_candidate r s)" using wf_with_candidate assms(1,4) by (simp add: auditable_def)
  let ?t = "stamp r ''promotion-started'' None ts (with_candidate r s)"
  have "wf_state ?t" by (rule wf_stamp [OF c assms(8) steps_ok(1)]) simp
  moreover have "stage ?t = ''dev''" "ms_status (migration ?t) = ''pending''"
    using assms(5) by (simp_all add: stamp_def stamped_def with_candidate_def)
  ultimately have t: "wf_state ?t" "stage ?t = ''dev''" "ms_status (migration ?t) = ''pending''" by blast+
  let ?v = "stamp r ''migration-succeeded'' (Some ''succeeded'') ts (stamp r ''migration-started'' (Some ''running'') ts ?t)"
  have u: "wf_state (stamp r ''migration-started'' (Some ''running'') ts ?t)"
    using wf_stamp [OF t(1) assms(8) steps_ok(2), of "Some ''running''"] t(3) by (simp add: MIGRATION_STATUSES_def)
  have "wf_state ?v"
    by (rule wf_stamp [OF u assms(8) steps_ok(3)]) (auto simp: stamp_def stamped_def MIGRATION_STATUSES_def)
  moreover have "stage ?v = ''dev''" "candidate_slot ?v \<noteq> None" "authorize_traffic_switch ?v passing_gates = Inr ()"
    using assms(5) by (simp_all add: stamp_def stamped_def with_candidate_def authorize_traffic_switch_def passing_gates_def all_passed_def)
  ultimately have v: "wf_state ?v" "stage ?v = ''dev''" "candidate_slot ?v \<noteq> None"
      "authorize_traffic_switch ?v passing_gates = Inr ()" by blast+
  have "goes (deploy_body cfg r) (good_answers s ts) () []"
    unfolding deploy_body_def good_answers_def append.simps
    by (rule goes_bind [OF goes_plan [OF g assms(6,3,7)]], rule goes_bind [OF goes_stage [OF g c]],
        rule goes_bind [OF goes_start], rule goes_bind [OF goes_migration [OF g t]], rule goes_bind [OF goes_gates [OF g v(4)]],
        rule goes_bind [OF goes_switch [OF g]], rule goes_finish [OF g v])
  then have "\<exists>w'. deploy_body cfg r (w\<lparr>ow_active := True, ow_locals := initial_locals\<rparr>) = (Inr (), w')"
    using assms(9) unfolding goes_def by (metis (no_types) op_world.select_convs(1) op_world.surjective op_world.update_convs(3,5))
  then show ?thesis using assms(10) by (auto simp: deploy_def)
qed

text \<open>
  C25: A deployment goes through when everything answers well.  For a request that can be audited, with
  reviewed assets and a release that is not active, on a fresh well-formed state of the stage dev, with a
  clock that gives valid times and collaborators that give the expected answers, \<open>deploy\<close> returns.
\<close>

theorem deploy_returns:
  assumes "auditable r" and "short_version r" and "assets_reviewed cfg r"
    and "wf_state s" and "stage s = ''dev''" and "is_fresh s" and "\<not> already_active r s"
    and "fullmatch TIMESTAMP_RE ts" and "ow_answers w = good_answers s ts" and "\<not> ow_active w"
  shows "\<exists>w'. deploy cfg r w = (Inr (), w')"
  by (rule good_answers_deploy [OF assms])

section \<open>Concrete runs\<close>

definition sample_config :: operation_config where
  "sample_config = \<lparr>oc_reviewed_commit = sample_commit, oc_runtime_sha256 = sample_hash,
     oc_ingress_sha256 = map (\<lambda>_. sample_hash) INGRESS_PATHS\<rparr>"

definition sample_time :: string where "sample_time = ''2026-01-02T03:04:05Z''"

definition world_with :: "answer list \<Rightarrow> op_world" where
  "world_with as = \<lparr>ow_answers = as, ow_trace = [], ow_active = False, ow_log = [], ow_locals = initial_locals\<rparr>"

definition deployed_state :: deployment_state where
  "deployed_state = sample_state\<lparr>active_digest := Some (''sha256:'' @ replicate 64 (CHR ''c''))\<rparr>"

lemma deployed_state_wf: "wf_state deployed_state"
  by code_simp

lemma sample_deployment:
  "auditable sample_exec" "short_version sample_exec" "assets_reviewed sample_config sample_exec"
  "wf_state deployed_state" "stage deployed_state = ''dev''" "is_fresh deployed_state" "\<not> already_active sample_exec deployed_state"
  "fullmatch TIMESTAMP_RE sample_time"
proof -
  show "auditable sample_exec" "wf_state deployed_state" by (rule sample_auditable, rule deployed_state_wf)
  show "fullmatch TIMESTAMP_RE sample_time" unfolding sample_time_def by (rule sample_update_ok)
  show "assets_reviewed sample_config sample_exec"
    by (simp add: assets_reviewed_def sample_config_def sample_exec_def Let_def comp_def)
  show "short_version sample_exec" "stage deployed_state = ''dev''"
    by (simp_all add: short_version_def sample_exec_def deployed_state_def sample_state_def)
  show "is_fresh deployed_state" by (simp add: is_fresh_def deployed_state_def sample_state_def sample_migration_def)
  show "\<not> already_active sample_exec deployed_state" by code_simp
qed

lemma sample_wf: "wf_exec sample_exec" "exec_times_fit sample_exec"
  by (rule sample_exec_wf)+

theorem deploy_returns_witness:
  "\<exists>w'. deploy sample_config sample_exec (world_with (good_answers deployed_state sample_time)) = (Inr (), w')"
  by (rule deploy_returns [OF sample_deployment]) (simp_all add: world_with_def)

lemma sample_run: "\<exists>w'. deploy sample_config sample_exec (world_with (good_answers deployed_state sample_time)) = (Inr (), w')"
  by (rule good_answers_deploy [OF sample_deployment]) (simp_all add: world_with_def)

theorem deploy_success_is_reviewed_run_witness:
  "\<exists>w' (pr :: promotion_record). deploy sample_config sample_exec (world_with (good_answers deployed_state sample_time)) = (Inr (), w') \<and>
     active_digest (pr_completed pr) = Some (xr_manifest_digest sample_exec) \<and> \<not> ow_active w'"
proof -
  obtain w' where run: "deploy sample_config sample_exec (world_with (good_answers deployed_state sample_time)) = (Inr (), w')"
    using sample_run by blast
  from deploy_success_is_reviewed_run [OF run sample_wf] obtain pr :: promotion_record where
      "active_identity (pr_completed pr) = (Some (xr_release_version sample_exec), Some (xr_source_sha sample_exec),
        Some (xr_manifest_digest sample_exec), Some (pr_slot pr))" "\<not> ow_active w'"
    by blast
  with run show ?thesis by auto
qed


theorem deploy_switches_only_after_gates_witness:
  "\<exists>before slot a after (pr :: promotion_record). ow_trace (snd (deploy sample_config sample_exec (world_with (good_answers deployed_state sample_time)))) =
     before @ (Switch ''dev'' slot, a) # after \<and> (Migrate ''dev'' (pr_image pr) MIGRATION_IDENTITY MIGRATION_CHECKSUM, Returns_None) \<in> set before"
proof -
  obtain w' where run: "deploy sample_config sample_exec (world_with (good_answers deployed_state sample_time)) = (Inr (), w')"
    using sample_run by blast
  from deploy_success_run [OF run sample_wf] obtain cs pr es where
    "ow_trace w' = ow_trace (world_with (good_answers deployed_state sample_time)) @ cs @ gate_calls pr es @ switch_calls pr es"
    by blast
  then have "ow_trace w' = (cs @ gate_calls pr es @ audited (es ! 5)) @ (Switch ''dev'' (Some (pr_slot pr)), Returns_None) #
      audited (es ! 6) @ audited_save (es ! 7) (pr_completed pr)"
    by (simp add: switch_calls_def world_with_def)
  then have t: "ow_trace (snd (deploy sample_config sample_exec (world_with (good_answers deployed_state sample_time)))) =
      (cs @ gate_calls pr es @ audited (es ! 5)) @ (Switch ''dev'' (Some (pr_slot pr)), Returns_None) #
      audited (es ! 6) @ audited_save (es ! 7) (pr_completed pr)"
    using run by simp
  from deploy_switches_only_after_gates [OF _ sample_wf t] obtain cs' pr' es' e where
    "cs @ gate_calls pr es @ audited (es ! 5) = cs' @ gate_calls pr' es' @ audited e"
    by (auto simp: world_with_def)
  then have "(Migrate ''dev'' (pr_image (pr' :: promotion_record)) MIGRATION_IDENTITY MIGRATION_CHECKSUM, Returns_None) \<in>
      set (cs @ gate_calls pr es @ audited (es ! 5))"
    by (simp only:) (simp add: gate_calls_def)
  with t show ?thesis by blast
qed

text \<open>A deployment whose image cannot be pulled.\<close>

definition failing_answers :: "answer list" where
  "failing_answers = [Returns_State deployed_state, Returns_Text sample_time, Returns_None, Returns_None, Raises OSError]"

lemma sample_failure:
  "\<exists>w'. deploy sample_config sample_exec (world_with failing_answers) = (Inl DeploymentOperationError, w') \<and>
    (Save (stamp sample_exec ''promotion-started'' None sample_time (with_candidate sample_exec deployed_state)), Returns_None)
      \<in> set (ow_trace w')"
proof -
  let ?w0 = "(world_with failing_answers)\<lparr>ow_active := True, ow_locals := initial_locals\<rparr>"
  let ?t = "stamp sample_exec ''promotion-started'' None sample_time (with_candidate sample_exec deployed_state)"
  let ?p = "planned_for sample_exec deployed_state"
  have g: "good_run sample_exec deployed_state sample_time" using sample_deployment by (simp add: good_run_def)
  have c: "wf_state (with_candidate sample_exec deployed_state)"
    using wf_with_candidate [OF sample_wf(1)] deployed_state_wf by simp
  have "ow_answers ?w0 = Returns_State deployed_state # Returns_Text sample_time # Returns_None # Returns_None # [Raises OSError]"
    by (simp add: world_with_def failing_answers_def)
  then obtain w1 where 1: "plan_deployment sample_config sample_exec ?w0 = (Inr ?p, w1)"
      "ow_answers w1 = Returns_Text sample_time # Returns_None # Returns_None # [Raises OSError]"
    using goes_plan [OF g sample_deployment(6,3,7)] unfolding goes_def by blast
  then obtain w2 where 2: "stage_candidate ?p w1 = (Inr ?t, w2)" "ow_answers w2 = [Raises OSError]"
    using goes_stage [OF g c, of "[Raises OSError]"] unfolding goes_def by blast
  have "(Save ?t, Returns_None) \<in> set (ow_trace w2)"
    using stage_candidate_Inr [OF 2(1)] c by (auto simp: planned_for_def)
  moreover obtain w3 where 3: "start_image ?p w2 = (Inl OSError, w3)"
    using 2(2) by (simp add: start_image_def act_bind_def phase_def assign_def call_none_def ask_def Let_def)
  moreover have "adds no_switch w2 w3" using movesD [OF phases_without_switch(2) 3] .
  ultimately have s: "(Save ?t, Returns_None) \<in> set (ow_trace w3)" by (auto simp: adds_def)
  have "deploy_body sample_config sample_exec ?w0 = (Inl OSError, w3)"
    using 1(1) 2(1) 3 by (simp add: deploy_body_def act_bind_def)
  then have "deploy sample_config sample_exec (world_with failing_answers) = (Inl DeploymentOperationError,
      (recovered (w3\<lparr>ow_log := ow_log w3 @ [dl_phase (ow_locals w3)]\<rparr>))\<lparr>ow_active := False\<rparr>)"
    by (simp add: deploy_def is_Exception_def world_with_def)
  moreover have "adds no_switch (w3\<lparr>ow_log := ow_log w3 @ [dl_phase (ow_locals w3)]\<rparr>)
      (recovered (w3\<lparr>ow_log := ow_log w3 @ [dl_phase (ow_locals w3)]\<rparr>))" by (rule recovered_without_switch)
  ultimately show ?thesis using s by (auto simp: adds_def)
qed

theorem deploy_failure_restores_witness:
  "\<exists>w' original a. deploy sample_config sample_exec (world_with failing_answers) = (Inl DeploymentOperationError, w') \<and>
     ((Save original, a) \<in> set (ow_trace w') \<or> (Restore ''dev'' (active_slot original), a) \<in> set (ow_trace w')) \<and> is_fresh original"
proof -
  let ?t = "stamp sample_exec ''promotion-started'' None sample_time (with_candidate sample_exec deployed_state)"
  obtain w' where w': "deploy sample_config sample_exec (world_with failing_answers) = (Inl DeploymentOperationError, w')"
      "(Save ?t, Returns_None) \<in> set (ow_trace w')"
    using sample_failure by blast
  have "candidate_slot ?t \<noteq> None" by (simp add: stamp_def with_candidate_def)
  from deploy_failure_restores [OF _ sample_wf w' this] obtain original switched before cs audit where
    "ow_trace w' = before @ cs @ audit" "restoring switched original cs" "is_fresh original"
    by (auto simp: world_with_def)
  then have "(\<exists>a. (Save original, a) \<in> set (ow_trace w')) \<or> (\<exists>a. (Restore ''dev'' (active_slot original), a) \<in> set (ow_trace w'))"
    by (auto simp: restoring_def split: if_splits)
  with w'(1) \<open>is_fresh original\<close> show ?thesis by blast
qed

end
