(* ===== verification/Traced.thy ===== *)
theory Traced
  imports Steps
begin

text \<open>
  What the modules that talk to the operating system share: errors kept until the cleanup is done, and
  specifications over the calls an action recorded.
\<close>

section \<open>Deferred errors\<close>

text \<open>
  The modules finish their cleanup before they raise: the variables \<open>control\<close> and \<open>failed\<close>.  The
  transport keeps the last control exception; the connection handler and the state store the first one.
\<close>

record outcome =
  oc_control :: "exn option"
  oc_failed :: bool

definition no_error :: outcome where "no_error = \<lparr>oc_control = None, oc_failed = False\<rparr>"

definition note_last :: "exn \<Rightarrow> outcome \<Rightarrow> outcome" where
  "note_last e out = (if is_Exception e then out\<lparr>oc_failed := True\<rparr> else out\<lparr>oc_control := Some e\<rparr>)"

definition note_first :: "exn \<Rightarrow> outcome \<Rightarrow> outcome" where
  "note_first e out =
     (if is_Exception e then out\<lparr>oc_failed := True\<rparr>
      else if oc_control out = None then out\<lparr>oc_control := Some e\<rparr> else out)"

definition defer_error :: "(exn \<Rightarrow> outcome \<Rightarrow> outcome) \<Rightarrow> ('w, 'a) act \<Rightarrow> outcome \<times> 'w \<Rightarrow> outcome \<times> 'w" where
  "defer_error note m s =
     (case m (snd s) of (Inl e, w') \<Rightarrow> (note e (fst s), w') | (Inr _, w') \<Rightarrow> (fst s, w'))"

section \<open>Specifications over the recorded calls\<close>

text \<open>
  \<open>traced trace m Q E\<close>: whatever the world, \<open>m\<close> appends calls \<open>tr\<close> to the record, and returns \<open>x\<close>
  with \<open>Q x tr\<close> or raises \<open>e\<close> with \<open>E e tr\<close>.
\<close>

definition traced ::
    "('w \<Rightarrow> 'e list) \<Rightarrow> ('w, 'a) act \<Rightarrow> ('a \<Rightarrow> 'e list \<Rightarrow> bool) \<Rightarrow> (exn \<Rightarrow> 'e list \<Rightarrow> bool) \<Rightarrow> bool" where
  "traced trace m Q E \<longleftrightarrow>
     (\<forall>w r w'. m w = (r, w') \<longrightarrow>
        (\<exists>tr. trace w' = trace w @ tr \<and> (case r of Inr x \<Rightarrow> Q x tr | Inl e \<Rightarrow> E e tr)))"

lemma tracedI:
  assumes "\<And>w r w'. m w = (r, w') \<Longrightarrow> \<exists>tr. trace w' = trace w @ tr \<and> (case r of Inr x \<Rightarrow> Q x tr | Inl e \<Rightarrow> E e tr)"
  shows "traced trace m Q E"
  using assms by (simp add: traced_def)

lemma tracedE:
  assumes "traced trace m Q E" and "m w = (r, w')"
  obtains (ret) x tr where "r = Inr x" "trace w' = trace w @ tr" "Q x tr"
  | (exn) e tr where "r = Inl e" "trace w' = trace w @ tr" "E e tr"
proof -
  obtain tr where "trace w' = trace w @ tr" "case r of Inr x \<Rightarrow> Q x tr | Inl e \<Rightarrow> E e tr"
    using assms unfolding traced_def by blast
  then show thesis using ret exn by (cases r) auto
qed

lemma traced_conseq:
  assumes "traced trace m Q E" and "\<And>x tr. Q x tr \<Longrightarrow> Q' x tr" and "\<And>e tr. E e tr \<Longrightarrow> E' e tr"
  shows "traced trace m Q' E'"
proof (rule tracedI)
  fix w r w'
  assume "m w = (r, w')"
  with assms(1) show "\<exists>tr. trace w' = trace w @ tr \<and> (case r of Inr x \<Rightarrow> Q' x tr | Inl e \<Rightarrow> E' e tr)"
    by (rule tracedE) (auto intro: assms(2,3))
qed

named_theorems traced_rules \<open>specifications of the calls over the record\<close>

lemma traced_lift [traced_rules]:
  "(\<And>x. r = Inr x \<Longrightarrow> Q x []) \<Longrightarrow> (\<And>e. r = Inl e \<Longrightarrow> E e []) \<Longrightarrow> traced trace (act_lift r) Q E"
  by (cases r) (simp_all add: traced_def)

lemma traced_bind:
  assumes "traced trace m Qm Em" and "\<And>e tr. Em e tr \<Longrightarrow> E e tr"
    and "\<And>x tr. Qm x tr \<Longrightarrow> traced trace (f x) (\<lambda>y tr'. Q y (tr @ tr')) (\<lambda>e tr'. E e (tr @ tr'))"
  shows "traced trace (act_bind m f) Q E"
proof (rule tracedI)
  fix w r w'
  assume run: "act_bind m f w = (r, w')"
  obtain r1 w1 where m: "m w = (r1, w1)" by (cases "m w")
  from assms(1) this show "\<exists>tr. trace w' = trace w @ tr \<and> (case r of Inr x \<Rightarrow> Q x tr | Inl e \<Rightarrow> E e tr)"
  proof (cases rule: tracedE)
    case (exn e tr)
    then show ?thesis using run m assms(2) by (auto simp: act_bind_def)
  next
    case (ret x tr)
    then have "f x w1 = (r, w')" using run m by (simp add: act_bind_def)
    with assms(3) [OF ret(3)] show ?thesis
      by (cases rule: tracedE) (use ret(2) in \<open>auto intro: exI [of _ "tr @ tr'" for tr']\<close>)
  qed
qed

lemma traced_if:
  "(b \<Longrightarrow> traced trace m Q E) \<Longrightarrow> (\<not> b \<Longrightarrow> traced trace n Q E) \<Longrightarrow> traced trace (if b then m else n) Q E"
  by simp

text \<open>A change of the world outside the record.\<close>

lemma traced_update: "(\<And>w. trace (f w) = trace w) \<Longrightarrow> Q x [] \<Longrightarrow> traced trace (\<lambda>w. (Inr x, f w)) Q E"
  by (simp add: traced_def)

text \<open>An interface whose calls are recorded one by one.\<close>

locale recorder =
  fixes trace :: "'w \<Rightarrow> ('c \<times> 'b) list"
    and call :: "'c \<Rightarrow> ('w, 'a) act"
    and answered :: "'a result \<Rightarrow> 'b"
    and returned :: "'a \<Rightarrow> bool"
  assumes records: "call c w = (r, w') \<Longrightarrow> trace w' = trace w @ [(c, answered r)]"
    and returns: "call c w = (Inr x, w') \<Longrightarrow> returned x"
begin

lemma traced_call:
  assumes "\<And>x. returned x \<Longrightarrow> Q x [(c, answered (Inr x))]" and "\<And>e. E e [(c, answered (Inl e))]"
  shows "traced trace (call c) Q E"
proof (rule tracedI)
  fix w r w'
  assume run: "call c w = (r, w')"
  then show "\<exists>tr. trace w' = trace w @ tr \<and> (case r of Inr x \<Rightarrow> Q x tr | Inl e \<Rightarrow> E e tr)"
    using records [OF run] returns assms by (cases r) auto
qed

lemma traced_call_bind:
  assumes "\<And>e. E e [(c, answered (Inl e))]"
    and "\<And>x. returned x \<Longrightarrow>
      traced trace (f x) (\<lambda>y tr. Q y ((c, answered (Inr x)) # tr)) (\<lambda>e tr. E e ((c, answered (Inr x)) # tr))"
  shows "traced trace (act_bind (call c) f) Q E"
proof (rule traced_bind [where Qm = "\<lambda>x tr. returned x \<and> tr = [(c, answered (Inr x))]"])
  show "traced trace (call c) (\<lambda>x tr. returned x \<and> tr = [(c, answered (Inr x))]) (\<lambda>e tr. E e tr)"
    by (rule traced_call) (simp_all add: assms(1))
qed (use assms(2) in simp_all)

end

end
