(* ===== verification/Py_Float.thy ===== *)
theory Py_Float
  imports Py_Value "HOL-Library.Log_Nat"
begin

text \<open>
  Python's \<open>float\<close>, as far as the deadlines use it: IEEE double precision with rounding to
  nearest, ties to even.  A finite float is the rational it denotes; the sign of zero is not
  kept, no comparison sees it.
\<close>

section \<open>Rounding\<close>

datatype pyfloat = Number rat | Infinity | Minus_Infinity | Not_A_Number

definition two_to :: "int \<Rightarrow> rat" where
  "two_to e = (if 0 \<le> e then 2 ^ nat e else 1 / 2 ^ nat (- e))"

text \<open>The binary exponent of a positive rational: the \<open>e\<close> with \<open>2 ^ e \<le> x < 2 ^ (e + 1)\<close>.\<close>

definition binary_exponent :: "rat \<Rightarrow> int" where
  "binary_exponent x =
     (case quotient_of x of
        (a, b) \<Rightarrow>
          let e = int (floorlog 2 (nat a)) - int (floorlog 2 (nat b)) in
          if x < two_to e then e - 1 else e)"

definition round_even :: "rat \<Rightarrow> int" where
  "round_even x =
     (let f = \<lfloor>x\<rfloor>; d = x - of_int f in
      if d < 1 / 2 \<or> (d = 1 / 2 \<and> even f) then f else f + 1)"

text \<open>53 bits of precision, no unit below \<open>2 ^ -1074\<close>, overflow from \<open>2 ^ 1024\<close> on.\<close>

definition float_unit :: "rat \<Rightarrow> rat" where
  "float_unit x = two_to (max (binary_exponent x - 52) (- 1074))"

definition to_float :: "rat \<Rightarrow> pyfloat" where
  "to_float x =
     (if x = 0 then Number 0
      else
        let u = float_unit \<bar>x\<bar>; y = of_int (round_even (\<bar>x\<bar> / u)) * u in
        if y < 2 ^ 1024 then Number (if x < 0 then - y else y)
        else if x < 0 then Minus_Infinity else Infinity)"

text \<open>\<open>float(i)\<close> and \<open>math.isfinite(i)\<close> of an integer raise when it rounds beyond the finite floats.\<close>

definition float_of_int :: "int \<Rightarrow> rat result" where
  "float_of_int i = (case to_float (of_int i) of Number x \<Rightarrow> Inr x | _ \<Rightarrow> Inl OverflowError)"

section \<open>Rounding keeps the order\<close>

lemma two_to_pos [simp]: "0 < two_to e"
  by (simp add: two_to_def)

lemma float_unit_pos [simp]: "0 < float_unit x"
  by (simp add: float_unit_def)

lemma round_even_nonneg: "0 \<le> x \<Longrightarrow> 0 \<le> round_even x"
  by (auto simp: round_even_def Let_def)

lemma round_even_near: "\<bar>of_int (round_even x) - x\<bar> \<le> 1 / 2"
proof -
  have "of_int \<lfloor>x\<rfloor> \<le> x" "x < of_int \<lfloor>x\<rfloor> + 1" by linarith+
  then show ?thesis by (auto simp: round_even_def Let_def abs_le_iff not_less)
qed

lemma round_even_int [simp]: "round_even (of_int i) = i"
  by (simp add: round_even_def)

lemma to_float_zero [simp]: "to_float 0 = Number 0"
  by (simp add: to_float_def)

text \<open>The rounding error is at most half a unit.\<close>

lemma to_float_near:
  assumes "to_float x = Number y"
  shows "\<bar>y - x\<bar> \<le> float_unit \<bar>x\<bar> / 2"
proof (cases "x = 0")
  case True
  then show ?thesis using assms float_unit_pos [of 0] by (simp add: less_imp_le)
next
  case False
  define u where "u = float_unit \<bar>x\<bar>"
  define n where "n = round_even (\<bar>x\<bar> / u)"
  have u: "0 < u" by (simp add: u_def)
  have "\<bar>of_int n - \<bar>x\<bar> / u\<bar> * u \<le> 1 / 2 * u"
    using round_even_near [of "\<bar>x\<bar> / u"] u by (intro mult_right_mono) (simp_all add: n_def)
  moreover have "\<bar>of_int n - \<bar>x\<bar> / u\<bar> * u = \<bar>of_int n * u - \<bar>x\<bar>\<bar>"
  proof -
    have "(of_int n - \<bar>x\<bar> / u) * u = of_int n * u - \<bar>x\<bar>" using u by (simp add: left_diff_distrib)
    then show ?thesis using u by (metis abs_mult abs_of_pos)
  qed
  ultimately have "\<bar>of_int n * u - \<bar>x\<bar>\<bar> \<le> u / 2" by simp
  moreover have "y = (if x < 0 then - (of_int n * u) else of_int n * u)"
    using assms False by (auto simp: to_float_def Let_def u_def n_def split: if_splits)
  ultimately have "\<bar>y - x\<bar> \<le> u / 2" by (cases "x < 0") (simp_all add: abs_if split: if_splits)
  then show ?thesis by (simp only: u_def)
qed

text \<open>Integers of at most 53 bits are exact.\<close>

lemma binary_exponent_int:
  assumes "0 < n" and "n < 2 ^ 53"
  shows "- 1 \<le> binary_exponent (of_int n)" "binary_exponent (of_int n) \<le> 52"
proof -
  have q: "quotient_of (of_int n) = (n, 1)" using quotient_of_Fract [of n 1] by (simp add: Fract_of_int_eq)
  have "nat n < 2 ^ 53" using assms by (simp add: nat_less_iff)
  then have "floorlog 2 (nat n) \<le> 53" by (simp add: floorlog_leI)
  moreover have "floorlog 2 1 = 1" "1 \<le> floorlog 2 (nat n)" using assms by (simp_all add: floorlog_def)
  ultimately show "- 1 \<le> binary_exponent (of_int n)" "binary_exponent (of_int n) \<le> 52"
    by (simp_all add: binary_exponent_def q Let_def)
qed

lemma to_float_int:
  assumes "0 < n" and "n < 2 ^ 53"
  shows "to_float (of_int n) = Number (of_int n)"
proof -
  define b where "b = binary_exponent (of_int n)"
  define k where "k = nat (52 - b)"
  have b: "- 1 \<le> b" "b \<le> 52" using binary_exponent_int [OF assms] by (simp_all add: b_def)
  have "max (b - 52) (- 1074) = b - 52" using b by simp
  then have u: "float_unit (of_int n) = 1 / 2 ^ k"
    using b by (cases "b = 52") (simp_all add: float_unit_def two_to_def b_def [symmetric] k_def)
  have "round_even (of_int n * 2 ^ k) = n * 2 ^ k" using round_even_int [of "n * 2 ^ k"] by simp
  moreover have "(of_int n :: rat) < 2 ^ 1024"
  proof -
    have "(of_int n :: rat) < of_int (2 ^ 53)" using assms(2) by (simp only: of_int_less_iff)
    then show ?thesis by simp
  qed
  ultimately show ?thesis using assms(1) by (simp add: to_float_def u)
qed

end
