(* ===== verification/Net.thy ===== *)
theory Net
  imports Traced Py_Float Executor
begin

text \<open>
  What \<open>src/deployment/unix_transport.py\<close> and \<open>executor_server.py\<close> share: the calls
  they make of the operating system, the validated monotonic clock, the deadline and the
  four-byte length header.  Each call takes the next answer of a schedule, which is
  arbitrary, and is recorded with that answer; without an answer the call raises.
\<close>

section \<open>Calls and answers\<close>

datatype net_call =
    Monotonic | Lstat string | New_Socket
  | Set_Inheritable bool | Get_Inheritable | Get_Domain | Get_Type | Get_Peercred nat
  | Set_Timeout rat | Connect string
  | Sendall string | Sendmsg string int | Send string | Recv nat | Recvmsg nat | Shutdown_Write | Close_Socket
  | Execute string "int option"

text \<open>
  A \<open>stat\<close> result is its tuple.  A control message may install descriptors with their memory
  files.  \<open>Gives_Other\<close> is any other object.
\<close>

datatype net_answer =
    Throws exn | Gives_None | Gives_Bool bool | Gives_Int int | Gives_Float pyfloat | Gives_Bytes string
  | Gives_Stat "pyval list" | Gives_Message received_message "(int \<times> memfd) list" | Gives_Other

text \<open>A deadline object, and the two variables that hold one.\<close>

record deadline =
  dd_deadline :: rat
  dd_last :: rat

datatype deadline_slot = Request_Deadline | Response_Deadline

record net_world = fd_world +
  nw_answers :: "net_answer list"
  nw_trace :: "(net_call \<times> net_answer) list"
  nw_monotonic :: "rat option"
  nw_request_deadline :: "deadline option"
  nw_response_deadline :: "deadline option"

definition sys :: "net_call \<Rightarrow> ('a net_world_scheme, net_answer) act" where
  "sys c w =
     (let a = (case nw_answers w of [] \<Rightarrow> Throws OSError | a # _ \<Rightarrow> a);
          w' = w\<lparr>nw_answers := tl (nw_answers w), nw_trace := nw_trace w @ [(c, a)]\<rparr> in
      (case a of Throws e \<Rightarrow> (Inl e, w') | _ \<Rightarrow> (Inr a, w')))"

section \<open>The monotonic clock\<close>

definition clock_number :: "net_answer \<Rightarrow> rat result" where
  "clock_number a =
     (case a of
        Gives_Int i \<Rightarrow> bnd (float_of_int i) (\<lambda>x. if i < 0 then Inl OSError else Inr x)
      | Gives_Float (Number x) \<Rightarrow> if x < 0 then Inl OSError else Inr x
      | _ \<Rightarrow> Inl OSError)"

text \<open>\<open>_MonotonicValidator.__call__\<close>\<close>

definition validated_monotonic :: "('a net_world_scheme, net_answer) act" where
  "validated_monotonic =
     act_bind (sys Monotonic) (\<lambda>a.
     act_bind (act_lift (clock_number a)) (\<lambda>normalized w.
     case nw_monotonic w of
       Some prior \<Rightarrow>
         if normalized < prior then (Inl OSError, w)
         else (Inr (Gives_Float (Number normalized)), w\<lparr>nw_monotonic := Some normalized\<rparr>)
     | None \<Rightarrow> (Inr (Gives_Float (Number normalized)), w\<lparr>nw_monotonic := Some normalized\<rparr>)))"

section \<open>Deadlines\<close>

text \<open>\<open>_Deadline._sample\<close>\<close>

definition deadline_sample :: "('a net_world_scheme, net_answer) act \<Rightarrow> rat option \<Rightarrow> ('a net_world_scheme, rat) act" where
  "deadline_sample clock prior =
     act_bind clock (\<lambda>a.
     act_bind (act_lift (clock_number a)) (\<lambda>normalized.
     case prior of
       Some p \<Rightarrow> if normalized < p then act_lift (Inl OSError) else act_lift (Inr normalized)
     | None \<Rightarrow> act_lift (Inr normalized)))"

text \<open>\<open>timeout_ms / 1000.0\<close> and the sum are rounded.\<close>

definition deadline_at :: "rat \<Rightarrow> int \<Rightarrow> rat result" where
  "deadline_at start timeout_ms =
     bnd (float_of_int timeout_ms) (\<lambda>ms.
     case to_float (ms / 1000) of
       Number seconds \<Rightarrow>
         (case to_float (start + seconds) of
            Number d \<Rightarrow> if d \<le> start then Inl OSError else Inr d
          | _ \<Rightarrow> Inl OSError)
     | _ \<Rightarrow> Inl OSError)"

definition deadline_init :: "('a net_world_scheme, net_answer) act \<Rightarrow> int \<Rightarrow> ('a net_world_scheme, deadline) act" where
  "deadline_init clock timeout_ms =
     act_bind (deadline_sample clock None) (\<lambda>start.
     act_bind (act_lift (deadline_at start timeout_ms)) (\<lambda>d.
     act_lift (Inr \<lparr>dd_deadline = d, dd_last = start\<rparr>)))"

fun deadline_of :: "deadline_slot \<Rightarrow> 'a net_world_scheme \<Rightarrow> deadline option" where
  "deadline_of Request_Deadline w = nw_request_deadline w"
| "deadline_of Response_Deadline w = nw_response_deadline w"

fun set_deadline :: "deadline_slot \<Rightarrow> deadline \<Rightarrow> 'a net_world_scheme \<Rightarrow> 'a net_world_scheme" where
  "set_deadline Request_Deadline d w = w\<lparr>nw_request_deadline := Some d\<rparr>"
| "set_deadline Response_Deadline d w = w\<lparr>nw_response_deadline := Some d\<rparr>"

text \<open>\<open>request_deadline = deadline_factory(validated_monotonic, timeout_ms)\<close>\<close>

definition start_deadline :: "deadline_slot \<Rightarrow> int \<Rightarrow> ('a net_world_scheme, unit) act" where
  "start_deadline slot timeout_ms =
     act_bind (deadline_init validated_monotonic timeout_ms) (\<lambda>d w. (Inr (), set_deadline slot d w))"

definition remaining :: "deadline_slot \<Rightarrow> ('a net_world_scheme, rat) act" where
  "remaining slot w =
     (case deadline_of slot w of
        None \<Rightarrow> (Inl AttributeError, w)
      | Some d \<Rightarrow>
          act_bind (deadline_sample validated_monotonic (Some (dd_last d))) (\<lambda>current w.
          let w' = set_deadline slot (d\<lparr>dd_last := current\<rparr>) w in
          (case to_float (dd_deadline d - current) of
             Number r \<Rightarrow> if r \<le> 0 then (Inl TimeoutError, w') else (Inr r, w')
           | _ \<Rightarrow> (Inl TimeoutError, w'))) w)"

text \<open>\<open>client.settimeout(deadline.remaining())\<close>\<close>

definition set_timeout :: "deadline_slot \<Rightarrow> ('a net_world_scheme, unit) act" where
  "set_timeout slot =
     act_bind (remaining slot) (\<lambda>r.
     act_bind (sys (Set_Timeout r)) (\<lambda>_. act_lift (Inr ())))"

section \<open>Bytes\<close>

text \<open>\<open>n.to_bytes(4, "big", signed=False)\<close> and \<open>int.from_bytes(b, "big", signed=False)\<close>\<close>

definition byte :: "nat \<Rightarrow> char" where "byte n = char_of (n mod 256)"

definition to_bytes4 :: "nat \<Rightarrow> string result" where
  "to_bytes4 n =
     (if n < 2 ^ 32 then Inr [byte (n div 2 ^ 24), byte (n div 2 ^ 16), byte (n div 2 ^ 8), byte n]
      else Inl OverflowError)"

definition from_bytes :: "string \<Rightarrow> nat" where
  "from_bytes bs = foldl (\<lambda>n b. n * 256 + of_char b) 0 bs"

text \<open>
  \<open>struct.Struct("=iII").unpack\<close>: a signed and two unsigned 32-bit integers in the byte order
  of the host, little endian when the flag is set.
\<close>

definition PEER_CREDENTIALS_SIZE :: nat where "PEER_CREDENTIALS_SIZE = 12"

definition word_at :: "bool \<Rightarrow> nat \<Rightarrow> string \<Rightarrow> 32 word" where
  "word_at little i bs =
     (let b = take 4 (drop i bs) in of_nat (from_bytes (if little then rev b else b)))"

definition peer_unpack :: "bool \<Rightarrow> string \<Rightarrow> int \<times> int \<times> int" where
  "peer_unpack little bs = (sint (word_at little 0 bs), uint (word_at little 4 bs), uint (word_at little 8 bs))"

section \<open>The platform\<close>

definition AF_UNIX :: int where "AF_UNIX = 1"
definition SOCK_STREAM :: int where "SOCK_STREAM = 1"
definition MAX_IDENTITY_VALUE :: int where "MAX_IDENTITY_VALUE = 2 ^ 32 - 2"
definition MAX_TIMEOUT_MS :: int where "MAX_TIMEOUT_MS = 3000"

record platform =
  pf_so_domain :: bool
  pf_so_peercred :: bool
  pf_little_endian :: bool

definition configuration_integer :: "pyval \<Rightarrow> int \<Rightarrow> int result" where
  "configuration_integer v maximum =
     (case v of PInt i \<Rightarrow> if 0 \<le> i \<and> i \<le> maximum then Inr i else Inl TypeError | _ \<Rightarrow> Inl TypeError)"

definition configuration_timeout :: "pyval \<Rightarrow> int result" where
  "configuration_timeout v =
     (case v of PInt i \<Rightarrow> if 1 \<le> i \<and> i \<le> MAX_TIMEOUT_MS then Inr i else Inl TypeError | _ \<Rightarrow> Inl TypeError)"

section \<open>The calls as a recorder\<close>

definition answer_given :: "net_answer result \<Rightarrow> net_answer" where
  "answer_given r = (case r of Inl e \<Rightarrow> Throws e | Inr a \<Rightarrow> a)"

lemma answer_given_simps [simp]: "answer_given (Inl e) = Throws e" "answer_given (Inr a) = a"
  by (simp_all add: answer_given_def)

definition answer_returned :: "net_answer \<Rightarrow> bool" where
  "answer_returned a \<longleftrightarrow> (case a of Throws _ \<Rightarrow> False | _ \<Rightarrow> True)"

lemma not_returned [simp]: "\<not> answer_returned (Throws e)"
  by (simp add: answer_returned_def)

interpretation net: recorder nw_trace sys answer_given answer_returned
  by unfold_locales (auto simp: sys_def answer_returned_def Let_def split: list.splits net_answer.splits)

section \<open>What the calls moved\<close>

text \<open>Clock readings and timeouts move no data.\<close>

fun timing_call :: "net_call \<Rightarrow> bool" where
  "timing_call Monotonic = True"
| "timing_call (Set_Timeout r) = (0 < r)"
| "timing_call _ = False"

definition timing :: "(net_call \<times> net_answer) list \<Rightarrow> bool" where
  "timing tr \<longleftrightarrow> list_all (\<lambda>(c, a). timing_call c) tr"

lemma timing_simps [simp]:
  "timing []" "timing (x # tr) \<longleftrightarrow> timing_call (fst x) \<and> timing tr" "timing (tr @ tr') \<longleftrightarrow> timing tr \<and> timing tr'"
  by (simp_all add: timing_def split: prod.splits)

lemma nw_trace_set_deadline [simp]: "nw_trace (set_deadline slot d w) = nw_trace w"
  by (cases slot) simp_all

lemma traced_monotonic: "traced nw_trace validated_monotonic (\<lambda>_. timing) (\<lambda>_. timing)"
  unfolding validated_monotonic_def
proof (rule net.traced_call_bind)
  fix a
  show "traced nw_trace (act_bind (act_lift (clock_number a)) (\<lambda>normalized w. case nw_monotonic w of
      None \<Rightarrow> (Inr (Gives_Float (Number normalized)), w\<lparr>nw_monotonic := Some normalized\<rparr>)
    | Some prior \<Rightarrow> if normalized < prior then (Inl OSError, w)
        else (Inr (Gives_Float (Number normalized)), w\<lparr>nw_monotonic := Some normalized\<rparr>)))
    (\<lambda>y tr. timing ((Monotonic, answer_given (Inr a)) # tr)) (\<lambda>e tr. timing ((Monotonic, answer_given (Inr a)) # tr))"
    by (rule tracedI) (auto simp: act_bind_def split: sum.splits option.splits if_splits)
qed simp

lemma traced_sample: "traced nw_trace (deadline_sample validated_monotonic prior) (\<lambda>_. timing) (\<lambda>_. timing)"
  unfolding deadline_sample_def
  by (rule traced_bind [OF traced_monotonic], simp, rule traced_bind [OF traced_lift [where Q = "\<lambda>_ tr. tr = []" and E = "\<lambda>_ tr. tr = []"]])
    (auto intro: traced_lift split: option.splits)

lemma traced_start [traced_rules]: "traced nw_trace (start_deadline slot ms) (\<lambda>_. timing) (\<lambda>_. timing)"
proof -
  have "traced nw_trace (deadline_init validated_monotonic ms :: ('a net_world_scheme, deadline) act) (\<lambda>_. timing) (\<lambda>_. timing)"
    unfolding deadline_init_def
    by (rule traced_bind [OF traced_sample], simp, rule traced_bind [OF traced_lift [where Q = "\<lambda>_ tr. tr = []" and E = "\<lambda>_ tr. tr = []"]])
      (auto intro: traced_lift)
  then show ?thesis unfolding start_deadline_def
    by (rule traced_bind) (auto intro: traced_update)
qed

lemma traced_remaining [traced_rules]:
  "traced nw_trace (remaining slot) (\<lambda>r tr. timing tr \<and> 0 < r) (\<lambda>_. timing)"
proof (rule tracedI)
  fix w :: "'a net_world_scheme" and r w'
  assume run: "remaining slot w = (r, w')"
  show "\<exists>tr. nw_trace w' = nw_trace w @ tr \<and> (case r of Inr x \<Rightarrow> timing tr \<and> 0 < x | Inl e \<Rightarrow> timing tr)"
  proof (cases "deadline_of slot w")
    case None
    then show ?thesis using run by (auto simp: remaining_def)
  next
    case (Some d)
    obtain s w1 where s: "deadline_sample validated_monotonic (Some (dd_last d)) w = (s, w1)" by force
    from traced_sample this obtain tr where tr: "nw_trace w1 = nw_trace w @ tr" "timing tr" by (cases rule: tracedE) auto
    with run Some s show ?thesis
      by (cases s) (auto simp: remaining_def act_bind_def Let_def split: pyfloat.splits if_splits)
  qed
qed

lemma traced_set_timeout [traced_rules]: "traced nw_trace (set_timeout slot) (\<lambda>_. timing) (\<lambda>_. timing)"
  unfolding set_timeout_def
  by (rule traced_bind [OF traced_remaining], simp, rule net.traced_call_bind) (auto intro: traced_lift)

text \<open>The bytes written, the bytes read, the writing calls.\<close>

fun wrote :: "net_call \<times> net_answer \<Rightarrow> string" where
  "wrote (Sendall b, a) = (case a of Throws _ \<Rightarrow> [] | _ \<Rightarrow> b)"
| "wrote (Sendmsg b fd, Gives_Int n) = take (nat n) b"
| "wrote (Send b, Gives_Int n) = take (nat n) b"
| "wrote _ = []"

fun read :: "net_call \<times> net_answer \<Rightarrow> string" where
  "read (Recv n, Gives_Bytes b) = b"
| "read (Recvmsg n, Gives_Message m files) = rm_message m"
| "read _ = []"

fun is_write :: "net_call \<Rightarrow> bool" where
  "is_write (Sendall b) = True" | "is_write (Sendmsg b fd) = True" | "is_write (Send b) = True" | "is_write _ = False"

fun is_read :: "net_call \<Rightarrow> bool" where
  "is_read (Recv n) = True" | "is_read (Recvmsg n) = True" | "is_read _ = False"

definition written :: "(net_call \<times> net_answer) list \<Rightarrow> string" where "written tr = concat (map wrote tr)"
definition received :: "(net_call \<times> net_answer) list \<Rightarrow> string" where "received tr = concat (map read tr)"

definition writes :: "(net_call \<times> net_answer) list \<Rightarrow> nat" where "writes tr = length (filter (is_write \<circ> fst) tr)"
definition reads :: "(net_call \<times> net_answer) list \<Rightarrow> nat" where "reads tr = length (filter (is_read \<circ> fst) tr)"

lemma moved_simps [simp]:
  "written [] = []" "written (x # tr) = wrote x @ written tr" "written (tr @ tr') = written tr @ written tr'"
  "received [] = []" "received (x # tr) = read x @ received tr" "received (tr @ tr') = received tr @ received tr'"
  "writes [] = 0" "writes (x # tr) = (if is_write (fst x) then 1 else 0) + writes tr" "writes (tr @ tr') = writes tr + writes tr'"
  "reads [] = 0" "reads (x # tr) = (if is_read (fst x) then 1 else 0) + reads tr" "reads (tr @ tr') = reads tr + reads tr'"
  by (simp_all add: written_def received_def writes_def reads_def)

lemma wrote_idle [simp]: "\<not> is_write c \<Longrightarrow> wrote (c, a) = []"
  by (cases "(c, a)" rule: wrote.cases) simp_all

lemma read_idle [simp]: "\<not> is_read c \<Longrightarrow> read (c, a) = []"
  by (cases "(c, a)" rule: read.cases) simp_all

lemma timing_idle: "timing_call c \<Longrightarrow> \<not> is_write c \<and> \<not> is_read c"
  by (cases c) simp_all

lemma timing_moved [simp]:
  assumes "timing tr"
  shows "written tr = []" "received tr = []" "writes tr = 0" "reads tr = 0"
  using assms by (induction tr) (auto dest: timing_idle)

section \<open>Frames\<close>

text \<open>What one message looks like on the wire: its length in four bytes, then its bytes.\<close>

definition frame :: "string \<Rightarrow> string" where
  "frame b = [byte (length b div 2 ^ 24), byte (length b div 2 ^ 16), byte (length b div 2 ^ 8), byte (length b)] @ b"

lemma of_char_byte [simp]: "(of_char (byte n) :: nat) = n mod 256"
  by (simp add: byte_def)

lemma byte_of_char: "byte (256 * k + of_char c) = c"
  by (simp add: byte_def)

lemma to_bytes4_Inr:
  assumes "to_bytes4 n = Inr h"
  shows "length h = 4" "from_bytes h = n"
proof -
  have n: "n < 2 ^ 32" and h: "h = [byte (n div 2 ^ 24), byte (n div 2 ^ 16), byte (n div 2 ^ 8), byte n]"
    using assms by (auto simp: to_bytes4_def split: if_splits)
  then show "length h = 4" by simp
  have "n div 16777216 mod 256 = n div 16777216" using n by simp
  moreover have "n div 65536 = n div 16777216 * 256 + n div 65536 mod 256"
    using div_mult2_eq [of n 65536 256] by simp
  moreover have "n div 256 = n div 65536 * 256 + n div 256 mod 256"
    using div_mult2_eq [of n 256 256] by simp
  ultimately show "from_bytes h = n" by (simp add: h from_bytes_def)
qed

lemma frame_eq: "to_bytes4 (length b) = Inr h \<Longrightarrow> h @ b = frame b"
  by (auto simp: to_bytes4_def frame_def split: if_splits)

text \<open>A header read back gives the frame.\<close>

lemma header_frame:
  assumes "length h = 4" and "from_bytes h = length b"
  shows "h @ b = frame b"
proof -
  obtain a1 a2 a3 a4 where h: "h = [a1, a2, a3, a4]"
    using assms(1) by (auto simp: length_Suc_conv numeral_eq_Suc)
  have n: "length b = ((of_char a1 * 256 + of_char a2) * 256 + of_char a3) * 256 + of_char a4"
    using assms(2) by (simp add: h from_bytes_def)
  have dv: "(k * 256 + of_char c) div 256 = k" for k :: nat and c by simp
  have "length b div 256 = (of_char a1 * 256 + of_char a2) * 256 + of_char a3" by (simp only: n dv)
  moreover from this have "length b div 65536 = of_char a1 * 256 + of_char a2"
    using div_mult2_eq [of "length b" 256 256] by (simp only: dv) simp
  moreover from this have "length b div 16777216 = of_char a1"
    using div_mult2_eq [of "length b" 65536 256] by (simp only: dv) simp
  ultimately have "length b div 2 ^ 8 = (of_char a1 * 256 + of_char a2) * 256 + of_char a3"
    "length b div 2 ^ 16 = of_char a1 * 256 + of_char a2" "length b div 2 ^ 24 = of_char a1"
    by simp_all
  moreover have "byte (of_char a1) = a1" "byte (of_char a1 * 256 + of_char a2) = a2"
    "byte ((of_char a1 * 256 + of_char a2) * 256 + of_char a3) = a3" "byte (length b) = a4"
    using byte_of_char [of 0 a1] byte_of_char [of "of_char a1" a2] byte_of_char [of "of_char a1 * 256 + of_char a2" a3]
      byte_of_char [of "(of_char a1 * 256 + of_char a2) * 256 + of_char a3" a4]
    by (simp_all only: n mult.commute [of _ "256 :: nat"] mult_0_right add_0)
  ultimately show ?thesis by (simp add: frame_def h)
qed

text \<open>A frame determines its message, so two ends that saw the same bytes saw the same message.\<close>

lemma frame_inject [simp]: "frame a = frame b \<longleftrightarrow> a = b"
  by (auto simp: frame_def)

section \<open>What the calls leave alone\<close>

text \<open>The calls change the network's part of the world and nothing that extends it.\<close>

definition same_rest :: "'a net_world_scheme \<Rightarrow> 'a net_world_scheme \<Rightarrow> bool" where
  "same_rest w w' \<longleftrightarrow> net_world.more w' = net_world.more w"

interpretation rest: step_order same_rest
  by unfold_locales (simp_all add: same_rest_def)

lemma same_rest_updates [simp]:
  "same_rest w (set_deadline slot d w') \<longleftrightarrow> same_rest w w'"
  "same_rest w (w'\<lparr>nw_monotonic := m\<rparr>) \<longleftrightarrow> same_rest w w'"
  by (cases slot; simp add: same_rest_def) (simp add: same_rest_def)

lemma rest_sys: "moves same_rest (sys c)"
  by (auto simp: moves_def same_rest_def sys_def Let_def split: list.splits net_answer.splits)

lemma rest_monotonic: "moves same_rest validated_monotonic"
  unfolding validated_monotonic_def
  by (intro rest.combinators rest_sys) (auto simp: moves_def rest.refl split: option.splits)

lemma rest_sample: "moves same_rest (deadline_sample validated_monotonic prior)"
  unfolding deadline_sample_def by (intro rest.combinators rest_monotonic) (auto intro: rest.combinators split: option.splits)

lemma rest_start: "moves same_rest (start_deadline slot ms)"
  unfolding start_deadline_def deadline_init_def
  by (intro rest.combinators rest_sample) (simp add: moves_def rest.refl)

lemma rest_remaining: "moves same_rest (remaining slot)"
  unfolding moves_def
proof
  fix w :: "'a net_world_scheme"
  show "same_rest w (snd (remaining slot w))"
  proof (cases "deadline_of slot w")
    case (Some d)
    obtain s w1 where s: "deadline_sample validated_monotonic (Some (dd_last d)) w = (s, w1)" by force
    then have "same_rest w w1" by (rule movesD [OF rest_sample])
    with Some s show ?thesis by (cases s) (simp_all add: remaining_def act_bind_def Let_def split: pyfloat.splits)
  qed (simp add: remaining_def rest.refl)
qed

lemma rest_set_timeout: "moves same_rest (set_timeout slot)"
  unfolding set_timeout_def by (intro rest.combinators rest_remaining rest_sys)

lemmas rest_steps = rest_sys rest_start rest_remaining rest_set_timeout

end
