(* ===== verification/Transport.thy ===== *)
theory Transport
  imports Net
begin

unbundle bit_operations_syntax

text \<open>
  \<open>src/deployment/unix_transport.py\<close>: the broker's end of the Unix socket to the executor.  One
  exchange writes one length-prefixed request and reads one length-prefixed response.
\<close>

section \<open>Constants\<close>

definition PRODUCTION_EXECUTOR_SOCKET_PATH :: string where
  "PRODUCTION_EXECUTOR_SOCKET_PATH = ''/run/omnilyzer/deployment/executor.sock''"

definition RESPONSE_TIMEOUT_MS :: int where "RESPONSE_TIMEOUT_MS = 600000"
definition MAX_UNIX_PATH_BYTES :: nat where "MAX_UNIX_PATH_BYTES = 107"

definition SYSTEMD_LISTENER_CREDENTIALS :: "int \<times> int \<times> int" where "SYSTEMD_LISTENER_CREDENTIALS = (1, 0, 0)"
definition SYSTEMD_EXECUTOR_EXPECTED_IDS :: "int \<times> int \<times> int" where
  "SYSTEMD_EXECUTOR_EXPECTED_IDS = (991, 991, 993)"

definition SYSTEMD_EXECUTOR_PATHS :: "string list" where
  "SYSTEMD_EXECUTOR_PATHS =
     [PRODUCTION_EXECUTOR_SOCKET_PATH, ''/run/omnilyzer/deployment/analytics-executor.sock'']"

section \<open>The socket path\<close>

text \<open>\<open>posixpath.normpath\<close>\<close>

fun norm_components :: "bool \<Rightarrow> string list \<Rightarrow> string list \<Rightarrow> string list" where
  "norm_components rooted new [] = new"
| "norm_components rooted new (c # cs) =
     (if c = [] \<or> c = ''.'' then norm_components rooted new cs
      else if c \<noteq> ''..'' \<or> (\<not> rooted \<and> new = []) \<or> (new \<noteq> [] \<and> last new = ''..'')
      then norm_components rooted (new @ [c]) cs
      else norm_components rooted (butlast new) cs)"

fun join_with :: "string \<Rightarrow> string list \<Rightarrow> string" where
  "join_with sep [] = []"
| "join_with sep [x] = x"
| "join_with sep (x # xs) = x @ sep @ join_with sep xs"

definition normpath :: "string \<Rightarrow> string" where
  "normpath p =
     (let slashes = (if \<not> starts_with ''/'' p then 0
                     else if starts_with ''//'' p \<and> \<not> starts_with ''///'' p then 2 else 1 :: nat);
          q = replicate slashes (CHR ''/'') @ join_with ''/'' (norm_components (0 < slashes) [] (split_on (CHR ''/'') p)) in
      if q = [] then ''.'' else q)"

text \<open>\<open>os.fsencode\<close> of a text whose characters are below 256\<close>

definition fsencode :: "string \<Rightarrow> string" where
  "fsencode s =
     concat (map (\<lambda>c. let n = of_char c in if n < 128 then [c] else [char_of (192 + n div 64), char_of (128 + n mod 64 :: nat)]) s)"

definition validate_path :: "pyval \<Rightarrow> (string \<times> string) result" where
  "validate_path path =
     (case path of
        PStr p \<Rightarrow>
          if \<not> starts_with ''/'' p \<or> starts_with ''//'' p then Inl TypeError
          else if CHR 0x00 \<in> set p \<or> normpath p \<noteq> p then Inl TypeError
          else
            let components = tl (split_on (CHR ''/'') p); encoded = fsencode p in
            if components = [] \<or> list_ex (\<lambda>c. c = [] \<or> c = ''.'' \<or> c = ''..'') components then Inl TypeError
            else if encoded = [] \<or> CHR 0x00 \<in> set encoded \<or> MAX_UNIX_PATH_BYTES < length encoded then Inl TypeError
            else Inr (p, encoded)
      | _ \<Rightarrow> Inl TypeError)"

text \<open>The identity (device, inode) of a socket with the exact mode, link count and owners.\<close>

definition metadata :: "net_answer \<Rightarrow> int \<Rightarrow> int \<Rightarrow> (int \<times> int) result" where
  "metadata info owner_uid group_gid =
     (case info of
        Gives_Stat (PInt mode # PInt inode # PInt device # PInt links # PInt uid # PInt gid # _) \<Rightarrow>
          if mode AND 0xF000 \<noteq> 0xC000 \<or> mode AND 0xFFF \<noteq> 0x1B0 \<or> links \<noteq> 1 \<or> uid \<noteq> owner_uid \<or> gid \<noteq> group_gid \<or>
             inode < 0 \<or> device < 0
          then Inl OSError else Inr (device, inode)
      | _ \<Rightarrow> Inl OSError)"

section \<open>The transport\<close>

record transport =
  tr_uid :: int
  tr_gid :: int
  tr_socket_gid :: int
  tr_timeout_ms :: int
  tr_path :: string

definition transport_init :: "pyval \<Rightarrow> pyval \<Rightarrow> pyval \<Rightarrow> pyval \<Rightarrow> transport result" where
  "transport_init expected_executor_uid expected_executor_gid expected_socket_group_gid timeout_ms =
     bnd (configuration_integer expected_executor_uid MAX_IDENTITY_VALUE) (\<lambda>uid.
     bnd (configuration_integer expected_executor_gid MAX_IDENTITY_VALUE) (\<lambda>gid.
     bnd (configuration_integer expected_socket_group_gid MAX_IDENTITY_VALUE) (\<lambda>socket_gid.
     bnd (configuration_timeout timeout_ms) (\<lambda>timeout.
     bnd (validate_path (PStr PRODUCTION_EXECUTOR_SOCKET_PATH)) (\<lambda>(path, _).
       Inr \<lparr>tr_uid = uid, tr_gid = gid, tr_socket_gid = socket_gid, tr_timeout_ms = timeout, tr_path = path\<rparr>)))))"

text \<open>The variable \<open>client\<close>: whether a socket was made.\<close>

record client_world = net_world +
  cw_client :: bool

definition peer_trusted :: "transport \<Rightarrow> int \<times> int \<times> int \<Rightarrow> bool" where
  "peer_trusted t peer \<longleftrightarrow>
     (case peer of (pid, uid, gid) \<Rightarrow> 0 < pid \<and> uid = tr_uid t \<and> gid = tr_gid t) \<or>
     (peer = SYSTEMD_LISTENER_CREDENTIALS \<and> (tr_uid t, tr_gid t, tr_socket_gid t) = SYSTEMD_EXECUTOR_EXPECTED_IDS \<and>
      tr_path t \<in> set SYSTEMD_EXECUTOR_PATHS)"

text \<open>The socket path, the new socket and its kind.\<close>

definition open_socket :: "platform \<Rightarrow> transport \<Rightarrow> (client_world, int \<times> int) act" where
  "open_socket pf t =
     act_bind (start_deadline Request_Deadline (tr_timeout_ms t)) (\<lambda>_.
     act_bind (sys (Lstat (tr_path t))) (\<lambda>before.
     act_bind (act_lift (metadata before (tr_uid t) (tr_socket_gid t))) (\<lambda>before_identity.
     act_bind (remaining Request_Deadline) (\<lambda>_.
     act_bind (sys New_Socket) (\<lambda>_.
     act_bind (\<lambda>w. (Inr (), w\<lparr>cw_client := True\<rparr>)) (\<lambda>_.
     act_bind (remaining Request_Deadline) (\<lambda>_.
     act_bind (sys (Set_Inheritable False)) (\<lambda>_.
     act_bind (sys Get_Inheritable) (\<lambda>inheritable.
     if inheritable \<noteq> Gives_Bool False then act_lift (Inl OSError)
     else if \<not> pf_so_domain pf \<or> \<not> pf_so_peercred pf then act_lift (Inl OSError)
     else
     act_bind (sys Get_Domain) (\<lambda>domain.
     if domain \<noteq> Gives_Int AF_UNIX then act_lift (Inl OSError)
     else
     act_bind (sys Get_Type) (\<lambda>kind.
     if kind \<noteq> Gives_Int SOCK_STREAM then act_lift (Inl OSError)
     else act_lift (Inr before_identity))))))))))))"

definition connect_peer :: "platform \<Rightarrow> transport \<Rightarrow> int \<times> int \<Rightarrow> (client_world, unit) act" where
  "connect_peer pf t before_identity =
     act_bind (set_timeout Request_Deadline) (\<lambda>_.
     act_bind (sys (Connect (tr_path t))) (\<lambda>_.
     act_bind (set_timeout Request_Deadline) (\<lambda>_.
     act_bind (sys (Get_Peercred PEER_CREDENTIALS_SIZE)) (\<lambda>credentials.
     case credentials of
       Gives_Bytes c \<Rightarrow>
         if length c \<noteq> PEER_CREDENTIALS_SIZE then act_lift (Inl OSError)
         else if \<not> peer_trusted t (peer_unpack (pf_little_endian pf) c) then act_lift (Inl OSError)
         else
         act_bind (sys (Lstat (tr_path t))) (\<lambda>after.
         act_bind (act_lift (metadata after (tr_uid t) (tr_socket_gid t))) (\<lambda>after_identity.
         if after_identity \<noteq> before_identity then act_lift (Inl OSError) else act_lift (Inr ())))
     | _ \<Rightarrow> act_lift (Inl OSError)))))"

text \<open>What \<open>send_sealed_header\<close> reads of the result of \<open>sendmsg\<close>.\<close>

definition sent_bytes :: "net_answer \<Rightarrow> nat" where
  "sent_bytes a = (case a of Gives_Int n \<Rightarrow> nat n | _ \<Rightarrow> 0)"

definition send_header_with :: "string \<Rightarrow> int \<Rightarrow> ('a net_world_scheme, unit) act" where
  "send_header_with header fd w =
     (if length header \<noteq> 4 \<or> fd < 0 then (send_sealed_header header fd (Inr 0), w)
      else case sys (Sendmsg header fd) w of
        (Inl e, w') \<Rightarrow> (send_sealed_header header fd (Inl e), w')
      | (Inr a, w') \<Rightarrow> (send_sealed_header header fd (Inr (sent_bytes a)), w'))"

definition write_request :: "string \<Rightarrow> int option \<Rightarrow> (client_world, unit) act" where
  "write_request raw credential_fd =
     act_bind (act_lift (to_bytes4 (length raw))) (\<lambda>header.
     act_bind (set_timeout Request_Deadline) (\<lambda>_.
     act_bind (case credential_fd of
                 None \<Rightarrow> act_bind (sys (Sendall header)) (\<lambda>_. act_lift (Inr ()))
               | Some fd \<Rightarrow> send_header_with header fd) (\<lambda>_.
     act_bind (set_timeout Request_Deadline) (\<lambda>_.
     act_bind (sys (Sendall raw)) (\<lambda>_.
     act_bind (set_timeout Request_Deadline) (\<lambda>_.
     act_bind (sys Shutdown_Write) (\<lambda>_.
     act_bind (remaining Request_Deadline) (\<lambda>_. act_lift (Inr ())))))))))"

text \<open>\<open>UnixExecutorTransport._receive_exact\<close>\<close>

function receive_pieces :: "nat \<Rightarrow> string list \<Rightarrow> ('a net_world_scheme, string) act" where
  "receive_pieces n pieces w =
     (if n = 0 then (Inr (concat pieces), w)
      else
      act_bind (act_bind (set_timeout Response_Deadline) (\<lambda>_. sys (Recv n))) (\<lambda>a w1.
        case a of
          Gives_Bytes piece \<Rightarrow>
            if piece = [] \<or> n < length piece then (Inl OSError, w1)
            else receive_pieces (n - length piece) (pieces @ [piece]) w1
        | _ \<Rightarrow> (Inl OSError, w1)) w)"
  by pat_completeness auto
termination
  by (relation "measure (\<lambda>(n, pieces, w). n)") auto

declare receive_pieces.simps [simp del]

definition receive_exact :: "nat \<Rightarrow> ('a net_world_scheme, string) act" where
  "receive_exact n = receive_pieces n []"

definition read_response :: "(client_world, string) act" where
  "read_response =
     act_bind (start_deadline Response_Deadline RESPONSE_TIMEOUT_MS) (\<lambda>_.
     act_bind (receive_exact 4) (\<lambda>response_header.
     let response_length = from_bytes response_header in
     if MAX_EXECUTOR_RESPONSE_BYTES < response_length then act_lift (Inl OSError)
     else
     act_bind (receive_exact response_length) (\<lambda>response.
     act_bind (set_timeout Response_Deadline) (\<lambda>_.
     act_bind (sys (Recv 1)) (\<lambda>trailing.
     if trailing \<noteq> Gives_Bytes [] then act_lift (Inl OSError) else act_lift (Inr response))))))"

text \<open>The \<open>try\<close> block of \<open>_send\<close>.\<close>

definition exchange :: "platform \<Rightarrow> transport \<Rightarrow> string \<Rightarrow> int option \<Rightarrow> (client_world, string) act" where
  "exchange pf t raw credential_fd =
     act_bind (open_socket pf t) (\<lambda>before_identity.
     act_bind (connect_peer pf t before_identity) (\<lambda>_.
     act_bind (write_request raw credential_fd) (\<lambda>_.
     read_response)))"

definition cleanup_slot :: "'a net_world_scheme \<Rightarrow> deadline_slot option" where
  "cleanup_slot w =
     (if nw_response_deadline w \<noteq> None then Some Response_Deadline
      else if nw_request_deadline w \<noteq> None then Some Request_Deadline else None)"

definition check_cleanup :: "deadline_slot option \<Rightarrow> ('a net_world_scheme, unit) act" where
  "check_cleanup slot =
     (case slot of None \<Rightarrow> act_lift (Inr ()) | Some s \<Rightarrow> act_bind (remaining s) (\<lambda>_. act_lift (Inr ())))"

definition close_client :: "outcome \<times> client_world \<Rightarrow> outcome \<times> client_world" where
  "close_client s =
     (if cw_client (snd s) then
        let slot = cleanup_slot (snd s) in
        defer_error note_last (check_cleanup slot) (defer_error note_last (sys Close_Socket) (defer_error note_last (check_cleanup slot) s))
      else s)"

definition transport_send_with :: "platform \<Rightarrow> transport \<Rightarrow> reply \<Rightarrow> int option \<Rightarrow> (client_world, string) act" where
  "transport_send_with pf t canonical_request credential_fd w =
     (case canonical_request of
        Not_Bytes \<Rightarrow> (Inl ExecutorTransportUnavailableError, w)
      | Bytes raw \<Rightarrow>
          if raw = [] \<or> MAX_CANONICAL_REQUEST_BYTES < length raw then (Inl ExecutorTransportUnavailableError, w)
          else
            (case exchange pf t raw credential_fd
               (w\<lparr>nw_monotonic := None, nw_request_deadline := None, nw_response_deadline := None, cw_client := False\<rparr>) of
               (r, w1) \<Rightarrow>
                 (case close_client (case r of Inl e \<Rightarrow> note_last e no_error | Inr _ \<Rightarrow> no_error, w1) of
                    (out, w2) \<Rightarrow>
                      (case oc_control out of
                         Some e \<Rightarrow> (Inl e, w2)
                       | None \<Rightarrow>
                           (if oc_failed out then (Inl ExecutorTransportUnavailableError, w2)
                            else case r of
                              Inr response \<Rightarrow> (Inr response, w2)
                            | Inl _ \<Rightarrow> (Inl ExecutorTransportUnavailableError, w2))))))"

definition transport_send :: "platform \<Rightarrow> transport \<Rightarrow> reply \<Rightarrow> (client_world, string) act" where
  "transport_send pf t canonical_request = transport_send_with pf t canonical_request None"

definition transport_send_private :: "platform \<Rightarrow> transport \<Rightarrow> string \<Rightarrow> int \<Rightarrow> (client_world, string) act" where
  "transport_send_private pf t canonical_request credential_fd =
     act_bind
       (act_catch
         (act_bind (act_lift (parse_canonical_request canonical_request)) (\<lambda>request.
          act_bind (read_sealed_credential credential_fd canonical_request (xr_exact_image_reference request) None ''canary'')
            (\<lambda>_. act_lift (Inr ()))))
         (\<lambda>e. act_lift (Inl (if is_Exception e then ExecutorTransportUnavailableError else e)))) (\<lambda>_.
     transport_send_with pf t (Bytes canonical_request) (Some credential_fd))"

end
