(* ===== verification/Server.thy ===== *)
theory Server
  imports Transport
begin

unbundle bit_operations_syntax

text \<open>
  \<open>src/deployment/executor_server.py\<close>: the executor's end of the Unix socket.  The handler
  authenticates the peer of one connected socket, reads one length-prefixed request, has it
  executed and writes one length-prefixed response.
\<close>

section \<open>The executor object\<close>

definition ordinary_execute :: "(string \<times> descriptor) list list option \<Rightarrow> code_shape result" where
  "ordinary_execute executor = ordinary_bound_method executor ''execute'' [''canonical_request''] []"

definition ordinary_private_execute :: "(string \<times> descriptor) list list option \<Rightarrow> code_shape result" where
  "ordinary_private_execute executor =
     (case executor of
        None \<Rightarrow> Inl TypeError
      | Some hierarchy \<Rightarrow>
          (case find_descriptor hierarchy ''execute_private'' of
             Some (Plain_Function code) \<Rightarrow>
               if cs_argcount code \<noteq> 2 \<or> cs_kwonlyargcount code \<noteq> 1 \<or>
                  drop 1 (take 3 (cs_varnames code)) \<noteq> [''canonical_request'', ''credential_fd''] \<or>
                  cs_has_defaults code \<or> cs_has_kwdefaults code \<or> cs_flags code AND DISALLOWED_FLAGS \<noteq> 0
               then Inl TypeError else Inr code
           | _ \<Rightarrow> Inl TypeError))"

record 'w handler =
  hd_execute :: "string \<Rightarrow> int option \<Rightarrow> ('w exec_world, reply) act"
  hd_uid :: int
  hd_gid :: int
  hd_timeout_ms :: int
  hd_private :: bool

definition handler_init ::
    "(string \<times> descriptor) list list option \<Rightarrow> (string \<Rightarrow> int option \<Rightarrow> ('w exec_world, reply) act) \<Rightarrow>
     pyval \<Rightarrow> pyval \<Rightarrow> pyval \<Rightarrow> pyval \<Rightarrow> 'w handler result" where
  "handler_init executor execute expected_broker_uid expected_broker_gid timeout_ms private_registry_transfer =
     (case private_registry_transfer of
        PBool private \<Rightarrow>
          bnd (if private then ordinary_private_execute executor else ordinary_execute executor) (\<lambda>_.
          bnd (configuration_integer expected_broker_uid MAX_IDENTITY_VALUE) (\<lambda>uid.
          bnd (configuration_integer expected_broker_gid MAX_IDENTITY_VALUE) (\<lambda>gid.
          bnd (configuration_timeout timeout_ms) (\<lambda>timeout.
            Inr \<lparr>hd_execute = execute, hd_uid = uid, hd_gid = gid, hd_timeout_ms = timeout, hd_private = private\<rparr>))))
      | _ \<Rightarrow> Inl TypeError)"

section \<open>The world of the handler\<close>

text \<open>
  The executor's part, the gate of this handler, and the local variables of \<open>handle\<close> that its \<open>finally\<close>
  block reads.
\<close>

record 'w server_world = net_world +
  sv_env :: 'w
  sv_active :: bool
  sv_private :: "(int \<times> string) option"
  sv_log :: "string list"
  sv_handling :: bool
  sv_entered :: bool
  sv_close :: bool
  sv_request_complete :: bool
  sv_credential_fd :: "int option"
  sv_phase :: string

definition on_executor :: "('w exec_world, 'a) act \<Rightarrow> ('w server_world, 'a) act" where
  "on_executor m w =
     (case m \<lparr>fw_files = fw_files w, fw_next = fw_next w, fw_faults = fw_faults w, fw_short_writes = fw_short_writes w,
              fw_clock = fw_clock w, fw_ticks = fw_ticks w, xw_env = sv_env w, xw_active = sv_active w,
              xw_private = sv_private w, xw_log = sv_log w\<rparr> of
        (r, x) \<Rightarrow>
          (r, w\<lparr>fw_files := fw_files x, fw_next := fw_next x, fw_faults := fw_faults x, fw_short_writes := fw_short_writes x,
                fw_clock := fw_clock x, fw_ticks := fw_ticks x, sv_env := xw_env x, sv_active := xw_active x,
                sv_private := xw_private x, sv_log := xw_log x\<rparr>))"

text \<open>The attributes of the connection object, each with whether it is callable.\<close>

type_synonym connection = "(string \<times> bool) list"

definition CONNECTION_OPERATIONS :: "string list" where
  "CONNECTION_OPERATIONS = [''get_inheritable'', ''getsockopt'', ''settimeout'', ''recv'', ''send'', ''shutdown'']"

definition connection_operations :: "connection \<Rightarrow> unit result" where
  "connection_operations cn =
     (if list_all (\<lambda>name. map_of cn name = Some True) CONNECTION_OPERATIONS then Inr () else Inl OSError)"

section \<open>Timed calls\<close>

lemma sys_answers:
  assumes "sys c w = (r, w')"
  shows "length (nw_answers w') = length (nw_answers w) - 1"
  using assms by (auto simp: sys_def Let_def split: list.splits net_answer.splits)

lemma remaining_answers:
  assumes "remaining slot w = (r, w')"
  shows "length (nw_answers w') \<le> length (nw_answers w)"
proof -
  have [simp]: "nw_answers (set_deadline slot d w) = nw_answers w" for d and w :: "'a net_world_scheme" by (cases slot) simp_all
  show ?thesis using assms
    by (cases "sys Monotonic w")
      (auto simp: remaining_def deadline_sample_def validated_monotonic_def act_bind_def Let_def
        dest!: sys_answers split: option.splits sum.splits prod.splits pyfloat.splits if_splits)
qed

lemma set_timeout_answers:
  assumes "set_timeout slot w = (r, w')"
  shows "length (nw_answers w') \<le> length (nw_answers w)"
  using assms
  by (fastforce simp: set_timeout_def act_bind_def dest!: sys_answers dest: remaining_answers split: sum.splits prod.splits)

lemma sys_interrupted: "sys c w = (Inl InterruptedError, w') \<Longrightarrow> nw_answers w \<noteq> []"
  by (auto simp: sys_def Let_def split: list.splits)

text \<open>A call that a signal interrupts is made again; each turn takes an answer of the schedule.\<close>

function timed_call :: "deadline_slot \<Rightarrow> net_call \<Rightarrow> ('a net_world_scheme, net_answer) act" where
  "timed_call slot c w =
     (case set_timeout slot w of
        (Inl e, w1) \<Rightarrow> (Inl e, w1)
      | (Inr _, w1) \<Rightarrow>
          (case sys c w1 of
             (Inl e, w2) \<Rightarrow>
               if e = InterruptedError then
                 (case remaining slot w2 of (Inl e', w3) \<Rightarrow> (Inl e', w3) | (Inr _, w3) \<Rightarrow> timed_call slot c w3)
               else (Inl e, w2)
           | (Inr result, w2) \<Rightarrow>
               (case remaining slot w2 of (Inl e', w3) \<Rightarrow> (Inl e', w3) | (Inr _, w3) \<Rightarrow> (Inr result, w3))))"
  by pat_completeness auto
termination
proof (relation "measure (\<lambda>(slot, c, w). length (nw_answers w))", simp)
  fix slot c and w w1 w2 w3 :: "'a net_world_scheme" and e :: exn and u v r1 r2 r3
  assume "(r1, w1) = set_timeout slot w" "(r2, w2) = sys c w1" "r2 = Inl e" "e = InterruptedError" "(r3, w3) = remaining slot w2"
  then have "length (nw_answers w1) \<le> length (nw_answers w)" "length (nw_answers w2) = length (nw_answers w1) - 1"
    "nw_answers w1 \<noteq> []" "length (nw_answers w3) \<le> length (nw_answers w2)"
    using set_timeout_answers [of slot w r1 w1] sys_answers [of c w1 r2 w2] sys_interrupted [of c w1 w2]
      remaining_answers [of slot w2 r3 w3] by metis+
  then have "length (nw_answers w3) < length (nw_answers w)" by (cases "nw_answers w1") simp_all
  then show "((slot, c, w3), (slot, c, w)) \<in> measure (\<lambda>(slot, c, w). length (nw_answers w))" by simp
qed

declare timed_call.simps [simp del]

text \<open>\<open>_receive_exact\<close> and \<open>_send_exact\<close>\<close>

function server_pieces :: "nat \<Rightarrow> string list \<Rightarrow> ('a net_world_scheme, string) act" where
  "server_pieces n pieces w =
     (if n = 0 then (Inr (concat pieces), w)
      else
      act_bind (timed_call Request_Deadline (Recv n)) (\<lambda>a w1.
        case a of
          Gives_Bytes piece \<Rightarrow>
            if piece = [] \<or> n < length piece then (Inl OSError, w1)
            else server_pieces (n - length piece) (pieces @ [piece]) w1
        | _ \<Rightarrow> (Inl OSError, w1)) w)"
  by pat_completeness auto
termination
  by (relation "measure (\<lambda>(n, pieces, w). n)") auto

declare server_pieces.simps [simp del]

definition server_receive_exact :: "nat \<Rightarrow> ('a net_world_scheme, string) act" where
  "server_receive_exact n = server_pieces n []"

function send_from :: "string \<Rightarrow> nat \<Rightarrow> ('a net_world_scheme, unit) act" where
  "send_from v offset w =
     (if offset < length v then
        act_bind (timed_call Response_Deadline (Send (drop offset v))) (\<lambda>a w1.
          case a of
            Gives_Int sent \<Rightarrow>
              if 1 \<le> sent \<and> sent \<le> int (length v - offset) then send_from v (offset + nat sent) w1
              else (Inl OSError, w1)
          | _ \<Rightarrow> (Inl OSError, w1)) w
      else (Inr (), w))"
  by pat_completeness auto
termination
  by (relation "measure (\<lambda>(v, offset, w). length v - offset)") auto

declare send_from.simps [simp del]

definition send_exact :: "string \<Rightarrow> ('a net_world_scheme, unit) act" where
  "send_exact v = send_from v 0"

section \<open>One connection\<close>

definition set_phase :: "string \<Rightarrow> ('w server_world, unit) act" where
  "set_phase phase w = (Inr (), w\<lparr>sv_phase := phase\<rparr>)"

definition enter_handling :: "('w server_world, unit) act" where
  "enter_handling w =
     (if sv_handling w then (Inl OSError, w) else (Inr (), w\<lparr>sv_handling := True, sv_entered := True\<rparr>))"

definition capture_operations :: "connection \<Rightarrow> ('w server_world, unit) act" where
  "capture_operations cn w =
     (case map_of cn ''close'' of
        None \<Rightarrow> (Inl AttributeError, w)
      | Some False \<Rightarrow> (Inl OSError, w)
      | Some True \<Rightarrow> (connection_operations cn, w\<lparr>sv_close := True\<rparr>))"

text \<open>\<open>SO_PEERCRED\<close> of a live broker process with the expected identities.\<close>

definition broker_peer :: "'w handler \<Rightarrow> int \<times> int \<times> int \<Rightarrow> bool" where
  "broker_peer h peer \<longleftrightarrow> (case peer of (pid, uid, gid) \<Rightarrow> 0 < pid \<and> uid = hd_uid h \<and> gid = hd_gid h)"

definition authenticate_broker :: "platform \<Rightarrow> 'w handler \<Rightarrow> connection \<Rightarrow> ('w server_world, unit) act" where
  "authenticate_broker pf h cn =
     act_bind (capture_operations cn) (\<lambda>_.
     act_bind enter_handling (\<lambda>_.
     act_bind (start_deadline Request_Deadline (hd_timeout_ms h)) (\<lambda>_.
     act_bind (sys Get_Inheritable) (\<lambda>inheritable.
     if inheritable \<noteq> Gives_Bool False then act_lift (Inl OSError)
     else
     act_bind (remaining Request_Deadline) (\<lambda>_.
     if \<not> pf_so_domain pf \<or> \<not> pf_so_peercred pf then act_lift (Inl OSError)
     else
     act_bind (timed_call Request_Deadline Get_Domain) (\<lambda>domain.
     if domain \<noteq> Gives_Int AF_UNIX then act_lift (Inl OSError)
     else
     act_bind (timed_call Request_Deadline Get_Type) (\<lambda>kind.
     if kind \<noteq> Gives_Int SOCK_STREAM then act_lift (Inl OSError)
     else
     act_bind (timed_call Request_Deadline (Get_Peercred PEER_CREDENTIALS_SIZE)) (\<lambda>credentials.
     case credentials of
       Gives_Bytes c \<Rightarrow>
         if length c \<noteq> PEER_CREDENTIALS_SIZE then act_lift (Inl OSError)
         else if \<not> broker_peer h (peer_unpack (pf_little_endian pf) c) then act_lift (Inl OSError)
         else act_lift (Inr ())
     | _ \<Rightarrow> act_lift (Inl OSError)))))))))"

text \<open>\<open>receive_sealed_header(connection)\<close>: the kernel installs the descriptors it delivers.\<close>

definition receive_private_header :: "('w server_world, string \<times> int) act" where
  "receive_private_header w =
     (case sys (Recvmsg 4) w of
        (Inl e, w') \<Rightarrow> receive_sealed_header (Inl e) w'
      | (Inr (Gives_Message m files), w') \<Rightarrow> receive_sealed_header (Inr m) (w'\<lparr>fw_files := files @ fw_files w'\<rparr>)
      | (Inr _, w') \<Rightarrow> receive_sealed_header (Inl TypeError) w')"

definition receive_header :: "'w handler \<Rightarrow> ('w server_world, string) act" where
  "receive_header h =
     (if hd_private h then
        act_bind (set_phase ''sealed_fd_receive'') (\<lambda>_.
        act_bind (set_timeout Request_Deadline) (\<lambda>_.
        act_bind receive_private_header (\<lambda>(header, fd).
        act_bind (\<lambda>w. (Inr (), w\<lparr>sv_credential_fd := Some fd\<rparr>)) (\<lambda>_.
        act_bind (remaining Request_Deadline) (\<lambda>_. act_lift (Inr header))))))
      else server_receive_exact 4)"

definition receive_request :: "'w handler \<Rightarrow> ('w server_world, string) act" where
  "receive_request h =
     act_bind (receive_header h) (\<lambda>header.
     let request_length = from_bytes header in
     if request_length = 0 \<or> MAX_CANONICAL_REQUEST_BYTES < request_length then act_lift (Inl OSError)
     else
     act_bind (server_receive_exact request_length) (\<lambda>canonical_request.
     act_bind (timed_call Request_Deadline (Recv 1)) (\<lambda>trailing.
     if trailing \<noteq> Gives_Bytes [] then act_lift (Inl OSError)
     else
     act_bind (\<lambda>w. (Inr (), w\<lparr>sv_request_complete := True\<rparr>)) (\<lambda>_.
     act_bind (set_phase ''request_execution'') (\<lambda>_. act_lift (Inr canonical_request))))))"

definition answer_of :: "reply result \<Rightarrow> net_answer" where
  "answer_of r = (case r of Inl e \<Rightarrow> Throws e | Inr (Bytes b) \<Rightarrow> Gives_Bytes b | Inr Not_Bytes \<Rightarrow> Gives_Other)"

text \<open>The call of the executor, recorded like the calls of the operating system.\<close>

definition call_execute :: "'w handler \<Rightarrow> string \<Rightarrow> int option \<Rightarrow> ('w server_world, reply) act" where
  "call_execute h raw fd w =
     (case on_executor (hd_execute h raw fd) w of
        (r, w1) \<Rightarrow> (r, w1\<lparr>nw_trace := nw_trace w1 @ [(Execute raw fd, answer_of r)]\<rparr>))"

definition execute_request :: "'w handler \<Rightarrow> string \<Rightarrow> ('w server_world, reply) act" where
  "execute_request h raw w =
     (case sv_credential_fd w of
        None \<Rightarrow> call_execute h raw None w
      | Some fd \<Rightarrow>
          act_bind (act_lift (parse_canonical_request raw)) (\<lambda>request.
          act_bind (read_sealed_credential fd raw (xr_exact_image_reference request) None ''canary'') (\<lambda>_.
          call_execute h raw (Some fd))) w)"

definition respond :: "'w handler \<Rightarrow> reply \<Rightarrow> ('w server_world, unit) act" where
  "respond h response =
     act_bind (set_phase ''response_transport'') (\<lambda>_.
     act_bind (start_deadline Response_Deadline (hd_timeout_ms h)) (\<lambda>_.
     case response of
       Not_Bytes \<Rightarrow> act_lift (Inl OSError)
     | Bytes b \<Rightarrow>
         if b = [] \<or> MAX_EXECUTOR_RESPONSE_BYTES < length b then act_lift (Inl OSError)
         else
         act_bind (act_lift (parse_canonical_response b)) (\<lambda>_.
         act_bind (act_lift (to_bytes4 (length b))) (\<lambda>header.
         act_bind (send_exact header) (\<lambda>_.
         act_bind (send_exact b) (\<lambda>_.
         act_bind (timed_call Response_Deadline Shutdown_Write) (\<lambda>_. act_lift (Inr ()))))))))"

text \<open>The \<open>try\<close> block of \<open>handle\<close>.\<close>

definition serve_connection :: "platform \<Rightarrow> 'w handler \<Rightarrow> connection \<Rightarrow> ('w server_world, unit) act" where
  "serve_connection pf h cn =
     act_bind (authenticate_broker pf h cn) (\<lambda>_.
     act_bind (receive_request h) (\<lambda>canonical_request.
     act_bind (execute_request h canonical_request) (\<lambda>response.
     respond h response)))"

definition note_failure :: "unit result \<Rightarrow> 'w server_world \<Rightarrow> outcome \<times> 'w server_world" where
  "note_failure r w =
     (case r of
        Inr _ \<Rightarrow> (no_error, w)
      | Inl e \<Rightarrow> (note_first e no_error, if is_Exception e then w\<lparr>sv_log := sv_log w @ [sv_phase w]\<rparr> else w))"

text \<open>
  The \<open>finally\<close> block: the credential's descriptor, the connection between two looks at the
  deadline, the gate.  Only an \<open>Exception\<close> of the first step is kept back.
\<close>

definition close_credential :: "outcome \<Rightarrow> ('w server_world, outcome) act" where
  "close_credential out w =
     (case sv_credential_fd w of
        None \<Rightarrow> (Inr out, w)
      | Some fd \<Rightarrow>
          (case fd_close fd w of
             (Inr _, w') \<Rightarrow> (Inr out, w')
           | (Inl e, w') \<Rightarrow> if is_Exception e then (Inr (out\<lparr>oc_failed := True\<rparr>), w') else (Inl e, w')))"

definition server_cleanup_slot :: "'w server_world \<Rightarrow> deadline_slot option" where
  "server_cleanup_slot w =
     (if nw_response_deadline w \<noteq> None then Some Response_Deadline
      else if \<not> sv_request_complete w \<and> nw_request_deadline w \<noteq> None then Some Request_Deadline else None)"

definition close_connection :: "outcome \<times> 'w server_world \<Rightarrow> outcome \<times> 'w server_world" where
  "close_connection s =
     (if sv_close (snd s) then
        let slot = server_cleanup_slot (snd s) in
        defer_error note_first (check_cleanup slot) (defer_error note_first (sys Close_Socket) (defer_error note_first (check_cleanup slot) s))
      else s)"

definition leave_handling :: "'w server_world \<Rightarrow> 'w server_world" where
  "leave_handling w = (if sv_entered w then w\<lparr>sv_handling := False\<rparr> else w)"

definition fresh_locals :: "'w server_world \<Rightarrow> 'w server_world" where
  "fresh_locals w =
     w\<lparr>nw_monotonic := None, nw_request_deadline := None, nw_response_deadline := None, sv_entered := False, sv_close := False,
       sv_request_complete := False, sv_credential_fd := None, sv_phase := ''connection_authentication''\<rparr>"

definition handle :: "platform \<Rightarrow> 'w handler \<Rightarrow> connection \<Rightarrow> ('w server_world, unit) act" where
  "handle pf h cn w =
     (case serve_connection pf h cn (fresh_locals w) of
        (r, w1) \<Rightarrow>
          (case note_failure r w1 of
             (out, w2) \<Rightarrow>
               (case close_credential out w2 of
                  (Inl e, w3) \<Rightarrow> (Inl e, w3)
                | (Inr out', w3) \<Rightarrow>
                    (case close_connection (out', w3) of
                       (out'', w4) \<Rightarrow>
                         (case oc_control out'' of
                            Some e \<Rightarrow> Inl e
                          | None \<Rightarrow> if oc_failed out'' \<or> r \<noteq> Inr () then Inl ExecutorConnectionUnavailableError else Inr (),
                          leave_handling w4)))))"

end
