(* ===== verification/Transport_Run.thy ===== *)
theory Transport_Run
  imports Transport
begin

text \<open>
  What the calls of an exchange are: nothing is written before the peer and the socket path
  were checked, a response that is returned was framed exactly and complete, reading ends
  after boundedly many calls, and a socket that was made is closed.
\<close>

section \<open>Observations\<close>

definition quiet :: "(net_call \<times> net_answer) list \<Rightarrow> bool" where
  "quiet tr \<longleftrightarrow> writes tr = 0 \<and> reads tr = 0"

lemma quiet_simps [simp]:
  "quiet []" "quiet (tr @ tr') \<longleftrightarrow> quiet tr \<and> quiet tr'" "timing tr \<Longrightarrow> quiet tr"
  "quiet (x # tr) \<longleftrightarrow> \<not> is_write (fst x) \<and> \<not> is_read (fst x) \<and> quiet tr"
  by (auto simp: quiet_def)

lemma unmoved [simp]:
  "writes tr = 0 \<Longrightarrow> written tr = []" "reads tr = 0 \<Longrightarrow> received tr = []"
  by (induction tr) (auto split: if_splits)

lemma quiet_moved:
  assumes "quiet tr"
  shows "written tr = []" "received tr = []" "writes tr = 0" "reads tr = 0"
  using assms by (simp_all add: quiet_def)

text \<open>The peer credentials that were accepted, and the identities of the socket path that were seen.\<close>

fun trusted_answer :: "platform \<Rightarrow> transport \<Rightarrow> net_call \<times> net_answer \<Rightarrow> bool" where
  "trusted_answer pf t (Get_Peercred n, Gives_Bytes c) \<longleftrightarrow>
     length c = PEER_CREDENTIALS_SIZE \<and> peer_trusted t (peer_unpack (pf_little_endian pf) c)"
| "trusted_answer pf t _ \<longleftrightarrow> False"

fun path_check :: "transport \<Rightarrow> net_call \<times> net_answer \<Rightarrow> (int \<times> int) result list" where
  "path_check t (Lstat p, a) = [if p = tr_path t then metadata a (tr_uid t) (tr_socket_gid t) else Inl OSError]"
| "path_check t _ = []"

definition path_checks :: "transport \<Rightarrow> (net_call \<times> net_answer) list \<Rightarrow> (int \<times> int) result list" where
  "path_checks t tr = concat (map (path_check t) tr)"

definition vetted :: "platform \<Rightarrow> transport \<Rightarrow> (net_call \<times> net_answer) list \<Rightarrow> bool" where
  "vetted pf t tr \<longleftrightarrow>
     list_ex (trusted_answer pf t) tr \<and>
     (case path_checks t tr of [Inr before, Inr after] \<Rightarrow> after = before | _ \<Rightarrow> False)"

lemma path_checks_simps [simp]:
  "path_checks t [] = []" "path_checks t (x # tr) = path_check t x @ path_checks t tr"
  "path_checks t (tr @ tr') = path_checks t tr @ path_checks t tr'"
  by (simp_all add: path_checks_def)

lemma path_checks_timing [simp]: "timing tr \<Longrightarrow> path_checks t tr = []"
proof (induction tr)
  case (Cons x tr)
  then show ?case by (cases "(t, x)" rule: path_check.cases) auto
qed simp

section \<open>The phases\<close>

lemma traced_lift_bind:
  assumes "\<And>x. r = Inr x \<Longrightarrow> traced trace (f x) Q E" and "\<And>e. r = Inl e \<Longrightarrow> E e []"
  shows "traced trace (act_bind (act_lift r) f) Q E"
  by (rule traced_bind [where Qm = "\<lambda>x tr. r = Inr x \<and> tr = []" and Em = "\<lambda>e tr. r = Inl e \<and> tr = []"])
    (auto intro: traced_lift assms)

lemmas timed_bind = traced_bind [OF traced_start] traced_bind [OF traced_remaining] traced_bind [OF traced_set_timeout]

lemma traced_update_bind:
  assumes "\<And>w. trace (g w) = trace w" and "traced trace (f x) Q E"
  shows "traced trace (act_bind (\<lambda>w. (Inr x, g w)) f) Q E"
  by (rule traced_bind [where Qm = "\<lambda>y tr. y = x \<and> tr = []" and Em = "\<lambda>_ _. False"])
    (auto intro: traced_update assms)

lemmas traced_steps = timed_bind net.traced_call_bind traced_lift_bind traced_update_bind traced_if traced_lift

lemma traced_open_socket:
  "traced nw_trace (open_socket pf t)
     (\<lambda>i tr. quiet tr \<and> path_checks t tr = [Inr i]) (\<lambda>_. quiet)"
  unfolding open_socket_def
  by (intro traced_steps) auto

lemma traced_connect_peer:
  "traced nw_trace (connect_peer pf t before)
     (\<lambda>_ tr. quiet tr \<and> list_ex (trusted_answer pf t) tr \<and> path_checks t tr = [Inr before]) (\<lambda>_. quiet)"
  unfolding connect_peer_def
  apply (intro timed_bind net.traced_call_bind)
  apply (auto split: net_answer.splits intro!: traced_steps)
  done

lemma traced_send_header:
  assumes "length header = 4"
  shows "traced nw_trace (send_header_with header fd) (\<lambda>_ tr. written tr = header \<and> reads tr = 0) (\<lambda>_ _. True)"
proof (rule tracedI)
  fix w :: "'a net_world_scheme" and r w'
  assume run: "send_header_with header fd w = (r, w')"
  obtain s w1 where s: "sys (Sendmsg header fd) w = (s, w1)" by force
  then have "nw_trace w1 = nw_trace w @ [(Sendmsg header fd, answer_given s)]" by (rule net.records)
  with run s assms show "\<exists>tr. nw_trace w' = nw_trace w @ tr \<and>
      (case r of Inr x \<Rightarrow> written tr = header \<and> reads tr = 0 | Inl e \<Rightarrow> True)"
    by (auto simp: send_header_with_def send_sealed_header_def sent_bytes_def split: if_splits sum.splits net_answer.splits)
qed

lemma traced_write_request:
  "traced nw_trace (write_request raw fd) (\<lambda>_ tr. written tr = frame raw \<and> reads tr = 0) (\<lambda>_ _. True)"
  unfolding write_request_def
proof (rule traced_lift_bind)
  fix header
  assume h: "to_bytes4 (length raw) = Inr header"
  have sent: "traced nw_trace (case fd of None \<Rightarrow> act_bind (sys (Sendall header)) (\<lambda>_. act_lift (Inr ()))
      | Some fd \<Rightarrow> send_header_with header fd) (\<lambda>_ tr. written tr = header \<and> reads tr = 0) (\<lambda>_ _. True)"
    using traced_send_header [OF to_bytes4_Inr(1) [OF h]]
    by (cases fd) (auto intro!: net.traced_call_bind traced_lift split: net_answer.splits)
  show "traced nw_trace
     (act_bind (set_timeout Request_Deadline) (\<lambda>_.
      act_bind (case fd of None \<Rightarrow> act_bind (sys (Sendall header)) (\<lambda>_. act_lift (Inr ()))
                | Some fd \<Rightarrow> send_header_with header fd) (\<lambda>_.
      act_bind (set_timeout Request_Deadline) (\<lambda>_.
      act_bind (sys (Sendall raw)) (\<lambda>_.
      act_bind (set_timeout Request_Deadline) (\<lambda>_.
      act_bind (sys Shutdown_Write) (\<lambda>_.
      act_bind (remaining Request_Deadline) (\<lambda>_. act_lift (Inr ()))))))))) 
     (\<lambda>_ tr. written tr = frame raw \<and> reads tr = 0) (\<lambda>_ _. True)"
    by (intro timed_bind traced_bind [OF sent] net.traced_call_bind traced_lift)
      (auto simp: frame_eq [OF h] split: net_answer.splits)
qed simp

subsection \<open>Reading an exact number of bytes\<close>

text \<open>The body of the loop after a piece was read.\<close>

definition next_piece ::
    "(nat \<Rightarrow> string list \<Rightarrow> ('w, string) act) \<Rightarrow> nat \<Rightarrow> string list \<Rightarrow> net_answer \<Rightarrow> ('w, string) act" where
  "next_piece loop n pieces a =
     (case a of
        Gives_Bytes piece \<Rightarrow>
          if piece = [] \<or> n < length piece then act_lift (Inl OSError)
          else loop (n - length piece) (pieces @ [piece])
      | _ \<Rightarrow> act_lift (Inl OSError))"

text \<open>
  Both ends read in such a loop; they differ in how one piece is fetched.  \<open>turns\<close> counts the fetches of a
  record, \<open>idle\<close> is what a fetch never does.
\<close>

locale piece_loop =
  fixes fetch :: "nat \<Rightarrow> ('a net_world_scheme, net_answer) act"
    and loop :: "nat \<Rightarrow> string list \<Rightarrow> ('a net_world_scheme, string) act"
    and turns :: "(net_call \<times> net_answer) list \<Rightarrow> nat"
    and idle :: "(net_call \<times> net_answer) list \<Rightarrow> bool"
  assumes loop_none: "loop 0 pieces = act_lift (Inr (concat pieces))"
    and loop_some: "n \<noteq> 0 \<Longrightarrow> loop n pieces = act_bind (fetch n) (next_piece loop n pieces)"
    and turns: "turns [] = 0" "turns (tr @ tr') = turns tr + turns tr'"
    and idle: "idle []" "idle (tr @ tr') \<longleftrightarrow> idle tr \<and> idle tr'"
    and fetched: "traced nw_trace (fetch n) (\<lambda>a tr. received tr = read (Recv n, a) \<and> turns tr \<le> 1 \<and> idle tr)
      (\<lambda>_ tr. turns tr \<le> 1 \<and> idle tr)"
begin

text \<open>The loop ends after at most as many fetches as bytes were asked for.\<close>

lemma traced_loop:
  "traced nw_trace (loop n pieces)
     (\<lambda>x tr. x = concat pieces @ received tr \<and> length (received tr) = n \<and> turns tr \<le> n \<and> idle tr)
     (\<lambda>_ tr. turns tr \<le> n \<and> idle tr)"
proof (induction n arbitrary: pieces rule: less_induct)
  case (less n)
  show ?case
  proof (cases "n = 0")
    case True
    then show ?thesis by (simp only: loop_none, intro traced_lift) (simp_all add: turns idle)
  next
    case False
    have rest: "traced nw_trace (next_piece loop n pieces a)
       (\<lambda>x tr. x = concat pieces @ read (Recv n, a) @ received tr \<and> length (read (Recv n, a)) + length (received tr) = n \<and>
          Suc (turns tr) \<le> n \<and> idle tr)
       (\<lambda>_ tr. Suc (turns tr) \<le> n \<and> idle tr)" for a
    proof (cases "\<exists>piece. a = Gives_Bytes piece \<and> piece \<noteq> [] \<and> length piece \<le> n")
      case True
      then obtain piece where a: "a = Gives_Bytes piece" "piece \<noteq> []" "length piece \<le> n" by blast
      then have fewer: "Suc k \<le> n" if "k \<le> n - length piece" for k using that by (cases piece) simp_all
      from fewer [OF order_refl] have "n - length piece < n" by simp
      from less [OF this, of "pieces @ [piece]"] a show ?thesis
        by (auto simp: next_piece_def dest: fewer elim!: traced_conseq)
    next
      case none: False
      then show ?thesis using False
        by (auto simp: next_piece_def turns idle not_le simp del: act_lift_apply intro!: traced_lift split: net_answer.splits)
    qed
    show ?thesis unfolding loop_some [OF False]
      by (rule traced_bind [OF fetched], use False in simp, rule traced_conseq [OF rest]) (auto simp: turns idle)
  qed
qed

end

lemma receive_none: "receive_pieces 0 pieces = act_lift (Inr (concat pieces))"
  by (simp add: fun_eq_iff receive_pieces.simps)

lemma receive_some:
  assumes "n \<noteq> 0"
  shows "receive_pieces n pieces =
    act_bind (act_bind (set_timeout Response_Deadline) (\<lambda>_. sys (Recv n))) (next_piece receive_pieces n pieces)"
  using assms
  by (simp add: fun_eq_iff next_piece_def receive_pieces.simps [of n] act_bind_def split: prod.splits sum.splits net_answer.splits)

interpretation client_loop: piece_loop
  "\<lambda>n. act_bind (set_timeout Response_Deadline) (\<lambda>_. sys (Recv n))" receive_pieces reads "\<lambda>tr. writes tr = 0"
proof unfold_locales
  fix n
  show "traced nw_trace (act_bind (set_timeout Response_Deadline) (\<lambda>_. sys (Recv n)) :: ('a net_world_scheme, net_answer) act)
    (\<lambda>a tr. received tr = read (Recv n, a) \<and> reads tr \<le> 1 \<and> writes tr = 0) (\<lambda>_ tr. reads tr \<le> 1 \<and> writes tr = 0)"
    by (intro timed_bind net.traced_call) simp_all
qed (simp_all add: receive_none receive_some)

lemmas traced_receive_pieces = client_loop.traced_loop

lemma traced_read_response:
  "traced nw_trace read_response
     (\<lambda>x tr. received tr = frame x \<and> length x \<le> MAX_EXECUTOR_RESPONSE_BYTES \<and> writes tr = 0) (\<lambda>_ tr. writes tr = 0)"
  unfolding read_response_def receive_exact_def Let_def
  by (intro timed_bind traced_bind [OF traced_receive_pieces] net.traced_call_bind traced_if traced_lift)
    (auto simp: header_frame)

section \<open>The exchange\<close>

text \<open>\<open>checked_first pf t tr\<close>: every call that could write comes after the peer and the path were checked.\<close>

definition checked_first :: "platform \<Rightarrow> transport \<Rightarrow> (net_call \<times> net_answer) list \<Rightarrow> bool" where
  "checked_first pf t tr \<longleftrightarrow> writes tr = 0 \<or> (\<exists>pre post. tr = pre @ post \<and> quiet pre \<and> vetted pf t pre)"

lemma checked_first_append: "vetted pf t pre \<Longrightarrow> quiet pre \<Longrightarrow> checked_first pf t (pre @ post)"
  by (auto simp: checked_first_def)

lemma checked_first_quiet: "quiet tr \<Longrightarrow> checked_first pf t tr"
  by (simp add: checked_first_def quiet_moved)

lemma checked_first_more: "checked_first pf t tr \<Longrightarrow> quiet tr' \<Longrightarrow> checked_first pf t (tr @ tr')"
  unfolding checked_first_def by (metis append_assoc add_0 moved_simps(9) quiet_moved(3))

lemma act_bind_assoc: "act_bind (act_bind m f) g = act_bind m (\<lambda>x. act_bind (f x) g)"
  by (auto simp: fun_eq_iff act_bind_def split: prod.splits sum.splits)

lemma traced_vetting:
  "traced nw_trace (act_bind (open_socket pf t) (connect_peer pf t)) (\<lambda>_ tr. quiet tr \<and> vetted pf t tr) (\<lambda>_. quiet)"
  by (intro traced_bind [OF traced_open_socket] traced_conseq [OF traced_connect_peer]) (auto simp: vetted_def)

lemma traced_exchange:
  "traced nw_trace (exchange pf t raw fd)
     (\<lambda>x tr. checked_first pf t tr \<and> written tr = frame raw \<and> received tr = frame x \<and> length x \<le> MAX_EXECUTOR_RESPONSE_BYTES)
     (\<lambda>_. checked_first pf t)"
  unfolding exchange_def act_bind_assoc [of "open_socket pf t", symmetric]
  by (intro traced_bind [OF traced_vetting] traced_bind [OF traced_write_request] traced_conseq [OF traced_read_response])
    (simp_all add: checked_first_quiet checked_first_append quiet_moved)

lemma attempt_timing:
  assumes "defer_error note (check_cleanup slot) (out, w) = (out', w')"
  shows "\<exists>tr. nw_trace w' = nw_trace w @ tr \<and> timing tr"
proof -
  obtain r w1 where r: "check_cleanup slot w = (r, w1)" by force
  have "traced nw_trace (check_cleanup slot) (\<lambda>_. timing) (\<lambda>_. timing)"
    unfolding check_cleanup_def by (cases slot) (auto intro!: timed_bind traced_lift simp del: act_lift_apply)
  from this r show ?thesis using assms by (cases rule: tracedE) (auto simp: defer_error_def r)
qed

lemma attempt_call:
  assumes "defer_error note (sys c) (out, w) = (out', w')"
  shows "\<exists>a. nw_trace w' = nw_trace w @ [(c, a)]"
  using assms net.records [of c w] by (auto simp: defer_error_def split: prod.splits sum.splits)

section \<open>The socket\<close>

definition made_socket :: "(net_call \<times> net_answer) list \<Rightarrow> bool" where
  "made_socket tr \<longleftrightarrow> list_ex (\<lambda>(c, a). c = New_Socket \<and> answer_returned a) tr"

lemma made_socket_simps [simp]:
  "\<not> made_socket []" "made_socket (x # tr) \<longleftrightarrow> (fst x = New_Socket \<and> answer_returned (snd x)) \<or> made_socket tr"
  "made_socket (tr @ tr') \<longleftrightarrow> made_socket tr \<or> made_socket tr'"
  by (auto simp: made_socket_def)

lemma made_socket_timing [simp]: "timing tr \<Longrightarrow> \<not> made_socket tr"
proof (induction tr)
  case (Cons x tr)
  then show ?case by (cases "fst x") auto
qed simp

lemma quiet_close:
  assumes "close_client (out, w) = (out', w')"
  shows "\<exists>tr. nw_trace w' = nw_trace w @ tr \<and> quiet tr \<and> \<not> made_socket tr \<and> (cw_client w \<longrightarrow> Close_Socket \<in> fst ` set tr)"
proof (cases "cw_client w")
  case True
  define slot where "slot = cleanup_slot w"
  obtain o1 w1 where 1: "defer_error note_last (check_cleanup slot) (out, w) = (o1, w1)" by force
  obtain o2 w2 where 2: "defer_error note_last (sys Close_Socket) (o1, w1) = (o2, w2)" by force
  have 3: "defer_error note_last (check_cleanup slot) (o2, w2) = (out', w')"
    using assms True 1 2 by (simp add: close_client_def slot_def)
  obtain tr1 where tr1: "nw_trace w1 = nw_trace w @ tr1" "timing tr1" using attempt_timing [OF 1] by auto
  obtain a where a: "nw_trace w2 = nw_trace w1 @ [(Close_Socket, a)]" using attempt_call [OF 2] by auto
  obtain tr3 where "nw_trace w' = nw_trace w2 @ tr3" "timing tr3" using attempt_timing [OF 3] by auto
  with tr1 a show ?thesis by (intro exI [of _ "tr1 @ (Close_Socket, a) # tr3"]) simp
qed (use assms in \<open>simp add: close_client_def\<close>)

text \<open>The variable \<open>client\<close> holds every socket that was made.\<close>

definition holds_socket :: "client_world \<Rightarrow> client_world \<Rightarrow> bool" where
  "holds_socket w w' \<longleftrightarrow>
     (\<exists>tr. nw_trace w' = nw_trace w @ tr \<and> (made_socket tr \<or> cw_client w \<longrightarrow> cw_client w'))"

interpretation held: step_order holds_socket
  by unfold_locales (auto simp: holds_socket_def)

lemma cw_client_same: "same_rest w w' \<Longrightarrow> cw_client w' = cw_client w"
  by (cases w; cases w') (simp add: same_rest_def)

lemma held_timing:
  assumes "traced nw_trace m (\<lambda>_ tr. timing tr) (\<lambda>_. timing)" and "moves same_rest m"
  shows "moves holds_socket m"
proof (rule movesI)
  fix w r w'
  assume run: "m w = (r, w')"
  have "cw_client w' = cw_client w" using movesD [OF assms(2) run] by (rule cw_client_same)
  with assms(1) run show "holds_socket w w'" by (cases rule: tracedE) (auto simp: holds_socket_def)
qed

lemma held_sys: "c \<noteq> New_Socket \<Longrightarrow> moves holds_socket (sys c)"
proof (rule movesI)
  fix w w' :: client_world and r
  assume run: "sys c w = (r, w')" and c: "c \<noteq> New_Socket"
  show "holds_socket w w'"
    using net.records [OF run] cw_client_same [OF movesD [OF rest_sys run]] c by (simp add: holds_socket_def)
qed

lemmas held_steps =
  held_sys held_timing [OF traced_start rest_start] held_timing [OF traced_set_timeout rest_set_timeout]
  held_timing [OF traced_conseq [OF traced_remaining] rest_remaining]

text \<open>A new socket is put into the variable at once.\<close>

lemma held_new_socket:
  assumes "moves holds_socket f"
  shows "moves holds_socket (act_bind (sys New_Socket) (\<lambda>_. act_bind (\<lambda>w. (Inr (), w\<lparr>cw_client := True\<rparr>)) (\<lambda>_. f)))"
  unfolding moves_def
proof
  fix w :: client_world
  obtain r w1 where r: "sys New_Socket w = (r, w1)" by force
  note rec = net.records [OF r] cw_client_same [OF movesD [OF rest_sys r]]
  show "holds_socket w (snd (act_bind (sys New_Socket) (\<lambda>_. act_bind (\<lambda>w. (Inr (), w\<lparr>cw_client := True\<rparr>)) (\<lambda>_. f)) w))"
  proof (cases r)
    case (Inl e)
    then show ?thesis using r rec by (simp add: act_bind_def holds_socket_def)
  next
    case (Inr a)
    have "holds_socket (w1\<lparr>cw_client := True\<rparr>) (snd (f (w1\<lparr>cw_client := True\<rparr>)))" using assms by (simp add: moves_def)
    with Inr r rec show ?thesis by (auto simp: act_bind_def holds_socket_def)
  qed
qed

lemma held_send_header: "moves holds_socket (send_header_with header fd)"
  using held_sys [of "Sendmsg header fd"] held.refl
  by (auto simp: moves_def send_header_with_def split: prod.splits sum.splits) (metis snd_conv)+

lemma held_receive: "moves holds_socket (receive_pieces n pieces)"
proof (induction n arbitrary: pieces rule: less_induct)
  case (less n)
  show ?case
  proof (cases "n = 0")
    case False
    have "moves holds_socket (next_piece receive_pieces n pieces a)" for a
      using False less by (auto simp: next_piece_def split: net_answer.splits intro: held.lift)
    then show ?thesis unfolding receive_some [OF False] by (intro held.combinators held_steps) simp
  qed (simp only: receive_none held.lift)
qed

lemma held_exchange: "moves holds_socket (exchange pf t raw fd)"
proof -
  have "moves holds_socket (open_socket pf t)"
    unfolding open_socket_def by (intro held_new_socket held.combinators held_steps) simp_all
  moreover have "moves holds_socket (connect_peer pf t before)" for before
    unfolding connect_peer_def
    by (intro held.combinators held_steps; (auto split: net_answer.splits intro!: held.combinators held_steps)?)
  moreover have "moves holds_socket (write_request raw fd)"
    unfolding write_request_def
    by (intro held.combinators held_steps; (auto split: option.splits intro!: held.combinators held_steps held_send_header)?)
  moreover have "moves holds_socket read_response"
    unfolding read_response_def receive_exact_def Let_def by (intro held.combinators held_steps held_receive) simp_all
  ultimately show ?thesis unfolding exchange_def by (intro held.combinators)
qed

section \<open>What \<open>send\<close> returns and raises\<close>

lemma close_client_control: "oc_control (fst (close_client (out, w))) = Some e \<Longrightarrow> oc_control out = Some e \<or> \<not> is_Exception e"
  by (auto simp: close_client_def defer_error_def note_last_def Let_def split: if_splits prod.splits sum.splits)

lemma send_cases:
  assumes "transport_send_with pf t (Bytes raw) fd w = (r, w')"
  obtains (refused) "r = Inl ExecutorTransportUnavailableError" "w' = w"
  | (ran) tr where "nw_trace w' = nw_trace w @ tr" "checked_first pf t tr" "made_socket tr \<longrightarrow> Close_Socket \<in> fst ` set tr"
      "case r of Inl e \<Rightarrow> e = ExecutorTransportUnavailableError \<or> \<not> is_Exception e
       | Inr x \<Rightarrow> written tr = frame raw \<and> received tr = frame x \<and> length x \<le> MAX_EXECUTOR_RESPONSE_BYTES"
proof (cases "raw = [] \<or> MAX_CANONICAL_REQUEST_BYTES < length raw")
  case True
  then show thesis using assms refused by (auto simp: transport_send_with_def split: if_splits)
next
  case False
  define w0 where "w0 = w\<lparr>nw_monotonic := None, nw_request_deadline := None, nw_response_deadline := None, cw_client := False\<rparr>"
  obtain s w1 where s: "exchange pf t raw fd w0 = (s, w1)" by force
  define out where "out = (case s of Inl e \<Rightarrow> note_last e no_error | Inr _ \<Rightarrow> no_error)"
  obtain out' w2 where c: "close_client (out, w1) = (out', w2)" by force
  have w': "w' = w2" and r: "r = (case oc_control out' of Some e \<Rightarrow> Inl e
      | None \<Rightarrow> if oc_failed out' then Inl ExecutorTransportUnavailableError
         else case s of Inr x \<Rightarrow> Inr x | Inl _ \<Rightarrow> Inl ExecutorTransportUnavailableError)"
    using assms False s c
    by (auto simp: transport_send_with_def w0_def [symmetric] out_def [symmetric] split: option.splits sum.splits if_splits)
  obtain tr1 where tr1: "nw_trace w1 = nw_trace w @ tr1" "made_socket tr1 \<longrightarrow> cw_client w1"
    using movesD [OF held_exchange s] by (auto simp: holds_socket_def w0_def)
  obtain tr2 where tr2: "nw_trace w2 = nw_trace w1 @ tr2" "quiet tr2" "\<not> made_socket tr2" "cw_client w1 \<longrightarrow> Close_Socket \<in> fst ` set tr2"
    using quiet_close [OF c] by blast
  have ex: "checked_first pf t tr1 \<and> (\<forall>x. s = Inr x \<longrightarrow> written tr1 = frame raw \<and> received tr1 = frame x \<and>
      length x \<le> MAX_EXECUTOR_RESPONSE_BYTES)"
    using traced_exchange s by (rule tracedE) (auto simp: w0_def tr1(1))
  have "e = ExecutorTransportUnavailableError \<or> \<not> is_Exception e" if "r = Inl e" for e
    using that r close_client_control [of out w1 e] c
    by (auto simp: out_def note_last_def no_error_def split: option.splits if_splits sum.splits)
  moreover have "s = Inr x" if "r = Inr x" for x
    using that r by (auto split: option.splits if_splits sum.splits)
  ultimately show thesis
    using ran [of "tr1 @ tr2"] tr1 tr2 ex
    by (auto simp: w' quiet_moved checked_first_more image_Un split: sum.splits)
qed

text \<open>
  C31: A response that the transport returns came from one whole exchange.  Before anything could be written, the peer's
  credentials were accepted and the socket path showed twice the same identity with the expected owner, group and mode.
  The bytes written are the request behind its four-byte length and nothing else, the bytes read are the returned response behind its
  four-byte length and nothing else, the response is bounded, and the socket was closed.
\<close>

theorem transport_send_whole_exchange:
  assumes "transport_send_with pf t (Bytes raw) fd w = (Inr response, w')"
  shows "\<exists>pre post. nw_trace w' = nw_trace w @ pre @ post \<and> writes pre = 0 \<and> reads pre = 0 \<and> vetted pf t pre \<and>
    written post = frame raw \<and> received post = frame response \<and> length response \<le> MAX_EXECUTOR_RESPONSE_BYTES \<and>
    (made_socket (pre @ post) \<longrightarrow> Close_Socket \<in> fst ` set (pre @ post))"
  using assms
proof (cases rule: send_cases)
  case (ran tr)
  have "written tr \<noteq> []" using ran(4) by (simp add: frame_def)
  then obtain pre post where "tr = pre @ post" "quiet pre" "vetted pf t pre"
    using ran(2) unmoved(1) by (auto simp: checked_first_def)
  with ran show ?thesis by (intro exI [of _ pre] exI [of _ post]) (auto simp: quiet_moved image_Un)
qed simp

text \<open>
  C12: However the exchange goes, every call that could write a byte comes after the peer and the socket path were
  checked, a socket that was made is closed, and the only exceptions raised are the static unavailability error and
  the control exceptions.
\<close>

theorem transport_send_safe:
  assumes "transport_send_with pf t (Bytes raw) fd w = (r, w')"
  shows "\<exists>tr. nw_trace w' = nw_trace w @ tr \<and>
    (writes tr = 0 \<or> (\<exists>pre post. tr = pre @ post \<and> writes pre = 0 \<and> vetted pf t pre)) \<and>
    (made_socket tr \<longrightarrow> Close_Socket \<in> fst ` set tr) \<and>
    (\<forall>e. r = Inl e \<longrightarrow> e = ExecutorTransportUnavailableError \<or> e \<in> {KeyboardInterrupt, SystemExit, GeneratorExit})"
  using assms
proof (cases rule: send_cases)
  case refused
  then show ?thesis by simp
next
  case (ran tr)
  then show ?thesis
    by (intro exI [of _ tr]) (auto simp: checked_first_def quiet_moved is_Exception_def split: sum.splits)
qed

text \<open>
  C32: \<open>_receive_exact\<close> ends on every schedule of answers after at most as many \<open>recv\<close> calls as bytes were asked for; when it returns,
  it returns the bytes read, exactly as many as asked for, and it never writes.
\<close>

theorem receive_exact_ends:
  assumes "receive_exact n w = (r, w')"
  shows "\<exists>tr. nw_trace w' = nw_trace w @ tr \<and> reads tr \<le> n \<and> writes tr = 0 \<and>
    (\<forall>x. r = Inr x \<longrightarrow> x = received tr \<and> length x = n)"
  using traced_receive_pieces [of n "[]"] assms unfolding receive_exact_def
  by (rule tracedE) auto

section \<open>A concrete exchange\<close>

definition sample_platform :: platform where
  "sample_platform = \<lparr>pf_so_domain = True, pf_so_peercred = True, pf_little_endian = True\<rparr>"

definition sample_transport :: transport where
  "sample_transport = \<lparr>tr_uid = 991, tr_gid = 991, tr_socket_gid = 993, tr_timeout_ms = 3000, tr_path = PRODUCTION_EXECUTOR_SOCKET_PATH\<rparr>"

definition sample_stat :: net_answer where
  "sample_stat = Gives_Stat [PInt 0xC1B0, PInt 5, PInt 6, PInt 1, PInt 991, PInt 993]"

definition sample_peer :: string where
  "sample_peer = map char_of [7, 0, 0, 0, 0xDF, 3, 0, 0, 0xDF, 3, 0, 0 :: nat]"

definition TICK :: net_answer where "TICK = Gives_Int 0"

text \<open>A schedule that answers every call well, with the response's header and body in one piece each.\<close>

definition client_answers :: "string \<Rightarrow> net_answer list" where
  "client_answers response =
     [TICK, sample_stat, TICK, Gives_None, TICK, Gives_None, Gives_Bool False, Gives_Int 1, Gives_Int 1,
      TICK, Gives_None, Gives_None, TICK, Gives_None, Gives_Bytes sample_peer, sample_stat,
      TICK, Gives_None, Gives_None, TICK, Gives_None, Gives_None, TICK, Gives_None, Gives_None, TICK,
      TICK, TICK, Gives_None, Gives_Bytes (take 4 (frame response)),
      TICK, Gives_None, Gives_Bytes response, TICK, Gives_None, Gives_Bytes [], TICK, Gives_None, TICK]"

definition client_world_for :: "string \<Rightarrow> client_world" where
  "client_world_for response = \<lparr>fw_files = [], fw_next = 3, fw_faults = [], fw_short_writes = [], fw_clock = (\<lambda>_. 0), fw_ticks = 0,
     nw_answers = client_answers response, nw_trace = [], nw_monotonic = None, nw_request_deadline = None, nw_response_deadline = None,
     cw_client = False\<rparr>"

lemma sample_times:
  "float_of_int 0 = Inr 0" "deadline_at 0 3000 = Inr 3" "deadline_at 0 600000 = Inr 600" "to_float 3 = Number 3" "to_float 600 = Number 600"
proof -
  show "to_float 3 = Number 3" "to_float 600 = Number 600" using to_float_int [of 3] to_float_int [of 600] by simp_all
  then show "float_of_int 0 = Inr 0" "deadline_at 0 3000 = Inr 3" "deadline_at 0 600000 = Inr 600"
    using to_float_int [of 3000] to_float_int [of 600000] by (simp_all add: float_of_int_def deadline_at_def)
qed

lemma sample_metadata: "metadata sample_stat 991 993 = Inr (6, 5)"
  by (simp add: metadata_def sample_stat_def)

lemma sample_trusted: "length sample_peer = 12" "peer_trusted sample_transport (peer_unpack True sample_peer)"
  by code_simp+

lemma sys_answer:
  assumes "nw_answers w = a # rest" and "answer_returned a"
  shows "sys c w = (Inr a, w\<lparr>nw_answers := rest, nw_trace := nw_trace w @ [(c, a)]\<rparr>)"
  using assms by (simp add: sys_def answer_returned_def Let_def split: net_answer.splits)

lemma returned_simps [simp]:
  "answer_returned Gives_None" "answer_returned (Gives_Bool b)" "answer_returned (Gives_Int i)" "answer_returned (Gives_Bytes s)"
  "answer_returned sample_stat" "answer_returned (Gives_Message m files)"
  by (simp_all add: answer_returned_def sample_stat_def)

lemma sample_transport_fields:
  "tr_uid sample_transport = 991" "tr_socket_gid sample_transport = 993" "tr_timeout_ms sample_transport = 3000"
  by (simp_all add: sample_transport_def)

lemma tick:
  assumes "nw_answers w = TICK # rest" and "nw_monotonic w = None \<or> nw_monotonic w = Some 0"
  shows "validated_monotonic w =
    (Inr (Gives_Float (Number 0)), w\<lparr>nw_answers := rest, nw_trace := nw_trace w @ [(Monotonic, TICK)], nw_monotonic := Some 0\<rparr>)"
  using assms by (auto simp: validated_monotonic_def act_bind_def sys_def Let_def TICK_def clock_number_def sample_times)

lemma tick_sample:
  assumes "nw_answers w = TICK # rest" and "nw_monotonic w = None \<or> nw_monotonic w = Some 0" and "prior = None \<or> prior = Some 0"
  shows "deadline_sample validated_monotonic prior w =
    (Inr 0, w\<lparr>nw_answers := rest, nw_trace := nw_trace w @ [(Monotonic, TICK)], nw_monotonic := Some 0\<rparr>)"
  using assms(3) by (auto simp: deadline_sample_def act_bind_def tick [OF assms(1,2)] clock_number_def)

lemma tick_start:
  assumes "nw_answers w = TICK # rest" and "nw_monotonic w = None \<or> nw_monotonic w = Some 0" and "deadline_at 0 ms = Inr d"
  shows "start_deadline slot ms w =
    (Inr (), set_deadline slot \<lparr>dd_deadline = d, dd_last = 0\<rparr>
       (w\<lparr>nw_answers := rest, nw_trace := nw_trace w @ [(Monotonic, TICK)], nw_monotonic := Some 0\<rparr>))"
  using assms(3) by (simp add: start_deadline_def deadline_init_def act_bind_def tick_sample [OF assms(1,2)])

text \<open>A reading of zero against a deadline after zero leaves everything but the schedule and the record.\<close>

lemma tick_remaining:
  assumes "nw_answers w = TICK # rest" and "nw_monotonic w = Some 0" and "deadline_of slot w = Some \<lparr>dd_deadline = d, dd_last = 0\<rparr>"
    and "to_float d = Number d" and "0 < d"
  shows "remaining slot w = (Inr d, w\<lparr>nw_answers := rest, nw_trace := nw_trace w @ [(Monotonic, TICK)]\<rparr>)"
proof -
  have "set_deadline slot \<lparr>dd_deadline = d, dd_last = 0\<rparr> (w\<lparr>nw_answers := rest, nw_trace := tr, nw_monotonic := Some 0\<rparr>) =
    w\<lparr>nw_answers := rest, nw_trace := tr\<rparr>" for tr
    using assms(2,3) by (cases slot; cases w) simp_all
  then show ?thesis using assms by (simp add: remaining_def act_bind_def tick_sample Let_def)
qed

lemma tick_timeout:
  assumes "nw_answers w = TICK # Gives_None # rest" and "nw_monotonic w = Some 0"
    and "deadline_of slot w = Some \<lparr>dd_deadline = d, dd_last = 0\<rparr>" and "to_float d = Number d" and "0 < d"
  shows "set_timeout slot w =
    (Inr (), w\<lparr>nw_answers := rest, nw_trace := nw_trace w @ [(Monotonic, TICK), (Set_Timeout d, Gives_None)]\<rparr>)"
  using assms by (simp add: set_timeout_def act_bind_def tick_remaining sys_def Let_def)

lemmas tick_steps = tick_start tick_remaining tick_timeout

lemma frame_header:
  assumes "length b < 2 ^ 32"
  obtains h where "to_bytes4 (length b) = Inr h" "take 4 (frame b) = h" "length h = 4" "h \<noteq> []" "from_bytes h = length b"
proof -
  obtain h where h: "to_bytes4 (length b) = Inr h" using assms by (auto simp: to_bytes4_def)
  then have "take 4 (frame b) = h" "h \<noteq> []" using frame_eq [OF h] to_bytes4_Inr(1) [OF h] by (metis append_eq_conv_conj, auto)
  with h to_bytes4_Inr [OF h] that show thesis by blast
qed

lemma client_run:
  assumes "raw \<noteq> []" "length raw \<le> MAX_CANONICAL_REQUEST_BYTES" "response \<noteq> []" "length response \<le> MAX_EXECUTOR_RESPONSE_BYTES"
  shows "\<exists>w'. transport_send_with sample_platform sample_transport (Bytes raw) None (client_world_for response) = (Inr response, w')"
proof -
  obtain h where h: "to_bytes4 (length response) = Inr h" "take 4 (frame response) = h" "length h = 4" "h \<noteq> []" "from_bytes h = length response"
    by (rule frame_header [of response]) (use assms(4) in \<open>simp_all add: MAX_EXECUTOR_RESPONSE_BYTES_def\<close>)
  obtain h' where h': "to_bytes4 (length raw) = Inr h'" using assms(2) by (auto simp: to_bytes4_def MAX_CANONICAL_REQUEST_BYTES_def)
  show ?thesis using assms h h'
    by (simp add: transport_send_with_def exchange_def open_socket_def connect_peer_def write_request_def read_response_def
        receive_exact_def receive_none receive_some next_piece_def act_bind_def sys_answer tick_steps sample_times sample_metadata
        sample_trusted sample_transport_fields client_world_for_def client_answers_def sample_platform_def
        RESPONSE_TIMEOUT_MS_def AF_UNIX_def SOCK_STREAM_def PEER_CREDENTIALS_SIZE_def
        close_client_def cleanup_slot_def check_cleanup_def defer_error_def no_error_def Let_def)
qed

text \<open>
  A whole exchange succeeds: for every bounded request and every bounded response, when the calls are answered well and the clock stays before the
  deadlines, the transport returns that response.
\<close>

theorem transport_send_returns:
  assumes "raw \<noteq> []" "length raw \<le> MAX_CANONICAL_REQUEST_BYTES" "response \<noteq> []" "length response \<le> MAX_EXECUTOR_RESPONSE_BYTES"
  shows "\<exists>w'. transport_send sample_platform sample_transport (Bytes raw) (client_world_for response) = (Inr response, w')"
  unfolding transport_send_def by (rule client_run [OF assms])

lemma sample_bounds:
  "''hi'' \<noteq> []" "length ''hi'' \<le> MAX_CANONICAL_REQUEST_BYTES" "''ok'' \<noteq> []" "length ''ok'' \<le> MAX_EXECUTOR_RESPONSE_BYTES"
  by (simp_all add: MAX_CANONICAL_REQUEST_BYTES_def MAX_EXECUTOR_RESPONSE_BYTES_def)

theorem transport_send_returns_witness:
  "\<exists>w'. transport_send sample_platform sample_transport (Bytes ''hi'') (client_world_for ''ok'') = (Inr ''ok'', w')"
  by (rule transport_send_returns [OF sample_bounds])

theorem transport_send_whole_exchange_witness:
  "\<exists>w' pre post. transport_send_with sample_platform sample_transport (Bytes ''hi'') None (client_world_for ''ok'') = (Inr ''ok'', w') \<and>
     nw_trace w' = nw_trace (client_world_for ''ok'') @ pre @ post \<and> vetted sample_platform sample_transport pre \<and>
     written post = frame ''hi'' \<and> received post = frame ''ok''"
proof -
  obtain w' where "transport_send_with sample_platform sample_transport (Bytes ''hi'') None (client_world_for ''ok'') = (Inr ''ok'', w')"
    using client_run [OF sample_bounds] by blast
  with transport_send_whole_exchange [OF this] show ?thesis by blast
qed

theorem transport_send_safe_witness:
  "\<exists>r w' tr. transport_send_with sample_platform sample_transport (Bytes ''hi'') None (client_world_for ''ok'') = (r, w') \<and>
     nw_trace w' = nw_trace (client_world_for ''ok'') @ tr \<and> (made_socket tr \<longrightarrow> Close_Socket \<in> fst ` set tr)"
proof -
  obtain w' where run: "transport_send_with sample_platform sample_transport (Bytes ''hi'') None (client_world_for ''ok'') = (Inr ''ok'', w')"
    using client_run [OF sample_bounds] by blast
  from transport_send_safe [OF run] obtain tr where "nw_trace w' = nw_trace (client_world_for ''ok'') @ tr"
    "made_socket tr \<longrightarrow> Close_Socket \<in> fst ` set tr" by (elim exE conjE)
  with run show ?thesis by (intro exI [of _ "Inr ''ok''"] exI [of _ w'] exI [of _ tr]) simp
qed

section \<open>Any division into pieces\<close>

definition delivers :: "string \<Rightarrow> net_answer list" where
  "delivers piece = [TICK, Gives_None, Gives_Bytes piece]"

definition reading :: "rat \<Rightarrow> 'a net_world_scheme \<Rightarrow> bool" where
  "reading d w \<longleftrightarrow> nw_monotonic w = Some 0 \<and> nw_response_deadline w = Some \<lparr>dd_deadline = d, dd_last = 0\<rparr> \<and>
     to_float d = Number d \<and> 0 < d"

lemma receive_delivered:
  assumes "reading d w" and "list_all (\<lambda>p. p \<noteq> []) pieces" and "nw_answers w = concat (map delivers pieces) @ rest"
  shows "\<exists>w'. receive_pieces (length (concat pieces)) acc w = (Inr (concat acc @ concat pieces), w') \<and> nw_answers w' = rest"
  using assms
proof (induction pieces arbitrary: acc w)
  case Nil
  then show ?case by (simp add: receive_none)
next
  case (Cons p pieces)
  define w1 where "w1 = w\<lparr>nw_answers := concat (map delivers pieces) @ rest,
    nw_trace := nw_trace w @ [(Monotonic, TICK), (Set_Timeout d, Gives_None), (Recv (length p + length (concat pieces)), Gives_Bytes p)]\<rparr>"
  have p: "p \<noteq> []" using Cons.prems(2) by simp
  have "receive_pieces (length (concat (p # pieces))) acc w = receive_pieces (length (concat pieces)) (acc @ [p]) w1"
    using Cons.prems p
    by (simp add: receive_some next_piece_def act_bind_def reading_def delivers_def [of p] tick_timeout [where d = d] sys_answer w1_def)
  moreover have "\<exists>w'. receive_pieces (length (concat pieces)) (acc @ [p]) w1 = (Inr (concat (acc @ [p]) @ concat pieces), w') \<and>
    nw_answers w' = rest"
    using Cons.prems by (intro Cons.IH) (simp_all add: w1_def reading_def)
  ultimately show ?case by simp
qed

text \<open>
  However the kernel divides the response into non-empty pieces, \<open>_receive_exact\<close> puts them together again and reads nothing
  further.
\<close>

theorem receive_exact_any_pieces:
  assumes "reading d w" and "list_all (\<lambda>p. p \<noteq> []) pieces" and "nw_answers w = concat (map delivers pieces) @ rest"
  shows "\<exists>w'. receive_exact (length (concat pieces)) w = (Inr (concat pieces), w') \<and> nw_answers w' = rest"
  using receive_delivered [OF assms, of "[]"] by (simp add: receive_exact_def)

definition sample_reader :: client_world where
  "sample_reader = (client_world_for [])\<lparr>nw_answers := concat (map delivers [''o'', ''k!'']) @ [TICK], nw_monotonic := Some 0,
     nw_response_deadline := Some \<lparr>dd_deadline = 600, dd_last = 0\<rparr>\<rparr>"

lemma sample_reader_reading: "reading 600 sample_reader"
  by (simp add: reading_def sample_reader_def sample_times)

theorem receive_exact_any_pieces_witness:
  "\<exists>w'. receive_exact 3 sample_reader = (Inr ''ok!'', w') \<and> nw_answers w' = [TICK]"
  using receive_exact_any_pieces [OF sample_reader_reading, of "[''o'', ''k!'']" "[TICK]"]
  by (simp add: sample_reader_def numeral_3_eq_3)

theorem receive_exact_ends_witness:
  "\<exists>w' tr. receive_exact 3 sample_reader = (Inr ''ok!'', w') \<and> nw_trace w' = nw_trace sample_reader @ tr \<and> reads tr \<le> 3 \<and>
     received tr = ''ok!''"
proof -
  obtain w' where run: "receive_exact 3 sample_reader = (Inr ''ok!'', w')"
    using receive_delivered [OF sample_reader_reading, of "[''o'', ''k!'']" "[TICK]" "[]"]
    by (auto simp: sample_reader_def receive_exact_def numeral_3_eq_3)
  from receive_exact_ends [OF run] obtain tr where tr: "nw_trace w' = nw_trace sample_reader @ tr" "reads tr \<le> 3"
    and got: "\<forall>x. (Inr ''ok!'' :: string result) = Inr x \<longrightarrow> x = received tr \<and> length x = 3" by (elim exE conjE)
  from got have "received tr = ''ok!''" by simp
  with run tr show ?thesis by (intro exI [of _ w'] exI [of _ tr]) simp
qed

end
