(* ===== verification/Server_Run.thy ===== *)
theory Server_Run
  imports Server Transport_Run
begin

text \<open>
  What the calls of a handled connection are: the executor runs at most once, only for an
  authenticated broker and a complete bounded request, and nothing is written before; a
  handler that returns has sent exactly the framed response of that run; the gate of the
  handler is left again.
\<close>

section \<open>Observations\<close>

fun executed :: "net_call \<times> net_answer \<Rightarrow> (string \<times> int option \<times> net_answer) list" where
  "executed (Execute raw fd, a) = [(raw, fd, a)]"
| "executed _ = []"

definition executions :: "(net_call \<times> net_answer) list \<Rightarrow> (string \<times> int option \<times> net_answer) list" where
  "executions tr = concat (map executed tr)"

lemma executions_simps [simp]:
  "executions [] = []" "executions (x # tr) = executed x @ executions tr" "executions (tr @ tr') = executions tr @ executions tr'"
  by (simp_all add: executions_def)

definition is_execute :: "net_call \<Rightarrow> bool" where
  "is_execute c \<longleftrightarrow> (case c of Execute raw fd \<Rightarrow> True | _ \<Rightarrow> False)"

lemma is_execute_simps [simp]:
  "is_execute (Execute raw fd)" "\<not> is_execute Monotonic" "\<not> is_execute (Set_Timeout r)" "\<not> is_execute (Recv n)"
  "\<not> is_execute (Recvmsg n)" "\<not> is_execute (Send b)" "\<not> is_execute Get_Domain" "\<not> is_execute Get_Type"
  "\<not> is_execute (Get_Peercred n)" "\<not> is_execute Get_Inheritable" "\<not> is_execute Shutdown_Write" "\<not> is_execute Close_Socket"
  by (simp_all add: is_execute_def)

lemma executed_idle [simp]: "\<not> is_execute c \<Longrightarrow> executed (c, a) = []"
  by (cases c) (simp_all add: is_execute_def)

lemma timing_executions [simp]: "timing tr \<Longrightarrow> executions tr = []"
proof (induction tr)
  case (Cons x tr)
  then show ?case by (cases x; cases "fst x") simp_all
qed simp

fun broker_answer :: "platform \<Rightarrow> 'w handler \<Rightarrow> net_call \<times> net_answer \<Rightarrow> bool" where
  "broker_answer pf h (Get_Peercred n, Gives_Bytes c) \<longleftrightarrow>
     length c = PEER_CREDENTIALS_SIZE \<and> broker_peer h (peer_unpack (pf_little_endian pf) c)"
| "broker_answer pf h _ \<longleftrightarrow> False"

section \<open>Timed calls\<close>

text \<open>Until its answer, a timed call makes only timing calls and interrupted attempts of itself.\<close>

definition attempts :: "net_call \<Rightarrow> (net_call \<times> net_answer) list \<Rightarrow> bool" where
  "attempts c tr \<longleftrightarrow> list_all (\<lambda>(d, a). timing_call d \<or> d = c \<and> a = Throws InterruptedError) tr"

definition only :: "net_call \<Rightarrow> (net_call \<times> net_answer) list \<Rightarrow> bool" where
  "only c tr \<longleftrightarrow> list_all (\<lambda>(d, a). timing_call d \<or> d = c) tr"

lemma attempts_simps [simp]:
  "attempts c []" "attempts c (x # tr) \<longleftrightarrow> (timing_call (fst x) \<or> x = (c, Throws InterruptedError)) \<and> attempts c tr"
  "attempts c (tr @ tr') \<longleftrightarrow> attempts c tr \<and> attempts c tr'"
  by (auto simp: attempts_def)

lemma only_simps [simp]:
  "only c []" "only c (x # tr) \<longleftrightarrow> (timing_call (fst x) \<or> fst x = c) \<and> only c tr"
  "only c (tr @ tr') \<longleftrightarrow> only c tr \<and> only c tr'"
  by (auto simp: only_def)

lemma timing_attempts [simp]: "timing tr \<Longrightarrow> attempts c tr" and timing_only [simp]: "timing tr \<Longrightarrow> only c tr"
  by (induction tr) auto

text \<open>Reads that a signal did not interrupt.\<close>

definition full_reads :: "(net_call \<times> net_answer) list \<Rightarrow> nat" where
  "full_reads tr = length (filter (\<lambda>(c, a). is_read c \<and> a \<noteq> Throws InterruptedError) tr)"

lemma full_reads_simps [simp]:
  "full_reads [] = 0" "full_reads (tr @ tr') = full_reads tr + full_reads tr'"
  "full_reads (x # tr) = (if is_read (fst x) \<and> snd x \<noteq> Throws InterruptedError then 1 else 0) + full_reads tr"
  by (auto simp: full_reads_def split: prod.splits)

lemma full_reads_attempts: "attempts c tr \<Longrightarrow> full_reads tr = 0"
  by (induction tr) (auto dest: timing_idle)

lemma full_reads_timing [simp]: "timing tr \<Longrightarrow> full_reads tr = 0"
  by (induction tr) (auto dest: timing_idle)

lemma traced_run:
  assumes "traced trace m Q E" and "m w = (r, w')"
  obtains tr where "trace w' = trace w @ tr" "case r of Inr x \<Rightarrow> Q x tr | Inl e \<Rightarrow> E e tr"
  using assms unfolding traced_def by blast

definition answered_call :: "net_call \<Rightarrow> net_answer \<Rightarrow> (net_call \<times> net_answer) list \<Rightarrow> bool" where
  "answered_call c a tr \<longleftrightarrow> (\<exists>pre post. tr = pre @ (c, a) # post \<and> attempts c pre \<and> timing post \<and> answer_returned a)"

lemma full_reads_answered: "answered_call c a tr \<Longrightarrow> full_reads tr \<le> 1"
  by (auto simp: answered_call_def full_reads_attempts)

lemma answered_call_prepend: "attempts c pre \<Longrightarrow> answered_call c a tr \<Longrightarrow> answered_call c a (pre @ tr)"
  unfolding answered_call_def by (metis append_assoc attempts_simps(3))

lemma throws_idle [simp]: "wrote (c, Throws e) = []" "read (c, Throws e) = []"
  by (cases c; simp)+

text \<open>What was written is what one answer of the call stands for, or nothing.\<close>

definition wrote_part :: "net_call \<Rightarrow> (net_call \<times> net_answer) list \<Rightarrow> bool" where
  "wrote_part c tr \<longleftrightarrow> (\<exists>a. written tr = wrote (c, a))"

lemma wrote_nothing [simp]: "written tr = [] \<Longrightarrow> wrote_part c tr"
  unfolding wrote_part_def by (metis throws_idle(1))

lemma wrote_once [simp]:
  "timing tr \<Longrightarrow> timing tr' \<Longrightarrow> wrote_part c (tr @ (c, a) # tr')" "timing tr \<Longrightarrow> wrote_part c (tr @ [(c, a)])"
  by (auto simp: wrote_part_def)

lemma wrote_part_prepend: "written tr = [] \<Longrightarrow> wrote_part c tr' \<Longrightarrow> wrote_part c (tr @ tr')"
  by (simp add: wrote_part_def)

lemma wrote_part_prefix: "wrote_part (Send b) tr \<Longrightarrow> \<exists>rest. b = written tr @ rest"
proof -
  have "\<exists>rest. b = wrote (Send b, a) @ rest" for a by (cases a) (auto, metis append_take_drop_id)
  then show "wrote_part (Send b) tr \<Longrightarrow> \<exists>rest. b = written tr @ rest" by (auto simp: wrote_part_def)
qed

lemma timed_call_run:
  "timed_call slot c w = (r, w') \<Longrightarrow>
     \<exists>tr. nw_trace w' = nw_trace w @ tr \<and> (case r of Inr a \<Rightarrow> answered_call c a tr | Inl e \<Rightarrow> only c tr \<and> full_reads tr \<le> 1 \<and> wrote_part c tr)"
proof (induction slot c w arbitrary: r w' rule: timed_call.induct)
  case (1 slot c w)
  obtain r1 w1 where r1: "set_timeout slot w = (r1, w1)" by force
  obtain tr1 where tr1: "nw_trace w1 = nw_trace w @ tr1" "timing tr1"
    by (rule traced_run [OF traced_set_timeout r1]) (auto split: sum.splits)
  show ?case
  proof (cases r1)
    case (Inl e)
    then show ?thesis using 1(2) r1 tr1 by (auto simp: timed_call.simps [of slot c w])
  next
    case (Inr u)
    obtain r2 w2 where r2: "sys c w1 = (r2, w2)" by force
    note rec = net.records [OF r2]
    obtain r3 w3 where r3: "remaining slot w2 = (r3, w3)" by force
    obtain tr3 where tr3: "nw_trace w3 = nw_trace w2 @ tr3" "timing tr3"
      by (rule traced_run [OF traced_remaining r3]) (auto split: sum.splits)
    show ?thesis
    proof (cases r2)
      case (Inr a)
      have a: "answer_returned a" using net.returns r2 Inr by blast
      have run: "timed_call slot c w = (case r3 of Inl e \<Rightarrow> (Inl e, w3) | Inr _ \<Rightarrow> (Inr a, w3))"
        using r1 r2 r3 Inr \<open>r1 = Inr u\<close> by (simp add: timed_call.simps [of slot c w] split: sum.splits)
      have "answered_call c a (tr1 @ (c, a) # tr3)" 
        unfolding answered_call_def using tr1(2) tr3(2) a by (metis timing_attempts)
      then show ?thesis using 1(2) run rec Inr tr1 tr3
        by (intro exI [of _ "tr1 @ (c, a) # tr3"]) (auto split: sum.splits)
    next
      case (Inl e)
      show ?thesis
      proof (cases "e = InterruptedError \<and> (\<exists>v. r3 = Inr v)")
        case True
        then obtain v where "r3 = Inr v" by blast
        then have "timed_call slot c w3 = (r, w')"
          using 1(2) r1 r2 r3 Inl \<open>r1 = Inr u\<close> True by (simp add: timed_call.simps [of slot c w])
        with 1(1) [OF r1 [symmetric] \<open>r1 = Inr u\<close> r2 [symmetric] Inl _ r3 [symmetric] \<open>r3 = Inr v\<close>] True
        obtain tr where tr: "nw_trace w' = nw_trace w3 @ tr" "case r of Inr a \<Rightarrow> answered_call c a tr | Inl e \<Rightarrow> only c tr \<and> full_reads tr \<le> 1 \<and> wrote_part c tr" by blast
        have nil: "written (tr1 @ (c, Throws InterruptedError) # tr3) = []" using tr1(2) tr3(2) by simp
        have "attempts c (tr1 @ (c, Throws InterruptedError) # tr3)" using tr1(2) tr3(2) by simp
        from answered_call_prepend [OF this] wrote_part_prepend [OF nil] tr tr1 tr3 rec Inl True show ?thesis
          by (intro exI [of _ "(tr1 @ (c, Throws InterruptedError) # tr3) @ tr"]) (auto split: sum.splits)
      next
        case False
        then have "r = Inl e \<and> w' = w2 \<or> (\<exists>e'. r = Inl e' \<and> w' = w3)"
          using 1(2) r1 r2 r3 Inl \<open>r1 = Inr u\<close> by (auto simp: timed_call.simps [of slot c w] split: if_splits sum.splits)
        then show ?thesis using tr1 tr3 rec Inl by auto
      qed
    qed
  qed
qed

lemma traced_timed_call: "traced nw_trace (timed_call slot c) (answered_call c) (\<lambda>_ tr. only c tr \<and> full_reads tr \<le> 1 \<and> wrote_part c tr)"
  by (rule tracedI) (rule timed_call_run)

lemma only_idle:
  assumes "only c tr"
  shows "\<not> is_write c \<Longrightarrow> writes tr = 0" "\<not> is_read c \<Longrightarrow> reads tr = 0" "\<not> is_execute c \<Longrightarrow> executions tr = []"
proof -
  have "(\<not> is_write c \<longrightarrow> writes tr = 0) \<and> (\<not> is_read c \<longrightarrow> reads tr = 0) \<and> (\<not> is_execute c \<longrightarrow> executions tr = [])"
    using assms
  proof (induction tr)
    case (Cons x tr)
    have "timing_call d \<Longrightarrow> \<not> is_execute d" for d by (cases d) (simp_all add: is_execute_def)
    with Cons show ?case by (cases x) (auto dest: timing_idle)
  qed simp
  then show "\<not> is_write c \<Longrightarrow> writes tr = 0" "\<not> is_read c \<Longrightarrow> reads tr = 0" "\<not> is_execute c \<Longrightarrow> executions tr = []" by blast+
qed

lemma attempts_only: "attempts c tr \<Longrightarrow> only c tr"
  by (induction tr) auto

lemma attempts_moved: "attempts c tr \<Longrightarrow> written tr = [] \<and> received tr = []"
proof (induction tr)
  case (Cons x tr)
  then show ?case by (cases x) (auto dest: timing_idle)
qed simp

lemma answered_call_moved:
  assumes "answered_call c a tr"
  shows "written tr = wrote (c, a)" "received tr = read (c, a)" "\<not> is_write c \<Longrightarrow> writes tr = 0" "\<not> is_read c \<Longrightarrow> reads tr = 0"
    "\<not> is_execute c \<Longrightarrow> executions tr = []" "(c, a) \<in> set tr"
proof -
  obtain pre post where tr: "tr = pre @ (c, a) # post" "attempts c pre" "timing post" using assms by (auto simp: answered_call_def)
  then show "written tr = wrote (c, a)" "received tr = read (c, a)" "\<not> is_write c \<Longrightarrow> writes tr = 0" "\<not> is_read c \<Longrightarrow> reads tr = 0"
    "\<not> is_execute c \<Longrightarrow> executions tr = []" "(c, a) \<in> set tr"
    using attempts_moved [OF tr(2)] only_idle [OF attempts_only [OF tr(2)]] by simp_all
qed

section \<open>The phases\<close>

text \<open>\<open>unserved tr\<close>: nothing was written and nothing executed.\<close>

definition unserved :: "(net_call \<times> net_answer) list \<Rightarrow> bool" where
  "unserved tr \<longleftrightarrow> writes tr = 0 \<and> executions tr = []"

lemma unserved_simps [simp]:
  "unserved []" "unserved (tr @ tr') \<longleftrightarrow> unserved tr \<and> unserved tr'" "timing tr \<Longrightarrow> unserved tr"
  "unserved (x # tr) \<longleftrightarrow> \<not> is_write (fst x) \<and> executed x = [] \<and> unserved tr"
  by (auto simp: unserved_def)

lemma only_unserved: "only c tr \<Longrightarrow> \<not> is_write c \<Longrightarrow> \<not> is_execute c \<Longrightarrow> unserved tr"
  by (simp add: unserved_def only_idle)

lemma answered_unserved: "answered_call c a tr \<Longrightarrow> \<not> is_write c \<Longrightarrow> \<not> is_execute c \<Longrightarrow> unserved tr"
  by (simp add: unserved_def answered_call_moved)

lemmas served_steps =
  traced_bind [OF traced_timed_call] timed_bind net.traced_call_bind traced_lift_bind traced_if traced_lift

lemma traced_enter:
  "traced nw_trace (capture_operations cn) (\<lambda>_ tr. tr = []) (\<lambda>_ tr. tr = [])"
  "traced nw_trace enter_handling (\<lambda>_ tr. tr = []) (\<lambda>_ tr. tr = [])"
  "traced nw_trace (set_phase p) (\<lambda>_ tr. tr = []) (\<lambda>_ tr. tr = [])"
  by (auto simp: traced_def capture_operations_def enter_handling_def set_phase_def split: option.splits bool.splits if_splits sum.splits)

text \<open>\<open>still tr\<close>: no data moved at all.  Steps that stay still leave an observation of a later step alone.\<close>

definition still :: "(net_call \<times> net_answer) list \<Rightarrow> bool" where
  "still tr \<longleftrightarrow> unserved tr \<and> reads tr = 0"

lemma still_simps [simp]: "still []" "still (tr @ tr') \<longleftrightarrow> still tr \<and> still tr'" "timing tr \<Longrightarrow> still tr"
  by (auto simp: still_def)

lemma still_bind:
  assumes "traced nw_trace m (\<lambda>_. still) (\<lambda>_. still)"
    and "\<And>x. traced nw_trace (f x) (\<lambda>_ tr. still tr \<and> list_ex p tr) (\<lambda>_. still)"
  shows "traced nw_trace (act_bind m f) (\<lambda>_ tr. still tr \<and> list_ex p tr) (\<lambda>_. still)"
  by (rule traced_bind [OF assms(1)], assumption, rule traced_conseq [OF assms(2)]) auto

lemma still_timed_call:
  "\<not> is_write c \<Longrightarrow> \<not> is_read c \<Longrightarrow> \<not> is_execute c \<Longrightarrow> traced nw_trace (timed_call slot c) (\<lambda>_. still) (\<lambda>_. still)"
  by (rule traced_conseq [OF traced_timed_call])
    (auto simp: still_def answered_unserved only_unserved answered_call_moved only_idle)

lemma still_steps:
  "traced nw_trace (capture_operations cn) (\<lambda>_. still) (\<lambda>_. still)"
  "traced nw_trace enter_handling (\<lambda>_. still) (\<lambda>_. still)"
  "traced nw_trace (start_deadline slot ms) (\<lambda>_. still) (\<lambda>_. still)"
  "traced nw_trace (remaining slot) (\<lambda>_. still) (\<lambda>_. still)"
  "traced nw_trace (sys Get_Inheritable) (\<lambda>_. still) (\<lambda>_. still)"
  by (rule traced_conseq [OF traced_enter(1)] traced_conseq [OF traced_enter(2)] traced_conseq [OF traced_start]
      traced_conseq [OF traced_remaining] net.traced_call, simp_all add: still_def)+

lemma traced_authenticate:
  "traced nw_trace (authenticate_broker pf h cn) (\<lambda>_ tr. still tr \<and> list_ex (broker_answer pf h) tr) (\<lambda>_. still)"
proof -
  have peer: "traced nw_trace (act_bind (timed_call Request_Deadline (Get_Peercred PEER_CREDENTIALS_SIZE)) (\<lambda>credentials.
     case credentials of
       Gives_Bytes c \<Rightarrow>
         if length c \<noteq> PEER_CREDENTIALS_SIZE then act_lift (Inl OSError)
         else if \<not> broker_peer h (peer_unpack (pf_little_endian pf) c) then act_lift (Inl OSError)
         else act_lift (Inr ())
     | _ \<Rightarrow> act_lift (Inl OSError)))
    (\<lambda>_ tr. still tr \<and> list_ex (broker_answer pf h) tr) (\<lambda>_. still)"
  proof (rule traced_bind [OF traced_timed_call])
    fix a tr
    assume a: "answered_call (Get_Peercred PEER_CREDENTIALS_SIZE) a tr"
    then have "still tr" by (simp add: still_def answered_unserved answered_call_moved)
    moreover have "list_ex (broker_answer pf h) tr" if "broker_answer pf h (Get_Peercred PEER_CREDENTIALS_SIZE, a)"
      using that answered_call_moved(6) [OF a] by (auto simp: list_ex_iff)
    ultimately show "traced nw_trace (case a of
       Gives_Bytes c \<Rightarrow>
         if length c \<noteq> PEER_CREDENTIALS_SIZE then act_lift (Inl OSError)
         else if \<not> broker_peer h (peer_unpack (pf_little_endian pf) c) then act_lift (Inl OSError)
         else act_lift (Inr ())
     | _ \<Rightarrow> act_lift (Inl OSError)) (\<lambda>y tr'. still (tr @ tr') \<and> list_ex (broker_answer pf h) (tr @ tr')) (\<lambda>e tr'. still (tr @ tr'))"
      by (cases a) (auto intro!: traced_if traced_lift simp del: act_lift_apply)
  qed (auto simp: still_def only_unserved only_idle)
  show ?thesis unfolding authenticate_broker_def
    by (intro still_bind still_steps still_timed_call traced_if traced_lift peer) simp_all
qed

subsection \<open>The request\<close>

lemma server_none: "server_pieces 0 pieces = act_lift (Inr (concat pieces))"
  by (simp add: fun_eq_iff server_pieces.simps)

lemma server_some:
  assumes "n \<noteq> 0"
  shows "server_pieces n pieces = act_bind (timed_call Request_Deadline (Recv n)) (next_piece server_pieces n pieces)"
  using assms
  by (simp add: fun_eq_iff next_piece_def server_pieces.simps [of n] act_bind_def split: prod.splits sum.splits net_answer.splits)

interpretation server_loop: piece_loop
  "\<lambda>n. timed_call Request_Deadline (Recv n)" server_pieces full_reads unserved
proof unfold_locales
  fix n
  show "traced nw_trace (timed_call Request_Deadline (Recv n) :: ('a net_world_scheme, net_answer) act)
    (\<lambda>a tr. received tr = read (Recv n, a) \<and> full_reads tr \<le> 1 \<and> unserved tr) (\<lambda>_ tr. full_reads tr \<le> 1 \<and> unserved tr)"
    by (rule traced_conseq [OF traced_timed_call])
      (auto simp: answered_call_moved full_reads_answered [simplified] answered_unserved only_unserved)
qed (simp_all add: server_none server_some)

text \<open>The header with the descriptor: four bytes in one message.\<close>

lemma fd_close_trace: "nw_trace (snd (fd_close fd w)) = nw_trace (w :: 'w server_world)"
  by (auto simp: fd_close_def fcall_def close_file_def split: list.splits option.splits)

lemma close_all_trace: "nw_trace (snd (close_all fds w)) = nw_trace (w :: 'w server_world)"
proof (induction fds arbitrary: w)
  case (Cons fd fds)
  obtain r w1 where r: "fd_close fd w = (r, w1)" by force
  then have "nw_trace w1 = nw_trace w" using fd_close_trace [of fd w] by simp
  with r Cons show ?case by (cases r) (auto simp: act_bind_def act_catch_def split: sum.splits)
qed simp

lemma receive_sealed_trace: "receive_sealed_header m (w :: 'w server_world) = (r, w') \<Longrightarrow> nw_trace w' = nw_trace w"
proof -
  assume run: "receive_sealed_header m w = (r, w')"
  obtain rs q where "receive_sealed_header m w = act_bind (close_all rs) (\<lambda>_. act_lift q) w"
    unfolding receive_sealed_header_def Let_def case_prod_beta by blast
  with run have "w' = snd (close_all rs w)" by (auto simp: act_bind_def split: prod.splits sum.splits)
  then show ?thesis by (simp add: close_all_trace)
qed

lemma receive_sealed_header_Inr:
  assumes "receive_sealed_header m w = (Inr (header, fd), w')"
  shows "\<exists>msg. m = Inr msg \<and> header = rm_message msg \<and> length header = 4"
  using assms
  by (auto simp: receive_sealed_header_def act_bind_def Let_def split: prod.splits sum.splits if_splits)

lemma traced_private_header:
  "traced nw_trace receive_private_header
     (\<lambda>x tr. received tr = fst x \<and> length (fst x) = 4 \<and> unserved tr) (\<lambda>_. unserved)"
proof (rule tracedI)
  fix w :: "'a server_world" and r w'
  assume run: "receive_private_header w = (r, w')"
  obtain s w1 where s: "sys (Recvmsg 4) w = (s, w1)" by force
  note rec = net.records [OF s]
  define m where "m = (case s of Inl e \<Rightarrow> Inl e | Inr (Gives_Message msg files) \<Rightarrow> Inr msg | Inr _ \<Rightarrow> Inl TypeError)"
  define w2 where "w2 = (case s of Inr (Gives_Message msg files) \<Rightarrow> w1\<lparr>fw_files := files @ fw_files w1\<rparr> | _ \<Rightarrow> w1)"
  have m: "receive_sealed_header m w2 = (r, w')" "nw_trace w2 = nw_trace w1"
    using run s by (auto simp: receive_private_header_def m_def w2_def split: sum.splits net_answer.splits)
  have msg: "m = Inr msg \<Longrightarrow> read (Recvmsg 4, answer_given s) = rm_message msg" for msg
    by (auto simp: m_def split: sum.splits net_answer.splits)
  have "nw_trace w' = nw_trace w @ [(Recvmsg 4, answer_given s)]" using receive_sealed_trace [OF m(1)] m(2) rec by simp
  moreover have "read (Recvmsg 4, answer_given s) = header \<and> length header = 4" if "r = Inr (header, fd)" for header fd
    using receive_sealed_header_Inr [of m w2 header fd w'] m msg that by auto
  ultimately show "\<exists>tr. nw_trace w' = nw_trace w @ tr \<and>
    (case r of Inr x \<Rightarrow> received tr = fst x \<and> length (fst x) = 4 \<and> unserved tr | Inl e \<Rightarrow> unserved tr)"
    by (intro exI [of _ "[(Recvmsg 4, answer_given s)]"]) (auto split: sum.splits)
qed

lemmas phase_bind = traced_bind [OF traced_enter(3)]

lemma traced_header:
  "traced nw_trace (receive_header h) (\<lambda>x tr. received tr = x \<and> length x = 4 \<and> unserved tr) (\<lambda>_. unserved)"
  unfolding receive_header_def server_receive_exact_def
proof (rule traced_if)
  show "traced nw_trace
     (act_bind (set_phase ''sealed_fd_receive'') (\<lambda>_.
      act_bind (set_timeout Request_Deadline) (\<lambda>_.
      act_bind receive_private_header (\<lambda>(header, fd).
      act_bind (\<lambda>w. (Inr (), w\<lparr>sv_credential_fd := Some fd\<rparr>)) (\<lambda>_.
      act_bind (remaining Request_Deadline) (\<lambda>_. act_lift (Inr header)))))))
     (\<lambda>x tr. received tr = x \<and> length x = 4 \<and> unserved tr) (\<lambda>_. unserved)"
    unfolding case_prod_beta
    by (intro phase_bind timed_bind traced_bind [OF traced_private_header] traced_update_bind traced_lift) simp_all
  show "traced nw_trace (server_pieces 4 []) (\<lambda>x tr. received tr = x \<and> length x = 4 \<and> unserved tr) (\<lambda>_. unserved)"
    by (rule traced_conseq [OF server_loop.traced_loop]) auto
qed

lemma traced_request:
  "traced nw_trace (receive_request h)
     (\<lambda>raw tr. received tr = frame raw \<and> raw \<noteq> [] \<and> length raw \<le> MAX_CANONICAL_REQUEST_BYTES \<and> unserved tr) (\<lambda>_. unserved)"
  unfolding receive_request_def server_receive_exact_def Let_def
  by (intro traced_bind [OF traced_header] traced_bind [OF server_loop.traced_loop] traced_bind [OF traced_timed_call]
      phase_bind traced_update_bind traced_if traced_lift)
    (auto simp: header_frame answered_unserved only_unserved answered_call_moved)

subsection \<open>The execution\<close>

text \<open>The executor returned \<open>x\<close> for the request from some state.\<close>

definition executor_ran :: "'w handler \<Rightarrow> string \<Rightarrow> int option \<Rightarrow> reply \<Rightarrow> bool" where
  "executor_ran h raw fd x \<longleftrightarrow> (\<exists>e e'. hd_execute h raw fd e = (Inr x, e'))"

lemma traced_call_execute:
  "traced nw_trace (call_execute h raw fd) (\<lambda>x tr. tr = [(Execute raw fd, answer_of (Inr x))] \<and> executor_ran h raw fd x)
     (\<lambda>e tr. tr = [(Execute raw fd, Throws e)])"
  by (auto simp: traced_def call_execute_def on_executor_def answer_of_def executor_ran_def split: prod.splits sum.splits)

text \<open>Reading the credential makes no call of the network.\<close>

definition same_record :: "'w server_world \<Rightarrow> 'w server_world \<Rightarrow> bool" where
  "same_record w w' \<longleftrightarrow> nw_trace w' = nw_trace w"

interpretation unrecorded: step_order same_record
  by unfold_locales (simp_all add: same_record_def)

lemma record_fd_stat: "moves same_record (fd_stat fd)"
  by (auto simp: moves_def same_record_def fd_stat_def fcall_def split: list.splits option.splits)

lemma record_time: "moves same_record (current_time now)"
  by (cases now) (simp_all add: moves_def same_record_def current_time_def time_now_def)

lemma record_read_sealed: "moves same_record (read_sealed_credential fd raw img now product_id)"
  unfolding read_sealed_credential_def Let_def
  by (intro unrecorded.combinators record_fd_stat record_time)

lemma traced_read_sealed:
  "traced (nw_trace :: 'w server_world \<Rightarrow> _) (read_sealed_credential fd raw img now product_id) (\<lambda>_ tr. tr = []) (\<lambda>_ tr. tr = [])"
  using movesD [OF record_read_sealed] by (auto simp: traced_def same_record_def split: sum.splits)

lemma traced_execute:
  "traced nw_trace (execute_request h raw)
     (\<lambda>x tr. \<exists>fd. tr = [(Execute raw fd, answer_of (Inr x))] \<and> executor_ran h raw fd x)
     (\<lambda>_ tr. tr = [] \<or> (\<exists>fd e. tr = [(Execute raw fd, Throws e)]))"
proof (rule tracedI)
  fix w :: "'a server_world" and r w'
  assume run: "execute_request h raw w = (r, w')"
  have "traced nw_trace (act_bind (act_lift (parse_canonical_request raw)) (\<lambda>request.
      act_bind (read_sealed_credential fd raw (xr_exact_image_reference request) None ''canary'') (\<lambda>_. call_execute h raw (Some fd))))
    (\<lambda>x tr. \<exists>fd. tr = [(Execute raw fd, answer_of (Inr x))] \<and> executor_ran h raw fd x)
    (\<lambda>_ tr. tr = [] \<or> (\<exists>fd e. tr = [(Execute raw fd, Throws e)]))" for fd
    by (intro traced_lift_bind traced_bind [OF traced_read_sealed] traced_conseq [OF traced_call_execute]) auto
  moreover have "traced nw_trace (call_execute h raw None)
    (\<lambda>x tr. \<exists>fd. tr = [(Execute raw fd, answer_of (Inr x))] \<and> executor_ran h raw fd x)
    (\<lambda>_ tr. tr = [] \<or> (\<exists>fd e. tr = [(Execute raw fd, Throws e)]))"
    by (rule traced_conseq [OF traced_call_execute]) auto
  ultimately show "\<exists>tr. nw_trace w' = nw_trace w @ tr \<and> (case r of Inr x \<Rightarrow> \<exists>fd. tr = [(Execute raw fd, answer_of (Inr x))] \<and> executor_ran h raw fd x
    | Inl e \<Rightarrow> tr = [] \<or> (\<exists>fd e. tr = [(Execute raw fd, Throws e)]))"
    using run unfolding execute_request_def traced_def by (auto split: option.splits)
qed

subsection \<open>The response\<close>

lemma send_from_end: "\<not> offset < length v \<Longrightarrow> send_from v offset = act_lift (Inr ())"
  by (simp add: fun_eq_iff send_from.simps)

definition next_send :: "string \<Rightarrow> nat \<Rightarrow> net_answer \<Rightarrow> ('a net_world_scheme, unit) act" where
  "next_send v offset a =
     (case a of
        Gives_Int sent \<Rightarrow>
          if 1 \<le> sent \<and> sent \<le> int (length v - offset) then send_from v (offset + nat sent) else act_lift (Inl OSError)
      | _ \<Rightarrow> act_lift (Inl OSError))"

lemma send_from_more:
  assumes "offset < length v"
  shows "send_from v offset = act_bind (timed_call Response_Deadline (Send (drop offset v))) (next_send v offset)"
  using assms
  by (simp add: fun_eq_iff next_send_def send_from.simps [of v offset] act_bind_def split: prod.splits sum.splits net_answer.splits)

definition responding :: "(net_call \<times> net_answer) list \<Rightarrow> bool" where
  "responding tr \<longleftrightarrow> reads tr = 0 \<and> executions tr = []"

lemma responding_simps [simp]:
  "responding []" "responding (tr @ tr') \<longleftrightarrow> responding tr \<and> responding tr'" "timing tr \<Longrightarrow> responding tr"
  by (auto simp: responding_def)

lemma traced_send_from:
  "traced nw_trace (send_from v offset) (\<lambda>_ tr. written tr = drop offset v \<and> responding tr)
     (\<lambda>_ tr. responding tr \<and> (\<exists>rest. drop offset v = written tr @ rest))"
proof (induction "length v - offset" arbitrary: offset rule: less_induct)
  case less
  show ?case
  proof (cases "offset < length v")
    case False
    show ?thesis unfolding send_from_end [OF False] by (intro traced_lift) (use False in simp_all)
  next
    case True
    have rest: "traced nw_trace (next_send v offset a :: ('a net_world_scheme, unit) act)
      (\<lambda>_ tr. wrote (Send (drop offset v), a) @ written tr = drop offset v \<and> responding tr)
      (\<lambda>_ tr. responding tr \<and> (\<exists>rest. drop offset v = wrote (Send (drop offset v), a) @ written tr @ rest))" for a
    proof (cases "\<exists>sent. a = Gives_Int sent \<and> 1 \<le> sent \<and> sent \<le> int (length v - offset)")
      case ok: True
      then obtain sent where a: "a = Gives_Int sent" "1 \<le> sent" "sent \<le> int (length v - offset)" by blast
      have split: "take (nat sent) (drop offset v) @ drop (offset + nat sent) v = drop offset v"
        by (metis add.commute append_take_drop_id drop_drop)
      have "length v - (offset + nat sent) < length v - offset" using a(2) True by linarith
      note tail = less [OF this]
      have "next_send v offset a = (send_from v (offset + nat sent) :: ('a net_world_scheme, unit) act)" using a True by (simp add: next_send_def of_nat_diff)
      then show ?thesis
        by (simp only:) (rule traced_conseq [OF tail], use a split in \<open>auto\<close>, metis split)
    next
      case False
      then have "next_send v offset a = (act_lift (Inl OSError) :: ('a net_world_scheme, unit) act)"
        by (auto simp: next_send_def split: net_answer.splits)
      moreover have "\<exists>rest. drop offset v = wrote (Send (drop offset v), a) @ rest"
        using wrote_part_prefix [of "drop offset v" "[(Send (drop offset v), a)]"] by (simp add: wrote_part_def) blast
      ultimately show ?thesis by (simp only:) (rule traced_lift, simp_all)
    qed
    show ?thesis unfolding send_from_more [OF True]
    proof (rule traced_bind [OF traced_timed_call])
      show "responding tr \<and> (\<exists>rest. drop offset v = written tr @ rest)"
        if "only (Send (drop offset v)) tr \<and> full_reads tr \<le> 1 \<and> wrote_part (Send (drop offset v)) tr" for tr
        using that wrote_part_prefix only_idle by (force simp: responding_def)
    qed (rule traced_conseq [OF rest], auto simp: answered_call_moved responding_def)
  qed
qed

text \<open>What a response that breaks off has written: a beginning of the frame of a valid response.\<close>

definition began :: "reply \<Rightarrow> (net_call \<times> net_answer) list \<Rightarrow> bool" where
  "began response tr \<longleftrightarrow> responding tr \<and>
     (written tr = [] \<or>
      (\<exists>b rest. response = Bytes b \<and> frame b = written tr @ rest \<and> length b \<le> MAX_EXECUTOR_RESPONSE_BYTES \<and>
         (\<exists>p. parse_canonical_response b = Inr p)))"

lemma began_timing [simp]: "timing tr \<Longrightarrow> began response tr" "began response []"
  by (simp_all add: began_def)

lemma traced_respond:
  "traced nw_trace (respond h response)
     (\<lambda>_ tr. \<exists>b. response = Bytes b \<and> written tr = frame b \<and> b \<noteq> [] \<and> length b \<le> MAX_EXECUTOR_RESPONSE_BYTES \<and>
        (\<exists>p. parse_canonical_response b = Inr p) \<and> responding tr)
     (\<lambda>_. began response)"
proof (cases response)
  case (Bytes b)
  have "traced nw_trace
     (act_bind (act_lift (to_bytes4 (length b))) (\<lambda>header.
      act_bind (send_exact header) (\<lambda>_.
      act_bind (send_exact b) (\<lambda>_.
      act_bind (timed_call Response_Deadline Shutdown_Write) (\<lambda>_. act_lift (Inr ()))))))
     (\<lambda>_ tr. written tr = frame b \<and> responding tr) (\<lambda>_ tr. responding tr \<and> (\<exists>rest. frame b = written tr @ rest))"
    unfolding send_exact_def
    by (intro traced_lift_bind traced_bind [OF traced_send_from] traced_bind [OF traced_timed_call] traced_lift)
      (auto simp: responding_def only_idle answered_call_moved frame_eq [symmetric])
  note sent = traced_conseq [OF this]
  show ?thesis unfolding respond_def Bytes reply.case
    by (intro phase_bind timed_bind traced_if traced_lift_bind traced_lift sent) (auto simp: began_def)
next
  case Not_Bytes
  then show ?thesis unfolding respond_def
    by (intro phase_bind timed_bind) (auto intro!: traced_lift simp del: act_lift_apply)
qed

section \<open>One connection\<close>

text \<open>
  \<open>served_once pf h tr\<close>: nothing was executed and nothing written, or one request was executed after the broker was
  authenticated and the request was complete, and nothing was written before.
\<close>

definition served_once :: "platform \<Rightarrow> 'w handler \<Rightarrow> (net_call \<times> net_answer) list \<Rightarrow> bool" where
  "served_once pf h tr \<longleftrightarrow>
     unserved tr \<or>
     (\<exists>pre raw fd a post. tr = pre @ (Execute raw fd, a) # post \<and> unserved pre \<and> list_ex (broker_answer pf h) pre \<and>
        received pre = frame raw \<and> raw \<noteq> [] \<and> length raw \<le> MAX_CANONICAL_REQUEST_BYTES \<and> executions post = [])"

definition answered_run :: "'w handler \<Rightarrow> (net_call \<times> net_answer) list \<Rightarrow> bool" where
  "answered_run h tr \<longleftrightarrow>
     (\<exists>raw fd b p. executions tr = [(raw, fd, Gives_Bytes b)] \<and> received tr = frame raw \<and> written tr = frame b \<and>
        length b \<le> MAX_EXECUTOR_RESPONSE_BYTES \<and> parse_canonical_response b = Inr p \<and> executor_ran h raw fd (Bytes b))"

text \<open>
  However a connection ends: nothing was written, or exactly one request was executed, and what was written is a
  beginning of the frame of the response that the executor returned for it.
\<close>

definition answered_part :: "'w handler \<Rightarrow> (net_call \<times> net_answer) list \<Rightarrow> bool" where
  "answered_part h tr \<longleftrightarrow>
     written tr = [] \<or>
     (\<exists>raw fd b p rest. executions tr = [(raw, fd, Gives_Bytes b)] \<and> received tr = frame raw \<and> frame b = written tr @ rest \<and>
        length b \<le> MAX_EXECUTOR_RESPONSE_BYTES \<and> parse_canonical_response b = Inr p \<and> executor_ran h raw fd (Bytes b))"

lemma answered_run_part: "answered_run h tr \<Longrightarrow> answered_part h tr"
  unfolding answered_run_def answered_part_def by (metis append_Nil2)

lemma unserved_part: "unserved tr \<Longrightarrow> answered_part h tr"
  by (simp add: answered_part_def unserved_def unmoved(1))

lemma traced_asked:
  "traced nw_trace (act_bind (authenticate_broker pf h cn) (\<lambda>_. receive_request h))
     (\<lambda>raw tr. unserved tr \<and> list_ex (broker_answer pf h) tr \<and> received tr = frame raw \<and> raw \<noteq> [] \<and>
        length raw \<le> MAX_CANONICAL_REQUEST_BYTES) (\<lambda>_. unserved)"
  by (intro traced_bind [OF traced_authenticate] traced_conseq [OF traced_request]) (auto simp: still_def)

lemma served_onceI:
  assumes "unserved pre" "list_ex (broker_answer pf h) pre" "received pre = frame raw" "raw \<noteq> []"
    "length raw \<le> MAX_CANONICAL_REQUEST_BYTES" "executions post = []"
  shows "served_once pf h (pre @ (Execute raw fd, a) # post)"
  using assms unfolding served_once_def by blast

lemma traced_serve:
  "traced nw_trace (serve_connection pf h cn) (\<lambda>_ tr. served_once pf h tr \<and> answered_run h tr)
     (\<lambda>_ tr. served_once pf h tr \<and> answered_part h tr)"
proof -
  have assoc: "serve_connection pf h cn = act_bind (act_bind (authenticate_broker pf h cn) (\<lambda>_. receive_request h)) (\<lambda>raw.
    act_bind (execute_request h raw) (respond h))"
    by (simp add: serve_connection_def act_bind_assoc)
  show ?thesis unfolding assoc
  proof (rule traced_bind [OF traced_asked])
    fix raw pre
    assume pre: "unserved pre \<and> list_ex (broker_answer pf h) pre \<and> received pre = frame raw \<and> raw \<noteq> [] \<and>
      length raw \<le> MAX_CANONICAL_REQUEST_BYTES"
    then have once: "served_once pf h (pre @ (Execute raw fd, a) # post)" if "executions post = []" for fd a post
      using that by (intro served_onceI) auto
    have wr: "written pre = []" "executions pre = []" using pre by (simp_all add: unserved_def)
    show "traced nw_trace (act_bind (execute_request h raw) (respond h))
      (\<lambda>_ tr. served_once pf h (pre @ tr) \<and> answered_run h (pre @ tr)) (\<lambda>_ tr. served_once pf h (pre @ tr) \<and> answered_part h (pre @ tr))"
    proof (rule traced_bind [OF traced_execute])
      fix x tr
      assume "\<exists>fd. tr = [(Execute raw fd, answer_of (Inr x))] \<and> executor_ran h raw fd x"
      then obtain fd where tr: "tr = [(Execute raw fd, answer_of (Inr x))]" "executor_ran h raw fd x" by blast
      show "traced nw_trace (respond h x)
        (\<lambda>_ tr'. served_once pf h (pre @ tr @ tr') \<and> answered_run h (pre @ tr @ tr'))
        (\<lambda>_ tr'. served_once pf h (pre @ tr @ tr') \<and> answered_part h (pre @ tr @ tr'))"
        using tr(2)
        by (intro traced_conseq [OF traced_respond])
          (auto simp: tr(1) once responding_def answered_run_def answered_part_def began_def wr pre answer_of_def)
    next
      fix e tr
      assume "tr = [] \<or> (\<exists>fd e. tr = [(Execute raw fd, Throws e)])"
      then show "served_once pf h (pre @ tr) \<and> answered_part h (pre @ tr)"
        using once [of "[]"] pre wr by (auto simp: served_once_def answered_part_def)
    qed
  qed (auto simp: served_once_def unserved_part)
qed

section \<open>The gate\<close>

text \<open>A step may enter the gate; until then the gate is as it was, and an entered gate is remembered.\<close>

definition gate_step :: "'w server_world \<Rightarrow> 'w server_world \<Rightarrow> bool" where
  "gate_step w w' \<longleftrightarrow> (sv_entered w \<longrightarrow> sv_entered w') \<and> (sv_entered w' \<or> sv_handling w' = sv_handling w)"

interpretation gate: step_order gate_step
  by unfold_locales (auto simp: gate_step_def)

lemma gate_rest:
  assumes "moves same_rest m"
  shows "moves gate_step m"
proof (rule movesI)
  fix w :: "'a server_world" and r w'
  assume "m w = (r, w')"
  then have "same_rest w w'" by (rule movesD [OF assms])
  then show "gate_step w w'" by (cases w; cases w') (simp add: same_rest_def gate_step_def)
qed

lemma rest_timed_call: "moves same_rest (timed_call slot c)"
proof -
  have "timed_call slot c w = (r, w') \<Longrightarrow> same_rest w w'" for w :: "'a net_world_scheme" and r w'
  proof (induction slot c w arbitrary: r w' rule: timed_call.induct)
    case (1 slot c w)
    obtain r1 w1 where r1: "set_timeout slot w = (r1, w1)" by force
    obtain r2 w2 where r2: "sys c w1 = (r2, w2)" by force
    obtain r3 w3 where r3: "remaining slot w2 = (r3, w3)" by force
    note same = movesD [OF rest_set_timeout r1] movesD [OF rest_sys r2] movesD [OF rest_remaining r3]
    have "w' \<in> {w1, w2, w3} \<or> timed_call slot c w3 = (r, w') \<and> (\<exists>u v. r1 = Inr u \<and> r2 = Inl InterruptedError \<and> r3 = Inr v)"
      using 1(2) r1 r2 r3 by (auto simp: timed_call.simps [of slot c w] split: sum.splits if_splits)
    then show ?case
    proof
      assume "timed_call slot c w3 = (r, w') \<and> (\<exists>u v. r1 = Inr u \<and> r2 = Inl InterruptedError \<and> r3 = Inr v)"
      then have "same_rest w3 w'" using 1(1) [OF r1 [symmetric] _ r2 [symmetric] _ _ r3 [symmetric]] by blast
      with same show ?thesis using rest.trans by blast
    qed (use same rest.trans in blast)
  qed
  then show ?thesis by (rule movesI)
qed

lemma rest_server_pieces: "moves same_rest (server_pieces n pieces)"
proof (induction n arbitrary: pieces rule: less_induct)
  case (less n)
  show ?case
  proof (cases "n = 0")
    case False
    have "moves same_rest (next_piece server_pieces n pieces a :: ('a net_world_scheme, string) act)" for a
      using False less by (auto simp: next_piece_def split: net_answer.splits intro: rest.lift)
    then show ?thesis unfolding server_some [OF False] by (intro rest.combinators rest_timed_call) simp
  qed (simp only: server_none rest.lift)
qed

lemma rest_send_from: "moves same_rest (send_from v offset)"
proof (induction "length v - offset" arbitrary: offset rule: less_induct)
  case less
  show ?case
  proof (cases "offset < length v")
    case True
    have "moves same_rest (next_send v offset a :: ('a net_world_scheme, unit) act)" for a
      using True less by (auto simp: next_send_def split: net_answer.splits intro: rest.lift)
    then show ?thesis unfolding send_from_more [OF True] by (intro rest.combinators rest_timed_call) simp
  next
    case False
    show ?thesis unfolding send_from_end [OF False] by (rule rest.lift)
  qed
qed

lemma gate_fds:
  "moves gate_step (fd_stat fd)" "moves gate_step (current_time now)" "moves gate_step (fd_close fd)"
  by (auto simp: moves_def gate_step_def fd_stat_def fd_close_def current_time_def time_now_def close_file_def fcall_def
      split: list.splits option.splits)

lemma gate_read_sealed: "moves gate_step (read_sealed_credential fd raw img now product_id)"
  unfolding read_sealed_credential_def Let_def by (intro gate.combinators gate_fds)

lemma gate_close_all: "moves gate_step (close_all fds)"
  by (induction fds) (auto intro!: gate.combinators gate_fds simp del: act_lift_apply)

lemma gate_receive_sealed: "moves gate_step (receive_sealed_header m)"
  unfolding receive_sealed_header_def Let_def case_prod_beta by (intro gate.combinators gate_close_all)

lemma gate_private_header: "moves gate_step receive_private_header"
proof (rule movesI)
  fix w :: "'a server_world" and r w'
  assume run: "receive_private_header w = (r, w')"
  obtain s w1 where s: "sys (Recvmsg 4) w = (s, w1)" by force
  have "gate_step w w1" by (rule movesD [OF gate_rest [OF rest_sys] s])
  moreover obtain m w2 where "receive_sealed_header m w2 = (r, w')" "gate_step w1 w2"
    using run s by (auto simp: receive_private_header_def gate_step_def split: sum.splits net_answer.splits)
  ultimately show "gate_step w w'" using movesD [OF gate_receive_sealed] gate.trans by metis
qed

lemma gate_updates:
  "moves gate_step (set_phase p)" "moves gate_step (capture_operations cn)" "moves gate_step enter_handling"
  "moves gate_step (\<lambda>w. (Inr (), w\<lparr>sv_credential_fd := f\<rparr>))" "moves gate_step (\<lambda>w. (Inr (), w\<lparr>sv_request_complete := b\<rparr>))"
  "moves gate_step (call_execute h raw fd)"
  by (auto simp: moves_def gate_step_def set_phase_def capture_operations_def enter_handling_def call_execute_def on_executor_def
      split: option.splits bool.splits prod.splits)

lemmas gate_steps = gate_updates gate_rest [OF rest_timed_call] gate_rest [OF rest_server_pieces] gate_rest [OF rest_send_from]
  gate_rest [OF rest_sys] gate_rest [OF rest_start] gate_rest [OF rest_remaining] gate_rest [OF rest_set_timeout]
  gate_private_header gate_read_sealed

lemma gate_serve: "moves gate_step (serve_connection pf h cn)"
proof -
  have "moves gate_step (authenticate_broker pf h cn)"
    unfolding authenticate_broker_def
    by (intro gate.combinators gate_steps) (auto split: net_answer.splits intro!: gate.combinators)
  moreover have "moves gate_step (receive_request h)"
    unfolding receive_request_def receive_header_def server_receive_exact_def Let_def case_prod_beta
    by (intro gate.combinators gate_steps)
  moreover have "moves gate_step (execute_request h raw)" for raw
  proof -
    have "moves gate_step (act_bind (act_lift (parse_canonical_request raw)) (\<lambda>request.
      act_bind (read_sealed_credential fd raw (xr_exact_image_reference request) None ''canary'') (\<lambda>_. call_execute h raw (Some fd))))" for fd
      by (intro gate.combinators gate_read_sealed gate_updates)
    then show ?thesis using gate_updates(6) [of h raw None] by (auto simp: moves_def execute_request_def split: option.splits)
  qed
  moreover have "moves gate_step (respond h x)" for x
    unfolding respond_def send_exact_def
    by (cases x) (auto intro!: gate.combinators gate_steps simp del: act_lift_apply)
  ultimately show ?thesis unfolding serve_connection_def by (intro gate.combinators)
qed

section \<open>The end of the connection\<close>

lemma close_connection_trace:
  assumes "close_connection (out, w) = (out', w')"
  shows "\<exists>tr. nw_trace w' = nw_trace w @ tr \<and> still tr \<and> (sv_close w \<longrightarrow> Close_Socket \<in> fst ` set tr)"
proof (cases "sv_close w")
  case True
  define slot where "slot = server_cleanup_slot w"
  obtain o1 w1 where 1: "defer_error note_first (check_cleanup slot) (out, w) = (o1, w1)" by force
  obtain o2 w2 where 2: "defer_error note_first (sys Close_Socket) (o1, w1) = (o2, w2)" by force
  have 3: "defer_error note_first (check_cleanup slot) (o2, w2) = (out', w')"
    using assms True 1 2 by (simp add: close_connection_def slot_def)
  obtain tr1 where tr1: "nw_trace w1 = nw_trace w @ tr1" "timing tr1" using attempt_timing [OF 1] by auto
  obtain a where a: "nw_trace w2 = nw_trace w1 @ [(Close_Socket, a)]" using attempt_call [OF 2] by auto
  obtain tr3 where "nw_trace w' = nw_trace w2 @ tr3" "timing tr3" using attempt_timing [OF 3] by auto
  with tr1 a show ?thesis by (intro exI [of _ "tr1 @ (Close_Socket, a) # tr3"]) (simp add: still_def)
qed (use assms in \<open>simp add: close_connection_def\<close>)

lemma close_credential_trace: "close_credential out w = (r, w') \<Longrightarrow> nw_trace w' = nw_trace w"
  using fd_close_trace [of _ w] by (auto simp: close_credential_def split: option.splits prod.splits sum.splits if_splits) (metis snd_conv)+

text \<open>Closing leaves the gate and the variable of the credential alone.\<close>

definition sv_gate :: "'w server_world \<Rightarrow> bool \<times> bool \<times> int option" where
  "sv_gate w = (sv_entered w, sv_handling w, sv_credential_fd w)"

lemma sv_gate_rest: "same_rest w w' \<Longrightarrow> sv_gate w' = sv_gate w"
  by (cases w; cases w') (simp add: same_rest_def sv_gate_def)

lemma attempt_rest: "defer_error note m (out, w) = (out', w') \<Longrightarrow> moves same_rest m \<Longrightarrow> same_rest w w'"
  by (auto simp: defer_error_def dest: movesD split: prod.splits sum.splits)

lemma rest_check: "moves same_rest (check_cleanup slot)"
  unfolding check_cleanup_def by (cases slot) (auto intro!: rest.combinators rest_remaining simp del: act_lift_apply)

lemma close_connection_gate: "close_connection (out, w) = (out', w') \<Longrightarrow> sv_gate w' = sv_gate w"
proof -
  assume run: "close_connection (out, w) = (out', w')"
  define slot where "slot = server_cleanup_slot w"
  obtain o1 w1 where 1: "defer_error note_first (check_cleanup slot) (out, w) = (o1, w1)" by force
  obtain o2 w2 where 2: "defer_error note_first (sys Close_Socket) (o1, w1) = (o2, w2)" by force
  obtain o3 w3 where 3: "defer_error note_first (check_cleanup slot) (o2, w2) = (o3, w3)" by force
  have "w' = w \<or> w' = w3" using run 1 2 3 by (auto simp: close_connection_def slot_def [symmetric] split: if_splits)
  then show ?thesis
    using attempt_rest [OF 1 rest_check] attempt_rest [OF 2 rest_sys] attempt_rest [OF 3 rest_check] by (auto simp: sv_gate_rest)
qed

lemma close_credential_gate: "close_credential out w = (r, w') \<Longrightarrow> sv_gate w' = sv_gate w"
  by (auto simp: close_credential_def fd_close_def fcall_def close_file_def sv_gate_def
      split: option.splits prod.splits sum.splits if_splits list.splits)

lemma close_connection_control:
  "oc_control (fst (close_connection (out, w))) = Some e \<Longrightarrow> oc_control out = Some e \<or> \<not> is_Exception e"
  by (auto simp: close_connection_def defer_error_def note_first_def Let_def split: if_splits prod.splits sum.splits)

lemma served_once_more: "served_once pf h tr \<Longrightarrow> still tr' \<Longrightarrow> served_once pf h (tr @ tr')"
  unfolding served_once_def still_def unserved_def by (fastforce simp: unserved_def)

lemma handle_run:
  assumes "handle pf h cn w = (r, w')"
  obtains s w1 w3 w4 tr tr' where "serve_connection pf h cn (fresh_locals w) = (s, w1)" "nw_trace w1 = nw_trace w @ tr"
    "nw_trace w' = nw_trace w @ tr @ tr'" "still tr'" "r = Inr () \<Longrightarrow> s = Inr ()"
    "\<And>e. r = Inl e \<Longrightarrow> e = ExecutorConnectionUnavailableError \<or> \<not> is_Exception e"
    "sv_gate w3 = sv_gate w1" "sv_gate w4 = sv_gate w1"
    "w' = w3 \<and> (\<exists>e. r = Inl e \<and> \<not> is_Exception e) \<and> sv_credential_fd w1 \<noteq> None \<or>
     w' = leave_handling w4 \<and> (sv_close w1 \<longrightarrow> Close_Socket \<in> fst ` set tr')"
proof -
  obtain s w1 where s: "serve_connection pf h cn (fresh_locals w) = (s, w1)" by force
  obtain out w2 where out: "note_failure s w1 = (out, w2)" by force
  have w2: "nw_trace w2 = nw_trace w1" "sv_credential_fd w2 = sv_credential_fd w1" "sv_close w2 = sv_close w1" "sv_gate w2 = sv_gate w1"
    using out by (auto simp: note_failure_def sv_gate_def split: sum.splits if_splits)
  obtain c w3 where c: "close_credential out w2 = (c, w3)" by force
  have w3: "nw_trace w3 = nw_trace w1" using close_credential_trace [OF c] w2(1) by simp
  have gate3: "sv_gate w3 = sv_gate w1" using close_credential_gate [OF c] w2(4) by simp
  have close3: "sv_close w3 = sv_close w2" 
    using c by (auto simp: close_credential_def fd_close_def fcall_def close_file_def split: option.splits prod.splits sum.splits if_splits list.splits)
  from traced_serve s obtain tr where tr: "nw_trace w1 = nw_trace (fresh_locals w) @ tr" by (rule traced_run) blast
  then have tr: "nw_trace w1 = nw_trace w @ tr" by (simp add: fresh_locals_def)
  show thesis
  proof (cases c)
    case (Inl e)
    then have "\<not> is_Exception e" "sv_credential_fd w1 \<noteq> None"
      using c w2(2) by (auto simp: close_credential_def split: option.splits prod.splits sum.splits if_splits)
    with Inl show thesis using assms s out c tr w3 gate3
      by (intro that [of s w1 tr "[]" w3 w3]) (auto simp: handle_def)
  next
    case (Inr out')
    obtain out'' w4 where cl: "close_connection (out', w3) = (out'', w4)" by force
    obtain tr' where tr': "nw_trace w4 = nw_trace w3 @ tr'" "still tr'" "sv_close w3 \<longrightarrow> Close_Socket \<in> fst ` set tr'"
      using close_connection_trace [OF cl] by blast
    have run: "r = (case oc_control out'' of Some e \<Rightarrow> Inl e
        | None \<Rightarrow> if oc_failed out'' \<or> s \<noteq> Inr () then Inl ExecutorConnectionUnavailableError else Inr ())"
      and w': "w' = leave_handling w4"
      using assms s out c Inr cl by (auto simp: handle_def)
    have ctl: "\<not> is_Exception e" if "oc_control out'' = Some e" for e
    proof -
      have "oc_control out' = Some e \<Longrightarrow> oc_control out = Some e"
        using c Inr by (auto simp: close_credential_def split: option.splits prod.splits sum.splits if_splits)
      moreover have "oc_control out = Some e \<Longrightarrow> \<not> is_Exception e"
        using out by (auto simp: note_failure_def note_first_def no_error_def split: sum.splits if_splits)
      ultimately show ?thesis using close_connection_control [of out' w3 e] cl that by auto
    qed
    show thesis
      using run ctl tr tr' w3 close3 w2(3) gate3 close_connection_gate [OF cl] by (intro that [of s w1 tr tr' w3 w4] s) (auto simp: w' leave_handling_def split: option.splits if_splits)
  qed
qed

text \<open>
  C11: The handler executes at most one request of a connection, and only after the peer credentials of the socket were
  those of the broker and the whole request, bounded and without a byte behind it, was read; nothing is written
  before.  This holds however the connection fails.  What is raised is the static connection error or a control exception.
\<close>

theorem handle_executes_only_authenticated:
  assumes "handle pf h cn w = (r, w')"
  shows "\<exists>tr. nw_trace w' = nw_trace w @ tr \<and>
    (writes tr = 0 \<and> executions tr = [] \<or>
     (\<exists>pre raw fd a post. tr = pre @ (Execute raw fd, a) # post \<and> writes pre = 0 \<and> executions pre = [] \<and> executions post = [] \<and>
        list_ex (broker_answer pf h) pre \<and> received pre = frame raw \<and> raw \<noteq> [] \<and> length raw \<le> MAX_CANONICAL_REQUEST_BYTES)) \<and>
    (\<forall>e. r = Inl e \<longrightarrow> e = ExecutorConnectionUnavailableError \<or> e \<in> {KeyboardInterrupt, SystemExit, GeneratorExit})"
  using assms
proof (cases rule: handle_run)
  case (1 s w1 w3 w4 tr tr')
  have "served_once pf h tr" using traced_serve 1(1) by (rule tracedE) (use 1(2) in \<open>auto simp: fresh_locals_def\<close>)
  then have "served_once pf h (tr @ tr')" using 1(4) by (rule served_once_more)
  then have "writes (tr @ tr') = 0 \<and> executions (tr @ tr') = [] \<or>
     (\<exists>pre raw fd a post. tr @ tr' = pre @ (Execute raw fd, a) # post \<and> writes pre = 0 \<and> executions pre = [] \<and> executions post = [] \<and>
        list_ex (broker_answer pf h) pre \<and> received pre = frame raw \<and> raw \<noteq> [] \<and> length raw \<le> MAX_CANONICAL_REQUEST_BYTES)"
    unfolding served_once_def unserved_def by blast
  moreover have "\<forall>e. r = Inl e \<longrightarrow> e = ExecutorConnectionUnavailableError \<or> e \<in> {KeyboardInterrupt, SystemExit, GeneratorExit}"
    using 1(6) by (auto simp: is_Exception_def)
  ultimately show ?thesis using 1(3) by blast
qed

lemma handle_answered:
  assumes "handle pf h cn w = (Inr (), w')"
  obtains tr where "nw_trace w' = nw_trace w @ tr" "answered_run h tr"
  using assms
proof (cases rule: handle_run)
  case (1 s w1 w3 w4 tr tr')
  have "answered_run h tr"
    using traced_serve 1(1) by (rule tracedE) (use 1(2,5) in \<open>auto simp: fresh_locals_def\<close>)
  moreover have "written tr' = []" "received tr' = []" "executions tr' = []" using 1(4) by (simp_all add: still_def unserved_def)
  ultimately have "answered_run h (tr @ tr')" by (simp add: answered_run_def)
  with 1(3) that show thesis by blast
qed

lemma handle_answered_part:
  assumes "handle pf h cn w = (r, w')"
  obtains tr where "nw_trace w' = nw_trace w @ tr" "answered_part h tr"
  using assms
proof (cases rule: handle_run)
  case (1 s w1 w3 w4 tr tr')
  have "answered_part h tr"
    using traced_serve 1(1) by (rule tracedE) (use 1(2) answered_run_part in \<open>auto simp: fresh_locals_def\<close>)
  moreover have "written tr' = []" "received tr' = []" "executions tr' = []" using 1(4) by (simp_all add: still_def unserved_def)
  ultimately have "answered_part h (tr @ tr')" by (simp add: answered_part_def)
  with 1(3) that show thesis by blast
qed

text \<open>
  C30: When the handler returns, exactly one request was executed, the bytes read are that request behind its four-byte
  length, the executor's response is a canonical response within the bound, and the bytes written are that response behind its
  four-byte length.
\<close>

theorem handle_answers_the_execution:
  assumes "handle pf h cn w = (Inr (), w')"
  shows "\<exists>tr raw fd b p. nw_trace w' = nw_trace w @ tr \<and> executions tr = [(raw, fd, Gives_Bytes b)] \<and> received tr = frame raw \<and>
    written tr = frame b \<and> length b \<le> MAX_EXECUTOR_RESPONSE_BYTES \<and> parse_canonical_response b = Inr p \<and>
    (\<exists>e e'. hd_execute h raw fd e = (Inr (Bytes b), e'))"
  by (rule handle_answered [OF assms]) (unfold answered_run_def executor_ran_def, blast)

text \<open>
  A connection leaves the gate of its handler as it found it.  A handler that was free is free again afterwards, unless a
  control exception interrupted closing the received credential; a handler that was busy stays busy, and the second
  connection is neither read nor written nor executed but refused.
\<close>

theorem handle_leaves_gate:
  assumes "handle pf h cn w = (r, w')"
  shows "(\<not> sv_handling w \<and> sv_handling w' \<longrightarrow> sv_credential_fd w' \<noteq> None \<and> r \<in> Inl ` {KeyboardInterrupt, SystemExit, GeneratorExit}) \<and>
    (sv_handling w \<longrightarrow> sv_handling w' \<and> r \<noteq> Inr () \<and>
      (\<exists>tr. nw_trace w' = nw_trace w @ tr \<and> writes tr = 0 \<and> reads tr = 0 \<and> executions tr = []))"
proof -
  obtain s w1 w3 w4 tr tr' where run: "serve_connection pf h cn (fresh_locals w) = (s, w1)" "nw_trace w1 = nw_trace w @ tr"
      "nw_trace w' = nw_trace w @ tr @ tr'" "still tr'" "r = Inr () \<Longrightarrow> s = Inr ()"
    and gate: "sv_gate w3 = sv_gate w1" "sv_gate w4 = sv_gate w1"
    and last: "w' = w3 \<and> (\<exists>e. r = Inl e \<and> \<not> is_Exception e) \<and> sv_credential_fd w1 \<noteq> None \<or> w' = leave_handling w4"
    using assms by (rule handle_run) blast
  have step: "gate_step (fresh_locals w) w1" by (rule movesD [OF gate_serve run(1)])
  have "sv_credential_fd w' \<noteq> None \<and> r \<in> Inl ` {KeyboardInterrupt, SystemExit, GeneratorExit}" if "\<not> sv_handling w" "sv_handling w'"
    using last
  proof
    assume "w' = leave_handling w4"
    then show ?thesis using that step gate(2) by (auto simp: leave_handling_def gate_step_def sv_gate_def fresh_locals_def split: if_splits)
  qed (use gate(1) in \<open>auto simp: sv_gate_def is_Exception_def\<close>)
  moreover have "sv_handling w' \<and> r \<noteq> Inr () \<and> (\<exists>tr. nw_trace w' = nw_trace w @ tr \<and> writes tr = 0 \<and> reads tr = 0 \<and> executions tr = [])"
    if busy: "sv_handling w"
  proof -
    have refused: "(\<exists>e. s = Inl e) \<and> nw_trace w1 = nw_trace w \<and> sv_gate w1 = (False, True, None)"
      using busy run(1)
      by (auto simp: serve_connection_def authenticate_broker_def act_bind_def capture_operations_def enter_handling_def
          sv_gate_def fresh_locals_def connection_operations_def split: option.splits bool.splits sum.splits if_splits)
    then have "sv_handling w'" using last gate by (auto simp: sv_gate_def leave_handling_def)
    moreover have "r \<noteq> Inr ()" using refused run(5) by auto
    ultimately show ?thesis using refused run(2-4) by (auto simp: still_def unserved_def)
  qed
  ultimately show ?thesis by blast
qed

text \<open>
  An interrupt while the credential's descriptor is closed ends the \<open>finally\<close> block: the connection is not closed and the
  gate stays as the body left it, so that the handler refuses every later connection.
\<close>

lemma interrupted_close_keeps_gate:
  assumes "serve_connection pf h cn (fresh_locals w) = (s, w1)" and "sv_credential_fd w1 = Some fd"
    and "fd_close fd (snd (note_failure s w1)) = (Inl KeyboardInterrupt, w3)"
  shows "handle pf h cn w = (Inl KeyboardInterrupt, w3)" "sv_handling w3 = sv_handling w1" "nw_trace w3 = nw_trace w1"
proof -
  obtain out w2 where out: "note_failure s w1 = (out, w2)" by force
  then have w2: "sv_credential_fd w2 = Some fd" "sv_gate w2 = sv_gate w1" "nw_trace w2 = nw_trace w1"
    using assms(2) by (auto simp: note_failure_def sv_gate_def split: sum.splits if_splits)
  have c: "close_credential out w2 = (Inl KeyboardInterrupt, w3)"
    using assms(3) out w2(1) by (simp add: close_credential_def is_Exception_def)
  show "handle pf h cn w = (Inl KeyboardInterrupt, w3)" using assms(1) out c by (simp add: handle_def)
  show "sv_handling w3 = sv_handling w1" using close_credential_gate [OF c] w2(2) by (simp add: sv_gate_def)
  show "nw_trace w3 = nw_trace w1" using close_credential_trace [OF c] w2(3) by simp
qed

section \<open>A connection that is answered well\<close>

definition handler_for :: "(string \<Rightarrow> int option \<Rightarrow> ('w exec_world, reply) act) \<Rightarrow> 'w handler" where
  "handler_for execute = \<lparr>hd_execute = execute, hd_uid = 991, hd_gid = 991, hd_timeout_ms = 3000, hd_private = False\<rparr>"

lemma handler_for_fields [simp]:
  "hd_timeout_ms (handler_for ex) = 3000" "hd_private (handler_for ex) = False" "hd_execute (handler_for ex) = ex"
  by (simp_all add: handler_for_def)

definition sample_connection :: connection where
  "sample_connection = map (\<lambda>name. (name, True)) (''close'' # CONNECTION_OPERATIONS)"

text \<open>A timed call that is answered at once.\<close>

definition at_once :: "net_answer \<Rightarrow> net_answer list" where "at_once a = [TICK, Gives_None, a, TICK]"

definition server_answers :: "string \<Rightarrow> string \<Rightarrow> net_answer list" where
  "server_answers raw response =
     [TICK, Gives_Bool False, TICK] @ at_once (Gives_Int 1) @ at_once (Gives_Int 1) @ at_once (Gives_Bytes sample_peer) @
     at_once (Gives_Bytes (take 4 (frame raw))) @ at_once (Gives_Bytes raw) @ at_once (Gives_Bytes []) @
     [TICK] @ at_once (Gives_Int 4) @ at_once (Gives_Int (int (length response))) @ at_once Gives_None @
     [TICK, Gives_None, TICK]"

definition server_world_for :: "'w exec_world \<Rightarrow> string \<Rightarrow> string \<Rightarrow> 'w server_world" where
  "server_world_for x raw response = \<lparr>fw_files = fw_files x, fw_next = fw_next x, fw_faults = fw_faults x,
     fw_short_writes = fw_short_writes x, fw_clock = fw_clock x, fw_ticks = fw_ticks x,
     nw_answers = server_answers raw response, nw_trace = [], nw_monotonic = None, nw_request_deadline = None,
     nw_response_deadline = None, sv_env = xw_env x, sv_active = xw_active x, sv_private = xw_private x, sv_log = xw_log x,
     sv_handling = False, sv_entered = False, sv_close = False, sv_request_complete = False, sv_credential_fd = None, sv_phase = []\<rparr>"

lemma tick_timed_call:
  assumes "nw_answers w = at_once a @ rest" and "answer_returned a" and "nw_monotonic w = Some 0"
    and "deadline_of slot w = Some \<lparr>dd_deadline = d, dd_last = 0\<rparr>" and "to_float d = Number d" and "0 < d"
  shows "timed_call slot c w =
    (Inr a, w\<lparr>nw_answers := rest, nw_trace := nw_trace w @ [(Monotonic, TICK), (Set_Timeout d, Gives_None), (c, a), (Monotonic, TICK)]\<rparr>)"
proof -
  have same: "deadline_of slot (w\<lparr>nw_answers := x, nw_trace := y\<rparr>) = deadline_of slot w" for x y by (cases slot) simp_all
  show ?thesis using assms
    by (simp add: timed_call.simps [of slot c w] at_once_def tick_timeout [where d = d] sys_answer tick_remaining [where d = d] same)
qed

lemma sample_peer_unpacked: "peer_unpack True sample_peer = (7, 991, 991)"
  by code_simp

lemma server_run:
  assumes raw: "raw \<noteq> []" "length raw \<le> MAX_CANONICAL_REQUEST_BYTES"
    and response: "response \<noteq> []" "length response \<le> MAX_EXECUTOR_RESPONSE_BYTES" "parse_canonical_response response = Inr p"
    and ex: "ex raw None x = (Inr (Bytes response), x')"
  shows "\<exists>w'. handle sample_platform (handler_for ex) sample_connection (server_world_for x raw response) = (Inr (), w') \<and>
    received (nw_trace w') = frame raw \<and> written (nw_trace w') = frame response"
proof -
  obtain hr where hr: "to_bytes4 (length raw) = Inr hr" "take 4 (frame raw) = hr" "length hr = 4" "hr \<noteq> []" "from_bytes hr = length raw"
    by (rule frame_header [of raw]) (use raw(2) in \<open>simp_all add: MAX_CANONICAL_REQUEST_BYTES_def\<close>)
  obtain h where h: "to_bytes4 (length response) = Inr h" "length h = 4" "h \<noteq> []"
    by (rule frame_header [of response]) (use response(2) in \<open>simp_all add: MAX_EXECUTOR_RESPONSE_BYTES_def\<close>)
  have peer: "length sample_peer = 12" "broker_peer (handler_for ex) (peer_unpack True sample_peer)"
    using sample_peer_unpacked sample_trusted(1) by (simp_all add: broker_peer_def handler_for_def)
  have cn: "map_of sample_connection ''close'' = Some True" "connection_operations sample_connection = Inr ()" by code_simp+
  have one: "1 \<le> length response" using response(1) by (cases response) simp_all
  show ?thesis using raw response hr h one ex frame_eq [OF hr(1)] frame_eq [OF h(1)]
    by (cases x) (simp add: handle_def serve_connection_def authenticate_broker_def capture_operations_def cn enter_handling_def
        receive_request_def receive_header_def server_receive_exact_def server_none server_some next_piece_def
        execute_request_def call_execute_def on_executor_def respond_def send_exact_def send_from_more send_from_end next_send_def
        set_phase_def act_bind_def sys_answer tick_start tick_remaining tick_timed_call sample_times peer fresh_locals_def
        server_world_for_def server_answers_def sample_platform_def
        AF_UNIX_def SOCK_STREAM_def PEER_CREDENTIALS_SIZE_def
        note_failure_def close_credential_def close_connection_def server_cleanup_slot_def check_cleanup_def defer_error_def no_error_def
        leave_handling_def Let_def)
qed

definition sample_response :: string where "sample_response = build_success_response sample_hash"

definition sample_handler :: "unit handler" where
  "sample_handler = handler_for (\<lambda>raw fd w. (Inr (Bytes sample_response), w))"

definition sample_server_world :: "unit server_world" where
  "sample_server_world = server_world_for \<lparr>fw_files = [], fw_next = 3, fw_faults = [], fw_short_writes = [], fw_clock = (\<lambda>_. 0), fw_ticks = 0,
     xw_env = (), xw_active = False, xw_private = None, xw_log = []\<rparr> ''hi'' sample_response"

lemma success_response_ok:
  assumes "valid_sha256 hash"
  shows "build_success_response hash \<noteq> []" "length (build_success_response hash) \<le> MAX_EXECUTOR_RESPONSE_BYTES"
    "parse_canonical_response (build_success_response hash) = Inr (success hash)"
  by (simp_all add: assms length_success success_parses) (simp add: build_success_response_def QUOTED_def)

lemma sample_handle:
  obtains w' where "handle sample_platform sample_handler sample_connection sample_server_world = (Inr (), w')"
proof -
  have "valid_sha256 sample_hash" by code_simp
  note ok = success_response_ok [OF this]
  show thesis
    using that server_run [OF sample_bounds(1,2) ok, of "\<lambda>raw fd w. (Inr (Bytes sample_response), w)"]
    unfolding sample_handler_def sample_server_world_def sample_response_def by blast
qed

text \<open>
  For every bounded request, when the calls are answered well, the clock stays before the deadlines and the executor returns a
  canonical response, the handler returns, having read exactly that request and written exactly that response.
\<close>

theorem handle_returns:
  assumes "raw \<noteq> []" "length raw \<le> MAX_CANONICAL_REQUEST_BYTES"
    and "response \<noteq> []" "length response \<le> MAX_EXECUTOR_RESPONSE_BYTES" "parse_canonical_response response = Inr p"
    and "ex raw None x = (Inr (Bytes response), x')"
  shows "\<exists>w'. handle sample_platform (handler_for ex) sample_connection (server_world_for x raw response) = (Inr (), w') \<and>
    received (nw_trace w') = frame raw \<and> written (nw_trace w') = frame response"
  using assms by (rule server_run)

theorem handle_returns_witness:
  "\<exists>w'. handle sample_platform sample_handler sample_connection sample_server_world = (Inr (), w') \<and>
     received (nw_trace w') = frame ''hi'' \<and> written (nw_trace w') = frame sample_response"
proof -
  have "valid_sha256 sample_hash" by code_simp
  from handle_returns [OF sample_bounds(1,2) success_response_ok [OF this], of "\<lambda>raw fd w. (Inr (Bytes sample_response), w)"]
  show ?thesis unfolding sample_handler_def sample_server_world_def sample_response_def by blast
qed

theorem handle_executes_only_authenticated_witness:
  "\<exists>w' pre raw fd a post. handle sample_platform sample_handler sample_connection sample_server_world = (Inr (), w') \<and>
     nw_trace w' = nw_trace sample_server_world @ pre @ (Execute raw fd, a) # post \<and> writes pre = 0 \<and> received pre = frame raw"
proof -
  obtain w' where run: "handle sample_platform sample_handler sample_connection sample_server_world = (Inr (), w')"
    using sample_handle .
  obtain tr where tr: "nw_trace w' = nw_trace sample_server_world @ tr" "executions tr \<noteq> []"
    by (rule handle_answered [OF run]) (force simp: answered_run_def)
  from handle_executes_only_authenticated [OF run] obtain tr2 where
    "nw_trace w' = nw_trace sample_server_world @ tr2" and
    disj: "writes tr2 = 0 \<and> executions tr2 = [] \<or>
     (\<exists>pre raw fd a post. tr2 = pre @ (Execute raw fd, a) # post \<and> writes pre = 0 \<and> executions pre = [] \<and> executions post = [] \<and>
        list_ex (broker_answer sample_platform sample_handler) pre \<and> received pre = frame raw \<and> raw \<noteq> [] \<and>
        length raw \<le> MAX_CANONICAL_REQUEST_BYTES)" by (elim exE conjE)
  with tr have "tr2 = tr" by simp
  with disj tr(2) obtain pre raw fd a post where
    "tr = pre @ (Execute raw fd, a) # post" "writes pre = 0" "received pre = frame raw" by blast
  with run tr(1) show ?thesis by blast
qed

theorem handle_answers_the_execution_witness:
  "\<exists>w' tr raw b. handle sample_platform sample_handler sample_connection sample_server_world = (Inr (), w') \<and>
     nw_trace w' = nw_trace sample_server_world @ tr \<and> received tr = frame raw \<and> written tr = frame b \<and>
     b = sample_response"
proof -
  obtain w' where run: "handle sample_platform sample_handler sample_connection sample_server_world = (Inr (), w')"
    using sample_handle .
  from handle_answers_the_execution [OF run] show ?thesis using run by (auto simp: sample_handler_def)
qed

theorem handle_leaves_gate_witness:
  "\<exists>r w'. handle sample_platform sample_handler sample_connection sample_server_world = (r, w') \<and> \<not> sv_handling w' \<and>
     handle sample_platform sample_handler sample_connection (sample_server_world\<lparr>sv_handling := True\<rparr>) \<noteq> (Inr (), w')"
proof -
  obtain w' where run: "handle sample_platform sample_handler sample_connection sample_server_world = (Inr (), w')"
    using sample_handle .
  moreover have "\<not> sv_handling w'" using handle_leaves_gate [OF run] by (simp add: sample_server_world_def server_world_for_def image_iff)
  moreover have "handle sample_platform sample_handler sample_connection (sample_server_world\<lparr>sv_handling := True\<rparr>) \<noteq> (Inr (), w')"
    using handle_leaves_gate [of sample_platform sample_handler sample_connection "sample_server_world\<lparr>sv_handling := True\<rparr>" "Inr ()" w'] by auto
  ultimately show ?thesis by blast
qed

end
