(* ===== verification/Exchange.thy ===== *)
theory Exchange
  imports Server_Run
begin

text \<open>
  The two ends together: the broker's transport (\<open>src/deployment/unix_transport.py\<close>), the executor's connection handler
  (\<open>src/deployment/executor_server.py\<close>) and the executor (\<open>src/deployment/executor.py\<close>), joined by a stream that
  delivers to each end what the other wrote.
\<close>

section \<open>The executor behind the handler\<close>

text \<open>\<open>execute\<close> without a credential descriptor and \<open>execute_private\<close> with one, as the handler binds them.\<close>

definition executor_method :: "'w executor \<Rightarrow> string \<Rightarrow> int option \<Rightarrow> ('w exec_world, reply) act" where
  "executor_method x raw fd =
     act_bind (case fd of None \<Rightarrow> executor_execute x (Bytes raw) | Some d \<Rightarrow> execute_private x raw d) (\<lambda>b. act_lift (Inr (Bytes b)))"

lemma in_phase_Inr: "in_phase p m w = (Inr y, w') \<longleftrightarrow> m w = (Inr y, w')"
  by (auto simp: in_phase_def split: prod.splits sum.splits if_splits)

lemma scoped_Inr:
  "scoped_private_zot_request fd raw body w = (Inr y, w') \<Longrightarrow> \<exists>u u'. body u = (Inr y, u')"
  by (auto simp: scoped_private_zot_request_def split: if_splits prod.splits)

text \<open>Either way, a response comes from a run of \<open>execute\<close>.\<close>

lemma executor_method_Inr:
  assumes "executor_method x raw fd w = (Inr (Bytes b), w')"
  shows "\<exists>u u'. executor_execute x (Bytes raw) u = (Inr b, u')"
proof (cases fd)
  case None
  then show ?thesis using assms by (auto simp: executor_method_def act_bind_Inr_iff)
next
  case (Some d)
  then obtain w1 where "execute_private x raw d w = (Inr b, w1)" using assms by (auto simp: executor_method_def act_bind_Inr_iff)
  then obtain v v' where "scoped_private_zot_request d raw (executor_execute x (Bytes raw)) v = (Inr b, v')"
    by (auto simp: execute_private_def act_bind_Inr_iff in_phase_Inr split: option.splits)
  then show ?thesis by (rule scoped_Inr)
qed

section \<open>Both ends\<close>

lemma sent_and_returned:
  assumes "transport_send_with pf t (Bytes raw) fd w = (Inr response, w')" and "nw_trace w' = nw_trace w @ tr"
  shows "written tr = frame raw" "received tr = frame response"
  using assms(1) by (cases rule: send_cases; use assms(2) in simp)+

lemma returned_bound:
  assumes "transport_send_with pf t (Bytes raw) fd w = (Inr response, w')"
  shows "length response \<le> MAX_EXECUTOR_RESPONSE_BYTES"
  using assms by (cases rule: send_cases) simp_all

text \<open>A frame within the bound is not a proper beginning of another one.\<close>

lemma frame_beginning:
  assumes "frame b = frame c @ rest" and "length b \<le> MAX_EXECUTOR_RESPONSE_BYTES" and "length c \<le> MAX_EXECUTOR_RESPONSE_BYTES"
  shows "b = c"
proof -
  have bytes: "to_bytes4 (length x) = Inr (take 4 (frame x))" if "length x \<le> MAX_EXECUTOR_RESPONSE_BYTES" for x :: string
    using that by (simp add: to_bytes4_def frame_def MAX_EXECUTOR_RESPONSE_BYTES_def)
  have "take 4 (frame b) = take 4 (frame c)" unfolding assms(1) by (simp add: frame_def)
  then have "length b = length c"
    using to_bytes4_Inr(2) [OF bytes [OF assms(2)]] to_bytes4_Inr(2) [OF bytes [OF assms(3)]] by simp
  then show ?thesis using assms(1) by (simp add: frame_def)
qed

text \<open>
  C7: From end to end.  When the broker's transport returns a response and the stream delivered to each end the bytes
  the other wrote, then, however the handler itself ended, it executed exactly one request, the one that was sent, and the
  transport returned exactly the executor's response.  With the executor behind the handler, the request parsed,
  \<open>begin_execution\<close>, \<open>deploy\<close> and \<open>finish_execution\<close> each returned \<open>None\<close> for it in this order, and the response names
  the SHA-256 of the bytes sent.
\<close>

theorem exchange_runs_the_request:
  assumes client: "transport_send_with pf t (Bytes raw) credential w = (Inr response, w')" "nw_trace w' = nw_trace w @ sent"
    and server: "handle pf' h cn v = (r, v')" "nw_trace v' = nw_trace v @ served"
    and stream: "received served = written sent" "received sent = written served"
    and executor: "hd_execute h = executor_method x"
  shows "\<exists>fd request e e1 e2 e3. executions served = [(raw, fd, Gives_Bytes response)] \<and>
    parse_canonical_request raw = Inr request \<and>
    ex_begin x (xr_oidc_jti request) (sha256_hex raw) (xr_github_run_id request) (xr_github_run_attempt request) e = (Inr PNone, e1) \<and>
    ex_deploy x request e1 = (Inr PNone, e2) \<and>
    ex_finish x (xr_oidc_jti request) (sha256_hex raw) (xr_github_run_id request) (xr_github_run_attempt request) e2 = (Inr PNone, e3) \<and>
    parse_canonical_response response = Inr (success (sha256_hex raw))"
proof -
  obtain tr where tr: "nw_trace v' = nw_trace v @ tr" "answered_part h tr" using server(1) by (rule handle_answered_part)
  then have "tr = served" using server(2) by simp
  note ends = sent_and_returned [OF client]
  have "written served \<noteq> []" using ends(2) stream(2) by (simp add: frame_def)
  with tr(2) \<open>tr = served\<close> obtain raw' fd b rest where served: "executions served = [(raw', fd, Gives_Bytes b)]"
    "received served = frame raw'" "frame b = written served @ rest" "length b \<le> MAX_EXECUTOR_RESPONSE_BYTES"
    "executor_ran h raw' fd (Bytes b)"
    by (auto simp: answered_part_def)
  have same: "raw' = raw" "b = response"
    using ends served(2-4) stream returned_bound [OF client(1)] frame_beginning by simp_all
  obtain u u' where "executor_execute x (Bytes raw) u = (Inr response, u')"
    using served(5) executor_method_Inr unfolding executor_ran_def executor same by blast
  from executor_execute_Inr [OF this] served(1) same show ?thesis by blast
qed

theorem exchange_runs_the_request_witness:
  "\<exists>w' v' fd. transport_send_with sample_platform sample_transport (Bytes (exec_canonical_bytes sample_exec)) None
       (client_world_for (build_success_response (sha256_hex (exec_canonical_bytes sample_exec)))) =
       (Inr (build_success_response (sha256_hex (exec_canonical_bytes sample_exec))), w') \<and>
     handle sample_platform (handler_for (executor_method sample_executor)) sample_connection
       (server_world_for sample_exec_world (exec_canonical_bytes sample_exec)
         (build_success_response (sha256_hex (exec_canonical_bytes sample_exec)))) = (Inr (), v') \<and>
     executions (nw_trace v') = [(exec_canonical_bytes sample_exec, fd,
       Gives_Bytes (build_success_response (sha256_hex (exec_canonical_bytes sample_exec))))]"
proof -
  define raw where "raw = exec_canonical_bytes sample_exec"
  define response where "response = build_success_response (sha256_hex raw)"
  have raw: "raw \<noteq> []" "length raw \<le> MAX_CANONICAL_REQUEST_BYTES"
    using sample_exec_parses unfolding raw_def parse_canonical_request_Inr by blast+
  have "valid_sha256 (sha256_hex raw)" by (simp add: valid_sha256_iff)
  note ok = success_response_ok [OF this, folded response_def]
  obtain x' where ex: "executor_method sample_executor raw None sample_exec_world = (Inr (Bytes response), x')"
    using sample_executor_runs unfolding raw_def response_def by (auto simp: executor_method_def act_bind_def)
  obtain w' where c: "transport_send_with sample_platform sample_transport (Bytes raw) None (client_world_for response) = (Inr response, w')"
    using client_run [OF raw ok(1,2)] by blast
  obtain v' where s: "handle sample_platform (handler_for (executor_method sample_executor)) sample_connection
      (server_world_for sample_exec_world raw response) = (Inr (), v')"
    "received (nw_trace v') = frame raw" "written (nw_trace v') = frame response"
    using server_run [where ex = "executor_method sample_executor" and x = sample_exec_world, OF raw ok ex] by blast
  have t: "nw_trace w' = nw_trace (client_world_for response) @ nw_trace w'"
    "nw_trace v' = nw_trace (server_world_for sample_exec_world raw response) @ nw_trace v'"
    by (simp_all add: client_world_for_def server_world_for_def)
  note sent = sent_and_returned [OF c t(1)]
  from exchange_runs_the_request [OF c t(1) s(1) t(2), of sample_executor] sent s
  obtain fd where "executions (nw_trace v') = [(raw, fd, Gives_Bytes response)]" by auto
  with c s(1) show ?thesis unfolding raw_def response_def by blast
qed

end
