(* ===== verification/Store.thy ===== *)
theory Store
  imports State Execution Traced
begin

text \<open>
  \<open>src/deployment/state_store.py\<close>: the load and save collaborator of the deployment operation on one fixed
  path.  Every call of the operating system takes the next answer of an arbitrary schedule and is recorded
  with it, as in the transport; the dictionary \<open>owned\<close> and the gate of active operations are part of the world.
  What the recorded calls do to a disk is the subject of \<open>Store_Disk\<close>.
\<close>

unbundle bit_operations_syntax

section \<open>Calls and answers\<close>

text \<open>
  One constructor per call and set of flags: \<open>directory_flags\<close>, \<open>read_flags\<close> and \<open>create_flags\<close> of \<open>os.open\<close>,
  the lock and unlock of \<open>fcntl.flock\<close>; \<open>os.scandir\<close> with the \<open>next\<close> and \<open>close\<close> of its iterator.
\<close>

datatype os_call =
    Os_Open_Directory "int option" string | Os_Open_Read int string | Os_Open_Create int string nat
  | Os_Close int | Os_Get_Inheritable int | Os_Stat_At "int option" string | Os_Fstat int
  | Os_Read int nat | Os_Write int string | Os_Fsync int | Os_Replace int string string | Os_Unlink int string
  | Os_Scandir int | Os_Scan_Next int | Os_Scan_Close int | Os_Lock int | Os_Unlock int

text \<open>
  A \<open>stat\<close> result is its tuple; \<open>Os_Entry\<close> is a directory entry with the value of its \<open>name\<close>; \<open>Os_Stop\<close> is
  \<open>StopIteration\<close>, which only \<open>next\<close> raises; \<open>Os_Other\<close> is any other object.
\<close>

datatype os_answer =
    Os_Raises exn | Os_None | Os_Bool bool | Os_Int int | Os_Bytes string | Os_Stat "pyval list"
  | Os_Entry pyval | Os_Stop | Os_Other

text \<open>\<open>sw_handling\<close> is the exception that the caller is handling, if any: \<open>sys.exception()\<close> sees it.\<close>

record store_world =
  sw_answers :: "os_answer list"
  sw_trace :: "(os_call \<times> os_answer) list"
  sw_owned :: "(int \<times> bool) list"
  sw_active :: "string list"
  sw_handling :: "exn option"

definition os :: "os_call \<Rightarrow> (store_world, os_answer) act" where
  "os c w =
     (let a = (case sw_answers w of [] \<Rightarrow> Os_Raises OSError | a # _ \<Rightarrow> a);
          w' = w\<lparr>sw_answers := tl (sw_answers w), sw_trace := sw_trace w @ [(c, a)]\<rparr> in
      (case a of Os_Raises e \<Rightarrow> (Inl e, w') | _ \<Rightarrow> (Inr a, w')))"

text \<open>\<open>if call(...) is not None: raise OSError\<close>\<close>

definition os_none :: "os_call \<Rightarrow> (store_world, unit) act" where
  "os_none c = act_bind (os c) (\<lambda>a. act_lift (if a = Os_None then Inr () else Inl OSError))"

section \<open>Configuration\<close>

definition PRODUCTION_DEV_STATE_PATH :: string where
  "PRODUCTION_DEV_STATE_PATH = ''/var/lib/omnilyzer/deployment/dev/state.json''"

definition STORE_DIRECTORY_MODE :: int where "STORE_DIRECTORY_MODE = 0x1C0"
definition STORE_FILE_MODE :: int where "STORE_FILE_MODE = 0x180"

text \<open>A reviewed sibling directory: its name, owner, group and permissions.\<close>

type_synonym sibling = "string \<times> int \<times> int \<times> int"

definition PRODUCTION_STATE_SIBLING_DIRECTORIES :: "sibling list" where
  "PRODUCTION_STATE_SIBLING_DIRECTORIES =
     [(''canary-runtime'', 991, 503216, 0x1F8), (''nginx-runtime'', 991, 991, 0x1ED)]"

definition MAX_STATE_BYTES :: nat where "MAX_STATE_BYTES = 16 * 1024"
definition MAX_READ_CALLS :: nat where "MAX_READ_CALLS = 64"
definition MAX_WRITE_CALLS :: nat where "MAX_WRITE_CALLS = 64"
definition STORE_MAX_IDENTITY_VALUE :: int where "STORE_MAX_IDENTITY_VALUE = 2 ^ 32 - 2"
definition TEMPORARY_NAME :: string where "TEMPORARY_NAME = ''.state.json.tmp''"

record store_configuration =
  sc_path :: string
  sc_components :: "string list"
  sc_state_name :: string
  sc_temporary_name :: string
  sc_owned_start :: nat
  sc_owner_uid :: int
  sc_group_gid :: int
  sc_state_file_mode :: nat
  sc_siblings :: "sibling list"

definition store_configuration_integer :: "pyval \<Rightarrow> int result" where
  "store_configuration_integer v =
     (case v of PInt i \<Rightarrow> if 0 \<le> i \<and> i \<le> STORE_MAX_IDENTITY_VALUE then Inr i else Inl TypeError | _ \<Rightarrow> Inl TypeError)"

definition valid_part :: "string \<Rightarrow> bool" where
  "valid_part part \<longleftrightarrow> part \<notin> set [[], ''.'', ''..''] \<and> CHR 0x00 \<notin> set part"

definition valid_sibling :: "string \<Rightarrow> string list \<Rightarrow> sibling \<Rightarrow> bool" where
  "valid_sibling state_name seen s =
     (case s of (name, uid, gid, mode) \<Rightarrow>
        name \<noteq> [] \<and> CHR ''/'' \<notin> set name \<and> CHR 0x5C \<notin> set name \<and> CHR 0x00 \<notin> set name \<and>
        name \<notin> set [''.'', ''..'', state_name, TEMPORARY_NAME] \<and> name \<notin> set seen \<and>
        0 \<le> uid \<and> uid \<le> STORE_MAX_IDENTITY_VALUE \<and> 0 \<le> gid \<and> gid \<le> STORE_MAX_IDENTITY_VALUE \<and>
        0 \<le> mode \<and> mode < 0x200)"

fun valid_siblings :: "string \<Rightarrow> string list \<Rightarrow> sibling list \<Rightarrow> bool" where
  "valid_siblings state_name seen [] = True"
| "valid_siblings state_name seen (s # ss) = (valid_sibling state_name seen s \<and> valid_siblings state_name (fst s # seen) ss)"

text \<open>The platform has the open and lock flags.\<close>

definition build_configuration ::
    "string \<Rightarrow> int \<Rightarrow> int \<Rightarrow> int \<Rightarrow> nat \<Rightarrow> sibling list \<Rightarrow> store_configuration result" where
  "build_configuration path owner_uid group_gid owned_start state_file_mode siblings =
     (let parts = split_on (CHR ''/'') path; components = butlast (tl parts) in
      if take 1 path \<noteq> ''/'' \<or> take 2 path = ''//'' then Inl TypeError
      else if length parts < 3 \<or> hd parts \<noteq> [] \<or> \<not> list_all valid_part (tl parts) then Inl TypeError
      else if \<not> (0 \<le> owned_start \<and> owned_start < int (length components)) then Inl TypeError
      else if \<not> valid_siblings (last parts) [] siblings then Inl TypeError
      else Inr \<lparr>sc_path = path, sc_components = components, sc_state_name = last parts,
             sc_temporary_name = TEMPORARY_NAME, sc_owned_start = nat owned_start, sc_owner_uid = owner_uid,
             sc_group_gid = group_gid, sc_state_file_mode = state_file_mode, sc_siblings = siblings\<rparr>)"

text \<open>\<open>FilesystemDeploymentStateStore.__init__\<close>\<close>

definition store_init :: "pyval \<Rightarrow> pyval \<Rightarrow> store_configuration result" where
  "store_init expected_owner_uid expected_group_gid =
     bnd (store_configuration_integer expected_owner_uid) (\<lambda>owner_uid.
     bnd (store_configuration_integer expected_group_gid) (\<lambda>group_gid.
     build_configuration PRODUCTION_DEV_STATE_PATH owner_uid group_gid 4 (nat STORE_FILE_MODE)
       PRODUCTION_STATE_SIBLING_DIRECTORIES))"

section \<open>Metadata\<close>

text \<open>mode, inode, device, links, owner, group and size\<close>

type_synonym status_fields = "int \<times> int \<times> int \<times> int \<times> int \<times> int \<times> int"

definition store_status :: "os_answer \<Rightarrow> status_fields result" where
  "store_status a =
     (case a of
        Os_Stat (PInt mode # PInt inode # PInt device # PInt links # PInt uid # PInt gid # PInt sz # _) \<Rightarrow>
          if inode < 0 \<or> device < 0 \<or> links < 1 \<or> uid < 0 \<or> gid < 0 \<or> sz < 0 then Inl OSError
          else Inr (mode, inode, device, links, uid, gid, sz)
      | _ \<Rightarrow> Inl OSError)"

text \<open>The functions of the module \<open>stat\<close>: a mode that is no \<open>mode_t\<close> raises.\<close>

definition mode_t :: "int \<Rightarrow> int result" where
  "mode_t mode = (if 0 \<le> mode \<and> mode < 2 ^ 32 then Inr mode else Inl OverflowError)"

definition S_ISDIR :: "int \<Rightarrow> bool" where "S_ISDIR mode \<longleftrightarrow> mode AND 0xF000 = 0x4000"
definition S_ISREG :: "int \<Rightarrow> bool" where "S_ISREG mode \<longleftrightarrow> mode AND 0xF000 = 0x8000"
definition S_ISLNK :: "int \<Rightarrow> bool" where "S_ISLNK mode \<longleftrightarrow> mode AND 0xF000 = 0xA000"
definition S_IMODE :: "int \<Rightarrow> int" where "S_IMODE mode = mode AND 0xFFF"

definition validate_standard_directory :: "os_answer \<Rightarrow> (int \<times> int) result" where
  "validate_standard_directory a =
     bnd (store_status a) (\<lambda>(mode, inode, device, links, uid, gid, sz).
     bnd (mode_t mode) (\<lambda>mode.
     let writable = S_IMODE mode AND 0x12 \<noteq> 0; sticky_root = uid = 0 \<and> S_IMODE mode AND 0x200 \<noteq> 0 in
     if \<not> S_ISDIR mode \<or> S_ISLNK mode \<or> uid \<noteq> 0 \<or> (writable \<and> \<not> sticky_root) then Inl OSError
     else Inr (device, inode)))"

definition validate_owned_directory :: "int \<Rightarrow> int \<Rightarrow> bool \<Rightarrow> os_answer \<Rightarrow> (int \<times> int) result" where
  "validate_owned_directory uid gid final a =
     bnd (store_status a) (\<lambda>(mode, inode, device, links, actual_uid, actual_gid, sz).
     bnd (mode_t mode) (\<lambda>mode.
     let permissions = S_IMODE mode in
     if \<not> S_ISDIR mode \<or> S_ISLNK mode \<or> actual_uid \<noteq> uid \<or> actual_gid \<noteq> gid \<or> permissions AND 0x12 \<noteq> 0 \<or>
        permissions AND 0x1C0 \<noteq> 0x1C0 \<or> (final \<and> permissions \<noteq> STORE_DIRECTORY_MODE) then Inl OSError
     else Inr (device, inode)))"

definition validate_state_file :: "int \<Rightarrow> int \<Rightarrow> os_answer \<Rightarrow> (int \<times> int \<times> int) result" where
  "validate_state_file uid gid a =
     bnd (store_status a) (\<lambda>(mode, inode, device, links, actual_uid, actual_gid, sz).
     bnd (mode_t mode) (\<lambda>mode.
     if \<not> S_ISREG mode \<or> S_ISLNK mode \<or> S_IMODE mode \<noteq> STORE_FILE_MODE \<or> links \<noteq> 1 \<or> actual_uid \<noteq> uid \<or>
        actual_gid \<noteq> gid \<or> \<not> (0 < sz \<and> sz \<le> int MAX_STATE_BYTES) then Inl OSError
     else Inr (device, inode, sz)))"

definition validate_temporary_file :: "int \<Rightarrow> int \<Rightarrow> os_answer \<Rightarrow> (int \<times> int) result" where
  "validate_temporary_file uid gid a =
     bnd (store_status a) (\<lambda>(mode, inode, device, links, actual_uid, actual_gid, sz).
     bnd (mode_t mode) (\<lambda>mode.
     if \<not> S_ISREG mode \<or> S_ISLNK mode \<or> S_IMODE mode \<noteq> STORE_FILE_MODE \<or> links \<noteq> 1 \<or> actual_uid \<noteq> uid \<or>
        actual_gid \<noteq> gid \<or> int MAX_STATE_BYTES < sz then Inl OSError
     else Inr (device, inode)))"

section \<open>The bytes of a state\<close>

text \<open>A state of the model has fields of the right types; what is left to check is the lock flag.\<close>

definition store_mapping :: "deployment_state \<Rightarrow> pyval result" where
  "store_mapping s =
     (if \<not> ms_serialized_lock_required (migration s) then Inl TypeError
      else Inr (PDict
        [(''schema_version'', PInt (schema_version s)), (''stage'', PStr (stage s)),
         (''active_release'', of_opt (active_release s)), (''active_source_sha'', of_opt (active_source_sha s)),
         (''active_digest'', of_opt (active_digest s)), (''active_slot'', of_opt (active_slot s)),
         (''previous_release'', of_opt (previous_release s)), (''previous_source_sha'', of_opt (previous_source_sha s)),
         (''previous_digest'', of_opt (previous_digest s)), (''previous_slot'', of_opt (previous_slot s)),
         (''candidate_release'', of_opt (candidate_release s)), (''candidate_source_sha'', of_opt (candidate_source_sha s)),
         (''candidate_digest'', of_opt (candidate_digest s)), (''candidate_slot'', of_opt (candidate_slot s)),
         (''updated_at'', PStr (updated_at s)), (''event_id'', PStr (event_id s)),
         (''migration_state'', PDict
            [(''status'', PStr (ms_status (migration s))), (''identity'', of_opt (ms_identity (migration s))),
             (''checksum'', of_opt (ms_checksum (migration s))),
             (''serialized_lock_required'', PBool (ms_serialized_lock_required (migration s)))])]))"

definition store_snapshot :: "deployment_state \<Rightarrow> (deployment_state \<times> string) result" where
  "store_snapshot s =
     bnd (store_mapping s) (\<lambda>first.
     bnd (store_mapping s) (\<lambda>second.
     if canonical_bytes first \<noteq> canonical_bytes second then Inl TypeError
     else
     bnd (json_loads_bytes default_hooks (canonical_bytes first)) (\<lambda>decoded.
     bnd (state_from_dict decoded) (\<lambda>rebuilt.
     if stage rebuilt \<noteq> ''dev'' then Inl TypeError
     else
     bnd (store_mapping rebuilt) (\<lambda>again.
     if canonical_bytes again \<noteq> canonical_bytes first then Inl TypeError
     else if \<not> (0 < length (canonical_bytes first) \<and> length (canonical_bytes first) \<le> MAX_STATE_BYTES) then Inl TypeError
     else Inr (rebuilt, canonical_bytes first))))))"

definition store_hooks :: json_hooks where
  "store_hooks = \<lparr>pairs_hook = unique_pairs ValueError, constant_hook = (\<lambda>_. Inl ValueError)\<rparr>"

definition parse_persisted :: "string \<Rightarrow> deployment_state result" where
  "parse_persisted raw =
     (if \<not> (0 < length raw \<and> length raw \<le> MAX_STATE_BYTES) then Inl OSError
      else
      bnd (catch_as [UnicodeDecodeError, ValueError, TypeError, OverflowError] OSError
        (bnd (utf8_decode raw) (\<lambda>text.
         bnd (json_loads store_hooks text) (\<lambda>decoded.
         case decoded of
           PDict _ \<Rightarrow>
             bnd (state_from_dict decoded) (\<lambda>s.
             if stage s \<noteq> ''dev'' then Inl ValueError
             else bnd (store_mapping s) (\<lambda>v. Inr (s, canonical_bytes v)))
         | _ \<Rightarrow> Inl ValueError)))) (\<lambda>(s, normalized).
      if normalized \<noteq> raw then Inl OSError else Inr s))"

section \<open>The directory\<close>

text \<open>
  A clean-up in a \<open>finally\<close> block: what it raises replaces what the block raised, unless the active exception
  is a control exception.
\<close>

definition is_control :: "exn option \<Rightarrow> bool" where
  "is_control active = (case active of Some e \<Rightarrow> \<not> is_Exception e | None \<Rightarrow> False)"

definition finally_act :: "(store_world, 'a) act \<Rightarrow> (store_world, unit) act \<Rightarrow> (store_world, 'a) act" where
  "finally_act body cleanup w =
     (case body w of (r, w1) \<Rightarrow>
        let active = (case r of Inl e \<Rightarrow> Some e | Inr _ \<Rightarrow> sw_handling w1) in
        (case cleanup w1 of
           (Inr _, w2) \<Rightarrow> (r, w2)
         | (Inl e, w2) \<Rightarrow> if is_control active then (r, w2) else (Inl e, w2)))"

fun scan_names :: "int \<Rightarrow> nat \<Rightarrow> string list \<Rightarrow> (store_world, string list) act" where
  "scan_names dir 0 names = act_lift (Inr names)"
| "scan_names dir (Suc n) names =
     act_bind (os (Os_Scan_Next dir)) (\<lambda>a.
     case a of
       Os_Stop \<Rightarrow> act_lift (Inr names)
     | Os_Entry (PStr name) \<Rightarrow> scan_names dir n (names @ [name])
     | Os_Entry _ \<Rightarrow> act_lift (Inl OSError)
     | _ \<Rightarrow> act_lift (Inl AttributeError))"

definition entries :: "store_configuration \<Rightarrow> int \<Rightarrow> (store_world, string list) act" where
  "entries conf dir =
     (let maximum = length (sc_siblings conf) + 2 in
      act_bind (os (Os_Scandir dir)) (\<lambda>_.
      act_bind (finally_act (scan_names dir (maximum + 1) []) (os_none (Os_Scan_Close dir))) (\<lambda>names.
      act_lift (if maximum < length names \<or> \<not> distinct names then Inl OSError else Inr names))))"

text \<open>\<open>entries\<close> gives a set: only its elements are compared.\<close>

fun validate_sibling_list :: "int \<Rightarrow> sibling list \<Rightarrow> (store_world, unit) act" where
  "validate_sibling_list dir [] = act_lift (Inr ())"
| "validate_sibling_list dir ((name, uid, gid, mode) # rest) =
     act_bind (os (Os_Stat_At (Some dir) name)) (\<lambda>a.
     act_bind (act_lift (store_status a)) (\<lambda>(actual_mode, inode, device, links, actual_uid, actual_gid, sz).
     act_bind (act_lift (mode_t actual_mode)) (\<lambda>actual_mode.
     if \<not> S_ISDIR actual_mode \<or> S_ISLNK actual_mode \<or> links < 1 \<or> actual_uid \<noteq> uid \<or> actual_gid \<noteq> gid \<or>
        S_IMODE actual_mode \<noteq> mode then act_lift (Inl OSError)
     else validate_sibling_list dir rest)))"

definition validate_entries :: "store_configuration \<Rightarrow> int \<Rightarrow> bool \<Rightarrow> bool \<Rightarrow> (store_world, string list) act" where
  "validate_entries conf dir state_present temporary_present =
     (let expected = map fst (sc_siblings conf) @ (if state_present then [sc_state_name conf] else []) @
            (if temporary_present then [sc_temporary_name conf] else []) in
      act_bind (entries conf dir) (\<lambda>observed.
      if set observed \<noteq> set expected then act_lift (Inl OSError)
      else act_bind (validate_sibling_list dir (sc_siblings conf)) (\<lambda>_. act_lift (Inr observed))))"

section \<open>Descriptors\<close>

text \<open>
  A descriptor that \<open>open\<close> returned: refused when it is no descriptor or already in \<open>owned\<close>, then recorded there
  before its inheritance is checked.
\<close>

definition open_owned :: "os_call \<Rightarrow> (store_world, int) act" where
  "open_owned c =
     act_bind (os c) (\<lambda>a w.
     case a of
       Os_Int fd \<Rightarrow>
         if fd < 0 \<or> fd \<in> fst ` set (sw_owned w) then (Inl OSError, w)
         else act_bind (os (Os_Get_Inheritable fd)) (\<lambda>b.
           act_lift (if b = Os_Bool False then Inr fd else Inl OSError)) (w\<lparr>sw_owned := sw_owned w @ [(fd, True)]\<rparr>)
     | _ \<Rightarrow> (Inl OSError, w))"

definition close_owned :: "int \<Rightarrow> (store_world, unit) act" where
  "close_owned fd w =
     (if map_of (sw_owned w) fd \<noteq> Some True then (Inr (), w)
      else os_none (Os_Close fd) (w\<lparr>sw_owned := map (\<lambda>(d, b). (d, if d = fd then False else b)) (sw_owned w)\<rparr>))"

section \<open>The chain of directories\<close>

text \<open>A descriptor, its identity (device, inode), and the index of its component, -1 for the root.\<close>

type_synonym chain = "(int \<times> (int \<times> int) \<times> int) list"

definition directory_identity :: "store_configuration \<Rightarrow> int \<Rightarrow> os_answer \<Rightarrow> (int \<times> int) result" where
  "directory_identity conf index a =
     (if index < int (sc_owned_start conf) then validate_standard_directory a
      else validate_owned_directory (sc_owner_uid conf) (sc_group_gid conf)
        (index = int (length (sc_components conf)) - 1) a)"

definition open_root :: "store_configuration \<Rightarrow> (store_world, int \<times> (int \<times> int) \<times> int) act" where
  "open_root conf =
     act_bind (open_owned (Os_Open_Directory None ''/'')) (\<lambda>top_fd.
     act_bind (os (Os_Fstat top_fd)) (\<lambda>opened.
     act_bind (os (Os_Stat_At None ''/'')) (\<lambda>named.
     act_bind (act_lift (validate_standard_directory opened)) (\<lambda>identity.
     act_bind (act_lift (validate_standard_directory named)) (\<lambda>named_identity.
     act_lift (if identity \<noteq> named_identity then Inl OSError else Inr (top_fd, identity, - 1)))))))"

fun open_components :: "store_configuration \<Rightarrow> int \<Rightarrow> string list \<Rightarrow> int \<Rightarrow> chain \<Rightarrow> (store_world, chain \<times> int) act" where
  "open_components conf index [] parent opened = act_lift (Inr (opened, parent))"
| "open_components conf index (component # rest) parent opened =
     act_bind (os (Os_Stat_At (Some parent) component)) (\<lambda>named.
     act_bind (open_owned (Os_Open_Directory (Some parent) component)) (\<lambda>child.
     act_bind (os (Os_Fstat child)) (\<lambda>opened_status.
     act_bind (act_lift (directory_identity conf index named)) (\<lambda>named_identity.
     act_bind (act_lift (directory_identity conf index opened_status)) (\<lambda>opened_identity.
     if named_identity \<noteq> opened_identity then act_lift (Inl OSError)
     else open_components conf (index + 1) rest child (opened @ [(child, opened_identity, index)]))))))"

definition open_chain :: "store_configuration \<Rightarrow> (store_world, chain \<times> int) act" where
  "open_chain conf =
     act_bind (open_root conf) (\<lambda>top_entry. open_components conf 0 (sc_components conf) (fst top_entry) [top_entry])"

text \<open>The loop of \<open>_revalidate_chain\<close>; \<open>previous\<close> is \<open>opened[position - 1][0]\<close>.\<close>

fun revalidate_from :: "store_configuration \<Rightarrow> int \<Rightarrow> chain \<Rightarrow> (store_world, unit) act" where
  "revalidate_from conf previous [] = act_lift (Inr ())"
| "revalidate_from conf previous ((descriptor, expected, index) # rest) =
     act_bind (os (Os_Fstat descriptor)) (\<lambda>opened_status.
     act_bind
       (if index = - 1 then os (Os_Stat_At None ''/'')
        else if nat index < length (sc_components conf) then os (Os_Stat_At (Some previous) (sc_components conf ! nat index))
        else act_lift (Inl IndexError)) (\<lambda>named.
     act_bind (act_lift (directory_identity conf index opened_status)) (\<lambda>actual.
     act_bind (act_lift (directory_identity conf index named)) (\<lambda>named_identity.
     if actual \<noteq> expected \<or> named_identity \<noteq> expected then act_lift (Inl OSError)
     else revalidate_from conf descriptor rest))))"

definition revalidate_chain :: "store_configuration \<Rightarrow> chain \<Rightarrow> (store_world, unit) act" where
  "revalidate_chain conf opened = revalidate_from conf (case opened of [] \<Rightarrow> 0 | _ \<Rightarrow> fst (last opened)) opened"

section \<open>The state file\<close>

definition open_state :: "store_configuration \<Rightarrow> int \<Rightarrow> (store_world, int \<times> (int \<times> int \<times> int)) act" where
  "open_state conf dir =
     act_bind (os (Os_Stat_At (Some dir) (sc_state_name conf))) (\<lambda>named.
     act_bind (act_lift (validate_state_file (sc_owner_uid conf) (sc_group_gid conf) named)) (\<lambda>named_identity.
     act_bind (open_owned (Os_Open_Read dir (sc_state_name conf))) (\<lambda>descriptor.
     act_bind (os (Os_Fstat descriptor)) (\<lambda>opened_status.
     act_bind (act_lift (validate_state_file (sc_owner_uid conf) (sc_group_gid conf) opened_status)) (\<lambda>opened_identity.
     act_lift (if opened_identity \<noteq> named_identity then Inl OSError else Inr (descriptor, opened_identity)))))))"

fun read_loop :: "int \<Rightarrow> nat \<Rightarrow> string \<Rightarrow> (store_world, string) act" where
  "read_loop fd 0 pieces = act_lift (Inl OSError)"
| "read_loop fd (Suc n) pieces =
     act_bind (os (Os_Read fd (MAX_STATE_BYTES + 1 - length pieces))) (\<lambda>a.
     case a of
       Os_Bytes b \<Rightarrow>
         if b = [] then act_lift (Inr pieces)
         else if MAX_STATE_BYTES + 1 - length pieces < length b then act_lift (Inl OSError)
         else if MAX_STATE_BYTES < length (pieces @ b) then act_lift (Inl OSError)
         else read_loop fd n (pieces @ b)
     | _ \<Rightarrow> act_lift (Inl OSError))"

definition bounded_read :: "int \<Rightarrow> (store_world, string) act" where
  "bounded_read fd = read_loop fd MAX_READ_CALLS []"

definition stat_state :: "store_configuration \<Rightarrow> os_call \<Rightarrow> (store_world, int \<times> int \<times> int) act" where
  "stat_state conf c =
     act_bind (os c) (\<lambda>a. act_lift (validate_state_file (sc_owner_uid conf) (sc_group_gid conf) a))"

definition read_validated_state ::
    "store_configuration \<Rightarrow> int \<Rightarrow> chain \<Rightarrow> (store_world, deployment_state \<times> (int \<times> int \<times> int) \<times> int \<times> string) act" where
  "read_validated_state conf dir opened_chain =
     act_bind (validate_entries conf dir True False) (\<lambda>_.
     act_bind (open_state conf dir) (\<lambda>(descriptor, identity).
     act_bind (bounded_read descriptor) (\<lambda>raw.
     if int (length raw) \<noteq> snd (snd identity) then act_lift (Inl OSError)
     else
     act_bind (stat_state conf (Os_Fstat descriptor)) (\<lambda>opened_identity.
     act_bind (stat_state conf (Os_Stat_At (Some dir) (sc_state_name conf))) (\<lambda>named_identity.
     if opened_identity \<noteq> identity \<or> named_identity \<noteq> identity then act_lift (Inl OSError)
     else
     act_bind (revalidate_chain conf opened_chain) (\<lambda>_.
     act_bind (validate_entries conf dir True False) (\<lambda>_.
     act_bind (act_lift (parse_persisted raw)) (\<lambda>s.
     act_lift (Inr (s, identity, descriptor, raw))))))))))"

fun write_loop :: "int \<Rightarrow> nat \<Rightarrow> string \<Rightarrow> (store_world, unit) act" where
  "write_loop fd 0 rest = act_lift (Inl OSError)"
| "write_loop fd (Suc n) rest =
     (if rest = [] then act_lift (Inr ())
      else act_bind (os (Os_Write fd rest)) (\<lambda>a.
        case a of
          Os_Int written \<Rightarrow>
            if 1 \<le> written \<and> written \<le> int (length rest) then write_loop fd n (drop (nat written) rest)
            else act_lift (Inl OSError)
        | _ \<Rightarrow> act_lift (Inl OSError)))"

definition write_all :: "int \<Rightarrow> string \<Rightarrow> (store_world, unit) act" where
  "write_all fd bytes = write_loop fd MAX_WRITE_CALLS bytes"

section \<open>The temporary file\<close>

definition stat_temporary :: "store_configuration \<Rightarrow> os_call \<Rightarrow> (store_world, int \<times> int) act" where
  "stat_temporary conf c =
     act_bind (os c) (\<lambda>a. act_lift (validate_temporary_file (sc_owner_uid conf) (sc_group_gid conf) a))"

definition cleanup_temporary :: "store_configuration \<Rightarrow> int \<Rightarrow> int \<times> int \<Rightarrow> (store_world, unit) act" where
  "cleanup_temporary conf dir temporary_identity w =
     (case os (Os_Stat_At (Some dir) (sc_temporary_name conf)) w of
        (Inl e, w1) \<Rightarrow> if caught e [FileNotFoundError] then (Inr (), w1) else (Inl e, w1)
      | (Inr named, w1) \<Rightarrow>
          act_bind (act_lift (validate_temporary_file (sc_owner_uid conf) (sc_group_gid conf) named)) (\<lambda>actual.
          if actual \<noteq> temporary_identity then act_lift (Inl OSError)
          else act_bind (os_none (Os_Unlink dir (sc_temporary_name conf))) (\<lambda>_. os_none (Os_Fsync dir))) w1)"

text \<open>\<open>if status(...)[6] != len(canonical): raise\<close>\<close>

definition require_size :: "nat \<Rightarrow> os_call \<Rightarrow> (store_world, unit) act" where
  "require_size n c =
     act_bind (os c) (\<lambda>a.
     act_bind (act_lift (store_status a)) (\<lambda>(mode, inode, device, links, uid, gid, sz).
     act_lift (if sz \<noteq> int n then Inl OSError else Inr ())))"

section \<open>Saving\<close>

text \<open>The bytes go into the temporary file and are synced; its size and identity are then what they must be.\<close>

definition fill_temporary ::
    "store_configuration \<Rightarrow> int \<Rightarrow> int \<Rightarrow> int \<times> int \<Rightarrow> string \<Rightarrow> (store_world, unit) act" where
  "fill_temporary conf dir temporary_fd temporary_identity canonical =
     (let named = Os_Stat_At (Some dir) (sc_temporary_name conf) in
      act_bind (stat_temporary conf named) (\<lambda>named_temporary.
      if named_temporary \<noteq> temporary_identity then act_lift (Inl OSError)
      else
      act_bind (validate_entries conf dir True True) (\<lambda>_.
      act_bind (write_all temporary_fd canonical) (\<lambda>_.
      act_bind (os_none (Os_Fsync temporary_fd)) (\<lambda>_.
      act_bind (require_size (length canonical) (Os_Fstat temporary_fd)) (\<lambda>_.
      act_bind (require_size (length canonical) named) (\<lambda>_.
      act_bind (stat_temporary conf (Os_Fstat temporary_fd)) (\<lambda>temporary_after.
      act_bind (stat_temporary conf named) (\<lambda>named_after.
      act_lift (if temporary_after \<noteq> temporary_identity \<or> named_after \<noteq> temporary_identity
        then Inl OSError else Inr ()))))))))))"

text \<open>The original is still the file that was read, with the bytes that were read.\<close>

definition confirm_original ::
    "store_configuration \<Rightarrow> int \<Rightarrow> int \<times> int \<times> int \<Rightarrow> int \<Rightarrow> string \<Rightarrow> (store_world, unit) act" where
  "confirm_original conf dir original_identity original_fd raw =
     act_bind (stat_state conf (Os_Stat_At (Some dir) (sc_state_name conf))) (\<lambda>current_original.
     if current_original \<noteq> original_identity then act_lift (Inl OSError)
     else
     act_bind (stat_state conf (Os_Fstat original_fd)) (\<lambda>descriptor_identity.
     if descriptor_identity \<noteq> original_identity then act_lift (Inl OSError)
     else
     act_bind (open_state conf dir) (\<lambda>(confirmation_fd, confirmation_identity).
     act_bind (bounded_read confirmation_fd) (\<lambda>confirmation.
     if confirmation_identity \<noteq> original_identity \<or> confirmation \<noteq> raw then act_lift (Inl OSError)
     else act_bind (act_lift (parse_persisted confirmation)) (\<lambda>_. act_lift (Inr ()))))))"

text \<open>After the replacement: durability of the directory, and the file read back.\<close>

definition verify_replacement ::
    "store_configuration \<Rightarrow> int \<Rightarrow> chain \<Rightarrow> int \<times> int \<Rightarrow> string \<Rightarrow> (store_world, unit) act" where
  "verify_replacement conf dir opened_chain temporary_identity canonical =
     act_bind (os_none (Os_Fsync dir)) (\<lambda>_.
     act_bind (stat_state conf (Os_Stat_At (Some dir) (sc_state_name conf))) (\<lambda>resulting.
     if (fst resulting, fst (snd resulting)) \<noteq> temporary_identity then act_lift (Inl OSError)
     else
     act_bind (validate_entries conf dir True False) (\<lambda>_.
     act_bind (open_state conf dir) (\<lambda>(verify_fd, verify_identity).
     act_bind (bounded_read verify_fd) (\<lambda>verified.
     if verify_identity \<noteq> resulting \<or> verified \<noteq> canonical then act_lift (Inl OSError)
     else
     act_bind (act_lift (parse_persisted verified)) (\<lambda>_. revalidate_chain conf opened_chain))))))"

text \<open>
  \<open>_save_action\<close>.  Its \<open>finally\<close> block cleans up when the temporary file has an identity and \<open>replaced\<close> is not
  set: around the steps from the validated descriptor to the replacement.
\<close>

definition save_action :: "store_configuration \<Rightarrow> int \<Rightarrow> chain \<Rightarrow> string \<Rightarrow> (store_world, unit) act" where
  "save_action conf dir opened_chain canonical =
     act_bind (read_validated_state conf dir opened_chain) (\<lambda>(_, original_identity, original_fd, raw).
     act_bind (open_owned (Os_Open_Create dir (sc_temporary_name conf) (sc_state_file_mode conf))) (\<lambda>temporary_fd.
     act_bind (stat_temporary conf (Os_Fstat temporary_fd)) (\<lambda>temporary_identity.
     act_bind
       (\<lambda>w. case
          act_bind (fill_temporary conf dir temporary_fd temporary_identity canonical) (\<lambda>_.
          act_bind (confirm_original conf dir original_identity original_fd raw) (\<lambda>_.
          act_bind (revalidate_chain conf opened_chain) (\<lambda>_.
          os_none (Os_Replace dir (sc_temporary_name conf) (sc_state_name conf))))) w of
          (Inr _, w1) \<Rightarrow> (Inr (), w1)
        | (Inl e, w1) \<Rightarrow> finally_act (act_lift (Inl e)) (cleanup_temporary conf dir temporary_identity) w1) (\<lambda>_.
     verify_replacement conf dir opened_chain temporary_identity canonical))))"

definition load_action :: "store_configuration \<Rightarrow> int \<Rightarrow> chain \<Rightarrow> (store_world, deployment_state) act" where
  "load_action conf dir opened_chain =
     act_bind (read_validated_state conf dir opened_chain) (\<lambda>(s, _, _, _). act_lift (Inr s))"

section \<open>Operations\<close>

text \<open>\<open>_make_operation_gate\<close>\<close>

definition enter_operation :: "string \<Rightarrow> store_world \<Rightarrow> bool \<times> store_world" where
  "enter_operation key w =
     (if key \<in> set (sw_active w) then (False, w) else (True, w\<lparr>sw_active := key # sw_active w\<rparr>))"

definition leave_operation :: "string \<Rightarrow> store_world \<Rightarrow> store_world" where
  "leave_operation key w = w\<lparr>sw_active := remove1 key (sw_active w)\<rparr>"

text \<open>\<open>for descriptor in reversed(tuple(owned)): ... close_owned\<close>, without the directory in the first round\<close>

definition close_all_owned :: "int option \<Rightarrow> outcome \<times> store_world \<Rightarrow> outcome \<times> store_world" where
  "close_all_owned except s =
     fold (\<lambda>fd. defer_error note_first (close_owned fd))
       (filter (\<lambda>fd. Some fd \<noteq> except) (rev (map fst (sw_owned (snd s))))) s"

text \<open>The \<open>finally\<close> block of \<open>_operate\<close>: descriptors, lock, the directory, gate.\<close>

definition operate_cleanup :: "store_configuration \<Rightarrow> int option \<Rightarrow> outcome \<times> store_world \<Rightarrow> outcome \<times> store_world" where
  "operate_cleanup conf dir s =
     (let s1 = close_all_owned dir s;
          s2 = (case dir of None \<Rightarrow> s1 | Some fd \<Rightarrow> defer_error note_first (os_none (Os_Unlock fd)) s1);
          s3 = close_all_owned None s2 in
      (fst s3, leave_operation (sc_path conf) (snd s3)))"

definition operate_result :: "outcome \<Rightarrow> 'a result \<Rightarrow> 'a result" where
  "operate_result out r =
     (case oc_control out of
        Some e \<Rightarrow> Inl e
      | None \<Rightarrow> if oc_failed out then Inl StateStoreUnavailableError
          else (case r of Inl _ \<Rightarrow> Inl StateStoreUnavailableError | Inr x \<Rightarrow> Inr x))"

definition outcome_of :: "'a result \<Rightarrow> outcome" where
  "outcome_of r = (case r of Inl e \<Rightarrow> note_first e no_error | Inr _ \<Rightarrow> no_error)"

definition locked_action ::
    "store_configuration \<Rightarrow> int \<Rightarrow> chain \<Rightarrow> (int \<Rightarrow> chain \<Rightarrow> (store_world, 'a) act) \<Rightarrow> (store_world, 'a) act" where
  "locked_action conf dir opened_chain action =
     act_bind (os_none (Os_Lock dir)) (\<lambda>_.
     act_bind (revalidate_chain conf opened_chain) (\<lambda>_. action dir opened_chain))"

text \<open>
  \<open>_operate\<close>: the directory is known, and the lock was attempted, once \<open>open_chain\<close> has returned.
\<close>

definition operate ::
    "store_configuration \<Rightarrow> (int \<Rightarrow> chain \<Rightarrow> (store_world, 'a) act) \<Rightarrow> (store_world, 'a) act" where
  "operate conf action w =
     (case enter_operation (sc_path conf) (w\<lparr>sw_owned := []\<rparr>) of
        (False, w1) \<Rightarrow> (operate_result (note_first OSError no_error) (Inl OSError), w1)
      | (True, w1) \<Rightarrow>
          (case open_chain conf w1 of
             (Inl e, w2) \<Rightarrow>
               (case operate_cleanup conf None (note_first e no_error, w2) of
                  (out, w3) \<Rightarrow> (operate_result out (Inl e), w3))
           | (Inr (opened_chain, dir), w2) \<Rightarrow>
               (case locked_action conf dir opened_chain action w2 of
                  (r, w3) \<Rightarrow>
                    (case operate_cleanup conf (Some dir) (outcome_of r, w3) of
                       (out, w4) \<Rightarrow> (operate_result out r, w4)))))"

definition load :: "store_configuration \<Rightarrow> (store_world, deployment_state) act" where
  "load conf = operate conf (load_action conf)"

definition save :: "store_configuration \<Rightarrow> deployment_state \<Rightarrow> (store_world, unit) act" where
  "save conf s =
     (case store_snapshot s of
        Inl e \<Rightarrow> act_lift (Inl (if is_Exception e then StateStoreUnavailableError else e))
      | Inr (_, canonical) \<Rightarrow> operate conf (\<lambda>dir opened_chain. save_action conf dir opened_chain canonical))"

end
