(* ===== verification/Store_Run.thy ===== *)
theory Store_Run
  imports Store
begin

text \<open>
  What \<open>load\<close> and \<open>save\<close> of the state store do, whatever the operating system answers: the bytes of a state, the
  descriptors, lock and gate they give back, what a load reads, and what they raise.  The locale
  \<open>quiet_steps\<close> carries a preorder of worlds through the functions that look at the directory, \<open>reading_steps\<close>
  through those that read the file, \<open>store_steps\<close> through all of a save.
\<close>

section \<open>The bytes of a state\<close>

lemma csort_mapping:
  assumes "store_mapping s = Inr v"
  shows "canonical_bytes v = state_canonical_bytes s" and "ms_serialized_lock_required (migration s)"
proof -
  show flag: "ms_serialized_lock_required (migration s)"
    using assms by (auto simp: store_mapping_def split: if_splits)
  have "canon v = canon (state_to_dict s)"
    using assms flag by (auto simp: store_mapping_def state_to_dict_def migration_to_dict_def)
  then show "canonical_bytes v = state_canonical_bytes s"
    by (simp add: canonical_bytes_def state_canonical_bytes_def json_dumps_def)
qed

lemma store_mapping_wf: "wf_state s \<Longrightarrow> \<exists>v. store_mapping s = Inr v \<and> canonical_bytes v = state_canonical_bytes s"
  using csort_mapping(1) by (fastforce simp: wf_state_def wf_migration_def store_mapping_def)

lemma store_hooks_keep [simp]: "keeps_pairs store_hooks"
  by (rule keeps_pairs_unique [of _ ValueError]) (simp add: store_hooks_def)

lemma canonical_length_pos: "0 < length (state_canonical_bytes s)"
  by (simp add: state_canonical_bytes_def canonical_bytes_def)

text \<open>A persisted state is accepted exactly when its bytes are the canonical bytes of a well-formed development state.\<close>

lemma parse_persisted_Inr:
  "parse_persisted raw = Inr s \<longleftrightarrow>
     wf_state s \<and> stage s = ''dev'' \<and> raw = state_canonical_bytes s \<and> length raw \<le> MAX_STATE_BYTES" (is "?L \<longleftrightarrow> ?R")
proof
  assume ?L
  then show ?R
    by (auto simp: parse_persisted_def case_PDict_Inr state_from_dict_Inr csort_mapping(1) split: if_splits)
next
  assume R: ?R
  then obtain d where d: "canon (state_to_dict s) = PDict d" by (simp add: state_to_dict_def canon_PDict del: canon.simps)
  obtain v where v: "store_mapping s = Inr v" "canonical_bytes v = state_canonical_bytes s"
    using R store_mapping_wf by blast
  have plain: "plain (state_to_dict s)" using R by (simp add: plain_state_to_dict)
  have "utf8_decode raw = Inr raw" "json_loads store_hooks raw = Inr (PDict d)"
    using R plain d by (simp_all add: state_canonical_bytes_def canonical_decode canonical_loads)
  moreover have "state_from_dict (PDict d) = Inr s" using R d state_from_dict_canon by metis
  moreover have "length (state_canonical_bytes s) \<le> MAX_STATE_BYTES" using R by auto
  ultimately show ?L using R v canonical_length_pos [of s] by (simp add: parse_persisted_def)
qed

lemma store_snapshot_Inr:
  assumes "store_snapshot s = Inr (t, bytes)"
  shows "wf_state t" "stage t = ''dev''" "bytes = state_canonical_bytes t" "bytes = state_canonical_bytes s"
    "length bytes \<le> MAX_STATE_BYTES"
  using assms by (auto simp: store_snapshot_def state_from_dict_Inr csort_mapping(1))

lemma store_snapshot_wf:
  assumes "wf_state s" and "stage s = ''dev''" and "length (state_canonical_bytes s) \<le> MAX_STATE_BYTES"
  shows "store_snapshot s = Inr (s, state_canonical_bytes s)"
proof -
  obtain v where v: "store_mapping s = Inr v" "canonical_bytes v = state_canonical_bytes s"
    using assms(1) store_mapping_wf by blast
  have "json_loads_bytes default_hooks (state_canonical_bytes s) = Inr (canon (state_to_dict s))"
    using assms(1) by (simp add: state_canonical_bytes_def canonical_loads_bytes plain_state_to_dict)
  then show ?thesis using assms v state_from_dict_canon [OF assms(1)] canonical_length_pos [of s]
    by (simp add: store_snapshot_def)
qed

section \<open>Steps that only read\<close>

text \<open>The calls that move no data and change no file, descriptor or lock.\<close>

fun quiet_os :: "os_call \<Rightarrow> bool" where
  "quiet_os (Os_Get_Inheritable _) = True"
| "quiet_os (Os_Stat_At _ _) = True"
| "quiet_os (Os_Fstat _) = True"
| "quiet_os (Os_Scandir _) = True"
| "quiet_os (Os_Scan_Next _) = True"
| "quiet_os (Os_Scan_Close _) = True"
| "quiet_os _ = False"

fun opens_reading :: "os_call \<Rightarrow> bool" where
  "opens_reading (Os_Open_Directory _ _) = True"
| "opens_reading (Os_Open_Read _ _) = True"
| "opens_reading _ = False"

locale quiet_steps = step_order R for R :: "store_world \<Rightarrow> store_world \<Rightarrow> bool" +
  assumes quiet_call: "quiet_os c \<Longrightarrow> moves R (os c)"
    and open_call: "opens_reading c \<Longrightarrow> moves R (open_owned c)"
begin

lemma finally_moves: "moves R body \<Longrightarrow> moves R cleanup \<Longrightarrow> moves R (finally_act body cleanup)"
proof (rule movesI)
  fix w r w'
  assume body: "moves R body" and cleanup: "moves R cleanup" and run: "finally_act body cleanup w = (r, w')"
  obtain r1 w1 where 1: "body w = (r1, w1)" by force
  obtain r2 w2 where 2: "cleanup w1 = (r2, w2)" by force
  have "w' = w2" using run 1 2 by (auto simp: finally_act_def Let_def split: sum.splits if_splits)
  with movesD [OF body 1] movesD [OF cleanup 2] show "R w w'" by (simp add: trans)
qed

lemma none_moves: "moves R (os c) \<Longrightarrow> moves R (os_none c)"
  unfolding os_none_def by (intro combinators)

lemma scan_moves: "moves R (scan_names dir n names)"
  by (induction dir n names rule: scan_names.induct)
    (auto intro!: combinators quiet_call split: os_answer.split pyval.split)

lemma entries_moves: "moves R (entries conf dir)"
  unfolding entries_def Let_def by (intro combinators quiet_call finally_moves scan_moves none_moves) simp_all

lemma siblings_move: "moves R (validate_sibling_list dir ss)"
  by (induction dir ss rule: validate_sibling_list.induct) (auto intro!: combinators quiet_call split: prod.split)

lemma validate_entries_moves: "moves R (validate_entries conf dir sp tp)"
  unfolding validate_entries_def Let_def by (intro combinators entries_moves siblings_move)

lemma root_moves: "moves R (open_root conf)"
  unfolding open_root_def by (intro combinators quiet_call open_call) simp_all

lemma components_move: "moves R (open_components conf index names parent opened)"
  by (induction conf index names parent opened rule: open_components.induct)
    (auto intro!: combinators quiet_call open_call)

lemma open_chain_moves: "moves R (open_chain conf)"
  unfolding open_chain_def by (intro combinators root_moves components_move)

lemma revalidate_from_moves: "moves R (revalidate_from conf previous opened)"
  by (induction conf previous opened rule: revalidate_from.induct) (auto intro!: combinators quiet_call)

lemma revalidate_moves: "moves R (revalidate_chain conf opened)"
  unfolding revalidate_chain_def by (rule revalidate_from_moves)

lemma open_state_moves: "moves R (open_state conf dir)"
  unfolding open_state_def by (intro combinators quiet_call open_call) simp_all

lemma stat_moves:
  "quiet_os c \<Longrightarrow> moves R (stat_state conf c)" "quiet_os c \<Longrightarrow> moves R (stat_temporary conf c)"
  "quiet_os c \<Longrightarrow> moves R (require_size n c)"
  unfolding stat_state_def stat_temporary_def require_size_def
  by (auto intro!: combinators quiet_call split: prod.split)

end

text \<open>With the reads of the state file.\<close>

locale reading_steps = quiet_steps R for R +
  assumes reads: "moves R (os (Os_Read fd k))"
begin

lemma read_loop_moves: "moves R (read_loop fd n pieces)"
  by (induction fd n pieces rule: read_loop.induct) (auto intro!: combinators reads split: os_answer.split)

lemma bounded_read_moves: "moves R (bounded_read fd)"
  unfolding bounded_read_def by (rule read_loop_moves)

lemma read_validated_moves: "moves R (read_validated_state conf dir opened)"
  unfolding read_validated_state_def
  by (auto intro!: combinators validate_entries_moves open_state_moves bounded_read_moves stat_moves revalidate_moves
      split: prod.split)

lemma load_action_moves: "moves R (load_action conf dir opened)"
  unfolding load_action_def by (auto intro!: combinators read_validated_moves split: prod.split)

lemma confirm_moves: "moves R (confirm_original conf dir identity fd raw)"
  unfolding confirm_original_def
  by (auto intro!: combinators stat_moves open_state_moves bounded_read_moves split: prod.split)

lemmas reading = validate_entries_moves open_chain_moves revalidate_moves open_state_moves bounded_read_moves
  stat_moves read_validated_moves load_action_moves confirm_moves

end

text \<open>And the calls of a save.\<close>

locale store_steps = reading_steps R for R +
  assumes creating: "moves R (open_owned (Os_Open_Create dir name mode))"
    and writing: "moves R (os (Os_Write fd b))"
    and syncing: "moves R (os (Os_Fsync fd))"
    and replacing: "moves R (os (Os_Replace dir source target))"
    and unlinking: "moves R (os (Os_Unlink dir name))"
begin

lemma write_loop_moves: "moves R (write_loop fd n rest)"
  by (induction fd n rest rule: write_loop.induct) (auto intro!: combinators writing split: os_answer.split)

lemma fill_moves: "moves R (fill_temporary conf dir fd identity bytes)"
  unfolding fill_temporary_def write_all_def Let_def
  by (intro combinators reading write_loop_moves none_moves syncing) simp_all

lemma cleanup_moves: "moves R (cleanup_temporary conf dir identity)"
proof (rule movesI)
  fix w r w'
  assume run: "cleanup_temporary conf dir identity w = (r, w')"
  obtain r1 w1 where 1: "os (Os_Stat_At (Some dir) (sc_temporary_name conf)) w = (r1, w1)" by force
  have R1: "R w w1" by (rule movesD [OF quiet_call 1]) simp
  show "R w w'"
  proof (cases r1)
    case (Inl e)
    with run 1 R1 show ?thesis by (auto simp: cleanup_temporary_def split: if_splits)
  next
    case (Inr a)
    have "moves R (act_bind (act_lift (validate_temporary_file (sc_owner_uid conf) (sc_group_gid conf) a)) (\<lambda>actual.
        if actual \<noteq> identity then act_lift (Inl OSError)
        else act_bind (os_none (Os_Unlink dir (sc_temporary_name conf))) (\<lambda>_. os_none (Os_Fsync dir))))"
      by (intro combinators none_moves unlinking syncing)
    from movesD [OF this] have "R w1 w'" using run 1 Inr by (auto simp: cleanup_temporary_def)
    with R1 show ?thesis by (rule trans)
  qed
qed

lemma verify_moves: "moves R (verify_replacement conf dir opened identity bytes)"
  unfolding verify_replacement_def
  by (auto intro!: combinators reading none_moves syncing split: prod.split)

lemma guarded_moves:
  assumes "moves R m" and "\<And>e. moves R (h e)"
  shows "moves R (\<lambda>w. case m w of (Inr _, w1) \<Rightarrow> (Inr (), w1) | (Inl e, w1) \<Rightarrow> h e w1)"
proof (rule movesI)
  fix w r w'
  assume run: "(case m w of (Inr _, w1) \<Rightarrow> (Inr (), w1) | (Inl e, w1) \<Rightarrow> h e w1) = (r, w')"
  obtain r1 w1 where 1: "m w = (r1, w1)" by force
  from movesD [OF assms(1) 1] run 1 movesD [OF assms(2)] show "R w w'"
    by (cases r1) (auto intro: trans)
qed

lemma save_action_moves: "moves R (save_action conf dir opened bytes)"
  unfolding save_action_def
  by (auto intro!: combinators reading creating guarded_moves fill_moves none_moves replacing finally_moves
      cleanup_moves verify_moves split: prod.split)

end

section \<open>Descriptors, lock and gate\<close>

fun opened_by :: "os_call \<times> os_answer \<Rightarrow> int list" where
  "opened_by (Os_Open_Directory _ _, Os_Int fd) = (if 0 \<le> fd then [fd] else [])"
| "opened_by (Os_Open_Read _ _, Os_Int fd) = (if 0 \<le> fd then [fd] else [])"
| "opened_by (Os_Open_Create _ _ _, Os_Int fd) = (if 0 \<le> fd then [fd] else [])"
| "opened_by _ = []"

fun closed_by :: "os_call \<times> os_answer \<Rightarrow> int list" where
  "closed_by (Os_Close fd, _) = [fd]"
| "closed_by _ = []"

fun lock_by :: "os_call \<times> os_answer \<Rightarrow> int list" where
  "lock_by (Os_Lock fd, _) = [fd]"
| "lock_by _ = []"

fun unlock_by :: "os_call \<times> os_answer \<Rightarrow> int list" where
  "unlock_by (Os_Unlock fd, _) = [fd]"
| "unlock_by _ = []"

definition opened_fds :: "(os_call \<times> os_answer) list \<Rightarrow> int list" where "opened_fds tr = concat (map opened_by tr)"
definition closed_fds :: "(os_call \<times> os_answer) list \<Rightarrow> int list" where "closed_fds tr = concat (map closed_by tr)"
definition locked_fds :: "(os_call \<times> os_answer) list \<Rightarrow> int list" where "locked_fds tr = concat (map lock_by tr)"
definition unlocked_fds :: "(os_call \<times> os_answer) list \<Rightarrow> int list" where "unlocked_fds tr = concat (map unlock_by tr)"

lemmas fds_defs = opened_fds_def closed_fds_def locked_fds_def unlocked_fds_def

text \<open>
  \<open>held t0 l u w\<close>: since the record \<open>t0\<close>, the descriptors opened are the keys of \<open>owned\<close>, those closed, each once,
  the keys marked so, and the lock was taken on \<open>l\<close> and released on \<open>u\<close>.
\<close>

definition held :: "(os_call \<times> os_answer) list \<Rightarrow> int list \<Rightarrow> int list \<Rightarrow> store_world \<Rightarrow> bool" where
  "held t0 l u w \<longleftrightarrow>
     (\<exists>tr. sw_trace w = t0 @ tr \<and> distinct (map fst (sw_owned w)) \<and> set (opened_fds tr) = fst ` set (sw_owned w) \<and>
        distinct (closed_fds tr) \<and> set (closed_fds tr) = {fd. (fd, False) \<in> set (sw_owned w)} \<and>
        locked_fds tr = l \<and> unlocked_fds tr = u)"

definition keeps_held :: "store_world \<Rightarrow> store_world \<Rightarrow> bool" where
  "keeps_held w w' \<longleftrightarrow> (\<forall>t0 l u. held t0 l u w \<longrightarrow> held t0 l u w') \<and> sw_active w' = sw_active w"

text \<open>The world with one more call on record.\<close>

definition recorded :: "store_world \<Rightarrow> os_call \<Rightarrow> os_answer \<Rightarrow> store_world" where
  "recorded w c a = w\<lparr>sw_answers := tl (sw_answers w), sw_trace := sw_trace w @ [(c, a)]\<rparr>"

lemma recorded_simps [simp]:
  "sw_trace (recorded w c a) = sw_trace w @ [(c, a)]" "sw_owned (recorded w c a) = sw_owned w"
  "sw_active (recorded w c a) = sw_active w" "sw_handling (recorded w c a) = sw_handling w"
  by (simp_all add: recorded_def)

lemma os_records:
  assumes "os c w = (r, w')"
  obtains a where "w' = recorded w c a" "r = (case a of Os_Raises e \<Rightarrow> Inl e | _ \<Rightarrow> Inr a)"
  using assms by (auto simp: os_def recorded_def Let_def split: os_answer.splits)

lemma os_none_records:
  assumes "os_none c w = (r, w')"
  obtains a where "w' = recorded w c a" "r = Inr () \<longleftrightarrow> a = Os_None"
  using assms by (auto simp: os_none_def act_bind_def os_def recorded_def Let_def split: os_answer.splits if_splits)

lemma open_owned_records:
  assumes "open_owned c w = (r, w')"
  obtains (refused) a e where "w' = recorded w c a" "r = Inl e" "\<And>fd. a = Os_Int fd \<Longrightarrow> fd < 0 \<or> fd \<in> fst ` set (sw_owned w)"
  | (owned) fd b where "0 \<le> fd" "fd \<notin> fst ` set (sw_owned w)"
      "w' = recorded ((recorded w c (Os_Int fd))\<lparr>sw_owned := sw_owned w @ [(fd, True)]\<rparr>) (Os_Get_Inheritable fd) b"
      "\<And>x. r = Inr x \<Longrightarrow> x = fd"
proof -
  obtain r1 w1 where 1: "os c w = (r1, w1)" by force
  then obtain a where w1: "w1 = recorded w c a" and r1: "r1 = (case a of Os_Raises e \<Rightarrow> Inl e | _ \<Rightarrow> Inr a)"
    by (rule os_records)
  show thesis
  proof (cases "\<exists>fd. a = Os_Int fd \<and> \<not> (fd < 0 \<or> fd \<in> fst ` set (sw_owned w))")
    case True
    then obtain fd where a: "a = Os_Int fd" "0 \<le> fd" "fd \<notin> fst ` set (sw_owned w)" by auto
    let ?w = "w1\<lparr>sw_owned := sw_owned w @ [(fd, True)]\<rparr>"
    obtain r2 w2 where 2: "os (Os_Get_Inheritable fd) ?w = (r2, w2)" by force
    then obtain b where "w2 = recorded ?w (Os_Get_Inheritable fd) b" by (rule os_records)
    with assms 1 2 r1 a w1 show thesis
      by (intro owned [of fd b]) (auto simp: open_owned_def act_bind_def split: sum.splits if_splits)
  next
    case False
    with assms 1 r1 w1 show thesis
      by (intro refused [of a "projl r"]) (auto simp: open_owned_def act_bind_def split: os_answer.splits if_splits)
  qed
qed

definition neutral :: "os_call \<Rightarrow> bool" where
  "neutral c \<longleftrightarrow> (\<forall>a. opened_by (c, a) = [] \<and> closed_by (c, a) = [] \<and> lock_by (c, a) = [] \<and> unlock_by (c, a) = [])"

lemma held_neutral:
  assumes "neutral c"
  shows "moves keeps_held (os c)"
proof (rule movesI)
  fix w r w'
  assume "os c w = (r, w')"
  then obtain a where w': "w' = recorded w c a" by (rule os_records)
  show "keeps_held w w'"
    using assms by (auto simp: keeps_held_def held_def w' fds_defs neutral_def)
qed

lemma neutral_calls: "quiet_os c \<Longrightarrow> neutral c" "neutral (Os_Write fd b)" "neutral (Os_Fsync fd)"
  "neutral (Os_Replace dir source target)" "neutral (Os_Unlink dir name)"
  "neutral (Os_Read fd k)"
  by (cases c; simp add: neutral_def) (simp_all add: neutral_def)

fun opens_any :: "os_call \<Rightarrow> bool" where
  "opens_any (Os_Open_Create _ _ _) = True"
| "opens_any c = opens_reading c"

lemma opened_by_open:
  "opens_any c \<Longrightarrow> opened_by (c, a) = (case a of Os_Int fd \<Rightarrow> if 0 \<le> fd then [fd] else [] | _ \<Rightarrow> [])"
  "opens_any c \<Longrightarrow> closed_by (c, a) = [] \<and> lock_by (c, a) = [] \<and> unlock_by (c, a) = []"
  by (cases c; cases a; simp)+

interpretation held: step_order keeps_held
  by unfold_locales (auto simp: keeps_held_def)

lemma held_open:
  assumes "opens_any c"
  shows "moves keeps_held (open_owned c)"
proof (rule movesI)
  fix w r w'
  assume "open_owned c w = (r, w')"
  then show "keeps_held w w'"
  proof (cases rule: open_owned_records)
    case (refused a e)
    have "set (opened_by (c, a)) \<subseteq> fst ` set (sw_owned w)"
      using refused(3) by (auto simp: opened_by_open [OF assms] split: os_answer.splits)
    then show ?thesis by (auto simp: keeps_held_def held_def refused(1) fds_defs opened_by_open(2) [OF assms])
  next
    case (owned fd b)
    then show ?thesis by (auto simp: keeps_held_def held_def fds_defs opened_by_open [OF assms])
  qed
qed

interpretation held: store_steps keeps_held
proof
  show "opens_reading c \<Longrightarrow> moves keeps_held (open_owned c)" for c
    by (rule held_open) (cases c, simp_all)
qed (auto intro: held_neutral held_open neutral_calls)

text \<open>Closing marks the descriptor first, so that nothing is closed twice.\<close>

lemma close_owned_records:
  assumes "close_owned fd w = (r, w')"
  obtains (idle) "w' = w"
  | (closed) a where "map_of (sw_owned w) fd = Some True"
      "w' = recorded (w\<lparr>sw_owned := map (\<lambda>(d, b). (d, if d = fd then False else b)) (sw_owned w)\<rparr>) (Os_Close fd) a"
proof (cases "map_of (sw_owned w) fd = Some True")
  case True
  with assms have "os_none (Os_Close fd) (w\<lparr>sw_owned := map (\<lambda>(d, b). (d, if d = fd then False else b)) (sw_owned w)\<rparr>) = (r, w')"
    by (simp add: close_owned_def)
  then show thesis by (rule os_none_records) (rule closed [OF True])
qed (use assms idle in \<open>simp add: close_owned_def\<close>)

lemma held_close: "moves keeps_held (close_owned fd)"
proof (rule movesI)
  fix w r w'
  assume "close_owned fd w = (r, w')"
  then show "keeps_held w w'"
  proof (cases rule: close_owned_records)
    case (closed a)
    define marked where "marked = map (\<lambda>(d, b). (d, if d = fd then False else b)) (sw_owned w)"
    have keys: "map fst marked = map fst (sw_owned w)" by (auto simp: marked_def case_prod_unfold)
    then have dom: "fst ` set marked = fst ` set (sw_owned w)" by (metis set_map)
    have fresh: "distinct (map fst (sw_owned w)) \<Longrightarrow> (fd, False) \<notin> set (sw_owned w)"
      using closed(1) by (metis map_of_is_SomeI option.inject)
    have "(fd, True) \<in> set (sw_owned w)" using closed(1) by (rule map_of_SomeD)
    then have now: "{d. (d, False) \<in> set marked} = insert fd {d. (d, False) \<in> set (sw_owned w)}"
      by (force simp: marked_def)
    show ?thesis using fresh
      by (auto simp: keeps_held_def held_def closed(2) fds_defs keys dom now simp flip: marked_def)
  qed (simp add: held.refl)
qed

lemma snd_defer: "snd (defer_error note m s) = snd (m (snd s))"
  by (simp add: defer_error_def split: prod.splits sum.splits)

lemma defer_moves: "moves R m \<Longrightarrow> R (snd s) (snd (defer_error note m s))"
  by (simp add: snd_defer moves_def)

text \<open>What one round of closing leaves in \<open>owned\<close>: its keys, and the mark on those it closed.\<close>

definition marks :: "(int \<times> bool) list \<Rightarrow> int set \<Rightarrow> (int \<times> bool) list" where
  "marks owned fds = map (\<lambda>(d, b). (d, b \<and> d \<notin> fds)) owned"

lemma marks_simps [simp]:
  "marks owned {} = owned" "marks (marks owned fds) fds' = marks owned (fds \<union> fds')"
  "map fst (marks owned fds) = map fst owned"
  by (auto simp: marks_def case_prod_unfold)

lemma close_owned_marks:
  assumes "distinct (map fst (sw_owned w))" and "close_owned fd w = (r, w')"
  shows "sw_owned w' = marks (sw_owned w) {fd}"
proof (cases "map_of (sw_owned w) fd = Some True")
  case True
  then show ?thesis using assms(2)
    by (auto simp: close_owned_def os_none_def act_bind_def os_def Let_def marks_def split: os_answer.splits if_splits)
next
  case False
  then have "(fd, True) \<notin> set (sw_owned w)" using assms(1) by (metis map_of_is_SomeI)
  then have "marks (sw_owned w) {fd} = sw_owned w" by (force simp: marks_def intro: map_idI)
  with False assms(2) show ?thesis by (simp add: close_owned_def)
qed

lemma fold_close:
  fixes s :: "outcome \<times> store_world"
  assumes "distinct (map fst (sw_owned (snd s)))" and "fold (\<lambda>fd. defer_error note_first (close_owned fd)) fds s = s'"
  shows "sw_owned (snd s') = marks (sw_owned (snd s)) (set fds) \<and> keeps_held (snd s) (snd s')"
  using assms
proof (induction fds arbitrary: s)
  case (Cons fd fds)
  let ?s = "defer_error note_first (close_owned fd) s"
  have owned: "sw_owned (snd ?s) = marks (sw_owned (snd s)) {fd}"
    using close_owned_marks [OF Cons.prems(1)] by (auto simp: defer_error_def split: prod.splits sum.splits)
  have "keeps_held (snd s) (snd ?s)" by (rule defer_moves [OF held_close])
  with Cons.IH [of ?s] Cons.prems owned show ?case by (auto intro: held.trans simp: insert_commute)
qed (auto simp: held.refl)

lemma close_all_marks:
  assumes "distinct (map fst (sw_owned (snd s)))" and "close_all_owned dir s = s'"
  shows "sw_owned (snd s') = marks (sw_owned (snd s)) {fd \<in> fst ` set (sw_owned (snd s)). Some fd \<noteq> dir}"
    "keeps_held (snd s) (snd s')"
  using fold_close [OF assms(1), of "filter (\<lambda>fd. Some fd \<noteq> dir) (rev (map fst (sw_owned (snd s))))" s'] assms(2)
  by (auto simp: close_all_owned_def)

text \<open>The clean-up of an operation that held descriptors: all of them are closed, and the lock is released.\<close>

lemma operate_cleanup_releases:
  assumes "held t0 l [] w" and "operate_cleanup conf dir (out, w) = (out', w')"
  shows "\<exists>tr. sw_trace w' = t0 @ tr \<and> distinct (closed_fds tr) \<and> set (closed_fds tr) = set (opened_fds tr) \<and>
      locked_fds tr = l \<and> unlocked_fds tr = (case dir of None \<Rightarrow> [] | Some fd \<Rightarrow> [fd])"
    and "sw_active w' = remove1 (sc_path conf) (sw_active w)"
proof -
  define s1 where "s1 = close_all_owned dir (out, w)"
  define s2 where "s2 = (case dir of None \<Rightarrow> s1 | Some fd \<Rightarrow> defer_error note_first (os_none (Os_Unlock fd)) s1)"
  define s3 where "s3 = close_all_owned None s2"
  define u where "u = (case dir of None \<Rightarrow> [] | Some fd \<Rightarrow> [fd])"
  have w': "w' = leave_operation (sc_path conf) (snd s3)"
    using assms(2) unfolding operate_cleanup_def Let_def s3_def s2_def s1_def by auto
  have d0: "distinct (map fst (sw_owned w))" using assms(1) by (auto simp: held_def)
  have 1: "sw_owned (snd s1) = marks (sw_owned w) {fd \<in> fst ` set (sw_owned w). Some fd \<noteq> dir}" "keeps_held w (snd s1)"
    using close_all_marks [of "(out, w)" dir s1] d0 by (simp_all add: s1_def)
  have d1: "distinct (map fst (sw_owned (snd s1)))" using d0 1 by simp
  have 2: "sw_owned (snd s2) = sw_owned (snd s1) \<and> sw_active (snd s2) = sw_active (snd s1) \<and> held t0 l u (snd s2)"
  proof (cases dir)
    case None
    then show ?thesis using 1(2) assms(1) by (simp add: s2_def u_def keeps_held_def)
  next
    case (Some fd)
    obtain r where "os_none (Os_Unlock fd) (snd s1) = (r, snd s2)" by (simp add: s2_def Some snd_defer prod_eq_iff)
    then obtain a where "snd s2 = recorded (snd s1) (Os_Unlock fd) a" by (rule os_none_records)
    moreover have "held t0 l [] (snd s1)" using 1(2) assms(1) by (simp add: keeps_held_def)
    ultimately show ?thesis by (auto simp: Some u_def held_def fds_defs)
  qed
  have 3: "sw_owned (snd s3) = marks (sw_owned (snd s2)) (fst ` set (sw_owned (snd s2)))" "keeps_held (snd s2) (snd s3)"
    using close_all_marks [of s2 None s3] d1 2 by (simp_all add: s3_def)
  have "held t0 l u (snd s3)" using 2 3(2) by (simp add: keeps_held_def)
  moreover have "fst ` set (sw_owned (snd s3)) = {fd. (fd, False) \<in> set (sw_owned (snd s3))}"
    unfolding 3(1) by (force simp: marks_def)
  ultimately show "\<exists>tr. sw_trace w' = t0 @ tr \<and> distinct (closed_fds tr) \<and> set (closed_fds tr) = set (opened_fds tr) \<and>
      locked_fds tr = l \<and> unlocked_fds tr = (case dir of None \<Rightarrow> [] | Some fd \<Rightarrow> [fd])"
    by (auto simp: held_def w' leave_operation_def u_def)
  show "sw_active w' = remove1 (sc_path conf) (sw_active w)"
    using 1(2) 2 3(2) by (simp add: w' leave_operation_def keeps_held_def)
qed

section \<open>The course of an operation\<close>

text \<open>The clean-up closes descriptors, unlocks and leaves the gate.\<close>

locale cleanup_steps = step_order R for R :: "store_world \<Rightarrow> store_world \<Rightarrow> bool" +
  assumes closing: "moves R (close_owned fd)"
    and unlocking: "moves R (os_none (Os_Unlock fd))"
    and leaving: "R w (leave_operation key w)"
begin

lemma close_all_moves: "R (snd s) (snd (close_all_owned dir s))"
proof -
  have "R (snd s) (snd (fold (\<lambda>fd. defer_error note_first (close_owned fd)) fds s))" for fds
  proof (induction fds arbitrary: s)
    case (Cons fd fds)
    have "R (snd s) (snd (defer_error note_first (close_owned fd) s))" by (rule defer_moves [OF closing])
    with Cons.IH show ?case by (simp add: trans)
  qed (simp add: refl)
  then show ?thesis by (simp add: close_all_owned_def)
qed

lemma operate_cleanup_moves:
  assumes "operate_cleanup conf dir (out, w) = (out', w')"
  shows "R w w'"
proof -
  define s1 where "s1 = close_all_owned dir (out, w)"
  define s2 where "s2 = (case dir of None \<Rightarrow> s1 | Some fd \<Rightarrow> defer_error note_first (os_none (Os_Unlock fd)) s1)"
  have "R w (snd s1)" using close_all_moves [of "(out, w)" dir] by (simp add: s1_def)
  moreover have "R (snd s1) (snd s2)"
    by (cases dir) (simp_all add: s2_def refl defer_moves [OF unlocking])
  moreover have "R (snd s2) (snd (close_all_owned None s2))" by (rule close_all_moves)
  moreover have "w' = leave_operation (sc_path conf) (snd (close_all_owned None s2))"
    using assms unfolding operate_cleanup_def Let_def s2_def s1_def by auto
  ultimately show ?thesis using leaving trans by metis
qed

end

text \<open>The world in which an operation starts once it has passed the gate.\<close>

definition entered_world :: "store_configuration \<Rightarrow> store_world \<Rightarrow> store_world" where
  "entered_world conf w = w\<lparr>sw_owned := [], sw_active := sc_path conf # sw_active w\<rparr>"

lemma operate_cases:
  assumes "operate conf action w = (r, w')"
  obtains (busy) "sc_path conf \<in> set (sw_active w)" "r = Inl StateStoreUnavailableError" "w' = w\<lparr>sw_owned := []\<rparr>"
  | (no_chain) e w2 out where "sc_path conf \<notin> set (sw_active w)" "open_chain conf (entered_world conf w) = (Inl e, w2)"
      "operate_cleanup conf None (outcome_of (Inl e :: unit result), w2) = (out, w')" "r = operate_result out (Inl e)"
  | (ran) opened dir w2 r1 w3 out where "sc_path conf \<notin> set (sw_active w)"
      "open_chain conf (entered_world conf w) = (Inr (opened, dir), w2)" "locked_action conf dir opened action w2 = (r1, w3)"
      "operate_cleanup conf (Some dir) (outcome_of r1, w3) = (out, w')" "r = operate_result out r1"
proof (cases "sc_path conf \<in> set (sw_active w)")
  case True
  with assms busy show thesis
    by (simp add: operate_def enter_operation_def operate_result_def note_first_def no_error_def is_Exception_def)
next
  case False
  obtain r2 w2 where 2: "open_chain conf (entered_world conf w) = (r2, w2)" by force
  show thesis
  proof (cases r2)
    case (Inl e)
    obtain out w3 where "operate_cleanup conf None (note_first e no_error, w2) = (out, w3)" by force
    with assms False 2 Inl no_chain show thesis
      by (simp add: operate_def enter_operation_def entered_world_def outcome_of_def)
  next
    case (Inr p)
    obtain opened dir where p: "p = (opened, dir)" by force
    obtain r1 w3 where 3: "locked_action conf dir opened action w2 = (r1, w3)" by force
    obtain out w4 where "operate_cleanup conf (Some dir) (outcome_of r1, w3) = (out, w4)" by force
    with assms False 2 3 Inr p ran show thesis
      by (simp add: operate_def enter_operation_def entered_world_def)
  qed
qed

lemma held_entered: "held (sw_trace w) [] [] (entered_world conf w)"
  by (auto simp: held_def entered_world_def fds_defs)

lemma held_lock:
  assumes "os_none (Os_Lock dir) w = (r, w')" and "held t0 [] [] w"
  shows "held t0 [dir] [] w'" "sw_active w' = sw_active w"
proof -
  obtain a where "w' = recorded w (Os_Lock dir) a"
    using assms(1) by (rule os_none_records)
  then show "held t0 [dir] [] w'" "sw_active w' = sw_active w" using assms(2) by (auto simp: held_def fds_defs)
qed

lemma locked_action_held:
  assumes run: "locked_action conf dir opened action w = (r, w')" and action: "moves keeps_held (action dir opened)"
    and start: "held t0 [] [] w"
  shows "held t0 [dir] [] w'" "sw_active w' = sw_active w"
proof -
  obtain r1 w1 where 1: "os_none (Os_Lock dir) w = (r1, w1)" by force
  have rest: "moves keeps_held (act_bind (revalidate_chain conf opened) (\<lambda>_. action dir opened))"
    by (intro held.combinators held.revalidate_moves action)
  have "keeps_held w1 w'"
  proof (cases r1)
    case (Inl e)
    then show ?thesis using run 1 by (simp add: locked_action_def act_bind_def held.refl)
  next
    case (Inr u)
    then show ?thesis using run 1 movesD [OF rest, of w1] by (simp add: locked_action_def act_bind_def [of "os_none (Os_Lock dir)"])
  qed
  with held_lock [OF 1 start] show "held t0 [dir] [] w'" "sw_active w' = sw_active w" by (simp_all add: keeps_held_def)
qed

lemma operate_releases:
  assumes run: "operate conf action w = (r, w')" and action: "\<And>dir opened. moves keeps_held (action dir opened)"
  shows "(\<exists>tr. sw_trace w' = sw_trace w @ tr \<and> distinct (closed_fds tr) \<and> set (closed_fds tr) = set (opened_fds tr) \<and>
      unlocked_fds tr = locked_fds tr \<and> length (locked_fds tr) \<le> 1) \<and> sw_active w' = sw_active w"
  using run
proof (cases rule: operate_cases)
  case busy
  then show ?thesis by (simp add: fds_defs)
next
  case (no_chain e w2 out)
  have "keeps_held (entered_world conf w) w2" by (rule movesD [OF held.open_chain_moves no_chain(2)])
  then have "held (sw_trace w) [] [] w2" "sw_active w2 = sc_path conf # sw_active w"
    using held_entered by (auto simp: keeps_held_def entered_world_def)
  with operate_cleanup_releases [OF this(1) no_chain(3)] show ?thesis by auto
next
  case (ran opened dir w2 r1 w3 out)
  have "keeps_held (entered_world conf w) w2" by (rule movesD [OF held.open_chain_moves ran(2)])
  then have "held (sw_trace w) [] [] w2" "sw_active w2 = sc_path conf # sw_active w"
    using held_entered by (auto simp: keeps_held_def entered_world_def)
  with locked_action_held [OF ran(3) action this(1)]
  have "held (sw_trace w) [dir] [] w3" "sw_active w3 = sc_path conf # sw_active w" by simp_all
  with operate_cleanup_releases [OF this(1) ran(4)] show ?thesis by auto
qed

section \<open>Errors\<close>

definition store_error :: "exn \<Rightarrow> bool" where
  "store_error e \<longleftrightarrow> e = StateStoreUnavailableError \<or> \<not> is_Exception e"

definition controls :: "outcome \<Rightarrow> bool" where
  "controls out \<longleftrightarrow> (\<forall>e. oc_control out = Some e \<longrightarrow> \<not> is_Exception e)"

lemma controls_note: "controls out \<Longrightarrow> controls (note_first e out)"
  by (simp add: controls_def note_first_def)

lemma controls_no_error: "controls no_error"
  by (simp add: controls_def no_error_def)

lemma controls_outcome_of: "controls (outcome_of r)"
  by (simp add: outcome_of_def controls_note controls_no_error split: sum.splits)

lemma controls_defer: "controls (fst s) \<Longrightarrow> controls (fst (defer_error note_first m s))"
  by (simp add: defer_error_def controls_note split: prod.splits sum.splits)

lemma controls_close_all: "controls (fst s) \<Longrightarrow> controls (fst (close_all_owned dir s))"
proof -
  have "controls (fst s) \<Longrightarrow> controls (fst (fold (\<lambda>fd. defer_error note_first (close_owned fd)) fds s))" for fds
    by (induction fds arbitrary: s) (simp_all add: controls_defer)
  then show "controls (fst s) \<Longrightarrow> controls (fst (close_all_owned dir s))" by (simp add: close_all_owned_def)
qed

lemma operate_errors:
  fixes action :: "int \<Rightarrow> chain \<Rightarrow> (store_world, 'a) act"
  assumes "operate conf action w = (Inl e, w')"
  shows "store_error e"
proof -
  have cleanup: "controls out'" if "operate_cleanup conf dir (out, w1) = (out', w2)" "controls out" for dir out out' w1 w2
    using that by (auto simp: operate_cleanup_def Let_def intro!: controls_close_all controls_defer split: option.splits)
  have result: "store_error e" if "Inl e = operate_result out r1" "controls out" for out and r1 :: "'a result"
    using that by (auto simp: operate_result_def store_error_def controls_def split: option.splits if_splits sum.splits)
  from assms show ?thesis
  proof (cases rule: operate_cases)
    case busy
    then show ?thesis by (simp add: store_error_def)
  next
    case (no_chain e1 w2 out)
    show ?thesis by (rule result [OF no_chain(4) cleanup [OF no_chain(3) controls_outcome_of]])
  next
    case (ran opened dir w2 r1 w3 out)
    show ?thesis by (rule result [OF ran(5) cleanup [OF ran(4) controls_outcome_of]])
  qed
qed

section \<open>What a load reads\<close>

fun read_by :: "os_call \<times> os_answer \<Rightarrow> string" where
  "read_by (Os_Read fd k, Os_Bytes b) = b"
| "read_by _ = []"

definition read_bytes :: "(os_call \<times> os_answer) list \<Rightarrow> string" where
  "read_bytes tr = concat (map read_by tr)"

fun mutates :: "os_call \<Rightarrow> bool" where
  "mutates (Os_Open_Create _ _ _) = True"
| "mutates (Os_Write _ _) = True"
| "mutates (Os_Fsync _) = True"
| "mutates (Os_Replace _ _ _) = True"
| "mutates (Os_Unlink _ _) = True"
| "mutates _ = False"

text \<open>\<open>observed b n tr\<close>: the calls changed no file, read the bytes \<open>b\<close>, with at most \<open>n\<close> calls.\<close>

definition read_calls :: "(os_call \<times> os_answer) list \<Rightarrow> nat" where
  "read_calls tr = length (filter (\<lambda>(c, a). case c of Os_Read _ _ \<Rightarrow> True | _ \<Rightarrow> False) tr)"

definition observed :: "string \<Rightarrow> nat \<Rightarrow> (os_call \<times> os_answer) list \<Rightarrow> bool" where
  "observed b n tr \<longleftrightarrow> read_bytes tr = b \<and> read_calls tr \<le> n \<and> list_all (\<lambda>(c, a). \<not> mutates c) tr"

lemma observed_append: "observed b n tr \<Longrightarrow> observed b' n' tr' \<Longrightarrow> observed (b @ b') (n + n') (tr @ tr')"
  by (auto simp: observed_def read_bytes_def read_calls_def)

definition only_looks :: "store_world \<Rightarrow> store_world \<Rightarrow> bool" where
  "only_looks w w' \<longleftrightarrow> (\<exists>tr. sw_trace w' = sw_trace w @ tr \<and> observed [] 0 tr)"

definition looking :: "os_call \<Rightarrow> bool" where
  "looking c \<longleftrightarrow> \<not> mutates c \<and> (case c of Os_Read _ _ \<Rightarrow> False | _ \<Rightarrow> True)"

interpretation looks: step_order only_looks
proof
  show "only_looks w w" for w by (simp add: only_looks_def observed_def read_bytes_def read_calls_def)
  show "only_looks u w" if uv: "only_looks u v" and vw: "only_looks v w" for u v w
  proof -
    obtain tr where tr: "sw_trace v = sw_trace u @ tr" "observed [] 0 tr" using uv unfolding only_looks_def by blast
    obtain tr' where tr': "sw_trace w = sw_trace v @ tr'" "observed [] 0 tr'" using vw unfolding only_looks_def by blast
    show ?thesis
      unfolding only_looks_def using tr tr' observed_append [OF tr(2) tr'(2)] by (intro exI [of _ "tr @ tr'"]) simp
  qed
qed

lemma looks_os:
  assumes "looking c"
  shows "moves only_looks (os c)"
proof (rule movesI)
  fix w r w'
  assume "os c w = (r, w')"
  then obtain a where "w' = recorded w c a" by (rule os_records)
  moreover have "observed [] 0 [(c, a)]"
    using assms by (cases c) (simp_all add: looking_def observed_def read_bytes_def read_calls_def)
  ultimately show "only_looks w w'" by (auto simp: only_looks_def)
qed

lemma looks_open:
  assumes "looking c"
  shows "moves only_looks (open_owned c)"
proof (rule movesI)
  fix w r w'
  assume "open_owned c w = (r, w')"
  moreover have "observed [] 0 [(c, a)]" "observed [] 0 [(c, a), (Os_Get_Inheritable fd, b)]" for a fd b
    using assms by (cases c; simp add: looking_def observed_def read_bytes_def read_calls_def)+
  ultimately show "only_looks w w'" by (cases rule: open_owned_records) (auto simp: only_looks_def)
qed

interpretation looks: quiet_steps only_looks
proof
  show "moves only_looks (os c)" if "quiet_os c" for c
    using that by (intro looks_os) (cases c, simp_all add: looking_def)
  show "moves only_looks (open_owned c)" if "opens_reading c" for c
    using that by (intro looks_open) (cases c, simp_all add: looking_def)
qed

interpretation looks: cleanup_steps only_looks
proof
  show "moves only_looks (close_owned fd)" for fd
  proof (rule movesI)
    fix w r w'
    have step: "observed [] 0 [(Os_Close fd, a)]" for a by (simp add: observed_def read_bytes_def read_calls_def)
    assume "close_owned fd w = (r, w')"
    then show "only_looks w w'" by (cases rule: close_owned_records) (use step in \<open>auto simp: looks.refl only_looks_def\<close>)
  qed
  show "moves only_looks (os_none (Os_Unlock fd))" for fd
    by (intro looks.none_moves looks_os) (simp add: looking_def)
  show "only_looks w (leave_operation key w)" for w key
    using looks.refl [of w] by (simp add: only_looks_def leave_operation_def)
qed

definition read_trace :: "string \<Rightarrow> nat \<Rightarrow> store_world \<Rightarrow> store_world \<Rightarrow> bool" where
  "read_trace b n w w' \<longleftrightarrow> (\<exists>tr. sw_trace w' = sw_trace w @ tr \<and> observed b n tr)"

lemma read_trace_trans: "read_trace b n u v \<Longrightarrow> read_trace b' n' v w \<Longrightarrow> read_trace (b @ b') (n + n') u w"
  unfolding read_trace_def using observed_append by (metis append_assoc)

lemma read_trace_looks: "only_looks w w' \<longleftrightarrow> read_trace [] 0 w w'"
  by (simp add: read_trace_def only_looks_def)

lemma read_loop_observed:
  "read_loop fd n pieces w = (Inr raw, w') \<Longrightarrow> \<exists>b. raw = pieces @ b \<and> read_trace b n w w'"
proof (induction fd n pieces arbitrary: w rule: read_loop.induct)
  case (2 fd n pieces)
  obtain a w1 where 1: "os (Os_Read fd (MAX_STATE_BYTES + 1 - length pieces)) w = (Inr a, w1)"
    using "2.prems" by (auto simp: act_bind_Inr_iff)
  then have step: "read_trace (read_by (Os_Read fd 0, a)) 1 w w1"
    by (rule os_records) (auto simp: read_trace_def observed_def read_bytes_def read_calls_def split: os_answer.splits)
  show ?case
  proof (cases a)
    case (Os_Bytes b)
    show ?thesis
    proof (cases "b = []")
      case True
      then show ?thesis using "2.prems" 1 Os_Bytes step
        by (auto simp: act_bind_eq read_trace_def observed_def intro: order_trans)
    next
      case False
      have rest: "read_loop fd n (pieces @ b) w1 = (Inr raw, w')" "\<not> MAX_STATE_BYTES + 1 - length pieces < length b"
          "\<not> MAX_STATE_BYTES < length (pieces @ b)"
        using "2.prems" False 1 Os_Bytes by (auto simp: act_bind_eq split: if_splits)
      then obtain b' where "raw = (pieces @ b) @ b'" "read_trace b' n w1 w'"
        using "2.IH" [OF False rest(2,3) rest(1)] by blast
      with read_trace_trans [OF step] Os_Bytes show ?thesis by (intro exI [of _ "b @ b'"]) fastforce
    qed
  qed (use "2.prems" 1 in \<open>simp_all add: act_bind_eq\<close>)
qed simp

lemma read_validated_observed:
  assumes "read_validated_state conf dir opened w = (Inr (s, identity, fd, raw), w')"
  shows "parse_persisted raw = Inr s \<and> read_trace raw MAX_READ_CALLS w w'"
proof -
  obtain names w1 w2 w3 w4 w5 w6 names' where steps: "validate_entries conf dir True False w = (Inr names, w1)"
      "open_state conf dir w1 = (Inr (fd, identity), w2)" "bounded_read fd w2 = (Inr raw, w3)"
      "stat_state conf (Os_Fstat fd) w3 = (Inr identity, w4)"
      "stat_state conf (Os_Stat_At (Some dir) (sc_state_name conf)) w4 = (Inr identity, w5)"
      "revalidate_chain conf opened w5 = (Inr (), w6)" "validate_entries conf dir True False w6 = (Inr names', w')"
    and parsed: "parse_persisted raw = Inr s"
    using assms unfolding read_validated_state_def
    by (auto simp: act_bind_Inr_iff split: if_splits prod.splits)
  have before: "only_looks w w2"
    by (rule looks.trans [OF movesD [OF looks.validate_entries_moves steps(1)] movesD [OF looks.open_state_moves steps(2)]])
  have "only_looks w3 w5"
    by (rule looks.trans [OF movesD [OF looks.stat_moves(1) steps(4)] movesD [OF looks.stat_moves(1) steps(5)]]) simp_all
  moreover have "only_looks w5 w'"
    by (rule looks.trans [OF movesD [OF looks.revalidate_moves steps(6)] movesD [OF looks.validate_entries_moves steps(7)]])
  ultimately have after: "only_looks w3 w'" by (rule looks.trans)
  have "read_trace raw MAX_READ_CALLS w2 w3"
    using read_loop_observed [of fd MAX_READ_CALLS "[]"] steps(3) unfolding bounded_read_def by auto
  with read_trace_trans [OF read_trace_trans [OF before [unfolded read_trace_looks] this] after [unfolded read_trace_looks]]
  show ?thesis using parsed by simp
qed

text \<open>What an operation that returns did: it opened the chain, locked, acted and cleaned up.\<close>

lemma operate_result_Inr: "operate_result out r = Inr x \<longleftrightarrow> out = no_error \<and> r = Inr x"
  by (cases out) (auto simp: operate_result_def no_error_def split: option.splits sum.splits)

lemma operate_Inr:
  assumes "operate conf action w = (Inr x, w')"
  obtains opened dir w2 w3 w4 w5 where "open_chain conf (entered_world conf w) = (Inr (opened, dir), w2)"
    "os_none (Os_Lock dir) w2 = (Inr (), w3)" "revalidate_chain conf opened w3 = (Inr (), w4)"
    "action dir opened w4 = (Inr x, w5)" "operate_cleanup conf (Some dir) (no_error, w5) = (no_error, w')"
  using assms
proof (cases rule: operate_cases)
  case (ran opened dir w2 r1 w3 out)
  then have "r1 = Inr x" "out = no_error" using operate_result_Inr [of out r1 x] by auto
  moreover obtain w4 w5 where "os_none (Os_Lock dir) w2 = (Inr (), w4)" "revalidate_chain conf opened w4 = (Inr (), w5)"
      "action dir opened w5 = (r1, w3)"
    using ran(3) calculation(1) by (auto simp: locked_action_def act_bind_Inr_iff)
  ultimately show thesis using that [OF ran(2)] ran(4) by (simp add: outcome_of_def)
next
  case (no_chain e w2 out)
  from no_chain(4) have "operate_result out (Inl e) = Inr x" by (rule sym)
  then show thesis by (simp only: operate_result_Inr) simp
qed simp

lemma load_observed:
  assumes "load conf w = (Inr s, w')"
  shows "\<exists>raw. parse_persisted raw = Inr s \<and> read_trace raw MAX_READ_CALLS w w'"
proof -
  obtain opened dir w2 w3 w4 w5 where steps: "open_chain conf (entered_world conf w) = (Inr (opened, dir), w2)"
      "os_none (Os_Lock dir) w2 = (Inr (), w3)" "revalidate_chain conf opened w3 = (Inr (), w4)"
      "load_action conf dir opened w4 = (Inr s, w5)" "operate_cleanup conf (Some dir) (no_error, w5) = (no_error, w')"
    using assms unfolding load_def by (rule operate_Inr)
  obtain identity fd raw where "read_validated_state conf dir opened w4 = (Inr (s, identity, fd, raw), w5)"
    using steps(4) by (auto simp: load_action_def act_bind_Inr_iff)
  note read = read_validated_observed [OF this]
  have "only_looks (entered_world conf w) w2" by (rule movesD [OF looks.open_chain_moves steps(1)])
  moreover have "moves only_looks (os_none (Os_Lock dir))"
    by (intro looks.none_moves looks_os) (simp add: looking_def)
  then have "only_looks w2 w3" using steps(2) by (rule movesD)
  moreover have "only_looks w3 w4" by (rule movesD [OF looks.revalidate_moves steps(3)])
  ultimately have "only_looks (entered_world conf w) w4" by (blast intro: looks.trans)
  then have before: "read_trace [] 0 w w4" by (simp add: read_trace_def only_looks_def entered_world_def)
  have after: "read_trace [] 0 w5 w'"
    using looks.operate_cleanup_moves [OF steps(5)] by (simp add: read_trace_looks)
  from read_trace_trans [OF read_trace_trans [OF before conjunct2 [OF read]] after] read show ?thesis by auto
qed

end
