(* ===== verification/Store_Disk.thy ===== *)
theory Store_Disk
  imports Store_Run
begin

text \<open>
  What the calls of a save do to a disk, and that a crash between any two of them leaves the state file whole.  The
  disk keeps names and files in memory and on stable storage; \<open>fsync\<close> of a file makes its bytes stable, \<open>fsync\<close> of
  the directory its names.  A call that raised may have taken effect or not.
\<close>

section \<open>The disk\<close>

text \<open>
  The names of the state directory, those on stable storage, each file's bytes with the flag that they are on stable
  storage, and the descriptors open for writing.
\<close>

record disk =
  dk_names :: "string \<Rightarrow> nat option"
  dk_durable :: "string \<Rightarrow> nat option"
  dk_files :: "nat \<Rightarrow> string \<times> bool"
  dk_writers :: "int \<Rightarrow> nat option"

definition unused :: "disk \<Rightarrow> nat \<Rightarrow> bool" where
  "unused d n \<longleftrightarrow> n \<notin> ran (dk_names d) \<and> n \<notin> ran (dk_durable d) \<and> n \<notin> ran (dk_writers d)"

text \<open>The answer of a call that took effect.\<close>

fun completes :: "os_call \<Rightarrow> os_answer \<Rightarrow> bool" where
  "completes (Os_Open_Create _ _ _) a = (\<exists>fd. a = Os_Int fd)"
| "completes (Os_Write _ _) a = (\<exists>k. a = Os_Int k)"
| "completes (Os_Fsync _) a = (a = Os_None)"
| "completes (Os_Replace _ _ _) a = (a = Os_None)"
| "completes (Os_Unlink _ _) a = (a = Os_None)"
| "completes _ a = True"

inductive disk_effect :: "os_call \<times> os_answer \<Rightarrow> disk \<Rightarrow> disk \<Rightarrow> bool" where
  created: "dk_names d name = None \<Longrightarrow> unused d n \<Longrightarrow>
    disk_effect (Os_Open_Create dir name mode, Os_Int fd) d
      (d\<lparr>dk_names := (dk_names d)(name := Some n), dk_files := (dk_files d)(n := ([], False)),
         dk_writers := (dk_writers d)(fd := Some n)\<rparr>)"
| wrote: "dk_writers d fd = Some n \<Longrightarrow>
    disk_effect (Os_Write fd b, Os_Int k) d
      (d\<lparr>dk_files := (dk_files d)(n := (fst (dk_files d n) @ take (nat k) b, False))\<rparr>)"
| synced_file: "dk_writers d fd = Some n \<Longrightarrow>
    disk_effect (Os_Fsync fd, Os_None) d (d\<lparr>dk_files := (dk_files d)(n := (fst (dk_files d n), True))\<rparr>)"
| synced_directory: "dk_writers d fd = None \<Longrightarrow>
    disk_effect (Os_Fsync fd, Os_None) d (d\<lparr>dk_durable := dk_names d\<rparr>)"
| replaced: "dk_names d source = Some n \<Longrightarrow>
    disk_effect (Os_Replace dir source target, Os_None) d
      (d\<lparr>dk_names := (dk_names d)(source := None, target := Some n)\<rparr>)"
| unlinked: "disk_effect (Os_Unlink dir name, Os_None) d (d\<lparr>dk_names := (dk_names d)(name := None)\<rparr>)"
| closed: "disk_effect (Os_Close fd, a) d (d\<lparr>dk_writers := (dk_writers d)(fd := None)\<rparr>)"
| idle: "\<not> mutates c \<Longrightarrow> (\<forall>fd. c \<noteq> Os_Close fd) \<Longrightarrow> disk_effect (c, a) d d"
| failed: "mutates c \<Longrightarrow> \<not> completes c a \<Longrightarrow> disk_effect (c, a) d d"
| failed_late: "mutates c \<Longrightarrow> \<not> completes c a \<Longrightarrow> completes c b \<Longrightarrow> disk_effect (c, b) d d' \<Longrightarrow> disk_effect (c, a) d d'"

inductive disk_run :: "disk \<Rightarrow> (os_call \<times> os_answer) list \<Rightarrow> disk \<Rightarrow> bool" where
  start: "disk_run d [] d"
| call: "disk_run d tr d1 \<Longrightarrow> disk_effect x d1 d2 \<Longrightarrow> disk_run d (tr @ [x]) d2"

inductive_simps disk_run_Nil [simp]: "disk_run d [] d'"

lemma disk_run_snoc [simp]: "disk_run d (tr @ [x]) d' \<longleftrightarrow> (\<exists>d1. disk_run d tr d1 \<and> disk_effect x d1 d')"
  by (subst disk_run.simps) auto

text \<open>What a mutating call does, whether it returned or raised.\<close>

lemma effect_idle: "\<not> mutates c \<Longrightarrow> (\<And>fd. c \<noteq> Os_Close fd) \<Longrightarrow> disk_effect (c, a) d d' \<longleftrightarrow> d' = d"
  by (subst disk_effect.simps) auto

lemma effect_close: "disk_effect (Os_Close fd, a) d d' \<longleftrightarrow> d' = d\<lparr>dk_writers := (dk_writers d)(fd := None)\<rparr>"
  by (subst disk_effect.simps) auto

text \<open>A mutating call has the effect of a completed one or none; completed, it has its effect.\<close>

lemma effect_completed:
  assumes "disk_effect (c, a) d d'" and "mutates c"
  shows "d' = d \<and> \<not> completes c a \<or> (\<exists>b. completes c b \<and> disk_effect (c, b) d d' \<and> (completes c a \<longrightarrow> b = a))"
  using assms by (cases rule: disk_effect.cases) (auto intro: disk_effect.intros)

lemma effect_create: "disk_effect (Os_Open_Create dir name mode, Os_Int fd) d d' \<longleftrightarrow>
    (\<exists>n. dk_names d name = None \<and> unused d n \<and>
      d' = d\<lparr>dk_names := (dk_names d)(name := Some n), dk_files := (dk_files d)(n := ([], False)),
         dk_writers := (dk_writers d)(fd := Some n)\<rparr>)"
  by (subst disk_effect.simps) auto

lemma effect_write: "disk_effect (Os_Write fd b, Os_Int k) d d' \<longleftrightarrow>
    (\<exists>n. dk_writers d fd = Some n \<and> d' = d\<lparr>dk_files := (dk_files d)(n := (fst (dk_files d n) @ take (nat k) b, False))\<rparr>)"
  by (subst disk_effect.simps) auto

lemma effect_sync: "disk_effect (Os_Fsync fd, Os_None) d d' \<longleftrightarrow>
    (case dk_writers d fd of
       None \<Rightarrow> d' = d\<lparr>dk_durable := dk_names d\<rparr>
     | Some n \<Rightarrow> d' = d\<lparr>dk_files := (dk_files d)(n := (fst (dk_files d n), True))\<rparr>)"
  by (subst disk_effect.simps) (auto split: option.splits)

lemma effect_replace: "disk_effect (Os_Replace dir source target, Os_None) d d' \<longleftrightarrow>
    (\<exists>n. dk_names d source = Some n \<and> d' = d\<lparr>dk_names := (dk_names d)(source := None, target := Some n)\<rparr>)"
  by (subst disk_effect.simps) auto

lemma effect_unlink: "disk_effect (Os_Unlink dir name, Os_None) d d' \<longleftrightarrow> d' = d\<lparr>dk_names := (dk_names d)(name := None)\<rparr>"
  by (subst disk_effect.simps) auto

section \<open>Disks along a run\<close>

text \<open>
  \<open>on_disks S t0 d0 D P w\<close>: at every point since the record \<open>t0\<close>, every disk that the calls can have left of \<open>d0\<close>
  satisfies \<open>S\<close>, those now also \<open>P\<close>, and the descriptors \<open>D\<close> are owned.
\<close>

definition on_disks ::
    "(disk \<Rightarrow> bool) \<Rightarrow> (os_call \<times> os_answer) list \<Rightarrow> disk \<Rightarrow> int set \<Rightarrow> (disk \<Rightarrow> bool) \<Rightarrow> store_world \<Rightarrow> bool" where
  "on_disks S t0 d0 D P w \<longleftrightarrow>
     (\<exists>tr. sw_trace w = t0 @ tr \<and> (\<forall>k d. disk_run d0 (take k tr) d \<longrightarrow> S d) \<and> (\<forall>d. disk_run d0 tr d \<longrightarrow> P d)) \<and>
     D \<subseteq> fst ` set (sw_owned w)"

lemma on_disks_recorded:
  assumes "on_disks S t0 d0 D P w" and "\<And>d d'. P d \<Longrightarrow> S d \<Longrightarrow> disk_effect (c, a) d d' \<Longrightarrow> Q d' \<and> S d'"
  shows "on_disks S t0 d0 D Q (recorded w c a)"
proof -
  obtain tr where tr: "sw_trace w = t0 @ tr" and S: "\<And>k d. disk_run d0 (take k tr) d \<Longrightarrow> S d" and P: "\<And>d. disk_run d0 tr d \<Longrightarrow> P d"
    using assms(1) unfolding on_disks_def by blast
  have now: "Q d \<and> S d" if "disk_run d0 (tr @ [(c, a)]) d" for d
    using that assms(2) P S [of "length tr"] by auto
  have "S d" if "disk_run d0 (take k (tr @ [(c, a)])) d" for k d
    using that now S by (cases "k \<le> length tr") auto
  with now tr assms(1) show ?thesis by (auto simp: on_disks_def)
qed

lemma on_disks_idle:
  "on_disks S t0 d0 D P w \<Longrightarrow> \<not> mutates c \<Longrightarrow> (\<And>fd. c \<noteq> Os_Close fd) \<Longrightarrow> on_disks S t0 d0 D P (recorded w c a)"
  by (rule on_disks_recorded) (auto simp: effect_idle)

lemma on_disks_mono: "on_disks S t0 d0 D P w \<Longrightarrow> (\<And>d. P d \<Longrightarrow> Q d) \<Longrightarrow> on_disks S t0 d0 D Q w"
  by (auto simp: on_disks_def)

lemma on_disks_owned:
  "on_disks S t0 d0 D P w \<Longrightarrow> fst ` set (sw_owned w) \<subseteq> fst ` set fds \<Longrightarrow> on_disks S t0 d0 D P (w\<lparr>sw_owned := fds\<rparr>)"
  by (auto simp: on_disks_def)

text \<open>Reading keeps whatever is known of the disk.\<close>

definition keeps_disks :: "(disk \<Rightarrow> bool) \<Rightarrow> (os_call \<times> os_answer) list \<Rightarrow> disk \<Rightarrow> int set \<Rightarrow> (disk \<Rightarrow> bool) \<Rightarrow>
    store_world \<Rightarrow> store_world \<Rightarrow> bool" where
  "keeps_disks S t0 d0 D P w w' \<longleftrightarrow> (on_disks S t0 d0 D P w \<longrightarrow> on_disks S t0 d0 D P w')"

interpretation reads_disk: step_order "keeps_disks S t0 d0 D P" for S t0 d0 D P
  by unfold_locales (simp_all add: keeps_disks_def)

lemma keeps_disks_os:
  assumes "\<not> mutates c" and "\<And>fd. c \<noteq> Os_Close fd"
  shows "moves (keeps_disks S t0 d0 D P) (os c)"
proof (rule movesI)
  fix w r w'
  assume "os c w = (r, w')"
  then obtain a where "w' = recorded w c a" by (rule os_records)
  then show "keeps_disks S t0 d0 D P w w'" using assms by (simp add: keeps_disks_def on_disks_idle)
qed

interpretation reads_disk: reading_steps "keeps_disks S t0 d0 D P" for S t0 d0 D P
proof
  show "moves (keeps_disks S t0 d0 D P) (os c)" if "quiet_os c" for c
    using that by (intro keeps_disks_os) (cases c, auto)
  show "moves (keeps_disks S t0 d0 D P) (open_owned c)" if "opens_reading c" for c
  proof (rule movesI)
    fix w r w'
    have c: "\<not> mutates c" "\<And>fd. c \<noteq> Os_Close fd" using that by (cases c, auto)+
    assume "open_owned c w = (r, w')"
    then show "keeps_disks S t0 d0 D P w w'"
      by (cases rule: open_owned_records)
        (auto simp: keeps_disks_def intro!: on_disks_idle on_disks_owned c)
  qed
qed (auto intro: keeps_disks_os)

section \<open>Specifications of steps over disks\<close>

text \<open>
  \<open>drives S t0 d0 D P m Q\<close>: from disks with \<open>P\<close>, the action leads to disks with \<open>Q x\<close> when it returns \<open>x\<close>, and \<open>S\<close> holds
  all along, also when it raises.
\<close>

definition drives :: "(disk \<Rightarrow> bool) \<Rightarrow> (os_call \<times> os_answer) list \<Rightarrow> disk \<Rightarrow> int set \<Rightarrow> (disk \<Rightarrow> bool) \<Rightarrow>
    (store_world, 'a) act \<Rightarrow> ('a \<Rightarrow> disk \<Rightarrow> bool) \<Rightarrow> bool" where
  "drives S t0 d0 D P m Q \<longleftrightarrow>
     (\<forall>w r w'. on_disks S t0 d0 D P w \<longrightarrow> m w = (r, w') \<longrightarrow>
        on_disks S t0 d0 D (case r of Inr x \<Rightarrow> Q x | Inl _ \<Rightarrow> (\<lambda>_. True)) w')"

lemma drivesD: "drives S t0 d0 D P m Q \<Longrightarrow> on_disks S t0 d0 D P w \<Longrightarrow> m w = (r, w') \<Longrightarrow>
    on_disks S t0 d0 D (case r of Inr x \<Rightarrow> Q x | Inl _ \<Rightarrow> (\<lambda>_. True)) w'"
  by (simp add: drives_def)

lemma drives_keep: "moves (keeps_disks S t0 d0 D P) m \<Longrightarrow> drives S t0 d0 D P m (\<lambda>_. P)"
  unfolding drives_def
proof (intro allI impI)
  fix w r w'
  assume "moves (keeps_disks S t0 d0 D P) m" "on_disks S t0 d0 D P w" "m w = (r, w')"
  then have "on_disks S t0 d0 D P w'" by (auto dest: movesD simp: keeps_disks_def)
  then show "on_disks S t0 d0 D (case r of Inr x \<Rightarrow> P | Inl _ \<Rightarrow> (\<lambda>_. True)) w'"
    by (cases r) (auto elim: on_disks_mono)
qed

lemma drives_bind:
  assumes "drives S t0 d0 D P m Qm" and "\<And>x. drives S t0 d0 D (Qm x) (f x) Q"
  shows "drives S t0 d0 D P (act_bind m f) Q"
  unfolding drives_def
proof (intro allI impI)
  fix w r w'
  assume on: "on_disks S t0 d0 D P w" and run: "act_bind m f w = (r, w')"
  obtain r1 w1 where 1: "m w = (r1, w1)" by force
  note mid = drivesD [OF assms(1) on 1]
  show "on_disks S t0 d0 D (case r of Inr x \<Rightarrow> Q x | Inl _ \<Rightarrow> (\<lambda>_. True)) w'"
  proof (cases r1)
    case (Inl e)
    then show ?thesis using mid run 1 by (auto simp: act_bind_def)
  next
    case (Inr x)
    then show ?thesis using mid run 1 drivesD [OF assms(2), of x w1 r w'] by (simp add: act_bind_def)
  qed
qed

lemma drives_lift: "(\<And>x d. r = Inr x \<Longrightarrow> P d \<Longrightarrow> Q x d) \<Longrightarrow> drives S t0 d0 D P (act_lift r) Q"
  unfolding drives_def by (auto elim!: on_disks_mono split: sum.splits)

lemma drives_if: "(b \<Longrightarrow> drives S t0 d0 D P m Q) \<Longrightarrow> (\<not> b \<Longrightarrow> drives S t0 d0 D P n Q) \<Longrightarrow>
    drives S t0 d0 D P (if b then m else n) Q"
  by simp

text \<open>A mutating call that returns \<open>None\<close>: its effect when it returned, \<open>S\<close> whatever it answered.\<close>

lemma drives_none:
  assumes "mutates c" and "\<And>a. completes c a \<longleftrightarrow> a = Os_None"
    and "\<And>d d'. P d \<Longrightarrow> S d \<Longrightarrow> disk_effect (c, Os_None) d d' \<Longrightarrow> Q d' \<and> S d'"
  shows "drives S t0 d0 D P (os_none c) (\<lambda>_. Q)"
  unfolding drives_def
proof (intro allI impI)
  fix w r w'
  assume on: "on_disks S t0 d0 D P w" and "os_none c w = (r, w')"
  then obtain a where w': "w' = recorded w c a" and r: "r = Inr () \<longleftrightarrow> a = Os_None" by (auto elim: os_none_records)
  show "on_disks S t0 d0 D (case r of Inr x \<Rightarrow> Q | Inl _ \<Rightarrow> (\<lambda>_. True)) w'"
    unfolding w'
  proof (rule on_disks_recorded [OF on])
    fix d d'
    assume d: "P d" "S d" and eff: "disk_effect (c, a) d d'"
    show "(case r of Inr x \<Rightarrow> Q | Inl _ \<Rightarrow> (\<lambda>_. True)) d' \<and> S d'"
      using effect_completed [OF eff assms(1)] assms(2,3) d r by (cases r) auto
  qed
qed

section \<open>The phases of a save\<close>

text \<open>The state file is whole: in memory and on stable storage its name is a file with the old or the new bytes.\<close>

definition whole :: "string \<Rightarrow> string \<Rightarrow> string \<Rightarrow> disk \<Rightarrow> bool" where
  "whole st old new d \<longleftrightarrow>
     (\<exists>n. dk_names d st = Some n \<and> dk_files d n \<in> {(old, True), (new, True)}) \<and>
     (\<exists>n. dk_durable d st = Some n \<and> dk_files d n \<in> {(old, True), (new, True)})"

text \<open>The bytes \<open>b\<close> are stored: name and bytes are on stable storage.\<close>

definition stored :: "string \<Rightarrow> string \<Rightarrow> disk \<Rightarrow> bool" where
  "stored st b d \<longleftrightarrow> (\<exists>n. dk_names d st = Some n \<and> dk_durable d st = Some n \<and> dk_files d n = (b, True))"

definition untouched :: "string \<Rightarrow> string \<Rightarrow> disk \<Rightarrow> bool" where
  "untouched st old d \<longleftrightarrow> stored st old d \<and> dk_writers d = Map.empty"

text \<open>Beside the old file the temporary one holds \<open>b\<close>, and only \<open>fd\<close> writes to it.\<close>

definition filling :: "string \<Rightarrow> string \<Rightarrow> string \<Rightarrow> int \<Rightarrow> string \<Rightarrow> bool \<Rightarrow> disk \<Rightarrow> bool" where
  "filling st tmp old fd b synced d \<longleftrightarrow>
     (\<exists>n0 n. dk_names d st = Some n0 \<and> dk_durable d st = Some n0 \<and> dk_files d n0 = (old, True) \<and>
        dk_names d tmp = Some n \<and> n \<noteq> n0 \<and> dk_writers d = [fd \<mapsto> n] \<and> fst (dk_files d n) = b \<and>
        (synced \<longrightarrow> snd (dk_files d n)))"

definition renamed :: "string \<Rightarrow> string \<Rightarrow> string \<Rightarrow> int \<Rightarrow> disk \<Rightarrow> bool" where
  "renamed st old new fd d \<longleftrightarrow>
     whole st old new d \<and> (\<exists>n. dk_names d st = Some n \<and> dk_files d n = (new, True)) \<and> dom (dk_writers d) \<subseteq> {fd}"

lemma stored_whole: "stored st old d \<Longrightarrow> whole st old new d" "stored st new d \<Longrightarrow> whole st old new d"
  by (auto simp: stored_def whole_def)

lemma filling_whole: "filling st tmp old fd b synced d \<Longrightarrow> whole st old new d"
  by (auto simp: filling_def whole_def)

lemma drives_create:
  assumes tmp: "tmp \<noteq> st" and dir: "dir \<in> D"
  shows "drives (whole st old new) t0 d0 D (untouched st old) (open_owned (Os_Open_Create dir tmp mode))
     (\<lambda>fd d. filling st tmp old fd [] False d \<and> fd \<noteq> dir)"
  unfolding drives_def
proof (intro allI impI)
  let ?S = "whole st old new" and ?c = "Os_Open_Create dir tmp mode"
  fix w r w'
  assume on: "on_disks ?S t0 d0 D (untouched st old) w" and run: "open_owned ?c w = (r, w')"
  have eff: "filling st tmp old fd [] False d'" if "untouched st old d" "disk_effect (?c, Os_Int fd) d d'" for d d' fd
    using that tmp by (auto simp: effect_create untouched_def stored_def filling_def unused_def ran_def)
  from run show "on_disks ?S t0 d0 D (case r of Inr fd \<Rightarrow> \<lambda>d. filling st tmp old fd [] False d \<and> fd \<noteq> dir | Inl _ \<Rightarrow> (\<lambda>_. True)) w'"
  proof (cases rule: open_owned_records)
    case (refused a e)
    have "on_disks ?S t0 d0 D (\<lambda>_. True) (recorded w ?c a)"
    proof (rule on_disks_recorded [OF on])
      fix d d'
      assume d: "untouched st old d" "?S d" "disk_effect (?c, a) d d'"
      then show "True \<and> ?S d'"
        using effect_completed [OF d(3)] eff [OF d(1), THEN filling_whole] by auto
    qed
    then show ?thesis by (simp add: refused)
  next
    case (owned fd b)
    have "on_disks ?S t0 d0 D (\<lambda>d. filling st tmp old fd [] False d) (recorded w ?c (Os_Int fd))"
      by (rule on_disks_recorded [OF on]) (use eff filling_whole in blast)
    moreover have "fd \<noteq> dir" using on owned(2) dir by (auto simp: on_disks_def)
    ultimately have "on_disks ?S t0 d0 D (\<lambda>d. filling st tmp old fd [] False d \<and> fd \<noteq> dir) (recorded w ?c (Os_Int fd))"
      by (auto elim: on_disks_mono)
    then have "on_disks ?S t0 d0 D (\<lambda>d. filling st tmp old fd [] False d \<and> fd \<noteq> dir) w'"
      unfolding owned(3) by (rule on_disks_idle [OF on_disks_owned]) auto
    then show ?thesis using owned(4) by (cases r) (auto elim: on_disks_mono)
  qed
qed

lemma filling_write:
  assumes "filling st tmp old fd b synced d" and "disk_effect (Os_Write fd rest, Os_Int k) d d'"
  shows "filling st tmp old fd (b @ take (nat k) rest) False d'"
  using assms by (auto simp: filling_def effect_write)

lemma drives_write:
  "drives (whole st old new) t0 d0 D (\<lambda>d. filling st tmp old fd b False d \<and> fd \<noteq> dir) (write_loop fd n rest)
     (\<lambda>_ d. filling st tmp old fd (b @ rest) False d \<and> fd \<noteq> dir)"
proof (induction fd n rest arbitrary: b rule: write_loop.induct)
  case (1 fd rest)
  show ?case by (auto simp del: act_lift_apply intro!: drives_lift)
next
  case (2 fd n rest)
  let ?S = "whole st old new" and ?c = "Os_Write fd rest"
  show ?case
  proof (cases "rest = []")
    case True
    then show ?thesis by (auto simp del: act_lift_apply intro!: drives_lift)
  next
    case False
    have wr: "drives ?S t0 d0 D (\<lambda>d. filling st tmp old fd b False d \<and> fd \<noteq> dir) (os ?c)
        (\<lambda>a d. \<forall>k. a = Os_Int k \<longrightarrow> filling st tmp old fd (b @ take (nat k) rest) False d \<and> fd \<noteq> dir)"
      unfolding drives_def
    proof (intro allI impI)
      fix w r w'
      assume on: "on_disks ?S t0 d0 D (\<lambda>d. filling st tmp old fd b False d \<and> fd \<noteq> dir) w" and "os ?c w = (r, w')"
      then obtain a where w': "w' = recorded w ?c a" and r: "r = (case a of Os_Raises e \<Rightarrow> Inl e | _ \<Rightarrow> Inr a)"
        by (auto elim: os_records)
      show "on_disks ?S t0 d0 D (case r of Inr a \<Rightarrow> \<lambda>d. \<forall>k. a = Os_Int k \<longrightarrow>
          filling st tmp old fd (b @ take (nat k) rest) False d \<and> fd \<noteq> dir | Inl _ \<Rightarrow> (\<lambda>_. True)) w'"
        unfolding w'
      proof (rule on_disks_recorded [OF on])
        fix d d'
        assume d: "filling st tmp old fd b False d \<and> fd \<noteq> dir" "?S d" and eff: "disk_effect (?c, a) d d'"
        have "?S d'" using effect_completed [OF eff] d filling_write [THEN filling_whole] by fastforce
        moreover have "filling st tmp old fd (b @ take (nat k) rest) False d'" if "a = Os_Int k" for k
          using filling_write d(1) eff that by blast
        ultimately show "(case r of Inr a \<Rightarrow> \<lambda>d. \<forall>k. a = Os_Int k \<longrightarrow>
          filling st tmp old fd (b @ take (nat k) rest) False d \<and> fd \<noteq> dir | Inl _ \<Rightarrow> (\<lambda>_. True)) d' \<and> ?S d'"
          using d r by (auto split: os_answer.splits)
      qed
    qed
    have IH: "drives ?S t0 d0 D (\<lambda>d. filling st tmp old fd (b @ take (nat k) rest) False d \<and> fd \<noteq> dir)
        (write_loop fd n (drop (nat k) rest)) (\<lambda>_ d. filling st tmp old fd (b @ rest) False d \<and> fd \<noteq> dir)"
      if "1 \<le> k" "k \<le> int (length rest)" for k
      using "2.IH" [OF False, of k "b @ take (nat k) rest"] that by simp
    show ?thesis
      using False IH by (auto simp del: act_lift_apply intro!: drives_bind [OF wr] drives_lift split: os_answer.split)
  qed
qed

lemma drives_sync:
  "drives (whole st old new) t0 d0 D (\<lambda>d. filling st tmp old fd b False d \<and> fd \<noteq> dir) (os_none (Os_Fsync fd))
     (\<lambda>_ d. filling st tmp old fd b True d \<and> fd \<noteq> dir)"
proof (rule drives_none)
  fix d d'
  assume d: "filling st tmp old fd b False d \<and> fd \<noteq> dir" "disk_effect (Os_Fsync fd, Os_None) d d'"
  then have "filling st tmp old fd b True d'" by (auto simp: filling_def effect_sync)
  with d(1) show "(filling st tmp old fd b True d' \<and> fd \<noteq> dir) \<and> whole st old new d'" by (auto intro: filling_whole)
qed simp_all

lemma drives_replace:
  assumes "tmp \<noteq> st"
  shows "drives (whole st old new) t0 d0 D (\<lambda>d. filling st tmp old fd new True d \<and> fd \<noteq> dir) (os_none (Os_Replace dir tmp st))
     (\<lambda>_ d. renamed st old new fd d \<and> fd \<noteq> dir)"
proof (rule drives_none)
  fix d d'
  assume d: "filling st tmp old fd new True d \<and> fd \<noteq> dir" "disk_effect (Os_Replace dir tmp st, Os_None) d d'"
  then have "renamed st old new fd d'" by (auto simp: filling_def effect_replace renamed_def whole_def prod_eq_iff split: if_splits)
  with d(1) show "(renamed st old new fd d' \<and> fd \<noteq> dir) \<and> whole st old new d'" by (simp add: renamed_def)
qed simp_all

lemma drives_settle:
  "drives (whole st old new) t0 d0 D (\<lambda>d. renamed st old new fd d \<and> fd \<noteq> dir) (os_none (Os_Fsync dir)) (\<lambda>_. stored st new)"
proof (rule drives_none)
  fix d d'
  assume d: "renamed st old new fd d \<and> fd \<noteq> dir" "disk_effect (Os_Fsync dir, Os_None) d d'"
  then have "dk_writers d dir = None" by (auto simp: renamed_def)
  with d have "stored st new d'" by (auto simp: renamed_def stored_def effect_sync)
  then show "stored st new d' \<and> whole st old new d'" by (auto intro: stored_whole)
qed simp_all

lemma drives_unlink:
  assumes "tmp \<noteq> st"
  shows "drives (whole st old new) t0 d0 D (\<lambda>_. True) (os_none (Os_Unlink dir tmp)) (\<lambda>_ _. True)"
  by (rule drives_none) (use assms in \<open>auto simp: effect_unlink whole_def\<close>)

lemma drives_sync_any: "drives (whole st old new) t0 d0 D (\<lambda>_. True) (os_none (Os_Fsync fd)) (\<lambda>_ _. True)"
  by (rule drives_none) (auto simp: effect_sync whole_def split: option.splits)

section \<open>Saving over disks\<close>

lemma drives_look:
  "moves (keeps_disks S t0 d0 D P) m \<Longrightarrow> (\<And>x. drives S t0 d0 D P (f x) Q) \<Longrightarrow> drives S t0 d0 D P (act_bind m f) Q"
  by (rule drives_bind [OF drives_keep])

lemma drives_lift_bind:
  assumes "\<And>x. r = Inr x \<Longrightarrow> drives S t0 d0 D P (f x) Q"
  shows "drives S t0 d0 D P (act_bind (act_lift r) f) Q"
proof (cases r)
  case (Inl e)
  have "drives S t0 d0 D P (act_lift (Inl e)) Q" by (rule drives_lift) simp
  moreover have "act_bind (act_lift r) f = act_lift (Inl e)" by (simp add: fun_eq_iff act_bind_def Inl)
  ultimately show ?thesis by simp
next
  case (Inr x)
  have "act_bind (act_lift r) f = f x" by (simp add: fun_eq_iff act_bind_def Inr)
  with assms [OF Inr] show ?thesis by simp
qed

lemmas drives_reading = reads_disk.reading [THEN drives_look]

lemma drives_fill:
  "drives (whole st old new) t0 d0 D (\<lambda>d. filling st tmp old fd [] False d \<and> fd \<noteq> dir)
     (fill_temporary conf dir fd identity new) (\<lambda>_ d. filling st tmp old fd new True d \<and> fd \<noteq> dir)"
proof -
  note wr = drives_write [of st old new t0 d0 D tmp fd "[]" dir MAX_WRITE_CALLS new, simplified]
  show ?thesis
    unfolding fill_temporary_def Let_def write_all_def
    by (intro drives_reading drives_bind [OF wr] drives_bind [OF drives_sync] drives_if drives_lift) simp_all
qed

lemma drives_confirm:
  "drives (whole st old new) t0 d0 D (\<lambda>d. filling st tmp old fd new True d \<and> fd \<noteq> dir)
     (confirm_original conf dir identity ofd raw) (\<lambda>_ d. filling st tmp old fd new True d \<and> fd \<noteq> dir)"
  by (rule drives_keep [OF reads_disk.confirm_moves])

lemma drives_cleanup:
  assumes "sc_temporary_name conf \<noteq> st"
  shows "drives (whole st old new) t0 d0 D (\<lambda>_. True) (cleanup_temporary conf dir identity) (\<lambda>_ _. True)"
  unfolding drives_def
proof (intro allI impI)
  let ?S = "whole st old new"
  fix w r w'
  assume on: "on_disks ?S t0 d0 D (\<lambda>_. True) w" and run: "cleanup_temporary conf dir identity w = (r, w')"
  obtain r1 w1 where 1: "os (Os_Stat_At (Some dir) (sc_temporary_name conf)) w = (r1, w1)" by force
  have on1: "on_disks ?S t0 d0 D (\<lambda>_. True) w1"
    using movesD [OF keeps_disks_os 1] on by (auto simp: keeps_disks_def)
  have rest: "drives ?S t0 d0 D (\<lambda>_. True)
      (act_bind (act_lift (validate_temporary_file (sc_owner_uid conf) (sc_group_gid conf) a)) (\<lambda>actual.
        if actual \<noteq> identity then act_lift (Inl OSError)
        else act_bind (os_none (Os_Unlink dir (sc_temporary_name conf))) (\<lambda>_. os_none (Os_Fsync dir)))) (\<lambda>_ _. True)" for a
    by (intro drives_lift_bind drives_if drives_bind [OF drives_unlink [OF assms]] drives_sync_any drives_lift) simp_all
  have "on_disks ?S t0 d0 D (\<lambda>_. True) w'"
  proof (cases r1)
    case (Inl e)
    then show ?thesis using on1 1 run by (auto simp: cleanup_temporary_def split: if_splits)
  next
    case (Inr a)
    then show ?thesis using run 1 drivesD [OF rest [of a] on1, of r w'] by (auto simp: cleanup_temporary_def elim: on_disks_mono)
  qed
  then show "on_disks ?S t0 d0 D (case r of Inr x \<Rightarrow> \<lambda>_. True | Inl _ \<Rightarrow> (\<lambda>_. True)) w'" by (cases r) simp_all
qed

lemma drives_guarded:
  assumes "drives S t0 d0 D P m Q" and "\<And>e. drives S t0 d0 D (\<lambda>_. True) (cleanup e) (\<lambda>_ _. True)"
  shows "drives S t0 d0 D P
    (\<lambda>w. case m w of (Inr _, w1) \<Rightarrow> (Inr (), w1) | (Inl e, w1) \<Rightarrow> finally_act (act_lift (Inl e)) (cleanup e) w1) (\<lambda>_. Q ())"
  unfolding drives_def
proof (intro allI impI)
  fix w r w'
  assume on: "on_disks S t0 d0 D P w"
    and run: "(case m w of (Inr _, w1) \<Rightarrow> (Inr (), w1) | (Inl e, w1) \<Rightarrow> finally_act (act_lift (Inl e)) (cleanup e) w1) = (r, w')"
  obtain r1 w1 where 1: "m w = (r1, w1)" by force
  note on1 = drivesD [OF assms(1) on 1]
  show "on_disks S t0 d0 D (case r of Inr x \<Rightarrow> Q () | Inl _ \<Rightarrow> (\<lambda>_. True)) w'"
  proof (cases r1)
    case (Inr u)
    then show ?thesis using run 1 on1 by auto
  next
    case (Inl e)
    obtain r2 w2 where 2: "cleanup e w1 = (r2, w2)" by force
    have "on_disks S t0 d0 D (\<lambda>_. True) w2"
      using drivesD [OF assms(2) _ 2] on1 Inl by (auto elim: on_disks_mono)
    then show ?thesis using run 1 2 Inl by (auto simp: finally_act_def split: sum.splits if_splits)
  qed
qed

lemma drives_verify:
  "drives (whole st old new) t0 d0 D (\<lambda>d. renamed st old new fd d \<and> fd \<noteq> dir)
     (verify_replacement conf dir opened identity new) (\<lambda>_. stored st new)"
  unfolding verify_replacement_def
  by (intro drives_bind [OF drives_settle] drives_reading drives_if) 
     (auto simp del: act_lift_apply intro!: drives_reading drives_if drives_lift drives_keep [OF reads_disk.revalidate_moves] drives_lift_bind split: prod.split)

lemma drives_save_action:
  assumes "sc_temporary_name conf \<noteq> sc_state_name conf" and "dir \<in> D"
  shows "drives (whole (sc_state_name conf) old new) t0 d0 D (untouched (sc_state_name conf) old)
     (save_action conf dir opened new) (\<lambda>_. stored (sc_state_name conf) new)"
proof -
  have body: "drives (whole (sc_state_name conf) old new) t0 d0 D
      (\<lambda>d. filling (sc_state_name conf) (sc_temporary_name conf) old fd [] False d \<and> fd \<noteq> dir)
      (act_bind (fill_temporary conf dir fd identity new) (\<lambda>_.
       act_bind (confirm_original conf dir original ofd raw) (\<lambda>_.
       act_bind (revalidate_chain conf opened) (\<lambda>_.
       os_none (Os_Replace dir (sc_temporary_name conf) (sc_state_name conf))))))
      (\<lambda>_ d. renamed (sc_state_name conf) old new fd d \<and> fd \<noteq> dir)" for fd identity original ofd raw
    by (intro drives_bind [OF drives_fill] drives_bind [OF drives_confirm] drives_reading drives_replace assms)
  note guarded = drives_guarded [OF body drives_cleanup [OF assms(1)]]
  show ?thesis
    unfolding save_action_def
    by (auto intro!: drives_reading drives_bind [OF drives_create] drives_bind [OF guarded] drives_verify assms split: prod.split)
qed

section \<open>The directory is owned\<close>

definition owns_more :: "store_world \<Rightarrow> store_world \<Rightarrow> bool" where
  "owns_more w w' \<longleftrightarrow> fst ` set (sw_owned w) \<subseteq> fst ` set (sw_owned w')"

lemma os_keeps_owned: "os c w = (r, w') \<Longrightarrow> sw_owned w' = sw_owned w"
  by (erule os_records) simp

interpretation owns: step_order owns_more
  by unfold_locales (auto simp: owns_more_def)

interpretation owns: quiet_steps owns_more
proof
  show "moves owns_more (os c)" for c
    by (rule movesI) (simp add: owns_more_def os_keeps_owned)
  show "moves owns_more (open_owned c)" for c
    by (rule movesI) (erule open_owned_records, auto simp: owns_more_def)
qed

lemma open_owned_owns: "open_owned c w = (Inr fd, w') \<Longrightarrow> fd \<in> fst ` set (sw_owned w')"
  by (erule open_owned_records) auto

lemma open_components_owns:
  "open_components conf index names parent opened w = (Inr (opened', dir), w') \<Longrightarrow>
     parent \<in> fst ` set (sw_owned w) \<Longrightarrow> dir \<in> fst ` set (sw_owned w')"
proof (induction conf index names parent opened arbitrary: w rule: open_components.induct)
  case (2 conf index component rest parent opened)
  obtain named w1 child w2 status w3 identity where steps: "open_owned (Os_Open_Directory (Some parent) component) w1 = (Inr child, w2)"
      "os (Os_Fstat child) w2 = (Inr status, w3)"
      "open_components conf (index + 1) rest child (opened @ [(child, identity, index)]) w3 = (Inr (opened', dir), w')"
    using "2.prems"(1) by (auto simp: act_bind_Inr_iff split: if_splits)
  have "child \<in> fst ` set (sw_owned w3)"
    using open_owned_owns [OF steps(1)] os_keeps_owned [OF steps(2)] by simp
  with "2.IH" steps(3) show ?case by blast
qed simp

lemma open_chain_owns:
  assumes "open_chain conf w = (Inr (opened, dir), w')"
  shows "dir \<in> fst ` set (sw_owned w')"
proof -
  obtain entry w1 where 1: "open_root conf w = (Inr entry, w1)"
    and 2: "open_components conf 0 (sc_components conf) (fst entry) [entry] w1 = (Inr (opened, dir), w')"
    using assms by (auto simp: open_chain_def act_bind_Inr_iff)
  obtain w2 where "open_owned (Os_Open_Directory None ''/'') w = (Inr (fst entry), w2)" "owns_more w2 w1"
    using 1 by (auto simp: open_root_def act_bind_Inr_iff owns_more_def dest!: os_keeps_owned split: if_splits)
  then have "fst entry \<in> fst ` set (sw_owned w1)" using open_owned_owns by (auto simp: owns_more_def)
  with 2 show ?thesis by (rule open_components_owns)
qed

section \<open>Whole operations over disks\<close>

lemma keeps_disks_close:
  assumes "\<And>d. P d \<Longrightarrow> P (d\<lparr>dk_writers := (dk_writers d)(fd := None)\<rparr>)"
  shows "moves (keeps_disks (whole st old new) t0 d0 D P) (close_owned fd)"
proof (rule movesI)
  fix w r w'
  assume "close_owned fd w = (r, w')"
  then show "keeps_disks (whole st old new) t0 d0 D P w w'"
  proof (cases rule: close_owned_records)
    case (closed a)
    have "keeps_disks (whole st old new) t0 d0 D P w (recorded (w\<lparr>sw_owned := fds\<rparr>) (Os_Close fd) a)"
      if "fst ` set (sw_owned w) \<subseteq> fst ` set fds" for fds
      unfolding keeps_disks_def
      by (auto simp: effect_close assms whole_def intro!: on_disks_recorded [OF on_disks_owned [OF _ that]])
    moreover have "fst ` set (sw_owned w) \<subseteq> fst ` set (map (\<lambda>(d, b). (d, if d = fd then False else b)) (sw_owned w))"
      by (force simp: image_iff)
    ultimately show ?thesis unfolding closed(2) by blast
  qed (simp add: reads_disk.refl)
qed

lemma keeps_disks_unlock: "moves (keeps_disks S t0 d0 D P) (os_none (Os_Unlock fd))"
  by (intro reads_disk.none_moves keeps_disks_os) auto

lemma keeps_disks_leave: "keeps_disks S t0 d0 D P w (leave_operation key w)"
  by (simp add: keeps_disks_def on_disks_def leave_operation_def)

interpretation settled: cleanup_steps "keeps_disks (whole st old new) t0 d0 D (stored st b)" for st old new t0 d0 D b
  by unfold_locales (auto intro: keeps_disks_close keeps_disks_unlock keeps_disks_leave simp: stored_def)

interpretation failing: cleanup_steps "keeps_disks (whole st old new) t0 d0 D (\<lambda>_. True)" for st old new t0 d0 D
  by unfold_locales (auto intro: keeps_disks_close keeps_disks_unlock keeps_disks_leave)

lemma operate_disks:
  fixes action :: "int \<Rightarrow> chain \<Rightarrow> (store_world, unit) act"
  assumes run: "operate conf action w = (r, w')" and d0: "untouched st old d0"
    and action: "\<And>dir opened. drives (whole st old new) (sw_trace w) d0 {dir} (untouched st old) (action dir opened) (\<lambda>_. stored st new)"
  shows "on_disks (whole st old new) (sw_trace w) d0 {} (case r of Inr _ \<Rightarrow> stored st new | Inl _ \<Rightarrow> (\<lambda>_. True)) w'"
proof -
  let ?on = "on_disks (whole st old new) (sw_trace w) d0"
  have start: "?on {} (untouched st old) v" if "sw_trace v = sw_trace w" for v
    using d0 that by (auto simp: on_disks_def untouched_def intro: stored_whole)
  have entered: "?on {} (untouched st old) (entered_world conf w)" by (rule start) (simp add: entered_world_def)
  from run show ?thesis
  proof (cases rule: operate_cases)
    case busy
    then show ?thesis using start [of w'] by (auto elim: on_disks_mono)
  next
    case (no_chain e w2 out)
    have "?on {} (untouched st old) w2"
      using movesD [OF reads_disk.open_chain_moves no_chain(2)] entered by (simp add: keeps_disks_def)
    then have "?on {} (\<lambda>_. True) w2" by (rule on_disks_mono) simp
    then have "?on {} (\<lambda>_. True) w'" using failing.operate_cleanup_moves [OF no_chain(3)] by (simp add: keeps_disks_def)
    moreover have "\<exists>e'. r = Inl e'" unfolding no_chain(4) operate_result_def by (simp split: option.split)
    ultimately show ?thesis by auto
  next
    case (ran opened dir w2 r1 w3 out)
    have "?on {} (untouched st old) w2"
      using movesD [OF reads_disk.open_chain_moves ran(2)] entered by (simp add: keeps_disks_def)
    then have on2: "?on {dir} (untouched st old) w2"
      using open_chain_owns [OF ran(2)] by (simp add: on_disks_def)
    have "drives (whole st old new) (sw_trace w) d0 {dir} (untouched st old) (locked_action conf dir opened action) (\<lambda>_. stored st new)"
      unfolding locked_action_def
      by (intro drives_look reads_disk.none_moves keeps_disks_os reads_disk.revalidate_moves action) auto
    from drivesD [OF this on2 ran(3)]
    have on3: "?on {dir} (case r1 of Inr _ \<Rightarrow> stored st new | Inl _ \<Rightarrow> (\<lambda>_. True)) w3" .
    have "?on {dir} (case r1 of Inr _ \<Rightarrow> stored st new | Inl _ \<Rightarrow> (\<lambda>_. True)) w'"
      using on3 settled.operate_cleanup_moves [OF ran(4)] failing.operate_cleanup_moves [OF ran(4)]
      by (cases r1) (auto simp: keeps_disks_def)
    moreover have "r = Inr () \<Longrightarrow> r1 = Inr ()" using ran(5) operate_result_Inr [of out r1 "()"] by simp
    ultimately show ?thesis by (cases r; cases r1) (auto simp: on_disks_def)
  qed
qed

lemma save_disks:
  assumes "save conf s w = (r, w')" and "sc_temporary_name conf \<noteq> sc_state_name conf" and "untouched (sc_state_name conf) old d0"
  shows "on_disks (whole (sc_state_name conf) old (state_canonical_bytes s)) (sw_trace w) d0 {}
     (case r of Inr _ \<Rightarrow> stored (sc_state_name conf) (state_canonical_bytes s) | Inl _ \<Rightarrow> (\<lambda>_. True)) w'"
proof (cases "store_snapshot s")
  case (Inl e)
  then have "w' = w" "\<exists>e. r = Inl e" using assms(1) by (auto simp: save_def)
  then show ?thesis using assms(3) by (auto simp: on_disks_def untouched_def intro: stored_whole)
next
  case (Inr p)
  then obtain t where snap: "store_snapshot s = Inr (t, snd p)" by (cases p) simp
  have "operate conf (\<lambda>dir opened_chain. save_action conf dir opened_chain (snd p)) w = (r, w')"
    using assms(1) by (simp add: save_def snap)
  then have "operate conf (\<lambda>dir opened_chain. save_action conf dir opened_chain (state_canonical_bytes s)) w = (r, w')"
    by (simp only: store_snapshot_Inr(4) [OF snap])
  then show ?thesis
    by (rule operate_disks [OF _ assms(3)]) (rule drives_save_action [OF assms(2)], simp)
qed

end
