(* ===== verification/Store_Live.thy ===== *)
theory Store_Live
  imports Store_Disk
begin

text \<open>
  Loading and saving succeed on a host whose answers pass the checks: directories, siblings and files with the reviewed
  metadata, fresh descriptors, a file read and written in any number of pieces that the bounds allow.  The disk at
  the end of such a run is one that the calls can have left, so that the statements of \<open>Store_Disk\<close> are not empty.
\<close>

section \<open>Runs that succeed\<close>

text \<open>
  \<open>accepts m as p x q\<close>: with the answers \<open>as\<close>, from the descriptors and disk \<open>p\<close>, \<open>m\<close> returns \<open>x\<close> and leads to the
  descriptors and disk \<open>q\<close>, leaving the other answers and the gate.
\<close>

type_synonym held_disk = "(int \<times> bool) list \<times> disk"

definition accepts :: "(store_world, 'a) act \<Rightarrow> os_answer list \<Rightarrow> held_disk \<Rightarrow> 'a \<Rightarrow> held_disk \<Rightarrow> bool" where
  "accepts m as p x q \<longleftrightarrow>
     (\<forall>w others. sw_answers w = as @ others \<longrightarrow> sw_owned w = fst p \<longrightarrow>
        (\<exists>w' tr. m w = (Inr x, w') \<and> sw_answers w' = others \<and> sw_owned w' = fst q \<and> sw_active w' = sw_active w \<and>
           sw_trace w' = sw_trace w @ tr \<and> disk_run (snd p) tr (snd q)))"

lemma acceptsI:
  assumes "\<And>w others. sw_answers w = as @ others \<Longrightarrow> sw_owned w = fst p \<Longrightarrow>
      \<exists>w' tr. m w = (Inr x, w') \<and> sw_answers w' = others \<and> sw_owned w' = fst q \<and> sw_active w' = sw_active w \<and>
        sw_trace w' = sw_trace w @ tr \<and> disk_run (snd p) tr (snd q)"
  shows "accepts m as p x q"
  using assms by (simp add: accepts_def)

lemma acceptsE:
  assumes "accepts m as p x q" and "sw_answers w = as @ others" and "sw_owned w = fst p"
  obtains w' tr where "m w = (Inr x, w')" "sw_answers w' = others" "sw_owned w' = fst q" "sw_active w' = sw_active w"
    "sw_trace w' = sw_trace w @ tr" "disk_run (snd p) tr (snd q)"
  using assms unfolding accepts_def by blast

lemma disk_run_append: "disk_run d1 tr' d2 \<Longrightarrow> disk_run d tr d1 \<Longrightarrow> disk_run d (tr @ tr') d2"
  by (induction rule: disk_run.induct) (auto simp flip: append_assoc)

lemma accepts_bind:
  assumes "accepts m as p x q" and "accepts (f x) bs q y r"
  shows "accepts (act_bind m f) (as @ bs) p y r"
proof (rule acceptsI)
  fix w :: store_world and others
  assume w: "sw_answers w = (as @ bs) @ others" "sw_owned w = fst p"
  then obtain w1 tr1 where 1: "m w = (Inr x, w1)" "sw_answers w1 = bs @ others" "sw_owned w1 = fst q" "sw_active w1 = sw_active w"
      "sw_trace w1 = sw_trace w @ tr1" "disk_run (snd p) tr1 (snd q)"
    by (auto elim: acceptsE [OF assms(1)])
  obtain w2 tr2 where 2: "f x w1 = (Inr y, w2)" "sw_answers w2 = others" "sw_owned w2 = fst r" "sw_active w2 = sw_active w1"
      "sw_trace w2 = sw_trace w1 @ tr2" "disk_run (snd q) tr2 (snd r)"
    by (rule acceptsE [OF assms(2) 1(2,3)])
  show "\<exists>w' tr. act_bind m f w = (Inr y, w') \<and> sw_answers w' = others \<and> sw_owned w' = fst r \<and> sw_active w' = sw_active w \<and>
      sw_trace w' = sw_trace w @ tr \<and> disk_run (snd p) tr (snd r)"
    using 1 2 disk_run_append [OF 2(6) 1(6)] by (intro exI [of _ w2] exI [of _ "tr1 @ tr2"]) (simp add: act_bind_eq)
qed

lemma accepts_lift: "r = Inr x \<Longrightarrow> accepts (act_lift r) [] p x p"
  by (rule acceptsI) (auto intro: disk_run.start)

lemma accepts_lift_bind: "r = Inr x \<Longrightarrow> accepts (f x) as p y q \<Longrightarrow> accepts (act_bind (act_lift r) f) as p y q"
  using accepts_bind [OF accepts_lift [of r x p], of f as y q] by simp

lemma os_answers:
  "sw_answers w = a # others \<Longrightarrow> (\<And>e. a \<noteq> Os_Raises e) \<Longrightarrow>
     os c w = (Inr a, w\<lparr>sw_answers := others, sw_trace := sw_trace w @ [(c, a)]\<rparr>)"
  by (cases a) (auto simp: os_def Let_def)

lemma accepts_os:
  assumes "\<And>e. a \<noteq> Os_Raises e" and "disk_effect (c, a) (snd p) d"
  shows "accepts (os c) [a] p a (fst p, d)"
proof (rule acceptsI)
  fix w :: store_world and others
  assume w: "sw_answers w = [a] @ others" "sw_owned w = fst p"
  then have "os c w = (Inr a, w\<lparr>sw_answers := others, sw_trace := sw_trace w @ [(c, a)]\<rparr>)"
    using assms(1) by (intro os_answers) simp_all
  moreover have "disk_run (snd p) [(c, a)] d"
    using disk_run.call [OF disk_run.start assms(2)] by simp
  ultimately show "\<exists>w' tr. os c w = (Inr a, w') \<and> sw_answers w' = others \<and> sw_owned w' = fst (fst p, d) \<and>
      sw_active w' = sw_active w \<and> sw_trace w' = sw_trace w @ tr \<and> disk_run (snd p) tr (snd (fst p, d))"
    using w by auto
qed

lemma accepts_none:
  assumes "disk_effect (c, Os_None) (snd p) d"
  shows "accepts (os_none c) [Os_None] p () (fst p, d)"
proof -
  have "accepts (act_bind (os c) (\<lambda>a. act_lift (if a = Os_None then Inr () else Inl OSError))) ([Os_None] @ []) p () (fst p, d)"
    by (rule accepts_bind [OF accepts_os [OF _ assms] accepts_lift]) simp_all
  then show ?thesis by (simp add: os_none_def)
qed

lemma accepts_open:
  assumes "0 \<le> fd" and "fd \<notin> fst ` set (fst p)" and "disk_effect (c, Os_Int fd) (snd p) d"
  shows "accepts (open_owned c) [Os_Int fd, Os_Bool False] p fd (fst p @ [(fd, True)], d)"
proof (rule acceptsI)
  fix w :: store_world and others
  assume w: "sw_answers w = [Os_Int fd, Os_Bool False] @ others" "sw_owned w = fst p"
  let ?w = "w\<lparr>sw_answers := others, sw_trace := sw_trace w @ [(c, Os_Int fd), (Os_Get_Inheritable fd, Os_Bool False)],
    sw_owned := sw_owned w @ [(fd, True)]\<rparr>"
  have "open_owned c w = (Inr fd, ?w)"
    using w assms(1,2) by (simp add: open_owned_def act_bind_def os_answers [of _ "Os_Int fd"] os_answers [of _ "Os_Bool False"])
  moreover have "disk_run (snd p) [(c, Os_Int fd), (Os_Get_Inheritable fd, Os_Bool False)] d"
    using disk_run.call [OF disk_run.call [OF disk_run.start assms(3)] disk_effect.idle [of "Os_Get_Inheritable fd" "Os_Bool False"]]
    by simp
  ultimately show "\<exists>w' tr. open_owned c w = (Inr fd, w') \<and> sw_answers w' = others \<and>
      sw_owned w' = fst (fst p @ [(fd, True)], d) \<and> sw_active w' = sw_active w \<and>
      sw_trace w' = sw_trace w @ tr \<and> disk_run (snd p) tr (snd (fst p @ [(fd, True)], d))"
    using w by (intro exI [of _ ?w]) auto
qed

text \<open>Calls without effect on the disk.\<close>

lemma accepts_look:
  assumes "\<And>e. a \<noteq> Os_Raises e" and "\<not> mutates c" and "\<And>fd. c \<noteq> Os_Close fd"
  shows "accepts (os c) [a] p a p"
  using accepts_os [OF assms(1) disk_effect.idle [OF assms(2), of a "snd p"]] assms(3) by simp

lemma accepts_open_reading:
  assumes "0 \<le> fd" and "fd \<notin> fst ` set (fst p)" and "opens_reading c"
  shows "accepts (open_owned c) [Os_Int fd, Os_Bool False] p fd (fst p @ [(fd, True)], snd p)"
  by (rule accepts_open [OF assms(1,2) disk_effect.idle]) (use assms(3) in \<open>cases c, auto\<close>)+

lemma accepts_refine: "accepts m as p x q \<Longrightarrow> (\<And>w w'. m w = (Inr x, w') \<Longrightarrow> n w = (Inr x, w')) \<Longrightarrow> accepts n as p x q"
  unfolding accepts_def by meson

lemma accepts_finally:
  assumes "accepts body as p x q" and "accepts cleanup bs q () r"
  shows "accepts (finally_act body cleanup) (as @ bs) p x r"
proof -
  have "accepts (act_bind body (\<lambda>y. act_bind cleanup (\<lambda>_. act_lift (Inr y)))) (as @ bs) p x r"
    using accepts_bind [OF assms(1), of "\<lambda>y. act_bind cleanup (\<lambda>_. act_lift (Inr y))" bs x r]
      accepts_bind [OF assms(2) accepts_lift, of "\<lambda>_. Inr x" x] by (simp del: act_lift_apply)
  then show ?thesis by (rule accepts_refine) (auto simp: act_bind_Inr_iff finally_act_def)
qed

section \<open>The host\<close>

text \<open>
  What the host answers: the status of the directories of the chain, from the root, and their descriptors; of the
  siblings; of the state file, of the empty and of the filled temporary file; the descriptors of the files; the
  pieces in which the old and the new bytes are read, and the numbers of bytes written.
\<close>

record host =
  ho_chain :: "(os_answer \<times> int) list"
  ho_siblings :: "os_answer list"
  ho_state :: os_answer
  ho_empty :: os_answer
  ho_filled :: os_answer
  ho_fd :: int
  ho_temporary_fd :: int
  ho_confirm_fd :: int
  ho_verify_fd :: int
  ho_old_pieces :: "string list"
  ho_new_pieces :: "string list"
  ho_writes :: "int list"

definition answers_entries :: "host \<Rightarrow> string list \<Rightarrow> os_answer list" where
  "answers_entries h names = [Os_Other] @ (map (\<lambda>n. Os_Entry (PStr n)) names @ [Os_Stop]) @ [Os_None] @ ho_siblings h"

definition answers_again :: "host \<Rightarrow> os_answer list" where
  "answers_again h = concat (map (\<lambda>(st, fd). [st, st]) (ho_chain h))"

definition answers_chain :: "host \<Rightarrow> os_answer list" where
  "answers_chain h = (case ho_chain h of
     [] \<Rightarrow> []
   | (st, fd) # rest \<Rightarrow> [Os_Int fd, Os_Bool False, st, st] @ concat (map (\<lambda>(st, fd). [st, Os_Int fd, Os_Bool False, st]) rest))"

definition answers_open :: "os_answer \<Rightarrow> int \<Rightarrow> os_answer list" where
  "answers_open st fd = [st, Os_Int fd, Os_Bool False, st]"

definition answers_read :: "string list \<Rightarrow> os_answer list" where
  "answers_read pieces = map Os_Bytes pieces @ [Os_Bytes []]"

definition answers_validated :: "host \<Rightarrow> string list \<Rightarrow> os_answer list" where
  "answers_validated h names =
     answers_entries h names @ answers_open (ho_state h) (ho_fd h) @ answers_read (ho_old_pieces h) @
     [ho_state h, ho_state h] @ answers_again h @ answers_entries h names"

text \<open>The directory in order and of the siblings, each with the reviewed metadata.\<close>

definition state_names :: "store_configuration \<Rightarrow> string list" where
  "state_names conf = sc_state_name conf # map fst (sc_siblings conf)"

definition never_raises :: "os_answer \<Rightarrow> bool" where
  "never_raises a \<longleftrightarrow> (\<forall>e. a \<noteq> Os_Raises e)"

fun sibling_status :: "sibling \<Rightarrow> os_answer \<Rightarrow> bool" where
  "sibling_status (name, uid, gid, mode) a \<longleftrightarrow>
     (\<exists>m i dv l sz. store_status a = Inr (m, i, dv, l, uid, gid, sz) \<and> mode_t m = Inr m \<and> S_ISDIR m \<and> \<not> S_ISLNK m \<and> S_IMODE m = mode)"

lemma status_never_raises: "store_status a = Inr f \<Longrightarrow> never_raises a"
  by (auto simp: store_status_def never_raises_def split: os_answer.splits)

lemma validated_never_raises:
  "validate_state_file u g a = Inr i \<Longrightarrow> never_raises a" "validate_temporary_file u g a = Inr j \<Longrightarrow> never_raises a"
  "directory_identity conf k a = Inr j \<Longrightarrow> never_raises a" "validate_standard_directory a = Inr j \<Longrightarrow> never_raises a"
  by (auto simp: validate_state_file_def validate_temporary_file_def directory_identity_def validate_standard_directory_def
      validate_owned_directory_def split: if_splits dest: status_never_raises)

lemma accepts_look_bind:
  "never_raises a \<Longrightarrow> \<not> mutates c \<Longrightarrow> (\<And>fd. c \<noteq> Os_Close fd) \<Longrightarrow> accepts (f a) as p y q \<Longrightarrow>
     accepts (act_bind (os c) f) (a # as) p y q"
  using accepts_bind [OF accepts_look [of a c p], of f as y q] by (simp add: never_raises_def)

lemma accepts_open_bind:
  "0 \<le> fd \<Longrightarrow> fd \<notin> fst ` set (fst p) \<Longrightarrow> opens_reading c \<Longrightarrow> accepts (f fd) as (fst p @ [(fd, True)], snd p) y q \<Longrightarrow>
     accepts (act_bind (open_owned c) f) (Os_Int fd # Os_Bool False # as) p y q"
  using accepts_bind [OF accepts_open_reading [of fd p c], of f as y q] by simp

lemma accepts_append: "accepts m as p x q \<Longrightarrow> bs = as \<Longrightarrow> accepts m bs p x q"
  by simp

section \<open>The directory\<close>

lemma accepts_scan:
  "length names < n \<Longrightarrow> accepts (scan_names dir n seen) (map (\<lambda>x. Os_Entry (PStr x)) names @ [Os_Stop]) p (seen @ names) p"
proof (induction names arbitrary: n seen)
  case Nil
  then obtain m where "n = Suc m" by (cases n) auto
  then show ?case by (auto intro!: accepts_look_bind accepts_lift simp: never_raises_def simp del: act_lift_apply)
next
  case (Cons x names)
  then obtain m where m: "n = Suc m" "length names < m" by (cases n) auto
  have "accepts (scan_names dir m (seen @ [x])) (map (\<lambda>x. Os_Entry (PStr x)) names @ [Os_Stop]) p ((seen @ [x]) @ names) p"
    by (rule Cons.IH [OF m(2)])
  then show ?case by (auto intro!: accepts_look_bind simp: m never_raises_def simp del: act_lift_apply)
qed

lemma accepts_entries:
  assumes "distinct names" and "length names \<le> length (sc_siblings conf) + 2"
  shows "accepts (entries conf dir) (Os_Other # (map (\<lambda>x. Os_Entry (PStr x)) names @ [Os_Stop]) @ [Os_None]) p names p"
proof -
  have close: "accepts (os_none (Os_Scan_Close dir)) [Os_None] p () p"
    using accepts_none [OF disk_effect.idle, of "Os_Scan_Close dir" p] by simp
  have scan: "accepts (scan_names dir (length (sc_siblings conf) + 2 + 1) []) (map (\<lambda>x. Os_Entry (PStr x)) names @ [Os_Stop]) p names p"
    using accepts_scan [of names "length (sc_siblings conf) + 2 + 1" dir "[]" p] assms(2) by (simp del: scan_names.simps)
  have "accepts (act_bind (finally_act (scan_names dir (length (sc_siblings conf) + 2 + 1) []) (os_none (Os_Scan_Close dir))) (\<lambda>names.
        act_lift (if length (sc_siblings conf) + 2 < length names \<or> \<not> distinct names then Inl OSError else Inr names)))
      (((map (\<lambda>x. Os_Entry (PStr x)) names @ [Os_Stop]) @ [Os_None]) @ []) p names p"
    by (rule accepts_bind [OF accepts_finally [OF scan close] accepts_lift]) (use assms in simp)
  then show ?thesis unfolding entries_def Let_def
    by (intro accepts_look_bind) (simp_all add: never_raises_def del: scan_names.simps)
qed

lemma accepts_siblings:
  "list_all2 sibling_status ss as \<Longrightarrow> accepts (validate_sibling_list dir ss) as p () p"
proof (induction ss as rule: list_all2_induct)
  case (Cons s ss a as)
  obtain name uid gid mode where s: "s = (name, uid, gid, mode)" by (cases s)
  with Cons(1) obtain m i dv l sz where st: "store_status a = Inr (m, i, dv, l, uid, gid, sz)" "mode_t m = Inr m" "S_ISDIR m"
      "\<not> S_ISLNK m" "S_IMODE m = mode" by auto
  have l: "\<not> l < 1" using st(1)
    by (auto simp: store_status_def split: os_answer.splits list.splits pyval.splits if_splits)
  show ?case unfolding s validate_sibling_list.simps
    by (intro accepts_look_bind accepts_lift_bind [OF st(1)])
      (use st l Cons(3) status_never_raises [OF st(1)] in \<open>auto simp del: act_lift_apply intro: accepts_lift_bind\<close>)
qed (auto intro: accepts_lift simp del: act_lift_apply)

lemma accepts_validate_entries:
  assumes "list_all2 sibling_status (sc_siblings conf) (ho_siblings h)" and "distinct names"
    and "set names = set (map fst (sc_siblings conf)) \<union> (if sp then {sc_state_name conf} else {}) \<union> (if tp then {sc_temporary_name conf} else {})"
    and "length names \<le> length (sc_siblings conf) + 2"
  shows "accepts (validate_entries conf dir sp tp) (answers_entries h names) p names p"
proof -
  have "accepts (act_bind (entries conf dir) (\<lambda>observed.
      if set observed \<noteq> set (map fst (sc_siblings conf) @ (if sp then [sc_state_name conf] else []) @ (if tp then [sc_temporary_name conf] else []))
      then act_lift (Inl OSError)
      else act_bind (validate_sibling_list dir (sc_siblings conf)) (\<lambda>_. act_lift (Inr observed))))
    ((Os_Other # (map (\<lambda>x. Os_Entry (PStr x)) names @ [Os_Stop]) @ [Os_None]) @ (ho_siblings h @ [])) p names p"
  proof (rule accepts_bind [OF accepts_entries [OF assms(2,4)]])
    have "set names = set (map fst (sc_siblings conf) @ (if sp then [sc_state_name conf] else []) @ (if tp then [sc_temporary_name conf] else []))"
      using assms(3) by auto
    moreover have "accepts (act_bind (validate_sibling_list dir (sc_siblings conf)) (\<lambda>_. act_lift (Inr names))) (ho_siblings h @ []) p names p"
      by (rule accepts_bind [OF accepts_siblings [OF assms(1)] accepts_lift]) simp
    ultimately show "accepts (if set names \<noteq> set (map fst (sc_siblings conf) @ (if sp then [sc_state_name conf] else []) @ (if tp then [sc_temporary_name conf] else []))
      then act_lift (Inl OSError) else act_bind (validate_sibling_list dir (sc_siblings conf)) (\<lambda>_. act_lift (Inr names))) (ho_siblings h @ []) p names p"
      by simp
  qed
  then show ?thesis by (simp add: validate_entries_def Let_def answers_entries_def)
qed

section \<open>The chain\<close>

lemma accepts_components:
  assumes "\<And>i. i < length ch \<Longrightarrow> directory_identity conf (index + int i) (fst (ch ! i)) = Inr (ids ! i)"
    and "length names = length ch" and "length ids = length ch" and "distinct (map snd ch)" and "\<And>fd. fd \<in> set (map snd ch) \<Longrightarrow> 0 \<le> fd"
    and "set (map snd ch) \<inter> fst ` set (fst p) = {}"
  shows "accepts (open_components conf index names parent opened) (concat (map (\<lambda>(st, fd). [st, Os_Int fd, Os_Bool False, st]) ch)) p
     (opened @ zip (map snd ch) (zip ids (map (\<lambda>i. index + int i) [0..<length ch])), last (parent # map snd ch))
     (fst p @ map (\<lambda>(st, fd). (fd, True)) ch, snd p)"
  using assms
proof (induction ch arbitrary: index names parent opened p ids)
  case Nil
  then show ?case by (cases p) (auto intro!: accepts_lift simp del: act_lift_apply)
next
  case (Cons c ch)
  obtain st fd where c: "c = (st, fd)" by force
  obtain name names' where names: "names = name # names'" using Cons.prems(2) by (cases names) auto
  obtain id ids' where ids: "ids = id # ids'" using Cons.prems(3) by (cases ids) auto
  have id: "directory_identity conf index st = Inr id" using Cons.prems(1) [of 0] by (simp add: c ids)
  have "directory_identity conf (index + 1 + int i) (fst (ch ! i)) = Inr (ids' ! i)" if "i < length ch" for i
    using Cons.prems(1) [of "Suc i"] that by (simp add: c ids add.assoc add.commute [of 1])
  then have IH: "accepts (open_components conf (index + 1) names' fd (opened @ [(fd, id, index)]))
      (concat (map (\<lambda>(st, fd). [st, Os_Int fd, Os_Bool False, st]) ch)) (fst p @ [(fd, True)], snd p)
      ((opened @ [(fd, id, index)]) @ zip (map snd ch) (zip ids' (map (\<lambda>i. index + 1 + int i) [0..<length ch])), last (fd # map snd ch))
      (fst (fst p @ [(fd, True)], snd p) @ map (\<lambda>(st, fd). (fd, True)) ch, snd (fst p @ [(fd, True)], snd p))"
    using Cons.prems by (intro Cons.IH) (auto simp: c names ids)
  have up: "map (\<lambda>i. index + int i) [0..<Suc (length ch)] = index # map (\<lambda>i. index + 1 + int i) [0..<length ch]"
    by (simp add: upt_conv_Cons map_Suc_upt [symmetric] del: upt_Suc)
  show ?case
    unfolding names open_components.simps c
    using IH Cons.prems(4,5,6)
    by (auto simp del: act_lift_apply upt_Suc simp: c id ids up intro!: accepts_look_bind accepts_open_bind accepts_lift_bind [OF id]
        validated_never_raises(3) [OF id])
qed

text \<open>The chain that the host's answers give.\<close>

definition chain_entries :: "(int \<times> int) list \<Rightarrow> int \<Rightarrow> (os_answer \<times> int) list \<Rightarrow> chain" where
  "chain_entries ids index ch = zip (map snd ch) (zip ids (map (\<lambda>i. index + int i) [0..<length ch]))"

lemma chain_entries_Cons:
  "chain_entries (idn # ids) index ((st, fd) # ch) = (fd, idn, index) # chain_entries ids (index + 1) ch"
proof -
  have "map (\<lambda>i. index + int i) [0..<Suc (length ch)] = index # map (\<lambda>i. index + 1 + int i) [0..<length ch]"
    by (simp add: upt_conv_Cons map_Suc_upt [symmetric] del: upt_Suc)
  then show ?thesis by (simp add: chain_entries_def del: upt_Suc)
qed

definition identified :: "store_configuration \<Rightarrow> int \<Rightarrow> (os_answer \<times> int) list \<Rightarrow> (int \<times> int) list \<Rightarrow> bool" where
  "identified conf index ch ids \<longleftrightarrow>
     length ids = length ch \<and> (\<forall>i < length ch. directory_identity conf (index + int i) (fst (ch ! i)) = Inr (ids ! i))"

lemma identified_Cons:
  "identified conf index ((st, fd) # ch) ids \<longleftrightarrow>
     (\<exists>id ids'. ids = id # ids' \<and> directory_identity conf index st = Inr id \<and> identified conf (index + 1) ch ids')"
  (is "?L \<longleftrightarrow> ?R")
proof
  assume L: ?L
  then obtain id ids' where ids: "ids = id # ids'" by (cases ids) (auto simp: identified_def)
  have "directory_identity conf (index + 1 + int i) (fst (ch ! i)) = Inr (ids' ! i)" if "i < length ch" for i
  proof -
    have "Suc i < length ((st, fd) # ch)" using that by simp
    then have "directory_identity conf (index + int (Suc i)) (fst (((st, fd) # ch) ! Suc i)) = Inr (ids ! Suc i)"
      using L unfolding identified_def by blast
    then show ?thesis by (simp add: ids algebra_simps)
  qed
  moreover have "directory_identity conf index st = Inr id" using L by (force simp: identified_def ids)
  ultimately show ?R using L by (auto simp: identified_def ids)
next
  assume ?R
  then show ?L by (auto simp: identified_def nth_Cons algebra_simps split: nat.splits)
qed

lemma accepts_revalidate_from:
  "identified conf index ch ids \<Longrightarrow> - 1 \<le> index \<Longrightarrow> index + int (length ch) \<le> int (length (sc_components conf)) \<Longrightarrow>
     accepts (revalidate_from conf previous (chain_entries ids index ch)) (concat (map (\<lambda>(st, fd). [st, st]) ch)) p () p"
proof (induction ch arbitrary: index ids previous)
  case Nil
  then show ?case by (auto simp: chain_entries_def intro!: accepts_lift simp del: act_lift_apply)
next
  case (Cons c ch)
  obtain st fd where c: "c = (st, fd)" by force
  obtain id ids' where ids: "ids = id # ids'" and id: "directory_identity conf index st = Inr id" and rest: "identified conf (index + 1) ch ids'"
    using Cons.prems(1) by (auto simp: c identified_Cons)
  have IH: "accepts (revalidate_from conf fd (chain_entries ids' (index + 1) ch)) (concat (map (\<lambda>(st, fd). [st, st]) ch)) p () p"
    using Cons.prems rest by (intro Cons.IH) auto
  have named: "accepts (if index = - 1 then os (Os_Stat_At None ''/'')
        else if nat index < length (sc_components conf) then os (Os_Stat_At (Some previous) (sc_components conf ! nat index))
        else act_lift (Inl IndexError)) [st] p st p"
    using Cons.prems(2,3) validated_never_raises(3) [OF id] by (auto intro!: accepts_look simp: never_raises_def)
  show ?case
    unfolding c ids chain_entries_Cons revalidate_from.simps list.map concat.simps prod.case
    by (rule accepts_append, rule accepts_look_bind [OF validated_never_raises(3) [OF id]], simp, simp, rule accepts_bind [OF named])
      (use IH in \<open>auto simp del: act_lift_apply intro!: accepts_lift_bind [OF id]\<close>)
qed

lemma accepts_revalidate:
  assumes "identified conf (- 1) (ho_chain h) ids" and "length (ho_chain h) = length (sc_components conf) + 1"
  shows "accepts (revalidate_chain conf (chain_entries ids (- 1) (ho_chain h))) (answers_again h) p () p"
  unfolding revalidate_chain_def answers_again_def
  by (rule accepts_revalidate_from) (use assms in auto)

lemma accepts_chain:
  assumes "identified conf (- 1) (ho_chain h) ids" and "length (ho_chain h) = length (sc_components conf) + 1"
    and "distinct (map snd (ho_chain h))" and "\<And>fd. fd \<in> set (map snd (ho_chain h)) \<Longrightarrow> 0 \<le> fd"
  shows "accepts (open_chain conf) (answers_chain h) ([], d) (chain_entries ids (- 1) (ho_chain h), last (map snd (ho_chain h)))
     (map (\<lambda>(st, fd). (fd, True)) (ho_chain h), d)"
proof -
  obtain st fd ch where h: "ho_chain h = (st, fd) # ch" using assms(2) by (cases "ho_chain h") auto
  obtain id ids' where ids: "ids = id # ids'" and id: "directory_identity conf (- 1) st = Inr id" and rest: "identified conf 0 ch ids'"
    using assms(1) by (auto simp: h identified_Cons)
  have std: "validate_standard_directory st = Inr id" using id by (simp add: directory_identity_def)
  have top_ok: "accepts (open_root conf) [Os_Int fd, Os_Bool False, st, st] ([], d) (fd, id, - 1) ([(fd, True)], d)"
    unfolding open_root_def
    by (intro accepts_open_bind accepts_look_bind accepts_lift_bind [OF std] accepts_lift validated_never_raises(4) [OF std])
      (use assms(4) in \<open>auto simp: h simp del: act_lift_apply intro: accepts_lift\<close>)
  have rest_ok: "accepts (open_components conf 0 (sc_components conf) fd [(fd, id, - 1)])
      (concat (map (\<lambda>(st, fd). [st, Os_Int fd, Os_Bool False, st]) ch)) ([(fd, True)], d)
      ([(fd, id, - 1)] @ zip (map snd ch) (zip ids' (map (\<lambda>i. 0 + int i) [0..<length ch])), last (fd # map snd ch))
      (fst ([(fd, True)], d) @ map (\<lambda>(st, fd). (fd, True)) ch, snd ([(fd, True)], d))"
    by (rule accepts_components) (use assms(2-4) rest in \<open>auto simp: h identified_def\<close>)
  have "accepts (open_chain conf) ([Os_Int fd, Os_Bool False, st, st] @ concat (map (\<lambda>(st, fd). [st, Os_Int fd, Os_Bool False, st]) ch))
      ([], d) ([(fd, id, - 1)] @ zip (map snd ch) (zip ids' (map (\<lambda>i. 0 + int i) [0..<length ch])), last (fd # map snd ch))
      (fst ([(fd, True)], d) @ map (\<lambda>(st, fd). (fd, True)) ch, snd ([(fd, True)], d))"
    unfolding open_chain_def by (rule accepts_bind [OF top_ok]) (unfold fst_conv, rule rest_ok [unfolded fst_conv])
  moreover have "chain_entries ids (- 1) (ho_chain h) = [(fd, id, - 1)] @ zip (map snd ch) (zip ids' (map (\<lambda>i. 0 + int i) [0..<length ch]))"
    unfolding h ids chain_entries_Cons by (simp add: chain_entries_def)
  ultimately show ?thesis by (simp add: answers_chain_def h)
qed

section \<open>Files\<close>

lemma quiet_looks: "quiet_os c \<Longrightarrow> \<not> mutates c \<and> (\<forall>fd. c \<noteq> Os_Close fd)"
  by (cases c) simp_all

lemma accepts_quiet_bind:
  "never_raises a \<Longrightarrow> quiet_os c \<Longrightarrow> accepts (f a) as p y q \<Longrightarrow> accepts (act_bind (os c) f) (a # as) p y q"
  by (rule accepts_look_bind) (auto dest: quiet_looks)

lemma accepts_open_state:
  assumes "validate_state_file (sc_owner_uid conf) (sc_group_gid conf) st = Inr identity" and "0 \<le> fd" and "fd \<notin> fst ` set (fst p)"
  shows "accepts (open_state conf dir) (answers_open st fd) p (fd, identity) (fst p @ [(fd, True)], snd p)"
  unfolding open_state_def answers_open_def
  by (intro accepts_open_bind accepts_look_bind accepts_lift_bind [OF assms(1)] accepts_lift validated_never_raises(1) [OF assms(1)])
    (use assms in auto)

lemma accepts_stat:
  "validate_state_file (sc_owner_uid conf) (sc_group_gid conf) st = Inr identity \<Longrightarrow> quiet_os c \<Longrightarrow> accepts (stat_state conf c) [st] p identity p"
  "validate_temporary_file (sc_owner_uid conf) (sc_group_gid conf) st = Inr j \<Longrightarrow> quiet_os c \<Longrightarrow> accepts (stat_temporary conf c) [st] p j p"
  unfolding stat_state_def stat_temporary_def
  by (rule accepts_quiet_bind [OF validated_never_raises(1)], simp_all only: accepts_lift)
     (rule accepts_quiet_bind [OF validated_never_raises(2)], simp_all only: accepts_lift)

lemma accepts_size:
  assumes "store_status st = Inr (m, i, dv, l, u, g, int n)" and "quiet_os c"
  shows "accepts (require_size n c) [st] p () p"
  unfolding require_size_def
  by (rule accepts_quiet_bind [OF status_never_raises [OF assms(1)] assms(2)], rule accepts_lift_bind [OF assms(1)])
    (auto simp del: act_lift_apply intro: accepts_lift)

lemma accepts_read_loop:
  "[] \<notin> set pieces \<Longrightarrow> length pieces < n \<Longrightarrow> length (b @ concat pieces) \<le> MAX_STATE_BYTES \<Longrightarrow>
     accepts (read_loop fd n b) (answers_read pieces) p (b @ concat pieces) p"
proof (induction pieces arbitrary: n b)
  case Nil
  then obtain m where "n = Suc m" by (cases n) auto
  then show ?case by (auto simp: answers_read_def never_raises_def intro!: accepts_look_bind accepts_lift simp del: act_lift_apply)
next
  case (Cons piece pieces)
  then obtain m where m: "n = Suc m" by (cases n) auto
  have "accepts (read_loop fd m (b @ piece)) (answers_read pieces) p ((b @ piece) @ concat pieces) p"
    using Cons.prems m by (intro Cons.IH) auto
  then show ?case using Cons.prems
    by (auto simp: answers_read_def m never_raises_def intro!: accepts_look_bind simp del: act_lift_apply)
qed

lemma accepts_read:
  assumes "[] \<notin> set pieces" and "length pieces < MAX_READ_CALLS" and "length (concat pieces) \<le> MAX_STATE_BYTES"
  shows "accepts (bounded_read fd) (answers_read pieces) p (concat pieces) p"
  using accepts_read_loop [of pieces MAX_READ_CALLS "[]"] assms by (simp add: bounded_read_def)

section \<open>A host in order\<close>

definition in_pieces :: "string \<Rightarrow> string list \<Rightarrow> bool" where
  "in_pieces b pieces \<longleftrightarrow> concat pieces = b \<and> [] \<notin> set pieces \<and> length pieces < MAX_READ_CALLS"

text \<open>The host answers a load of the bytes \<open>old\<close> as it must.\<close>

definition serves :: "store_configuration \<Rightarrow> host \<Rightarrow> string \<Rightarrow> bool" where
  "serves conf h old \<longleftrightarrow>
     (\<exists>ids. identified conf (- 1) (ho_chain h) ids) \<and> length (ho_chain h) = length (sc_components conf) + 1 \<and>
     list_all (\<lambda>fd. 0 \<le> fd) (map snd (ho_chain h) @ [ho_fd h, ho_temporary_fd h, ho_confirm_fd h, ho_verify_fd h]) \<and>
     distinct (map snd (ho_chain h) @ [ho_fd h, ho_temporary_fd h, ho_confirm_fd h, ho_verify_fd h]) \<and>
     list_all2 sibling_status (sc_siblings conf) (ho_siblings h) \<and>
     distinct (sc_temporary_name conf # sc_state_name conf # map fst (sc_siblings conf)) \<and>
     (\<exists>dv i. validate_state_file (sc_owner_uid conf) (sc_group_gid conf) (ho_state h) = Inr (dv, i, int (length old))) \<and>
     in_pieces old (ho_old_pieces h)"

text \<open>And a save of \<open>new\<close>: the temporary file keeps its identity and gets the size of the bytes.\<close>

definition serves_save :: "store_configuration \<Rightarrow> host \<Rightarrow> string \<Rightarrow> string \<Rightarrow> bool" where
  "serves_save conf h old new \<longleftrightarrow>
     serves conf h old \<and> in_pieces new (ho_new_pieces h) \<and>
     (\<exists>dv i. validate_temporary_file (sc_owner_uid conf) (sc_group_gid conf) (ho_empty h) = Inr (dv, i) \<and>
        validate_temporary_file (sc_owner_uid conf) (sc_group_gid conf) (ho_filled h) = Inr (dv, i) \<and>
        validate_state_file (sc_owner_uid conf) (sc_group_gid conf) (ho_filled h) = Inr (dv, i, int (length new))) \<and>
     list_all (\<lambda>k. 1 \<le> k) (ho_writes h) \<and> sum_list (ho_writes h) = int (length new) \<and> length (ho_writes h) < MAX_WRITE_CALLS"

lemma state_file_size:
  assumes "validate_state_file u g a = Inr (dv, i, n)"
  obtains m l where "store_status a = Inr (m, i, dv, l, u, g, n)"
  using assms by (auto simp: validate_state_file_def split: if_splits)

definition names_of :: "store_configuration \<Rightarrow> string list" where
  "names_of conf = sc_state_name conf # map fst (sc_siblings conf)"

definition held_of :: "int list \<Rightarrow> (int \<times> bool) list" where
  "held_of fds = map (\<lambda>fd. (fd, True)) fds"

lemma held_of_simps [simp]: "fst ` set (held_of fds) = set fds" "held_of fds @ [(fd, True)] = held_of (fds @ [fd])"
  by (force simp: held_of_def)+

definition chain_fds :: "host \<Rightarrow> int list" where "chain_fds h = map snd (ho_chain h)"

lemma held_chain: "map (\<lambda>(st, fd). (fd, True)) (ho_chain h) = held_of (chain_fds h)"
  by (simp add: held_of_def chain_fds_def case_prod_unfold)

text \<open>The directory without and with the temporary file.\<close>

lemma serves_entries:
  assumes "serves conf h old"
  shows "accepts (validate_entries conf dir True False) (answers_entries h (names_of conf)) p (names_of conf) p"
    "accepts (validate_entries conf dir True True) (answers_entries h (sc_temporary_name conf # names_of conf)) p
       (sc_temporary_name conf # names_of conf) p"
  by (rule accepts_validate_entries; use assms in \<open>auto simp: serves_def names_of_def\<close>)+

definition answers_load :: "store_configuration \<Rightarrow> host \<Rightarrow> os_answer list" where
  "answers_load conf h =
     answers_entries h (names_of conf) @ answers_open (ho_state h) (ho_fd h) @ answers_read (ho_old_pieces h) @
     [ho_state h] @ [ho_state h] @ answers_again h @ answers_entries h (names_of conf)"

lemma accepts_read_validated:
  assumes serves: "serves conf h old" and ids: "identified conf (- 1) (ho_chain h) ids" and parsed: "parse_persisted old = Inr s"
    and state: "validate_state_file (sc_owner_uid conf) (sc_group_gid conf) (ho_state h) = Inr (dv, i, int (length old))"
  shows "accepts (read_validated_state conf dir (chain_entries ids (- 1) (ho_chain h))) (answers_load conf h)
     (held_of (chain_fds h), d) (s, (dv, i, int (length old)), ho_fd h, old) (held_of (chain_fds h @ [ho_fd h]), d)"
proof -
  let ?p = "(held_of (chain_fds h), d)" and ?q = "(held_of (chain_fds h @ [ho_fd h]), d)"
  have fd: "0 \<le> ho_fd h" "ho_fd h \<notin> fst ` set (fst ?p)" using serves by (auto simp: serves_def chain_fds_def)
  have open_ok: "accepts (open_state conf dir) (answers_open (ho_state h) (ho_fd h)) ?p (ho_fd h, dv, i, int (length old)) ?q"
    using accepts_open_state [OF state fd] by simp
  have "length old \<le> MAX_STATE_BYTES" using parsed unfolding parse_persisted_Inr by blast
  then have read_ok: "accepts (bounded_read (ho_fd h)) (answers_read (ho_old_pieces h)) ?q old ?q"
    using serves accepts_read [of "ho_old_pieces h"] by (auto simp: serves_def in_pieces_def)
  have rest: "accepts (revalidate_chain conf (chain_entries ids (- 1) (ho_chain h))) (answers_again h) ?q () ?q"
    by (rule accepts_revalidate [OF ids]) (use serves in \<open>simp add: serves_def\<close>)
  note stat_ok = accepts_stat(1) [OF state]
  show ?thesis
    unfolding read_validated_state_def answers_load_def
    apply (rule accepts_bind [OF serves_entries(1) [OF serves]])
    apply (rule accepts_bind [OF open_ok])
    apply (unfold prod.case)
    apply (rule accepts_bind [OF read_ok])
    apply (simp only: snd_conv not_not if_False simp_thms)
    apply (rule accepts_bind [OF stat_ok], simp)
    apply (rule accepts_bind [OF stat_ok], simp)
    apply (simp only: simp_thms if_False)
    apply (rule accepts_bind [OF rest])
    apply (rule accepts_append, rule accepts_bind [OF serves_entries(1) [OF serves]])
    apply (rule accepts_lift_bind [OF parsed])
    apply (rule accepts_lift)
    apply simp_all
    done
qed

section \<open>The temporary file on the disk\<close>

definition with_temporary :: "string \<Rightarrow> nat \<Rightarrow> int \<Rightarrow> string \<Rightarrow> bool \<Rightarrow> disk \<Rightarrow> disk" where
  "with_temporary tmp n fd b synced d =
     d\<lparr>dk_names := (dk_names d)(tmp := Some n), dk_files := (dk_files d)(n := (b, synced)), dk_writers := (dk_writers d)(fd := Some n)\<rparr>"

lemma accepts_write_loop:
  "list_all (\<lambda>k. 1 \<le> k) ks \<Longrightarrow> sum_list ks = int (length rest) \<Longrightarrow> length ks < n \<Longrightarrow>
     accepts (write_loop fd n rest) (map Os_Int ks) (own, with_temporary tmp inode fd b False d) ()
       (own, with_temporary tmp inode fd (b @ rest) False d)"
proof (induction ks arbitrary: n rest b)
  case Nil
  then obtain m where "n = Suc m" by (cases n) auto
  then show ?case using Nil by (auto intro!: accepts_lift simp del: act_lift_apply)
next
  case (Cons k ks)
  then obtain m where m: "n = Suc m" by (cases n) auto
  have "0 \<le> sum_list ks" using Cons.prems(1) by (intro sum_list_nonneg) (auto simp: list_all_iff)
  then have k: "1 \<le> k" "k \<le> int (length rest)" "rest \<noteq> []" using Cons.prems(1,2) by auto
  have IH: "accepts (write_loop fd m (drop (nat k) rest)) (map Os_Int ks) (own, with_temporary tmp inode fd (b @ take (nat k) rest) False d) ()
      (own, with_temporary tmp inode fd ((b @ take (nat k) rest) @ drop (nat k) rest) False d)"
    using Cons.prems k m by (intro Cons.IH) auto
  have "disk_effect (Os_Write fd rest, Os_Int k) (with_temporary tmp inode fd b False d)
      (with_temporary tmp inode fd (b @ take (nat k) rest) False d)"
    by (auto simp: effect_write with_temporary_def)
  then have write_ok: "accepts (os (Os_Write fd rest)) [Os_Int k] (own, with_temporary tmp inode fd b False d) (Os_Int k)
      (own, with_temporary tmp inode fd (b @ take (nat k) rest) False d)"
    using accepts_os [of "Os_Int k" "Os_Write fd rest" "(own, with_temporary tmp inode fd b False d)"] by simp
  show ?case
    using IH k by (auto simp: m simp del: act_lift_apply intro!: accepts_append [OF accepts_bind [OF write_ok]])
qed

definition answers_fill :: "store_configuration \<Rightarrow> host \<Rightarrow> os_answer list" where
  "answers_fill conf h =
     [ho_empty h] @ answers_entries h (sc_temporary_name conf # names_of conf) @ map Os_Int (ho_writes h) @ [Os_None] @
     [ho_filled h] @ [ho_filled h] @ [ho_filled h] @ [ho_filled h]"

lemma accepts_fill:
  assumes serves: "serves_save conf h old new"
    and temporary: "validate_temporary_file (sc_owner_uid conf) (sc_group_gid conf) (ho_empty h) = Inr j"
    "validate_temporary_file (sc_owner_uid conf) (sc_group_gid conf) (ho_filled h) = Inr j"
  shows "accepts (fill_temporary conf dir (ho_temporary_fd h) j new) (answers_fill conf h)
     (own, with_temporary tmp inode (ho_temporary_fd h) [] False d) () (own, with_temporary tmp inode (ho_temporary_fd h) new True d)"
proof -
  let ?d = "\<lambda>b synced. with_temporary tmp inode (ho_temporary_fd h) b synced d"
  have loads: "serves conf h old" using serves by (simp add: serves_save_def)
  obtain dv i where "validate_state_file (sc_owner_uid conf) (sc_group_gid conf) (ho_filled h) = Inr (dv, i, int (length new))"
    using serves by (auto simp: serves_save_def)
  then obtain m l where filled: "store_status (ho_filled h) = Inr (m, i, dv, l, sc_owner_uid conf, sc_group_gid conf, int (length new))"
    by (rule state_file_size)
  have write_ok: "accepts (write_all (ho_temporary_fd h) new) (map Os_Int (ho_writes h)) (own, ?d [] False) () (own, ?d new False)"
    using accepts_write_loop [of "ho_writes h" new MAX_WRITE_CALLS "ho_temporary_fd h" own tmp inode "[]" d] serves
    by (simp add: write_all_def serves_save_def)
  have "disk_effect (Os_Fsync (ho_temporary_fd h), Os_None) (?d new False) (?d new True)"
    by (simp add: effect_sync with_temporary_def)
  then have sync_ok: "accepts (os_none (Os_Fsync (ho_temporary_fd h))) [Os_None] (own, ?d new False) () (own, ?d new True)"
    using accepts_none [of "Os_Fsync (ho_temporary_fd h)" "(own, ?d new False)"] by simp
  show ?thesis
    unfolding fill_temporary_def Let_def answers_fill_def
    apply (rule accepts_bind [OF accepts_stat(2) [OF temporary(1)]], simp)
    apply (simp only: simp_thms if_False)
    apply (rule accepts_bind [OF serves_entries(2) [OF loads]])
    apply (rule accepts_bind [OF write_ok])
    apply (rule accepts_bind [OF sync_ok])
    apply (rule accepts_bind [OF accepts_size [OF filled]], simp)
    apply (rule accepts_bind [OF accepts_size [OF filled]], simp)
    apply (rule accepts_bind [OF accepts_stat(2) [OF temporary(2)]], simp)
    apply (rule accepts_append, rule accepts_bind [OF accepts_stat(2) [OF temporary(2)]], simp)
    apply (rule accepts_lift)
    apply simp_all
    done
qed

definition answers_confirm :: "host \<Rightarrow> os_answer list" where
  "answers_confirm h = [ho_state h] @ [ho_state h] @ answers_open (ho_state h) (ho_confirm_fd h) @ answers_read (ho_old_pieces h)"

lemma accepts_confirm:
  assumes serves: "serves conf h old" and parsed: "parse_persisted old = Inr s"
    and state: "validate_state_file (sc_owner_uid conf) (sc_group_gid conf) (ho_state h) = Inr identity"
    and fd: "ho_confirm_fd h \<notin> set fds"
  shows "accepts (confirm_original conf dir identity ofd old) (answers_confirm h) (held_of fds, d) () (held_of (fds @ [ho_confirm_fd h]), d)"
proof -
  have "0 \<le> ho_confirm_fd h" using serves by (simp add: serves_def)
  then have open_ok: "accepts (open_state conf dir) (answers_open (ho_state h) (ho_confirm_fd h)) (held_of fds, d) (ho_confirm_fd h, identity)
      (held_of (fds @ [ho_confirm_fd h]), d)"
    using accepts_open_state [OF state, of "ho_confirm_fd h" "(held_of fds, d)"] fd by simp
  have "length old \<le> MAX_STATE_BYTES" using parsed unfolding parse_persisted_Inr by blast
  then have read_ok: "accepts (bounded_read (ho_confirm_fd h)) (answers_read (ho_old_pieces h)) q old q" for q
    using serves accepts_read [of "ho_old_pieces h"] by (auto simp: serves_def in_pieces_def)
  note stat_ok = accepts_stat(1) [OF state]
  show ?thesis
    unfolding confirm_original_def answers_confirm_def
    apply (rule accepts_bind [OF stat_ok], simp)
    apply (simp only: simp_thms if_False)
    apply (rule accepts_bind [OF stat_ok], simp)
    apply (simp only: simp_thms if_False)
    apply (rule accepts_bind [OF open_ok])
    apply (unfold prod.case)
    apply (rule accepts_append, rule accepts_bind [OF read_ok])
    apply (simp only: simp_thms if_False)
    apply (rule accepts_lift_bind [OF parsed])
    apply (rule accepts_lift)
    apply simp_all
    done
qed

definition with_replaced :: "string \<Rightarrow> string \<Rightarrow> disk \<Rightarrow> disk" where
  "with_replaced tmp st d = d\<lparr>dk_names := (dk_names d)(tmp := None, st := dk_names d tmp)\<rparr>"

definition answers_verify :: "store_configuration \<Rightarrow> host \<Rightarrow> os_answer list" where
  "answers_verify conf h =
     [Os_None] @ [ho_filled h] @ answers_entries h (names_of conf) @ answers_open (ho_filled h) (ho_verify_fd h) @
     answers_read (ho_new_pieces h) @ answers_again h"

lemma accepts_verify:
  assumes serves: "serves_save conf h old new" and ids: "identified conf (- 1) (ho_chain h) ids" and parsed: "parse_persisted new = Inr s"
    and filled: "validate_state_file (sc_owner_uid conf) (sc_group_gid conf) (ho_filled h) = Inr (dv, i, n)"
    and fd: "ho_verify_fd h \<notin> set fds" and dir: "dk_writers d dir = None"
  shows "accepts (verify_replacement conf dir (chain_entries ids (- 1) (ho_chain h)) (dv, i) new) (answers_verify conf h) (held_of fds, d) ()
     (held_of (fds @ [ho_verify_fd h]), d\<lparr>dk_durable := dk_names d\<rparr>)"
proof -
  let ?d = "d\<lparr>dk_durable := dk_names d\<rparr>"
  have loads: "serves conf h old" using serves by (simp add: serves_save_def)
  have sync_ok: "accepts (os_none (Os_Fsync dir)) [Os_None] (held_of fds, d) () (held_of fds, ?d)"
    using accepts_none [of "Os_Fsync dir" "(held_of fds, d)" ?d] dir by (simp add: effect_sync)
  have "0 \<le> ho_verify_fd h" using loads by (simp add: serves_def)
  then have open_ok: "accepts (open_state conf dir) (answers_open (ho_filled h) (ho_verify_fd h)) (held_of fds, ?d) (ho_verify_fd h, dv, i, n)
      (held_of (fds @ [ho_verify_fd h]), ?d)"
    using accepts_open_state [OF filled, of "ho_verify_fd h" "(held_of fds, ?d)"] fd by simp
  have "length new \<le> MAX_STATE_BYTES" using parsed unfolding parse_persisted_Inr by blast
  then have read_ok: "accepts (bounded_read (ho_verify_fd h)) (answers_read (ho_new_pieces h)) q new q" for q
    using serves accepts_read [of "ho_new_pieces h"] by (auto simp: serves_save_def in_pieces_def)
  have again: "accepts (revalidate_chain conf (chain_entries ids (- 1) (ho_chain h))) (answers_again h) q () q" for q
    by (rule accepts_revalidate [OF ids]) (use loads in \<open>simp add: serves_def\<close>)
  show ?thesis
    unfolding verify_replacement_def answers_verify_def
    apply (rule accepts_bind [OF sync_ok])
    apply (rule accepts_bind [OF accepts_stat(1) [OF filled]], simp)
    apply (simp only: fst_conv snd_conv simp_thms if_False)
    apply (rule accepts_bind [OF serves_entries(1) [OF loads]])
    apply (rule accepts_bind [OF open_ok])
    apply (unfold prod.case)
    apply (rule accepts_bind [OF read_ok])
    apply (simp only: simp_thms if_False)
    apply (rule accepts_lift_bind [OF parsed])
    apply (rule again)
    done
qed

definition answers_save :: "store_configuration \<Rightarrow> host \<Rightarrow> os_answer list" where
  "answers_save conf h =
     answers_load conf h @ [Os_Int (ho_temporary_fd h), Os_Bool False] @ [ho_empty h] @
     (answers_fill conf h @ answers_confirm h @ answers_again h @ [Os_None]) @ answers_verify conf h"

lemma accepts_guarded:
  "accepts m as p () q \<Longrightarrow> accepts (\<lambda>w. case m w of (Inr _, w1) \<Rightarrow> (Inr (), w1) | (Inl e, w1) \<Rightarrow> g e w1) as p () q"
  by (erule accepts_refine) simp

lemma accepts_save_action:
  assumes serves: "serves_save conf h old new" and ids: "identified conf (- 1) (ho_chain h) ids"
    and old: "parse_persisted old = Inr s" and new: "parse_persisted new = Inr t"
    and disk: "dk_names d (sc_temporary_name conf) = None" "unused d n" "dk_writers d = Map.empty"
    and dir: "dir = last (chain_fds h)"
  shows "\<exists>d'. accepts (save_action conf dir (chain_entries ids (- 1) (ho_chain h)) new) (answers_save conf h) (held_of (chain_fds h), d) ()
     (held_of (chain_fds h @ [ho_fd h, ho_temporary_fd h, ho_confirm_fd h, ho_verify_fd h]), d')"
proof -
  let ?opened = "chain_entries ids (- 1) (ho_chain h)" and ?tmp = "sc_temporary_name conf" and ?st = "sc_state_name conf"
  have loads: "serves conf h old" using serves by (simp add: serves_save_def)
  have fds: "distinct (chain_fds h @ [ho_fd h, ho_temporary_fd h, ho_confirm_fd h, ho_verify_fd h])" "0 \<le> ho_temporary_fd h"
      "chain_fds h \<noteq> []"
    using loads by (auto simp: serves_def chain_fds_def)
  obtain dv i where state: "validate_state_file (sc_owner_uid conf) (sc_group_gid conf) (ho_state h) = Inr (dv, i, int (length old))"
    using loads by (auto simp: serves_def)
  obtain dw j where temporary: "validate_temporary_file (sc_owner_uid conf) (sc_group_gid conf) (ho_empty h) = Inr (dw, j)"
      "validate_temporary_file (sc_owner_uid conf) (sc_group_gid conf) (ho_filled h) = Inr (dw, j)"
      "validate_state_file (sc_owner_uid conf) (sc_group_gid conf) (ho_filled h) = Inr (dw, j, int (length new))"
    using serves by (auto simp: serves_save_def)
  let ?d = "\<lambda>b synced. with_temporary ?tmp n (ho_temporary_fd h) b synced d"
  let ?fds1 = "chain_fds h @ [ho_fd h, ho_temporary_fd h]" and ?fds2 = "chain_fds h @ [ho_fd h, ho_temporary_fd h, ho_confirm_fd h]"
  have create: "accepts (open_owned (Os_Open_Create dir ?tmp (sc_state_file_mode conf))) [Os_Int (ho_temporary_fd h), Os_Bool False]
      (held_of (chain_fds h @ [ho_fd h]), d) (ho_temporary_fd h) (held_of ?fds1, ?d [] False)"
    using accepts_open [of "ho_temporary_fd h" "(held_of (chain_fds h @ [ho_fd h]), d)" "Os_Open_Create dir ?tmp (sc_state_file_mode conf)" "?d [] False"]
      fds disk by (auto simp: effect_create with_temporary_def)
  have again: "accepts (revalidate_chain conf ?opened) (answers_again h) q () q" for q
    by (rule accepts_revalidate [OF ids]) (use loads in \<open>simp add: serves_def\<close>)
  have "disk_effect (Os_Replace dir ?tmp ?st, Os_None) (?d new True) (with_replaced ?tmp ?st (?d new True))"
    by (simp add: effect_replace with_replaced_def with_temporary_def)
  then have replace_ok: "accepts (os_none (Os_Replace dir ?tmp ?st)) [Os_None] (held_of ?fds2, ?d new True) ()
      (held_of ?fds2, with_replaced ?tmp ?st (?d new True))"
    using accepts_none [of "Os_Replace dir ?tmp ?st" "(held_of ?fds2, ?d new True)"] by simp
  have confirm: "accepts (confirm_original conf dir (dv, i, int (length old)) (ho_fd h) old) (answers_confirm h) (held_of ?fds1, ?d new True) ()
      (held_of ?fds2, ?d new True)"
    using accepts_confirm [OF loads old state, of ?fds1 dir "ho_fd h" "?d new True"] fds by simp
  have body: "accepts (act_bind (fill_temporary conf dir (ho_temporary_fd h) (dw, j) new) (\<lambda>_.
      act_bind (confirm_original conf dir (dv, i, int (length old)) (ho_fd h) old) (\<lambda>_.
      act_bind (revalidate_chain conf ?opened) (\<lambda>_. os_none (Os_Replace dir ?tmp ?st)))))
      (answers_fill conf h @ answers_confirm h @ answers_again h @ [Os_None]) (held_of ?fds1, ?d [] False) ()
      (held_of ?fds2, with_replaced ?tmp ?st (?d new True))"
    by (rule accepts_bind [OF accepts_fill [OF serves temporary(1,2)]])
      (rule accepts_bind [OF confirm], rule accepts_bind [OF again], rule replace_ok)
  have "dir \<in> set (chain_fds h)" unfolding dir by (rule last_in_set [OF fds(3)])
  then have "dk_writers (with_replaced ?tmp ?st (?d new True)) dir = None"
    using fds(1) disk(3) by (auto simp: with_replaced_def with_temporary_def)
  note verify = accepts_verify [OF serves ids new temporary(3) _ this, of ?fds2]
  have "accepts (save_action conf dir ?opened new) (answers_save conf h) (held_of (chain_fds h), d) ()
     (held_of (?fds2 @ [ho_verify_fd h]),
      (with_replaced ?tmp ?st (?d new True))\<lparr>dk_durable := dk_names (with_replaced ?tmp ?st (?d new True))\<rparr>)"
    unfolding save_action_def answers_save_def
    by (rule accepts_bind [OF accepts_read_validated [OF loads ids old state]], unfold prod.case, rule accepts_bind [OF create],
        rule accepts_bind [OF accepts_stat(2) [OF temporary(1)]], simp, rule accepts_bind [OF accepts_guarded [OF body]], rule verify)
      (use fds in auto)
  then show ?thesis by auto
qed

section \<open>Cleaning up\<close>

definition still_open :: "(int \<times> bool) list \<Rightarrow> int list \<Rightarrow> nat" where
  "still_open owned fds = length (filter (\<lambda>fd. map_of owned fd = Some True) fds)"

lemma map_of_marks: "map_of (marks owned fds) fd = map_option (\<lambda>b. b \<and> fd \<notin> fds) (map_of owned fd)"
  by (induction owned) (auto simp: marks_def)

lemma still_open_marks: "distinct (fd # fds) \<Longrightarrow> still_open (marks owned {fd}) fds = still_open owned fds"
  by (auto simp: still_open_def map_of_marks intro!: arg_cong [of _ _ length] filter_cong)

text \<open>A clean-up whose calls all answer \<open>None\<close> adds no error.\<close>

lemma close_answered:
  assumes "sw_answers w = replicate (if map_of (sw_owned w) fd = Some True then 1 else 0) Os_None @ others"
    and "distinct (map fst (sw_owned w))"
  obtains w' tr d' where "defer_error note_first (close_owned fd) (out, w) = (out, w')" "sw_answers w' = others"
    "sw_owned w' = marks (sw_owned w) {fd}" "sw_trace w' = sw_trace w @ tr" "disk_run d tr d'"
proof (cases "map_of (sw_owned w) fd = Some True")
  case True
  let ?w = "w\<lparr>sw_owned := map (\<lambda>(d, b). (d, if d = fd then False else b)) (sw_owned w)\<rparr>"
  have "close_owned fd w = (Inr (), ?w\<lparr>sw_answers := others, sw_trace := sw_trace w @ [(Os_Close fd, Os_None)]\<rparr>)"
    using assms(1) True by (simp add: close_owned_def os_none_def act_bind_def os_answers [of _ Os_None others])
  moreover from close_owned_marks [OF assms(2) this] have "sw_owned ?w = marks (sw_owned w) {fd}" by simp
  moreover have "disk_run d [(Os_Close fd, Os_None)] (d\<lparr>dk_writers := (dk_writers d)(fd := None)\<rparr>)"
    using disk_run.call [OF disk_run.start disk_effect.closed] by simp
  ultimately show thesis by (intro that) (auto simp: defer_error_def)
next
  case False
  then have "close_owned fd w = (Inr (), w)" by (simp add: close_owned_def)
  moreover from close_owned_marks [OF assms(2) this] have "sw_owned w = marks (sw_owned w) {fd}" .
  ultimately show thesis using assms(1) False by (intro that) (auto simp: defer_error_def)
qed

lemma fold_close_answered:
  fixes w :: store_world
  assumes "sw_answers w = replicate (still_open (sw_owned w) fds) Os_None @ others" and "distinct fds" and "distinct (map fst (sw_owned w))"
  shows "\<exists>w' tr d'. fold (\<lambda>fd. defer_error note_first (close_owned fd)) fds (out, w) = (out, w') \<and> sw_answers w' = others \<and>
     sw_owned w' = marks (sw_owned w) (set fds) \<and> sw_trace w' = sw_trace w @ tr \<and> disk_run d tr d'"
  using assms
proof (induction fds arbitrary: w d)
  case Nil
  then show ?case by (auto simp: still_open_def intro: disk_run.start)
next
  case (Cons fd fds)
  let ?k = "if map_of (sw_owned w) fd = Some True then 1 else 0 :: nat"
  have "sw_answers w = replicate ?k Os_None @ replicate (still_open (sw_owned w) fds) Os_None @ others"
    using Cons.prems(1) by (auto simp: still_open_def)
  then obtain w1 tr1 d1 where 1: "defer_error note_first (close_owned fd) (out, w) = (out, w1)"
      "sw_answers w1 = replicate (still_open (sw_owned w) fds) Os_None @ others"
      "sw_owned w1 = marks (sw_owned w) {fd}" "sw_trace w1 = sw_trace w @ tr1" "disk_run d tr1 d1"
    using Cons.prems(3) by (rule close_answered)
  have "sw_answers w1 = replicate (still_open (sw_owned w1) fds) Os_None @ others"
    using 1(2,3) still_open_marks [OF Cons.prems(2)] by simp
  moreover have "distinct fds" "distinct (map fst (sw_owned w1))" using Cons.prems(2,3) 1(3) by simp_all
  ultimately obtain w2 tr2 d2 where 2: "fold (\<lambda>fd. defer_error note_first (close_owned fd)) fds (out, w1) = (out, w2)"
      "sw_answers w2 = others" "sw_owned w2 = marks (sw_owned w1) (set fds)" "sw_trace w2 = sw_trace w1 @ tr2" "disk_run d1 tr2 d2"
    using Cons.IH [of w1 d1] by blast
  have "disk_run d (tr1 @ tr2) d2" by (rule disk_run_append [OF 2(5) 1(5)])
  with 1 2 show ?case by (intro exI [of _ w2] exI [of _ "tr1 @ tr2"] exI [of _ d2]) simp
qed

lemma cleanup_answered:
  assumes "sw_answers w = replicate (length fds + 1) Os_None @ others" and "sw_owned w = held_of fds" and "distinct fds"
    and "dir \<in> set fds"
  shows "\<exists>w' tr d'. operate_cleanup conf (Some dir) (out, w) = (out, w') \<and> sw_answers w' = others \<and>
     sw_trace w' = sw_trace w @ tr \<and> disk_run d tr d'"
proof -
  have keys: "map fst (sw_owned w) = fds" using assms(2) by (simp add: held_of_def comp_def)
  have open_all: "map_of (sw_owned w) fd = Some True \<longleftrightarrow> fd \<in> set fds" for fd
    using assms(2) by (induction fds arbitrary: w) (auto simp: held_of_def map_of_map_restrict restrict_map_def)
  let ?first = "filter (\<lambda>fd. Some fd \<noteq> Some dir) (rev fds)"
  have "length (removeAll dir fds) = length fds - 1"
    using assms(3,4) by (simp add: length_remove1 flip: distinct_remove1_removeAll)
  moreover have "?first = rev (removeAll dir fds)" by (simp add: removeAll_filter_not_eq rev_filter eq_commute [of dir])
  moreover have "fds \<noteq> []" using assms(4) by auto
  ultimately have n: "length fds = length ?first + 1" by (cases fds) auto
  have "still_open (sw_owned w) ?first = length ?first"
    unfolding still_open_def by (intro arg_cong [of _ _ length] filter_True) (auto simp: open_all)
  then have "sw_answers w = replicate (still_open (sw_owned w) ?first) Os_None @ Os_None # Os_None # others"
    using assms(1) n by (simp add: replicate_app_Cons_same)
  moreover have "distinct ?first" "distinct (map fst (sw_owned w))" using assms(3) keys by simp_all
  ultimately obtain w1 tr1 d1 where 1: "fold (\<lambda>fd. defer_error note_first (close_owned fd)) ?first (out, w) = (out, w1)"
      "sw_answers w1 = Os_None # Os_None # others" "sw_owned w1 = marks (sw_owned w) (set ?first)" "sw_trace w1 = sw_trace w @ tr1" "disk_run d tr1 d1"
    using fold_close_answered [of w ?first "Os_None # Os_None # others" out d] by blast
  let ?w2 = "w1\<lparr>sw_answers := Os_None # others, sw_trace := sw_trace w1 @ [(Os_Unlock dir, Os_None)]\<rparr>"
  have unlock: "defer_error note_first (os_none (Os_Unlock dir)) (out, w1) = (out, ?w2)"
    using 1(2) by (simp add: defer_error_def os_none_def act_bind_def os_answers [of _ Os_None])
  have "filter (\<lambda>fd. map_of (sw_owned ?w2) fd = Some True) (rev fds) = filter (\<lambda>fd. fd = dir) (rev fds)"
    using assms(4) open_all [THEN iffD2] by (intro filter_cong) (auto simp: 1(3) map_of_marks)
  moreover have "length (filter (\<lambda>fd. fd = dir) (rev fds)) = 1"
    using n sum_length_filter_compl [of "\<lambda>fd. fd = dir" "rev fds"] by simp
  ultimately have "still_open (sw_owned ?w2) (rev fds) = 1" by (simp add: still_open_def)
  then have "sw_answers ?w2 = replicate (still_open (sw_owned ?w2) (rev fds)) Os_None @ others" by simp
  moreover have "distinct (rev fds)" "distinct (map fst (sw_owned ?w2))" using assms(3) keys by (simp_all add: 1(3))
  ultimately obtain w3 tr3 d3 where 3: "fold (\<lambda>fd. defer_error note_first (close_owned fd)) (rev fds) (out, ?w2) = (out, w3)"
      "sw_answers w3 = others" "sw_trace w3 = sw_trace ?w2 @ tr3" "disk_run d1 tr3 d3"
    using fold_close_answered [of ?w2 "rev fds" others out d1] by blast
  have "disk_run d1 [(Os_Unlock dir, Os_None)] d1"
    using disk_run.call [OF disk_run.start disk_effect.idle [of "Os_Unlock dir" Os_None d1]] by simp
  then have "disk_run d (tr1 @ [(Os_Unlock dir, Os_None)] @ tr3) d3"
    using disk_run_append [OF disk_run_append [OF 3(4)] 1(5)] by blast
  moreover have "operate_cleanup conf (Some dir) (out, w) = (out, leave_operation (sc_path conf) w3)"
    using 1(1,3) unlock 3(1) keys by (simp add: operate_cleanup_def close_all_owned_def)
  ultimately show ?thesis using 1(4) 3(2,3)
    by (intro exI [of _ "leave_operation (sc_path conf) w3"] exI [of _ "tr1 @ [(Os_Unlock dir, Os_None)] @ tr3"] exI [of _ d3])
      (simp add: leave_operation_def)
qed

section \<open>Whole operations\<close>

text \<open>An operation whose action is accepted returns.\<close>

definition answers_operate :: "host \<Rightarrow> os_answer list \<Rightarrow> nat \<Rightarrow> os_answer list" where
  "answers_operate h as n = answers_chain h @ [Os_None] @ answers_again h @ as @ replicate (n + 1) Os_None"

lemma operate_accepted:
  assumes serves: "serves conf h old" and ids: "identified conf (- 1) (ho_chain h) ids"
    and action: "accepts (action (last (chain_fds h)) (chain_entries ids (- 1) (ho_chain h))) as (held_of (chain_fds h), d) x (held_of fds, d')"
    and fds: "distinct fds" "set (chain_fds h) \<subseteq> set fds"
    and w: "sw_answers w = answers_operate h as (length fds)" "sc_path conf \<notin> set (sw_active w)"
  shows "\<exists>w' tr d''. operate conf action w = (Inr x, w') \<and> sw_trace w' = sw_trace w @ tr \<and> disk_run d tr d''"
proof -
  let ?opened = "chain_entries ids (- 1) (ho_chain h)" and ?dir = "last (chain_fds h)"
  have chain: "accepts (open_chain conf) (answers_chain h) ([], d) (?opened, ?dir) (held_of (chain_fds h), d)"
    unfolding chain_fds_def
    by (rule accepts_chain [OF ids, of d, unfolded held_chain chain_fds_def]) (use serves in \<open>auto simp: serves_def list_all_iff\<close>)
  have lock: "accepts (os_none (Os_Lock ?dir)) [Os_None] (held_of (chain_fds h), d) () (held_of (chain_fds h), d)"
    using accepts_none [of "Os_Lock ?dir" "(held_of (chain_fds h), d)" d] by (simp add: effect_idle)
  have again: "accepts (revalidate_chain conf ?opened) (answers_again h) q () q" for q
    by (rule accepts_revalidate [OF ids]) (use serves in \<open>simp add: serves_def\<close>)
  have locked: "accepts (locked_action conf ?dir ?opened action) ([Os_None] @ answers_again h @ as) (held_of (chain_fds h), d) x (held_of fds, d')"
    unfolding locked_action_def by (intro accepts_bind [OF lock] accepts_bind [OF again] action)
  obtain w2 tr2 where 2: "open_chain conf (entered_world conf w) = (Inr (?opened, ?dir), w2)"
      "sw_answers w2 = [Os_None] @ answers_again h @ as @ replicate (length fds + 1) Os_None" "sw_owned w2 = held_of (chain_fds h)"
      "sw_trace w2 = sw_trace w @ tr2" "disk_run d tr2 d"
  proof (rule acceptsE [OF chain])
    show "sw_answers (entered_world conf w) = answers_chain h @ [Os_None] @ answers_again h @ as @ replicate (length fds + 1) Os_None"
      using w(1) by (simp add: answers_operate_def entered_world_def)
  qed (simp_all add: entered_world_def)
  obtain w3 tr3 where 3: "locked_action conf ?dir ?opened action w2 = (Inr x, w3)"
      "sw_answers w3 = replicate (length fds + 1) Os_None" "sw_owned w3 = held_of fds" "sw_trace w3 = sw_trace w2 @ tr3" "disk_run d tr3 d'"
    by (rule acceptsE [OF locked, of w2 "replicate (length fds + 1) Os_None"]) (use 2 in simp_all)
  have "chain_fds h \<noteq> []" using serves by (auto simp: serves_def chain_fds_def)
  then have "?dir \<in> set fds" using fds(2) by auto
  then obtain w4 tr4 d4 where 4: "operate_cleanup conf (Some ?dir) (no_error, w3) = (no_error, w4)" "sw_trace w4 = sw_trace w3 @ tr4" "disk_run d' tr4 d4"
    using cleanup_answered [of w3 fds "[]" ?dir conf no_error d'] 3(2,3) fds(1) by auto
  have "operate conf action w = (Inr x, w4)"
    using w(2) 2(1) 3(1) 4(1)
    by (simp add: operate_def enter_operation_def outcome_of_def operate_result_Inr entered_world_def)
  moreover have "disk_run d (tr2 @ tr3 @ tr4) d4" by (rule disk_run_append [OF disk_run_append [OF 4(3) 3(5)] 2(5)])
  ultimately show ?thesis using 2(4) 3(4) 4(2) by (intro exI [of _ w4]) auto
qed

lemma load_accepted:
  assumes "serves conf h old" and "parse_persisted old = Inr s" and "sc_path conf \<notin> set (sw_active w)"
    and "sw_answers w = answers_operate h (answers_load conf h) (length (chain_fds h) + 1)"
  shows "\<exists>w'. load conf w = (Inr s, w')"
proof -
  obtain ids dv i where ids: "identified conf (- 1) (ho_chain h) ids"
    and state: "validate_state_file (sc_owner_uid conf) (sc_group_gid conf) (ho_state h) = Inr (dv, i, int (length old))"
    using assms(1) by (auto simp: serves_def)
  have "accepts (load_action conf dir (chain_entries ids (- 1) (ho_chain h))) (answers_load conf h @ [])
      (held_of (chain_fds h), d) s (held_of (chain_fds h @ [ho_fd h]), d)" for dir d
    unfolding load_action_def
    by (rule accepts_bind [OF accepts_read_validated [OF assms(1) ids assms(2) state]]) (simp add: accepts_lift del: act_lift_apply)
  with operate_accepted [OF assms(1) ids, of "load_action conf" "answers_load conf h" undefined s "chain_fds h @ [ho_fd h]" undefined w] assms
  show ?thesis by (auto simp: load_def serves_def chain_fds_def)
qed

lemma save_accepted:
  assumes serves: "serves_save conf h old (state_canonical_bytes t)" and old: "parse_persisted old = Inr s"
    and new: "parse_persisted (state_canonical_bytes t) = Inr t" and gate: "sc_path conf \<notin> set (sw_active w)"
    and disk: "dk_names d (sc_temporary_name conf) = None" "unused d n" "dk_writers d = Map.empty"
    and w: "sw_answers w = answers_operate h (answers_save conf h) (length (chain_fds h) + 4)"
  shows "\<exists>w' tr d'. save conf t w = (Inr (), w') \<and> sw_trace w' = sw_trace w @ tr \<and> disk_run d tr d'"
proof -
  have loads: "serves conf h old" using serves by (simp add: serves_save_def)
  obtain ids where ids: "identified conf (- 1) (ho_chain h) ids" using loads by (auto simp: serves_def)
  obtain d' where action: "accepts (save_action conf (last (chain_fds h)) (chain_entries ids (- 1) (ho_chain h)) (state_canonical_bytes t))
      (answers_save conf h) (held_of (chain_fds h), d) ()
      (held_of (chain_fds h @ [ho_fd h, ho_temporary_fd h, ho_confirm_fd h, ho_verify_fd h]), d')"
    using accepts_save_action [OF serves ids old new disk refl] by blast
  have "store_snapshot t = Inr (t, state_canonical_bytes t)"
    using new unfolding parse_persisted_Inr by (intro store_snapshot_wf) auto
  moreover have "distinct (chain_fds h @ [ho_fd h, ho_temporary_fd h, ho_confirm_fd h, ho_verify_fd h])"
    using loads by (simp add: serves_def chain_fds_def)
  then have "\<exists>w' tr d''. operate conf (\<lambda>dir opened. save_action conf dir opened (state_canonical_bytes t)) w = (Inr (), w') \<and>
      sw_trace w' = sw_trace w @ tr \<and> disk_run d tr d''"
    by (rule operate_accepted [OF loads ids, of "\<lambda>dir opened. save_action conf dir opened (state_canonical_bytes t)", OF action])
      (use w gate in \<open>auto simp: eval_nat_numeral\<close>)
  ultimately show ?thesis by (simp add: save_def)
qed

section \<open>A sample host\<close>

definition status_of :: "int \<Rightarrow> int \<Rightarrow> int \<Rightarrow> int \<Rightarrow> int \<Rightarrow> os_answer" where
  "status_of mode inode uid gid sz = Os_Stat [PInt mode, PInt inode, PInt 1, PInt 1, PInt uid, PInt gid, PInt sz]"

definition sample_host :: "string \<Rightarrow> string \<Rightarrow> host" where
  "sample_host old new =
     \<lparr>ho_chain = [(status_of 0x41ED 2 0 0 4096, 3), (status_of 0x41ED 3 0 0 4096, 4), (status_of 0x41ED 4 0 0 4096, 5),
        (status_of 0x41ED 5 0 0 4096, 6), (status_of 0x41ED 6 0 0 4096, 7), (status_of 0x41C0 7 991 991 4096, 8)],
      ho_siblings = [status_of 0x41F8 20 991 503216 4096, status_of 0x41ED 21 991 991 4096],
      ho_state = status_of 0x8180 30 991 991 (int (length old)), ho_empty = status_of 0x8180 31 991 991 0,
      ho_filled = status_of 0x8180 31 991 991 (int (length new)), ho_fd = 9, ho_temporary_fd = 10, ho_confirm_fd = 11, ho_verify_fd = 12,
      ho_old_pieces = [old], ho_new_pieces = [new], ho_writes = [int (length new)]\<rparr>"

definition sample_configuration :: store_configuration where
  "sample_configuration =
     \<lparr>sc_path = PRODUCTION_DEV_STATE_PATH, sc_components = [''var'', ''lib'', ''omnilyzer'', ''deployment'', ''dev''],
      sc_state_name = ''state.json'', sc_temporary_name = TEMPORARY_NAME, sc_owned_start = 4, sc_owner_uid = 991, sc_group_gid = 991,
      sc_state_file_mode = 384, sc_siblings = PRODUCTION_STATE_SIBLING_DIRECTORIES\<rparr>"

lemma sample_configuration_init: "store_init (PInt 991) (PInt 991) = Inr sample_configuration"
  by (simp add: store_init_def store_configuration_integer_def STORE_MAX_IDENTITY_VALUE_def build_configuration_def
      PRODUCTION_DEV_STATE_PATH_def PRODUCTION_STATE_SIBLING_DIRECTORIES_def sample_configuration_def STORE_FILE_MODE_def
      valid_part_def valid_sibling_def TEMPORARY_NAME_def Let_def)

lemmas sample_status = status_of_def store_status_def mode_t_def S_ISDIR_def S_ISREG_def S_ISLNK_def S_IMODE_def

lemma sample_serves:
  assumes "0 < length old" "length old \<le> MAX_STATE_BYTES"
  shows "serves sample_configuration (sample_host old new) old"
proof -
  let ?h = "sample_host old new"
  have ids: "identified sample_configuration (- 1) (ho_chain ?h) [(1, 2), (1, 3), (1, 4), (1, 5), (1, 6), (1, 7)]"
    by (simp add: sample_host_def identified_Cons)
      (simp add: identified_def directory_identity_def validate_standard_directory_def validate_owned_directory_def sample_configuration_def
        sample_status STORE_DIRECTORY_MODE_def)
  have "list_all2 sibling_status (sc_siblings sample_configuration) (ho_siblings ?h)"
    by (simp add: sample_configuration_def sample_host_def PRODUCTION_STATE_SIBLING_DIRECTORIES_def sample_status)
  moreover have "validate_state_file (sc_owner_uid sample_configuration) (sc_group_gid sample_configuration) (ho_state ?h) = Inr (1, 30, int (length old))"
    using assms by (simp add: sample_configuration_def sample_host_def validate_state_file_def sample_status STORE_FILE_MODE_def)
  moreover have "in_pieces old (ho_old_pieces ?h)"
    using assms by (auto simp: in_pieces_def sample_host_def MAX_READ_CALLS_def)
  moreover have "distinct (sc_temporary_name sample_configuration # sc_state_name sample_configuration # map fst (sc_siblings sample_configuration))"
    by (simp add: sample_configuration_def PRODUCTION_STATE_SIBLING_DIRECTORIES_def TEMPORARY_NAME_def)
  ultimately show ?thesis using ids unfolding serves_def
    by (auto simp: sample_host_def sample_configuration_def)
qed

lemma sample_serves_save:
  assumes "0 < length old" "length old \<le> MAX_STATE_BYTES" "0 < length new" "length new \<le> MAX_STATE_BYTES"
  shows "serves_save sample_configuration (sample_host old new) old new"
proof -
  let ?h = "sample_host old new"
  have "validate_temporary_file (sc_owner_uid sample_configuration) (sc_group_gid sample_configuration) (ho_empty ?h) = Inr (1, 31)"
      "validate_temporary_file (sc_owner_uid sample_configuration) (sc_group_gid sample_configuration) (ho_filled ?h) = Inr (1, 31)"
      "validate_state_file (sc_owner_uid sample_configuration) (sc_group_gid sample_configuration) (ho_filled ?h) = Inr (1, 31, int (length new))"
    using assms by (simp_all add: sample_configuration_def sample_host_def validate_state_file_def validate_temporary_file_def sample_status STORE_FILE_MODE_def)
  moreover have "in_pieces new (ho_new_pieces ?h)"
    using assms by (auto simp: in_pieces_def sample_host_def MAX_READ_CALLS_def)
  moreover have "list_all (\<lambda>k. 1 \<le> k) (ho_writes ?h) \<and> sum_list (ho_writes ?h) = int (length new) \<and> length (ho_writes ?h) < MAX_WRITE_CALLS"
    using assms by (simp add: sample_host_def MAX_WRITE_CALLS_def Suc_le_eq)
  ultimately show ?thesis unfolding serves_save_def using sample_serves [OF assms(1,2)] by blast
qed

lemma sample_state_length: "length (state_canonical_bytes sample_state) \<le> MAX_STATE_BYTES"
  using length_json_dumps [of "state_to_dict sample_state"]
  by (simp add: state_canonical_bytes_def canonical_bytes_def state_to_dict_def migration_to_dict_def sample_state_def sample_migration_def
      sample_sha_def sample_digest_def MAX_STATE_BYTES_def)

lemma sample_state_persisted: "parse_persisted (state_canonical_bytes sample_state) = Inr sample_state"
  using sample_state_wf sample_state_length by (simp add: parse_persisted_Inr sample_state_def)

text \<open>The disk that holds the state, and the world before a save or a load of it.\<close>

definition sample_disk :: disk where
  "sample_disk = \<lparr>dk_names = [''state.json'' \<mapsto> 0], dk_durable = [''state.json'' \<mapsto> 0],
     dk_files = (\<lambda>_. (state_canonical_bytes sample_state, True)), dk_writers = Map.empty\<rparr>"

definition sample_answers :: host where
  "sample_answers = sample_host (state_canonical_bytes sample_state) (state_canonical_bytes sample_state)"

definition sample_store_world :: "os_answer list \<Rightarrow> nat \<Rightarrow> store_world" where
  "sample_store_world as n =
     \<lparr>sw_answers = answers_operate sample_answers as n, sw_trace = [], sw_owned = [], sw_active = [], sw_handling = None\<rparr>"

lemma sample_store_world_simps [simp]:
  "sw_answers (sample_store_world as n) = answers_operate sample_answers as n" "sw_active (sample_store_world as n) = []"
  "sw_trace (sample_store_world as n) = []" "length (chain_fds sample_answers) = 6"
  by (simp_all add: sample_store_world_def chain_fds_def sample_answers_def sample_host_def)

lemma sample_untouched: "untouched (sc_state_name sample_configuration) (state_canonical_bytes sample_state) sample_disk"
  by (simp add: untouched_def stored_def sample_disk_def sample_configuration_def)

lemma sample_disk_free:
  "dk_names sample_disk (sc_temporary_name sample_configuration) = None" "unused sample_disk 1" "dk_writers sample_disk = Map.empty"
  by (simp_all add: sample_disk_def sample_configuration_def TEMPORARY_NAME_def unused_def)

lemma sample_answers_serve: "serves_save sample_configuration sample_answers (state_canonical_bytes sample_state) (state_canonical_bytes sample_state)"
  unfolding sample_answers_def by (rule sample_serves_save) (use canonical_length_pos sample_state_length in blast)+

lemma sample_save_returns:
  obtains w' tr d' where "save sample_configuration sample_state (sample_store_world (answers_save sample_configuration sample_answers) 10) = (Inr (), w')"
    "sw_trace w' = tr" "disk_run sample_disk tr d'"
  using save_accepted [OF sample_answers_serve sample_state_persisted sample_state_persisted _ sample_disk_free,
      of "sample_store_world (answers_save sample_configuration sample_answers) 10"]
  by auto

lemma sample_load_returns:
  obtains w' where "load sample_configuration (sample_store_world (answers_load sample_configuration sample_answers) 7) = (Inr sample_state, w')"
proof -
  have "serves sample_configuration sample_answers (state_canonical_bytes sample_state)" using sample_answers_serve by (simp add: serves_save_def)
  from load_accepted [OF this sample_state_persisted, of "sample_store_world (answers_load sample_configuration sample_answers) 7"] that show thesis
    by auto
qed

lemma operate_fails: "fst (operate conf action w) = Inl e \<Longrightarrow> store_error e"
  using operate_errors by (metis prod.collapse)

lemma store_init_names: "store_init u g = Inr conf \<Longrightarrow> sc_temporary_name conf \<noteq> sc_state_name conf"
  by (auto simp: store_init_def build_configuration_def Let_def TEMPORARY_NAME_def PRODUCTION_DEV_STATE_PATH_def split: if_splits)

section \<open>Properties\<close>

text \<open>
  C8: A crash never tears the state file.  Whatever the calls of a save answer, and at whatever point of them the machine
  stops, the name of the state file is, in memory and on stable storage, a file whose bytes are all on stable storage and are
  either the old ones or the canonical bytes of the new state.
\<close>

theorem save_crash_safe:
  assumes "store_init uid gid = Inr conf" and "save conf s w = (r, w')" and "sw_trace w' = sw_trace w @ tr"
    and "untouched (sc_state_name conf) old d0" and "disk_run d0 (take k tr) d"
  shows "whole (sc_state_name conf) old (state_canonical_bytes s) d"
  using save_disks [OF assms(2) store_init_names [OF assms(1)] assms(4)] assms(3,5) by (auto simp: on_disks_def)

theorem save_crash_safe_witness:
  "\<exists>w' tr d. save sample_configuration sample_state (sample_store_world (answers_save sample_configuration sample_answers) 10) = (Inr (), w') \<and>
     disk_run sample_disk (take (length tr) tr) d \<and>
     whole (sc_state_name sample_configuration) (state_canonical_bytes sample_state) (state_canonical_bytes sample_state) d"
proof -
  obtain w' tr d where run: "save sample_configuration sample_state (sample_store_world (answers_save sample_configuration sample_answers) 10) = (Inr (), w')"
    "sw_trace w' = tr" "disk_run sample_disk tr d" by (rule sample_save_returns)
  moreover have "sw_trace w' = sw_trace (sample_store_world (answers_save sample_configuration sample_answers) 10) @ tr"
    using run(2) by simp
  moreover have "disk_run sample_disk (take (length tr) tr) d" using run(3) by simp
  ultimately show ?thesis using save_crash_safe [OF sample_configuration_init _ _ sample_untouched] by blast
qed

text \<open>
  C9: A save that returns is durable: name and bytes are on stable storage, and the bytes are the canonical bytes of the
  state, which is a well-formed development state.
\<close>

theorem save_durable:
  assumes "store_init uid gid = Inr conf" and "save conf s w = (Inr (), w')" and "sw_trace w' = sw_trace w @ tr"
    and "untouched (sc_state_name conf) old d0" and "disk_run d0 tr d"
  shows "stored (sc_state_name conf) (state_canonical_bytes s) d \<and>
    (\<exists>t. wf_state t \<and> stage t = ''dev'' \<and> state_canonical_bytes t = state_canonical_bytes s)"
proof -
  obtain t b where "store_snapshot s = Inr (t, b)" using assms(2) by (auto simp: save_def split: sum.splits)
  note snap = store_snapshot_Inr [OF this]
  from save_disks [OF assms(2) store_init_names [OF assms(1)] assms(4)] assms(3,5) snap show ?thesis
    by (auto simp: on_disks_def)
qed

theorem save_durable_witness:
  "\<exists>w' tr d. save sample_configuration sample_state (sample_store_world (answers_save sample_configuration sample_answers) 10) = (Inr (), w') \<and>
     disk_run sample_disk tr d \<and> stored (sc_state_name sample_configuration) (state_canonical_bytes sample_state) d"
proof -
  obtain w' tr d where run: "save sample_configuration sample_state (sample_store_world (answers_save sample_configuration sample_answers) 10) = (Inr (), w')"
    "sw_trace w' = tr" "disk_run sample_disk tr d" by (rule sample_save_returns)
  moreover have "sw_trace w' = sw_trace (sample_store_world (answers_save sample_configuration sample_answers) 10) @ tr"
    using run(2) by simp
  ultimately show ?thesis using save_durable [OF sample_configuration_init _ _ sample_untouched] by blast
qed

text \<open>
  C27: A load returns only what it read: the bytes read, in at most 64 calls and at most 16 KiB, are the canonical bytes of the
  well-formed development state it returns, and it made no call that changes a file.
\<close>

theorem load_returns_persisted:
  assumes "load conf w = (Inr s, w')"
  shows "wf_state s \<and> stage s = ''dev'' \<and>
    (\<exists>tr. sw_trace w' = sw_trace w @ tr \<and> read_bytes tr = state_canonical_bytes s \<and> length (read_bytes tr) \<le> MAX_STATE_BYTES \<and>
       read_calls tr \<le> MAX_READ_CALLS \<and> list_all (\<lambda>(c, a). \<not> mutates c) tr)"
proof -
  obtain raw where "parse_persisted raw = Inr s" "read_trace raw MAX_READ_CALLS w w'" using load_observed [OF assms] by blast
  then show ?thesis unfolding parse_persisted_Inr by (auto simp: read_trace_def observed_def)
qed

theorem load_returns_persisted_witness:
  "\<exists>w'. load sample_configuration (sample_store_world (answers_load sample_configuration sample_answers) 7) = (Inr sample_state, w') \<and>
     wf_state sample_state \<and> read_bytes (sw_trace w') = state_canonical_bytes sample_state"
proof -
  obtain w' where "load sample_configuration (sample_store_world (answers_load sample_configuration sample_answers) 7) = (Inr sample_state, w')"
    by (rule sample_load_returns)
  with load_returns_persisted [OF this] show ?thesis by auto
qed

text \<open>
  C28: Loads and saves give back what they took, whatever happens in between: every descriptor that a call opened is
  closed exactly once, the lock is released on the descriptor on which it was taken, and the gate is as before.
\<close>

theorem store_releases:
  assumes "snd (load conf w) = w' \<or> snd (save conf s w) = w'"
  shows "(\<exists>tr. sw_trace w' = sw_trace w @ tr \<and> distinct (closed_fds tr) \<and> set (closed_fds tr) = set (opened_fds tr) \<and>
      unlocked_fds tr = locked_fds tr \<and> length (locked_fds tr) \<le> 1) \<and> sw_active w' = sw_active w"
proof -
  have "snd (operate conf action w) = w' \<Longrightarrow> (\<And>dir opened. moves keeps_held (action dir opened)) \<Longrightarrow> ?thesis"
    for action :: "int \<Rightarrow> chain \<Rightarrow> (store_world, 'b) act"
    using operate_releases [of conf action w] by (cases "operate conf action w") auto
  note ops = this [of "load_action conf"] this [of "\<lambda>dir opened. save_action conf dir opened b" for b]
  show ?thesis
  proof (cases "store_snapshot s")
    case (Inl e)
    then show ?thesis using assms ops(1) held.load_action_moves by (auto simp: load_def save_def fds_defs)
  next
    case (Inr p)
    then show ?thesis using assms ops held.load_action_moves held.save_action_moves by (auto simp: load_def save_def split: prod.splits)
  qed
qed

theorem store_releases_witness:
  "\<exists>w' tr. snd (save sample_configuration sample_state (sample_store_world (answers_save sample_configuration sample_answers) 10)) = w' \<and>
     sw_trace w' = tr \<and> set (closed_fds tr) = set (opened_fds tr) \<and> sw_active w' = []"
  using store_releases [of sample_configuration "sample_store_world (answers_save sample_configuration sample_answers) 10" _ sample_state, OF disjI2, OF refl]
  by auto

text \<open>
  C26: On a host in order a save returns: with fresh descriptors, reviewed metadata, an old state that is canonical and answers
  that read and write the bytes in any number of pieces within the bounds, the save of a well-formed development state
  succeeds, and its calls leave the new bytes stored.
\<close>

theorem save_returns:
  assumes "store_init uid gid = Inr conf" and "serves_save conf h old (state_canonical_bytes t)" and "parse_persisted old = Inr s"
    and "wf_state t" and "stage t = ''dev''" and "length (state_canonical_bytes t) \<le> MAX_STATE_BYTES"
    and "sc_path conf \<notin> set (sw_active w)" and "untouched (sc_state_name conf) old d"
    and "dk_names d (sc_temporary_name conf) = None" and "unused d n"
    and "sw_answers w = answers_operate h (answers_save conf h) (length (chain_fds h) + 4)"
  shows "\<exists>w' tr d'. save conf t w = (Inr (), w') \<and> sw_trace w' = sw_trace w @ tr \<and> disk_run d tr d' \<and>
    stored (sc_state_name conf) (state_canonical_bytes t) d'"
proof -
  have "parse_persisted (state_canonical_bytes t) = Inr t" using assms(4-6) by (simp add: parse_persisted_Inr)
  moreover have "dk_writers d = Map.empty" using assms(8) by (simp add: untouched_def)
  ultimately obtain w' tr d' where run: "save conf t w = (Inr (), w')" "sw_trace w' = sw_trace w @ tr" "disk_run d tr d'"
    using save_accepted [OF assms(2,3) _ assms(7,9,10) _ assms(11)] by blast
  from save_disks [OF run(1) store_init_names [OF assms(1)] assms(8)] run show ?thesis by (auto simp: on_disks_def)
qed

theorem save_returns_witness:
  "\<exists>w' tr d'. save sample_configuration sample_state (sample_store_world (answers_save sample_configuration sample_answers) 10) = (Inr (), w') \<and>
     sw_trace w' = tr \<and> disk_run sample_disk tr d' \<and> stored (sc_state_name sample_configuration) (state_canonical_bytes sample_state) d'"
proof -
  have "stage sample_state = ''dev''" by (simp add: sample_state_def)
  from save_returns [OF sample_configuration_init sample_answers_serve sample_state_persisted sample_state_wf this sample_state_length
      _ sample_untouched sample_disk_free(1,2), of "sample_store_world (answers_save sample_configuration sample_answers) 10"]
  show ?thesis by simp
qed

text \<open>
  Loads and saves fail closed: what they raise is \<open>StateStoreUnavailableError\<close>, or a control exception (\<open>KeyboardInterrupt\<close>,
  \<open>SystemExit\<close>, \<open>GeneratorExit\<close>), and nothing else, whatever the calls raise.
\<close>

theorem store_raises_only:
  assumes "fst (load conf w) = Inl e \<or> fst (save conf s w) = Inl e"
  shows "e = StateStoreUnavailableError \<or> e \<in> {KeyboardInterrupt, SystemExit, GeneratorExit}"
proof -
  have "store_error e"
    using assms by (auto simp: load_def save_def intro: operate_fails split: sum.splits) (simp_all add: store_error_def)
  then show ?thesis by (auto simp: store_error_def is_Exception_def)
qed

theorem store_raises_only_witness:
  "\<exists>e. fst (load sample_configuration (sample_store_world [] 7\<lparr>sw_active := [sc_path sample_configuration]\<rparr>)) = Inl e \<and>
     (e = StateStoreUnavailableError \<or> e \<in> {KeyboardInterrupt, SystemExit, GeneratorExit})"
proof -
  have "fst (load sample_configuration (sample_store_world [] 7\<lparr>sw_active := [sc_path sample_configuration]\<rparr>)) = Inl StateStoreUnavailableError"
    by (simp add: load_def operate_def enter_operation_def operate_result_def note_first_def no_error_def is_Exception_def)
  with store_raises_only [OF disjI1, OF this] show ?thesis by blast
qed

text \<open>
  What is persisted and what is saved agree: bytes are accepted as a state exactly when that state is a snapshot whose
  bytes they are.  Duplicate keys, other orders, spaces or constants never parse.
\<close>

theorem persisted_is_snapshot: "parse_persisted raw = Inr s \<longleftrightarrow> store_snapshot s = Inr (s, raw)"
proof
  assume "parse_persisted raw = Inr s"
  then show "store_snapshot s = Inr (s, raw)" unfolding parse_persisted_Inr using store_snapshot_wf by blast
next
  assume "store_snapshot s = Inr (s, raw)"
  from store_snapshot_Inr [OF this] show "parse_persisted raw = Inr s" unfolding parse_persisted_Inr by blast
qed

end
