(* ===== verification/Py_Base64.thy ===== *)
theory Py_Base64
  imports Py_Text
begin

text \<open>
  Python's \<open>base64\<close> module as the token checks use it: \<open>b64decode\<close>, \<open>urlsafe_b64decode\<close> and
  \<open>urlsafe_b64encode\<close>.  The decoder is the loop of \<open>binascii.a2b_base64\<close> with its four local variables; in
  its lax mode it skips characters outside the alphabet.  The main fact is that the decoder undoes the encoder.
\<close>

section \<open>The alphabet\<close>

definition PAD :: char where "PAD = CHR ''=''"

definition sextet :: "char \<Rightarrow> nat option" where
  "sextet c =
     (if rng (CHR ''A'') (CHR ''Z'') c then Some (of_char c - 65)
      else if rng (CHR ''a'') (CHR ''z'') c then Some (of_char c - 71)
      else if is_digit c then Some (of_char c + 4)
      else if c = CHR ''+'' then Some 62 else if c = CHR ''/'' then Some 63 else None)"

definition sextet_char :: "nat \<Rightarrow> char" where
  "sextet_char n =
     (if n < 26 then char_of (65 + n) else if n < 52 then char_of (71 + n) else if n < 62 then char_of (n - 4)
      else if n = 62 then CHR ''+'' else CHR ''/'')"

text \<open>\<open>bytes.translate\<close> with the tables of the URL-safe alphabet.\<close>

definition to_plain :: "char \<Rightarrow> char" where
  "to_plain c = (if c = CHR ''-'' then CHR ''+'' else if c = CHR ''_'' then CHR ''/'' else c)"

definition to_urlsafe :: "char \<Rightarrow> char" where
  "to_urlsafe c = (if c = CHR ''+'' then CHR ''-'' else if c = CHR ''/'' then CHR ''_'' else c)"

section \<open>Decoding and encoding\<close>

text \<open>
  \<open>binascii.a2b_base64\<close>: the position in the group of four, the bits left over, the padding characters seen since the
  last digit, and whether padding has begun.  \<open>binascii.Error\<close> is a \<open>ValueError\<close>.
\<close>

fun a2b_loop :: "bool \<Rightarrow> nat \<Rightarrow> nat \<Rightarrow> nat \<Rightarrow> bool \<Rightarrow> string \<Rightarrow> string result" where
  "a2b_loop strict quad left pads started [] = (if quad = 0 then Inr [] else Inl ValueError)"
| "a2b_loop strict quad left pads started (c # cs) =
     (if c = PAD then
        (if 2 \<le> quad \<and> 4 \<le> quad + Suc pads then (if strict \<and> cs \<noteq> [] then Inl ValueError else Inr [])
         else a2b_loop strict quad left (if 2 \<le> quad then Suc pads else pads) True cs)
      else case sextet c of
        None \<Rightarrow> if strict then Inl ValueError else a2b_loop strict quad left pads started cs
      | Some v \<Rightarrow>
          if strict \<and> started then Inl ValueError
          else if quad = 0 then a2b_loop strict 1 v 0 started cs
          else if quad = 1 then
            bnd (a2b_loop strict 2 (v mod 16) 0 started cs) (\<lambda>r. Inr (char_of (left * 4 + v div 16) # r))
          else if quad = 2 then
            bnd (a2b_loop strict 3 (v mod 4) 0 started cs) (\<lambda>r. Inr (char_of (left * 16 + v div 4) # r))
          else bnd (a2b_loop strict 0 0 0 started cs) (\<lambda>r. Inr (char_of (left * 64 + v) # r)))"

definition a2b_base64 :: "bool \<Rightarrow> string \<Rightarrow> string result" where
  "a2b_base64 strict s =
     (if strict \<and> s \<noteq> [] \<and> hd s = PAD then Inl ValueError else a2b_loop strict 0 0 0 False s)"

text \<open>A \<open>str\<close> argument is encoded as ASCII first.\<close>

definition b64decode :: "bool \<Rightarrow> string \<Rightarrow> string result" where
  "b64decode strict s = (if list_all ascii s then a2b_base64 strict s else Inl ValueError)"

definition urlsafe_b64decode :: "string \<Rightarrow> string result" where
  "urlsafe_b64decode s = (if list_all ascii s then a2b_base64 False (map to_plain s) else Inl ValueError)"

fun b64encode :: "string \<Rightarrow> string" where
  "b64encode [] = []"
| "b64encode [a] =
     (let x = of_char a :: nat in [sextet_char (x div 4), sextet_char (x mod 4 * 16), PAD, PAD])"
| "b64encode [a, b] =
     (let x = of_char a :: nat; y = of_char b in
      [sextet_char (x div 4), sextet_char (x mod 4 * 16 + y div 16), sextet_char (y mod 16 * 4), PAD])"
| "b64encode (a # b # c # r) =
     (let x = of_char a :: nat; y = of_char b; z = of_char c in
      sextet_char (x div 4) # sextet_char (x mod 4 * 16 + y div 16) #
      sextet_char (y mod 16 * 4 + z div 64) # sextet_char (z mod 64) # b64encode r)"

definition urlsafe_b64encode :: "string \<Rightarrow> string" where
  "urlsafe_b64encode d = map to_urlsafe (b64encode d)"

text \<open>\<open>s.rstrip(b"=")\<close> and \<open>s + "=" * (-len(s) % 4)\<close>\<close>

definition rstrip_pad :: "string \<Rightarrow> string" where
  "rstrip_pad s = rev (dropWhile (\<lambda>c. c = PAD) (rev s))"

definition padded :: "string \<Rightarrow> string" where
  "padded s = s @ replicate (nat (- int (length s) mod 4)) PAD"

section \<open>The decoder undoes the encoder\<close>

lemma sextet_sextet_char [simp]:
  assumes "n < 64"
  shows "sextet (sextet_char n) = Some n"
proof -
  consider "n < 26" | "26 \<le> n" "n < 52" | "52 \<le> n" "n < 62" | "n = 62" | "n = 63" using assms by linarith
  then show ?thesis
    by cases (auto simp: sextet_def sextet_char_def rng_def is_digit_def)
qed

lemma sextet_char_not_pad [simp]:
  assumes "n < 64"
  shows "sextet_char n \<noteq> PAD"
proof
  assume "sextet_char n = PAD"
  with sextet_sextet_char [OF assms] have "sextet PAD = Some n" by simp
  then show False by (simp add: sextet_def PAD_def rng_def is_digit_def)
qed

lemma to_plain_to_urlsafe:
  assumes "c = PAD \<or> sextet c \<noteq> None"
  shows "to_plain (to_urlsafe c) = c"
  using assms by (auto simp: to_plain_def to_urlsafe_def PAD_def sextet_def rng_def is_digit_def)

lemma char_of_parts:
  "char_of (of_char c div 4 * 4 + (of_char c mod 4 * 16 + y) div 16) = c" if "y < 16" for y :: nat
proof -
  have "(of_char c mod 4 * 16 + y) div 16 = (of_char c mod 4 :: nat)" using that by simp
  moreover have "(of_char c :: nat) div 4 * 4 + of_char c mod 4 = of_char c" by simp
  ultimately show ?thesis by (simp only: char_of_char)
qed

lemma char_of_halves:
  "char_of (of_char c div 16 * 16 + (of_char c mod 16 * 4 + y) div 4) = c" if "y < 4" for y :: nat
proof -
  have "(of_char c mod 16 * 4 + y) div 4 = (of_char c mod 16 :: nat)" using that by simp
  moreover have "(of_char c :: nat) div 16 * 16 + of_char c mod 16 = of_char c" by simp
  ultimately show ?thesis by (simp only: char_of_char)
qed

lemma char_of_rest: "char_of (of_char c div 64 * 64 + of_char c mod 64 :: nat) = c"
  by simp

lemma of_char_bits:
  "(of_char c :: nat) div 4 < 64" "(of_char c :: nat) div 16 < 16" "(of_char c :: nat) div 64 < 4"
  using of_char_of [of "of_char c :: nat"] by (simp_all add: less_mult_imp_div_less)

lemma sextet_bounds:
  fixes x y :: nat
  shows "y < 16 \<Longrightarrow> x mod 4 * 16 + y < 64" "y < 4 \<Longrightarrow> x mod 16 * 4 + y < 64"
  using mod_less_divisor [of 4 x] mod_less_divisor [of 16 x] by linarith+

lemma a2b_encode: "a2b_loop strict 0 left pads False (b64encode d) = Inr d"
proof (induction d arbitrary: left pads rule: b64encode.induct)
  case 1
  show ?case by simp
next
  case (2 a)
  have "of_char a mod 4 * 16 < (64 :: nat)" using sextet_bounds(1) [of 0 "of_char a"] by simp
  then show ?case using char_of_parts [of 0 a] by (simp add: Let_def of_char_bits)
next
  case (3 a b)
  have "of_char a mod 4 * 16 + of_char b div 16 < (64 :: nat)" "of_char b mod 16 * 4 < (64 :: nat)"
    using sextet_bounds(1) [OF of_char_bits(2)] sextet_bounds(2) [of 0 "of_char b"] by simp_all
  then show ?case using char_of_parts [OF of_char_bits(2), of a b] char_of_halves [of 0 b]
    by (simp add: Let_def of_char_bits)
next
  case (4 a b c r)
  have "of_char a mod 4 * 16 + of_char b div 16 < (64 :: nat)" "of_char b mod 16 * 4 + of_char c div 64 < (64 :: nat)"
    using sextet_bounds(1) [OF of_char_bits(2)] sextet_bounds(2) [OF of_char_bits(3)] by simp_all
  then show ?case
    using char_of_parts [OF of_char_bits(2), of a b] char_of_halves [OF of_char_bits(3), of b c] char_of_rest [of c] 4
    by (simp add: Let_def of_char_bits)
qed

text \<open>The digits and the padding of an encoding.\<close>

lemma b64encode_parts:
  "\<exists>u k. b64encode d = u @ replicate k PAD \<and> k < 3 \<and> (length u + k) mod 4 = 0 \<and> (u = [] \<longleftrightarrow> d = []) \<and>
     list_all (\<lambda>c. sextet c \<noteq> None) u"
proof (induction d rule: b64encode.induct)
  case (2 a)
  have "of_char a mod 4 * 16 < (64 :: nat)" using sextet_bounds(1) [of 0 "of_char a"] by simp
  then show ?case
    by (intro exI [of _ "[sextet_char (of_char a div 4), sextet_char (of_char a mod 4 * 16)]"] exI [of _ "Suc (Suc 0)"])
      (simp add: Let_def of_char_bits)
next
  case (3 a b)
  have "of_char a mod 4 * 16 + of_char b div 16 < (64 :: nat)" "of_char b mod 16 * 4 < (64 :: nat)"
    using sextet_bounds(1) [OF of_char_bits(2)] sextet_bounds(2) [of 0 "of_char b"] by simp_all
  then show ?case
    by (intro exI [of _ "[sextet_char (of_char a div 4), sextet_char (of_char a mod 4 * 16 + of_char b div 16),
        sextet_char (of_char b mod 16 * 4)]"] exI [of _ "Suc 0"]) (simp add: Let_def of_char_bits)
next
  case (4 a b c r)
  have "of_char a mod 4 * 16 + of_char b div 16 < (64 :: nat)" "of_char b mod 16 * 4 + of_char c div 64 < (64 :: nat)"
    using sextet_bounds(1) [OF of_char_bits(2)] sextet_bounds(2) [OF of_char_bits(3)] by simp_all
  moreover obtain u k where "b64encode r = u @ replicate k PAD" "k < 3" "(length u + k) mod 4 = 0"
      "list_all (\<lambda>c. sextet c \<noteq> None) u"
    using 4 [OF refl refl refl] by (elim exE conjE) (rule that)
  moreover define v where "v = take 4 (b64encode (a # b # c # r))"
  ultimately have "b64encode (a # b # c # r) = (v @ u) @ replicate k PAD" "length v = 4" "list_all (\<lambda>c. sextet c \<noteq> None) v"
    by (simp_all add: Let_def of_char_bits)
  moreover from this(2) have "(length (v @ u) + k) mod 4 = 0" "v @ u \<noteq> []"
    using \<open>(length u + k) mod 4 = 0\<close> by (simp_all add: add.assoc) auto
  ultimately show ?case
    using \<open>k < 3\<close> \<open>list_all (\<lambda>c. sextet c \<noteq> None) u\<close>
    by (intro exI [of _ "v @ u"] exI [of _ k]) (simp only: list_all_append list.simps simp_thms)
qed simp

lemma sextet_pad [simp]: "sextet PAD = None"
  by (simp add: sextet_def PAD_def rng_def is_digit_def)

lemma dropWhile_replicate: "dropWhile (\<lambda>c. c = x) (replicate k x @ xs) = dropWhile (\<lambda>c. c = x) xs"
  by (induction k) simp_all

lemma dropWhile_other: "x \<notin> set xs \<Longrightarrow> dropWhile (\<lambda>c. c = x) xs = xs"
  by (cases xs) auto

lemma rstrip_pad_append:
  assumes "PAD \<notin> set u"
  shows "rstrip_pad (u @ replicate k PAD) = u"
proof -
  have "dropWhile (\<lambda>c. c = PAD) (rev u) = rev u" using assms by (intro dropWhile_other) simp
  then show ?thesis by (simp add: rstrip_pad_def dropWhile_replicate)
qed

lemma padded_append:
  assumes "k < 3" "(length u + k) mod 4 = 0"
  shows "padded u = u @ replicate k PAD"
proof -
  obtain q where "length u + k = 4 * q" using assms(2) by auto
  then have "- int (length u) = int k + 4 * (- int q)" by simp
  then have "- int (length u) mod 4 = int k mod 4" by (simp only: mod_mult_self2)
  then have "nat (- int (length u) mod 4) = k" using assms(1) by simp
  then show ?thesis by (simp add: padded_def)
qed

text \<open>The characters of unpadded URL-safe text.\<close>

definition is_b64url :: "char \<Rightarrow> bool" where
  "is_b64url c \<longleftrightarrow> is_alnum c \<or> c = CHR ''_'' \<or> c = CHR ''-''"

definition b64url :: "string \<Rightarrow> string" where
  "b64url d = rstrip_pad (urlsafe_b64encode d)"

lemma to_urlsafe_facts:
  assumes "sextet c \<noteq> None"
  shows "is_b64url (to_urlsafe c)" "to_urlsafe c \<noteq> PAD"
  using assms by (auto simp: to_urlsafe_def sextet_def is_b64url_def is_alnum_def PAD_def rng_def is_digit_def split: if_splits)

lemma b64url_parts:
  obtains u k where "b64url d = map to_urlsafe u" "b64encode d = u @ replicate k PAD" "k < 3" "(length u + k) mod 4 = 0"
    "u = [] \<longleftrightarrow> d = []" "list_all (\<lambda>c. sextet c \<noteq> None) u"
proof -
  obtain u k where *: "b64encode d = u @ replicate k PAD" "k < 3" "(length u + k) mod 4 = 0" "u = [] \<longleftrightarrow> d = []"
      "list_all (\<lambda>c. sextet c \<noteq> None) u"
    using b64encode_parts [of d] by (elim exE conjE) (rule that)
  have "to_urlsafe PAD = PAD" by (simp add: to_urlsafe_def PAD_def)
  then have "urlsafe_b64encode d = map to_urlsafe u @ replicate k PAD"
    unfolding urlsafe_b64encode_def *(1) by simp
  moreover have "to_urlsafe c \<noteq> PAD" if "c \<in> set u" for c
    using *(5) that by (intro to_urlsafe_facts(2)) (simp add: list_all_iff)
  then have "PAD \<notin> set (map to_urlsafe u)" by force
  ultimately have "b64url d = map to_urlsafe u"
    by (simp only: b64url_def rstrip_pad_append [of "map to_urlsafe u"] not_False_eq_True)
  then show ?thesis using * by (rule that)
qed

lemma b64url_shape:
  "list_all is_b64url (b64url d)" "b64url d = [] \<longleftrightarrow> d = []" "length (b64url d) mod 4 \<noteq> 1"
proof -
  obtain u k where *: "b64url d = map to_urlsafe u" "b64encode d = u @ replicate k PAD" "k < 3" "(length u + k) mod 4 = 0"
    "u = [] \<longleftrightarrow> d = []" "list_all (\<lambda>c. sextet c \<noteq> None) u"
    by (rule b64url_parts)
  then show "list_all is_b64url (b64url d)" "b64url d = [] \<longleftrightarrow> d = []"
    using to_urlsafe_facts(1) by (auto simp: list_all_iff)
  have "length u mod 4 = 1 \<Longrightarrow> (length u + k) mod 4 = (1 + k) mod 4" by (metis mod_add_left_eq)
  then show "length (b64url d) mod 4 \<noteq> 1" using *(1,3,4) by auto
qed

lemma is_b64url_facts: "is_b64url c \<Longrightarrow> ascii c \<and> c \<noteq> PAD"
  by (auto simp: is_b64url_def is_alnum_def rng_def is_digit_def ascii_def PAD_def)

text \<open>What was encoded without its padding is decoded with the padding put back.\<close>

theorem urlsafe_b64decode_b64url: "urlsafe_b64decode (padded (b64url d)) = Inr d"
proof -
  obtain u k where *: "b64url d = map to_urlsafe u" "b64encode d = u @ replicate k PAD" "k < 3" "(length u + k) mod 4 = 0"
    "list_all (\<lambda>c. sextet c \<noteq> None) u"
    by (rule b64url_parts)
  then have p: "padded (b64url d) = map to_urlsafe u @ replicate k PAD" by (simp add: padded_append)
  have "to_plain PAD = PAD" by (simp add: to_plain_def PAD_def)
  moreover have "map to_plain (map to_urlsafe u) = u"
    using *(5) to_plain_to_urlsafe unfolding map_map comp_def list_all_iff by (intro map_idI) blast
  ultimately have "map to_plain (padded (b64url d)) = b64encode d"
    unfolding p *(2) map_append map_replicate by simp
  moreover have "ascii PAD" by (simp add: ascii_def PAD_def)
  then have "list_all ascii (padded (b64url d))"
    using b64url_shape(1) [of d] is_b64url_facts unfolding padded_def list_all_append by (auto simp: list_all_iff)
  ultimately show ?thesis by (simp add: urlsafe_b64decode_def a2b_base64_def a2b_encode)
qed

lemma b64url_inject [simp]: "b64url a = b64url b \<longleftrightarrow> a = b"
  by (metis Inr_inject urlsafe_b64decode_b64url)

end
