(* ===== verification/Jwks.thy ===== *)
theory Jwks
  imports Broker Net Py_Base64
begin

text \<open>
  \<open>src/deployment/jwks.py\<close>: bounded JSON, strict base64url, the two documents of the token issuer, their retrieval over
  HTTPS and the cache of signing keys.  The connection and its response are collaborators, records of actions on a
  world of any type; \<open>rsa.RSAPublicNumbers(e, n).public_key()\<close> of the \<open>cryptography\<close> package is the argument
  \<open>public_key\<close>.  The clocks return floats, as their types say.
\<close>

section \<open>Bounded JSON\<close>

definition OIDC_ISSUER :: string where "OIDC_ISSUER = ''https://token.actions.githubusercontent.com''"
definition DISCOVERY_PATH :: string where "DISCOVERY_PATH = ''/.well-known/openid-configuration''"
definition JWKS_PATH :: string where "JWKS_PATH = ''/.well-known/jwks''"
definition JWKS_URL :: string where "JWKS_URL = OIDC_ISSUER @ JWKS_PATH"
definition OIDC_HOST :: string where "OIDC_HOST = ''token.actions.githubusercontent.com''"
definition OIDC_PORT :: int where "OIDC_PORT = 443"
definition SYSTEM_CA_BUNDLE :: string where "SYSTEM_CA_BUNDLE = ''/etc/ssl/certs/ca-certificates.crt''"

definition CONNECT_TIMEOUT_SECONDS :: rat where "CONNECT_TIMEOUT_SECONDS = 3"
definition READ_TIMEOUT_SECONDS :: rat where "READ_TIMEOUT_SECONDS = 3"
definition DISCOVERY_BODY_LIMIT :: nat where "DISCOVERY_BODY_LIMIT = 16 * 1024"
definition JWKS_BODY_LIMIT :: nat where "JWKS_BODY_LIMIT = 64 * 1024"
definition MAX_RESPONSE_HEADERS :: nat where "MAX_RESPONSE_HEADERS = 64"
definition MAX_RESPONSE_HEADER_BYTES :: nat where "MAX_RESPONSE_HEADER_BYTES = 16 * 1024"
definition MAX_CACHE_TTL_SECONDS :: int where "MAX_CACHE_TTL_SECONDS = 300"
definition MAX_JWKS_KEYS :: nat where "MAX_JWKS_KEYS = 16"
definition MAX_CERTIFICATES :: nat where "MAX_CERTIFICATES = 4"
definition MAX_CERTIFICATE_TEXT :: nat where "MAX_CERTIFICATE_TEXT = 16 * 1024"
definition MAX_KID_LENGTH :: nat where "MAX_KID_LENGTH = 128"
definition MAX_EXPONENT :: nat where "MAX_EXPONENT = 2 ^ 32 - 1"

definition SAFE_KID_RE :: rexp where
  "SAFE_KID_RE = Cat ALNUM (Upto 127 (Cls (\<lambda>c. is_alnum c \<or> c \<in> set ''._-'')))"

definition BASE64URL_RE :: rexp where
  "BASE64URL_RE = Cat (Cls is_b64url) (Star (Cls is_b64url))"

definition BASE64_RE :: rexp where
  "BASE64_RE = (let digit = Cls (\<lambda>c. is_alnum c \<or> c \<in> set ''+/'') in Cat digit (Cat (Star digit) (Upto 2 (Lit ''=''))))"

definition closed_hooks :: json_hooks where
  "closed_hooks = \<lparr>pairs_hook = unique_pairs ValueError, constant_hook = (\<lambda>_. Inl ValueError)\<rparr>"

record json_limits =
  jl_depth :: nat
  jl_nodes :: nat
  jl_array :: nat
  jl_string :: nat

definition DEFAULT_LIMITS :: json_limits where
  "DEFAULT_LIMITS = \<lparr>jl_depth = 4, jl_nodes = 1024, jl_array = 64, jl_string = 16 * 1024\<rparr>"

text \<open>The walk returns the counter, which the code keeps in a list of one element.\<close>

fun walk_json :: "json_limits \<Rightarrow> nat \<Rightarrow> nat \<Rightarrow> pyval \<Rightarrow> nat result"
  and walk_items :: "json_limits \<Rightarrow> nat \<Rightarrow> nat \<Rightarrow> pyval list \<Rightarrow> nat result"
  and walk_members :: "json_limits \<Rightarrow> nat \<Rightarrow> nat \<Rightarrow> (string \<times> pyval) list \<Rightarrow> nat result" where
  "walk_json lm depth counter v =
     (if jl_nodes lm < Suc counter \<or> jl_depth lm < depth then Inl ValueError
      else case v of
        PStr s \<Rightarrow> if jl_string lm < length s then Inl ValueError else Inr (Suc counter)
      | PNone \<Rightarrow> Inr (Suc counter)
      | PBool _ \<Rightarrow> Inr (Suc counter)
      | PInt _ \<Rightarrow> Inr (Suc counter)
      | PFloat f \<Rightarrow> (case f of Finite _ \<Rightarrow> Inr (Suc counter) | _ \<Rightarrow> Inl ValueError)
      | PList xs \<Rightarrow> if jl_array lm < length xs then Inl ValueError else walk_items lm depth (Suc counter) xs
      | PDict d \<Rightarrow> walk_members lm depth (Suc counter) d)"
| "walk_items lm depth counter [] = Inr counter"
| "walk_items lm depth counter (x # xs) =
     bnd (walk_json lm (Suc depth) counter x) (\<lambda>n. walk_items lm depth n xs)"
| "walk_members lm depth counter [] = Inr counter"
| "walk_members lm depth counter ((name, x) # d) =
     (if jl_string lm < length name then Inl ValueError
      else bnd (walk_json lm (Suc depth) counter x) (\<lambda>n. walk_members lm depth n d))"

declare walk_json.simps [simp del]

definition parse_bounded_json :: "reply \<Rightarrow> nat \<Rightarrow> nat \<Rightarrow> json_limits \<Rightarrow> pydict result" where
  "parse_bounded_json raw maximum_bytes maximum_root_members lm =
     (case raw of
        Not_Bytes \<Rightarrow> Inl OIDCVerificationError
      | Bytes b \<Rightarrow>
          if b = [] \<or> maximum_bytes < length b then Inl OIDCVerificationError
          else catch_as [UnicodeDecodeError, ValueError, TypeError, JSONDecodeError] OIDCVerificationError
            (bnd (utf8_decode b) (\<lambda>text.
             bnd (json_loads closed_hooks text) (\<lambda>v.
             case v of
               PDict d \<Rightarrow>
                 if maximum_root_members < length d then Inl ValueError
                 else bnd (walk_json lm 0 0 v) (\<lambda>_. Inr d)
             | _ \<Rightarrow> Inl ValueError))))"

definition validate_kid :: "pyval \<Rightarrow> string result" where
  "validate_kid v =
     (case v of
        PStr s \<Rightarrow>
          if s = [] \<or> MAX_KID_LENGTH < length s \<or> \<not> list_all ascii s \<or> \<not> fullmatch SAFE_KID_RE s \<or> has_dotdot s
          then Inl OIDCVerificationError else Inr s
      | _ \<Rightarrow> Inl OIDCVerificationError)"

definition decode_base64url :: "pyval \<Rightarrow> nat \<Rightarrow> string result" where
  "decode_base64url v maximum_decoded =
     (case v of
        PStr s \<Rightarrow>
          if s = [] \<or> PAD \<in> set s \<or> \<not> list_all ascii s \<or> \<not> fullmatch BASE64URL_RE s \<or> length s mod 4 = 1
          then Inl OIDCVerificationError
          else bnd (catch_as [ValueError] OIDCVerificationError (urlsafe_b64decode (padded s))) (\<lambda>decoded.
            if decoded = [] \<or> maximum_decoded < length decoded \<or> rstrip_pad (urlsafe_b64encode decoded) \<noteq> s
            then Inl OIDCVerificationError else Inr decoded)
      | _ \<Rightarrow> Inl OIDCVerificationError)"

section \<open>Retrieval\<close>

record http_document =
  doc_body :: string
  doc_cache_ttl :: int

record 'w http_response =
  rs_status :: int
  rs_getheaders :: "('w, (string \<times> string) list) act"
  rs_read :: "nat \<Rightarrow> ('w, reply) act"
  rs_close :: "('w, unit) act"

record 'w http_connection =
  cn_request :: "string \<Rightarrow> string \<Rightarrow> (string \<times> string) list \<Rightarrow> ('w, unit) act"
  cn_getresponse :: "('w, 'w http_response) act"
  cn_close :: "('w, unit) act"

text \<open>An \<open>ssl.SSLContext\<close> for clients, as far as it is configured.\<close>

record tls_context =
  tls_cafile :: string
  tls_check_hostname :: bool
  tls_cert_required :: bool

record 'w https_platform =
  hp_load_verify_locations :: "string \<Rightarrow> ('w, unit) act"
  hp_monotonic :: "('w, rat) act"
  hp_connect :: "string \<Rightarrow> int \<Rightarrow> rat \<Rightarrow> tls_context \<Rightarrow> ('w, 'w http_connection) act"

text \<open>\<open>str.lower\<close> and \<open>str.strip\<close> on code points up to 255, which HTTP headers are.\<close>

definition lower_char :: "char \<Rightarrow> char" where
  "lower_char c =
     (let n = of_char c :: nat in
      if (65 \<le> n \<and> n \<le> 90) \<or> (192 \<le> n \<and> n \<le> 222 \<and> n \<noteq> 215) then char_of (n + 32) else c)"

definition lower :: "string \<Rightarrow> string" where "lower s = map lower_char s"

definition is_space :: "char \<Rightarrow> bool" where
  "is_space c \<longleftrightarrow> (let n = of_char c :: nat in (9 \<le> n \<and> n \<le> 13) \<or> (28 \<le> n \<and> n \<le> 32) \<or> n = 133 \<or> n = 160)"

definition strip :: "string \<Rightarrow> string" where
  "strip s = rev (dropWhile is_space (rev (dropWhile is_space s)))"

definition max_ages :: "string list \<Rightarrow> int list option result" where
  "max_ages directives =
     (let raws = map (drop 8) (filter (starts_with ''max-age='') directives) in
      foldl (\<lambda>ages raw. bnd ages (\<lambda>found.
        case found of
          None \<Rightarrow> Inr None
        | Some found \<Rightarrow>
            if raw = [] \<or> \<not> list_all is_digit raw then Inr None
            else if max_str_digits < length raw then Inl ValueError
            else Inr (Some (found @ [int (nat_of_digits raw)])))) (Inr (Some [])) raws)"

definition cache_ttl :: "(string \<times> string) list \<Rightarrow> int result" where
  "cache_ttl headers =
     (let values = [value. (name, value) \<leftarrow> headers, lower name = ''cache-control''] in
      if values = [] then Inr MAX_CACHE_TTL_SECONDS
      else let directives = [lower (strip part). value \<leftarrow> values, part \<leftarrow> split_on (CHR '','') value] in
        if ''no-cache'' \<in> set directives \<or> ''no-store'' \<in> set directives then Inr 0
        else bnd (max_ages directives) (\<lambda>ages.
          case ages of None \<Rightarrow> Inr 0 | Some ages \<Rightarrow> Inr (foldl min MAX_CACHE_TTL_SECONDS ages)))"

definition too_late :: "rat \<Rightarrow> rat \<Rightarrow> bool" where
  "too_late started now \<longleftrightarrow>
     (case to_float (now - started) of
        Number d \<Rightarrow> CONNECT_TIMEOUT_SECONDS + READ_TIMEOUT_SECONDS < d
      | Infinity \<Rightarrow> True
      | _ \<Rightarrow> False)"

definition checked_headers :: "int \<Rightarrow> (string \<times> string) list \<Rightarrow> unit result" where
  "checked_headers status headers =
     (if MAX_RESPONSE_HEADERS < length headers then Inl ValueError
      else if MAX_RESPONSE_HEADER_BYTES < (\<Sum>(name, value) \<leftarrow> headers. length name + length value + 4) then Inl ValueError
      else if status \<noteq> 200 then Inl ValueError
      else case [value. (name, value) \<leftarrow> headers, lower name = ''content-type''] of
        [value] \<Rightarrow>
          if lower (strip (takeWhile (\<lambda>c. c \<noteq> CHR '';'') value)) \<noteq> ''application/json'' then Inl ValueError else Inr ()
      | _ \<Rightarrow> Inl ValueError)"

definition read_document :: "'w https_platform \<Rightarrow> rat \<Rightarrow> nat \<Rightarrow> 'w http_response \<Rightarrow> ('w, http_document) act" where
  "read_document p started body_limit response =
     act_bind (hp_monotonic p) (\<lambda>now.
     if too_late started now then act_lift (Inl TimeoutError)
     else
     act_bind (rs_getheaders response) (\<lambda>headers.
     act_bind (act_lift (checked_headers (rs_status response) headers)) (\<lambda>_.
     act_bind (rs_read response (body_limit + 1)) (\<lambda>body.
     case body of
       Not_Bytes \<Rightarrow> act_lift (Inl ValueError)
     | Bytes b \<Rightarrow>
         if body_limit < length b then act_lift (Inl ValueError)
         else
         act_bind (hp_monotonic p) (\<lambda>later.
         if too_late started later then act_lift (Inl TimeoutError)
         else act_lift (bnd (cache_ttl headers) (\<lambda>ttl. Inr \<lparr>doc_body = b, doc_cache_ttl = ttl\<rparr>)))))))"

text \<open>\<open>try: m except Exception: raise OIDCVerificationUnavailable\<close>\<close>

definition or_metadata_unavailable :: "('w, 'a) act \<Rightarrow> ('w, 'a) act" where
  "or_metadata_unavailable m = act_catch m (\<lambda>e. act_lift (Inl (if is_Exception e then OIDCVerificationUnavailable else e)))"

text \<open>\<open>try: m except Exception: close_failed = True\<close>\<close>

definition close_failed :: "('w, unit) act \<Rightarrow> ('w, bool) act" where
  "close_failed m =
     act_catch (act_bind m (\<lambda>_. act_lift (Inr False))) (\<lambda>e. act_lift (if is_Exception e then Inr True else Inl e))"

definition fetch_cleanup :: "'w http_response option \<Rightarrow> 'w http_connection \<Rightarrow> ('w, unit) act" where
  "fetch_cleanup response connection =
     act_bind (case response of None \<Rightarrow> act_lift (Inr False) | Some r \<Rightarrow> close_failed (rs_close r)) (\<lambda>failed.
     act_bind (close_failed (cn_close connection)) (\<lambda>failed'.
       act_lift (if failed \<or> failed' then Inl OIDCVerificationUnavailable else Inr ())))"

definition open_connection :: "'w https_platform \<Rightarrow> ('w, rat \<times> 'w http_connection) act" where
  "open_connection p =
     act_bind (hp_load_verify_locations p SYSTEM_CA_BUNDLE) (\<lambda>_.
     act_bind (hp_monotonic p) (\<lambda>started.
     act_bind (hp_connect p OIDC_HOST OIDC_PORT CONNECT_TIMEOUT_SECONDS
       \<lparr>tls_cafile = SYSTEM_CA_BUNDLE, tls_check_hostname = True, tls_cert_required = True\<rparr>) (\<lambda>connection.
       act_lift (Inr (started, connection)))))"

definition send_request :: "'w http_connection \<Rightarrow> string \<Rightarrow> ('w, 'w http_response) act" where
  "send_request connection path =
     act_bind (cn_request connection ''GET'' path [(''Accept'', ''application/json''), (''Host'', OIDC_HOST)]) (\<lambda>_.
       cn_getresponse connection)"

text \<open>The \<open>finally\<close> block runs with the locals that were assigned when the body was left.\<close>

definition fetch :: "'w https_platform \<Rightarrow> string \<Rightarrow> nat \<Rightarrow> ('w, http_document) act" where
  "fetch p path body_limit =
     act_bind (or_metadata_unavailable (open_connection p)) (\<lambda>(started, connection) w.
       case or_metadata_unavailable (send_request connection path) w of
         (Inl e, w1) \<Rightarrow> act_finally (act_lift (Inl e)) (fetch_cleanup None connection) w1
       | (Inr response, w1) \<Rightarrow>
           act_finally (or_metadata_unavailable (read_document p started body_limit response))
             (fetch_cleanup (Some response) connection) w1)"

definition fetch_discovery :: "'w https_platform \<Rightarrow> ('w, http_document) act" where
  "fetch_discovery p = fetch p DISCOVERY_PATH DISCOVERY_BODY_LIMIT"

definition fetch_jwks :: "'w https_platform \<Rightarrow> ('w, http_document) act" where
  "fetch_jwks p = fetch p JWKS_PATH JWKS_BODY_LIMIT"

section \<open>The documents\<close>

definition validate_discovery :: "string \<Rightarrow> unit result" where
  "validate_discovery raw =
     bnd (parse_bounded_json (Bytes raw) DISCOVERY_BODY_LIMIT 64 DEFAULT_LIMITS) (\<lambda>value.
     if \<not> py_eq (getv value ''issuer'') (PStr OIDC_ISSUER) \<or> \<not> py_eq (getv value ''jwks_uri'') (PStr JWKS_URL)
     then Inl OIDCVerificationError
     else case getv value ''id_token_signing_alg_values_supported'' of
       PList algorithms \<Rightarrow>
         if algorithms = [] \<or> 16 < length algorithms \<or>
            list_ex (\<lambda>x. case x of PStr t \<Rightarrow> 32 < length t | _ \<Rightarrow> True) algorithms \<or> PStr ''RS256'' \<notin> set algorithms
         then Inl OIDCVerificationError else Inr ()
     | _ \<Rightarrow> Inl OIDCVerificationError)"

definition validate_certificate :: "pyval \<Rightarrow> unit result" where
  "validate_certificate v =
     (case v of
        PStr s \<Rightarrow>
          if s = [] \<or> MAX_CERTIFICATE_TEXT < length s \<or> \<not> list_all ascii s \<or> \<not> fullmatch BASE64_RE s
          then Inl OIDCVerificationError
          else bnd (catch_as [ValueError] OIDCVerificationError (b64decode True s)) (\<lambda>decoded.
            if decoded = [] \<or> 12 * 1024 < length decoded then Inl OIDCVerificationError else Inr ())
      | _ \<Rightarrow> Inl OIDCVerificationError)"

definition validate_certificate_chain :: "pyval \<Rightarrow> unit result" where
  "validate_certificate_chain v =
     (case v of
        PList items \<Rightarrow>
          if items = [] \<or> MAX_CERTIFICATES < length items then Inl OIDCVerificationError
          else bnd (traverse validate_certificate items) (\<lambda>_. Inr ())
      | _ \<Rightarrow> Inl OIDCVerificationError)"

definition validate_thumbprint :: "pyval \<Rightarrow> nat \<Rightarrow> unit result" where
  "validate_thumbprint v expected =
     bnd (decode_base64url v expected) (\<lambda>decoded. if length decoded \<noteq> expected then Inl OIDCVerificationError else Inr ())"

definition REQUIRED_KEY_FIELDS :: "string list" where
  "REQUIRED_KEY_FIELDS = [''kty'', ''alg'', ''use'', ''kid'', ''n'', ''e'']"

definition OPTIONAL_KEY_FIELDS :: "string list" where
  "OPTIONAL_KEY_FIELDS = [''x5c'', ''x5t'', ''x5t#S256'']"

text \<open>\<open>n.bit_length()\<close>\<close>

fun bit_length :: "nat \<Rightarrow> nat" where
  "bit_length n = (if n = 0 then 0 else Suc (bit_length (n div 2)))"

declare bit_length.simps [simp del]

text \<open>The modulus and exponent of an entry.\<close>

definition key_material :: "pydict \<Rightarrow> (nat \<times> nat) result" where
  "key_material entry =
     bnd (decode_base64url (getv entry ''n'') 512) (\<lambda>modulus_bytes.
     bnd (decode_base64url (getv entry ''e'') 4) (\<lambda>exponent_bytes.
     if (1 < length modulus_bytes \<and> hd modulus_bytes = CHR 0x00) \<or> (1 < length exponent_bytes \<and> hd exponent_bytes = CHR 0x00)
     then Inl OIDCVerificationError
     else let modulus = from_bytes modulus_bytes; exponent = from_bytes exponent_bytes in
       if bit_length modulus < 2048 \<or> 4096 < bit_length modulus then Inl OIDCVerificationError
       else if exponent < 3 \<or> MAX_EXPONENT < exponent \<or> even exponent then Inl OIDCVerificationError
       else Inr (modulus, exponent)))"

definition optional_field :: "pydict \<Rightarrow> string \<Rightarrow> (pyval \<Rightarrow> unit result) \<Rightarrow> unit result" where
  "optional_field entry k check = (case map_of entry k of None \<Rightarrow> Inr () | Some v \<Rightarrow> check v)"

definition jwks_entry ::
    "(nat \<Rightarrow> nat \<Rightarrow> 'k result) \<Rightarrow> (string \<times> 'k) list \<Rightarrow> (nat \<times> nat) list \<Rightarrow> pyval \<Rightarrow>
     (string \<times> 'k \<times> nat \<times> nat) result" where
  "jwks_entry public_key found materials v =
     (case v of
        PDict entry \<Rightarrow>
          if \<not> set REQUIRED_KEY_FIELDS \<subseteq> set (keys entry) \<or>
             \<not> set (keys entry) \<subseteq> set REQUIRED_KEY_FIELDS \<union> set OPTIONAL_KEY_FIELDS then Inl OIDCVerificationError
          else if \<not> py_eq (getv entry ''kty'') (PStr ''RSA'') \<or> \<not> py_eq (getv entry ''alg'') (PStr ''RS256'') \<or>
             \<not> py_eq (getv entry ''use'') (PStr ''sig'') then Inl OIDCVerificationError
          else
          bnd (validate_kid (getv entry ''kid'')) (\<lambda>kid.
          if kid \<in> set (map fst found) then Inl OIDCVerificationError
          else
          bnd (key_material entry) (\<lambda>(modulus, exponent).
          if (modulus, exponent) \<in> set materials then Inl OIDCVerificationError
          else
          bnd (optional_field entry ''x5c'' validate_certificate_chain) (\<lambda>_.
          bnd (optional_field entry ''x5t'' (\<lambda>v. validate_thumbprint v 20)) (\<lambda>_.
          bnd (optional_field entry ''x5t#S256'' (\<lambda>v. validate_thumbprint v 32)) (\<lambda>_.
          bnd (public_key exponent modulus) (\<lambda>key. Inr (kid, key, modulus, exponent)))))))
      | _ \<Rightarrow> Inl OIDCVerificationError)"

fun jwks_entries ::
    "(nat \<Rightarrow> nat \<Rightarrow> 'k result) \<Rightarrow> (string \<times> 'k) list \<Rightarrow> (nat \<times> nat) list \<Rightarrow> pyval list \<Rightarrow> (string \<times> 'k) list result" where
  "jwks_entries public_key found materials [] = Inr found"
| "jwks_entries public_key found materials (v # vs) =
     bnd (jwks_entry public_key found materials v) (\<lambda>(kid, key, modulus, exponent).
       jwks_entries public_key (found @ [(kid, key)]) (materials @ [(modulus, exponent)]) vs)"

definition JWKS_LIMITS :: json_limits where
  "JWKS_LIMITS = DEFAULT_LIMITS\<lparr>jl_nodes := 2048, jl_array := MAX_JWKS_KEYS\<rparr>"

definition validate_jwks :: "(nat \<Rightarrow> nat \<Rightarrow> 'k result) \<Rightarrow> string \<Rightarrow> (string \<times> 'k) list result" where
  "validate_jwks public_key raw =
     bnd (parse_bounded_json (Bytes raw) JWKS_BODY_LIMIT 1 JWKS_LIMITS) (\<lambda>value.
     if set (keys value) \<noteq> {''keys''} then Inl OIDCVerificationError
     else case getv value ''keys'' of
       PList entries \<Rightarrow>
         if entries = [] \<or> MAX_JWKS_KEYS < length entries then Inl OIDCVerificationError
         else (case jwks_entries public_key [] [] entries of
                 Inl e \<Rightarrow> Inl (if caught e [OIDCVerificationError] \<or> \<not> is_Exception e then e else OIDCVerificationError)
               | Inr found \<Rightarrow> Inr found)
     | _ \<Rightarrow> Inl OIDCVerificationError)"

section \<open>The cache\<close>

record 'k jwks_cache =
  jc_keys :: "(string \<times> 'k) list"
  jc_expires_at :: Py_Float.pyfloat
  jc_refreshing :: bool
  jc_refresh_serial :: nat
  jc_completed_serial :: nat
  jc_completed_success :: bool

definition jwks_cache_init :: "'k jwks_cache" where
  "jwks_cache_init = \<lparr>jc_keys = [], jc_expires_at = Number 0, jc_refreshing = False, jc_refresh_serial = 0,
     jc_completed_serial = 0, jc_completed_success = False\<rparr>"

text \<open>A finite, non-negative reading.\<close>

definition clock_reading :: "Py_Float.pyfloat \<Rightarrow> rat result" where
  "clock_reading f =
     (case f of Number t \<Rightarrow> if t < 0 then Inl OIDCVerificationUnavailable else Inr t | _ \<Rightarrow> Inl OIDCVerificationUnavailable)"

definition before :: "rat \<Rightarrow> Py_Float.pyfloat \<Rightarrow> bool" where
  "before t f = (case f of Number x \<Rightarrow> t < x | Infinity \<Rightarrow> True | _ \<Rightarrow> False)"

text \<open>What a locked section decides: a key, to wait for a refresh, or to refresh.\<close>

datatype 'k decision = Have 'k | Wait nat | Refresh nat

definition start_refresh :: "'k jwks_cache \<Rightarrow> 'k decision result \<times> 'k jwks_cache" where
  "start_refresh c =
     (Inr (Refresh (Suc (jc_refresh_serial c))), c\<lparr>jc_refreshing := True, jc_refresh_serial := Suc (jc_refresh_serial c)\<rparr>)"

text \<open>The first locked section of \<open>get_key\<close>, up to the wait.\<close>

definition cache_enter :: "Py_Float.pyfloat result \<Rightarrow> string \<Rightarrow> 'k jwks_cache \<Rightarrow> 'k decision result \<times> 'k jwks_cache" where
  "cache_enter clock requested c =
     (case clock of
        Inl e \<Rightarrow> (Inl (if is_Exception e then OIDCVerificationUnavailable else e), c)
      | Inr f \<Rightarrow>
          (case clock_reading f of
             Inl e \<Rightarrow> (Inl e, c)
           | Inr now \<Rightarrow>
               (case (if before now (jc_expires_at c) then map_of (jc_keys c) requested else None) of
                  Some key \<Rightarrow> (Inr (Have key), c)
                | None \<Rightarrow> if jc_refreshing c then (Inr (Wait (jc_refresh_serial c)), c) else start_refresh c)))"

text \<open>The section again when \<open>wait\<close> has returned: the loop condition, and what follows the loop.\<close>

definition cache_resume :: "string \<Rightarrow> nat \<Rightarrow> 'k jwks_cache \<Rightarrow> 'k decision result \<times> 'k jwks_cache" where
  "cache_resume requested active c =
     (if jc_refreshing c \<and> jc_refresh_serial c = active then (Inr (Wait active), c)
      else if jc_completed_serial c = active then
        (if \<not> jc_completed_success c then (Inl OIDCVerificationUnavailable, c)
         else case map_of (jc_keys c) requested of
           Some key \<Rightarrow> (Inr (Have key), c)
         | None \<Rightarrow> (Inl OIDCVerificationError, c))
      else start_refresh c)"

text \<open>The part outside of the lock.\<close>

definition refresh_keys ::
    "(nat \<Rightarrow> nat \<Rightarrow> 'k result) \<Rightarrow> ('w, http_document) act \<Rightarrow> ('w, http_document) act \<Rightarrow> ('w, Py_Float.pyfloat) act \<Rightarrow>
     ('w, (string \<times> 'k) list \<times> Py_Float.pyfloat) act" where
  "refresh_keys public_key discover get_jwks monotonic =
     act_bind discover (\<lambda>discovery.
     act_bind (act_lift (validate_discovery (doc_body discovery))) (\<lambda>_.
     act_bind get_jwks (\<lambda>jwks.
     act_bind (act_lift (validate_jwks public_key (doc_body jwks))) (\<lambda>new_keys.
     let ttl = min MAX_CACHE_TTL_SECONDS (min (doc_cache_ttl discovery) (doc_cache_ttl jwks)) in
     if ttl < 0 then act_lift (Inl OIDCVerificationUnavailable)
     else
     act_bind monotonic (\<lambda>f.
     act_lift (bnd (clock_reading f) (\<lambda>refreshed_at. Inr (new_keys, to_float (refreshed_at + of_int ttl)))))))))"

text \<open>The last locked section.\<close>

definition cache_failed :: "nat \<Rightarrow> 'k jwks_cache \<Rightarrow> 'k jwks_cache" where
  "cache_failed serial c = c\<lparr>jc_refreshing := False, jc_completed_serial := serial, jc_completed_success := False\<rparr>"

definition cache_publish ::
    "nat \<Rightarrow> (string \<times> 'k) list \<Rightarrow> Py_Float.pyfloat \<Rightarrow> string \<Rightarrow> 'k jwks_cache \<Rightarrow> 'k result \<times> 'k jwks_cache" where
  "cache_publish serial new_keys expires_at requested c =
     ((case map_of new_keys requested of None \<Rightarrow> Inl OIDCVerificationError | Some key \<Rightarrow> Inr key),
      c\<lparr>jc_keys := new_keys, jc_expires_at := expires_at, jc_refreshing := False, jc_completed_serial := serial,
        jc_completed_success := True\<rparr>)"

definition cache_finish ::
    "nat \<Rightarrow> string \<Rightarrow> ((string \<times> 'k) list \<times> Py_Float.pyfloat) result \<Rightarrow> 'k jwks_cache \<Rightarrow> 'k result \<times> 'k jwks_cache" where
  "cache_finish serial requested outcome c =
     (case outcome of
        Inl e \<Rightarrow> if is_Exception e then (Inl OIDCVerificationUnavailable, cache_failed serial c) else (Inl e, c)
      | Inr (new_keys, expires_at) \<Rightarrow> cache_publish serial new_keys expires_at requested c)"

end
