(* ===== verification/Jwks_Run.thy ===== *)
theory Jwks_Run
  imports Jwks
begin

text \<open>
  What the checks of \<open>Jwks\<close> establish: the bounded walk against the size of a value, one text per decoded key, the
  accepted key sets, the bounds of a retrieved document and the closing of its connection, and the cache under any
  interleaving of the threads that share it.
\<close>

section \<open>Bounded JSON\<close>

fun json_nodes :: "pyval \<Rightarrow> nat" where
  "json_nodes (PList xs) = Suc (sum_list (map json_nodes xs))"
| "json_nodes (PDict d) = Suc (sum_list (map (\<lambda>(k, v). json_nodes v) d))"
| "json_nodes v = 1"

fun json_height :: "pyval \<Rightarrow> nat" where
  "json_height (PList xs) = foldr max (map (\<lambda>x. Suc (json_height x)) xs) 0"
| "json_height (PDict d) = foldr max (map (\<lambda>(k, v). Suc (json_height v)) d) 0"
| "json_height v = 0"

text \<open>Every text, name and array within its bound, every float finite.\<close>

fun json_sized :: "json_limits \<Rightarrow> pyval \<Rightarrow> bool" where
  "json_sized lm (PStr s) \<longleftrightarrow> length s \<le> jl_string lm"
| "json_sized lm (PFloat f) \<longleftrightarrow> (case f of Finite q \<Rightarrow> True | _ \<Rightarrow> False)"
| "json_sized lm (PList xs) \<longleftrightarrow> length xs \<le> jl_array lm \<and> list_all (json_sized lm) xs"
| "json_sized lm (PDict d) \<longleftrightarrow> list_all (\<lambda>(k, v). length k \<le> jl_string lm \<and> json_sized lm v) d"
| "json_sized lm v \<longleftrightarrow> True"

lemma add_foldr_max_le:
  "d + foldr max xs 0 \<le> (n :: nat) \<longleftrightarrow> d \<le> n \<and> list_all (\<lambda>x. d + x \<le> n) xs"
  by (induction xs) auto

lemma json_nodes_pos: "0 < json_nodes v"
  by (cases v) auto

definition walk_result :: "json_limits \<Rightarrow> nat \<Rightarrow> nat \<Rightarrow> bool \<Rightarrow> nat result" where
  "walk_result lm counter n ok = (if counter + n \<le> jl_nodes lm \<and> ok then Inr (counter + n) else Inl ValueError)"

text \<open>Walking a rest of an array or object, after the node itself was counted.\<close>

lemma walk_items_walk_result:
  assumes "\<And>x c. x \<in> set xs \<Longrightarrow>
      walk_json lm (Suc depth) c x = walk_result lm c (json_nodes x) (Suc depth + json_height x \<le> jl_depth lm \<and> json_sized lm x)"
    and "counter \<le> jl_nodes lm"
  shows "walk_items lm depth counter xs = walk_result lm counter (sum_list (map json_nodes xs))
    (list_all (\<lambda>x. depth + Suc (json_height x) \<le> jl_depth lm) xs \<and> list_all (json_sized lm) xs)"
  using assms
proof (induction xs arbitrary: counter)
  case (Cons x xs)
  have x: "walk_json lm (Suc depth) counter x =
      walk_result lm counter (json_nodes x) (Suc depth + json_height x \<le> jl_depth lm \<and> json_sized lm x)"
    using Cons.prems(1) by simp
  show ?case
  proof (cases "counter + json_nodes x \<le> jl_nodes lm")
    case True
    then have "walk_items lm depth (counter + json_nodes x) xs =
        walk_result lm (counter + json_nodes x) (sum_list (map json_nodes xs))
          (list_all (\<lambda>x. depth + Suc (json_height x) \<le> jl_depth lm) xs \<and> list_all (json_sized lm) xs)"
      using Cons.prems(1) by (intro Cons.IH) simp_all
    with True x show ?thesis by (auto simp: walk_result_def add.assoc)
  qed (use x in \<open>simp add: walk_result_def\<close>)
qed (simp add: walk_result_def)

lemma walk_members_walk_result:
  assumes "\<And>k x c. (k, x) \<in> set d \<Longrightarrow>
      walk_json lm (Suc depth) c x = walk_result lm c (json_nodes x) (Suc depth + json_height x \<le> jl_depth lm \<and> json_sized lm x)"
    and "counter \<le> jl_nodes lm"
  shows "walk_members lm depth counter d = walk_result lm counter (sum_list (map (\<lambda>(k, v). json_nodes v) d))
    (list_all (\<lambda>(k, v). depth + Suc (json_height v) \<le> jl_depth lm) d \<and>
     list_all (\<lambda>(k, v). length k \<le> jl_string lm \<and> json_sized lm v) d)"
  using assms
proof (induction d arbitrary: counter)
  case (Cons kx d)
  obtain k x where kx: "kx = (k, x)" by (cases kx)
  have x: "walk_json lm (Suc depth) counter x =
      walk_result lm counter (json_nodes x) (Suc depth + json_height x \<le> jl_depth lm \<and> json_sized lm x)"
    using Cons.prems(1) [of k x counter] kx by simp
  show ?case
  proof (cases "counter + json_nodes x \<le> jl_nodes lm")
    case True
    then have "walk_members lm depth (counter + json_nodes x) d =
        walk_result lm (counter + json_nodes x) (sum_list (map (\<lambda>(k, v). json_nodes v) d))
          (list_all (\<lambda>(k, v). depth + Suc (json_height v) \<le> jl_depth lm) d \<and>
           list_all (\<lambda>(k, v). length k \<le> jl_string lm \<and> json_sized lm v) d)"
      using Cons.prems(1) by (intro Cons.IH) auto
    with True x kx show ?thesis by (auto simp: walk_result_def add.assoc)
  qed (use x kx in \<open>simp add: walk_result_def\<close>)
qed (simp add: walk_result_def)

lemma walk_json_result:
  "walk_json lm depth counter v =
     walk_result lm counter (json_nodes v) (depth + json_height v \<le> jl_depth lm \<and> json_sized lm v)"
proof (induction v arbitrary: depth counter)
  case (PList xs)
  show ?case
  proof (cases "Suc counter \<le> jl_nodes lm")
    case True
    have "walk_items lm depth (Suc counter) xs = walk_result lm (Suc counter) (sum_list (map json_nodes xs))
        (list_all (\<lambda>x. depth + Suc (json_height x) \<le> jl_depth lm) xs \<and> list_all (json_sized lm) xs)"
      using PList True by (intro walk_items_walk_result) auto
    then show ?thesis
      by (auto simp: walk_json.simps [of lm depth counter] walk_result_def add_foldr_max_le list_all_iff)
  qed (simp add: walk_json.simps [of lm depth counter] walk_result_def)
next
  case (PDict d)
  show ?case
  proof (cases "Suc counter \<le> jl_nodes lm")
    case True
    have "walk_members lm depth (Suc counter) d = walk_result lm (Suc counter) (sum_list (map (\<lambda>(k, v). json_nodes v) d))
        (list_all (\<lambda>(k, v). depth + Suc (json_height v) \<le> jl_depth lm) d \<and>
         list_all (\<lambda>(k, v). length k \<le> jl_string lm \<and> json_sized lm v) d)"
      using PDict True by (intro walk_members_walk_result) (auto intro: snds.intros)
    then show ?thesis
      by (auto simp: walk_json.simps [of lm depth counter] walk_result_def add_foldr_max_le list_all_iff case_prod_unfold)
  qed (simp add: walk_json.simps [of lm depth counter] walk_result_def)
next
  case (PFloat f)
  show ?case by (cases f) (auto simp: walk_json.simps [of lm depth counter] walk_result_def)
qed (auto simp: walk_json.simps walk_result_def)

text \<open>
  C38: The bounded walk accepts a value exactly when its nodes, its height, its texts and names, and its arrays are within
  the bounds and its floats are finite; it returns the number of nodes and raises nothing but \<open>ValueError\<close>.
\<close>

theorem walk_json_exact:
  "walk_json lm 0 0 v =
     (if json_nodes v \<le> jl_nodes lm \<and> json_height v \<le> jl_depth lm \<and> json_sized lm v
      then Inr (json_nodes v) else Inl ValueError)"
  by (simp add: walk_json_result walk_result_def)

lemma closed_hooks_facts [simp]: "hooks_raise closed_hooks {ValueError}" "hooks_return closed_hooks" "keeps_pairs closed_hooks"
  by (simp_all add: closed_hooks_def hooks_raise_def hooks_return_def keeps_pairs_def unique_pairs_def)

lemma parse_bounded_json_Inr:
  assumes "parse_bounded_json (Bytes b) n m lm = Inr d"
  shows "length b \<le> n" "length d \<le> m" "json_nodes (PDict d) \<le> jl_nodes lm" "json_height (PDict d) \<le> jl_depth lm"
    "json_sized lm (PDict d)" "\<exists>t. utf8_decode b = Inr t \<and> json_loads closed_hooks t = Inr (PDict d)"
  using assms
  by (auto simp: parse_bounded_json_def case_PDict_Inr walk_json_result walk_result_def
      simp del: json_nodes.simps json_height.simps json_sized.simps split: if_splits)

lemma parse_bounded_json_raises [raise_rules]: "raises_only {OIDCVerificationError} (parse_bounded_json r n m lm)"
proof (cases r)
  case (Bytes b)
  have j: "raises_only {ValueError, JSONDecodeError, UnicodeDecodeError} (json_loads closed_hooks t)" for t
    using json_loads_Inl [OF closed_hooks_facts(1), of t] by (auto simp: raises_only_def json_errors_def)
  have u: "raises_only {ValueError, JSONDecodeError, UnicodeDecodeError} (utf8_decode b)"
    using utf8_decode_Inl by (auto simp: raises_only_def)
  have w: "raises_only {ValueError, JSONDecodeError, UnicodeDecodeError}
      (case v of PDict d \<Rightarrow> if m < length d then Inl ValueError else bnd (walk_json lm 0 0 v) (\<lambda>_. Inr d) | _ \<Rightarrow> Inl ValueError)" for v
    by (cases v) (auto simp: walk_json_result walk_result_def)
  show ?thesis
    unfolding parse_bounded_json_def Bytes reply.case
    by (rule raises_only_if, simp, rule raises_only_catch_as [where F = "{ValueError, JSONDecodeError, UnicodeDecodeError}"])
      (auto simp: caught_def isinstance_exn_def intro!: raises_only_bnd j u w)
qed (simp add: parse_bounded_json_def)

lemma parse_bounded_json_dumps:
  assumes "plain (PDict d)" "list_all is_ws r" "length (json_dumps (PDict d) @ r) \<le> n" "length d \<le> m"
    "json_nodes (PDict (csort d)) \<le> jl_nodes lm" "json_height (PDict (csort d)) \<le> jl_depth lm" "json_sized lm (PDict (csort d))"
  shows "parse_bounded_json (Bytes (json_dumps (PDict d) @ r)) n m lm = Inr (csort d)"
proof -
  have l: "json_loads closed_hooks (json_dumps (PDict d) @ r) = Inr (PDict (csort d))"
    using json_loads_dumps [OF closed_hooks_facts(3) assms(1,2)] by (simp only: canon_PDict)
  have "list_all clean r" using assms(2) ws_clean by (auto simp: list_all_iff)
  then have "list_all ascii (json_dumps (PDict d) @ r)"
    using json_dumps_ascii [OF assms(1)] clean_ascii by simp
  then have u: "utf8_decode (json_dumps (PDict d) @ r) = Inr (json_dumps (PDict d) @ r)" by (rule utf8_decode_ascii)
  have "json_dumps (PDict d) @ r \<noteq> []" by (simp add: json_dumps_def)
  moreover have "length (csort d) = length d" by (simp add: csort_def)
  ultimately show ?thesis
    using assms(3-7) u l
    by (simp add: parse_bounded_json_def walk_json_result walk_result_def
        del: json_nodes.simps json_height.simps json_sized.simps)
qed

lemma csort_sorted: "sorted (map fst d) \<Longrightarrow> csort d = map (\<lambda>(k, v). (k, canon v)) d"
  unfolding csort_def by (rule sort_key_id_if_sorted) (simp add: case_prod_unfold comp_def)

section \<open>One text per key\<close>

lemma fullmatch_plus: "fullmatch (Cat (Cls P) (Star (Cls P))) s \<longleftrightarrow> s \<noteq> [] \<and> list_all P s"
proof -
  have z: "\<not> fullmatch Zero t" for t by (simp add: fullmatch_iff_lang)
  have "fullmatch (Star (Cls P)) t \<longleftrightarrow> list_all P t" for t
    by (induction t) (simp_all add: z)
  then show ?thesis by (cases s) (simp_all add: z fullmatch_Cat_Cls)
qed

lemma decode_base64url_raises [raise_rules]: "raises_only {OIDCVerificationError} (decode_base64url v m)"
proof (cases v)
  case (PStr s)
  have "raises_only {ValueError} (a2b_loop st q l p b t)" for st q l p b t
    by (induction st q l p b t rule: a2b_loop.induct) (auto simp: raises_only_def bnd_Inl_iff split: option.splits)
  then have "raises_only {ValueError} (urlsafe_b64decode t)" for t
    by (auto simp: urlsafe_b64decode_def a2b_base64_def)
  then have "raises_only {OIDCVerificationError} (catch_as [ValueError] OIDCVerificationError (urlsafe_b64decode t))" for t
    by (rule raises_only_catch_as) (simp add: caught_def isinstance_exn_def)
  with PStr show ?thesis by (auto simp: decode_base64url_def intro!: raises_only_bnd)
qed (simp_all add: decode_base64url_def)

lemma decode_base64url_iff:
  "decode_base64url v maximum = Inr d \<longleftrightarrow> v = PStr (b64url d) \<and> d \<noteq> [] \<and> length d \<le> maximum"
proof
  assume "decode_base64url v maximum = Inr d"
  then show "v = PStr (b64url d) \<and> d \<noteq> [] \<and> length d \<le> maximum"
    by (auto simp: decode_base64url_def case_PStr_Inr b64url_def)
next
  assume v: "v = PStr (b64url d) \<and> d \<noteq> [] \<and> length d \<le> maximum"
  have "list_all ascii (b64url d)" "PAD \<notin> set (b64url d)"
    using b64url_shape(1) [of d] is_b64url_facts by (auto simp: list_all_iff)
  with v b64url_shape [of d] show "decode_base64url v maximum = Inr d"
    by (simp add: decode_base64url_def BASE64URL_RE_def fullmatch_plus urlsafe_b64decode_b64url flip: b64url_def)
qed

text \<open>
  C39: Bytes are decoded from exactly one text, their unpadded URL-safe encoding, and only up to the bound.
\<close>

theorem decode_base64url_exact:
  "decode_base64url v maximum = Inr d \<longleftrightarrow> v = PStr (b64url d) \<and> d \<noteq> [] \<and> length d \<le> maximum"
  by (rule decode_base64url_iff)

section \<open>Accepted key sets\<close>

text \<open>A key of an accepted set: a safe identifier, and a key made of a modulus and an exponent within the bounds.\<close>

definition acceptable_key :: "(nat \<Rightarrow> nat \<Rightarrow> 'k result) \<Rightarrow> string \<times> 'k \<Rightarrow> bool" where
  "acceptable_key public_key kk \<longleftrightarrow>
     validate_kid (PStr (fst kk)) = Inr (fst kk) \<and>
     (\<exists>modulus exponent. public_key exponent modulus = Inr (snd kk) \<and>
        2048 \<le> bit_length modulus \<and> bit_length modulus \<le> 4096 \<and> 3 \<le> exponent \<and> exponent < 2 ^ 32 \<and> odd exponent)"

lemma key_material_Inr:
  "key_material entry = Inr (m, e) \<Longrightarrow>
     2048 \<le> bit_length m \<and> bit_length m \<le> 4096 \<and> 3 \<le> e \<and> e < 2 ^ 32 \<and> odd e"
  by (auto simp: key_material_def Let_def MAX_EXPONENT_def)

lemma validate_kid_Inr: "validate_kid v = Inr kid \<Longrightarrow> v = PStr kid"
  by (auto simp: validate_kid_def case_PStr_Inr)

lemma jwks_entry_Inr:
  assumes "jwks_entry public_key found materials v = Inr (kid, key, m, e)"
  shows "kid \<notin> set (map fst found) \<and> (m, e) \<notin> set materials \<and> acceptable_key public_key (kid, key)"
  using assms key_material_Inr validate_kid_Inr
  by (fastforce simp: jwks_entry_def case_PDict_Inr acceptable_key_def)

lemma jwks_entries_Inr:
  assumes "jwks_entries public_key found materials vs = Inr ks" "distinct (map fst found)"
    "list_all (acceptable_key public_key) found"
  shows "distinct (map fst ks) \<and> list_all (acceptable_key public_key) ks \<and> length ks = length found + length vs"
  using assms
proof (induction vs arbitrary: found materials)
  case (Cons v vs)
  from Cons.prems(1) obtain kid key m e where *: "jwks_entry public_key found materials v = Inr (kid, key, m, e)"
      "jwks_entries public_key (found @ [(kid, key)]) (materials @ [(m, e)]) vs = Inr ks"
    by auto
  from Cons.IH [OF *(2)] jwks_entry_Inr [OF *(1)] Cons.prems show ?case by simp
qed simp

lemma case_Inr_Inr: "(case r of Inl e \<Rightarrow> Inl (f e) | Inr x \<Rightarrow> Inr x) = Inr y \<longleftrightarrow> r = Inr y"
  by (cases r) simp_all

lemma validate_jwks_Inr:
  assumes "validate_jwks public_key raw = Inr ks"
  shows "ks \<noteq> [] \<and> length ks \<le> MAX_JWKS_KEYS \<and> distinct (map fst ks) \<and> list_all (acceptable_key public_key) ks"
proof -
  obtain entries where "jwks_entries public_key [] [] entries = Inr ks" "entries \<noteq> []" "length entries \<le> MAX_JWKS_KEYS"
    using assms unfolding validate_jwks_def bnd_Inr_iff if_Inl_Inr_iff case_PList_Inr case_Inr_Inr de_Morgan_disj not_less
    by (elim exE conjE) (rule that)
  with jwks_entries_Inr [OF this(1)] show ?thesis by (cases entries; cases ks) simp_all
qed

section \<open>Retrieval\<close>

lemma max_ages_nonneg:
  assumes "max_ages ds = Inr (Some ages)"
  shows "list_all (\<lambda>a. 0 \<le> a) ages"
proof -
  let ?step = "\<lambda>ages raw. bnd ages (\<lambda>found. case found of None \<Rightarrow> Inr None | Some found \<Rightarrow>
    if raw = [] \<or> \<not> list_all is_digit raw then Inr None else if max_str_digits < length raw then Inl ValueError
    else Inr (Some (found @ [int (nat_of_digits raw)])))"
  have "foldl ?step acc raws = Inr (Some ages) \<Longrightarrow> \<exists>before. acc = Inr (Some before) \<and>
      (list_all (\<lambda>a. 0 \<le> a) before \<longrightarrow> list_all (\<lambda>a. 0 \<le> a) ages)" for acc raws
  proof (induction raws arbitrary: acc)
    case (Cons raw raws)
    from Cons.IH [of "?step acc raw"] Cons.prems show ?case
      by (auto split: option.splits if_splits)
  qed simp
  from this [of "Inr (Some [])"] assms show ?thesis by (fastforce simp: max_ages_def Let_def)
qed

lemma foldl_min: "foldl min (m :: int) xs \<le> m" "0 \<le> m \<Longrightarrow> list_all (\<lambda>a. 0 \<le> a) xs \<Longrightarrow> 0 \<le> foldl min m xs"
proof -
  show "foldl min m xs \<le> m"
  proof (induction xs arbitrary: m)
    case (Cons x xs)
    from Cons [of "min m x"] show ?case by simp
  qed simp
  show "0 \<le> m \<Longrightarrow> list_all (\<lambda>a. 0 \<le> a) xs \<Longrightarrow> 0 \<le> foldl min m xs"
    by (induction xs arbitrary: m) simp_all
qed

lemma cache_ttl_bounds:
  assumes "cache_ttl headers = Inr ttl"
  shows "0 \<le> ttl \<and> ttl \<le> MAX_CACHE_TTL_SECONDS"
  using assms max_ages_nonneg foldl_min [of MAX_CACHE_TTL_SECONDS]
  by (auto simp: cache_ttl_def Let_def MAX_CACHE_TTL_SECONDS_def split: if_splits option.splits)

definition document_ok :: "nat \<Rightarrow> http_document \<Rightarrow> bool" where
  "document_ok body_limit doc \<longleftrightarrow>
     length (doc_body doc) \<le> body_limit \<and> 0 \<le> doc_cache_ttl doc \<and> doc_cache_ttl doc \<le> MAX_CACHE_TTL_SECONDS"

definition fetch_error :: "exn \<Rightarrow> bool" where
  "fetch_error e \<longleftrightarrow> e = OIDCVerificationUnavailable \<or> \<not> is_Exception e"

lemma wp_or_metadata_unavailable:
  "wp m Q (\<lambda>_ _. True) w \<Longrightarrow> wp (or_metadata_unavailable m) Q (\<lambda>e _. fetch_error e) w"
  unfolding or_metadata_unavailable_def wp_act_catch
  by (erule wp_conseq) (auto simp: fetch_error_def)

lemma wp_True: "(\<And>x w'. Q x w') \<Longrightarrow> wp m Q (\<lambda>_ _. True) w"
  by (simp add: wp_def split: prod.splits sum.splits)

lemma read_document_ok:
  "wp (read_document p started body_limit response) (\<lambda>doc _. document_ok body_limit doc) (\<lambda>_ _. True) w"
  unfolding read_document_def
  by (auto simp: document_ok_def wp_def act_bind_def split: prod.splits sum.splits reply.splits dest!: cache_ttl_bounds)

text \<open>The clean-up closes the connection last, unless a control exception left it, and raises nothing new.\<close>

lemma fetch_cleanup_closes:
  assumes "fetch_cleanup response connection w = (r, w')"
  shows "(r = Inr () \<or> (\<exists>e. r = Inl e \<and> fetch_error e)) \<and>
    ((\<forall>e. r = Inl e \<longrightarrow> is_Exception e) \<longrightarrow> (\<exists>w1. w' = snd (cn_close connection w1)))"
  using assms
  by (auto simp: fetch_cleanup_def close_failed_def act_bind_def act_catch_def fetch_error_def is_Exception_def
      split: prod.splits sum.splits option.splits if_splits) (metis snd_conv)+

lemma act_finally_run:
  assumes "act_finally m c w = (r, w')"
  shows "\<exists>rm w1 rc. m w = (rm, w1) \<and> c w1 = (rc, w') \<and> r = (case rc of Inl e \<Rightarrow> Inl e | Inr _ \<Rightarrow> rm)"
  using assms by (auto simp: act_finally_def split: prod.splits sum.splits)

lemma finally_closes:
  assumes "act_finally m (fetch_cleanup response connection) w = (r, w')"
    "wp m (\<lambda>doc _. document_ok body_limit doc) (\<lambda>e _. fetch_error e) w"
  shows "(case r of Inr doc \<Rightarrow> document_ok body_limit doc | Inl e \<Rightarrow> fetch_error e) \<and>
    ((\<forall>e. r = Inl e \<longrightarrow> is_Exception e) \<longrightarrow> (\<exists>w1. w' = snd (cn_close connection w1)))"
proof -
  obtain rm w1 rc where *: "m w = (rm, w1)" "fetch_cleanup response connection w1 = (rc, w')"
      "r = (case rc of Inl e \<Rightarrow> Inl e | Inr _ \<Rightarrow> rm)"
    using act_finally_run [OF assms(1)] by blast
  have "case rm of Inr doc \<Rightarrow> document_ok body_limit doc | Inl e \<Rightarrow> fetch_error e"
    using assms(2) *(1) by (simp add: wp_def split: sum.splits)
  then show ?thesis using fetch_cleanup_closes [OF *(2)] *(3) by (cases rc) auto
qed

lemma fetch_opened:
  assumes "open_connection p w = (Inr (started, connection), w0)" and "fetch p path body_limit w = (r, w')"
  shows "(case r of Inr doc \<Rightarrow> document_ok body_limit doc | Inl e \<Rightarrow> fetch_error e) \<and>
    ((\<forall>e. r = Inl e \<longrightarrow> is_Exception e) \<longrightarrow> (\<exists>w1. w' = snd (cn_close connection w1)))"
proof -
  obtain rs w1 where s: "or_metadata_unavailable (send_request connection path) w0 = (rs, w1)" by fastforce
  have o: "or_metadata_unavailable (open_connection p) w = (Inr (started, connection), w0)"
    using assms(1) by (simp add: or_metadata_unavailable_def act_catch_eq)
  show ?thesis
  proof (cases rs)
    case (Inl e)
    have "wp (or_metadata_unavailable (send_request connection path)) (\<lambda>_ _. True) (\<lambda>e _. fetch_error e) w0"
      by (intro wp_or_metadata_unavailable wp_True) simp
    with s Inl have "fetch_error e" by (simp add: wp_def)
    with assms(2) o s Inl show ?thesis
      by (intro finally_closes) (auto simp: fetch_def act_bind_eq)
  next
    case (Inr response)
    with assms(2) o s show ?thesis
      by (intro finally_closes [where m = "or_metadata_unavailable (read_document p started body_limit response)"])
        (auto simp: fetch_def act_bind_eq intro: wp_or_metadata_unavailable read_document_ok)
  qed
qed

lemma fetch_unopened:
  assumes "open_connection p w = (Inl e, w0)"
  shows "fetch p path body_limit w = (Inl (if is_Exception e then OIDCVerificationUnavailable else e), w0)"
proof -
  have "or_metadata_unavailable (open_connection p) w = (Inl (if is_Exception e then OIDCVerificationUnavailable else e), w0)"
    using assms by (simp add: or_metadata_unavailable_def act_catch_def)
  then show ?thesis by (simp add: fetch_def act_bind_def)
qed

text \<open>
  C40: A retrieval returns a document within its bounds, or raises the static unavailability, or lets a control exception
  (\<open>KeyboardInterrupt\<close>, \<open>SystemExit\<close>, \<open>GeneratorExit\<close>) pass; no other exception escapes, whether the certificate
  bundle, the clock, the connection or its response failed.  When no connection could be made nothing follows;
  when one was made, the retrieval ends by closing it, unless it ended with a control exception.
\<close>

theorem fetch_bounded_and_closed:
  assumes "fetch p path body_limit w = (r, w')"
  shows "(case r of
       Inr doc \<Rightarrow> length (doc_body doc) \<le> body_limit \<and> 0 \<le> doc_cache_ttl doc \<and> doc_cache_ttl doc \<le> MAX_CACHE_TTL_SECONDS
     | Inl e \<Rightarrow> e = OIDCVerificationUnavailable \<or> e \<in> {KeyboardInterrupt, SystemExit, GeneratorExit}) \<and>
    (case open_connection p w of
       (Inl e, w0) \<Rightarrow> w' = w0 \<and> r = Inl (if is_Exception e then OIDCVerificationUnavailable else e)
     | (Inr (started, connection), w0) \<Rightarrow>
         r \<in> Inl ` {KeyboardInterrupt, SystemExit, GeneratorExit} \<or> (\<exists>w1. w' = snd (cn_close connection w1)))"
proof -
  have control: "\<not> is_Exception e \<longleftrightarrow> e \<in> {KeyboardInterrupt, SystemExit, GeneratorExit}" for e
    by (auto simp: is_Exception_def)
  obtain ro w0 where o: "open_connection p w = (ro, w0)" by force
  show ?thesis
  proof (cases ro)
    case (Inl e)
    then show ?thesis using fetch_unopened [of p w e w0 path body_limit] assms o control [of e] by auto
  next
    case (Inr x)
    obtain started connection where x: "x = (started, connection)" by force
    have "(case r of Inr doc \<Rightarrow> document_ok body_limit doc | Inl e \<Rightarrow> fetch_error e) \<and>
      ((\<forall>e. r = Inl e \<longrightarrow> is_Exception e) \<longrightarrow> (\<exists>w1. w' = snd (cn_close connection w1)))"
      using fetch_opened [OF _ assms] o Inr x by blast
    then show ?thesis using o Inr x control
      by (cases r) (auto simp: document_ok_def fetch_error_def)
  qed
qed

text \<open>A host that answers with a small document; its world counts the closings.\<close>

definition sample_headers :: "(string \<times> string) list" where
  "sample_headers =
     [(''Content-Type'', ''application/json; charset=utf-8''), (''Cache-Control'', ''private, max-age=60'')]"

definition sample_document :: "nat http_response" where
  "sample_document = \<lparr>rs_status = 200,
     rs_getheaders = (\<lambda>w. (Inr sample_headers, w)),
     rs_read = (\<lambda>_ w. (Inr (Bytes ''{}''), w)), rs_close = (\<lambda>w. (Inr (), w + 1))\<rparr>"

definition sample_issuer :: "nat http_connection" where
  "sample_issuer = \<lparr>cn_request = (\<lambda>_ _ _ w. (Inr (), w)), cn_getresponse = (\<lambda>w. (Inr sample_document, w)),
     cn_close = (\<lambda>w. (Inr (), w + 1))\<rparr>"

definition sample_https :: "nat https_platform" where
  "sample_https = \<lparr>hp_load_verify_locations = (\<lambda>_ w. (Inr (), w)), hp_monotonic = (\<lambda>w. (Inr 5, w)),
     hp_connect = (\<lambda>_ _ _ _ w. (Inr sample_issuer, w))\<rparr>"

lemma sample_headers_accepted: "checked_headers 200 sample_headers = Inr ()" "cache_ttl sample_headers = Inr 60"
  by code_simp+

lemma sample_fetch:
  "fetch_jwks sample_https 0 = (Inr \<lparr>doc_body = ''{}'', doc_cache_ttl = 60\<rparr>, 2)"
  by (simp add: fetch_jwks_def fetch_def or_metadata_unavailable_def act_catch_def act_bind_def open_connection_def sample_https_def
      send_request_def sample_issuer_def act_finally_def read_document_def sample_document_def too_late_def to_float_def
      CONNECT_TIMEOUT_SECONDS_def READ_TIMEOUT_SECONDS_def JWKS_BODY_LIMIT_def fetch_cleanup_def close_failed_def
      sample_headers_accepted)

lemma sample_open: "open_connection sample_https w = (Inr (5, sample_issuer), w)"
  by (simp add: open_connection_def sample_https_def act_bind_def)

theorem fetch_bounded_and_closed_witness:
  "fetch_jwks sample_https 0 = (Inr \<lparr>doc_body = ''{}'', doc_cache_ttl = 60\<rparr>, 2) \<and> length ''{}'' \<le> JWKS_BODY_LIMIT \<and>
   (\<exists>w1. 2 = snd (cn_close sample_issuer w1))"
  using fetch_bounded_and_closed [OF sample_fetch [unfolded fetch_jwks_def]] sample_fetch by (auto simp: sample_open)

end
