(* ===== verification/Jwks_Cache.thy ===== *)
theory Jwks_Cache
  imports Jwks_Run
begin

text \<open>
  The key cache of \<open>src/deployment/jwks.py\<close> shared by threads.  A thread in \<open>get_key\<close> waits for a refresh, runs one outside
  of the lock, or has its result; each locked section is one step, in any order.  A refresh calls each of its collaborators
  once, and its outcome is \<open>refresh_keys\<close> on any answers they may give.  The flag \<open>interrupts\<close> says whether a control
  exception (\<open>KeyboardInterrupt\<close> and its like) may end a refresh.  The system also remembers the key documents that
  were published, the newest first.
\<close>

section \<open>Threads\<close>

datatype 'k thread = Idle | Waiting string nat | Refreshing string nat | Done string "'k result"

record 'k cache_system =
  cs_cache :: "'k jwks_cache"
  cs_threads :: "nat \<Rightarrow> 'k thread"
  cs_published :: "http_document list"

definition cache_system_init :: "'k cache_system" where
  "cache_system_init = \<lparr>cs_cache = jwks_cache_init, cs_threads = (\<lambda>_. Idle), cs_published = []\<rparr>"

text \<open>Where a decision leads the thread.\<close>

definition next_thread :: "string \<Rightarrow> 'k decision result \<Rightarrow> 'k thread" where
  "next_thread requested d =
     (case d of
        Inl e \<Rightarrow> Done requested (Inl e)
      | Inr (Have key) \<Rightarrow> Done requested (Inr key)
      | Inr (Wait serial) \<Rightarrow> Waiting requested serial
      | Inr (Refresh serial) \<Rightarrow> Refreshing requested serial)"

text \<open>
  The part outside of the lock on the answers of the discovery client, the key client and the clock, and the document
  that it publishes.
\<close>

definition refresh_with ::
    "(nat \<Rightarrow> nat \<Rightarrow> 'k result) \<Rightarrow> http_document result \<Rightarrow> http_document result \<Rightarrow> Py_Float.pyfloat result \<Rightarrow>
     ((string \<times> 'k) list \<times> Py_Float.pyfloat) result" where
  "refresh_with public_key discovery jwks reading =
     fst (refresh_keys public_key (\<lambda>w. (discovery, w)) (\<lambda>w. (jwks, w)) (\<lambda>w. (reading, w)) ())"

definition newly_published :: "http_document result \<Rightarrow> 'a result \<Rightarrow> http_document list" where
  "newly_published jwks outcome = (case (jwks, outcome) of (Inr doc, Inr _) \<Rightarrow> [doc] | _ \<Rightarrow> [])"

text \<open>Whatever the collaborators do, a run of \<open>refresh_keys\<close> is one on their answers.\<close>

lemma refresh_keys_answers:
  assumes "refresh_keys public_key discover get_jwks monotonic w = (r, w')"
  shows "\<exists>discovery jwks reading. r = refresh_with public_key discovery jwks reading \<and>
    (\<forall>x. r = Inr x \<longrightarrow> (\<exists>doc w1 w2. jwks = Inr doc \<and> get_jwks w1 = (Inr doc, w2)))"
proof -
  obtain dr w1 where d: "discover w = (dr, w1)" by force
  obtain jr w2 where j: "get_jwks w1 = (jr, w2)" by force
  obtain mr w3 where m: "monotonic w2 = (mr, w3)" by force
  have "r = refresh_with public_key dr jr mr \<and> (\<forall>x. r = Inr x \<longrightarrow> (\<exists>doc. jr = Inr doc))"
    using assms d j m
    by (auto simp: refresh_keys_def refresh_with_def act_bind_def act_lift_def Let_def split: sum.splits if_splits prod.splits)
  with j show ?thesis by blast
qed

text \<open>One locked section of the thread \<open>i\<close>.\<close>

inductive cache_step :: "bool \<Rightarrow> (nat \<Rightarrow> nat \<Rightarrow> 'k result) \<Rightarrow> nat \<Rightarrow> 'k cache_system \<Rightarrow> 'k cache_system \<Rightarrow> bool"
  for interrupts public_key where
  enter: "cs_threads s i \<in> {Idle, Done old r} \<Longrightarrow> validate_kid kid = Inr requested \<Longrightarrow>
    cache_enter clock requested (cs_cache s) = (d, c) \<Longrightarrow>
    cache_step interrupts public_key i s
      \<lparr>cs_cache = c, cs_threads = (cs_threads s)(i := next_thread requested d), cs_published = cs_published s\<rparr>"
| resume: "cs_threads s i = Waiting requested active \<Longrightarrow> cache_resume requested active (cs_cache s) = (d, c) \<Longrightarrow>
    cache_step interrupts public_key i s
      \<lparr>cs_cache = c, cs_threads = (cs_threads s)(i := next_thread requested d), cs_published = cs_published s\<rparr>"
| finish: "cs_threads s i = Refreshing requested serial \<Longrightarrow> outcome = refresh_with public_key discovery jwks reading \<Longrightarrow>
    interrupts \<or> (\<forall>e. outcome = Inl e \<longrightarrow> is_Exception e) \<Longrightarrow>
    cache_finish serial requested outcome (cs_cache s) = (r, c) \<Longrightarrow>
    cache_step interrupts public_key i s
      \<lparr>cs_cache = c, cs_threads = (cs_threads s)(i := Done requested r),
       cs_published = newly_published jwks outcome @ cs_published s\<rparr>"

definition cache_moves :: "bool \<Rightarrow> (nat \<Rightarrow> nat \<Rightarrow> 'k result) \<Rightarrow> 'k cache_system \<Rightarrow> 'k cache_system \<Rightarrow> bool" where
  "cache_moves interrupts public_key s s' \<longleftrightarrow> (\<exists>i. cache_step interrupts public_key i s s')"

definition cache_reaches :: "bool \<Rightarrow> (nat \<Rightarrow> nat \<Rightarrow> 'k result) \<Rightarrow> 'k cache_system \<Rightarrow> bool" where
  "cache_reaches interrupts public_key s \<longleftrightarrow> (cache_moves interrupts public_key)\<^sup>*\<^sup>* cache_system_init s"

lemma cache_reaches_induct [consumes 1, case_names init step]:
  assumes "cache_reaches interrupts public_key s" "P cache_system_init"
    "\<And>i s s'. cache_reaches interrupts public_key s \<Longrightarrow> P s \<Longrightarrow> cache_step interrupts public_key i s s' \<Longrightarrow> P s'"
  shows "P s"
  using assms(1) unfolding cache_reaches_def
proof (induction rule: rtranclp_induct)
  case (step s s')
  then show ?case using assms(3) unfolding cache_reaches_def cache_moves_def by blast
qed (rule assms(2))

lemma reaches_init: "cache_reaches interrupts public_key cache_system_init"
  by (simp add: cache_reaches_def)

lemma reaches_step:
  "cache_reaches interrupts public_key s \<Longrightarrow> cache_step interrupts public_key i s s' \<Longrightarrow> cache_reaches interrupts public_key s'"
  unfolding cache_reaches_def by (rule rtranclp.rtrancl_into_rtrancl) (auto simp: cache_moves_def)

lemma reaches_moves:
  "cache_reaches interrupts public_key s \<Longrightarrow> (cache_moves interrupts public_key)\<^sup>*\<^sup>* s s' \<Longrightarrow> cache_reaches interrupts public_key s'"
  unfolding cache_reaches_def by (rule rtranclp_trans)

section \<open>Every key is current\<close>

text \<open>The cached keys are those of the newest published document.\<close>

definition keys_current :: "(nat \<Rightarrow> nat \<Rightarrow> 'k result) \<Rightarrow> http_document list \<Rightarrow> (string \<times> 'k) list \<Rightarrow> bool" where
  "keys_current public_key docs ks \<longleftrightarrow>
     (case docs of [] \<Rightarrow> ks = [] | doc # _ \<Rightarrow> validate_jwks public_key (doc_body doc) = Inr ks)"

lemma refresh_with_Inr:
  assumes "refresh_with public_key discovery jwks reading = Inr (ks, t)"
  obtains doc where "jwks = Inr doc" "validate_jwks public_key (doc_body doc) = Inr ks"
proof -
  obtain w' where "refresh_keys public_key (\<lambda>w. (discovery, w)) (\<lambda>w. (jwks, w)) (\<lambda>w. (reading, w)) () = (Inr (ks, t), w')"
    using assms by (simp add: refresh_with_def prod_eq_iff)
  then have "\<exists>doc. jwks = Inr doc \<and> validate_jwks public_key (doc_body doc) = Inr ks"
    by (auto simp: refresh_keys_def act_bind_Inr_iff Let_def split: if_splits)
  with that show thesis by blast
qed

text \<open>What a decision leaves of the cached keys, and the key it gives.\<close>

lemma decided_keys:
  assumes "cache_enter clock requested c = (d, c') \<or> cache_resume requested active c = (d, c')"
  shows "jc_keys c' = jc_keys c" and "next_thread requested d = Done kid (Inr key) \<Longrightarrow> kid = requested \<and> map_of (jc_keys c) kid = Some key"
  using assms
  by (auto simp: cache_enter_def cache_resume_def start_refresh_def next_thread_def split: sum.splits option.splits if_splits)

lemma step_keys:
  assumes "cache_step interrupts public_key i s s'" and "keys_current public_key (cs_published s) (jc_keys (cs_cache s))"
  shows "keys_current public_key (cs_published s') (jc_keys (cs_cache s')) \<and>
    (\<forall>kid key. cs_threads s' i = Done kid (Inr key) \<longrightarrow> map_of (jc_keys (cs_cache s')) kid = Some key)"
  using assms(1)
proof (cases rule: cache_step.cases)
  case (enter old r kid requested clock d c)
  then show ?thesis using decided_keys [OF disjI1, OF enter(4)] assms(2) by auto
next
  case (resume requested active d c)
  then show ?thesis using decided_keys [OF disjI2, OF resume(3)] assms(2) by auto
next
  case (finish requested serial outcome discovery jwks reading r c)
  show ?thesis
  proof (cases outcome)
    case (Inl e)
    then show ?thesis using finish assms(2)
      by (auto simp: cache_finish_def cache_failed_def newly_published_def split: if_splits sum.splits)
  next
    case (Inr x)
    obtain ks t where x: "x = (ks, t)" by force
    have "refresh_with public_key discovery jwks reading = Inr (ks, t)" using finish(3) Inr x by simp
    then obtain doc where "jwks = Inr doc" "validate_jwks public_key (doc_body doc) = Inr ks" by (rule refresh_with_Inr)
    then show ?thesis using finish(1,5) Inr x
      by (auto simp: cache_finish_def cache_publish_def newly_published_def keys_current_def split: option.splits)
  qed
qed

lemma reached_keys:
  assumes "cache_reaches interrupts public_key s"
  shows "keys_current public_key (cs_published s) (jc_keys (cs_cache s))"
  using assms
proof (induction rule: cache_reaches_induct)
  case init
  then show ?case by (simp add: cache_system_init_def jwks_cache_init_def keys_current_def)
next
  case (step i s s')
  from step_keys [OF step.hyps(2) step.IH] show ?case by blast
qed

section \<open>Waiting is for a running refresh\<close>

definition serials_ok :: "'k cache_system \<Rightarrow> bool" where
  "serials_ok s \<longleftrightarrow>
     (\<forall>i kid n. cs_threads s i = Refreshing kid n \<longrightarrow> n \<le> jc_refresh_serial (cs_cache s)) \<and>
     (\<forall>i j kid kid' n. cs_threads s i = Refreshing kid n \<and> cs_threads s j = Refreshing kid' n \<longrightarrow> i = j) \<and>
     (jc_refreshing (cs_cache s) \<longrightarrow> (\<exists>i kid. cs_threads s i = Refreshing kid (jc_refresh_serial (cs_cache s))))"

definition waits_ok :: "'k cache_system \<Rightarrow> bool" where
  "waits_ok s \<longleftrightarrow> (\<forall>i kid n. cs_threads s i = Waiting kid n \<longrightarrow> n \<le> jc_refresh_serial (cs_cache s))"

text \<open>A locked section that decides leaves the cache or takes the next serial number.\<close>

definition decides :: "string \<Rightarrow> 'k jwks_cache \<Rightarrow> 'k thread \<Rightarrow> 'k jwks_cache \<Rightarrow> bool" where
  "decides requested c t c' \<longleftrightarrow>
     (c' = c \<and> (\<forall>kid n. t \<noteq> Refreshing kid n) \<and> (\<forall>kid n. t = Waiting kid n \<longrightarrow> n = jc_refresh_serial c)) \<or>
     (c' = c\<lparr>jc_refreshing := True, jc_refresh_serial := Suc (jc_refresh_serial c)\<rparr> \<and>
      t = Refreshing requested (Suc (jc_refresh_serial c)))"

lemma decided:
  assumes "cache_enter clock requested c = (d, c') \<or> cache_resume requested active c = (d, c')"
  shows "decides requested c (next_thread requested d) c'"
  using assms
  by (auto simp: decides_def cache_enter_def cache_resume_def start_refresh_def next_thread_def
      split: sum.splits option.splits if_splits)

lemma decided_serials:
  assumes "serials_ok s" "\<forall>kid n. cs_threads s i \<noteq> Refreshing kid n" "decides requested (cs_cache s) t c"
  shows "serials_ok \<lparr>cs_cache = c, cs_threads = (cs_threads s)(i := t), cs_published = p\<rparr>"
  using assms(3) unfolding decides_def
proof
  assume a: "c = cs_cache s \<and> (\<forall>kid n. t \<noteq> Refreshing kid n) \<and> (\<forall>kid n. t = Waiting kid n \<longrightarrow> n = jc_refresh_serial (cs_cache s))"
  show ?thesis
    using assms(1,2) a unfolding serials_ok_def by (auto simp: fun_upd_def) (metis+)?
next
  assume a: "c = (cs_cache s)\<lparr>jc_refreshing := True, jc_refresh_serial := Suc (jc_refresh_serial (cs_cache s))\<rparr> \<and>
      t = Refreshing requested (Suc (jc_refresh_serial (cs_cache s)))"
  show ?thesis
    using assms(1,2) a unfolding serials_ok_def by (auto simp: fun_upd_def le_Suc_eq) (metis Suc_n_not_le_n)+
qed

lemma cache_finish_cache:
  assumes "cache_finish serial requested outcome c = (r, c')" "\<forall>e. outcome = Inl e \<longrightarrow> is_Exception e"
  shows "\<not> jc_refreshing c' \<and> jc_refresh_serial c' = jc_refresh_serial c \<and> jc_completed_serial c' = serial"
  using assms by (auto simp: cache_finish_def cache_publish_def cache_failed_def split: sum.splits)

text \<open>What one step does to the serial numbers.\<close>

lemma cache_step_shape:
  assumes "cache_step False public_key i s s'"
  obtains (decides) requested t where "\<forall>kid n. cs_threads s i \<noteq> Refreshing kid n" "decides requested (cs_cache s) t (cs_cache s')"
    "cs_threads s' = (cs_threads s)(i := t)"
  | (finishes) requested serial r where "cs_threads s i = Refreshing requested serial" "cs_threads s' = (cs_threads s)(i := Done requested r)"
    "\<not> jc_refreshing (cs_cache s')" "jc_refresh_serial (cs_cache s') = jc_refresh_serial (cs_cache s)"
  using assms
proof (cases rule: cache_step.cases)
  case (enter old r kid requested clock d c)
  then show thesis using decides [OF _ decided [OF disjI1]] by auto
next
  case (resume requested active d c)
  then show thesis using decides [OF _ decided [OF disjI2]] by auto
next
  case (finish requested serial outcome discovery jwks reading r c)
  then show thesis using finishes [of requested serial r] cache_finish_cache [OF finish(5)] by auto
qed

lemma reached_serials:
  assumes "cache_reaches False public_key s"
  shows "serials_ok s \<and> waits_ok s"
  using assms
proof (induction rule: cache_reaches_induct)
  case init
  then show ?case by (simp add: cache_system_init_def jwks_cache_init_def serials_ok_def waits_ok_def)
next
  case (step i s s')
  then have ok: "serials_ok s" "waits_ok s" by simp_all
  from step.hyps(2) show ?case
  proof (cases rule: cache_step_shape)
    case (decides requested t)
    have s': "s' = \<lparr>cs_cache = cs_cache s', cs_threads = (cs_threads s)(i := t), cs_published = cs_published s'\<rparr>"
      using decides(3) by (cases s') simp
    have "serials_ok s'" by (subst s') (rule decided_serials [OF ok(1) decides(1,2)])
    moreover have "waits_ok s'"
      using ok(2) decides(2,3) unfolding waits_ok_def decides_def by (auto simp: le_Suc_eq)
    ultimately show ?thesis by blast
  next
    case (finishes requested serial r)
    then show ?thesis using ok unfolding serials_ok_def waits_ok_def by auto (metis+)?
  qed
qed

text \<open>A serial number whose refresh has ended is not used again.\<close>

definition ended :: "nat \<Rightarrow> 'k cache_system \<Rightarrow> bool" where
  "ended n s \<longleftrightarrow> n \<le> jc_refresh_serial (cs_cache s) \<and> (\<forall>j kid. cs_threads s j \<noteq> Refreshing kid n)"

lemma ended_step: "cache_step False public_key i s s' \<Longrightarrow> ended n s \<Longrightarrow> ended n s'"
  by (cases rule: cache_step_shape [of public_key i s s'], assumption) (auto simp: ended_def decides_def)

lemma ended_moves: "(cache_moves False public_key)\<^sup>*\<^sup>* s s' \<Longrightarrow> ended n s \<Longrightarrow> ended n s'"
  by (induction rule: rtranclp_induct) (auto simp: cache_moves_def intro: ended_step)

text \<open>
  What a thread that waited for the refresh \<open>n\<close> does when it wakes: it has the result of that refresh if no other one
  has been completed since, and otherwise begins its own; it does not wait again.
\<close>

definition wakes :: "string \<Rightarrow> nat \<Rightarrow> 'k jwks_cache \<Rightarrow> bool" where
  "wakes requested n c \<longleftrightarrow>
     next_thread requested (fst (cache_resume requested n c)) =
       (if jc_completed_serial c = n
        then Done requested
          (if jc_completed_success c
           then (case map_of (jc_keys c) requested of None \<Rightarrow> Inl OIDCVerificationError | Some key \<Rightarrow> Inr key)
           else Inl OIDCVerificationUnavailable)
        else Refreshing requested (Suc (jc_refresh_serial c)))"

lemma ended_wakes:
  assumes "serials_ok s" "ended n s"
  shows "wakes requested n (cs_cache s)"
proof -
  have "\<not> (jc_refreshing (cs_cache s) \<and> jc_refresh_serial (cs_cache s) = n)"
    using assms unfolding serials_ok_def ended_def by blast
  then show ?thesis
    by (auto simp: wakes_def cache_resume_def start_refresh_def next_thread_def split: option.splits)
qed


section \<open>Sample runs\<close>

lemma failing_outcome: "refresh_with public_key (Inl e) jwks reading = Inl e"
  by (simp add: refresh_with_def refresh_keys_def act_bind_def)

lemma sample_kid: "validate_kid (PStr ''k'') = Inr ''k''"
  by code_simp

text \<open>The system after \<open>refreshes\<close> refreshes began and \<open>completed\<close> failed, with the states of two threads.\<close>

definition sample_cache :: "bool \<Rightarrow> nat \<Rightarrow> nat \<Rightarrow> 'k jwks_cache" where
  "sample_cache running refreshes completed = jwks_cache_init\<lparr>jc_refreshing := running, jc_refresh_serial := refreshes,
     jc_completed_serial := completed\<rparr>"

definition sample_system :: "bool \<Rightarrow> nat \<Rightarrow> nat \<Rightarrow> 'k thread \<Rightarrow> 'k thread \<Rightarrow> 'k cache_system" where
  "sample_system running refreshes completed t0 t1 =
     \<lparr>cs_cache = sample_cache running refreshes completed, cs_threads = (\<lambda>_. Idle)(0 := t0, 1 := t1), cs_published = []\<rparr>"

abbreviation unavailable_thread :: "'k thread" where
  "unavailable_thread \<equiv> Done ''k'' (Inl OIDCVerificationUnavailable)"

lemmas sample_defs = sample_system_def sample_cache_def jwks_cache_init_def

lemma enter_step:
  assumes "cs_threads s i \<in> {Idle, unavailable_thread}" "cache_enter (Inr (Number 0)) ''k'' (cs_cache s) = (d, c)"
    "s' = \<lparr>cs_cache = c, cs_threads = (cs_threads s)(i := next_thread ''k'' d), cs_published = cs_published s\<rparr>"
  shows "cache_step interrupts public_key i s s'"
  unfolding assms(3) using assms(1) sample_kid assms(2) by (rule cache_step.enter)

lemma sample_enter:
  assumes "t0 \<in> {Idle, unavailable_thread}"
  shows "cache_step interrupts public_key 0 (sample_system False n m t0 t1)
    (sample_system True (Suc n) m (Refreshing ''k'' (Suc n)) t1)"
  by (rule enter_step [where d = "Inr (Refresh (Suc n))" and c = "sample_cache True (Suc n) m"])
    (use assms in \<open>auto simp: sample_defs cache_enter_def clock_reading_def before_def start_refresh_def next_thread_def\<close>)

lemma sample_wait:
  "cache_step interrupts public_key 1 (sample_system True n m t0 Idle) (sample_system True n m t0 (Waiting ''k'' n))"
  by (rule enter_step [where d = "Inr (Wait n)" and c = "sample_cache True n m"])
    (simp_all add: sample_defs cache_enter_def clock_reading_def before_def next_thread_def)

lemma finish_step:
  assumes "cs_threads s i = Refreshing ''k'' n" "interrupts \<or> is_Exception e"
    "s' = \<lparr>cs_cache = snd (cache_finish n ''k'' (Inl e) (cs_cache s)),
       cs_threads = (cs_threads s)(i := Done ''k'' (fst (cache_finish n ''k'' (Inl e) (cs_cache s)))), cs_published = cs_published s\<rparr>"
  shows "cache_step interrupts public_key i s s'"
proof -
  from cache_step.finish [OF assms(1) failing_outcome [of public_key e "Inl e" "Inl e", symmetric], of interrupts] assms(2,3)
  show ?thesis by (simp add: newly_published_def)
qed

lemma sample_fail:
  "cache_step interrupts public_key 0 (sample_system True n m (Refreshing ''k'' n) t1) (sample_system False n n unavailable_thread t1)"
  by (rule finish_step [where n = n and e = OSError])
    (auto simp: sample_defs cache_finish_def cache_failed_def is_Exception_def)

lemma sample_system_init: "cache_system_init = sample_system False 0 0 Idle Idle"
  by (simp add: cache_system_init_def sample_system_def sample_cache_def jwks_cache_init_def fun_upd_def)

lemma sample_waiting: "cache_reaches interrupts public_key (sample_system True 1 0 (Refreshing ''k'' 1) (Waiting ''k'' 1))"
  using reaches_step [OF reaches_step [OF reaches_init [unfolded sample_system_init] sample_enter] sample_wait]
  by simp


section \<open>A successful refresh\<close>

lemma bit_length_bounds: "n < 2 ^ k \<Longrightarrow> bit_length n \<le> k" "2 ^ k \<le> n \<Longrightarrow> k < bit_length n"
proof -
  show "n < 2 ^ k \<Longrightarrow> bit_length n \<le> k"
  proof (induction k arbitrary: n)
    case (Suc k)
    then have "n div 2 < 2 ^ k" by simp
    from Suc.IH [OF this] show ?case by (subst bit_length.simps) simp
  qed (subst bit_length.simps, simp)
  show "2 ^ k \<le> n \<Longrightarrow> k < bit_length n"
  proof (induction k arbitrary: n)
    case 0
    then show ?case by (subst bit_length.simps) simp
  next
    case (Suc k)
    then have "2 ^ k \<le> n div 2" by simp
    moreover have "0 < n" using Suc.prems by (meson order.strict_trans2 zero_less_numeral zero_less_power)
    ultimately show ?case using Suc.IH [of "n div 2"] by (subst bit_length.simps) simp
  qed
qed

lemma from_bytes_snoc: "from_bytes (bs @ [b]) = from_bytes bs * 256 + of_char b"
  by (simp add: from_bytes_def)

lemma from_bytes_ones: "from_bytes (replicate n (CHR 0xFF)) = 256 ^ n - 1"
proof (induction n)
  case (Suc n)
  have "replicate (Suc n) (CHR 0xFF) = replicate n (CHR 0xFF) @ [CHR 0xFF]" by (simp add: replicate_append_same)
  then have "from_bytes (replicate (Suc n) (CHR 0xFF)) = (256 ^ n - 1) * 256 + 255"
    using Suc by (simp only: from_bytes_snoc) simp
  moreover have "0 < (256 :: nat) ^ n" by simp
  ultimately show ?case by (simp add: algebra_simps)
qed (simp add: from_bytes_def)

definition sample_modulus :: string where "sample_modulus = replicate 256 (CHR 0xFF)"

definition sample_entry :: pydict where
  "sample_entry = [(''alg'', PStr ''RS256''), (''e'', PStr (b64url [CHR 0x01, CHR 0x00, CHR 0x01])), (''kid'', PStr ''k''),
     (''kty'', PStr ''RSA''), (''n'', PStr (b64url sample_modulus)), (''use'', PStr ''sig'')]"

definition sample_jwks :: string where
  "sample_jwks = json_dumps (PDict [(''keys'', PList [PDict sample_entry])])"

lemma length_sample_modulus: "length (b64url sample_modulus) = 342" "length (b64url [CHR 0x01, CHR 0x00, CHR 0x01]) = 4"
  by code_simp+

lemma sample_modulus_bits: "2048 \<le> bit_length (from_bytes sample_modulus)" "bit_length (from_bytes sample_modulus) \<le> 4096"
proof -
  have m: "from_bytes sample_modulus = 2 ^ 2048 - 1"
    by (simp add: sample_modulus_def from_bytes_ones power_mult [of 2 8 256, symmetric, simplified])
  show "2048 \<le> bit_length (from_bytes sample_modulus)"
    unfolding m using bit_length_bounds(2) [of 2047 "2 ^ 2048 - 1"] by simp
  show "bit_length (from_bytes sample_modulus) \<le> 4096"
    unfolding m using bit_length_bounds(1) [of "2 ^ 2048 - 1" 2048] by simp
qed

lemma sample_entry_accepted: "jwks_entry (\<lambda>_ _. Inr ()) [] [] (PDict sample_entry) = Inr (''k'', (), from_bytes sample_modulus, 65537)"
proof -
  have "decode_base64url (PStr (b64url sample_modulus)) 512 = Inr sample_modulus"
    "decode_base64url (PStr (b64url [CHR 0x01, CHR 0x00, CHR 0x01])) 4 = Inr [CHR 0x01, CHR 0x00, CHR 0x01]"
    by (simp_all add: decode_base64url_iff sample_modulus_def)
  moreover have "hd sample_modulus \<noteq> CHR 0x00" "from_bytes [CHR 0x01, CHR 0x00, CHR 0x01] = 65537"
    by (simp_all add: sample_modulus_def from_bytes_def)
  ultimately have "key_material sample_entry = Inr (from_bytes sample_modulus, 65537)"
    using sample_modulus_bits by (simp add: key_material_def sample_entry_def getv_def MAX_EXPONENT_def)
  then show ?thesis
    by (simp add: jwks_entry_def sample_kid optional_field_def REQUIRED_KEY_FIELDS_def OPTIONAL_KEY_FIELDS_def keys_def
        sample_entry_def getv_def)
qed

lemma sample_jwks_accepted: "validate_jwks (\<lambda>_ _. Inr ()) sample_jwks = Inr [(''k'', ())]"
proof -
  let ?d = "[(''keys'', PList [PDict sample_entry])]"
  have "sorted [''alg'', ''e'', ''kid'', ''kty'', ''n'', ''use'']" by code_simp
  then have "csort sample_entry = sample_entry"
    by (subst csort_sorted) (simp_all add: sample_entry_def del: sorted_simps)
  then have c: "csort ?d = ?d" by (simp add: csort_sorted canon_PDict del: canon.simps(2))
  have "length sample_jwks \<le> JWKS_BODY_LIMIT"
    unfolding sample_jwks_def using length_sample_modulus
    by (intro order_trans [OF length_json_dumps]) (simp add: sample_entry_def JWKS_BODY_LIMIT_def length_sample_modulus)
  then have "parse_bounded_json (Bytes sample_jwks) JWKS_BODY_LIMIT 1 JWKS_LIMITS = Inr ?d"
    using parse_bounded_json_dumps [of ?d "[]" JWKS_BODY_LIMIT 1 JWKS_LIMITS] length_sample_modulus unfolding c sample_jwks_def
    by (simp add: sample_entry_def JWKS_LIMITS_def DEFAULT_LIMITS_def MAX_JWKS_KEYS_def)
  then show ?thesis
    using sample_entry_accepted by (simp add: validate_jwks_def keys_def getv_def MAX_JWKS_KEYS_def)
qed

definition sample_discovery :: string where
  "sample_discovery = json_dumps (PDict [(''id_token_signing_alg_values_supported'', PList [PStr ''RS256'']),
     (''issuer'', PStr OIDC_ISSUER), (''jwks_uri'', PStr JWKS_URL)])"

lemma sample_discovery_accepted: "validate_discovery sample_discovery = Inr ()"
proof -
  let ?d = "[(''id_token_signing_alg_values_supported'', PList [PStr ''RS256'']), (''issuer'', PStr OIDC_ISSUER), (''jwks_uri'', PStr JWKS_URL)]"
  have "sorted [''id_token_signing_alg_values_supported'', ''issuer'', ''jwks_uri'']" by code_simp
  then have c: "csort ?d = ?d" by (subst csort_sorted) (simp_all del: sorted_simps)
  have "length sample_discovery \<le> DISCOVERY_BODY_LIMIT"
    unfolding sample_discovery_def
    by (intro order_trans [OF length_json_dumps]) (simp add: OIDC_ISSUER_def JWKS_URL_def JWKS_PATH_def DISCOVERY_BODY_LIMIT_def)
  then have "parse_bounded_json (Bytes sample_discovery) DISCOVERY_BODY_LIMIT 64 DEFAULT_LIMITS = Inr ?d"
    using parse_bounded_json_dumps [of ?d "[]" DISCOVERY_BODY_LIMIT 64 DEFAULT_LIMITS] unfolding c sample_discovery_def
    by (simp add: DEFAULT_LIMITS_def OIDC_ISSUER_def JWKS_URL_def JWKS_PATH_def)
  then show ?thesis by (simp add: validate_discovery_def getv_def)
qed

definition discovery_doc :: http_document where "discovery_doc = \<lparr>doc_body = sample_discovery, doc_cache_ttl = 60\<rparr>"
definition jwks_doc :: http_document where "jwks_doc = \<lparr>doc_body = sample_jwks, doc_cache_ttl = 300\<rparr>"

lemma sample_outcome:
  "refresh_with (\<lambda>_ _. Inr ()) (Inr discovery_doc) (Inr jwks_doc) (Inr (Number 0)) = Inr ([(''k'', ())], to_float 60)"
  by (simp add: refresh_with_def refresh_keys_def act_bind_def discovery_doc_def jwks_doc_def sample_discovery_accepted
      sample_jwks_accepted clock_reading_def MAX_CACHE_TTL_SECONDS_def)

definition sample_refreshed :: "unit cache_system" where
  "sample_refreshed = \<lparr>cs_cache = \<lparr>jc_keys = [(''k'', ())], jc_expires_at = to_float 60, jc_refreshing = False,
     jc_refresh_serial = 1, jc_completed_serial = 1, jc_completed_success = True\<rparr>,
     cs_threads = (\<lambda>_. Idle)(0 := Done ''k'' (Inr ())), cs_published = [jwks_doc]\<rparr>"

lemma sample_success: "cache_step False (\<lambda>_ _. Inr ()) 0 (sample_system True 1 0 (Refreshing ''k'' 1) Idle) sample_refreshed"
proof -
  let ?s = "sample_system True 1 0 (Refreshing ''k'' 1) Idle :: unit cache_system"
  have f: "cache_finish 1 ''k'' (Inr ([(''k'', ())], to_float 60)) (cs_cache ?s) =
      (Inr (), \<lparr>jc_keys = [(''k'', ())], jc_expires_at = to_float 60, jc_refreshing = False,
        jc_refresh_serial = 1, jc_completed_serial = 1, jc_completed_success = True\<rparr>)"
    by (simp add: cache_finish_def cache_publish_def sample_defs)
  have t: "cs_threads ?s 0 = Refreshing ''k'' 1" by (simp add: sample_system_def)
  from cache_step.finish [OF t sample_outcome [symmetric] _ f, of False]
  show ?thesis by (simp add: sample_system_def sample_refreshed_def newly_published_def fun_upd_def cong: if_cong)
qed

text \<open>
  C24: Whatever the interleaving of threads, their refreshes and their failures: a key that a locked section of
  \<open>get_key\<close> gives to its thread is the key under the requested identifier in the key set of the newest document that a refresh has
  published at that moment, so that a key of another identifier, or one that this document no longer has, is never
  returned.  The set has one key per identifier, and the key is an RSA key with a modulus of 2048 to 4096 bits and an
  odd exponent.
\<close>

theorem cache_keys_genuine:
  assumes "cache_reaches interrupts public_key s" and "cache_step interrupts public_key i s s'"
    and "cs_threads s' i = Done kid (Inr key)"
  shows "\<exists>doc older ks. cs_published s' = doc # older \<and> validate_jwks public_key (doc_body doc) = Inr ks \<and>
    map_of ks kid = Some key \<and> distinct (map fst ks) \<and> acceptable_key public_key (kid, key)"
proof -
  have *: "keys_current public_key (cs_published s') (jc_keys (cs_cache s'))" "map_of (jc_keys (cs_cache s')) kid = Some key"
    using step_keys [OF assms(2) reached_keys [OF assms(1)]] assms(3) by blast+
  then obtain doc older where d: "cs_published s' = doc # older" "validate_jwks public_key (doc_body doc) = Inr (jc_keys (cs_cache s'))"
    by (cases "cs_published s'") (auto simp: keys_current_def)
  with validate_jwks_Inr [OF d(2)] map_of_SomeD [OF *(2)] *(2) show ?thesis unfolding list_all_iff by blast
qed

theorem cache_keys_genuine_witness:
  "\<exists>ks. cs_published sample_refreshed = [jwks_doc] \<and> validate_jwks (\<lambda>_ _. Inr ()) sample_jwks = Inr ks \<and>
     map_of ks ''k'' = Some () \<and> distinct (map fst ks) \<and> acceptable_key (\<lambda>_ _. Inr ()) (''k'', ())"
proof -
  have r: "cache_reaches False (\<lambda>_ _. Inr ()) (sample_system True 1 0 (Refreshing ''k'' 1) Idle :: unit cache_system)"
    using reaches_step [OF reaches_init [unfolded sample_system_init] sample_enter] by simp
  have "cs_threads sample_refreshed 0 = Done ''k'' (Inr ())" by (simp add: sample_refreshed_def)
  from cache_keys_genuine [OF r sample_success this] show ?thesis
    by (auto simp: sample_refreshed_def jwks_doc_def)
qed

section \<open>Where refreshes are not serialized\<close>

text \<open>
  The cache is described as serialized.  A thread that wakes when a later refresh than the one it waited for was completed
  begins its own, whether or not one is running, so that two threads refresh at once.
\<close>

lemma sample_resume:
  assumes "m \<noteq> a" "n \<noteq> a"
  shows "cache_step interrupts public_key 1 (sample_system True n m t0 (Waiting ''k'' a))
    (sample_system True (Suc n) m t0 (Refreshing ''k'' (Suc n)))"
  using cache_step.resume [of "sample_system True n m t0 (Waiting ''k'' a)" 1 "''k''" a "Inr (Refresh (Suc n))"
      "sample_cache True (Suc n) m"] assms
  by (simp add: sample_defs cache_resume_def start_refresh_def next_thread_def)

theorem refreshes_overlap:
  "\<exists>s i j kid kid' m n. cache_reaches False public_key s \<and> i \<noteq> j \<and>
     cs_threads s i = Refreshing kid m \<and> cs_threads s j = Refreshing kid' n"
proof -
  let ?s = "sample_system True 4 2 (Refreshing ''k'' 3) (Refreshing ''k'' 4) :: 'a cache_system"
  have "cache_reaches False public_key (sample_system True 1 0 (Refreshing ''k'' 1) (Waiting ''k'' 1))"
    by (rule sample_waiting)
  then have "cache_reaches False public_key (sample_system False 1 1 unavailable_thread (Waiting ''k'' 1))"
    by (rule reaches_step) (rule sample_fail)
  then have "cache_reaches False public_key (sample_system True (Suc 1) 1 (Refreshing ''k'' (Suc 1)) (Waiting ''k'' 1))"
    by (rule reaches_step) (rule sample_enter, simp)
  then have "cache_reaches False public_key (sample_system False (Suc 1) (Suc 1) unavailable_thread (Waiting ''k'' 1))"
    by (rule reaches_step) (rule sample_fail)
  then have "cache_reaches False public_key
      (sample_system True (Suc (Suc 1)) (Suc 1) (Refreshing ''k'' (Suc (Suc 1))) (Waiting ''k'' 1))"
    by (rule reaches_step) (rule sample_enter, simp)
  then have "cache_reaches False public_key
      (sample_system True (Suc (Suc (Suc 1))) (Suc 1) (Refreshing ''k'' (Suc (Suc 1))) (Refreshing ''k'' (Suc (Suc (Suc 1)))))"
    by (rule reaches_step) (rule sample_resume, simp_all)
  then show ?thesis by (intro exI [of _ 0] exI [of _ 1] exI conjI, assumption) (simp_all add: sample_system_def)
qed

text \<open>
  A control exception during a refresh leaves the flag set: no thread that asks for a key afterwards ever gets one.
\<close>

definition blocked :: "'k cache_system \<Rightarrow> bool" where
  "blocked s \<longleftrightarrow> cs_cache s = sample_cache True 1 0 \<and>
     (\<forall>i. cs_threads s i = Idle \<or> (\<exists>kid. cs_threads s i = Waiting kid 1) \<or> (\<exists>kid e. cs_threads s i = Done kid (Inl e)))"

lemma blocked_step:
  assumes "cache_step interrupts public_key i s s'" "blocked s"
  shows "blocked s'"
  using assms
proof (cases rule: cache_step.cases)
  case (enter old r kid requested clock d c)
  then have "c = cs_cache s" "next_thread requested d = Waiting requested 1 \<or> (\<exists>e. next_thread requested d = Done requested (Inl e))"
    using assms(2) by (auto simp: blocked_def cache_enter_def sample_cache_def jwks_cache_init_def next_thread_def
        split: sum.splits if_splits)
  with assms(2) enter(1,2) show ?thesis by (auto simp: blocked_def)
next
  case (resume requested active d c)
  then have "active = 1" using assms(2) by (auto simp: blocked_def dest: spec [of _ i])
  with resume assms(2) show ?thesis
    by (auto simp: blocked_def cache_resume_def sample_cache_def next_thread_def)
next
  case (finish requested serial outcome discovery jwks reading r c)
  with assms(2) show ?thesis by (auto simp: blocked_def dest: spec [of _ i])
qed

theorem interrupted_refresh_blocks:
  "\<exists>s. cache_reaches True public_key s \<and>
     (\<forall>s' i kid key. (cache_moves True public_key)\<^sup>*\<^sup>* s s' \<longrightarrow> cs_threads s' i \<noteq> Done kid (Inr key))"
proof (intro exI conjI allI impI)
  let ?s = "sample_system True 1 0 (Done ''k'' (Inl KeyboardInterrupt)) Idle :: 'a cache_system"
  have "cache_reaches True public_key (sample_system True 1 0 (Refreshing ''k'' 1) Idle)"
    using reaches_step [OF reaches_init [unfolded sample_system_init] sample_enter] by simp
  then show "cache_reaches True public_key ?s"
    by (rule reaches_step) (rule finish_step [where i = 0 and n = 1 and e = KeyboardInterrupt],
      simp_all add: sample_defs cache_finish_def is_Exception_def fun_eq_iff)
  fix s' i kid key
  have "blocked ?s" by (simp add: blocked_def sample_system_def)
  assume "(cache_moves True public_key)\<^sup>*\<^sup>* ?s s'"
  then have "blocked s'"
    by (induction rule: rtranclp_induct) (use \<open>blocked ?s\<close> blocked_step in \<open>auto simp: cache_moves_def\<close>)
  then show "cs_threads s' i \<noteq> Done kid (Inr key)" by (auto simp: blocked_def dest: spec [of _ i])
qed

end
