(* ===== verification/Oidc.thy ===== *)
theory Oidc
  imports Jwks_Run
begin

text \<open>
  \<open>src/deployment/oidc_verifier.py\<close>: the compact token, its three canonical segments, the check of its signature and the
  authorization of its claims.  \<open>jwt.decode\<close> of the PyJWT package is the argument \<open>decode\<close>, a function of the token, the key,
  the algorithms, the issuer, the audience and the required claims; the key cache is the action \<open>get_key\<close>.
\<close>

section \<open>Compact tokens\<close>

definition MAX_COMPACT_TOKEN_BYTES :: nat where "MAX_COMPACT_TOKEN_BYTES = 16 * 1024"
definition MAX_HEADER_BYTES :: nat where "MAX_HEADER_BYTES = 2 * 1024"
definition MAX_CLAIMS_BYTES :: nat where "MAX_CLAIMS_BYTES = 12 * 1024"
definition MAX_SIGNATURE_BYTES :: nat where "MAX_SIGNATURE_BYTES = 512"
definition MAX_HEADER_MEMBERS :: nat where "MAX_HEADER_MEMBERS = 8"
definition MAX_CLAIMS_MEMBERS :: nat where "MAX_CLAIMS_MEMBERS = 64"

definition TOKEN_LIMITS :: json_limits where
  "TOKEN_LIMITS = \<lparr>jl_depth = 4, jl_nodes = 512, jl_array = 32, jl_string = 4096\<rparr>"

definition HEADER_FIELDS :: "string list" where "HEADER_FIELDS = [''alg'', ''kid'', ''typ'', ''x5t'']"
definition THUMBPRINT_SIZE_BYTES :: nat where "THUMBPRINT_SIZE_BYTES = 20"

definition segment :: "string \<Rightarrow> nat \<Rightarrow> string result" where
  "segment s maximum_decoded =
     (if s = [] \<or> PAD \<in> set s \<or> \<not> fullmatch BASE64URL_RE s \<or> length s mod 4 = 1 then Inl OIDCVerificationError
      else bnd (catch_as [ValueError] OIDCVerificationError (urlsafe_b64decode (padded s))) (\<lambda>decoded.
        if decoded = [] \<or> maximum_decoded < length decoded \<or> rstrip_pad (urlsafe_b64encode decoded) \<noteq> s
        then Inl OIDCVerificationError else Inr decoded))"

definition checked_thumbprint :: "pyval \<Rightarrow> unit result" where
  "checked_thumbprint v =
     (case v of
        PStr s \<Rightarrow>
          if length s \<noteq> 27 then Inl OIDCVerificationError
          else bnd (segment s THUMBPRINT_SIZE_BYTES) (\<lambda>d.
            if length d \<noteq> THUMBPRINT_SIZE_BYTES then Inl OIDCVerificationError else Inr ())
      | _ \<Rightarrow> Inl OIDCVerificationError)"

definition checked_header :: "pydict \<Rightarrow> string result" where
  "checked_header header =
     (if \<not> {''alg'', ''kid''} \<subseteq> set (keys header) \<or> \<not> set (keys header) \<subseteq> set HEADER_FIELDS \<or>
         \<not> py_eq (getv header ''alg'') (PStr ''RS256'') then Inl OIDCVerificationError
      else if (case map_of header ''typ'' of None \<Rightarrow> False | Some v \<Rightarrow> \<not> py_eq v (PStr ''JWT'')) then Inl OIDCVerificationError
      else bnd (optional_field header ''x5t'' checked_thumbprint) (\<lambda>_. validate_kid (getv header ''kid'')))"

text \<open>The header is represented by its key identifier, the only member that is read later.\<close>

definition parse_compact_token :: "pyval \<Rightarrow> (string \<times> pydict) result" where
  "parse_compact_token compact_token =
     (case compact_token of
        PStr token \<Rightarrow>
          if \<not> list_all ascii token then Inl OIDCVerificationError
          else if token = [] \<or> MAX_COMPACT_TOKEN_BYTES < length token then Inl OIDCVerificationError
          else (case split_on (CHR ''.'') token of
            [s0, s1, s2] \<Rightarrow>
              if s0 = [] \<or> s1 = [] \<or> s2 = [] then Inl OIDCVerificationError
              else
              bnd (segment s0 MAX_HEADER_BYTES) (\<lambda>header_raw.
              bnd (segment s1 MAX_CLAIMS_BYTES) (\<lambda>claims_raw.
              bnd (segment s2 MAX_SIGNATURE_BYTES) (\<lambda>_.
              bnd (parse_bounded_json (Bytes header_raw) MAX_HEADER_BYTES MAX_HEADER_MEMBERS TOKEN_LIMITS) (\<lambda>header.
              bnd (parse_bounded_json (Bytes claims_raw) MAX_CLAIMS_BYTES MAX_CLAIMS_MEMBERS TOKEN_LIMITS) (\<lambda>claims.
              bnd (checked_header header) (\<lambda>kid. Inr (kid, claims)))))))
          | _ \<Rightarrow> Inl OIDCVerificationError)
      | _ \<Rightarrow> Inl OIDCVerificationError)"

text \<open>Equality of values including their types: \<open>True\<close> is not \<open>1\<close>, and \<open>1\<close> is not \<open>1.0\<close>.\<close>

fun same_json_values :: "pyval \<Rightarrow> pyval \<Rightarrow> bool" where
  "same_json_values (PDict a) v =
     (case v of
        PDict b \<Rightarrow> set (keys a) = set (keys b) \<and>
          list_all (\<lambda>(k, x). case map_of b k of None \<Rightarrow> False | Some y \<Rightarrow> same_json_values x y) a
      | _ \<Rightarrow> False)"
| "same_json_values (PList xs) v =
     (case v of
        PList ys \<Rightarrow> length xs = length ys \<and> list_all (\<lambda>(x, y). same_json_values x y) (zip xs ys)
      | _ \<Rightarrow> False)"
| "same_json_values (PFloat f) v = (v = PFloat f \<and> f \<noteq> NaN)"
| "same_json_values u v = (u = v)"

section \<open>Verification\<close>

type_synonym 'k jwt_decode = "string \<Rightarrow> 'k \<Rightarrow> string list \<Rightarrow> string \<Rightarrow> string \<Rightarrow> string list \<Rightarrow> pyval result"

definition REVIEWED_AUDIENCES :: "string list" where
  "REVIEWED_AUDIENCES = [DEV_AUDIENCE, DEV_ZOT_READ_AUDIENCE, DEV_FORGEJO_READ_AUDIENCE]"

text \<open>\<open>jwt.decode\<close> with every \<open>Exception\<close> turned into the verification error.\<close>

definition decode_token :: "'k jwt_decode \<Rightarrow> pyval \<Rightarrow> 'k \<Rightarrow> string \<Rightarrow> pyval result" where
  "decode_token decode compact_token key aud =
     (case compact_token of
        PStr token \<Rightarrow>
          (case decode token key [''RS256''] DEV_ISSUER aud (sort REQUIRED_AUTHORIZATION_CLAIMS) of
             Inl e \<Rightarrow> Inl (if is_Exception e then OIDCVerificationError else e)
           | Inr verified \<Rightarrow> Inr verified)
      | _ \<Rightarrow> Inl OIDCVerificationError)"

definition verify_bounded_github_oidc_claims ::
    "'k jwt_decode \<Rightarrow> (string \<Rightarrow> ('w, 'k) act) \<Rightarrow> pyval \<Rightarrow> pyval \<Rightarrow> pyval \<Rightarrow> ('w, pydict) act" where
  "verify_bounded_github_oidc_claims decode get_key compact_token received_at audience =
     (case audience of
        PStr aud \<Rightarrow>
          if aud \<notin> set REVIEWED_AUDIENCES then act_lift (Inl OIDCVerificationError)
          else (case received_at of
            PInt seconds \<Rightarrow>
              if seconds < 0 then act_lift (Inl OIDCVerificationError)
              else
              act_bind (act_lift (parse_compact_token compact_token)) (\<lambda>(kid, bounded_claims).
              act_bind (get_key kid) (\<lambda>key.
              act_bind (act_lift (decode_token decode compact_token key aud)) (\<lambda>verified.
              act_lift (if same_json_values verified (PDict bounded_claims) then Inr bounded_claims
                        else Inl OIDCVerificationError))))
          | _ \<Rightarrow> act_lift (Inl OIDCVerificationError))
      | _ \<Rightarrow> act_lift (Inl OIDCVerificationError))"

record ('w, 'k) oidc_verifier =
  ov_expected_workflow_sha :: string
  ov_get_key :: "string \<Rightarrow> ('w, 'k) act"

definition oidc_verifier_init :: "pyval \<Rightarrow> (string \<Rightarrow> ('w, 'k) act) \<Rightarrow> ('w, 'k) oidc_verifier result" where
  "oidc_verifier_init expected_workflow_sha get_key =
     bnd (validate_expected_workflow_sha expected_workflow_sha) (\<lambda>sha.
       Inr \<lparr>ov_expected_workflow_sha = sha, ov_get_key = get_key\<rparr>)"

definition oidc_verify ::
    "'k jwt_decode \<Rightarrow> ('w, 'k) oidc_verifier \<Rightarrow> pyval \<Rightarrow> pyval \<Rightarrow> ('w, authorized_identity) act" where
  "oidc_verify decode v compact_token received_at =
     act_bind (verify_bounded_github_oidc_claims decode (ov_get_key v) compact_token received_at (PStr DEV_AUDIENCE)) (\<lambda>claims.
     act_lift (catch_as [OIDCAuthorizationError] OIDCVerificationError
       (authorize_verified_github_oidc (PDict claims) received_at (PStr (ov_expected_workflow_sha v)))))"

section \<open>Canonical tokens\<close>

lemma segment_iff: "segment s maximum = Inr d \<longleftrightarrow> s = b64url d \<and> d \<noteq> [] \<and> length d \<le> maximum"
proof -
  have "segment s maximum = decode_base64url (PStr s) maximum"
    using is_b64url_facts
    by (auto simp: segment_def decode_base64url_def BASE64URL_RE_def fullmatch_plus list_all_iff)
  then show ?thesis by (simp only: decode_base64url_iff pyval.inject)
qed

lemma join_split_on: "join [c] (split_on c s) = s"
proof (induction s)
  case (Cons x s)
  then show ?case by (cases "split_on c s" rule: join.cases [of "([c], _)", simplified]) auto
qed simp

lemma split_on_free: "c \<notin> set s \<Longrightarrow> split_on c s = [s]"
  by (induction s) auto

lemma split_on_append: "c \<notin> set s \<Longrightarrow> split_on c (s @ c # t) = s # split_on c t"
  by (induction s) auto

text \<open>The compact form of a header, claims and signature.\<close>

definition compact :: "string \<Rightarrow> string \<Rightarrow> string \<Rightarrow> string" where
  "compact h c s = b64url h @ ''.'' @ b64url c @ ''.'' @ b64url s"

lemma dot_not_b64url: "CHR ''.'' \<notin> set (b64url d)"
proof
  assume "CHR ''.'' \<in> set (b64url d)"
  then have "is_b64url (CHR ''.'')" using b64url_shape(1) [of d] by (simp add: list_all_iff)
  then show False by (simp add: is_b64url_def is_alnum_def rng_def is_digit_def)
qed

lemma split_compact: "split_on (CHR ''.'') (compact h c s) = [b64url h, b64url c, b64url s]"
  by (simp add: compact_def split_on_append split_on_free dot_not_b64url)

lemma case_three:
  "(case xs of [a, b, c] \<Rightarrow> f a b c | _ \<Rightarrow> Inl e) = Inr y \<longleftrightarrow> (\<exists>a b c. xs = [a, b, c] \<and> f a b c = Inr y)"
  by (auto split: list.splits)

text \<open>What a compact token is: three encoded parts within their bounds, a checked header and claims.\<close>

definition token_parts :: "string \<Rightarrow> string \<Rightarrow> string \<Rightarrow> string \<Rightarrow> string \<Rightarrow> pydict \<Rightarrow> bool" where
  "token_parts token h c sig kid claims \<longleftrightarrow>
     token = compact h c sig \<and> length token \<le> MAX_COMPACT_TOKEN_BYTES \<and>
     h \<noteq> [] \<and> length h \<le> MAX_HEADER_BYTES \<and> c \<noteq> [] \<and> length c \<le> MAX_CLAIMS_BYTES \<and>
     sig \<noteq> [] \<and> length sig \<le> MAX_SIGNATURE_BYTES \<and>
     bnd (parse_bounded_json (Bytes h) MAX_HEADER_BYTES MAX_HEADER_MEMBERS TOKEN_LIMITS) checked_header = Inr kid \<and>
     parse_bounded_json (Bytes c) MAX_CLAIMS_BYTES MAX_CLAIMS_MEMBERS TOKEN_LIMITS = Inr claims"

lemma compact_ascii: "list_all ascii (compact h c sig)"
proof -
  have "list_all ascii (b64url d)" for d
    using b64url_shape(1) [of d] is_b64url_facts by (auto simp: list_all_iff)
  moreover have "ascii (CHR ''.'')" by (simp add: ascii_def)
  ultimately show ?thesis by (simp add: compact_def)
qed

lemma parse_compact_token_iff:
  "parse_compact_token v = Inr (kid, claims) \<longleftrightarrow> (\<exists>token h c sig. v = PStr token \<and> token_parts token h c sig kid claims)"
  (is "?L \<longleftrightarrow> ?R")
proof
  assume ?L
  then obtain token s0 s1 s2 h c sig where *: "v = PStr token" "length token \<le> MAX_COMPACT_TOKEN_BYTES"
      "split_on (CHR ''.'') token = [s0, s1, s2]" "segment s0 MAX_HEADER_BYTES = Inr h" "segment s1 MAX_CLAIMS_BYTES = Inr c"
      "segment s2 MAX_SIGNATURE_BYTES = Inr sig"
      "bnd (parse_bounded_json (Bytes h) MAX_HEADER_BYTES MAX_HEADER_MEMBERS TOKEN_LIMITS) checked_header = Inr kid"
      "parse_bounded_json (Bytes c) MAX_CLAIMS_BYTES MAX_CLAIMS_MEMBERS TOKEN_LIMITS = Inr claims"
    unfolding parse_compact_token_def case_PStr_Inr case_three if_Inl_Inr_iff bnd_Inr_iff not_less de_Morgan_disj
    by (elim exE conjE, simp only: sum.inject prod.inject, elim conjE) (rule that, auto)
  moreover have "token = compact h c sig"
    using join_split_on [of "CHR ''.''" token] *(3-6) by (simp add: segment_iff compact_def)
  ultimately show ?R unfolding token_parts_def segment_iff by blast
next
  assume ?R
  then obtain token h c sig where *: "v = PStr token" "token_parts token h c sig kid claims" by blast
  then have t: "token = compact h c sig" "h \<noteq> []" "c \<noteq> []" "sig \<noteq> []" by (simp_all add: token_parts_def)
  have seg: "segment (b64url h) MAX_HEADER_BYTES = Inr h" "segment (b64url c) MAX_CLAIMS_BYTES = Inr c"
      "segment (b64url sig) MAX_SIGNATURE_BYTES = Inr sig" "b64url h \<noteq> []" "b64url c \<noteq> []" "b64url sig \<noteq> []"
    using *(2) by (simp_all add: segment_iff token_parts_def b64url_shape(2))
  have "compact h c sig \<noteq> []" by (simp add: compact_def)
  with *(2) seg show ?L
    unfolding *(1) t(1) parse_compact_token_def pyval.case token_parts_def
    by (auto simp: compact_ascii split_compact)
qed

section \<open>What a verified token is\<close>

lemma verify_bounded_Inr:
  assumes "verify_bounded_github_oidc_claims decode get_key (PStr token) (PInt now) (PStr aud) w = (Inr claims, w')"
  shows "\<exists>h c sig kid key verified. token_parts token h c sig kid claims \<and> get_key kid w = (Inr key, w') \<and>
    decode token key [''RS256''] DEV_ISSUER aud (sort REQUIRED_AUTHORIZATION_CLAIMS) = Inr verified \<and>
    same_json_values verified (PDict claims)"
proof -
  obtain kid key verified where *: "parse_compact_token (PStr token) = Inr (kid, claims)" "get_key kid w = (Inr key, w')"
      "decode token key [''RS256''] DEV_ISSUER aud (sort REQUIRED_AUTHORIZATION_CLAIMS) = Inr verified"
      "same_json_values verified (PDict claims)"
    using assms
    by (auto simp: verify_bounded_github_oidc_claims_def act_bind_Inr_iff decode_token_def split: if_splits sum.splits)
  then show ?thesis unfolding parse_compact_token_iff by blast
qed

text \<open>
  A token is verified only as it stands.  When \<open>verify\<close> returns an identity, the token is the compact form of a
  header, claims and a signature within their bounds, its key is the one the cache has for the header's identifier, the
  library accepted exactly this token with that key for RS256, the issuer, the audience and the required claims and read
  the same claims as the bounded parser, and the reviewed policy authorizes these claims at the time of receipt.
\<close>

theorem oidc_verify_sound:
  assumes "oidc_verify decode v (PStr token) (PInt now) w = (Inr i, w')"
  shows "\<exists>h c sig kid claims key verified. token_parts token h c sig kid claims \<and> ov_get_key v kid w = (Inr key, w') \<and>
    decode token key [''RS256''] DEV_ISSUER DEV_AUDIENCE (sort REQUIRED_AUTHORIZATION_CLAIMS) = Inr verified \<and>
    same_json_values verified (PDict claims) \<and>
    authorize_verified_github_oidc (PDict claims) (PInt now) (PStr (ov_expected_workflow_sha v)) = Inr i"
proof -
  obtain claims where *: "verify_bounded_github_oidc_claims decode (ov_get_key v) (PStr token) (PInt now) (PStr DEV_AUDIENCE) w =
      (Inr claims, w')" "authorize_verified_github_oidc (PDict claims) (PInt now) (PStr (ov_expected_workflow_sha v)) = Inr i"
    using assms by (auto simp: oidc_verify_def act_bind_Inr_iff)
  from verify_bounded_Inr [OF *(1)] *(2) show ?thesis by blast
qed

definition sample_token_header :: pydict where "sample_token_header = [(''alg'', PStr ''RS256''), (''kid'', PStr ''k''), (''typ'', PStr ''JWT'')]"

definition sample_token :: string where
  "sample_token = compact (json_dumps (PDict sample_token_header)) (json_dumps (PDict sample_claims)) ''signature''"

definition sample_decode :: "unit jwt_decode" where
  "sample_decode token key algorithms issuer audience required = Inr (PDict sample_claims)"

definition sample_verifier :: "(nat, unit) oidc_verifier" where
  "sample_verifier = \<lparr>ov_expected_workflow_sha = replicate 40 (CHR ''a''), ov_get_key = (\<lambda>_ w. (Inr (), w + 1))\<rparr>"

lemma sample_header_parsed:
  "bnd (parse_bounded_json (Bytes (json_dumps (PDict sample_token_header))) MAX_HEADER_BYTES MAX_HEADER_MEMBERS TOKEN_LIMITS) checked_header =
     Inr ''k''"
  by code_simp

lemma length_b64url: "length (b64url d) \<le> 2 * length d + 2"
proof -
  have "length (b64encode d) \<le> 2 * length d + 2" 
  proof (induction d rule: b64encode.induct)
    case (4 a b c r)
    from 4 [OF refl refl refl] show ?case by (simp add: Let_def)
  qed (simp_all add: Let_def)
  moreover have "length (b64url d) \<le> length (b64encode d)"
    unfolding b64url_def urlsafe_b64encode_def rstrip_pad_def length_rev
    using length_dropWhile_le [of _ "rev (map to_urlsafe (b64encode d))"] by simp
  ultimately show ?thesis by simp
qed

lemma sample_claims_size: "length (json_dumps (PDict sample_claims)) \<le> 6000"
  by (intro order_trans [OF length_json_dumps])
    (simp add: sample_claims_def DEV_ISSUER_def DEV_AUDIENCE_def DEV_REPOSITORY_def DEV_WORKFLOW_REF_def DEV_REF_def
      DEV_ENVIRONMENT_def DEV_EVENT_NAME_def DEV_RUNNER_ENVIRONMENT_def)

lemma sample_claims_parsed:
  "parse_bounded_json (Bytes (json_dumps (PDict sample_claims))) MAX_CLAIMS_BYTES MAX_CLAIMS_MEMBERS TOKEN_LIMITS =
     Inr (csort sample_claims)"
proof -
  have "json_nodes (PDict (csort sample_claims)) \<le> jl_nodes TOKEN_LIMITS"
    "json_height (PDict (csort sample_claims)) \<le> jl_depth TOKEN_LIMITS" "json_sized TOKEN_LIMITS (PDict (csort sample_claims))"
    by code_simp+
  moreover have "plain (PDict sample_claims)" "length sample_claims \<le> MAX_CLAIMS_MEMBERS"
    by (simp_all add: sample_claims_def int_fits_64 MAX_CLAIMS_MEMBERS_def)
  ultimately show ?thesis
    using parse_bounded_json_dumps [of sample_claims "[]"] sample_claims_size by (simp add: MAX_CLAIMS_BYTES_def)
qed

lemma sample_claims_csort:
  "authorize_verified_github_oidc (PDict (csort sample_claims)) (PInt 1010) (PStr (replicate 40 (CHR ''a''))) = Inr sample_identity"
proof -
  have d: "distinct (keys sample_claims)" by code_simp
  have "getv (csort sample_claims) k = getv sample_claims k" if "k \<in> set REQUIRED_AUTHORIZATION_CLAIMS" for k
    using that unfolding getv_csort [OF d]
    by (auto simp: REQUIRED_AUTHORIZATION_CLAIMS_def sample_claims_def getv_def)
  moreover have "set REQUIRED_AUTHORIZATION_CLAIMS \<subseteq> set (keys sample_claims)"
    by (simp add: REQUIRED_AUTHORIZATION_CLAIMS_def sample_claims_def keys_def)
  ultimately show ?thesis
    using extra_claims_ignored [of "csort sample_claims" sample_claims] sample_claims_authorized by (simp add: set_keys_csort)
qed

lemma sample_same: "same_json_values (PDict sample_claims) (PDict (csort sample_claims))"
  by code_simp

lemma sample_token_parts:
  "token_parts sample_token (json_dumps (PDict sample_token_header)) (json_dumps (PDict sample_claims)) ''signature'' ''k''
     (csort sample_claims)"
proof -
  have h: "length (json_dumps (PDict sample_token_header)) \<le> 300"
    by (intro order_trans [OF length_json_dumps]) (simp add: sample_token_header_def)
  have "length sample_token \<le> MAX_COMPACT_TOKEN_BYTES"
    using length_b64url [of "json_dumps (PDict sample_token_header)"] length_b64url [of "json_dumps (PDict sample_claims)"]
      length_b64url [of "''signature''"] h sample_claims_size
    by (simp add: sample_token_def compact_def MAX_COMPACT_TOKEN_BYTES_def)
  then show ?thesis
    unfolding token_parts_def sample_header_parsed sample_claims_parsed using h sample_claims_size
    by (simp add: sample_token_def MAX_HEADER_BYTES_def MAX_CLAIMS_BYTES_def MAX_SIGNATURE_BYTES_def json_dumps_def)
qed

lemma sample_verified: "oidc_verify sample_decode sample_verifier (PStr sample_token) (PInt 1010) 0 = (Inr sample_identity, 1)"
proof -
  have "parse_compact_token (PStr sample_token) = Inr (''k'', csort sample_claims)"
    using sample_token_parts unfolding parse_compact_token_iff by blast
  then show ?thesis
    by (simp add: oidc_verify_def verify_bounded_github_oidc_claims_def REVIEWED_AUDIENCES_def act_bind_def sample_verifier_def
        decode_token_def sample_decode_def sample_same sample_claims_csort del: same_json_values.simps)
qed

theorem oidc_verify_sound_witness:
  "\<exists>h c sig kid claims. token_parts sample_token h c sig kid claims \<and>
     authorize_verified_github_oidc (PDict claims) (PInt 1010) (PStr (replicate 40 (CHR ''a''))) = Inr sample_identity"
  using oidc_verify_sound [OF sample_verified] by (simp add: sample_verifier_def) blast

section \<open>What verification raises\<close>

definition verification_error :: "exn \<Rightarrow> bool" where
  "verification_error e \<longleftrightarrow> e \<in> {OIDCVerificationError, OIDCVerificationUnavailable} \<or> \<not> is_Exception e"

lemma segment_raises [raise_rules]: "raises_only {OIDCVerificationError} (segment s n)"
proof -
  have "segment s n = decode_base64url (PStr s) n"
    using is_b64url_facts
    by (auto simp: segment_def decode_base64url_def BASE64URL_RE_def fullmatch_plus list_all_iff)
  then show ?thesis by (simp only: decode_base64url_raises)
qed

lemma validate_kid_raises [raise_rules]: "raises_only {OIDCVerificationError} (validate_kid v)"
  by (cases v) (simp_all add: validate_kid_def raises_only_def)

lemma checked_header_raises [raise_rules]: "raises_only {OIDCVerificationError} (checked_header header)"
proof -
  have "raises_only {OIDCVerificationError} (checked_thumbprint v)" for v
    by (cases v) (auto simp: checked_thumbprint_def intro!: raise_rules)
  then show ?thesis
    unfolding checked_header_def optional_field_def by (auto split: option.splits intro!: raise_rules)
qed

lemma parse_compact_token_raises: "raises_only {OIDCVerificationError} (parse_compact_token v)"
  by (cases v) (auto simp: parse_compact_token_def split: list.splits intro!: raise_rules)

text \<open>With a cache that raises only verification errors or control exceptions, so does the verifier.\<close>

theorem oidc_verify_raises:
  assumes "\<And>kid w e w'. ov_get_key v kid w = (Inl e, w') \<Longrightarrow> verification_error e"
    and "oidc_verify decode v token received_at w = (Inl e, w')"
  shows "verification_error e"
proof -
  have "raises_only {OIDCVerificationError} (catch_as [OIDCAuthorizationError] OIDCVerificationError
      (authorize_verified_github_oidc (PDict claims) received_at (PStr (ov_expected_workflow_sha v))))" for claims
    unfolding authorize_verified_github_oidc_def
    by (rule raises_only_catch_as [OF authorize_with_policy_raises [of "{OIDCAuthorizationError}"]])
      (simp_all add: caught_def isinstance_exn_def)
  then have a: "catch_as [OIDCAuthorizationError] OIDCVerificationError
      (authorize_verified_github_oidc (PDict claims) received_at (PStr (ov_expected_workflow_sha v))) = Inl e' \<Longrightarrow>
      verification_error e'" for claims e'
    by (auto simp: raises_only_def verification_error_def)
  have p: "parse_compact_token token = Inl e' \<Longrightarrow> verification_error e'" for e'
    using raises_onlyD [OF parse_compact_token_raises] by (auto simp: verification_error_def)
  have ve: "verification_error OIDCVerificationError" by (simp add: verification_error_def)
  have d: "decode_token decode token key aud = Inl e' \<Longrightarrow> verification_error e'" for key aud e'
    by (cases token) (auto simp: decode_token_def verification_error_def split: sum.splits if_splits)
  have "verify_bounded_github_oidc_claims decode (ov_get_key v) token received_at (PStr DEV_AUDIENCE) w = (Inl e', w1) \<Longrightarrow>
      verification_error e'" for e' w1
    using p d assms(1)
    by (cases received_at) (auto simp: verify_bounded_github_oidc_claims_def act_bind_Inl_iff ve split: if_splits)
  then show ?thesis
    using assms(2) a by (auto simp: oidc_verify_def act_bind_Inl_iff)
qed

end
