(* ===== verification/Ingress.thy ===== *)
theory Ingress
  imports Oidc Promotion
begin

text \<open>
  \<open>src/deployment/broker_https_ingress.py\<close> and \<open>src/deployment/broker_integration.py\<close>: the HTTP request that carries
  three tokens and a promotion request, and the handler that gives them to the broker.  A tuple or list of the framed
  request is a \<open>PList\<close>; the raw token pair that travels with a promotion is the list of the two texts.
\<close>

section \<open>The framed request\<close>

definition PUBLIC_HOST :: string where "PUBLIC_HOST = ''deploy-dev.omnilyzer.ai''"
definition PROMOTION_PATH :: string where "PROMOTION_PATH = ''/task014/dev/promote''"
definition MAX_PROMOTION_REQUEST_BYTES :: nat where "MAX_PROMOTION_REQUEST_BYTES = 4096"

definition REQUIRED_HEADERS :: "string list" where
  "REQUIRED_HEADERS = [''host'', ''authorization'', ''x-omnilyzer-zot-oidc'', ''x-omnilyzer-forgejo-oidc'',
     ''content-type'', ''content-length'']"

definition status_body :: "string \<Rightarrow> string" where
  "status_body s = ''{'' @ [QUOTE] @ ''status'' @ [QUOTE] @ '':'' @ [QUOTE] @ s @ [QUOTE] @ ''}'' @ [NEWLINE]"

definition REJECTED_BODY :: string where "REJECTED_BODY = status_body ''rejected''"
definition UNAVAILABLE_BODY :: string where "UNAVAILABLE_BODY = status_body ''unavailable''"
definition ACCEPTED_BODY :: string where "ACCEPTED_BODY = status_body ''accepted''"

record promotion_ingress =
  pi_compact_token :: string
  pi_zot_token :: string
  pi_forgejo_token :: string
  pi_promotion_request :: string
  pi_received_at :: int

record ingress_response =
  ir_status :: int
  ir_body :: string
  ir_content_type :: string

definition ingress_response_init :: "int \<Rightarrow> string \<Rightarrow> string \<Rightarrow> ingress_response result" where
  "ingress_response_init status body content_type =
     (if (status, body) \<notin> {(202, ACCEPTED_BODY), (403, REJECTED_BODY), (503, UNAVAILABLE_BODY)} \<or>
         content_type \<noteq> ''application/json'' then Inl TypeError
      else Inr \<lparr>ir_status = status, ir_body = body, ir_content_type = content_type\<rparr>)"

definition ingress_token :: "string \<Rightarrow> string result" where
  "ingress_token s =
     (if \<not> list_all ascii s \<or> s = [] \<or> MAX_COMPACT_TOKEN_BYTES < length s \<or>
         list_ex (\<lambda>c. (of_char c :: nat) \<le> 32 \<or> 127 \<le> (of_char c :: nat) \<or> c = CHR '','') s
      then Inl IngressRejectedError else Inr s)"

text \<open>One header pair, after the names seen before.\<close>

definition header_pair :: "(string \<times> string) list \<Rightarrow> pyval \<Rightarrow> (string \<times> string) result" where
  "header_pair seen v =
     (case v of
        PList [PStr name, PStr value] \<Rightarrow>
          if 64 < length name \<or> MAX_COMPACT_TOKEN_BYTES + 7 < length value then Inl IngressRejectedError
          else if \<not> list_all ascii name \<or> \<not> list_all ascii value then Inl IngressRejectedError
          else if lower name \<notin> set REQUIRED_HEADERS \<or> lower name \<in> set (map fst seen) \<or>
             list_ex (\<lambda>c. (of_char c :: nat) \<le> 32 \<or> 127 \<le> (of_char c :: nat)) (lower name) \<or>
             list_ex (\<lambda>c. (of_char c :: nat) \<in> {0, 10, 13, 127}) value
          then Inl IngressRejectedError
          else Inr (lower name, value)
      | _ \<Rightarrow> Inl IngressRejectedError)"

fun header_values :: "(string \<times> string) list \<Rightarrow> pyval list \<Rightarrow> (string \<times> string) list result" where
  "header_values seen [] = Inr seen"
| "header_values seen (v # vs) = bnd (header_pair seen v) (\<lambda>p. header_values (seen @ [p]) vs)"

definition value_of :: "(string \<times> string) list \<Rightarrow> string \<Rightarrow> string" where
  "value_of values k = (case map_of values k of None \<Rightarrow> [] | Some v \<Rightarrow> v)"

definition parse_dev_promotion_ingress ::
    "pyval \<Rightarrow> pyval \<Rightarrow> pyval \<Rightarrow> reply \<Rightarrow> pyval \<Rightarrow> promotion_ingress result" where
  "parse_dev_promotion_ingress http_method path headers body received_at =
     (case (http_method, path, headers, body, received_at) of
        (PStr verb, PStr p, PList items, Bytes b, PInt seconds) \<Rightarrow>
          if verb \<noteq> ''POST'' \<or> p \<noteq> PROMOTION_PATH \<or> b = [] \<or> MAX_PROMOTION_REQUEST_BYTES < length b \<or> seconds < 0 \<or>
             length items \<noteq> length REQUIRED_HEADERS
          then Inl IngressRejectedError
          else
          bnd (header_values [] items) (\<lambda>values.
          if set (map fst values) \<noteq> set REQUIRED_HEADERS \<or> value_of values ''host'' \<noteq> PUBLIC_HOST \<or>
             value_of values ''content-type'' \<noteq> ''application/json'' then Inl IngressRejectedError
          else if value_of values ''content-length'' = [] \<or> \<not> list_all is_digit (value_of values ''content-length'') \<or>
             value_of values ''content-length'' \<noteq> str_of_int (int (length b)) then Inl IngressRejectedError
          else if \<not> starts_with ''Bearer '' (value_of values ''authorization'') then Inl IngressRejectedError
          else
          bnd (ingress_token (drop 7 (value_of values ''authorization''))) (\<lambda>token.
          bnd (ingress_token (value_of values ''x-omnilyzer-zot-oidc'')) (\<lambda>zot.
          bnd (ingress_token (value_of values ''x-omnilyzer-forgejo-oidc'')) (\<lambda>forgejo.
            Inr \<lparr>pi_compact_token = token, pi_zot_token = zot, pi_forgejo_token = forgejo, pi_promotion_request = b,
                 pi_received_at = seconds\<rparr>))))
      | _ \<Rightarrow> Inl IngressRejectedError)"

section \<open>The handler\<close>

definition PROMOTION_LIMITS :: json_limits where
  "PROMOTION_LIMITS = \<lparr>jl_depth = 2, jl_nodes = 32, jl_array = 0, jl_string = 2048\<rparr>"

definition handler_token :: "pyval \<Rightarrow> bool" where
  "handler_token v = (case v of PStr s \<Rightarrow> list_all ascii s \<and> s \<noteq> [] \<and> length s \<le> MAX_COMPACT_TOKEN_BYTES | _ \<Rightarrow> False)"

definition parse_promotion :: "string \<Rightarrow> promotion_request result" where
  "parse_promotion raw =
     catch_as [OIDCVerificationError, DeploymentPolicyError, UnicodeDecodeError, ValueError] BrokerRejectedError
       (bnd (parse_bounded_json (Bytes raw) MAX_PROMOTION_REQUEST_BYTES 11 PROMOTION_LIMITS) (\<lambda>data.
        bnd (request_from_dict (PDict data)) (\<lambda>promotion.
        if request_canonical_bytes promotion \<noteq> raw then Inl DeploymentPolicyError else Inr promotion)))"

definition handle_promotion ::
    "'w broker \<Rightarrow> pyval \<Rightarrow> pyval \<Rightarrow> pyval \<Rightarrow> reply \<Rightarrow> pyval \<Rightarrow> ('w broker_world, reply) act" where
  "handle_promotion b compact_token zot_token forgejo_token promotion_request received_at =
     (case (promotion_request, received_at) of
        (Bytes raw, PInt seconds) \<Rightarrow>
          if \<not> handler_token compact_token \<or> \<not> handler_token zot_token \<or> \<not> handler_token forgejo_token \<or>
             raw = [] \<or> MAX_PROMOTION_REQUEST_BYTES < length raw \<or> seconds < 0
          then act_lift (Inl BrokerRejectedError)
          else
          act_bind (act_lift (parse_promotion raw)) (\<lambda>promotion.
          act_bind (authorize_promotion_and_forward b compact_token (request_to_dict promotion)
            (PList [zot_token, forgejo_token]) received_at) (\<lambda>response. act_lift (Inr (Bytes response))))
      | _ \<Rightarrow> act_lift (Inl BrokerRejectedError))"

text \<open>
  \<open>_ReleaseRequestBuilder.build\<close>: the class of the verified context is compared before the registry clients are made from
  it; \<open>create\<close> and \<open>acquire\<close> stand for the factory and for \<open>acquire_and_construct_dev_request\<close>.
\<close>

definition release_build ::
    "('c \<Rightarrow> string) \<Rightarrow> string \<Rightarrow> ('c \<Rightarrow> ('w, 'z \<times> 'f \<times> 'o) act) \<Rightarrow>
     ('p \<Rightarrow> 'i \<Rightarrow> 'z \<Rightarrow> 'f \<Rightarrow> 'o \<Rightarrow> int \<Rightarrow> string \<Rightarrow> ('w, 'r) act) \<Rightarrow> string \<Rightarrow> 'p \<Rightarrow> 'i \<Rightarrow> 'c \<Rightarrow> int \<Rightarrow> ('w, 'r) act" where
  "release_build class_of verified_context_type create acquire expected_workflow_sha promotion identity verified_context received_at =
     (if class_of verified_context \<noteq> verified_context_type then act_lift (Inl TypeError)
      else act_bind (create verified_context) (\<lambda>(zot, forgejo, oci).
        acquire promotion identity zot forgejo oci received_at expected_workflow_sha))"

section \<open>Dispatch\<close>

type_synonym 'w promotion_handler = "pyval \<Rightarrow> pyval \<Rightarrow> pyval \<Rightarrow> reply \<Rightarrow> pyval \<Rightarrow> ('w, reply) act"

definition call_handler :: "'w promotion_handler attribute option \<Rightarrow> promotion_ingress \<Rightarrow> ('w, int \<times> string) act" where
  "call_handler handler request =
     act_catch
       (act_bind (act_lift (bound_operation handler)) (\<lambda>handle.
        act_bind (handle (PStr (pi_compact_token request)) (PStr (pi_zot_token request)) (PStr (pi_forgejo_token request))
          (Bytes (pi_promotion_request request)) (PInt (pi_received_at request))) (\<lambda>result.
        case result of
          Not_Bytes \<Rightarrow> act_lift (Inl BrokerUnavailableError)
        | Bytes r \<Rightarrow>
            act_lift (if MAX_EXECUTOR_RESPONSE_BYTES < length r then Inl BrokerUnavailableError else Inr (202, ACCEPTED_BODY)))))
       (\<lambda>e. act_lift (if caught e [BrokerRejectedError] then Inr (403, REJECTED_BODY)
                       else if is_Exception e then Inr (503, UNAVAILABLE_BODY) else Inl e))"

definition dispatch_inert_dev_promotion_ingress ::
    "'w promotion_handler attribute option \<Rightarrow> pyval \<Rightarrow> pyval \<Rightarrow> pyval \<Rightarrow> reply \<Rightarrow> pyval \<Rightarrow> ('w, ingress_response) act" where
  "dispatch_inert_dev_promotion_ingress handler http_method path headers body received_at =
     act_bind (case parse_dev_promotion_ingress http_method path headers body received_at of
         Inl e \<Rightarrow> act_lift (if caught e [IngressRejectedError] then Inr (403, REJECTED_BODY) else Inl e)
       | Inr request \<Rightarrow> call_handler handler request) (\<lambda>(status, answer).
       act_lift (ingress_response_init status answer ''application/json''))"

section \<open>The accepted requests\<close>

definition header_ok :: "string \<times> string \<Rightarrow> bool" where
  "header_ok p \<longleftrightarrow> list_all ascii (fst p) \<and> list_all ascii (snd p) \<and> length (snd p) \<le> MAX_COMPACT_TOKEN_BYTES + 7 \<and>
     list_all (\<lambda>c. (of_char c :: nat) \<notin> {0, 10, 13, 127}) (snd p)"

definition named :: "(string \<times> string) list \<Rightarrow> (string \<times> string) list" where
  "named pairs = map (\<lambda>(name, value). (lower name, value)) pairs"

definition pair_item :: "string \<times> string \<Rightarrow> pyval" where
  "pair_item p = PList [PStr (fst p), PStr (snd p)]"

lemma required_name:
  "lower name \<in> set REQUIRED_HEADERS \<Longrightarrow> length name \<le> 64 \<and>
     \<not> list_ex (\<lambda>c. (of_char c :: nat) \<le> 32 \<or> 127 \<le> (of_char c :: nat)) (lower name)"
proof -
  have "length (lower name) = length name" by (simp add: lower_def)
  then show "lower name \<in> set REQUIRED_HEADERS \<Longrightarrow> ?thesis"
    by (auto simp: REQUIRED_HEADERS_def)
qed

lemma header_pair_Inr:
  "header_pair seen v = Inr q \<longleftrightarrow>
     (\<exists>p. v = pair_item p \<and> q = (lower (fst p), snd p) \<and> header_ok p \<and> lower (fst p) \<in> set REQUIRED_HEADERS \<and>
        lower (fst p) \<notin> set (map fst seen))"
  (is "?L \<longleftrightarrow> ?R")
proof
  assume ?L
  then show ?R
    by (auto simp: header_pair_def pair_item_def header_ok_def list_all_iff list_ex_iff split: pyval.splits list.splits if_splits)
next
  assume ?R
  then show ?L
    using required_name
    by (auto simp: header_pair_def pair_item_def header_ok_def list_all_iff list_ex_iff not_less)
qed

lemma header_values_Inr:
  assumes "distinct (map fst seen)"
  shows "header_values seen vs = Inr values \<longleftrightarrow>
     (\<exists>pairs. vs = map pair_item pairs \<and> values = seen @ named pairs \<and> list_all header_ok pairs \<and>
        set (map fst (named pairs)) \<subseteq> set REQUIRED_HEADERS \<and> distinct (map fst (seen @ named pairs)))"
  using assms
proof (induction vs arbitrary: seen)
  case (Cons v vs)
  show ?case (is "?L \<longleftrightarrow> ?R")
  proof
    assume ?L
    then obtain p where p: "v = pair_item p" "header_ok p" "lower (fst p) \<in> set REQUIRED_HEADERS" "lower (fst p) \<notin> set (map fst seen)"
        "header_values (seen @ [(lower (fst p), snd p)]) vs = Inr values"
      by (auto simp: header_pair_Inr)
    with Cons.prems have "distinct (map fst (seen @ [(lower (fst p), snd p)]))" by simp
    from Cons.IH [OF this] p(5) obtain pairs where "vs = map pair_item pairs" "values = seen @ named (p # pairs)"
        "list_all header_ok pairs" "set (map fst (named pairs)) \<subseteq> set REQUIRED_HEADERS" "distinct (map fst (seen @ named (p # pairs)))"
      by (auto simp: named_def case_prod_unfold)
    with p show ?R by (intro exI [of _ "p # pairs"]) (simp add: named_def case_prod_unfold)
  next
    assume ?R
    then obtain pairs0 where *: "v # vs = map pair_item pairs0" "values = seen @ named pairs0" "list_all header_ok pairs0"
        "set (map fst (named pairs0)) \<subseteq> set REQUIRED_HEADERS" "distinct (map fst (seen @ named pairs0))"
      by (elim exE conjE)
    then obtain p pairs where pp: "pairs0 = p # pairs" by (cases pairs0) auto
    have d: "distinct (map fst (seen @ [(lower (fst p), snd p)]))"
      using *(5) by (simp add: pp named_def case_prod_unfold)
    have "header_pair seen v = Inr (lower (fst p), snd p)"
      using * unfolding header_pair_Inr by (intro exI [of _ p]) (auto simp: pp named_def case_prod_unfold)
    moreover have "header_values (seen @ [(lower (fst p), snd p)]) vs = Inr values"
      using * unfolding Cons.IH [OF d] by (intro exI [of _ pairs]) (auto simp: pp named_def case_prod_unfold)
    ultimately show ?L by simp
  qed
qed (auto simp: named_def)

definition token_text :: "string \<Rightarrow> bool" where
  "token_text t \<longleftrightarrow> t \<noteq> [] \<and> length t \<le> MAX_COMPACT_TOKEN_BYTES \<and>
     list_all (\<lambda>c. 32 < (of_char c :: nat) \<and> (of_char c :: nat) < 127 \<and> c \<noteq> CHR '','') t"

lemma list_all_not_ex: "list_all A s \<and> \<not> list_ex B s \<longleftrightarrow> list_all (\<lambda>c. A c \<and> \<not> B c) s"
  by (auto simp: list_all_iff list_ex_iff)

lemma ingress_token_Inr: "ingress_token s = Inr t \<longleftrightarrow> s = t \<and> token_text t"
proof -
  let ?B = "\<lambda>c. (of_char c :: nat) \<le> 32 \<or> 127 \<le> (of_char c :: nat) \<or> c = CHR '',''"
  have "(\<lambda>c. ascii c \<and> \<not> ?B c) = (\<lambda>c. 32 < (of_char c :: nat) \<and> (of_char c :: nat) < 127 \<and> c \<noteq> CHR '','')"
    by (rule ext) (simp only: ascii_def, linarith)
  then have "token_text s \<longleftrightarrow> s \<noteq> [] \<and> length s \<le> MAX_COMPACT_TOKEN_BYTES \<and> list_all ascii s \<and> \<not> list_ex ?B s"
    unfolding token_text_def list_all_not_ex by simp
  then show ?thesis
    by (simp only: ingress_token_def if_Inl_Inr_iff sum.inject de_Morgan_disj not_not not_less) blast
qed

text \<open>The six headers, each once under any spelling of its name, with the values that a request \<open>q\<close> is read from.\<close>

definition ingress_ok :: "(string \<times> string) list \<Rightarrow> promotion_ingress \<Rightarrow> bool" where
  "ingress_ok pairs q \<longleftrightarrow>
     list_all header_ok pairs \<and> distinct (map fst (named pairs)) \<and> set (map fst (named pairs)) = set REQUIRED_HEADERS \<and>
     map_of (named pairs) ''host'' = Some PUBLIC_HOST \<and> map_of (named pairs) ''content-type'' = Some ''application/json'' \<and>
     map_of (named pairs) ''content-length'' = Some (str_of_int (int (length (pi_promotion_request q)))) \<and>
     map_of (named pairs) ''authorization'' = Some (''Bearer '' @ pi_compact_token q) \<and>
     map_of (named pairs) ''x-omnilyzer-zot-oidc'' = Some (pi_zot_token q) \<and>
     map_of (named pairs) ''x-omnilyzer-forgejo-oidc'' = Some (pi_forgejo_token q) \<and>
     token_text (pi_compact_token q) \<and> token_text (pi_zot_token q) \<and> token_text (pi_forgejo_token q) \<and>
     pi_promotion_request q \<noteq> [] \<and> length (pi_promotion_request q) \<le> MAX_PROMOTION_REQUEST_BYTES \<and> 0 \<le> pi_received_at q"

lemma value_of_eq: "set (map fst values) = set REQUIRED_HEADERS \<Longrightarrow> k \<in> set REQUIRED_HEADERS \<Longrightarrow>
    map_of values k = Some (value_of values k)"
  by (metis map_of_eq_None_iff option.exhaust option.simps(5) set_map value_of_def)

lemma value_of_Some [simp]: "map_of values k = Some v \<Longrightarrow> value_of values k = v"
  by (simp add: value_of_def)

lemma digits_of_length: "str_of_int (int n) \<noteq> []" "list_all is_digit (str_of_int (int n))"
  by (simp_all add: str_of_int_def nat_str_digits)

lemma length_bearer: "length ''Bearer '' = 7"
  by simp

lemma bearer: "starts_with ''Bearer '' s \<and> drop 7 s = t \<longleftrightarrow> s = ''Bearer '' @ t"
proof
  assume "starts_with ''Bearer '' s \<and> drop 7 s = t"
  then show "s = ''Bearer '' @ t"
    using append_take_drop_id [of "length ''Bearer ''" s] unfolding starts_with_def by (metis length_bearer)
qed (simp add: starts_with_def)

lemma parse_ingress_iff:
  "parse_dev_promotion_ingress m p h b r = Inr q \<longleftrightarrow>
     m = PStr ''POST'' \<and> p = PStr PROMOTION_PATH \<and> b = Bytes (pi_promotion_request q) \<and> r = PInt (pi_received_at q) \<and>
     (\<exists>pairs. h = PList (map pair_item pairs) \<and> ingress_ok pairs q)"
  (is "?L \<longleftrightarrow> ?R")
proof
  assume ?L
  then obtain items body seconds vals token zot forgejo where *:
      "m = PStr ''POST''" "p = PStr PROMOTION_PATH" "h = PList items" "b = Bytes body" "r = PInt seconds"
      "body \<noteq> []" "length body \<le> MAX_PROMOTION_REQUEST_BYTES" "0 \<le> seconds"
      "header_values [] items = Inr vals" "set (map fst vals) = set REQUIRED_HEADERS"
      "value_of vals ''host'' = PUBLIC_HOST" "value_of vals ''content-type'' = ''application/json''"
      "value_of vals ''content-length'' = str_of_int (int (length body))"
      "starts_with ''Bearer '' (value_of vals ''authorization'')"
      "ingress_token (drop 7 (value_of vals ''authorization'')) = Inr token"
      "ingress_token (value_of vals ''x-omnilyzer-zot-oidc'') = Inr zot"
      "ingress_token (value_of vals ''x-omnilyzer-forgejo-oidc'') = Inr forgejo"
      "q = \<lparr>pi_compact_token = token, pi_zot_token = zot, pi_forgejo_token = forgejo, pi_promotion_request = body,
            pi_received_at = seconds\<rparr>"
    by (auto simp: parse_dev_promotion_ingress_def not_less split: pyval.splits reply.splits if_splits)
  obtain pairs where pairs: "items = map pair_item pairs" "vals = named pairs" "list_all header_ok pairs" "distinct (map fst (named pairs))"
    using *(9) header_values_Inr [of "[]"] by auto
  have tokens: "value_of vals ''authorization'' = ''Bearer '' @ token" "value_of vals ''x-omnilyzer-zot-oidc'' = zot"
      "value_of vals ''x-omnilyzer-forgejo-oidc'' = forgejo" "token_text token" "token_text zot" "token_text forgejo"
    using *(14-17) bearer unfolding ingress_token_Inr by blast+
  have g: "map_of (named pairs) k = Some (value_of vals k)" if "k \<in> set REQUIRED_HEADERS" for k
    using value_of_eq [OF *(10) that] unfolding pairs(2) .
  have "map_of (named pairs) ''host'' = Some PUBLIC_HOST" "map_of (named pairs) ''content-type'' = Some ''application/json''"
      "map_of (named pairs) ''content-length'' = Some (str_of_int (int (length body)))"
      "map_of (named pairs) ''authorization'' = Some (''Bearer '' @ token)"
      "map_of (named pairs) ''x-omnilyzer-zot-oidc'' = Some zot" "map_of (named pairs) ''x-omnilyzer-forgejo-oidc'' = Some forgejo"
    by (subst g; simp add: REQUIRED_HEADERS_def tokens(1-3) *(11-13))+
  moreover have "set (map fst (named pairs)) = set REQUIRED_HEADERS" using *(10) unfolding pairs(2) .
  ultimately have "ingress_ok pairs q"
    unfolding ingress_ok_def *(18) promotion_ingress.simps using pairs(3,4) tokens(4-6) *(6-8) by blast
  with * pairs(1) show ?R by auto
next
  assume ?R
  then obtain pairs where *: "m = PStr ''POST''" "p = PStr PROMOTION_PATH" "b = Bytes (pi_promotion_request q)"
      "r = PInt (pi_received_at q)" "h = PList (map pair_item pairs)" "ingress_ok pairs q"
    by blast
  have v: "header_values [] (map pair_item pairs) = Inr (named pairs)"
    using *(6) header_values_Inr [of "[]" "map pair_item pairs" "named pairs"] by (auto simp: ingress_ok_def)
  have ok: "distinct (map fst (named pairs))" "set (map fst (named pairs)) = set REQUIRED_HEADERS"
    using *(6) unfolding ingress_ok_def by blast+
  have "length (map fst (named pairs)) = card (set REQUIRED_HEADERS)"
    using distinct_card [OF ok(1)] unfolding ok(2) by simp
  moreover have "length (map fst (named pairs)) = length pairs" by (simp add: named_def)
  ultimately have "length pairs = length REQUIRED_HEADERS" by (simp add: REQUIRED_HEADERS_def)
  with *(6) v show ?L
    unfolding *(1-5) ingress_ok_def
    by (simp add: parse_dev_promotion_ingress_def ingress_token_Inr starts_with_def digits_of_length not_less)
qed

section \<open>What a caller sees\<close>

lemma parse_ingress_Inl: "parse_dev_promotion_ingress m p h b r = Inl e \<Longrightarrow> e = IngressRejectedError"
proof -
  have pair: "header_pair seen v = Inl e \<Longrightarrow> e = IngressRejectedError" for seen v
    by (auto simp: header_pair_def split: pyval.splits list.splits if_splits)
  have values': "header_values seen vs = Inl e \<Longrightarrow> e = IngressRejectedError" for seen vs
    by (induction vs arbitrary: seen) (auto simp: bnd_Inl_iff dest: pair)
  have tok: "ingress_token s = Inl e \<Longrightarrow> e = IngressRejectedError" for s
    by (auto simp: ingress_token_def split: if_splits)
  show "parse_dev_promotion_ingress m p h b r = Inl e \<Longrightarrow> e = IngressRejectedError"
    by (auto simp: parse_dev_promotion_ingress_def bnd_Inl_iff dest: values' tok split: pyval.splits reply.splits if_splits)
qed

text \<open>
  A caller sees one of three fixed responses, whatever the request, the handler and its collaborators do; only a control
  exception passes.
\<close>

theorem dispatch_closed:
  "case fst (dispatch_inert_dev_promotion_ingress handler m p h b r w) of
     Inr resp \<Rightarrow> (ir_status resp, ir_body resp) \<in> {(202, ACCEPTED_BODY), (403, REJECTED_BODY), (503, UNAVAILABLE_BODY)} \<and>
       ir_content_type resp = ''application/json''
   | Inl e \<Rightarrow> e \<in> {KeyboardInterrupt, SystemExit, GeneratorExit}"
proof -
  let ?ok = "\<lambda>x. x \<in> {(202, ACCEPTED_BODY), (403, REJECTED_BODY), (503, UNAVAILABLE_BODY)}"
  have caught: "caught IngressRejectedError [IngressRejectedError]" by code_simp
  have call: "case fst (call_handler handler q w) of Inr x \<Rightarrow> ?ok x | Inl e \<Rightarrow> \<not> is_Exception e" for q
    by (auto simp: call_handler_def act_catch_def act_bind_def split: sum.splits prod.splits if_splits reply.splits)
  show ?thesis
  proof (cases "parse_dev_promotion_ingress m p h b r")
    case (Inl e)
    then have "e = IngressRejectedError" by (rule parse_ingress_Inl)
    with Inl show ?thesis
      by (simp add: dispatch_inert_dev_promotion_ingress_def act_bind_def caught ingress_response_init_def)
  next
    case (Inr q)
    then show ?thesis
      using call [of q]
      by (auto simp: dispatch_inert_dev_promotion_ingress_def act_bind_def ingress_response_init_def is_Exception_def
          split: sum.splits prod.splits if_splits)
  qed
qed

text \<open>
  From the HTTP request to the broker: when the answer is 202, the body is the canonical encoding of a well-formed promotion
  request, and the broker returned a response for it with the tokens and the time of this request.
\<close>

theorem accepted_promotion_forwarded:
  assumes "dispatch_inert_dev_promotion_ingress (Some (Function (handle_promotion br))) m p h b r w = (Inr resp, w')"
    and "ir_status resp = 202"
  shows "\<exists>q promotion response. parse_dev_promotion_ingress m p h b r = Inr q \<and> wf_request promotion \<and>
    pi_promotion_request q = request_canonical_bytes promotion \<and>
    authorize_promotion_and_forward br (PStr (pi_compact_token q)) (request_to_dict promotion)
      (PList [PStr (pi_zot_token q), PStr (pi_forgejo_token q)]) (PInt (pi_received_at q)) w = (Inr response, w')"
proof (cases "parse_dev_promotion_ingress m p h b r")
  case (Inl e)
  then show ?thesis
    using assms by (auto simp: dispatch_inert_dev_promotion_ingress_def act_bind_def ingress_response_init_def split: if_splits)
next
  case (Inr q)
  let ?handle = "handle_promotion br (PStr (pi_compact_token q)) (PStr (pi_zot_token q)) (PStr (pi_forgejo_token q))
    (Bytes (pi_promotion_request q)) (PInt (pi_received_at q))"
  have "call_handler (Some (Function (handle_promotion br))) q w = (Inr (202, ACCEPTED_BODY), w')"
    using assms Inr
    by (auto simp: dispatch_inert_dev_promotion_ingress_def act_bind_Inr_iff ingress_response_init_def split: if_splits)
  then obtain x where run: "?handle w = (Inr x, w')"
    by (auto simp: call_handler_def act_catch_def act_bind_def bound_operation_def
        split: sum.splits prod.splits if_splits reply.splits)
  then obtain promotion response where *: "parse_promotion (pi_promotion_request q) = Inr promotion"
      "authorize_promotion_and_forward br (PStr (pi_compact_token q)) (request_to_dict promotion)
        (PList [PStr (pi_zot_token q), PStr (pi_forgejo_token q)]) (PInt (pi_received_at q)) w = (Inr response, w')"
    by (auto simp: handle_promotion_def act_bind_Inr_iff split: if_splits)
  from *(1) have "wf_request promotion \<and> pi_promotion_request q = request_canonical_bytes promotion"
    by (auto simp: parse_promotion_def request_from_dict_Inr split: if_splits)
  with Inr *(2) show ?thesis by blast
qed

end
