(* ===== verification/Spec2Isabelle.thy ===== *)
theory Spec2Isabelle
  imports Controller Replay Deploy_Live Exchange Store_Live Jwks_Cache Ingress
begin

text \<open>
  Verification of the deployment control plane of \<open>src/deployment\<close>: the code that decides whether a release may
  be promoted to an environment and that carries the decision out.

  \<^bold>\<open>The program.\<close>  A continuous integration job presents a GitHub OIDC token and a promotion request in one framed HTTP
  request (\<open>broker_https_ingress.py\<close>), which a handler (\<open>broker_integration.py\<close>) gives to the broker.  The broker
  (\<open>broker.py\<close>) has the token verified (\<open>oidc_verifier.py\<close>, with the keys of \<open>jwks.py\<close>), authorizes its claims (\<open>identity.py\<close>), has the release evidence checked
  (\<open>promotion.py\<close>), builds the closed request of \<open>execution.py\<close>, spends the token in a durable replay guard
  (\<open>replay_sqlite.py\<close>), seals the registry credential in a memory file (\<open>private_registry_fd.py\<close>) and sends the
  request over a Unix socket (\<open>unix_transport.py\<close>).  On the other side of the privilege boundary the connection handler
  (\<open>executor_server.py\<close>) authenticates its peer, reads one bounded frame and runs the executor (\<open>executor.py\<close>), which
  parses and authorizes the request again, begins its execution in the replay guard, and calls the deployment operation
  (\<open>deployment_operation.py\<close>).  The operation plans the blue/green transition with \<open>controller.py\<close>, writes an audit
  event for every step (\<open>audit.py\<close>), stages, migrates, gates and switches, and keeps its state (\<open>state.py\<close>) in the
  state store (\<open>state_store.py\<close>).  Every module checks its inputs with the rules of \<open>policy.py\<close>.

  \<^bold>\<open>Conventions.\<close>  A Python exception is a value of \<open>Prelude.exn\<close> with the subclass relation of the source
  (\<open>caught\<close>, \<open>is_Exception\<close>); a function that may raise returns \<open>'a result\<close>, the exception or the value; code
  with effects is an \<open>act\<close>, a function from a world to a result and the world after it, so that what was done before a
  raise stays done.  A value whose Python type the code checks is a \<open>Py_Value.pyval\<close>, so that the checks are branches of
  the model.  Texts and byte strings are \<open>string\<close>.  The operating system is never assumed to cooperate: a world holds a
  schedule, an arbitrary list of faults or answers, and theorems quantify over it; where a module's calls are the subject
  of a theorem they are recorded with their answers.  Collaborators passed to a constructor are arguments of the model.

  \<^bold>\<open>The language and its library.\<close>
  \<^item> \<open>Prelude\<close>: exceptions, results, actions, the rule collections and the generic lemmas; \<open>Steps\<close>: the locale
    \<open>step_order\<close>, by which a preorder of worlds that every primitive respects is respected by every composed action;
    \<open>Traced\<close>: errors kept until a cleanup is done, and specifications over recorded calls (locale \<open>recorder\<close>).
  \<^item> \<open>Py_Regex\<close> (\<open>re.fullmatch\<close>), \<open>Py_Value\<close> (values, equality, dictionaries), \<open>Py_Text\<close> (decoding), \<open>Py_Base64\<close>, \<open>Py_Float\<close>
    (rounded double precision, for deadlines), \<open>Py_Hash\<close> (SHA-256 as a computing function), \<open>Py_Fs\<close> (file system
    calls with faults), \<open>Py_Json\<close> (\<open>json.dumps\<close> and \<open>json.loads\<close> with their hooks), \<open>Json_Roundtrip\<close> (what is
    printed is parsed back, with enough fuel).

  \<^bold>\<open>The components.\<close>  Each theory translates one file of \<open>src/deployment\<close>, its definitions in the order of the
  code.
  \<^item> \<open>Policy\<close> (\<open>policy.py\<close>), \<open>State\<close> (\<open>state.py\<close>), \<open>Promotion\<close> (\<open>promotion.py\<close>), \<open>Identity\<close> (\<open>identity.py\<close>),
    \<open>Execution\<close> (\<open>execution.py\<close>), \<open>Controller\<close> (\<open>controller.py\<close>): validators and plans.  What they accept is
    characterised from both sides; accepted data is well-formed, prints to one canonical byte string and parses back; the
    atomic write of the state leaves the old or the new file under every fault; a promotion completes exactly when its
    gates passed, and a rollback undoes it.  \<open>Identity\<close> states the contract of a replay guard as the locale
    \<open>replay_guard\<close> and interprets it on the in-memory guard.
  \<^item> \<open>Audit_Event\<close> and \<open>Audit_Sink\<close> (\<open>audit.py\<close>): events bind their request; an append that does not rotate the log extends the
    hash chain by one linked record, leaves it, or, after a short write, leaves a cut-off line; one that rotates
    puts the record alone into the new file (what becomes of the earlier files is not stated); two histories with one
    final hash are equal, or one is a suffix of the other where a rotation was dropped, or exhibit a collision.
  \<^item> \<open>Replay\<close> (\<open>replay_sqlite.py\<close>): the tables, the file checks and the checked transactions.  The interpretation
    \<open>sqlite\<close> of \<open>replay_guard\<close> gives that a token is consumed once; once consumed and begun, its execution does not begin
    again unless a later expiry is claimed for it; the table is bounded.
  \<^item> \<open>Credential\<close> (\<open>private_registry_fd.py\<close>), \<open>Broker\<close> (\<open>broker.py\<close>), \<open>Executor\<close> (\<open>executor.py\<close> and the request
    scope of \<open>private_registry_pull.py\<close>): the order of the security relevant calls on every path, and what a returned
    response implies about them.
  \<^item> \<open>Jwks\<close>, \<open>Jwks_Run\<close>, \<open>Jwks_Cache\<close> (\<open>jwks.py\<close>, over \<open>Py_Base64\<close>): the issuer's documents and signing keys.  The
    bounded walk is compared with the size of the value, base64url text is unique for its bytes, a retrieval ends by closing
    its connection.  The locked sections of \<open>get_key\<close> are the step relation \<open>cache_step\<close> of threads that share the cache:
    a key is returned from the newest published document, and waiting ends while no control exception ends a refresh,
    although refreshes are not serialized and an interrupt blocks the cache.
  \<^item> \<open>Oidc\<close> (\<open>oidc_verifier.py\<close>) and \<open>Ingress\<close> (\<open>broker_https_ingress.py\<close>, \<open>broker_integration.py\<close>): the compact
    token within its bounds, the comparison of verified and bounded claims, and what a returned identity implies, with the
    key cache and \<open>jwt.decode\<close> as arguments; the HTTP requests that are accepted, exactly, the three fixed responses, and
    that an accepted promotion was canonical and forwarded by the broker.
  \<^item> \<open>Net\<close>, \<open>Transport\<close>, \<open>Transport_Run\<close> (\<open>unix_transport.py\<close>) and \<open>Server\<close>, \<open>Server_Run\<close> (\<open>executor_server.py\<close>):
    the two ends of the socket.  The loops that read and write in pieces share the locale \<open>piece_loop\<close>.  \<open>Exchange\<close>
    puts the ends together over a stream that delivers what was written.
  \<^item> \<open>Deploy_Checks\<close>, \<open>Deploy_Facts\<close>, \<open>Deploy\<close>, \<open>Deploy_Run\<close>, \<open>Deploy_Live\<close> (\<open>deployment_operation.py\<close>): the
    collaborator checks, the snapshots, the deployment with its recovery, what its recorded calls can be, and that it
    returns on good answers.
  \<^item> \<open>Store\<close>, \<open>Store_Run\<close>, \<open>Store_Disk\<close>, \<open>Store_Live\<close> (\<open>state_store.py\<close>): the load and save of the state on a fixed
    path; descriptors, lock and gate (locales \<open>quiet_steps\<close>, \<open>reading_steps\<close>, \<open>store_steps\<close>, \<open>cleanup_steps\<close>); the
    effect of the calls on a disk with stable storage as the step relation \<open>disk_effect\<close>, and that a crash between any
    two calls leaves the state file whole.

  \<^bold>\<open>Bounds and fuel.\<close>  The JSON scanner takes fuel \<open>2 * length s + 1\<close>, which it never spends on any text
  (\<open>Json_Roundtrip.json_loads_returns\<close>); the interpreter's own recursion limit is not modelled.  Every other loop is
  structural or has a measure: the piecewise loops of the transport and the handler stop at the missing bytes, those of the
  state store at their 64 calls.  The sizes are the source's: 64 KiB requests and responses, 16 KiB states, 4300 digits for
  the conversion of integers.  Machine words occur only in SHA-256, on \<open>32 word\<close>.

  \<^bold>\<open>Not modelled.\<close>
  \<^item> Cryptography, HTTPS and subprocess boundaries: the signature check of \<open>jwt.decode\<close>, the
    exchange of registry tokens (\<open>registry_oidc_credentials.py\<close>), Cosign (\<open>blob_verifier.py\<close>, \<open>oci_verifier.py\<close>), the acquisition of releases
    (\<open>release_consumer.py\<close>) and docker (\<open>docker_runtime.py\<close>, the pull of \<open>private_registry_pull.py\<close>).  They appear as
    the collaborators that broker, executor and operation call, with any behaviour.
  \<^item> Listeners, configuration loaders, entry points and compositions: process plumbing around the modules above.
  \<^item> \<open>SQLiteReplayGuard.initialize\<close>: the one-time creation of the database, with its quarantine of a half-made file.
  \<^item> Host provisioning, rootless docker bootstrap, successor migrations, qualification and provenance modules: one-time
    scripts over pinned digests and host commands.
  \<^item> The analytics product, the release build under \<open>src/release\<close>, monitoring, tests and spikes: other programs.
\<close>

end
